(* ===== verification/Prelude.thy ===== *)
theory Prelude
  imports Main "HOL-Library.AList" "HOL-Library.List_Lexorder" "HOL-Library.Char_ord" "HOL-Library.Word"
begin

text \<open>
  Shared vocabulary of the development.

  Go's \<open>int\<close> is a 64-bit two's complement integer: it is modelled by \<open>int\<close> and every
  arithmetic operation of the source that can leave the range goes through \<open>i64\<close>, which wraps.
  Go's \<open>uint64\<close> (ticks, cursors, hashes) is \<open>64 word\<close>.  A Go map is an association list with
  distinct keys; the order of the list is one order in which \<open>range\<close> may enumerate the map, so a
  statement about all lists is a statement about all iteration orders.  A nil map and an empty map
  are the same list.  A Go string is the list of its bytes.
\<close>

named_theorems go_int \<open>facts on wrapped 64-bit integers\<close>
named_theorems gomap \<open>lookup and count after an operation on a Go map\<close>

section \<open>Machine integers\<close>

type_synonym u64 = "64 word"

definition i64 :: "int \<Rightarrow> int" where
  "i64 x = (x + 2 ^ 63) mod 2 ^ 64 - 2 ^ 63"

definition in_i64 :: "int \<Rightarrow> bool" where
  "in_i64 x \<longleftrightarrow> - (2 ^ 63) \<le> x \<and> x < 2 ^ 63"

lemma i64_id [go_int]: "in_i64 x \<Longrightarrow> i64 x = x"
  by (simp add: i64_def in_i64_def)

lemma i64_small [simp]: "- (2 ^ 62) \<le> x \<Longrightarrow> x \<le> 2 ^ 62 \<Longrightarrow> i64 x = x"
  by (rule i64_id) (simp add: in_i64_def)

lemma i64_nonneg [go_int]: "0 \<le> x \<Longrightarrow> x < 2 ^ 63 \<Longrightarrow> i64 x = x"
  by (rule i64_id) (simp add: in_i64_def)

lemma in_i64_i64 [simp]: "in_i64 (i64 x)"
  by (simp add: i64_def in_i64_def)

lemma i64_i64 [simp]: "i64 (i64 x) = i64 x"
  by (rule i64_id) simp

lemma i64_cong: "i64 x mod 2 ^ 64 = x mod 2 ^ 64"
  by (simp add: i64_def mod_diff_left_eq)

lemma i64_add_absorb: "i64 (i64 x + y) = i64 (x + y)"
proof -
  have "(i64 x + y + 2 ^ 63) mod 2 ^ 64 = (x + y + 2 ^ 63) mod 2 ^ 64"
    using mod_add_cong[OF i64_cong[of x] refl, of "y + 2 ^ 63"] by (simp add: add.assoc)
  then show ?thesis by (simp add: i64_def)
qed

lemma unat_of_nat_small: "n < 2 ^ 64 \<Longrightarrow> unat (of_nat n :: u64) = n"
  by (simp add: unsigned_of_nat take_bit_nat_eq_self)

lemma u64_unat: "of_nat (unat x) = (x :: u64)"
  by (simp add: word_unat_eq_iff unsigned_of_nat take_bit_nat_eq_self)

lemma unat_u64_less: "unat (x :: u64) < 2 ^ 64"
  using unsigned_less[of x] by simp

text \<open>\<open>AbsInt\<close> and the inlined absolute values of the source: negating the least integer wraps.\<close>

definition iabs :: "int \<Rightarrow> int" where
  "iabs x = (if x < 0 then i64 (- x) else x)"

lemma iabs_abs [go_int]: "- (2 ^ 63) < x \<Longrightarrow> x < 2 ^ 63 \<Longrightarrow> iabs x = \<bar>x\<bar>"
  by (simp add: iabs_def i64_nonneg)

text \<open>Go's division and remainder truncate towards zero.\<close>

definition tdiv :: "int \<Rightarrow> int \<Rightarrow> int" where
  "tdiv a b = sgn a * sgn b * (\<bar>a\<bar> div \<bar>b\<bar>)"

definition tmod :: "int \<Rightarrow> int \<Rightarrow> int" where
  "tmod a b = sgn a * (\<bar>a\<bar> mod \<bar>b\<bar>)"

lemma tdiv_tmod: "tdiv a b * b + tmod a b = a"
proof -
  have "sgn b * b = \<bar>b\<bar>" by (simp add: sgn_if)
  then have "sgn a * sgn b * (\<bar>a\<bar> div \<bar>b\<bar>) * b = sgn a * ((\<bar>a\<bar> div \<bar>b\<bar>) * \<bar>b\<bar>)"
    by (metis mult.assoc mult.commute)
  then have "tdiv a b * b + tmod a b = sgn a * ((\<bar>a\<bar> div \<bar>b\<bar>) * \<bar>b\<bar> + \<bar>a\<bar> mod \<bar>b\<bar>)"
    by (simp only: tdiv_def tmod_def distrib_left)
  then show ?thesis by (simp add: sgn_if)
qed

lemma tmod_nonneg: "0 \<le> a \<Longrightarrow> 0 < b \<Longrightarrow> tmod a b = a mod b"
  by (cases "a = 0") (auto simp: tmod_def sgn_if)

lemma tmod_neg: "a < 0 \<Longrightarrow> 0 < b \<Longrightarrow> tmod a b = - ((- a) mod b)"
  by (simp add: tmod_def)

section \<open>Go maps\<close>

type_synonym 'v gomap = "(string \<times> 'v) list"
type_synonym items = "int gomap"

definition wf_map :: "('k \<times> 'v) list \<Rightarrow> bool" where
  "wf_map m \<longleftrightarrow> distinct (map fst m)"

definition mput :: "'k \<Rightarrow> 'v \<Rightarrow> ('k \<times> 'v) list \<Rightarrow> ('k \<times> 'v) list" where
  "mput k v m = AList.update k v m"

definition mdel :: "'k \<Rightarrow> ('k \<times> 'v) list \<Rightarrow> ('k \<times> 'v) list" where
  "mdel k m = AList.delete k m"

text \<open>Indexing a \<open>map[string]int\<close> gives zero for an absent key.\<close>

definition cnt :: "('k \<times> int) list \<Rightarrow> 'k \<Rightarrow> int" where
  "cnt m k = (case map_of m k of None \<Rightarrow> 0 | Some n \<Rightarrow> n)"

text \<open>\<open>m[k] += n\<close>, \<open>m[k] -= n\<close> and the recurring \<open>if m[k] <= 0 { delete(m, k) }\<close>.\<close>

definition madd :: "('k \<times> int) list \<Rightarrow> 'k \<Rightarrow> int \<Rightarrow> ('k \<times> int) list" where
  "madd m k n = mput k (i64 (cnt m k + n)) m"

definition msub :: "('k \<times> int) list \<Rightarrow> 'k \<Rightarrow> int \<Rightarrow> ('k \<times> int) list" where
  "msub m k n = mput k (i64 (cnt m k - n)) m"

definition mprune :: "('k \<times> int) list \<Rightarrow> 'k \<Rightarrow> ('k \<times> int) list" where
  "mprune m k = (if cnt m k \<le> 0 then mdel k m else m)"

lemma wf_map_Nil [simp]: "wf_map []"
  by (simp add: wf_map_def)

lemma wf_map_Cons: "wf_map ((k, v) # m) \<longleftrightarrow> map_of m k = None \<and> wf_map m"
  by (auto simp: wf_map_def map_of_eq_None_iff)

lemma map_of_mput [gomap]: "map_of (mput k v m) = (map_of m)(k \<mapsto> v)"
  by (simp add: mput_def update_conv')

lemma map_of_mdel [gomap]: "map_of (mdel k m) = (map_of m)(k := None)"
  by (simp add: mdel_def delete_conv')

lemma mput_not_Nil [simp]: "mput k v m \<noteq> []" "[] \<noteq> mput k v m"
  by (cases m; auto simp: mput_def)+

lemma wf_map_mput [simp, intro]: "wf_map m \<Longrightarrow> wf_map (mput k v m)"
  by (simp add: wf_map_def mput_def distinct_update)

lemma wf_map_mdel [simp, intro]: "wf_map m \<Longrightarrow> wf_map (mdel k m)"
  by (simp add: wf_map_def mdel_def distinct_delete)

lemma wf_map_madd [simp, intro]: "wf_map m \<Longrightarrow> wf_map (madd m k n)"
  by (simp add: madd_def)

lemma wf_map_msub [simp, intro]: "wf_map m \<Longrightarrow> wf_map (msub m k n)"
  by (simp add: msub_def)

lemma wf_map_mprune [simp, intro]: "wf_map m \<Longrightarrow> wf_map (mprune m k)"
  by (simp add: mprune_def)

lemma keys_mdel: "fst ` set (mdel k m) = fst ` set m - {k}"
proof -
  have "fst ` set (mdel k m) = set (map fst (AList.delete k m))" by (simp add: mdel_def)
  also have "\<dots> = fst ` set m - {k}" by (auto simp: delete_keys)
  finally show ?thesis .
qed

lemma keys_mput: "fst ` set (mput k v m) = insert k (fst ` set m)"
  by (auto simp: mput_def update_keys simp flip: set_map split: if_splits)

lemma cnt_Nil [simp]: "cnt [] k = 0"
  by (simp add: cnt_def)

lemma cnt_Cons [simp]: "cnt ((k, n) # m) j = (if j = k then n else cnt m j)"
  by (simp add: cnt_def)

lemma cnt_mput [gomap]: "cnt (mput k v m) j = (if j = k then v else cnt m j)"
  by (simp add: cnt_def map_of_mput)

lemma cnt_mdel [gomap]: "cnt (mdel k m) j = (if j = k then 0 else cnt m j)"
  by (simp add: cnt_def map_of_mdel)

lemma cnt_madd [gomap]: "cnt (madd m k n) j = (if j = k then i64 (cnt m k + n) else cnt m j)"
  by (simp add: madd_def cnt_mput)

lemma cnt_msub [gomap]: "cnt (msub m k n) j = (if j = k then i64 (cnt m k - n) else cnt m j)"
  by (simp add: msub_def cnt_mput)

lemma cnt_mprune [gomap]: "cnt (mprune m k) j = (if j = k then max 0 (cnt m k) else cnt m j)"
  by (simp add: mprune_def cnt_mdel)

lemma cnt_absent: "k \<notin> fst ` set m \<Longrightarrow> cnt m k = 0"
  by (simp add: cnt_def map_of_eq_None_iff[THEN iffD2])

lemma cnt_in_set: "wf_map m \<Longrightarrow> (k, n) \<in> set m \<Longrightarrow> cnt m k = n"
  by (simp add: cnt_def wf_map_def)

text \<open>Sums over the entries of a map, and how storing one entry changes them.\<close>

definition msum :: "('v \<Rightarrow> int) \<Rightarrow> ('k \<times> 'v) list \<Rightarrow> int" where
  "msum f m = sum_list (map (f \<circ> snd) m)"

lemma msum_Nil [simp]: "msum f [] = 0"
  by (simp add: msum_def)

lemma msum_Cons [simp]: "msum f ((k, v) # m) = f v + msum f m"
  by (simp add: msum_def)

lemma msum_mput_None: "map_of m k = None \<Longrightarrow> msum f (mput k v m) = msum f m + f v"
  by (induction m) (auto simp: mput_def split: if_splits)

lemma msum_mput_Some:
  "map_of m k = Some u \<Longrightarrow> msum f (mput k v m) = msum f m - f u + f v"
  by (induction m) (auto simp: mput_def split: if_splits)

lemma mdel_absent: "map_of m k = None \<Longrightarrow> mdel k m = m"
  by (induction m) (auto simp: mdel_def split: if_splits)

lemma msum_mdel:
  "wf_map m \<Longrightarrow> map_of m k = Some u \<Longrightarrow> msum f (mdel k m) = msum f m - f u"
proof (induction m)
  case (Cons p m)
  show ?case
  proof (cases "fst p = k")
    case True
    with Cons.prems have "map_of m k = None" and "snd p = u"
      by (cases p, auto simp: wf_map_Cons)+
    with True show ?thesis
      by (cases p) (simp add: mdel_def mdel_absent[unfolded mdel_def])
  next
    case False
    with Cons.prems Cons.IH show ?thesis
      by (cases p) (auto simp: wf_map_Cons mdel_def)
  qed
qed simp

lemma msum_nonneg: "(\<And>k v. (k, v) \<in> set m \<Longrightarrow> 0 \<le> f v) \<Longrightarrow> 0 \<le> msum f m"
proof (induction m)
  case (Cons p m)
  have "0 \<le> f (snd p)" by (rule Cons.prems[of "fst p"]) simp
  moreover have "0 \<le> msum f m" by (rule Cons.IH) (auto intro: Cons.prems)
  ultimately show ?case by (cases p) simp
qed simp

lemma msum_ge_member:
  assumes "(k, v) \<in> set m" and "\<And>k v. (k, v) \<in> set m \<Longrightarrow> 0 \<le> f v"
  shows "f v \<le> msum f m"
  using assms
proof (induction m)
  case (Cons p m)
  have nn: "0 \<le> msum f m" by (rule msum_nonneg) (use Cons.prems(2) in auto)
  show ?case
  proof (cases "(k, v) = p")
    case True
    with nn show ?thesis by auto
  next
    case False
    with Cons.prems Cons.IH have "f v \<le> msum f m" by auto
    moreover have "0 \<le> f (snd p)" by (rule Cons.prems(2)[of "fst p"]) simp
    ultimately show ?thesis by (cases p) simp
  qed
qed simp

text \<open>The keys of a map in the order \<open>sort.Strings\<close> puts them.\<close>

definition sorted_keys :: "(string \<times> 'v) list \<Rightarrow> string list" where
  "sorted_keys m = sort (map fst m)"

lemma set_sorted_keys [simp]: "set (sorted_keys m) = fst ` set m"
  by (simp add: sorted_keys_def)

lemma sorted_sorted_keys [simp]: "sorted (sorted_keys m)"
  by (simp add: sorted_keys_def)

lemma distinct_sorted_keys [simp]: "distinct (sorted_keys m) \<longleftrightarrow> wf_map m"
  by (simp add: sorted_keys_def wf_map_def)

text \<open>Two maps that hold the same keys give the same sorted key list, whatever their order.\<close>

lemma sorted_keys_order_free:
  assumes "wf_map m" and "wf_map m'" and "fst ` set m = fst ` set m'"
  shows "sorted_keys m = sorted_keys m'"
  using assms by (intro sorted_distinct_set_unique) auto

section \<open>Loops over an item map\<close>

text \<open>
  \<open>for item, n := range items { \<dots> }\<close>: a fold over the map in its list order.
\<close>

definition for_items :: "('k \<Rightarrow> 'v \<Rightarrow> 's \<Rightarrow> 's) \<Rightarrow> ('k \<times> 'v) list \<Rightarrow> 's \<Rightarrow> 's" where
  "for_items f items s = fold (\<lambda>(k, n). f k n) items s"

lemma for_items_Nil [simp]: "for_items f [] s = s"
  by (simp add: for_items_def)

lemma for_items_Cons [simp]: "for_items f ((k, n) # items) s = for_items f items (f k n s)"
  by (simp add: for_items_def)

text \<open>
  A body that changes what is observed at its own key only: after the loop over a map with
  distinct keys, the observation at a key is what the body for that key made of it.
\<close>

lemma for_items_pointwise_inv:
  assumes wf: "wf_map items" and P: "P s"
    and inv: "\<And>k n s. (k, n) \<in> set items \<Longrightarrow> P s \<Longrightarrow> P (f k n s)"
    and other: "\<And>k n s j. P s \<Longrightarrow> j \<noteq> k \<Longrightarrow> obs (f k n s) j = obs s j"
    and own: "\<And>k n s. P s \<Longrightarrow> (k, n) \<in> set items \<Longrightarrow> obs (f k n s) k = g k n (obs s k)"
  shows "obs (for_items f items s) j =
    (case map_of items j of None \<Rightarrow> obs s j | Some n \<Rightarrow> g j n (obs s j))"
  using wf P inv own
proof (induction items arbitrary: s)
  case (Cons p items)
  obtain k n where p: "p = (k, n)" by (cases p)
  from Cons.prems(1) p have wf': "wf_map items" and nk: "map_of items k = None"
    by (auto simp: wf_map_Cons)
  have P': "P (f k n s)" using Cons.prems(2,3) p by simp
  have IH: "obs (for_items f items (f k n s)) j =
    (case map_of items j of None \<Rightarrow> obs (f k n s) j | Some m \<Rightarrow> g j m (obs (f k n s) j))"
    by (rule Cons.IH[OF wf' P']) (use Cons.prems(3,4) in auto)
  show ?case
  proof (cases "j = k")
    case True
    with IH nk Cons.prems(2) Cons.prems(4)[of s k n] p show ?thesis by simp
  next
    case False
    with other[OF Cons.prems(2), of j k n] have "obs (f k n s) j = obs s j" by simp
    with IH p False show ?thesis by (simp split: option.split)
  qed
qed simp

lemma for_items_pointwise:
  assumes "wf_map items"
    and "\<And>k n s j. j \<noteq> k \<Longrightarrow> obs (f k n s) j = obs s j"
    and "\<And>k n s. (k, n) \<in> set items \<Longrightarrow> obs (f k n s) k = g k n (obs s k)"
  shows "obs (for_items f items s) j =
    (case map_of items j of None \<Rightarrow> obs s j | Some n \<Rightarrow> g j n (obs s j))"
  by (rule for_items_pointwise_inv[where P = "\<lambda>_. True"]) (simp_all add: assms)

lemma for_items_invariant:
  assumes "P s" and "\<And>k n s. (k, n) \<in> set items \<Longrightarrow> P s \<Longrightarrow> P (f k n s)"
  shows "P (for_items f items s)"
  using assms by (induction items arbitrary: s) auto

section \<open>Strings\<close>

text \<open>
  \<open>strings.TrimSpace\<close> on the UTF-8 bytes: the encodings of the code points for which
  \<open>unicode.IsSpace\<close> holds, dropped at both ends as long as one matches.
\<close>

definition space_seqs :: "string list" where
  "space_seqs = map (map char_of)
     ([[9], [10], [11], [12], [13], [32], [194, 133], [194, 160], [225, 154, 128],
       [226, 128, 168], [226, 128, 169], [226, 128, 175], [226, 129, 159], [227, 128, 128]
      ] @ map (\<lambda>n. [226, 128, n]) [128 ..< 139] :: nat list list)"

fun starts_with :: "string \<Rightarrow> string \<Rightarrow> bool" where
  "starts_with [] s = True"
| "starts_with (p # ps) [] = False"
| "starts_with (p # ps) (c # s) = (p = c \<and> starts_with ps s)"

text \<open>The recursion of the trim drops at least one byte per step; \<open>length s\<close> steps are enough.\<close>

fun trim_from :: "nat \<Rightarrow> string list \<Rightarrow> string \<Rightarrow> string" where
  "trim_from 0 seqs s = s"
| "trim_from (Suc n) seqs s =
     (case find (\<lambda>p. starts_with p s) seqs of
        None \<Rightarrow> s
      | Some p \<Rightarrow> trim_from n seqs (drop (length p) s))"

definition trim_space :: "string \<Rightarrow> string" where
  "trim_space s =
     (let l = trim_from (length s) space_seqs s
      in rev (trim_from (length l) (map rev space_seqs) (rev l)))"

text \<open>
  \<open>strings.ToUpper\<close> is only ever compared with ASCII constants.  ASCII letters are mapped, and the
  two non-ASCII runes whose upper case is ASCII (dotless i and long s); every other multi-byte
  sequence stays non-ASCII under the real function and is left as it is here, so the comparisons
  have the same result.
\<close>

fun to_upper :: "string \<Rightarrow> string" where
  "to_upper [] = []"
| "to_upper [c] = [if c \<ge> CHR ''a'' \<and> c \<le> CHR ''z'' then char_of (of_char c - (32::nat)) else c]"
| "to_upper (c # d # s) =
     (if of_char c = (196::nat) \<and> of_char d = (177::nat) then CHR ''I'' # to_upper s
      else if of_char c = (197::nat) \<and> of_char d = (191::nat) then CHR ''S'' # to_upper s
      else (if c \<ge> CHR ''a'' \<and> c \<le> CHR ''z'' then char_of (of_char c - (32::nat)) else c)
             # to_upper (d # s))"

lemma trim_space_Nil [simp]: "trim_space [] = []"
  by (simp add: trim_space_def)

text \<open>Decimal rendering: \<open>%d\<close> and \<open>%06d\<close> of \<open>fmt.Sprintf\<close>.\<close>

definition digit :: "nat \<Rightarrow> char" where
  "digit d = char_of (48 + d)"

fun dec_nat :: "nat \<Rightarrow> string" where
  "dec_nat n = (if n < 10 then [digit n] else dec_nat (n div 10) @ [digit (n mod 10)])"

declare dec_nat.simps [simp del]

definition dec_int :: "int \<Rightarrow> string" where
  "dec_int i = (if i < 0 then CHR ''-'' # dec_nat (nat (- i)) else dec_nat (nat i))"

definition pad_dec :: "nat \<Rightarrow> u64 \<Rightarrow> string" where
  "pad_dec w n = (let s = dec_nat (unat n) in replicate (w - length s) (CHR ''0'') @ s)"

text \<open>A rule outcome of the validation functions: \<open>(ok, code, msg)\<close>.\<close>

type_synonym verdict = "bool \<times> string \<times> string"

definition accept :: verdict where
  "accept = (True, '''', '''')"

definition refuse :: "string \<Rightarrow> string \<Rightarrow> verdict" where
  "refuse code msg = (False, code, msg)"

lemma accept_fst [simp]: "fst accept"
  by (simp add: accept_def)

lemma refuse_fst [simp]: "\<not> fst (refuse c m)"
  by (simp add: refuse_def)

lemma refuse_code [simp]: "fst (snd (refuse c m)) = c"
  by (simp add: refuse_def)

end
