(* ===== verification/Logic_Helpers.thy ===== *)
theory Logic_Helpers
  imports Prelude
begin

text \<open>
  The pure helpers of \<open>internal/sim/world/logic\<close>: the sliding rate window
  (\<open>rates/window.go\<close>), floor division and the coordinate hashes (\<open>mathx/math.go\<close>,
  \<open>directorcenter/center.go\<close>), blueprint rotation, placement check and remaining cost
  (\<open>blueprint/*.go\<close>), and the identifiers of block containers (\<open>ids/*.go\<close>).
\<close>

unbundle bit_operations_syntax

section \<open>Rate windows\<close>

text \<open>\<open>rates.Allow\<close>: new start, new count, allowed, cooldown.  Tick arithmetic wraps.\<close>

definition rates_allow :: "u64 \<Rightarrow> u64 \<Rightarrow> int \<Rightarrow> u64 \<Rightarrow> int \<Rightarrow> u64 \<times> int \<times> bool \<times> u64" where
  "rates_allow nowTick startTick count window maxn =
     (if window = 0 \<or> maxn \<le> 0 then (startTick, count, True, 0)
      else
        let (newStart, newCount) =
              (if nowTick - startTick \<ge> window then (nowTick, 0) else (startTick, count));
            newCount = i64 (newCount + 1)
        in if newCount \<le> maxn then (newStart, newCount, True, 0)
           else (newStart, newCount, False, (newStart + window) - nowTick))"

section \<open>Floor division and hashes\<close>

definition FloorDiv :: "int \<Rightarrow> int \<Rightarrow> int" where
  "FloorDiv a b = (let q = tdiv a b; r = tmod a b in if r < 0 then i64 (q - 1) else q)"

definition Mod :: "int \<Rightarrow> int \<Rightarrow> int" where
  "Mod a b = (let m = tmod a b in if m < 0 then i64 (m + b) else m)"

definition mix64 :: "u64 \<Rightarrow> u64" where
  "mix64 z0 =
     (let z = z0 + 0x9e3779b97f4a7c15;
          z = (z XOR drop_bit 30 z) * 0xbf58476d1ce4e5b9;
          z = (z XOR drop_bit 27 z) * 0x94d049bb133111eb
      in z XOR drop_bit 31 z)"

text \<open>\<open>uint64(uint32(int32(x)))\<close> keeps the low 32 bits.\<close>

definition low32 :: "int \<Rightarrow> u64" where
  "low32 x = ucast (word_of_int x :: 32 word)"

definition Hash2 :: "int \<Rightarrow> int \<Rightarrow> int \<Rightarrow> u64" where
  "Hash2 seed x z =
     mix64 (word_of_int seed XOR (low32 x * 0x9e3779b97f4a7c15) XOR (low32 z * 0xbf58476d1ce4e5b9))"

definition Hash3 :: "int \<Rightarrow> int \<Rightarrow> int \<Rightarrow> int \<Rightarrow> u64" where
  "Hash3 seed x y z =
     mix64 (word_of_int seed XOR (low32 x * 0x9e3779b97f4a7c15) XOR (low32 y * 0xc2b2ae3d27d4eb4f)
              XOR (low32 z * 0xbf58476d1ce4e5b9))"

section \<open>Picking the centre of a world event\<close>

definition HashEventID :: "string \<Rightarrow> int" where
  "HashEventID eid =
     uint (ucast (fold (\<lambda>c h. (h XOR of_nat (of_char c)) * 1099511628211) eid
                    (1469598103934665603 :: u64)) :: 32 word)"

text \<open>
  \<open>PickEventCenter\<close> (\<open>directorcenter/center.go\<close>): the loop over at most 32 attempts is a
  recursion on the attempts left; \<open>occupied = None\<close> stands for a nil callback.
\<close>

type_synonym cpos = "int \<times> int \<times> int"

fun pick_attempts :: "nat \<Rightarrow> int \<Rightarrow> int \<Rightarrow> int \<Rightarrow> int \<Rightarrow> int \<Rightarrow> int \<Rightarrow> int \<Rightarrow> (cpos \<Rightarrow> bool) option \<Rightarrow> cpos" where
  "pick_attempts 0 attempt seed eh now boundary margin span occupied = (0, 0, 0)"
| "pick_attempts (Suc left) attempt seed eh now boundary margin span occupied =
     (let hx = Hash3 seed eh now (attempt * 2);
          hz = Hash3 seed eh now (attempt * 2 + 1);
          x = i64 (i64 (- boundary + margin) + uint (hx mod word_of_int span));
          z = i64 (i64 (- boundary + margin) + uint (hz mod word_of_int span));
          p = (x, 0, z)
      in if (case occupied of None \<Rightarrow> False | Some occ \<Rightarrow> occ p)
         then pick_attempts left (attempt + 1) seed eh now boundary margin span occupied
         else p)"

definition PickEventCenter :: "int \<Rightarrow> int \<Rightarrow> u64 \<Rightarrow> string \<Rightarrow> (cpos \<Rightarrow> bool) option \<Rightarrow> cpos" where
  "PickEventCenter seed boundary0 nowTick eid occupied =
     (let boundary = (if boundary0 \<le> 0 then 4000 else boundary0);
          span = i64 (i64 (boundary * 2) - 64 * 2);
          (margin, span) =
            (if span \<le> 0
             then (0, if i64 (boundary * 2) \<le> 0 then 1 else i64 (boundary * 2))
             else (64, span))
      in pick_attempts 32 0 seed (HashEventID eid) (sint nowTick) boundary margin span occupied)"

section \<open>Blueprints\<close>

definition NormalizeRotation :: "int \<Rightarrow> int" where
  "NormalizeRotation r0 =
     (let r = (if tmod r0 90 = 0 \<and> (r0 > 3 \<or> r0 < -3) then tdiv r0 90 else r0);
          r = tmod r 4
      in if r < 0 then i64 (r + 4) else r)"

definition RotateXZ :: "int \<Rightarrow> int \<Rightarrow> int \<Rightarrow> int \<times> int" where
  "RotateXZ x z rot =
     (let q = rot mod 4 \<comment> \<open>\<open>rot & 3\<close> on two's complement\<close>
      in if q = 0 then (x, z)
         else if q = 1 then (z, i64 (- x))
         else if q = 2 then (i64 (- x), i64 (- z))
         else (i64 (- z), x))"

definition RotateOffset :: "int \<times> int \<times> int \<Rightarrow> int \<Rightarrow> int \<times> int \<times> int" where
  "RotateOffset off rot =
     (case off of (x, y, z) \<Rightarrow> let (rx, rz) = RotateXZ x z rot in (rx, y, rz))"

type_synonym blockid = "16 word"

record placement =
  pb_pos :: "int \<times> int \<times> int"
  pb_block :: string

text \<open>\<open>CheckPlaced\<close>: the loop returns false at the first block that is unknown or not in place.\<close>

fun check_blocks :: "(int \<Rightarrow> int \<Rightarrow> int \<Rightarrow> blockid) \<Rightarrow> blockid gomap \<Rightarrow> int \<times> int \<times> int \<Rightarrow> int \<Rightarrow> placement list \<Rightarrow> bool" where
  "check_blocks getBlock blockIndex anchor rot [] = True"
| "check_blocks getBlock blockIndex anchor rot (b # bs) =
     (case map_of blockIndex (pb_block b) of
        None \<Rightarrow> False
      | Some want \<Rightarrow>
          (case (RotateOffset (pb_pos b) rot, anchor) of ((ox, oy, oz), (ax, ay, az)) \<Rightarrow>
             if getBlock (i64 (ax + ox)) (i64 (ay + oy)) (i64 (az + oz)) \<noteq> want then False
             else check_blocks getBlock blockIndex anchor rot bs))"

definition CheckPlaced :: "(int \<Rightarrow> int \<Rightarrow> int \<Rightarrow> blockid) option \<Rightarrow> blockid gomap \<Rightarrow> placement list \<Rightarrow> int \<times> int \<times> int \<Rightarrow> int \<Rightarrow> bool" where
  "CheckPlaced getBlock blockIndex blocks anchor rotation =
     (case getBlock of
        None \<Rightarrow> False
      | Some gb \<Rightarrow>
          if blocks = [] then False
          else check_blocks gb blockIndex anchor (NormalizeRotation rotation) blocks)"

fun RemainingCost :: "(string \<times> int) list \<Rightarrow> items \<Rightarrow> (string \<times> int) list" where
  "RemainingCost [] alreadyCorrect = []"
| "RemainingCost ((item, count) # cost) alreadyCorrect =
     (if item = [] \<or> count \<le> 0 then RemainingCost cost alreadyCorrect
      else
        let k = cnt alreadyCorrect item;
            n = (if k > 0 then (if k \<ge> count then 0 else count - k) else count)
        in if n > 0 then (item, n) # RemainingCost cost alreadyCorrect
           else RemainingCost cost alreadyCorrect)"

definition FullySatisfied :: "int \<Rightarrow> int \<Rightarrow> bool" where
  "FullySatisfied correct tot \<longleftrightarrow> tot > 0 \<and> correct = tot"

section \<open>Container identifiers\<close>

definition ContainerID :: "string \<Rightarrow> int \<Rightarrow> int \<Rightarrow> int \<Rightarrow> string" where
  "ContainerID typ x y z =
     typ @ ''@'' @ dec_int x @ '','' @ dec_int y @ '','' @ dec_int z"

text \<open>\<open>strings.Split\<close> at every separator, and \<open>strings.SplitN(_, "@", 2)\<close> at the first.\<close>

fun split_on :: "char \<Rightarrow> string \<Rightarrow> string list" where
  "split_on sep [] = [[]]"
| "split_on sep (c # s) =
     (if c = sep then [] # split_on sep s
      else case split_on sep s of [] \<Rightarrow> [[c]] | p # ps \<Rightarrow> (c # p) # ps)"

fun cut :: "char \<Rightarrow> string \<Rightarrow> (string \<times> string) option" where
  "cut sep [] = None"
| "cut sep (c # s) =
     (if c = sep then Some ([], s)
      else case cut sep s of None \<Rightarrow> None | Some (a, b) \<Rightarrow> Some (c # a, b))"

text \<open>
  \<open>strconv.ParseUint(s, 10, 64)\<close> and \<open>strconv.Atoi\<close>: decimal digits only, at least one, no
  underscore, out of range is an error; \<open>Atoi\<close> accepts one sign.
\<close>

definition digit_val :: "char \<Rightarrow> nat option" where
  "digit_val c = (let n = of_char c in if 48 \<le> n \<and> n \<le> (57::nat) then Some (n - 48) else None)"

fun parse_digits :: "nat \<Rightarrow> string \<Rightarrow> nat option" where
  "parse_digits acc [] = Some acc"
| "parse_digits acc (c # s) =
     (case digit_val c of None \<Rightarrow> None | Some d \<Rightarrow> parse_digits (10 * acc + d) s)"

definition parse_nat :: "string \<Rightarrow> nat option" where
  "parse_nat s = (if s = [] then None else parse_digits 0 s)"

definition ParseUint :: "string \<Rightarrow> u64 option" where
  "ParseUint s =
     (case parse_nat s of None \<Rightarrow> None | Some n \<Rightarrow> if n < 2 ^ 64 then Some (of_nat n) else None)"

definition Atoi :: "string \<Rightarrow> int option" where
  "Atoi s =
     (case s of
        [] \<Rightarrow> None
      | c # t \<Rightarrow>
          if c = CHR ''-'' then
            (case parse_nat t of None \<Rightarrow> None
             | Some n \<Rightarrow> if int n \<le> 2 ^ 63 then Some (- int n) else None)
          else
            (case parse_nat (if c = CHR ''+'' then t else s) of None \<Rightarrow> None
             | Some n \<Rightarrow> if int n < 2 ^ 63 then Some (int n) else None))"

definition ParseContainerID :: "string \<Rightarrow> (string \<times> int \<times> int \<times> int) option" where
  "ParseContainerID cid =
     (case cut (CHR ''@'') cid of
        None \<Rightarrow> None
      | Some (typ, rest) \<Rightarrow>
          (case split_on (CHR '','') rest of
             [cx, cy, cz] \<Rightarrow>
               (case (Atoi cx, Atoi cy, Atoi cz) of
                  (Some x, Some y, Some z) \<Rightarrow> Some (typ, x, y, z)
                | _ \<Rightarrow> None)
           | _ \<Rightarrow> None))"

definition SignIDAt :: "int \<Rightarrow> int \<Rightarrow> int \<Rightarrow> string" where
  "SignIDAt x y z = ContainerID ''SIGN'' x y z"

definition ConveyorIDAt :: "int \<Rightarrow> int \<Rightarrow> int \<Rightarrow> string" where
  "ConveyorIDAt x y z = ContainerID ''CONVEYOR'' x y z"

definition SwitchIDAt :: "int \<Rightarrow> int \<Rightarrow> int \<Rightarrow> string" where
  "SwitchIDAt x y z = ContainerID ''SWITCH'' x y z"

definition MaxU64 :: "u64 \<Rightarrow> u64 \<Rightarrow> u64" where
  "MaxU64 a b = (if a \<ge> b then a else b)"

definition ParseUintAfterPrefix :: "string \<Rightarrow> string \<Rightarrow> u64 option" where
  "ParseUintAfterPrefix pre s =
     (if \<not> starts_with pre s then None else ParseUint (drop (length pre) s))"

text \<open>\<open>strings.LastIndexByte\<close>, as the text after the last separator.\<close>

definition after_last :: "char \<Rightarrow> string \<Rightarrow> string option" where
  "after_last sep s = (if sep \<in> set s then Some (rev (takeWhile (\<lambda>c. c \<noteq> sep) (rev s))) else None)"

definition ParseLandNum :: "string \<Rightarrow> u64 option" where
  "ParseLandNum s =
     (case after_last (CHR ''_'') s of
        None \<Rightarrow> None
      | Some t \<Rightarrow> if t = [] then None else ParseUint t)"

section \<open>Properties\<close>

subsection \<open>Floor division\<close>

lemma FloorDiv_eq_div:
  assumes "0 < b" and "in_i64 a"
  shows "FloorDiv a b = a div b"
proof (cases "0 \<le> a")
  case True
  have "\<not> a mod b < 0" using assms(1) by (simp add: not_less)
  with True assms(1) show ?thesis
    by (cases "a = 0") (auto simp: FloorDiv_def Let_def tdiv_def tmod_nonneg)
next
  case False
  have q: "tdiv a b = - ((- a) div b)" using False assms(1) by (simp add: tdiv_def)
  have r: "tmod a b = - ((- a) mod b)" using False assms(1) by (simp add: tmod_neg)
  show ?thesis
  proof (cases "(- a) mod b = 0")
    case True
    then have "a div b = - ((- a) div b)"
      by (metis add.inverse_inverse zdiv_zminus1_eq_if assms(1) less_irrefl)
    with True q r show ?thesis by (simp add: FloorDiv_def Let_def)
  next
    case nz: False
    with assms(1) have pos: "0 < (- a) mod b"
      by (simp add: order_less_le)
    have "a div b = - ((- a) div b) - 1"
      using nz zdiv_zminus1_eq_if[of b "- a"] assms(1) by simp
    moreover have "i64 (- ((- a) div b) - 1) = - ((- a) div b) - 1"
    proof (rule i64_id)
      have "b \<noteq> 1" using nz by auto
      then have "(- a) div b < - a" using False assms(1) int_div_less_self[of "- a" b] by linarith
      moreover have "0 \<le> (- a) div b" using False assms(1) by (simp add: pos_imp_zdiv_nonneg_iff)
      ultimately show "in_i64 (- ((- a) div b) - 1)"
        using assms(2) nz by (auto simp: in_i64_def)
    qed
    ultimately show ?thesis using q r pos by (simp add: FloorDiv_def Let_def)
  qed
qed

lemma Mod_eq_mod:
  assumes "0 < b" and "b \<le> 2 ^ 62" and "in_i64 a"
  shows "Mod a b = a mod b"
proof (cases "0 \<le> a")
  case True
  have "\<not> a mod b < 0" using assms(1) by (simp add: not_less)
  with True assms(1) show ?thesis by (simp add: Mod_def Let_def tmod_nonneg)
next
  case False
  have r: "tmod a b = - ((- a) mod b)" using False assms(1) by (simp add: tmod_neg)
  show ?thesis
  proof (cases "(- a) mod b = 0")
    case True
    then have "a mod b = 0" by (simp add: zmod_zminus1_eq_if[of "- a" b, simplified])
    with True r show ?thesis by (simp add: Mod_def Let_def)
  next
    case nz: False
    with assms(1) have pos: "0 < (- a) mod b"
      by (simp add: order_less_le)
    have lt: "(- a) mod b < b" using assms(1) by simp
    have "a mod b = b - (- a) mod b"
      using nz zmod_zminus1_eq_if[of "- a" b] by simp
    with r pos lt assms(2) show ?thesis by (simp add: Mod_def Let_def)
  qed
qed

subsection \<open>Rotation\<close>

lemma tmod_abs_less:
  assumes "0 < b"
  shows "- b < tmod a b" and "tmod a b < b"
proof -
  have nn: "0 \<le> x mod b" "x mod b < b" for x using assms by simp_all
  have "tmod a b = a mod b \<or> tmod a b = - ((- a) mod b)"
    using assms by (cases "a < 0") (simp_all add: tmod_neg tmod_nonneg)
  then show "- b < tmod a b" and "tmod a b < b"
    using nn[of a] nn[of "- a"] assms by linarith+
qed

lemma quarter_range:
  "0 \<le> (if tmod a 4 < 0 then i64 (tmod a 4 + 4) else tmod a 4)"
  "(if tmod a 4 < 0 then i64 (tmod a 4 + 4) else tmod a 4) < 4"
  using tmod_abs_less[of 4 a] by auto

lemma NormalizeRotation_range: "0 \<le> NormalizeRotation r \<and> NormalizeRotation r < 4"
  unfolding NormalizeRotation_def Let_def by (intro conjI quarter_range)

lemma NormalizeRotation_id: "0 \<le> r \<Longrightarrow> r < 4 \<Longrightarrow> NormalizeRotation r = r"
  by (auto simp: NormalizeRotation_def Let_def tmod_nonneg)

lemma RotateXZ_add:
  assumes "in_i64 x" and "in_i64 z" and "x \<noteq> - (2 ^ 63)" and "z \<noteq> - (2 ^ 63)"
  shows "(case RotateXZ x z p of (x', z') \<Rightarrow> RotateXZ x' z' q) = RotateXZ x z (p + q)"
proof -
  have neg: "i64 (- x) = - x" "i64 (- z) = - z"
    using assms by (auto simp: in_i64_def intro!: i64_id)
  have xx: "i64 x = x" "i64 z = z" using assms by (simp_all add: i64_id)
  define pm qm where "pm = p mod 4" and "qm = q mod 4"
  have m: "(p + q) mod 4 = (pm + qm) mod 4" by (simp add: pm_def qm_def mod_add_eq)
  have p: "pm \<in> {0, 1, 2, 3}" and q: "qm \<in> {0, 1, 2, 3}"
    unfolding pm_def qm_def using pos_mod_bound[of 4 p] pos_mod_sign[of 4 p] pos_mod_bound[of 4 q] pos_mod_sign[of 4 q]
    by auto
  show ?thesis using p q
    by (elim insertE emptyE) (simp_all add: RotateXZ_def Let_def m pm_def[symmetric] qm_def[symmetric] neg xx)
qed

subsection \<open>Blueprint placement\<close>

lemma check_blocks_iff:
  "check_blocks gb idx (ax, ay, az) rot bs \<longleftrightarrow>
    (\<forall>b \<in> set bs. case RotateOffset (pb_pos b) rot of (ox, oy, oz) \<Rightarrow>
       map_of idx (pb_block b) = Some (gb (i64 (ax + ox)) (i64 (ay + oy)) (i64 (az + oz))))"
  by (induction bs) (auto split: option.splits prod.splits)

lemma RemainingCost_positive: "(i, n) \<in> set (RemainingCost cost ac) \<Longrightarrow> 0 < n \<and> i \<noteq> []"
  by (induction cost ac rule: RemainingCost.induct) (auto simp: Let_def split: if_splits)

lemma RemainingCost_spec:
  "RemainingCost cost ac =
    map (\<lambda>(i, c). (i, c - max 0 (cnt ac i)))
      (filter (\<lambda>(i, c). i \<noteq> [] \<and> 0 < c \<and> cnt ac i < c) cost)"
  by (induction cost ac rule: RemainingCost.induct) (auto simp: Let_def max_def)

subsection \<open>The identifiers parse back\<close>

lemma digit_val_digit [simp]: "d < 10 \<Longrightarrow> digit_val (digit d) = Some d"
  by (simp add: digit_val_def digit_def of_char_of take_bit_eq_mod)

lemma digit_ne:
  assumes "d < 10"
  shows "digit d \<noteq> CHR ''@''" and "digit d \<noteq> CHR '',''" and "digit d \<noteq> CHR ''-''"
    and "digit d \<noteq> CHR ''+''" and "digit d \<noteq> CHR ''_''"
  using assms by (auto simp: digit_def dest!: arg_cong[where f = "of_char :: char \<Rightarrow> nat"] simp: take_bit_eq_mod)

lemma dec_nat_digits: "c \<in> set (dec_nat n) \<Longrightarrow> \<exists>d<10. c = digit d"
proof (induction n rule: dec_nat.induct)
  case (1 n)
  show ?case
  proof (cases "n < 10")
    case True
    with "1.prems" show ?thesis by (auto simp: dec_nat.simps[of n])
  next
    case False
    with "1.prems" have "c \<in> set (dec_nat (n div 10)) \<or> c = digit (n mod 10)"
      by (auto simp: dec_nat.simps[of n])
    moreover have "n mod 10 < 10" by simp
    ultimately show ?thesis using "1.IH"[OF False] by blast
  qed
qed

lemma dec_nat_not_Nil [simp]: "dec_nat n \<noteq> []"
  by (subst dec_nat.simps) simp

lemma parse_digits_append:
  "parse_digits acc (s @ t) = Option.bind (parse_digits acc s) (\<lambda>a. parse_digits a t)"
  by (induction acc s rule: parse_digits.induct) (auto split: option.split)

lemma parse_digits_dec_nat: "parse_digits 0 (dec_nat n) = Some n"
proof (induction n rule: dec_nat.induct)
  case (1 n)
  show ?case
  proof (cases "n < 10")
    case True
    then show ?thesis by (simp add: dec_nat.simps[of n])
  next
    case False
    with "1.IH" show ?thesis
      by (simp add: dec_nat.simps[of n] parse_digits_append)
  qed
qed

lemma parse_nat_dec_nat [simp]: "parse_nat (dec_nat n) = Some n"
  by (simp add: parse_nat_def parse_digits_dec_nat)

text \<open>Zero-padded counters, as identifiers contain them, are distinct.\<close>

lemma parse_digits_zeros: "parse_digits 0 (replicate k (CHR ''0'') @ s) = parse_digits 0 s"
  by (induction k) (simp_all add: digit_val_def)

lemma pad_dec_inj: "pad_dec k m = pad_dec k n \<Longrightarrow> m = n"
proof -
  have p: "parse_digits 0 (pad_dec k n) = Some (unat n)" for n
    by (simp add: pad_dec_def Let_def parse_digits_zeros parse_digits_dec_nat)
  assume "pad_dec k m = pad_dec k n"
  then have "unat m = unat n" using p[of m] p[of n] by simp
  then show ?thesis by (simp add: word_unat_eq_iff)
qed

lemma dec_nat_no_sep:
  "CHR ''@'' \<notin> set (dec_nat n)" "CHR '','' \<notin> set (dec_nat n)" "CHR ''-'' \<notin> set (dec_nat n)"
  "CHR ''+'' \<notin> set (dec_nat n)" "CHR ''_'' \<notin> set (dec_nat n)"
  using dec_nat_digits digit_ne by metis+

lemma dec_int_no_sep: "CHR '','' \<notin> set (dec_int i)" "CHR ''@'' \<notin> set (dec_int i)"
  by (auto simp: dec_int_def dec_nat_no_sep)

lemma ParseUint_dec_nat: "n < 2 ^ 64 \<Longrightarrow> ParseUint (dec_nat n) = Some (of_nat n)"
  by (simp add: ParseUint_def)

lemma Atoi_dec_int: "in_i64 i \<Longrightarrow> Atoi (dec_int i) = Some i"
proof (cases "i < 0")
  case True
  assume "in_i64 i"
  with True show ?thesis by (simp add: Atoi_def dec_int_def in_i64_def)
next
  case False
  assume i: "in_i64 i"
  obtain c t where ct: "dec_nat (nat i) = c # t" by (cases "dec_nat (nat i)") auto
  have "c \<noteq> CHR ''-''" "c \<noteq> CHR ''+''" using dec_nat_no_sep[of "nat i"] ct by auto
  moreover have "parse_nat (c # t) = Some (nat i)" using parse_nat_dec_nat[of "nat i"] ct by simp
  ultimately show ?thesis using False i ct by (simp add: Atoi_def dec_int_def in_i64_def)
qed

lemma split_on_single: "sep \<notin> set s \<Longrightarrow> split_on sep s = [s]"
  by (induction sep s rule: split_on.induct) auto

lemma split_on_append: "sep \<notin> set s \<Longrightarrow> split_on sep (s @ sep # t) = s # split_on sep t"
  by (induction s) auto

lemma cut_append: "sep \<notin> set s \<Longrightarrow> cut sep (s @ sep # t) = Some (s, t)"
  by (induction s) auto

lemma cut_None: "cut sep s = None \<longleftrightarrow> sep \<notin> set s"
  by (induction sep s rule: cut.induct) (auto split: option.splits)

text \<open>
  Reading a container identifier back gives the block type and the coordinates it was made
  from, for every type name without an at sign and all 64-bit coordinates; so two blocks of the
  world never share an identifier.
\<close>

lemma ParseContainerID_ContainerID:
  assumes "CHR ''@'' \<notin> set typ" and "in_i64 x" and "in_i64 y" and "in_i64 z"
  shows "ParseContainerID (ContainerID typ x y z) = Some (typ, x, y, z)"
proof -
  have "cut (CHR ''@'') (ContainerID typ x y z) =
      Some (typ, dec_int x @ CHR '','' # dec_int y @ CHR '','' # dec_int z)"
    using cut_append[OF assms(1)] by (simp add: ContainerID_def)
  then show ?thesis
    by (simp add: ParseContainerID_def split_on_append split_on_single dec_int_no_sep Atoi_dec_int assms)
qed

subsection \<open>The hash finaliser loses nothing\<close>

lemma xorshift_inj:
  fixes x y :: u64
  assumes n: "0 < n" and eq: "x XOR drop_bit n x = y XOR drop_bit n y"
  shows "x = y"
proof (rule bit_word_eqI)
  fix i assume "i < LENGTH(64)"
  show "bit x i = bit y i"
  proof (induction "64 - i" arbitrary: i rule: less_induct)
    case less
    show ?case
    proof (cases "i < 64")
      case True
      then have "64 - (n + i) < 64 - i" using n by simp
      then have "bit x (n + i) = bit y (n + i)" by (rule less.hyps) 
      moreover have "bit (x XOR drop_bit n x) i = bit (y XOR drop_bit n y) i" by (simp only: eq)
      ultimately show ?thesis by (auto simp: bit_xor_iff bit_drop_bit_eq)
    next
      case False
      then show ?thesis using bit_imp_le_length[of x i] bit_imp_le_length[of y i] by auto
    qed
  qed
qed

lemma mult_inj:
  fixes x y c d :: u64
  assumes "c * d = 1" and "x * c = y * c"
  shows "x = y"
proof -
  have "x * (c * d) = y * (c * d)" using assms(2) by (simp flip: mult.assoc)
  with assms(1) show ?thesis by simp
qed

lemma mult_inj_1:
  fixes x y :: u64
  assumes "x * 0xbf58476d1ce4e5b9 = y * 0xbf58476d1ce4e5b9"
  shows "x = y"
  by (rule mult_inj[where d = "0x96de1b173f119089", OF _ assms]) simp

lemma mult_inj_2:
  fixes x y :: u64
  assumes "x * 0x94d049bb133111eb = y * 0x94d049bb133111eb"
  shows "x = y"
  by (rule mult_inj[where d = "0x319642b2d24d8ec3", OF _ assms]) simp

lemma mix64_inj:
  assumes "mix64 x = mix64 y"
  shows "x = y"
proof -
  define f where "f z = (z XOR drop_bit 30 z) * 0xbf58476d1ce4e5b9" for z :: u64
  define g where "g z = (z XOR drop_bit 27 z) * 0x94d049bb133111eb" for z :: u64
  have f: "a = b" if "f a = f b" for a b
    by (rule xorshift_inj[of 30, OF _ mult_inj_1[OF that[unfolded f_def]]]) simp
  have g: "a = b" if "g a = g b" for a b
    by (rule xorshift_inj[of 27, OF _ mult_inj_2[OF that[unfolded g_def]]]) simp
  have eq: "mix64 z = g (f (z + 0x9e3779b97f4a7c15)) XOR drop_bit 31 (g (f (z + 0x9e3779b97f4a7c15)))" for z
    by (simp only: mix64_def Let_def f_def g_def)
  have "g (f (x + 0x9e3779b97f4a7c15)) = g (f (y + 0x9e3779b97f4a7c15))"
    by (rule xorshift_inj[of 31, OF _ assms[unfolded eq]]) simp
  then have "x + 0x9e3779b97f4a7c15 = y + 0x9e3779b97f4a7c15" by (rule f[OF g])
  then show ?thesis by simp
qed

subsection \<open>Rate windows\<close>

lemma window_over_iff:
  fixes now start w :: u64
  assumes "start \<le> now"
  shows "now - start \<ge> w \<longleftrightarrow> unat start + unat w \<le> unat now"
  using assms by (simp add: word_le_nat_alt unat_sub) linarith

lemma rates_allow_refused:
  assumes "rates_allow now start c w m = (start', c', False, cd)" and "0 \<le> c" and "c \<le> 2 ^ 62 - 1"
  shows "0 < m" and "start' = start" and "c' = c + 1" and "m \<le> c" and "\<not> now - start \<ge> w"
    and "cd = (start + w) - now" and "w \<noteq> 0"
  using assms by (auto simp: rates_allow_def Let_def split: if_splits)

lemma rates_allow_accepted:
  assumes "rates_allow now start c w m = (start', c', True, cd)" and "w \<noteq> 0" and "0 < m"
    and "0 \<le> c" and "c \<le> 2 ^ 62 - 1"
  shows "cd = 0" and "c' \<le> m" and "1 \<le> c'"
    and "start' = (if now - start \<ge> w then now else start)"
  using assms by (auto simp: rates_allow_def Let_def split: if_splits)

text \<open>
  The cooldown a refused action is told is exact: after a refusal at \<open>now\<close>, a further attempt
  at a later tick \<open>t\<close> is admitted precisely when the announced number of ticks has passed, provided
  the window does not run over the end of the tick counter.
\<close>

lemma rates_cooldown_exact:
  assumes refused: "rates_allow now start c w m = (start', c', False, cd)"
    and "0 \<le> c" and "c \<le> 2 ^ 62 - 2" and "start \<le> now" and "now \<le> t"
    and "unat start + unat w < 2 ^ 64"
  shows "fst (snd (snd (rates_allow t start' c' w m))) \<longleftrightarrow> unat now + unat cd \<le> unat t"
proof -
  have c: "c \<le> 2 ^ 62 - 1" using assms(3) by simp
  note r = rates_allow_refused[OF refused assms(2) c]
  have st: "start \<le> t" using assms(4,5) by (rule order_trans)
  have sum: "unat (start + w) = unat start + unat w"
    using assms(6) by (simp add: unat_word_ariths)
  have lt: "unat now < unat start + unat w"
    using r(5) window_over_iff[OF assms(4), of w] by simp
  then have "now \<le> start + w" by (simp add: word_le_nat_alt sum)
  then have cd: "unat now + unat cd = unat start + unat w"
    using lt by (simp add: r(6) unat_sub sum)
  show ?thesis
  proof (cases "t - start \<ge> w")
    case True
    with r(1-5,7) show ?thesis
      using window_over_iff[OF st, of w] by (simp add: rates_allow_def Let_def cd)
  next
    case False
    with r(1-5,7) assms(2,3) show ?thesis
      using window_over_iff[OF st, of w] by (simp add: rates_allow_def Let_def cd)
  qed
qed

subsection \<open>Event centres stay inside the boundary\<close>

lemma centre_coord:
  assumes "0 \<le> u" and "u < 2 * b - 2 * m" and "0 \<le> m" and "b \<le> 2 ^ 60"
  shows "- b \<le> i64 (i64 (- b + m) + u) \<and> i64 (i64 (- b + m) + u) < b"
proof -
  have "i64 (- b + m) = - b + m" and "i64 (- b + m + u) = - b + m + u"
    using assms by (simp_all add: i64_small)
  then show ?thesis using assms by simp
qed

lemma word_mod_span:
  assumes "0 < span" and "span < 2 ^ 64"
  shows "0 \<le> uint (h mod word_of_int span :: u64) \<and> uint (h mod word_of_int span :: u64) < span"
proof -
  have "uint (word_of_int span :: u64) = span"
    using assms by (simp add: uint_word_of_int)
  then show ?thesis using assms by (simp add: uint_mod)
qed

lemma pick_attempts_bounds:
  assumes "0 < span" and "span = 2 * boundary - 2 * margin" and "0 \<le> margin" and "boundary \<le> 2 ^ 60"
    and "0 < boundary"
    and "pick_attempts left attempt seed eh now boundary margin span occ = (x, y, z)"
  shows "- boundary \<le> x \<and> x < boundary \<and> y = 0 \<and> - boundary \<le> z \<and> z < boundary \<and>
    ((x, y, z) = (0, 0, 0) \<or> (case occ of None \<Rightarrow> True | Some f \<Rightarrow> \<not> f (x, y, z)))"
  using assms(6)
proof (induction left arbitrary: attempt)
  case (Suc left)
  let ?c = "\<lambda>k. i64 (i64 (- boundary + margin) + uint (Hash3 seed eh now k mod word_of_int span))"
  have c: "- boundary \<le> ?c k \<and> ?c k < boundary" for k
    by (rule centre_coord) (use word_mod_span[of span "Hash3 seed eh now k"] assms in auto)
  show ?case
  proof (cases "case occ of None \<Rightarrow> False | Some f \<Rightarrow> f (?c (attempt * 2), 0, ?c (attempt * 2 + 1))")
    case True
    with Suc.prems have "pick_attempts left (attempt + 1) seed eh now boundary margin span occ = (x, y, z)"
      by (simp only: pick_attempts.simps Let_def if_True)
    then show ?thesis by (rule Suc.IH)
  next
    case False
    with Suc.prems have "(x, y, z) = (?c (attempt * 2), 0, ?c (attempt * 2 + 1))"
      by (simp only: pick_attempts.simps Let_def if_False)
    with c False show ?thesis by (auto split: option.splits)
  qed
qed (use assms in auto)

text \<open>
  Whatever the seed, the tick and the event id, the centre chosen for a world event lies on the
  ground plane inside the world boundary, and it is not an occupied position unless it is the
  documented fallback at the origin.
\<close>

lemma PickEventCenter_safe:
  assumes "boundary \<le> 2 ^ 60"
  shows "case PickEventCenter seed boundary now eid occ of (x, y, z) \<Rightarrow>
    (let b = (if boundary \<le> 0 then 4000 else boundary)
     in - b \<le> x \<and> x < b \<and> y = 0 \<and> - b \<le> z \<and> z < b) \<and>
    ((x, y, z) = (0, 0, 0) \<or> (case occ of None \<Rightarrow> True | Some f \<Rightarrow> \<not> f (x, y, z)))"
proof -
  define b where "b = (if boundary \<le> 0 then 4000 else boundary)"
  have b: "0 < b" "b \<le> 2 ^ 60" using assms by (auto simp: b_def)
  then have sm: "i64 (b * 2) = b * 2" "i64 (i64 (b * 2) - 64 * 2) = b * 2 - 128" by simp_all
  obtain x y z where p: "PickEventCenter seed boundary now eid occ = (x, y, z)"
    by (cases "PickEventCenter seed boundary now eid occ") auto
  show ?thesis
  proof (cases "b * 2 - 128 \<le> 0")
    case True
    then have "pick_attempts 32 0 seed (HashEventID eid) (sint now) b 0 (b * 2) occ = (x, y, z)"
      using p b by (simp add: PickEventCenter_def Let_def b_def[symmetric] sm)
    from pick_attempts_bounds[OF _ _ _ b(2) b(1) this] b(1) show ?thesis
      unfolding p prod.case Let_def b_def[symmetric] by auto
  next
    case False
    then have "pick_attempts 32 0 seed (HashEventID eid) (sint now) b 64 (b * 2 - 128) occ = (x, y, z)"
      using p b by (simp add: PickEventCenter_def Let_def b_def[symmetric] sm)
    from pick_attempts_bounds[OF _ _ _ b(2) b(1) this] False show ?thesis
      unfolding p prod.case Let_def b_def[symmetric] by auto
  qed
qed

end
