(* ===== verification/Kernel_Model.thy ===== *)
theory Kernel_Model
  imports Logic_Helpers Complex_Main
begin

text \<open>
  The authoritative data of the world, from \<open>internal/sim/world/kernel/model\<close> and
  \<open>internal/sim/tasks\<close>: positions, land claims, containers with their escrow and owed items,
  contracts, organizations, laws, trades, events.  Floats are real numbers: the code only compares
  and clamps the ones stored here; where it rounds, the rounding is a parameter of the definition.
\<close>

section \<open>Positions\<close>

record vec3 =
  vx :: int
  vy :: int
  vz :: int

text \<open>Positions in the order every \<open>sort.Slice\<close> of the source puts them: by x, then y, then z.\<close>

instantiation vec3_ext :: (linorder) linorder
begin

definition less_vec3_ext :: "'a vec3_scheme \<Rightarrow> 'a vec3_scheme \<Rightarrow> bool" where
  "a < b \<longleftrightarrow> vx a < vx b \<or> vx a = vx b \<and> (vy a < vy b \<or> vy a = vy b \<and>
     (vz a < vz b \<or> vz a = vz b \<and> vec3.more a < vec3.more b))"

definition less_eq_vec3_ext :: "'a vec3_scheme \<Rightarrow> 'a vec3_scheme \<Rightarrow> bool" where
  "a \<le> b \<longleftrightarrow> vx a < vx b \<or> vx a = vx b \<and> (vy a < vy b \<or> vy a = vy b \<and>
     (vz a < vz b \<or> vz a = vz b \<and> vec3.more a \<le> vec3.more b))"

instance
  by standard (auto simp: less_vec3_ext_def less_eq_vec3_ext_def)

end

definition Manhattan :: "vec3 \<Rightarrow> vec3 \<Rightarrow> int" where
  "Manhattan a b =
     (let dx = iabs (i64 (vx a - vx b)); dy = iabs (i64 (vy a - vy b)); dz = iabs (i64 (vz a - vz b))
      in i64 (i64 (dx + dy) + dz))"

definition near_origin :: "vec3 \<Rightarrow> bool" where
  "near_origin p \<longleftrightarrow> \<bar>vx p\<bar> \<le> 2 ^ 59 \<and> \<bar>vy p\<bar> \<le> 2 ^ 59 \<and> \<bar>vz p\<bar> \<le> 2 ^ 59"

section \<open>Events\<close>

text \<open>\<open>protocol.Event\<close> is a JSON object; the values the handlers put into it.\<close>

datatype jval = JU64 u64 | JInt int | JStr string | JBool bool | JPairs "(string \<times> int) list"
  | JPos int int int | JReal real | JStrs "(string \<times> string) list" | JObjs "(string \<times> jval) list list"

type_synonym event = "jval gomap"

section \<open>Land claims\<close>

record claim_flags =
  AllowBuild :: bool
  AllowBreak :: bool
  AllowDamage :: bool
  AllowTrade :: bool

record land_claim =
  LandID :: string
  Owner :: string
  ClaimType :: string
  Anchor :: vec3
  Radius :: int
  Flags :: claim_flags
  Members :: "bool gomap"
  MarketTax :: real
  CurfewEnabled :: bool
  CurfewStart :: real
  CurfewEnd :: real
  FineBreakEnabled :: bool
  FineBreakItem :: string
  FineBreakPerBlock :: int
  AccessPassEnabled :: bool
  AccessTicketItem :: string
  AccessTicketCost :: int
  MaintenanceDueTick :: u64
  MaintenanceStage :: int

definition claim_contains :: "land_claim \<Rightarrow> vec3 \<Rightarrow> bool" where
  "claim_contains c pos =
     (let dx = iabs (i64 (vx pos - vx (Anchor c))); dz = iabs (i64 (vz pos - vz (Anchor c)))
      in dx \<le> Radius c \<and> dz \<le> Radius c)"

section \<open>Containers\<close>

record container =
  CType :: string
  CPos :: vec3
  Inventory :: items
  Reserved :: items
  Owed :: "items gomap"

definition container_id :: "container \<Rightarrow> string" where
  "container_id c = ContainerID (CType c) (vx (CPos c)) (vy (CPos c)) (vz (CPos c))"

text \<open>\<open>InventoryList\<close>, of containers and agents alike: positive stacks in item order.\<close>

definition InventoryList :: "items \<Rightarrow> (string \<times> int) list" where
  "InventoryList m =
     map (\<lambda>k. (k, cnt m k)) (sort (map fst (filter (\<lambda>(k, n). 0 < n) m)))"

definition ReservedCount :: "container \<Rightarrow> string \<Rightarrow> int" where
  "ReservedCount c item = cnt (Reserved c) item"

definition AvailableCount :: "container \<Rightarrow> string \<Rightarrow> int" where
  "AvailableCount c item = i64 (cnt (Inventory c) item - ReservedCount c item)"

definition Reserve :: "string \<Rightarrow> int \<Rightarrow> container \<Rightarrow> container" where
  "Reserve item n c = (if n \<le> 0 then c else c\<lparr>Reserved := madd (Reserved c) item n\<rparr>)"

definition Unreserve :: "string \<Rightarrow> int \<Rightarrow> container \<Rightarrow> container" where
  "Unreserve item n c =
     (if n \<le> 0 \<or> Reserved c = [] then c
      else c\<lparr>Reserved := mprune (msub (Reserved c) item n) item\<rparr>)"

definition AddOwed :: "string \<Rightarrow> string \<Rightarrow> int \<Rightarrow> container \<Rightarrow> container" where
  "AddOwed agentID item n c =
     (if n \<le> 0 then c
      else
        let m = (case map_of (Owed c) agentID of None \<Rightarrow> [] | Some m \<Rightarrow> m)
        in c\<lparr>Owed := mput agentID (madd m item n) (Owed c)\<rparr>)"

definition ClaimOwed :: "string \<Rightarrow> container \<Rightarrow> items \<times> container" where
  "ClaimOwed agentID c =
     (case map_of (Owed c) agentID of
        None \<Rightarrow> ([], c)
      | Some m \<Rightarrow> (m, c\<lparr>Owed := mdel agentID (Owed c)\<rparr>))"

section \<open>Contracts, trades, laws\<close>

datatype contract_state = ContractOpen | ContractAccepted | ContractCompleted | ContractFailed

fun state_string :: "contract_state \<Rightarrow> string" where
  "state_string ContractOpen = ''OPEN''"
| "state_string ContractAccepted = ''ACCEPTED''"
| "state_string ContractCompleted = ''COMPLETED''"
| "state_string ContractFailed = ''FAILED''"

lemma state_string_eq [simp]: "state_string a = state_string b \<longleftrightarrow> a = b"
  by (cases a; cases b) auto

record contract =
  ContractID :: string
  TerminalPos :: vec3
  Poster :: string
  Acceptor :: string
  Kind :: string
  Requirements :: items
  Reward :: items
  Deposit :: items
  BlueprintID :: string
  CAnchor :: vec3
  Rotation :: int
  CreatedTick :: u64
  DeadlineTick :: u64
  CState :: contract_state

record trade =
  TradeID :: string
  TFrom :: string
  TTo :: string
  Offer :: items
  Request :: items
  TCreatedTick :: u64

datatype law_status = StatusNotice | StatusVoting | StatusActive | StatusRejected

fun law_status_string :: "law_status \<Rightarrow> string" where
  "law_status_string StatusNotice = ''NOTICE''"
| "law_status_string StatusVoting = ''VOTING''"
| "law_status_string StatusActive = ''ACTIVE''"
| "law_status_string StatusRejected = ''REJECTED''"

record law =
  LawID :: string
  LLandID :: string
  TemplateID :: string
  LTitle :: string
  Params :: "string gomap"
  ProposedBy :: string
  ProposedTick :: u64
  NoticeEndsTick :: u64
  VoteEndsTick :: u64
  LStatus :: law_status
  Votes :: "string gomap"

section \<open>Organizations\<close>

datatype org_kind = OrgGuild | OrgCity

fun org_kind_string :: "org_kind \<Rightarrow> string" where
  "org_kind_string OrgGuild = ''GUILD''"
| "org_kind_string OrgCity = ''CITY''"

datatype org_role = OrgLeader | OrgOfficer | OrgMember

text \<open>
  The field \<open>Treasury\<close> of the code is either the legacy map of its own or, after the first call of
  \<open>TreasuryFor\<close>, the same map object as one entry of \<open>TreasuryByWorld\<close>; the alias is written out.
\<close>

datatype treasury = Legacy items | ViewOf string

record organization =
  OrgID :: string
  OKind :: org_kind
  OName :: string
  OCreatedTick :: u64
  MetaVersion :: u64
  OMembers :: "org_role gomap"
  Treasury :: treasury
  TreasuryByWorld :: "items gomap"

definition treasury_key :: "string \<Rightarrow> string" where
  "treasury_key worldID = (if worldID = [] then ''GLOBAL'' else worldID)"

definition legacy_items :: "organization \<Rightarrow> items" where
  "legacy_items ob =
     (case Treasury ob of
        Legacy m \<Rightarrow> m
      | ViewOf w \<Rightarrow> (case map_of (TreasuryByWorld ob) w of None \<Rightarrow> [] | Some m \<Rightarrow> m))"

definition seed_items :: "items \<Rightarrow> items" where
  "seed_items src = for_items (\<lambda>item n m. if item = [] \<or> n \<le> 0 then m else mput item n m) src []"

text \<open>
  \<open>TreasuryFor\<close>: creates the world's map on first use, seeded from the legacy treasury when it is
  the very first one, and makes the legacy field a view of it.  The result is the updated
  organization; the map returned is \<open>treasury_of\<close>.
\<close>

definition TreasuryFor :: "string \<Rightarrow> organization \<Rightarrow> organization" where
  "TreasuryFor worldID ob =
     (let w = treasury_key worldID;
          byWorld =
            (case map_of (TreasuryByWorld ob) w of
               Some m \<Rightarrow> TreasuryByWorld ob
             | None \<Rightarrow>
                 mput w (if TreasuryByWorld ob = [] then seed_items (legacy_items ob) else [])
                   (TreasuryByWorld ob))
      in ob\<lparr>TreasuryByWorld := byWorld, Treasury := ViewOf w\<rparr>)"

definition treasury_of :: "string \<Rightarrow> organization \<Rightarrow> items" where
  "treasury_of worldID ob =
     (case map_of (TreasuryByWorld ob) (treasury_key worldID) of None \<Rightarrow> [] | Some m \<Rightarrow> m)"

definition set_treasury :: "string \<Rightarrow> items \<Rightarrow> organization \<Rightarrow> organization" where
  "set_treasury worldID m ob = ob\<lparr>TreasuryByWorld := mput (treasury_key worldID) m (TreasuryByWorld ob)\<rparr>"

section \<open>Tasks\<close>

datatype task_kind = KindMoveTo | KindFollow | KindMine | KindGather | KindPlace | KindOpen
  | KindTransfer | KindCraft | KindSmelt | KindBuildBlueprint

fun task_kind_string :: "task_kind \<Rightarrow> string" where
  "task_kind_string KindMoveTo = ''MOVE_TO''"
| "task_kind_string KindFollow = ''FOLLOW''"
| "task_kind_string KindMine = ''MINE''"
| "task_kind_string KindGather = ''GATHER''"
| "task_kind_string KindPlace = ''PLACE''"
| "task_kind_string KindOpen = ''OPEN''"
| "task_kind_string KindTransfer = ''TRANSFER''"
| "task_kind_string KindCraft = ''CRAFT''"
| "task_kind_string KindSmelt = ''SMELT''"
| "task_kind_string KindBuildBlueprint = ''BUILD_BLUEPRINT''"

record movement_task =
  MTaskID :: string
  MKind :: task_kind
  MTarget :: vec3
  Tolerance :: real
  MTargetID :: string
  Distance :: real
  StartPos :: vec3
  MStartedTick :: u64

record work_task =
  WTaskID :: string
  WKind :: task_kind
  BlockPos :: vec3
  RecipeID :: string
  ItemID :: string
  Count :: int
  WBlueprintID :: string
  WAnchor :: vec3
  WRotation :: int
  BuildIndex :: int
  WTargetID :: string
  SrcContainer :: string
  DstContainer :: string
  WStartedTick :: u64
  WorkTicks :: int

section \<open>Entities and block metadata\<close>

record item_entity =
  EntityID :: string
  EPos :: vec3
  EItem :: string
  ECount :: int
  ECreatedTick :: u64
  ExpiresTick :: u64

record sign =
  SignPos :: vec3
  SignText :: string
  SignUpdatedTick :: u64
  SignUpdatedBy :: string

record board_post =
  PostID :: string
  PostAuthor :: string
  PostTitle :: string
  PostBody :: string
  PostTick :: u64

text \<open>\<open>ConveyorMeta\<close>: the direction as two \<open>int8\<close> values, always -1, 0 or 1.\<close>

type_synonym conveyor_meta = "int \<times> int"

record built_structure =
  SBlueprintID :: string
  BuilderID :: string
  SAnchor :: vec3
  SRotation :: int
  SMin :: vec3
  SMax :: vec3
  CompletedTick :: u64
  AwardDueTick :: u64
  Awarded :: bool
  UsedBy :: "u64 gomap"
  LastInfluenceDay :: int

section \<open>Properties\<close>

subsection \<open>Distance\<close>

lemma Manhattan_exact:
  assumes "near_origin a" and "near_origin b"
  shows "Manhattan a b = \<bar>vx a - vx b\<bar> + \<bar>vy a - vy b\<bar> + \<bar>vz a - vz b\<bar>"
proof -
  have d: "\<bar>vx a - vx b\<bar> \<le> 2 ^ 60 \<and> \<bar>vy a - vy b\<bar> \<le> 2 ^ 60 \<and> \<bar>vz a - vz b\<bar> \<le> 2 ^ 60"
    using assms by (auto simp: near_origin_def)
  then have w: "i64 (vx a - vx b) = vx a - vx b" "i64 (vy a - vy b) = vy a - vy b"
    "i64 (vz a - vz b) = vz a - vz b"
    by (auto intro!: i64_small)
  have "iabs (vx a - vx b) = \<bar>vx a - vx b\<bar>" "iabs (vy a - vy b) = \<bar>vy a - vy b\<bar>"
    "iabs (vz a - vz b) = \<bar>vz a - vz b\<bar>"
    using d by (auto intro!: iabs_abs)
  with d w show ?thesis by (simp add: Manhattan_def)
qed

subsection \<open>Containers\<close>

lemma InventoryList_sorted: "sorted (map fst (InventoryList m))"
  by (simp add: InventoryList_def comp_def)

lemma InventoryList_positive:
  "wf_map m \<Longrightarrow> (k, n) \<in> set (InventoryList m) \<longleftrightarrow> map_of m k = Some n \<and> 0 < n"
  by (force simp: InventoryList_def cnt_def wf_map_def)

definition count_ok :: "int \<Rightarrow> bool" where
  "count_ok n \<longleftrightarrow> 0 \<le> n \<and> n < 2 ^ 63"

lemma count_okD [dest]: "count_ok n \<Longrightarrow> 0 \<le> n" "count_ok n \<Longrightarrow> n < 2 ^ 63"
  by (simp_all add: count_ok_def)

lemma count_ok_0 [simp]: "count_ok 0"
  by (simp add: count_ok_def)

lemma count_ok_i64 [simp]: "count_ok n \<Longrightarrow> i64 n = n"
  by (simp add: count_ok_def i64_nonneg)

lemma i64_sub_counts [simp]: "count_ok m \<Longrightarrow> count_ok n \<Longrightarrow> i64 (m - n) = m - n"
  by (rule i64_id) (simp add: count_ok_def in_i64_def)

lemma Reserved_Reserve [gomap]:
  "cnt (Reserved (Reserve item n c)) j =
    (if j = item \<and> 0 < n then i64 (cnt (Reserved c) item + n) else cnt (Reserved c) j)"
  by (auto simp: Reserve_def gomap)

lemma Reserved_Unreserve [gomap]:
  assumes "count_ok (cnt (Reserved c) item)" and "n < 2 ^ 63"
  shows "cnt (Reserved (Unreserve item n c)) j =
    (if j = item \<and> 0 < n then max 0 (cnt (Reserved c) item - n) else cnt (Reserved c) j)"
proof (cases "0 < n")
  case True
  then have "count_ok n" using assms(2) by (simp add: count_ok_def)
  with assms(1) show ?thesis by (auto simp: Unreserve_def gomap)
next
  case False
  then show ?thesis by (simp add: Unreserve_def)
qed

lemma Reserve_fields [simp]:
  "Inventory (Reserve item n c) = Inventory c" "Owed (Reserve item n c) = Owed c"
  "CPos (Reserve item n c) = CPos c" "CType (Reserve item n c) = CType c"
  by (simp_all add: Reserve_def)

lemma Unreserve_fields [simp]:
  "Inventory (Unreserve item n c) = Inventory c" "Owed (Unreserve item n c) = Owed c"
  "CPos (Unreserve item n c) = CPos c" "CType (Unreserve item n c) = CType c"
  by (simp_all add: Unreserve_def)

lemma AddOwed_fields [simp]:
  "Inventory (AddOwed a item n c) = Inventory c" "Reserved (AddOwed a item n c) = Reserved c"
  "CPos (AddOwed a item n c) = CPos c" "CType (AddOwed a item n c) = CType c"
  by (simp_all add: AddOwed_def Let_def)

lemma ClaimOwed_fields [simp]:
  "Inventory (snd (ClaimOwed a c)) = Inventory c" "Reserved (snd (ClaimOwed a c)) = Reserved c"
  "CPos (snd (ClaimOwed a c)) = CPos c" "CType (snd (ClaimOwed a c)) = CType c"
  by (simp_all add: ClaimOwed_def split: option.split)

text \<open>What one agent is owed of an item.\<close>

definition owed_count :: "container \<Rightarrow> string \<Rightarrow> string \<Rightarrow> int" where
  "owed_count c agentID item =
     (case map_of (Owed c) agentID of None \<Rightarrow> 0 | Some m \<Rightarrow> cnt m item)"

lemma owed_count_AddOwed [gomap]:
  "owed_count (AddOwed a item n c) b j =
    (if b = a \<and> j = item \<and> 0 < n then i64 (owed_count c a item + n) else owed_count c b j)"
  by (auto simp: owed_count_def AddOwed_def Let_def gomap split: option.splits)

lemma ClaimOwed_takes_all:
  "cnt (fst (ClaimOwed a c)) item = owed_count c a item"
  "owed_count (snd (ClaimOwed a c)) b item = (if b = a then 0 else owed_count c b item)"
  by (auto simp: owed_count_def ClaimOwed_def gomap split: option.splits)

subsection \<open>Treasuries\<close>

lemma cnt_seed_items:
  assumes "wf_map src"
  shows "cnt (seed_items src) j = (if j = [] then 0 else max 0 (cnt src j))"
proof -
  have "cnt (seed_items src) j =
    (case map_of src j of None \<Rightarrow> cnt [] j
     | Some n \<Rightarrow> if j = [] \<or> n \<le> 0 then cnt [] j else n)"
    unfolding seed_items_def
    by (rule for_items_pointwise[OF assms, where obs = cnt and g = "\<lambda>k n x. if k = [] \<or> n \<le> 0 then x else n"])
       (auto simp: gomap)
  then show ?thesis by (auto simp: cnt_def split: option.splits)
qed

lemma treasury_of_TreasuryFor_known:
  "map_of (TreasuryByWorld ob) (treasury_key w) = Some m \<Longrightarrow> treasury_of w (TreasuryFor w ob) = m"
  by (simp add: treasury_of_def TreasuryFor_def)

lemma treasury_of_TreasuryFor_other:
  "treasury_key v \<noteq> treasury_key w \<Longrightarrow> treasury_of v (TreasuryFor w ob) = treasury_of v ob"
  by (auto simp: treasury_of_def TreasuryFor_def Let_def gomap split: option.splits)

lemma TreasuryFor_idem: "TreasuryFor w (TreasuryFor w ob) = TreasuryFor w ob"
  by (auto simp: TreasuryFor_def Let_def gomap split: option.splits)

lemma TreasuryFor_fields [simp]:
  "OMembers (TreasuryFor w ob) = OMembers ob" "OrgID (TreasuryFor w ob) = OrgID ob"
  "OKind (TreasuryFor w ob) = OKind ob" "MetaVersion (TreasuryFor w ob) = MetaVersion ob"
  by (simp_all add: TreasuryFor_def Let_def)

lemma treasury_of_set_treasury [gomap]:
  "treasury_of v (set_treasury w m ob) = (if treasury_key v = treasury_key w then m else treasury_of v ob)"
  by (simp add: treasury_of_def set_treasury_def gomap)

text \<open>
  The migration of a single-world treasury happens once and keeps every positive stack: the first
  world that asks for an organization's treasury receives the legacy items, any world that asks
  later starts empty, and the legacy field is from then on a view of the map last asked for.
\<close>

lemma TreasuryFor_migrates_once:
  assumes "TreasuryByWorld ob = []" and "Treasury ob = Legacy m" and "wf_map m"
    and "treasury_key v \<noteq> treasury_key w"
  shows "cnt (treasury_of w (TreasuryFor w ob)) item = (if item = [] then 0 else max 0 (cnt m item)) \<and>
    cnt (treasury_of v (TreasuryFor v (TreasuryFor w ob))) item = 0 \<and>
    legacy_items (TreasuryFor w ob) = treasury_of w (TreasuryFor w ob)"
proof (intro conjI)
  have w: "treasury_of w (TreasuryFor w ob) = seed_items m"
    using assms(1,2) by (simp add: treasury_of_def TreasuryFor_def legacy_items_def Let_def gomap)
  then show "cnt (treasury_of w (TreasuryFor w ob)) item = (if item = [] then 0 else max 0 (cnt m item))"
    by (simp add: cnt_seed_items[OF assms(3)])
  have "TreasuryByWorld (TreasuryFor w ob) = [(treasury_key w, seed_items m)]"
    using assms(1,2) by (simp add: TreasuryFor_def legacy_items_def Let_def mput_def)
  then show "cnt (treasury_of v (TreasuryFor v (TreasuryFor w ob))) item = 0"
    using assms(4) by (simp add: treasury_of_def TreasuryFor_def Let_def gomap)
  show "legacy_items (TreasuryFor w ob) = treasury_of w (TreasuryFor w ob)"
    by (auto simp: legacy_items_def treasury_of_def TreasuryFor_def Let_def gomap split: option.splits)
qed

definition sample_org :: organization where
  "sample_org = \<lparr>OrgID = ''ORG000001'', OKind = OrgGuild, OName = ''Guild'', OCreatedTick = 1,
     MetaVersion = 1, OMembers = [(''A1'', OrgLeader)],
     Treasury = Legacy [(''COAL'', 3), (''LOG'', 0)], TreasuryByWorld = []\<rparr>"

end
