(* ===== verification/Inventory_Model.thy ===== *)
theory Inventory_Model
  imports Kernel_Model
begin

text \<open>
  Item maps and what the economy does with them: parsing and encoding of item pairs, transfers with
  and without tax, tax previews, cost deduction (\<open>feature/economy/inventory/inventory.go\<close>), trade
  values (\<open>feature/economy/value/value.go\<close>) and the effective market tax
  (\<open>feature/economy/tax/tax.go\<close>).

  A Go map is passed by reference, and the callers pass maps that may be the same object (an agent
  trading with itself, a trader whose inventory is the tax sink).  The transfers therefore work on
  references \<open>'r\<close> into a state \<open>'s\<close>, read and written by \<open>get\<close> and \<open>put\<close>.

  \<open>int(float64(c) * taxRate)\<close> is a parameter \<open>ftax c taxRate\<close>: the theorems hold whatever the
  rounding of the floating point product is.
\<close>

section \<open>Item pairs\<close>

text \<open>The dynamic values a decoded JSON pair may hold; \<open>int\<close> and \<open>int64\<close> are one case.\<close>

datatype pair_val = PVStr string | PVFloat real | PVInt int | PVOther

text \<open>
  \<open>int(v)\<close> of a float: truncation; a value outside the range gives the least integer (amd64).
\<close>

definition f2i :: "real \<Rightarrow> int" where
  "f2i x = (let t = (if x < 0 then \<lceil>x\<rceil> else \<lfloor>x\<rfloor>) in if in_i64 t then t else - (2 ^ 63))"

fun pair_count :: "pair_val \<Rightarrow> string + int" where
  "pair_count (PVFloat v) = Inr (f2i v)"
| "pair_count (PVInt v) = Inr v"
| "pair_count v = Inl ''count must be number''"

fun parse_pairs :: "pair_val list list \<Rightarrow> items \<Rightarrow> string + items" where
  "parse_pairs [] out = Inr out"
| "parse_pairs (p # ps) out =
     (case p of
        [k, v] \<Rightarrow>
          (case k of
             PVStr item \<Rightarrow>
               if item = [] then Inl ''item id must be string''
               else (case pair_count v of
                       Inl e \<Rightarrow> Inl e
                     | Inr n \<Rightarrow> if n \<le> 0 then Inl ''count must be > 0''
                                else parse_pairs ps (madd out item n))
           | _ \<Rightarrow> Inl ''item id must be string'')
      | _ \<Rightarrow> Inl ''pair must have len=2'')"

definition ParseItemPairs :: "pair_val list list \<Rightarrow> string + items" where
  "ParseItemPairs pairs = parse_pairs pairs []"

definition EncodeItemPairs :: "items \<Rightarrow> (string \<times> int) list" where
  "EncodeItemPairs m =
     map (\<lambda>k. (k, cnt m k)) (sort (map fst (filter (\<lambda>(k, v). 0 < v) m)))"

section \<open>Item maps\<close>

definition HasItems :: "items \<Rightarrow> items \<Rightarrow> bool" where
  "HasItems have want \<longleftrightarrow> (want = [] \<or> (\<forall>(item, c) \<in> set want. \<not> cnt have item < c))"

type_synonym ('r, 's) getter = "'r \<Rightarrow> 's \<Rightarrow> items"
type_synonym ('r, 's) putter = "'r \<Rightarrow> items \<Rightarrow> 's \<Rightarrow> 's"

definition ref_add :: "('r, 's) getter \<Rightarrow> ('r, 's) putter \<Rightarrow> 'r \<Rightarrow> string \<Rightarrow> int \<Rightarrow> 's \<Rightarrow> 's" where
  "ref_add get put r item n s = put r (madd (get r s) item n) s"

definition ref_sub :: "('r, 's) getter \<Rightarrow> ('r, 's) putter \<Rightarrow> 'r \<Rightarrow> string \<Rightarrow> int \<Rightarrow> 's \<Rightarrow> 's" where
  "ref_sub get put r item n s = put r (msub (get r s) item n) s"

definition ApplyTransfer :: "('r, 's) getter \<Rightarrow> ('r, 's) putter \<Rightarrow> 'r \<Rightarrow> 'r \<Rightarrow> items \<Rightarrow> 's \<Rightarrow> 's" where
  "ApplyTransfer get put src dst items s =
     for_items (\<lambda>item c s. ref_add get put dst item c (ref_sub get put src item c s)) items s"

definition clamp_tax :: "(int \<Rightarrow> real \<Rightarrow> int) \<Rightarrow> int \<Rightarrow> real \<Rightarrow> int" where
  "clamp_tax ftax c taxRate =
     (let tax = ftax c taxRate; tax = (if tax < 0 then 0 else tax) in if tax > c then c else tax)"

definition ApplyTransferWithTax ::
  "(int \<Rightarrow> real \<Rightarrow> int) \<Rightarrow> ('r, 's) getter \<Rightarrow> ('r, 's) putter \<Rightarrow> 'r \<Rightarrow> 'r \<Rightarrow> items \<Rightarrow> 'r option \<Rightarrow> real \<Rightarrow> 's \<Rightarrow> 's" where
  "ApplyTransferWithTax ftax get put src dst items taxSink taxRate s =
     (if taxRate \<le> 0 then ApplyTransfer get put src dst items s
      else
        let taxRate = (if taxRate > 1 then 1 else taxRate)
        in for_items (\<lambda>item c s.
             let s = ref_sub get put src item c s;
                 tax = clamp_tax ftax c taxRate;
                 s = ref_add get put dst item (i64 (c - tax)) s
             in case taxSink of
                  None \<Rightarrow> s
                | Some sink \<Rightarrow> if tax > 0 then ref_add get put sink item tax s else s) items s)"

definition CalcTax :: "(int \<Rightarrow> real \<Rightarrow> int) \<Rightarrow> items \<Rightarrow> real \<Rightarrow> items" where
  "CalcTax ftax items taxRate =
     (if taxRate \<le> 0 \<or> items = [] then []
      else
        let taxRate = (if taxRate > 1 then 1 else taxRate)
        in for_items (\<lambda>item c out.
             if c \<le> 0 then out
             else
               let tax = ftax c taxRate
               in if tax \<le> 0 then out else mput item (if tax > c then c else tax) out) items [])"

definition StacksToMap :: "(string \<times> int) list \<Rightarrow> items" where
  "StacksToMap stacks =
     fold (\<lambda>(item, c) out. if item = [] \<or> c \<le> 0 then out else madd out item c) stacks []"

definition DeductItems :: "items \<Rightarrow> items \<Rightarrow> items" where
  "DeductItems have cost =
     for_items (\<lambda>item c m. if item = [] \<or> c \<le> 0 then m else mprune (msub m item c) item) cost have"

section \<open>Trade values\<close>

definition ItemTradeValue :: "string \<Rightarrow> int" where
  "ItemTradeValue item =
     (case map_of
        [(''PLANK'', 1), (''LOG'', 2), (''STONE'', 1), (''GRAVEL'', 1), (''DIRT'', 1), (''SAND'', 1),
         (''BRICK'', 1), (''GLASS'', 1), (''METAL_PLATE'', 1), (''STICK'', 1), (''COAL'', 2),
         (''IRON_ORE'', 3), (''COPPER_ORE'', 3), (''IRON_INGOT'', 5), (''COPPER_INGOT'', 4),
         (''CRYSTAL_SHARD'', 20), (''WIRE'', 1), (''BATTERY'', 30), (''CONVEYOR'', 36),
         (''SENSOR'', 52), (''CLAIM_TOTEM'', 26), (''CONTRACT_TERMINAL'', 80), (''BERRIES'', 1),
         (''BREAD'', 3), (''RAW_MEAT'', 1), (''COOKED_MEAT'', 5)] item of
        Some v \<Rightarrow> v
      | None \<Rightarrow> 1)"

definition TradeValue :: "items \<Rightarrow> (string \<Rightarrow> int) option \<Rightarrow> int" where
  "TradeValue items itemValue =
     (case itemValue of
        None \<Rightarrow> 0
      | Some value \<Rightarrow>
          if items = [] then 0
          else
            let keys = sort (map fst (filter (\<lambda>(k, n). k \<noteq> [] \<and> n > 0) items))
            in fold (\<lambda>k tot.
                 let n = cnt items k in if n \<le> 0 then tot else i64 (tot + i64 (value k * n))) keys 0)"

definition TradeMutualBenefit :: "int \<Rightarrow> int \<Rightarrow> bool" where
  "TradeMutualBenefit offerValue requestValue =
     (if offerValue \<le> 0 \<or> requestValue \<le> 0 then False
      else
        let (minv, maxv) =
              (if offerValue > requestValue then (requestValue, offerValue) else (offerValue, requestValue))
        in i64 (minv * 100) \<ge> i64 (maxv * 50))"

definition EffectiveMarketTax :: "real \<Rightarrow> bool \<Rightarrow> string \<Rightarrow> u64 \<Rightarrow> u64 \<Rightarrow> real" where
  "EffectiveMarketTax baseRate sameLand activeEventID nowTick activeEventEnds =
     (if \<not> sameLand \<or> baseRate \<le> 0 then 0
      else
        let taxRate = (if activeEventID = ''MARKET_WEEK'' \<and> nowTick < activeEventEnds
                       then baseRate * (1 / 2) else baseRate)
        in if taxRate < 0 then 0 else if taxRate > 1 then 1 else taxRate)"

section \<open>Inventory stores\<close>

text \<open>
  The interface between the transfers and whoever owns the maps: a map written is the map read
  back, and writing one map touches no other.
\<close>

locale inventory_store =
  fixes get :: "('r, 's) getter" and put :: "('r, 's) putter" and valid :: "'r \<Rightarrow> 's \<Rightarrow> bool"
  assumes get_put_same: "valid r s \<Longrightarrow> get r (put r m s) = m"
    and get_put_other: "q \<noteq> r \<Longrightarrow> get q (put r m s) = get q s"
    and valid_put: "valid q (put r m s) \<longleftrightarrow> valid q s"

text \<open>
  \<open>shift r n\<close> is what an addition to one map does to the counts of one item; \<open>moved\<close> is one step of a
  transfer seen at its item.
\<close>

definition shift :: "'r \<Rightarrow> int \<Rightarrow> ('r \<Rightarrow> int) \<Rightarrow> 'r \<Rightarrow> int" where
  "shift r n g = g(r := i64 (g r + n))"

definition moved :: "'r \<Rightarrow> 'r \<Rightarrow> 'r option \<Rightarrow> int \<Rightarrow> int \<Rightarrow> ('r \<Rightarrow> int) \<Rightarrow> 'r \<Rightarrow> int" where
  "moved src dst sink c tax g =
     (let g = shift dst (c - tax) (shift src (- c) g)
      in case sink of None \<Rightarrow> g | Some k \<Rightarrow> if tax > 0 then shift k tax g else g)"

definition holdings_ok :: "'r set \<Rightarrow> ('r \<Rightarrow> int) \<Rightarrow> bool" where
  "holdings_ok R g \<longleftrightarrow> (\<forall>r \<in> R. 0 \<le> g r) \<and> sum g R < 2 ^ 63"

lemma shift_exact:
  assumes "finite R" and "r \<in> R" and ok: "holdings_ok R g" and "0 \<le> g r + n" and "sum g R + n < 2 ^ 63"
  shows "holdings_ok R (shift r n g) \<and> sum (shift r n g) R = sum g R + n \<and> shift r n g r = g r + n"
proof -
  have split: "sum h R = h r + sum h (R - {r})" for h :: "'a \<Rightarrow> int"
    using assms(1,2) by (simp add: sum.remove)
  have rest: "0 \<le> sum g (R - {r})"
    by (rule sum_nonneg) (use ok in \<open>auto simp: holdings_ok_def\<close>)
  have w: "i64 (g r + n) = g r + n"
    by (rule i64_nonneg) (use assms(4,5) split[of g] rest in auto)
  have e: "sum (shift r n g) (R - {r}) = sum g (R - {r})"
    by (rule sum.cong) (auto simp: shift_def)
  have s: "sum (shift r n g) R = sum g R + n"
    using split[of g] split[of "shift r n g"] e w by (simp add: shift_def)
  have "\<forall>q \<in> R. 0 \<le> shift r n g q"
    using ok assms(4) w by (auto simp: holdings_ok_def shift_def)
  then show ?thesis using s w assms(5) by (simp add: holdings_ok_def shift_def)
qed

lemma moved_exact:
  assumes fin: "finite R" and sub: "src \<in> R" "dst \<in> R" "\<And>k. sink = Some k \<Longrightarrow> k \<in> R"
    and ok: "holdings_ok R g" and c: "0 \<le> c" "c \<le> g src" and tax: "0 \<le> tax" "tax \<le> c"
  shows "holdings_ok R (moved src dst sink c tax g)"
    and "sum (moved src dst sink c tax g) R = sum g R - (if sink = None then tax else 0)"
proof -
  let ?g1 = "shift src (- c) g"
  let ?g2 = "shift dst (c - tax) ?g1"
  have lt: "sum g R < 2 ^ 63" using ok by (simp add: holdings_ok_def)
  have 1: "holdings_ok R ?g1 \<and> sum ?g1 R = sum g R - c \<and> ?g1 src = g src - c"
    using shift_exact[OF fin sub(1) ok, of "- c"] c lt by simp
  have "0 \<le> ?g1 dst" using 1 sub(2) by (simp add: holdings_ok_def)
  then have 2: "holdings_ok R ?g2 \<and> sum ?g2 R = sum g R - tax"
    using shift_exact[OF fin sub(2), of ?g1 "c - tax"] 1 tax lt by simp
  show "holdings_ok R (moved src dst sink c tax g)"
    and "sum (moved src dst sink c tax g) R = sum g R - (if sink = None then tax else 0)"
  proof (atomize (full), cases "\<exists>k. sink = Some k \<and> 0 < tax")
    case True
    then obtain k where k: "sink = Some k" "0 < tax" by auto
    have "0 \<le> ?g2 k" using 2 sub(3)[OF k(1)] by (simp add: holdings_ok_def)
    then have "holdings_ok R (shift k tax ?g2) \<and> sum (shift k tax ?g2) R = sum g R"
      using shift_exact[OF fin sub(3)[OF k(1)], of ?g2 tax] 2 k lt by simp
    then show "holdings_ok R (moved src dst sink c tax g) \<and>
        sum (moved src dst sink c tax g) R = sum g R - (if sink = None then tax else 0)"
      by (simp add: moved_def k)
  next
    case False
    then have "moved src dst sink c tax g = ?g2" and "sink \<noteq> None \<Longrightarrow> tax = 0"
      using tax(1) by (auto simp: moved_def Let_def split: option.split)
    with 2 show "holdings_ok R (moved src dst sink c tax g) \<and>
        sum (moved src dst sink c tax g) R = sum g R - (if sink = None then tax else 0)"
      by auto
  qed
qed

text \<open>The receiving side of a step never loses.\<close>

lemma moved_receiver:
  assumes fin: "finite R" and sub: "src \<in> R" "dst \<in> R" "\<And>k. sink = Some k \<Longrightarrow> k \<in> R"
    and ok: "holdings_ok R g" and c: "0 \<le> c" "c \<le> g src" and tax: "0 \<le> tax" "tax \<le> c"
    and ne: "dst \<noteq> src"
  shows "g dst \<le> moved src dst sink c tax g dst"
proof -
  let ?g1 = "shift src (- c) g"
  let ?g2 = "shift dst (c - tax) ?g1"
  have lt: "sum g R < 2 ^ 63" using ok by (simp add: holdings_ok_def)
  have 1: "holdings_ok R ?g1 \<and> sum ?g1 R = sum g R - c" using shift_exact[OF fin sub(1) ok, of "- c"] c lt by simp
  have d1: "?g1 dst = g dst" using ne by (simp add: shift_def)
  then have "0 \<le> ?g1 dst" using ok sub(2) by (simp add: holdings_ok_def)
  then have 2: "holdings_ok R ?g2 \<and> sum ?g2 R = sum g R - tax \<and> ?g2 dst = ?g1 dst + (c - tax)"
    using shift_exact[OF fin sub(2), of ?g1 "c - tax"] 1 tax lt by simp
  have "?g2 dst \<le> moved src dst sink c tax g dst"
  proof (cases "sink = Some dst \<and> 0 < tax")
    case True
    have "0 \<le> ?g2 dst" using 2 sub(2) unfolding holdings_ok_def by blast
    then have "shift dst tax ?g2 dst = ?g2 dst + tax"
      using shift_exact[OF fin sub(2), of ?g2 tax] 2 True lt by simp
    with True show ?thesis by (simp add: moved_def Let_def)
  next
    case False
    then show ?thesis by (auto simp: moved_def Let_def shift_def split: option.split)
  qed
  with 2 d1 tax(2) show ?thesis by simp
qed

lemma clamp_tax_bounds:
  assumes "0 \<le> c"
  shows "0 \<le> clamp_tax ftax c r" and "clamp_tax ftax c r \<le> c"
  using assms by (simp_all add: clamp_tax_def Let_def)

text \<open>The rate the loop works with, and the tax on one stack.\<close>

definition stack_tax :: "(int \<Rightarrow> real \<Rightarrow> int) \<Rightarrow> real \<Rightarrow> int \<Rightarrow> int" where
  "stack_tax ftax taxRate c =
     (if taxRate \<le> 0 then 0 else clamp_tax ftax c (if taxRate > 1 then 1 else taxRate))"

lemma stack_tax_bounds:
  "0 \<le> c \<Longrightarrow> 0 \<le> stack_tax ftax r c" "0 \<le> c \<Longrightarrow> stack_tax ftax r c \<le> c"
  using clamp_tax_bounds by (simp_all add: stack_tax_def)

context inventory_store begin

definition counts :: "'s \<Rightarrow> string \<Rightarrow> 'r \<Rightarrow> int" where
  "counts s item = (\<lambda>r. cnt (get r s) item)"

lemma valid_ref [simp]:
  "valid q (ref_add get put r item n s) \<longleftrightarrow> valid q s"
  "valid q (ref_sub get put r item n s) \<longleftrightarrow> valid q s"
  by (simp_all add: ref_add_def ref_sub_def valid_put)

lemma counts_ref_add:
  "valid r s \<Longrightarrow> counts (ref_add get put r item n s) j =
    (if j = item then shift r n (counts s j) else counts s j)"
  by (rule ext) (auto simp: counts_def ref_add_def shift_def get_put_same get_put_other gomap fun_upd_def)

lemma counts_ref_sub:
  "valid r s \<Longrightarrow> counts (ref_sub get put r item n s) j =
    (if j = item then shift r (- n) (counts s j) else counts s j)"
  by (rule ext) (auto simp: counts_def ref_sub_def shift_def get_put_same get_put_other gomap fun_upd_def)

lemma shift_i64: "shift r (i64 n) g = shift r n g"
  using i64_add_absorb[of n "g r"] by (simp add: shift_def add.commute)

text \<open>A transfer acts on every item separately, in whatever order the map is enumerated.\<close>

lemma transfer_pointwise:
  assumes wf: "wf_map items" and v: "valid src s" "valid dst s" "\<And>k. sink = Some k \<Longrightarrow> valid k s"
  shows "counts (ApplyTransferWithTax ftax get put src dst items sink rate s) j =
    (case map_of items j of None \<Rightarrow> counts s j
     | Some c \<Rightarrow> moved src dst sink c (stack_tax ftax rate c) (counts s j))"
proof (cases "rate \<le> 0")
  case True
  define P where "P s' \<longleftrightarrow> valid src s' \<and> valid dst s'" for s'
  have P: "P s" using v by (simp add: P_def)
  have "counts (ApplyTransfer get put src dst items s) j =
    (case map_of items j of None \<Rightarrow> counts s j
     | Some c \<Rightarrow> (\<lambda>item c g. moved src dst None c 0 g) j c (counts s j))"
    unfolding ApplyTransfer_def
    by (rule for_items_pointwise_inv[where P = P and obs = counts, OF wf P])
       (auto simp: P_def counts_ref_add counts_ref_sub moved_def Let_def)
  then show ?thesis using True
    by (simp add: ApplyTransferWithTax_def stack_tax_def moved_def Let_def split: option.splits)
next
  case False
  define P where "P s' \<longleftrightarrow> valid src s' \<and> valid dst s' \<and> (\<forall>k. sink = Some k \<longrightarrow> valid k s')" for s'
  have P: "P s" using v by (simp add: P_def)
  define rate' where "rate' = (if rate > 1 then 1 else rate)"
  define step where "step = (\<lambda>item c s.
      let s = ref_sub get put src item c s; tax = clamp_tax ftax c rate';
          s = ref_add get put dst item (i64 (c - tax)) s
      in case sink of None \<Rightarrow> s | Some sink \<Rightarrow> if tax > 0 then ref_add get put sink item tax s else s)"
  have "counts (for_items step items s) j =
    (case map_of items j of None \<Rightarrow> counts s j
     | Some c \<Rightarrow> (\<lambda>item c g. moved src dst sink c (clamp_tax ftax c rate') g) j c (counts s j))"
    by (rule for_items_pointwise_inv[where P = P and obs = counts, OF wf P])
       (auto simp: step_def P_def counts_ref_add counts_ref_sub moved_def shift_i64 Let_def split: option.splits)
  then show ?thesis using False
    by (simp add: ApplyTransferWithTax_def stack_tax_def step_def rate'_def Let_def cong: option.case_cong)
qed

lemma valid_transfer: "valid q (ApplyTransferWithTax ftax get put src dst items sink rate s) \<longleftrightarrow> valid q s"
proof -
  have "valid q (ApplyTransfer get put src dst items s) \<longleftrightarrow> valid q s" if "rate \<le> 0"
    unfolding ApplyTransfer_def
    by (rule for_items_invariant[where P = "\<lambda>t. valid q t \<longleftrightarrow> valid q s"]) auto
  moreover have "valid q (for_items (\<lambda>item c s.
             let s = ref_sub get put src item c s;
                 tax = clamp_tax ftax c r;
                 s = ref_add get put dst item (i64 (c - tax)) s
             in case sink of None \<Rightarrow> s
                | Some sink \<Rightarrow> if tax > 0 then ref_add get put sink item tax s else s) items s) \<longleftrightarrow> valid q s" for r
    by (rule for_items_invariant[where P = "\<lambda>t. valid q t \<longleftrightarrow> valid q s"]) (auto simp: Let_def split: option.splits)
  ultimately show ?thesis by (simp add: ApplyTransferWithTax_def Let_def)
qed

text \<open>
  Nothing is created: among any finite set of maps that contains the parties, each item's sum stays
  what it was, less the tax when nobody receives it; no count becomes negative.
\<close>

lemma transfer_conserves:
  assumes wf: "wf_map items" and fin: "finite R" and R: "src \<in> R" "dst \<in> R" "\<And>k. sink = Some k \<Longrightarrow> k \<in> R"
    and v: "\<And>r. r \<in> R \<Longrightarrow> valid r s"
    and pos: "\<And>k n. (k, n) \<in> set items \<Longrightarrow> 0 \<le> n" and has: "HasItems (get src s) items"
    and ok: "holdings_ok R (counts s j)"
  shows "holdings_ok R (counts (ApplyTransferWithTax ftax get put src dst items sink rate s) j)"
    and "sum (counts (ApplyTransferWithTax ftax get put src dst items sink rate s) j) R =
      sum (counts s j) R -
      (case map_of items j of None \<Rightarrow> 0 | Some c \<Rightarrow> if sink = None then stack_tax ftax rate c else 0)"
proof -
  have pw: "counts (ApplyTransferWithTax ftax get put src dst items sink rate s) j =
    (case map_of items j of None \<Rightarrow> counts s j
     | Some c \<Rightarrow> moved src dst sink c (stack_tax ftax rate c) (counts s j))"
    by (rule transfer_pointwise[OF wf]) (use R v in auto)
  show "holdings_ok R (counts (ApplyTransferWithTax ftax get put src dst items sink rate s) j)"
    and "sum (counts (ApplyTransferWithTax ftax get put src dst items sink rate s) j) R =
      sum (counts s j) R -
      (case map_of items j of None \<Rightarrow> 0 | Some c \<Rightarrow> if sink = None then stack_tax ftax rate c else 0)"
  proof (atomize (full), cases "map_of items j")
    case None
    with pw ok show "holdings_ok R (counts (ApplyTransferWithTax ftax get put src dst items sink rate s) j) \<and>
      sum (counts (ApplyTransferWithTax ftax get put src dst items sink rate s) j) R =
      sum (counts s j) R -
      (case map_of items j of None \<Rightarrow> 0 | Some c \<Rightarrow> if sink = None then stack_tax ftax rate c else 0)" by simp
  next
    case (Some c)
    then have mem: "(j, c) \<in> set items" by (rule map_of_SomeD)
    have c: "0 \<le> c" using pos[OF mem] .
    have le: "c \<le> counts s j src"
      using has mem by (force simp: HasItems_def counts_def not_less)

    show "holdings_ok R (counts (ApplyTransferWithTax ftax get put src dst items sink rate s) j) \<and>
      sum (counts (ApplyTransferWithTax ftax get put src dst items sink rate s) j) R =
      sum (counts s j) R -
      (case map_of items j of None \<Rightarrow> 0 | Some c \<Rightarrow> if sink = None then stack_tax ftax rate c else 0)"
      using moved_exact[OF fin R(1,2) R(3) ok c le stack_tax_bounds(1)[OF c] stack_tax_bounds(2)[OF c]]
      by (simp add: pw Some)
  qed
qed

lemma transfer_receiver:
  assumes wf: "wf_map items" and fin: "finite R" and R: "src \<in> R" "dst \<in> R" "\<And>k. sink = Some k \<Longrightarrow> k \<in> R"
    and v: "\<And>r. r \<in> R \<Longrightarrow> valid r s"
    and pos: "\<And>k n. (k, n) \<in> set items \<Longrightarrow> 0 \<le> n" and has: "HasItems (get src s) items"
    and ok: "holdings_ok R (counts s j)" and ne: "dst \<noteq> src"
  shows "counts s j dst \<le> counts (ApplyTransferWithTax ftax get put src dst items sink rate s) j dst"
proof -
  have pw: "counts (ApplyTransferWithTax ftax get put src dst items sink rate s) j =
    (case map_of items j of None \<Rightarrow> counts s j
     | Some c \<Rightarrow> moved src dst sink c (stack_tax ftax rate c) (counts s j))"
    by (rule transfer_pointwise[OF wf]) (use R v in auto)
  show ?thesis
  proof (cases "map_of items j")
    case (Some c)
    then have mem: "(j, c) \<in> set items" by (rule map_of_SomeD)
    have c: "0 \<le> c" using pos[OF mem] .
    have le: "c \<le> counts s j src" using has mem by (force simp: HasItems_def counts_def not_less)
    show ?thesis
      using moved_receiver[OF fin R(1,2) R(3) ok c le stack_tax_bounds(1)[OF c] stack_tax_bounds(2)[OF c] ne]
      by (simp add: pw Some)
  qed (simp add: pw)
qed

end

section \<open>Item maps\<close>

lemma HasItems_iff: "HasItems have want \<longleftrightarrow> (\<forall>(k, n) \<in> set want. n \<le> cnt have k)"
  by (auto simp: HasItems_def not_less)

lemma positive_keys:
  assumes "wf_map m"
  shows "k \<in> fst ` {p \<in> set m. Q (fst p) \<and> 0 < snd p} \<longleftrightarrow> Q k \<and> 0 < cnt m k"
proof
  assume "k \<in> fst ` {p \<in> set m. Q (fst p) \<and> 0 < snd p}"
  then obtain n where "(k, n) \<in> set m" "Q k" "0 < n" by auto
  then show "Q k \<and> 0 < cnt m k" by (simp add: cnt_in_set[OF assms])
next
  assume q: "Q k \<and> 0 < cnt m k"
  then obtain n where "map_of m k = Some n" "0 < n" by (auto simp: cnt_def split: option.splits)
  then have "(k, n) \<in> set m" by (simp add: map_of_SomeD)
  with \<open>0 < n\<close> q show "k \<in> fst ` {p \<in> set m. Q (fst p) \<and> 0 < snd p}"
    by (intro image_eqI[of _ _ "(k, n)"]) auto
qed

lemma cnt_DeductItems:
  assumes "wf_map cost"
  shows "cnt (DeductItems have cost) j =
    (if j \<noteq> [] \<and> 0 < cnt cost j then max 0 (i64 (cnt have j - cnt cost j)) else cnt have j)"
proof -
  have "cnt (DeductItems have cost) j =
    (case map_of cost j of None \<Rightarrow> cnt have j
     | Some n \<Rightarrow> (\<lambda>k n x. if k = [] \<or> n \<le> 0 then x else max 0 (i64 (x - n))) j n (cnt have j))"
    unfolding DeductItems_def
    by (rule for_items_pointwise[OF assms, where obs = cnt]) (auto simp: gomap)
  then show ?thesis by (auto simp: cnt_def split: option.splits)
qed

lemma wf_map_DeductItems: "wf_map have \<Longrightarrow> wf_map (DeductItems have cost)"
  unfolding DeductItems_def by (rule for_items_invariant[where P = wf_map]) auto

lemma wf_map_StacksToMap: "wf_map (StacksToMap stacks)"
proof -
  have "wf_map (fold (\<lambda>(item, c) out. if item = [] \<or> c \<le> 0 then out else madd out item c) stacks out)"
    if "wf_map out" for out
    using that by (induction stacks arbitrary: out) auto
  then show ?thesis by (simp add: StacksToMap_def)
qed

subsection \<open>Parsing and encoding\<close>

lemma map_of_EncodeItemPairs:
  assumes "wf_map m"
  shows "map_of (EncodeItemPairs m) k = (if 0 < cnt m k then Some (cnt m k) else None)"
proof -
  have "set (map fst (filter (\<lambda>(k, v). 0 < v) m)) = {k. 0 < cnt m k}"
    using positive_keys[OF assms, of _ "\<lambda>_. True"] by (auto simp: case_prod_beta)
  then show ?thesis by (simp add: EncodeItemPairs_def map_of_map_restrict)
qed

lemma EncodeItemPairs_keys:
  assumes "wf_map m"
  shows "distinct (map fst (EncodeItemPairs m))" and "sorted (map fst (EncodeItemPairs m))"
  using assms distinct_map_filter[of fst m "\<lambda>(k, v). 0 < v"]
  by (simp_all add: EncodeItemPairs_def comp_def wf_map_def)

lemma cnt_EncodeItemPairs: "wf_map m \<Longrightarrow> cnt (EncodeItemPairs m) k = max 0 (cnt m k)"
  by (simp add: cnt_def[of "EncodeItemPairs m"] map_of_EncodeItemPairs)

definition json_pairs :: "(string \<times> int) list \<Rightarrow> pair_val list list" where
  "json_pairs l = map (\<lambda>(k, n). [PVStr k, PVInt n]) l"

lemma mput_fresh: "k \<notin> fst ` set m \<Longrightarrow> mput k v m = m @ [(k, v)]"
  by (induction m) (auto simp: mput_def)

lemma parse_pairs_json:
  assumes "distinct (map fst (out @ l))" and "\<And>k n. (k, n) \<in> set l \<Longrightarrow> k \<noteq> [] \<and> 0 < n \<and> n < 2 ^ 63"
  shows "parse_pairs (json_pairs l) out = Inr (out @ l)"
  using assms
proof (induction l arbitrary: out)
  case (Cons p l)
  obtain k n where p: "p = (k, n)" by (cases p)
  have n: "k \<noteq> []" "0 < n" "n < 2 ^ 63" using Cons.prems(2)[of k n] p by auto
  have fresh: "k \<notin> fst ` set out" using Cons.prems(1) p by auto
  then have "madd out k n = out @ [(k, n)]"
    using n by (simp add: madd_def mput_fresh cnt_absent i64_nonneg)
  moreover have "parse_pairs (json_pairs l) (out @ [(k, n)]) = Inr ((out @ [(k, n)]) @ l)"
    by (rule Cons.IH) (use Cons.prems p in auto)
  ultimately show ?case using n by (simp add: p json_pairs_def)
qed (simp add: json_pairs_def)

text \<open>
  What the server sends about an offer parses back: encoding an item map and parsing the pairs
  gives the positive stacks of the map, sorted by item, whatever order the map had.
\<close>

lemma ParseItemPairs_EncodeItemPairs:
  assumes "wf_map m" and "[] \<notin> fst ` set m" and "\<forall>n \<in> snd ` set m. n < 2 ^ 63"
  shows "ParseItemPairs (json_pairs (EncodeItemPairs m)) = Inr (EncodeItemPairs m) \<and>
    (\<forall>k. cnt (EncodeItemPairs m) k = max 0 (cnt m k)) \<and> sorted (map fst (EncodeItemPairs m))"
proof (intro conjI allI)
  have "k \<noteq> [] \<and> 0 < n \<and> n < 2 ^ 63" if "(k, n) \<in> set (EncodeItemPairs m)" for k n
  proof -
    have "map_of (EncodeItemPairs m) k = Some n" using that EncodeItemPairs_keys[OF assms(1)] by simp
    then have n: "n = cnt m k" "0 < n" by (auto simp: map_of_EncodeItemPairs[OF assms(1)] split: if_splits)
    then have "(k, n) \<in> set m" by (auto simp: cnt_def map_of_SomeD split: option.splits)
    with n(2) assms(2,3) show ?thesis by force
  qed
  then show "ParseItemPairs (json_pairs (EncodeItemPairs m)) = Inr (EncodeItemPairs m)"
    using parse_pairs_json[of "[]" "EncodeItemPairs m"] EncodeItemPairs_keys(1)[OF assms(1)]
    by (simp add: ParseItemPairs_def)
qed (simp_all add: cnt_EncodeItemPairs EncodeItemPairs_keys assms)

text \<open>Parsing keeps the map well formed, with no empty item name.\<close>

lemma parse_pairs_wf:
  "parse_pairs ps out = Inr m \<Longrightarrow> wf_map out \<Longrightarrow> wf_map m"
  by (induction ps out rule: parse_pairs.induct)
     (auto split: list.splits pair_val.splits sum.splits if_splits)

lemma ParseItemPairs_wf: "ParseItemPairs ps = Inr m \<Longrightarrow> wf_map m"
  using parse_pairs_wf[of ps "[]" m] by (simp add: ParseItemPairs_def)

subsection \<open>Taxes\<close>

lemma cnt_CalcTax:
  assumes "wf_map items"
  shows "cnt (CalcTax ftax items r) j =
    (if 0 < cnt items j then stack_tax ftax r (cnt items j) else 0)"
proof (cases "r \<le> 0 \<or> items = []")
  case True
  then show ?thesis by (auto simp: CalcTax_def stack_tax_def)
next
  case False
  define r' where "r' = (if r > 1 then 1 else r)"
  have "cnt (CalcTax ftax items r) j =
    (case map_of items j of None \<Rightarrow> cnt [] j
     | Some n \<Rightarrow> (\<lambda>k c x. if c \<le> 0 \<or> ftax c r' \<le> 0 then x
          else if ftax c r' > c then c else ftax c r') j n (cnt [] j))"
    using False unfolding CalcTax_def r'_def[symmetric] Let_def
    by (simp only: if_False) (rule for_items_pointwise[OF assms, where obs = cnt], auto simp: gomap Let_def)
  then show ?thesis using False
    by (auto simp: cnt_def stack_tax_def clamp_tax_def Let_def r'_def split: option.splits)
qed

lemma EffectiveMarketTax_range: "0 \<le> EffectiveMarketTax r l e now ends \<and> EffectiveMarketTax r l e now ends \<le> 1"
  by (auto simp: EffectiveMarketTax_def Let_def)

lemma EffectiveMarketTax_off_land [simp]: "EffectiveMarketTax r False e now ends = 0"
  by (simp add: EffectiveMarketTax_def)

subsection \<open>Trade values\<close>

lemma TradeMutualBenefit_iff:
  assumes "0 < a" and "0 < b" and "a \<le> 2 ^ 55" and "b \<le> 2 ^ 55"
  shows "TradeMutualBenefit a b \<longleftrightarrow> a \<le> 2 * b \<and> b \<le> 2 * a"
proof -
  have "i64 (x * k) = x * k" if "0 < x" "x \<le> 2 ^ 55" "k = 100 \<or> k = 50" for x k
    using that by auto
  with assms show ?thesis by (auto simp: TradeMutualBenefit_def Let_def)
qed

text \<open>The value of a map does not depend on the order Go enumerates it in.\<close>

lemma sort_filter_keys:
  assumes "wf_map m"
  shows "set (sort (map fst (filter (\<lambda>(k, n). k \<noteq> [] \<and> n > 0) m))) = {k. k \<noteq> [] \<and> 0 < cnt m k}"
    and "distinct (sort (map fst (filter (\<lambda>(k, n). k \<noteq> [] \<and> n > 0) m)))"
proof -
  show "set (sort (map fst (filter (\<lambda>(k, n). k \<noteq> [] \<and> n > 0) m))) = {k. k \<noteq> [] \<and> 0 < cnt m k}"
    using positive_keys[OF assms, of _ "\<lambda>k. k \<noteq> []"] by (auto simp: case_prod_beta)
  show "distinct (sort (map fst (filter (\<lambda>(k, n). k \<noteq> [] \<and> n > 0) m)))"
    using assms distinct_map_filter[of fst m "\<lambda>(k, n). k \<noteq> [] \<and> n > 0"] by (simp add: wf_map_def)
qed

lemma TradeValue_order_free:
  assumes "wf_map m" and "wf_map m'" and "cnt m = cnt m'"
  shows "TradeValue m v = TradeValue m' v"
proof -
  let ?keys = "\<lambda>m :: items. sort (map fst (filter (\<lambda>(k, n). k \<noteq> [] \<and> n > 0) m))"
  have "?keys m = ?keys m'"
    by (rule sorted_distinct_set_unique)
       (use sort_filter_keys[OF assms(1)] sort_filter_keys[OF assms(2)] assms(3) in auto)
  moreover have "m = [] \<longrightarrow> ?keys m = []" and "m' = [] \<longrightarrow> ?keys m' = []" by simp_all
  ultimately show ?thesis using assms(3) by (auto simp: TradeValue_def Let_def split: option.splits)
qed

end
