(* ===== verification/Agent_Model.thy ===== *)
theory Agent_Model
  imports Kernel_Model
begin

text \<open>
  The agent (\<open>kernel/model/agent.go\<close>) and its bookkeeping: defaults, the event outbox and the
  retained event log behind cursor-based fetching, rate-limit windows and their snapshots,
  fun-score decay windows and their snapshots, the seen sets, and the private memory.
\<close>

section \<open>State\<close>

record fun_score =
  Novelty :: int
  Creation :: int
  Social :: int
  Influence :: int
  Narrative :: int
  RiskRescue :: int

record rate_window =
  RStartTick :: u64
  RCount :: int
  RWindow :: u64
  RMax :: int

record decay_window =
  DStartTick :: u64
  DCount :: int

record memory_entry =
  MValue :: string
  ExpiryTick :: u64

record agent =
  AID :: string
  AName :: string
  AOrgID :: string
  CurrentWorldID :: string
  SwitchCooldownUntil :: u64
  ResumeToken :: string
  APos :: vec3
  Yaw :: int
  HP :: int
  Hunger :: int
  StaminaMilli :: int
  RepTrade :: int
  RepBuild :: int
  RepSocial :: int
  RepLaw :: int
  AFun :: fun_score
  AInventory :: items
  MainHand :: string
  Armor :: "string list"
  MoveTask :: "movement_task option"
  WorkTask :: "work_task option"
  Events :: "event list"
  EventCursor :: u64
  EventLog :: "(u64 \<times> event) list"
  rl :: "rate_window gomap"
  funDecay :: "decay_window gomap"
  seenBiomes :: "bool gomap"
  seenRecipes :: "bool gomap"
  seenEvents :: "bool gomap"
  Memory :: "memory_entry gomap"
  PendingMemory :: "(string \<times> string) list"

section \<open>Defaults\<close>

definition default_int :: "int \<Rightarrow> int \<Rightarrow> int" where
  "default_int d v = (if v = 0 then d else v)"

definition default_slot :: "string \<Rightarrow> string" where
  "default_slot s = (if s = [] then ''NONE'' else s)"

definition InitDefaults :: "agent \<Rightarrow> agent" where
  "InitDefaults a = a\<lparr>
     StaminaMilli := default_int 1000 (StaminaMilli a),
     HP := default_int 20 (HP a),
     Hunger := default_int 20 (Hunger a),
     RepTrade := default_int 500 (RepTrade a),
     RepBuild := default_int 500 (RepBuild a),
     RepSocial := default_int 500 (RepSocial a),
     RepLaw := default_int 500 (RepLaw a),
     MainHand := default_slot (MainHand a),
     Armor := map default_slot (Armor a)\<rparr>"

section \<open>Events\<close>

definition log_cap :: nat where
  "log_cap = 4096"

definition AddEvent :: "event \<Rightarrow> agent \<Rightarrow> agent" where
  "AddEvent e a =
     (let cur = EventCursor a + 1;
          lg = EventLog a @ [(cur, e)];
          lg = (if length lg > log_cap then drop (length lg - log_cap) lg else lg)
      in a\<lparr>Events := Events a @ [e], EventCursor := cur, EventLog := lg\<rparr>)"

definition TakeEvents :: "agent \<Rightarrow> event list \<times> agent" where
  "TakeEvents a = (Events a, a\<lparr>Events := []\<rparr>)"

text \<open>The loop of \<open>EventsAfter\<close>: \<open>left\<close> is how many entries may still be appended.\<close>

fun events_after_loop :: "u64 \<Rightarrow> nat \<Rightarrow> u64 \<Rightarrow> (u64 \<times> event) list \<Rightarrow> (u64 \<times> event) list \<times> u64" where
  "events_after_loop cursor left nxt [] = ([], nxt)"
| "events_after_loop cursor left nxt (e # es) =
     (if fst e \<le> cursor then events_after_loop cursor left nxt es
      else if left \<le> 1 then ([e], fst e)
      else let (out, nxt') = events_after_loop cursor (left - 1) (fst e) es in (e # out, nxt'))"

definition effective_limit :: "int \<Rightarrow> int" where
  "effective_limit limit = (if limit \<le> 0 then 100 else if limit > 1000 then 1000 else limit)"

definition EventsAfter :: "agent \<Rightarrow> u64 \<Rightarrow> int \<Rightarrow> (u64 \<times> event) list \<times> u64" where
  "EventsAfter a cursor limit =
     events_after_loop cursor (nat (effective_limit limit)) cursor (EventLog a)"

section \<open>Rate limits\<close>

definition RateLimitAllow :: "string \<Rightarrow> u64 \<Rightarrow> u64 \<Rightarrow> int \<Rightarrow> agent \<Rightarrow> bool \<times> u64 \<times> agent" where
  "RateLimitAllow kind nowTick window maxn a =
     (let w = (case map_of (rl a) kind of
                 None \<Rightarrow> \<lparr>RStartTick = nowTick, RCount = 0, RWindow = window, RMax = maxn\<rparr>
               | Some w \<Rightarrow> w\<lparr>RWindow := window, RMax := maxn\<rparr>)
      in if window = 0 \<or> maxn \<le> 0 then (True, 0, a\<lparr>rl := mput kind w (rl a)\<rparr>)
         else case rates_allow nowTick (RStartTick w) (RCount w) window maxn of
                (start, count, ok, cool) \<Rightarrow>
                  (ok, cool, a\<lparr>rl := mput kind (w\<lparr>RStartTick := start, RCount := count\<rparr>) (rl a)\<rparr>))"

text \<open>Snapshots of the windows keep start and count only.\<close>

definition RateWindowsSnapshot :: "agent \<Rightarrow> (u64 \<times> int) gomap" where
  "RateWindowsSnapshot a =
     for_items (\<lambda>k rw out. if k = [] \<or> RCount rw \<le> 0 then out else mput k (RStartTick rw, RCount rw) out)
       (rl a) []"

definition LoadRateWindowsSnapshot :: "(u64 \<times> int) gomap \<Rightarrow> agent \<Rightarrow> agent" where
  "LoadRateWindowsSnapshot src a = a\<lparr>rl :=
     for_items (\<lambda>k p m. if k = [] \<or> snd p \<le> 0 then m
                        else mput k \<lparr>RStartTick = fst p, RCount = snd p, RWindow = 0, RMax = 0\<rparr> m)
       src []\<rparr>"

definition ResetRateLimits :: "agent \<Rightarrow> agent" where
  "ResetRateLimits a = a\<lparr>rl := []\<rparr>"

section \<open>Fun-score decay\<close>

text \<open>
  \<open>FunDecayDelta\<close>.  The floating point of the last lines is a parameter: \<open>scaled base mult k\<close> is
  \<open>int(math.Round(float64(base) * math.Pow(mult, float64(k))))\<close>.
\<close>

definition FunDecayDelta :: "(int \<Rightarrow> real \<Rightarrow> int \<Rightarrow> int) \<Rightarrow> string \<Rightarrow> int \<Rightarrow> u64 \<Rightarrow> u64 \<Rightarrow> real \<Rightarrow> agent \<Rightarrow> int \<times> agent" where
  "FunDecayDelta scaled key base nowTick windowTicks baseMult a =
     (if key = [] \<or> base \<le> 0 then (0, a)
      else
        let dw = (case map_of (funDecay a) key of
                    None \<Rightarrow> \<lparr>DStartTick = nowTick, DCount = 0\<rparr> | Some dw \<Rightarrow> dw);
            window = (if windowTicks = 0 then 3000 else windowTicks);
            dw = (if nowTick - DStartTick dw \<ge> window then \<lparr>DStartTick = nowTick, DCount = 0\<rparr> else dw);
            dw = dw\<lparr>DCount := i64 (DCount dw + 1)\<rparr>;
            mult = (if baseMult \<le> 0 \<or> baseMult > 1 then 7 / 10 else baseMult);
            delta = scaled base mult (i64 (DCount dw - 1));
            a' = a\<lparr>funDecay := mput key dw (funDecay a)\<rparr>
        in (if delta \<le> 0 then 0 else delta, a'))"

definition FunDecaySnapshot :: "agent \<Rightarrow> (u64 \<times> int) gomap" where
  "FunDecaySnapshot a =
     for_items (\<lambda>k d out. if k = [] then out else mput k (DStartTick d, DCount d) out) (funDecay a) []"

definition LoadFunDecaySnapshot :: "(u64 \<times> int) gomap \<Rightarrow> agent \<Rightarrow> agent" where
  "LoadFunDecaySnapshot src a = a\<lparr>funDecay :=
     for_items (\<lambda>k v m. if k = [] \<or> snd v \<le> 0 then m
                        else mput k \<lparr>DStartTick = fst v, DCount = snd v\<rparr> m) src []\<rparr>"

definition ResetFunTracking :: "agent \<Rightarrow> agent" where
  "ResetFunTracking a = a\<lparr>funDecay := [], seenBiomes := [], seenRecipes := [], seenEvents := []\<rparr>"

section \<open>Seen sets\<close>

text \<open>The three sets have the same code, once per field.\<close>

definition seen_in :: "bool gomap \<Rightarrow> string \<Rightarrow> bool" where
  "seen_in m k \<longleftrightarrow> map_of m k = Some True"

definition mark :: "string \<Rightarrow> bool gomap \<Rightarrow> bool \<times> bool gomap" where
  "mark k m = (if k = [] then (False, m) else if seen_in m k then (False, m) else (True, mput k True m))"

definition seen_sorted :: "bool gomap \<Rightarrow> string list" where
  "seen_sorted m = sort (map fst (filter (\<lambda>(k, ok). ok \<and> k \<noteq> []) m))"

definition seen_of_list :: "string list \<Rightarrow> bool gomap" where
  "seen_of_list l = fold (\<lambda>b m. if b = [] then m else mput b True m) l []"

definition MarkBiomeSeen :: "string \<Rightarrow> agent \<Rightarrow> bool \<times> agent" where
  "MarkBiomeSeen b a = (case mark b (seenBiomes a) of (r, m) \<Rightarrow> (r, a\<lparr>seenBiomes := m\<rparr>))"

definition SeenBiomesSorted :: "agent \<Rightarrow> string list" where
  "SeenBiomesSorted a = seen_sorted (seenBiomes a)"

definition SetSeenBiomes :: "string list \<Rightarrow> agent \<Rightarrow> agent" where
  "SetSeenBiomes l a = a\<lparr>seenBiomes := seen_of_list l\<rparr>"

definition MarkRecipeSeen :: "string \<Rightarrow> agent \<Rightarrow> bool \<times> agent" where
  "MarkRecipeSeen r a = (case mark r (seenRecipes a) of (ok, m) \<Rightarrow> (ok, a\<lparr>seenRecipes := m\<rparr>))"

definition SeenRecipesSorted :: "agent \<Rightarrow> string list" where
  "SeenRecipesSorted a = seen_sorted (seenRecipes a)"

definition SetSeenRecipes :: "string list \<Rightarrow> agent \<Rightarrow> agent" where
  "SetSeenRecipes l a = a\<lparr>seenRecipes := seen_of_list l\<rparr>"

definition MarkEventSeen :: "string \<Rightarrow> agent \<Rightarrow> bool \<times> agent" where
  "MarkEventSeen e a = (case mark e (seenEvents a) of (ok, m) \<Rightarrow> (ok, a\<lparr>seenEvents := m\<rparr>))"

definition SeenEventsSorted :: "agent \<Rightarrow> string list" where
  "SeenEventsSorted a = seen_sorted (seenEvents a)"

definition SetSeenEvents :: "string list \<Rightarrow> agent \<Rightarrow> agent" where
  "SetSeenEvents l a = a\<lparr>seenEvents := seen_of_list l\<rparr>"

section \<open>Memory\<close>

definition MemorySave :: "string \<Rightarrow> string \<Rightarrow> int \<Rightarrow> u64 \<Rightarrow> agent \<Rightarrow> agent" where
  "MemorySave key v ttlTicks nowTick a =
     (let ex = (if ttlTicks > 0 then nowTick + word_of_int ttlTicks else 0)
      in a\<lparr>Memory := mput key \<lparr>MValue = v, ExpiryTick = ex\<rparr> (Memory a)\<rparr>)"

definition expired :: "u64 \<Rightarrow> memory_entry \<Rightarrow> bool" where
  "expired nowTick e \<longleftrightarrow> ExpiryTick e \<noteq> 0 \<and> nowTick \<ge> ExpiryTick e"

text \<open>The loop of \<open>MemoryLoad\<close> over the sorted keys: \<open>got\<close> counts the entries already returned.\<close>

fun memory_loop :: "u64 \<Rightarrow> int \<Rightarrow> string list \<Rightarrow> int \<Rightarrow> memory_entry gomap \<Rightarrow> (string \<times> string) list \<times> memory_entry gomap" where
  "memory_loop nowTick limit [] got m = ([], m)"
| "memory_loop nowTick limit (k # ks) got m =
     (case map_of m k of
        None \<Rightarrow> memory_loop nowTick limit ks got m \<comment> \<open>not reached: keys are taken from the map\<close>
      | Some e \<Rightarrow>
          if expired nowTick e then memory_loop nowTick limit ks got (mdel k m)
          else if got + 1 \<ge> limit then ([(k, MValue e)], m)
          else let (out, m') = memory_loop nowTick limit ks (got + 1) m in ((k, MValue e) # out, m'))"

definition MemoryLoad :: "string \<Rightarrow> int \<Rightarrow> u64 \<Rightarrow> agent \<Rightarrow> (string \<times> string) list \<times> agent" where
  "MemoryLoad pre limit0 nowTick a =
     (let limit = (if limit0 \<le> 0 \<or> limit0 > 256 then 64 else limit0);
          keys = sort (filter (\<lambda>k. pre = [] \<or> starts_with pre k) (map fst (Memory a)));
          (out, m) = memory_loop nowTick limit keys 0 (Memory a)
      in (out, a\<lparr>Memory := m\<rparr>))"

section \<open>The event log\<close>

text \<open>
  The retained log holds the last events in order, numbered consecutively up to the cursor.
\<close>

definition log_ok :: "agent \<Rightarrow> bool" where
  "log_ok a \<longleftrightarrow>
     (let c = unat (EventCursor a); n = length (EventLog a)
      in n \<le> c \<and> n \<le> log_cap \<and> map fst (EventLog a) = map of_nat [c - n + 1 ..< c + 1])"

definition oldest_retained :: "agent \<Rightarrow> nat" where
  "oldest_retained a = unat (EventCursor a) - length (EventLog a)"

lemma AddEvent_fields [simp]:
  "AID (AddEvent e a) = AID a" "AInventory (AddEvent e a) = AInventory a"
  "APos (AddEvent e a) = APos a" "AOrgID (AddEvent e a) = AOrgID a" "rl (AddEvent e a) = rl a"
  "RepTrade (AddEvent e a) = RepTrade a" "RepSocial (AddEvent e a) = RepSocial a"
  "RepLaw (AddEvent e a) = RepLaw a" "RepBuild (AddEvent e a) = RepBuild a"
  "WorkTask (AddEvent e a) = WorkTask a" "MoveTask (AddEvent e a) = MoveTask a"
  "StaminaMilli (AddEvent e a) = StaminaMilli a" "funDecay (AddEvent e a) = funDecay a"
  "Memory (AddEvent e a) = Memory a" "seenEvents (AddEvent e a) = seenEvents a"
  by (simp_all add: AddEvent_def Let_def)

lemma unat_Suc_cursor: "unat c + 1 < 2 ^ 64 \<Longrightarrow> unat (c + 1 :: u64) = unat c + 1"
  by (simp add: unat_word_ariths)

lemma AddEvent_log_ok:
  assumes "log_ok a" and "unat (EventCursor a) + 1 < 2 ^ 64"
  shows "log_ok (AddEvent e a)"
proof -
  define c n where "c = unat (EventCursor a)" and "n = length (EventLog a)"
  have c': "unat (EventCursor a + 1) = c + 1" using unat_Suc_cursor assms(2) c_def by simp
  have cur: "EventCursor a + 1 = of_nat (c + 1)" using c' by (metis u64_unat)
  from assms(1) have h: "n \<le> c" "n \<le> log_cap" "map fst (EventLog a) = map of_nat [c - n + 1 ..< c + 1]"
    by (simp_all add: log_ok_def Let_def c_def n_def)
  define lg where "lg = EventLog a @ [(EventCursor a + 1, e)]"
  have "[c - n + 1 ..< c + 2] = [c - n + 1 ..< c + 1] @ [c + 1]" using h(1) by simp
  then have lg: "map fst lg = map of_nat [c - n + 1 ..< c + 2]" "length lg = n + 1"
    using h(3) by (simp_all add: lg_def cur n_def del: upt_Suc)
  define kept where "kept = (if length lg > log_cap then drop (length lg - log_cap) lg else lg)"
  have kept: "length kept \<le> log_cap" "length kept \<le> n + 1" using lg(2) by (auto simp: kept_def)
  have "map fst kept = map of_nat [c + 2 - length kept ..< c + 2]"
  proof (cases "length lg > log_cap")
    case True
    then have "map fst kept = map of_nat (drop (n + 1 - log_cap) [c - n + 1 ..< c + 2])"
      by (simp add: kept_def lg drop_map[symmetric])
    also have "drop (n + 1 - log_cap) [c - n + 1 ..< c + 2] = [c + 2 - log_cap ..< c + 2]"
    proof -
      have "c - n + 1 + (n + 1 - log_cap) = c + 2 - log_cap" using True h(1) lg(2) by linarith
      then show ?thesis by (simp only: drop_upt)
    qed
    finally have "map fst kept = map of_nat [c + 2 - log_cap ..< c + 2]" .
    moreover have "length kept = log_cap" using True by (simp add: kept_def)
    ultimately show ?thesis by simp
  next
    case False
    then have "kept = lg" by (simp add: kept_def)
    moreover have "c - n + 1 = c + 2 - (n + 1)" using h(1) by linarith
    ultimately show ?thesis using lg by simp
  qed
  moreover have "c + 2 - length kept = c + 1 - length kept + 1" using kept(2) h(1) by simp
  moreover have "EventLog (AddEvent e a) = kept" "EventCursor (AddEvent e a) = EventCursor a + 1"
    by (simp_all add: AddEvent_def Let_def kept_def lg_def)
  ultimately show ?thesis
    using kept h(1) c' by (simp add: log_ok_def Let_def del: upt_Suc)
qed

lemma events_after_loop_filter:
  assumes "0 < left"
  shows "fst (events_after_loop cursor left nxt es) = take left (filter (\<lambda>e. cursor < fst e) es)"
    and "snd (events_after_loop cursor left nxt es) =
      (let out = take left (filter (\<lambda>e. cursor < fst e) es) in if out = [] then nxt else fst (last out))"
  using assms
proof (induction cursor left nxt es rule: events_after_loop.induct)
  case (2 cursor left nxt e es)
  { case 1
    with 2 show ?case
      by (cases left) (auto simp: Let_def take_Cons' split: prod.splits)
  next
    case 2
    with "2.IH" show ?case
      by (cases left) (auto simp: Let_def take_Cons' not_le split: prod.splits)
  }
qed auto

lemma effective_limit_pos: "0 < nat (effective_limit limit)"
  by (simp add: effective_limit_def)

lemma EventsAfter_filter:
  "fst (EventsAfter a cursor limit) =
    take (nat (effective_limit limit)) (filter (\<lambda>e. cursor < fst e) (EventLog a))"
  by (simp add: EventsAfter_def events_after_loop_filter(1)[OF effective_limit_pos])

lemma log_ok_filter:
  assumes "log_ok a" and "oldest_retained a \<le> k" and "k \<le> unat (EventCursor a)"
  shows "filter (\<lambda>e. of_nat k < fst e) (EventLog a) = drop (k - oldest_retained a) (EventLog a)"
proof -
  define c n where "c = unat (EventCursor a)" and "n = length (EventLog a)"
  have h: "n \<le> c" "map fst (EventLog a) = map of_nat [c - n + 1 ..< c + 1]"
    using assms(1) by (simp_all add: log_ok_def Let_def c_def n_def)
  have c64: "c < 2 ^ 64" unfolding c_def by (rule unat_u64_less)
  have k: "c - n \<le> k" "k \<le> c" using assms(2,3) by (simp_all add: oldest_retained_def c_def n_def)
  have nth: "fst (EventLog a ! i) = of_nat (c - n + 1 + i)" if "i < n" for i
  proof -
    have "fst (EventLog a ! i) = map fst (EventLog a) ! i" using that n_def by simp
    also have "\<dots> = of_nat (c - n + 1 + i)" using that h(1) by (simp add: h(2) del: upt_Suc)
    finally show ?thesis .
  qed
  have gt: "(of_nat k < fst (EventLog a ! i)) = (k - (c - n) \<le> i)" if "i < n" for i
  proof -
    have "unat (of_nat (c - n + 1 + i) :: u64) = c - n + 1 + i" "unat (of_nat k :: u64) = k"
      by (rule unat_of_nat_small, use that h(1) k c64 in linarith)+
    then have "(of_nat k < fst (EventLog a ! i)) = (k < c - n + 1 + i)"
      using nth[OF that] by (simp add: word_less_nat_alt)
    then show ?thesis using k by auto
  qed
  have split: "EventLog a = take (k - (c - n)) (EventLog a) @ drop (k - (c - n)) (EventLog a)" by simp
  have "\<not> of_nat k < fst e" if e: "e \<in> set (take (k - (c - n)) (EventLog a))" for e
  proof -
    from e obtain i where "i < k - (c - n)" "i < n" "e = EventLog a ! i"
      by (auto simp: in_set_conv_nth n_def)
    with gt[of i] show ?thesis by simp
  qed
  then have "filter (\<lambda>e. of_nat k < fst e) (take (k - (c - n)) (EventLog a)) = []"
    by (simp add: filter_empty_conv)
  moreover have "of_nat k < fst e" if e: "e \<in> set (drop (k - (c - n)) (EventLog a))" for e
  proof -
    from e obtain i where "i < n - (k - (c - n))" "e = EventLog a ! (k - (c - n) + i)"
      by (auto simp: in_set_conv_nth n_def)
    then have "k - (c - n) + i < n" "e = EventLog a ! (k - (c - n) + i)" by linarith+
    with gt[of "k - (c - n) + i"] show ?thesis by simp
  qed
  then have "filter (\<lambda>e. of_nat k < fst e) (drop (k - (c - n)) (EventLog a)) = drop (k - (c - n)) (EventLog a)"
    by (simp add: filter_id_conv)
  ultimately have "filter (\<lambda>e. of_nat k < fst e) (EventLog a) = drop (k - (c - n)) (EventLog a)"
    by (metis split filter_append append_Nil)
  then show ?thesis by (simp add: oldest_retained_def c_def n_def)
qed

text \<open>
  C22. Cursor-based fetching neither skips nor repeats: for a reader whose cursor has not fallen
  behind the retained log, \<open>EventsAfter\<close> returns the next events in order, as many as the clamped
  limit allows, and the cursor it hands back is the old one advanced by the number returned.
\<close>

theorem EventsAfter_contiguous:
  assumes "log_ok a" and "oldest_retained a \<le> unat cursor" and "cursor \<le> EventCursor a"
  shows "(let pending = drop (unat cursor - oldest_retained a) (EventLog a);
              out = take (nat (effective_limit limit)) pending
          in fst (EventsAfter a cursor limit) = out \<and>
             unat (snd (EventsAfter a cursor limit)) = unat cursor + length out)"
proof -
  let ?L = "nat (effective_limit limit)"
  let ?p = "drop (unat cursor - oldest_retained a) (EventLog a)"
  have le: "unat cursor \<le> unat (EventCursor a)" using assms(3) by (simp add: word_le_nat_alt)
  have f: "filter (\<lambda>e. cursor < fst e) (EventLog a) = ?p"
    using log_ok_filter[OF assms(1,2) le] by simp
  have out: "fst (EventsAfter a cursor limit) = take ?L ?p" by (simp add: EventsAfter_filter f)
  have snd: "snd (EventsAfter a cursor limit) = (if take ?L ?p = [] then cursor else fst (last (take ?L ?p)))"
    by (simp add: EventsAfter_def events_after_loop_filter(2)[OF effective_limit_pos] f Let_def)
  have "unat (fst (last (take ?L ?p))) = unat cursor + length (take ?L ?p)" if ne: "take ?L ?p \<noteq> []"
  proof -
    define c n where "c = unat (EventCursor a)" and "n = length (EventLog a)"
    define d where "d = unat cursor - oldest_retained a"
    have h: "n \<le> c" "map fst (EventLog a) = map of_nat [c - n + 1 ..< c + 1]"
      using assms(1) by (simp_all add: log_ok_def Let_def c_def n_def)
    have c64: "c < 2 ^ 64" unfolding c_def by (rule unat_u64_less)
    define m where "m = length (take ?L ?p)"
    have m: "0 < m" "d + m \<le> n" using ne by (auto simp: m_def d_def n_def)
    have "m \<le> ?L" by (simp add: m_def)
    with m(1) have "m - 1 < ?L" by linarith
    then have nth: "last (take ?L ?p) = ?p ! (m - 1)"
      using last_conv_nth[OF ne, folded m_def] by simp
    have "last (take ?L ?p) = EventLog a ! (d + m - 1)"
      using nth m by (simp add: d_def[symmetric] n_def)
    then have "fst (last (take ?L ?p)) = map fst (EventLog a) ! (d + m - 1)"
      using m by (simp add: n_def)
    also have "\<dots> = of_nat (c - n + (d + m))" using m h(1) by (simp add: h(2) del: upt_Suc)
    finally have "unat (fst (last (take ?L ?p))) = c - n + (d + m)"
      using unat_of_nat_small[of "c - n + (d + m)"] m h(1) c64 by simp
    moreover have "c - n + d = unat cursor"
      using assms(2) by (simp add: d_def oldest_retained_def c_def n_def)
    ultimately show ?thesis by (simp add: m_def)
  qed
  with out snd show ?thesis by (auto simp: Let_def)
qed

definition sample_agent :: agent where
  "sample_agent = \<lparr>AID = ''A1'', AName = ''bot'', AOrgID = [], CurrentWorldID = ''OVERWORLD'',
     SwitchCooldownUntil = 0, ResumeToken = [], APos = \<lparr>vx = 0, vy = 0, vz = 0\<rparr>, Yaw = 0,
     HP = 20, Hunger = 20, StaminaMilli = 1000, RepTrade = 500, RepBuild = 500, RepSocial = 500,
     RepLaw = 500,
     AFun = \<lparr>Novelty = 0, Creation = 0, Social = 0, Influence = 0, Narrative = 0, RiskRescue = 0\<rparr>,
     AInventory = [(''COAL'', 5), (''LOG'', 3)], MainHand = ''NONE'', Armor = replicate 4 ''NONE'',
     MoveTask = None, WorkTask = None, Events = [], EventCursor = 0, EventLog = [], rl = [],
     funDecay = [], seenBiomes = [], seenRecipes = [], seenEvents = [], Memory = [], PendingMemory = []\<rparr>"

definition three_events :: agent where
  "three_events = fold AddEvent [[(''n'', JInt 1)], [(''n'', JInt 2)], [(''n'', JInt 3)]] sample_agent"

lemma three_events_log: "EventLog three_events = [(1, [(''n'', JInt 1)]), (2, [(''n'', JInt 2)]), (3, [(''n'', JInt 3)])]"
  and three_events_cursor: "EventCursor three_events = 3"
  by (simp_all add: three_events_def sample_agent_def AddEvent_def log_cap_def)

theorem EventsAfter_contiguous_witness:
  "EventsAfter three_events 1 1 = ([(2, [(''n'', JInt 2)])], 2) \<and> log_ok three_events"
proof -
  have ok: "log_ok three_events"
    by (simp add: log_ok_def three_events_log three_events_cursor log_cap_def upt_conv_Cons)
  have "oldest_retained three_events = 0"
    by (simp add: oldest_retained_def three_events_log three_events_cursor)
  then have p: "oldest_retained three_events \<le> unat (1 :: u64)" "(1 :: u64) \<le> EventCursor three_events"
    by (simp_all add: three_events_cursor)
  have f: "fst (EventsAfter three_events 1 1) = [(2, [(''n'', JInt 2)])]"
    and s: "unat (snd (EventsAfter three_events 1 1)) = 2"
    using EventsAfter_contiguous[OF ok p, of 1] \<open>oldest_retained three_events = 0\<close>
    by (simp_all add: Let_def three_events_log effective_limit_def)
  have "snd (EventsAfter three_events 1 1) = 2" using s by (metis u64_unat of_nat_numeral)
  with f ok show ?thesis by (metis prod.collapse)
qed

section \<open>Rate limits\<close>

text \<open>Attempts of one kind at ticks \<open>ts\<close>, one after the other, on the window state alone.\<close>

fun rate_attempts :: "u64 \<Rightarrow> int \<Rightarrow> u64 list \<Rightarrow> u64 \<times> int \<Rightarrow> bool list" where
  "rate_attempts window maxn [] st = []"
| "rate_attempts window maxn (t # ts) st =
     (case rates_allow t (fst st) (snd st) window maxn of
        (start, count, ok, cool) \<Rightarrow> ok # rate_attempts window maxn ts (start, count))"

lemma rate_attempts_full:
  assumes "w \<noteq> 0" and "0 < m" and "m \<le> c" and "c + int (length ts) \<le> 2 ^ 62"
    and "\<And>t. t \<in> set ts \<Longrightarrow> \<not> t - start \<ge> w"
  shows "rate_attempts w m ts (start, c) = replicate (length ts) False"
  using assms(3-5)
proof (induction ts arbitrary: c)
  case (Cons t ts)
  have "\<not> t - start \<ge> w" using Cons.prems(3) by simp
  moreover have "i64 (c + 1) = c + 1" using Cons.prems(1,2) assms(2) by simp
  ultimately show ?case using Cons assms(1,2) by (simp add: rates_allow_def Let_def)
qed simp

text \<open>
  Inside one counting window exactly the first \<open>max\<close> attempts pass: with \<open>c\<close> attempts already
  counted, the next \<open>max - c\<close> are admitted and every further one is refused until the window is
  over, whatever the ticks at which they come.
\<close>

lemma rate_limit_exact:
  assumes "w \<noteq> 0" and "0 \<le> c" and "c \<le> m" and "0 < m"
    and "m + int (length ts) \<le> 2 ^ 62"
    and "\<forall>t \<in> set ts. \<not> t - start \<ge> w"
  shows "rate_attempts w m ts (start, c) =
    replicate (min (length ts) (nat (m - c))) True @ replicate (length ts - nat (m - c)) False"
  using assms(2,3,5,6)
proof (induction ts arbitrary: c)
  case (Cons t ts)
  have nt: "\<not> t - start \<ge> w" using Cons.prems(4) by simp
  have c1: "i64 (c + 1) = c + 1" using Cons.prems(1-3) by simp
  show ?case
  proof (cases "c < m")
    case True
    have IH: "rate_attempts w m ts (start, c + 1) =
      replicate (min (length ts) (nat (m - (c + 1)))) True @ replicate (length ts - nat (m - (c + 1))) False"
      by (rule Cons.IH) (use True Cons.prems in auto)
    have n: "nat (m - c) = Suc (nat (m - (c + 1)))" using True by simp
    have "rate_attempts w m (t # ts) (start, c) = True # rate_attempts w m ts (start, c + 1)"
      using nt c1 True assms(1,4) by (simp add: rates_allow_def Let_def)
    then show ?thesis using IH by (simp add: n)
  next
    case False
    with Cons.prems have "c = m" by simp
    have "rate_attempts w m (t # ts) (start, c) = replicate (length (t # ts)) False"
      by (rule rate_attempts_full) (use Cons.prems \<open>c = m\<close> assms in auto)
    with \<open>c = m\<close> show ?thesis by simp
  qed
qed simp

text \<open>What a rate-limit decision depends on: start and count of each window.\<close>

definition rl_view :: "agent \<Rightarrow> string \<Rightarrow> (u64 \<times> int) option" where
  "rl_view a k = map_option (\<lambda>w. (RStartTick w, RCount w)) (map_of (rl a) k)"

definition view_step :: "u64 \<Rightarrow> u64 \<Rightarrow> int \<Rightarrow> (u64 \<times> int) option \<Rightarrow> u64 \<times> int \<times> bool \<times> u64" where
  "view_step now w m v =
     (let (s, c) = (case v of None \<Rightarrow> (now, 0) | Some p \<Rightarrow> p) in rates_allow now s c w m)"

lemma RateLimitAllow_by_view:
  "RateLimitAllow kind now w m a = (ok, cool, a') \<Longrightarrow>
    (case view_step now w m (rl_view a kind) of (s, c, k, cd) \<Rightarrow>
       ok = k \<and> cool = cd \<and> rl_view a' = (rl_view a)(kind \<mapsto> (s, c)))"
  by (cases "map_of (rl a) kind")
     (auto simp: RateLimitAllow_def view_step_def rl_view_def rates_allow_def Let_def fun_eq_iff gomap
           split: if_splits)

lemma RateLimitAllow_view:
  assumes "rl_view a = rl_view b"
    and "RateLimitAllow kind now w m a = (ok, cool, a')" and "RateLimitAllow kind now w m b = (ok', cool', b')"
  shows "ok = ok' \<and> cool = cool' \<and> rl_view a' = rl_view b'"
  using RateLimitAllow_by_view[OF assms(2)] RateLimitAllow_by_view[OF assms(3)] assms(1)
  by (auto split: prod.splits)

definition rates_ok :: "agent \<Rightarrow> bool" where
  "rates_ok a \<longleftrightarrow> wf_map (rl a) \<and> (\<forall>(k, w) \<in> set (rl a). k \<noteq> [] \<and> 0 < RCount w)"

lemma map_of_RateWindowsSnapshot:
  assumes "wf_map (rl a)"
  shows "map_of (RateWindowsSnapshot a) j =
    (case map_of (rl a) j of None \<Rightarrow> None
     | Some w \<Rightarrow> if j = [] \<or> RCount w \<le> 0 then None else Some (RStartTick w, RCount w))"
proof -
  have "map_of (RateWindowsSnapshot a) j =
    (case map_of (rl a) j of None \<Rightarrow> map_of [] j
     | Some w \<Rightarrow> (\<lambda>k w x. if k = [] \<or> RCount w \<le> 0 then x else Some (RStartTick w, RCount w)) j w (map_of [] j))"
    unfolding RateWindowsSnapshot_def
    by (rule for_items_pointwise[OF assms, where obs = map_of]) (auto simp: gomap)
  then show ?thesis by (simp split: option.split)
qed

lemma wf_for_items_put:
  "wf_map s \<Longrightarrow> wf_map (for_items (\<lambda>k v m. if P k v then m else mput k (f k v) m) items s)"
  by (rule for_items_invariant) auto

lemma map_of_LoadRateWindows:
  assumes "wf_map src"
  shows "map_of (rl (LoadRateWindowsSnapshot src a)) j =
    (case map_of src j of None \<Rightarrow> None
     | Some p \<Rightarrow> if j = [] \<or> snd p \<le> 0 then None
                 else Some \<lparr>RStartTick = fst p, RCount = snd p, RWindow = 0, RMax = 0\<rparr>)"
proof -
  have "map_of (rl (LoadRateWindowsSnapshot src a)) j =
    (case map_of src j of None \<Rightarrow> map_of [] j
     | Some p \<Rightarrow> (\<lambda>k p x. if k = [] \<or> snd p \<le> 0 then x
         else Some \<lparr>RStartTick = fst p, RCount = snd p, RWindow = 0, RMax = 0\<rparr>) j p (map_of [] j))"
    unfolding LoadRateWindowsSnapshot_def agent.simps agent.select_convs
    by (simp, rule for_items_pointwise[OF assms, where obs = map_of]) (auto simp: gomap)
  then show ?thesis by (simp split: option.split)
qed

lemma rates_ok_reload:
  assumes "rates_ok a"
  shows "rl_view (LoadRateWindowsSnapshot (RateWindowsSnapshot a) b) = rl_view a"
proof
  fix j
  have wf: "wf_map (rl a)" using assms by (simp add: rates_ok_def)
  have wfs: "wf_map (RateWindowsSnapshot a)"
    unfolding RateWindowsSnapshot_def by (rule wf_for_items_put) simp
  have pos: "j \<noteq> [] \<and> 0 < RCount w" if "map_of (rl a) j = Some w" for w
    using assms map_of_SomeD[OF that] by (auto simp: rates_ok_def)
  show "rl_view (LoadRateWindowsSnapshot (RateWindowsSnapshot a) b) j = rl_view a j"
    using pos
    by (auto simp: rl_view_def map_of_LoadRateWindows[OF wfs] map_of_RateWindowsSnapshot[OF wf] split: option.splits)
qed

fun rate_run :: "(string \<times> u64 \<times> u64 \<times> int) list \<Rightarrow> agent \<Rightarrow> (bool \<times> u64) list" where
  "rate_run [] a = []"
| "rate_run ((kind, now, w, m) # rest) a =
     (case RateLimitAllow kind now w m a of (ok, cool, a') \<Rightarrow> (ok, cool) # rate_run rest a')"

lemma rate_run_view: "rl_view a = rl_view b \<Longrightarrow> rate_run calls a = rate_run calls b"
proof (induction calls arbitrary: a b)
  case (Cons c calls)
  obtain kind now w m where c: "c = (kind, now, w, m)" by (metis prod.collapse)
  obtain ok cool a' where ra: "RateLimitAllow kind now w m a = (ok, cool, a')" by (metis prod.collapse)
  obtain ok' cool' b' where rb: "RateLimitAllow kind now w m b = (ok', cool', b')" by (metis prod.collapse)
  have v: "ok = ok' \<and> cool = cool' \<and> rl_view a' = rl_view b'"
    by (rule RateLimitAllow_view[OF Cons.prems ra rb])
  then have "rate_run calls a' = rate_run calls b'" by (intro Cons.IH) simp
  with v show ?case by (simp add: c ra rb)
qed simp

text \<open>
  A snapshot and restore of the rate windows loses nothing: although the snapshot drops the
  configured window and maximum, every sequence of later rate-limit checks gets the same answers
  and the same cooldowns as without the restart.
\<close>

lemma rate_limits_survive_snapshot:
  assumes "rates_ok a"
  shows "rate_run calls (LoadRateWindowsSnapshot (RateWindowsSnapshot a) b) = rate_run calls a"
  by (rule rate_run_view) (rule rates_ok_reload[OF assms])

section \<open>Seen sets\<close>

lemma seen_in_Nil [simp]: "\<not> seen_in [] k"
  by (simp add: seen_in_def)

lemma seen_in_mput [simp]: "seen_in (mput k v m) j \<longleftrightarrow> (if j = k then v else seen_in m j)"
  by (simp add: seen_in_def gomap)

lemma wf_map_mark: "wf_map m \<Longrightarrow> wf_map (snd (mark k m))"
  by (simp add: mark_def)

lemma mark_spec:
  "fst (mark k m) \<longleftrightarrow> k \<noteq> [] \<and> \<not> seen_in m k"
  "seen_in (snd (mark k m)) j \<longleftrightarrow> seen_in m j \<or> (j = k \<and> k \<noteq> [])"
  by (auto simp: mark_def)

lemma set_seen_sorted: "wf_map m \<Longrightarrow> k \<in> set (seen_sorted m) \<longleftrightarrow> seen_in m k \<and> k \<noteq> []"
  by (force simp: seen_sorted_def seen_in_def wf_map_def dest: map_of_SomeD)

lemma seen_of_list_fold:
  "seen_in (fold (\<lambda>b m. if b = [] then m else mput b True m) l m) k \<longleftrightarrow> seen_in m k \<or> (k \<in> set l \<and> k \<noteq> [])"
  by (induction l arbitrary: m) auto

lemma seen_of_list_spec: "seen_in (seen_of_list l) k \<longleftrightarrow> k \<in> set l \<and> k \<noteq> []"
  by (simp add: seen_of_list_def seen_of_list_fold)

text \<open>The first sighting counts, no later one does: the three sets share this contract.\<close>

locale seen_set =
  fixes see :: "string \<Rightarrow> agent \<Rightarrow> bool \<times> agent"
    and listed :: "agent \<Rightarrow> string list"
    and load :: "string list \<Rightarrow> agent \<Rightarrow> agent"
    and holds :: "agent \<Rightarrow> string \<Rightarrow> bool"
    and ok :: "agent \<Rightarrow> bool"
  assumes see_first: "fst (see k a) \<longleftrightarrow> k \<noteq> [] \<and> \<not> holds a k"
    and see_holds: "holds (snd (see k a)) j \<longleftrightarrow> holds a j \<or> (j = k \<and> k \<noteq> [])"
    and see_ok: "ok a \<Longrightarrow> ok (snd (see k a))"
    and listed_holds: "ok a \<Longrightarrow> k \<in> set (listed a) \<longleftrightarrow> holds a k \<and> k \<noteq> []"
    and load_holds: "holds (load l a) k \<longleftrightarrow> k \<in> set l \<and> k \<noteq> []"
begin

fun see_run :: "string list \<Rightarrow> agent \<Rightarrow> bool list \<times> agent" where
  "see_run [] a = ([], a)"
| "see_run (k # ks) a = (let (r, a') = see k a; (rs, a'') = see_run ks a' in (r # rs, a''))"

lemma see_run_holds: "holds (snd (see_run ks a)) k \<longleftrightarrow> holds a k \<or> (k \<in> set ks \<and> k \<noteq> [])"
proof (induction ks arbitrary: a)
  case (Cons j ks)
  obtain r a' where s: "see j a = (r, a')" by (cases "see j a")
  have "holds a' k \<longleftrightarrow> holds a k \<or> (k = j \<and> j \<noteq> [])" using see_holds[of j a k] s by simp
  moreover have "snd (see_run (j # ks) a) = snd (see_run ks a')"
    by (simp add: s Let_def split: prod.split)
  ultimately show ?case using Cons.IH[of a'] by auto
qed simp

lemma see_run_nth:
  "i < length ks \<Longrightarrow>
    fst (see_run ks a) ! i \<longleftrightarrow> ks ! i \<noteq> [] \<and> \<not> holds a (ks ! i) \<and> ks ! i \<notin> set (take i ks)"
proof (induction ks arbitrary: a i)
  case (Cons k ks)
  obtain r a' where s: "see k a = (r, a')" by (cases "see k a")
  have r: "r \<longleftrightarrow> k \<noteq> [] \<and> \<not> holds a k" using see_first[of k a] s by simp
  have h: "holds a' j \<longleftrightarrow> holds a j \<or> (j = k \<and> k \<noteq> [])" for j using see_holds[of k a j] s by simp
  show ?case
  proof (cases i)
    case 0
    with s r show ?thesis by (simp add: Let_def split: prod.split)
  next
    case (Suc j)
    have "fst (see_run (k # ks) a) ! i = fst (see_run ks a') ! j"
      by (simp add: s Suc Let_def split: prod.split)
    moreover have "j < length ks" using Cons.prems Suc by simp
    ultimately show ?thesis using Cons.IH[of j a'] h[of "ks ! j"] Suc by auto
  qed
qed simp

lemma reload_holds: "ok a \<Longrightarrow> holds (load (listed a) b) k \<longleftrightarrow> holds a k \<and> k \<noteq> []"
  by (simp add: load_holds listed_holds)

end

interpretation biomes: seen_set MarkBiomeSeen SeenBiomesSorted SetSeenBiomes
  "\<lambda>a. seen_in (seenBiomes a)" "\<lambda>a. wf_map (seenBiomes a)"
  by unfold_locales
    (simp_all add: MarkBiomeSeen_def SeenBiomesSorted_def SetSeenBiomes_def mark_spec set_seen_sorted
       seen_of_list_spec wf_map_mark case_prod_beta)

interpretation recipes: seen_set MarkRecipeSeen SeenRecipesSorted SetSeenRecipes
  "\<lambda>a. seen_in (seenRecipes a)" "\<lambda>a. wf_map (seenRecipes a)"
  by unfold_locales
    (simp_all add: MarkRecipeSeen_def SeenRecipesSorted_def SetSeenRecipes_def mark_spec set_seen_sorted
       seen_of_list_spec wf_map_mark case_prod_beta)

interpretation seen_events: seen_set MarkEventSeen SeenEventsSorted SetSeenEvents
  "\<lambda>a. seen_in (seenEvents a)" "\<lambda>a. wf_map (seenEvents a)"
  by unfold_locales
    (simp_all add: MarkEventSeen_def SeenEventsSorted_def SetSeenEvents_def mark_spec set_seen_sorted
       seen_of_list_spec wf_map_mark case_prod_beta)

section \<open>Fun-score decay\<close>

lemma FunDecayDelta_bounds:
  assumes "\<And>b mult k. 0 < b \<Longrightarrow> 0 < mult \<Longrightarrow> mult \<le> 1 \<Longrightarrow> scaled b mult k \<le> b"
  shows "0 \<le> fst (FunDecayDelta scaled key base now w mult a) \<and>
    fst (FunDecayDelta scaled key base now w mult a) \<le> max 0 base"
proof -
  have "scaled base (if mult \<le> 0 \<or> mult > 1 then 7 / 10 else mult) k \<le> base" if "0 < base" for k
    by (rule assms[OF that]) auto
  then show ?thesis by (simp add: FunDecayDelta_def Let_def max_def)
qed

definition decay_view :: "agent \<Rightarrow> string \<Rightarrow> (u64 \<times> int) option" where
  "decay_view a k = map_option (\<lambda>w. (DStartTick w, DCount w)) (map_of (funDecay a) k)"

definition decay_ok :: "agent \<Rightarrow> bool" where
  "decay_ok a \<longleftrightarrow> wf_map (funDecay a) \<and> (\<forall>(k, w) \<in> set (funDecay a). k \<noteq> [] \<and> 0 < DCount w)"

lemma map_of_FunDecaySnapshot:
  assumes "wf_map (funDecay a)"
  shows "map_of (FunDecaySnapshot a) j =
    (case map_of (funDecay a) j of None \<Rightarrow> None
     | Some w \<Rightarrow> if j = [] then None else Some (DStartTick w, DCount w))"
proof -
  have "map_of (FunDecaySnapshot a) j =
    (case map_of (funDecay a) j of None \<Rightarrow> map_of [] j
     | Some w \<Rightarrow> (\<lambda>k w x. if k = [] then x else Some (DStartTick w, DCount w)) j w (map_of [] j))"
    unfolding FunDecaySnapshot_def
    by (rule for_items_pointwise[OF assms, where obs = map_of]) (auto simp: gomap)
  then show ?thesis by (simp split: option.split)
qed

lemma map_of_LoadFunDecay:
  assumes "wf_map src"
  shows "map_of (funDecay (LoadFunDecaySnapshot src a)) j =
    (case map_of src j of None \<Rightarrow> None
     | Some p \<Rightarrow> if j = [] \<or> snd p \<le> 0 then None else Some \<lparr>DStartTick = fst p, DCount = snd p\<rparr>)"
proof -
  have "map_of (funDecay (LoadFunDecaySnapshot src a)) j =
    (case map_of src j of None \<Rightarrow> map_of [] j
     | Some p \<Rightarrow> (\<lambda>k p x. if k = [] \<or> snd p \<le> 0 then x
         else Some \<lparr>DStartTick = fst p, DCount = snd p\<rparr>) j p (map_of [] j))"
    unfolding LoadFunDecaySnapshot_def
    by (simp, rule for_items_pointwise[OF assms, where obs = map_of]) (auto simp: gomap)
  then show ?thesis by (simp split: option.split)
qed

lemma decay_reload:
  assumes "decay_ok a"
  shows "decay_view (LoadFunDecaySnapshot (FunDecaySnapshot a) b) = decay_view a"
proof
  fix j
  have wf: "wf_map (funDecay a)" using assms by (simp add: decay_ok_def)
  have wfs: "wf_map (FunDecaySnapshot a)"
    unfolding FunDecaySnapshot_def by (rule wf_for_items_put) simp
  have pos: "j \<noteq> [] \<and> 0 < DCount w" if "map_of (funDecay a) j = Some w" for w
    using assms map_of_SomeD[OF that] by (auto simp: decay_ok_def)
  show "decay_view (LoadFunDecaySnapshot (FunDecaySnapshot a) b) j = decay_view a j"
    using pos
    by (auto simp: decay_view_def map_of_LoadFunDecay[OF wfs] map_of_FunDecaySnapshot[OF wf] split: option.splits)
qed

section \<open>Memory\<close>

definition live_keys :: "string \<Rightarrow> u64 \<Rightarrow> memory_entry gomap \<Rightarrow> string list" where
  "live_keys pre now m =
     filter (\<lambda>k. case map_of m k of None \<Rightarrow> False | Some e \<Rightarrow> \<not> expired now e)
       (sort (filter (\<lambda>k. pre = [] \<or> starts_with pre k) (map fst m)))"

lemma memory_loop_take:
  assumes "distinct ks" and "set ks \<subseteq> fst ` set m" and "got < limit"
  shows "fst (memory_loop now limit ks got m) =
    take (nat (limit - got))
      (map (\<lambda>k. (k, MValue (the (map_of m k))))
        (filter (\<lambda>k. case map_of m k of None \<Rightarrow> False | Some e \<Rightarrow> \<not> expired now e) ks))"
  using assms
proof (induction now limit ks got m rule: memory_loop.induct)
  case (2 now limit k ks got m)
  then obtain e where e: "map_of m k = Some e" by (metis insert_subset list.simps(15) map_of_eq_None_iff not_None_eq)
  have kks: "k \<notin> set ks" "distinct ks" using "2.prems"(1) by auto
  show ?case
  proof (cases "expired now e")
    case True
    have "filter (\<lambda>k. case map_of (mdel k' m) k of None \<Rightarrow> False | Some e \<Rightarrow> \<not> expired now e) ks =
        filter (\<lambda>k. case map_of m k of None \<Rightarrow> False | Some e \<Rightarrow> \<not> expired now e) ks" if "k' = k" for k'
      using that kks by (intro filter_cong) (auto simp: gomap)
    moreover have "map_of (mdel k m) j = map_of m j" if "j \<in> set ks" for j
      using that kks by (auto simp: gomap)
    moreover have "set ks \<subseteq> fst ` set (mdel k m)"
      using "2.prems"(2) kks by (auto simp: keys_mdel)
    ultimately show ?thesis
      using e True "2.IH"(2)[OF e True kks(2)] "2.prems"(3)
      by (auto intro!: arg_cong[where f = "take _"] map_cong)
  next
    case False
    show ?thesis
    proof (cases "got + 1 \<ge> limit")
      case True
      then have "nat (limit - got) = 1" using "2.prems"(3) by simp
      with e False True show ?thesis by simp
    next
      case less: False
      then have n: "nat (limit - got) = Suc (nat (limit - (got + 1)))" by simp
      have sub: "set ks \<subseteq> fst ` set m" using "2.prems"(2) by simp
      have "fst (memory_loop now limit ks (got + 1) m) =
        take (nat (limit - (got + 1)))
          (map (\<lambda>k. (k, MValue (the (map_of m k))))
            (filter (\<lambda>k. case map_of m k of None \<Rightarrow> False | Some e \<Rightarrow> \<not> expired now e) ks))"
        using "2.IH"(3)[OF e False less kks(2) sub] less by simp
      with e False less show ?thesis by (simp add: n case_prod_beta)
    qed
  qed
qed simp

text \<open>
  Loading memory returns exactly the live entries under the prefix, in key order, cut off at the
  clamped limit: an expired entry is never returned and never uses up the limit.
\<close>

lemma MemoryLoad_live_prefix:
  assumes "wf_map (Memory a)"
  shows "fst (MemoryLoad pre limit now a) =
    take (nat (if limit \<le> 0 \<or> limit > 256 then 64 else limit))
      (map (\<lambda>k. (k, MValue (the (map_of (Memory a) k)))) (live_keys pre now (Memory a)))"
proof -
  define L where "L = (if limit \<le> 0 \<or> limit > 256 then 64 else limit)"
  have "fst (memory_loop now L (sort (filter (\<lambda>k. pre = [] \<or> starts_with pre k) (map fst (Memory a)))) 0 (Memory a)) =
    take (nat (L - 0)) (map (\<lambda>k. (k, MValue (the (map_of (Memory a) k)))) (live_keys pre now (Memory a)))"
    unfolding live_keys_def
    by (rule memory_loop_take) (use assms in \<open>auto simp: wf_map_def L_def\<close>)
  then show ?thesis by (simp add: MemoryLoad_def L_def[symmetric] Let_def case_prod_beta)
qed

end
