(* ===== verification/Stats_Model.thy ===== *)
theory Stats_Model
  imports Agent_Model
begin

text \<open>
  World statistics and the scores derived from them (\<open>feature/director/stats/stats.go\<close>): the ring of
  activity buckets with its rotation, the social factor, structure users, the creation score and the
  flood fill that decides whether a built structure is supported by the ground.

  Floating point expressions of the program are the fields of \<open>go_floats\<close>, one per expression that
  rounds; the theorems hold for every choice of them, under named bounds where one is needed.
\<close>

section \<open>Floating point expressions\<close>

record go_floats =
  mul_trunc :: "int \<Rightarrow> real \<Rightarrow> int"          \<comment> \<open>\<open>int(float64(c) * r)\<close>\<close>
  mul_round :: "int \<Rightarrow> real \<Rightarrow> int"          \<comment> \<open>\<open>int(math.Round(float64(b) * f))\<close>\<close>
  pow_round :: "int \<Rightarrow> real \<Rightarrow> int \<Rightarrow> int"   \<comment> \<open>\<open>int(math.Round(float64(b) * math.Pow(m, float64(k))))\<close>\<close>
  social_mid :: "int \<Rightarrow> real"                \<comment> \<open>\<open>0.5 + 0.5*(float64(rep)/500.0)\<close>\<close>
  log_points :: "int \<Rightarrow> int"                 \<comment> \<open>\<open>int(math.Round(math.Log(1+float64(n)) * 2))\<close>\<close>
  sqrt_points :: "int \<Rightarrow> int"                \<comment> \<open>\<open>int(math.Round(minFloat(15, 3*math.Sqrt(float64(n)))))\<close>\<close>
  day_fraction :: "u64 \<Rightarrow> u64 \<Rightarrow> real"       \<comment> \<open>\<open>float64(t) / float64(day)\<close>\<close>
  float_string :: "real \<Rightarrow> string"           \<comment> \<open>\<open>strconv.FormatFloat(f, 'g', -1, 64)\<close>\<close>
  parse_float :: "string \<Rightarrow> string + real"     \<comment> \<open>\<open>strconv.ParseFloat(s, 64)\<close>, no NaN or infinity\<close>
  of_int64 :: "int \<Rightarrow> real"                  \<comment> \<open>\<open>float64(x)\<close> of an integer\<close>

section \<open>Activity buckets\<close>

record bucket =
  Trades :: int
  Denied :: int
  ChunksDiscovered :: int
  BlueprintsComplete :: int

record world_stats =
  BucketTicks :: u64
  WindowTicksV :: u64
  Buckets :: "bucket list"
  CurIdx :: nat
  CurBase :: u64
  SeenChunks :: "((int \<times> int) \<times> bool) list"

definition empty_bucket :: bucket where
  "empty_bucket = \<lparr>Trades = 0, Denied = 0, ChunksDiscovered = 0, BlueprintsComplete = 0\<rparr>"

definition NewWorldStats :: "u64 \<Rightarrow> u64 \<Rightarrow> world_stats" where
  "NewWorldStats bucketTicks windowTicks =
     (let bucketTicks = (if bucketTicks = 0 then 300 else bucketTicks);
          windowTicks = (if windowTicks < bucketTicks then bucketTicks else windowTicks);
          n = sint (windowTicks div bucketTicks);
          n = (if n < 1 then 1 else n)
      in \<lparr>BucketTicks = bucketTicks, WindowTicksV = word_of_int n * bucketTicks,
          Buckets = replicate (nat n) empty_bucket, CurIdx = 0, CurBase = 0, SeenChunks = []\<rparr>)"

text \<open>
  The loop of \<open>rotate\<close>.  The number of turns is bounded by \<open>rotations\<close>, which is exact as long as
  the end of the current bucket is below \<open>2 ^ 64\<close> (\<open>rotate_done\<close> below).
\<close>

fun rotate_loop :: "nat \<Rightarrow> u64 \<Rightarrow> world_stats \<Rightarrow> world_stats" where
  "rotate_loop 0 nowTick s = s"
| "rotate_loop (Suc n) nowTick s =
     (if nowTick \<ge> CurBase s + BucketTicks s then
        let i = (CurIdx s + 1) mod length (Buckets s)
        in rotate_loop n nowTick (s\<lparr>CurIdx := i, Buckets := (Buckets s)[i := empty_bucket],
             CurBase := CurBase s + BucketTicks s\<rparr>)
      else s)"

definition rotations :: "u64 \<Rightarrow> world_stats \<Rightarrow> nat" where
  "rotations nowTick s = (unat nowTick - unat (CurBase s)) div unat (BucketTicks s)"

definition rotate_stats :: "u64 \<Rightarrow> world_stats \<Rightarrow> world_stats" where
  "rotate_stats nowTick s = rotate_loop (rotations nowTick s) nowTick s"

definition bump_bucket :: "(bucket \<Rightarrow> bucket) \<Rightarrow> world_stats \<Rightarrow> world_stats" where
  "bump_bucket f s = s\<lparr>Buckets := (Buckets s)[CurIdx s := f (Buckets s ! CurIdx s)]\<rparr>"

definition stats_floorDiv :: "int \<Rightarrow> int \<Rightarrow> int" where
  "stats_floorDiv a b =
     (if b = 0 then 0
      else let q = tdiv a b; r = tmod a b
           in if r \<noteq> 0 \<and> ((r > 0) \<noteq> (b > 0)) then i64 (q - 1) else q)"

definition ObservePos :: "u64 \<Rightarrow> int \<Rightarrow> int \<Rightarrow> world_stats \<Rightarrow> world_stats" where
  "ObservePos nowTick x z s0 =
     (let s = rotate_stats nowTick s0;
          k = (stats_floorDiv x 16, stats_floorDiv z 16)
      in if map_of (SeenChunks s) k = Some True then s
         else bump_bucket (\<lambda>b. b\<lparr>ChunksDiscovered := i64 (ChunksDiscovered b + 1)\<rparr>)
                (s\<lparr>SeenChunks := mput k True (SeenChunks s)\<rparr>))"

definition RecordTrade :: "u64 \<Rightarrow> world_stats \<Rightarrow> world_stats" where
  "RecordTrade nowTick s = bump_bucket (\<lambda>b. b\<lparr>Trades := i64 (Trades b + 1)\<rparr>) (rotate_stats nowTick s)"

definition RecordDenied :: "u64 \<Rightarrow> world_stats \<Rightarrow> world_stats" where
  "RecordDenied nowTick s = bump_bucket (\<lambda>b. b\<lparr>Denied := i64 (Denied b + 1)\<rparr>) (rotate_stats nowTick s)"

definition RecordBlueprintComplete :: "u64 \<Rightarrow> world_stats \<Rightarrow> world_stats" where
  "RecordBlueprintComplete nowTick s =
     bump_bucket (\<lambda>b. b\<lparr>BlueprintsComplete := i64 (BlueprintsComplete b + 1)\<rparr>) (rotate_stats nowTick s)"

definition Summarize :: "u64 \<Rightarrow> world_stats \<Rightarrow> bucket \<times> world_stats" where
  "Summarize nowTick s0 =
     (let s = rotate_stats nowTick s0
      in (fold (\<lambda>b out. \<lparr>Trades = i64 (Trades out + Trades b), Denied = i64 (Denied out + Denied b),
                 ChunksDiscovered = i64 (ChunksDiscovered out + ChunksDiscovered b),
                 BlueprintsComplete = i64 (BlueprintsComplete out + BlueprintsComplete b)\<rparr>)
            (Buckets s) empty_bucket, s))"

section \<open>Scores\<close>

definition SocialFunFactor :: "go_floats \<Rightarrow> int \<Rightarrow> real" where
  "SocialFunFactor fl repTrade =
     (if repTrade \<ge> 500 then 1 else if repTrade \<le> 0 then 1 / 2 else social_mid fl repTrade)"

definition ScaleByFactor :: "go_floats \<Rightarrow> int \<Rightarrow> real \<Rightarrow> int" where
  "ScaleByFactor fl base factor = (if base \<le> 0 then 0 else mul_round fl base factor)"

definition InfluenceUsagePoints :: "go_floats \<Rightarrow> int \<Rightarrow> int" where
  "InfluenceUsagePoints fl users = (if users \<le> 0 then 0 else sqrt_points fl users)"

definition StructureID :: "string \<Rightarrow> u64 \<Rightarrow> string \<Rightarrow> int \<Rightarrow> int \<Rightarrow> int \<Rightarrow> string" where
  "StructureID builderID nowTick blueprintID ax ay az =
     ''STRUCT_'' @ builderID @ ''_'' @ dec_nat (unat nowTick) @ ''_'' @ blueprintID @ ''_'' @
     dec_int ax @ ''_'' @ dec_int ay @ ''_'' @ dec_int az"

definition StructureUniqueUsers :: "u64 gomap \<Rightarrow> string \<Rightarrow> u64 \<Rightarrow> u64 \<Rightarrow> int" where
  "StructureUniqueUsers usedBy builderID nowTick window =
     (let cutoff = (if nowTick > window then nowTick - window else 0)
      in int (length (filter (\<lambda>(aid, lst). \<not> (aid = [] \<or> aid = builderID) \<and> lst \<ge> cutoff) usedBy)))"

record creation_input =
  UniqueBlockTypes :: int
  HasStorage :: bool
  HasLight :: bool
  HasWorkshop :: bool
  HasGovernance :: bool
  Stable :: bool
  Users :: int

definition CreationScore :: "go_floats \<Rightarrow> creation_input \<Rightarrow> int" where
  "CreationScore fl ci =
     (let uniq = (if UniqueBlockTypes ci < 0 then 0 else UniqueBlockTypes ci);
          complexity = log_points fl uniq;
          modules = (if HasStorage ci then 2 else 0) + (if HasLight ci then 2 else 0)
                  + (if HasWorkshop ci then 2 else 0) + (if HasGovernance ci then 2 else 0);
          stability = (if Stable ci then 3 else 0);
          usageBonus = (if 10 < i64 (2 * Users ci) then 10 else i64 (2 * Users ci))
      in i64 (5 + complexity + modules + stability + usageBonus))"

section \<open>Structural support\<close>

text \<open>
  \<open>index[p] = i\<close> is written for every position in turn, so the last occurrence wins.
\<close>

fun last_index :: "nat \<Rightarrow> vec3 list \<Rightarrow> vec3 \<Rightarrow> nat option" where
  "last_index i [] p = None"
| "last_index i (q # qs) p =
     (case last_index (i + 1) qs p of Some j \<Rightarrow> Some j | None \<Rightarrow> if q = p then Some i else None)"

definition pos_index :: "vec3 list \<Rightarrow> vec3 \<Rightarrow> nat option" where
  "pos_index positions p = last_index 0 positions p"

definition below :: "vec3 \<Rightarrow> vec3" where
  "below p = p\<lparr>vy := i64 (vy p - 1)\<rparr>"

definition grounded :: "vec3 list \<Rightarrow> (int \<Rightarrow> int \<Rightarrow> int \<Rightarrow> bool) \<Rightarrow> vec3 \<Rightarrow> bool" where
  "grounded positions isSolid p =
     (if vy p \<le> 1 then True
      else if pos_index positions (below p) \<noteq> None then False
      else isSolid (vx (below p)) (vy (below p)) (vz (below p)))"

definition six_dirs :: "(int \<times> int \<times> int) list" where
  "six_dirs = [(1, 0, 0), (-1, 0, 0), (0, 1, 0), (0, -1, 0), (0, 0, 1), (0, 0, -1)]"

definition step_dir :: "vec3 \<Rightarrow> int \<times> int \<times> int \<Rightarrow> vec3" where
  "step_dir p d = (case d of (dx, dy, dz) \<Rightarrow>
     \<lparr>vx = i64 (vx p + dx), vy = i64 (vy p + dy), vz = i64 (vz p + dz)\<rparr>)"

fun visit_dirs :: "vec3 list \<Rightarrow> vec3 \<Rightarrow> (int \<times> int \<times> int) list \<Rightarrow> bool list \<Rightarrow> nat list \<Rightarrow> bool list \<times> nat list" where
  "visit_dirs positions p [] visited queue = (visited, queue)"
| "visit_dirs positions p (d # ds) visited queue =
     (case pos_index positions (step_dir p d) of
        None \<Rightarrow> visit_dirs positions p ds visited queue
      | Some ni \<Rightarrow>
          if visited ! ni then visit_dirs positions p ds visited queue
          else visit_dirs positions p ds (visited[ni := True]) (queue @ [ni]))"

text \<open>
  The queue loop takes one index per turn; every index enters the queue at most once, so as many
  turns as there are positions are enough (\<open>flood_closed\<close> below: the queue is empty at the end).
\<close>

fun flood :: "nat \<Rightarrow> vec3 list \<Rightarrow> bool list \<Rightarrow> nat list \<Rightarrow> bool list" where
  "flood 0 positions visited queue = visited"
| "flood (Suc n) positions visited queue =
     (case queue of
        [] \<Rightarrow> visited
      | i # rest \<Rightarrow>
          (case visit_dirs positions (positions ! i) six_dirs visited rest of
             (visited', queue') \<Rightarrow> flood n positions visited' queue'))"

definition IsStructureStable :: "vec3 list \<Rightarrow> (int \<Rightarrow> int \<Rightarrow> int \<Rightarrow> bool) \<Rightarrow> bool" where
  "IsStructureStable positions isSolid =
     (if positions = [] then True
      else
        let visited = map (grounded positions isSolid) positions;
            queue = filter (\<lambda>i. visited ! i) [0 ..< length positions];
            visited = flood (length positions) positions visited queue;
            supported = length (filter id visited)
        in if supported = 0 then False
           else real supported / real (length positions) \<ge> 95 / 100)"

section \<open>The bucket ring\<close>

definition stats_ok :: "world_stats \<Rightarrow> bool" where
  "stats_ok s \<longleftrightarrow> BucketTicks s \<noteq> 0 \<and> CurIdx s < length (Buckets s)"

lemma NewWorldStats_ok: "stats_ok (NewWorldStats b w)"
  by (auto simp: NewWorldStats_def stats_ok_def Let_def)

lemma stats_ok_turn:
  assumes "stats_ok s"
  shows "stats_ok (s\<lparr>CurIdx := (CurIdx s + 1) mod length (Buckets s),
    Buckets := (Buckets s)[(CurIdx s + 1) mod length (Buckets s) := empty_bucket], CurBase := c\<rparr>)"
proof -
  have "0 < length (Buckets s)" using assms by (auto simp: stats_ok_def)
  then have "(CurIdx s + 1) mod length (Buckets s) < length (Buckets s)" by (rule mod_less_divisor)
  with assms show ?thesis by (simp add: stats_ok_def)
qed

lemma rotate_loop_ok: "stats_ok s \<Longrightarrow> stats_ok (rotate_loop n now s)"
proof (induction n now s rule: rotate_loop.induct)
  case (2 n now s)
  then show ?case using stats_ok_turn[OF "2.prems"] by (simp add: Let_def)
qed simp

lemma rotate_stats_ok [simp]: "stats_ok s \<Longrightarrow> stats_ok (rotate_stats now s)"
  by (simp add: rotate_stats_def rotate_loop_ok)

lemma bump_bucket_ok [simp]: "stats_ok (bump_bucket f s) \<longleftrightarrow> stats_ok s"
  by (simp add: stats_ok_def bump_bucket_def)

lemma Record_ok [simp]:
  "stats_ok s \<Longrightarrow> stats_ok (RecordTrade now s)"
  "stats_ok s \<Longrightarrow> stats_ok (RecordDenied now s)"
  "stats_ok s \<Longrightarrow> stats_ok (RecordBlueprintComplete now s)"
  by (simp_all add: RecordTrade_def RecordDenied_def RecordBlueprintComplete_def)

text \<open>After the loop the current bucket contains the tick: the number of turns was enough.\<close>

lemma rotate_loop_done:
  assumes "stats_ok s" and "unat now + unat (BucketTicks s) < 2 ^ 64" and "CurBase s \<le> now"
    and "(unat now - unat (CurBase s)) div unat (BucketTicks s) \<le> n"
  shows "CurBase (rotate_loop n now s) \<le> now \<and>
    unat now < unat (CurBase (rotate_loop n now s)) + unat (BucketTicks s)"
  using assms
proof (induction n now s rule: rotate_loop.induct)
  case (1 now s)
  have b: "0 < unat (BucketTicks s)" using "1.prems"(1) by (simp add: stats_ok_def unat_gt_0)
  have "(unat now - unat (CurBase s)) div unat (BucketTicks s) = 0" using "1.prems"(4) by simp
  then have "unat now - unat (CurBase s) < unat (BucketTicks s)" using b by (simp add: div_eq_0_iff)
  then show ?case using "1.prems"(3) by simp
next
  case (2 n now s)
  define b c t where "b = unat (BucketTicks s)" and "c = unat (CurBase s)" and "t = unat now"
  have b: "0 < b" using "2.prems"(1) by (simp add: stats_ok_def unat_gt_0 b_def)
  have ct: "c \<le> t" using "2.prems"(3) by (simp add: c_def t_def word_le_nat_alt)
  have sum: "unat (CurBase s + BucketTicks s) = c + b"
    using "2.prems"(2) ct by (simp add: unat_word_ariths c_def b_def t_def)
  show ?case
  proof (cases "c + b \<le> t")
    case True
    define s' where "s' = s\<lparr>CurIdx := (CurIdx s + 1) mod length (Buckets s),
      Buckets := (Buckets s)[(CurIdx s + 1) mod length (Buckets s) := empty_bucket],
      CurBase := CurBase s + BucketTicks s\<rparr>"
    have go: "now \<ge> CurBase s + BucketTicks s" using True sum by (simp add: word_le_nat_alt t_def)
    have "(t - (c + b)) div b = (t - c) div b - 1"
      using True b by (metis add.commute add_diff_cancel_left' diff_diff_left div_add_self1 le_add_diff_inverse2
          le_diff_conv2 less_numeral_extra(3) nat_less_le ct)
    then have le: "(t - (c + b)) div b \<le> n" using "2.prems"(4) by (simp add: b_def c_def t_def)
    have "stats_ok s'" unfolding s'_def by (rule stats_ok_turn[OF "2.prems"(1)])
    then have "CurBase (rotate_loop n now s') \<le> now \<and>
        unat now < unat (CurBase (rotate_loop n now s')) + unat (BucketTicks s')"
      using "2.IH"[OF go refl] "2.prems"(2) go le sum
      by (simp add: s'_def b_def t_def)
    then show ?thesis using go by (simp add: Let_def s'_def)
  next
    case False
    then have "\<not> now \<ge> CurBase s + BucketTicks s" using sum by (simp add: word_le_nat_alt t_def)
    then show ?thesis using False "2.prems"(3) by (simp add: b_def c_def t_def)
  qed
qed

lemma rotate_done:
  assumes "stats_ok s" and "unat now + unat (BucketTicks s) < 2 ^ 64" and "CurBase s \<le> now"
  shows "CurBase (rotate_stats now s) \<le> now \<and>
    unat now < unat (CurBase (rotate_stats now s)) + unat (BucketTicks s)"
  using rotate_loop_done[OF assms] by (simp add: rotate_stats_def rotations_def)

section \<open>The flood fill finds the supported blocks\<close>

definition unvisited :: "bool list \<Rightarrow> nat" where
  "unvisited visited = length (filter Not visited)"

lemma last_index_bounds: "last_index i qs p = Some j \<Longrightarrow> i \<le> j \<and> j < i + length qs \<and> qs ! (j - i) = p"
proof (induction i qs p rule: last_index.induct)
  case (2 i q qs p)
  show ?case
  proof (cases "last_index (i + 1) qs p")
    case None
    with "2.prems" show ?thesis by (auto split: if_splits)
  next
    case (Some k)
    with "2.prems" "2.IH" have "i + 1 \<le> j \<and> j < i + 1 + length qs \<and> qs ! (j - (i + 1)) = p" by simp
    then show ?thesis by (auto simp: nth_Cons' Suc_le_eq)
  qed
qed simp

lemma pos_index_bounds: "pos_index ps p = Some j \<Longrightarrow> j < length ps \<and> ps ! j = p"
  using last_index_bounds[of 0 ps p j] by (simp add: pos_index_def)

lemma unvisited_update:
  "i < length v \<Longrightarrow> \<not> v ! i \<Longrightarrow> unvisited v = Suc (unvisited (v[i := True]))"
proof (induction v arbitrary: i)
  case (Cons a v)
  then show ?case by (cases i) (auto simp: unvisited_def)
qed simp

lemma unvisited_upt: "unvisited v + length (filter (\<lambda>i. v ! i) [0 ..< length v]) = length v"
proof -
  have "length (filter (\<lambda>i. v ! i) [0 ..< length v]) = length (filter id v)"
    using arg_cong[OF filter_map[of id "nth v" "[0 ..< length v]"], of length]
    by (simp add: map_nth comp_def)
  then show ?thesis
    unfolding unvisited_def by (metis add.commute sum_length_filter_compl id_apply filter_cong)
qed

definition joined :: "vec3 list \<Rightarrow> nat \<Rightarrow> nat \<Rightarrow> bool" where
  "joined ps i j \<longleftrightarrow> (\<exists>d \<in> set six_dirs. pos_index ps (step_dir (ps ! i) d) = Some j)"

text \<open>A block is supported when a chain of face neighbours leads to it from a grounded block.\<close>

inductive supported :: "vec3 list \<Rightarrow> (int \<Rightarrow> int \<Rightarrow> int \<Rightarrow> bool) \<Rightarrow> nat \<Rightarrow> bool"
  for ps :: "vec3 list" and isSolid :: "int \<Rightarrow> int \<Rightarrow> int \<Rightarrow> bool" where
  ground: "i < length ps \<Longrightarrow> grounded ps isSolid (ps ! i) \<Longrightarrow> supported ps isSolid i"
| neighbour: "supported ps isSolid i \<Longrightarrow> joined ps i j \<Longrightarrow> supported ps isSolid j"

lemma visit_dirs_spec:
  assumes "visit_dirs ps p ds v q = (v', q')" and "length v = length ps"
  shows "length v' = length ps"
    and "\<And>i. v' ! i \<longleftrightarrow> v ! i \<or> (\<exists>d \<in> set ds. pos_index ps (step_dir p d) = Some i)"
    and "set q' = set q \<union> {i. v' ! i \<and> \<not> v ! i}"
    and "unvisited v' + length q' = unvisited v + length q"
proof (atomize (full), use assms in \<open>induction ps p ds v q rule: visit_dirs.induct\<close>)
  case (2 ps p d ds v q)
  show ?case
  proof (cases "pos_index ps (step_dir p d)")
    case None
    with 2 show ?thesis by simp
  next
    case (Some k)
    then have k: "k < length ps" using pos_index_bounds by blast
    show ?thesis
    proof (cases "v ! k")
      case True
      with Some 2 show ?thesis by auto
    next
      case False
      have len: "length (v[k := True]) = length ps" using "2.prems"(2) by simp
      have vis: "visit_dirs ps p ds (v[k := True]) (q @ [k]) = (v', q')"
        using "2.prems"(1) Some False by simp
      note IH = "2.IH"(3)[OF Some False vis len]
      have upd: "v[k := True] ! i \<longleftrightarrow> i = k \<or> v ! i" for i
        using k "2.prems"(2) by (auto simp: nth_list_update)
      have "unvisited v = Suc (unvisited (v[k := True]))"
        using unvisited_update k "2.prems"(2) False by simp
      with IH upd Some False show ?thesis by auto
    qed
  qed
qed simp

lemma flood_closed:
  assumes "length v = length ps" and "unvisited v + length q \<le> n"
    and "\<And>i. i \<in> set q \<Longrightarrow> v ! i"
    and "\<And>i j. v ! i \<Longrightarrow> i < length ps \<Longrightarrow> i \<notin> set q \<Longrightarrow> joined ps i j \<Longrightarrow> v ! j"
  shows "length (flood n ps v q) = length ps"
    and "\<And>i. v ! i \<Longrightarrow> flood n ps v q ! i"
    and "\<And>i j. flood n ps v q ! i \<Longrightarrow> i < length ps \<Longrightarrow> joined ps i j \<Longrightarrow> flood n ps v q ! j"
proof (atomize (full), use assms in \<open>induction n ps v q rule: flood.induct\<close>)
  case (2 n ps v q)
  show ?case
  proof (cases q)
    case Nil
    with 2 show ?thesis by auto
  next
    case (Cons i rest)
    obtain v' q' where vis: "visit_dirs ps (ps ! i) six_dirs v rest = (v', q')" by fastforce
    note sp = visit_dirs_spec[OF vis "2.prems"(1)]
    have mono: "v ! j \<Longrightarrow> v' ! j" for j using sp(2) by auto
    have c1: "unvisited v' + length q' \<le> n" using sp(4) "2.prems"(2) Cons by simp
    have c2: "j \<in> set q' \<Longrightarrow> v' ! j" for j using sp(3) "2.prems"(3) Cons mono by auto
    have c3: "v' ! j'" if "v' ! j" "j < length ps" "j \<notin> set q'" "joined ps j j'" for j j'
    proof (cases "j = i")
      case True
      with that(4) sp(2) show ?thesis by (auto simp: joined_def)
    next
      case False
      with that sp(3) have "v ! j" "j \<notin> set q" using Cons by auto
      with that "2.prems"(4) mono show ?thesis by blast
    qed
    have "length (flood n ps v' q') = length ps \<and> (\<forall>i. v' ! i \<longrightarrow> flood n ps v' q' ! i) \<and>
      (\<forall>i j. flood n ps v' q' ! i \<longrightarrow> i < length ps \<longrightarrow> joined ps i j \<longrightarrow> flood n ps v' q' ! j)"
      by (rule "2.IH"[OF Cons vis[symmetric] sp(1) c1 c2 c3])
    then show ?thesis using Cons vis mono by auto
  qed
qed auto

lemma flood_sound:
  assumes "length v = length ps" and "\<And>i. i \<in> set q \<Longrightarrow> i < length ps \<and> v ! i"
    and "\<And>i. i < length ps \<Longrightarrow> v ! i \<Longrightarrow> supported ps isSolid i"
    and "i < length ps" and "flood n ps v q ! i"
  shows "supported ps isSolid i"
  using assms
proof (induction n ps v q rule: flood.induct)
  case (2 n ps v q)
  show ?case
  proof (cases q)
    case Nil
    with 2 show ?thesis by simp
  next
    case (Cons k rest)
    obtain v' q' where vis: "visit_dirs ps (ps ! k) six_dirs v rest = (v', q')" by fastforce
    note sp = visit_dirs_spec[OF vis "2.prems"(1)]
    have k: "supported ps isSolid k" using "2.prems"(2,3) Cons by auto
    have nb: "j < length ps \<and> supported ps isSolid j" if "d \<in> set six_dirs" "pos_index ps (step_dir (ps ! k) d) = Some j" for d j
      using that pos_index_bounds supported.neighbour[OF k, of j] by (auto simp: joined_def)
    have s3: "supported ps isSolid j" if "j < length ps" "v' ! j" for j
      using that sp(2) nb "2.prems"(3) by blast
    have s2: "j < length ps \<and> v' ! j" if "j \<in> set q'" for j
      using that sp(2,3) nb "2.prems"(2) Cons by auto
    have fl: "flood n ps v' q' ! i" using "2.prems"(5) Cons vis by simp
    show ?thesis by (rule "2.IH"[OF Cons vis[symmetric] sp(1) s2 s3 "2.prems"(4) fl])
  qed
qed auto

definition seeds :: "vec3 list \<Rightarrow> (int \<Rightarrow> int \<Rightarrow> int \<Rightarrow> bool) \<Rightarrow> bool list" where
  "seeds ps isSolid = map (grounded ps isSolid) ps"

definition flooded :: "vec3 list \<Rightarrow> (int \<Rightarrow> int \<Rightarrow> int \<Rightarrow> bool) \<Rightarrow> bool list" where
  "flooded ps isSolid =
     flood (length ps) ps (seeds ps isSolid) (filter (\<lambda>i. seeds ps isSolid ! i) [0 ..< length ps])"

lemma flooded_iff:
  assumes "i < length ps"
  shows "flooded ps isSolid ! i \<longleftrightarrow> supported ps isSolid i"
proof
  let ?v = "seeds ps isSolid" and ?q = "filter (\<lambda>i. seeds ps isSolid ! i) [0 ..< length ps]"
  have len: "length ?v = length ps" by (simp add: seeds_def)
  show "supported ps isSolid i" if "flooded ps isSolid ! i"
    by (rule flood_sound[OF len _ _ assms that[unfolded flooded_def]])
       (auto simp: seeds_def intro: supported.ground)
  have cl: "unvisited ?v + length ?q \<le> length ps" using unvisited_upt[of ?v] len by simp
  note closed = flood_closed[OF len cl, folded flooded_def]
  have m: "?v ! j \<Longrightarrow> flooded ps isSolid ! j" for j
    by (rule closed(2)) (auto simp: seeds_def)
  have c: "flooded ps isSolid ! j \<Longrightarrow> j < length ps \<Longrightarrow> joined ps j k \<Longrightarrow> flooded ps isSolid ! k" for j k
    by (rule closed(3)) (auto simp: seeds_def)
  have "j < length ps \<and> flooded ps isSolid ! j" if "supported ps isSolid j" for j
    using that
  proof (induction)
    case (ground i)
    then show ?case by (auto intro!: m simp: seeds_def)
  next
    case (neighbour i j)
    then show ?case using c pos_index_bounds by (auto simp: joined_def)
  qed
  then show "flooded ps isSolid ! i" if "supported ps isSolid i" using that by blast
qed

lemma count_true: "length (filter id v) = card {i. i < length v \<and> v ! i}"
  using length_filter_conv_card[of id v] by simp

text \<open>
  C18. A structure counts as stable exactly when it is empty, or some block is supported and at least
  nineteen twentieths of its blocks are: supported means reached from a grounded block (on the
  floor, or resting on solid terrain) through a chain of neighbours inside the structure.
\<close>

theorem IsStructureStable_supported:
  "IsStructureStable ps isSolid \<longleftrightarrow> ps = [] \<or>
    (let k = card {i. i < length ps \<and> supported ps isSolid i} in 0 < k \<and> 19 * length ps \<le> 20 * k)"
proof (cases "ps = []")
  case False
  define k where "k = card {i. i < length ps \<and> supported ps isSolid i}"
  have len: "length (flooded ps isSolid) = length ps"
    unfolding flooded_def by (rule flood_closed(1)) (use unvisited_upt[of "seeds ps isSolid"] in \<open>auto simp: seeds_def\<close>)
  have "length (filter id (flooded ps isSolid)) = k"
    unfolding count_true len k_def by (rule arg_cong[where f = card]) (auto simp: flooded_iff)
  then have "IsStructureStable ps isSolid \<longleftrightarrow> k \<noteq> 0 \<and> real k / real (length ps) \<ge> 95 / 100"
    using False unfolding IsStructureStable_def flooded_def seeds_def Let_def by (simp del: length_0_conv)
  also have "real k / real (length ps) \<ge> 95 / 100 \<longleftrightarrow> real (19 * length ps) \<le> real (20 * k)"
  proof -
    have "0 < real (length ps)" using False by simp
    then show ?thesis by (simp add: pos_le_divide_eq mult.commute)
  qed
  also have "\<dots> \<longleftrightarrow> 19 * length ps \<le> 20 * k" by (rule of_nat_le_iff)
  finally show ?thesis using False unfolding k_def[symmetric] Let_def by simp
qed (simp add: IsStructureStable_def)

section \<open>A concrete choice of the floating point expressions\<close>

text \<open>Exact real arithmetic, and the decimal strings of a few values; used to instantiate the theorems.\<close>

definition sample_floats :: go_floats where
  "sample_floats = \<lparr>
     mul_trunc = (\<lambda>c r. \<lfloor>of_int c * r\<rfloor>), mul_round = (\<lambda>b f. \<lfloor>of_int b * f + 1 / 2\<rfloor>),
     pow_round = (\<lambda>b m k. \<lfloor>of_int b * m ^ nat k + 1 / 2\<rfloor>),
     social_mid = (\<lambda>r. 1 / 2 + 1 / 2 * (of_int r / 500)),
     log_points = (\<lambda>n. min 6 n), sqrt_points = (\<lambda>n. min 15 (3 * n)),
     day_fraction = (\<lambda>t day. of_nat (unat t) / of_nat (unat day)),
     float_string = (\<lambda>x. if x = 0 then ''0'' else if x = 1 then ''1'' else if x = 1 / 4 then ''0.25''
                         else if x = 1 / 10 then ''0.1'' else ''NaN''),
     parse_float = (\<lambda>s. if s = ''0'' then Inr 0 else if s = ''1'' then Inr 1 else if s = ''0.25'' then Inr (1 / 4)
                         else if s = ''0.1'' then Inr (1 / 10) else Inl ''invalid syntax''),
     of_int64 = of_int\<rparr>"

end
