(* ===== verification/Land_Rules.thy ===== *)
theory Land_Rules
  imports Inventory_Model Stats_Model
begin

text \<open>
  The rules of land, laws and organizations that need no world state: claim types, flags, curfew
  windows and law parameters (\<open>policy/rules/*.go\<close>, \<open>feature/governance/claims/claims.go\<close>), permission
  tables (\<open>feature/governance/permissions\<close>), law templates, votes and the law lifecycle
  (\<open>feature/governance/laws\<close>), maintenance (\<open>feature/governance/maintenance\<close>), ownership queries
  (\<open>feature/governance/runtime/ownership.go\<close>) and organization names (\<open>feature/governance/orgs\<close>).
\<close>

section \<open>Claim types and flags\<close>

definition DefaultClaimTypeForWorld :: "string \<Rightarrow> string" where
  "DefaultClaimTypeForWorld worldType =
     (if worldType = ''OVERWORLD'' then ''HOMESTEAD''
      else if worldType = ''CITY_HUB'' then ''CITY_CORE''
      else ''DEFAULT'')"

definition DefaultClaimFlags :: "string \<Rightarrow> claim_flags" where
  "DefaultClaimFlags claimType =
     (if claimType = ''CITY_CORE''
      then \<lparr>AllowBuild = False, AllowBreak = False, AllowDamage = False, AllowTrade = True\<rparr>
      else \<lparr>AllowBuild = False, AllowBreak = False, AllowDamage = False, AllowTrade = False\<rparr>)"

section \<open>Curfew\<close>

definition InWindow :: "real \<Rightarrow> real \<Rightarrow> real \<Rightarrow> bool" where
  "InWindow t start endt =
     (if start \<le> endt then t \<ge> start \<and> t \<le> endt else t \<ge> start \<or> t \<le> endt)"

definition CanActionWithCurfew :: "bool \<Rightarrow> bool \<Rightarrow> real \<Rightarrow> real \<Rightarrow> real \<Rightarrow> bool" where
  "CanActionWithCurfew baseAllowed curfewEnabled now start endt =
     (if \<not> baseAllowed then False else if \<not> curfewEnabled then True else \<not> InWindow now start endt)"

definition TimeOfDay :: "go_floats \<Rightarrow> u64 \<Rightarrow> int \<Rightarrow> real" where
  "TimeOfDay fl nowTick dayTicks =
     (if dayTicks \<le> 0 then 0
      else let day = word_of_int dayTicks in day_fraction fl (nowTick mod day) day)"

section \<open>Law parameters\<close>

datatype param_val = PFloat real | PInt int | PNumber string | PString string | POther

text \<open>Errors of the parameter readers and templates; the first is a sentinel the caller tests for.\<close>

datatype law_error = UnsupportedTemplate | LawErr string

fun law_error_string :: "law_error \<Rightarrow> string" where
  "law_error_string UnsupportedTemplate = ''unsupported template''"
| "law_error_string (LawErr m) = m"

definition ParamFloat :: "go_floats \<Rightarrow> param_val gomap \<Rightarrow> string \<Rightarrow> law_error + real" where
  "ParamFloat fl params key =
     (case map_of params key of
        None \<Rightarrow> Inl (LawErr (''missing '' @ key))
      | Some (PFloat x) \<Rightarrow> Inr x
      | Some (PInt x) \<Rightarrow> Inr (of_int64 fl x)
      | Some (PNumber s) \<Rightarrow>
          (case parse_float fl s of Inr x \<Rightarrow> Inr x | Inl e \<Rightarrow> Inl (LawErr e))
      | Some _ \<Rightarrow> Inl (LawErr (key @ '' must be number'')))"

definition ParamInt :: "go_floats \<Rightarrow> param_val gomap \<Rightarrow> string \<Rightarrow> law_error + int" where
  "ParamInt fl params key =
     (case ParamFloat fl params key of Inl e \<Rightarrow> Inl e | Inr f \<Rightarrow> Inr (f2i f))"

definition ParamString :: "param_val gomap \<Rightarrow> string \<Rightarrow> law_error + string" where
  "ParamString params key =
     (case map_of params key of
        None \<Rightarrow> Inl (LawErr (''missing '' @ key))
      | Some (PString s) \<Rightarrow>
          if trim_space s = [] then Inl (LawErr (key @ '' must be string'')) else Inr (trim_space s)
      | Some _ \<Rightarrow> Inl (LawErr (key @ '' must be string'')))"

section \<open>Land geometry\<close>

definition CoreRadius :: "int \<Rightarrow> int \<Rightarrow> int" where
  "CoreRadius landRadius configured =
     (let r = (if configured \<le> 0 then 16 else configured);
          r = (if landRadius < r then landRadius else r)
      in if r < 0 then 0 else r)"

definition CoreContains :: "int \<Rightarrow> int \<Rightarrow> int \<Rightarrow> int \<Rightarrow> int \<Rightarrow> bool" where
  "CoreContains anchorX anchorZ posX posZ coreRadius =
     (if coreRadius \<le> 0 then False
      else let dx = iabs (i64 (posX - anchorX)); dz = iabs (i64 (posZ - anchorZ))
           in dx \<le> coreRadius \<and> dz \<le> coreRadius)"

record zone =
  ZLandID :: string
  ZAnchorX :: int
  ZAnchorZ :: int
  ZRadius :: int

text \<open>\<open>BuildZones\<close> sorts the records by land id and drops the empty ones.\<close>

definition BuildZones :: "zone list \<Rightarrow> zone list" where
  "BuildZones records =
     filter (\<lambda>r. \<not> (ZLandID r = [] \<or> ZRadius r \<le> 0)) (sort_key ZLandID records)"

fun UpgradeOverlaps :: "int \<Rightarrow> int \<Rightarrow> int \<Rightarrow> string \<Rightarrow> zone list \<Rightarrow> bool" where
  "UpgradeOverlaps anchorX anchorZ targetRadius landID [] = False"
| "UpgradeOverlaps anchorX anchorZ targetRadius landID (z # zs) =
     (if ZLandID z = [] \<or> ZLandID z = landID then UpgradeOverlaps anchorX anchorZ targetRadius landID zs
      else
        let dx = iabs (i64 (anchorX - ZAnchorX z)); dz = iabs (i64 (anchorZ - ZAnchorZ z))
        in if dx \<le> i64 (targetRadius + ZRadius z) \<and> dz \<le> i64 (targetRadius + ZRadius z) then True
           else UpgradeOverlaps anchorX anchorZ targetRadius landID zs)"

section \<open>Input checks of the claim instants\<close>

definition ValidateSetPermissionsInput :: "string \<Rightarrow> bool gomap option \<Rightarrow> verdict" where
  "ValidateSetPermissionsInput landID policy =
     (if trim_space landID = [] \<or> policy = None then refuse ''E_BAD_REQUEST'' ''missing land_id/policy''
      else accept)"

definition policy_flag :: "bool gomap \<Rightarrow> string \<Rightarrow> bool \<Rightarrow> bool" where
  "policy_flag policy key old = (case map_of policy key of None \<Rightarrow> old | Some v \<Rightarrow> v)"

definition ApplyPolicyFlags :: "claim_flags \<Rightarrow> bool gomap \<Rightarrow> claim_flags" where
  "ApplyPolicyFlags flags policy = flags\<lparr>
     AllowBuild := policy_flag policy ''allow_build'' (AllowBuild flags),
     AllowBreak := policy_flag policy ''allow_break'' (AllowBreak flags),
     AllowDamage := policy_flag policy ''allow_damage'' (AllowDamage flags),
     AllowTrade := policy_flag policy ''allow_trade'' (AllowTrade flags)\<rparr>"

definition ValidateUpgradeInput :: "string \<Rightarrow> int \<Rightarrow> verdict" where
  "ValidateUpgradeInput landID radius =
     (if trim_space landID = [] \<or> radius \<le> 0 then refuse ''E_BAD_REQUEST'' ''missing land_id/radius''
      else accept)"

definition ValidateUpgradeRadius :: "int \<Rightarrow> int \<Rightarrow> verdict" where
  "ValidateUpgradeRadius current target =
     (if target \<noteq> 64 \<and> target \<noteq> 128 then refuse ''E_BAD_REQUEST'' ''radius must be 64 or 128''
      else if target \<le> current then refuse ''E_BAD_REQUEST'' ''radius must increase''
      else accept)"

definition add_cost :: "string \<Rightarrow> int \<Rightarrow> items \<Rightarrow> items" where
  "add_cost item n cost = (if item = [] \<or> n \<le> 0 then cost else madd cost item n)"

definition UpgradeCost :: "int \<Rightarrow> int \<Rightarrow> items" where
  "UpgradeCost current target =
     (let cost = (if current < 64 \<and> target \<ge> 64
                  then add_cost ''CRYSTAL_SHARD'' 2 (add_cost ''BATTERY'' 1 []) else [])
      in if current < 128 \<and> target \<ge> 128
         then add_cost ''CRYSTAL_SHARD'' 4 (add_cost ''BATTERY'' 2 cost) else cost)"

definition ValidateMemberMutationInput :: "string \<Rightarrow> string \<Rightarrow> verdict" where
  "ValidateMemberMutationInput landID memberID =
     (if trim_space landID = [] \<or> trim_space memberID = []
      then refuse ''E_BAD_REQUEST'' ''missing land_id/member_id'' else accept)"

definition ValidateDeedInput :: "string \<Rightarrow> string \<Rightarrow> verdict" where
  "ValidateDeedInput landID newOwner =
     (if trim_space landID = [] \<or> trim_space newOwner = []
      then refuse ''E_BAD_REQUEST'' ''missing land_id/new_owner'' else accept)"

definition ValidateLandAdmin :: "bool \<Rightarrow> bool \<Rightarrow> verdict" where
  "ValidateLandAdmin landExists isAdmin =
     (if \<not> landExists then refuse ''E_INVALID_TARGET'' ''land not found''
      else if \<not> isAdmin then refuse ''E_NO_PERMISSION'' ''not land admin''
      else accept)"

section \<open>Permissions\<close>

record permissions =
  CanBuild :: bool
  CanBreak :: bool
  CanDamage :: bool
  CanTrade :: bool

definition WildPermissions :: permissions where
  "WildPermissions = \<lparr>CanBuild = True, CanBreak = True, CanDamage = False, CanTrade = True\<rparr>"

definition ForLand :: "bool \<Rightarrow> int \<Rightarrow> claim_flags \<Rightarrow> permissions" where
  "ForLand isMember maintenanceStage flags =
     (if isMember
      then \<lparr>CanBuild = True, CanBreak = True, CanDamage = AllowDamage flags, CanTrade = True\<rparr>
      else if maintenanceStage \<ge> 2 then WildPermissions
      else \<lparr>CanBuild = AllowBuild flags, CanBreak = AllowBreak flags,
            CanDamage = AllowDamage flags, CanTrade = AllowTrade flags\<rparr>)"

definition CanWithdrawContainer :: "bool \<Rightarrow> bool \<Rightarrow> int \<Rightarrow> bool" where
  "CanWithdrawContainer hasLand isMember maintenanceStage =
     (if \<not> hasLand then True
      else if maintenanceStage \<ge> 2 \<and> \<not> isMember then True
      else isMember)"

section \<open>Ownership\<close>

fun LandAt :: "land_claim gomap \<Rightarrow> vec3 \<Rightarrow> land_claim option" where
  "LandAt [] pos = None"
| "LandAt ((landID, c) # claims) pos = (if claim_contains c pos then Some c else LandAt claims pos)"

definition IsOrgMember :: "organization gomap \<Rightarrow> string \<Rightarrow> string \<Rightarrow> bool" where
  "IsOrgMember orgs agentID orgID =
     (if orgID = [] then False
      else case map_of orgs orgID of
             None \<Rightarrow> False
           | Some ob \<Rightarrow> map_of (OMembers ob) agentID \<noteq> None)"

definition IsOrgAdmin :: "organization gomap \<Rightarrow> string \<Rightarrow> string \<Rightarrow> bool" where
  "IsOrgAdmin orgs agentID orgID =
     (if orgID = [] then False
      else case map_of orgs orgID of
             None \<Rightarrow> False
           | Some ob \<Rightarrow>
               (case map_of (OMembers ob) agentID of
                  None \<Rightarrow> False
                | Some role \<Rightarrow> role = OrgLeader \<or> role = OrgOfficer))"

definition IsLandAdmin :: "organization gomap \<Rightarrow> string \<Rightarrow> land_claim option \<Rightarrow> bool" where
  "IsLandAdmin orgs agentID land =
     (case land of
        None \<Rightarrow> False
      | Some c \<Rightarrow> if Owner c = agentID then True else IsOrgAdmin orgs agentID (Owner c))"

definition IsLandMember :: "organization gomap \<Rightarrow> string \<Rightarrow> land_claim option \<Rightarrow> bool" where
  "IsLandMember orgs agentID land =
     (case land of
        None \<Rightarrow> False
      | Some c \<Rightarrow>
          if Owner c = agentID then True
          else if map_of (Members c) agentID = Some True then True
          else IsOrgMember orgs agentID (Owner c))"

section \<open>Organizations\<close>

definition NormalizeOrgKind :: "string \<Rightarrow> org_kind option" where
  "NormalizeOrgKind kind =
     (let k = to_upper (trim_space kind)
      in if k = ''GUILD'' then Some OrgGuild else if k = ''CITY'' then Some OrgCity else None)"

definition ValidateOrgName :: "string \<Rightarrow> bool" where
  "ValidateOrgName nm = (let trimmed = trim_space nm in trimmed \<noteq> [] \<and> length trimmed \<le> 40)"

definition ValidateOrgTransferInput :: "string \<Rightarrow> string \<Rightarrow> int \<Rightarrow> verdict" where
  "ValidateOrgTransferInput orgID itemID count =
     (if trim_space orgID = [] \<or> trim_space itemID = [] \<or> count \<le> 0
      then refuse ''E_BAD_REQUEST'' ''missing org_id/item_id/count'' else accept)"

definition SelectNextLeader :: "string list \<Rightarrow> string" where
  "SelectNextLeader memberIDs = (if memberIDs = [] then [] else hd (sort memberIDs))"

section \<open>Maintenance\<close>

definition EffectiveCost :: "items \<Rightarrow> items" where
  "EffectiveCost cost = (if cost \<noteq> [] then cost else [(''IRON_INGOT'', 1), (''COAL'', 1)])"

definition NextDue :: "u64 \<Rightarrow> u64 \<Rightarrow> u64 \<Rightarrow> u64" where
  "NextDue nowTick dueTick dayTicks =
     (if dayTicks = 0 then dueTick else if dueTick = 0 then nowTick + dayTicks else dueTick + dayTicks)"

definition NextStage :: "int \<Rightarrow> bool \<Rightarrow> int" where
  "NextStage currentStage paid =
     (if paid then 0 else if currentStage < 2 then i64 (currentStage + 1) else currentStage)"

section \<open>Laws\<close>

definition NormalizeVoteChoice :: "string \<Rightarrow> string" where
  "NormalizeVoteChoice choice =
     (let c = to_upper (trim_space choice)
      in if c \<in> {''YES'', ''Y'', ''1'', ''TRUE''} then ''YES''
         else if c \<in> {''NO'', ''N'', ''0'', ''FALSE''} then ''NO''
         else if c = ''ABSTAIN'' then ''ABSTAIN''
         else [])"

definition CountVotes :: "string gomap \<Rightarrow> int \<times> int" where
  "CountVotes votes =
     fold (\<lambda>(voter, v) (yes, no).
        if NormalizeVoteChoice v = ''YES'' then (i64 (yes + 1), no)
        else if NormalizeVoteChoice v = ''NO'' then (yes, i64 (no + 1))
        else (yes, no)) votes (0, 0)"

definition VotePassed :: "int \<Rightarrow> int \<Rightarrow> bool" where
  "VotePassed yes no \<longleftrightarrow> yes > no"

definition ValidateProposeInput :: "bool \<Rightarrow> string \<Rightarrow> string \<Rightarrow> param_val gomap option \<Rightarrow> verdict" where
  "ValidateProposeInput allowLaws landID templateID params =
     (if \<not> allowLaws then refuse ''E_NO_PERMISSION'' ''laws disabled in this world''
      else if trim_space landID = [] \<or> trim_space templateID = []
        then refuse ''E_BAD_REQUEST'' ''missing land_id/template_id''
      else if params = None then refuse ''E_BAD_REQUEST'' ''missing params''
      else accept)"

definition ResolveLawTitle :: "string \<Rightarrow> string \<Rightarrow> string" where
  "ResolveLawTitle provided fallback =
     (let title = trim_space provided in if title = [] then fallback else title)"

definition BuildLawTimeline :: "u64 \<Rightarrow> int \<Rightarrow> int \<Rightarrow> u64 \<times> u64" where
  "BuildLawTimeline nowTick noticeTicks voteTicks =
     (let notice = word_of_int (max noticeTicks 0); vote = word_of_int (max voteTicks 0)
      in (nowTick + notice, nowTick + notice + vote))"

definition ValidateVoteInput :: "bool \<Rightarrow> string \<Rightarrow> string \<Rightarrow> verdict" where
  "ValidateVoteInput allowLaws lawID choice =
     (if \<not> allowLaws then refuse ''E_NO_PERMISSION'' ''laws disabled in this world''
      else if trim_space lawID = [] \<or> trim_space choice = []
        then refuse ''E_BAD_REQUEST'' ''missing law_id/choice''
      else accept)"

definition clampr :: "real \<Rightarrow> real \<Rightarrow> real \<Rightarrow> real" where
  "clampr lo hi f = (let f = (if f < lo then lo else f) in if f > hi then hi else f)"

definition clampi :: "int \<Rightarrow> int \<Rightarrow> int \<Rightarrow> int" where
  "clampi lo hi n = (let n = (if n < lo then lo else n) in if n > hi then hi else n)"

text \<open>An item with a count, the shape two templates share.\<close>

definition item_params ::
  "go_floats \<Rightarrow> param_val gomap \<Rightarrow> (string \<Rightarrow> bool) option \<Rightarrow> string \<Rightarrow> string \<Rightarrow> int \<Rightarrow> law_error + string gomap" where
  "item_params fl params itemExists item_key count_key bound =
     (case ParamString params item_key of
        Inl e \<Rightarrow> Inl e
      | Inr item \<Rightarrow>
          if (case itemExists of None \<Rightarrow> False | Some ex \<Rightarrow> \<not> ex item)
          then Inl (LawErr (''unknown '' @ item_key))
          else (case ParamInt fl params count_key of
                  Inl e \<Rightarrow> Inl e
                | Inr n \<Rightarrow> Inr [(item_key, item), (count_key, dec_int (clampi 0 bound n))]))"

definition NormalizeLawParams ::
  "go_floats \<Rightarrow> string \<Rightarrow> param_val gomap \<Rightarrow> (string \<Rightarrow> bool) option \<Rightarrow> law_error + string gomap" where
  "NormalizeLawParams fl templateID params itemExists =
     (if templateID = ''MARKET_TAX'' then
        (case ParamFloat fl params ''market_tax'' of
           Inl e \<Rightarrow> Inl e
         | Inr f \<Rightarrow> Inr [(''market_tax'', float_string fl (clampr 0 (25 / 100) f))])
      else if templateID = ''CURFEW_NO_BUILD'' then
        (case ParamFloat fl params ''start_time'' of
           Inl e \<Rightarrow> Inl e
         | Inr s \<Rightarrow>
             (case ParamFloat fl params ''end_time'' of
                Inl e \<Rightarrow> Inl e
              | Inr en \<Rightarrow> Inr [(''start_time'', float_string fl (clampr 0 1 s)),
                               (''end_time'', float_string fl (clampr 0 1 en))]))
      else if templateID = ''FINE_BREAK_PER_BLOCK'' then
        item_params fl params itemExists ''fine_item'' ''fine_per_block'' 100
      else if templateID = ''ACCESS_PASS_CORE'' then
        item_params fl params itemExists ''ticket_item'' ''ticket_cost'' 64
      else Inl UnsupportedTemplate)"

definition pget :: "string gomap \<Rightarrow> string \<Rightarrow> string" where
  "pget params key = (case map_of params key of None \<Rightarrow> [] | Some s \<Rightarrow> s)"

text \<open>
  \<open>ApplyLawTemplate\<close> reads and writes the law-controlled fields of a land claim (\<open>LandState\<close>); the
  caller \<open>ApplyTemplateToLand\<close> copies them from and to the claim, so the model works on the claim.
\<close>

definition item_template :: "string gomap \<Rightarrow> string \<Rightarrow> string \<Rightarrow> int \<Rightarrow> law_error + (string \<times> int) option" where
  "item_template params item_key count_key bound =
     (let item = trim_space (pget params item_key); raw = trim_space (pget params count_key)
      in if item = [] \<or> raw = [] then Inl (LawErr (''missing '' @ item_key @ ''/'' @ count_key))
         else case Atoi raw of
                None \<Rightarrow> Inl (LawErr (''bad '' @ count_key))
              | Some n \<Rightarrow>
                  let n = clampi 0 bound n in if n = 0 then Inr None else Inr (Some (item, n)))"

definition ApplyLawTemplate :: "go_floats \<Rightarrow> string \<Rightarrow> string gomap \<Rightarrow> land_claim \<Rightarrow> law_error + land_claim" where
  "ApplyLawTemplate fl templateID params land =
     (if templateID = ''MARKET_TAX'' then
        (let raw = pget params ''market_tax''
         in if raw = [] then Inl (LawErr ''missing market_tax'')
            else case parse_float fl raw of
                   Inl _ \<Rightarrow> Inl (LawErr ''bad market_tax'')
                 | Inr f \<Rightarrow> Inr (land\<lparr>MarketTax := clampr 0 (25 / 100) f\<rparr>))
      else if templateID = ''CURFEW_NO_BUILD'' then
        (let sRaw = pget params ''start_time''; eRaw = pget params ''end_time''
         in if sRaw = [] \<or> eRaw = [] then Inl (LawErr ''missing start_time/end_time'')
            else case parse_float fl sRaw of
                   Inl _ \<Rightarrow> Inl (LawErr ''bad start_time'')
                 | Inr s \<Rightarrow>
                     (case parse_float fl eRaw of
                        Inl _ \<Rightarrow> Inl (LawErr ''bad end_time'')
                      | Inr en \<Rightarrow>
                          let s = clampr 0 1 s; en = clampr 0 1 en
                          in if s = en
                             then Inr (land\<lparr>CurfewEnabled := False, CurfewStart := 0, CurfewEnd := 0\<rparr>)
                             else Inr (land\<lparr>CurfewEnabled := True, CurfewStart := s, CurfewEnd := en\<rparr>)))
      else if templateID = ''FINE_BREAK_PER_BLOCK'' then
        (case item_template params ''fine_item'' ''fine_per_block'' 100 of
           Inl e \<Rightarrow> Inl e
         | Inr None \<Rightarrow> Inr (land\<lparr>FineBreakEnabled := False, FineBreakItem := [], FineBreakPerBlock := 0\<rparr>)
         | Inr (Some (item, n)) \<Rightarrow>
             Inr (land\<lparr>FineBreakEnabled := True, FineBreakItem := item, FineBreakPerBlock := n\<rparr>))
      else if templateID = ''ACCESS_PASS_CORE'' then
        (case item_template params ''ticket_item'' ''ticket_cost'' 64 of
           Inl e \<Rightarrow> Inl e
         | Inr None \<Rightarrow> Inr (land\<lparr>AccessPassEnabled := False, AccessTicketItem := [], AccessTicketCost := 0\<rparr>)
         | Inr (Some (item, n)) \<Rightarrow>
             Inr (land\<lparr>AccessPassEnabled := True, AccessTicketItem := item, AccessTicketCost := n\<rparr>))
      else Inl UnsupportedTemplate)"

definition ApplyTemplateToLand :: "go_floats \<Rightarrow> law \<Rightarrow> land_claim option \<Rightarrow> law_error + land_claim" where
  "ApplyTemplateToLand fl lw land =
     (case land of
        None \<Rightarrow> Inl (LawErr ''land not found'')
      | Some c \<Rightarrow> ApplyLawTemplate fl (TemplateID lw) (Params lw) c)"

section \<open>The lifecycle of a law\<close>

text \<open>\<open>NextTransition\<close>: whether to move on, and the next status when it is already known.\<close>

definition NextTransition :: "law_status \<Rightarrow> u64 \<Rightarrow> u64 \<Rightarrow> u64 \<Rightarrow> bool \<times> law_status option" where
  "NextTransition status nowTick noticeEnds voteEnds =
     (case status of
        StatusNotice \<Rightarrow> if nowTick \<ge> noticeEnds then (True, Some StatusVoting) else (False, None)
      | StatusVoting \<Rightarrow> if nowTick \<ge> voteEnds then (True, None) else (False, None)
      | _ \<Rightarrow> (False, None))"

section \<open>Trimming\<close>

lemma starts_with_take: "starts_with p (take k s) \<Longrightarrow> starts_with p s"
proof (induction p s arbitrary: k rule: starts_with.induct)
  case (3 p ps c s)
  then show ?case by (cases k) auto
qed (auto split: if_splits)

lemma trim_from_drop: "\<exists>k. trim_from n seqs s = drop k s"
proof (induction n seqs s rule: trim_from.induct)
  case (1 seqs s)
  show ?case by (rule exI[of _ 0]) simp
next
  case (2 n seqs s)
  show ?case
  proof (cases "find (\<lambda>p. starts_with p s) seqs")
    case None
    then show ?thesis by (intro exI[of _ 0]) simp
  next
    case (Some p)
    from "2.IH"[OF Some] obtain k where "trim_from n seqs (drop (length p) s) = drop k (drop (length p) s)" by blast
    with Some show ?thesis by auto
  qed
qed

lemma trim_from_stuck: "find (\<lambda>p. starts_with p s) seqs = None \<Longrightarrow> trim_from n seqs s = s"
  by (cases n) simp_all

lemma trim_from_done:
  assumes "length s \<le> n" and "[] \<notin> set seqs"
  shows "find (\<lambda>p. starts_with p (trim_from n seqs s)) seqs = None"
  using assms
proof (induction n seqs s rule: trim_from.induct)
  case (1 seqs s)
  then have "\<not> starts_with p []" if "p \<in> set seqs" for p using that by (cases p) auto
  with 1 show ?case by (auto simp: find_None_iff)
next
  case (2 n seqs s)
  show ?case
  proof (cases "find (\<lambda>p. starts_with p s) seqs")
    case (Some p)
    then have "p \<in> set seqs" "starts_with p s" by (auto simp: find_Some_iff)
    then have "p \<noteq> []" "s \<noteq> []" using "2.prems"(2) by (auto elim: starts_with.elims)
    then have "length (drop (length p) s) \<le> n" using "2.prems"(1) by (cases p; cases s) auto
    with "2.IH"[OF Some] "2.prems"(2) Some show ?thesis by simp
  qed simp
qed

lemma space_seqs_nonempty: "[] \<notin> set space_seqs" "[] \<notin> set (map rev space_seqs)"
  by (auto simp: space_seqs_def)

lemma trim_space_idem: "trim_space (trim_space s) = trim_space s"
proof -
  define l where "l = trim_from (length s) space_seqs s"
  define r where "r = trim_from (length l) (map rev space_seqs) (rev l)"
  have t: "trim_space s = rev r" by (simp add: trim_space_def l_def r_def Let_def)
  have l: "find (\<lambda>p. starts_with p l) space_seqs = None"
    unfolding l_def by (rule trim_from_done) (simp_all add: space_seqs_nonempty)
  have r: "find (\<lambda>p. starts_with p r) (map rev space_seqs) = None"
    unfolding r_def by (rule trim_from_done) (use space_seqs_nonempty in \<open>simp_all del: set_map\<close>)
  obtain k where "r = drop k (rev l)" unfolding r_def using trim_from_drop by blast
  then have "rev r = take (length l - k) l" by (simp add: drop_rev)
  then have "starts_with p (rev r) \<Longrightarrow> starts_with p l" for p
    using starts_with_take[of p "length l - k" l] by simp
  then have "find (\<lambda>p. starts_with p (rev r)) space_seqs = None"
    using l unfolding find_None_iff by blast
  then have "trim_from n space_seqs (rev r) = rev r" for n by (rule trim_from_stuck)
  moreover have "trim_from n (map rev space_seqs) r = r" for n using r by (rule trim_from_stuck)
  ultimately show ?thesis by (simp add: t trim_space_def[of "rev r"] Let_def)
qed

lemma space_heads:
  "list_all (\<lambda>p. p \<noteq> [] \<and> (of_char (hd p) < (33::nat) \<or> of_char (hd p) \<ge> (128::nat)))
     (space_seqs @ map rev space_seqs)"
  by (simp add: space_seqs_def upt_conv_Cons of_char_of take_bit_eq_mod)

lemma trim_space_plain:
  assumes "\<And>c. c \<in> set s \<Longrightarrow> (33::nat) \<le> of_char c \<and> of_char c < (128::nat)"
  shows "trim_space s = s"
proof -
  have hd: "\<not> starts_with p (c # t)" if "p \<in> set space_seqs \<union> set (map rev space_seqs)"
    "(33::nat) \<le> of_char c" "of_char c < (128::nat)" for p c t
  proof
    assume s: "starts_with p (c # t)"
    from that(1) obtain d where d: "p \<noteq> []" "hd p = d" "of_char d < (33::nat) \<or> of_char d \<ge> (128::nat)"
      using space_heads unfolding list_all_iff set_append by blast
    then show False using s that(2,3) by (cases p) auto
  qed
  have "find (\<lambda>p. starts_with p u) seqs = None"
    if "set seqs \<subseteq> set space_seqs \<union> set (map rev space_seqs)" "set u \<subseteq> set s" for u seqs
  proof (cases u)
    case Nil
    have "p \<noteq> []" if "p \<in> set seqs" for p using that space_seqs_nonempty \<open>set seqs \<subseteq> _\<close> by auto
    then have "\<not> starts_with p []" if "p \<in> set seqs" for p using that by (cases p) auto
    with Nil show ?thesis by (auto simp: find_None_iff)
  next
    case (Cons c t)
    then have "c \<in> set s" using that(2) by auto
    with that(1) hd[of _ c t] assms[of c] Cons show ?thesis by (auto simp: find_None_iff)
  qed
  then have "trim_from n space_seqs s = s" "trim_from n (map rev space_seqs) (rev s) = rev s" for n
    by (intro trim_from_stuck; simp)+
  then show ?thesis by (simp add: trim_space_def Let_def)
qed

lemma trim_space_dec_int: "trim_space (dec_int i) = dec_int i"
proof (rule trim_space_plain)
  fix c assume "c \<in> set (dec_int i)"
  then have "c = CHR ''-'' \<or> c \<in> set (dec_nat (nat (- i))) \<or> c \<in> set (dec_nat (nat i))"
    by (auto simp: dec_int_def split: if_splits)
  then consider "c = CHR ''-''" | d where "d < 10" "c = digit d" using dec_nat_digits by metis
  then show "(33::nat) \<le> of_char c \<and> of_char c < (128::nat)"
    by cases (auto simp: digit_def of_char_of take_bit_eq_mod)
qed

section \<open>Land\<close>

text \<open>
  A well-formed set of claims: each is filed under its own id, has a radius the claim rules allow and
  an anchor inside the coordinate range, and no two of them overlap.
\<close>

definition claim_ok :: "land_claim \<Rightarrow> bool" where
  "claim_ok c \<longleftrightarrow> 0 < Radius c \<and> Radius c \<le> 128 \<and> near_origin (Anchor c)"

definition apart :: "land_claim \<Rightarrow> land_claim \<Rightarrow> bool" where
  "apart c d \<longleftrightarrow>
     Radius c + Radius d < \<bar>vx (Anchor c) - vx (Anchor d)\<bar> \<or>
     Radius c + Radius d < \<bar>vz (Anchor c) - vz (Anchor d)\<bar>"

definition claims_ok :: "land_claim gomap \<Rightarrow> bool" where
  "claims_ok cs \<longleftrightarrow>
     wf_map cs \<and>
     (\<forall>(k, c) \<in> set cs. LandID c = k \<and> claim_ok c) \<and>
     (\<forall>(k, c) \<in> set cs. \<forall>(j, d) \<in> set cs. k \<noteq> j \<longrightarrow> apart c d)"

lemma claims_okD:
  assumes "claims_ok cs"
  shows "wf_map cs" and "(k, c) \<in> set cs \<Longrightarrow> LandID c = k" and "(k, c) \<in> set cs \<Longrightarrow> claim_ok c"
    and "(k, c) \<in> set cs \<Longrightarrow> (j, d) \<in> set cs \<Longrightarrow> k \<noteq> j \<Longrightarrow> apart c d"
  using assms unfolding claims_ok_def by fast+

lemma claims_okI:
  assumes "wf_map cs" and "\<And>k c. (k, c) \<in> set cs \<Longrightarrow> LandID c = k \<and> claim_ok c"
    and "\<And>k c j d. (k, c) \<in> set cs \<Longrightarrow> (j, d) \<in> set cs \<Longrightarrow> k \<noteq> j \<Longrightarrow> apart c d"
  shows "claims_ok cs"
  using assms unfolding claims_ok_def by fast

lemma near_diff:
  assumes "near_origin p" and "near_origin q"
  shows "i64 (vx p - vx q) = vx p - vx q" and "i64 (vz p - vz q) = vz p - vz q"
    and "iabs (vx p - vx q) = \<bar>vx p - vx q\<bar>" and "iabs (vz p - vz q) = \<bar>vz p - vz q\<bar>"
proof -
  have d: "\<bar>vx p - vx q\<bar> \<le> 2 ^ 60" "\<bar>vz p - vz q\<bar> \<le> 2 ^ 60"
    using assms by (auto simp: near_origin_def)
  then show "i64 (vx p - vx q) = vx p - vx q" and "i64 (vz p - vz q) = vz p - vz q"
    by (auto intro!: i64_small)
  show "iabs (vx p - vx q) = \<bar>vx p - vx q\<bar>" and "iabs (vz p - vz q) = \<bar>vz p - vz q\<bar>"
    using d by (auto intro!: iabs_abs)
qed

text \<open>Positions far outside the coordinate range are in no claim: the wrapped difference is large.\<close>

lemma claim_contains_near:
  assumes "near_origin pos" and "claim_ok c"
  shows "claim_contains c pos \<longleftrightarrow>
    \<bar>vx pos - vx (Anchor c)\<bar> \<le> Radius c \<and> \<bar>vz pos - vz (Anchor c)\<bar> \<le> Radius c"
  using near_diff[OF assms(1), of "Anchor c"] assms(2) by (simp add: claim_contains_def claim_ok_def Let_def)

lemma contains_unique:
  assumes ok: "claims_ok cs" and pos: "near_origin pos"
    and "(k, c) \<in> set cs" "claim_contains c pos" and "(j, d) \<in> set cs" "claim_contains d pos"
  shows "k = j \<and> c = d"
proof -
  have co: "claim_ok c" "claim_ok d" using ok assms(3,5) by (auto simp: claims_ok_def)
  have "\<not> apart c d"
    using assms(4,6) claim_contains_near[OF pos co(1)] claim_contains_near[OF pos co(2)]
    by (auto simp: apart_def)
  then have "k = j" using ok assms(3,5) by (auto simp: claims_ok_def)
  moreover have "wf_map cs" using ok by (simp add: claims_ok_def)
  ultimately show ?thesis using assms(3,5)
    by (auto simp: wf_map_def dest: eq_key_imp_eq_value)
qed

lemma LandAt_Some: "LandAt cs pos = Some c \<Longrightarrow> \<exists>k. (k, c) \<in> set cs \<and> claim_contains c pos"
  by (induction cs pos rule: LandAt.induct) (auto split: if_splits)

lemma LandAt_None: "LandAt cs pos = None \<longleftrightarrow> (\<forall>(k, c) \<in> set cs. \<not> claim_contains c pos)"
  by (induction cs pos rule: LandAt.induct) auto

text \<open>
  The land at a position does not depend on the order in which the claim map is enumerated: as
  long as claims do not overlap, the first claim found is the only one, so any other enumeration of
  the same map answers the same.
\<close>

lemma LandAt_order_free:
  assumes "claims_ok cs" and "set cs' = set cs" and "near_origin pos"
  shows "LandAt cs' pos = LandAt cs pos"
proof (cases "LandAt cs pos")
  case None
  then have "LandAt cs' pos = None" using assms(2) by (simp add: LandAt_None)
  with None show ?thesis by simp
next
  case (Some c)
  then obtain k where c: "(k, c) \<in> set cs" "claim_contains c pos" using LandAt_Some by blast
  then have "LandAt cs' pos \<noteq> None" using assms(2) by (auto simp: LandAt_None)
  then obtain d where d: "LandAt cs' pos = Some d" by auto
  then obtain j where "(j, d) \<in> set cs" "claim_contains d pos" using LandAt_Some assms(2) by blast
  with contains_unique[OF assms(1,3) c] have "d = c" by blast
  with Some d show ?thesis by simp
qed

definition sample_claim :: "string \<Rightarrow> string \<Rightarrow> int \<Rightarrow> int \<Rightarrow> land_claim" where
  "sample_claim lid own x r =
     \<lparr>LandID = lid, Owner = own, ClaimType = ''DEFAULT'', Anchor = \<lparr>vx = x, vy = 0, vz = 0\<rparr>, Radius = r,
      Flags = DefaultClaimFlags ''DEFAULT'', Members = [], MarketTax = 0, CurfewEnabled = False,
      CurfewStart = 0, CurfewEnd = 0, FineBreakEnabled = False, FineBreakItem = [], FineBreakPerBlock = 0,
      AccessPassEnabled = False, AccessTicketItem = [], AccessTicketCost = 0,
      MaintenanceDueTick = 0, MaintenanceStage = 0\<rparr>"

definition two_claims :: "land_claim gomap" where
  "two_claims = [(''LAND_A1_001'', sample_claim ''LAND_A1_001'' ''A1'' 0 32),
                 (''LAND_A2_002'', sample_claim ''LAND_A2_002'' ''A2'' 100 32)]"

lemma two_claims_ok: "claims_ok two_claims"
  by (simp add: claims_ok_def two_claims_def wf_map_def claim_ok_def apart_def sample_claim_def near_origin_def)

text \<open>Filing a claim that is apart from all the others keeps the set well formed.\<close>

lemma claims_ok_mput:
  assumes ok: "claims_ok cs" and c: "claim_ok c" "LandID c = k"
    and ap: "\<And>j d. (j, d) \<in> set cs \<Longrightarrow> j \<noteq> k \<Longrightarrow> apart c d"
  shows "claims_ok (mput k c cs)"
proof -
  have wf: "wf_map cs" using ok by (simp add: claims_ok_def)
  have mem: "(j, d) \<in> set (mput k c cs) \<longleftrightarrow> (if j = k then d = c else (j, d) \<in> set cs)" for j d
  proof -
    have "(j, d) \<in> set (mput k c cs) \<longleftrightarrow> map_of (mput k c cs) j = Some d"
      using wf_map_mput[OF wf, of k c] by (simp add: wf_map_def)
    also have "\<dots> \<longleftrightarrow> (if j = k then d = c else (j, d) \<in> set cs)"
      using wf by (auto simp: gomap wf_map_def)
    finally show ?thesis .
  qed
  have sym: "apart a b \<longleftrightarrow> apart b a" for a b by (auto simp: apart_def abs_minus_commute)
  show ?thesis
  proof (rule claims_okI)
    show "LandID d = j \<and> claim_ok d" if "(j, d) \<in> set (mput k c cs)" for j d
      using that c claims_okD[OF ok] by (auto simp: mem split: if_splits)
    show "apart a b" if "(i, a) \<in> set (mput k c cs)" "(j, b) \<in> set (mput k c cs)" "i \<noteq> j" for i a j b
      using that ap sym claims_okD(4)[OF ok] by (cases "i = k"; cases "j = k") (auto simp: mem)
  qed (use wf in simp)
qed

lemma claims_ok_mdel:
  assumes "claims_ok cs"
  shows "claims_ok (mdel k cs)"
proof -
  have "set (mdel k cs) \<subseteq> set cs" by (auto simp: mdel_def AList.delete_eq)
  then show ?thesis
    using claims_okD[OF assms] by (intro claims_okI) (auto, blast+)
qed

section \<open>Votes\<close>

lemma CountVotes_fold:
  assumes "0 \<le> y" "0 \<le> n" "y + int (length votes) \<le> 2 ^ 62" "n + int (length votes) \<le> 2 ^ 62"
  shows "fold (\<lambda>(voter, v) (yes, no).
        if NormalizeVoteChoice v = ''YES'' then (i64 (yes + 1), no)
        else if NormalizeVoteChoice v = ''NO'' then (yes, i64 (no + 1))
        else (yes, no)) votes (y, n) =
    (y + int (length (filter (\<lambda>(voter, v). NormalizeVoteChoice v = ''YES'') votes)),
     n + int (length (filter (\<lambda>(voter, v). NormalizeVoteChoice v = ''NO'') votes)))"
  using assms by (induction votes arbitrary: y n) auto

lemma CountVotes_counts:
  assumes "length votes \<le> 2 ^ 62"
  shows "CountVotes votes =
    (int (length (filter (\<lambda>(voter, v). NormalizeVoteChoice v = ''YES'') votes)),
     int (length (filter (\<lambda>(voter, v). NormalizeVoteChoice v = ''NO'') votes)))"
  using CountVotes_fold[of 0 0 votes] assms unfolding CountVotes_def by simp

text \<open>The count does not depend on the order in which the vote map is enumerated.\<close>

lemma CountVotes_order_free:
  assumes "wf_map votes" and "wf_map votes'" and "set votes = set votes'" and "length votes \<le> 2 ^ 62"
  shows "CountVotes votes = CountVotes votes'"
proof -
  have d: "distinct votes" "distinct votes'" using assms(1,2) by (auto simp: wf_map_def distinct_map)
  have len: "length (filter P votes) = length (filter P votes')" for P
    using d assms(3) by (metis distinct_card distinct_filter set_filter)
  have "length votes' = length votes" using d assms(3) by (metis distinct_card)
  then show ?thesis using assms(4) len by (simp add: CountVotes_counts)
qed

section \<open>Law templates\<close>

text \<open>
  What a proposed law is meant to do to its land: the requested values, clamped.
\<close>

definition float_param :: "go_floats \<Rightarrow> param_val gomap \<Rightarrow> string \<Rightarrow> real" where
  "float_param fl params key = (case ParamFloat fl params key of Inr x \<Rightarrow> x | Inl _ \<Rightarrow> 0)"

definition item_param :: "param_val gomap \<Rightarrow> string \<Rightarrow> string" where
  "item_param params key = (case ParamString params key of Inr s \<Rightarrow> s | Inl _ \<Rightarrow> [])"

definition law_effect :: "go_floats \<Rightarrow> string \<Rightarrow> param_val gomap \<Rightarrow> land_claim \<Rightarrow> land_claim" where
  "law_effect fl t params land =
     (if t = ''MARKET_TAX'' then land\<lparr>MarketTax := clampr 0 (1 / 4) (float_param fl params ''market_tax'')\<rparr>
      else if t = ''CURFEW_NO_BUILD'' then
        (let s = clampr 0 1 (float_param fl params ''start_time'');
             e = clampr 0 1 (float_param fl params ''end_time'')
         in land\<lparr>CurfewEnabled := s \<noteq> e, CurfewStart := if s = e then 0 else s,
                 CurfewEnd := if s = e then 0 else e\<rparr>)
      else if t = ''FINE_BREAK_PER_BLOCK'' then
        (let n = clampi 0 100 (f2i (float_param fl params ''fine_per_block''))
         in land\<lparr>FineBreakEnabled := n \<noteq> 0, FineBreakPerBlock := n,
                 FineBreakItem := if n = 0 then [] else item_param params ''fine_item''\<rparr>)
      else
        (let n = clampi 0 64 (f2i (float_param fl params ''ticket_cost''))
         in land\<lparr>AccessPassEnabled := n \<noteq> 0, AccessTicketCost := n,
                 AccessTicketItem := if n = 0 then [] else item_param params ''ticket_item''\<rparr>))"

lemma clampi_range: "0 \<le> b \<Longrightarrow> 0 \<le> clampi 0 b n \<and> clampi 0 b n \<le> b"
  by (simp add: clampi_def Let_def)

lemma clampi_idem: "0 \<le> b \<Longrightarrow> clampi 0 b (clampi 0 b n) = clampi 0 b n"
  by (simp add: clampi_def Let_def)

lemma clampr_range: "lo \<le> hi \<Longrightarrow> lo \<le> clampr lo hi x \<and> clampr lo hi x \<le> hi"
  by (simp add: clampr_def Let_def)

lemma clampr_idem: "lo \<le> hi \<Longrightarrow> clampr lo hi (clampr lo hi x) = clampr lo hi x"
  by (simp add: clampr_def Let_def)

lemma clampr_in: "{lo, hi, x} \<subseteq> F \<Longrightarrow> clampr lo hi x \<in> F"
  by (auto simp: clampr_def Let_def)

lemma ParamString_trimmed: "ParamString params key = Inr s \<Longrightarrow> s \<noteq> [] \<and> trim_space s = s"
  by (auto simp: ParamString_def trim_space_idem split: option.splits param_val.splits if_splits)

lemma dec_int_not_Nil [simp]: "dec_int i \<noteq> []"
  by (simp add: dec_int_def)

lemma item_params_template:
  assumes p: "item_params fl params ex ik ck b = Inr p" and "ik \<noteq> ck" and b: "0 \<le> b" "b \<le> 100"
  shows "item_template p ik ck b =
    (let n = clampi 0 b (f2i (float_param fl params ck))
     in Inr (if n = 0 then None else Some (item_param params ik, n)))"
proof -
  obtain item where item: "ParamString params ik = Inr item"
    using p by (auto simp: item_params_def split: sum.splits)
  obtain f where f: "ParamFloat fl params ck = Inr f"
    using p item by (auto simp: item_params_def ParamInt_def split: sum.splits if_splits)
  define n where "n = clampi 0 b (f2i f)"
  have p': "p = [(ik, item), (ck, dec_int n)]"
    using p item f by (auto simp: item_params_def ParamInt_def n_def split: sum.splits if_splits)
  have rng: "0 \<le> n" "n \<le> 100" using clampi_range[OF b(1), of "f2i f"] b(2) by (auto simp: n_def)
  have "Atoi (trim_space (dec_int n)) = Some n"
    unfolding trim_space_dec_int by (rule Atoi_dec_int) (use rng in \<open>simp add: in_i64_def\<close>)
  moreover have "clampi 0 b n = n" unfolding n_def by (rule clampi_idem[OF b(1)])
  ultimately show ?thesis
    using ParamString_trimmed[OF item] item f assms(2)
    by (simp add: item_template_def p' pget_def Let_def trim_space_dec_int float_param_def item_param_def n_def)
qed

text \<open>
  A law that was accepted when proposed always takes effect when the vote passes, and its effect
  on the land is the requested one, clamped: the canonical strings kept in the law read back as the
  values they were made from.  Formatting and parsing of floats are only required to be inverse on
  the values the program can hold.
\<close>

lemma proposed_law_takes_effect:
  assumes fmt: "\<And>x. x \<in> F \<Longrightarrow> float_string fl x \<noteq> [] \<and> parse_float fl (float_string fl x) = Inr x"
    and cs: "{0, 1 / 4, 1} \<subseteq> F" and vals: "\<And>key x. ParamFloat fl params key = Inr x \<Longrightarrow> x \<in> F"
    and nrm: "NormalizeLawParams fl t params ex = Inr p"
  shows "ApplyLawTemplate fl t p land = Inr (law_effect fl t params land)"
proof -
  have rd: "float_string fl (clampr 0 b x) \<noteq> [] \<and> parse_float fl (float_string fl (clampr 0 b x)) = Inr (clampr 0 b x)"
    if "b \<in> F" "x \<in> F" for b x
    by (rule fmt, rule clampr_in) (use that cs in simp)
  have c: "1 / 4 \<in> F" "1 \<in> F" using cs by simp_all
  consider "t = ''MARKET_TAX''" | "t = ''CURFEW_NO_BUILD''" | "t = ''FINE_BREAK_PER_BLOCK''" | "t = ''ACCESS_PASS_CORE''"
    using nrm unfolding NormalizeLawParams_def by (metis Inl_Inr_False)
  then show ?thesis
  proof cases
    case 1
    then obtain f where f: "ParamFloat fl params ''market_tax'' = Inr f"
      and p: "p = [(''market_tax'', float_string fl (clampr 0 (1 / 4) f))]"
      using nrm by (auto simp: NormalizeLawParams_def split: sum.splits)
    show ?thesis using rd[OF c(1) vals[OF f]] f
      by (simp add: 1 p ApplyLawTemplate_def law_effect_def pget_def float_param_def clampr_idem)
  next
    case 2
    then obtain s e where s: "ParamFloat fl params ''start_time'' = Inr s"
      and e: "ParamFloat fl params ''end_time'' = Inr e"
      and p: "p = [(''start_time'', float_string fl (clampr 0 1 s)), (''end_time'', float_string fl (clampr 0 1 e))]"
      using nrm by (auto simp: NormalizeLawParams_def split: sum.splits)
    show ?thesis using rd[OF c(2) vals[OF s]] rd[OF c(2) vals[OF e]] s e
      by (simp add: 2 p ApplyLawTemplate_def law_effect_def pget_def float_param_def clampr_idem Let_def)
  next
    case 3
    then have "item_params fl params ex ''fine_item'' ''fine_per_block'' 100 = Inr p"
      using nrm by (simp add: NormalizeLawParams_def)
    from item_params_template[OF this] show ?thesis
      by (simp add: 3 ApplyLawTemplate_def law_effect_def Let_def)
  next
    case 4
    then have "item_params fl params ex ''ticket_item'' ''ticket_cost'' 64 = Inr p"
      using nrm by (simp add: NormalizeLawParams_def)
    from item_params_template[OF this] show ?thesis
      by (simp add: 4 ApplyLawTemplate_def law_effect_def Let_def)
  qed
qed

definition sample_law_params :: "param_val gomap" where
  "sample_law_params = [(''market_tax'', PFloat (1 / 10))]"

end
