(* ===== verification/World_Config.thy ===== *)
theory World_Config
  imports Inventory_Model
begin

text \<open>
  The configuration of a world (\<open>internal/sim/world/config.go\<close>) and the defaults every world starts
  from: \<open>applyDefaults\<close> runs once in \<open>New\<close>, so the rest of the program sees its result only.
\<close>

record rate_limit_config =
  SayWindowTicks :: int
  SayMax :: int
  MarketSayWindowTicks :: int
  MarketSayMax :: int
  WhisperWindowTicks :: int
  WhisperMax :: int
  OfferTradeWindowTicks :: int
  OfferTradeMax :: int
  PostBoardWindowTicks :: int
  PostBoardMax :: int

record world_config =
  WorldID :: string
  WorldType :: string
  TickRateHz :: int
  DayTicks :: int
  SeasonLengthTicks :: int
  ResetEveryTicks :: int
  ResetNoticeTicks :: int
  ObsRadius :: int
  Height :: int
  Seed :: int
  BoundaryR :: int
  SwitchCooldownTicks :: int
  AllowClaims :: bool
  AllowMine :: bool
  AllowPlace :: bool
  AllowLaws :: bool
  WAllowTrade :: bool
  WAllowBuild :: bool
  BiomeRegionSize :: int
  SpawnClearRadius :: int
  OreClusterProbScalePermille :: int
  TerrainClusterProbScalePermille :: int
  SprinkleStonePermille :: int
  SprinkleDirtPermille :: int
  SprinkleLogPermille :: int
  StarterItems :: "items option"
  SnapshotEveryTicks :: int
  DirectorEveryTicks :: int
  RateLimits :: rate_limit_config
  LawNoticeTicks :: int
  LawVoteTicks :: int
  BlueprintAutoPullRange :: int
  BlueprintBlocksPerTick :: int
  AccessPassCoreRadius :: int
  MaintenanceCost :: items
  FunDecayWindowTicks :: int
  FunDecayBase :: real
  StructureSurvivalTicks :: int

text \<open>\<open>if c.X <= 0 { c.X = d }\<close>.\<close>

definition positive_or :: "int \<Rightarrow> int \<Rightarrow> int" where
  "positive_or d v = (if v \<le> 0 then d else v)"

definition rate_defaults :: "rate_limit_config \<Rightarrow> rate_limit_config" where
  "rate_defaults c = \<lparr>
     SayWindowTicks = positive_or 50 (SayWindowTicks c),
     SayMax = positive_or 5 (SayMax c),
     MarketSayWindowTicks = positive_or 50 (MarketSayWindowTicks c),
     MarketSayMax = positive_or 2 (MarketSayMax c),
     WhisperWindowTicks = positive_or 50 (WhisperWindowTicks c),
     WhisperMax = positive_or 5 (WhisperMax c),
     OfferTradeWindowTicks = positive_or 50 (OfferTradeWindowTicks c),
     OfferTradeMax = positive_or 3 (OfferTradeMax c),
     PostBoardWindowTicks = positive_or 600 (PostBoardWindowTicks c),
     PostBoardMax = positive_or 1 (PostBoardMax c)\<rparr>"

definition no_capability :: "world_config \<Rightarrow> bool" where
  "no_capability c \<longleftrightarrow> \<not> AllowClaims c \<and> \<not> AllowMine c \<and> \<not> AllowPlace c \<and> \<not> AllowLaws c \<and>
     \<not> WAllowTrade c \<and> \<not> WAllowBuild c"

definition starter_defaults :: items where
  "starter_defaults = [(''PLANK'', 20), (''COAL'', 10), (''STONE'', 20), (''BERRIES'', 10)]"

text \<open>
  The later defaults that read an earlier one (season, reset) use its new value, as the assignments
  of the code do; the capability switches are all set when none is.
\<close>

definition applyDefaults :: "world_config \<Rightarrow> world_config" where
  "applyDefaults c =
     (let day = positive_or 6000 (DayTicks c);
          season = positive_or (i64 (day * 7)) (SeasonLengthTicks c);
          none = no_capability c
      in \<lparr>WorldID = WorldID c, WorldType = WorldType c,
          TickRateHz = positive_or 5 (TickRateHz c),
          DayTicks = day,
          SeasonLengthTicks = season,
          ResetEveryTicks = positive_or season (ResetEveryTicks c),
          ResetNoticeTicks = ResetNoticeTicks c,
          ObsRadius = positive_or 7 (ObsRadius c),
          Height = positive_or 1 (Height c),
          Seed = Seed c,
          BoundaryR = positive_or 4000 (BoundaryR c),
          SwitchCooldownTicks = positive_or 150 (SwitchCooldownTicks c),
          AllowClaims = (if none then True else AllowClaims c),
          AllowMine = (if none then True else AllowMine c),
          AllowPlace = (if none then True else AllowPlace c),
          AllowLaws = (if none then True else AllowLaws c),
          WAllowTrade = (if none then True else WAllowTrade c),
          WAllowBuild = (if none then True else WAllowBuild c),
          BiomeRegionSize = positive_or 64 (BiomeRegionSize c),
          SpawnClearRadius = positive_or 6 (SpawnClearRadius c),
          OreClusterProbScalePermille = positive_or 1000 (OreClusterProbScalePermille c),
          TerrainClusterProbScalePermille = positive_or 1000 (TerrainClusterProbScalePermille c),
          SprinkleStonePermille = positive_or 12 (SprinkleStonePermille c),
          SprinkleDirtPermille = positive_or 4 (SprinkleDirtPermille c),
          SprinkleLogPermille = positive_or 2 (SprinkleLogPermille c),
          StarterItems = (case StarterItems c of None \<Rightarrow> Some starter_defaults | Some m \<Rightarrow> Some m),
          SnapshotEveryTicks = positive_or 3000 (SnapshotEveryTicks c),
          DirectorEveryTicks = positive_or 3000 (DirectorEveryTicks c),
          RateLimits = rate_defaults (RateLimits c),
          LawNoticeTicks = positive_or 3000 (LawNoticeTicks c),
          LawVoteTicks = positive_or 3000 (LawVoteTicks c),
          BlueprintAutoPullRange = positive_or 32 (BlueprintAutoPullRange c),
          BlueprintBlocksPerTick = positive_or 2 (BlueprintBlocksPerTick c),
          AccessPassCoreRadius = positive_or 16 (AccessPassCoreRadius c),
          MaintenanceCost = (if MaintenanceCost c = [] then [(''IRON_INGOT'', 1), (''COAL'', 1)]
                             else MaintenanceCost c),
          FunDecayWindowTicks = positive_or 3000 (FunDecayWindowTicks c),
          FunDecayBase = (if FunDecayBase c \<le> 0 \<or> FunDecayBase c > 1 then 70 / 100 else FunDecayBase c),
          StructureSurvivalTicks = positive_or 3000 (StructureSurvivalTicks c)\<rparr>)"

text \<open>What the rest of the program relies on.\<close>

definition config_ok :: "world_config \<Rightarrow> bool" where
  "config_ok c \<longleftrightarrow>
     0 < TickRateHz c \<and> 0 < DayTicks c \<and> 0 < SeasonLengthTicks c \<and> 0 < ResetEveryTicks c \<and>
     0 < SwitchCooldownTicks c \<and> 0 < ObsRadius c \<and> 0 < Height c \<and> 0 < BoundaryR c \<and>
     0 < BiomeRegionSize c \<and> 0 < SpawnClearRadius c \<and> 0 < OreClusterProbScalePermille c \<and>
     0 < TerrainClusterProbScalePermille c \<and> 0 < SprinkleStonePermille c \<and>
     0 < SprinkleDirtPermille c \<and> 0 < SprinkleLogPermille c \<and> StarterItems c \<noteq> None \<and>
     0 < SnapshotEveryTicks c \<and> 0 < DirectorEveryTicks c \<and> rate_defaults (RateLimits c) = RateLimits c \<and>
     0 < LawNoticeTicks c \<and> 0 < LawVoteTicks c \<and> 0 < BlueprintAutoPullRange c \<and>
     0 < BlueprintBlocksPerTick c \<and> 0 < AccessPassCoreRadius c \<and> MaintenanceCost c \<noteq> [] \<and>
     0 < FunDecayWindowTicks c \<and> 0 < FunDecayBase c \<and> FunDecayBase c \<le> 1 \<and>
     0 < StructureSurvivalTicks c \<and> \<not> no_capability c"

lemma positive_or_pos: "0 < d \<Longrightarrow> 0 < positive_or d v"
  by (simp add: positive_or_def)

lemma positive_or_id: "0 < v \<Longrightarrow> positive_or d v = v"
  by (simp add: positive_or_def)

lemma positive_or_idem: "0 < d \<Longrightarrow> positive_or d (positive_or d v) = positive_or d v"
  by (simp add: positive_or_def)

lemma rate_defaults_idem: "rate_defaults (rate_defaults c) = rate_defaults c"
  by (simp add: rate_defaults_def positive_or_idem)

lemma season_default:
  assumes "d \<le> 2 ^ 59"
  shows "0 < positive_or (i64 (positive_or 6000 d * 7)) s"
  using assms by (cases "d \<le> 0") (simp_all add: positive_or_def)

lemma config_ok_applyDefaults:
  assumes "DayTicks c \<le> 2 ^ 59"
  shows "config_ok (applyDefaults c)"
  using season_default[OF assms, of "SeasonLengthTicks c"]
  by (simp add: config_ok_def applyDefaults_def Let_def positive_or_pos rate_defaults_idem no_capability_def
      split: option.split)

lemma config_okD:
  assumes "config_ok c"
  shows "no_capability c = False" "rate_defaults (RateLimits c) = RateLimits c" "MaintenanceCost c \<noteq> []"
    "StarterItems c \<noteq> None" "\<not> FunDecayBase c \<le> 0" "\<not> FunDecayBase c > 1"
  using assms unfolding config_ok_def by simp_all

lemma applyDefaults_id:
  assumes "config_ok c"
  shows "applyDefaults c = c"
  by (rule world_config.equality)
     (use config_okD[OF assms] assms[unfolded config_ok_def] in
       \<open>simp_all add: applyDefaults_def Let_def positive_or_id split: option.split\<close>)

text \<open>Applying the defaults a second time, as happens when a snapshot of the settings is loaded, changes nothing.\<close>

lemma applyDefaults_fixpoint:
  assumes "DayTicks c \<le> 2 ^ 59"
  shows "config_ok (applyDefaults c) \<and> applyDefaults (applyDefaults c) = applyDefaults c"
  using config_ok_applyDefaults[OF assms] applyDefaults_id by blast

definition blank_config :: world_config where
  "blank_config = \<lparr>WorldID = ''OVERWORLD'', WorldType = ''OVERWORLD'', TickRateHz = 0, DayTicks = 0,
     SeasonLengthTicks = 0, ResetEveryTicks = 0, ResetNoticeTicks = 0, ObsRadius = 0, Height = 0, Seed = 7,
     BoundaryR = 0, SwitchCooldownTicks = 0, AllowClaims = False, AllowMine = False, AllowPlace = False,
     AllowLaws = False, WAllowTrade = False, WAllowBuild = False, BiomeRegionSize = 0, SpawnClearRadius = 0,
     OreClusterProbScalePermille = 0, TerrainClusterProbScalePermille = 0, SprinkleStonePermille = 0,
     SprinkleDirtPermille = 0, SprinkleLogPermille = 0, StarterItems = None, SnapshotEveryTicks = 0,
     DirectorEveryTicks = 0,
     RateLimits = \<lparr>SayWindowTicks = 0, SayMax = 0, MarketSayWindowTicks = 0, MarketSayMax = 0,
       WhisperWindowTicks = 0, WhisperMax = 0, OfferTradeWindowTicks = 0, OfferTradeMax = 0,
       PostBoardWindowTicks = 0, PostBoardMax = 0\<rparr>,
     LawNoticeTicks = 0, LawVoteTicks = 0, BlueprintAutoPullRange = 0, BlueprintBlocksPerTick = 0,
     AccessPassCoreRadius = 0, MaintenanceCost = [], FunDecayWindowTicks = 0, FunDecayBase = 0,
     StructureSurvivalTicks = 0\<rparr>"

end
