(* ===== verification/World_Model.thy ===== *)
theory World_Model
  imports Land_Rules World_Config
begin

text \<open>
  The world state of \<open>internal/sim/world\<close> as far as the modelled components use it, requests of the
  protocol, and the facade operations the handlers share: looking up and updating agents, events and
  audits, permissions and curfew (\<open>governance_facade.go\<close>), reputation (\<open>contracts_facade.go\<close>),
  fun score (\<open>fun_facade.go\<close>), block access.

  The world is single-threaded; a Go pointer into one of its maps is modelled by the key of the map.
  An agent is filed under its own \<open>ID\<close>, an organization under its \<open>OrgID\<close>, a contract under its
  \<open>ContractID\<close>, a container under its position, so the key also stands for that field.
  The audit log is the list of entries handed to the logger.
\<close>

section \<open>Requests\<close>

record instant =
  InstID :: string
  InstType :: string
  InstTo :: string
  InstOffer :: "pair_val list list"
  InstRequest :: "pair_val list list"
  InstTradeID :: string
  InstTerminalID :: string
  InstContractID :: string
  InstContractKind :: string
  InstRequirements :: "(string \<times> int) list"
  InstReward :: "(string \<times> int) list"
  InstDeposit :: "(string \<times> int) list"
  InstDeadlineTick :: u64
  InstDurationTicks :: int
  InstBlueprintID :: string
  InstAnchor :: "int \<times> int \<times> int"
  InstRotation :: int
  InstLandID :: string
  InstPolicy :: "bool gomap option"
  InstMemberID :: string
  InstNewOwner :: string
  InstRadius :: int
  InstOrgID :: string
  InstOrgKind :: string
  InstOrgName :: string
  InstItemID :: string
  InstCount :: int
  InstTitle :: string
  InstTemplateID :: string
  InstParams :: "param_val gomap option"
  InstLawID :: string
  InstChoice :: string
  InstChannel :: string
  InstText :: string
  InstKey :: string
  InstValue :: string
  InstTTLTicks :: int
  InstPrefix :: string
  InstLimit :: int
  InstBoardID :: string
  InstBody :: string
  InstTargetID :: string
  InstTargetWorldID :: string
  InstEntryPointID :: string

definition blank_inst :: instant where
  "blank_inst = \<lparr>InstID = ''I1'', InstType = [], InstTo = [], InstOffer = [], InstRequest = [],
     InstTradeID = [], InstTerminalID = [], InstContractID = [], InstContractKind = [],
     InstRequirements = [], InstReward = [], InstDeposit = [], InstDeadlineTick = 0,
     InstDurationTicks = 0, InstBlueprintID = [], InstAnchor = (0, 0, 0), InstRotation = 0,
     InstLandID = [], InstPolicy = None, InstMemberID = [], InstNewOwner = [], InstRadius = 0,
     InstOrgID = [], InstOrgKind = [], InstOrgName = [], InstItemID = [], InstCount = 0,
     InstTitle = [], InstTemplateID = [], InstParams = None, InstLawID = [], InstChoice = [],
     InstChannel = [], InstText = [], InstKey = [], InstValue = [], InstTTLTicks = 0, InstPrefix = [], InstLimit = 0,
     InstBoardID = [], InstBody = [], InstTargetID = [], InstTargetWorldID = [], InstEntryPointID = []\<rparr>"

section \<open>World state\<close>

record recipe =
  RRecipeID :: string
  Station :: string
  Inputs :: "(string \<times> int) list"
  Outputs :: "(string \<times> int) list"
  Tier :: int
  TimeTicks :: int

record event_template =
  ETitle :: string
  EDescription :: string
  EBaseWeight :: real
  EParams :: "param_val gomap"

text \<open>
  The catalogs as far as the handlers read them: of a blueprint its blocks and its cost, of a block whether
  it is solid, of an item its kind, \<open>PlaceAs\<close> and \<open>EdibleHP\<close>.
\<close>

record catalogs =
  Blueprints :: "placement list gomap"
  BlockIndex :: "blockid gomap"
  Palette :: "string list"
  ItemDefs :: "string list"
  LawTitles :: "string gomap"
  BlueprintCost :: "(string \<times> int) list gomap"
  BlockSolidDefs :: "bool gomap"
  PlaceAs :: "string gomap"
  EdibleHP :: "int gomap"
  Recipes :: "recipe gomap"
  ItemKind :: "string gomap"
  EventDefs :: "event_template gomap"

record act_entry =
  Ack :: event
  AckExpires :: u64

record audit_entry =
  ATick :: u64
  AActor :: string
  AAction :: string
  APosition :: vec3
  AFrom :: blockid
  ATo :: blockid
  AReason :: string
  ADetails :: event

record world =
  cfg :: world_config
  cats :: catalogs
  airBlock :: blockid
  blocks :: "vec3 \<Rightarrow> blockid"
  agents :: "agent gomap"
  claims :: "land_claim gomap"
  containers :: "(vec3 \<times> container) list"
  trades :: "trade gomap"
  contracts :: "contract gomap"
  laws :: "law gomap"
  orgs :: "organization gomap"
  nextLandNum :: u64
  nextTradeNum :: u64
  nextContractNum :: u64
  nextLawNum :: u64
  nextOrgNum :: u64
  weather :: string
  activeEventID :: string
  activeEventEnds :: u64
  stats :: world_stats
  audits :: "audit_entry list"
  itemEnts :: "item_entity gomap"
  itemsAt :: "(vec3 \<times> string list) list"
  conveyors :: "(vec3 \<times> conveyor_meta) list"
  switches :: "(vec3 \<times> bool) list"
  signs :: "(vec3 \<times> sign) list"
  boards :: "board_post list gomap"
  structures :: "built_structure gomap"
  smeltByInput :: "recipe gomap"
  nextItemNum :: u64
  nextTaskNum :: u64
  nextPostNum :: u64
  activeEventCenter :: vec3
  activeEventRadius :: int
  worldTick :: u64
  nextAgentNum :: u64
  weatherUntilTick :: u64
  activeEventStart :: u64
  resetTotal :: u64
  actDedupe :: "((string \<times> string \<times> string) \<times> act_entry) list"

section \<open>Agents, events and audits\<close>

definition upd_agent :: "string \<Rightarrow> (agent \<Rightarrow> agent) \<Rightarrow> world \<Rightarrow> world" where
  "upd_agent aid f w =
     (case map_of (agents w) aid of
        None \<Rightarrow> w
      | Some a \<Rightarrow> w\<lparr>agents := mput aid (f a) (agents w)\<rparr>)"

definition emit :: "string \<Rightarrow> event \<Rightarrow> world \<Rightarrow> world" where
  "emit aid e w = upd_agent aid (AddEvent e) w"

definition auditEvent :: "u64 \<Rightarrow> string \<Rightarrow> string \<Rightarrow> vec3 \<Rightarrow> string \<Rightarrow> event \<Rightarrow> world \<Rightarrow> world" where
  "auditEvent tick actor action pos reason details w =
     w\<lparr>audits := audits w @ [\<lparr>ATick = tick, AActor = actor, AAction = action, APosition = pos,
        AFrom = 0, ATo = 0, AReason = reason, ADetails = details\<rparr>]\<rparr>"

definition auditSetBlock :: "u64 \<Rightarrow> string \<Rightarrow> vec3 \<Rightarrow> blockid \<Rightarrow> blockid \<Rightarrow> string \<Rightarrow> world \<Rightarrow> world" where
  "auditSetBlock tick actor pos fromB toB reason w =
     w\<lparr>audits := audits w @ [\<lparr>ATick = tick, AActor = actor, AAction = ''SET_BLOCK'', APosition = pos,
        AFrom = fromB, ATo = toB, AReason = reason, ADetails = []\<rparr>]\<rparr>"

definition known_codes :: "string list" where
  "known_codes = [''E_PROTO_BAD_REQUEST'', ''E_WORLD_BUSY'', ''E_WORLD_NOT_FOUND'', ''E_WORLD_DENIED'',
     ''E_WORLD_COOLDOWN'', ''E_BAD_REQUEST'', ''E_NO_PERMISSION'', ''E_NO_RESOURCE'',
     ''E_INVALID_TARGET'', ''E_RATE_LIMIT'', ''E_CONFLICT'', ''E_BLOCKED'', ''E_STALE'', ''E_INTERNAL'']"

definition IsKnownCode :: "string \<Rightarrow> bool" where
  "IsKnownCode code \<longleftrightarrow> (if code = [] then True else code \<in> set known_codes)"

definition actionResult :: "u64 \<Rightarrow> string \<Rightarrow> bool \<Rightarrow> string \<Rightarrow> string \<Rightarrow> event" where
  "actionResult tick ref ok code0 message0 =
     (let code = (if IsKnownCode code0 then code0 else ''E_INTERNAL'');
          message = (if \<not> IsKnownCode code0 \<and> message0 = [] then ''unknown error code'' else message0)
      in [(''t'', JU64 tick), (''type'', JStr ''ACTION_RESULT''), (''ref'', JStr ref), (''ok'', JBool ok)]
         @ (if code \<noteq> [] then [(''code'', JStr code)] else [])
         @ (if message \<noteq> [] then [(''message'', JStr message)] else []))"

text \<open>\<open>a.AddEvent(actionResult(nowTick, ref, ok, code, msg))\<close> for the acting agent.\<close>

definition reply :: "string \<Rightarrow> u64 \<Rightarrow> string \<Rightarrow> bool \<Rightarrow> string \<Rightarrow> string \<Rightarrow> world \<Rightarrow> world" where
  "reply aid nowTick ref ok code msg w = emit aid (actionResult nowTick ref ok code msg) w"

definition reply_verdict :: "string \<Rightarrow> u64 \<Rightarrow> string \<Rightarrow> verdict \<Rightarrow> world \<Rightarrow> world" where
  "reply_verdict aid nowTick ref v w = reply aid nowTick ref False (fst (snd v)) (snd (snd v)) w"

section \<open>Blocks\<close>

definition InBounds :: "world \<Rightarrow> vec3 \<Rightarrow> bool" where
  "InBounds w p =
     (if vy p \<noteq> 0 then False
      else if BoundaryR (cfg w) > 0 then
        (let b = BoundaryR (cfg w) in
         \<not> (vx p < i64 (- b) \<or> vx p > b \<or> vz p < i64 (- b) \<or> vz p > b))
      else True)"

text \<open>
  \<open>GetBlock\<close> and \<open>SetBlock\<close> (\<open>terrain/store/access.go\<close>): the cells inside the bounds are the total
  function \<open>blocks\<close>, which stands for the generated and edited chunks.
\<close>

definition GetBlock :: "world \<Rightarrow> vec3 \<Rightarrow> blockid" where
  "GetBlock w p = (if vy p \<noteq> 0 \<or> \<not> InBounds w p then airBlock w else blocks w p)"

definition SetBlock :: "vec3 \<Rightarrow> blockid \<Rightarrow> world \<Rightarrow> world" where
  "SetBlock p b w = (if vy p \<noteq> 0 \<or> \<not> InBounds w p then w else w\<lparr>blocks := (blocks w)(p := b)\<rparr>)"

definition blockName :: "world \<Rightarrow> blockid \<Rightarrow> string" where
  "blockName w b =
     (if unat b \<ge> length (Palette (cats w)) then [] else Palette (cats w) ! unat b)"

section \<open>Permissions\<close>

definition landAt :: "world \<Rightarrow> vec3 \<Rightarrow> land_claim option" where
  "landAt w pos = LandAt (claims w) pos"

definition isOrgMember :: "world \<Rightarrow> string \<Rightarrow> string \<Rightarrow> bool" where
  "isOrgMember w agentID orgID = IsOrgMember (orgs w) agentID orgID"

definition isOrgAdmin :: "world \<Rightarrow> string \<Rightarrow> string \<Rightarrow> bool" where
  "isOrgAdmin w agentID orgID = IsOrgAdmin (orgs w) agentID orgID"

definition isLandAdmin :: "world \<Rightarrow> string \<Rightarrow> land_claim option \<Rightarrow> bool" where
  "isLandAdmin w agentID land = IsLandAdmin (orgs w) agentID land"

definition isLandMember :: "world \<Rightarrow> string \<Rightarrow> land_claim option \<Rightarrow> bool" where
  "isLandMember w agentID land = IsLandMember (orgs w) agentID land"

definition permissionsFor :: "world \<Rightarrow> string \<Rightarrow> vec3 \<Rightarrow> land_claim option \<times> permissions" where
  "permissionsFor w agentID pos =
     (case landAt w pos of
        None \<Rightarrow> (None, WildPermissions)
      | Some land \<Rightarrow>
          (Some land, ForLand (isLandMember w agentID (Some land)) (MaintenanceStage land) (Flags land)))"

definition timeOfDay :: "go_floats \<Rightarrow> world \<Rightarrow> u64 \<Rightarrow> real" where
  "timeOfDay fl w nowTick = TimeOfDay fl nowTick (DayTicks (cfg w))"

definition canBuildAt :: "go_floats \<Rightarrow> world \<Rightarrow> string \<Rightarrow> vec3 \<Rightarrow> u64 \<Rightarrow> bool" where
  "canBuildAt fl w agentID pos nowTick =
     (case permissionsFor w agentID pos of
        (None, p) \<Rightarrow> CanBuild p
      | (Some land, p) \<Rightarrow>
          CanActionWithCurfew (CanBuild p) (CurfewEnabled land) (timeOfDay fl w nowTick)
            (CurfewStart land) (CurfewEnd land))"

definition canBreakAt :: "go_floats \<Rightarrow> world \<Rightarrow> string \<Rightarrow> vec3 \<Rightarrow> u64 \<Rightarrow> bool" where
  "canBreakAt fl w agentID pos nowTick =
     (case permissionsFor w agentID pos of
        (None, p) \<Rightarrow> CanBreak p
      | (Some land, p) \<Rightarrow>
          CanActionWithCurfew (CanBreak p) (CurfewEnabled land) (timeOfDay fl w nowTick)
            (CurfewStart land) (CurfewEnd land))"

definition canWithdrawFromContainer :: "world \<Rightarrow> string \<Rightarrow> vec3 \<Rightarrow> bool" where
  "canWithdrawFromContainer w agentID pos =
     (case landAt w pos of
        None \<Rightarrow> CanWithdrawContainer False False 0
      | Some land \<Rightarrow> CanWithdrawContainer True (isLandMember w agentID (Some land)) (MaintenanceStage land))"

definition landCoreRadius :: "world \<Rightarrow> land_claim \<Rightarrow> int" where
  "landCoreRadius w c = CoreRadius (Radius c) (AccessPassCoreRadius (cfg w))"

definition landCoreContains :: "world \<Rightarrow> land_claim \<Rightarrow> vec3 \<Rightarrow> bool" where
  "landCoreContains w c pos =
     CoreContains (vx (Anchor c)) (vz (Anchor c)) (vx pos) (vz pos) (landCoreRadius w c)"

section \<open>Organizations and identifiers\<close>

definition orgByID :: "world \<Rightarrow> string \<Rightarrow> organization option" where
  "orgByID w oid = (if oid = [] then None else map_of (orgs w) oid)"

definition newLandID :: "string \<Rightarrow> world \<Rightarrow> string \<times> world" where
  "newLandID own w =
     (let n = nextLandNum w + 1
      in (''LAND_'' @ own @ ''_'' @ pad_dec 3 n, w\<lparr>nextLandNum := n\<rparr>))"

definition newOrgID :: "world \<Rightarrow> string \<times> world" where
  "newOrgID w = (let n = nextOrgNum w + 1 in (''ORG'' @ pad_dec 6 n, w\<lparr>nextOrgNum := n\<rparr>))"

definition newLawID :: "world \<Rightarrow> string \<times> world" where
  "newLawID w = (let n = nextLawNum w + 1 in (''LAW'' @ pad_dec 6 n, w\<lparr>nextLawNum := n\<rparr>))"

definition newContractID :: "world \<Rightarrow> string \<times> world" where
  "newContractID w = (let n = nextContractNum w + 1 in (''C'' @ pad_dec 6 n, w\<lparr>nextContractNum := n\<rparr>))"

definition SimpleTradeIDFromCounter :: "u64 \<Rightarrow> string" where
  "SimpleTradeIDFromCounter nxt = ''TR'' @ pad_dec 6 nxt"

definition newTradeID :: "world \<Rightarrow> string \<times> world" where
  "newTradeID w = (let n = nextTradeNum w + 1 in (SimpleTradeIDFromCounter n, w\<lparr>nextTradeNum := n\<rparr>))"

section \<open>Containers\<close>

definition GetContainerByID :: "(vec3 \<times> container) list \<Rightarrow> string \<Rightarrow> (vec3 \<times> container) option" where
  "GetContainerByID cs cid =
     (case ParseContainerID cid of
        None \<Rightarrow> None
      | Some (typ, x, y, z) \<Rightarrow>
          let pos = \<lparr>vx = x, vy = y, vz = z\<rparr>
          in case map_of cs pos of
               None \<Rightarrow> None
             | Some c \<Rightarrow> if CType c \<noteq> typ then None else Some (pos, c))"

definition upd_container :: "vec3 \<Rightarrow> (container \<Rightarrow> container) \<Rightarrow> world \<Rightarrow> world" where
  "upd_container pos f w =
     (case map_of (containers w) pos of
        None \<Rightarrow> w
      | Some c \<Rightarrow> w\<lparr>containers := mput pos (f c) (containers w)\<rparr>)"

section \<open>Reputation\<close>

definition ClampReputation :: "int \<Rightarrow> int" where
  "ClampReputation v = (if v < 0 then 0 else if v > 1000 then 1000 else v)"

definition bumpRepTrade :: "string \<Rightarrow> int \<Rightarrow> world \<Rightarrow> world" where
  "bumpRepTrade agentID delta w =
     upd_agent agentID (\<lambda>a. a\<lparr>RepTrade := ClampReputation (i64 (RepTrade a + delta))\<rparr>) w"

definition bumpRepBuild :: "string \<Rightarrow> int \<Rightarrow> world \<Rightarrow> world" where
  "bumpRepBuild agentID delta w =
     upd_agent agentID (\<lambda>a. a\<lparr>RepBuild := ClampReputation (i64 (RepBuild a + delta))\<rparr>) w"

definition bumpRepSocial :: "string \<Rightarrow> int \<Rightarrow> world \<Rightarrow> world" where
  "bumpRepSocial agentID delta w =
     upd_agent agentID (\<lambda>a. a\<lparr>RepSocial := ClampReputation (i64 (RepSocial a + delta))\<rparr>) w"

definition bumpRepLaw :: "string \<Rightarrow> int \<Rightarrow> world \<Rightarrow> world" where
  "bumpRepLaw agentID delta w =
     upd_agent agentID (\<lambda>a. a\<lparr>RepLaw := ClampReputation (i64 (RepLaw a + delta))\<rparr>) w"

section \<open>Fun score\<close>

text \<open>The six dimensions; an unknown name changes nothing.\<close>

definition fun_field :: "string \<Rightarrow> ((fun_score \<Rightarrow> int) \<times> ((int \<Rightarrow> int) \<Rightarrow> fun_score \<Rightarrow> fun_score)) option" where
  "fun_field dm =
     (if dm = ''NOVELTY'' then Some (Novelty, Novelty_update)
      else if dm = ''CREATION'' then Some (Creation, Creation_update)
      else if dm = ''SOCIAL'' then Some (Social, Social_update)
      else if dm = ''INFLUENCE'' then Some (Influence, Influence_update)
      else if dm = ''NARRATIVE'' then Some (Narrative, Narrative_update)
      else if dm = ''RISK_RESCUE'' then Some (RiskRescue, RiskRescue_update)
      else None)"

definition addFun :: "u64 \<Rightarrow> string \<Rightarrow> string \<Rightarrow> int \<Rightarrow> agent \<Rightarrow> agent" where
  "addFun nowTick dm reason delta a =
     (if delta = 0 then a
      else case fun_field dm of
             None \<Rightarrow> a
           | Some (get, upd) \<Rightarrow>
               let s = upd (\<lambda>v. i64 (v + delta)) (AFun a)
               in AddEvent [(''t'', JU64 nowTick), (''type'', JStr ''FUN''), (''dim'', JStr dm),
                    (''delta'', JInt delta), (''total'', JInt (get s)), (''reason'', JStr reason)]
                    (a\<lparr>AFun := s\<rparr>))"

text \<open>\<open>w.addFun(a, nowTick, dm, reason, a.FunDecayDelta(key, base, \<dots>))\<close>: the delta is computed first.\<close>

definition award :: "go_floats \<Rightarrow> world \<Rightarrow> u64 \<Rightarrow> string \<Rightarrow> string \<Rightarrow> string \<Rightarrow> int \<Rightarrow> agent \<Rightarrow> agent" where
  "award fl w nowTick dm reason key base a =
     (case FunDecayDelta (pow_round fl) key base nowTick (word_of_int (FunDecayWindowTicks (cfg w)))
             (FunDecayBase (cfg w)) a of
        (delta, a') \<Rightarrow> addFun nowTick dm reason delta a')"

definition funOnRecipe :: "string \<Rightarrow> int \<Rightarrow> u64 \<Rightarrow> agent \<Rightarrow> agent" where
  "funOnRecipe recipeID tier nowTick a =
     (if recipeID = [] then a
      else case MarkRecipeSeen recipeID a of
             (fresh, a') \<Rightarrow>
               if \<not> fresh then a'
               else let pts = (if tier = 0 \<or> tier = 1 then 3 else if tier = 2 then 5 else 8)
                    in addFun nowTick ''NOVELTY'' (''recipe:'' @ recipeID) pts a')"

definition funOnWorldEventParticipation :: "string \<Rightarrow> u64 \<Rightarrow> agent \<Rightarrow> agent" where
  "funOnWorldEventParticipation eventID nowTick a =
     (if eventID = [] then a
      else case MarkEventSeen eventID a of
             (fresh, a') \<Rightarrow>
               if \<not> fresh then a' else addFun nowTick ''NOVELTY'' (''event:'' @ eventID) 5 a')"

definition event_running :: "world \<Rightarrow> u64 \<Rightarrow> bool" where
  "event_running w nowTick \<longleftrightarrow> nowTick < activeEventEnds w"

definition hazard :: "world \<Rightarrow> bool" where
  "hazard w \<longleftrightarrow> weather w = ''STORM'' \<or> weather w = ''COLD''"

definition funOnTrade :: "go_floats \<Rightarrow> world \<Rightarrow> u64 \<Rightarrow> agent \<Rightarrow> agent" where
  "funOnTrade fl w nowTick a =
     (let base = ScaleByFactor fl 2 (SocialFunFactor fl (RepTrade a))
      in if base \<le> 0 then a else award fl w nowTick ''SOCIAL'' ''trade'' ''social:trade'' base a)"

definition funOnContractComplete :: "go_floats \<Rightarrow> world \<Rightarrow> u64 \<Rightarrow> string \<Rightarrow> agent \<Rightarrow> agent" where
  "funOnContractComplete fl w nowTick kind a =
     (let base = ScaleByFactor fl (if kind = ''BUILD'' then 7 else 5) (SocialFunFactor fl (RepTrade a))
      in if base \<le> 0 then a
         else
           let a = award fl w nowTick ''SOCIAL'' ''contract'' ''social:contract'' base a;
               a = (if activeEventID w \<noteq> [] \<and> event_running w nowTick
                    then award fl w nowTick ''NARRATIVE'' ''event_success'' ''narrative:event_success'' 5
                           (funOnWorldEventParticipation (activeEventID w) nowTick a)
                    else a)
           in if hazard w
              then award fl w nowTick ''RISK_RESCUE'' ''hazard_success'' ''risk:hazard_success'' 8 a
              else a)"

definition funOnBlueprintComplete :: "go_floats \<Rightarrow> world \<Rightarrow> u64 \<Rightarrow> agent \<Rightarrow> agent" where
  "funOnBlueprintComplete fl w nowTick a =
     (let a = (if activeEventID w \<noteq> [] \<and> event_running w nowTick
               then award fl w nowTick ''NARRATIVE'' ''event_build'' ''narrative:event_build'' 5
                      (funOnWorldEventParticipation (activeEventID w) nowTick a)
               else a)
      in if hazard w
         then award fl w nowTick ''RISK_RESCUE'' ''hazard_build'' ''risk:hazard_build'' 8 a
         else a)"

definition funOnLawActive :: "go_floats \<Rightarrow> world \<Rightarrow> u64 \<Rightarrow> agent \<Rightarrow> agent" where
  "funOnLawActive fl w nowTick a =
     (let a = award fl w nowTick ''INFLUENCE'' ''law_adopted'' ''influence:law_adopted'' 4 a;
          a = award fl w nowTick ''NARRATIVE'' ''law_adopted'' ''narrative:law_adopted'' 5 a
      in if activeEventID w = ''CIVIC_VOTE'' \<and> event_running w nowTick
         then award fl w nowTick ''NARRATIVE'' ''civic_vote_law'' ''narrative:civic_vote_law'' 6
                (funOnWorldEventParticipation (activeEventID w) nowTick a)
         else a)"

definition funOnVote :: "go_floats \<Rightarrow> world \<Rightarrow> u64 \<Rightarrow> agent \<Rightarrow> agent" where
  "funOnVote fl w nowTick a =
     (if activeEventID w = ''CIVIC_VOTE'' \<and> event_running w nowTick
      then award fl w nowTick ''NARRATIVE'' ''civic_vote_vote'' ''narrative:civic_vote_vote'' 4
             (funOnWorldEventParticipation (activeEventID w) nowTick a)
      else award fl w nowTick ''NARRATIVE'' ''vote'' ''narrative:vote'' 2 a)"

section \<open>Frames\<close>

text \<open>
  The part of an agent that items, land, organizations and reputation are about.  Events and the fun
  score do not touch it.
\<close>

definition core ::
  "agent \<Rightarrow> (string \<times> string \<times> vec3 \<times> items) \<times> (int \<times> int \<times> int \<times> int) \<times> movement_task option \<times> work_task option" where
  "core a = ((AID a, AOrgID a, APos a, AInventory a), (RepTrade a, RepBuild a, RepSocial a, RepLaw a),
             MoveTask a, WorkTask a)"

named_theorems frame \<open>operations that leave the core of an agent alone\<close>

lemma core_eqD:
  assumes "core a = core b"
  shows "AInventory a = AInventory b" "AOrgID a = AOrgID b" "APos a = APos b" "RepTrade a = RepTrade b"
    "RepBuild a = RepBuild b" "RepSocial a = RepSocial b" "RepLaw a = RepLaw b" "AID a = AID b"
  using assms by (simp_all add: core_def)

lemma core_AddEvent [frame]: "core (AddEvent e a) = core a"
  by (simp add: core_def)

lemma core_addFun [frame]: "core (addFun now dm reason d a) = core a"
  by (simp add: addFun_def Let_def core_AddEvent split: option.split)
     (simp add: core_def)

lemma core_FunDecayDelta [frame]: "core (snd (FunDecayDelta sc key base now w m a)) = core a"
  by (simp add: FunDecayDelta_def Let_def core_def)

lemma core_award [frame]: "core (award fl w now dm reason key base a) = core a"
  by (simp add: award_def frame case_prod_beta)

lemma core_MarkRecipeSeen [frame]: "core (snd (MarkRecipeSeen r a)) = core a"
  by (simp add: MarkRecipeSeen_def case_prod_beta core_def)

lemma core_MarkEventSeen [frame]: "core (snd (MarkEventSeen e a)) = core a"
  by (simp add: MarkEventSeen_def case_prod_beta core_def)

lemma core_fun [frame]:
  "core (funOnRecipe r tier now a) = core a"
  "core (funOnWorldEventParticipation e now a) = core a"
  "core (funOnTrade fl w now a) = core a"
  "core (funOnContractComplete fl w now k a) = core a"
  "core (funOnBlueprintComplete fl w now a) = core a"
  "core (funOnLawActive fl w now a) = core a"
  "core (funOnVote fl w now a) = core a"
  by (simp_all add: funOnRecipe_def funOnWorldEventParticipation_def funOnTrade_def
      funOnContractComplete_def funOnBlueprintComplete_def funOnLawActive_def funOnVote_def
      case_prod_beta Let_def frame)

text \<open>Looking at one agent after an update.\<close>

lemma map_of_upd_agent [gomap]:
  "map_of (agents (upd_agent aid f w)) b =
    (if b = aid then map_option f (map_of (agents w) aid) else map_of (agents w) b)"
  by (auto simp: upd_agent_def gomap split: option.split)

lemma upd_agent_fields [simp]:
  "claims (upd_agent aid f w) = claims w" "containers (upd_agent aid f w) = containers w"
  "trades (upd_agent aid f w) = trades w" "contracts (upd_agent aid f w) = contracts w"
  "laws (upd_agent aid f w) = laws w" "orgs (upd_agent aid f w) = orgs w"
  "cfg (upd_agent aid f w) = cfg w" "cats (upd_agent aid f w) = cats w" "blocks (upd_agent aid f w) = blocks w"
  "airBlock (upd_agent aid f w) = airBlock w" "stats (upd_agent aid f w) = stats w"
  "weather (upd_agent aid f w) = weather w" "activeEventID (upd_agent aid f w) = activeEventID w"
  "activeEventEnds (upd_agent aid f w) = activeEventEnds w" "audits (upd_agent aid f w) = audits w"
  "nextLandNum (upd_agent aid f w) = nextLandNum w" "nextTradeNum (upd_agent aid f w) = nextTradeNum w"
  "nextContractNum (upd_agent aid f w) = nextContractNum w" "nextLawNum (upd_agent aid f w) = nextLawNum w"
  "nextOrgNum (upd_agent aid f w) = nextOrgNum w"
  by (simp_all add: upd_agent_def split: option.splits)

lemma emit_fields [simp]:
  "claims (emit aid e w) = claims w" "containers (emit aid e w) = containers w"
  "trades (emit aid e w) = trades w" "contracts (emit aid e w) = contracts w"
  "laws (emit aid e w) = laws w" "orgs (emit aid e w) = orgs w" "cfg (emit aid e w) = cfg w"
  "cats (emit aid e w) = cats w" "blocks (emit aid e w) = blocks w" "airBlock (emit aid e w) = airBlock w"
  "stats (emit aid e w) = stats w" "audits (emit aid e w) = audits w"
  "activeEventID (emit aid e w) = activeEventID w" "activeEventEnds (emit aid e w) = activeEventEnds w"
  by (simp_all add: emit_def)

lemma reply_fields [simp]:
  "claims (reply aid t r ok c m w) = claims w" "containers (reply aid t r ok c m w) = containers w"
  "trades (reply aid t r ok c m w) = trades w" "contracts (reply aid t r ok c m w) = contracts w"
  "laws (reply aid t r ok c m w) = laws w" "orgs (reply aid t r ok c m w) = orgs w"
  "cfg (reply aid t r ok c m w) = cfg w" "cats (reply aid t r ok c m w) = cats w"
  "blocks (reply aid t r ok c m w) = blocks w" "audits (reply aid t r ok c m w) = audits w"
  by (simp_all add: reply_def)

lemma auditEvent_fields [simp]:
  "claims (auditEvent t a ac p r d w) = claims w" "containers (auditEvent t a ac p r d w) = containers w"
  "trades (auditEvent t a ac p r d w) = trades w" "contracts (auditEvent t a ac p r d w) = contracts w"
  "laws (auditEvent t a ac p r d w) = laws w" "orgs (auditEvent t a ac p r d w) = orgs w"
  "cfg (auditEvent t a ac p r d w) = cfg w" "agents (auditEvent t a ac p r d w) = agents w"
  "cats (auditEvent t a ac p r d w) = cats w" "blocks (auditEvent t a ac p r d w) = blocks w"
  "activeEventID (auditEvent t a ac p r d w) = activeEventID w"
  "activeEventEnds (auditEvent t a ac p r d w) = activeEventEnds w"
  by (simp_all add: auditEvent_def)

lemma upd_agent_ground [simp]:
  "itemEnts (upd_agent aid f w) = itemEnts w" "itemsAt (upd_agent aid f w) = itemsAt w"
  "conveyors (upd_agent aid f w) = conveyors w" "switches (upd_agent aid f w) = switches w"
  "signs (upd_agent aid f w) = signs w" "boards (upd_agent aid f w) = boards w"
  "structures (upd_agent aid f w) = structures w" "nextItemNum (upd_agent aid f w) = nextItemNum w"
  "nextTaskNum (upd_agent aid f w) = nextTaskNum w" "activeEventCenter (upd_agent aid f w) = activeEventCenter w"
  "activeEventRadius (upd_agent aid f w) = activeEventRadius w" "smeltByInput (upd_agent aid f w) = smeltByInput w"
  by (simp_all add: upd_agent_def split: option.splits)

lemma emit_ground [simp]:
  "itemEnts (emit aid e w) = itemEnts w" "itemsAt (emit aid e w) = itemsAt w"
  "conveyors (emit aid e w) = conveyors w" "switches (emit aid e w) = switches w"
  "nextItemNum (emit aid e w) = nextItemNum w" "nextTaskNum (emit aid e w) = nextTaskNum w"
  by (simp_all add: emit_def)

lemma auditEvent_ground [simp]:
  "itemEnts (auditEvent t a ac p r d w) = itemEnts w" "itemsAt (auditEvent t a ac p r d w) = itemsAt w"
  "conveyors (auditEvent t a ac p r d w) = conveyors w" "switches (auditEvent t a ac p r d w) = switches w"
  "nextItemNum (auditEvent t a ac p r d w) = nextItemNum w" "nextTaskNum (auditEvent t a ac p r d w) = nextTaskNum w"
  "airBlock (auditEvent t a ac p r d w) = airBlock w"
  by (simp_all add: auditEvent_def)

text \<open>
  Two worlds with the same item state: the same agents up to events and fun score, and the same
  containers and organizations.
\<close>

definition agent_core :: "world \<Rightarrow> string \<Rightarrow> _ option" where
  "agent_core w aid = map_option core (map_of (agents w) aid)"

lemma agent_core_upd [gomap]:
  assumes "\<And>a. core (f a) = core a"
  shows "agent_core (upd_agent aid f w) = agent_core w"
  by (rule ext) (auto simp: agent_core_def gomap assms option.map_comp comp_def)

lemma agent_core_emit [simp]: "agent_core (emit aid e w) = agent_core w"
  by (simp add: emit_def agent_core_upd frame)

lemma agent_core_reply [simp]: "agent_core (reply aid t r ok c m w) = agent_core w"
  by (simp add: reply_def)

lemma agent_core_agents: "agents w = agents w' \<Longrightarrow> agent_core w = agent_core w'"
  by (rule ext) (simp add: agent_core_def)

lemma agent_core_audit [simp]: "agent_core (auditEvent t a ac p r d w) = agent_core w"
  by (rule agent_core_agents) simp

section \<open>A small world\<close>

text \<open>A world with default configuration and nothing in it; the examples fill in what they need.\<close>

definition agent_named :: "string \<Rightarrow> items \<Rightarrow> agent" where
  "agent_named aid its = sample_agent\<lparr>AID := aid, AInventory := its\<rparr>"

definition empty_world :: world where
  "empty_world = \<lparr>cfg = applyDefaults blank_config,
     cats = \<lparr>Blueprints = [], BlockIndex = [(''AIR'', 0), (''CLAIM_TOTEM'', 1)],
             Palette = [''AIR'', ''CLAIM_TOTEM''], ItemDefs = [''COAL''],
             LawTitles = [(''MARKET_TAX'', ''Market tax'')], BlueprintCost = [],
             BlockSolidDefs = [(''AIR'', False), (''CLAIM_TOTEM'', True)], PlaceAs = [], EdibleHP = [], Recipes = [],
             ItemKind = [], EventDefs = []\<rparr>,
     airBlock = 0, blocks = (\<lambda>_. 0), agents = [], claims = [], containers = [], trades = [], contracts = [],
     laws = [], orgs = [], nextLandNum = 0, nextTradeNum = 0, nextContractNum = 0, nextLawNum = 0,
     nextOrgNum = 0, weather = ''CLEAR'', activeEventID = [], activeEventEnds = 0,
     stats = NewWorldStats 300 72000, audits = [], itemEnts = [], itemsAt = [], conveyors = [],
     switches = [], signs = [], boards = [], structures = [], smeltByInput = [], nextItemNum = 0,
     nextTaskNum = 0, nextPostNum = 0, activeEventCenter = \<lparr>vx = 0, vy = 0, vz = 0\<rparr>, activeEventRadius = 0,
     worldTick = 0, nextAgentNum = 0, weatherUntilTick = 0, activeEventStart = 0, resetTotal = 0, actDedupe = []\<rparr>"

lemma empty_world_fields [simp]:
  "agents empty_world = []" "claims empty_world = []" "containers empty_world = []" "trades empty_world = []"
  "contracts empty_world = []" "laws empty_world = []" "orgs empty_world = []" "airBlock empty_world = 0"
  "blocks empty_world = (\<lambda>_. 0)" "activeEventID empty_world = []" "activeEventEnds empty_world = 0"
  "cfg empty_world = applyDefaults blank_config" "weather empty_world = ''CLEAR''"
  "nextTradeNum empty_world = 0" "nextLandNum empty_world = 0" "nextContractNum empty_world = 0"
  "nextLawNum empty_world = 0" "nextOrgNum empty_world = 0" "audits empty_world = []"
  "itemEnts empty_world = []" "itemsAt empty_world = []" "conveyors empty_world = []"
  "switches empty_world = []" "signs empty_world = []" "boards empty_world = []" "structures empty_world = []"
  "nextItemNum empty_world = 0" "nextTaskNum empty_world = 0" "activeEventRadius empty_world = 0"
  by (simp_all add: empty_world_def)

lemma default_config [simp]:
  "WAllowTrade (applyDefaults blank_config)" "AllowClaims (applyDefaults blank_config)"
  "AllowLaws (applyDefaults blank_config)" "DayTicks (applyDefaults blank_config) = 6000"
  "BoundaryR (applyDefaults blank_config) = 4000" "WorldID (applyDefaults blank_config) = ''OVERWORLD''"
  "WorldType (applyDefaults blank_config) = ''OVERWORLD''"
  "LawNoticeTicks (applyDefaults blank_config) = 3000" "LawVoteTicks (applyDefaults blank_config) = 3000"
  "OfferTradeMax (RateLimits (applyDefaults blank_config)) = 3"
  "OfferTradeWindowTicks (RateLimits (applyDefaults blank_config)) = 50"
  by (simp_all add: applyDefaults_def blank_config_def Let_def positive_or_def no_capability_def rate_defaults_def)

lemma agent_named_fields [simp]:
  "AInventory (agent_named aid its) = its" "AID (agent_named aid its) = aid"
  "APos (agent_named aid its) = APos sample_agent" "AOrgID (agent_named aid its) = AOrgID sample_agent"
  "RepTrade (agent_named aid its) = RepTrade sample_agent"
  by (simp_all add: agent_named_def)

end
