(* ===== verification/Contract_Rules.thy ===== *)
theory Contract_Rules
  imports World_Model
begin

text \<open>
  The rules of contracts that need no world state: kinds, the decision of the contract tick and its
  settlement plan (\<open>feature/contracts/core\<close>), deadlines and deposits (\<open>lifecycle\<close>), the input checks
  (\<open>validation\<close>), reputation amounts (\<open>reputation\<close>), summaries and payout targets (\<open>runtime\<close>) and the
  audit records (\<open>audit\<close>).
\<close>

section \<open>Kinds, decisions, settlement\<close>

definition NormalizeKind :: "string \<Rightarrow> string" where
  "NormalizeKind k0 =
     (let k = trim_space (to_upper k0)
      in if k \<in> {''GATHER'', ''DELIVER'', ''BUILD''} then k else [])"

record summary_input =
  SContractID :: string
  SState :: string
  SKind :: string
  SPoster :: string
  SAcceptor :: string
  SDeadlineTick :: u64

definition BuildSummaries :: "summary_input list \<Rightarrow> event list" where
  "BuildSummaries ins =
     map (\<lambda>c. [(''contract_id'', JStr (SContractID c)), (''state'', JStr (SState c)), (''kind'', JStr (SKind c)),
              (''poster'', JStr (SPoster c)), (''acceptor'', JStr (SAcceptor c)),
              (''deadline_tick'', JU64 (SDeadlineTick c))])
       (sort_key SContractID ins)"

definition BuildTerminalSummaries :: "vec3 \<Rightarrow> contract list \<Rightarrow> event list" where
  "BuildTerminalSummaries pos cs =
     BuildSummaries (map (\<lambda>c. \<lparr>SContractID = ContractID c, SState = state_string (CState c), SKind = Kind c,
         SPoster = Poster c, SAcceptor = Acceptor c, SDeadlineTick = DeadlineTick c\<rparr>)
       (filter (\<lambda>c. TerminalPos c = pos) cs))"

datatype tick_decision = DecisionNoop | DecisionFailMissingTarget | DecisionExpireOpen
  | DecisionTimeoutAccepted | DecisionCompleteDeliver | DecisionCompleteBuild

record tick_input =
  TState :: contract_state
  TKind :: string
  TNowTick :: u64
  TDeadlineTick :: u64
  HasTerminal :: bool
  RequirementsOK :: bool
  BuildPlaced :: bool
  BuildStable :: bool

definition DecideTick :: "tick_input \<Rightarrow> tick_decision" where
  "DecideTick ti =
     (if TState ti \<noteq> ContractOpen \<and> TState ti \<noteq> ContractAccepted then DecisionNoop
      else if \<not> HasTerminal ti then DecisionFailMissingTarget
      else if TState ti = ContractOpen then
        (if TNowTick ti > TDeadlineTick ti then DecisionExpireOpen else DecisionNoop)
      else if TNowTick ti > TDeadlineTick ti then DecisionTimeoutAccepted
      else if TKind ti = ''GATHER'' \<or> TKind ti = ''DELIVER'' then
        (if RequirementsOK ti then DecisionCompleteDeliver else DecisionNoop)
      else if TKind ti = ''BUILD'' then
        (if BuildPlaced ti \<and> BuildStable ti then DecisionCompleteBuild else DecisionNoop)
      else DecisionNoop)"

datatype payout_target = PayoutNone | PayoutPoster | PayoutAcceptor

record settlement_plan =
  MarkFailed :: bool
  MarkCompleted :: bool
  ConsumeRequirements :: bool
  RequirementsToPoster :: bool
  RewardTo :: payout_target
  DepositTo :: payout_target
  PenalizeAcceptorLaw :: bool
  AuditReason :: string

definition empty_plan :: settlement_plan where
  "empty_plan = \<lparr>MarkFailed = False, MarkCompleted = False, ConsumeRequirements = False,
     RequirementsToPoster = False, RewardTo = PayoutNone, DepositTo = PayoutNone,
     PenalizeAcceptorLaw = False, AuditReason = []\<rparr>"

fun PlanSettlement :: "tick_decision \<Rightarrow> settlement_plan" where
  "PlanSettlement DecisionFailMissingTarget = empty_plan\<lparr>MarkFailed := True\<rparr>"
| "PlanSettlement DecisionExpireOpen =
     empty_plan\<lparr>MarkFailed := True, RewardTo := PayoutPoster, AuditReason := ''CONTRACT_TIMEOUT''\<rparr>"
| "PlanSettlement DecisionTimeoutAccepted =
     empty_plan\<lparr>MarkFailed := True, RewardTo := PayoutPoster, DepositTo := PayoutPoster,
       PenalizeAcceptorLaw := True, AuditReason := ''CONTRACT_TIMEOUT''\<rparr>"
| "PlanSettlement DecisionCompleteDeliver =
     empty_plan\<lparr>MarkCompleted := True, ConsumeRequirements := True, RequirementsToPoster := True,
       RewardTo := PayoutAcceptor, DepositTo := PayoutAcceptor, AuditReason := ''AUTO_COMPLETE''\<rparr>"
| "PlanSettlement DecisionCompleteBuild =
     empty_plan\<lparr>MarkCompleted := True, RewardTo := PayoutAcceptor, DepositTo := PayoutAcceptor,
       AuditReason := ''AUTO_COMPLETE''\<rparr>"
| "PlanSettlement DecisionNoop = empty_plan"

definition PayoutAgent :: "string \<Rightarrow> string \<Rightarrow> payout_target \<Rightarrow> string" where
  "PayoutAgent poster acceptor target =
     (case target of PayoutPoster \<Rightarrow> poster | PayoutAcceptor \<Rightarrow> acceptor | PayoutNone \<Rightarrow> [])"

section \<open>Deadlines and deposits\<close>

definition BuildDeadline :: "u64 \<Rightarrow> u64 \<Rightarrow> int \<Rightarrow> int \<Rightarrow> u64" where
  "BuildDeadline nowTick explicitDeadline durationTicks dayTicks =
     (if explicitDeadline \<noteq> 0 then explicitDeadline
      else
        let dur = (if durationTicks \<le> 0 then dayTicks else durationTicks);
            dur = (if dur < 0 then 0 else dur)
        in nowTick + word_of_int dur)"

definition ValidatePostInput :: "string \<Rightarrow> items \<Rightarrow> items \<Rightarrow> verdict" where
  "ValidatePostInput kind requirements reward =
     (if reward = [] then refuse ''E_BAD_REQUEST'' ''missing reward''
      else if kind \<noteq> ''BUILD'' \<and> requirements = [] then refuse ''E_BAD_REQUEST'' ''missing requirements''
      else accept)"

definition ScaleDeposit :: "items \<Rightarrow> int \<Rightarrow> items" where
  "ScaleDeposit base multiplier =
     (if base = [] then []
      else if multiplier \<le> 1 then
        for_items (\<lambda>item n out. if item = [] \<or> n \<le> 0 then out else mput item n out) base []
      else
        for_items (\<lambda>item n out. if item = [] \<or> n \<le> 0 then out else mput item (i64 (n * multiplier)) out) base [])"

definition CanSubmit :: "string \<Rightarrow> bool \<Rightarrow> bool \<Rightarrow> bool" where
  "CanSubmit kind requirementsOK buildOK =
     (if kind = ''GATHER'' \<or> kind = ''DELIVER'' then requirementsOK
      else if kind = ''BUILD'' then buildOK
      else False)"

definition NeedsRequirementsConsumption :: "string \<Rightarrow> bool" where
  "NeedsRequirementsConsumption kind \<longleftrightarrow> kind = ''GATHER'' \<or> kind = ''DELIVER''"

section \<open>Reputation amounts\<close>

definition TradeCreditDelta :: "int \<times> int" where
  "TradeCreditDelta = (6, 2)"

definition BuildCreditDelta :: int where
  "BuildCreditDelta = 6"

definition DepositMultiplier :: "int \<Rightarrow> int" where
  "DepositMultiplier repTrade = (if repTrade \<ge> 500 then 1 else if repTrade \<ge> 300 then 2 else 3)"

definition LawPenaltyDelta :: "string \<Rightarrow> int \<times> int" where
  "LawPenaltyDelta reason = (if reason = ''CONTRACT_TIMEOUT'' then (-12, -8) else (0, -4))"

definition HasAvailable :: "items \<Rightarrow> (string \<Rightarrow> int) \<Rightarrow> bool" where
  "HasAvailable req available \<longleftrightarrow> (req = [] \<or> (\<forall>(item, n) \<in> set req. \<not> available item < n))"

section \<open>Input checks\<close>

record post_validation =
  PVTerminalID :: string
  PVHasTerminal :: bool
  PVDistance :: int
  PVKind :: string
  PVRequirements :: items
  PVReward :: items
  PVIsBuild :: bool
  PVBlueprintID :: string
  PVHasEnoughReward :: bool

definition ValidatePost :: "post_validation \<Rightarrow> verdict" where
  "ValidatePost v =
     (if PVTerminalID v = [] then refuse ''E_BAD_REQUEST'' ''missing terminal_id''
      else if \<not> PVHasTerminal v then refuse ''E_INVALID_TARGET'' ''contract terminal not found''
      else if PVDistance v > 3 then refuse ''E_BLOCKED'' ''too far''
      else if PVKind v = [] then refuse ''E_BAD_REQUEST'' ''bad contract_kind''
      else
        let r = ValidatePostInput (PVKind v) (PVRequirements v) (PVReward v)
        in if \<not> fst r then r
           else if PVIsBuild v \<and> PVBlueprintID v = [] then refuse ''E_BAD_REQUEST'' ''missing blueprint_id''
           else if \<not> PVHasEnoughReward v then refuse ''E_NO_RESOURCE'' ''insufficient reward items''
           else accept)"

record accept_validation =
  AVHasContract :: bool
  AVState :: "contract_state option"
  AVTerminalMatch :: bool
  AVDistance :: int
  AVNowTick :: u64
  AVDeadlineTick :: u64
  AVHasEnoughDeposit :: bool

definition ValidateAccept :: "accept_validation \<Rightarrow> verdict" where
  "ValidateAccept v =
     (if \<not> AVHasContract v then refuse ''E_INVALID_TARGET'' ''contract not found''
      else if AVState v \<noteq> Some ContractOpen then refuse ''E_CONFLICT'' ''contract not open''
      else if \<not> AVTerminalMatch v then refuse ''E_INVALID_TARGET'' ''terminal mismatch''
      else if AVDistance v > 3 then refuse ''E_BLOCKED'' ''too far''
      else if AVNowTick v > AVDeadlineTick v then refuse ''E_CONFLICT'' ''contract expired''
      else if \<not> AVHasEnoughDeposit v then refuse ''E_NO_RESOURCE'' ''insufficient deposit''
      else accept)"

record submit_validation =
  SVHasContract :: bool
  SVState :: "contract_state option"
  SVIsAcceptor :: bool
  SVTerminalMatch :: bool
  SVDistance :: int
  SVNowTick :: u64
  SVDeadlineTick :: u64
  SVCanSubmit :: bool

definition ValidateSubmit :: "submit_validation \<Rightarrow> verdict" where
  "ValidateSubmit v =
     (if \<not> SVHasContract v then refuse ''E_INVALID_TARGET'' ''contract not found''
      else if SVState v \<noteq> Some ContractAccepted \<or> \<not> SVIsAcceptor v then refuse ''E_NO_PERMISSION'' ''not acceptor''
      else if \<not> SVTerminalMatch v then refuse ''E_INVALID_TARGET'' ''terminal mismatch''
      else if SVDistance v > 3 then refuse ''E_BLOCKED'' ''too far''
      else if SVNowTick v > SVDeadlineTick v then refuse ''E_CONFLICT'' ''contract expired''
      else if \<not> SVCanSubmit v then refuse ''E_BLOCKED'' ''requirements not met''
      else accept)"

definition ValidateLifecycleIDs :: "string \<Rightarrow> string \<Rightarrow> verdict" where
  "ValidateLifecycleIDs contractID terminalID =
     (if trim_space contractID = [] \<or> trim_space terminalID = []
      then refuse ''E_BAD_REQUEST'' ''missing contract_id/terminal_id'' else accept)"

text \<open>\<open>PreparePost\<close>: the checks' input, the resolved kind and the deadline.\<close>

definition PreparePost ::
  "string \<Rightarrow> string \<Rightarrow> int \<Rightarrow> string \<Rightarrow> items \<Rightarrow> items \<Rightarrow> string \<Rightarrow> bool \<Rightarrow> u64 \<Rightarrow> u64 \<Rightarrow> int \<Rightarrow> int
     \<Rightarrow> post_validation \<times> string \<times> u64" where
  "PreparePost terminalID terminalType distance kind0 requirements reward blueprintID hasEnough
       nowTick deadlineTick durationTicks dayTicks =
     (let kind = NormalizeKind kind0
      in (\<lparr>PVTerminalID = terminalID, PVHasTerminal = (terminalType = ''CONTRACT_TERMINAL''),
           PVDistance = distance, PVKind = kind, PVRequirements = requirements, PVReward = reward,
           PVIsBuild = (kind = ''BUILD''), PVBlueprintID = blueprintID, PVHasEnoughReward = hasEnough\<rparr>,
          kind, BuildDeadline nowTick deadlineTick durationTicks dayTicks))"

text \<open>\<open>PrepareAccept\<close>: the checks' input and the deposit asked of this acceptor.\<close>

definition PrepareAccept ::
  "contract_state option \<Rightarrow> string \<Rightarrow> bool \<Rightarrow> int \<Rightarrow> u64 \<Rightarrow> u64 \<Rightarrow> items \<Rightarrow> int \<Rightarrow> items \<Rightarrow> accept_validation \<times> items" where
  "PrepareAccept state terminalType terminalMatches distance nowTick deadlineTick baseDeposit depositMult have =
     (let required = (if state \<noteq> None then ScaleDeposit baseDeposit depositMult else []);
          hasEnough = (state = None \<or> (\<forall>(item, n) \<in> set required. \<not> cnt have item < n))
      in (\<lparr>AVHasContract = (state \<noteq> None), AVState = state,
           AVTerminalMatch = (terminalType = ''CONTRACT_TERMINAL'' \<and> terminalMatches),
           AVDistance = distance, AVNowTick = nowTick, AVDeadlineTick = deadlineTick,
           AVHasEnoughDeposit = hasEnough\<rparr>, required))"

definition PrepareSubmitValidation ::
  "contract_state option \<Rightarrow> bool \<Rightarrow> string \<Rightarrow> bool \<Rightarrow> int \<Rightarrow> u64 \<Rightarrow> u64 \<Rightarrow> string \<Rightarrow> bool \<Rightarrow> bool \<Rightarrow> submit_validation" where
  "PrepareSubmitValidation state isAcceptor terminalType terminalMatches distance nowTick deadlineTick
       kind requirementsOK buildOK =
     \<lparr>SVHasContract = (state \<noteq> None), SVState = state, SVIsAcceptor = isAcceptor,
      SVTerminalMatch = (terminalType = ''CONTRACT_TERMINAL'' \<and> terminalMatches),
      SVDistance = distance, SVNowTick = nowTick, SVDeadlineTick = deadlineTick,
      SVCanSubmit = CanSubmit kind requirementsOK buildOK\<rparr>"

text \<open>
  \<open>BuildTerminalContext\<close> (\<open>feature/contracts/instants/instants.go\<close>), called for an existing terminal.
\<close>

definition BuildTerminalContext :: "bool \<Rightarrow> string \<Rightarrow> vec3 \<Rightarrow> vec3 \<Rightarrow> vec3 \<Rightarrow> string \<times> int \<times> bool" where
  "BuildTerminalContext hasTerminal terminalType terminalPos expectedPos agentPos =
     (if \<not> hasTerminal then ([], 0, False)
      else (terminalType, Manhattan agentPos terminalPos, terminalPos = expectedPos))"

section \<open>Audit records\<close>

definition BuildPostAuditFields :: "contract \<Rightarrow> string \<Rightarrow> event" where
  "BuildPostAuditFields c terminalID =
     [(''contract_id'', JStr (ContractID c)), (''terminal_id'', JStr terminalID), (''kind'', JStr (Kind c)),
      (''requirements'', JPairs (EncodeItemPairs (Requirements c))),
      (''reward'', JPairs (EncodeItemPairs (Reward c))), (''deposit'', JPairs (EncodeItemPairs (Deposit c))),
      (''deadline_tick'', JU64 (DeadlineTick c)), (''blueprint_id'', JStr (BlueprintID c)),
      (''anchor'', JPos (vx (CAnchor c)) (vy (CAnchor c)) (vz (CAnchor c))), (''rotation'', JInt (Rotation c))]"

definition BuildAcceptAuditFields :: "contract \<Rightarrow> string \<Rightarrow> event" where
  "BuildAcceptAuditFields c terminalID =
     [(''contract_id'', JStr (ContractID c)), (''terminal_id'', JStr terminalID), (''kind'', JStr (Kind c)),
      (''poster'', JStr (Poster c)), (''acceptor'', JStr (Acceptor c)),
      (''deposit'', JPairs (EncodeItemPairs (Deposit c)))]"

definition BuildSubmitAuditFields :: "contract \<Rightarrow> string \<Rightarrow> event" where
  "BuildSubmitAuditFields c terminalID =
     [(''contract_id'', JStr (ContractID c)), (''terminal_id'', JStr terminalID), (''kind'', JStr (Kind c)),
      (''poster'', JStr (Poster c)), (''acceptor'', JStr (Acceptor c))]"

record tick_audit =
  ShouldAudit :: bool
  EventType :: string
  TActor :: string
  TReason :: string
  Fields :: event
  GrantTradeCredit :: bool
  GrantBuildCredit :: bool

text \<open>The fields every tick audit has; the code builds one literal map per decision.\<close>

definition tick_audit_base :: "contract \<Rightarrow> event" where
  "tick_audit_base c =
     [(''contract_id'', JStr (ContractID c)), (''kind'', JStr (Kind c)), (''poster'', JStr (Poster c)),
      (''acceptor'', JStr (Acceptor c)), (''state'', JStr (state_string (CState c)))]"

definition BuildTickAudit :: "tick_decision \<Rightarrow> string \<Rightarrow> contract \<Rightarrow> tick_audit" where
  "BuildTickAudit decision reason c =
     (let reward = (''reward'', JPairs (EncodeItemPairs (Reward c)));
          deposit = (''deposit'', JPairs (EncodeItemPairs (Deposit c)));
          requirements = (''requirements'', JPairs (EncodeItemPairs (Requirements c)));
          build = [(''blueprint_id'', JStr (BlueprintID c)),
                   (''anchor'', JPos (vx (CAnchor c)) (vy (CAnchor c)) (vz (CAnchor c))),
                   (''rotation'', JInt (Rotation c))];
          out = \<lparr>ShouldAudit = True, EventType = [], TActor = ''WORLD'', TReason = reason, Fields = [],
                 GrantTradeCredit = False, GrantBuildCredit = False\<rparr>
      in case decision of
           DecisionExpireOpen \<Rightarrow>
             out\<lparr>EventType := ''CONTRACT_EXPIRE'', Fields := tick_audit_base c @ [reward]\<rparr>
         | DecisionTimeoutAccepted \<Rightarrow>
             out\<lparr>EventType := ''CONTRACT_FAIL'', Fields := tick_audit_base c @ [reward, deposit]\<rparr>
         | DecisionCompleteDeliver \<Rightarrow>
             out\<lparr>EventType := ''CONTRACT_COMPLETE'', TActor := Acceptor c, GrantTradeCredit := True,
                 Fields := tick_audit_base c @ [requirements, reward, deposit]\<rparr>
         | DecisionCompleteBuild \<Rightarrow>
             out\<lparr>EventType := ''CONTRACT_COMPLETE'', TActor := Acceptor c, GrantBuildCredit := True,
                 Fields := tick_audit_base c @ build @ [reward, deposit]\<rparr>
         | _ \<Rightarrow> out\<lparr>ShouldAudit := False, TActor := [], TReason := []\<rparr>)"

end
