(* ===== verification/Trade_Model.thy ===== *)
theory Trade_Model
  imports World_Model
begin

text \<open>
  Trading between agents: the three trade instants (\<open>feature/economy/instants/trade_handlers.go\<close>) with
  their input checks (\<open>instants.go\<close>), the environment the world gives them
  (\<open>instants_adapter_factory.go\<close>: market tax and its receiver) and the completion hook
  (\<open>instants_economy_handlers.go\<close>: audit, reputation, statistics, fun score, world-event goals).
\<close>

section \<open>The inventories of the world\<close>

text \<open>
  The item maps a trade may touch: an agent's inventory, or the treasury an organization has in this
  world.  The treasury is the map \<open>TreasuryFor\<close> returns, created and seeded on first use.
\<close>

datatype inv_ref = AgentInv string | TreasuryInv string

definition upd_org :: "string \<Rightarrow> (organization \<Rightarrow> organization) \<Rightarrow> world \<Rightarrow> world" where
  "upd_org oid f w =
     (case map_of (orgs w) oid of
        None \<Rightarrow> w
      | Some ob \<Rightarrow> w\<lparr>orgs := mput oid (f ob) (orgs w)\<rparr>)"

definition orgTreasury :: "string \<Rightarrow> world \<Rightarrow> world" where
  "orgTreasury oid w = upd_org oid (TreasuryFor (WorldID (cfg w))) w"

fun get_inv :: "inv_ref \<Rightarrow> world \<Rightarrow> items" where
  "get_inv (AgentInv aid) w =
     (case map_of (agents w) aid of None \<Rightarrow> [] | Some a \<Rightarrow> AInventory a)"
| "get_inv (TreasuryInv oid) w =
     (case map_of (orgs w) oid of
        None \<Rightarrow> []
      | Some ob \<Rightarrow> treasury_of (WorldID (cfg w)) (TreasuryFor (WorldID (cfg w)) ob))"

fun put_inv :: "inv_ref \<Rightarrow> items \<Rightarrow> world \<Rightarrow> world" where
  "put_inv (AgentInv aid) m w = upd_agent aid (\<lambda>a. a\<lparr>AInventory := m\<rparr>) w"
| "put_inv (TreasuryInv oid) m w =
     upd_org oid (\<lambda>ob. set_treasury (WorldID (cfg w)) m (TreasuryFor (WorldID (cfg w)) ob)) w"

section \<open>Input checks\<close>

definition ValidateOfferTradeInput :: "bool \<Rightarrow> string \<Rightarrow> verdict" where
  "ValidateOfferTradeInput allowTrade toID =
     (if \<not> allowTrade then refuse ''E_NO_PERMISSION'' ''trade disabled in this world''
      else if trim_space toID = [] then refuse ''E_BAD_REQUEST'' ''missing to''
      else accept)"

definition ValidateTradeLifecycleInput :: "bool \<Rightarrow> string \<Rightarrow> verdict" where
  "ValidateTradeLifecycleInput allowTrade tradeID =
     (if \<not> allowTrade then refuse ''E_NO_PERMISSION'' ''trade disabled in this world''
      else if trim_space tradeID = [] then refuse ''E_BAD_REQUEST'' ''missing trade_id''
      else accept)"

definition ValidateTradeOfferPairs :: "string + items \<Rightarrow> string + items \<Rightarrow> verdict" where
  "ValidateTradeOfferPairs offer req =
     (if (case offer of Inl _ \<Rightarrow> True | Inr m \<Rightarrow> m = []) then refuse ''E_BAD_REQUEST'' ''bad offer''
      else if (case req of Inl _ \<Rightarrow> True | Inr m \<Rightarrow> m = []) then refuse ''E_BAD_REQUEST'' ''bad request''
      else accept)"

section \<open>The market tax of a trade\<close>

record tax_resolution =
  TaxRate :: real
  TaxSink :: "inv_ref option"
  TaxLandID :: string
  TaxTo :: string

definition no_tax :: tax_resolution where
  "no_tax = \<lparr>TaxRate = 0, TaxSink = None, TaxLandID = [], TaxTo = []\<rparr>"

text \<open>
  The resolution and the world after it: asking for an organization's treasury creates it.
\<close>

definition ResolveTradeTax :: "string \<Rightarrow> string \<Rightarrow> u64 \<Rightarrow> world \<Rightarrow> tax_resolution \<times> world" where
  "ResolveTradeTax fromID toID nowTick w =
     (case (map_of (agents w) fromID, map_of (agents w) toID) of
        (Some from_a, Some to_a) \<Rightarrow>
          (case (fst (permissionsFor w fromID (APos from_a)), fst (permissionsFor w toID (APos to_a))) of
             (Some landFrom, Some landTo) \<Rightarrow>
               let rate = EffectiveMarketTax (MarketTax landFrom) (LandID landFrom = LandID landTo)
                            (activeEventID w) nowTick (activeEventEnds w)
               in if rate \<le> 0 \<or> Owner landFrom = [] then (no_tax\<lparr>TaxRate := rate\<rparr>, w)
                  else
                    let res = \<lparr>TaxRate = rate, TaxSink = None, TaxLandID = LandID landFrom, TaxTo = Owner landFrom\<rparr>
                    in if map_of (agents w) (Owner landFrom) \<noteq> None
                       then (res\<lparr>TaxSink := Some (AgentInv (Owner landFrom))\<rparr>, w)
                       else if orgByID w (Owner landFrom) \<noteq> None
                       then (res\<lparr>TaxSink := Some (TreasuryInv (Owner landFrom))\<rparr>, orgTreasury (Owner landFrom) w)
                       else (res, w)
           | _ \<Rightarrow> (no_tax, w))
      | _ \<Rightarrow> (no_tax, w))"

section \<open>Handlers\<close>

definition HandleOfferTrade :: "string \<Rightarrow> instant \<Rightarrow> u64 \<Rightarrow> world \<Rightarrow> world" where
  "HandleOfferTrade aid inst nowTick w =
     (case map_of (agents w) aid of
        None \<Rightarrow> w
      | Some a \<Rightarrow>
          let v = ValidateOfferTradeInput (WAllowTrade (cfg w)) (InstTo inst)
          in if \<not> fst v then reply_verdict aid nowTick (InstID inst) v w
             else
               (case RateLimitAllow ''OFFER_TRADE'' nowTick
                       (word_of_int (OfferTradeWindowTicks (RateLimits (cfg w))))
                       (OfferTradeMax (RateLimits (cfg w))) a of
                  (ok, cd, a') \<Rightarrow>
                    let w = upd_agent aid (\<lambda>_. a') w
                    in if \<not> ok then
                         emit aid (actionResult nowTick (InstID inst) False ''E_RATE_LIMIT'' ''too many OFFER_TRADE''
                                   @ [(''cooldown_ticks'', JU64 cd), (''cooldown_until_tick'', JU64 (nowTick + cd))]) w
                       else if \<not> CanTrade (snd (permissionsFor w aid (APos a'))) then
                         reply aid nowTick (InstID inst) False ''E_NO_PERMISSION'' ''trade not allowed here'' w
                       else if map_of (agents w) (InstTo inst) = None then
                         reply aid nowTick (InstID inst) False ''E_INVALID_TARGET'' ''target not found'' w
                       else
                         let offer = ParseItemPairs (InstOffer inst);
                             req = ParseItemPairs (InstRequest inst);
                             v = ValidateTradeOfferPairs offer req
                         in (case (offer, req) of
                               (Inr off, Inr rq) \<Rightarrow>
                                 if \<not> fst v then reply_verdict aid nowTick (InstID inst) v w
                                 else
                                   (case newTradeID w of
                                      (tradeID, w) \<Rightarrow>
                                        let w = w\<lparr>trades := mput tradeID
                                                    \<lparr>TradeID = tradeID, TFrom = aid, TTo = InstTo inst, Offer = off,
                                                     Request = rq, TCreatedTick = nowTick\<rparr> (trades w)\<rparr>;
                                            w = emit (InstTo inst)
                                                  [(''t'', JU64 nowTick), (''type'', JStr ''TRADE_OFFER''),
                                                   (''trade_id'', JStr tradeID), (''from'', JStr aid),
                                                   (''offer'', JPairs (EncodeItemPairs off)),
                                                   (''request'', JPairs (EncodeItemPairs rq))] w
                                        in emit aid [(''t'', JU64 nowTick), (''type'', JStr ''ACTION_RESULT''),
                                                     (''ref'', JStr (InstID inst)), (''ok'', JBool True),
                                                     (''trade_id'', JStr tradeID)] w)
                             | _ \<Rightarrow> reply_verdict aid nowTick (InstID inst) v w)))"

definition HandleDeclineTrade :: "string \<Rightarrow> instant \<Rightarrow> u64 \<Rightarrow> world \<Rightarrow> world" where
  "HandleDeclineTrade aid inst nowTick w =
     (let v = ValidateTradeLifecycleInput (WAllowTrade (cfg w)) (InstTradeID inst)
      in if \<not> fst v then reply_verdict aid nowTick (InstID inst) v w
         else case map_of (trades w) (InstTradeID inst) of
                None \<Rightarrow> reply aid nowTick (InstID inst) False ''E_INVALID_TARGET'' ''trade not found'' w
              | Some tr \<Rightarrow>
                  if TTo tr \<noteq> aid then
                    reply aid nowTick (InstID inst) False ''E_NO_PERMISSION'' ''not your trade'' w
                  else
                    let w = w\<lparr>trades := mdel (InstTradeID inst) (trades w)\<rparr>;
                        w = emit (TFrom tr) [(''t'', JU64 nowTick), (''type'', JStr ''TRADE_DECLINED''),
                              (''trade_id'', JStr (TradeID tr)), (''by'', JStr aid)] w
                    in reply aid nowTick (InstID inst) True [] ''declined'' w)"

text \<open>The hook that runs when a trade has gone through.\<close>

definition market_week_goal :: "go_floats \<Rightarrow> string \<Rightarrow> string \<Rightarrow> u64 \<Rightarrow> world \<Rightarrow> world" where
  "market_week_goal fl fromID toID nowTick w =
     (if activeEventID w = ''MARKET_WEEK'' \<and> event_running w nowTick then
        let w = upd_agent fromID (funOnWorldEventParticipation (activeEventID w) nowTick) w;
            w = upd_agent toID (funOnWorldEventParticipation (activeEventID w) nowTick) w;
            w = upd_agent fromID (award fl w nowTick ''NARRATIVE'' ''market_week_trade''
                  ''narrative:market_week_trade'' 5) w;
            w = upd_agent toID (award fl w nowTick ''NARRATIVE'' ''market_week_trade''
                  ''narrative:market_week_trade'' 5) w;
            goal = [(''t'', JU64 nowTick), (''type'', JStr ''EVENT_GOAL''),
                    (''event_id'', JStr (activeEventID w)), (''kind'', JStr ''TRADE'')]
        in emit toID goal (emit fromID goal w)
      else w)"

definition trade_completed ::
  "go_floats \<Rightarrow> trade \<Rightarrow> string \<Rightarrow> tax_resolution \<Rightarrow> u64 \<Rightarrow> world \<Rightarrow> world" where
  "trade_completed fl tr aid tax nowTick w =
     (let vOffer = TradeValue (Offer tr) (Some ItemTradeValue);
          vReq = TradeValue (Request tr) (Some ItemTradeValue);
          mutualOK = TradeMutualBenefit vOffer vReq;
          w = auditEvent nowTick aid ''TRADE'' \<lparr>vx = 0, vy = 0, vz = 0\<rparr> ''ACCEPT_TRADE''
                [(''trade_id'', JStr (TradeID tr)), (''from'', JStr (TFrom tr)), (''to'', JStr (TTo tr)),
                 (''offer'', JPairs (EncodeItemPairs (Offer tr))),
                 (''request'', JPairs (EncodeItemPairs (Request tr))),
                 (''value_offer'', JInt vOffer), (''value_request'', JInt vReq),
                 (''mutual_benefit'', JBool mutualOK), (''tax_rate'', JReal (TaxRate tax)),
                 (''tax_paid_off'', JPairs (EncodeItemPairs (CalcTax (mul_trunc fl) (Offer tr) (TaxRate tax)))),
                 (''tax_paid_req'', JPairs (EncodeItemPairs (CalcTax (mul_trunc fl) (Request tr) (TaxRate tax)))),
                 (''land_id'', JStr (TaxLandID tax)), (''tax_to'', JStr (TaxTo tax))] w;
          w = bumpRepTrade aid 2 (bumpRepTrade (TFrom tr) 2 w);
          w = (if mutualOK then bumpRepSocial aid 1 (bumpRepSocial (TFrom tr) 1 w) else w);
          w = w\<lparr>stats := RecordTrade nowTick (stats w)\<rparr>
      in if \<not> mutualOK then w
         else
           let w = upd_agent (TFrom tr) (funOnTrade fl w nowTick) w;
               w = upd_agent aid (funOnTrade fl w nowTick) w
           in market_week_goal fl (TFrom tr) aid nowTick w)"

definition HandleAcceptTrade :: "go_floats \<Rightarrow> string \<Rightarrow> instant \<Rightarrow> u64 \<Rightarrow> world \<Rightarrow> world" where
  "HandleAcceptTrade fl aid inst nowTick w =
     (case map_of (agents w) aid of
        None \<Rightarrow> w
      | Some a \<Rightarrow>
          let v = ValidateTradeLifecycleInput (WAllowTrade (cfg w)) (InstTradeID inst)
          in if \<not> fst v then reply_verdict aid nowTick (InstID inst) v w
             else case map_of (trades w) (InstTradeID inst) of
                    None \<Rightarrow> reply aid nowTick (InstID inst) False ''E_INVALID_TARGET'' ''trade not found'' w
                  | Some tr \<Rightarrow>
                      if TTo tr \<noteq> aid then
                        reply aid nowTick (InstID inst) False ''E_NO_PERMISSION'' ''not your trade'' w
                      else
                        (case map_of (agents w) (TFrom tr) of
                           None \<Rightarrow>
                             reply aid nowTick (InstID inst) False ''E_INVALID_TARGET'' ''trader offline''
                               (w\<lparr>trades := mdel (InstTradeID inst) (trades w)\<rparr>)
                         | Some from_a \<Rightarrow>
                             if \<not> CanTrade (snd (permissionsFor w (TFrom tr) (APos from_a))) \<or>
                                \<not> CanTrade (snd (permissionsFor w aid (APos a))) then
                               reply aid nowTick (InstID inst) False ''E_NO_PERMISSION'' ''trade not allowed here'' w
                             else if \<not> HasItems (AInventory from_a) (Offer tr) \<or> \<not> HasItems (AInventory a) (Request tr) then
                               reply aid nowTick (InstID inst) False ''E_NO_RESOURCE'' ''missing items'' w
                             else
                               (case ResolveTradeTax (TFrom tr) aid nowTick w of
                                  (tax, w) \<Rightarrow>
                                    let w = ApplyTransferWithTax (mul_trunc fl) get_inv put_inv
                                              (AgentInv (TFrom tr)) (AgentInv aid) (Offer tr) (TaxSink tax) (TaxRate tax) w;
                                        w = ApplyTransferWithTax (mul_trunc fl) get_inv put_inv
                                              (AgentInv aid) (AgentInv (TFrom tr)) (Request tr) (TaxSink tax) (TaxRate tax) w;
                                        w = w\<lparr>trades := mdel (InstTradeID inst) (trades w)\<rparr>;
                                        w = trade_completed fl tr aid tax nowTick w;
                                        w = emit (TFrom tr) [(''t'', JU64 nowTick), (''type'', JStr ''TRADE_DONE''),
                                              (''trade_id'', JStr (TradeID tr)), (''with'', JStr aid)] w;
                                        w = emit aid [(''t'', JU64 nowTick), (''type'', JStr ''TRADE_DONE''),
                                              (''trade_id'', JStr (TradeID tr)), (''with'', JStr (TFrom tr))] w
                                    in reply aid nowTick (InstID inst) True [] ''ok'' w)))"

section \<open>The world is an inventory store\<close>

fun valid_inv :: "inv_ref \<Rightarrow> world \<Rightarrow> bool" where
  "valid_inv (AgentInv aid) w \<longleftrightarrow> map_of (agents w) aid \<noteq> None"
| "valid_inv (TreasuryInv oid) w \<longleftrightarrow> map_of (orgs w) oid \<noteq> None"

lemma map_of_upd_org [gomap]:
  "map_of (orgs (upd_org oid f w)) b =
    (if b = oid then map_option f (map_of (orgs w) oid) else map_of (orgs w) b)"
  by (auto simp: upd_org_def gomap split: option.split)

lemma upd_org_fields [simp]:
  "agents (upd_org oid f w) = agents w" "claims (upd_org oid f w) = claims w" "cfg (upd_org oid f w) = cfg w"
  "containers (upd_org oid f w) = containers w" "contracts (upd_org oid f w) = contracts w"
  "laws (upd_org oid f w) = laws w" "trades (upd_org oid f w) = trades w"
  "activeEventID (upd_org oid f w) = activeEventID w" "activeEventEnds (upd_org oid f w) = activeEventEnds w"
  "stats (upd_org oid f w) = stats w" "weather (upd_org oid f w) = weather w"
  by (simp_all add: upd_org_def split: option.splits)

lemma treasury_set_get:
  "treasury_of v (TreasuryFor v (set_treasury v m (TreasuryFor v ob))) = m"
  by (rule treasury_of_TreasuryFor_known) (simp add: set_treasury_def gomap)

interpretation inv: inventory_store get_inv put_inv valid_inv
proof unfold_locales
  show "get_inv r (put_inv r m w) = m" if "valid_inv r w" for r m w
    using that by (cases r) (auto simp: gomap treasury_set_get split: option.split)
  show "get_inv q (put_inv r m w) = get_inv q w" if "q \<noteq> r" for q r m w
    using that by (cases q; cases r) (auto simp: gomap split: option.split)
  show "valid_inv q (put_inv r m w) = valid_inv q w" for q r m w
    by (cases q; cases r) (auto simp: gomap)
qed

text \<open>Operations that leave every inventory alone.\<close>

definition same_items :: "world \<Rightarrow> world \<Rightarrow> bool" where
  "same_items w w' \<longleftrightarrow> (\<forall>r. get_inv r w' = get_inv r w) \<and> (\<forall>r. valid_inv r w' = valid_inv r w)"

lemma same_items_refl [simp]: "same_items w w"
  by (simp add: same_items_def)

lemma same_items_trans: "same_items u v \<Longrightarrow> same_items v w \<Longrightarrow> same_items u w"
  by (simp add: same_items_def)

lemma same_items_eq:
  assumes "agents w' = agents w" and "orgs w' = orgs w" and "cfg w' = cfg w"
  shows "same_items w w'"
proof -
  have "get_inv r w' = get_inv r w \<and> valid_inv r w' = valid_inv r w" for r
    using assms by (cases r) (simp_all split: option.split)
  then show ?thesis by (simp add: same_items_def)
qed

lemma same_items_upd:
  assumes "\<And>a. AInventory (f a) = AInventory a"
  shows "same_items w (upd_agent aid f w)"
proof -
  have "get_inv r (upd_agent aid f w) = get_inv r w \<and> valid_inv r (upd_agent aid f w) = valid_inv r w" for r
    by (cases r) (auto simp: gomap assms split: option.split)
  then show ?thesis by (simp add: same_items_def)
qed

lemma same_items_upd_core: "(\<And>a. core (f a) = core a) \<Longrightarrow> same_items w (upd_agent aid f w)"
  by (rule same_items_upd) (metis core_eqD(1))

lemma same_items_emit [simp]: "same_items w (emit aid e w)"
  unfolding emit_def by (rule same_items_upd_core) (simp add: frame)

lemma same_items_reply [simp]: "same_items w (reply aid t r ok c m w)"
  by (simp add: reply_def)

lemma same_items_reply_verdict [simp]: "same_items w (reply_verdict aid t r v w)"
  by (simp add: reply_verdict_def)

lemma same_items_audit [simp]: "same_items w (auditEvent t a ac p r d w)"
  by (rule same_items_eq) simp_all

lemma same_items_bump [simp]:
  "same_items w (bumpRepTrade a d w)" "same_items w (bumpRepSocial a d w)"
  "same_items w (bumpRepBuild a d w)" "same_items w (bumpRepLaw a d w)"
  by (simp_all add: bumpRepTrade_def bumpRepSocial_def bumpRepBuild_def bumpRepLaw_def same_items_upd)

lemma same_items_orgTreasury [simp]: "same_items w (orgTreasury oid w)"
proof -
  have "get_inv r (orgTreasury oid w) = get_inv r w \<and> valid_inv r (orgTreasury oid w) = valid_inv r w" for r
    by (cases r) (auto simp: orgTreasury_def gomap TreasuryFor_idem split: option.split)
  then show ?thesis by (simp add: same_items_def)
qed

lemmas same_items_intros = same_items_emit same_items_reply same_items_audit same_items_bump
  same_items_orgTreasury same_items_refl

lemma same_items_market_week: "same_items w (market_week_goal fl f t now w)"
  unfolding market_week_goal_def Let_def
  by (auto intro!: same_items_trans[OF _ same_items_emit] same_items_trans[OF _ same_items_upd_core]
      same_items_upd_core simp: frame)

lemma same_items_stats [simp]: "same_items w (w\<lparr>stats := s\<rparr>)"
  by (rule same_items_eq) simp_all

lemma same_items_trades [simp]: "same_items w (w\<lparr>trades := s\<rparr>)"
  by (rule same_items_eq) simp_all

lemma same_items_trade_completed: "same_items w (trade_completed fl tr aid tax now w)"
  unfolding trade_completed_def Let_def
  by (auto intro!: same_items_trans[OF _ same_items_market_week] same_items_trans[OF _ same_items_stats]
      same_items_trans[OF _ same_items_upd_core] same_items_trans[OF _ same_items_bump(1)]
      same_items_trans[OF _ same_items_bump(2)] simp: frame)

text \<open>The tax goes to an existing inventory and its rate is a share.\<close>

lemma ResolveTradeTax_spec:
  assumes "ResolveTradeTax f t now w = (tax, w')"
  shows "same_items w w'" and "TaxSink tax = Some r \<Longrightarrow> valid_inv r w'"
    and "0 \<le> TaxRate tax \<and> TaxRate tax \<le> 1"
    and "trades w' = trades w"
  using assms EffectiveMarketTax_range
  by (auto simp: ResolveTradeTax_def Let_def no_tax_def orgByID_def orgTreasury_def[of _ w] gomap
      same_items_orgTreasury[unfolded orgTreasury_def]
      split: option.splits prod.splits if_splits)

section \<open>Trades conserve items\<close>

text \<open>Everything agents and treasuries of this world hold of an item.\<close>

definition world_refs :: "world \<Rightarrow> inv_ref set" where
  "world_refs w = {r. valid_inv r w}"

definition holdings :: "world \<Rightarrow> string \<Rightarrow> inv_ref \<Rightarrow> int" where
  "holdings w item r = cnt (get_inv r w) item"

definition stock :: "world \<Rightarrow> string \<Rightarrow> int" where
  "stock w item = sum (holdings w item) (world_refs w)"

lemma finite_world_refs [simp]: "finite (world_refs w)"
proof -
  have "world_refs w \<subseteq> AgentInv ` fst ` set (agents w) \<union> TreasuryInv ` fst ` set (orgs w)"
  proof
    fix r assume "r \<in> world_refs w"
    then show "r \<in> AgentInv ` fst ` set (agents w) \<union> TreasuryInv ` fst ` set (orgs w)"
      by (cases r) (auto simp: world_refs_def map_of_eq_None_iff)
  qed
  then show ?thesis by (rule finite_subset) simp
qed

lemma same_items_stock:
  assumes "same_items w w'"
  shows "world_refs w' = world_refs w" and "holdings w' item = holdings w item" and "stock w' item = stock w item"
proof -
  show 1: "world_refs w' = world_refs w" and 2: "holdings w' item = holdings w item"
    using assms by (auto simp: same_items_def world_refs_def holdings_def)
  show "stock w' item = stock w item" by (simp add: stock_def 1 2)
qed

text \<open>A trade as \<open>OFFER_TRADE\<close> files it when no count overflows.\<close>

definition trade_ok :: "trade \<Rightarrow> bool" where
  "trade_ok tr \<longleftrightarrow> wf_map (Offer tr) \<and> wf_map (Request tr) \<and>
     (\<forall>n \<in> snd ` set (Offer tr). 0 \<le> n) \<and> (\<forall>n \<in> snd ` set (Request tr). 0 \<le> n)"

text \<open>A transfer between inventories of the world, with the stock it leaves.\<close>

lemma transfer_stock:
  fixes rate :: real and ft :: "int \<Rightarrow> real \<Rightarrow> int"
  assumes wf: "wf_map its" and v: "valid_inv s w" "valid_inv d w" "\<And>k. sink = Some k \<Longrightarrow> valid_inv k w"
    and pos: "\<forall>n \<in> snd ` set its. 0 \<le> n" and has: "HasItems (get_inv s w) its"
    and ok: "holdings_ok (world_refs w) (holdings w j)"
  defines "w' \<equiv> ApplyTransferWithTax ft get_inv put_inv s d its sink rate w"
  shows "world_refs w' = world_refs w" and "holdings_ok (world_refs w') (holdings w' j)"
    and "stock w' j = stock w j -
      (case map_of its j of None \<Rightarrow> 0 | Some c \<Rightarrow> if sink = None then stack_tax ft rate c else 0)"
proof -
  show refs: "world_refs w' = world_refs w"
    by (simp add: world_refs_def w'_def inv.valid_transfer)
  have c: "holdings u j = inv.counts u j" for u by (rule ext) (simp add: holdings_def inv.counts_def)
  have m: "s \<in> world_refs w" "d \<in> world_refs w" "\<And>k. sink = Some k \<Longrightarrow> k \<in> world_refs w"
    "\<And>r. r \<in> world_refs w \<Longrightarrow> valid_inv r w"
    using v by (simp_all add: world_refs_def)
  have p: "\<And>k n. (k, n) \<in> set its \<Longrightarrow> 0 \<le> n" using pos by force
  note tc = inv.transfer_conserves[where ftax = ft and rate = rate and sink = sink,
    OF wf finite_world_refs m p has ok[unfolded c], folded c w'_def]
  show "holdings_ok (world_refs w') (holdings w' j)"
    using tc(1) unfolding refs .
  show "stock w' j = stock w j -
      (case map_of its j of None \<Rightarrow> 0 | Some c \<Rightarrow> if sink = None then stack_tax ft rate c else 0)"
    using tc(2) unfolding stock_def refs .
qed

lemma transfer_receiver_has:
  fixes rate :: real and ft :: "int \<Rightarrow> real \<Rightarrow> int"
  assumes wf: "wf_map its" and v: "valid_inv s w" "valid_inv d w" "\<And>k. sink = Some k \<Longrightarrow> valid_inv k w"
    and pos: "\<forall>n \<in> snd ` set its. 0 \<le> n" and has: "HasItems (get_inv s w) its"
    and ok: "\<And>j. holdings_ok (world_refs w) (holdings w j)" and ne: "d \<noteq> s"
    and want: "HasItems (get_inv d w) req"
  shows "HasItems (get_inv d (ApplyTransferWithTax ft get_inv put_inv s d its sink rate w)) req"
proof -
  have c: "holdings u j = inv.counts u j" for u j by (rule ext) (simp add: holdings_def inv.counts_def)
  have m: "s \<in> world_refs w" "d \<in> world_refs w" "\<And>k. sink = Some k \<Longrightarrow> k \<in> world_refs w"
    "\<And>r. r \<in> world_refs w \<Longrightarrow> valid_inv r w"
    using v by (simp_all add: world_refs_def)
  have p: "\<And>k n. (k, n) \<in> set its \<Longrightarrow> 0 \<le> n" using pos by force
  have "cnt (get_inv d w) j \<le> cnt (get_inv d (ApplyTransferWithTax ft get_inv put_inv s d its sink rate w)) j" for j
    using inv.transfer_receiver[where ftax = ft and rate = rate and sink = sink,
        OF wf finite_world_refs m p has ok[of j, unfolded c] ne]
    by (simp add: inv.counts_def)
  then have le: "cnt (get_inv d w) j \<le> cnt (get_inv d (ApplyTransferWithTax ft get_inv put_inv s d its sink rate w)) j" for j .
  show ?thesis unfolding HasItems_iff
  proof clarify
    fix k n assume "(k, n) \<in> set req"
    then have "n \<le> cnt (get_inv d w) k" using want by (auto simp: HasItems_iff)
    then show "n \<le> cnt (get_inv d (ApplyTransferWithTax ft get_inv put_inv s d its sink rate w)) k"
      using le[of k] by linarith
  qed
qed

definition items_ok :: "world \<Rightarrow> bool" where
  "items_ok w \<longleftrightarrow> (\<forall>j. holdings_ok (world_refs w) (holdings w j))"

lemma same_items_ok: "same_items w w' \<Longrightarrow> items_ok w' \<longleftrightarrow> items_ok w"
  using same_items_stock by (simp add: items_ok_def)

text \<open>Both legs of an accepted trade.\<close>

lemma both_legs:
  fixes rate :: real and ft :: "int \<Rightarrow> real \<Rightarrow> int"
  assumes tr: "trade_ok tr" and v: "valid_inv s w" "valid_inv d w" "\<And>k. sink = Some k \<Longrightarrow> valid_inv k w"
    and has: "HasItems (get_inv s w) (Offer tr)" "HasItems (get_inv d w) (Request tr)"
    and ok: "items_ok w" and ne: "d \<noteq> s"
  defines "w1 \<equiv> ApplyTransferWithTax ft get_inv put_inv s d (Offer tr) sink rate w"
  defines "w2 \<equiv> ApplyTransferWithTax ft get_inv put_inv d s (Request tr) sink rate w1"
  shows "items_ok w2" and "stock w2 j \<le> stock w j"
    and "sink \<noteq> None \<or> rate \<le> 0 \<Longrightarrow> stock w2 j = stock w j"
proof -
  have p: "wf_map (Offer tr)" "wf_map (Request tr)" "\<forall>n \<in> snd ` set (Offer tr). 0 \<le> n"
    "\<forall>n \<in> snd ` set (Request tr). 0 \<le> n" using tr by (simp_all add: trade_ok_def)
  have ok': "holdings_ok (world_refs w) (holdings w j)" for j using ok by (simp add: items_ok_def)
  note t1 = transfer_stock[where ft = ft and rate = rate and sink = sink, OF p(1) v p(3) has(1) ok', folded w1_def]
  have v1: "valid_inv r w1 = valid_inv r w" for r by (simp add: w1_def inv.valid_transfer)
  have has1: "HasItems (get_inv d w1) (Request tr)"
    unfolding w1_def by (rule transfer_receiver_has[OF p(1) v p(3) has(1) ok' ne has(2)])
  have v2: "valid_inv d w1" "valid_inv s w1" "\<And>k. sink = Some k \<Longrightarrow> valid_inv k w1" using v v1 by simp_all
  note t2' = transfer_stock[where ft = ft and rate = rate and sink = sink, OF p(2) v2 p(4) has1 t1(2), folded w2_def]
  show "items_ok w2" using t2'(2) by (simp add: items_ok_def)
  have nn: "0 \<le> (case map_of m j of None \<Rightarrow> 0 | Some c \<Rightarrow> if sink = None then stack_tax ft rate c else 0)"
    if "\<forall>n \<in> snd ` set m. 0 \<le> n" for m
    using that stack_tax_bounds(1)[of _ ft rate]
    by (auto split: option.split dest!: map_of_SomeD)
  show "stock w2 j \<le> stock w j" using t1(3)[of j] t2'(3)[of j] nn[OF p(3)] nn[OF p(4)] by linarith
  show "stock w2 j = stock w j" if "sink \<noteq> None \<or> rate \<le> 0"
    using t1(3)[of j] t2'(3)[of j] that by (auto simp: stack_tax_def split: option.splits)
qed

definition owners_exist :: "world \<Rightarrow> bool" where
  "owners_exist w \<longleftrightarrow> (\<forall>(k, c) \<in> set (claims w).
     Owner c \<noteq> [] \<and> (map_of (agents w) (Owner c) \<noteq> None \<or> map_of (orgs w) (Owner c) \<noteq> None))"

lemma owners_exist_sink:
  assumes "owners_exist w" and "ResolveTradeTax f t now w = (tax, w')"
  shows "TaxSink tax \<noteq> None \<or> TaxRate tax \<le> 0"
proof -
  have own: "Owner c \<noteq> [] \<and> (map_of (agents w) (Owner c) \<noteq> None \<or> orgByID w (Owner c) \<noteq> None)"
    if "fst (permissionsFor w a p) = Some c" for a p c
  proof -
    have "landAt w p = Some c" using that by (auto simp: permissionsFor_def split: option.splits)
    then obtain k where "(k, c) \<in> set (claims w)" using LandAt_Some[of "claims w" p c] by (auto simp: landAt_def)
    with assms(1) show ?thesis by (force simp: owners_exist_def orgByID_def)
  qed
  have "TaxSink (fst (ResolveTradeTax f t now w)) \<noteq> None \<or> TaxRate (fst (ResolveTradeTax f t now w)) \<le> 0"
    by (auto simp: ResolveTradeTax_def Let_def no_tax_def dest!: own split: option.splits)
  then show ?thesis using assms(2) by simp
qed

definition trades_ok :: "world \<Rightarrow> bool" where
  "trades_ok w \<longleftrightarrow> (\<forall>(k, tr) \<in> set (trades w). trade_ok tr \<and> TFrom tr \<noteq> TTo tr)"

text \<open>
  C7. Accepting a trade never creates items: whoever accepts and in whatever state the world is, every inventory
  stays non-negative, and the total an item has over all agents and treasuries does not grow.  When every claim
  has a living owner nothing is lost either: the market tax goes in full to the owner, who may be one of the two
  traders.  This is for filed trades between two different agents whose counts did not wrap around to negative
  ones (\<open>trades_ok\<close>).  \<open>HandleOfferTrade\<close> checks neither, and a wrapped count does move items the wrong way.
\<close>

theorem accept_trade_conserves:
  assumes ok: "items_ok w" and trs: "trades_ok w"
  shows "items_ok (HandleAcceptTrade fl aid inst now w) \<and>
    stock (HandleAcceptTrade fl aid inst now w) j \<le> stock w j \<and>
    (owners_exist w \<longrightarrow> stock (HandleAcceptTrade fl aid inst now w) j = stock w j)"
    (is "?P (HandleAcceptTrade fl aid inst now w)")
proof -
  have same: "?P w'" if "same_items w w'" for w'
    using same_items_stock(3)[OF that] same_items_ok[OF that] ok by simp
  show ?thesis
  proof (cases "map_of (agents w) aid")
    case None
    show ?thesis by (rule same) (simp add: HandleAcceptTrade_def None)
  next
    case (Some a)
    show ?thesis
    proof (cases "map_of (trades w) (InstTradeID inst)")
      case None
      show ?thesis by (rule same) (simp add: HandleAcceptTrade_def Let_def None Some)
    next
      case tr: (Some tr)
      then have trok: "trade_ok tr" "TFrom tr \<noteq> TTo tr"
        using trs by (auto simp: trades_ok_def dest!: map_of_SomeD)
      show ?thesis
      proof (cases "map_of (agents w) (TFrom tr)")
        case None
        have "same_items w (reply aid now (InstID inst) False ''E_INVALID_TARGET'' ''trader offline''
            (w\<lparr>trades := mdel (InstTradeID inst) (trades w)\<rparr>))"
          by (rule same_items_trans[OF same_items_trades same_items_reply])
        then show ?thesis by (intro same) (simp add: HandleAcceptTrade_def Let_def Some tr None)
      next
        case fa: (Some from_a)
        show ?thesis
        proof (cases "TTo tr = aid \<and> HasItems (AInventory from_a) (Offer tr) \<and> HasItems (AInventory a) (Request tr)")
          case False
          then show ?thesis by (intro same) (simp add: HandleAcceptTrade_def Let_def Some tr fa)
        next
          case go: True
          obtain tax w1 where tx: "ResolveTradeTax (TFrom tr) aid now w = (tax, w1)" by fastforce
          note sp = ResolveTradeTax_spec[OF tx]
          have inv: "get_inv (AgentInv (TFrom tr)) w1 = AInventory from_a" "get_inv (AgentInv aid) w1 = AInventory a"
            "valid_inv (AgentInv (TFrom tr)) w1" "valid_inv (AgentInv aid) w1"
          proof -
            have g: "get_inv r w1 = get_inv r w" and v: "valid_inv r w1 = valid_inv r w" for r
              using sp(1) by (simp_all add: same_items_def)
            show "get_inv (AgentInv (TFrom tr)) w1 = AInventory from_a" "get_inv (AgentInv aid) w1 = AInventory a"
              unfolding g using fa Some by simp_all
            show "valid_inv (AgentInv (TFrom tr)) w1" "valid_inv (AgentInv aid) w1"
              unfolding v using fa Some by simp_all
          qed
          define w2 where "w2 = ApplyTransferWithTax (mul_trunc fl) get_inv put_inv (AgentInv aid) (AgentInv (TFrom tr))
            (Request tr) (TaxSink tax) (TaxRate tax)
            (ApplyTransferWithTax (mul_trunc fl) get_inv put_inv (AgentInv (TFrom tr)) (AgentInv aid)
              (Offer tr) (TaxSink tax) (TaxRate tax) w1)"
          have ok1: "items_ok w1" using same_items_ok[OF sp(1)] ok by simp
          have ne: "AgentInv aid \<noteq> AgentInv (TFrom tr)" using trok(2) go by auto
          have h1: "HasItems (get_inv (AgentInv (TFrom tr)) w1) (Offer tr)"
            and h2: "HasItems (get_inv (AgentInv aid) w1) (Request tr)" using inv(1,2) go by simp_all
          note legs = both_legs[where sink = "TaxSink tax" and ft = "mul_trunc fl" and rate = "TaxRate tax",
              OF trok(1) inv(3,4) sp(2) h1 h2 ok1 ne, folded w2_def]
          have P2: "?P w2"
            using legs(1) legs(2)[of j] legs(3)[of j] same_items_stock(3)[OF sp(1), of j] owners_exist_sink[OF _ tx]
            by auto
          have fin: "same_items w2 (reply aid now r True [] ''ok'' (emit aid e1 (emit (TFrom tr) e2
              (trade_completed fl tr aid tax now (w2\<lparr>trades := t\<rparr>)))))" for r e1 e2 t
            by (intro same_items_trans[OF _ same_items_reply] same_items_trans[OF _ same_items_emit]
                same_items_trans[OF _ same_items_trade_completed] same_items_trades)
          have keep: "?P w'" if "same_items w2 w'" for w'
            using P2 same_items_stock(3)[OF that] same_items_ok[OF that] by simp
          show ?thesis
          proof (cases "fst (ValidateTradeLifecycleInput (WAllowTrade (cfg w)) (InstTradeID inst)) \<and>
              CanTrade (snd (permissionsFor w (TFrom tr) (APos from_a))) \<and> CanTrade (snd (permissionsFor w aid (APos a)))")
            case True
            have "HandleAcceptTrade fl aid inst now w = reply aid now (InstID inst) True [] ''ok''
              (emit aid [(''t'', JU64 now), (''type'', JStr ''TRADE_DONE''), (''trade_id'', JStr (TradeID tr)), (''with'', JStr (TFrom tr))]
                (emit (TFrom tr) [(''t'', JU64 now), (''type'', JStr ''TRADE_DONE''), (''trade_id'', JStr (TradeID tr)), (''with'', JStr aid)]
                  (trade_completed fl tr aid tax now (w2\<lparr>trades := mdel (InstTradeID inst) (trades w2)\<rparr>))))"
              using True go by (simp add: HandleAcceptTrade_def Let_def Some tr fa tx w2_def)
            then show ?thesis using keep[OF fin] by simp
          next
            case False
            then show ?thesis by (intro same) (auto simp: HandleAcceptTrade_def Let_def Some tr fa)
          qed
        qed
      qed
    qed
  qed
qed

definition trade_world :: world where
  "trade_world = empty_world\<lparr>
     agents := [(''A1'', agent_named ''A1'' [(''COAL'', 5)]), (''A2'', agent_named ''A2'' [(''IRON_INGOT'', 3)])],
     trades := [(''TR000001'', \<lparr>TradeID = ''TR000001'', TFrom = ''A1'', TTo = ''A2'', Offer = [(''COAL'', 2)],
                  Request = [(''IRON_INGOT'', 1)], TCreatedTick = 4\<rparr>)]\<rparr>"

lemma trade_world_refs: "world_refs trade_world = {AgentInv ''A1'', AgentInv ''A2''}"
proof -
  have "r \<in> world_refs trade_world \<longleftrightarrow> r = AgentInv ''A1'' \<or> r = AgentInv ''A2''" for r
    by (cases r) (auto simp: world_refs_def trade_world_def split: if_splits)
  then show ?thesis by blast
qed

lemma trade_world_holdings:
  "holdings trade_world j (AgentInv ''A1'') = (if j = ''COAL'' then 5 else 0)"
  "holdings trade_world j (AgentInv ''A2'') = (if j = ''IRON_INGOT'' then 3 else 0)"
  by (simp_all add: holdings_def trade_world_def)

theorem accept_trade_conserves_witness:
  "stock (HandleAcceptTrade sample_floats ''A2'' (blank_inst\<lparr>InstTradeID := ''TR000001''\<rparr>) 10 trade_world) ''COAL'' = 5"
proof -
  have ok: "items_ok trade_world"
    by (simp add: items_ok_def holdings_ok_def trade_world_refs trade_world_holdings)
  have tr: "trades_ok trade_world"
    by (simp add: trades_ok_def trade_world_def trade_ok_def wf_map_def)
  have own: "owners_exist trade_world" by (simp add: owners_exist_def trade_world_def)
  have "stock trade_world ''COAL'' = 5"
    by (simp add: stock_def trade_world_refs trade_world_holdings)
  then show ?thesis
    using accept_trade_conserves[OF ok tr, of sample_floats "''A2''" "blank_inst\<lparr>InstTradeID := ''TR000001''\<rparr>" 10 "''COAL''"] own
    by simp
qed

text \<open>
  C23. The counts of an offer are added up in 64-bit integers without a check: an offer that repeats an
  item can be parsed to a negative amount of it, which every inventory "has", and transferring it
  moves items the other way: the sender gains what the receiver is driven below zero by.
\<close>

theorem offer_count_overflow:
  "ParseItemPairs (replicate 3 [PVStr ''COAL'', PVFloat (2 ^ 62)]) = Inr [(''COAL'', - (2 ^ 62))] \<and>
   HasItems [] [(''COAL'', - (2 ^ 62))] \<and>
   (let w = ApplyTransferWithTax (mul_trunc sample_floats) get_inv put_inv (AgentInv ''A1'') (AgentInv ''A2'')
              [(''COAL'', - (2 ^ 62))] None 0 trade_world
    in holdings w ''COAL'' (AgentInv ''A1'') = 2 ^ 62 + 5 \<and> holdings w ''COAL'' (AgentInv ''A2'') = - (2 ^ 62))"
proof (intro conjI)
  have f: "f2i (2 ^ 62) = 2 ^ 62" by (simp add: f2i_def in_i64_def)
  have i: "i64 (2 ^ 62 + 2 ^ 62) = - (2 ^ 63)" "i64 (- (2 ^ 63) + 2 ^ 62) = - (2 ^ 62)" by (simp_all add: i64_def)
  show "ParseItemPairs (replicate 3 [PVStr ''COAL'', PVFloat (2 ^ 62)]) = Inr [(''COAL'', - (2 ^ 62))]"
    using f i by (simp add: ParseItemPairs_def numeral_3_eq_3 madd_def mput_def cnt_def)
  show "HasItems [] [(''COAL'', - (2 ^ 62))]" by (simp add: HasItems_def)
  have h: "holdings w j r = inv.counts w j r" for w j r by (simp add: holdings_def inv.counts_def)
  have pw: "inv.counts (ApplyTransferWithTax (mul_trunc sample_floats) get_inv put_inv (AgentInv ''A1'') (AgentInv ''A2'')
              [(''COAL'', - (2 ^ 62))] None 0 trade_world) ''COAL'' =
      moved (AgentInv ''A1'') (AgentInv ''A2'') None (- (2 ^ 62)) 0 (inv.counts trade_world ''COAL'')"
    by (subst inv.transfer_pointwise) (auto simp: wf_map_def trade_world_def stack_tax_def)
  show "let w = ApplyTransferWithTax (mul_trunc sample_floats) get_inv put_inv (AgentInv ''A1'') (AgentInv ''A2'')
              [(''COAL'', - (2 ^ 62))] None 0 trade_world
    in holdings w ''COAL'' (AgentInv ''A1'') = 2 ^ 62 + 5 \<and> holdings w ''COAL'' (AgentInv ''A2'') = - (2 ^ 62)"
    unfolding Let_def h pw
    by (simp add: moved_def shift_def trade_world_holdings[unfolded h] i64_def)
qed

end
