(* ===== verification/Contract_Handlers.thy ===== *)
theory Contract_Handlers
  imports Contract_Rules Trade_Model
begin

text \<open>
  Contracts in the world: posting, accepting and submitting a contract, claiming what a terminal owes
  (\<open>feature/contracts/instants\<close> with the hooks of \<open>instants_contracts_handlers.go\<close>), the movement of items
  between agents and terminals (\<open>feature/contracts/runtime/runtime.go\<close>) and the contract tick
  (\<open>contracts_facade.go\<close>).
\<close>

section \<open>Items of agents and terminals\<close>

definition give_agent :: "string \<Rightarrow> string \<Rightarrow> int \<Rightarrow> world \<Rightarrow> world" where
  "give_agent aid item n w = upd_agent aid (\<lambda>a. a\<lparr>AInventory := madd (AInventory a) item n\<rparr>) w"

definition take_agent :: "string \<Rightarrow> string \<Rightarrow> int \<Rightarrow> world \<Rightarrow> world" where
  "take_agent aid item n w = upd_agent aid (\<lambda>a. a\<lparr>AInventory := msub (AInventory a) item n\<rparr>) w"

definition put_box :: "vec3 \<Rightarrow> string \<Rightarrow> int \<Rightarrow> world \<Rightarrow> world" where
  "put_box p item n w = upd_container p (\<lambda>c. c\<lparr>Inventory := madd (Inventory c) item n\<rparr>) w"

text \<open>\<open>inv[item] -= n; if inv[item] <= 0 { delete(inv, item) }\<close>.\<close>

definition take_box :: "vec3 \<Rightarrow> string \<Rightarrow> int \<Rightarrow> world \<Rightarrow> world" where
  "take_box p item n w = upd_container p (\<lambda>c. c\<lparr>Inventory := mprune (msub (Inventory c) item n) item\<rparr>) w"

text \<open>The loop of posting and of accepting that moves items into the terminal and reserves them.\<close>

definition escrow_items :: "string \<Rightarrow> vec3 \<Rightarrow> items \<Rightarrow> world \<Rightarrow> world" where
  "escrow_items aid p its w =
     for_items (\<lambda>item n w. upd_container p (Reserve item n) (put_box p item n (take_agent aid item n w))) its w"

text \<open>
  The loops of \<open>runtime.go\<close>, over whatever state the caller's closures work on; \<open>take_item\<close> stands for the
  two statements on \<open>terminalInventory\<close>, and a nil map never reaches them.
\<close>

definition ApplyTerminalTransfer ::
  "(string \<Rightarrow> int \<Rightarrow> 's \<Rightarrow> 's) \<Rightarrow> items \<Rightarrow> string \<Rightarrow> bool \<Rightarrow> (string \<Rightarrow> int \<Rightarrow> 's \<Rightarrow> 's)
     \<Rightarrow> (string \<Rightarrow> string \<Rightarrow> int \<Rightarrow> 's \<Rightarrow> bool \<times> 's) \<Rightarrow> (string \<Rightarrow> string \<Rightarrow> int \<Rightarrow> 's \<Rightarrow> 's) \<Rightarrow> 's \<Rightarrow> 's" where
  "ApplyTerminalTransfer take_item its toAgentID unreserve unreserveItem addAgentItem addOwedItem s =
     (if its = [] \<or> toAgentID = [] then s
      else for_items (\<lambda>item n s.
             if n \<le> 0 then s
             else
               let s = (if unreserve then unreserveItem item n s else s);
                   s = take_item item n s;
                   (added, s) = addAgentItem toAgentID item n s
               in if \<not> added then addOwedItem toAgentID item n s else s) its s)"

definition ConsumeRequirementsToPoster ::
  "(string \<Rightarrow> int \<Rightarrow> 's \<Rightarrow> 's) \<Rightarrow> items \<Rightarrow> (string \<Rightarrow> int \<Rightarrow> 's \<Rightarrow> 's) \<Rightarrow> 's \<Rightarrow> 's" where
  "ConsumeRequirementsToPoster take_item requirements addPosterItem s =
     for_items (\<lambda>item n s. if n \<le> 0 then s else addPosterItem item n (take_item item n s)) requirements s"

definition PayoutItems ::
  "(string \<Rightarrow> int \<Rightarrow> 's \<Rightarrow> 's) \<Rightarrow> items \<Rightarrow> (string \<Rightarrow> int \<Rightarrow> 's \<Rightarrow> 's) \<Rightarrow> (string \<Rightarrow> int \<Rightarrow> 's \<Rightarrow> 's) \<Rightarrow> 's \<Rightarrow> 's" where
  "PayoutItems take_item payout unreserveItem addReceiverItem s =
     for_items (\<lambda>item n s.
        if n \<le> 0 then s else addReceiverItem item n (take_item item n (unreserveItem item n s))) payout s"

section \<open>Buildings\<close>

definition checkBlueprintPlaced :: "world \<Rightarrow> string \<Rightarrow> vec3 \<Rightarrow> int \<Rightarrow> bool" where
  "checkBlueprintPlaced w bid anchor rotation =
     (case map_of (Blueprints (cats w)) bid of
        None \<Rightarrow> False
      | Some bs \<Rightarrow>
          CheckPlaced (Some (\<lambda>x y z. GetBlock w \<lparr>vx = x, vy = y, vz = z\<rparr>)) (BlockIndex (cats w)) bs
            (vx anchor, vy anchor, vz anchor) rotation)"

definition structureStable :: "world \<Rightarrow> placement list \<Rightarrow> vec3 \<Rightarrow> int \<Rightarrow> bool" where
  "structureStable w bs anchor rotation =
     (if bs = [] then True
      else
        let rot = NormalizeRotation rotation;
            positions = map (\<lambda>b. case RotateOffset (pb_pos b) rot of (ox, oy, oz) \<Rightarrow>
              \<lparr>vx = i64 (vx anchor + ox), vy = i64 (vy anchor + oy), vz = i64 (vz anchor + oz)\<rparr>) bs
        in IsStructureStable positions (\<lambda>x y z. GetBlock w \<lparr>vx = x, vy = y, vz = z\<rparr> \<noteq> airBlock w))"

definition CheckBuildContract :: "world \<Rightarrow> contract \<Rightarrow> bool" where
  "CheckBuildContract w c =
     (if \<not> checkBlueprintPlaced w (BlueprintID c) (CAnchor c) (Rotation c) then False
      else case map_of (Blueprints (cats w)) (BlueprintID c) of
             None \<Rightarrow> False
           | Some bs \<Rightarrow> structureStable w bs (CAnchor c) (Rotation c))"

section \<open>Reputation hooks\<close>

definition repDepositMultiplier :: "agent option \<Rightarrow> int" where
  "repDepositMultiplier ao = (case ao of None \<Rightarrow> 1 | Some a \<Rightarrow> DepositMultiplier (RepTrade a))"

definition addTradeCredit :: "go_floats \<Rightarrow> u64 \<Rightarrow> string \<Rightarrow> string \<Rightarrow> world \<Rightarrow> world" where
  "addTradeCredit fl nowTick actor kind w =
     (let w = bumpRepTrade actor (fst TradeCreditDelta) w;
          w = bumpRepSocial actor (snd TradeCreditDelta) w;
          w = w\<lparr>stats := RecordTrade nowTick (stats w)\<rparr>
      in upd_agent actor (funOnContractComplete fl w nowTick kind) w)"

definition addBuildCredit :: "go_floats \<Rightarrow> u64 \<Rightarrow> string \<Rightarrow> string \<Rightarrow> world \<Rightarrow> world" where
  "addBuildCredit fl nowTick actor kind w =
     (let w = bumpRepBuild actor BuildCreditDelta w;
          w = w\<lparr>stats := RecordTrade nowTick (stats w)\<rparr>
      in upd_agent actor (funOnContractComplete fl w nowTick kind) w)"

definition addLawPenalty :: "string \<Rightarrow> string \<Rightarrow> world \<Rightarrow> world" where
  "addLawPenalty actor reason w =
     (case LawPenaltyDelta reason of
        (tradeDelta, lawDelta) \<Rightarrow>
          let w = (if tradeDelta \<noteq> 0 then bumpRepTrade actor tradeDelta w else w)
          in bumpRepLaw actor lawDelta w)"

section \<open>Handlers\<close>

definition upd_contract :: "string \<Rightarrow> (contract \<Rightarrow> contract) \<Rightarrow> world \<Rightarrow> world" where
  "upd_contract cid f w =
     (case map_of (contracts w) cid of
        None \<Rightarrow> w
      | Some c \<Rightarrow> w\<lparr>contracts := mput cid (f c) (contracts w)\<rparr>)"

text \<open>The contract a post request asks for, once the checks have passed.\<close>

definition posted_contract :: "string \<Rightarrow> string \<Rightarrow> vec3 \<Rightarrow> instant \<Rightarrow> string \<Rightarrow> u64 \<Rightarrow> u64 \<Rightarrow> contract" where
  "posted_contract cid aid p inst kind nowTick deadline =
     \<lparr>ContractID = cid, TerminalPos = p, Poster = aid, Acceptor = [], Kind = kind,
      Requirements = StacksToMap (InstRequirements inst), Reward = StacksToMap (InstReward inst),
      Deposit = StacksToMap (InstDeposit inst),
      BlueprintID = (if kind = ''BUILD'' then InstBlueprintID inst else []),
      CAnchor = (if kind = ''BUILD'' then (case InstAnchor inst of (x, y, z) \<Rightarrow> \<lparr>vx = x, vy = y, vz = z\<rparr>)
                 else \<lparr>vx = 0, vy = 0, vz = 0\<rparr>),
      Rotation = (if kind = ''BUILD'' then NormalizeRotation (InstRotation inst) else 0),
      CreatedTick = nowTick, DeadlineTick = deadline, CState = ContractOpen\<rparr>"

text \<open>
  The hooks of \<open>instants_contracts_handlers.go\<close>: audits, and the acceptor's credit.  They are unfolded
  wherever they occur.
\<close>

definition on_posted :: "string \<Rightarrow> contract \<Rightarrow> container \<Rightarrow> u64 \<Rightarrow> world \<Rightarrow> world" where [simp]:
  "on_posted aid c t nowTick w =
     auditEvent nowTick aid ''CONTRACT_POST'' (TerminalPos c) ''POST_CONTRACT''
       (BuildPostAuditFields c (container_id t)) w"

definition on_accepted :: "string \<Rightarrow> contract \<Rightarrow> container \<Rightarrow> u64 \<Rightarrow> world \<Rightarrow> world" where [simp]:
  "on_accepted aid c t nowTick w =
     auditEvent nowTick aid ''CONTRACT_ACCEPT'' (TerminalPos c) ''ACCEPT_CONTRACT''
       (BuildAcceptAuditFields c (container_id t)) w"

definition on_submitted :: "go_floats \<Rightarrow> string \<Rightarrow> contract \<Rightarrow> container \<Rightarrow> u64 \<Rightarrow> world \<Rightarrow> world" where [simp]:
  "on_submitted fl aid c t nowTick w =
     (let w = (if Kind c = ''GATHER'' \<or> Kind c = ''DELIVER'' then addTradeCredit fl nowTick aid (Kind c) w
               else if Kind c = ''BUILD'' then addBuildCredit fl nowTick aid (Kind c) w
               else w)
      in auditEvent nowTick aid ''CONTRACT_COMPLETE'' (TerminalPos c) ''SUBMIT_CONTRACT''
           (BuildSubmitAuditFields c (container_id t)) w)"

definition HandlePostContract :: "string \<Rightarrow> instant \<Rightarrow> u64 \<Rightarrow> world \<Rightarrow> world" where
  "HandlePostContract aid inst nowTick w =
     (case map_of (agents w) aid of
        None \<Rightarrow> w
      | Some a \<Rightarrow>
          let box = GetContainerByID (containers w) (InstTerminalID inst);
              reward = StacksToMap (InstReward inst);
              (distance, terminalType) =
                (case box of None \<Rightarrow> (0, []) | Some (p, t) \<Rightarrow> (Manhattan (APos a) p, CType t));
              (v, kind, deadline) =
                PreparePost (InstTerminalID inst) terminalType distance (InstContractKind inst)
                  (StacksToMap (InstRequirements inst)) reward (InstBlueprintID inst)
                  (HasItems (AInventory a) reward) nowTick (InstDeadlineTick inst) (InstDurationTicks inst)
                  (DayTicks (cfg w))
          in if \<not> fst (ValidatePost v) then reply_verdict aid nowTick (InstID inst) (ValidatePost v) w
             else
               (case box of
                  None \<Rightarrow> w
                | Some (p, t) \<Rightarrow>
                    let w = escrow_items aid p reward w;
                        (cid, w) = newContractID w;
                        c = posted_contract cid aid p inst kind nowTick deadline;
                        w = w\<lparr>contracts := mput cid c (contracts w)\<rparr>;
                        w = on_posted aid c t nowTick w
                    in emit aid [(''t'', JU64 nowTick), (''type'', JStr ''ACTION_RESULT''),
                                 (''ref'', JStr (InstID inst)), (''ok'', JBool True),
                                 (''contract_id'', JStr cid)] w))"

text \<open>The terminal as the handlers see it: type, distance and whether it is the contract's.\<close>

definition terminal_view :: "(vec3 \<times> container) option \<Rightarrow> vec3 \<Rightarrow> vec3 \<Rightarrow> string \<times> int \<times> bool" where
  "terminal_view box expected agentPos =
     (case box of
        None \<Rightarrow> ([], 0, False)
      | Some (p, t) \<Rightarrow> BuildTerminalContext True (CType t) p expected agentPos)"

definition HandleAcceptContract :: "string \<Rightarrow> instant \<Rightarrow> u64 \<Rightarrow> world \<Rightarrow> world" where
  "HandleAcceptContract aid inst nowTick w =
     (case map_of (agents w) aid of
        None \<Rightarrow> w
      | Some a \<Rightarrow>
          let v0 = ValidateLifecycleIDs (InstContractID inst) (InstTerminalID inst)
          in if \<not> fst v0 then reply_verdict aid nowTick (InstID inst) v0 w
             else
               let co = map_of (contracts w) (InstContractID inst);
                   box = GetContainerByID (containers w) (InstTerminalID inst);
                   (state, deadline, base, terminalType, distance, terminalMatch) =
                     (case co of
                        None \<Rightarrow> (None, 0, [], [], 0, False)
                      | Some c \<Rightarrow> (Some (CState c), DeadlineTick c, Deposit c,
                                  terminal_view box (TerminalPos c) (APos a)));
                   (v, required) =
                     PrepareAccept state terminalType terminalMatch distance nowTick deadline base
                       (repDepositMultiplier (Some a)) (AInventory a)
               in if \<not> fst (ValidateAccept v) then reply_verdict aid nowTick (InstID inst) (ValidateAccept v) w
                  else
                    (case (co, box) of
                       (Some c, Some (p, t)) \<Rightarrow>
                         let w = escrow_items aid p required w;
                             c' = c\<lparr>Deposit := required, Acceptor := aid, CState := ContractAccepted\<rparr>;
                             w = upd_contract (InstContractID inst) (\<lambda>_. c') w;
                             w = on_accepted aid c' t nowTick w
                         in reply aid nowTick (InstID inst) True [] ''accepted'' w
                     | _ \<Rightarrow> w))"

text \<open>What the submit handler gathers for the checks.\<close>

definition submit_input ::
  "string \<Rightarrow> agent \<Rightarrow> contract option \<Rightarrow> (vec3 \<times> container) option \<Rightarrow> u64 \<Rightarrow> world \<Rightarrow> submit_validation" where
  "submit_input aid a co box nowTick w =
     (case co of
        None \<Rightarrow> PrepareSubmitValidation None False [] False 0 nowTick 0 [] False False
      | Some c \<Rightarrow>
          (case box of
             None \<Rightarrow> PrepareSubmitValidation (Some (CState c)) (Acceptor c = aid) [] False 0 nowTick (DeadlineTick c)
                       (Kind c) False False
           | Some (p, t) \<Rightarrow>
               if CType t = ''CONTRACT_TERMINAL'' \<and> p = TerminalPos c then
                 (case BuildTerminalContext True (CType t) p (TerminalPos c) (APos a) of
                    (_, distance, terminalMatch) \<Rightarrow>
                      PrepareSubmitValidation (Some (CState c)) (Acceptor c = aid) (CType t) terminalMatch distance nowTick
                        (DeadlineTick c) (Kind c)
                        ((Kind c = ''GATHER'' \<or> Kind c = ''DELIVER'') \<and> HasAvailable (Requirements c) (AvailableCount t))
                        (Kind c = ''BUILD'' \<and> CheckBuildContract w c))
               else PrepareSubmitValidation (Some (CState c)) (Acceptor c = aid) (CType t) False 0 nowTick (DeadlineTick c)
                      (Kind c) False False))"

text \<open>The items a submission moves: requirements to the poster's account, reward and deposit to the acceptor.\<close>

definition submit_items :: "string \<Rightarrow> contract \<Rightarrow> vec3 \<Rightarrow> world \<Rightarrow> world" where
  "submit_items aid c p w =
     (let w = (if NeedsRequirementsConsumption (Kind c) then
                 ConsumeRequirementsToPoster (take_box p) (Requirements c)
                   (\<lambda>item n. upd_container p (AddOwed (Poster c) item n)) w
               else w);
          w = PayoutItems (take_box p) (Reward c) (\<lambda>item n. upd_container p (Unreserve item n)) (give_agent aid) w
      in PayoutItems (take_box p) (Deposit c) (\<lambda>item n. upd_container p (Unreserve item n)) (give_agent aid) w)"

definition HandleSubmitContract :: "go_floats \<Rightarrow> string \<Rightarrow> instant \<Rightarrow> u64 \<Rightarrow> world \<Rightarrow> world" where
  "HandleSubmitContract fl aid inst nowTick w =
     (case map_of (agents w) aid of
        None \<Rightarrow> w
      | Some a \<Rightarrow>
          let v0 = ValidateLifecycleIDs (InstContractID inst) (InstTerminalID inst)
          in if \<not> fst v0 then reply_verdict aid nowTick (InstID inst) v0 w
             else
               let co = map_of (contracts w) (InstContractID inst);
                   box = GetContainerByID (containers w) (InstTerminalID inst);
                   verdict = ValidateSubmit (submit_input aid a co box nowTick w)
               in if \<not> fst verdict then reply_verdict aid nowTick (InstID inst) verdict w
                  else
                    (case (co, box) of
                       (Some c, Some (p, t)) \<Rightarrow>
                         let w = submit_items aid c p w;
                             w = upd_contract (InstContractID inst) (\<lambda>c. c\<lparr>CState := ContractCompleted\<rparr>) w;
                             w = on_submitted fl aid c t nowTick w
                         in reply aid nowTick (InstID inst) True [] ''completed'' w
                     | _ \<Rightarrow> w))"

definition HandleClaimOwed :: "string \<Rightarrow> instant \<Rightarrow> u64 \<Rightarrow> world \<Rightarrow> world" where
  "HandleClaimOwed aid inst nowTick w =
     (case map_of (agents w) aid of
        None \<Rightarrow> w
      | Some a \<Rightarrow>
          if InstTerminalID inst = [] then
            reply aid nowTick (InstID inst) False ''E_BAD_REQUEST'' ''missing terminal_id'' w
          else
            (case GetContainerByID (containers w) (InstTerminalID inst) of
               None \<Rightarrow> reply aid nowTick (InstID inst) False ''E_INVALID_TARGET'' ''terminal not found'' w
             | Some (p, t) \<Rightarrow>
                 if Manhattan (APos a) p > 3 then
                   reply aid nowTick (InstID inst) False ''E_BLOCKED'' ''too far'' w
                 else
                   let owed = fst (ClaimOwed aid t);
                       w = upd_container p (\<lambda>t. snd (ClaimOwed aid t)) w
                   in if owed = [] then reply aid nowTick (InstID inst) True [] ''nothing owed'' w
                      else
                        let w = for_items (\<lambda>item n w. if n > 0 then give_agent aid item n w else w) owed w
                        in reply aid nowTick (InstID inst) True [] ''claimed'' w))"

section \<open>The contract tick\<close>

definition contractTerminalTransfer :: "vec3 \<Rightarrow> items \<Rightarrow> string \<Rightarrow> bool \<Rightarrow> world \<Rightarrow> world" where
  "contractTerminalTransfer p its toAgentID unreserve w =
     (if map_of (containers w) p = None then w
      else ApplyTerminalTransfer (take_box p) its toAgentID unreserve
             (\<lambda>item n. upd_container p (Unreserve item n))
             (\<lambda>aid item n w. if map_of (agents w) aid = None then (False, w) else (True, give_agent aid item n w))
             (\<lambda>aid item n. upd_container p (AddOwed aid item n)) w)"

definition contractPayoutAgent :: "contract \<Rightarrow> payout_target \<Rightarrow> string" where
  "contractPayoutAgent c target = PayoutAgent (Poster c) (Acceptor c) target"

text \<open>What the tick decides about a contract.\<close>

definition contract_decision :: "u64 \<Rightarrow> contract \<Rightarrow> world \<Rightarrow> tick_decision" where
  "contract_decision nowTick c w =
     (let terminal = map_of (containers w) (TerminalPos c);
          reqOK = (case terminal of
                     None \<Rightarrow> False
                   | Some t \<Rightarrow> CState c = ContractAccepted \<and> (Kind c = ''GATHER'' \<or> Kind c = ''DELIVER'') \<and>
                       HasAvailable (Requirements c) (AvailableCount t));
          buildPlaced = (terminal \<noteq> None \<and> CState c = ContractAccepted \<and> Kind c = ''BUILD'' \<and>
                         checkBlueprintPlaced w (BlueprintID c) (CAnchor c) (Rotation c));
          buildStable = (buildPlaced \<and>
                         (case map_of (Blueprints (cats w)) (BlueprintID c) of
                            None \<Rightarrow> False
                          | Some bs \<Rightarrow> structureStable w bs (CAnchor c) (Rotation c)))
      in DecideTick \<lparr>TState = CState c, TKind = Kind c, TNowTick = nowTick, TDeadlineTick = DeadlineTick c,
           HasTerminal = (terminal \<noteq> None), RequirementsOK = reqOK, BuildPlaced = buildPlaced,
           BuildStable = buildStable\<rparr>)"

text \<open>The items a settlement moves out of the terminal.\<close>

definition settle_items :: "settlement_plan \<Rightarrow> contract \<Rightarrow> world \<Rightarrow> world" where
  "settle_items plan c w =
     (let p = TerminalPos c;
          w = (if ConsumeRequirements plan \<and> RequirementsToPoster plan
               then contractTerminalTransfer p (Requirements c) (Poster c) False w else w);
          w = (if RewardTo plan \<noteq> PayoutNone
               then contractTerminalTransfer p (Reward c) (contractPayoutAgent c (RewardTo plan)) True w else w)
      in if DepositTo plan \<noteq> PayoutNone
         then contractTerminalTransfer p (Deposit c) (contractPayoutAgent c (DepositTo plan)) True w else w)"

definition settled_state :: "settlement_plan \<Rightarrow> contract_state \<Rightarrow> contract_state" where
  "settled_state plan st =
     (let st = (if MarkFailed plan then ContractFailed else st)
      in if MarkCompleted plan then ContractCompleted else st)"

definition settle_contract :: "go_floats \<Rightarrow> u64 \<Rightarrow> string \<Rightarrow> tick_decision \<Rightarrow> contract \<Rightarrow> world \<Rightarrow> world" where
  "settle_contract fl nowTick cid decision c w =
     (let plan = PlanSettlement decision;
          w = settle_items plan c w;
          c' = c\<lparr>CState := settled_state plan (CState c)\<rparr>;
          w = upd_contract cid (\<lambda>_. c') w;
          w = (if PenalizeAcceptorLaw plan then addLawPenalty (Acceptor c) ''CONTRACT_TIMEOUT'' w else w);
          au = BuildTickAudit decision (AuditReason plan) c';
          w = (if GrantTradeCredit au then addTradeCredit fl nowTick (Acceptor c) (Kind c) w else w);
          w = (if GrantBuildCredit au then addBuildCredit fl nowTick (Acceptor c) (Kind c) w else w)
      in if ShouldAudit au
         then auditEvent nowTick (TActor au) (EventType au) (TerminalPos c) (TReason au) (Fields au) w
         else w)"

definition tick_contract :: "go_floats \<Rightarrow> u64 \<Rightarrow> string \<Rightarrow> world \<Rightarrow> world" where
  "tick_contract fl nowTick cid w =
     (case map_of (contracts w) cid of
        None \<Rightarrow> w
      | Some c \<Rightarrow>
          if CState c \<noteq> ContractOpen \<and> CState c \<noteq> ContractAccepted then w
          else
            let decision = contract_decision nowTick c w
            in if decision = DecisionNoop then w
               else if MarkFailed (PlanSettlement decision) \<and> decision = DecisionFailMissingTarget then
                 upd_contract cid (\<lambda>c. c\<lparr>CState := ContractFailed\<rparr>) w
               else settle_contract fl nowTick cid decision c w)"

text \<open>The map is enumerated in the order of the list.\<close>

definition tickContracts :: "go_floats \<Rightarrow> u64 \<Rightarrow> world \<Rightarrow> world" where
  "tickContracts fl nowTick w = fold (tick_contract fl nowTick) (map fst (contracts w)) w"

definition contractSummariesForTerminal :: "world \<Rightarrow> vec3 \<Rightarrow> event list" where
  "contractSummariesForTerminal w pos = BuildTerminalSummaries pos (map snd (contracts w))"

end
