(* ===== verification/Contract_Flows.thy ===== *)
theory Contract_Flows
  imports Contract_Handlers
begin

text \<open>
  The accounting of contracts: what agents and terminals hold, and the flows of items around one terminal
  that the loops of the contract code amount to.
\<close>

section \<open>What agents and terminals hold\<close>

text \<open>The inventories of the agents, as a map of their own.\<close>

definition inv_view :: "world \<Rightarrow> items gomap" where
  "inv_view w = map (\<lambda>(k, a). (k, AInventory a)) (agents w)"

definition box_items :: "container \<Rightarrow> string \<Rightarrow> int" where
  "box_items t j = cnt (Inventory t) j + msum (\<lambda>m. cnt m j) (Owed t)"

definition held :: "world \<Rightarrow> string \<Rightarrow> int" where
  "held w j = msum (\<lambda>m. cnt m j) (inv_view w) + msum (\<lambda>t. box_items t j) (containers w)"

definition box_ok :: "container \<Rightarrow> bool" where
  "box_ok t \<longleftrightarrow> wf_map (Owed t) \<and> (\<forall>(x, m) \<in> set (Owed t). wf_map m \<and> (\<forall>j. 0 \<le> cnt m j)) \<and>
     (\<forall>j. 0 \<le> cnt (Reserved t) j \<and> cnt (Reserved t) j \<le> cnt (Inventory t) j)"

definition store_ok :: "world \<Rightarrow> bool" where
  "store_ok w \<longleftrightarrow> wf_map (inv_view w) \<and> map_of (inv_view w) [] = None \<and> wf_map (containers w) \<and>
     (\<forall>(x, m) \<in> set (inv_view w). \<forall>j. 0 \<le> cnt m j) \<and> (\<forall>(p, t) \<in> set (containers w). box_ok t) \<and>
     (\<forall>j. held w j < 2 ^ 63)"

lemma map_of_inv_view: "map_of (inv_view w) x = map_option AInventory (map_of (agents w) x)"
  by (simp add: inv_view_def map_of_map)

lemma map_mput: "map (\<lambda>(k, v). (k, g v)) (mput k v m) = mput k (g v) (map (\<lambda>(k, v). (k, g v)) m)"
  by (induction m) (auto simp: mput_def)

lemma ball_mput: "\<forall>y \<in> set m. P y \<Longrightarrow> P (k, v) \<Longrightarrow> \<forall>y \<in> set (mput k v m). P y"
  by (induction m) (auto simp: mput_def)

lemma mput_same: "map_of m k = Some v \<Longrightarrow> mput k v m = m"
  by (induction m) (auto simp: mput_def split: if_splits)

lemma inv_view_upd:
  "inv_view (upd_agent x f w) =
    (case map_of (agents w) x of None \<Rightarrow> inv_view w | Some a \<Rightarrow> mput x (AInventory (f a)) (inv_view w))"
  by (simp add: upd_agent_def inv_view_def map_mput split: option.split)

lemma inv_view_upd_same [intro]:
  assumes "\<And>a. AInventory (f a) = AInventory a"
  shows "inv_view (upd_agent x f w) = inv_view w"
  using map_of_inv_view[of w x] by (auto simp: inv_view_upd assms mput_same split: option.split)

lemma map_of_upd_container [gomap]:
  "map_of (containers (upd_container p f w)) q =
    (if q = p then map_option f (map_of (containers w) p) else map_of (containers w) q)"
  by (auto simp: upd_container_def gomap split: option.split)

lemma upd_container_fields [simp]:
  "agents (upd_container p f w) = agents w" "contracts (upd_container p f w) = contracts w"
  "nextContractNum (upd_container p f w) = nextContractNum w" "cats (upd_container p f w) = cats w"
  "blocks (upd_container p f w) = blocks w" "cfg (upd_container p f w) = cfg w"
  "airBlock (upd_container p f w) = airBlock w" "inv_view (upd_container p f w) = inv_view w"
  by (simp_all add: upd_container_def inv_view_def split: option.split)

lemma upd_container_twice:
  "upd_container p f (upd_container p g w) = upd_container p (f \<circ> g) w"
proof (cases "map_of (containers w) p")
  case (Some t)
  have "mput p u (mput p v m) = mput p u m" for u v :: container and m
    by (induction m) (auto simp: mput_def)
  with Some show ?thesis by (simp add: upd_container_def gomap)
qed (simp add: upd_container_def)

lemma held_parts:
  assumes "store_ok w"
  shows "map_of (inv_view w) x = Some m \<Longrightarrow> 0 \<le> cnt m j \<and> cnt m j \<le> held w j"
    and "map_of (containers w) p = Some t \<Longrightarrow> box_ok t \<and> 0 \<le> box_items t j \<and> box_items t j \<le> held w j"
    and "map_of (inv_view w) x = Some m \<Longrightarrow> map_of (containers w) p = Some t \<Longrightarrow>
      cnt m j + box_items t j \<le> held w j"
    and "map_of (containers w) p = Some t \<Longrightarrow> map_of (containers w) q = Some u \<Longrightarrow> p \<noteq> q \<Longrightarrow>
      box_items t j + box_items u j \<le> held w j"
proof -
  have ag: "0 \<le> cnt m j" if "(x, m) \<in> set (inv_view w)" for x m using assms that by (auto simp: store_ok_def)
  have bx: "box_ok t" if "(p, t) \<in> set (containers w)" for p t using assms that by (auto simp: store_ok_def)
  have bx0: "0 \<le> box_items t j" if "(p, t) \<in> set (containers w)" for p t
  proof -
    have "0 \<le> msum (\<lambda>m. cnt m j) (Owed t)"
      by (rule msum_nonneg) (use bx[OF that] in \<open>auto simp: box_ok_def\<close>)
    moreover have "0 \<le> cnt (Inventory t) j" using bx[OF that] order_trans unfolding box_ok_def by blast
    ultimately show ?thesis by (simp add: box_items_def)
  qed
  have s1: "0 \<le> msum (\<lambda>m. cnt m j) (inv_view w)" by (rule msum_nonneg) (use ag in auto)
  have s2: "0 \<le> msum (\<lambda>t. box_items t j) (containers w)" by (rule msum_nonneg) (use bx0 in auto)
  have m1: "cnt m j \<le> msum (\<lambda>m. cnt m j) (inv_view w)" if "map_of (inv_view w) x = Some m" for x m
    by (rule msum_ge_member[OF map_of_SomeD[OF that]]) (use ag in auto)
  have m2: "box_items t j \<le> msum (\<lambda>t. box_items t j) (containers w)" if "map_of (containers w) p = Some t" for p t
    by (rule msum_ge_member[OF map_of_SomeD[OF that]]) (use bx0 in auto)
  show "map_of (inv_view w) x = Some m \<Longrightarrow> 0 \<le> cnt m j \<and> cnt m j \<le> held w j"
    using m1[of x m] ag[of x m] s2 by (auto simp: held_def dest: map_of_SomeD)
  show "map_of (containers w) p = Some t \<Longrightarrow> box_ok t \<and> 0 \<le> box_items t j \<and> box_items t j \<le> held w j"
    using m2[of p t] bx[of p t] bx0[of p t] s1 by (auto simp: held_def dest: map_of_SomeD)
  show "map_of (inv_view w) x = Some m \<Longrightarrow> map_of (containers w) p = Some t \<Longrightarrow> cnt m j + box_items t j \<le> held w j"
    using m1[of x m] m2[of p t] by (simp add: held_def)
  show "box_items t j + box_items u j \<le> held w j"
    if pq: "map_of (containers w) p = Some t" "map_of (containers w) q = Some u" "p \<noteq> q"
  proof -
    have wf: "wf_map (containers w)" using assms by (simp add: store_ok_def)
    have "map_of (mdel p (containers w)) q = Some u" using pq by (simp add: gomap)
    then have "box_items u j \<le> msum (\<lambda>t. box_items t j) (mdel p (containers w))"
    proof (rule msum_ge_member[OF map_of_SomeD])
      fix k v assume "(k, v) \<in> set (mdel p (containers w))"
      then have "map_of (mdel p (containers w)) k = Some v" using wf_map_mdel[OF wf, of p] by (simp add: wf_map_def)
      then have "map_of (containers w) k = Some v" by (simp add: gomap split: if_splits)
      then show "0 \<le> box_items v j" by (rule bx0[OF map_of_SomeD])
    qed
    then show ?thesis using msum_mdel[OF wf pq(1), of "\<lambda>t. box_items t j"] s1 by (simp add: held_def)
  qed
qed

lemma held_exact:
  assumes "store_ok w"
  shows "map_of (inv_view w) x = Some m \<Longrightarrow> 0 \<le> cnt m j \<and> cnt m j < 2 ^ 63"
    and "map_of (containers w) p = Some t \<Longrightarrow> box_ok t \<and> box_items t j < 2 ^ 63"
    and "map_of (inv_view w) x = Some m \<Longrightarrow> map_of (containers w) p = Some t \<Longrightarrow>
      cnt m j + box_items t j < 2 ^ 63"
proof -
  have lt: "held w j < 2 ^ 63" using assms by (simp add: store_ok_def)
  show "map_of (inv_view w) x = Some m \<Longrightarrow> 0 \<le> cnt m j \<and> cnt m j < 2 ^ 63"
    using held_parts(1)[OF assms, of x m j] lt by linarith
  show "map_of (containers w) p = Some t \<Longrightarrow> box_ok t \<and> box_items t j < 2 ^ 63"
    using held_parts(2)[OF assms, of p t j] lt by linarith
  show "map_of (inv_view w) x = Some m \<Longrightarrow> map_of (containers w) p = Some t \<Longrightarrow> cnt m j + box_items t j < 2 ^ 63"
    using held_parts(3)[OF assms, of x m p t j] lt by linarith
qed

text \<open>Changing one agent and one terminal so that nothing is gained or lost.\<close>

lemma store_move:
  assumes ok: "store_ok w" and m: "map_of (inv_view w) x = Some m" and t: "map_of (containers w) p = Some t"
    and v: "inv_view w' = mput x m' (inv_view w)" and c: "containers w' = mput p t' (containers w)"
    and m': "\<And>j. 0 \<le> cnt m' j" and t': "box_ok t'"
    and bal: "\<And>j. cnt m' j + box_items t' j = cnt m j + box_items t j"
  shows "store_ok w' \<and> (\<forall>j. held w' j = held w j)"
proof -
  have h: "held w' j = held w j" for j
    using bal[of j] by (simp add: held_def v c msum_mput_Some[OF m] msum_mput_Some[OF t])
  show ?thesis
  proof (intro conjI allI h)
    show "store_ok w'"
      unfolding store_ok_def h
    proof (intro conjI)
      show "\<forall>(x, m) \<in> set (inv_view w'). \<forall>j. 0 \<le> cnt m j"
        unfolding v by (rule ball_mput) (use ok m' in \<open>simp_all add: store_ok_def\<close>)
      show "\<forall>(p, t) \<in> set (containers w'). box_ok t"
        unfolding c by (rule ball_mput) (use ok t' in \<open>simp_all add: store_ok_def\<close>)
      show "map_of (inv_view w') [] = None" using ok m by (auto simp: v gomap store_ok_def)
    qed (use ok in \<open>auto simp: store_ok_def v c\<close>)
  qed
qed

lemma store_box:
  assumes ok: "store_ok w" and t: "map_of (containers w) p = Some t"
    and v: "inv_view w' = inv_view w" and c: "containers w' = mput p t' (containers w)"
    and t': "box_ok t'" and bal: "\<And>j. box_items t' j = box_items t j"
  shows "store_ok w' \<and> (\<forall>j. held w' j = held w j)"
proof -
  have h: "held w' j = held w j" for j
    using bal[of j] by (simp add: held_def v c msum_mput_Some[OF t])
  show ?thesis
  proof (intro conjI allI h)
    have "\<forall>(p, t) \<in> set (containers w'). box_ok t"
      unfolding c by (rule ball_mput) (use ok t' in \<open>simp_all add: store_ok_def\<close>)
    then show "store_ok w'" using ok by (auto simp: store_ok_def h v c)
  qed
qed

subsection \<open>Flows\<close>

text \<open>
  What a group of statements does around one terminal: by how much the agents' inventories, the
  terminal's inventory and its reservations change, with nothing gained or lost over all.
\<close>

definition unit_at :: "string \<Rightarrow> int \<Rightarrow> string \<Rightarrow> int" where
  "unit_at k n j = (if j = k then n else 0)"

definition flow ::
  "vec3 \<Rightarrow> (string \<Rightarrow> string \<Rightarrow> int) \<Rightarrow> (string \<Rightarrow> int) \<Rightarrow> (string \<Rightarrow> int) \<Rightarrow> world \<Rightarrow> world \<Rightarrow> bool" where
  "flow p D V R w w' \<longleftrightarrow>
     store_ok w' \<and> (\<forall>j. held w' j = held w j) \<and> contracts w' = contracts w \<and>
     nextContractNum w' = nextContractNum w \<and>
     (\<forall>x. rel_option (\<lambda>m m'. \<forall>j. cnt m' j = cnt m j + D x j) (map_of (inv_view w) x) (map_of (inv_view w') x)) \<and>
     (\<forall>q. q \<noteq> p \<longrightarrow> map_of (containers w') q = map_of (containers w) q) \<and>
     (\<exists>t t'. map_of (containers w) p = Some t \<and> map_of (containers w') p = Some t' \<and> CType t' = CType t \<and>
        (\<forall>j. cnt (Inventory t') j = cnt (Inventory t) j + V j \<and> cnt (Reserved t') j = cnt (Reserved t) j + R j))"

lemma unit_at_nonneg [simp]: "0 \<le> n \<Longrightarrow> 0 \<le> unit_at k n j"
  by (simp add: unit_at_def)

lemma flow_refl: "store_ok w \<Longrightarrow> map_of (containers w) p = Some t \<Longrightarrow> flow p (\<lambda>_ _. 0) (\<lambda>_. 0) (\<lambda>_. 0) w w"
  by (simp add: flow_def option.rel_refl)

lemma flow_trans:
  assumes 1: "flow p D1 V1 R1 w w1" and 2: "flow p D2 V2 R2 w1 w2"
  shows "flow p (\<lambda>x j. D1 x j + D2 x j) (\<lambda>j. V1 j + V2 j) (\<lambda>j. R1 j + R2 j) w w2"
proof -
  have rel: "rel_option (\<lambda>m m'. \<forall>j. cnt m' j = cnt m j + (D1 x j + D2 x j)) (map_of (inv_view w) x) (map_of (inv_view w2) x)" for x
  proof -
    have "rel_option (\<lambda>m m'. \<forall>j. cnt m' j = cnt m j + D1 x j) (map_of (inv_view w) x) (map_of (inv_view w1) x)"
      and "rel_option (\<lambda>m m'. \<forall>j. cnt m' j = cnt m j + D2 x j) (map_of (inv_view w1) x) (map_of (inv_view w2) x)"
      using 1 2 by (simp_all add: flow_def)
    then show ?thesis
      by (cases "map_of (inv_view w) x"; cases "map_of (inv_view w1) x"; cases "map_of (inv_view w2) x") auto
  qed
  from 1 obtain t t1 where t1: "map_of (containers w) p = Some t" "map_of (containers w1) p = Some t1" "CType t1 = CType t"
    "\<And>j. cnt (Inventory t1) j = cnt (Inventory t) j + V1 j" "\<And>j. cnt (Reserved t1) j = cnt (Reserved t) j + R1 j"
    by (auto simp: flow_def)
  from 2 t1(2) obtain t2 where t2: "map_of (containers w2) p = Some t2" "CType t2 = CType t1"
    "\<And>j. cnt (Inventory t2) j = cnt (Inventory t1) j + V2 j" "\<And>j. cnt (Reserved t2) j = cnt (Reserved t1) j + R2 j"
    by (auto simp: flow_def)
  have "\<exists>t t'. map_of (containers w) p = Some t \<and> map_of (containers w2) p = Some t' \<and> CType t' = CType t \<and>
        (\<forall>j. cnt (Inventory t') j = cnt (Inventory t) j + (V1 j + V2 j) \<and>
          cnt (Reserved t') j = cnt (Reserved t) j + (R1 j + R2 j))"
    using t1 t2 by (intro exI[of _ t] exI[of _ t2]) auto
  with 1 2 rel show ?thesis unfolding flow_def by auto
qed

lemma flow_agent:
  "flow p D V R w w' \<Longrightarrow> map_of (inv_view w) x = Some m \<Longrightarrow>
    \<exists>m'. map_of (inv_view w') x = Some m' \<and> (\<forall>j. cnt m' j = cnt m j + D x j)"
proof -
  assume f: "flow p D V R w w'" and m: "map_of (inv_view w) x = Some m"
  have "rel_option (\<lambda>m m'. \<forall>j. cnt m' j = cnt m j + D x j) (map_of (inv_view w) x) (map_of (inv_view w') x)"
    using f by (simp add: flow_def)
  then show ?thesis unfolding m by (cases "map_of (inv_view w') x") simp_all
qed

lemma flow_no_agent: "flow p D V R w w' \<Longrightarrow> map_of (inv_view w') x = None \<longleftrightarrow> map_of (inv_view w) x = None"
proof -
  assume f: "flow p D V R w w'"
  have "rel_option (\<lambda>m m'. \<forall>j. cnt m' j = cnt m j + D x j) (map_of (inv_view w) x) (map_of (inv_view w') x)"
    using f by (simp add: flow_def)
  then show ?thesis by (cases "map_of (inv_view w) x"; cases "map_of (inv_view w') x") simp_all
qed

lemma flow_box:
  "flow p D V R w w' \<Longrightarrow> map_of (containers w) p = Some t \<Longrightarrow>
    \<exists>t'. map_of (containers w') p = Some t' \<and> CType t' = CType t \<and>
      (\<forall>j. cnt (Inventory t') j = cnt (Inventory t) j + V j \<and> cnt (Reserved t') j = cnt (Reserved t) j + R j)"
  by (auto simp: flow_def)

text \<open>
  A loop over an item map with distinct keys, each pass of which moves its own item only: the
  amounts are those of the map.  \<open>pre k n w\<close> is what the pass for \<open>k\<close> needs; the other passes keep it.
\<close>

lemma flow_loop:
  assumes "wf_map its"
    and "store_ok w" and "map_of (containers w) p = Some t"
    and "\<And>k n. (k, n) \<in> set its \<Longrightarrow> pre k n w"
    and step: "\<And>k n w. (k, n) \<in> set its \<Longrightarrow> store_ok w \<Longrightarrow> pre k n w \<Longrightarrow>
      flow p (\<lambda>x j. cx x * unit_at k n j) (\<lambda>j. cv * unit_at k n j) (\<lambda>j. cr * unit_at k n j) w (f k n w)"
    and keep: "\<And>k n k' n' w w'. k' \<noteq> k \<Longrightarrow> pre k' n' w \<Longrightarrow>
      flow p (\<lambda>x j. cx x * unit_at k n j) (\<lambda>j. cv * unit_at k n j) (\<lambda>j. cr * unit_at k n j) w w' \<Longrightarrow> pre k' n' w'"
  shows "flow p (\<lambda>x j. cx x * cnt its j) (\<lambda>j. cv * cnt its j) (\<lambda>j. cr * cnt its j) w (for_items f its w)"
  using assms(1-5)
proof (induction its arbitrary: w t)
  case Nil
  then show ?case using flow_refl[of w p t] by simp
next
  case (Cons q its)
  obtain k n where q: "q = (k, n)" by (cases q)
  have wf: "wf_map its" "map_of its k = None" using Cons.prems(1) by (auto simp: q wf_map_Cons)
  have 1: "flow p (\<lambda>x j. cx x * unit_at k n j) (\<lambda>j. cv * unit_at k n j) (\<lambda>j. cr * unit_at k n j) w (f k n w)"
    using Cons.prems(2,4,5) by (simp add: q)
  obtain t' where t': "map_of (containers (f k n w)) p = Some t'" using 1 by (auto simp: flow_def)
  have ok: "store_ok (f k n w)" using 1 by (simp add: flow_def)
  have pre: "pre k' n' (f k n w)" if "(k', n') \<in> set its" for k' n'
  proof (rule keep[OF _ _ 1])
    show "k' \<noteq> k" using that wf(2) by (force simp: map_of_eq_None_iff)
    show "pre k' n' w" using Cons.prems(4) that by (simp add: q)
  qed
  have 2: "flow p (\<lambda>x j. cx x * cnt its j) (\<lambda>j. cv * cnt its j) (\<lambda>j. cr * cnt its j) (f k n w) (for_items f its (f k n w))"
    by (rule Cons.IH[OF wf(1) ok t' pre]) (use Cons.prems(5) in auto)
  have e: "c * unit_at k n j + c * cnt its j = c * cnt (q # its) j" for c j
    using wf(2) by (auto simp: q unit_at_def cnt_def)
  show ?case using flow_trans[OF 1 2] by (simp add: e) (simp add: q)
qed

lemma flow_move:
  assumes ok: "store_ok w" and m: "map_of (inv_view w) x = Some m" and t: "map_of (containers w) p = Some t"
    and v: "inv_view w' = mput x m' (inv_view w)" and c: "containers w' = mput p t' (containers w)"
    and same: "contracts w' = contracts w" "nextContractNum w' = nextContractNum w"
    and t': "box_ok t'" "CType t' = CType t"
    and m': "\<And>j. 0 \<le> cnt m' j" "\<And>j. cnt m' j = cnt m j + d j"
    and bal: "\<And>j. box_items t' j = box_items t j - d j"
    and VR: "\<And>j. cnt (Inventory t') j = cnt (Inventory t) j + V j" "\<And>j. cnt (Reserved t') j = cnt (Reserved t) j + R j"
    and D: "\<And>y j. D y j = (if y = x then d j else 0)"
  shows "flow p D V R w w'"
proof -
  have "store_ok w' \<and> (\<forall>j. held w' j = held w j)"
    by (rule store_move[OF ok m t v c m'(1) t'(1)]) (use bal m'(2) in simp)
  moreover have "rel_option (\<lambda>m m'. \<forall>j. cnt m' j = cnt m j + D y j) (map_of (inv_view w) y) (map_of (inv_view w') y)" for y
    using m m'(2) by (cases "map_of (inv_view w) y") (auto simp: v gomap D)
  ultimately show ?thesis using t t'(2) VR same by (simp add: flow_def c gomap)
qed

lemma flow_move_box:
  assumes ok: "store_ok w" and t: "map_of (containers w) p = Some t"
    and v: "inv_view w' = inv_view w" and c: "containers w' = mput p t' (containers w)"
    and same: "contracts w' = contracts w" "nextContractNum w' = nextContractNum w"
    and t': "box_ok t'" "CType t' = CType t"
    and bal: "\<And>j. box_items t' j = box_items t j"
    and VR: "\<And>j. cnt (Inventory t') j = cnt (Inventory t) j + V j" "\<And>j. cnt (Reserved t') j = cnt (Reserved t) j + R j"
    and D: "\<And>y j. D y j = 0"
  shows "flow p D V R w w'"
proof -
  have "store_ok w' \<and> (\<forall>j. held w' j = held w j)" by (rule store_box[OF ok t v c t'(1) bal])
  moreover have "rel_option (\<lambda>m m'. \<forall>j. cnt m' j = cnt m j + D y j) (map_of (inv_view w) y) (map_of (inv_view w') y)" for y
    by (cases "map_of (inv_view w) y") (auto simp: v D)
  ultimately show ?thesis using t t'(2) VR same by (simp add: flow_def c gomap)
qed

lemma agent_ops:
  assumes "map_of (inv_view w) x = Some m"
  shows "inv_view (give_agent x k n w) = mput x (madd m k n) (inv_view w)"
    and "inv_view (take_agent x k n w) = mput x (msub m k n) (inv_view w)"
  using assms by (auto simp: give_agent_def take_agent_def inv_view_upd map_of_inv_view)

lemma agent_ops_fields [simp]:
  "containers (give_agent x k n w) = containers w" "contracts (give_agent x k n w) = contracts w"
  "containers (take_agent x k n w) = containers w" "contracts (take_agent x k n w) = contracts w"
  "nextContractNum (give_agent x k n w) = nextContractNum w"
  "nextContractNum (take_agent x k n w) = nextContractNum w"
  by (simp_all add: give_agent_def take_agent_def)

lemma box_op: "map_of (containers w) p = Some t \<Longrightarrow> containers (upd_container p f w) = mput p (f t) (containers w)"
  by (simp add: upd_container_def)

lemma box_ops_fields [simp]:
  "inv_view (put_box p k n w) = inv_view w" "inv_view (take_box p k n w) = inv_view w"
  "contracts (put_box p k n w) = contracts w" "contracts (take_box p k n w) = contracts w"
  "nextContractNum (put_box p k n w) = nextContractNum w" "nextContractNum (take_box p k n w) = nextContractNum w"
  "agents (put_box p k n w) = agents w" "agents (take_box p k n w) = agents w"
  by (simp_all add: put_box_def take_box_def)

lemma box_okD:
  assumes "box_ok t"
  shows "0 \<le> cnt (Reserved t) j" "cnt (Reserved t) j \<le> cnt (Inventory t) j" "0 \<le> cnt (Inventory t) j"
    "cnt (Inventory t) j \<le> box_items t j" "0 \<le> owed_count t x j" "owed_count t x j \<le> msum (\<lambda>m. cnt m j) (Owed t)"
proof -
  show r: "0 \<le> cnt (Reserved t) j" "cnt (Reserved t) j \<le> cnt (Inventory t) j" using assms by (auto simp: box_ok_def)
  then show "0 \<le> cnt (Inventory t) j" by linarith
  have ow: "0 \<le> cnt m j" if "(y, m) \<in> set (Owed t)" for y m using assms that by (auto simp: box_ok_def)
  have s: "0 \<le> msum (\<lambda>m. cnt m j) (Owed t)" by (rule msum_nonneg) (use ow in auto)
  then show "cnt (Inventory t) j \<le> box_items t j" by (simp add: box_items_def)
  show "0 \<le> owed_count t x j" using ow by (auto simp: owed_count_def dest!: map_of_SomeD split: option.split)
  show "owed_count t x j \<le> msum (\<lambda>m. cnt m j) (Owed t)"
  proof (cases "map_of (Owed t) x")
    case (Some m)
    have "cnt m j \<le> msum (\<lambda>m. cnt m j) (Owed t)"
      by (rule msum_ge_member[OF map_of_SomeD[OF Some]]) (use ow in auto)
    with Some show ?thesis by (simp add: owed_count_def)
  qed (use s in \<open>simp add: owed_count_def\<close>)
qed

lemma take_count:
  assumes "0 \<le> n" "n \<le> cnt m k" "cnt m k < 2 ^ 63"
  shows "cnt (mprune (msub m k n) k) j = cnt m j - unit_at k n j"
proof -
  have "i64 (cnt m k - n) = cnt m k - n" by (rule i64_nonneg) (use assms in auto)
  with assms show ?thesis by (simp add: gomap unit_at_def)
qed

lemma add_count:
  assumes "0 \<le> cnt m k" "0 \<le> n" "cnt m k + n < 2 ^ 63"
  shows "cnt (madd m k n) j = cnt m j + unit_at k n j"
proof -
  have "i64 (cnt m k + n) = cnt m k + n" by (rule i64_nonneg) (use assms in auto)
  then show ?thesis by (simp add: gomap unit_at_def)
qed

lemma sub_count:
  assumes "0 \<le> n" "n \<le> cnt m k" "cnt m k < 2 ^ 63"
  shows "cnt (msub m k n) j = cnt m j - unit_at k n j"
proof -
  have "i64 (cnt m k - n) = cnt m k - n" by (rule i64_nonneg) (use assms in auto)
  then show ?thesis by (simp add: gomap unit_at_def)
qed

lemma reserve_count:
  assumes "0 \<le> cnt (Reserved t) k" "0 \<le> n" "cnt (Reserved t) k + n < 2 ^ 63"
  shows "cnt (Reserved (Reserve k n t)) j = cnt (Reserved t) j + unit_at k n j"
  using add_count[OF assms] assms(2) by (auto simp: Reserve_def unit_at_def)

lemma unreserve_count:
  assumes "0 \<le> n" "n \<le> cnt (Reserved t) k" "cnt (Reserved t) k < 2 ^ 63"
  shows "cnt (Reserved (Unreserve k n t)) j = cnt (Reserved t) j - unit_at k n j"
  using take_count[OF assms] assms by (auto simp: Unreserve_def unit_at_def)

lemma owed_sum_AddOwed:
  assumes "box_ok t" "0 \<le> n" "box_items t k + n < 2 ^ 63"
  shows "msum (\<lambda>m. cnt m j) (Owed (AddOwed x k n t)) = msum (\<lambda>m. cnt m j) (Owed t) + unit_at k n j"
    and "box_ok (AddOwed x k n t)"
proof -
  define m where "m = (case map_of (Owed t) x of None \<Rightarrow> [] | Some m \<Rightarrow> m)"
  have c: "cnt m j = owed_count t x j" for j by (simp add: m_def owed_count_def split: option.split)
  have m: "wf_map m" using assms(1) by (auto simp: m_def box_ok_def dest!: map_of_SomeD split: option.split)
  note b = box_okD[OF assms(1)]
  have "owed_count t x k + n < 2 ^ 63"
    using assms(3) b(6)[of x k] b(3)[of k] by (simp add: box_items_def)
  then have add: "cnt (madd m k n) j = cnt m j + unit_at k n j" for j
    using add_count[of m k n] b(5)[of x k] assms(2) by (simp add: c)
  have ow: "Owed (AddOwed x k n t) = mput x (madd m k n) (Owed t)" if "0 < n"
    using that by (simp add: AddOwed_def m_def Let_def)
  show "msum (\<lambda>m. cnt m j) (Owed (AddOwed x k n t)) = msum (\<lambda>m. cnt m j) (Owed t) + unit_at k n j"
  proof (cases "0 < n")
    case True
    show ?thesis
    proof (cases "map_of (Owed t) x")
      case None
      then show ?thesis using True add[of j] by (simp add: ow msum_mput_None m_def)
    next
      case (Some u)
      then show ?thesis using True add[of j] by (simp add: ow msum_mput_Some m_def)
    qed
  qed (use assms(2) in \<open>simp add: AddOwed_def unit_at_def\<close>)
  show "box_ok (AddOwed x k n t)"
  proof (cases "0 < n")
    case True
    have nn: "0 \<le> cnt (madd m k n) j" for j
      using add[of j] assms(2) b(5)[of x j] by (simp add: c unit_at_def)
    have "\<forall>y \<in> set (Owed (AddOwed x k n t)). case y of (x, m) \<Rightarrow> wf_map m \<and> (\<forall>j. 0 \<le> cnt m j)"
      unfolding ow[OF True] by (rule ball_mput) (use assms(1) m nn in \<open>auto simp: box_ok_def\<close>)
    then show ?thesis using assms(1) ow[OF True] by (simp add: box_ok_def)
  qed (use assms(1) in \<open>simp add: AddOwed_def\<close>)
qed

subsection \<open>The steps of the loops\<close>

lemma step_escrow:
  assumes ok: "store_ok w" and m: "map_of (inv_view w) x = Some m" and t: "map_of (containers w) p = Some t"
    and n: "0 \<le> n" "n \<le> cnt m k"
  shows "flow p (\<lambda>y j. (if y = x then -1 else 0) * unit_at k n j) (\<lambda>j. 1 * unit_at k n j) (\<lambda>j. 1 * unit_at k n j) w
    (upd_container p (Reserve k n) (put_box p k n (take_agent x k n w)))"
proof (rule flow_move[OF ok m t, where d = "\<lambda>j. - unit_at k n j"])
  let ?t1 = "t\<lparr>Inventory := madd (Inventory t) k n\<rparr>"
  note ex = held_exact[OF ok]
  note mb = ex(1)[OF m, of k] and bb = ex(2)[OF t, of k] and both = ex(3)[OF m t, of k]
  then have bx: "box_ok t" by blast
  note b = box_okD[OF bx]
  have sm: "cnt (Inventory t) k + n < 2 ^ 63" using both b(4)[of k] n(2) by linarith
  have inv: "cnt (madd (Inventory t) k n) j = cnt (Inventory t) j + unit_at k n j" for j
    by (rule add_count) (use b(3)[of k] n sm in auto)
  have res: "cnt (Reserved (Reserve k n ?t1)) j = cnt (Reserved t) j + unit_at k n j" for j
    using reserve_count[of ?t1 k n j] b(1,2)[of k] n sm by simp
  have ag: "cnt (msub m k n) j = cnt m j - unit_at k n j" for j
    by (rule sub_count) (use n mb in auto)
  show "inv_view (upd_container p (Reserve k n) (put_box p k n (take_agent x k n w))) = mput x (msub m k n) (inv_view w)"
    using agent_ops(2)[OF m] by simp
  show "containers (upd_container p (Reserve k n) (put_box p k n (take_agent x k n w))) =
    mput p (Reserve k n ?t1) (containers w)"
    using t by (simp add: put_box_def upd_container_twice box_op comp_def)
  show "box_ok (Reserve k n ?t1)"
    using bx n(1) unfolding box_ok_def res by (auto simp: inv intro: add_nonneg_nonneg)
  show "0 \<le> cnt (msub m k n) j" for j using ag[of j] ex(1)[OF m, of j] n by (simp add: unit_at_def)
  show "cnt (msub m k n) j = cnt m j + - unit_at k n j" for j by (simp add: ag)
  show "box_items (Reserve k n ?t1) j = box_items t j - - unit_at k n j" for j by (simp add: box_items_def inv)
  show "cnt (Inventory (Reserve k n ?t1)) j = cnt (Inventory t) j + 1 * unit_at k n j"
    and "cnt (Reserved (Reserve k n ?t1)) j = cnt (Reserved t) j + 1 * unit_at k n j" for j by (simp_all add: inv res)
qed (simp_all add: put_box_def)

text \<open>
  Taking items out of a terminal, released from escrow first or not (\<open>rel\<close>), for an agent who is there
  or to be owed to one who is not.
\<close>

definition release :: "bool \<Rightarrow> vec3 \<Rightarrow> string \<Rightarrow> int \<Rightarrow> world \<Rightarrow> world" where
  "release rel p k n w = take_box p k n (if rel then upd_container p (Unreserve k n) w else w)"

definition rel_sign :: "bool \<Rightarrow> int" where
  "rel_sign rel = (if rel then -1 else 0)"

lemma release_box:
  assumes ok: "store_ok w" and t: "map_of (containers w) p = Some t" and n: "0 \<le> n"
    and en: "if rel then n \<le> cnt (Reserved t) k else n \<le> cnt (Inventory t) k - cnt (Reserved t) k"
  obtains t' where "containers (release rel p k n w) = mput p t' (containers w)" and "inv_view (release rel p k n w) = inv_view w"
    and "contracts (release rel p k n w) = contracts w" and "nextContractNum (release rel p k n w) = nextContractNum w"
    and "box_ok t'" and "CType t' = CType t" and "Owed t' = Owed t"
    and "\<And>j. cnt (Inventory t') j = cnt (Inventory t) j - unit_at k n j"
    and "\<And>j. cnt (Reserved t') j = cnt (Reserved t) j + rel_sign rel * unit_at k n j"
proof -
  let ?t1 = "if rel then Unreserve k n t else t"
  let ?t' = "?t1\<lparr>Inventory := mprune (msub (Inventory t) k n) k\<rparr>"
  have bx: "box_ok t" and lt: "box_items t k < 2 ^ 63" using held_exact(2)[OF ok t] by blast+
  note b = box_okD[OF bx]
  have le: "n \<le> cnt (Inventory t) k" "cnt (Inventory t) k < 2 ^ 63" using en b(1,2)[of k] b(4)[of k] lt by (auto split: if_splits)
  have inv: "cnt (Inventory ?t') j = cnt (Inventory t) j - unit_at k n j" for j using take_count[OF n le, of j] by simp
  have res: "cnt (Reserved ?t') j = cnt (Reserved t) j + rel_sign rel * unit_at k n j" for j
  proof (cases rel)
    case True
    then have "n \<le> cnt (Reserved t) k" using en by simp
    moreover have "cnt (Reserved t) k < 2 ^ 63" using b(2)[of k] le(2) by simp
    ultimately show ?thesis using unreserve_count[of n t k j] n True by (simp add: rel_sign_def)
  qed (simp add: rel_sign_def)
  show thesis
  proof (rule that[of ?t'])
    show "containers (release rel p k n w) = mput p ?t' (containers w)"
      using t by (simp add: release_def take_box_def upd_container_twice box_op comp_def)
    show "inv_view (release rel p k n w) = inv_view w" "contracts (release rel p k n w) = contracts w"
      "nextContractNum (release rel p k n w) = nextContractNum w" by (simp_all add: release_def)
    show "box_ok ?t'"
    proof -
      have "0 \<le> cnt (Reserved ?t') j \<and> cnt (Reserved ?t') j \<le> cnt (Inventory ?t') j" for j
        unfolding inv res using en b(1,2)[of j] b(1,2)[of k] by (cases rel) (auto simp: rel_sign_def unit_at_def)
      then show ?thesis using bx by (simp add: box_ok_def)
    qed
    show "cnt (Inventory ?t') j = cnt (Inventory t) j - unit_at k n j" for j by (rule inv)
    show "cnt (Reserved ?t') j = cnt (Reserved t) j + rel_sign rel * unit_at k n j" for j by (rule res)
  qed simp_all
qed

lemma step_pay:
  assumes ok: "store_ok w" and m: "map_of (inv_view w) x = Some m" and t: "map_of (containers w) p = Some t"
    and n: "0 \<le> n" and en: "if rel then n \<le> cnt (Reserved t) k else n \<le> cnt (Inventory t) k - cnt (Reserved t) k"
  shows "flow p (\<lambda>y j. (if y = x then 1 else 0) * unit_at k n j) (\<lambda>j. -1 * unit_at k n j) (\<lambda>j. rel_sign rel * unit_at k n j)
    w (give_agent x k n (release rel p k n w))"
proof -
  note ex = held_exact[OF ok]
  obtain t' where t': "containers (release rel p k n w) = mput p t' (containers w)" "inv_view (release rel p k n w) = inv_view w"
    "contracts (release rel p k n w) = contracts w" "nextContractNum (release rel p k n w) = nextContractNum w"
    "box_ok t'" "CType t' = CType t" "Owed t' = Owed t"
    "\<And>j. cnt (Inventory t') j = cnt (Inventory t) j - unit_at k n j"
    "\<And>j. cnt (Reserved t') j = cnt (Reserved t) j + rel_sign rel * unit_at k n j"
    using release_box[OF ok t n en] by blast
  have bx: "box_ok t" using ex(2)[OF t, of k] by blast
  note b = box_okD[OF bx]
  have ag: "cnt (madd m k n) j = cnt m j + unit_at k n j" for j
  proof (rule add_count)
    have "n \<le> cnt (Inventory t) k" using en b(1,2)[of k] by (auto split: if_splits)
    then show "cnt m k + n < 2 ^ 63" using ex(3)[OF m t, of k] b(4)[of k] by linarith
  qed (use ex(1)[OF m, of k] n in auto)
  show ?thesis
  proof (rule flow_move[OF ok m t, where d = "\<lambda>j. unit_at k n j" and t' = t' and m' = "madd m k n"])
    show "inv_view (give_agent x k n (release rel p k n w)) = mput x (madd m k n) (inv_view w)"
      using agent_ops(1)[of "release rel p k n w" x m k n] m t'(2) by simp
    show "0 \<le> cnt (madd m k n) j" for j unfolding ag by (intro add_nonneg_nonneg) (use ex(1)[OF m] n in auto)
  qed (simp_all add: t' ag box_items_def)
qed

lemma step_owe:
  assumes ok: "store_ok w" and t: "map_of (containers w) p = Some t"
    and n: "0 \<le> n" and en: "if rel then n \<le> cnt (Reserved t) k else n \<le> cnt (Inventory t) k - cnt (Reserved t) k"
  shows "flow p (\<lambda>y j. 0 * unit_at k n j) (\<lambda>j. -1 * unit_at k n j) (\<lambda>j. rel_sign rel * unit_at k n j)
    w (upd_container p (AddOwed x k n) (release rel p k n w))"
proof -
  note ex = held_exact[OF ok]
  obtain t' where t': "containers (release rel p k n w) = mput p t' (containers w)" "inv_view (release rel p k n w) = inv_view w"
    "contracts (release rel p k n w) = contracts w" "nextContractNum (release rel p k n w) = nextContractNum w"
    "box_ok t'" "CType t' = CType t" "Owed t' = Owed t"
    "\<And>j. cnt (Inventory t') j = cnt (Inventory t) j - unit_at k n j"
    "\<And>j. cnt (Reserved t') j = cnt (Reserved t) j + rel_sign rel * unit_at k n j"
    using release_box[OF ok t n en] by blast
  have lt: "box_items t' k + n < 2 ^ 63"
    using ex(2)[OF t, of k] by (simp add: box_items_def t' unit_at_def)
  note ow = owed_sum_AddOwed[OF t'(5) n lt]
  have mm: "mput p u (mput p v l) = mput p u l" for u v :: container and l
    by (induction l) (auto simp: mput_def)
  have c: "containers (upd_container p (AddOwed x k n) (release rel p k n w)) = mput p (AddOwed x k n t') (containers w)"
    by (simp add: upd_container_def t'(1) gomap mm)
  show ?thesis
  proof (rule flow_move_box[OF ok t _ c])
    show "box_ok (AddOwed x k n t')" by (rule ow(2))
    show "box_items (AddOwed x k n t') j = box_items t j" for j
      by (simp add: box_items_def t' ow(1))
  qed (simp_all add: t')
qed

subsection \<open>The loops\<close>

definition amounts_ok :: "items \<Rightarrow> bool" where
  "amounts_ok its \<longleftrightarrow> wf_map its \<and> (\<forall>(k, n) \<in> set its. 0 \<le> n)"

lemma amounts_okD: "amounts_ok its \<Longrightarrow> wf_map its" "amounts_ok its \<Longrightarrow> (k, n) \<in> set its \<Longrightarrow> 0 \<le> n"
  by (auto simp: amounts_ok_def)

lemma amounts_cnt: "amounts_ok its \<Longrightarrow> 0 \<le> cnt its j"
  by (auto simp: amounts_ok_def cnt_def dest!: map_of_SomeD split: option.split)

lemma amounts_in: "amounts_ok its \<Longrightarrow> (k, n) \<in> set its \<Longrightarrow> cnt its k = n"
  by (simp add: amounts_ok_def cnt_in_set)

lemma escrow_items_flow:
  assumes ok: "store_ok w" and m: "map_of (inv_view w) x = Some m" and t: "map_of (containers w) p = Some t"
    and its: "amounts_ok its" and has: "\<And>k. cnt its k \<le> cnt m k"
  shows "flow p (\<lambda>y j. (if y = x then -1 else 0) * cnt its j) (\<lambda>j. 1 * cnt its j) (\<lambda>j. 1 * cnt its j) w
    (escrow_items x p its w)"
  unfolding escrow_items_def
proof (rule flow_loop[where pre = "\<lambda>k n w. \<exists>m t. map_of (inv_view w) x = Some m \<and> map_of (containers w) p = Some t \<and> n \<le> cnt m k",
      OF amounts_okD(1)[OF its] ok t])
  show "\<exists>m t. map_of (inv_view w) x = Some m \<and> map_of (containers w) p = Some t \<and> n \<le> cnt m k" if "(k, n) \<in> set its" for k n
    using has[of k] amounts_in[OF its that] m t by auto
next
  fix k n w
  assume "(k, n) \<in> set its" "store_ok w" "\<exists>m t. map_of (inv_view w) x = Some m \<and> map_of (containers w) p = Some t \<and> n \<le> cnt m k"
  then show "flow p (\<lambda>xa j. (if xa = x then -1 else 0) * unit_at k n j) (\<lambda>j. 1 * unit_at k n j) (\<lambda>j. 1 * unit_at k n j) w
      (upd_container p (Reserve k n) (put_box p k n (take_agent x k n w)))"
    using step_escrow amounts_okD(2)[OF its] by blast
next
  fix k n k' n' w w'
  assume k: "k' \<noteq> k" and pre: "\<exists>m t. map_of (inv_view w) x = Some m \<and> map_of (containers w) p = Some t \<and> n' \<le> cnt m k'"
    and f: "flow p (\<lambda>xa j. (if xa = x then -1 else 0) * unit_at k n j) (\<lambda>j. 1 * unit_at k n j) (\<lambda>j. 1 * unit_at k n j) w w'"
  from pre obtain m t where mt: "map_of (inv_view w) x = Some m" "map_of (containers w) p = Some t" "n' \<le> cnt m k'" by blast
  show "\<exists>m t. map_of (inv_view w') x = Some m \<and> map_of (containers w') p = Some t \<and> n' \<le> cnt m k'"
    using flow_agent[OF f mt(1)] flow_box[OF f mt(2)] mt(3) k by (auto simp: unit_at_def)
qed

text \<open>What a release of \<open>n\<close> items needs of the terminal.\<close>

definition can_release :: "bool \<Rightarrow> container \<Rightarrow> string \<Rightarrow> int \<Rightarrow> bool" where
  "can_release rel t k n \<longleftrightarrow> (if rel then n \<le> cnt (Reserved t) k else n \<le> cnt (Inventory t) k - cnt (Reserved t) k)"

lemma can_release_other:
  assumes "can_release rel t k' n'" "k' \<noteq> k"
    and "\<And>j. cnt (Inventory t') j = cnt (Inventory t) j + -1 * unit_at k n j"
    and "\<And>j. cnt (Reserved t') j = cnt (Reserved t) j + rel_sign rel * unit_at k n j"
  shows "can_release rel t' k' n'"
  using assms by (simp add: can_release_def unit_at_def)

text \<open>
  A loop whose pass skips \<open>n <= 0\<close> and otherwise releases the item and hands it to \<open>x\<close>, who is there
  (\<open>cx = 1\<close>), or has it owed (\<open>cx = 0\<close>).
\<close>

lemma release_loop:
  assumes ok: "store_ok w" and t: "map_of (containers w) p = Some t" and its: "amounts_ok its"
    and en: "\<And>k. can_release rel t k (cnt its k)"
    and there: "map_of (inv_view w) x \<noteq> None \<longleftrightarrow> there"
    and body: "\<And>k n w. 0 < n \<Longrightarrow> (map_of (inv_view w) x \<noteq> None \<longleftrightarrow> there) \<Longrightarrow>
      f k n w = (if pays then give_agent x k n (release rel p k n w) else upd_container p (AddOwed x k n) (release rel p k n w))"
    and skip: "\<And>k n w. n \<le> 0 \<Longrightarrow> f k n w = w" and pays: "pays \<Longrightarrow> there"
  shows "flow p (\<lambda>y j. (if pays \<and> y = x then 1 else 0) * cnt its j) (\<lambda>j. -1 * cnt its j) (\<lambda>j. rel_sign rel * cnt its j) w
    (for_items f its w)"
proof (rule flow_loop[where pre = "\<lambda>k n w. \<exists>t. map_of (containers w) p = Some t \<and> can_release rel t k n \<and>
      (map_of (inv_view w) x \<noteq> None \<longleftrightarrow> there)", OF amounts_okD(1)[OF its] ok t])
  show "\<exists>t. map_of (containers w) p = Some t \<and> can_release rel t k n \<and> (map_of (inv_view w) x \<noteq> None \<longleftrightarrow> there)"
    if "(k, n) \<in> set its" for k n
    using en[of k] amounts_in[OF its that] t there by auto
next
  fix k n w
  assume n: "(k, n) \<in> set its" and ok: "store_ok w"
    and pre: "\<exists>t. map_of (containers w) p = Some t \<and> can_release rel t k n \<and> (map_of (inv_view w) x \<noteq> None \<longleftrightarrow> there)"
  have n0: "0 \<le> n" using amounts_okD(2)[OF its n] .
  from pre obtain t where t: "map_of (containers w) p = Some t" and en: "can_release rel t k n"
    and th: "map_of (inv_view w) x \<noteq> None \<longleftrightarrow> there" by blast
  show "flow p (\<lambda>xa j. (if pays \<and> xa = x then 1 else 0) * unit_at k n j) (\<lambda>j. - 1 * unit_at k n j)
      (\<lambda>j. rel_sign rel * unit_at k n j) w (f k n w)"
  proof (cases "0 < n")
    case False
    then have "n = 0" using n0 by simp
    then show ?thesis using flow_refl[OF ok t] by (simp add: skip unit_at_def)
  next
    case pos: True
    show ?thesis
    proof (cases pays)
      case True
      then obtain m where "map_of (inv_view w) x = Some m" using th pays by auto
      from step_pay[OF ok this t n0 en[unfolded can_release_def]] show ?thesis
        using True by (simp add: body[OF pos th])
    next
      case False
      with step_owe[OF ok t n0 en[unfolded can_release_def], of x] show ?thesis by (simp add: body[OF pos th])
    qed
  qed
next
  fix k n k' n' w w'
  assume k: "k' \<noteq> k"
    and pre: "\<exists>t. map_of (containers w) p = Some t \<and> can_release rel t k' n' \<and> (map_of (inv_view w) x \<noteq> None \<longleftrightarrow> there)"
    and f: "flow p (\<lambda>xa j. (if pays \<and> xa = x then 1 else 0) * unit_at k n j) (\<lambda>j. - 1 * unit_at k n j)
      (\<lambda>j. rel_sign rel * unit_at k n j) w w'"
  from pre obtain t where t: "map_of (containers w) p = Some t" "can_release rel t k' n'"
    "map_of (inv_view w) x \<noteq> None \<longleftrightarrow> there" by blast
  from flow_box[OF f t(1)] obtain t' where "map_of (containers w') p = Some t'"
    "\<And>j. cnt (Inventory t') j = cnt (Inventory t) j + - 1 * unit_at k n j"
    "\<And>j. cnt (Reserved t') j = cnt (Reserved t) j + rel_sign rel * unit_at k n j" by blast
  then show "\<exists>t. map_of (containers w') p = Some t \<and> can_release rel t k' n' \<and> (map_of (inv_view w') x \<noteq> None \<longleftrightarrow> there)"
    using can_release_other[OF t(2) k] t(3) flow_no_agent[OF f, of x] by auto
qed

lemma PayoutItems_flow:
  assumes "store_ok w" "map_of (containers w) p = Some t" "amounts_ok its" "map_of (inv_view w) x \<noteq> None"
    and "\<And>k. cnt its k \<le> cnt (Reserved t) k"
  shows "flow p (\<lambda>y j. (if y = x then 1 else 0) * cnt its j) (\<lambda>j. -1 * cnt its j) (\<lambda>j. -1 * cnt its j) w
    (PayoutItems (take_box p) its (\<lambda>item n. upd_container p (Unreserve item n)) (give_agent x) w)"
  using release_loop[where x = x and rel = True and pays = True and there = True, OF assms(1,2,3)] assms(4,5)
  unfolding PayoutItems_def by (simp add: can_release_def release_def rel_sign_def)

lemma ConsumeRequirements_flow:
  assumes "store_ok w" "map_of (containers w) p = Some t" "amounts_ok its"
    and "\<And>k. cnt its k \<le> cnt (Inventory t) k - cnt (Reserved t) k"
  shows "flow p (\<lambda>y j. 0) (\<lambda>j. -1 * cnt its j) (\<lambda>j. 0) w
    (ConsumeRequirementsToPoster (take_box p) its (\<lambda>item n. upd_container p (AddOwed x item n)) w)"
  using release_loop[where x = x and rel = False and pays = False and there = "map_of (inv_view w) x \<noteq> None",
      OF assms(1,2,3)] assms(4)
  unfolding ConsumeRequirementsToPoster_def by (simp add: can_release_def release_def rel_sign_def)

lemma contractTerminalTransfer_flow:
  assumes ok: "store_ok w" and t: "map_of (containers w) p = Some t" and its: "amounts_ok its" and x: "x \<noteq> []"
    and en: "\<And>k. can_release rel t k (cnt its k)"
  shows "flow p (\<lambda>y j. (if map_of (inv_view w) x \<noteq> None \<and> y = x then 1 else 0) * cnt its j) (\<lambda>j. -1 * cnt its j)
    (\<lambda>j. rel_sign rel * cnt its j) w (contractTerminalTransfer p its x rel w)"
proof (cases "its = []")
  case True
  then show ?thesis using flow_refl[OF ok t] t by (simp add: contractTerminalTransfer_def ApplyTerminalTransfer_def)
next
  case False
  show ?thesis
    unfolding contractTerminalTransfer_def ApplyTerminalTransfer_def
    by (simp only: t option.distinct if_False False x simp_thms)
       (rule release_loop[where there = "map_of (inv_view w) x \<noteq> None", OF ok t its en],
        auto simp: release_def map_of_inv_view Let_def simp flip: upd_container_twice)
qed

end
