(* ===== verification/Contract_Escrow.thy ===== *)
theory Contract_Escrow
  imports Contract_Flows
begin

text \<open>
  The escrow invariant: every terminal has reserved exactly what its contracts still promise.  Every
  contract handler and the tick keep it, and the total of every item.
\<close>

section \<open>Escrow\<close>

text \<open>What a contract still claims of its terminal's reserved items.\<close>

fun promised :: "contract_state \<Rightarrow> contract \<Rightarrow> string \<Rightarrow> int" where
  "promised ContractOpen c j = cnt (Reward c) j"
| "promised ContractAccepted c j = cnt (Reward c) j + cnt (Deposit c) j"
| "promised _ c j = 0"

definition demand :: "vec3 \<Rightarrow> string \<Rightarrow> contract gomap \<Rightarrow> int" where
  "demand p j cs = msum (\<lambda>c. if TerminalPos c = p then promised (CState c) c j else 0) cs"

definition contract_ok :: "contract \<Rightarrow> bool" where
  "contract_ok c \<longleftrightarrow> amounts_ok (Requirements c) \<and> amounts_ok (Reward c) \<and> amounts_ok (Deposit c) \<and>
     Poster c \<noteq> [] \<and> (CState c = ContractAccepted \<longrightarrow> Acceptor c \<noteq> []) \<and>
     (CState c = ContractOpen \<longrightarrow> (\<forall>j. cnt (Deposit c) j < 2 ^ 61))"

text \<open>
  The invariant: agents and terminals hold no negative amounts and no count can overflow, every
  terminal has reserved exactly what the contracts filed at it still promise, contract identifiers
  come from the counter, which has room.
\<close>

definition contract_id :: "u64 \<Rightarrow> string" where
  "contract_id n = ''C'' @ pad_dec 6 n"

definition escrow_inv :: "world \<Rightarrow> bool" where
  "escrow_inv w \<longleftrightarrow> store_ok w \<and> wf_map (contracts w) \<and>
     (\<forall>(cid, c) \<in> set (contracts w). contract_ok c \<and> (\<exists>n \<le> nextContractNum w. cid = contract_id n)) \<and>
     (\<forall>p t. map_of (containers w) p = Some t \<longrightarrow> (\<forall>j. cnt (Reserved t) j = demand p j (contracts w)))"

lemma promised_nonneg: "contract_ok c \<Longrightarrow> 0 \<le> promised (CState c) c j"
  by (cases "CState c") (auto simp: contract_ok_def amounts_cnt)

lemma demand_ge:
  assumes "escrow_inv w" and "map_of (contracts w) cid = Some c"
  shows "promised (CState c) c j \<le> demand (TerminalPos c) j (contracts w)"
proof -
  have nn: "0 \<le> promised (CState c) c j" if "(k, c) \<in> set (contracts w)" for k c
    using assms(1) that promised_nonneg by (auto simp: escrow_inv_def)
  show ?thesis
    using msum_ge_member[OF map_of_SomeD[OF assms(2)], where f = "\<lambda>d. if TerminalPos d = TerminalPos c then promised (CState d) d j else 0"]
      nn by (auto simp: demand_def)
qed

text \<open>
  A flow at the contract's terminal together with a change of the contract that claims what the flow
  reserved: the invariant is kept.
\<close>

lemma escrow_inv_update:
  assumes inv: "escrow_inv w" and c: "map_of (contracts w) cid = Some c"
    and f: "flow (TerminalPos c) D V R w w1"
    and c': "contract_ok c'" "TerminalPos c' = TerminalPos c"
    and R: "\<And>j. promised (CState c') c' j = promised (CState c) c j + R j"
    and w': "inv_view w' = inv_view w1" "containers w' = containers w1" "contracts w' = mput cid c' (contracts w1)"
      "nextContractNum w' = nextContractNum w1"
  shows "escrow_inv w' \<and> (\<forall>j. held w' j = held w j)"
proof -
  have same: "contracts w1 = contracts w" "nextContractNum w1 = nextContractNum w"
    "store_ok w1" "\<And>j. held w1 j = held w j" using f by (simp_all add: flow_def)
  have h: "held w' j = held w1 j" and st: "store_ok w' \<longleftrightarrow> store_ok w1" for j
    using w' by (simp_all add: held_def store_ok_def)
  have dem: "demand p j (contracts w') = demand p j (contracts w) + (if p = TerminalPos c then R j else 0)" for p j
    unfolding w'(3) same(1) demand_def using R[of j] c'(2) by (simp add: msum_mput_Some[OF c])
  have "cnt (Reserved t) j = demand p j (contracts w')" if t: "map_of (containers w') p = Some t" for p t j
  proof (cases "p = TerminalPos c")
    case True
    obtain u where u: "map_of (containers w) p = Some u" using f True by (auto simp: flow_def)
    from flow_box[OF f u[unfolded True]] t w'(2) True have "cnt (Reserved t) j = cnt (Reserved u) j + R j" by auto
    moreover have "cnt (Reserved u) j = demand p j (contracts w)" using inv u by (simp add: escrow_inv_def)
    ultimately show ?thesis using True by (simp add: dem)
  next
    case False
    then have "map_of (containers w) p = Some t" using f t w'(2) by (simp add: flow_def)
    then show ?thesis using inv False by (simp add: escrow_inv_def dem)
  qed
  moreover have "\<forall>(cid, c) \<in> set (contracts w'). contract_ok c \<and> (\<exists>n \<le> nextContractNum w'. cid = contract_id n)"
    unfolding w'(3,4) same
    by (rule ball_mput) (use inv c c'(1) in \<open>auto simp: escrow_inv_def dest!: map_of_SomeD\<close>)
  ultimately show ?thesis
    using inv same(3,4) st h w'(3) same(1) by (simp add: escrow_inv_def)
qed

subsection \<open>Operations that move nothing\<close>

definition calm :: "world \<Rightarrow> world \<Rightarrow> bool" where
  "calm w w' \<longleftrightarrow> inv_view w' = inv_view w \<and> containers w' = containers w \<and> contracts w' = contracts w \<and>
     nextContractNum w' = nextContractNum w"

lemma calm_refl [simp]: "calm w w"
  by (simp add: calm_def)

lemma calm_trans: "calm u v \<Longrightarrow> calm v w \<Longrightarrow> calm u w"
  by (simp add: calm_def)

lemma calmD:
  assumes "calm w w'"
  shows "inv_view w' = inv_view w" "containers w' = containers w" "contracts w' = contracts w"
    "nextContractNum w' = nextContractNum w"
  using assms by (simp_all add: calm_def)

lemma calm_inv:
  assumes "calm w w'"
  shows "escrow_inv w' \<longleftrightarrow> escrow_inv w" and "held w' j = held w j"
proof -
  note c = calmD[OF assms]
  have h: "held w' j = held w j" for j by (simp add: held_def c)
  then show "held w' j = held w j" .
  show "escrow_inv w' \<longleftrightarrow> escrow_inv w" by (simp add: escrow_inv_def store_ok_def c h)
qed

lemma calm_upd: "(\<And>a. AInventory (f a) = AInventory a) \<Longrightarrow> calm w (upd_agent x f w)"
  by (simp add: calm_def inv_view_upd_same)

lemma calm_upd_core: "(\<And>a. core (f a) = core a) \<Longrightarrow> calm w (upd_agent x f w)"
  by (rule calm_upd) (metis core_eqD(1))

lemma calm_emit [simp]: "calm w (emit aid e w)"
  unfolding emit_def by (rule calm_upd_core) (simp add: frame)

lemma calm_reply [simp]: "calm w (reply aid t r ok c m w)" "calm w (reply_verdict aid t r v w)"
  by (simp_all add: reply_def reply_verdict_def)

lemma calm_audit [simp]: "calm w (auditEvent t a ac p r d w)"
  by (simp add: calm_def inv_view_def auditEvent_def)

lemma calm_stats [simp]: "calm w (w\<lparr>stats := s\<rparr>)"
  by (simp add: calm_def inv_view_def)

lemma calm_bump [simp]:
  "calm w (bumpRepTrade a d w)" "calm w (bumpRepSocial a d w)" "calm w (bumpRepBuild a d w)" "calm w (bumpRepLaw a d w)"
  by (simp_all add: bumpRepTrade_def bumpRepSocial_def bumpRepBuild_def bumpRepLaw_def calm_upd)

lemma calm_credit [simp]:
  "calm w (addTradeCredit fl now a k w)" "calm w (addBuildCredit fl now a k w)" "calm w (addLawPenalty a r w)"
  unfolding addTradeCredit_def addBuildCredit_def addLawPenalty_def Let_def
  by (auto intro!: calm_trans[OF _ calm_upd_core] calm_trans[OF _ calm_stats] calm_trans[OF _ calm_bump(2)]
      calm_trans[OF _ calm_bump(4)] simp: frame split: prod.split)

lemmas calm_intros = calm_refl calm_trans[OF _ calm_emit] calm_trans[OF _ calm_reply(1)] calm_trans[OF _ calm_reply(2)]
  calm_trans[OF _ calm_audit] calm_trans[OF _ calm_credit(1)] calm_trans[OF _ calm_credit(2)] calm_trans[OF _ calm_credit(3)]

text \<open>What every contract operation keeps: the invariant and the total of every item.\<close>

definition keeps :: "world \<Rightarrow> world \<Rightarrow> bool" where
  "keeps w w' \<longleftrightarrow> escrow_inv w' \<and> (\<forall>j. held w' j = held w j)"

lemma keeps_calm: "escrow_inv w \<Longrightarrow> calm w w' \<Longrightarrow> keeps w w'"
  by (simp add: keeps_def calm_inv)

lemma keeps_then_calm: "keeps w w1 \<Longrightarrow> calm w1 w' \<Longrightarrow> keeps w w'"
  by (simp add: keeps_def calm_inv)

lemma escrow_update:
  assumes "escrow_inv w" "map_of (contracts w) cid = Some c" "flow (TerminalPos c) D V R w w1"
    and "contract_ok c'" "TerminalPos c' = TerminalPos c"
    and "\<And>j. promised (CState c') c' j = promised (CState c) c j + R j"
  shows "keeps w (upd_contract cid (\<lambda>_. c') w1)"
proof -
  have c: "map_of (contracts w1) cid = Some c" using assms(2,3) by (simp add: flow_def)
  show ?thesis
    unfolding keeps_def
    by (rule escrow_inv_update[OF assms]) (simp_all add: upd_contract_def c inv_view_def)
qed

lemma GetContainerByID_at:
  "GetContainerByID cs cid = Some (p, t) \<Longrightarrow> map_of cs p = Some t"
  by (auto simp: GetContainerByID_def Let_def split: option.splits if_splits)

lemma ClaimOwed_box:
  assumes t: "box_ok t"
  shows "box_ok (snd (ClaimOwed x t))" and "amounts_ok (fst (ClaimOwed x t))"
    and "box_items (snd (ClaimOwed x t)) j = box_items t j - cnt (fst (ClaimOwed x t)) j"
proof -
  have wf: "wf_map (Owed t)" using t by (simp add: box_ok_def)
  have sub: "set (mdel x m) \<subseteq> set m" for m :: "items gomap" by (induction m) (auto simp: mdel_def)
  have "\<forall>y \<in> set (mdel x (Owed t)). case y of (x, m) \<Rightarrow> wf_map m \<and> (\<forall>j. 0 \<le> cnt m j)"
    using t sub[of "Owed t"] unfolding box_ok_def by blast
  then show "box_ok (snd (ClaimOwed x t))"
    using t by (simp add: ClaimOwed_def box_ok_def split: option.split)
  show "amounts_ok (fst (ClaimOwed x t))"
  proof (cases "map_of (Owed t) x")
    case (Some m)
    then have m: "wf_map m" "\<And>j. 0 \<le> cnt m j" using t by (auto simp: box_ok_def dest!: map_of_SomeD)
    have "0 \<le> n" if "(k, n) \<in> set m" for k n using m(2)[of k] cnt_in_set[OF m(1) that] by simp
    with m Some show ?thesis by (auto simp: ClaimOwed_def amounts_ok_def)
  qed (simp add: ClaimOwed_def amounts_ok_def)
  show "box_items (snd (ClaimOwed x t)) j = box_items t j - cnt (fst (ClaimOwed x t)) j"
    using msum_mdel[OF wf, of x] by (simp add: ClaimOwed_def box_items_def split: option.split)
qed

text \<open>The loop that hands over what was owed.\<close>

lemma give_loop:
  assumes "amounts_ok its" and "map_of (inv_view w) x = Some m"
    and "\<And>k. 0 \<le> cnt m k \<and> cnt m k + cnt its k < 2 ^ 63"
  defines "w' \<equiv> for_items (\<lambda>item n w. if n > 0 then give_agent x item n w else w) its w"
  shows "\<exists>m'. inv_view w' = mput x m' (inv_view w) \<and> (\<forall>j. cnt m' j = cnt m j + cnt its j) \<and>
    containers w' = containers w \<and> contracts w' = contracts w \<and> nextContractNum w' = nextContractNum w"
  using assms(1-3) unfolding w'_def
proof (induction its arbitrary: w m)
  case Nil
  then show ?case by (intro exI[of _ m]) (simp add: mput_same)
next
  case (Cons q its)
  obtain k n where q: "q = (k, n)" by (cases q)
  have its: "amounts_ok its" and n: "0 \<le> n" and fresh: "map_of its k = None"
    using Cons.prems(1) by (auto simp: q amounts_ok_def wf_map_Cons)
  have ck: "cnt its k = 0" using fresh by (simp add: cnt_def)
  define w1 where "w1 = (if n > 0 then give_agent x k n w else w)"
  define m1 where "m1 = (if n > 0 then madd m k n else m)"
  have "cnt m k + n < 2 ^ 63" "0 \<le> cnt m k" using Cons.prems(3)[of k] by (simp_all add: q)
  then have m1: "cnt m1 j = cnt m j + unit_at k n j" for j
    using add_count[of m k n j] n by (auto simp: m1_def unit_at_def)
  have v1: "inv_view w1 = mput x m1 (inv_view w)"
    using agent_ops(1)[OF Cons.prems(2)] Cons.prems(2) by (simp add: w1_def m1_def mput_same)
  have at1: "map_of (inv_view w1) x = Some m1" by (simp add: v1 gomap)
  have b1: "0 \<le> cnt m1 j \<and> cnt m1 j + cnt its j < 2 ^ 63" for j
    using Cons.prems(3)[of j] n ck m1[of j] by (auto simp: q unit_at_def split: if_splits)
  have twice: "mput x u (mput x v l) = mput x u l" for u v :: items and l
    by (induction l) (auto simp: mput_def)
  obtain m' where m': "inv_view (for_items (\<lambda>item n w. if n > 0 then give_agent x item n w else w) its w1) = mput x m' (inv_view w1)"
    "\<And>j. cnt m' j = cnt m1 j + cnt its j"
    "containers (for_items (\<lambda>item n w. if n > 0 then give_agent x item n w else w) its w1) = containers w1"
    "contracts (for_items (\<lambda>item n w. if n > 0 then give_agent x item n w else w) its w1) = contracts w1"
    "nextContractNum (for_items (\<lambda>item n w. if n > 0 then give_agent x item n w else w) its w1) = nextContractNum w1"
    using Cons.IH[OF its at1 b1] by blast
  have e: "for_items (\<lambda>item n w. if n > 0 then give_agent x item n w else w) (q # its) w =
      for_items (\<lambda>item n w. if n > 0 then give_agent x item n w else w) its w1"
    by (simp add: q w1_def)
  have "cnt m' j = cnt m j + cnt (q # its) j" for j using m'(2)[of j] m1[of j] ck by (auto simp: q unit_at_def)
  then show ?case unfolding e
    by (intro exI[of _ m']) (simp add: m' v1 twice, simp add: w1_def)
qed

subsection \<open>The handlers keep the escrow\<close>

text \<open>A request whose stacks add up to less than \<open>2 ^ 61\<close> of anything.\<close>

definition stacks_ok :: "(string \<times> int) list \<Rightarrow> bool" where
  "stacks_ok s \<longleftrightarrow> sum_list (map (\<lambda>(k, n). max 0 n) s) < 2 ^ 61"

lemma StacksToMap_ok:
  assumes "stacks_ok s"
  shows "amounts_ok (StacksToMap s)" and "cnt (StacksToMap s) j < 2 ^ 61"
proof -
  let ?step = "\<lambda>(item, c) out. if item = [] \<or> c \<le> 0 then out else madd out item c"
  have "wf_map (fold ?step s out) \<and> (\<forall>k. 0 \<le> cnt (fold ?step s out) k \<and> cnt (fold ?step s out) k < 2 ^ 61)"
    if "wf_map out" "\<And>k. 0 \<le> cnt out k" "\<And>k. cnt out k + sum_list (map (\<lambda>(k, n). max 0 n) s) < 2 ^ 61" for out
    using that
  proof (induction s arbitrary: out)
    case Nil
    then show ?case by simp
  next
    case (Cons q s)
    obtain k n where q: "q = (k, n)" by (cases q)
    have nn: "0 \<le> sum_list (map (\<lambda>(k, n). max 0 n) s)" by (rule sum_list_nonneg) auto
    show ?case
    proof (cases "k = [] \<or> n \<le> 0")
      case True
      have "cnt out j + sum_list (map (\<lambda>(k, n). max 0 n) s) < 2 ^ 61" for j
        using Cons.prems(3)[of j] by (simp add: q)
      from Cons.IH[OF Cons.prems(1,2) this] True show ?thesis by (simp add: q)
    next
      case False
      have lt: "cnt out j + n + sum_list (map (\<lambda>(k, n). max 0 n) s) < 2 ^ 61" for j
        using Cons.prems(3)[of j] False by (simp add: q)
      have c: "cnt (madd out k n) j = cnt out j + unit_at k n j" for j
        by (rule add_count) (use Cons.prems(2)[of k] lt[of k] nn False in auto)
      have "wf_map (madd out k n)" using Cons.prems(1) by simp
      moreover have "0 \<le> cnt (madd out k n) j" for j unfolding c using Cons.prems(2)[of j] False by simp
      moreover have "cnt (madd out k n) j + sum_list (map (\<lambda>(k, n). max 0 n) s) < 2 ^ 61" for j
        unfolding c using lt[of j] lt[of k] False by (auto simp: unit_at_def)
      ultimately show ?thesis using Cons.IH[of "madd out k n"] False by (simp add: q)
    qed
  qed
  from this[of "[]"] assms have r: "wf_map (StacksToMap s)" "\<And>k. 0 \<le> cnt (StacksToMap s) k \<and> cnt (StacksToMap s) k < 2 ^ 61"
    by (simp_all add: stacks_ok_def StacksToMap_def)
  have "0 \<le> n" if "(k, n) \<in> set (StacksToMap s)" for k n
    using r(2)[of k] cnt_in_set[OF r(1) that] by simp
  with r show "amounts_ok (StacksToMap s)" and "cnt (StacksToMap s) j < 2 ^ 61" by (auto simp: amounts_ok_def)
qed

lemma HasItems_cnt:
  assumes "amounts_ok want" and "\<And>j. 0 \<le> cnt have j"
  shows "HasItems have want \<longleftrightarrow> (\<forall>k. cnt want k \<le> cnt have k)"
proof
  assume h: "HasItems have want"
  show "\<forall>k. cnt want k \<le> cnt have k"
  proof
    fix k show "cnt want k \<le> cnt have k"
      using h assms(2)[of k] by (cases "map_of want k") (auto simp: HasItems_iff cnt_def[of want] dest: map_of_SomeD)
  qed
next
  assume "\<forall>k. cnt want k \<le> cnt have k"
  then show "HasItems have want" using amounts_in[OF assms(1)] by (auto simp: HasItems_iff)
qed

definition post_ok :: "instant \<Rightarrow> bool" where
  "post_ok inst \<longleftrightarrow> stacks_ok (InstRequirements inst) \<and> stacks_ok (InstReward inst) \<and> stacks_ok (InstDeposit inst)"

lemma contract_id_fresh:
  assumes "escrow_inv w" and "nextContractNum w < nextContractNum w + 1"
  shows "map_of (contracts w) (contract_id (nextContractNum w + 1)) = None"
proof (rule ccontr)
  assume "map_of (contracts w) (contract_id (nextContractNum w + 1)) \<noteq> None"
  then obtain c where "(contract_id (nextContractNum w + 1), c) \<in> set (contracts w)" by (auto dest: map_of_SomeD)
  then obtain n where n: "n \<le> nextContractNum w" "contract_id (nextContractNum w + 1) = contract_id n"
    using assms(1) by (auto simp: escrow_inv_def)
  then have "nextContractNum w + 1 = n" by (auto simp: contract_id_def dest: pad_dec_inj)
  with n(1) assms(2) show False by simp
qed

lemma escrow_new:
  assumes inv: "escrow_inv w" and room: "nextContractNum w < nextContractNum w + 1"
    and t: "map_of (containers w) p = Some t" and f: "flow p D V R w w1"
    and c: "contract_ok c" "TerminalPos c = p" and R: "\<And>j. promised (CState c) c j = R j"
    and w': "inv_view w' = inv_view w1" "containers w' = containers w1"
      "contracts w' = mput (contract_id (nextContractNum w + 1)) c (contracts w1)" "nextContractNum w' = nextContractNum w1 + 1"
  shows "keeps w w'"
proof -
  have same: "contracts w1 = contracts w" "nextContractNum w1 = nextContractNum w" "store_ok w1"
    "\<And>j. held w1 j = held w j" using f by (simp_all add: flow_def)
  have h: "held w' j = held w1 j" and st: "store_ok w' \<longleftrightarrow> store_ok w1" for j
    using w' by (simp_all add: held_def store_ok_def)
  have dem: "demand q j (contracts w') = demand q j (contracts w) + (if q = p then R j else 0)" for q j
    unfolding w'(3) same(1) demand_def using R[of j] c(2) by (simp add: msum_mput_None[OF contract_id_fresh[OF inv room]])
  have "cnt (Reserved u) j = demand q j (contracts w')" if u: "map_of (containers w') q = Some u" for q u j
  proof (cases "q = p")
    case True
    from flow_box[OF f t] u w'(2) True have "cnt (Reserved u) j = cnt (Reserved t) j + R j" by auto
    with True t inv dem show ?thesis by (simp add: escrow_inv_def)
  next
    case False
    then have "map_of (containers w) q = Some u" using f u w'(2) by (simp add: flow_def)
    with False inv dem show ?thesis by (simp add: escrow_inv_def)
  qed
  moreover have "\<forall>(k, d) \<in> set (contracts w). contract_ok d \<and> (\<exists>n \<le> nextContractNum w + 1. k = contract_id n)"
  proof clarify
    fix k d assume "(k, d) \<in> set (contracts w)"
    then obtain n where "contract_ok d" "n \<le> nextContractNum w" "k = contract_id n" using inv by (auto simp: escrow_inv_def)
    with less_imp_le[OF room] show "contract_ok d \<and> (\<exists>n \<le> nextContractNum w + 1. k = contract_id n)"
      by (blast intro: order_trans)
  qed
  then have "\<forall>(k, d) \<in> set (contracts w'). contract_ok d \<and> (\<exists>n \<le> nextContractNum w'. k = contract_id n)"
    unfolding w'(3,4) same by (rule ball_mput) (use c(1) in auto)
  ultimately show ?thesis
    using inv same(3,4) st h w'(3) same(1) by (simp add: escrow_inv_def keeps_def)
qed

lemma Post_keeps:
  assumes inv: "escrow_inv w" and post: "post_ok inst" and room: "nextContractNum w < nextContractNum w + 1"
  shows "keeps w (HandlePostContract aid inst now w)"
proof (cases "map_of (agents w) aid")
  case None
  then show ?thesis using inv by (simp add: HandlePostContract_def keeps_def)
next
  case (Some a)
  define reward where "reward = StacksToMap (InstReward inst)"
  obtain v kind deadline dist ttype where
    dt: "(dist, ttype) = (case GetContainerByID (containers w) (InstTerminalID inst) of None \<Rightarrow> (0, []) | Some (p, t) \<Rightarrow> (Manhattan (APos a) p, CType t))"
    and v: "PreparePost (InstTerminalID inst) ttype dist (InstContractKind inst)
      (StacksToMap (InstRequirements inst)) reward (InstBlueprintID inst)
      (HasItems (AInventory a) reward) now (InstDeadlineTick inst) (InstDurationTicks inst) (DayTicks (cfg w)) = (v, kind, deadline)"
    by (metis surj_pair)
  have calm: ?thesis if "HandlePostContract aid inst now w = w'" "calm w w'" for w'
    using keeps_calm[OF inv] that by simp
  show ?thesis
  proof (cases "fst (ValidatePost v)")
    case False
    then have "HandlePostContract aid inst now w = reply_verdict aid now (InstID inst) (ValidatePost v) w"
      using v dt[symmetric] by (simp add: HandlePostContract_def Some Let_def flip: reward_def)
    then show ?thesis by (rule calm) simp
  next
    case valid: True
    show ?thesis
    proof (cases "GetContainerByID (containers w) (InstTerminalID inst)")
      case None
      then have "HandlePostContract aid inst now w = w"
        using v dt valid by (simp add: HandlePostContract_def Some Let_def flip: reward_def)
      then show ?thesis by (rule calm) simp
    next
      case (Some q)
      obtain p t where q: "q = (p, t)" by (cases q)
      have t: "map_of (containers w) p = Some t" using GetContainerByID_at[OF Some[unfolded q]] .
      have "PVHasEnoughReward v = HasItems (AInventory a) reward"
        using v by (auto simp: PreparePost_def Let_def)
      then have has: "HasItems (AInventory a) reward"
        using valid by (auto simp: ValidatePost_def Let_def split: if_splits)
      have st: "store_ok w" using inv by (simp add: escrow_inv_def)
      have m: "map_of (inv_view w) aid = Some (AInventory a)" using \<open>map_of (agents w) aid = Some a\<close> by (simp add: map_of_inv_view)
      have am: "amounts_ok reward" using StacksToMap_ok(1) post by (simp add: reward_def post_ok_def)
      have le: "cnt reward k \<le> cnt (AInventory a) k" for k
        using has HasItems_cnt[OF am] held_exact(1)[OF st m] by blast
      define w1 where "w1 = escrow_items aid p reward w"
      note f = escrow_items_flow[OF st m t am le, folded w1_def]
      define c where "c = posted_contract (contract_id (nextContractNum w + 1)) aid p inst kind now deadline"
      define w2 where "w2 = w1\<lparr>nextContractNum := nextContractNum w1 + 1,
        contracts := mput (contract_id (nextContractNum w + 1)) c (contracts w1)\<rparr>"
      have n1: "nextContractNum w1 = nextContractNum w" using f by (simp add: flow_def)
      have new: "newContractID w1 = (contract_id (nextContractNum w + 1), w1\<lparr>nextContractNum := nextContractNum w1 + 1\<rparr>)"
        by (simp add: newContractID_def Let_def contract_id_def n1)
      have "aid \<noteq> []" using m st by (auto simp: store_ok_def)
      then have c: "contract_ok c" "TerminalPos c = p" "Reward c = reward" "CState c = ContractOpen"
        using StacksToMap_ok post by (simp_all add: c_def posted_contract_def contract_ok_def post_ok_def reward_def)
      have "keeps w w2"
        by (rule escrow_new[OF inv room t f c(1,2)]) (simp_all add: c w2_def inv_view_def)
      moreover have "HandlePostContract aid inst now w = emit aid [(''t'', JU64 now), (''type'', JStr ''ACTION_RESULT''),
          (''ref'', JStr (InstID inst)), (''ok'', JBool True), (''contract_id'', JStr (contract_id (nextContractNum w + 1)))]
          (on_posted aid c t now w2)"
        using v dt valid Some q new
        by (simp add: HandlePostContract_def \<open>map_of (agents w) aid = Some a\<close> Let_def w2_def c_def flip: reward_def w1_def)
      ultimately show ?thesis by (auto intro: keeps_then_calm calm_intros calm_audit)
    qed
  qed
qed

lemma ScaleDeposit_cnt:
  assumes "amounts_ok base" and "\<And>j. cnt base j < 2 ^ 61" and mul: "1 \<le> mul" "mul \<le> 3"
  shows "cnt (ScaleDeposit base mul) j = (if j = [] then 0 else mul * cnt base j)"
    and "amounts_ok (ScaleDeposit base mul)"
proof -
  have w: "i64 (n * mul) = n * mul" if "(k, n) \<in> set base" for k n
  proof (rule i64_nonneg)
    have n: "0 \<le> n" "n < 2 ^ 61" using that assms(2)[of k] amounts_in[OF assms(1) that] amounts_okD(2)[OF assms(1) that] by auto
    then show "0 \<le> n * mul" using mul by simp
    have "n * mul \<le> n * 3" using n mul by (intro mult_left_mono) auto
    with n show "n * mul < 2 ^ 63" by simp
  qed
  let ?f = "\<lambda>item n out. if item = [] \<or> n \<le> 0 then out else mput item (i64 (n * mul)) out"
  have e: "ScaleDeposit base mul = for_items ?f base []"
  proof (cases "mul \<le> 1")
    case True
    have "for_items (\<lambda>item n out. if item = [] \<or> n \<le> 0 then out else mput item n out) b out = for_items ?f b out"
      if "set b \<subseteq> set base" for b out
      using that
    proof (induction b arbitrary: out)
      case (Cons q b)
      then show ?case using w[of "fst q" "snd q"] True mul by (cases q) auto
    qed simp
    with True show ?thesis by (simp add: ScaleDeposit_def)
  qed (simp add: ScaleDeposit_def)
  have c: "cnt (ScaleDeposit base mul) j = (if j = [] then 0 else mul * cnt base j)" for j
  proof -
    have "cnt (for_items ?f base []) j = (case map_of base j of None \<Rightarrow> cnt [] j
      | Some n \<Rightarrow> (\<lambda>k n x. if k = [] \<or> n \<le> 0 then x else n * mul) j n (cnt [] j))"
      by (rule for_items_pointwise[where obs = cnt, OF amounts_okD(1)[OF assms(1)]]) (auto simp: gomap w)
    then show ?thesis using amounts_okD(2)[OF assms(1)]
      by (force simp: e cnt_def[of base] dest: map_of_SomeD split: option.splits)
  qed
  then show "cnt (ScaleDeposit base mul) j = (if j = [] then 0 else mul * cnt base j)" .
  have wf: "wf_map (ScaleDeposit base mul)"
    unfolding e by (rule for_items_invariant[where P = wf_map]) auto
  have "0 \<le> n" if "(k, n) \<in> set (ScaleDeposit base mul)" for k n
    using c[of k] cnt_in_set[OF wf that] amounts_cnt[OF assms(1), of k] mul by (simp split: if_splits)
  with wf show "amounts_ok (ScaleDeposit base mul)" by (auto simp: amounts_ok_def)
qed

lemma repDepositMultiplier_range: "1 \<le> repDepositMultiplier ao" "repDepositMultiplier ao \<le> 3"
  by (simp_all add: repDepositMultiplier_def DepositMultiplier_def split: option.split)

lemma escrow_contract: "escrow_inv w \<Longrightarrow> map_of (contracts w) cid = Some c \<Longrightarrow> contract_ok c"
  by (auto simp: escrow_inv_def dest!: map_of_SomeD)

lemma escrow_store: "escrow_inv w \<Longrightarrow> store_ok w"
  by (simp add: escrow_inv_def)

lemma verdict_split: "v = accept \<or> \<not> fst v \<Longrightarrow> fst v \<Longrightarrow> v = accept"
  by simp

text \<open>What an accepted request has been checked for.\<close>

lemma accept_checks:
  assumes "fst (ValidateAccept v)"
    and "PrepareAccept state tt tm d now dl base mul have = (v, required)"
  shows "state = Some ContractOpen" "tm" "required = ScaleDeposit base mul" "HasItems have required"
    "now \<le> dl" "d \<le> 3" "tt = ''CONTRACT_TERMINAL''"
  using assms by (auto simp: PrepareAccept_def ValidateAccept_def Let_def HasItems_iff not_less split: if_splits)

lemma Accept_keeps:
  assumes inv: "escrow_inv w"
  shows "keeps w (HandleAcceptContract aid inst now w)"
proof (cases "map_of (agents w) aid")
  case None
  then show ?thesis using inv by (simp add: HandleAcceptContract_def keeps_def)
next
  case (Some a)
  let ?co = "map_of (contracts w) (InstContractID inst)"
  let ?box = "GetContainerByID (containers w) (InstTerminalID inst)"
  obtain state dl base tt d tm where view: "(case ?co of None \<Rightarrow> (None, 0, [], [], 0, False)
      | Some c \<Rightarrow> (Some (CState c), DeadlineTick c, Deposit c, terminal_view ?box (TerminalPos c) (APos a))) =
      (state, dl, base, tt, d, tm)"
    by (rule prod_cases6)
  obtain v required where pa: "PrepareAccept state tt tm d now dl base (repDepositMultiplier (Some a)) (AInventory a) = (v, required)"
    by fastforce
  show ?thesis
  proof (cases "fst (ValidateLifecycleIDs (InstContractID inst) (InstTerminalID inst)) \<and> fst (ValidateAccept v)")
    case False
    then have "calm w (HandleAcceptContract aid inst now w)"
      by (auto simp: HandleAcceptContract_def Some Let_def view pa)
    then show ?thesis by (rule keeps_calm[OF inv])
  next
    case ok: True
    note ch = accept_checks[OF conjunct2[OF ok] pa]
    obtain c where c: "?co = Some c" "CState c = ContractOpen" "base = Deposit c" and tv: "terminal_view ?box (TerminalPos c) (APos a) = (tt, d, tm)"
      using view ch(1) by (auto split: option.splits)
    obtain p t where pt: "?box = Some (p, t)" "p = TerminalPos c"
      using tv ch(2) by (auto simp: terminal_view_def BuildTerminalContext_def split: option.splits)
    have t: "map_of (containers w) (TerminalPos c) = Some t" using GetContainerByID_at[OF pt(1)] pt(2) by simp
    have m: "map_of (inv_view w) aid = Some (AInventory a)" by (simp add: map_of_inv_view Some)
    note st = escrow_store[OF inv] and cok = escrow_contract[OF inv c(1)]
    have dep: "amounts_ok required"
      unfolding ch(3) c(3) by (rule ScaleDeposit_cnt(2)) (use cok c(2) repDepositMultiplier_range in \<open>auto simp: contract_ok_def\<close>)
    have le: "cnt required k \<le> cnt (AInventory a) k" for k
      using ch(4) HasItems_cnt[OF dep] held_exact(1)[OF st m] by blast
    define c' where "c' = c\<lparr>Deposit := required, Acceptor := aid, CState := ContractAccepted\<rparr>"
    have "aid \<noteq> []" using m st by (auto simp: store_ok_def)
    then have c': "contract_ok c'" using cok dep by (simp add: c'_def contract_ok_def)
    have "keeps w (upd_contract (InstContractID inst) (\<lambda>_. c') (escrow_items aid (TerminalPos c) required w))"
      by (rule escrow_update[OF inv c(1) escrow_items_flow[OF st m t dep le] c']) (simp_all add: c'_def c(2))
    moreover have "HandleAcceptContract aid inst now w = reply aid now (InstID inst) True [] ''accepted''
        (on_accepted aid c' t now
          (upd_contract (InstContractID inst) (\<lambda>_. c') (escrow_items aid (TerminalPos c) required w)))"
      using ok view pa c(1) pt by (simp add: HandleAcceptContract_def Some Let_def c'_def)
    ultimately show ?thesis by (auto intro: keeps_then_calm calm_intros calm_audit)
  qed
qed

lemma Claim_keeps:
  assumes inv: "escrow_inv w"
  shows "keeps w (HandleClaimOwed aid inst now w)"
proof (cases "map_of (agents w) aid")
  case None
  then show ?thesis using inv by (simp add: HandleClaimOwed_def keeps_def)
next
  case (Some a)
  let ?box = "GetContainerByID (containers w) (InstTerminalID inst)"
  show ?thesis
  proof (cases "InstTerminalID inst = [] \<or> ?box = None \<or> (\<exists>p t. ?box = Some (p, t) \<and> Manhattan (APos a) p > 3)")
    case True
    then have "calm w (HandleClaimOwed aid inst now w)"
      by (auto simp: HandleClaimOwed_def Some)
    then show ?thesis by (rule keeps_calm[OF inv])
  next
    case False
    then obtain p t where pt: "?box = Some (p, t)" and near: "\<not> Manhattan (APos a) p > 3" and ne: "InstTerminalID inst \<noteq> []" by auto
    have t: "map_of (containers w) p = Some t" by (rule GetContainerByID_at[OF pt])
    define owed where "owed = fst (ClaimOwed aid t)"
    define w1 where "w1 = upd_container p (\<lambda>t. snd (ClaimOwed aid t)) w"
    define w2 where "w2 = for_items (\<lambda>item n w. if n > 0 then give_agent aid item n w else w) owed w1"
    have m: "map_of (inv_view w) aid = Some (AInventory a)" by (simp add: map_of_inv_view Some)
    have view1: "inv_view w1 = inv_view w" "containers w1 = mput p (snd (ClaimOwed aid t)) (containers w)"
      "contracts w1 = contracts w" "nextContractNum w1 = nextContractNum w" using t by (simp_all add: w1_def box_op)
    note st = escrow_store[OF inv]
    have bx: "box_ok t" using held_exact(2)[OF st t] by blast
    note cl = ClaimOwed_box[OF bx, of aid]
    have room: "0 \<le> cnt (AInventory a) k \<and> cnt (AInventory a) k + cnt owed k < 2 ^ 63" for k
    proof -
      have "cnt owed k \<le> box_items t k" using cl(3)[of k] box_okD(3,4)[OF cl(1), of k] unfolding owed_def by linarith
      with held_exact(1)[OF st m, of k] held_exact(3)[OF st m t, of k] show ?thesis by linarith
    qed
    obtain m' where m': "inv_view w2 = mput aid m' (inv_view w)" "\<And>j. cnt m' j = cnt (AInventory a) j + cnt owed j"
      "containers w2 = containers w1" "contracts w2 = contracts w" "nextContractNum w2 = nextContractNum w"
      using give_loop[of owed w1 aid "AInventory a"] cl(2) m room unfolding w2_def owed_def view1 by blast
    have f: "flow p (\<lambda>y j. if y = aid then cnt owed j else 0) (\<lambda>_. 0) (\<lambda>_. 0) w w2"
    proof (rule flow_move[OF st m t m'(1) m'(3)[unfolded view1] m'(4,5) cl(1)])
      show "0 \<le> cnt m' j" for j using m'(2)[of j] room[of j] amounts_cnt[OF cl(2), of j] by (simp add: owed_def)
      show "box_items (snd (ClaimOwed aid t)) j = box_items t j - cnt owed j" for j by (simp add: cl(3) owed_def)
    qed (simp_all add: m'(2))
    have k2: "keeps w w2"
    proof -
      have "cnt (Reserved u) j = demand q j (contracts w)" if "map_of (containers w2) q = Some u" for q u j
        using that inv t by (auto simp: m'(3) view1 gomap escrow_inv_def split: if_splits)
      then show ?thesis using f inv by (simp add: keeps_def escrow_inv_def m' flow_def)
    qed
    show ?thesis
    proof (cases "owed = []")
      case True
      then have "w2 = w1" by (simp add: w2_def)
      with True have "HandleClaimOwed aid inst now w = reply aid now (InstID inst) True [] ''nothing owed'' w2"
        using pt near ne by (simp add: HandleClaimOwed_def Some Let_def owed_def w1_def)
      then show ?thesis using keeps_then_calm[OF k2] by simp
    next
      case False
      then have "HandleClaimOwed aid inst now w = reply aid now (InstID inst) True [] ''claimed'' w2"
        using pt near ne by (simp add: HandleClaimOwed_def Some Let_def owed_def w1_def w2_def)
      then show ?thesis using keeps_then_calm[OF k2] by simp
    qed
  qed
qed

lemma HasAvailable_cnt:
  assumes "store_ok w" and "map_of (containers w) p = Some t" and req: "amounts_ok req"
    and has: "HasAvailable req (AvailableCount t)"
  shows "cnt req k \<le> cnt (Inventory t) k - cnt (Reserved t) k"
proof -
  have b: "box_ok t" and lt: "box_items t k < 2 ^ 63" using held_exact(2)[OF assms(1,2)] by blast+
  have av: "AvailableCount t k = cnt (Inventory t) k - cnt (Reserved t) k"
    unfolding AvailableCount_def ReservedCount_def
    by (rule i64_nonneg) (use box_okD[OF b, of k] lt in linarith)+
  show ?thesis
  proof (cases "map_of req k")
    case None
    then show ?thesis using box_okD(2)[OF b, of k] by (simp add: cnt_def[of req])
  next
    case (Some n)
    then have "(k, n) \<in> set req" by (rule map_of_SomeD)
    then show ?thesis using has Some av by (auto simp: HasAvailable_def cnt_def[of req] not_less)
  qed
qed

text \<open>
  Paying out reward and deposit after a first flow that leaves the reservations alone: \<open>pay its w\<close> is
  any loop that releases \<open>its\<close>.
\<close>

lemma two_payouts_flow:
  assumes inv: "escrow_inv w" and c: "map_of (contracts w) cid = Some c" "CState c = ContractAccepted"
    and f: "flow (TerminalPos c) D V (\<lambda>_. 0) w w1"
    and pay: "\<And>its w t. store_ok w \<Longrightarrow> map_of (containers w) (TerminalPos c) = Some t \<Longrightarrow> amounts_ok its \<Longrightarrow>
      (\<forall>x. map_of (inv_view w) x = None \<longleftrightarrow> map_of (inv_view w1) x = None) \<Longrightarrow>
      (\<And>k. cnt its k \<le> cnt (Reserved t) k) \<Longrightarrow>
      \<exists>D. flow (TerminalPos c) D (\<lambda>j. -1 * cnt its j) (\<lambda>j. -1 * cnt its j) w (pay its w)"
  shows "\<exists>D V. flow (TerminalPos c) D V (\<lambda>j. - promised (CState c) c j) w (pay (Deposit c) (pay (Reward c) w1))"
proof -
  let ?p = "TerminalPos c"
  note cok = escrow_contract[OF inv c(1)]
  have am: "amounts_ok (Reward c)" "amounts_ok (Deposit c)" using cok by (simp_all add: contract_ok_def)
  obtain t where t: "map_of (containers w) ?p = Some t" using f by (auto simp: flow_def)
  have res: "cnt (Reward c) k + cnt (Deposit c) k \<le> cnt (Reserved t) k" for k
    using demand_ge[OF inv c(1), of k] inv t c(2) by (simp add: escrow_inv_def)
  obtain t1 where t1: "map_of (containers w1) ?p = Some t1" "\<And>j. cnt (Reserved t1) j = cnt (Reserved t) j"
    using flow_box[OF f t] by auto
  have ok1: "store_ok w1" using f by (simp add: flow_def)
  have "cnt (Reward c) k \<le> cnt (Reserved t1) k" for k
    using res[of k] amounts_cnt[OF am(2), of k] t1(2)[of k] by simp
  then obtain D1 where f1: "flow ?p D1 (\<lambda>j. -1 * cnt (Reward c) j) (\<lambda>j. -1 * cnt (Reward c) j) w1 (pay (Reward c) w1)"
    using pay[OF ok1 t1(1) am(1)] by blast
  obtain t2 where t2: "map_of (containers (pay (Reward c) w1)) ?p = Some t2"
    "\<And>j. cnt (Reserved t2) j = cnt (Reserved t1) j - cnt (Reward c) j"
    using flow_box[OF f1 t1(1)] by auto
  have ok2: "store_ok (pay (Reward c) w1)" using f1 by (simp add: flow_def)
  have "cnt (Deposit c) k \<le> cnt (Reserved t2) k" for k using res[of k] t1(2)[of k] t2(2)[of k] by simp
  then obtain D2 where f2: "flow ?p D2 (\<lambda>j. -1 * cnt (Deposit c) j) (\<lambda>j. -1 * cnt (Deposit c) j)
      (pay (Reward c) w1) (pay (Deposit c) (pay (Reward c) w1))"
    using pay[OF ok2 t2(1) am(2)] flow_no_agent[OF f1] by blast
  show ?thesis
    using flow_trans[OF f flow_trans[OF f1 f2]] c(2) by (auto intro!: exI)
qed

lemma settle_items_flow:
  assumes inv: "escrow_inv w" and c: "map_of (contracts w) cid = Some c"
    and t: "map_of (containers w) (TerminalPos c) = Some t"
    and d: "d = DecisionExpireOpen \<and> CState c = ContractOpen \<or>
      (d = DecisionTimeoutAccepted \<or> d = DecisionCompleteBuild \<or>
       d = DecisionCompleteDeliver \<and> HasAvailable (Requirements c) (AvailableCount t)) \<and> CState c = ContractAccepted"
  shows "\<exists>D V. flow (TerminalPos c) D V (\<lambda>j. - promised (CState c) c j) w (settle_items (PlanSettlement d) c w)"
proof -
  let ?p = "TerminalPos c"
  note st = escrow_store[OF inv] and cok = escrow_contract[OF inv c]
  have pay: "\<exists>D. flow ?p D (\<lambda>j. -1 * cnt its j) (\<lambda>j. -1 * cnt its j) w (contractTerminalTransfer ?p its x True w)"
    if "x \<noteq> []" "store_ok w" "map_of (containers w) ?p = Some t" "amounts_ok its" "\<And>k. cnt its k \<le> cnt (Reserved t) k" for x its w t
    using contractTerminalTransfer_flow[OF that(2-4,1), where rel = True] that(5)
    by (auto simp: can_release_def rel_sign_def)
  have am: "amounts_ok (Reward c)" "amounts_ok (Requirements c)" and po: "Poster c \<noteq> []" using cok by (simp_all add: contract_ok_def)
  from d show ?thesis
  proof (elim disjE conjE)
    assume d: "d = DecisionExpireOpen" "CState c = ContractOpen"
    have "cnt (Reward c) k \<le> cnt (Reserved t) k" for k
      using demand_ge[OF inv c, of k] inv t d(2) by (simp add: escrow_inv_def)
    from pay[OF po st t am(1) this] d show ?thesis
      by (auto simp: settle_items_def empty_plan_def contractPayoutAgent_def PayoutAgent_def)
  next
    assume d: "d = DecisionTimeoutAccepted" "CState c = ContractAccepted"
    from two_payouts_flow[where pay = "\<lambda>its. contractTerminalTransfer ?p its (Poster c) True", OF inv c d(2) flow_refl[OF st t]]
    show ?thesis using pay[OF po] d(1)
      by (simp add: settle_items_def empty_plan_def contractPayoutAgent_def PayoutAgent_def Let_def)
  next
    assume d: "d = DecisionCompleteBuild" "CState c = ContractAccepted"
    then have ac: "Acceptor c \<noteq> []" using cok by (simp add: contract_ok_def)
    from two_payouts_flow[where pay = "\<lambda>its. contractTerminalTransfer ?p its (Acceptor c) True", OF inv c d(2) flow_refl[OF st t]]
    show ?thesis using pay[OF ac] d(1)
      by (simp add: settle_items_def empty_plan_def contractPayoutAgent_def PayoutAgent_def Let_def)
  next
    assume d: "CState c = ContractAccepted" "d = DecisionCompleteDeliver" and has: "HasAvailable (Requirements c) (AvailableCount t)"
    then have ac: "Acceptor c \<noteq> []" using cok by (simp add: contract_ok_def)
    have f: "\<exists>D V. flow ?p D V (\<lambda>_. 0) w (contractTerminalTransfer ?p (Requirements c) (Poster c) False w)"
      using contractTerminalTransfer_flow[OF st t am(2) po, where rel = False] HasAvailable_cnt[OF st t am(2) has]
      by (auto simp: can_release_def rel_sign_def)
    then obtain D V where f: "flow ?p D V (\<lambda>_. 0) w (contractTerminalTransfer ?p (Requirements c) (Poster c) False w)" by blast
    from two_payouts_flow[where pay = "\<lambda>its. contractTerminalTransfer ?p its (Acceptor c) True", OF inv c d(1) f]
    show ?thesis using pay[OF ac] d(2)
      by (simp add: settle_items_def empty_plan_def contractPayoutAgent_def PayoutAgent_def Let_def)
  qed
qed

lemma contract_decision_cases:
  assumes "map_of (containers w) (TerminalPos c) = Some t" and "contract_decision now c w = d" and "d \<noteq> DecisionNoop"
  shows "d = DecisionExpireOpen \<and> CState c = ContractOpen \<or>
      (d = DecisionTimeoutAccepted \<or> d = DecisionCompleteBuild \<or>
       d = DecisionCompleteDeliver \<and> HasAvailable (Requirements c) (AvailableCount t)) \<and> CState c = ContractAccepted"
  using assms by (auto simp: contract_decision_def DecideTick_def Let_def split: if_splits; cases "CState c"; simp)

lemma contract_decision_missing:
  "map_of (containers w) (TerminalPos c) = None \<Longrightarrow>
    contract_decision now c w \<in> {DecisionNoop, DecisionFailMissingTarget}"
  by (simp add: contract_decision_def DecideTick_def Let_def)

lemma settled_promises_nothing:
  "d \<noteq> DecisionNoop \<Longrightarrow> promised (settled_state (PlanSettlement d) st) c' j = 0"
  by (cases d) (simp_all add: settled_state_def empty_plan_def Let_def)

lemma settled_contract_ok:
  assumes "contract_ok c" and "d \<noteq> DecisionNoop"
  shows "contract_ok (c\<lparr>CState := settled_state (PlanSettlement d) (CState c)\<rparr>)"
  using assms by (cases d) (simp_all add: contract_ok_def settled_state_def empty_plan_def Let_def)

lemma settle_contract_calm:
  "calm (upd_contract cid (\<lambda>_. c\<lparr>CState := settled_state (PlanSettlement d) (CState c)\<rparr>) (settle_items (PlanSettlement d) c w))
    (settle_contract fl now cid d c w)"
  by (auto simp: settle_contract_def Let_def intro: calm_intros calm_credit calm_audit)

lemma tick_contract_keeps:
  assumes inv: "escrow_inv w"
  shows "keeps w (tick_contract fl now cid w)"
proof (cases "map_of (contracts w) cid")
  case None
  then show ?thesis using inv by (simp add: tick_contract_def keeps_def)
next
  case (Some c)
  let ?d = "contract_decision now c w"
  show ?thesis
  proof (cases "CState c \<noteq> ContractOpen \<and> CState c \<noteq> ContractAccepted \<or> ?d = DecisionNoop")
    case True
    then have "tick_contract fl now cid w = w" by (auto simp: tick_contract_def Some Let_def)
    then show ?thesis using inv by (simp add: keeps_def)
  next
    case act: False
    show ?thesis
    proof (cases "map_of (containers w) (TerminalPos c)")
      case None
      then have d: "?d = DecisionFailMissingTarget" using contract_decision_missing[OF None] act by blast
      define w' where "w' = w\<lparr>contracts := mput cid (c\<lparr>CState := ContractFailed\<rparr>) (contracts w)\<rparr>"
      have e: "tick_contract fl now cid w = w'"
        using act d by (auto simp: tick_contract_def Some Let_def empty_plan_def upd_contract_def w'_def)
      have v: "inv_view w' = inv_view w" "containers w' = containers w" "nextContractNum w' = nextContractNum w"
        by (simp_all add: w'_def inv_view_def)
      have dem: "demand p j (contracts w') = demand p j (contracts w)" if "p \<noteq> TerminalPos c" for p j
        using that by (simp add: w'_def demand_def msum_mput_Some[OF Some])
      have "\<forall>(k, d) \<in> set (contracts w'). contract_ok d \<and> (\<exists>n \<le> nextContractNum w. k = contract_id n)"
        unfolding w'_def by (simp, rule ball_mput) (use inv map_of_SomeD[OF Some] in \<open>auto simp: escrow_inv_def contract_ok_def\<close>)
      moreover have "wf_map (contracts w')" using inv by (simp add: w'_def escrow_inv_def)
      moreover have h: "held w' j = held w j" for j by (simp add: held_def v)
      moreover have "\<forall>j. cnt (Reserved t) j = demand p j (contracts w')" if "map_of (containers w') p = Some t" for p t
      proof -
        have "p \<noteq> TerminalPos c" using that None by (auto simp: v)
        then show ?thesis using that inv dem by (simp add: v escrow_inv_def)
      qed
      ultimately show ?thesis
        unfolding e using inv by (simp add: keeps_def escrow_inv_def store_ok_def v)
    next
      case t: (Some t)
      have cs: "?d = DecisionExpireOpen \<and> CState c = ContractOpen \<or>
          (?d = DecisionTimeoutAccepted \<or> ?d = DecisionCompleteBuild \<or>
           ?d = DecisionCompleteDeliver \<and> HasAvailable (Requirements c) (AvailableCount t)) \<and> CState c = ContractAccepted"
        by (rule contract_decision_cases[OF t refl]) (use act in simp)
      obtain D V where f: "flow (TerminalPos c) D V (\<lambda>j. - promised (CState c) c j) w (settle_items (PlanSettlement ?d) c w)"
        using settle_items_flow[OF inv Some t cs] by blast
      define c' where "c' = c\<lparr>CState := settled_state (PlanSettlement ?d) (CState c)\<rparr>"
      have nn: "?d \<noteq> DecisionNoop" and nm: "?d \<noteq> DecisionFailMissingTarget" using act cs by auto
      have "keeps w (upd_contract cid (\<lambda>_. c') (settle_items (PlanSettlement ?d) c w))"
        by (rule escrow_update[OF inv Some f])
           (use settled_contract_ok[OF escrow_contract[OF inv Some] nn] settled_promises_nothing[OF nn] in \<open>simp_all add: c'_def\<close>)
      moreover note settle_contract_calm[where cid = cid and c = c and d = "?d" and w = w and fl = fl and now = now, folded c'_def]
      moreover have "tick_contract fl now cid w = settle_contract fl now cid ?d c w"
        using act nm by (auto simp: tick_contract_def Some Let_def)
      ultimately show ?thesis using keeps_then_calm by simp
    qed
  qed
qed

lemma keeps_trans: "keeps u v \<Longrightarrow> keeps v w \<Longrightarrow> keeps u w"
  by (simp add: keeps_def)

lemma tickContracts_keeps:
  assumes "escrow_inv w"
  shows "keeps w (tickContracts fl now w)"
proof -
  have "keeps w (fold (tick_contract fl now) ids w)" if "escrow_inv w" for ids w
    using that
  proof (induction ids arbitrary: w)
    case (Cons k ids)
    have k: "keeps w (tick_contract fl now k w)" by (rule tick_contract_keeps[OF Cons.prems])
    then have "keeps (tick_contract fl now k w) (fold (tick_contract fl now) ids (tick_contract fl now k w))"
      by (intro Cons.IH) (simp add: keeps_def)
    with k show ?case by (auto intro: keeps_trans)
  qed (simp add: keeps_def)
  then show ?thesis using assms by (simp add: tickContracts_def)
qed

text \<open>What a submitted contract has been checked for.\<close>

lemma ValidateSubmit_ok:
  "fst (ValidateSubmit v) \<longleftrightarrow> SVHasContract v \<and> SVState v = Some ContractAccepted \<and> SVIsAcceptor v \<and>
    SVTerminalMatch v \<and> SVDistance v \<le> 3 \<and> SVNowTick v \<le> SVDeadlineTick v \<and> SVCanSubmit v"
  by (auto simp: ValidateSubmit_def not_less)

lemma CanSubmit_split:
  "CanSubmit k ((k = ''GATHER'' \<or> k = ''DELIVER'') \<and> r) (k = ''BUILD'' \<and> b) \<longleftrightarrow>
    (if NeedsRequirementsConsumption k then r else k = ''BUILD'' \<and> b)"
  unfolding CanSubmit_def NeedsRequirementsConsumption_def
  by (cases "k = ''GATHER'' \<or> k = ''DELIVER''") (simp_all only: simp_thms if_True if_False cong: conj_cong, auto)

lemma submit_checks:
  assumes "fst (ValidateSubmit (submit_input aid a co box now w))"
  shows "\<exists>c p t. co = Some c \<and> box = Some (p, t) \<and> CType t = ''CONTRACT_TERMINAL'' \<and> p = TerminalPos c \<and>
    CState c = ContractAccepted \<and> Acceptor c = aid \<and> now \<le> DeadlineTick c \<and> Manhattan (APos a) p \<le> 3 \<and>
    (NeedsRequirementsConsumption (Kind c) \<longrightarrow> HasAvailable (Requirements c) (AvailableCount t)) \<and>
    (\<not> NeedsRequirementsConsumption (Kind c) \<longrightarrow> Kind c = ''BUILD'' \<and> CheckBuildContract w c)"
proof (cases co)
  case None
  then show ?thesis using assms by (simp add: submit_input_def PrepareSubmitValidation_def ValidateSubmit_def)
next
  case (Some c)
  show ?thesis
  proof (cases "\<exists>p t. box = Some (p, t) \<and> CType t = ''CONTRACT_TERMINAL'' \<and> p = TerminalPos c")
    case False
    then show ?thesis using assms Some
      by (auto simp: submit_input_def PrepareSubmitValidation_def ValidateSubmit_def split: option.splits if_splits)
  next
    case True
    then obtain p t where pt: "box = Some (p, t)" "CType t = ''CONTRACT_TERMINAL''" "p = TerminalPos c" by blast
    define r where "r = HasAvailable (Requirements c) (AvailableCount t)"
    define b where "b = CheckBuildContract w c"
    have "fst (ValidateSubmit (PrepareSubmitValidation (Some (CState c)) (Acceptor c = aid) ''CONTRACT_TERMINAL'' True
        (Manhattan (APos a) p) now (DeadlineTick c) (Kind c)
        ((Kind c = ''GATHER'' \<or> Kind c = ''DELIVER'') \<and> r) (Kind c = ''BUILD'' \<and> b)))"
      using assms by (simp add: Some pt submit_input_def BuildTerminalContext_def r_def b_def)
    then have "CState c = ContractAccepted \<and> Acceptor c = aid \<and> now \<le> DeadlineTick c \<and> Manhattan (APos a) p \<le> 3 \<and>
        (if NeedsRequirementsConsumption (Kind c) then r else Kind c = ''BUILD'' \<and> b)"
      unfolding ValidateSubmit_ok by (simp add: PrepareSubmitValidation_def CanSubmit_split split: if_splits)
    then show ?thesis using Some pt by (auto simp: r_def b_def)
  qed
qed

lemma submit_items_flow:
  assumes inv: "escrow_inv w" and c: "map_of (contracts w) cid = Some c" "CState c = ContractAccepted"
    and t: "map_of (containers w) (TerminalPos c) = Some t" and aid: "map_of (inv_view w) aid \<noteq> None"
    and has: "NeedsRequirementsConsumption (Kind c) \<longrightarrow> HasAvailable (Requirements c) (AvailableCount t)"
  shows "\<exists>D V. flow (TerminalPos c) D V (\<lambda>j. - promised (CState c) c j) w (submit_items aid c (TerminalPos c) w)"
proof -
  let ?p = "TerminalPos c"
  note st = escrow_store[OF inv] and cok = escrow_contract[OF inv c(1)]
  have am: "amounts_ok (Requirements c)" using cok by (simp add: contract_ok_def)
  define w1 where "w1 = (if NeedsRequirementsConsumption (Kind c) then
     ConsumeRequirementsToPoster (take_box ?p) (Requirements c) (\<lambda>item n. upd_container ?p (AddOwed (Poster c) item n)) w else w)"
  have f: "\<exists>V. flow ?p (\<lambda>_ _. 0) V (\<lambda>_. 0) w w1"
  proof (cases "NeedsRequirementsConsumption (Kind c)")
    case True
    from ConsumeRequirements_flow[OF st t am HasAvailable_cnt[OF st t am]] True has show ?thesis
      by (auto simp: w1_def)
  qed (use flow_refl[OF st t] in \<open>auto simp: w1_def\<close>)
  then obtain V where f: "flow ?p (\<lambda>_ _. 0) V (\<lambda>_. 0) w w1" by blast
  have m: "map_of (inv_view w1) aid \<noteq> None" using flow_no_agent[OF f] aid by simp
  let ?pay = "\<lambda>its. PayoutItems (take_box ?p) its (\<lambda>item n. upd_container ?p (Unreserve item n)) (give_agent aid)"
  have "\<exists>D V. flow ?p D V (\<lambda>j. - promised (CState c) c j) w (?pay (Deposit c) (?pay (Reward c) w1))"
    by (rule two_payouts_flow[OF inv c f]) (rule exI, rule PayoutItems_flow; use m in simp)
  then show ?thesis by (simp add: submit_items_def w1_def Let_def)
qed

lemma Submit_keeps:
  assumes inv: "escrow_inv w"
  shows "keeps w (HandleSubmitContract fl aid inst now w)"
proof (cases "map_of (agents w) aid")
  case None
  then show ?thesis using inv by (simp add: HandleSubmitContract_def keeps_def)
next
  case (Some a)
  let ?co = "map_of (contracts w) (InstContractID inst)"
  let ?box = "GetContainerByID (containers w) (InstTerminalID inst)"
  show ?thesis
  proof (cases "fst (ValidateLifecycleIDs (InstContractID inst) (InstTerminalID inst)) \<and>
      fst (ValidateSubmit (submit_input aid a ?co ?box now w))")
    case False
    then have "calm w (HandleSubmitContract fl aid inst now w)"
      by (auto simp: HandleSubmitContract_def Some Let_def)
    then show ?thesis by (rule keeps_calm[OF inv])
  next
    case True
    then obtain c p t where ok: "?co = Some c" "?box = Some (p, t)" "p = TerminalPos c" "CState c = ContractAccepted"
      "NeedsRequirementsConsumption (Kind c) \<longrightarrow> HasAvailable (Requirements c) (AvailableCount t)"
      using submit_checks by blast
    have t: "map_of (containers w) (TerminalPos c) = Some t" using GetContainerByID_at[OF ok(2)] ok(3) by simp
    define w2 where "w2 = submit_items aid c (TerminalPos c) w"
    obtain D V where f: "flow (TerminalPos c) D V (\<lambda>j. - promised (CState c) c j) w w2"
      using submit_items_flow[OF inv ok(1,4) t _ ok(5), of aid] Some by (auto simp: map_of_inv_view w2_def)
    have "keeps w (upd_contract (InstContractID inst) (\<lambda>_. c\<lparr>CState := ContractCompleted\<rparr>) w2)"
      by (rule escrow_update[OF inv ok(1) f]) (use escrow_contract[OF inv ok(1)] in \<open>simp_all add: contract_ok_def\<close>)
    moreover have "upd_contract (InstContractID inst) (\<lambda>_. c\<lparr>CState := ContractCompleted\<rparr>) w2 =
        upd_contract (InstContractID inst) (\<lambda>c. c\<lparr>CState := ContractCompleted\<rparr>) w2"
      using f ok(1) by (simp add: upd_contract_def flow_def)
    moreover have "calm (upd_contract (InstContractID inst) (\<lambda>c. c\<lparr>CState := ContractCompleted\<rparr>) w2)
        (HandleSubmitContract fl aid inst now w)"
      using True ok(1,2,3) by (auto simp: HandleSubmitContract_def Some Let_def w2_def intro: calm_intros calm_credit calm_audit)
    ultimately show ?thesis using keeps_then_calm by simp
  qed
qed

end
