(* ===== verification/Contract_Market.thy ===== *)
theory Contract_Market
  imports Contract_Escrow
begin

text \<open>
  Contracts as a transition system: conservation of items over any sequence of steps, the life of a
  contract, what the tick settles, and the two places where the code falls short (the enumeration order
  of the tick, unbounded deposits).
\<close>

section \<open>The contract market as a transition system\<close>

text \<open>
  The steps contracts are subject to, in any order and at any time.  A post is asked to be within the
  range of the counter and of the amounts (see \<open>deposit_overflow\<close> for what happens otherwise).
\<close>

inductive contract_step :: "go_floats \<Rightarrow> world \<Rightarrow> world \<Rightarrow> bool" for fl :: go_floats where
  post: "post_ok inst \<Longrightarrow> nextContractNum w < nextContractNum w + 1 \<Longrightarrow>
    contract_step fl w (HandlePostContract aid inst now w)"
| accept: "contract_step fl w (HandleAcceptContract aid inst now w)"
| submit: "contract_step fl w (HandleSubmitContract fl aid inst now w)"
| claim: "contract_step fl w (HandleClaimOwed aid inst now w)"
| tick: "contract_step fl w (tickContracts fl now w)"

lemma contract_step_keeps: "contract_step fl w w' \<Longrightarrow> escrow_inv w \<Longrightarrow> keeps w w'"
  by (induction rule: contract_step.induct)
     (simp_all add: Post_keeps Accept_keeps Submit_keeps Claim_keeps tickContracts_keeps)

lemma contract_steps_keep:
  assumes "(contract_step fl)\<^sup>*\<^sup>* w w'" and "escrow_inv w"
  shows "keeps w w'"
  using assms
proof (induction rule: rtranclp_induct)
  case base
  then show ?case by (simp add: keeps_def)
next
  case (step u v)
  then have "keeps w u" "escrow_inv u" by (simp_all add: keeps_def)
  with contract_step_keeps[OF step.hyps(2)] show ?case by (blast intro: keeps_trans)
qed

text \<open>
  C1. Contracts never create or destroy items, and escrow is always covered: in whatever order contracts
  are posted, accepted, submitted, ticked and owed items claimed, the total of an item over all agents,
  terminals and owed accounts stays the same, every terminal keeps reserved exactly what its open and
  accepted contracts still promise, and it holds at least that much.
\<close>

theorem contracts_conserve:
  assumes "(contract_step fl)\<^sup>*\<^sup>* w w'" and "escrow_inv w"
  shows "held w' j = held w j \<and>
    (\<forall>p t. map_of (containers w') p = Some t \<longrightarrow>
      cnt (Reserved t) j = demand p j (contracts w') \<and> cnt (Reserved t) j \<le> cnt (Inventory t) j) \<and>
    (\<forall>a \<in> snd ` set (agents w'). 0 \<le> cnt (AInventory a) j)"
proof -
  have k: "escrow_inv w'" "held w' j = held w j" using contract_steps_keep[OF assms] by (simp_all add: keeps_def)
  then have st: "store_ok w'" by (simp add: escrow_inv_def)
  have "cnt (Reserved t) j = demand p j (contracts w') \<and> cnt (Reserved t) j \<le> cnt (Inventory t) j"
    if "map_of (containers w') p = Some t" for p t
  proof -
    have "box_ok t" using held_exact(2)[OF st that] by blast
    from box_okD(2)[OF this, of j] k(1) that show ?thesis by (simp add: escrow_inv_def)
  qed
  moreover have "\<forall>a \<in> snd ` set (agents w'). 0 \<le> cnt (AInventory a) j"
  proof clarify
    fix x a assume "(x, a) \<in> set (agents w')"
    then have "(x, AInventory a) \<in> set (inv_view w')" by (force simp: inv_view_def)
    with st show "0 \<le> cnt (AInventory (snd (x, a))) j" by (auto simp: store_ok_def)
  qed
  ultimately show ?thesis using k(2) by blast
qed

definition market_pos :: vec3 where
  "market_pos = \<lparr>vx = 1, vy = 0, vz = 1\<rparr>"

definition market_world :: world where
  "market_world = empty_world\<lparr>
     agents := [(''A1'', agent_named ''A1'' [(''COAL'', 5)]), (''A2'', agent_named ''A2'' [(''LOG'', 9)])],
     containers := [(market_pos, \<lparr>CType = ''CONTRACT_TERMINAL'', CPos = market_pos, Inventory = [(''LOG'', 4)],
                       Reserved = [], Owed = []\<rparr>)]\<rparr>"

lemma market_inv: "escrow_inv market_world"
proof -
  have v: "inv_view market_world = [(''A1'', [(''COAL'', 5)]), (''A2'', [(''LOG'', 9)])]"
    by (simp add: market_world_def inv_view_def)
  have c: "containers market_world = [(market_pos, \<lparr>CType = ''CONTRACT_TERMINAL'', CPos = market_pos, Inventory = [(''LOG'', 4)],
      Reserved = [], Owed = []\<rparr>)]" "contracts market_world = []"
    by (simp_all add: market_world_def)
  show ?thesis
    by (auto simp: escrow_inv_def store_ok_def v c wf_map_def box_ok_def held_def box_items_def demand_def split: if_splits)
qed

definition coal_post :: instant where
  "coal_post = blank_inst\<lparr>InstTerminalID := ''CONTRACT_TERMINAL@1,0,1'', InstContractKind := ''DELIVER'',
     InstRequirements := [(''LOG'', 3)], InstReward := [(''COAL'', 2)]\<rparr>"

theorem contracts_conserve_witness:
  "held (tickContracts sample_floats 99999 (HandlePostContract ''A1'' coal_post 7 market_world)) ''COAL'' = 5"
proof -
  have "post_ok coal_post"
    by (simp add: post_ok_def coal_post_def blank_inst_def stacks_ok_def)
  then have "contract_step sample_floats market_world (HandlePostContract ''A1'' coal_post 7 market_world)"
    by (rule contract_step.post) (simp add: market_world_def)
  then have "(contract_step sample_floats)\<^sup>*\<^sup>* market_world
      (tickContracts sample_floats 99999 (HandlePostContract ''A1'' coal_post 7 market_world))"
    by (blast intro: rtranclp.intros contract_step.tick)
  from contracts_conserve[OF this market_inv, of "''COAL''"]
  have "held (tickContracts sample_floats 99999 (HandlePostContract ''A1'' coal_post 7 market_world)) ''COAL'' =
      held market_world ''COAL''" by (rule conjunct1)
  also have "\<dots> = 5" by (simp add: held_def inv_view_def market_world_def box_items_def)
  finally show ?thesis .
qed

section \<open>The life of a contract\<close>

lemma contracts_upd_container [simp]: "contracts (for_items f its w) = contracts w"
  if "\<And>k n w. contracts (f k n w) = contracts w"
  by (rule for_items_invariant[where P = "\<lambda>u. contracts u = contracts w"]) (simp_all add: that)

text \<open>What no loop around a terminal touches: the contracts, and which terminals there are.\<close>

definition same_market :: "world \<Rightarrow> world \<Rightarrow> bool" where
  "same_market w w' \<longleftrightarrow> contracts w' = contracts w \<and>
     (\<forall>p. map_of (containers w') p = None \<longleftrightarrow> map_of (containers w) p = None)"

lemma same_market_refl [simp]: "same_market w w"
  by (simp add: same_market_def)

lemma same_market_trans: "same_market u v \<Longrightarrow> same_market v w \<Longrightarrow> same_market u w"
  by (simp add: same_market_def)

lemma same_market_upd [simp]:
  "same_market w (upd_container p f w)" "same_market w (give_agent x k n w)" "same_market w (take_agent x k n w)"
  "same_market w (take_box p k n w)" "same_market w (put_box p k n w)"
  by (simp_all add: same_market_def gomap take_box_def put_box_def)

lemma same_market_for_items:
  assumes "\<And>k n w. same_market w (f k n w)"
  shows "same_market w (for_items f its w)"
  by (rule for_items_invariant[where P = "same_market w"]) (auto intro: same_market_trans assms)

lemma same_market_transfer: "same_market w (contractTerminalTransfer p its x rel w)"
  unfolding contractTerminalTransfer_def ApplyTerminalTransfer_def
  by (auto intro!: same_market_for_items simp: Let_def
      intro: same_market_trans[OF same_market_trans[OF same_market_upd(1) same_market_upd(4)] same_market_upd(1)]
        same_market_trans[OF same_market_trans[OF same_market_upd(1) same_market_upd(4)] same_market_upd(2)]
        same_market_trans[OF same_market_upd(4) same_market_upd(1)] same_market_trans[OF same_market_upd(4) same_market_upd(2)])

lemma same_market_settle: "same_market w (settle_items plan c w)"
  unfolding settle_items_def Let_def
  by (auto intro!: same_market_trans[OF _ same_market_transfer])

lemma same_market_calm: "calm w w' \<Longrightarrow> same_market w w'"
  by (simp add: calm_def same_market_def)

lemma same_market_escrow: "same_market w (escrow_items aid p its w)"
  unfolding escrow_items_def
  by (rule same_market_for_items)
     (rule same_market_trans[OF same_market_trans[OF same_market_upd(3) same_market_upd(5)] same_market_upd(1)])

lemma same_market_submit: "same_market w (submit_items aid c p w)"
proof -
  have pay: "same_market u (PayoutItems (take_box p) its (\<lambda>item n. upd_container p (Unreserve item n)) (give_agent aid) u)" for u its
    unfolding PayoutItems_def
    by (rule same_market_for_items)
       (auto intro: same_market_trans[OF same_market_trans[OF same_market_upd(1) same_market_upd(4)] same_market_upd(2)])
  have con: "same_market u (ConsumeRequirementsToPoster (take_box p) its (\<lambda>item n. upd_container p (AddOwed x item n)) u)" for u its x
    unfolding ConsumeRequirementsToPoster_def
    by (rule same_market_for_items) (auto intro: same_market_trans[OF same_market_upd(4) same_market_upd(1)])
  show ?thesis unfolding submit_items_def Let_def
    by (auto intro!: same_market_trans[OF _ pay] con)
qed

text \<open>How a contract may change: the states it passes through, and what is fixed when.\<close>

inductive next_state :: "contract_state \<Rightarrow> contract_state \<Rightarrow> bool" where
  "next_state ContractOpen ContractAccepted"
| "next_state ContractOpen ContractFailed"
| "next_state ContractAccepted ContractCompleted"
| "next_state ContractAccepted ContractFailed"

inductive_simps next_state_simps [simp]: "next_state s t"

definition same_terms :: "contract \<Rightarrow> contract \<Rightarrow> bool" where
  "same_terms c c' \<longleftrightarrow> ContractID c' = ContractID c \<and> TerminalPos c' = TerminalPos c \<and> Poster c' = Poster c \<and>
     Kind c' = Kind c \<and> Requirements c' = Requirements c \<and> Reward c' = Reward c \<and> BlueprintID c' = BlueprintID c \<and>
     CAnchor c' = CAnchor c \<and> Rotation c' = Rotation c \<and> CreatedTick c' = CreatedTick c \<and> DeadlineTick c' = DeadlineTick c"

definition evolves :: "contract \<Rightarrow> contract \<Rightarrow> bool" where
  "evolves c c' \<longleftrightarrow> same_terms c c' \<and> next_state\<^sup>*\<^sup>* (CState c) (CState c') \<and>
     (CState c \<noteq> ContractOpen \<longrightarrow> Acceptor c' = Acceptor c \<and> Deposit c' = Deposit c)"

lemma evolves_refl [simp]: "evolves c c"
  by (simp add: evolves_def same_terms_def)

lemma not_next_open: "next_state\<^sup>*\<^sup>* s t \<Longrightarrow> s \<noteq> ContractOpen \<Longrightarrow> t \<noteq> ContractOpen"
  by (induction rule: rtranclp_induct) auto

lemma evolves_trans: "evolves a b \<Longrightarrow> evolves b c \<Longrightarrow> evolves a c"
  unfolding evolves_def same_terms_def using not_next_open by (auto intro: rtranclp_trans)

lemma final_state: "next_state\<^sup>*\<^sup>* s t \<Longrightarrow> s = ContractCompleted \<or> s = ContractFailed \<Longrightarrow> t = s"
  by (induction rule: rtranclp_induct) auto

lemma evolves_state:
  "next_state (CState c) s \<Longrightarrow> evolves c (c\<lparr>CState := s\<rparr>)"
  by (simp add: evolves_def same_terms_def r_into_rtranclp del: next_state_simps)

text \<open>Every contract on file stays on file and evolves.\<close>

definition files_evolve :: "world \<Rightarrow> world \<Rightarrow> bool" where
  "files_evolve w w' \<longleftrightarrow> (\<forall>cid c. map_of (contracts w) cid = Some c \<longrightarrow>
     (\<exists>c'. map_of (contracts w') cid = Some c' \<and> evolves c c'))"

lemma files_evolve_same: "contracts w' = contracts w \<Longrightarrow> files_evolve w w'"
  by (simp add: files_evolve_def)

lemma files_evolve_trans: "files_evolve u v \<Longrightarrow> files_evolve v w \<Longrightarrow> files_evolve u w"
  unfolding files_evolve_def by (meson evolves_trans)

lemma files_evolve_put:
  assumes "contracts w' = mput cid c' (contracts w)" and "\<And>c. map_of (contracts w) cid = Some c \<Longrightarrow> evolves c c'"
  shows "files_evolve w w'"
  using assms by (auto simp: files_evolve_def gomap)

lemma tick_contract_contracts:
  assumes "map_of (contracts w) cid = Some c" and "CState c = ContractOpen \<or> CState c = ContractAccepted"
    and "contract_decision now c w \<noteq> DecisionNoop"
  shows "\<exists>s. next_state (CState c) s \<and> s \<noteq> ContractAccepted \<and> contracts (tick_contract fl now cid w) = mput cid (c\<lparr>CState := s\<rparr>) (contracts w) \<and>
    (\<forall>p. map_of (containers (tick_contract fl now cid w)) p = None \<longleftrightarrow> map_of (containers w) p = None)"
proof -
  let ?d = "contract_decision now c w"
  show ?thesis
  proof (cases "?d = DecisionFailMissingTarget")
    case True
    then show ?thesis using assms
      by (intro exI[of _ ContractFailed]) (auto simp: tick_contract_def Let_def empty_plan_def upd_contract_def)
  next
    case False
    then obtain t where t: "map_of (containers w) (TerminalPos c) = Some t"
      using contract_decision_missing[of w c now] assms(3) by (cases "map_of (containers w) (TerminalPos c)") auto
    have nx: "next_state (CState c) (settled_state (PlanSettlement ?d) (CState c))"
      "settled_state (PlanSettlement ?d) (CState c) \<noteq> ContractAccepted"
      using contract_decision_cases[OF t refl assms(3)] by (auto simp: settled_state_def empty_plan_def)
    have e: "tick_contract fl now cid w = settle_contract fl now cid ?d c w"
      using assms False by (auto simp: tick_contract_def Let_def)
    have m: "same_market w (settle_items (PlanSettlement ?d) c w)" by (rule same_market_settle)
    show ?thesis
      using settle_contract_calm[where cid = cid and c = c and d = "?d" and w = w and fl = fl and now = now] m assms(1) nx unfolding e
      by (auto simp: calm_def same_market_def upd_contract_def intro!: exI[of _ "settled_state (PlanSettlement ?d) (CState c)"])
  qed
qed

lemma tick_contract_idle:
  assumes "map_of (contracts w) cid = None \<or> (\<exists>c. map_of (contracts w) cid = Some c \<and>
    (CState c \<noteq> ContractOpen \<and> CState c \<noteq> ContractAccepted \<or> contract_decision now c w = DecisionNoop))"
  shows "tick_contract fl now cid w = w"
  using assms by (auto simp: tick_contract_def Let_def)

lemma tick_contract_evolves: "files_evolve w (tick_contract fl now cid w)"
proof (cases "\<exists>c. map_of (contracts w) cid = Some c \<and> (CState c = ContractOpen \<or> CState c = ContractAccepted) \<and>
    contract_decision now c w \<noteq> DecisionNoop")
  case True
  then obtain c s where "map_of (contracts w) cid = Some c" "next_state (CState c) s"
    "contracts (tick_contract fl now cid w) = mput cid (c\<lparr>CState := s\<rparr>) (contracts w)"
    using tick_contract_contracts[of w cid _ now fl] by blast
  then show ?thesis by (auto intro!: files_evolve_put evolves_state simp del: next_state_simps)
next
  case False
  then have "tick_contract fl now cid w = w" by (intro tick_contract_idle) (cases "map_of (contracts w) cid"; auto)
  then show ?thesis by (simp add: files_evolve_same)
qed

lemma tickContracts_evolves: "files_evolve w (tickContracts fl now w)"
proof -
  have "files_evolve w (fold (tick_contract fl now) ids w)" for ids w
    by (induction ids arbitrary: w) (auto intro: files_evolve_same files_evolve_trans[OF tick_contract_evolves])
  then show ?thesis by (simp add: tickContracts_def)
qed

lemma files_evolve_calm: "files_evolve w u \<Longrightarrow> calm u v \<Longrightarrow> files_evolve w v"
  by (simp add: files_evolve_def calm_def)

lemma Post_evolves:
  assumes "escrow_inv w" and "nextContractNum w < nextContractNum w + 1"
  shows "files_evolve w (HandlePostContract aid inst now w)"
proof -
  have fresh: "map_of (contracts w) (contract_id (nextContractNum w + 1)) = None" by (rule contract_id_fresh[OF assms])
  have esc: "contracts (escrow_items aid p its w) = contracts w" for p its
    using same_market_escrow by (simp add: same_market_def)
  have nn: "nextContractNum (escrow_items aid p its w) = nextContractNum w" for p its
    unfolding escrow_items_def
    by (rule for_items_invariant[where P = "\<lambda>u. nextContractNum u = nextContractNum w"]) simp_all
  show ?thesis
    using fresh
    by (auto simp: HandlePostContract_def Let_def newContractID_def esc nn contract_id_def files_evolve_def gomap
        reply_verdict_def split: option.split prod.split)
qed

lemma Accept_evolves: "files_evolve w (HandleAcceptContract aid inst now w)"
proof (cases "map_of (agents w) aid")
  case (Some a)
  let ?co = "map_of (contracts w) (InstContractID inst)"
  let ?box = "GetContainerByID (containers w) (InstTerminalID inst)"
  obtain state dl base tt d tm where view: "(case ?co of None \<Rightarrow> (None, 0, [], [], 0, False)
      | Some c \<Rightarrow> (Some (CState c), DeadlineTick c, Deposit c, terminal_view ?box (TerminalPos c) (APos a))) =
      (state, dl, base, tt, d, tm)"
    by (rule prod_cases6)
  obtain v required where pa: "PrepareAccept state tt tm d now dl base (repDepositMultiplier (Some a)) (AInventory a) = (v, required)"
    by fastforce
  show ?thesis
  proof (cases "fst (ValidateLifecycleIDs (InstContractID inst) (InstTerminalID inst)) \<and> fst (ValidateAccept v) \<and> ?box \<noteq> None")
    case False
    then have "contracts (HandleAcceptContract aid inst now w) = contracts w"
      by (auto simp: HandleAcceptContract_def Some Let_def view pa reply_verdict_def split: option.split)
    then show ?thesis by (rule files_evolve_same)
  next
    case ok: True
    then obtain p t where pt: "?box = Some (p, t)" by auto
    obtain c where c: "?co = Some c" "CState c = ContractOpen"
      using view accept_checks(1)[of v, OF _ pa] ok by (auto split: option.splits)
    define c' where "c' = c\<lparr>Deposit := required, Acceptor := aid, CState := ContractAccepted\<rparr>"
    have esc: "contracts (escrow_items aid p its w) = contracts w" for its
      using same_market_escrow by (simp add: same_market_def)
    have "contracts (HandleAcceptContract aid inst now w) = mput (InstContractID inst) c' (contracts w)"
      using ok view pa c(1) pt by (simp add: HandleAcceptContract_def Some Let_def c'_def upd_contract_def esc)
    moreover have "evolves c c'" using c(2) by (simp add: evolves_def same_terms_def c'_def r_into_rtranclp)
    ultimately show ?thesis using c(1) by (auto intro: files_evolve_put)
  qed
qed (simp add: HandleAcceptContract_def files_evolve_same)

lemma Submit_evolves: "files_evolve w (HandleSubmitContract fl aid inst now w)"
proof (cases "map_of (agents w) aid")
  case (Some a)
  let ?co = "map_of (contracts w) (InstContractID inst)"
  let ?box = "GetContainerByID (containers w) (InstTerminalID inst)"
  show ?thesis
  proof (cases "fst (ValidateLifecycleIDs (InstContractID inst) (InstTerminalID inst)) \<and>
      fst (ValidateSubmit (submit_input aid a ?co ?box now w))")
    case False
    then have "calm w (HandleSubmitContract fl aid inst now w)"
      by (auto simp: HandleSubmitContract_def Some Let_def)
    then show ?thesis by (simp add: calm_def files_evolve_same)
  next
    case True
    then obtain c p t where ok: "?co = Some c" "?box = Some (p, t)" "CState c = ContractAccepted"
      using submit_checks by blast
    have m: "contracts (submit_items aid c p w) = contracts w" using same_market_submit by (simp add: same_market_def)
    have "calm (upd_contract (InstContractID inst) (\<lambda>c. c\<lparr>CState := ContractCompleted\<rparr>) (submit_items aid c p w))
        (HandleSubmitContract fl aid inst now w)"
      using True ok(1,2) by (auto simp: HandleSubmitContract_def Some Let_def intro: calm_intros calm_credit calm_audit)
    moreover have "files_evolve w (upd_contract (InstContractID inst) (\<lambda>c. c\<lparr>CState := ContractCompleted\<rparr>) (submit_items aid c p w))"
      using ok by (intro files_evolve_put[where cid = "InstContractID inst"])
        (auto simp: upd_contract_def m intro!: evolves_state)
    ultimately show ?thesis using files_evolve_calm by blast
  qed
qed (simp add: HandleSubmitContract_def files_evolve_same)

lemma Claim_evolves: "files_evolve w (HandleClaimOwed aid inst now w)"
proof -
  have g: "contracts (for_items (\<lambda>item n w. if n > 0 then give_agent aid item n w else w) its u) = contracts u" for its u
    by (rule for_items_invariant[where P = "\<lambda>v. contracts v = contracts u"]) simp_all
  show ?thesis
    by (rule files_evolve_same) (auto simp: HandleClaimOwed_def Let_def g split: option.split)
qed

lemma contract_step_evolves: "contract_step fl w w' \<Longrightarrow> escrow_inv w \<Longrightarrow> files_evolve w w'"
  by (induction rule: contract_step.induct)
     (simp_all add: Post_evolves Accept_evolves Submit_evolves Claim_evolves tickContracts_evolves)

text \<open>
  C8. The life of a contract: once posted it stays on file under its identifier, its terms (terminal,
  poster, requirements, reward, blueprint, deadline) never change, its state only moves from open to
  accepted to completed or failed, or from open to failed, the acceptor and the deposit are fixed from
  acceptance on, and a completed or failed contract never changes again.
\<close>

theorem contract_lifecycle:
  assumes "(contract_step fl)\<^sup>*\<^sup>* w w'" and "escrow_inv w" and "map_of (contracts w) cid = Some c"
  shows "\<exists>c'. map_of (contracts w') cid = Some c' \<and> same_terms c c' \<and> next_state\<^sup>*\<^sup>* (CState c) (CState c') \<and>
    (CState c \<noteq> ContractOpen \<longrightarrow> Acceptor c' = Acceptor c \<and> Deposit c' = Deposit c) \<and>
    (CState c = ContractCompleted \<or> CState c = ContractFailed \<longrightarrow> c' = c)"
proof -
  have "files_evolve w w'"
    using assms(1)
  proof (induction rule: rtranclp_induct)
    case base
    then show ?case by (simp add: files_evolve_same)
  next
    case (step u v)
    have "escrow_inv u" using contract_steps_keep[OF step.hyps(1) assms(2)] by (simp add: keeps_def)
    then show ?case using contract_step_evolves[OF step.hyps(2)] step.IH files_evolve_trans by blast
  qed
  then obtain c' where c': "map_of (contracts w') cid = Some c'" "evolves c c'"
    using assms(3) by (auto simp: files_evolve_def)
  have "c' = c" if fin: "CState c = ContractCompleted \<or> CState c = ContractFailed"
  proof -
    have "CState c' = CState c" using final_state[OF _ fin] c'(2) by (simp add: evolves_def)
    with c'(2) fin show ?thesis by (auto simp: evolves_def same_terms_def intro!: contract.equality)
  qed
  with c' show ?thesis by (auto simp: evolves_def)
qed

definition filed :: contract where
  "filed = \<lparr>ContractID = ''C000001'', TerminalPos = market_pos, Poster = ''A1'', Acceptor = ''A2'', Kind = ''DELIVER'',
     Requirements = [(''LOG'', 3)], Reward = [(''COAL'', 2)], Deposit = [], BlueprintID = [], CAnchor = market_pos,
     Rotation = 0, CreatedTick = 1, DeadlineTick = 50, CState = ContractCompleted\<rparr>"

definition old_market :: world where
  "old_market = market_world\<lparr>contracts := [(''C000001'', filed)], nextContractNum := 1\<rparr>"

lemma old_market_inv: "escrow_inv old_market"
proof -
  have v: "inv_view old_market = inv_view market_world" "containers old_market = containers market_world"
    by (simp_all add: old_market_def inv_view_def)
  have "contract_id 1 = ''C000001''"
    by code_simp
  then have "\<exists>n \<le> nextContractNum old_market. ''C000001'' = contract_id n"
    by (intro exI[of _ 1]) (simp add: old_market_def)
  moreover have "contract_ok filed" by (simp add: contract_ok_def filed_def amounts_ok_def wf_map_def)
  ultimately have "\<forall>(k, d) \<in> set (contracts old_market). contract_ok d \<and> (\<exists>n \<le> nextContractNum old_market. k = contract_id n)"
    by (simp add: old_market_def)
  moreover have "wf_map (contracts old_market)" by (simp add: old_market_def wf_map_def)
  moreover have "store_ok old_market"
    using market_inv by (simp add: escrow_inv_def store_ok_def v held_def)
  moreover have "demand p j (contracts old_market) = demand p j (contracts market_world)" for p j
    by (simp add: demand_def old_market_def market_world_def filed_def)
  ultimately show ?thesis
    using market_inv unfolding escrow_inv_def v by simp
qed

theorem contract_lifecycle_witness:
  "map_of (contracts (tickContracts sample_floats 60 (HandleAcceptContract ''A2''
     (blank_inst\<lparr>InstContractID := ''C000001'', InstTerminalID := ''CONTRACT_TERMINAL@1,0,1''\<rparr>) 60 old_market))) ''C000001'' = Some filed"
proof -
  let ?w = "HandleAcceptContract ''A2'' (blank_inst\<lparr>InstContractID := ''C000001'', InstTerminalID := ''CONTRACT_TERMINAL@1,0,1''\<rparr>) 60 old_market"
  have "(contract_step sample_floats)\<^sup>*\<^sup>* old_market (tickContracts sample_floats 60 ?w)"
    by (blast intro: rtranclp.intros contract_step.tick contract_step.accept)
  moreover have "map_of (contracts old_market) ''C000001'' = Some filed" by (simp add: old_market_def)
  ultimately obtain c' where "map_of (contracts (tickContracts sample_floats 60 ?w)) ''C000001'' = Some c'"
    "CState filed = ContractCompleted \<or> CState filed = ContractFailed \<longrightarrow> c' = filed"
    using contract_lifecycle[OF _ old_market_inv, of sample_floats _ "''C000001''" filed] by blast
  then show ?thesis by (simp add: filed_def)
qed

text \<open>A contract the tick has looked at: settled, or in time and with its terminal in place.\<close>

definition in_time :: "u64 \<Rightarrow> string \<Rightarrow> world \<Rightarrow> bool" where
  "in_time now cid w \<longleftrightarrow> (\<forall>c. map_of (contracts w) cid = Some c \<longrightarrow> CState c = ContractOpen \<or> CState c = ContractAccepted \<longrightarrow>
     now \<le> DeadlineTick c \<and> map_of (containers w) (TerminalPos c) \<noteq> None)"

lemma tick_contract_in_time: "in_time now cid (tick_contract fl now cid w)"
proof (cases "\<exists>c. map_of (contracts w) cid = Some c \<and> (CState c = ContractOpen \<or> CState c = ContractAccepted) \<and>
    contract_decision now c w \<noteq> DecisionNoop")
  case True
  then obtain c where c: "map_of (contracts w) cid = Some c" "CState c = ContractOpen \<or> CState c = ContractAccepted"
    "contract_decision now c w \<noteq> DecisionNoop" by blast
  then obtain s where s: "next_state (CState c) s \<and> s \<noteq> ContractAccepted"
    "contracts (tick_contract fl now cid w) = mput cid (c\<lparr>CState := s\<rparr>) (contracts w)"
    using tick_contract_contracts[of w cid c now fl] by blast
  then have "s = ContractCompleted \<or> s = ContractFailed" by auto
  then show ?thesis by (auto simp: in_time_def s(2) gomap)
next
  case False
  then have e: "tick_contract fl now cid w = w" by (intro tick_contract_idle) (cases "map_of (contracts w) cid"; auto)
  have "now \<le> DeadlineTick c \<and> map_of (containers w) (TerminalPos c) \<noteq> None"
    if "contract_decision now c w = DecisionNoop" "CState c = ContractOpen \<or> CState c = ContractAccepted" for c
    using that by (auto simp: contract_decision_def DecideTick_def Let_def not_less split: if_splits)
  with False show ?thesis unfolding e in_time_def by blast
qed

lemma tick_contract_keeps_in_time:
  assumes "in_time now k w"
  shows "in_time now k (tick_contract fl now cid w)"
proof (cases "\<exists>c. map_of (contracts w) cid = Some c \<and> (CState c = ContractOpen \<or> CState c = ContractAccepted) \<and>
    contract_decision now c w \<noteq> DecisionNoop")
  case True
  then obtain c s where "map_of (contracts w) cid = Some c"
    "contracts (tick_contract fl now cid w) = mput cid (c\<lparr>CState := s\<rparr>) (contracts w)"
    "\<forall>p. map_of (containers (tick_contract fl now cid w)) p = None \<longleftrightarrow> map_of (containers w) p = None"
    "CState c = ContractOpen \<or> CState c = ContractAccepted"
    using tick_contract_contracts[of w cid _ now fl] by blast
  with assms show ?thesis by (auto simp: in_time_def gomap)
next
  case False
  then have "tick_contract fl now cid w = w" by (intro tick_contract_idle) (cases "map_of (contracts w) cid"; auto)
  with assms show ?thesis by simp
qed

lemma tick_contract_keys: "fst ` set (contracts (tick_contract fl now cid w)) = fst ` set (contracts w)"
proof (cases "\<exists>c. map_of (contracts w) cid = Some c \<and> (CState c = ContractOpen \<or> CState c = ContractAccepted) \<and>
    contract_decision now c w \<noteq> DecisionNoop")
  case True
  then obtain c s where "map_of (contracts w) cid = Some c"
    "contracts (tick_contract fl now cid w) = mput cid (c\<lparr>CState := s\<rparr>) (contracts w)"
    using tick_contract_contracts[of w cid _ now fl] by blast
  then show ?thesis by (force simp: keys_mput dest: map_of_SomeD)
next
  case False
  then have "tick_contract fl now cid w = w" by (intro tick_contract_idle) (cases "map_of (contracts w) cid"; auto)
  then show ?thesis by simp
qed

text \<open>
  C9. The tick leaves no contract behind: after it, every contract that is still open or accepted has its
  deadline ahead (or at this very tick) and its terminal in place; all others have been settled.
\<close>

theorem tickContracts_settles_expired:
  assumes "map_of (contracts (tickContracts fl now w)) cid = Some c"
    and "CState c = ContractOpen \<or> CState c = ContractAccepted"
  shows "now \<le> DeadlineTick c \<and> map_of (containers (tickContracts fl now w)) (TerminalPos c) \<noteq> None"
proof -
  have keys: "fst ` set (contracts (fold (tick_contract fl now) ids w)) = fst ` set (contracts w)" for ids
    by (induction ids arbitrary: w) (simp_all add: tick_contract_keys)
  have keep: "in_time now k (fold (tick_contract fl now) ids w)" if "in_time now k w" for k ids w
    using that by (induction ids arbitrary: w) (simp_all add: tick_contract_keeps_in_time)
  have all: "in_time now k (fold (tick_contract fl now) ids w)" if "k \<in> set ids" for k ids w
    using that
  proof (induction ids arbitrary: w)
    case (Cons i ids)
    then show ?case using keep[OF tick_contract_in_time[of now i fl w]] by (cases "k = i") auto
  qed simp
  have "cid \<in> fst ` set (contracts (tickContracts fl now w))" using assms(1) by (force dest: map_of_SomeD)
  then have "cid \<in> set (map fst (contracts w))" using keys by (simp add: tickContracts_def)
  from all[OF this, of w] assms show ?thesis unfolding tickContracts_def in_time_def by blast
qed

theorem tickContracts_settles_expired_witness:
  "let w = tickContracts sample_floats 20 (market_world\<lparr>contracts := [(''C1'', filed\<lparr>CState := ContractOpen\<rparr>)]\<rparr>)
   in map_of (contracts w) ''C1'' = Some (filed\<lparr>CState := ContractOpen\<rparr>) \<and> (20 :: u64) \<le> 50 \<and>
      map_of (containers w) market_pos \<noteq> None"
proof -
  let ?w = "market_world\<lparr>contracts := [(''C1'', filed\<lparr>CState := ContractOpen\<rparr>)]\<rparr>"
  have "tick_contract sample_floats 20 ''C1'' ?w = ?w"
    by (rule tick_contract_idle) (simp add: contract_decision_def DecideTick_def filed_def market_world_def)
  then have "tickContracts sample_floats 20 ?w = ?w" by (simp add: tickContracts_def)
  with tickContracts_settles_expired[of sample_floats 20 ?w "''C1''" "filed\<lparr>CState := ContractOpen\<rparr>"]
  show ?thesis by (simp add: filed_def)
qed

definition busy_market :: "contract list \<Rightarrow> world" where
  "busy_market cs = market_world\<lparr>contracts := map (\<lambda>c. (ContractID c, c)) cs,
     containers := [(market_pos, \<lparr>CType = ''CONTRACT_TERMINAL'', CPos = market_pos,
        Inventory = [(''LOG'', 4), (''COAL'', 4)], Reserved = [(''COAL'', 4)], Owed = []\<rparr>)]\<rparr>"

definition delivery :: "string \<Rightarrow> contract" where
  "delivery cid = filed\<lparr>ContractID := cid, CState := ContractAccepted\<rparr>"

text \<open>The state of a contract after the tick of one, for evaluation.\<close>

lemma tick_contract_settled:
  assumes "map_of (contracts w) cid = Some c" "CState c = ContractAccepted" "contract_decision now c w = DecisionCompleteDeliver"
  shows "contracts (tick_contract fl now cid w) = mput cid (c\<lparr>CState := ContractCompleted\<rparr>) (contracts w)"
    and "containers (tick_contract fl now cid w) = containers (settle_items (PlanSettlement DecisionCompleteDeliver) c w)"
  using settle_contract_calm[where cid = cid and c = c and d = DecisionCompleteDeliver and w = w and fl = fl and now = now]
    same_market_settle[of w "PlanSettlement DecisionCompleteDeliver" c] assms
  by (simp_all add: tick_contract_def calm_def upd_contract_def same_market_def settled_state_def empty_plan_def Let_def)

lemma one_transfer:
  assumes "map_of (containers w) p = Some t" "map_of (agents w) x \<noteq> None" "x \<noteq> []" "0 < n"
  shows "containers (contractTerminalTransfer p [(k, n)] x rel w) =
      mput p ((if rel then Unreserve k n t else t)\<lparr>Inventory := mprune (msub (Inventory t) k n) k\<rparr>) (containers w)"
    and "map_of (agents (contractTerminalTransfer p [(k, n)] x rel w)) y = None \<longleftrightarrow> map_of (agents w) y = None"
proof -
  have e: "contractTerminalTransfer p [(k, n)] x rel w = give_agent x k n (release rel p k n w)"
    using assms by (auto simp: contractTerminalTransfer_def ApplyTerminalTransfer_def release_def Let_def take_box_def)
  have "containers (release rel p k n w) =
      mput p ((if rel then Unreserve k n t else t)\<lparr>Inventory := mprune (msub (Inventory t) k n) k\<rparr>) (containers w)"
    using assms(1) by (auto simp: release_def take_box_def upd_container_twice box_op comp_def)
  then show "containers (contractTerminalTransfer p [(k, n)] x rel w) =
      mput p ((if rel then Unreserve k n t else t)\<lparr>Inventory := mprune (msub (Inventory t) k n) k\<rparr>) (containers w)"
    by (simp add: e)
  show "map_of (agents (contractTerminalTransfer p [(k, n)] x rel w)) y = None \<longleftrightarrow> map_of (agents w) y = None"
    by (simp add: e give_agent_def gomap release_def)
qed

lemma busy_market_settled:
  "containers (settle_items (PlanSettlement DecisionCompleteDeliver) (delivery i) (busy_market cs)) =
    [(market_pos, \<lparr>CType = ''CONTRACT_TERMINAL'', CPos = market_pos, Inventory = [(''LOG'', 1), (''COAL'', 2)],
      Reserved = [(''COAL'', 2)], Owed = []\<rparr>)]"
proof -
  let ?w = "busy_market cs"
  let ?t = "\<lparr>CType = ''CONTRACT_TERMINAL'', CPos = market_pos, Inventory = [(''LOG'', 4), (''COAL'', 4)],
    Reserved = [(''COAL'', 4)], Owed = []\<rparr>"
  let ?t1 = "?t\<lparr>Inventory := [(''LOG'', 1), (''COAL'', 4)]\<rparr>"
  let ?w1 = "contractTerminalTransfer market_pos [(''LOG'', 3)] ''A1'' False ?w"
  have c: "containers ?w = [(market_pos, ?t)]" "map_of (agents ?w) ''A1'' \<noteq> None" "map_of (agents ?w) ''A2'' \<noteq> None"
    by (simp_all add: busy_market_def market_world_def)
  have t: "map_of (containers ?w) market_pos = Some ?t" by (simp add: c(1))
  note o1 = one_transfer[OF t c(2), of 3 "''LOG''" False]
  have b1: "containers ?w1 = [(market_pos, ?t1)]"
    by (simp add: o1(1) c(1) mput_def msub_def mprune_def cnt_def)
  have t1: "map_of (containers ?w1) market_pos = Some ?t1" by (simp add: b1)
  have a1: "map_of (agents ?w1) ''A2'' \<noteq> None" using c(3) by (simp add: o1(2))
  have b2: "containers (contractTerminalTransfer market_pos [(''COAL'', 2)] ''A2'' True ?w1) =
      [(market_pos, \<lparr>CType = ''CONTRACT_TERMINAL'', CPos = market_pos, Inventory = [(''LOG'', 1), (''COAL'', 2)],
      Reserved = [(''COAL'', 2)], Owed = []\<rparr>)]"
    by (simp add: one_transfer(1)[OF t1 a1, of 2] b1 mput_def msub_def mprune_def cnt_def Unreserve_def)
  have "contractTerminalTransfer market_pos [] x r u = u" for x r u
    by (simp add: contractTerminalTransfer_def ApplyTerminalTransfer_def)
  then show ?thesis using b2
    by (simp add: settle_items_def empty_plan_def delivery_def filed_def contractPayoutAgent_def PayoutAgent_def)
qed

text \<open>
  C31. The tick is not deterministic: it ranges over a Go map, and when two deliveries wait at one terminal
  that holds enough for one of them, the order decides which acceptor is paid.  The two lists below are
  the same map in two enumeration orders.
\<close>

theorem tickContracts_order_matters:
  "map_option CState (map_of (contracts (tickContracts fl 20 (busy_market [delivery ''C1'', delivery ''C2'']))) ''C1'') =
     Some ContractCompleted \<and>
   map_option CState (map_of (contracts (tickContracts fl 20 (busy_market [delivery ''C2'', delivery ''C1'']))) ''C1'') =
     Some ContractAccepted"
proof -
  have first: "contract_decision 20 (delivery i) (busy_market cs) = DecisionCompleteDeliver" for i cs
    by (simp add: contract_decision_def DecideTick_def Let_def delivery_def filed_def busy_market_def HasAvailable_def
        AvailableCount_def ReservedCount_def)
  have boxes: "containers (settle_items (PlanSettlement DecisionCompleteDeliver) (delivery i) (busy_market cs)) =
      [(market_pos, \<lparr>CType = ''CONTRACT_TERMINAL'', CPos = market_pos, Inventory = [(''LOG'', 1), (''COAL'', 2)],
        Reserved = [(''COAL'', 2)], Owed = []\<rparr>)]" for i cs
    by (rule busy_market_settled)
  have second: "contract_decision 20 (delivery i) w = DecisionNoop"
    if "containers w = [(market_pos, \<lparr>CType = ''CONTRACT_TERMINAL'', CPos = market_pos, Inventory = [(''LOG'', 1), (''COAL'', 2)],
        Reserved = [(''COAL'', 2)], Owed = []\<rparr>)]" for i w
    by (simp add: that contract_decision_def DecideTick_def Let_def delivery_def filed_def HasAvailable_def
        AvailableCount_def ReservedCount_def)
  have run: "contracts (tickContracts fl 20 (busy_market [delivery i, delivery k])) =
      mput i ((delivery i)\<lparr>CState := ContractCompleted\<rparr>) [(i, delivery i), (k, delivery k)]" if "i \<noteq> k" for i k
  proof -
    let ?w = "busy_market [delivery i, delivery k]"
    have c: "contracts ?w = [(i, delivery i), (k, delivery k)]" by (simp add: busy_market_def delivery_def)
    have st: "CState (delivery x) = ContractAccepted" for x by (simp add: delivery_def)
    have 1: "map_of (contracts ?w) i = Some (delivery i)" by (simp add: c)
    note s = tick_contract_settled[OF 1 st first, of fl]
    have "tick_contract fl 20 k (tick_contract fl 20 i ?w) = tick_contract fl 20 i ?w"
      by (rule tick_contract_idle) (use that second[OF s(2)[unfolded boxes]] in \<open>simp add: s(1) c gomap st\<close>)
    then show ?thesis by (simp add: tickContracts_def c s(1))
  qed
  show ?thesis by (simp add: run gomap) (simp add: delivery_def)
qed

text \<open>
  C32. The deposit of a contract is scaled by the acceptor's reputation without a bound: a deposit above a
  third of the range wraps to a negative amount, which every inventory has, and accepting the contract
  then mints items for the acceptor while the terminal's count goes below zero.
\<close>

theorem deposit_overflow:
  "ScaleDeposit [(''COAL'', 2 ^ 62)] 3 = [(''COAL'', - (2 ^ 62))] \<and>
   snd (PrepareAccept (Some ContractOpen) ''CONTRACT_TERMINAL'' True 0 5 9 [(''COAL'', 2 ^ 62)] 3 []) = [(''COAL'', - (2 ^ 62))] \<and>
   fst (ValidateAccept (fst (PrepareAccept (Some ContractOpen) ''CONTRACT_TERMINAL'' True 0 5 9 [(''COAL'', 2 ^ 62)] 3 []))) \<and>
   map_of (inv_view (escrow_items ''A2'' market_pos [(''COAL'', - (2 ^ 62))] market_world)) ''A2'' =
     Some [(''LOG'', 9), (''COAL'', 2 ^ 62)]"
proof -
  have w: "i64 (2 ^ 62 * 3) = - (2 ^ 62)" by (simp add: i64_def)
  have sc: "ScaleDeposit [(''COAL'', 2 ^ 62)] 3 = [(''COAL'', - (2 ^ 62))]"
    using w by (simp add: ScaleDeposit_def mput_def)
  have g: "map_of (inv_view (escrow_items ''A2'' market_pos [(''COAL'', - (2 ^ 62))] market_world)) ''A2'' =
     Some [(''LOG'', 9), (''COAL'', 2 ^ 62)]"
    by (simp add: escrow_items_def put_box_def take_agent_def inv_view_upd market_world_def gomap msub_def cnt_def)
       (simp add: mput_def)
  show ?thesis
    using sc g by (simp add: PrepareAccept_def ValidateAccept_def Let_def)
qed

end
