(* ===== verification/Org_Handlers.thy ===== *)
theory Org_Handlers
  imports Trade_Model
begin

text \<open>
  Organizations: creating, joining and leaving one, and moving items between a member and the treasury
  (\<open>feature/governance/instants/org_handlers.go\<close> in the environment of \<open>instants_adapter_factory.go\<close>).
  The lemmas show who is a member of what, that an organization always has exactly one leader, and that
  the treasury transfers conserve items.
\<close>

section \<open>Handlers\<close>

text \<open>\<open>AuditOrgEvent\<close>: audited at the actor's position.\<close>

definition auditOrgEvent :: "u64 \<Rightarrow> string \<Rightarrow> string \<Rightarrow> string \<Rightarrow> event \<Rightarrow> world \<Rightarrow> world" where
  "auditOrgEvent nowTick aid action reason details w =
     (let pos = (case map_of (agents w) aid of None \<Rightarrow> \<lparr>vx = 0, vy = 0, vz = 0\<rparr> | Some a \<Rightarrow> APos a)
      in auditEvent nowTick aid action pos reason details w)"

definition NormalizeOrgName :: "string \<Rightarrow> string" where
  "NormalizeOrgName nm = trim_space nm"

definition HandleCreateOrg :: "string \<Rightarrow> instant \<Rightarrow> u64 \<Rightarrow> world \<Rightarrow> world" where
  "HandleCreateOrg aid inst nowTick w =
     (case map_of (agents w) aid of
        None \<Rightarrow> w
      | Some a \<Rightarrow>
          (case NormalizeOrgKind (InstOrgKind inst) of
             None \<Rightarrow> reply aid nowTick (InstID inst) False ''E_BAD_REQUEST'' ''bad org_kind'' w
           | Some k \<Rightarrow>
               if \<not> ValidateOrgName (InstOrgName inst) then
                 reply aid nowTick (InstID inst) False ''E_BAD_REQUEST'' ''bad org_name'' w
               else if AOrgID a \<noteq> [] then
                 reply aid nowTick (InstID inst) False ''E_CONFLICT'' ''already in org'' w
               else
                 let nm = NormalizeOrgName (InstOrgName inst);
                     (orgID, w) = newOrgID w;
                     ob = \<lparr>OrgID = orgID, OKind = k, OName = nm, OCreatedTick = nowTick, MetaVersion = 1,
                           OMembers = [(aid, OrgLeader)], Treasury = Legacy [], TreasuryByWorld = []\<rparr>;
                     w = w\<lparr>orgs := mput orgID ob (orgs w)\<rparr>;
                     w = upd_agent aid (\<lambda>a. a\<lparr>AOrgID := orgID\<rparr>) w;
                     w = auditOrgEvent nowTick aid ''ORG_CREATE'' ''CREATE_ORG''
                           [(''org_id'', JStr orgID), (''org_kind'', JStr (org_kind_string k)), (''org_name'', JStr nm),
                            (''leader'', JStr aid)] w
                 in emit aid [(''t'', JU64 nowTick), (''type'', JStr ''ACTION_RESULT''), (''ref'', JStr (InstID inst)),
                              (''ok'', JBool True), (''org_id'', JStr orgID)] w))"

definition HandleJoinOrg :: "string \<Rightarrow> instant \<Rightarrow> u64 \<Rightarrow> world \<Rightarrow> world" where
  "HandleJoinOrg aid inst nowTick w =
     (case map_of (agents w) aid of
        None \<Rightarrow> w
      | Some a \<Rightarrow>
          if InstOrgID inst = [] then reply aid nowTick (InstID inst) False ''E_BAD_REQUEST'' ''missing org_id'' w
          else
            (case orgByID w (InstOrgID inst) of
               None \<Rightarrow> reply aid nowTick (InstID inst) False ''E_INVALID_TARGET'' ''org not found'' w
             | Some ob \<Rightarrow>
                 if AOrgID a \<noteq> [] then reply aid nowTick (InstID inst) False ''E_CONFLICT'' ''already in org'' w
                 else
                   let w = upd_org (InstOrgID inst)
                             (\<lambda>ob. ob\<lparr>OMembers := mput aid OrgMember (OMembers ob), MetaVersion := MetaVersion ob + 1\<rparr>) w;
                       w = upd_agent aid (\<lambda>a. a\<lparr>AOrgID := OrgID ob\<rparr>) w;
                       w = auditOrgEvent nowTick aid ''ORG_JOIN'' ''JOIN_ORG''
                             [(''org_id'', JStr (OrgID ob)), (''member'', JStr aid),
                              (''org_kind'', JStr (org_kind_string (OKind ob)))] w
                   in reply aid nowTick (InstID inst) True [] ''ok'' w))"

definition HandleOrgDeposit :: "string \<Rightarrow> instant \<Rightarrow> u64 \<Rightarrow> world \<Rightarrow> world" where
  "HandleOrgDeposit aid inst nowTick w =
     (case map_of (agents w) aid of
        None \<Rightarrow> w
      | Some a \<Rightarrow>
          let v = ValidateOrgTransferInput (InstOrgID inst) (InstItemID inst) (InstCount inst)
          in if \<not> fst v then reply_verdict aid nowTick (InstID inst) v w
             else
               (case orgByID w (InstOrgID inst) of
                  None \<Rightarrow> reply aid nowTick (InstID inst) False ''E_INVALID_TARGET'' ''org not found'' w
                | Some ob \<Rightarrow>
                    if \<not> isOrgMember w aid (OrgID ob) then
                      reply aid nowTick (InstID inst) False ''E_NO_PERMISSION'' ''not org member'' w
                    else if cnt (AInventory a) (InstItemID inst) < InstCount inst then
                      reply aid nowTick (InstID inst) False ''E_NO_RESOURCE'' ''missing items'' w
                    else
                      let m = mprune (msub (get_inv (AgentInv aid) w) (InstItemID inst) (InstCount inst)) (InstItemID inst);
                          w = put_inv (AgentInv aid) m w;
                          w = orgTreasury (InstOrgID inst) w;
                          w = ref_add get_inv put_inv (TreasuryInv (InstOrgID inst)) (InstItemID inst) (InstCount inst) w;
                          w = auditOrgEvent nowTick aid ''ORG_DEPOSIT'' ''ORG_DEPOSIT''
                                [(''org_id'', JStr (OrgID ob)), (''item'', JStr (InstItemID inst)), (''count'', JInt (InstCount inst))] w
                      in reply aid nowTick (InstID inst) True [] ''ok'' w))"

definition HandleOrgWithdraw :: "string \<Rightarrow> instant \<Rightarrow> u64 \<Rightarrow> world \<Rightarrow> world" where
  "HandleOrgWithdraw aid inst nowTick w =
     (case map_of (agents w) aid of
        None \<Rightarrow> w
      | Some a \<Rightarrow>
          let v = ValidateOrgTransferInput (InstOrgID inst) (InstItemID inst) (InstCount inst)
          in if \<not> fst v then reply_verdict aid nowTick (InstID inst) v w
             else
               (case orgByID w (InstOrgID inst) of
                  None \<Rightarrow> reply aid nowTick (InstID inst) False ''E_INVALID_TARGET'' ''org not found'' w
                | Some ob \<Rightarrow>
                    if \<not> isOrgAdmin w aid (OrgID ob) then
                      reply aid nowTick (InstID inst) False ''E_NO_PERMISSION'' ''not org admin'' w
                    else
                      let w = orgTreasury (InstOrgID inst) w;
                          tr = get_inv (TreasuryInv (InstOrgID inst)) w
                      in if cnt tr (InstItemID inst) < InstCount inst then
                           reply aid nowTick (InstID inst) False ''E_NO_RESOURCE'' ''treasury lacks items'' w
                         else
                           let w = put_inv (TreasuryInv (InstOrgID inst))
                                     (mprune (msub tr (InstItemID inst) (InstCount inst)) (InstItemID inst)) w;
                               w = ref_add get_inv put_inv (AgentInv aid) (InstItemID inst) (InstCount inst) w;
                               w = auditOrgEvent nowTick aid ''ORG_WITHDRAW'' ''ORG_WITHDRAW''
                                     [(''org_id'', JStr (OrgID ob)), (''item'', JStr (InstItemID inst)), (''count'', JInt (InstCount inst))] w
                           in reply aid nowTick (InstID inst) True [] ''ok'' w))"

text \<open>
  An organization without members stands for one whose member map is nil: the handlers never leave an
  empty map behind.
\<close>

definition HandleLeaveOrg :: "string \<Rightarrow> instant \<Rightarrow> u64 \<Rightarrow> world \<Rightarrow> world" where
  "HandleLeaveOrg aid inst nowTick w =
     (case map_of (agents w) aid of
        None \<Rightarrow> w
      | Some a \<Rightarrow>
          if AOrgID a = [] then reply aid nowTick (InstID inst) False ''E_BLOCKED'' ''not in org'' w
          else
            let orgID = AOrgID a;
                org = orgByID w orgID;
                w = upd_agent aid (\<lambda>a. a\<lparr>AOrgID := []\<rparr>) w
            in (case org of
                  None \<Rightarrow> reply aid nowTick (InstID inst) True [] ''ok'' w
                | Some ob \<Rightarrow>
                    if OMembers ob = [] then reply aid nowTick (InstID inst) True [] ''ok'' w
                    else
                      let role = map_of (OMembers ob) aid;
                          members = mdel aid (OMembers ob);
                          w = upd_org orgID (\<lambda>ob. ob\<lparr>OMembers := members, MetaVersion := MetaVersion ob + 1\<rparr>) w
                      in if members = [] then
                           reply aid nowTick (InstID inst) True [] ''ok'' (w\<lparr>orgs := mdel orgID (orgs w)\<rparr>)
                         else
                           let best = SelectNextLeader (map fst members);
                               w = (if role = Some OrgLeader \<and> best \<noteq> [] then
                                      upd_org orgID (\<lambda>ob. ob\<lparr>OMembers := mput best OrgLeader members,
                                        MetaVersion := MetaVersion ob + 1\<rparr>) w
                                    else w)
                           in reply aid nowTick (InstID inst) True [] ''ok'' w))"

section \<open>Membership: an abstract specification\<close>

text \<open>
  What membership is about: the organization each agent names, the role of each member in each
  organization, and how many organizations were founded.
\<close>

record guild =
  home :: "string \<Rightarrow> string option"
  hall :: "string \<Rightarrow> (string \<Rightarrow> org_role option) option"
  founded :: u64

definition org_id :: "u64 \<Rightarrow> string" where
  "org_id n = ''ORG'' @ pad_dec 6 n"

text \<open>
  The promise: an agent belongs to exactly the organization it names, every organization has exactly
  one leader, and identifiers come from the counter.
\<close>

definition one_leader :: "(string \<Rightarrow> org_role option) \<Rightarrow> bool" where
  "one_leader m \<longleftrightarrow> (\<exists>!x. m x = Some OrgLeader)"

definition guild_ok :: "guild \<Rightarrow> bool" where
  "guild_ok g \<longleftrightarrow>
     home g [] = None \<and>
     (\<forall>oid m. hall g oid = Some m \<longrightarrow> one_leader m \<and> (\<exists>n \<le> founded g. oid = org_id n)) \<and>
     (\<forall>x oid. oid \<noteq> [] \<longrightarrow> (home g x = Some oid \<longleftrightarrow> (\<exists>m. hall g oid = Some m \<and> m x \<noteq> None)))"

text \<open>
  What may happen: an agent without an organization founds or joins one; a member leaves, the leader
  only by handing over to a remaining member, and the last member closes the organization.
\<close>

inductive guild_step :: "guild \<Rightarrow> guild \<Rightarrow> bool" where
  stay: "guild_step g g"
| found: "founded g < founded g + 1 \<Longrightarrow> home g x = Some [] \<Longrightarrow> oid = org_id (founded g + 1) \<Longrightarrow>
    guild_step g (g\<lparr>home := (home g)(x \<mapsto> oid), hall := (hall g)(oid \<mapsto> [x \<mapsto> OrgLeader]), founded := founded g + 1\<rparr>)"
| join: "home g x = Some [] \<Longrightarrow> oid \<noteq> [] \<Longrightarrow> hall g oid = Some m \<Longrightarrow>
    guild_step g (g\<lparr>home := (home g)(x \<mapsto> oid), hall := (hall g)(oid \<mapsto> m(x \<mapsto> OrgMember))\<rparr>)"
| quit: "home g x = Some oid \<Longrightarrow> oid \<noteq> [] \<Longrightarrow> hall g oid = Some m \<Longrightarrow> m x \<noteq> Some OrgLeader \<Longrightarrow>
    m(x := None) \<noteq> Map.empty \<Longrightarrow>
    guild_step g (g\<lparr>home := (home g)(x \<mapsto> []), hall := (hall g)(oid \<mapsto> m(x := None))\<rparr>)"
| succeed: "home g x = Some oid \<Longrightarrow> oid \<noteq> [] \<Longrightarrow> hall g oid = Some m \<Longrightarrow> m x = Some OrgLeader \<Longrightarrow>
    h \<noteq> x \<Longrightarrow> m h \<noteq> None \<Longrightarrow>
    guild_step g (g\<lparr>home := (home g)(x \<mapsto> []), hall := (hall g)(oid \<mapsto> m(x := None, h \<mapsto> OrgLeader))\<rparr>)"
| close: "home g x = Some oid \<Longrightarrow> oid \<noteq> [] \<Longrightarrow> hall g oid = Some m \<Longrightarrow> m(x := None) = Map.empty \<Longrightarrow>
    guild_step g (g\<lparr>home := (home g)(x \<mapsto> []), hall := (hall g)(oid := None)\<rparr>)"

lemma org_id_ne [simp]: "org_id n \<noteq> []" "[] \<noteq> org_id n"
  by (simp_all add: org_id_def)

lemma org_id_inj: "org_id m = org_id n \<Longrightarrow> m = n"
  by (simp add: org_id_def pad_dec_inj)

lemma guild_home_iff:
  "guild_ok g \<Longrightarrow> oid \<noteq> [] \<Longrightarrow> home g x = Some oid \<longleftrightarrow> (\<exists>m. hall g oid = Some m \<and> m x \<noteq> None)"
  by (simp add: guild_ok_def)

lemma guild_home_ne: "guild_ok g \<Longrightarrow> home g x = Some q \<Longrightarrow> x \<noteq> []"
  unfolding guild_ok_def by force

lemma guild_hall_id: "guild_ok g \<Longrightarrow> hall g oid = Some m \<Longrightarrow> one_leader m \<and> (\<exists>n \<le> founded g. oid = org_id n)"
  by (simp add: guild_ok_def)

text \<open>Every step keeps the promise; the proof is one case per rule, all by the same two facts.\<close>

lemma one_leader_single [simp]: "one_leader [x \<mapsto> OrgLeader]"
  by (auto simp: one_leader_def)

lemma one_leader_other: "one_leader m \<Longrightarrow> m x \<noteq> Some OrgLeader \<Longrightarrow> r \<noteq> Some OrgLeader \<Longrightarrow> one_leader (m(x := r))"
  unfolding one_leader_def by (metis fun_upd_apply)

lemma one_leader_heir: "one_leader m \<Longrightarrow> m x = Some OrgLeader \<Longrightarrow> h \<noteq> x \<Longrightarrow> one_leader (m(x := None, h \<mapsto> OrgLeader))"
  unfolding one_leader_def by (auto simp: fun_upd_apply)

lemma guild_okI:
  assumes "guild_ok g"
    and "\<And>m. hall' = Some m \<Longrightarrow> one_leader m \<and> (\<exists>n \<le> k. oid = org_id n)"
    and "founded g \<le> k" and "x \<noteq> []" and "oid \<noteq> []"
    and "home' = Some oid \<longleftrightarrow> (\<exists>m. hall' = Some m \<and> m x \<noteq> None)"
    and "home' = Some oid \<or> home' = Some []"
    and "home g x = Some [] \<or> home g x = Some oid"
    and "\<And>y. y \<noteq> x \<Longrightarrow> (\<exists>m. hall' = Some m \<and> m y \<noteq> None) \<longleftrightarrow> home g y = Some oid"
  shows "guild_ok (g\<lparr>home := (home g)(x := home'), hall := (hall g)(oid := hall'), founded := k\<rparr>)"
proof -
  have home: "home g y = Some q \<longleftrightarrow> (\<exists>m. hall g q = Some m \<and> m y \<noteq> None)" if "q \<noteq> []" for y q
    using guild_home_iff[OF assms(1) that] .
  have ids: "one_leader m \<and> (\<exists>n \<le> k. q = org_id n)" if "hall g q = Some m" for q m
    using guild_hall_id[OF assms(1) that] order_trans[OF _ assms(3)] by blast
  have "((home g)(x := home')) y = Some q \<longleftrightarrow> (\<exists>m. ((hall g)(oid := hall')) q = Some m \<and> m y \<noteq> None)"
    if "q \<noteq> []" for y q
    using assms(5-9) home[OF that, of y] that by (cases "y = x"; cases "q = oid") auto
  moreover have "one_leader m \<and> (\<exists>n \<le> k. q = org_id n)" if "((hall g)(oid := hall')) q = Some m" for q m
    using assms(2)[of m] ids[of q m] that by (auto split: if_splits)
  moreover have "((home g)(x := home')) [] = None" using assms(1,4) by (simp add: guild_ok_def)
  ultimately show ?thesis unfolding guild_ok_def by simp
qed

lemma guild_room:
  assumes "guild_ok g" and "founded g < founded g + 1"
  shows "hall g (org_id (founded g + 1)) = None" "home g y \<noteq> Some (org_id (founded g + 1))"
proof -
  show "hall g (org_id (founded g + 1)) = None"
    using guild_hall_id[OF assms(1), of "org_id (founded g + 1)"] assms(2) org_id_inj
    by (cases "hall g (org_id (founded g + 1))") (auto dest: org_id_inj simp: not_less[symmetric])
  then show "home g y \<noteq> Some (org_id (founded g + 1))"
    using guild_home_iff[OF assms(1)] by simp
qed

lemma guild_step_ok:
  assumes "guild_step g g'" and "guild_ok g"
  shows "guild_ok g'"
  using assms
proof (induction rule: guild_step.induct)
  case (found g x oid)
  then have "x \<noteq> []" using guild_home_ne by blast
  with found guild_room[of g] show ?case
    by (auto intro!: guild_okI simp: less_imp_le)
next
  case (join g x oid m)
  then have "x \<noteq> []" using guild_home_ne by blast
  have "m x = None" using join guild_home_iff[of g oid x] by auto
  with join \<open>x \<noteq> []\<close> guild_hall_id[of g oid m] guild_home_iff[of g oid]
  have "guild_ok (g\<lparr>home := (home g)(x := Some oid), hall := (hall g)(oid := Some (m(x \<mapsto> OrgMember))), founded := founded g\<rparr>)"
    by (intro guild_okI) (auto intro!: one_leader_other)
  then show ?case by simp
next
  case (quit g x oid m)
  then have "x \<noteq> []" using guild_home_ne by blast
  with quit guild_hall_id[of g oid m] guild_home_iff[of g oid]
  have "guild_ok (g\<lparr>home := (home g)(x := Some []), hall := (hall g)(oid := Some (m(x := None))), founded := founded g\<rparr>)"
    by (intro guild_okI) (auto intro!: one_leader_other)
  then show ?case by simp
next
  case (succeed g x oid m h)
  then have "x \<noteq> []" using guild_home_ne by blast
  with succeed guild_hall_id[of g oid m] guild_home_iff[of g oid]
  have "guild_ok (g\<lparr>home := (home g)(x := Some []), hall := (hall g)(oid := Some (m(x := None, h \<mapsto> OrgLeader))), founded := founded g\<rparr>)"
    by (intro guild_okI) (auto intro!: one_leader_heir split: if_splits)
  then show ?case by simp
next
  case (close g x oid m)
  then have "x \<noteq> []" using guild_home_ne by blast
  have "m y = None" if "y \<noteq> x" for y using fun_cong[OF close(4), of y] that by simp
  with close \<open>x \<noteq> []\<close> guild_home_iff[of g oid]
  have "guild_ok (g\<lparr>home := (home g)(x := Some []), hall := (hall g)(oid := None), founded := founded g\<rparr>)"
    by (intro guild_okI) auto
  then show ?case by simp
qed

section \<open>Membership: the handlers\<close>

definition guild_of :: "world \<Rightarrow> guild" where
  "guild_of w = \<lparr>home = (\<lambda>x. map_option AOrgID (map_of (agents w) x)),
                 hall = (\<lambda>oid. map_option (\<lambda>ob. map_of (OMembers ob)) (map_of (orgs w) oid)),
                 founded = nextOrgNum w\<rparr>"

text \<open>Organizations are stored under their own identifier, and none without a member list.\<close>

definition org_keys :: "world \<Rightarrow> bool" where
  "org_keys w \<longleftrightarrow> (\<forall>oid ob. map_of (orgs w) oid = Some ob \<longrightarrow> OrgID ob = oid)"

definition org_inv :: "world \<Rightarrow> bool" where
  "org_inv w \<longleftrightarrow> org_keys w \<and> guild_ok (guild_of w)"

text \<open>Operations that do not touch membership.\<close>

definition same_orgs :: "world \<Rightarrow> world \<Rightarrow> bool" where
  "same_orgs w w' \<longleftrightarrow> guild_of w' = guild_of w \<and> (org_keys w \<longrightarrow> org_keys w')"

lemma same_orgs_refl [simp]: "same_orgs w w"
  by (simp add: same_orgs_def)

lemma same_orgs_trans: "same_orgs u v \<Longrightarrow> same_orgs v w \<Longrightarrow> same_orgs u w"
  by (simp add: same_orgs_def)

lemma same_orgs_inv: "same_orgs w w' \<Longrightarrow> org_inv w \<Longrightarrow> org_inv w'"
  by (simp add: same_orgs_def org_inv_def)

lemma same_orgs_fields:
  "agents w' = agents w \<Longrightarrow> orgs w' = orgs w \<Longrightarrow> nextOrgNum w' = nextOrgNum w \<Longrightarrow> same_orgs w w'"
  by (simp add: same_orgs_def guild_of_def org_keys_def)

lemma upd_org_next [simp]: "nextOrgNum (upd_org oid f w) = nextOrgNum w"
  by (simp add: upd_org_def split: option.split)

lemma guild_upd_agent [simp]:
  "guild_of (upd_agent x f w) =
    (guild_of w)\<lparr>home := (home (guild_of w))(x := map_option (AOrgID \<circ> f) (map_of (agents w) x))\<rparr>"
  by (auto simp: guild_of_def gomap fun_eq_iff option.map_comp)

lemma guild_upd_org [simp]:
  "guild_of (upd_org oid f w) =
    (guild_of w)\<lparr>hall := (hall (guild_of w))(oid := map_option (\<lambda>ob. map_of (OMembers (f ob))) (map_of (orgs w) oid))\<rparr>"
  by (auto simp: guild_of_def gomap fun_eq_iff option.map_comp comp_def)

lemma org_keys_upd_agent [simp]: "org_keys (upd_agent x f w) = org_keys w"
  by (simp add: org_keys_def)

lemma org_keys_upd_org: "org_keys w \<Longrightarrow> (\<And>ob. OrgID (f ob) = OrgID ob) \<Longrightarrow> org_keys (upd_org oid f w)"
  by (auto simp: org_keys_def gomap split: if_splits)

lemma same_orgs_upd_agent: "(\<And>a. AOrgID (f a) = AOrgID a) \<Longrightarrow> same_orgs w (upd_agent x f w)"
  by (cases "map_of (agents w) x") (auto simp: same_orgs_def guild_of_def comp_def fun_eq_iff gomap)

lemma same_orgs_upd_org: "(\<And>ob. OrgID (f ob) = OrgID ob \<and> OMembers (f ob) = OMembers ob) \<Longrightarrow> same_orgs w (upd_org oid f w)"
  by (cases "map_of (orgs w) oid") (auto simp: same_orgs_def guild_of_def fun_eq_iff org_keys_upd_org gomap)

lemma same_orgs_emit [simp]: "same_orgs w (emit aid e w)"
  unfolding emit_def by (rule same_orgs_upd_agent) (simp add: AddEvent_fields)

lemma same_orgs_reply [simp]: "same_orgs w (reply aid t r ok c m w)" "same_orgs w (reply_verdict aid t r v w)"
  by (simp_all add: reply_def reply_verdict_def)

lemma same_orgs_audit [simp]: "same_orgs w (auditEvent t a ac p r d w)" "same_orgs w (auditOrgEvent t a ac r d w)"
  by (simp_all add: same_orgs_fields auditOrgEvent_def auditEvent_def Let_def)

lemma same_orgs_put_inv [simp]: "same_orgs w (put_inv r m w)"
  by (cases r) (auto intro!: same_orgs_upd_agent same_orgs_upd_org same_orgs_fields simp: set_treasury_def)

lemma same_orgs_ref_add [simp]: "same_orgs w (ref_add get_inv put_inv r k n w)"
  by (simp add: ref_add_def)

lemma same_orgs_orgTreasury [simp]: "same_orgs w (orgTreasury oid w)"
  by (simp add: orgTreasury_def same_orgs_upd_org)

lemmas same_orgs_intros = same_orgs_trans[OF _ same_orgs_emit] same_orgs_trans[OF _ same_orgs_reply(1)]
  same_orgs_trans[OF _ same_orgs_reply(2)] same_orgs_trans[OF _ same_orgs_audit(1)]
  same_orgs_trans[OF _ same_orgs_audit(2)] same_orgs_trans[OF _ same_orgs_put_inv]
  same_orgs_trans[OF _ same_orgs_ref_add] same_orgs_trans[OF _ same_orgs_orgTreasury]

lemma org_transfers_same:
  "same_orgs w (HandleOrgDeposit aid inst now w)" "same_orgs w (HandleOrgWithdraw aid inst now w)"
  unfolding HandleOrgDeposit_def HandleOrgWithdraw_def Let_def
  by (auto intro!: same_orgs_intros simp del: put_inv.simps get_inv.simps split: option.split)

text \<open>Founding, joining and leaving are steps of the specification.\<close>

definition guild_move :: "world \<Rightarrow> world \<Rightarrow> bool" where
  "guild_move w w' \<longleftrightarrow> (org_keys w \<and> guild_ok (guild_of w) \<longrightarrow> org_keys w' \<and> guild_step (guild_of w) (guild_of w'))"

lemma same_orgs_move: "same_orgs w w' \<Longrightarrow> guild_move w w'"
  by (simp add: guild_move_def same_orgs_def guild_step.stay)

lemma guild_move_then: "guild_move w v \<Longrightarrow> same_orgs v w' \<Longrightarrow> guild_move w w'"
  by (simp add: guild_move_def same_orgs_def)

lemmas guild_move_intros = guild_move_then[OF _ same_orgs_emit] guild_move_then[OF _ same_orgs_reply(1)]
  guild_move_then[OF _ same_orgs_audit(2)]

lemma found_move:
  assumes room: "nextOrgNum w < nextOrgNum w + 1"
    and "map_of (agents w) aid = Some a" and "AOrgID a = []" and "OrgID ob = org_id (nextOrgNum w + 1)"
    and "OMembers ob = [(aid, OrgLeader)]"
  shows "guild_move w (upd_agent aid (\<lambda>a. a\<lparr>AOrgID := OrgID ob\<rparr>)
           (w\<lparr>nextOrgNum := nextOrgNum w + 1, orgs := mput (OrgID ob) ob (orgs w)\<rparr>))" (is "guild_move w ?w'")
proof -
  let ?g = "guild_of w"
  have g: "guild_of ?w' = ?g\<lparr>home := (home ?g)(aid \<mapsto> OrgID ob), hall := (hall ?g)(OrgID ob \<mapsto> [aid \<mapsto> OrgLeader]),
      founded := founded ?g + 1\<rparr>"
    using assms by (auto simp: guild_of_def gomap fun_eq_iff)
  have "guild_step ?g (guild_of ?w')"
    unfolding g by (rule guild_step.found) (simp_all add: guild_of_def assms)
  then show ?thesis by (auto simp: guild_move_def org_keys_def gomap split: if_splits)
qed

lemma create_move: "nextOrgNum w < nextOrgNum w + 1 \<Longrightarrow> guild_move w (HandleCreateOrg aid inst now w)"
proof (cases "\<exists>a k. map_of (agents w) aid = Some a \<and> AOrgID a = [] \<and> NormalizeOrgKind (InstOrgKind inst) = Some k
    \<and> ValidateOrgName (InstOrgName inst)")
  assume room: "nextOrgNum w < nextOrgNum w + 1"
  case True
  then obtain a k where a: "map_of (agents w) aid = Some a" "AOrgID a = []" "NormalizeOrgKind (InstOrgKind inst) = Some k"
    "ValidateOrgName (InstOrgName inst)" by auto
  define ob where "ob = \<lparr>OrgID = org_id (nextOrgNum w + 1), OKind = k, OName = NormalizeOrgName (InstOrgName inst),
    OCreatedTick = now, MetaVersion = 1, OMembers = [(aid, OrgLeader)], Treasury = Legacy [], TreasuryByWorld = []\<rparr>"
  from found_move[OF room a(1,2), of ob] show ?thesis
    unfolding HandleCreateOrg_def newOrgID_def Let_def
    by (auto simp: a ob_def org_id_def intro!: guild_move_intros)
next
  case False
  then show ?thesis unfolding HandleCreateOrg_def
    by (auto intro!: same_orgs_move split: option.split)
qed

lemma join_move: "guild_move w (HandleJoinOrg aid inst now w)"
proof (cases "\<exists>a ob. map_of (agents w) aid = Some a \<and> AOrgID a = [] \<and> orgByID w (InstOrgID inst) = Some ob")
  case True
  then obtain a ob where a: "map_of (agents w) aid = Some a" "AOrgID a = []" "orgByID w (InstOrgID inst) = Some ob"
    by auto
  then have ob: "InstOrgID inst \<noteq> []" "map_of (orgs w) (InstOrgID inst) = Some ob"
    by (auto simp: orgByID_def split: if_splits)
  let ?w' = "upd_agent aid (\<lambda>a. a\<lparr>AOrgID := OrgID ob\<rparr>) (upd_org (InstOrgID inst)
    (\<lambda>ob. ob\<lparr>OMembers := mput aid OrgMember (OMembers ob), MetaVersion := MetaVersion ob + 1\<rparr>) w)"
  have "guild_move w ?w'"
  proof (clarsimp simp only: guild_move_def, intro conjI)
    assume k: "org_keys w"
    then show "org_keys ?w'" by (simp add: org_keys_upd_org)
    have "OrgID ob = InstOrgID inst" using k ob by (simp add: org_keys_def)
    then have g: "guild_of ?w' = (guild_of w)\<lparr>home := (home (guild_of w))(aid \<mapsto> InstOrgID inst),
        hall := (hall (guild_of w))(InstOrgID inst \<mapsto> (map_of (OMembers ob))(aid \<mapsto> OrgMember))\<rparr>"
      using ob a by (simp add: gomap)
    show "guild_step (guild_of w) (guild_of ?w')"
      unfolding g by (rule guild_step.join) (use a ob in \<open>simp_all add: guild_of_def\<close>)
  qed
  then show ?thesis
    unfolding HandleJoinOrg_def Let_def by (auto simp: a ob intro!: guild_move_intros)
next
  case False
  then show ?thesis unfolding HandleJoinOrg_def
    by (auto intro!: same_orgs_move split: option.split)
qed

lemma SelectNextLeader_mem: "xs \<noteq> [] \<Longrightarrow> SelectNextLeader xs \<in> set xs"
  by (metis SelectNextLeader_def list.set_sel(1) set_sort set_empty)

lemma mdel_Nil_iff: "mdel k m = [] \<longleftrightarrow> (map_of m)(k := None) = Map.empty"
  by (metis map_of_mdel map_of_eq_empty_iff)

text \<open>The member list left behind when \<open>x\<close> goes: the new leader is the least remaining identifier.\<close>

definition heirs :: "string \<Rightarrow> org_role gomap \<Rightarrow> org_role gomap" where
  "heirs x m = (if map_of m x = Some OrgLeader then mput (SelectNextLeader (map fst (mdel x m))) OrgLeader (mdel x m)
                else mdel x m)"

lemma heirs_step:
  assumes "guild_ok g" and "home g x = Some oid" and "oid \<noteq> []" and "hall g oid = Some (map_of m)"
  shows "guild_step g (g\<lparr>home := (home g)(x \<mapsto> []),
           hall := (hall g)(oid := if mdel x m = [] then None else Some (map_of (heirs x m)))\<rparr>)"
proof (cases "mdel x m = []")
  case True
  then show ?thesis using guild_step.close[OF assms(2-4)] by (simp add: mdel_Nil_iff)
next
  case ne: False
  show ?thesis
  proof (cases "map_of m x = Some OrgLeader")
    case True
    let ?h = "SelectNextLeader (map fst (mdel x m))"
    have "?h \<in> fst ` set (mdel x m)" using SelectNextLeader_mem[of "map fst (mdel x m)"] ne by simp
    then have "map_of (mdel x m) ?h \<noteq> None" by (simp add: map_of_eq_None_iff)
    then have h: "?h \<noteq> x" "map_of m ?h \<noteq> None" by (auto simp: gomap split: if_splits)
    show ?thesis using guild_step.succeed[OF assms(2-4) True h] True ne by (simp add: heirs_def gomap)
  next
    case False
    then show ?thesis using guild_step.quit[OF assms(2-4) False] ne by (simp add: heirs_def gomap mdel_Nil_iff)
  qed
qed

text \<open>The state in which a member \<open>x\<close> has been removed from the organization, before the reply.\<close>

definition left_org :: "string \<Rightarrow> string \<Rightarrow> org_role gomap \<Rightarrow> world \<Rightarrow> world" where
  "left_org x oid m w =
     (let members = mdel x m;
          w = upd_agent x (\<lambda>a. a\<lparr>AOrgID := []\<rparr>) w;
          w = upd_org oid (\<lambda>ob. ob\<lparr>OMembers := members, MetaVersion := MetaVersion ob + 1\<rparr>) w
      in if members = [] then w\<lparr>orgs := mdel oid (orgs w)\<rparr>
         else if map_of m x = Some OrgLeader then
           upd_org oid (\<lambda>ob. ob\<lparr>OMembers := heirs x m, MetaVersion := MetaVersion ob + 1\<rparr>) w
         else w)"

lemma left_org_guild:
  assumes "map_of (agents w) x = Some a" and "map_of (orgs w) oid = Some ob"
  shows "guild_of (left_org x oid m w) = (guild_of w)\<lparr>home := (home (guild_of w))(x \<mapsto> []),
    hall := (hall (guild_of w))(oid := if mdel x m = [] then None else Some (map_of (heirs x m)))\<rparr>"
  using assms by (auto simp: left_org_def heirs_def guild_of_def gomap fun_eq_iff Let_def)

lemma org_keys_mdel: "org_keys w \<Longrightarrow> org_keys (w\<lparr>orgs := mdel oid (orgs w)\<rparr>)"
  by (auto simp: org_keys_def gomap split: if_splits)

lemma left_org_keys: "org_keys w \<Longrightarrow> org_keys (left_org x oid m w)"
  unfolding left_org_def Let_def by (auto intro!: org_keys_mdel org_keys_upd_org split: if_splits)

lemma leave_shape:
  assumes "map_of (agents w) aid = Some a" and "AOrgID a \<noteq> []" and "map_of (orgs w) (AOrgID a) = Some ob"
    and "OMembers ob \<noteq> []" and "map_of (mdel aid (OMembers ob)) [] = None"
  shows "HandleLeaveOrg aid inst now w =
    reply aid now (InstID inst) True [] ''ok'' (left_org aid (AOrgID a) (OMembers ob) w)"
proof -
  have "SelectNextLeader (map fst (mdel aid (OMembers ob))) \<noteq> []" if "mdel aid (OMembers ob) \<noteq> []"
    using SelectNextLeader_mem[of "map fst (mdel aid (OMembers ob))"] that assms(5)
    by (auto simp: map_of_eq_None_iff) force+
  then show ?thesis
    using assms by (simp add: HandleLeaveOrg_def left_org_def heirs_def orgByID_def Let_def)
qed

lemma leave_move: "guild_move w (HandleLeaveOrg aid inst now w)"
proof (cases "\<exists>a. map_of (agents w) aid = Some a \<and> AOrgID a \<noteq> []")
  case False
  then show ?thesis unfolding HandleLeaveOrg_def
    by (auto intro!: same_orgs_move split: option.split)
next
  case True
  then obtain a where a: "map_of (agents w) aid = Some a" "AOrgID a \<noteq> []" by auto
  show ?thesis
  proof (clarsimp simp only: guild_move_def)
    assume k: "org_keys w" and g: "guild_ok (guild_of w)"
    have h: "home (guild_of w) aid = Some (AOrgID a)" using a by (simp add: guild_of_def)
    then obtain ob where ob: "map_of (orgs w) (AOrgID a) = Some ob" "map_of (OMembers ob) aid \<noteq> None"
      using guild_home_iff[OF g a(2), of aid] by (auto simp: guild_of_def)
    have hl: "hall (guild_of w) (AOrgID a) = Some (map_of (OMembers ob))" using ob by (simp add: guild_of_def)
    have "map_of (OMembers ob) [] = None"
      using guild_home_iff[OF g a(2), of "[]"] hl guild_home_ne[OF g, of "[]"] by auto
    with ob have s: "HandleLeaveOrg aid inst now w =
        reply aid now (InstID inst) True [] ''ok'' (left_org aid (AOrgID a) (OMembers ob) w)"
      by (intro leave_shape a) (auto simp: gomap)
    show "org_keys (HandleLeaveOrg aid inst now w) \<and> guild_step (guild_of w) (guild_of (HandleLeaveOrg aid inst now w))"
      unfolding s using same_orgs_reply(1)[of "left_org aid (AOrgID a) (OMembers ob) w"] left_org_keys[OF k]
        heirs_step[OF g h a(2) hl] left_org_guild[OF a(1) ob(1)]
      by (simp add: same_orgs_def)
  qed
qed

section \<open>The life of organizations\<close>

text \<open>One step of the game as far as organizations go; the identifier counter is not exhausted.\<close>

inductive org_step :: "world \<Rightarrow> world \<Rightarrow> bool" where
  create: "nextOrgNum w < nextOrgNum w + 1 \<Longrightarrow> org_step w (HandleCreateOrg aid inst now w)"
| join: "org_step w (HandleJoinOrg aid inst now w)"
| leave: "org_step w (HandleLeaveOrg aid inst now w)"
| deposit: "org_step w (HandleOrgDeposit aid inst now w)"
| withdraw: "org_step w (HandleOrgWithdraw aid inst now w)"

lemma org_step_move: "org_step w w' \<Longrightarrow> guild_move w w'"
  by (induction rule: org_step.induct)
    (intro create_move join_move leave_move same_orgs_move org_transfers_same; assumption)+

lemma org_steps_inv: "org_step\<^sup>*\<^sup>* w w' \<Longrightarrow> org_inv w \<Longrightarrow> org_inv w'"
  by (induction rule: rtranclp_induct)
    (auto simp: org_inv_def guild_move_def dest!: org_step_move intro: guild_step_ok)

text \<open>
  C17. The organization handlers refine the membership specification: each of them is one step of it,
  so founding, joining, handing over and closing happen as the specification allows, and refused requests
  and treasury transfers leave the membership alone.
\<close>

theorem org_handlers_refine:
  assumes "org_inv w" and "org_step w w'"
  shows "guild_step (guild_of w) (guild_of w') \<and> org_inv w'"
  using org_step_move[OF assms(2)] org_steps_inv[OF r_into_rtranclp[of org_step, OF assms(2)] assms(1)] assms(1)
  by (simp add: guild_move_def org_inv_def)

text \<open>
  C16. However agents found, join, leave and use organizations, every organization has exactly one leader
  at all times, and an agent is in its member list exactly when it names the organization as its own.
\<close>

theorem org_always_led:
  assumes "org_step\<^sup>*\<^sup>* w w'" and "org_inv w" and "map_of (orgs w') oid = Some ob"
  shows "(\<exists>!x. map_of (OMembers ob) x = Some OrgLeader) \<and>
    (\<forall>x. map_of (OMembers ob) x \<noteq> None \<longleftrightarrow> (\<exists>a. map_of (agents w') x = Some a \<and> AOrgID a = oid))"
proof -
  have g: "guild_ok (guild_of w')" using org_steps_inv[OF assms(1,2)] by (simp add: org_inv_def)
  have h: "hall (guild_of w') oid = Some (map_of (OMembers ob))" using assms(3) by (simp add: guild_of_def)
  have "oid \<noteq> []" using guild_hall_id[OF g h] by auto
  with guild_home_iff[OF g, of oid] guild_hall_id[OF g h] h show ?thesis
    by (auto simp: one_leader_def guild_of_def)
qed

section \<open>The treasury\<close>

text \<open>One stack handed over from one inventory to another.\<close>

definition hand_over :: "inv_ref \<Rightarrow> inv_ref \<Rightarrow> string \<Rightarrow> int \<Rightarrow> world \<Rightarrow> world" where
  "hand_over s d k n w = ref_add get_inv put_inv d k n (put_inv s (mprune (msub (get_inv s w) k n) k) w)"

lemma hand_over_spec:
  assumes v: "valid_inv s w" "valid_inv d w" and n: "0 \<le> n" "n \<le> cnt (get_inv s w) k" and ok: "items_ok w"
  shows "items_ok (hand_over s d k n w)" and "stock (hand_over s d k n w) j = stock w j"
proof -
  define v1 where "v1 = put_inv s (mprune (msub (get_inv s w) k n) k) w"
  have vr: "valid_inv r (hand_over s d k n w) = valid_inv r w" for r
    by (simp add: hand_over_def inv.valid_put)
  then have refs: "world_refs (hand_over s d k n w) = world_refs w" by (simp add: world_refs_def)
  have c: "holdings u i = inv.counts u i" for u i by (rule ext) (simp add: holdings_def inv.counts_def)
  have ok': "holdings_ok (world_refs w) (holdings w i)" for i using ok by (simp add: items_ok_def)
  have m: "s \<in> world_refs w" "d \<in> world_refs w" using v by (simp_all add: world_refs_def)
  have lt: "cnt (get_inv s w) k < 2 ^ 63"
  proof -
    have "holdings w k s \<le> sum (holdings w k) (world_refs w)"
      by (rule member_le_sum) (use m ok'[of k] in \<open>auto simp: holdings_ok_def\<close>)
    then show ?thesis using ok'[of k] by (simp add: holdings_ok_def holdings_def)
  qed
  have h1: "holdings v1 i = (if i = k then shift s (- n) (holdings w i) else holdings w i)" for i
    by (rule ext) (use v n lt in \<open>auto simp: holdings_def v1_def shift_def inv.get_put_same inv.get_put_other gomap i64_nonneg\<close>)
  have h2: "holdings (hand_over s d k n w) i = (if i = k then shift d n (holdings v1 i) else holdings v1 i)" for i
    unfolding c hand_over_def v1_def[symmetric] using v by (subst inv.counts_ref_add) (simp_all add: v1_def inv.valid_put)
  have mv: "holdings (hand_over s d k n w) i = (if i = k then moved s d None n 0 (holdings w i) else holdings w i)" for i
    by (simp add: h1 h2 moved_def)
  have ex: "holdings_ok (world_refs w) (moved s d None n 0 (holdings w k))"
    "sum (moved s d None n 0 (holdings w k)) (world_refs w) = sum (holdings w k) (world_refs w)"
    using moved_exact[OF finite_world_refs m _ ok'[of k], of None n 0] n by (simp_all add: holdings_def)
  show "items_ok (hand_over s d k n w)" unfolding items_ok_def refs mv using ok' ex by simp
  show "stock (hand_over s d k n w) j = stock w j" unfolding stock_def refs mv using ex by simp
qed

lemma hand_over_counts:
  assumes v: "valid_inv s w" "valid_inv d w" and n: "0 \<le> n" "n \<le> cnt (get_inv s w) k" and ok: "items_ok w"
    and ne: "s \<noteq> d"
  shows "holdings (hand_over s d k n w) j r = holdings w j r +
    (if j \<noteq> k then 0 else if r = s then - n else if r = d then n else 0)"
proof -
  have h: "0 \<le> holdings w k q" "holdings w k q < 2 ^ 63" "q \<noteq> p \<Longrightarrow> p \<in> world_refs w \<Longrightarrow> holdings w k q + holdings w k p < 2 ^ 63"
    if "q \<in> world_refs w" for q p
  proof -
    have o: "holdings_ok (world_refs w) (holdings w k)" using ok by (simp add: items_ok_def)
    then show "0 \<le> holdings w k q" using that by (simp add: holdings_ok_def)
    have "holdings w k q \<le> sum (holdings w k) (world_refs w)"
      by (rule member_le_sum) (use that o in \<open>auto simp: holdings_ok_def\<close>)
    then show "holdings w k q < 2 ^ 63" using o by (simp add: holdings_ok_def)
    assume "q \<noteq> p" "p \<in> world_refs w"
    then have "sum (holdings w k) {q, p} \<le> sum (holdings w k) (world_refs w)"
      by (intro sum_mono2) (use that o in \<open>auto simp: holdings_ok_def\<close>)
    then show "holdings w k q + holdings w k p < 2 ^ 63" using o \<open>q \<noteq> p\<close> by (simp add: holdings_ok_def)
  qed
  have m: "s \<in> world_refs w" "d \<in> world_refs w" using v by (simp_all add: world_refs_def)
  have b: "0 \<le> cnt (get_inv d w) k" "cnt (get_inv d w) k + n < 2 ^ 63" "cnt (get_inv s w) k < 2 ^ 63"
    using h(1)[OF m(2)] h(2)[OF m(1)] h(3)[OF m(1) ne m(2)] n by (simp_all add: holdings_def)
  then show ?thesis
    using v ne n unfolding hand_over_def ref_add_def holdings_def
    by (cases "r = s"; cases "r = d")
       (auto simp: inv.get_put_same inv.get_put_other inv.valid_put gomap i64_nonneg)
qed

text \<open>What the two handlers do when they are not refused.\<close>

lemma upd_agent_org: "upd_agent x f (upd_org oid g w) = upd_org oid g (upd_agent x f w)"
  by (simp add: upd_agent_def upd_org_def split: option.split)

lemma orgTreasury_put_agent: "orgTreasury oid (put_inv (AgentInv x) m w) = put_inv (AgentInv x) m (orgTreasury oid w)"
  by (simp add: orgTreasury_def upd_agent_org)

lemma get_inv_orgTreasury: "get_inv r (orgTreasury oid w) = get_inv r w"
  using same_items_orgTreasury[of w oid] by (simp add: same_items_def)

lemma same_items_auditOrg [simp]: "same_items w (auditOrgEvent t a ac r d w)"
  by (simp add: auditOrgEvent_def Let_def)

lemma same_items_noted [simp]: "same_items w (reply x n r b c m (auditOrgEvent t a ac rs d w))"
  by (rule same_items_trans[OF same_items_auditOrg same_items_reply])

lemma same_items_refused [simp]: "same_items w (reply x n r b c m (orgTreasury oid w))"
  by (rule same_items_trans[OF same_items_orgTreasury same_items_reply])

definition may_deposit :: "string \<Rightarrow> instant \<Rightarrow> world \<Rightarrow> bool" where
  "may_deposit aid inst w \<longleftrightarrow> (\<exists>a ob. map_of (agents w) aid = Some a \<and> orgByID w (InstOrgID inst) = Some ob \<and>
     isOrgMember w aid (OrgID ob) \<and> 0 < InstCount inst \<and> InstCount inst \<le> cnt (AInventory a) (InstItemID inst))"

definition may_withdraw :: "string \<Rightarrow> instant \<Rightarrow> world \<Rightarrow> bool" where
  "may_withdraw aid inst w \<longleftrightarrow> (\<exists>a ob. map_of (agents w) aid = Some a \<and> orgByID w (InstOrgID inst) = Some ob \<and>
     isOrgAdmin w aid (OrgID ob) \<and> 0 < InstCount inst \<and>
     InstCount inst \<le> cnt (get_inv (TreasuryInv (InstOrgID inst)) w) (InstItemID inst))"

lemma deposit_shape:
  "same_items w (HandleOrgDeposit aid inst now w) \<or>
   may_deposit aid inst w \<and>
   same_items (hand_over (AgentInv aid) (TreasuryInv (InstOrgID inst)) (InstItemID inst) (InstCount inst)
     (orgTreasury (InstOrgID inst) w)) (HandleOrgDeposit aid inst now w)"
proof (cases "may_deposit aid inst w \<and> fst (ValidateOrgTransferInput (InstOrgID inst) (InstItemID inst) (InstCount inst))")
  case True
  then show ?thesis
    by (auto simp: may_deposit_def HandleOrgDeposit_def Let_def orgTreasury_put_agent hand_over_def get_inv_orgTreasury
        not_less simp del: put_inv.simps get_inv.simps)
next
  case False
  then have "same_items w (HandleOrgDeposit aid inst now w)"
    unfolding HandleOrgDeposit_def Let_def
    by (auto simp: may_deposit_def ValidateOrgTransferInput_def not_less not_le split: option.split if_splits)
  then show ?thesis ..
qed

lemma withdraw_shape:
  "same_items w (HandleOrgWithdraw aid inst now w) \<or>
   may_withdraw aid inst w \<and>
   same_items (hand_over (TreasuryInv (InstOrgID inst)) (AgentInv aid) (InstItemID inst) (InstCount inst)
     (orgTreasury (InstOrgID inst) w)) (HandleOrgWithdraw aid inst now w)"
proof (cases "may_withdraw aid inst w \<and> fst (ValidateOrgTransferInput (InstOrgID inst) (InstItemID inst) (InstCount inst))")
  case True
  then show ?thesis
    by (auto simp: may_withdraw_def HandleOrgWithdraw_def Let_def hand_over_def get_inv_orgTreasury
        not_less simp del: put_inv.simps get_inv.simps)
next
  case False
  then have "same_items w (HandleOrgWithdraw aid inst now w)"
    unfolding HandleOrgWithdraw_def Let_def get_inv_orgTreasury
    by (auto simp: may_withdraw_def ValidateOrgTransferInput_def not_less not_le
        simp del: put_inv.simps get_inv.simps split: option.split if_splits)
  then show ?thesis ..
qed

lemma orgTreasury_ok:
  "items_ok (orgTreasury oid w) \<longleftrightarrow> items_ok w" "stock (orgTreasury oid w) = stock w"
  "holdings (orgTreasury oid w) = holdings w" "valid_inv r (orgTreasury oid w) \<longleftrightarrow> valid_inv r w"
  using same_items_orgTreasury[of w oid] by (auto simp: same_items_ok same_items_stock same_items_def fun_eq_iff holdings_def)

lemma orgByID_valid: "orgByID w oid = Some ob \<Longrightarrow> valid_inv (TreasuryInv oid) w"
  by (auto simp: orgByID_def split: if_splits)

text \<open>
  Either nothing moves, or the requested stack goes from one side to the other and no other count
  changes: one statement for both directions.
\<close>

definition moved_stack :: "inv_ref \<Rightarrow> inv_ref \<Rightarrow> string \<Rightarrow> int \<Rightarrow> world \<Rightarrow> world \<Rightarrow> bool" where
  "moved_stack s d k n w w' \<longleftrightarrow>
     (\<forall>j r. holdings w' j r = holdings w j r +
        (if j \<noteq> k then 0 else if r = s then - n else if r = d then n else 0)) \<and>
     (\<forall>j. stock w' j = stock w j) \<and> items_ok w'"

lemma moved_stackI:
  assumes "same_items (hand_over s d k n (orgTreasury oid w)) w'"
    and "valid_inv s w" "valid_inv d w" "s \<noteq> d" "0 \<le> n" "n \<le> cnt (get_inv s w) k" "items_ok w"
  shows "moved_stack s d k n w w'"
proof -
  let ?w = "orgTreasury oid w"
  have v: "valid_inv s ?w" "valid_inv d ?w" "0 \<le> n" "n \<le> cnt (get_inv s ?w) k" "items_ok ?w"
    using assms by (simp_all add: orgTreasury_ok get_inv_orgTreasury)
  show ?thesis
    using hand_over_counts[OF v assms(4)] hand_over_spec[OF v] same_items_stock(2,3)[OF assms(1)] same_items_ok[OF assms(1)]
    by (simp add: moved_stack_def orgTreasury_ok)
qed

text \<open>
  Treasury transfers conserve items and respect roles.  A deposit either changes no inventory at all,
  or the agent is a member and exactly the requested, positive count that it has moves from it to the
  treasury; a withdrawal the same in the other direction, and only for an officer or leader.
\<close>

lemma org_transfers_exact:
  assumes ok: "items_ok w"
  shows "(same_items w (HandleOrgDeposit aid inst now w) \<or>
       may_deposit aid inst w \<and> moved_stack (AgentInv aid) (TreasuryInv (InstOrgID inst)) (InstItemID inst)
         (InstCount inst) w (HandleOrgDeposit aid inst now w)) \<and>
    (same_items w (HandleOrgWithdraw aid inst now w) \<or>
       may_withdraw aid inst w \<and> moved_stack (TreasuryInv (InstOrgID inst)) (AgentInv aid) (InstItemID inst)
         (InstCount inst) w (HandleOrgWithdraw aid inst now w))"
proof (intro conjI)
  show "same_items w (HandleOrgDeposit aid inst now w) \<or>
     may_deposit aid inst w \<and> moved_stack (AgentInv aid) (TreasuryInv (InstOrgID inst)) (InstItemID inst)
         (InstCount inst) w (HandleOrgDeposit aid inst now w)"
    using deposit_shape[of w aid inst now]
    by (auto simp: may_deposit_def intro!: moved_stackI[OF _ _ _ _ _ _ ok] dest: orgByID_valid)
  show "same_items w (HandleOrgWithdraw aid inst now w) \<or>
     may_withdraw aid inst w \<and> moved_stack (TreasuryInv (InstOrgID inst)) (AgentInv aid) (InstItemID inst)
         (InstCount inst) w (HandleOrgWithdraw aid inst now w)"
    using withdraw_shape[of w aid inst now]
    by (auto simp: may_withdraw_def simp del: get_inv.simps intro!: moved_stackI[OF _ _ _ _ _ _ ok] dest: orgByID_valid)
qed

section \<open>A small organization\<close>

definition guild_inst :: instant where
  "guild_inst = blank_inst\<lparr>InstOrgKind := ''GUILD'', InstOrgName := ''Miners'', InstOrgID := ''ORG000001'',
     InstItemID := ''COAL'', InstCount := 3\<rparr>"

definition guild_world :: world where
  "guild_world = empty_world\<lparr>nextOrgNum := 1,
     agents := [(''A1'', (agent_named ''A1'' [(''COAL'', 5)])\<lparr>AOrgID := ''ORG000001''\<rparr>),
                (''A2'', (agent_named ''A2'' [])\<lparr>AOrgID := ''ORG000001''\<rparr>)],
     orgs := [(''ORG000001'', \<lparr>OrgID = ''ORG000001'', OKind = OrgGuild, OName = ''Miners'', OCreatedTick = 1,
       MetaVersion = 1, OMembers = [(''A1'', OrgLeader), (''A2'', OrgMember)], Treasury = Legacy [],
       TreasuryByWorld = []\<rparr>)]\<rparr>"

lemma guild_world_orgs:
  "orgs guild_world = [(''ORG000001'', \<lparr>OrgID = ''ORG000001'', OKind = OrgGuild, OName = ''Miners'', OCreatedTick = 1,
       MetaVersion = 1, OMembers = [(''A1'', OrgLeader), (''A2'', OrgMember)], Treasury = Legacy [],
       TreasuryByWorld = []\<rparr>)]"
  "map_of (agents guild_world) x = (if x = ''A1'' then Some ((agent_named ''A1'' [(''COAL'', 5)])\<lparr>AOrgID := ''ORG000001''\<rparr>)
     else if x = ''A2'' then Some ((agent_named ''A2'' [])\<lparr>AOrgID := ''ORG000001''\<rparr>) else None)"
  "nextOrgNum guild_world = 1"
  by (simp_all add: guild_world_def)

lemma guild_world_inv: "org_inv guild_world"
proof -
  define m where "m = map_of [(''A1'', OrgLeader), (''A2'', OrgMember)]"
  have id: "\<exists>n \<le> 1. ''ORG000001'' = org_id n" by (intro exI[of _ 1] conjI order_refl) code_simp
  have g: "home (guild_of guild_world) x = (if x = ''A1'' \<or> x = ''A2'' then Some ''ORG000001'' else None)"
    "hall (guild_of guild_world) i = (if i = ''ORG000001'' then Some m else None)"
    "founded (guild_of guild_world) = 1" for x i
    by (simp_all add: guild_of_def guild_world_orgs m_def)
  have "one_leader m"
    unfolding one_leader_def m_def by (rule ex1I[of _ "''A1''"]) (simp_all split: if_splits)
  moreover have "m x = None \<longleftrightarrow> x \<noteq> ''A1'' \<and> x \<noteq> ''A2''" for x by (simp add: m_def)
  moreover have "m ''A1'' = Some OrgLeader" "m ''A2'' = Some OrgMember" by (simp_all add: m_def)
  ultimately have "guild_ok (guild_of guild_world)"
    unfolding guild_ok_def g using id by (simp split: if_split)
  then show ?thesis by (simp add: org_inv_def org_keys_def guild_world_orgs)
qed

lemma guild_world_left:
  "HandleLeaveOrg ''A1'' guild_inst 9 guild_world =
    reply ''A1'' 9 (InstID guild_inst) True [] ''ok''
      (left_org ''A1'' ''ORG000001'' [(''A1'', OrgLeader), (''A2'', OrgMember)] guild_world)"
  by (subst leave_shape) (auto simp: guild_world_orgs mdel_def)

theorem org_always_led_witness:
  "\<exists>ob. map_of (orgs (HandleLeaveOrg ''A1'' guild_inst 9 guild_world)) ''ORG000001'' = Some ob \<and>
     OMembers ob = [(''A2'', OrgLeader)] \<and> (\<exists>!x. map_of (OMembers ob) x = Some OrgLeader)"
proof -
  let ?w = "HandleLeaveOrg ''A1'' guild_inst 9 guild_world"
  have "SelectNextLeader [''A2''] = ''A2''" by code_simp
  then have h: "heirs ''A1'' [(''A1'', OrgLeader), (''A2'', OrgMember)] = [(''A2'', OrgLeader)]"
    by (simp add: heirs_def mdel_def mput_def)
  then obtain ob where ob: "map_of (orgs ?w) ''ORG000001'' = Some ob" "OMembers ob = [(''A2'', OrgLeader)]"
    unfolding guild_world_left by (auto simp: left_org_def Let_def mdel_def gomap guild_world_orgs)
  have "org_step\<^sup>*\<^sup>* guild_world ?w" by (rule r_into_rtranclp) (rule org_step.leave)
  with ob show ?thesis using org_always_led[OF _ guild_world_inv ob(1)] by blast
qed

theorem org_handlers_refine_witness:
  "guild_step (guild_of guild_world) (guild_of (HandleLeaveOrg ''A1'' guild_inst 9 guild_world)) \<and>
   home (guild_of (HandleLeaveOrg ''A1'' guild_inst 9 guild_world)) ''A1'' = Some []"
  using org_handlers_refine[OF guild_world_inv org_step.leave[of guild_world "''A1''" guild_inst 9]]
    left_org_guild[of guild_world "''A1''" _ "''ORG000001''" _ "[(''A1'', OrgLeader), (''A2'', OrgMember)]"]
    same_orgs_reply(1)[of "left_org ''A1'' ''ORG000001'' [(''A1'', OrgLeader), (''A2'', OrgMember)] guild_world"]
  by (simp add: guild_world_left guild_world_orgs same_orgs_def)

lemma guild_world_refs: "world_refs guild_world = {AgentInv ''A1'', AgentInv ''A2'', TreasuryInv ''ORG000001''}"
proof (rule set_eqI)
  fix r show "r \<in> world_refs guild_world \<longleftrightarrow> r \<in> {AgentInv ''A1'', AgentInv ''A2'', TreasuryInv ''ORG000001''}"
    by (cases r) (simp_all add: world_refs_def guild_world_orgs)
qed

lemma guild_world_holdings:
  "holdings guild_world j (AgentInv ''A1'') = (if j = ''COAL'' then 5 else 0)"
  "holdings guild_world j (AgentInv ''A2'') = 0" "holdings guild_world j (TreasuryInv ''ORG000001'') = 0"
proof -
  have "cfg guild_world = cfg empty_world" by (simp add: guild_world_def)
  then show "holdings guild_world j (AgentInv ''A1'') = (if j = ''COAL'' then 5 else 0)"
    "holdings guild_world j (AgentInv ''A2'') = 0" "holdings guild_world j (TreasuryInv ''ORG000001'') = 0"
    by (simp_all add: holdings_def guild_world_orgs TreasuryFor_def treasury_of_def cnt_seed_items legacy_items_def Let_def gomap)
qed

text \<open>
  The last member's departure closes the organization, and whatever its treasury held in this world
  leaves the game with it: the stock of every item falls by exactly the treasury's count.
\<close>

lemma last_member_closes:
  assumes "map_of (agents w) aid = Some a" and "AOrgID a = oid" and "oid \<noteq> []"
    and "map_of (orgs w) oid = Some ob" and "OMembers ob = [(aid, r)]"
  shows "map_of (orgs (HandleLeaveOrg aid inst now w)) oid = None \<and>
    stock (HandleLeaveOrg aid inst now w) j = stock w j - holdings w j (TreasuryInv oid)"
proof -
  define v where "v = upd_org oid (\<lambda>ob. ob\<lparr>OMembers := [], MetaVersion := MetaVersion ob + 1\<rparr>)
      (upd_agent aid (\<lambda>a. a\<lparr>AOrgID := []\<rparr>) w)"
  define u where "u = v\<lparr>orgs := mdel oid (orgs v)\<rparr>"
  have s: "HandleLeaveOrg aid inst now w = reply aid now (InstID inst) True [] ''ok'' u"
    using assms leave_shape[OF assms(1) _ _ _ _, of ob inst now] by (simp add: left_org_def mdel_def Let_def u_def v_def)
  have f: "cfg u = cfg w" "map_of (orgs u) q = (if q = oid then None else map_of (orgs w) q)" for q
    by (simp_all add: u_def v_def gomap)
  have fa: "agents u = agents (upd_agent aid (\<lambda>a. a\<lparr>AOrgID := []\<rparr>) w)" by (simp add: u_def v_def)
  have sa: "same_items w (upd_agent aid (\<lambda>a. a\<lparr>AOrgID := []\<rparr>) w)" by (rule same_items_upd) simp
  have g: "get_inv q u = (if q = TreasuryInv oid then [] else get_inv q w)"
    and v: "valid_inv q u \<longleftrightarrow> q \<noteq> TreasuryInv oid \<and> valid_inv q w" for q
  proof -
    have A: "get_inv (AgentInv x) u = get_inv (AgentInv x) w \<and> valid_inv (AgentInv x) u = valid_inv (AgentInv x) w" for x
      using sa[unfolded same_items_def] by (simp only: get_inv.simps valid_inv.simps fa) (metis get_inv.simps(1) valid_inv.simps(1))
    have T: "get_inv (TreasuryInv x) u = (if x = oid then [] else get_inv (TreasuryInv x) w)"
      "valid_inv (TreasuryInv x) u \<longleftrightarrow> x \<noteq> oid \<and> valid_inv (TreasuryInv x) w" for x by (simp_all add: f split: option.split)
    show "get_inv q u = (if q = TreasuryInv oid then [] else get_inv q w)"
      "valid_inv q u \<longleftrightarrow> q \<noteq> TreasuryInv oid \<and> valid_inv q w"
      by (cases q; simp only: A T inv_ref.distinct inv_ref.inject if_False simp_thms)+
  qed
  have "valid_inv (TreasuryInv oid) w" using assms(4) by simp
  then have "world_refs w = insert (TreasuryInv oid) (world_refs u)" "TreasuryInv oid \<notin> world_refs u"
    unfolding world_refs_def v by auto
  moreover have "sum (holdings u j) (world_refs u) = sum (holdings w j) (world_refs u)"
    by (rule sum.cong) (simp_all add: holdings_def g world_refs_def v)
  ultimately have "stock u j = stock w j - holdings w j (TreasuryInv oid)"
    by (simp add: stock_def)
  moreover have "map_of (orgs u) oid = None" by (simp add: f)
  moreover have "orgs (reply aid now (InstID inst) True [] ''ok'' u) = orgs u" by simp
  ultimately show ?thesis unfolding s using same_items_stock(3)[OF same_items_reply] by simp
qed

definition hermit_world :: world where
  "hermit_world = guild_world\<lparr>orgs := [(''ORG000001'', \<lparr>OrgID = ''ORG000001'', OKind = OrgGuild, OName = ''Miners'',
       OCreatedTick = 1, MetaVersion = 1, OMembers = [(''A1'', OrgLeader)], Treasury = Legacy [(''COAL'', 7)],
       TreasuryByWorld = []\<rparr>)]\<rparr>"

end
