(* ===== verification/Claim_Handlers.thy ===== *)
theory Claim_Handlers
  imports Trade_Model
begin

text \<open>
  Land claims in the world: claiming land (\<open>feature/governance/claims/task_claim.go\<close>), the claim instants
  (\<open>feature/governance/instants/claim_handlers.go\<close>), removing a claim with its totem and the maintenance
  tick (\<open>governance_facade.go\<close>, \<open>feature/governance/runtime/maintenance.go\<close>).  The lemmas show that claims
  never overlap.
\<close>

section \<open>Task requests\<close>

record task_req =
  TaskID :: string
  TaskType :: string
  Target :: "int \<times> int \<times> int"
  TaskTolerance :: real
  TaskDistance :: real
  TargetID :: string
  Src :: string
  Dst :: string
  TaskBlockPos :: "int \<times> int \<times> int"
  TaskRecipeID :: string
  TaskCount :: int
  TaskItemID :: string
  TaskBlueprintID :: string
  TaskAnchor :: "int \<times> int \<times> int"
  TaskRotation :: int
  TaskRadius :: int

definition blank_task :: task_req where
  "blank_task = \<lparr>TaskID = ''K1'', TaskType = [], Target = (0, 0, 0), TaskTolerance = 0, TaskDistance = 0, TargetID = [],
     Src = [], Dst = [], TaskBlockPos = (0, 0, 0), TaskRecipeID = [], TaskCount = 0, TaskItemID = [],
     TaskBlueprintID = [], TaskAnchor = (0, 0, 0), TaskRotation = 0, TaskRadius = 0\<rparr>"

definition to_vec :: "int \<times> int \<times> int \<Rightarrow> vec3" where
  "to_vec t = (case t of (x, y, z) \<Rightarrow> \<lparr>vx = x, vy = y, vz = z\<rparr>)"

section \<open>Claiming land\<close>

definition claim_overlaps :: "vec3 \<Rightarrow> int \<Rightarrow> land_claim \<Rightarrow> bool" where
  "claim_overlaps anchor r c \<longleftrightarrow>
     iabs (i64 (vx anchor - vx (Anchor c))) \<le> i64 (r + Radius c) \<and>
     iabs (i64 (vz anchor - vz (Anchor c))) \<le> i64 (r + Radius c)"

definition new_claim :: "string \<Rightarrow> string \<Rightarrow> vec3 \<Rightarrow> int \<Rightarrow> u64 \<Rightarrow> world_config \<Rightarrow> land_claim" where
  "new_claim landID aid anchor r nowTick wc =
     (let claimType = DefaultClaimTypeForWorld (WorldType wc);
          due = (if DayTicks wc > 0 then nowTick + word_of_int (DayTicks wc) else 0)
      in \<lparr>LandID = landID, Owner = aid, ClaimType = claimType, Anchor = anchor, Radius = r,
          Flags = DefaultClaimFlags claimType, Members = [], MarketTax = 0, CurfewEnabled = False,
          CurfewStart = 0, CurfewEnd = 0, FineBreakEnabled = False, FineBreakItem = [], FineBreakPerBlock = 0,
          AccessPassEnabled = False, AccessTicketItem = [], AccessTicketCost = 0,
          MaintenanceDueTick = due, MaintenanceStage = 0\<rparr>)"

definition HandleTaskClaimLand :: "go_floats \<Rightarrow> string \<Rightarrow> task_req \<Rightarrow> u64 \<Rightarrow> world \<Rightarrow> world" where
  "HandleTaskClaimLand fl aid tr nowTick w =
     (case map_of (agents w) aid of
        None \<Rightarrow> w
      | Some a \<Rightarrow>
          let say = (\<lambda>code msg. reply aid nowTick (TaskID tr) False code msg w);
              r = (if TaskRadius tr \<le> 0 then 32 else TaskRadius tr);
              r = (if r > 128 then 128 else r);
              anchor = to_vec (TaskAnchor tr)
          in if \<not> AllowClaims (cfg w) then say ''E_NO_PERMISSION'' ''claims disabled in this world''
             else if vy anchor \<noteq> 0 then say ''E_INVALID_TARGET'' ''2D world requires y==0''
             else if \<not> InBounds w anchor then say ''E_INVALID_TARGET'' ''out of bounds''
             else if \<not> canBuildAt fl w aid anchor nowTick then say ''E_NO_PERMISSION'' ''cannot claim here''
             else if cnt (AInventory a) ''BATTERY'' < 1 \<or> cnt (AInventory a) ''CRYSTAL_SHARD'' < 1 then
               say ''E_NO_RESOURCE'' ''need BATTERY + CRYSTAL_SHARD''
             else if \<exists>c \<in> snd ` set (claims w). claim_overlaps anchor r c then
               say ''E_CONFLICT'' ''claim overlaps existing land''
             else if GetBlock w anchor \<noteq> airBlock w then say ''E_BLOCKED'' ''anchor occupied''
             else
               (case map_of (BlockIndex (cats w)) ''CLAIM_TOTEM'' of
                  None \<Rightarrow> say ''E_INTERNAL'' ''missing CLAIM_TOTEM block''
                | Some totemID \<Rightarrow>
                    let w = upd_agent aid (\<lambda>a. a\<lparr>AInventory := msub (msub (AInventory a) ''BATTERY'' 1) ''CRYSTAL_SHARD'' 1\<rparr>) w;
                        w = SetBlock anchor totemID w;
                        w = auditSetBlock nowTick aid anchor (airBlock w) totemID ''CLAIM_LAND'' w;
                        (landID, w) = newLandID aid w;
                        w = w\<lparr>claims := mput landID (new_claim landID aid anchor r nowTick (cfg w)) (claims w)\<rparr>
                    in emit aid [(''t'', JU64 nowTick), (''type'', JStr ''ACTION_RESULT''), (''ref'', JStr (TaskID tr)),
                                 (''ok'', JBool True), (''land_id'', JStr landID)] w))"

section \<open>Claim instants\<close>

definition upd_claim :: "string \<Rightarrow> (land_claim \<Rightarrow> land_claim) \<Rightarrow> world \<Rightarrow> world" where
  "upd_claim lid f w =
     (case map_of (claims w) lid of
        None \<Rightarrow> w
      | Some c \<Rightarrow> w\<lparr>claims := mput lid (f c) (claims w)\<rparr>)"

text \<open>\<open>ValidateLandAdmin(land != nil, env.IsLandAdmin(a.ID, land))\<close>.\<close>

definition land_admin_verdict :: "world \<Rightarrow> string \<Rightarrow> string \<Rightarrow> verdict" where
  "land_admin_verdict w aid lid =
     (let land = map_of (claims w) lid in ValidateLandAdmin (land \<noteq> None) (isLandAdmin w aid land))"

definition HandleSetPermissions :: "string \<Rightarrow> instant \<Rightarrow> u64 \<Rightarrow> world \<Rightarrow> world" where
  "HandleSetPermissions aid inst nowTick w =
     (let v = ValidateSetPermissionsInput (InstLandID inst) (InstPolicy inst)
      in if \<not> fst v then reply_verdict aid nowTick (InstID inst) v w
         else let v = land_admin_verdict w aid (InstLandID inst)
              in if \<not> fst v then reply_verdict aid nowTick (InstID inst) v w
                 else
                   let policy = (case InstPolicy inst of None \<Rightarrow> [] | Some p \<Rightarrow> p);
                       w = upd_claim (InstLandID inst) (\<lambda>c. c\<lparr>Flags := ApplyPolicyFlags (Flags c) policy\<rparr>) w
                   in reply aid nowTick (InstID inst) True [] ''ok'' w)"

definition claim_zones :: "world \<Rightarrow> zone list" where
  "claim_zones w = BuildZones (map (\<lambda>(k, c). \<lparr>ZLandID = LandID c, ZAnchorX = vx (Anchor c), ZAnchorZ = vz (Anchor c),
       ZRadius = Radius c\<rparr>) (claims w))"

definition HandleUpgradeClaim :: "string \<Rightarrow> instant \<Rightarrow> u64 \<Rightarrow> world \<Rightarrow> world" where
  "HandleUpgradeClaim aid inst nowTick w =
     (let say = (\<lambda>code msg. reply aid nowTick (InstID inst) False code msg w);
          v = ValidateUpgradeInput (InstLandID inst) (InstRadius inst)
      in if \<not> fst v then reply_verdict aid nowTick (InstID inst) v w
         else let v = land_admin_verdict w aid (InstLandID inst)
              in if \<not> fst v then reply_verdict aid nowTick (InstID inst) v w
                 else
                   (case (map_of (claims w) (InstLandID inst), map_of (agents w) aid) of
                      (Some land, Some a) \<Rightarrow>
                        if MaintenanceStage land \<ge> 1 then
                          say ''E_NO_PERMISSION'' ''land maintenance stage disallows expansion''
                        else
                          let target = InstRadius inst;
                              v = ValidateUpgradeRadius (Radius land) target
                          in if \<not> fst v then reply_verdict aid nowTick (InstID inst) v w
                             else if blockName w (GetBlock w (Anchor land)) \<noteq> ''CLAIM_TOTEM'' then
                               say ''E_INVALID_TARGET'' ''claim totem missing''
                             else
                               let cost = UpgradeCost (Radius land) target
                               in if cost = [] then say ''E_BAD_REQUEST'' ''no upgrade needed''
                                  else if \<exists>(item, n) \<in> set cost. cnt (AInventory a) item < n then
                                    say ''E_NO_RESOURCE'' ''missing upgrade materials''
                                  else if UpgradeOverlaps (vx (Anchor land)) (vz (Anchor land)) target (LandID land) (claim_zones w) then
                                    say ''E_CONFLICT'' ''claim overlaps existing land''
                                  else
                                    let w = upd_agent aid (\<lambda>a. a\<lparr>AInventory :=
                                              for_items (\<lambda>item n m. mprune (msub m item n) item) cost (AInventory a)\<rparr>) w;
                                        w = upd_claim (InstLandID inst) (\<lambda>c. c\<lparr>Radius := target\<rparr>) w;
                                        w = auditEvent nowTick aid ''CLAIM_UPGRADE'' (Anchor land) ''UPGRADE_CLAIM''
                                              [(''land_id'', JStr (InstLandID inst)), (''from'', JInt (Radius land)),
                                               (''to'', JInt target), (''cost'', JPairs (EncodeItemPairs cost))] w
                                    in emit aid [(''t'', JU64 nowTick), (''type'', JStr ''ACTION_RESULT''),
                                         (''ref'', JStr (InstID inst)), (''ok'', JBool True),
                                         (''land_id'', JStr (InstLandID inst)), (''radius'', JInt target)] w
                    | _ \<Rightarrow> w))"

definition HandleAddMember :: "string \<Rightarrow> instant \<Rightarrow> u64 \<Rightarrow> world \<Rightarrow> world" where
  "HandleAddMember aid inst nowTick w =
     (let v = ValidateMemberMutationInput (InstLandID inst) (InstMemberID inst)
      in if \<not> fst v then reply_verdict aid nowTick (InstID inst) v w
         else let v = land_admin_verdict w aid (InstLandID inst)
              in if \<not> fst v then reply_verdict aid nowTick (InstID inst) v w
                 else
                   let w = upd_claim (InstLandID inst) (\<lambda>c. c\<lparr>Members := mput (InstMemberID inst) True (Members c)\<rparr>) w
                   in reply aid nowTick (InstID inst) True [] ''ok'' w)"

definition HandleRemoveMember :: "string \<Rightarrow> instant \<Rightarrow> u64 \<Rightarrow> world \<Rightarrow> world" where
  "HandleRemoveMember aid inst nowTick w =
     (let v = ValidateMemberMutationInput (InstLandID inst) (InstMemberID inst)
      in if \<not> fst v then reply_verdict aid nowTick (InstID inst) v w
         else let v = land_admin_verdict w aid (InstLandID inst)
              in if \<not> fst v then reply_verdict aid nowTick (InstID inst) v w
                 else
                   let w = upd_claim (InstLandID inst) (\<lambda>c. c\<lparr>Members := mdel (InstMemberID inst) (Members c)\<rparr>) w
                   in reply aid nowTick (InstID inst) True [] ''ok'' w)"

definition NormalizeNewOwner :: "string \<Rightarrow> string" where
  "NormalizeNewOwner own = trim_space own"

definition HandleDeedLand :: "string \<Rightarrow> instant \<Rightarrow> u64 \<Rightarrow> world \<Rightarrow> world" where
  "HandleDeedLand aid inst nowTick w =
     (let v = ValidateDeedInput (InstLandID inst) (InstNewOwner inst)
      in if \<not> fst v then reply_verdict aid nowTick (InstID inst) v w
         else let v = land_admin_verdict w aid (InstLandID inst)
              in if \<not> fst v then reply_verdict aid nowTick (InstID inst) v w
                 else
                   let newOwner = NormalizeNewOwner (InstNewOwner inst)
                   in if newOwner = [] then reply aid nowTick (InstID inst) False ''E_BAD_REQUEST'' ''bad new_owner'' w
                      else if map_of (agents w) newOwner = None \<and> orgByID w newOwner = None then
                        reply aid nowTick (InstID inst) False ''E_INVALID_TARGET'' ''new owner not found'' w
                      else
                        let w = upd_claim (InstLandID inst) (\<lambda>c. c\<lparr>Owner := newOwner\<rparr>) w
                        in reply aid nowTick (InstID inst) True [] ''ok'' w)"

section \<open>Removing a claim\<close>

text \<open>The smallest identifier among the claims at the anchor; empty when there is none.\<close>

definition claim_at_anchor :: "vec3 \<Rightarrow> land_claim gomap \<Rightarrow> string" where
  "claim_at_anchor anchor cs =
     fold (\<lambda>(lid, c) best. if Anchor c \<noteq> anchor then best else if best = [] \<or> lid < best then lid else best) cs []"

definition removeClaimByAnchor :: "u64 \<Rightarrow> string \<Rightarrow> vec3 \<Rightarrow> string \<Rightarrow> world \<Rightarrow> world" where
  "removeClaimByAnchor nowTick actor anchor reason w =
     (let landID = claim_at_anchor anchor (claims w)
      in if landID = [] then w
         else
           let w = w\<lparr>claims := mdel landID (claims w), laws := filter (\<lambda>(k, l). LLandID l \<noteq> landID) (laws w)\<rparr>
           in auditEvent nowTick actor ''CLAIM_REMOVE'' anchor reason [(''land_id'', JStr landID)] w)"

section \<open>Maintenance\<close>

definition PayMaintenance :: "land_claim \<Rightarrow> world \<Rightarrow> bool \<times> world" where
  "PayMaintenance c w =
     (let own = trim_space (Owner c)
      in if own = [] then (False, w)
         else
           let cost = EffectiveCost (MaintenanceCost (cfg w))
           in if orgByID w own \<noteq> None then
                let w = orgTreasury own w
                in if \<not> HasItems (get_inv (TreasuryInv own) w) cost then (False, w)
                   else (True, put_inv (TreasuryInv own) (DeductItems (get_inv (TreasuryInv own) w) cost) w)
              else
                (case map_of (agents w) own of
                   None \<Rightarrow> (False, w)
                 | Some a \<Rightarrow>
                     if \<not> HasItems (AInventory a) cost then (False, w)
                     else (True, put_inv (AgentInv own) (DeductItems (AInventory a) cost) w)))"

definition maintain_claim :: "u64 \<Rightarrow> string \<Rightarrow> world \<Rightarrow> world" where
  "maintain_claim nowTick lid w =
     (case map_of (claims w) lid of
        None \<Rightarrow> w
      | Some c \<Rightarrow>
          let day = word_of_int (DayTicks (cfg w))
          in if MaintenanceDueTick c = 0 then
               upd_claim lid (\<lambda>c. c\<lparr>MaintenanceDueTick := NextDue nowTick (MaintenanceDueTick c) day\<rparr>) w
             else if nowTick < MaintenanceDueTick c then w
             else
               (case PayMaintenance c w of
                  (paid, w) \<Rightarrow>
                    let c' = c\<lparr>MaintenanceStage := NextStage (MaintenanceStage c) paid,
                               MaintenanceDueTick := NextDue nowTick (MaintenanceDueTick c) day\<rparr>;
                        w = upd_claim lid (\<lambda>_. c') w
                    in emit (Owner c) [(''t'', JU64 nowTick), (''type'', JStr ''MAINTENANCE''), (''land_id'', JStr (LandID c)),
                         (''status'', JStr (if paid then ''PAID'' else ''LATE'')), (''stage'', JInt (MaintenanceStage c')),
                         (''next_due_tick'', JU64 (MaintenanceDueTick c'))] w))"

definition TickClaimsMaintenance :: "u64 \<Rightarrow> world \<Rightarrow> world" where
  "TickClaimsMaintenance nowTick w =
     (if DayTicks (cfg w) \<le> 0 then w
      else fold (maintain_claim nowTick) (sorted_keys (claims w)) w)"

end
