(* ===== verification/Law_Handlers.thy ===== *)
theory Law_Handlers
  imports Claim_Handlers
begin

text \<open>
  Laws in the world: proposing and voting (\<open>feature/governance/instants/law_handlers.go\<close> with the hooks of
  \<open>instants_governance_handlers.go\<close>), the broadcast of law events and the law tick
  (\<open>governance_facade.go\<close>, \<open>feature/governance/laws/runtime/lifecycle.go\<close>).
\<close>

section \<open>Broadcast\<close>

definition broadcastLawEvent :: "u64 \<Rightarrow> string \<Rightarrow> law \<Rightarrow> string \<Rightarrow> world \<Rightarrow> world" where
  "broadcastLawEvent nowTick kind l message w =
     (let base = [(''t'', JU64 nowTick), (''type'', JStr ''LAW''), (''kind'', JStr kind), (''law_id'', JStr (LawID l)),
                  (''land_id'', JStr (LLandID l)), (''template_id'', JStr (TemplateID l)), (''title'', JStr (LTitle l)),
                  (''status'', JStr (law_status_string (LStatus l)))]
            @ (if message \<noteq> [] then [(''message'', JStr message)] else [])
            @ (case map_of (claims w) (LLandID l) of
                 None \<Rightarrow> []
               | Some c \<Rightarrow> if ClaimType c \<noteq> [] then [(''claim_type'', JStr (ClaimType c))] else [])
      in w\<lparr>agents := map (\<lambda>(k, a). (k, AddEvent base a)) (agents w)\<rparr>)"

section \<open>Proposing and voting\<close>

definition upd_law :: "string \<Rightarrow> (law \<Rightarrow> law) \<Rightarrow> world \<Rightarrow> world" where
  "upd_law lid f w =
     (case map_of (laws w) lid of
        None \<Rightarrow> w
      | Some l \<Rightarrow> w\<lparr>laws := mput lid (f l) (laws w)\<rparr>)"

definition on_proposed :: "go_floats \<Rightarrow> string \<Rightarrow> law \<Rightarrow> u64 \<Rightarrow> world \<Rightarrow> world" where
  "on_proposed fl aid l nowTick w =
     (if activeEventID w = ''CIVIC_VOTE'' \<and> nowTick < activeEventEnds w then
        let w = upd_agent aid (funOnWorldEventParticipation (activeEventID w) nowTick) w;
            w = upd_agent aid (award fl w nowTick ''NARRATIVE'' ''civic_vote_propose'' ''narrative:civic_vote_propose'' 6) w
        in emit aid [(''t'', JU64 nowTick), (''type'', JStr ''EVENT_GOAL''), (''event_id'', JStr (activeEventID w)),
                     (''kind'', JStr ''PROPOSE_LAW''), (''law_id'', JStr (LawID l))] w
      else w)"

definition new_law :: "string \<Rightarrow> string \<Rightarrow> land_claim \<Rightarrow> instant \<Rightarrow> string \<Rightarrow> string gomap \<Rightarrow> u64 \<Rightarrow> world_config \<Rightarrow> law" where
  "new_law lawID aid land inst title params nowTick wc =
     (case BuildLawTimeline nowTick (LawNoticeTicks wc) (LawVoteTicks wc) of
        (noticeEnds, voteEnds) \<Rightarrow>
          \<lparr>LawID = lawID, LLandID = LandID land, TemplateID = InstTemplateID inst, LTitle = title, Params = params,
           ProposedBy = aid, ProposedTick = nowTick, NoticeEndsTick = noticeEnds, VoteEndsTick = voteEnds,
           LStatus = StatusNotice, Votes = []\<rparr>)"

definition HandleProposeLaw :: "go_floats \<Rightarrow> string \<Rightarrow> instant \<Rightarrow> u64 \<Rightarrow> world \<Rightarrow> world" where
  "HandleProposeLaw fl aid inst nowTick w =
     (let say = (\<lambda>code msg. reply aid nowTick (InstID inst) False code msg w);
          v = ValidateProposeInput (AllowLaws (cfg w)) (InstLandID inst) (InstTemplateID inst) (InstParams inst)
      in if \<not> fst v then reply_verdict aid nowTick (InstID inst) v w
         else case map_of (claims w) (InstLandID inst) of
                None \<Rightarrow> say ''E_INVALID_TARGET'' ''land not found''
              | Some land \<Rightarrow>
                  if \<not> isLandMember w aid (Some land) then say ''E_NO_PERMISSION'' ''not eligible''
                  else case map_of (LawTitles (cats w)) (InstTemplateID inst) of
                         None \<Rightarrow> say ''E_INVALID_TARGET'' ''unknown law template''
                       | Some templateTitle \<Rightarrow>
                           (case NormalizeLawParams fl (InstTemplateID inst) (case InstParams inst of None \<Rightarrow> [] | Some ps \<Rightarrow> ps)
                                   (Some (\<lambda>item. item \<in> set (ItemDefs (cats w)))) of
                              Inl UnsupportedTemplate \<Rightarrow> say ''E_INVALID_TARGET'' ''unsupported template''
                            | Inl e \<Rightarrow> say ''E_BAD_REQUEST'' (law_error_string e)
                            | Inr params \<Rightarrow>
                                let title = ResolveLawTitle (InstTitle inst) templateTitle;
                                    (lawID, w) = newLawID w;
                                    l = new_law lawID aid land inst title params nowTick (cfg w);
                                    w = w\<lparr>laws := mput lawID l (laws w)\<rparr>;
                                    w = broadcastLawEvent nowTick ''PROPOSED'' l [] w;
                                    w = auditEvent nowTick aid ''LAW_PROPOSE'' (Anchor land) ''PROPOSE_LAW''
                                          [(''law_id'', JStr lawID), (''land_id'', JStr (LandID land)),
                                           (''template_id'', JStr (InstTemplateID inst)), (''title'', JStr title),
                                           (''notice_ends'', JU64 (NoticeEndsTick l)), (''vote_ends'', JU64 (VoteEndsTick l)),
                                           (''params'', JStrs params), (''proposed_by'', JStr aid), (''proposed_tick'', JU64 nowTick)] w;
                                    w = on_proposed fl aid l nowTick w
                                in emit aid [(''t'', JU64 nowTick), (''type'', JStr ''ACTION_RESULT''), (''ref'', JStr (InstID inst)),
                                             (''ok'', JBool True), (''law_id'', JStr lawID)] w))"

definition on_voted :: "go_floats \<Rightarrow> string \<Rightarrow> law \<Rightarrow> u64 \<Rightarrow> world \<Rightarrow> world" where
  "on_voted fl aid l nowTick w =
     (let w = upd_agent aid (funOnVote fl w nowTick) w
      in if activeEventID w = ''CIVIC_VOTE'' \<and> nowTick < activeEventEnds w then
           emit aid [(''t'', JU64 nowTick), (''type'', JStr ''EVENT_GOAL''), (''event_id'', JStr (activeEventID w)),
                     (''kind'', JStr ''VOTE''), (''law_id'', JStr (LawID l))] w
         else w)"

definition HandleVoteLaw :: "go_floats \<Rightarrow> string \<Rightarrow> instant \<Rightarrow> u64 \<Rightarrow> world \<Rightarrow> world" where
  "HandleVoteLaw fl aid inst nowTick w =
     (let say = (\<lambda>code msg. reply aid nowTick (InstID inst) False code msg w);
          v = ValidateVoteInput (AllowLaws (cfg w)) (InstLawID inst) (InstChoice inst)
      in if \<not> fst v then reply_verdict aid nowTick (InstID inst) v w
         else case map_of (laws w) (InstLawID inst) of
                None \<Rightarrow> say ''E_INVALID_TARGET'' ''law not found''
              | Some l \<Rightarrow>
                  if LStatus l \<noteq> StatusVoting then say ''E_BLOCKED'' ''law not in voting''
                  else case map_of (claims w) (LLandID l) of
                         None \<Rightarrow> say ''E_INVALID_TARGET'' ''land not found''
                       | Some land \<Rightarrow>
                           if \<not> isLandMember w aid (Some land) then say ''E_NO_PERMISSION'' ''not eligible to vote''
                           else
                             let choice = NormalizeVoteChoice (InstChoice inst)
                             in if choice = [] then say ''E_BAD_REQUEST'' ''bad choice''
                                else
                                  let w = upd_law (InstLawID inst) (\<lambda>l. l\<lparr>Votes := mput aid choice (Votes l)\<rparr>) w;
                                      w = auditEvent nowTick aid ''LAW_VOTE'' (Anchor land) ''VOTE''
                                            [(''law_id'', JStr (LawID l)), (''land_id'', JStr (LLandID l)),
                                             (''choice'', JStr choice), (''voter_id'', JStr aid)] w;
                                      w = on_voted fl aid l nowTick w
                                  in reply aid nowTick (InstID inst) True [] ''ok'' w)"

section \<open>The law tick\<close>

text \<open>The hooks \<open>OnActivated\<close> and \<open>OnRejected\<close> of \<open>tickLaws\<close>.\<close>

definition on_activated :: "go_floats \<Rightarrow> u64 \<Rightarrow> law \<Rightarrow> int \<Rightarrow> int \<Rightarrow> world \<Rightarrow> world" where
  "on_activated fl nowTick l yes no w =
     (let w = upd_agent (ProposedBy l) (funOnLawActive fl w nowTick) w;
          w = (case map_of (claims w) (LLandID l) of
                 None \<Rightarrow> w
               | Some land \<Rightarrow>
                   auditEvent nowTick ''WORLD'' ''LAW_ACTIVE'' (Anchor land) ''VOTE_PASSED''
                     [(''law_id'', JStr (LawID l)), (''land_id'', JStr (LLandID l)), (''template_id'', JStr (TemplateID l)),
                      (''title'', JStr (LTitle l)), (''yes'', JInt yes), (''no'', JInt no), (''params'', JStrs (Params l))] w)
      in broadcastLawEvent nowTick ''ACTIVE'' l [] w)"

definition on_rejected :: "u64 \<Rightarrow> law \<Rightarrow> int \<Rightarrow> int \<Rightarrow> string \<Rightarrow> law_error option \<Rightarrow> world \<Rightarrow> world" where
  "on_rejected nowTick l yes no reason cause w =
     (let w = (case map_of (claims w) (LLandID l) of
                 None \<Rightarrow> w
               | Some land \<Rightarrow>
                   auditEvent nowTick ''WORLD'' ''LAW_REJECTED'' (Anchor land)
                     (if cause = None then ''VOTE_FAILED'' else ''ACTIVATE_FAILED'')
                     ([(''law_id'', JStr (LawID l)), (''land_id'', JStr (LLandID l)), (''template_id'', JStr (TemplateID l)),
                       (''title'', JStr (LTitle l)), (''yes'', JInt yes), (''no'', JInt no)]
                      @ (case cause of None \<Rightarrow> [] | Some e \<Rightarrow> [(''message'', JStr (law_error_string e))])) w);
          msg = (case cause of None \<Rightarrow> reason | Some e \<Rightarrow> law_error_string e)
      in broadcastLawEvent nowTick ''REJECTED'' l msg w)"

text \<open>
  One law: the first \<open>if\<close> is the move to voting, the second guards the count.  \<open>OnActivate\<close> applies the
  template to the land, or reports that the land is gone.
\<close>

definition tick_law :: "go_floats \<Rightarrow> u64 \<Rightarrow> string \<Rightarrow> world \<Rightarrow> world" where
  "tick_law fl nowTick lid w =
     (case map_of (laws w) lid of
        None \<Rightarrow> w
      | Some l \<Rightarrow>
          let (move, next) = NextTransition (LStatus l) nowTick (NoticeEndsTick l) (VoteEndsTick l)
          in if move \<and> next = Some StatusVoting then
               let l' = l\<lparr>LStatus := StatusVoting\<rparr>
               in broadcastLawEvent nowTick ''VOTING'' l' [] (upd_law lid (\<lambda>_. l') w)
             else if \<not> (move \<and> LStatus l = StatusVoting) then w
             else
               let (yes, no) = CountVotes (Votes l)
               in if VotePassed yes no then
                    (case ApplyTemplateToLand fl l (map_of (claims w) (LLandID l)) of
                       Inl e \<Rightarrow>
                         let l' = l\<lparr>LStatus := StatusRejected\<rparr>
                         in on_rejected nowTick l' yes no ''activate failed'' (Some e) (upd_law lid (\<lambda>_. l') w)
                     | Inr land \<Rightarrow>
                         let l' = l\<lparr>LStatus := StatusActive\<rparr>;
                             w = upd_claim (LLandID l) (\<lambda>_. land) w
                         in on_activated fl nowTick l' yes no (upd_law lid (\<lambda>_. l') w))
                  else
                    let l' = l\<lparr>LStatus := StatusRejected\<rparr>
                    in on_rejected nowTick l' yes no ''vote failed'' None (upd_law lid (\<lambda>_. l') w))"

definition tickLaws :: "go_floats \<Rightarrow> u64 \<Rightarrow> world \<Rightarrow> world" where
  "tickLaws fl nowTick w = fold (tick_law fl nowTick) (sorted_keys (laws w)) w"

end
