(* ===== verification/Land_Governance.thy ===== *)
theory Land_Governance
  imports Law_Handlers
begin

text \<open>
  What the governance handlers promise together: the claims of a world never overlap and keep their
  maintenance stage in range, a law always belongs to an existing claim, and a law moves only from
  notice to voting to a final decision.
\<close>

section \<open>The governance part of the world\<close>

text \<open>Operations that leave claims, laws and the law counter alone.\<close>

definition same_land :: "world \<Rightarrow> world \<Rightarrow> bool" where
  "same_land w w' \<longleftrightarrow> cfg w' = cfg w \<and> claims w' = claims w \<and> laws w' = laws w \<and> nextLawNum w' = nextLawNum w"

lemma same_land_refl [simp]: "same_land w w"
  by (simp add: same_land_def)

lemma same_land_trans: "same_land u v \<Longrightarrow> same_land v w \<Longrightarrow> same_land u w"
  by (simp add: same_land_def)

lemma counter_fields [simp]:
  "nextLawNum (emit aid e w) = nextLawNum w" "nextLawNum (reply aid t r b c m w) = nextLawNum w"
  "nextLawNum (auditEvent t a ac p rs d w) = nextLawNum w" "nextLawNum (upd_org oid g w) = nextLawNum w"
  "nextLawNum (auditSetBlock t a p x y rs w) = nextLawNum w" "nextLawNum (SetBlock p blk w) = nextLawNum w"
  by (simp_all add: emit_def reply_def auditEvent_def upd_org_def auditSetBlock_def SetBlock_def split: option.splits)

lemma same_land_ops [simp]:
  "same_land w (upd_agent aid f w)" "same_land w (emit aid e w)" "same_land w (reply aid t r b c m w)"
  "same_land w (reply_verdict aid t r v w)" "same_land w (auditEvent t a ac p rs d w)"
  "same_land w (auditSetBlock t a p x y rs w)" "same_land w (SetBlock p blk w)" "same_land w (upd_org oid g w)"
  by (simp_all add: same_land_def reply_verdict_def auditSetBlock_def SetBlock_def)

lemma same_land_broadcast [simp]: "same_land w (broadcastLawEvent now k l m w)"
  by (simp add: same_land_def broadcastLawEvent_def)

lemma same_land_put_inv [simp]: "same_land w (put_inv r m w)" "same_land w (orgTreasury oid w)"
  by (cases r) (simp_all add: orgTreasury_def)

lemmas same_land_trans_ops = same_land_ops[THEN [2] same_land_trans] same_land_put_inv[THEN [2] same_land_trans]
  same_land_broadcast[THEN [2] same_land_trans]

lemma same_land_hooks [simp]:
  "same_land w (on_proposed fl aid l now w)" "same_land w (on_voted fl aid l now w)"
  "same_land w (on_activated fl now l y n w)" "same_land w (on_rejected now l y n r e w)"
  unfolding on_proposed_def on_voted_def on_activated_def on_rejected_def Let_def
  by (auto intro!: same_land_trans_ops split: option.split)

lemma PayMaintenance_land: "same_land w (snd (PayMaintenance c w))"
  unfolding PayMaintenance_def Let_def by (auto intro!: same_land_trans_ops split: option.split)

section \<open>The invariant\<close>

definition law_id :: "u64 \<Rightarrow> string" where
  "law_id n = ''LAW'' @ pad_dec 6 n"

lemma law_id_inj: "law_id m = law_id n \<Longrightarrow> m = n"
  by (simp add: law_id_def pad_dec_inj)

definition stage_ok :: "land_claim \<Rightarrow> bool" where
  "stage_ok c \<longleftrightarrow> 0 \<le> MaintenanceStage c \<and> MaintenanceStage c \<le> 2"

definition land_inv :: "world \<Rightarrow> bool" where
  "land_inv w \<longleftrightarrow>
     0 < BoundaryR (cfg w) \<and> BoundaryR (cfg w) \<le> 2 ^ 59 \<and> claims_ok (claims w) \<and> wf_map (laws w) \<and>
     (\<forall>k c. map_of (claims w) k = Some c \<longrightarrow> k \<noteq> [] \<and> stage_ok c) \<and>
     (\<forall>k l. map_of (laws w) k = Some l \<longrightarrow>
        (\<exists>n \<le> nextLawNum w. k = law_id n) \<and> map_of (claims w) (LLandID l) \<noteq> None)"

inductive law_next :: "law \<Rightarrow> law \<Rightarrow> bool" where
  open_vote: "LStatus l = StatusNotice \<Longrightarrow> law_next l (l\<lparr>LStatus := StatusVoting\<rparr>)"
| ballot: "LStatus l = StatusVoting \<Longrightarrow> law_next l (l\<lparr>Votes := mput a choice (Votes l)\<rparr>)"
| enact: "LStatus l = StatusVoting \<Longrightarrow> law_next l (l\<lparr>LStatus := StatusActive\<rparr>)"
| dismiss: "LStatus l = StatusVoting \<Longrightarrow> law_next l (l\<lparr>LStatus := StatusRejected\<rparr>)"

text \<open>Every law of the later world with an identifier issued before stems from the law it then was.\<close>

definition law_descent :: "world \<Rightarrow> world \<Rightarrow> bool" where
  "law_descent w w' \<longleftrightarrow> nextLawNum w \<le> nextLawNum w' \<and>
     (\<forall>n l'. n \<le> nextLawNum w \<longrightarrow> map_of (laws w') (law_id n) = Some l' \<longrightarrow>
        (\<exists>l. map_of (laws w) (law_id n) = Some l \<and> law_next\<^sup>*\<^sup>* l l'))"

definition gov_keeps :: "world \<Rightarrow> world \<Rightarrow> bool" where
  "gov_keeps w w' \<longleftrightarrow> (land_inv w \<longrightarrow> land_inv w' \<and> law_descent w w')"

lemma law_descent_trans: "law_descent u v \<Longrightarrow> law_descent v w \<Longrightarrow> law_descent u w"
  unfolding law_descent_def by (meson order_trans rtranclp_trans)

lemma gov_keeps_refl [simp]: "gov_keeps w w"
  by (auto simp: gov_keeps_def law_descent_def)

lemma gov_keeps_trans: "gov_keeps u v \<Longrightarrow> gov_keeps v w \<Longrightarrow> gov_keeps u w"
  by (auto simp: gov_keeps_def intro: law_descent_trans)

lemma same_land_keeps: "same_land w w' \<Longrightarrow> gov_keeps w w'"
  by (auto simp: same_land_def gov_keeps_def land_inv_def law_descent_def)

lemma gov_keeps_then: "gov_keeps w v \<Longrightarrow> same_land v w' \<Longrightarrow> gov_keeps w w'"
  by (rule gov_keeps_trans[OF _ same_land_keeps])

lemma gov_keeps_then_ops:
  "gov_keeps w v \<Longrightarrow> gov_keeps w (upd_agent aid f v)" "gov_keeps w v \<Longrightarrow> gov_keeps w (emit aid e v)"
  "gov_keeps w v \<Longrightarrow> gov_keeps w (reply aid t r b c m v)" "gov_keeps w v \<Longrightarrow> gov_keeps w (auditEvent t a ac p rs d v)"
  "gov_keeps w v \<Longrightarrow> gov_keeps w (broadcastLawEvent now kd l m v)"
  "gov_keeps w v \<Longrightarrow> gov_keeps w (on_proposed fl aid l now v)" "gov_keeps w v \<Longrightarrow> gov_keeps w (on_voted fl aid l now v)"
  "gov_keeps w v \<Longrightarrow> gov_keeps w (on_activated fl now l y n v)" "gov_keeps w v \<Longrightarrow> gov_keeps w (on_rejected now l y n rn er v)"
  by (erule gov_keeps_then, simp)+

lemma gov_keeps_ops [simp]:
  "gov_keeps w (upd_agent aid f w)" "gov_keeps w (emit aid e w)" "gov_keeps w (reply aid t r b c m w)"
  "gov_keeps w (reply_verdict aid t r v w)"
  by (simp_all add: same_land_keeps)

text \<open>Changes that leave the ground of a claim alone.\<close>

definition same_ground :: "land_claim \<Rightarrow> land_claim \<Rightarrow> bool" where
  "same_ground c d \<longleftrightarrow> LandID d = LandID c \<and> Anchor d = Anchor c \<and> Radius d = Radius c \<and> (stage_ok c \<longrightarrow> stage_ok d)"

lemma claims_ok_map_of: "claims_ok cs \<Longrightarrow> map_of cs k = Some c \<longleftrightarrow> (k, c) \<in> set cs"
  using claims_okD(1)[of cs] by (simp add: wf_map_def)

lemma claims_ok_apart:
  "claims_ok cs \<Longrightarrow> map_of cs k = Some c \<Longrightarrow> map_of cs j = Some d \<Longrightarrow> j \<noteq> k \<Longrightarrow> apart c d"
  using claims_okD(4)[of cs k c j d] by (simp add: claims_ok_map_of)

lemma upd_claim_keeps:
  assumes "\<And>c. map_of (claims w) lid = Some c \<Longrightarrow> land_inv w \<Longrightarrow> stage_ok c \<Longrightarrow>
      LandID (f c) = lid \<and> stage_ok (f c) \<and> claim_ok (f c) \<and>
      (\<forall>j d. map_of (claims w) j = Some d \<longrightarrow> j \<noteq> lid \<longrightarrow> apart (f c) d)"
  shows "gov_keeps w (upd_claim lid f w)"
proof (cases "map_of (claims w) lid")
  case None
  then show ?thesis by (simp add: upd_claim_def)
next
  case (Some c)
  show ?thesis
  proof (clarsimp simp only: gov_keeps_def)
    assume inv: "land_inv w"
    then have ok: "claims_ok (claims w)" and st: "stage_ok c" using Some by (auto simp: land_inv_def)
    note f = assms[OF Some inv st]
    have "claims_ok (mput lid (f c) (claims w))"
      by (rule claims_ok_mput[OF ok]) (use f ok in \<open>auto simp: claims_ok_map_of\<close>)
    then have "land_inv (upd_claim lid f w)"
      using inv f Some by (auto simp: land_inv_def upd_claim_def gomap)
    then show "land_inv (upd_claim lid f w) \<and> law_descent w (upd_claim lid f w)"
      by (auto simp: law_descent_def upd_claim_def Some)
  qed
qed

lemma same_ground_keeps:
  assumes "\<And>c. map_of (claims w) lid = Some c \<Longrightarrow> same_ground c (f c)"
  shows "gov_keeps w (upd_claim lid f w)"
proof (rule upd_claim_keeps)
  fix c assume c: "map_of (claims w) lid = Some c" and inv: "land_inv w" and st: "stage_ok c"
  have ok: "claims_ok (claims w)" using inv by (simp add: land_inv_def)
  have "LandID c = lid" "claim_ok c" using claims_okD[OF ok] c by (auto simp: claims_ok_map_of[OF ok])
  then show "LandID (f c) = lid \<and> stage_ok (f c) \<and> claim_ok (f c) \<and>
      (\<forall>j d. map_of (claims w) j = Some d \<longrightarrow> j \<noteq> lid \<longrightarrow> apart (f c) d)"
    using assms[OF c] st claims_ok_apart[OF ok c] by (auto simp: same_ground_def claim_ok_def apart_def)
qed

section \<open>Claims\<close>

lemma flag_instants_keep:
  "gov_keeps w (HandleSetPermissions aid inst now w)" "gov_keeps w (HandleAddMember aid inst now w)"
  "gov_keeps w (HandleRemoveMember aid inst now w)" "gov_keeps w (HandleDeedLand aid inst now w)"
  unfolding HandleSetPermissions_def HandleAddMember_def HandleRemoveMember_def HandleDeedLand_def Let_def
  by (auto intro!: gov_keeps_then_ops same_ground_keeps simp: same_ground_def stage_ok_def split: option.split)

text \<open>Zones are the claims; their overlap test is \<open>apart\<close>.\<close>

lemma UpgradeOverlaps_iff:
  "UpgradeOverlaps x z r lid zs \<longleftrightarrow> (\<exists>q \<in> set zs. ZLandID q \<noteq> [] \<and> ZLandID q \<noteq> lid \<and>
     iabs (i64 (x - ZAnchorX q)) \<le> i64 (r + ZRadius q) \<and> iabs (i64 (z - ZAnchorZ q)) \<le> i64 (r + ZRadius q))"
  by (induction zs) (auto simp: Let_def)

lemma near_apart:
  assumes "near_origin p" and "claim_ok d" and "0 < r" and "r \<le> 128"
  shows "(iabs (i64 (vx p - vx (Anchor d))) \<le> i64 (r + Radius d) \<and> iabs (i64 (vz p - vz (Anchor d))) \<le> i64 (r + Radius d)) \<longleftrightarrow>
    \<bar>vx p - vx (Anchor d)\<bar> \<le> r + Radius d \<and> \<bar>vz p - vz (Anchor d)\<bar> \<le> r + Radius d"
proof -
  have "i64 (r + Radius d) = r + Radius d" by (rule i64_small) (use assms in \<open>auto simp: claim_ok_def\<close>)
  then show ?thesis using near_diff[OF assms(1), of "Anchor d"] assms(2) by (simp add: claim_ok_def)
qed

lemma claim_zones_mem:
  assumes "claims_ok (claims w)" and "map_of (claims w) j = Some d" and "j \<noteq> []"
  shows "\<lparr>ZLandID = j, ZAnchorX = vx (Anchor d), ZAnchorZ = vz (Anchor d), ZRadius = Radius d\<rparr> \<in> set (claim_zones w)"
proof -
  have "(j, d) \<in> set (claims w)" "LandID d = j" "claim_ok d"
    using assms claims_okD[OF assms(1)] by (auto simp: claims_ok_map_of)
  then show ?thesis using assms(3) by (force simp: claim_zones_def BuildZones_def claim_ok_def)
qed

lemma upgrade_apart:
  assumes inv: "land_inv w" and c: "map_of (claims w) lid = Some c" and r: "0 < r" "r \<le> 128"
    and no: "\<not> UpgradeOverlaps (vx (Anchor c)) (vz (Anchor c)) r (LandID c) (claim_zones w)"
  shows "LandID (c\<lparr>Radius := r\<rparr>) = lid \<and> claim_ok (c\<lparr>Radius := r\<rparr>) \<and>
    (\<forall>j d. map_of (claims w) j = Some d \<longrightarrow> j \<noteq> lid \<longrightarrow> apart (c\<lparr>Radius := r\<rparr>) d)"
proof -
  have ok: "claims_ok (claims w)" using inv by (simp add: land_inv_def)
  have c': "LandID c = lid" "claim_ok c" using claims_okD[OF ok] c by (auto simp: claims_ok_map_of[OF ok])
  moreover have "apart (c\<lparr>Radius := r\<rparr>) d" if d: "map_of (claims w) j = Some d" "j \<noteq> lid" for j d
  proof -
    have j: "j \<noteq> []" using inv d by (auto simp: land_inv_def)
    have "claim_ok d" using claims_okD[OF ok] d by (auto simp: claims_ok_map_of[OF ok])
    then show ?thesis
      using no claim_zones_mem[OF ok d(1) j] near_apart[of "Anchor c" d r] r c' d(2) j
      by (auto simp: UpgradeOverlaps_iff apart_def claim_ok_def not_le)
  qed
  ultimately show ?thesis using r by (simp add: claim_ok_def)
qed

lemma upgrade_keeps: "gov_keeps w (HandleUpgradeClaim aid inst now w)"
proof -
  have "gov_keeps w (upd_claim (InstLandID inst) (\<lambda>c. c\<lparr>Radius := InstRadius inst\<rparr>) (upd_agent aid f w))"
    if c: "map_of (claims w) (InstLandID inst) = Some c" and v: "fst (ValidateUpgradeRadius (Radius c) (InstRadius inst))"
      and no: "\<not> UpgradeOverlaps (vx (Anchor c)) (vz (Anchor c)) (InstRadius inst) (LandID c) (claim_zones w)" for c f
  proof (rule gov_keeps_trans[of _ "upd_agent aid f w"])
    have r: "0 < InstRadius inst" "InstRadius inst \<le> 128"
      using v by (auto simp: ValidateUpgradeRadius_def split: if_splits)
    show "gov_keeps (upd_agent aid f w) (upd_claim (InstLandID inst) (\<lambda>c. c\<lparr>Radius := InstRadius inst\<rparr>) (upd_agent aid f w))"
      by (rule upd_claim_keeps)
        (use c no upgrade_apart[of "upd_agent aid f w" "InstLandID inst" c, OF _ _ r] in
          \<open>auto simp: stage_ok_def claim_zones_def\<close>)
  qed simp
  then show ?thesis
    unfolding HandleUpgradeClaim_def Let_def
    by (auto intro!: gov_keeps_then_ops split: option.split)
qed

lemma InBounds_near:
  assumes "InBounds w p" and "0 < BoundaryR (cfg w)" and "BoundaryR (cfg w) \<le> 2 ^ 59"
  shows "near_origin p"
proof -
  have "i64 (- BoundaryR (cfg w)) = - BoundaryR (cfg w)" by (rule i64_small) (use assms in auto)
  then show ?thesis using assms by (auto simp: InBounds_def near_origin_def Let_def split: if_splits)
qed

lemma DefaultClaim_land: "newLandID own w = (lid, w') \<Longrightarrow> lid \<noteq> [] \<and> same_land w w'"
  by (auto simp: newLandID_def Let_def same_land_def)

lemma file_claim_keeps:
  assumes lid: "k \<noteq> []" and p: "InBounds w p" and r: "0 < r" "r \<le> 128"
    and no: "\<forall>c \<in> snd ` set (claims w). \<not> claim_overlaps p r c"
    and c: "LandID c = k" "Anchor c = p" "Radius c = r" "MaintenanceStage c = 0"
  shows "gov_keeps w (w\<lparr>claims := mput k c (claims w)\<rparr>)"
proof (clarsimp simp only: gov_keeps_def)
  assume inv: "land_inv w"
  then have ok: "claims_ok (claims w)" and near: "near_origin p"
    using InBounds_near[OF p] by (auto simp: land_inv_def)
  have cl: "claim_ok c" using c r near by (simp add: claim_ok_def)
  have "apart c d" if "(j, d) \<in> set (claims w)" for j d
  proof -
    have "claim_ok d" using claims_okD(3)[OF ok that] .
    moreover have "\<not> claim_overlaps p r d" using no that by force
    ultimately show ?thesis using near_apart[OF near, of d r] r c by (auto simp: claim_overlaps_def apart_def not_le)
  qed
  then have "claims_ok (mput k c (claims w))" by (intro claims_ok_mput ok cl c) auto
  then show "land_inv (w\<lparr>claims := mput k c (claims w)\<rparr>) \<and> law_descent w (w\<lparr>claims := mput k c (claims w)\<rparr>)"
    using inv lid c by (auto simp: land_inv_def law_descent_def gomap stage_ok_def split: if_splits)
qed

lemma claim_land_keeps: "gov_keeps w (HandleTaskClaimLand fl aid tr now w)"
proof -
  have "gov_keeps w (w'\<lparr>claims := mput lid (new_claim lid aid p r now wc) (claims w')\<rparr>)"
    if "newLandID aid (auditSetBlock now aid p x y rs (SetBlock p t (upd_agent aid f w))) = (lid, w')"
      and p: "InBounds w p" and r: "0 < r" "r \<le> 128" and no: "\<forall>c \<in> snd ` set (claims w). \<not> claim_overlaps p r c"
    for lid w' p r wc x y rs t f
  proof -
    have s: "same_land w w'" and k: "lid \<noteq> []"
      using DefaultClaim_land[OF that(1)] by (meson same_land_trans same_land_ops)+
    then have "InBounds w' p" using p unfolding same_land_def InBounds_def by metis
    with s k r no show ?thesis
      by (intro gov_keeps_trans[OF same_land_keeps[OF s] file_claim_keeps[where p = p and r = r]])
        (auto simp: same_land_def new_claim_def Let_def)
  qed
  then show ?thesis
    unfolding HandleTaskClaimLand_def Let_def
    by (auto intro!: gov_keeps_then_ops split: option.split prod.split)
qed

lemma remove_claim_keeps: "gov_keeps w (removeClaimByAnchor now actor p rs w)"
proof -
  have "gov_keeps w (w\<lparr>claims := mdel k (claims w), laws := filter (\<lambda>(j, l). LLandID l \<noteq> k) (laws w)\<rparr>)" (is "gov_keeps w ?w'") for k
  proof (clarsimp simp only: gov_keeps_def)
    assume inv: "land_inv w"
    then have wf: "wf_map (laws w)" by (simp add: land_inv_def)
    then have wf': "wf_map (laws ?w')" by (simp add: wf_map_def distinct_map_filter)
    have "map_of (laws ?w') j = Some l \<longleftrightarrow> map_of (laws w) j = Some l \<and> LLandID l \<noteq> k" for j l
      using wf wf' by (auto simp: wf_map_def)
    then show "land_inv ?w' \<and> law_descent w ?w'"
      using inv wf' claims_ok_mdel[of "claims w" k] by (auto simp: land_inv_def law_descent_def gomap)
  qed
  then show ?thesis
    unfolding removeClaimByAnchor_def Let_def by (auto intro!: gov_keeps_then_ops)
qed

lemma gov_keeps_fold: "(\<And>k v. gov_keeps v (f k v)) \<Longrightarrow> gov_keeps w (fold f ks w)"
  by (induction ks arbitrary: w) (auto intro: gov_keeps_trans)

lemma NextStage_ok: "0 \<le> s \<Longrightarrow> s \<le> 2 \<Longrightarrow> 0 \<le> NextStage s paid \<and> NextStage s paid \<le> 2"
  by (auto simp: NextStage_def i64_small)

lemma maintain_claim_keeps: "gov_keeps w (maintain_claim now lid w)"
proof (cases "map_of (claims w) lid")
  case None
  then show ?thesis by (simp add: maintain_claim_def)
next
  case (Some c)
  obtain paid w' where p: "PayMaintenance c w = (paid, w')" by fastforce
  then have s: "same_land w w'" using PayMaintenance_land[of w c] by simp
  then have "map_of (claims w') lid = Some c" using Some by (simp add: same_land_def)
  then have "gov_keeps w (upd_claim lid (\<lambda>_. c\<lparr>MaintenanceStage := NextStage (MaintenanceStage c) paid,
      MaintenanceDueTick := due\<rparr>) w')" for due
    by (intro gov_keeps_trans[OF same_land_keeps[OF s] same_ground_keeps])
      (auto simp: same_ground_def stage_ok_def NextStage_ok)
  moreover have "gov_keeps w (upd_claim lid (\<lambda>c. c\<lparr>MaintenanceDueTick := NextDue now (MaintenanceDueTick c) d\<rparr>) w)" for d
    by (rule same_ground_keeps) (simp add: same_ground_def stage_ok_def)
  ultimately show ?thesis
    by (auto simp: maintain_claim_def Some p Let_def intro!: gov_keeps_then_ops)
qed

lemma maintenance_keeps: "gov_keeps w (TickClaimsMaintenance now w)"
  unfolding TickClaimsMaintenance_def by (auto intro: gov_keeps_fold maintain_claim_keeps)

section \<open>Laws\<close>

lemma law_update_keeps:
  assumes "map_of (laws w) lid = Some l" and "law_next l l'"
  shows "gov_keeps w (upd_law lid (\<lambda>_. l') w)"
proof -
  have f: "LLandID l' = LLandID l" using assms(2) by cases simp_all
  show ?thesis
    using assms f by (auto simp: gov_keeps_def land_inv_def law_descent_def upd_law_def gomap split: if_splits)
qed

lemma file_law_keeps:
  assumes room: "nextLawNum w < nextLawNum w + 1" and "map_of (claims w) (LLandID l) \<noteq> None"
  shows "gov_keeps w (w\<lparr>nextLawNum := nextLawNum w + 1, laws := mput (law_id (nextLawNum w + 1)) l (laws w)\<rparr>)"
proof -
  have "law_id n \<noteq> law_id (nextLawNum w + 1)" if "n \<le> nextLawNum w" for n
    using that room by (auto dest!: law_id_inj)
  moreover have "\<exists>n \<le> nextLawNum w + 1. k = law_id n" if "\<exists>n \<le> nextLawNum w. k = law_id n" for k
    using that order_trans[OF _ less_imp_le[OF room]] by blast
  ultimately show ?thesis
    using assms by (auto simp: gov_keeps_def land_inv_def law_descent_def gomap less_imp_le split: if_splits)
qed

lemma propose_keeps:
  assumes room: "nextLawNum w < nextLawNum w + 1"
  shows "gov_keeps w (HandleProposeLaw fl aid inst now w)"
proof -
  have nl: "newLawID w = (law_id (nextLawNum w + 1), w\<lparr>nextLawNum := nextLawNum w + 1\<rparr>)"
    by (simp add: newLawID_def law_id_def Let_def)
  have "gov_keeps w (w\<lparr>nextLawNum := nextLawNum w + 1, laws := mput (law_id (nextLawNum w + 1))
      (new_law (law_id (nextLawNum w + 1)) aid land inst title params now wc) (laws w)\<rparr>)"
    if "map_of (claims w) (InstLandID inst) = Some land" for land title params wc
  proof (cases "LandID land = InstLandID inst")
    case True
    then show ?thesis using that by (intro file_law_keeps[OF room]) (simp add: new_law_def split: prod.split)
  next
    case False
    then have "\<not> land_inv w" using that claims_okD(2)[of "claims w"] by (auto simp: land_inv_def claims_ok_map_of)
    then show ?thesis by (simp add: gov_keeps_def)
  qed
  then show ?thesis
    unfolding HandleProposeLaw_def Let_def
    by (auto simp: nl intro!: gov_keeps_then_ops split: option.split sum.split law_error.split)
qed

lemma vote_keeps: "gov_keeps w (HandleVoteLaw fl aid inst now w)"
proof -
  have "gov_keeps w (upd_law (InstLawID inst) (\<lambda>l. l\<lparr>Votes := mput aid choice (Votes l)\<rparr>) w)"
    if "map_of (laws w) (InstLawID inst) = Some l" "LStatus l = StatusVoting" for l choice
    using law_update_keeps[OF that(1) law_next.ballot[OF that(2)], of aid choice] that(1) by (simp add: upd_law_def)
  then show ?thesis
    unfolding HandleVoteLaw_def Let_def by (auto intro!: gov_keeps_then_ops split: option.split)
qed

lemma ApplyLawTemplate_ground: "ApplyLawTemplate fl t ps c = Inr d \<Longrightarrow> same_ground c d"
  by (auto simp: ApplyLawTemplate_def same_ground_def stage_ok_def Let_def
      split: if_splits option.splits sum.splits prod.splits)

lemma law_upd_land: "laws (upd_claim lid f w) = laws w"
  by (simp add: upd_claim_def split: option.split)

lemma tick_law_keeps: "gov_keeps w (tick_law fl now lid w)"
proof (cases "map_of (laws w) lid")
  case None
  then show ?thesis by (simp add: tick_law_def)
next
  case l: (Some l)
  note upd = law_update_keeps[OF l]
  have act: "gov_keeps w (upd_law lid (\<lambda>_. l\<lparr>LStatus := StatusActive\<rparr>) (upd_claim (LLandID l) (\<lambda>_. land) w))"
    if v: "LStatus l = StatusVoting" and a: "ApplyTemplateToLand fl l (map_of (claims w) (LLandID l)) = Inr land" for land
  proof -
    obtain c where c: "map_of (claims w) (LLandID l) = Some c" "ApplyLawTemplate fl (TemplateID l) (Params l) c = Inr land"
      using a by (auto simp: ApplyTemplateToLand_def split: option.splits)
    have "gov_keeps w (upd_claim (LLandID l) (\<lambda>_. land) w)"
      by (rule same_ground_keeps) (use c ApplyLawTemplate_ground in auto)
    moreover have "map_of (laws (upd_claim (LLandID l) (\<lambda>_. land) w)) lid = Some l" by (simp add: law_upd_land l)
    ultimately show ?thesis by (blast intro: gov_keeps_trans law_update_keeps law_next.enact v)
  qed
  show ?thesis
  proof (cases "LStatus l")
    case StatusNotice
    then show ?thesis using upd[OF law_next.open_vote]
      by (auto simp: tick_law_def l NextTransition_def Let_def intro!: gov_keeps_then_ops)
  next
    case v: StatusVoting
    show ?thesis using upd[OF law_next.dismiss[OF v]] act[OF v]
      by (auto simp: tick_law_def l v NextTransition_def Let_def intro!: gov_keeps_then_ops split: prod.split sum.split)
  qed (simp_all add: tick_law_def l NextTransition_def)
qed

lemma tickLaws_keeps: "gov_keeps w (tickLaws fl now w)"
  unfolding tickLaws_def by (intro gov_keeps_fold tick_law_keeps)

section \<open>The governance of a world over time\<close>

text \<open>One step: a land task, a claim or law instant, a removed totem, or one of the two ticks.\<close>

inductive gov_step :: "go_floats \<Rightarrow> world \<Rightarrow> world \<Rightarrow> bool" for fl :: go_floats where
  claim_land: "gov_step fl w (HandleTaskClaimLand fl aid tr now w)"
| set_permissions: "gov_step fl w (HandleSetPermissions aid inst now w)"
| upgrade: "gov_step fl w (HandleUpgradeClaim aid inst now w)"
| add_member: "gov_step fl w (HandleAddMember aid inst now w)"
| remove_member: "gov_step fl w (HandleRemoveMember aid inst now w)"
| deed: "gov_step fl w (HandleDeedLand aid inst now w)"
| demolish: "gov_step fl w (removeClaimByAnchor now actor p reason w)"
| maintain: "gov_step fl w (TickClaimsMaintenance now w)"
| propose: "nextLawNum w < nextLawNum w + 1 \<Longrightarrow> gov_step fl w (HandleProposeLaw fl aid inst now w)"
| vote: "gov_step fl w (HandleVoteLaw fl aid inst now w)"
| law_tick: "gov_step fl w (tickLaws fl now w)"

lemma gov_step_keeps: "gov_step fl w w' \<Longrightarrow> gov_keeps w w'"
  by (induction rule: gov_step.induct)
    (intro claim_land_keeps flag_instants_keep upgrade_keeps remove_claim_keeps maintenance_keeps propose_keeps
      vote_keeps tickLaws_keeps; assumption)+

lemma gov_steps_keep: "(gov_step fl)\<^sup>*\<^sup>* w w' \<Longrightarrow> gov_keeps w w'"
  by (induction rule: rtranclp_induct) (auto intro: gov_keeps_trans gov_step_keeps)

text \<open>
  C10. Land stays undisputed.  However claims are made, enlarged, deeded, taxed by laws, downgraded and
  removed, at every position there is at most one claim, every claim has a maintenance stage between 0 and 2,
  and every law belongs to an existing claim.
\<close>

theorem land_undisputed:
  assumes "(gov_step fl)\<^sup>*\<^sup>* w w'" and "land_inv w"
  shows "(\<forall>pos j c k d. near_origin pos \<longrightarrow> map_of (claims w') j = Some c \<longrightarrow> map_of (claims w') k = Some d \<longrightarrow>
       claim_contains c pos \<longrightarrow> claim_contains d pos \<longrightarrow> j = k) \<and>
    (\<forall>k c. map_of (claims w') k = Some c \<longrightarrow> 0 \<le> MaintenanceStage c \<and> MaintenanceStage c \<le> 2) \<and>
    (\<forall>k l. map_of (laws w') k = Some l \<longrightarrow> map_of (claims w') (LLandID l) \<noteq> None)"
proof -
  have inv: "land_inv w'" using gov_steps_keep[OF assms(1)] assms(2) by (simp add: gov_keeps_def)
  then have ok: "claims_ok (claims w')" by (simp add: land_inv_def)
  have "j = k" if "near_origin pos" "(j, c) \<in> set (claims w')" "(k, d) \<in> set (claims w')"
    "claim_contains c pos" "claim_contains d pos" for pos j c k d
    using contains_unique[OF ok that(1,2,4,3,5)] claims_okD(2)[OF ok] that by metis
  then show ?thesis using inv ok by (auto simp: land_inv_def stage_ok_def claims_ok_map_of)
qed

lemma law_next_text: "law_next l l' \<Longrightarrow> l'\<lparr>LStatus := StatusNotice, Votes := []\<rparr> = l\<lparr>LStatus := StatusNotice, Votes := []\<rparr>"
  by (induction rule: law_next.induct) simp_all

lemma law_next_status:
  "law_next l l' \<Longrightarrow> LStatus l \<noteq> StatusActive \<and> LStatus l \<noteq> StatusRejected \<and> LStatus l' \<noteq> StatusNotice"
  by (induction rule: law_next.induct) simp_all

lemma law_path:
  assumes "law_next\<^sup>*\<^sup>* l l'"
  shows "l' = l\<lparr>LStatus := LStatus l', Votes := Votes l'\<rparr> \<and>
    (LStatus l = StatusActive \<or> LStatus l = StatusRejected \<longrightarrow> l' = l) \<and>
    (LStatus l' = StatusNotice \<longrightarrow> l' = l)"
proof (intro conjI impI)
  have "l'\<lparr>LStatus := StatusNotice, Votes := []\<rparr> = l\<lparr>LStatus := StatusNotice, Votes := []\<rparr>"
    using assms by (induction rule: rtranclp_induct) (simp_all add: law_next_text)
  then have "(l'\<lparr>LStatus := StatusNotice, Votes := []\<rparr>)\<lparr>LStatus := LStatus l', Votes := Votes l'\<rparr> =
      (l\<lparr>LStatus := StatusNotice, Votes := []\<rparr>)\<lparr>LStatus := LStatus l', Votes := Votes l'\<rparr>" by simp
  then show "l' = l\<lparr>LStatus := LStatus l', Votes := Votes l'\<rparr>" by simp
  show "l' = l" if "LStatus l = StatusActive \<or> LStatus l = StatusRejected"
    using assms that by (cases rule: converse_rtranclpE) (auto dest: law_next_status)
  show "l' = l" if "LStatus l' = StatusNotice"
    using assms that by (cases rule: rtranclp.cases) (auto dest: law_next_status)
qed

lemma law_lifecycle_path:
  assumes "(gov_step fl)\<^sup>*\<^sup>* w w'" and "land_inv w"
    and "map_of (laws w) k = Some l" and "map_of (laws w') k = Some l'"
  shows "l' = l\<lparr>LStatus := LStatus l', Votes := Votes l'\<rparr> \<and>
    (LStatus l = StatusActive \<or> LStatus l = StatusRejected \<longrightarrow> l' = l) \<and>
    (LStatus l' = StatusNotice \<longrightarrow> l' = l)"
proof (rule law_path)
  obtain n where "n \<le> nextLawNum w" "k = law_id n" using assms(2,3) unfolding land_inv_def by blast
  then show "law_next\<^sup>*\<^sup>* l l'"
    using gov_steps_keep[OF assms(1)] assms by (auto simp: gov_keeps_def law_descent_def)
qed

text \<open>
  C12. The life of a law: under any sequence of governance steps a law keeps its text, land, proposer and
  deadlines; only its status and its votes change.  A decided law (active or rejected) never changes again,
  and a law still in notice has not changed at all, so nobody votes before the vote is open.
\<close>

theorem law_lifecycle:
  assumes "(gov_step fl)\<^sup>*\<^sup>* w w'" and "land_inv w"
    and "map_of (laws w) k = Some l" and "map_of (laws w') k = Some l'"
  shows "l' = l\<lparr>LStatus := LStatus l', Votes := Votes l'\<rparr> \<and>
    (LStatus l = StatusActive \<or> LStatus l = StatusRejected \<longrightarrow> l' = l) \<and>
    (LStatus l' = StatusNotice \<longrightarrow> l' = l)"
  by (rule law_lifecycle_path[OF assms])

section \<open>Deciding laws\<close>

definition decided :: "law \<Rightarrow> bool" where
  "decided l \<longleftrightarrow> LStatus l = StatusActive \<or> LStatus l = StatusRejected"

text \<open>What the tick makes of one law.\<close>

definition law_ticked :: "u64 \<Rightarrow> law \<Rightarrow> law \<Rightarrow> bool" where
  "law_ticked now l l' \<longleftrightarrow>
     (LStatus l = StatusNotice \<longrightarrow> LStatus l' = (if NoticeEndsTick l \<le> now then StatusVoting else StatusNotice)) \<and>
     (LStatus l = StatusVoting \<longrightarrow> (if VoteEndsTick l \<le> now then decided l' else l' = l)) \<and>
     (decided l \<longrightarrow> l' = l)"

lemma laws_hooks [simp]:
  "laws (broadcastLawEvent now kd l m w) = laws w"
  "laws (on_activated fl now l y n w) = laws w" "laws (on_rejected now l y n r e w) = laws w"
  using same_land_broadcast[of w now kd l m] same_land_hooks(3)[of w fl now l y n] same_land_hooks(4)[of w now l y n r e]
  by (simp_all add: same_land_def)

lemma laws_upd_law [gomap]:
  "map_of (laws (upd_law lid f w)) j = (if j = lid then map_option f (map_of (laws w) lid) else map_of (laws w) j)"
  by (auto simp: upd_law_def gomap split: option.split)

lemma tick_law_other: "j \<noteq> lid \<Longrightarrow> map_of (laws (tick_law fl now lid w)) j = map_of (laws w) j"
  by (auto simp: tick_law_def Let_def gomap law_upd_land split: option.split prod.split sum.split)

lemma tick_law_same:
  assumes "map_of (laws w) lid = Some l"
  shows "\<exists>l'. map_of (laws (tick_law fl now lid w)) lid = Some l' \<and> law_ticked now l l'"
proof (cases "LStatus l")
  case StatusNotice
  then show ?thesis
    by (auto simp: tick_law_def assms NextTransition_def Let_def gomap law_ticked_def decided_def)
next
  case StatusVoting
  then show ?thesis
    by (auto simp: tick_law_def assms NextTransition_def Let_def gomap law_ticked_def decided_def law_upd_land
        split: prod.split sum.split)
qed (simp_all add: tick_law_def assms NextTransition_def law_ticked_def decided_def)

lemma fold_tick_other: "k \<notin> set ks \<Longrightarrow> map_of (laws (fold (tick_law fl now) ks w)) k = map_of (laws w) k"
  by (induction ks arbitrary: w) (auto simp: tick_law_other)

lemma tickLaws_each:
  assumes "wf_map (laws w)" and "map_of (laws w) k = Some l"
  shows "\<exists>l'. map_of (laws (tickLaws fl now w)) k = Some l' \<and> law_ticked now l l'"
proof -
  have "\<exists>l'. map_of (laws (fold (tick_law fl now) ks w)) k = Some l' \<and> law_ticked now l l'"
    if "distinct ks" "k \<in> set ks" "map_of (laws w) k = Some l" for ks and w :: world
    using that
  proof (induction ks arbitrary: w)
    case (Cons j ks)
    show ?case
    proof (cases "j = k")
      case True
      then show ?thesis using Cons.prems tick_law_same[OF Cons.prems(3)] by (auto simp: fold_tick_other)
    next
      case False
      then show ?thesis using Cons.prems Cons.IH[of "tick_law fl now j w"] by (auto simp: tick_law_other)
    qed
  qed simp
  moreover have "k \<in> set (sorted_keys (laws w))" using assms(2) by (force dest: map_of_SomeD)
  ultimately show ?thesis using assms unfolding tickLaws_def by simp
qed

text \<open>
  C11. Every law is decided.  Once the law tick has run after the end of the notice, the next law tick
  after the end of the vote leaves the law active or rejected, whatever happened in between, as long
  as its land was not removed.
\<close>

theorem law_gets_decided:
  assumes "land_inv w" and "map_of (laws w) k = Some l" and "NoticeEndsTick l \<le> t1" and "VoteEndsTick l \<le> t2"
    and "(gov_step fl)\<^sup>*\<^sup>* (tickLaws fl t1 w) w2" and "map_of (laws w2) k = Some l2"
  shows "\<exists>l3. map_of (laws (tickLaws fl t2 w2)) k = Some l3 \<and>
    (LStatus l3 = StatusActive \<or> LStatus l3 = StatusRejected)"
proof -
  have inv1: "land_inv (tickLaws fl t1 w)" using tickLaws_keeps assms(1) by (simp add: gov_keeps_def)
  have inv2: "land_inv w2" using gov_steps_keep[OF assms(5)] inv1 by (simp add: gov_keeps_def)
  have wf: "wf_map (laws w)" "wf_map (laws w2)" using assms(1) inv2 by (simp_all add: land_inv_def)
  obtain l1 where l1: "map_of (laws (tickLaws fl t1 w)) k = Some l1" "law_ticked t1 l l1"
    using tickLaws_each[OF wf(1) assms(2)] by blast
  have "(gov_step fl)\<^sup>*\<^sup>* w w2" using gov_step.law_tick assms(5) by (rule converse_rtranclp_into_rtranclp)
  then have "l2 = l\<lparr>LStatus := LStatus l2, Votes := Votes l2\<rparr>"
    using law_lifecycle_path assms by blast
  then have v: "VoteEndsTick l2 \<le> t2" using assms(4) by (metis law.surjective law.update_convs law.select_convs)
  have "LStatus l1 \<noteq> StatusNotice"
    using l1(2) assms(3) by (cases "LStatus l") (auto simp: law_ticked_def decided_def split: if_splits)
  then have "LStatus l2 \<noteq> StatusNotice" using law_lifecycle_path[OF assms(5) inv1 l1(1) assms(6)] by metis
  moreover obtain l3 where "map_of (laws (tickLaws fl t2 w2)) k = Some l3" "law_ticked t2 l2 l3"
    using tickLaws_each[OF wf(2) assms(6)] by blast
  ultimately show ?thesis using v by (cases "LStatus l2") (auto simp: law_ticked_def decided_def)
qed

lemma claims_hooks [simp]:
  "claims (broadcastLawEvent now kd l m w) = claims w"
  "claims (on_activated fl now l y n w) = claims w" "claims (on_rejected now l y n r e w) = claims w"
  using same_land_broadcast[of w now kd l m] same_land_hooks(3)[of w fl now l y n] same_land_hooks(4)[of w now l y n r e]
  by (simp_all add: same_land_def)

lemma claims_upd_law [simp]: "claims (upd_law lid f w) = claims w"
  by (simp add: upd_law_def split: option.split)

lemma tick_law_elsewhere:
  assumes "\<forall>l. map_of (laws w) j = Some l \<longrightarrow> LStatus l \<noteq> StatusVoting \<or> LLandID l \<noteq> lid"
  shows "map_of (claims (tick_law fl now j w)) lid = map_of (claims w) lid"
proof (cases "map_of (laws w) j")
  case (Some l)
  then show ?thesis
    using assms by (cases "LStatus l")
      (auto simp: tick_law_def NextTransition_def Let_def upd_claim_def map_of_mput split: option.split prod.split sum.split)
qed (simp add: tick_law_def)

lemma fold_tick_elsewhere:
  assumes "distinct ks" "\<forall>j \<in> set ks. \<forall>l. map_of (laws w) j = Some l \<longrightarrow> LStatus l \<noteq> StatusVoting \<or> LLandID l \<noteq> lid"
  shows "map_of (claims (fold (tick_law fl now) ks w)) lid = map_of (claims w) lid"
  using assms
proof (induction ks arbitrary: w)
  case (Cons j ks)
  have other: "map_of (laws (tick_law fl now j w)) i = map_of (laws w) i" if "i \<in> set ks" for i
    using that Cons.prems(1) by (intro tick_law_other) auto
  have "map_of (claims (fold (tick_law fl now) ks (tick_law fl now j w))) lid = map_of (claims (tick_law fl now j w)) lid"
    using Cons.prems by (intro Cons.IH) (auto simp: other)
  also have "\<dots> = map_of (claims w) lid" using Cons.prems(2) by (intro tick_law_elsewhere) simp
  finally show ?case by simp
qed simp

text \<open>The vote that ends on its own: the templates read by the code decide, and write the claim.\<close>

lemma vote_ends:
  assumes "map_of (laws w) k = Some l" and "LStatus l = StatusVoting" and "VoteEndsTick l \<le> now"
    and "map_of (claims w) (LLandID l) = Some c"
  shows "map_of (laws (tick_law fl now k w)) k = Some (l\<lparr>LStatus :=
      (if snd (CountVotes (Votes l)) < fst (CountVotes (Votes l)) \<and> (\<exists>d. ApplyLawTemplate fl (TemplateID l) (Params l) c = Inr d)
       then StatusActive else StatusRejected)\<rparr>) \<and>
    map_of (claims (tick_law fl now k w)) (LLandID l) = Some
      (if snd (CountVotes (Votes l)) < fst (CountVotes (Votes l))
       then (case ApplyLawTemplate fl (TemplateID l) (Params l) c of Inl _ \<Rightarrow> c | Inr d \<Rightarrow> d) else c)"
  by (auto simp: tick_law_def assms NextTransition_def Let_def gomap law_upd_land VotePassed_def ApplyTemplateToLand_def
      upd_claim_def case_prod_beta split: sum.split)

text \<open>
  What a law orders for its land, template by template: the tax is at most a quarter; a curfew covers a part of the
  day between 0 and 1, and an empty one is none; fines and tickets are at most 100 and 64 pieces, and none when
  nothing is to be paid.
\<close>

definition pays :: "law \<Rightarrow> string \<Rightarrow> string \<Rightarrow> string \<Rightarrow> int \<Rightarrow> bool" where
  "pays l item_key count_key item n \<longleftrightarrow>
     (\<exists>s e. map_of (Params l) item_key = Some s \<and> item = trim_space s \<and> item \<noteq> [] \<and>
        map_of (Params l) count_key = Some e \<and> trim_space e \<noteq> [] \<and> Atoi (trim_space e) = Some n)"

definition law_orders :: "go_floats \<Rightarrow> law \<Rightarrow> land_claim \<Rightarrow> land_claim \<Rightarrow> bool" where
  "law_orders fl l c d \<longleftrightarrow>
     (\<exists>s f. TemplateID l = ''MARKET_TAX'' \<and> map_of (Params l) ''market_tax'' = Some s \<and> s \<noteq> [] \<and> parse_float fl s = Inr f \<and>
        d = c\<lparr>MarketTax := max 0 (min (1 / 4) f)\<rparr>) \<or>
     (\<exists>s e f g. TemplateID l = ''CURFEW_NO_BUILD'' \<and> map_of (Params l) ''start_time'' = Some s \<and> s \<noteq> [] \<and>
        map_of (Params l) ''end_time'' = Some e \<and> e \<noteq> [] \<and> parse_float fl s = Inr f \<and> parse_float fl e = Inr g \<and>
        (let x = max 0 (min 1 f); y = max 0 (min 1 g)
         in d = (if x = y then c\<lparr>CurfewEnabled := False, CurfewStart := 0, CurfewEnd := 0\<rparr>
                 else c\<lparr>CurfewEnabled := True, CurfewStart := x, CurfewEnd := y\<rparr>))) \<or>
     (\<exists>item n. TemplateID l = ''FINE_BREAK_PER_BLOCK'' \<and> pays l ''fine_item'' ''fine_per_block'' item n \<and>
        d = (if n \<le> 0 then c\<lparr>FineBreakEnabled := False, FineBreakItem := [], FineBreakPerBlock := 0\<rparr>
             else c\<lparr>FineBreakEnabled := True, FineBreakItem := item, FineBreakPerBlock := min 100 n\<rparr>)) \<or>
     (\<exists>item n. TemplateID l = ''ACCESS_PASS_CORE'' \<and> pays l ''ticket_item'' ''ticket_cost'' item n \<and>
        d = (if n \<le> 0 then c\<lparr>AccessPassEnabled := False, AccessTicketItem := [], AccessTicketCost := 0\<rparr>
             else c\<lparr>AccessPassEnabled := True, AccessTicketItem := item, AccessTicketCost := min 64 n\<rparr>))"

lemma clamps: "clampr lo hi f = min hi (max lo f)" "clampi a b n = min b (max a n)"
  by (auto simp: clampr_def clampi_def Let_def)

lemma clampr_between: "lo \<le> hi \<Longrightarrow> clampr lo hi f = max lo (min hi f)"
  by (auto simp: clampr_def Let_def)

lemma pays_unique: "pays l k1 k2 i n \<Longrightarrow> pays l k1 k2 j m \<longleftrightarrow> j = i \<and> m = n"
  by (auto simp: pays_def)

lemma item_template_pays:
  assumes "0 < b" and "pays l k1 k2 item n"
  shows "item_template (Params l) k1 k2 b = Inr (if n \<le> 0 then None else Some (item, min b n))"
proof -
  obtain s e where k: "map_of (Params l) k1 = Some s" "item = trim_space s" "item \<noteq> []" "map_of (Params l) k2 = Some e"
    "trim_space e \<noteq> []" "Atoi (trim_space e) = Some n" using assms(2) unfolding pays_def by blast
  then show ?thesis using assms(1) by (simp add: item_template_def pget_def Let_def clamps min_def max_def)
qed

lemma item_template_fails:
  assumes "\<nexists>item n. pays l k1 k2 item n"
  shows "\<exists>e. item_template (Params l) k1 k2 b = Inl e"
proof (cases "map_of (Params l) k1 = None \<or> map_of (Params l) k2 = None")
  case True
  then show ?thesis by (auto simp: item_template_def pget_def Let_def)
next
  case False
  then obtain s e where k: "map_of (Params l) k1 = Some s" "map_of (Params l) k2 = Some e" by auto
  with assms have "trim_space s = [] \<or> trim_space e = [] \<or> Atoi (trim_space e) = None" unfolding pays_def by auto
  then show ?thesis by (auto simp: item_template_def pget_def Let_def k)
qed

lemma ApplyLawTemplate_orders: "ApplyLawTemplate fl (TemplateID l) (Params l) c = Inr d \<longleftrightarrow> law_orders fl l c d"
proof -
  consider "TemplateID l = ''MARKET_TAX''" | "TemplateID l = ''CURFEW_NO_BUILD''" | "TemplateID l = ''FINE_BREAK_PER_BLOCK''"
    | "TemplateID l = ''ACCESS_PASS_CORE''"
    | "TemplateID l \<notin> {''MARKET_TAX'', ''CURFEW_NO_BUILD'', ''FINE_BREAK_PER_BLOCK'', ''ACCESS_PASS_CORE''}" by blast
  then show ?thesis
  proof cases
    case 1
    then show ?thesis
      by (cases "map_of (Params l) ''market_tax''")
         (auto simp: ApplyLawTemplate_def law_orders_def pget_def Let_def clampr_between split: sum.splits)
  next
    case 2
    show ?thesis
    proof (cases "\<exists>s e f g. map_of (Params l) ''start_time'' = Some s \<and> s \<noteq> [] \<and> map_of (Params l) ''end_time'' = Some e \<and> e \<noteq> [] \<and>
        parse_float fl s = Inr f \<and> parse_float fl e = Inr g")
      case True
      then obtain s e f g where k: "map_of (Params l) ''start_time'' = Some s" "s \<noteq> []" "map_of (Params l) ''end_time'' = Some e"
        "e \<noteq> []" "parse_float fl s = Inr f" "parse_float fl e = Inr g" by blast
      let ?x = "max 0 (min 1 f)" and ?y = "max 0 (min 1 g)"
      have "ApplyLawTemplate fl (TemplateID l) (Params l) c = Inr (if ?x = ?y
          then c\<lparr>CurfewEnabled := False, CurfewStart := 0, CurfewEnd := 0\<rparr>
          else c\<lparr>CurfewEnabled := True, CurfewStart := ?x, CurfewEnd := ?y\<rparr>)"
        by (simp add: ApplyLawTemplate_def 2 pget_def k Let_def clampr_between)
      moreover have "law_orders fl l c d \<longleftrightarrow> d = (if ?x = ?y
          then c\<lparr>CurfewEnabled := False, CurfewStart := 0, CurfewEnd := 0\<rparr>
          else c\<lparr>CurfewEnabled := True, CurfewStart := ?x, CurfewEnd := ?y\<rparr>)"
        by (simp add: law_orders_def 2 k Let_def)
      ultimately show ?thesis by (simp only: sum.inject eq_commute)
    next
      case False
      then have "\<not> law_orders fl l c d" unfolding law_orders_def 2 by auto
      moreover from False have "ApplyLawTemplate fl (TemplateID l) (Params l) c \<noteq> Inr d"
        by (auto simp: ApplyLawTemplate_def 2 pget_def Let_def split: option.splits sum.splits if_splits)
      ultimately show ?thesis by blast
    qed
  next
    case 3
    show ?thesis
    proof (cases "\<exists>item n. pays l ''fine_item'' ''fine_per_block'' item n")
      case True
      then obtain item n where k: "pays l ''fine_item'' ''fine_per_block'' item n" by blast
      have "ApplyLawTemplate fl (TemplateID l) (Params l) c = Inr (if n \<le> 0 then c\<lparr>FineBreakEnabled := False, FineBreakItem := [], FineBreakPerBlock := 0\<rparr> else c\<lparr>FineBreakEnabled := True, FineBreakItem := item, FineBreakPerBlock := min 100 n\<rparr>)"
        by (simp add: ApplyLawTemplate_def 3 item_template_pays[OF _ k])
      moreover have "law_orders fl l c d \<longleftrightarrow> d = (if n \<le> 0 then c\<lparr>FineBreakEnabled := False, FineBreakItem := [], FineBreakPerBlock := 0\<rparr> else c\<lparr>FineBreakEnabled := True, FineBreakItem := item, FineBreakPerBlock := min 100 n\<rparr>)"
        by (simp add: law_orders_def 3 pays_unique[OF k])
      ultimately show ?thesis by (simp only: sum.inject eq_commute)
    next
      case False
      then have "\<not> law_orders fl l c d" by (simp add: law_orders_def 3)
      moreover from item_template_fails[OF False, of 100] have "ApplyLawTemplate fl (TemplateID l) (Params l) c \<noteq> Inr d"
        by (auto simp: ApplyLawTemplate_def 3)
      ultimately show ?thesis by blast
    qed
  next
    case 4
    show ?thesis
    proof (cases "\<exists>item n. pays l ''ticket_item'' ''ticket_cost'' item n")
      case True
      then obtain item n where k: "pays l ''ticket_item'' ''ticket_cost'' item n" by blast
      have "ApplyLawTemplate fl (TemplateID l) (Params l) c = Inr (if n \<le> 0 then c\<lparr>AccessPassEnabled := False, AccessTicketItem := [], AccessTicketCost := 0\<rparr> else c\<lparr>AccessPassEnabled := True, AccessTicketItem := item, AccessTicketCost := min 64 n\<rparr>)"
        by (simp add: ApplyLawTemplate_def 4 item_template_pays[OF _ k])
      moreover have "law_orders fl l c d \<longleftrightarrow> d = (if n \<le> 0 then c\<lparr>AccessPassEnabled := False, AccessTicketItem := [], AccessTicketCost := 0\<rparr> else c\<lparr>AccessPassEnabled := True, AccessTicketItem := item, AccessTicketCost := min 64 n\<rparr>)"
        by (simp add: law_orders_def 4 pays_unique[OF k])
      ultimately show ?thesis by (simp only: sum.inject eq_commute)
    next
      case False
      then have "\<not> law_orders fl l c d" by (simp add: law_orders_def 4)
      moreover from item_template_fails[OF False, of 64] have "ApplyLawTemplate fl (TemplateID l) (Params l) c \<noteq> Inr d"
        by (auto simp: ApplyLawTemplate_def 4)
      ultimately show ?thesis by blast
    qed
  next
    case 5
    then show ?thesis by (simp add: ApplyLawTemplate_def law_orders_def)
  qed
qed

text \<open>The votes as they are stored, one per voter.\<close>

definition cast_votes :: "law \<Rightarrow> bool" where
  "cast_votes l \<longleftrightarrow> wf_map (Votes l) \<and> length (Votes l) \<le> 2 ^ 62 \<and> snd ` set (Votes l) \<subseteq> {''YES'', ''NO'', ''ABSTAIN''}"

lemma NormalizeVoteChoice_range: "NormalizeVoteChoice c \<in> {''YES'', ''NO'', ''ABSTAIN'', []}"
  by (simp add: NormalizeVoteChoice_def Let_def)

lemma NormalizeVoteChoice_stored:
  "NormalizeVoteChoice ''YES'' = ''YES''" "NormalizeVoteChoice ''NO'' = ''NO''" "NormalizeVoteChoice ''ABSTAIN'' = ''ABSTAIN''"
proof -
  have t: "trim_space ''YES'' = ''YES''" "trim_space ''NO'' = ''NO''" "trim_space ''ABSTAIN'' = ''ABSTAIN''"
    by (rule trim_space_plain, auto simp: of_char_of take_bit_eq_mod)+
  show "NormalizeVoteChoice ''YES'' = ''YES''" "NormalizeVoteChoice ''NO'' = ''NO''" "NormalizeVoteChoice ''ABSTAIN'' = ''ABSTAIN''"
    by (simp_all add: NormalizeVoteChoice_def t Let_def)
qed

lemma votes_card:
  "wf_map vs \<Longrightarrow> length (filter (\<lambda>(voter, v). v = x) vs) = card {voter. map_of vs voter = Some x}"
proof (induction vs)
  case (Cons p vs)
  obtain k v where p: "p = (k, v)" by (cases p)
  from Cons.prems p have k: "map_of vs k = None" "wf_map vs" by (simp_all add: wf_map_Cons)
  have "{voter. map_of (p # vs) voter = Some x} = (if v = x then insert k {voter. map_of vs voter = Some x} else {voter. map_of vs voter = Some x})"
    using k(1) by (auto simp: p)
  moreover have "finite {voter. map_of vs voter = Some x}"
    by (rule finite_subset[OF _ finite_dom_map_of[of vs]]) auto
  ultimately show ?case using Cons.IH[OF k(2)] k(1) by (simp add: p)
qed simp

lemma CountVotes_voters:
  assumes "cast_votes l"
  shows "CountVotes (Votes l) = (int (card {voter. map_of (Votes l) voter = Some ''YES''}), int (card {voter. map_of (Votes l) voter = Some ''NO''}))"
proof -
  have same: "filter (\<lambda>(voter, v). NormalizeVoteChoice v = x) (Votes l) = filter (\<lambda>(voter, v). v = x) (Votes l)" for x
    using assms by (intro filter_cong refl) (auto simp: cast_votes_def NormalizeVoteChoice_stored)
  show ?thesis using assms by (simp add: CountVotes_counts cast_votes_def same votes_card)
qed

text \<open>
  C15. The tick in which a vote ends: when more voters said yes than no and the law orders something sensible, it
  becomes active and its land is what the law orders; otherwise it is rejected and its land stays as it was.  This is
  the whole law tick, with all the other laws, as long as no other vote on the same land is open.
\<close>

theorem vote_enacts_law:
  assumes "wf_map (laws w)" and "map_of (laws w) k = Some l" and "LStatus l = StatusVoting" and "VoteEndsTick l \<le> now"
    and "map_of (claims w) (LLandID l) = Some c" and "cast_votes l"
    and "\<forall>j l'. map_of (laws w) j = Some l' \<longrightarrow> j \<noteq> k \<longrightarrow> LLandID l' = LLandID l \<longrightarrow> LStatus l' \<noteq> StatusVoting"
  shows "if card {voter. map_of (Votes l) voter = Some ''NO''} < card {voter. map_of (Votes l) voter = Some ''YES''} \<and>
        (\<exists>d. law_orders fl l c d)
    then map_of (laws (tickLaws fl now w)) k = Some (l\<lparr>LStatus := StatusActive\<rparr>) \<and>
         (\<exists>d. law_orders fl l c d \<and> map_of (claims (tickLaws fl now w)) (LLandID l) = Some d)
    else map_of (laws (tickLaws fl now w)) k = Some (l\<lparr>LStatus := StatusRejected\<rparr>) \<and>
         map_of (claims (tickLaws fl now w)) (LLandID l) = Some c"
proof -
  have "k \<in> set (sorted_keys (laws w))" using assms(2) by (force dest: map_of_SomeD)
  then obtain before after where ks: "sorted_keys (laws w) = before @ k # after" by (meson split_list)
  have d: "distinct (before @ k # after)" using assms(1) by (simp flip: ks)
  let ?lid = "LLandID l"
  define u where "u = fold (tick_law fl now) before w"
  define v where "v = tick_law fl now k u"
  have t: "tickLaws fl now w = fold (tick_law fl now) after v" by (simp add: tickLaws_def ks u_def v_def)
  have calm: "LStatus l' \<noteq> StatusVoting \<or> LLandID l' \<noteq> ?lid" if "map_of (laws w) j = Some l'" "j \<noteq> k" for j l'
    using assms(7) that by blast
  have u: "map_of (laws u) k = Some l" "map_of (claims u) ?lid = Some c"
    using d calm by (simp_all add: u_def fold_tick_other assms(2)) (subst fold_tick_elsewhere; use assms(5) in auto)
  have "map_of (laws v) j = map_of (laws w) j" if "j \<in> set after" for j
  proof -
    have "j \<noteq> k" "j \<notin> set before" using that d by auto
    then show ?thesis by (simp add: v_def u_def tick_law_other fold_tick_other)
  qed
  then have "map_of (claims (tickLaws fl now w)) ?lid = map_of (claims v) ?lid"
    unfolding t using d calm by (intro fold_tick_elsewhere) auto
  moreover have "map_of (laws (tickLaws fl now w)) k = map_of (laws v) k" unfolding t using d by (simp add: fold_tick_other)
  moreover note vote_ends[OF u(1) assms(3,4) u(2), of fl, folded v_def, unfolded CountVotes_voters[OF assms(6)] fst_conv snd_conv of_nat_less_iff]
  ultimately show ?thesis
    unfolding ApplyLawTemplate_orders by (auto simp flip: ApplyLawTemplate_orders split: sum.splits)
qed

section \<open>A small dispute\<close>

definition tax_law :: law where
  "tax_law = \<lparr>LawID = ''LAW000001'', LLandID = ''L1'', TemplateID = ''MARKET_TAX'', LTitle = ''Tax'',
     Params = [(''market_tax'', ''0.1'')], ProposedBy = ''A1'', ProposedTick = 5, NoticeEndsTick = 10,
     VoteEndsTick = 20, LStatus = StatusVoting, Votes = [(''A1'', ''YES'')]\<rparr>"

definition law_world :: world where
  "law_world = empty_world\<lparr>claims := [(''L1'', sample_claim ''L1'' ''A1'' 0 32), (''L2'', sample_claim ''L2'' ''A2'' 200 32)],
     laws := [(''LAW000001'', tax_law)], nextLawNum := 1\<rparr>"

lemma law_world_fields [simp]:
  "map_of (claims law_world) k = (if k = ''L1'' then Some (sample_claim ''L1'' ''A1'' 0 32)
     else if k = ''L2'' then Some (sample_claim ''L2'' ''A2'' 200 32) else None)"
  "laws law_world = [(''LAW000001'', tax_law)]" "nextLawNum law_world = 1" "cfg law_world = cfg empty_world"
  by (simp_all add: law_world_def)

lemma law_world_inv: "land_inv law_world"
proof -
  have "claims_ok (claims law_world)"
    by (simp add: law_world_def claims_ok_def wf_map_def claim_ok_def apart_def sample_claim_def near_origin_def)
  moreover have "stage_ok (sample_claim ''L1'' ''A1'' 0 32)" "stage_ok (sample_claim ''L2'' ''A2'' 200 32)"
    by (simp_all add: stage_ok_def sample_claim_def)
  moreover have "\<exists>n \<le> 1. ''LAW000001'' = law_id n" by (intro exI[of _ 1] conjI order_refl) code_simp
  ultimately show ?thesis
    unfolding land_inv_def law_world_fields by (simp add: wf_map_def tax_law_def)
qed

lemma law_world_tick: "tickLaws sample_floats now law_world = tick_law sample_floats now ''LAW000001'' law_world"
  by (simp add: tickLaws_def sorted_keys_def)

theorem vote_enacts_law_witness:
  "map_of (laws (tickLaws sample_floats 20 law_world)) ''LAW000001'' = Some (tax_law\<lparr>LStatus := StatusActive\<rparr>) \<and>
   map_of (claims (tickLaws sample_floats 20 law_world)) ''L1'' = Some ((sample_claim ''L1'' ''A1'' 0 32)\<lparr>MarketTax := 1 / 10\<rparr>)"
proof -
  have o: "law_orders sample_floats tax_law c d \<longleftrightarrow> d = c\<lparr>MarketTax := 1 / 10\<rparr>" for c d
    by (auto simp: law_orders_def tax_law_def sample_floats_def intro: exI[of _ "1 / 10"])
  have v: "{voter. map_of (Votes tax_law) voter = Some ''NO''} = {}" "{voter. map_of (Votes tax_law) voter = Some ''YES''} = {''A1''}"
    by (auto simp: tax_law_def)
  have c: "cast_votes tax_law" by (simp add: cast_votes_def tax_law_def wf_map_def)
  have l: "LStatus tax_law = StatusVoting" "VoteEndsTick tax_law \<le> 20" "LLandID tax_law = ''L1''" by (simp_all add: tax_law_def)
  show ?thesis
    using vote_enacts_law[of law_world "''LAW000001''" tax_law 20 "sample_claim ''L1'' ''A1'' 0 32" sample_floats]
    by (simp add: l c o v wf_map_def)
qed

lemma law_world_ticked:
  "\<exists>l'. map_of (laws (tickLaws sample_floats now law_world)) ''LAW000001'' = Some l' \<and> law_ticked now tax_law l'"
  by (rule tickLaws_each) (simp_all add: wf_map_def)

theorem law_lifecycle_witness:
  "\<exists>l'. map_of (laws (tickLaws sample_floats 20 law_world)) ''LAW000001'' = Some l' \<and> ProposedBy l' = ''A1'' \<and>
     Params l' = [(''market_tax'', ''0.1'')]"
proof -
  obtain l' where l': "map_of (laws (tickLaws sample_floats 20 law_world)) ''LAW000001'' = Some l'"
    using law_world_ticked by blast
  have same: "l' = tax_law\<lparr>LStatus := LStatus l', Votes := Votes l'\<rparr>"
    using law_lifecycle[OF r_into_rtranclp[of "gov_step sample_floats", OF gov_step.law_tick] law_world_inv _ l'] by simp
  have "ProposedBy l' = ''A1''" "Params l' = [(''market_tax'', ''0.1'')]"
    using arg_cong[OF same, of ProposedBy] arg_cong[OF same, of Params] by (simp_all add: tax_law_def)
  with l' show ?thesis by blast
qed

theorem law_gets_decided_witness:
  "\<exists>l3. map_of (laws (tickLaws sample_floats 20 (tickLaws sample_floats 10 law_world))) ''LAW000001'' = Some l3 \<and>
     (LStatus l3 = StatusActive \<or> LStatus l3 = StatusRejected)"
proof -
  obtain l2 where "map_of (laws (tickLaws sample_floats 10 law_world)) ''LAW000001'' = Some l2"
    using law_world_ticked by blast
  then show ?thesis
    using law_gets_decided[OF law_world_inv, of "''LAW000001''" tax_law 10 20 sample_floats] by (simp add: tax_law_def)
qed

lemma law_world_demolished:
  "claims (removeClaimByAnchor 5 ''A2'' \<lparr>vx = 200, vy = 0, vz = 0\<rparr> ''BROKEN'' law_world) = [(''L1'', sample_claim ''L1'' ''A1'' 0 32)]"
  "laws (removeClaimByAnchor 5 ''A2'' \<lparr>vx = 200, vy = 0, vz = 0\<rparr> ''BROKEN'' law_world) = [(''LAW000001'', tax_law)]"
  by (simp_all add: removeClaimByAnchor_def claim_at_anchor_def law_world_def sample_claim_def mdel_def Let_def tax_law_def)

theorem land_undisputed_witness:
  "map_of (claims (removeClaimByAnchor 5 ''A2'' \<lparr>vx = 200, vy = 0, vz = 0\<rparr> ''BROKEN'' law_world)) ''L2'' = None \<and>
   map_of (claims (removeClaimByAnchor 5 ''A2'' \<lparr>vx = 200, vy = 0, vz = 0\<rparr> ''BROKEN'' law_world)) (LLandID tax_law) \<noteq> None"
proof -
  have "(gov_step sample_floats)\<^sup>*\<^sup>* law_world (removeClaimByAnchor 5 ''A2'' \<lparr>vx = 200, vy = 0, vz = 0\<rparr> ''BROKEN'' law_world)"
    by (rule r_into_rtranclp) (rule gov_step.demolish)
  from land_undisputed[OF this law_world_inv] show ?thesis
    unfolding law_world_demolished by simp
qed

end
