(* ===== verification/Grid_Search.thy ===== *)
theory Grid_Search
  imports Kernel_Model
begin

text \<open>
  Searches on the block grid: whether a conveyor is powered (\<open>logic/conveyorpower/logic.go\<close>), what a
  sensor sees (\<open>feature/conveyor/runtime/sensor.go\<close>, \<open>runtime.go\<close>) and the detour of a walking agent
  (\<open>logic/movement/detour.go\<close>).  The lemmas characterise the breadth-first searches by reachability.
\<close>

section \<open>Cells\<close>

definition cell :: "int \<Rightarrow> int \<Rightarrow> int \<Rightarrow> vec3" where
  "cell x y z = \<lparr>vx = x, vy = y, vz = z\<rparr>"

definition shift_cell :: "vec3 \<Rightarrow> vec3 \<Rightarrow> vec3" where
  "shift_cell p d = cell (i64 (vx p + vx d)) (i64 (vy p + vy d)) (i64 (vz p + vz d))"

definition cardinalDirs :: "vec3 list" where
  "cardinalDirs = [cell 1 0 0, cell (- 1) 0 0, cell 0 0 1, cell 0 0 (- 1)]"

section \<open>Conveyor power\<close>

record power_env =
  PBlockName :: "vec3 \<Rightarrow> string"
  SwitchOn :: "vec3 \<Rightarrow> bool"
  PSensorOn :: "vec3 \<Rightarrow> bool"

text \<open>A switch or sensor that is on; the two switch statements of the code are this test.\<close>

definition control_on :: "power_env \<Rightarrow> vec3 \<Rightarrow> bool" where
  "control_on env p =
     (if PBlockName env p = ''SWITCH'' then SwitchOn env p
      else if PBlockName env p = ''SENSOR'' then PSensorOn env p
      else False)"

definition is_control :: "power_env \<Rightarrow> vec3 \<Rightarrow> bool" where
  "is_control env p \<longleftrightarrow> PBlockName env p = ''SWITCH'' \<or> PBlockName env p = ''SENSOR''"

text \<open>The loop over the four neighbours that adds unvisited wires, with its early \<open>break\<close>.\<close>

fun expand_wires :: "power_env \<Rightarrow> int \<Rightarrow> vec3 \<Rightarrow> vec3 list \<Rightarrow> vec3 list \<Rightarrow> vec3 list \<Rightarrow> vec3 list \<times> vec3 list" where
  "expand_wires env maxNodes p [] visited q = (visited, q)"
| "expand_wires env maxNodes p (d # ds) visited q =
     (let np = shift_cell p d
      in if np \<in> set visited then expand_wires env maxNodes p ds visited q
         else if PBlockName env np \<noteq> ''WIRE'' then expand_wires env maxNodes p ds visited q
         else if int (length (np # visited)) > maxNodes then (np # visited, q @ [np])
         else expand_wires env maxNodes p ds (np # visited) (q @ [np]))"

lemma expand_wires_size:
  "expand_wires env m p ds vis q = (vis', q') \<Longrightarrow>
   length vis \<le> length vis' \<and> int (length vis) - int (length q) = int (length vis') - int (length q')"
  by (induction env m p ds vis q rule: expand_wires.induct) (auto simp: Let_def split: if_splits)

text \<open>The search loop; every round takes one wire from the queue.\<close>

function wire_search :: "power_env \<Rightarrow> int \<Rightarrow> vec3 list \<Rightarrow> vec3 list \<Rightarrow> bool" where
  "wire_search env maxNodes visited [] = False"
| "wire_search env maxNodes visited (p # q) =
     (if int (length visited) > maxNodes then False
      else if \<exists>d \<in> set cardinalDirs. control_on env (shift_cell p d) then True
      else
        let vq = expand_wires env maxNodes p cardinalDirs visited q
        in wire_search env maxNodes (fst vq) (snd vq))"
  by pat_completeness auto

termination
proof (relation "measures [\<lambda>(env, m, vis, q). nat (m + 1 - int (length vis)), \<lambda>(env, m, vis, q). length q]")
  fix env :: power_env and m :: int and vis q :: "vec3 list" and p :: vec3 and vq
  assume m: "\<not> m < int (length vis)" and e: "vq = expand_wires env m p cardinalDirs vis q"
  obtain vis' q' where vq: "vq = (vis', q')" by fastforce
  have "length vis \<le> length vis' \<and> int (length vis) - int (length q) = int (length vis') - int (length q')"
    by (rule expand_wires_size) (use e vq in simp)
  then show "((env, m, fst vq, snd vq), env, m, vis, p # q) \<in>
      measures [\<lambda>(env, m, vis, q). nat (m + 1 - int (length vis)), \<lambda>(env, m, vis, q). length q]"
    using m vq by (cases "length vis = length vis'") auto
qed simp

definition wirePoweredBySwitch :: "power_env \<Rightarrow> vec3 list \<Rightarrow> int \<Rightarrow> bool" where
  "wirePoweredBySwitch env starts maxNodes =
     (if starts = [] \<or> maxNodes \<le> 0 then False
      else
        let q = fold (\<lambda>p q. if PBlockName env p \<noteq> ''WIRE'' \<or> p \<in> set q then q else q @ [p]) starts []
        in wire_search env maxNodes q q)"

definition Enabled :: "power_env \<Rightarrow> vec3 \<Rightarrow> int \<Rightarrow> bool" where
  "Enabled env pos maxNodes =
     (let around = map (shift_cell pos) cardinalDirs
      in if \<exists>p \<in> set around. control_on env p then True
         else if \<exists>p \<in> set around. is_control env p then False
         else
           let wireStarts = filter (\<lambda>p. PBlockName env p = ''WIRE'') around
           in if wireStarts \<noteq> [] then wirePoweredBySwitch env wireStarts maxNodes else True)"

section \<open>Sensors\<close>

definition SensorNeighborOffsets :: "vec3 list" where
  "SensorNeighborOffsets = [cell 0 0 0, cell 1 0 0, cell (- 1) 0 0, cell 0 1 0, cell 0 (- 1) 0, cell 0 0 1, cell 0 0 (- 1)]"

record item_entry =
  EntryItem :: string
  EntryCount :: int

definition HasLiveItem :: "string list \<Rightarrow> (string \<Rightarrow> item_entry option) \<Rightarrow> bool" where
  "HasLiveItem ids load \<longleftrightarrow>
     (\<exists>id \<in> set ids. case load id of None \<Rightarrow> False | Some e \<Rightarrow> EntryItem e \<noteq> [] \<and> EntryCount e > 0)"

definition SensorOn :: "vec3 \<Rightarrow> (vec3 \<Rightarrow> string) \<Rightarrow> (vec3 \<Rightarrow> string list) \<Rightarrow> (string \<Rightarrow> item_entry option) \<Rightarrow> (vec3 \<Rightarrow> bool) \<Rightarrow> bool" where
  "SensorOn pos blockNameAt itemIDsAt load containerHasAvailable =
     (if blockNameAt pos \<noteq> ''SENSOR'' then False
      else \<exists>d \<in> set SensorNeighborOffsets.
             HasLiveItem (itemIDsAt (shift_cell pos d)) load \<or> containerHasAvailable (shift_cell pos d))"

section \<open>Detours\<close>

definition distXZ :: "vec3 \<Rightarrow> vec3 \<Rightarrow> int" where
  "distXZ a b = i64 (iabs (i64 (vx a - vx b)) + iabs (i64 (vz a - vz b)))"

definition ground :: "vec3 \<Rightarrow> vec3" where
  "ground p = p\<lparr>vy := 0\<rparr>"

definition step2d :: "vec3 \<Rightarrow> vec3 \<Rightarrow> vec3" where
  "step2d p d = cell (i64 (vx p + vx d)) 0 (i64 (vz p + vz d))"

record q_item =
  QPos :: vec3
  QDepth :: int
  QFirst :: vec3

text \<open>The best candidate so far: distance, depth and first step; the order of \<open>better\<close>.\<close>

type_synonym best = "(int \<times> int \<times> vec3) option"

definition better :: "best \<Rightarrow> int \<Rightarrow> int \<Rightarrow> vec3 \<Rightarrow> bool" where
  "better b d depth first =
     (case b of
        None \<Rightarrow> True
      | Some (bestDist, bestDepth, bestFirst) \<Rightarrow>
          if d \<noteq> bestDist then d < bestDist
          else if depth \<noteq> bestDepth then depth < bestDepth
          else if vx first \<noteq> vx bestFirst then vx first < vx bestFirst
          else vz first < vz bestFirst)"

fun push_steps :: "(vec3 \<Rightarrow> bool) \<Rightarrow> (vec3 \<Rightarrow> bool) \<Rightarrow> q_item \<Rightarrow> vec3 list \<Rightarrow> vec3 list \<Rightarrow> q_item list \<Rightarrow> vec3 list \<times> q_item list" where
  "push_steps inBounds isSolid it [] visited queue = (visited, queue)"
| "push_steps inBounds isSolid it (d # ds) visited queue =
     (let np = step2d (QPos it) d
      in if np \<in> set visited \<or> \<not> inBounds np \<or> isSolid np
         then push_steps inBounds isSolid it ds visited queue
         else push_steps inBounds isSolid it ds (np # visited)
                (queue @ [\<lparr>QPos = np, QDepth = QDepth it + 1, QFirst = QFirst it\<rparr>]))"

lemma push_steps_weight:
  assumes "QDepth it < m" and "push_steps ib sl it ds vis queue = (vis', queue')"
  shows "sum_list (map (\<lambda>j. 5 ^ nat (m - QDepth j)) queue') \<le>
    sum_list (map (\<lambda>j. 5 ^ nat (m - QDepth j)) queue) + length ds * (5 :: nat) ^ nat (m - QDepth it - 1)"
  using assms(2)
proof (induction ib sl it ds vis queue rule: push_steps.induct)
  case (2 ib sl it d ds vis queue)
  show ?case
    using 2 by (fastforce simp: Let_def diff_diff_eq split: if_splits)
qed simp

text \<open>
  The head of the queue is examined, then expanded unless it is at the depth limit.  Depths run from 1
  to \<open>maxDepth\<close>, so counting them cannot overflow.
\<close>

function detour_loop :: "vec3 \<Rightarrow> int \<Rightarrow> int \<Rightarrow> (vec3 \<Rightarrow> bool) \<Rightarrow> (vec3 \<Rightarrow> bool) \<Rightarrow> vec3 list \<Rightarrow> q_item list \<Rightarrow> best \<Rightarrow> best" where
  "detour_loop target startDist maxDepth inBounds isSolid visited [] b = b"
| "detour_loop target startDist maxDepth inBounds isSolid visited (it # queue) b =
     (let d = distXZ (QPos it) target;
          b = (if d < startDist \<and> better b d (QDepth it) (QFirst it) then Some (d, QDepth it, QFirst it) else b)
      in if QDepth it \<ge> maxDepth then detour_loop target startDist maxDepth inBounds isSolid visited queue b
         else
           let vq = push_steps inBounds isSolid it cardinalDirs visited queue
           in detour_loop target startDist maxDepth inBounds isSolid (fst vq) (snd vq) b)"
  by pat_completeness auto

termination
proof (relation "measure (\<lambda>(t, s, m, ib, sl, vis, queue, b). sum_list (map (\<lambda>j. 5 ^ nat (m - QDepth j)) queue))")
  fix target :: vec3 and startDist m :: int and ib sl :: "vec3 \<Rightarrow> bool" and vis queue b and it :: q_item and x xa vq
  assume d: "\<not> m \<le> QDepth it" and vq: "vq = push_steps ib sl it cardinalDirs vis queue"
  obtain vis' queue' where e: "push_steps ib sl it cardinalDirs vis queue = (vis', queue')" by fastforce
  have "sum_list (map (\<lambda>j. 5 ^ nat (m - QDepth j)) queue') \<le>
    sum_list (map (\<lambda>j. 5 ^ nat (m - QDepth j)) queue) + 4 * (5 :: nat) ^ nat (m - QDepth it - 1)"
    using push_steps_weight[OF _ e, of m] d by (simp add: cardinalDirs_def)
  moreover have "nat (m - QDepth it) = Suc (nat (m - QDepth it - 1))" using d by simp
  moreover have "0 < (5 :: nat) ^ nat (m - QDepth it - 1)" by simp
  ultimately show "((target, startDist, m, ib, sl, fst vq, snd vq, xa), target, startDist, m, ib, sl, vis, it # queue, b) \<in>
      measure (\<lambda>(t, s, m, ib, sl, vis, queue, b). sum_list (map (\<lambda>j. 5 ^ nat (m - QDepth j)) queue))"
    using vq e by (simp only: in_measure prod.case fst_conv snd_conv list.map sum_list.Cons power_Suc)
qed simp_all

definition DetourStep2D :: "vec3 \<Rightarrow> vec3 \<Rightarrow> int \<Rightarrow> (vec3 \<Rightarrow> bool) \<Rightarrow> (vec3 \<Rightarrow> bool) \<Rightarrow> vec3 option" where
  "DetourStep2D start target maxDepth inBounds isSolid =
     (if maxDepth \<le> 0 then None
      else
        let start = ground start; target = ground target;
            startDist = distXZ start target;
            firsts = filter (\<lambda>np. inBounds np \<and> \<not> isSolid np) (map (step2d start) cardinalDirs);
            queue = map (\<lambda>np. \<lparr>QPos = np, QDepth = 1, QFirst = np\<rparr>) firsts
        in map_option (snd \<circ> snd)
             (detour_loop target startDist maxDepth inBounds isSolid (rev firsts @ [start]) queue None))"

section \<open>The power search is reachability\<close>

text \<open>The wires connected to the starting cells.\<close>

inductive wired :: "power_env \<Rightarrow> vec3 set \<Rightarrow> vec3 \<Rightarrow> bool" for env :: power_env and S :: "vec3 set" where
  start: "p \<in> S \<Longrightarrow> PBlockName env p = ''WIRE'' \<Longrightarrow> wired env S p"
| along: "wired env S p \<Longrightarrow> d \<in> set cardinalDirs \<Longrightarrow> PBlockName env (shift_cell p d) = ''WIRE'' \<Longrightarrow>
    wired env S (shift_cell p d)"

definition fed :: "power_env \<Rightarrow> vec3 \<Rightarrow> bool" where
  "fed env p \<longleftrightarrow> (\<exists>d \<in> set cardinalDirs. control_on env (shift_cell p d))"

definition wire_nbrs :: "power_env \<Rightarrow> vec3 \<Rightarrow> vec3 list \<Rightarrow> vec3 set" where
  "wire_nbrs env p ds = {np \<in> shift_cell p ` set ds. PBlockName env np = ''WIRE''}"

lemma expand_wires_spec:
  assumes "expand_wires env m p ds vis q = (vis', q')" and "distinct vis"
  shows "\<exists>new. vis' = rev new @ vis \<and> q' = q @ new \<and> distinct vis' \<and> set new \<subseteq> wire_nbrs env p ds \<and>
    (int (length vis') \<le> m \<longrightarrow> wire_nbrs env p ds \<subseteq> set vis')"
  using assms
proof (induction env m p ds vis q rule: expand_wires.induct)
  case (1 env m p vis q)
  then show ?case by (auto simp: wire_nbrs_def)
next
  case (2 env m p d ds vis q)
  let ?np = "shift_cell p d"
  consider (skip) "?np \<in> set vis \<or> PBlockName env ?np \<noteq> ''WIRE''"
    | (stop) "?np \<notin> set vis" "PBlockName env ?np = ''WIRE''" "int (length (?np # vis)) > m"
    | (go) "?np \<notin> set vis" "PBlockName env ?np = ''WIRE''" "\<not> int (length (?np # vis)) > m" by blast
  then show ?case
  proof cases
    case skip
    then have "expand_wires env m p ds vis q = (vis', q')"
      using 2(4) by (cases "?np \<in> set vis") (simp_all add: Let_def)
    then obtain new where "vis' = rev new @ vis \<and> q' = q @ new \<and> distinct vis' \<and> set new \<subseteq> wire_nbrs env p ds \<and>
      (int (length vis') \<le> m \<longrightarrow> wire_nbrs env p ds \<subseteq> set vis')"
      using 2(1)[OF refl] 2(2)[OF refl] 2(5) skip by blast
    then show ?thesis using skip by (intro exI[of _ new]) (auto simp: wire_nbrs_def)
  next
    case stop
    then show ?thesis using 2(4,5) by (intro exI[of _ "[?np]"]) (auto simp: Let_def wire_nbrs_def)
  next
    case go
    then have "expand_wires env m p ds (?np # vis) (q @ [?np]) = (vis', q')" using 2(4) by (auto simp: Let_def)
    then obtain new where "vis' = rev new @ ?np # vis \<and> q' = (q @ [?np]) @ new \<and> distinct vis' \<and>
      set new \<subseteq> wire_nbrs env p ds \<and> (int (length vis') \<le> m \<longrightarrow> wire_nbrs env p ds \<subseteq> set vis')"
      using 2(3)[OF refl go(1) _ go(3)] go 2(5) by auto
    then show ?thesis using go by (intro exI[of _ "?np # new"]) (auto simp: wire_nbrs_def)
  qed
qed

lemma nbrs_wired: "wired env S p \<Longrightarrow> set new \<subseteq> wire_nbrs env p cardinalDirs \<Longrightarrow> x \<in> set new \<Longrightarrow> wired env S x"
  unfolding wire_nbrs_def using wired.along by blast

lemma wire_search_sound:
  assumes "wire_search env m vis q" and "distinct vis" and "\<forall>p \<in> set q. wired env S p"
  shows "\<exists>p. wired env S p \<and> fed env p"
  using assms
proof (induction env m vis q rule: wire_search.induct)
  case (2 env m vis p q)
  show ?case
  proof (cases "fed env p")
    case True
    then show ?thesis using 2(4) by auto
  next
    case False
    obtain vis' q' where e: "expand_wires env m p cardinalDirs vis q = (vis', q')" by fastforce
    from expand_wires_spec[OF e 2(3)] have "distinct vis'" "\<forall>p \<in> set q'. wired env S p"
      using 2(4) nbrs_wired[of env S p] by auto
    moreover have lt: "\<not> int (length vis) > m" and "wire_search env m vis' q'"
      using 2(2) False e by (auto simp: fed_def split: if_splits)
    ultimately show ?thesis using 2(1)[OF lt _ refl] False e by (auto simp: fed_def)
  qed
qed simp

lemma wire_search_complete:
  assumes "\<not> wire_search env m vis q" and "distinct vis" and "set q \<subseteq> set vis" and "set vis \<subseteq> {p. wired env S p}"
    and "finite {p. wired env S p}" and "int (card {p. wired env S p}) \<le> m"
    and "{p \<in> S. PBlockName env p = ''WIRE''} \<subseteq> set vis"
    and "\<forall>p \<in> set vis - set q. \<not> fed env p \<and> wire_nbrs env p cardinalDirs \<subseteq> set vis"
  shows "wired env S p \<Longrightarrow> \<not> fed env p"
  using assms
proof (induction env m vis q arbitrary: p rule: wire_search.induct)
  case (1 env m vis)
  from 1(1) have "p \<in> set vis"
    by (induction rule: wired.induct) (use 1(8,9) in \<open>auto simp: wire_nbrs_def\<close>)
  then show ?case using 1(9) by simp
next
  case (2 env m vis p q x)
  have small: "int (length v) \<le> m" if "distinct v" "set v \<subseteq> {p. wired env S p}" for v
    using card_mono[OF 2(7) that(2)] that(1) 2(8) by (simp add: distinct_card)
  obtain vis' q' where e: "expand_wires env m p cardinalDirs vis q = (vis', q')" by fastforce
  have lt: "\<not> int (length vis) > m" using small[OF 2(4,6)] by simp
  have nf: "\<not> fed env p" and ns: "\<not> wire_search env m vis' q'" using 2(3) lt e by (auto simp: fed_def split: if_splits)
  obtain new where new: "vis' = rev new @ vis" "q' = q @ new" "distinct vis'" "set new \<subseteq> wire_nbrs env p cardinalDirs"
    "int (length vis') \<le> m \<longrightarrow> wire_nbrs env p cardinalDirs \<subseteq> set vis'"
    using expand_wires_spec[OF e 2(4)] by blast
  have "wired env S p" using 2(5,6) by auto
  then have "set new \<subseteq> {p. wired env S p}" using nbrs_wired[OF _ new(4)] by blast
  then have sub: "set vis' \<subseteq> {p. wired env S p}" using new(1) 2(6) by auto
  have nb: "wire_nbrs env p cardinalDirs \<subseteq> set vis'" using new(5) small[OF new(3) sub] by simp
  show ?case
  proof (rule 2(1)[OF lt _ refl 2(2)])
    show "\<not> (\<exists>d\<in>set cardinalDirs. control_on env (shift_cell p d))" using nf by (simp add: fed_def)
  qed (use ns new nb nf sub 2(5,7-10) e in \<open>auto simp: new\<close>)
qed

lemma wire_starts:
  "distinct q0 \<Longrightarrow> (let q = fold (\<lambda>p q. if PBlockName env p \<noteq> ''WIRE'' \<or> p \<in> set q then q else q @ [p]) ps q0
    in distinct q \<and> set q = set q0 \<union> {p \<in> set ps. PBlockName env p = ''WIRE''})"
proof (induction ps arbitrary: q0)
  case (Cons a ps)
  show ?case
  proof (cases "PBlockName env a \<noteq> ''WIRE'' \<or> a \<in> set q0")
    case True
    then show ?thesis using Cons.IH[OF Cons.prems] by (auto simp: Let_def)
  next
    case False
    then have "distinct (q0 @ [a])" using Cons.prems by simp
    from Cons.IH[OF this] show ?thesis using False by (auto simp: Let_def)
  qed
qed simp

lemma wirePowered_iff:
  fixes env starts
  defines "R \<equiv> {p. wired env (set starts) p}"
  shows "wirePoweredBySwitch env starts m \<Longrightarrow> \<exists>p \<in> R. fed env p"
    and "finite R \<Longrightarrow> int (card R) \<le> m \<Longrightarrow> p \<in> R \<Longrightarrow> fed env p \<Longrightarrow> wirePoweredBySwitch env starts m"
proof -
  define q where "q = fold (\<lambda>p q. if PBlockName env p \<noteq> ''WIRE'' \<or> p \<in> set q then q else q @ [p]) starts []"
  have q: "distinct q" "set q = {p \<in> set starts. PBlockName env p = ''WIRE''}"
    using wire_starts[of "[]" env starts] by (simp_all add: q_def Let_def)
  have w: "\<forall>p \<in> set q. wired env (set starts) p" using q(2) by (auto intro: wired.start)
  have call: "wirePoweredBySwitch env starts m \<longleftrightarrow> starts \<noteq> [] \<and> m > 0 \<and> wire_search env m q q"
    unfolding wirePoweredBySwitch_def q_def Let_def by auto
  show "\<exists>p \<in> R. fed env p" if "wirePoweredBySwitch env starts m"
    using that wire_search_sound[OF _ q(1) w, of m] unfolding call R_def by blast
  show "wirePoweredBySwitch env starts m" if "finite R" "int (card R) \<le> m" "p \<in> R" "fed env p" for p
  proof (rule ccontr)
    assume n: "\<not> wirePoweredBySwitch env starts m"
    have "card R \<noteq> 0" using that by auto
    moreover have "starts \<noteq> []"
    proof
      assume "starts = []"
      have "wired env (set starts) p \<Longrightarrow> False" by (induction rule: wired.induct) (use \<open>starts = []\<close> in auto)
      then show False using that(3) by (simp add: R_def)
    qed
    ultimately have "\<not> wire_search env m q q"
      using n that(2) unfolding call by auto
    from wire_search_complete[OF this q(1) order_refl, of "set starts" p] show False
      using w q that by (auto simp: R_def)
  qed
qed

text \<open>The rule in words: adjacent controls decide alone, then adjacent wires, and no control means on.\<close>

definition powered :: "power_env \<Rightarrow> vec3 \<Rightarrow> bool" where
  "powered env pos \<longleftrightarrow>
     (let around = shift_cell pos ` set cardinalDirs
      in if \<exists>p \<in> around. is_control env p then \<exists>p \<in> around. control_on env p
         else if \<exists>p \<in> around. PBlockName env p = ''WIRE'' then \<exists>p. wired env around p \<and> fed env p
         else True)"

lemma control_on_is: "control_on env p \<Longrightarrow> is_control env p"
  by (auto simp: control_on_def is_control_def split: if_splits)

lemma wired_filter: "wired env {p \<in> S. PBlockName env p = ''WIRE''} = wired env S"
proof (intro ext iffI)
  show "wired env S p" if "wired env {p \<in> S. PBlockName env p = ''WIRE''} p" for p
    using that by (induction rule: wired.induct) (auto intro: wired.intros)
  show "wired env {p \<in> S. PBlockName env p = ''WIRE''} p" if "wired env S p" for p
    using that by (induction rule: wired.induct) (auto intro: wired.intros)
qed

text \<open>
  C20. A conveyor is enabled exactly when the power rule says so, as long as the wire network next to it
  has at most as many wires as the search budget; with a larger network the search can only err by
  reporting no power.
\<close>

theorem Enabled_powered:
  assumes "finite {p. wired env (shift_cell pos ` set cardinalDirs) p}"
  shows "(Enabled env pos maxNodes \<longrightarrow> powered env pos) \<and>
    (int (card {p. wired env (shift_cell pos ` set cardinalDirs) p}) \<le> maxNodes \<longrightarrow>
       (Enabled env pos maxNodes \<longleftrightarrow> powered env pos))"
proof -
  let ?S = "shift_cell pos ` set cardinalDirs"
  let ?ws = "filter (\<lambda>p. PBlockName env p = ''WIRE'') (map (shift_cell pos) cardinalDirs)"
  have R: "{p. wired env (set ?ws) p} = {p. wired env ?S p}" using wired_filter[of env ?S] by simp
  show ?thesis
  proof (cases "\<exists>p \<in> ?S. is_control env p")
    case True
    then show ?thesis using control_on_is by (auto simp: Enabled_def powered_def Let_def)
  next
    case False
    then have nc: "\<not> (\<exists>p \<in> ?S. control_on env p)" using control_on_is by blast
    show ?thesis
    proof (cases "\<exists>p \<in> ?S. PBlockName env p = ''WIRE''")
      case True
      then have ne: "?ws \<noteq> []" by (auto simp: filter_empty_conv)
      then have E: "Enabled env pos maxNodes = wirePoweredBySwitch env ?ws maxNodes"
        and P: "powered env pos \<longleftrightarrow> (\<exists>p. wired env ?S p \<and> fed env p)"
        using False nc True by (simp_all add: Enabled_def powered_def Let_def)
      show ?thesis
        unfolding E P using wirePowered_iff[of env ?ws maxNodes] assms unfolding R by blast
    next
      case wf: False
      then have "?ws = []" by (auto simp: filter_empty_conv)
      then show ?thesis using False nc wf by (simp add: Enabled_def powered_def Let_def)
    qed
  qed
qed

text \<open>A row of three wires that ends at a switch.\<close>

definition wire_row :: "bool \<Rightarrow> power_env" where
  "wire_row on = \<lparr>PBlockName = (\<lambda>p. if p = cell 1 0 0 \<or> p = cell 2 0 0 \<or> p = cell 3 0 0 then ''WIRE''
       else if p = cell 4 0 0 then ''SWITCH'' else ''AIR''),
     SwitchOn = (\<lambda>p. on), PSensorOn = (\<lambda>p. False)\<rparr>"

lemma wire_row_wired: "{p. wired (wire_row on) S p} \<subseteq> {cell 1 0 0, cell 2 0 0, cell 3 0 0}"
proof -
  have wr: "PBlockName (wire_row on) p = ''WIRE'' \<longleftrightarrow> p \<in> {cell 1 0 0, cell 2 0 0, cell 3 0 0}" for p
    by (simp add: wire_row_def)
  have "p \<in> {cell 1 0 0, cell 2 0 0, cell 3 0 0}" if "wired (wire_row on) S p" for p
    using that by (induction rule: wired.induct) (simp_all only: wr)
  then show ?thesis by blast
qed

theorem Enabled_powered_witness:
  "Enabled (wire_row True) (cell 0 0 0) 1024 \<and> powered (wire_row True) (cell 0 0 0) \<and>
   \<not> Enabled (wire_row False) (cell 0 0 0) 1024"
proof -
  have "finite {p. wired (wire_row True) (shift_cell (cell 0 0 0) ` set cardinalDirs) p}"
    by (rule finite_subset[OF wire_row_wired]) simp
  moreover have "Enabled (wire_row True) (cell 0 0 0) 1024" "\<not> Enabled (wire_row False) (cell 0 0 0) 1024" by code_simp+
  ultimately show ?thesis using Enabled_powered[of "wire_row True" "cell 0 0 0" 1024] by blast
qed

section \<open>The detour search is complete\<close>

text \<open>Walks over passable cells: first step, number of steps, last cell.\<close>

inductive walk :: "(vec3 \<Rightarrow> bool) \<Rightarrow> vec3 \<Rightarrow> vec3 \<Rightarrow> int \<Rightarrow> vec3 \<Rightarrow> bool" for free :: "vec3 \<Rightarrow> bool" and s :: vec3 where
  first: "d \<in> set cardinalDirs \<Longrightarrow> free (step2d s d) \<Longrightarrow> walk free s (step2d s d) 1 (step2d s d)"
| more: "walk free s f n p \<Longrightarrow> d \<in> set cardinalDirs \<Longrightarrow> free (step2d p d) \<Longrightarrow> walk free s f (n + 1) (step2d p d)"

lemma walk_pos: "walk free s f n p \<Longrightarrow> 1 \<le> n"
  by (induction rule: walk.induct) auto

lemma walk_first: "walk free s f n p \<Longrightarrow> free f \<and> (\<exists>d \<in> set cardinalDirs. f = step2d s d)"
  by (induction rule: walk.induct) auto

definition passable :: "(vec3 \<Rightarrow> bool) \<Rightarrow> (vec3 \<Rightarrow> bool) \<Rightarrow> vec3 \<Rightarrow> bool" where
  "passable inBounds isSolid p \<longleftrightarrow> inBounds p \<and> \<not> isSolid p"

lemma push_steps_spec:
  assumes "push_steps ib sl it ds vis queue = (vis', queue')"
  shows "\<exists>new. queue' = queue @ new \<and> set vis' = set vis \<union> QPos ` set new \<and>
    (\<forall>j \<in> set new. QDepth j = QDepth it + 1 \<and> QFirst j = QFirst it \<and>
       (\<exists>d \<in> set ds. QPos j = step2d (QPos it) d \<and> passable ib sl (QPos j))) \<and>
    (\<forall>d \<in> set ds. passable ib sl (step2d (QPos it) d) \<longrightarrow> step2d (QPos it) d \<in> set vis')"
  using assms
proof (induction ib sl it ds vis queue rule: push_steps.induct)
  case (2 ib sl it d ds vis queue)
  let ?np = "step2d (QPos it) d"
  let ?j = "\<lparr>QPos = ?np, QDepth = QDepth it + 1, QFirst = QFirst it\<rparr>"
  show ?case
  proof (cases "?np \<in> set vis \<or> \<not> ib ?np \<or> sl ?np")
    case True
    then have "push_steps ib sl it ds vis queue = (vis', queue')" using 2(3) by (simp only: push_steps.simps Let_def if_True)
    from 2(1)[OF refl True this] obtain new where "queue' = queue @ new \<and> set vis' = set vis \<union> QPos ` set new \<and>
      (\<forall>j \<in> set new. QDepth j = QDepth it + 1 \<and> QFirst j = QFirst it \<and>
         (\<exists>d \<in> set ds. QPos j = step2d (QPos it) d \<and> passable ib sl (QPos j))) \<and>
      (\<forall>d \<in> set ds. passable ib sl (step2d (QPos it) d) \<longrightarrow> step2d (QPos it) d \<in> set vis')" by blast
    then show ?thesis using True by (intro exI[of _ new]) (auto simp: passable_def)
  next
    case False
    then have "push_steps ib sl it ds (?np # vis) (queue @ [?j]) = (vis', queue')"
      using 2(3) by (simp only: push_steps.simps Let_def if_False)
    from 2(2)[OF refl False this] obtain new where "queue' = (queue @ [?j]) @ new \<and> set vis' = set (?np # vis) \<union> QPos ` set new \<and>
      (\<forall>j \<in> set new. QDepth j = QDepth it + 1 \<and> QFirst j = QFirst it \<and>
         (\<exists>d \<in> set ds. QPos j = step2d (QPos it) d \<and> passable ib sl (QPos j))) \<and>
      (\<forall>d \<in> set ds. passable ib sl (step2d (QPos it) d) \<longrightarrow> step2d (QPos it) d \<in> set vis')" by blast
    then show ?thesis using False by (intro exI[of _ "?j # new"]) (auto simp: passable_def)
  qed
qed (simp add: passable_def)

text \<open>
  The state of the search: \<open>fin\<close> are the items examined so far, in order.  Depths never decrease along
  examined and waiting items, and each examined item below the limit has all its neighbours on record,
  at most one step further away.
\<close>

definition on_record :: "vec3 \<Rightarrow> q_item list \<Rightarrow> int \<Rightarrow> vec3 \<Rightarrow> bool" where
  "on_record s its n p \<longleftrightarrow> p = s \<or> (\<exists>i \<in> set its. QPos i = p \<and> QDepth i \<le> n)"

definition bfs_inv :: "(vec3 \<Rightarrow> bool) \<Rightarrow> vec3 \<Rightarrow> int \<Rightarrow> q_item list \<Rightarrow> vec3 set \<Rightarrow> q_item list \<Rightarrow> bool" where
  "bfs_inv free s m fin vis queue \<longleftrightarrow>
     vis = insert s (QPos ` set (fin @ queue)) \<and>
     (\<forall>j \<in> set (fin @ queue). walk free s (QFirst j) (QDepth j) (QPos j) \<and> QDepth j \<le> m) \<and>
     sorted (map QDepth (fin @ queue)) \<and>
     (\<forall>h \<in> set (take 1 queue). \<forall>j \<in> set queue. QDepth j \<le> QDepth h + 1) \<and>
     (\<forall>d \<in> set cardinalDirs. free (step2d s d) \<longrightarrow> on_record s (fin @ queue) 1 (step2d s d)) \<and>
     (\<forall>j \<in> set fin. QDepth j < m \<longrightarrow> (\<forall>d \<in> set cardinalDirs. free (step2d (QPos j) d) \<longrightarrow>
        on_record s (fin @ queue) (QDepth j + 1) (step2d (QPos j) d)))"

lemma on_record_mono: "on_record s its n p \<Longrightarrow> set its \<subseteq> set its' \<Longrightarrow> on_record s its' n p"
  by (auto simp: on_record_def)

lemma bfs_skip:
  assumes "bfs_inv free s m fin vis (it # queue)" and "m \<le> QDepth it"
  shows "bfs_inv free s m (fin @ [it]) vis queue"
proof -
  have "sorted (map QDepth (it # queue))" using assms(1) by (simp add: bfs_inv_def sorted_append)
  then have "QDepth j \<le> QDepth h + 1" if "h \<in> set (take 1 queue)" "j \<in> set queue" for h j
    using that assms(1) by (cases queue) (auto simp: bfs_inv_def)
  then show ?thesis using assms by (auto simp: bfs_inv_def)
qed

lemma bfs_push:
  assumes inv: "bfs_inv free s m fin (set vis) (it # queue)" and lt: "QDepth it < m"
    and p: "push_steps ib sl it cardinalDirs vis queue = (vis', queue')" and free: "free = passable ib sl"
  shows "bfs_inv free s m (fin @ [it]) (set vis') queue'"
proof -
  obtain new where q: "queue' = queue @ new" and v: "set vis' = set vis \<union> QPos ` set new"
    and n: "\<And>j. j \<in> set new \<Longrightarrow> QDepth j = QDepth it + 1 \<and> QFirst j = QFirst it \<and>
       (\<exists>d \<in> set cardinalDirs. QPos j = step2d (QPos it) d \<and> free (QPos j))"
    and c: "\<And>d. d \<in> set cardinalDirs \<Longrightarrow> free (step2d (QPos it) d) \<Longrightarrow> step2d (QPos it) d \<in> set vis'"
    using push_steps_spec[OF p] unfolding free by blast
  have vis: "set vis = insert s (QPos ` set (fin @ it # queue))"
    and w: "\<And>j. j \<in> set (fin @ it # queue) \<Longrightarrow> walk free s (QFirst j) (QDepth j) (QPos j) \<and> QDepth j \<le> m"
    and so: "sorted (map QDepth (fin @ it # queue))" and le: "\<And>j. j \<in> set queue \<Longrightarrow> QDepth j \<le> QDepth it + 1"
    using inv by (auto simp: bfs_inv_def)
  have le_it: "QDepth j \<le> QDepth it" if "j \<in> set fin" for j using so that by (auto simp: sorted_append)
  have wn: "walk free s (QFirst j) (QDepth j) (QPos j) \<and> QDepth j \<le> m" if "j \<in> set new" for j
    using n[OF that] w[of it] lt walk.more[of free s "QFirst it" "QDepth it" "QPos it"] by auto
  have all: "set (fin @ it # queue) \<subseteq> set ((fin @ [it]) @ queue')" by (auto simp: q)
  have so': "sorted (map QDepth ((fin @ [it]) @ queue'))"
  proof -
    have "sorted (map QDepth new)" using n by (simp add: sorted_iff_nth_mono) 
    then show ?thesis using so le le_it n by (fastforce simp: q sorted_append)
  qed
  have "QDepth it \<le> QDepth h" if "h \<in> set queue'" for h using that so n by (auto simp: q sorted_append)
  then have hd: "QDepth j \<le> QDepth h + 1" if "h \<in> set (take 1 queue')" "j \<in> set queue'" for h j
    using that le n in_set_takeD[OF that(1)] by (fastforce simp: q)
  have rec: "on_record s ((fin @ [it]) @ queue') (QDepth it + 1) (step2d (QPos it) d)"
    if "d \<in> set cardinalDirs" "free (step2d (QPos it) d)" for d
  proof -
    have "step2d (QPos it) d = s \<or> step2d (QPos it) d \<in> QPos ` set (fin @ it # queue @ new)"
      using c[OF that] v vis by auto
    then show ?thesis using le le_it n by (fastforce simp: on_record_def q)
  qed
  show ?thesis
    unfolding bfs_inv_def
  proof (intro conjI ballI impI)
    show "set vis' = insert s (QPos ` set ((fin @ [it]) @ queue'))" using v vis by (auto simp: q)
    show "sorted (map QDepth ((fin @ [it]) @ queue'))" by (rule so')
  next
    fix d assume "d \<in> set cardinalDirs" "free (step2d s d)"
    then show "on_record s ((fin @ [it]) @ queue') 1 (step2d s d)"
      using inv on_record_mono[OF _ all] by (simp add: bfs_inv_def)
  next
    fix j d assume "j \<in> set (fin @ [it])" "QDepth j < m" "d \<in> set cardinalDirs" "free (step2d (QPos j) d)"
    then show "on_record s ((fin @ [it]) @ queue') (QDepth j + 1) (step2d (QPos j) d)"
      using inv on_record_mono[OF _ all] rec by (auto simp: bfs_inv_def)
  qed (use w wn hd in \<open>auto simp: q\<close>)
qed

lemma bfs_covers:
  assumes inv: "bfs_inv free s m fin vis []" and w: "walk free s f n p" and "n \<le> m"
  shows "on_record s fin n p"
  using w \<open>n \<le> m\<close>
proof (induction rule: walk.induct)
  case (first d)
  then show ?case using inv by (simp add: bfs_inv_def)
next
  case (more f n p d)
  then have "on_record s fin n p" by simp
  then consider (s) "p = s" | (i) i where "i \<in> set fin" "QPos i = p" "QDepth i \<le> n" by (auto simp: on_record_def)
  then show ?case
  proof cases
    case s
    then have "on_record s fin 1 (step2d p d)" using inv more(2,3) by (simp add: bfs_inv_def)
    then show ?thesis using walk_pos[OF more(1)] by (auto simp: on_record_def)
  next
    case i
    then have "on_record s fin (QDepth i + 1) (step2d p d)" using inv more(2,3,5) by (auto simp: bfs_inv_def)
    then show ?thesis using i(3) by (auto simp: on_record_def)
  qed
qed

text \<open>The best item among those examined.\<close>

definition best_inv :: "vec3 \<Rightarrow> int \<Rightarrow> q_item list \<Rightarrow> best \<Rightarrow> bool" where
  "best_inv t sd fin b \<longleftrightarrow>
     (case b of
        None \<Rightarrow> \<forall>j \<in> set fin. sd \<le> distXZ (QPos j) t
      | Some (d, k, f) \<Rightarrow> d < sd \<and> (\<exists>j \<in> set fin. distXZ (QPos j) t = d \<and> QDepth j = k \<and> QFirst j = f) \<and>
          (\<forall>j \<in> set fin. d \<le> distXZ (QPos j) t))"

lemma best_inv_step:
  assumes "best_inv t sd fin b" and "d = distXZ (QPos it) t"
  shows "best_inv t sd (fin @ [it]) (if d < sd \<and> better b d (QDepth it) (QFirst it) then Some (d, QDepth it, QFirst it) else b)"
  using assms by (cases b) (auto simp: best_inv_def better_def split: if_splits)

lemma detour_loop_spec:
  assumes "bfs_inv (passable ib sl) s m fin (set vis) queue" and "best_inv t sd fin b"
  shows "\<exists>fin' vis'. bfs_inv (passable ib sl) s m fin' vis' [] \<and>
    best_inv t sd fin' (detour_loop t sd m ib sl vis queue b)"
  using assms
proof (induction t sd m ib sl vis queue b arbitrary: fin rule: detour_loop.induct)
  case (1 t sd m ib sl vis b)
  then show ?case by auto
next
  case (2 t sd m ib sl vis it queue b)
  let ?d = "distXZ (QPos it) t"
  let ?b = "if ?d < sd \<and> better b ?d (QDepth it) (QFirst it) then Some (?d, QDepth it, QFirst it) else b"
  have b: "best_inv t sd (fin @ [it]) ?b" by (rule best_inv_step[OF 2(4)]) simp
  show ?case
  proof (cases "m \<le> QDepth it")
    case True
    from 2(1)[OF refl refl True bfs_skip[OF 2(3) True] b] True show ?thesis by (simp add: Let_def)
  next
    case False
    obtain vis' queue' where p: "push_steps ib sl it cardinalDirs vis queue = (vis', queue')" by fastforce
    have "bfs_inv (passable ib sl) s m (fin @ [it]) (set vis') queue'"
      by (rule bfs_push[OF 2(3) _ p refl]) (use False in simp)
    then have "bfs_inv (passable ib sl) s m (fin @ [it]) (set (fst (push_steps ib sl it cardinalDirs vis queue)))
        (snd (push_steps ib sl it cardinalDirs vis queue))" by (simp add: p)
    from 2(2)[OF refl refl False refl this b] False show ?thesis by (simp add: Let_def)
  qed
qed

lemma DetourStep2D_spec:
  assumes "0 < maxDepth" and "free = passable inBounds isSolid" and "s = ground start" and "t = ground target"
  shows "(case DetourStep2D start target maxDepth inBounds isSolid of
      None \<Rightarrow> \<not> (\<exists>f n p. walk free s f n p \<and> n \<le> maxDepth \<and> distXZ p t < distXZ s t)
    | Some f \<Rightarrow> free f \<and> (\<exists>d \<in> set cardinalDirs. f = step2d s d) \<and>
        (\<exists>n p. walk free s f n p \<and> n \<le> maxDepth \<and> distXZ p t < distXZ s t \<and>
          (\<forall>f' n' p'. walk free s f' n' p' \<longrightarrow> n' \<le> maxDepth \<longrightarrow> distXZ p t \<le> distXZ p' t)))"
proof -
  define firsts where "firsts = filter free (map (step2d s) cardinalDirs)"
  define queue where "queue = map (\<lambda>np. \<lparr>QPos = np, QDepth = 1, QFirst = np\<rparr>) firsts"
  define r where "r = detour_loop t (distXZ s t) maxDepth inBounds isSolid (rev firsts @ [s]) queue None"
  have D: "DetourStep2D start target maxDepth inBounds isSolid = map_option (snd \<circ> snd) r"
    using assms(1) by (simp add: DetourStep2D_def r_def queue_def firsts_def passable_def[abs_def] assms(2-4) Let_def)
  have fs: "p \<in> set firsts \<longleftrightarrow> (\<exists>d \<in> set cardinalDirs. p = step2d s d) \<and> free p" for p
    by (auto simp: firsts_def)
  have "sorted (map QDepth queue)" by (simp add: queue_def comp_def sorted_iff_nth_mono)
  moreover have "walk free s p 1 p" if "p \<in> set firsts" for p using that walk.first[of _ free s] by (auto simp: fs)
  moreover have "on_record s queue 1 (step2d s d)" if "d \<in> set cardinalDirs" "free (step2d s d)" for d
    using that by (force simp: on_record_def queue_def fs)
  ultimately have "bfs_inv free s maxDepth [] (set (rev firsts @ [s])) queue"
    using assms(1) by (auto simp: bfs_inv_def queue_def image_image dest!: in_set_takeD)
  from detour_loop_spec[OF this[unfolded assms(2)], of t "distXZ s t" None] obtain fin vis
    where inv: "bfs_inv free s maxDepth fin vis []" and b: "best_inv t (distXZ s t) fin r"
    by (auto simp: best_inv_def r_def assms(2))
  have cov: "p = s \<or> (\<exists>i \<in> set fin. QPos i = p)" if "walk free s f n p" "n \<le> maxDepth" for f n p
    using bfs_covers[OF inv that] by (auto simp: on_record_def)
  show ?thesis
  proof (cases r)
    case None
    then show ?thesis using b cov by (fastforce simp: D best_inv_def)
  next
    case (Some q)
    obtain d k f where q: "q = (d, k, f)" by (cases q)
    obtain j where j: "d < distXZ s t" "j \<in> set fin" "distXZ (QPos j) t = d" "QDepth j = k" "QFirst j = f"
      "\<forall>i \<in> set fin. d \<le> distXZ (QPos i) t"
      using b by (auto simp: Some q best_inv_def)
    then have w: "walk free s f k (QPos j)" "k \<le> maxDepth" using inv by (auto simp: bfs_inv_def)
    have "d \<le> distXZ p' t" if "walk free s f' n' p'" "n' \<le> maxDepth" for f' n' p'
      using cov[OF that] j(1,6) by auto
    then show ?thesis using w j walk_first[OF w(1)] by (auto simp: D Some q)
  qed
qed

text \<open>
  C19. The detour search is exact: it finds a step precisely when some walk of at most \<open>maxDepth\<close>
  steps over free cells ends closer to the target, the step it returns begins such a walk, and no
  walk of that length ends closer than that one.
\<close>

theorem DetourStep2D_exact:
  assumes "0 < maxDepth" and "free = passable inBounds isSolid" and "s = ground start" and "t = ground target"
  shows "(case DetourStep2D start target maxDepth inBounds isSolid of
      None \<Rightarrow> \<not> (\<exists>f n p. walk free s f n p \<and> n \<le> maxDepth \<and> distXZ p t < distXZ s t)
    | Some f \<Rightarrow> free f \<and> (\<exists>d \<in> set cardinalDirs. f = step2d s d) \<and>
        (\<exists>n p. walk free s f n p \<and> n \<le> maxDepth \<and> distXZ p t < distXZ s t \<and>
          (\<forall>f' n' p'. walk free s f' n' p' \<longrightarrow> n' \<le> maxDepth \<longrightarrow> distXZ p t \<le> distXZ p' t)))"
  by (rule DetourStep2D_spec[OF assms])

theorem DetourStep2D_exact_witness:
  "\<exists>f. DetourStep2D (cell 0 0 0) (cell 3 0 0) 3 (\<lambda>p. True) (\<lambda>p. p = cell 1 0 0) = Some f \<and>
     f \<noteq> cell 1 0 0 \<and> (\<exists>d \<in> set cardinalDirs. f = step2d (cell 0 0 0) d)"
proof -
  have s: "DetourStep2D (cell 0 0 0) (cell 3 0 0) 3 (\<lambda>p. True) (\<lambda>p. p = cell 1 0 0) = Some (cell 0 0 (- 1))" by code_simp
  show ?thesis
    using DetourStep2D_exact[of 3 "passable (\<lambda>p. True) (\<lambda>p. p = cell 1 0 0)" "\<lambda>p. True" "\<lambda>p. p = cell 1 0 0" "cell 0 0 0" "cell 0 0 0"
        "cell 3 0 0" "cell 3 0 0"]
    unfolding s by (simp add: passable_def ground_def cell_def)
qed

end
