(* ===== verification/Codec.thy ===== *)
theory Codec
  imports Grid_Search
begin

unbundle bit_operations_syntax

text \<open>
  How blocks are sent: run-length encoding (\<open>internal/sim/encoding/rle.go\<close>) over varints and base64 of the
  Go standard library, packed palettes and deltas (\<open>io/obscodec\<close>), and the voxel cube of an
  observation (\<open>feature/observer/stream/voxels.go\<close>).  The lemmas show that a client recovers the blocks.
\<close>

type_synonym byte = "8 word"

section \<open>Varints\<close>

text \<open>\<open>binary.PutUvarint\<close>: seven bits a byte, least significant group first.\<close>

lemma unat_drop7: "unat (drop_bit 7 (x :: u64)) = unat x div 128"
  by (simp only: unat_drop_bit_eq) (simp add: drop_bit_eq_div)

function put_uvarint :: "u64 \<Rightarrow> byte list" where
  "put_uvarint x = (if x \<ge> 128 then (ucast x OR 128) # put_uvarint (drop_bit 7 x) else [ucast x])"
  by pat_completeness auto

termination
proof (relation "measure unat")
  fix x :: u64 assume "128 \<le> x"
  then have "128 \<le> unat x" by (simp add: word_le_nat_alt)
  then show "(drop_bit 7 x, x) \<in> measure unat" by (simp add: unat_drop7)
qed simp

text \<open>\<open>binary.Uvarint\<close>: the value and the number of bytes read; \<open>None\<close> where the code returns \<open>n \<le> 0\<close>.\<close>

fun uvarint :: "nat \<Rightarrow> u64 \<Rightarrow> nat \<Rightarrow> byte list \<Rightarrow> (u64 \<times> nat) option" where
  "uvarint i x s [] = None"
| "uvarint i x s (b # bs) =
     (if i = 10 then None
      else if b < 128 then
        (if i = 9 \<and> b > 1 then None else Some (x OR push_bit s (ucast b), i + 1))
      else uvarint (i + 1) (x OR push_bit s (ucast (b AND 127))) (s + 7) bs)"

section \<open>Base64\<close>

definition b64_alphabet :: string where
  "b64_alphabet = ''ABCDEFGHIJKLMNOPQRSTUVWXYZabcdefghijklmnopqrstuvwxyz0123456789+/''"

definition b64_char :: "nat \<Rightarrow> char" where
  "b64_char n = b64_alphabet ! n"

fun index_of :: "nat \<Rightarrow> char \<Rightarrow> string \<Rightarrow> nat option" where
  "index_of i c [] = None"
| "index_of i c (d # ds) = (if c = d then Some i else index_of (i + 1) c ds)"

definition b64_value :: "char \<Rightarrow> nat option" where
  "b64_value c = index_of 0 c b64_alphabet"

text \<open>Three bytes are four characters of six bits; the last group is padded.\<close>

fun b64_encode :: "byte list \<Rightarrow> string" where
  "b64_encode [] = []"
| "b64_encode [a] =
     (let n = unat a * 16 in [b64_char (n div 64), b64_char (n mod 64), CHR ''='', CHR ''=''])"
| "b64_encode [a, b] =
     (let n = (unat a * 256 + unat b) * 4
      in [b64_char (n div 4096), b64_char (n div 64 mod 64), b64_char (n mod 64), CHR ''=''])"
| "b64_encode (a # b # c # bs) =
     (let n = (unat a * 256 + unat b) * 256 + unat c
      in b64_char (n div 262144) # b64_char (n div 4096 mod 64) # b64_char (n div 64 mod 64) # b64_char (n mod 64)
         # b64_encode bs)"

text \<open>
  \<open>DecodeString\<close> of the standard encoding: line ends are skipped, padding is required and ends the
  data, unused low bits are not checked.
\<close>

fun b64_quads :: "string \<Rightarrow> byte list option" where
  "b64_quads [] = Some []"
| "b64_quads (a # b # c # d # cs) =
     (case (b64_value a, b64_value b) of
        (Some i, Some j) \<Rightarrow>
          if c = CHR ''='' then
            (if d = CHR ''='' \<and> cs = [] then Some [of_nat ((i * 64 + j) div 16)] else None)
          else
            (case b64_value c of
               None \<Rightarrow> None
             | Some k \<Rightarrow>
                 if d = CHR ''='' then
                   (if cs = [] then
                      (let n = ((i * 64 + j) * 64 + k) div 4 in Some [of_nat (n div 256), of_nat (n mod 256)])
                    else None)
                 else
                   (case (b64_value d, b64_quads cs) of
                      (Some l, Some bs) \<Rightarrow>
                        (let n = ((i * 64 + j) * 64 + k) * 64 + l
                         in Some (of_nat (n div 65536) # of_nat (n div 256 mod 256) # of_nat (n mod 256) # bs))
                    | _ \<Rightarrow> None))
      | _ \<Rightarrow> None)"
| "b64_quads _ = None"

definition b64_decode :: "string \<Rightarrow> byte list option" where
  "b64_decode s = b64_quads (filter (\<lambda>c. c \<noteq> CHR 0x0A \<and> c \<noteq> CHR 0x0D) s)"

section \<open>Run lengths\<close>

fun count_run :: "blockid \<Rightarrow> blockid list \<Rightarrow> nat \<Rightarrow> nat" where
  "count_run b [] run = run"
| "count_run b (x # xs) run = (if x = b \<and> run < 2 ^ 31 then count_run b xs (run + 1) else run)"

lemma count_run_ge: "run \<le> count_run b xs run"
  by (induction b xs run rule: count_run.induct) auto

function rle_bytes :: "blockid list \<Rightarrow> byte list" where
  "rle_bytes [] = []"
| "rle_bytes (b # xs) =
     (let run = count_run b xs 1
      in put_uvarint (ucast b) @ put_uvarint (of_nat run) @ rle_bytes (drop (run - 1) xs))"
  by pat_completeness auto
termination by (relation "measure length") auto

definition EncodeRLE :: "blockid list \<Rightarrow> string" where
  "EncodeRLE ids = b64_encode (rle_bytes ids)"

datatype rle_error = BadBase64 | BadVarint nat | IdTooLarge u64

lemma uvarint_length: "uvarint i x s raw = Some (v, n) \<Longrightarrow> i < n \<and> n \<le> i + length raw"
  by (induction i x s raw rule: uvarint.induct) (auto split: if_splits)

text \<open>The decoding loop: offset \<open>i\<close> of the rest \<open>raw\<close>; a run count beyond the signed range adds nothing.\<close>

function rle_decode :: "nat \<Rightarrow> byte list \<Rightarrow> blockid list \<Rightarrow> rle_error + blockid list" where
  "rle_decode i raw acc =
     (if raw = [] then Inr acc
      else case uvarint 0 0 0 raw of
             None \<Rightarrow> Inl (BadVarint i)
           | Some (b, n) \<Rightarrow>
               (case uvarint 0 0 0 (drop n raw) of
                  None \<Rightarrow> Inl (BadVarint (i + n))
                | Some (run, m) \<Rightarrow>
                    if b > 65535 then Inl (IdTooLarge b)
                    else rle_decode (i + n + m) (drop (n + m) raw) (acc @ replicate (nat (sint run)) (ucast b))))"
  by pat_completeness auto

termination
  by (relation "measure (\<lambda>(i, raw, acc). length raw)") (auto dest!: uvarint_length)

definition DecodeRLE :: "string \<Rightarrow> rle_error + blockid list" where
  "DecodeRLE b64 = (case b64_decode b64 of None \<Rightarrow> Inl BadBase64 | Some raw \<Rightarrow> rle_decode 0 raw [])"

section \<open>Palettes and deltas\<close>

definition EncodePAL16Y8 :: "blockid list \<Rightarrow> byte list \<Rightarrow> string" where
  "EncodePAL16Y8 blks ys =
     b64_encode (concat (map (\<lambda>(b, y). [ucast b, ucast (drop_bit 8 b), y]) (zip blks ys)))"

definition EncodePAL16U16LE :: "blockid list \<Rightarrow> string" where
  "EncodePAL16U16LE blks = b64_encode (concat (map (\<lambda>b. [ucast b, ucast (drop_bit 8 b)]) blks))"

record delta_op =
  OpD :: "int \<times> int \<times> int"
  OpB :: blockid

text \<open>The offsets in scan order; the code indexes the arrays along it and panics past their end.\<close>

definition scan :: "int \<Rightarrow> (int \<times> int \<times> int) list" where
  "scan r = concat (map (\<lambda>dy. concat (map (\<lambda>dz. map (\<lambda>dx. (dx, dy, dz)) [- r .. r]) [- r .. r])) [- r .. r])"

definition BuildDeltaOps :: "blockid list \<Rightarrow> blockid list \<Rightarrow> int \<Rightarrow> delta_op list option" where
  "BuildDeltaOps prev cur r =
     (if length prev \<noteq> length cur \<or> cur = [] then Some []
      else if length (scan r) > length cur then None
      else Some (map (\<lambda>(d, p, c). \<lparr>OpD = d, OpB = c\<rparr>)
                  (filter (\<lambda>(d, p, c). c \<noteq> p) (zip (scan r) (zip prev cur)))))"

section \<open>The voxel cube of an observation\<close>

datatype voxels = RleVoxels string | DeltaVoxels "delta_op list"

text \<open>The cube: air, with the world's only layer filled in where the cube reaches it.\<close>

definition cube_block :: "vec3 \<Rightarrow> blockid \<Rightarrow> (vec3 \<Rightarrow> blockid) \<Rightarrow> int \<times> int \<times> int \<Rightarrow> blockid" where
  "cube_block center air getBlock d =
     (case d of (dx, dy, dz) \<Rightarrow>
        if dy = i64 (- vy center) then getBlock (cell (i64 (vx center + dx)) 0 (i64 (vz center + dz))) else air)"

definition cube :: "vec3 \<Rightarrow> int \<Rightarrow> blockid \<Rightarrow> (vec3 \<Rightarrow> blockid) \<Rightarrow> blockid list" where
  "cube center r air getBlock = map (cube_block center air getBlock) (scan r)"

text \<open>Sensors seen in that layer, row by row.\<close>

definition sensor_cells :: "vec3 \<Rightarrow> int \<Rightarrow> blockid option \<Rightarrow> (vec3 \<Rightarrow> blockid) \<Rightarrow> vec3 list" where
  "sensor_cells center r sensor getBlock =
     (if - r \<le> i64 (- vy center) \<and> i64 (- vy center) \<le> r then
        filter (\<lambda>p. sensor = Some (getBlock p))
          (concat (map (\<lambda>dz. map (\<lambda>dx. cell (i64 (vx center + dx)) 0 (i64 (vz center + dz))) [- r .. r]) [- r .. r]))
      else [])"

record voxels_out =
  OutCenter :: vec3
  OutRadius :: int
  OutVoxels :: voxels
  OutCurrent :: "blockid list"
  OutSensors :: "vec3 list"

text \<open>A negative radius makes the allocation of the array panic.\<close>

definition BuildObsVoxels2D ::
  "vec3 \<Rightarrow> int \<Rightarrow> blockid \<Rightarrow> blockid option \<Rightarrow> bool \<Rightarrow> blockid list option \<Rightarrow> (vec3 \<Rightarrow> blockid) \<Rightarrow> voxels_out option" where
  "BuildObsVoxels2D center r air sensor deltaEnabled lastVoxels getBlock =
     (if r < 0 then None
      else
      let cur = cube center r air getBlock;
          out = (\<lambda>v. \<lparr>OutCenter = center, OutRadius = r, OutVoxels = v, OutCurrent = cur,
                     OutSensors = sensor_cells center r sensor getBlock\<rparr>)
      in case lastVoxels of
           Some prev \<Rightarrow>
             if deltaEnabled \<and> length prev = length cur then
               (case BuildDeltaOps prev cur r of
                  None \<Rightarrow> None
                | Some ops \<Rightarrow>
                    if ops \<noteq> [] \<and> length ops < length cur div 2 then Some (out (DeltaVoxels ops))
                    else Some (out (RleVoxels (EncodeRLE cur))))
             else Some (out (RleVoxels (EncodeRLE cur)))
         | None \<Rightarrow> Some (out (RleVoxels (EncodeRLE cur))))"

section \<open>Base64 round trip\<close>

lemma byte_lt: "unat (a :: byte) < 256"
  using unsigned_less[of a] by simp

lemma b64_value_char: "n < 64 \<Longrightarrow> b64_value (b64_char n) = Some n"
proof -
  have "\<forall>n \<in> set [0 ..< 64]. b64_value (b64_char n) = Some n" by code_simp
  then show "n < 64 \<Longrightarrow> b64_value (b64_char n) = Some n" by simp
qed

lemma b64_char_plain: "n < 64 \<Longrightarrow> b64_char n \<noteq> CHR ''='' \<and> b64_char n \<noteq> CHR 0x0A \<and> b64_char n \<noteq> CHR 0x0D"
proof -
  have "\<forall>n \<in> set [0 ..< 64]. b64_char n \<noteq> CHR ''='' \<and> b64_char n \<noteq> CHR 0x0A \<and> b64_char n \<noteq> CHR 0x0D" by code_simp
  then show "n < 64 \<Longrightarrow> b64_char n \<noteq> CHR ''='' \<and> b64_char n \<noteq> CHR 0x0A \<and> b64_char n \<noteq> CHR 0x0D" by simp
qed

lemma b64_no_newline: "filter (\<lambda>c. c \<noteq> CHR 0x0A \<and> c \<noteq> CHR 0x0D) (b64_encode bs) = b64_encode bs"
proof (induction bs rule: b64_encode.induct)
  case (4 a b c bs)
  have "unat a < 256" "unat b < 256" "unat c < 256" by (simp_all add: byte_lt)
  then have "((unat a * 256 + unat b) * 256 + unat c) div 262144 < 64" by (simp add: div_less_iff_less_mult)
  then show ?case using 4 by (simp add: Let_def b64_char_plain)
next
  case (3 a b)
  have "unat a < 256" "unat b < 256" by (simp_all add: byte_lt)
  then have "(unat a * 256 + unat b) * 4 div 4096 < 64" by (simp add: div_less_iff_less_mult)
  then show ?case by (simp add: Let_def b64_char_plain)
next
  case (2 a)
  have "unat a < 256" by (rule byte_lt)
  then have "unat a * 16 div 64 < 64" by (simp add: div_less_iff_less_mult)
  then show ?case by (simp add: Let_def b64_char_plain)
qed simp

lemma of_nat_byte: "n = unat (a :: byte) \<Longrightarrow> of_nat n = a"
  by simp

lemma join6: "n div (k * 64) * 64 + n div k mod 64 = n div (k :: nat)"
  by (metis div_mult2_eq div_mult_mod_eq)

lemmas join6s = join6[of _ 4096, simplified] join6[of _ 64, simplified] join6[of _ 1, simplified]

lemma split_base: "c < (m :: nat) \<Longrightarrow> (x * m + c) div m = x \<and> (x * m + c) mod m = c"
  by simp

lemma three_bytes:
  assumes "a < 256" "b < 256" "c < (256 :: nat)"
  defines "n \<equiv> (a * 256 + b) * 256 + c"
  shows "n div 262144 < 64" "n div 65536 = a" "n div 256 mod 256 = b" "n mod 256 = c"
proof -
  have n: "n div 256 = a * 256 + b" "n mod 256 = c"
    using split_base[OF assms(3), of "a * 256 + b"] unfolding n_def by blast+
  have "n div 65536 = n div 256 div 256" by (simp add: div_mult2_eq[symmetric])
  also have "\<dots> = a" using assms(2) by (simp add: n)
  finally show a: "n div 65536 = a" .
  show "n div 256 mod 256 = b" "n mod 256 = c" using assms(2) by (simp_all add: n)
  have "n div 262144 = n div 65536 div 4" by (simp add: div_mult2_eq[symmetric])
  then show "n div 262144 < 64" using assms(1) a by simp
qed

lemma b64_quads_encode: "b64_quads (b64_encode bs) = Some bs"
proof (induction bs rule: b64_encode.induct)
  case (4 a b c bs)
  define n where "n = (unat a * 256 + unat b) * 256 + unat c"
  have lt: "unat a < 256" "unat b < 256" "unat c < 256" by (simp_all add: byte_lt)
  note p = three_bytes[OF lt, folded n_def]
  show ?case unfolding b64_encode.simps Let_def n_def[symmetric]
    using 4 p(1) by (simp add: Let_def b64_value_char b64_char_plain join6s p(2-4))
next
  case (3 a b)
  define n where "n = (unat a * 256 + unat b) * 4"
  have lt: "unat a < 256" "unat b < 256" by (simp_all add: byte_lt)
  then have q: "n div 4096 < 64" "n div 4 = unat a * 256 + unat b"
    by (simp_all add: n_def div_less_iff_less_mult)
  show ?case unfolding b64_encode.simps Let_def n_def[symmetric]
    using q lt by (simp add: Let_def b64_value_char b64_char_plain join6s)
next
  case (2 a)
  define n where "n = unat a * 16"
  have q: "n div 64 < 64" "n div 16 = unat a"
    using byte_lt[of a] by (simp_all add: n_def div_less_iff_less_mult)
  show ?case unfolding b64_encode.simps Let_def n_def[symmetric]
    using q by (simp add: Let_def b64_value_char b64_char_plain join6s)
qed simp

lemma b64_roundtrip: "b64_decode (b64_encode bs) = Some bs"
  by (simp add: b64_decode_def b64_no_newline b64_quads_encode)

section \<open>Varint round trip\<close>

lemma small_byte_bit: "x < 128 \<Longrightarrow> \<not> bit (x :: byte) 7"
  by (simp add: bit_iff_odd div_word_less)

lemma marked_byte: "\<not> (w OR 128 :: byte) < 128"
proof
  assume "(w OR 128 :: byte) < 128"
  from small_byte_bit[OF this] show False by (simp add: bit_or_iff bit_iff_odd[of "128 :: byte"])
qed

lemma bit_127: "bit (127 :: byte) n \<longleftrightarrow> n < 7"
proof -
  have "(127 :: byte) = mask 7" by (simp add: mask_eq_exp_minus_1)
  then show ?thesis by (simp only: bit_mask_iff) (auto simp: possible_bit_def)
qed

lemma bit_128: "bit (128 :: byte) n \<longleftrightarrow> n = 7"
proof -
  have "(128 :: byte) = 2 ^ 7" by simp
  then show ?thesis by (simp only: bit_exp_iff) (auto simp: possible_bit_def)
qed

lemma low_seven: "ucast ((ucast v OR 128 :: byte) AND 127) = (take_bit 7 v :: u64)"
  by (rule bit_eqI) (auto simp only: bit_and_iff bit_or_iff bit_unsigned_iff bit_take_bit_iff bit_127 bit_128 possible_bit_word, simp_all)

lemma join_seven: "push_bit s (take_bit 7 v) OR push_bit (s + 7) (drop_bit 7 v) = push_bit s (v :: u64)"
proof (rule bit_eqI)
  fix n
  have "s + 7 \<le> n \<Longrightarrow> 7 + (n - (s + 7)) = n - s" by simp
  then show "bit (push_bit s (take_bit 7 v) OR push_bit (s + 7) (drop_bit 7 v)) n = bit (push_bit s v) n"
    by (cases "s + 7 \<le> n") (auto simp: bit_simps)
qed

lemma put_uvarint_small: "v < 128 \<Longrightarrow> put_uvarint v = [ucast v]"
  by (simp add: not_le[symmetric])

lemma put_uvarint_big: "128 \<le> v \<Longrightarrow> put_uvarint v = (ucast v OR 128) # put_uvarint (drop_bit 7 v)"
  by simp

declare put_uvarint.simps [simp del]

lemma uvarint_put:
  assumes "i \<le> 9" and "unat v < 2 ^ (64 - 7 * i)"
  shows "uvarint i x (7 * i) (put_uvarint v @ rest) = Some (x OR push_bit (7 * i) v, i + length (put_uvarint v))"
  using assms
proof (induction v arbitrary: i x rule: put_uvarint.induct)
  case (1 v)
  show ?case
  proof (cases "v \<ge> 128")
    case True
    have i: "i < 9"
    proof (rule ccontr)
      assume "\<not> i < 9"
      then have "i = 9" using 1(2) by simp
      then have "unat v < 2" using 1(3) by simp
      then show False using True by (simp add: word_le_nat_alt)
    qed
    have "unat v div 128 < 2 ^ (64 - 7 * Suc i)"
    proof -
      have "64 - 7 * i = (64 - 7 * Suc i) + 7" using i by simp
      then have "(2 :: nat) ^ (64 - 7 * i) = 2 ^ (64 - 7 * Suc i) * 128" by (simp only: power_add) simp
      then show ?thesis using 1(3) by (simp add: div_less_iff_less_mult)
    qed
    then have r: "uvarint (i + 1) y (7 * i + 7) (put_uvarint (drop_bit 7 v) @ rest) =
        Some (y OR push_bit (7 * i + 7) (drop_bit 7 v), i + 1 + length (put_uvarint (drop_bit 7 v)))" for y
      using 1(1)[OF True, of "i + 1"] i by (simp add: unat_drop7 add.commute[of _ 7])
    have "uvarint i x (7 * i) (put_uvarint v @ rest) =
        uvarint (i + 1) (x OR push_bit (7 * i) (take_bit 7 v)) (7 * i + 7) (put_uvarint (drop_bit 7 v) @ rest)"
      using i by (simp add: put_uvarint_big[OF True] marked_byte low_seven)
    also have "\<dots> = Some ((x OR push_bit (7 * i) (take_bit 7 v)) OR push_bit (7 * i + 7) (drop_bit 7 v),
        i + 1 + length (put_uvarint (drop_bit 7 v)))" by (rule r)
    also have "(x OR push_bit (7 * i) (take_bit 7 v)) OR push_bit (7 * i + 7) (drop_bit 7 v) = x OR push_bit (7 * i) v"
      by (simp only: or.assoc join_seven)
    finally show ?thesis by (simp add: put_uvarint_big[OF True])
  next
    case False
    then have lt: "unat v < 128" by (simp add: word_le_nat_alt not_le)
    have u: "ucast (ucast v :: byte) = v"
      using lt by (simp add: word_eq_iff_unsigned[where ?'a = nat] unsigned_ucast_eq unsigned_take_bit_eq take_bit_nat_eq_self)
    have c: "unat (ucast v :: byte) = unat v" using lt by (simp add: unsigned_ucast_eq take_bit_nat_eq_self)
    then have b: "(ucast v :: byte) < 128" using lt by (simp add: word_less_nat_alt)
    have "\<not> (ucast v :: byte) > 1" if "i = 9" using 1(3) that c by (simp add: word_less_nat_alt)
    then show ?thesis using False u b 1(2) by (simp add: put_uvarint_small)
  qed
qed

lemma uvarint_encoded: "uvarint 0 0 0 (put_uvarint v @ rest) = Some (v, length (put_uvarint v))"
  using uvarint_put[of 0 v 0 rest] unsigned_less[of v] by simp

section \<open>Run-length round trip\<close>

lemma count_run_spec:
  "run \<le> 2 ^ 31 \<Longrightarrow> count_run b xs run \<le> 2 ^ 31 \<and>
    (\<exists>n. count_run b xs run = run + n \<and> n \<le> length xs \<and> take n xs = replicate n b)"
proof (induction b xs run rule: count_run.induct)
  case (2 b x xs run)
  show ?case
  proof (cases "x = b \<and> run < 2 ^ 31")
    case True
    then obtain n where "count_run b xs (run + 1) = run + 1 + n" "n \<le> length xs" "take n xs = replicate n b"
      using 2 by auto
    then show ?thesis using True 2 by (auto intro!: exI[of _ "Suc n"])
  qed (use 2 in auto)
qed auto

lemma put_uvarint_ne: "put_uvarint v \<noteq> []"
  by (simp add: put_uvarint.simps)

declare rle_decode.simps [simp del]

lemma rle_decode_bytes: "\<exists>j. rle_decode i (rle_bytes ids @ rest) acc = rle_decode j rest (acc @ ids)"
proof (induction ids arbitrary: i acc rule: rle_bytes.induct)
  case (2 b xs)
  define run where "run = count_run b xs 1"
  obtain n where n: "run = 1 + n" "n \<le> length xs" "take n xs = replicate n b" "run \<le> 2 ^ 31"
    using count_run_spec[of 1 b xs] by (auto simp: run_def)
  have bytes: "rle_bytes (b # xs) @ rest = put_uvarint (ucast b) @ (put_uvarint (of_nat run) @ (rle_bytes (drop n xs) @ rest))"
    by (simp only: rle_bytes.simps Let_def run_def[symmetric]) (simp add: n(1))
  have "sint (of_nat run :: u64) = int run"
    using n(4) by (simp add: signed_of_nat signed_take_bit_int_eq_self)
  then have run: "nat (sint (of_nat run :: u64)) = run" by simp
  have "unat b < 2 ^ LENGTH(16)" by (rule unsigned_less)
  then have "unat (ucast b :: u64) < 65536" by (simp add: unsigned_ucast_eq take_bit_nat_eq_self)
  then have small: "\<not> (ucast b :: u64) > 65535" by (simp add: word_less_nat_alt)
  have same: "ucast (ucast b :: u64) = b" by (rule bit_eqI) (auto simp: bit_simps)
  have r1: "run - 1 = n" using n(1) by simp
  obtain j where j: "rle_decode (i + length (put_uvarint (ucast b)) + length (put_uvarint (of_nat run)))
      (rle_bytes (drop n xs) @ rest) (acc @ replicate run b) = rle_decode j rest ((acc @ replicate run b) @ drop n xs)"
    using 2[OF run_def, of "i + length (put_uvarint (ucast b)) + length (put_uvarint (of_nat run))" "acc @ replicate run b"]
    unfolding r1 by blast
  have ids: "replicate run b @ drop n xs = b # xs"
    using n append_take_drop_id[of n xs] by simp
  have "rle_decode i (rle_bytes (b # xs) @ rest) acc = rle_decode j rest (acc @ (b # xs))"
    unfolding bytes
    by (subst rle_decode.simps) (simp add: uvarint_encoded put_uvarint_ne small run same j ids)
  then show ?case by blast
qed auto

lemma rle_roundtrip: "DecodeRLE (EncodeRLE ids) = Inr ids"
proof -
  obtain j where "rle_decode 0 (rle_bytes ids @ []) [] = rle_decode j [] ([] @ ids)"
    using rle_decode_bytes by blast
  then have "rle_decode 0 (rle_bytes ids) [] = Inr ids" by (simp add: rle_decode.simps[of j "[]"])
  then show ?thesis by (simp add: DecodeRLE_def EncodeRLE_def b64_roundtrip)
qed

text \<open>
  The run-length encoding loses nothing: for every list of block ids, decoding what was encoded gives
  the list back (whatever the runs, their length and the id values).
\<close>

lemma DecodeRLE_EncodeRLE: "DecodeRLE (EncodeRLE ids) = Inr ids"
  by (rule rle_roundtrip)

section \<open>Packed palettes\<close>

lemma b64_encode_inj: "b64_encode xs = b64_encode ys \<longleftrightarrow> xs = ys"
  using b64_roundtrip by (metis option.inject)

lemma two_bytes_inj:
  assumes "(ucast b :: byte) = ucast c" and "(ucast (drop_bit 8 b) :: byte) = ucast (drop_bit 8 c)"
  shows "(b :: blockid) = c"
proof (rule bit_word_eqI)
  fix n assume "n < LENGTH(16)"
  have l: "bit (ucast b :: byte) n = bit (ucast c :: byte) n"
    and h: "bit (ucast (drop_bit 8 b) :: byte) (n - 8) = bit (ucast (drop_bit 8 c) :: byte) (n - 8)"
    using assms by simp_all
  show "bit b n = bit c n"
    using l h \<open>n < LENGTH(16)\<close> by (cases "n < 8") (auto simp: bit_simps)
qed

lemma pal16_inj:
  "concat (map (\<lambda>b. [ucast b, ucast (drop_bit 8 b)]) bs) = concat (map (\<lambda>b. [ucast b :: byte, ucast (drop_bit 8 b)]) cs) \<longleftrightarrow>
   bs = (cs :: blockid list)"
proof (induction bs arbitrary: cs)
  case Nil
  then show ?case by (cases cs) auto
next
  case (Cons b bs)
  then show ?case using two_bytes_inj by (cases cs) auto
qed

text \<open>
  Two voxel chunks are sent as the same packed text only if they are equal: the encoding is one to one.
\<close>

lemma EncodePAL16U16LE_inj: "EncodePAL16U16LE bs = EncodePAL16U16LE cs \<longleftrightarrow> bs = cs"
  by (simp add: EncodePAL16U16LE_def b64_encode_inj pal16_inj)

section \<open>Deltas\<close>

text \<open>What a client does with a message: decode the cube, or overwrite the listed offsets of the last one.\<close>

definition patch_block :: "delta_op list \<Rightarrow> int \<times> int \<times> int \<Rightarrow> blockid \<Rightarrow> blockid" where
  "patch_block ops d b = (case map_of (map (\<lambda>q. (OpD q, OpB q)) ops) d of None \<Rightarrow> b | Some c \<Rightarrow> c)"

definition receive :: "int \<Rightarrow> blockid list option \<Rightarrow> voxels \<Rightarrow> blockid list option" where
  "receive r lastVoxels v =
     (case v of
        RleVoxels s \<Rightarrow> (case DecodeRLE s of Inl e \<Rightarrow> None | Inr bs \<Rightarrow> Some bs)
      | DeltaVoxels ops \<Rightarrow> map_option (\<lambda>prev. map2 (patch_block ops) (scan r) prev) lastVoxels)"

lemma distinct_concat_map:
  "distinct xs \<Longrightarrow> (\<And>x. x \<in> set xs \<Longrightarrow> distinct (f x)) \<Longrightarrow>
   (\<And>x y. x \<in> set xs \<Longrightarrow> y \<in> set xs \<Longrightarrow> x \<noteq> y \<Longrightarrow> set (f x) \<inter> set (f y) = {}) \<Longrightarrow> distinct (concat (map f xs))"
  by (induction xs) auto

lemma distinct_scan: "distinct (scan r)"
  unfolding scan_def by (intro distinct_concat_map) (auto simp: distinct_map inj_on_def)

abbreviation delta_ops :: "(int \<times> int \<times> int) list \<Rightarrow> blockid list \<Rightarrow> blockid list \<Rightarrow> delta_op list" where
  "delta_ops ds prev cur \<equiv> map (\<lambda>(d, p, c). \<lparr>OpD = d, OpB = c\<rparr>) (filter (\<lambda>(d, p, c). c \<noteq> p) (zip ds (zip prev cur)))"

lemma delta_ops_keys: "d \<notin> set ds \<Longrightarrow> patch_block (delta_ops ds prev cur) d b = b"
proof -
  assume "d \<notin> set ds"
  then have "map_of (map (\<lambda>q. (OpD q, OpB q)) (delta_ops ds prev cur)) d = None"
    by (auto simp: map_of_eq_None_iff dest: set_zip_leftD)
  then show ?thesis by (simp add: patch_block_def)
qed

lemma patch_ops:
  assumes "length ds = length prev" and "length prev = length cur" and "distinct ds"
  shows "map2 (patch_block (delta_ops ds prev cur)) ds prev = cur"
  using assms
proof (induction ds prev cur rule: list_induct3)
  case (Cons d ds p prev c cur)
  have "patch_block (delta_ops (d # ds) (p # prev) (c # cur)) e b = patch_block (delta_ops ds prev cur) e b"
    if "e \<in> set ds" for e b
    using that Cons.prems by (auto simp: patch_block_def)
  then have t: "map2 (patch_block (delta_ops (d # ds) (p # prev) (c # cur))) ds prev =
      map2 (patch_block (delta_ops ds prev cur)) ds prev"
    by (intro map_cong refl) (auto dest!: set_zip_leftD)
  have h: "patch_block (delta_ops (d # ds) (p # prev) (c # cur)) d p = c"
    using delta_ops_keys[of d ds prev cur p] Cons.prems by (auto simp: patch_block_def)
  have "map2 F (d # ds) (p # prev) = F d p # map2 F ds prev" for F :: "_ \<Rightarrow> blockid \<Rightarrow> blockid" by simp
  then show ?case using Cons.IH Cons.prems by (simp only: h t) simp
qed simp

text \<open>
  C21. A client always recovers the voxel cube of an observation: from the run-length text, or from the
  delta and the cube it was sent before.
\<close>

theorem obs_voxels_recovered:
  assumes "0 \<le> r"
  shows "\<exists>out. BuildObsVoxels2D center r air sensor deltaEnabled lastVoxels getBlock = Some out \<and>
     OutCurrent out = cube center r air getBlock \<and>
     receive (OutRadius out) lastVoxels (OutVoxels out) = Some (cube center r air getBlock)"
proof -
  note nn = assms[THEN leD]
  let ?cur = "cube center r air getBlock"
  have len: "length ?cur = length (scan r)" by (simp add: cube_def)
  have rle: "receive r lv (RleVoxels (EncodeRLE ?cur)) = Some ?cur" for lv
    by (simp add: receive_def rle_roundtrip)
  show ?thesis
  proof (cases lastVoxels)
    case None
    then show ?thesis using rle nn by (simp add: BuildObsVoxels2D_def Let_def)
  next
    case (Some prev)
    show ?thesis
    proof (cases "deltaEnabled \<and> length prev = length ?cur \<and> ?cur \<noteq> []")
      case True
      then have "BuildDeltaOps prev ?cur r = Some (delta_ops (scan r) prev ?cur)"
        by (simp add: BuildDeltaOps_def len)
      moreover have "receive r (Some prev) (DeltaVoxels (delta_ops (scan r) prev ?cur)) = Some ?cur"
        using patch_ops[of "scan r" prev ?cur] True len distinct_scan by (simp add: receive_def)
      ultimately show ?thesis using rle nn Some True by (simp add: BuildObsVoxels2D_def Let_def)
    next
      case False
      then show ?thesis using rle nn Some by (auto simp: BuildObsVoxels2D_def Let_def BuildDeltaOps_def)
    qed
  qed
qed

theorem obs_voxels_recovered_witness:
  "(0::int) \<le> 1 \<and>
   (\<exists>out. BuildObsVoxels2D (cell 3 0 4) 1 0 (Some 9) True (Some (replicate 27 7)) (\<lambda>p. if vx p = 3 then 9 else 5) = Some out \<and>
     OutCurrent out = cube (cell 3 0 4) 1 0 (\<lambda>p. if vx p = 3 then 9 else 5) \<and>
     receive (OutRadius out) (Some (replicate 27 7)) (OutVoxels out) =
       Some (cube (cell 3 0 4) 1 0 (\<lambda>p. if vx p = 3 then 9 else 5)))"
  using obs_voxels_recovered[of 1 "cell 3 0 4" 0 "Some 9" True "Some (replicate 27 7)"] by simp

end
