(* ===== verification/Terrain.thy ===== *)
theory Terrain
  imports World_Model
begin

text \<open>
  The terrain (\<open>terrain/gen/gen.go\<close>, \<open>terrain/store/{types,generate,access,snapshot_chunks}.go\<close>): cells
  computed from the seed, chunks generated when they are first touched, and their snapshots.  \<open>sha256\<close> of
  the standard library is a parameter.  The chunk store refines the total block function of the world.
\<close>

section \<open>Generated cells\<close>

definition BiomeFrom :: "u64 \<Rightarrow> string" where
  "BiomeFrom noise = (if noise mod 3 = 0 then ''PLAINS'' else if noise mod 3 = 1 then ''FOREST'' else ''DESERT'')"

definition BiomeAt :: "int \<Rightarrow> int \<Rightarrow> int \<Rightarrow> int \<Rightarrow> string" where
  "BiomeAt seed x z regionSize0 =
     (let regionSize = (if regionSize0 \<le> 0 then 1 else regionSize0)
      in BiomeFrom (Hash2 seed (FloorDiv x regionSize) (FloorDiv z regionSize)))"

definition WithinSpawnClear :: "int \<Rightarrow> int \<Rightarrow> int \<Rightarrow> bool" where
  "WithinSpawnClear x z radius \<longleftrightarrow>
     \<not> radius \<le> 0 \<and> i64 (i64 (x * x) + i64 (z * z)) \<le> i64 (radius * radius)"

definition ClampPermille :: "int \<Rightarrow> int" where
  "ClampPermille v = (if v < 0 then 0 else if v > 1000 then 1000 else v)"

definition ScalePermille :: "u64 \<Rightarrow> int \<Rightarrow> u64" where
  "ScalePermille base scale0 =
     (let scale = (if scale0 \<le> 0 then 1000 else scale0);
          scaled = (base * word_of_int scale + 500) div 1000
      in if scaled > 1000 then 1000 else scaled)"

text \<open>One candidate centre of \<open>InCluster\<close>: it exists with the given probability and covers a disc.\<close>

definition cluster_hit :: "int \<Rightarrow> int \<Rightarrow> int \<Rightarrow> int \<Rightarrow> int \<Rightarrow> u64 \<Rightarrow> int \<Rightarrow> int \<Rightarrow> bool" where
  "cluster_hit seed x z grid r2 probPermille cgx cgz =
     (let h = Hash2 seed cgx cgz
      in if h mod 1000 \<ge> probPermille then False
         else
           let ox = sint (drop_bit 10 h mod word_of_int grid);
               oz = sint (drop_bit 20 h mod word_of_int grid);
               ddx = i64 (x - i64 (cgx * grid + ox));
               ddz = i64 (z - i64 (cgz * grid + oz))
           in i64 (i64 (ddx * ddx) + i64 (ddz * ddz)) \<le> r2)"

definition InCluster :: "int \<Rightarrow> int \<Rightarrow> int \<Rightarrow> int \<Rightarrow> int \<Rightarrow> u64 \<Rightarrow> bool" where
  "InCluster seed x z grid radius probPermille =
     (if grid \<le> 0 \<or> radius \<le> 0 \<or> probPermille = 0 then False
      else
        let gx = FloorDiv x grid; gz = FloorDiv z grid
        in \<exists>dz \<in> set [-1, 0, 1]. \<exists>dx \<in> set [-1, 0, 1].
             cluster_hit seed x z grid (i64 (radius * radius)) probPermille (i64 (gx + dx)) (i64 (gz + dz)))"

record world_gen =
  GSeed :: int
  GBoundaryR :: int
  GBiomeRegionSize :: int
  GSpawnClearRadius :: int
  OreClusterProbScalePermille :: int
  TerrainClusterProbScalePermille :: int
  GSprinkleStonePermille :: int
  GSprinkleDirtPermille :: int
  GSprinkleLogPermille :: int
  Air :: blockid
  Dirt :: blockid
  Grass :: blockid
  Sand :: blockid
  Stone :: blockid
  Gravel :: blockid
  Log :: blockid
  CoalOre :: blockid
  IronOre :: blockid
  CopperOre :: blockid
  CrystalOre :: blockid

definition ore_here :: "world_gen \<Rightarrow> int \<Rightarrow> int \<Rightarrow> int \<Rightarrow> int \<Rightarrow> int \<Rightarrow> u64 \<Rightarrow> bool" where
  "ore_here g offset wx wz grid radius prob =
     InCluster (i64 (GSeed g + offset)) wx wz grid radius (ScalePermille prob (OreClusterProbScalePermille g))"

definition patch_here :: "world_gen \<Rightarrow> int \<Rightarrow> int \<Rightarrow> int \<Rightarrow> int \<Rightarrow> int \<Rightarrow> u64 \<Rightarrow> bool" where
  "patch_here g offset wx wz grid radius prob =
     InCluster (i64 (GSeed g + offset)) wx wz grid radius (ScalePermille prob (TerrainClusterProbScalePermille g))"

definition biome_patch :: "world_gen \<Rightarrow> string \<Rightarrow> int \<Rightarrow> int \<Rightarrow> blockid" where
  "biome_patch g biome wx wz =
     (if biome = ''FOREST'' then
        (if patch_here g 201 wx wz 48 4 450 then Log g
         else if patch_here g 202 wx wz 32 4 500 then Stone g
         else if patch_here g 203 wx wz 48 3 350 then Dirt g
         else if patch_here g 204 wx wz 96 2 180 then Gravel g
         else Air g)
      else if biome = ''DESERT'' then
        (if patch_here g 301 wx wz 48 3 550 then Sand g
         else if patch_here g 302 wx wz 32 4 450 then Stone g
         else if patch_here g 303 wx wz 96 2 200 then Gravel g
         else Air g)
      else
        (if patch_here g 401 wx wz 48 3 400 then Dirt g
         else if patch_here g 402 wx wz 32 4 500 then Stone g
         else if patch_here g 403 wx wz 96 2 180 then Gravel g
         else Air g))"

definition sprinkle :: "world_gen \<Rightarrow> string \<Rightarrow> int \<Rightarrow> int \<Rightarrow> blockid" where
  "sprinkle g biome wx wz =
     (let roll = Hash2 (i64 (GSeed g + 999)) wx wz mod 1000;
          s = (word_of_int (ClampPermille (GSprinkleStonePermille g)) :: u64);
          d = word_of_int (ClampPermille (GSprinkleDirtPermille g));
          l = word_of_int (ClampPermille (GSprinkleLogPermille g))
      in if roll < s then Stone g
         else if roll < s + d then (if biome = ''DESERT'' then Sand g else Dirt g)
         else if roll < s + d + l \<and> biome = ''FOREST'' then Log g
         else Air g)"

text \<open>The block the generator puts at a cell: the body of the loop of \<open>GenerateChunk\<close>.\<close>

definition generated :: "world_gen \<Rightarrow> int \<Rightarrow> int \<Rightarrow> blockid" where
  "generated g wx wz =
     (if WithinSpawnClear wx wz (GSpawnClearRadius g) then Air g
      else
        let biome = BiomeAt (GSeed g) wx wz (GBiomeRegionSize g)
        in if ore_here g 101 wx wz 192 2 200 then CrystalOre g
           else if ore_here g 102 wx wz 128 3 450 then IronOre g
           else if ore_here g 103 wx wz 128 3 450 then CopperOre g
           else if ore_here g 104 wx wz 64 4 650 then CoalOre g
           else
             let b = biome_patch g biome wx wz
             in if b = Air g then sprinkle g biome wx wz else b)"

section \<open>Chunks\<close>

type_synonym byte = "8 word"

record chunk =
  CX :: int
  CZ :: int
  CBlocks :: "blockid list"
  dirty :: bool
  chash :: "byte list"

definition cell_index :: "int \<Rightarrow> int \<Rightarrow> nat" where
  "cell_index x z = nat (x + z * 16)"

definition chunk_get :: "int \<Rightarrow> int \<Rightarrow> chunk \<Rightarrow> blockid" where
  "chunk_get x z c = CBlocks c ! cell_index x z"

definition chunk_set :: "int \<Rightarrow> int \<Rightarrow> blockid \<Rightarrow> chunk \<Rightarrow> chunk" where
  "chunk_set x z b c =
     (let i = cell_index x z
      in if CBlocks c ! i = b then c else c\<lparr>CBlocks := (CBlocks c)[i := b], dirty := True\<rparr>)"

definition no_hash :: "byte list" where
  "no_hash = replicate 32 0"

definition block_bytes :: "blockid list \<Rightarrow> byte list" where
  "block_bytes bs = concat (map (\<lambda>b. [ucast b, ucast (drop_bit 8 b)]) bs)"

definition chunk_Digest :: "(byte list \<Rightarrow> byte list) \<Rightarrow> chunk \<Rightarrow> byte list \<times> chunk" where
  "chunk_Digest sha256 c =
     (if dirty c \<or> chash c = no_hash
      then (let h = sha256 (block_bytes (CBlocks c)) in (h, c\<lparr>chash := h, dirty := False\<rparr>))
      else (chash c, c))"

record chunk_store =
  Gen :: world_gen
  Chunks :: "((int \<times> int) \<times> chunk) list"

definition NewChunkStore :: "world_gen \<Rightarrow> chunk_store" where
  "NewChunkStore g = \<lparr>Gen = g, Chunks = []\<rparr>"

definition GenerateChunk :: "world_gen \<Rightarrow> chunk \<Rightarrow> chunk" where
  "GenerateChunk g c = c\<lparr>CBlocks := map (\<lambda>i. generated g (i64 (CX c * 16 + int (i mod 16)))
                                                     (i64 (CZ c * 16 + int (i div 16)))) [0..<256]\<rparr>"

definition store_InBounds :: "chunk_store \<Rightarrow> int \<Rightarrow> int \<Rightarrow> int \<Rightarrow> bool" where
  "store_InBounds s x y z =
     (if y \<noteq> 0 then False
      else if GBoundaryR (Gen s) > 0 then
        \<not> (x < i64 (- GBoundaryR (Gen s)) \<or> x > GBoundaryR (Gen s) \<or>
           z < i64 (- GBoundaryR (Gen s)) \<or> z > GBoundaryR (Gen s))
      else True)"

definition GetOrGenChunk :: "(byte list \<Rightarrow> byte list) \<Rightarrow> int \<Rightarrow> int \<Rightarrow> chunk_store \<Rightarrow> chunk \<times> chunk_store" where
  "GetOrGenChunk sha256 cx cz s =
     (case map_of (Chunks s) (cx, cz) of
        Some ch \<Rightarrow> (ch, s)
      | None \<Rightarrow>
          let ch = GenerateChunk (Gen s) \<lparr>CX = cx, CZ = cz, CBlocks = replicate 256 0, dirty = False, chash = no_hash\<rparr>;
              ch = snd (chunk_Digest sha256 (ch\<lparr>dirty := True\<rparr>))
          in (ch, s\<lparr>Chunks := mput (cx, cz) ch (Chunks s)\<rparr>))"

definition store_GetBlock ::
  "(byte list \<Rightarrow> byte list) \<Rightarrow> int \<Rightarrow> int \<Rightarrow> int \<Rightarrow> chunk_store \<Rightarrow> blockid \<times> chunk_store" where
  "store_GetBlock sha256 x y z s =
     (if y \<noteq> 0 \<or> \<not> store_InBounds s x y z then (Air (Gen s), s)
      else case GetOrGenChunk sha256 (FloorDiv x 16) (FloorDiv z 16) s of
             (ch, s) \<Rightarrow> (chunk_get (Mod x 16) (Mod z 16) ch, s))"

definition store_SetBlock ::
  "(byte list \<Rightarrow> byte list) \<Rightarrow> int \<Rightarrow> int \<Rightarrow> int \<Rightarrow> blockid \<Rightarrow> chunk_store \<Rightarrow> chunk_store" where
  "store_SetBlock sha256 x y z b s =
     (if y \<noteq> 0 \<or> \<not> store_InBounds s x y z then s
      else case GetOrGenChunk sha256 (FloorDiv x 16) (FloorDiv z 16) s of
             (ch, s) \<Rightarrow> s\<lparr>Chunks := mput (FloorDiv x 16, FloorDiv z 16) (chunk_set (Mod x 16) (Mod z 16) b ch) (Chunks s)\<rparr>)"

text \<open>Chunk keys in order of \<open>CX\<close>, then \<open>CZ\<close>.\<close>

definition LoadedChunkKeys :: "chunk_store \<Rightarrow> (int \<times> int) list" where
  "LoadedChunkKeys s = sort_key fst (sort_key snd (map fst (Chunks s)))"

section \<open>Snapshots of chunks\<close>

record chunk_v1 =
  SnapCX :: int
  SnapCZ :: int
  SnapHeight :: int
  SnapBlocks :: "blockid list"

definition ExportLoadedChunks :: "((int \<times> int) \<times> chunk) list \<Rightarrow> (int \<times> int) list \<Rightarrow> chunk_v1 list" where
  "ExportLoadedChunks chunks ks =
     concat (map (\<lambda>k. case map_of chunks k of
                        None \<Rightarrow> []
                      | Some ch \<Rightarrow> [\<lparr>SnapCX = fst k, SnapCZ = snd k, SnapHeight = 1, SnapBlocks = CBlocks ch\<rparr>]) ks)"

fun import_chunks :: "(byte list \<Rightarrow> byte list) \<Rightarrow> chunk_v1 list \<Rightarrow> chunk_store \<Rightarrow> string + chunk_store" where
  "import_chunks sha256 [] s = Inr s"
| "import_chunks sha256 (ch # chs) s =
     (if SnapHeight ch \<noteq> 1 then
        Inl (''snapshot chunk height mismatch: got '' @ dec_int (SnapHeight ch) @ '' want 1'')
      else if length (SnapBlocks ch) \<noteq> 256 then
        Inl (''snapshot chunk blocks length mismatch: got '' @ dec_int (int (length (SnapBlocks ch))) @ '' want 256'')
      else
        let c = snd (chunk_Digest sha256 \<lparr>CX = SnapCX ch, CZ = SnapCZ ch, CBlocks = SnapBlocks ch, dirty = False,
                                          chash = no_hash\<rparr>)
        in import_chunks sha256 chs (s\<lparr>Chunks := mput (SnapCX ch, SnapCZ ch) c (Chunks s)\<rparr>))"

definition ImportChunks :: "(byte list \<Rightarrow> byte list) \<Rightarrow> world_gen \<Rightarrow> chunk_v1 list \<Rightarrow> string + chunk_store" where
  "ImportChunks sha256 g chs = import_chunks sha256 chs (NewChunkStore g)"

section \<open>Grids of blocks\<close>

definition in_range :: "vec3 \<Rightarrow> bool" where
  "in_range p \<longleftrightarrow> in_i64 (vx p) \<and> in_i64 (vz p)"

datatype block_op = ReadBlock vec3 | WriteBlock vec3 blockid

fun op_pos :: "block_op \<Rightarrow> vec3" where
  "op_pos (ReadBlock p) = p"
| "op_pos (WriteBlock p b) = p"

text \<open>A run of reads and writes: the answers of the reads and the final state.\<close>

fun run_ops ::
  "(vec3 \<Rightarrow> 's \<Rightarrow> blockid \<times> 's) \<Rightarrow> (vec3 \<Rightarrow> blockid \<Rightarrow> 's \<Rightarrow> 's) \<Rightarrow> block_op list \<Rightarrow> 's \<Rightarrow> blockid list \<times> 's" where
  "run_ops peek poke [] s = ([], s)"
| "run_ops peek poke (ReadBlock p # ops) s =
     (case peek p s of (b, s') \<Rightarrow> (case run_ops peek poke ops s' of (bs, s'') \<Rightarrow> (b # bs, s'')))"
| "run_ops peek poke (WriteBlock p b # ops) s = run_ops peek poke ops (poke p b s)"

text \<open>The answers as a function of the cells.\<close>

fun answers :: "(vec3 \<Rightarrow> blockid) \<Rightarrow> (vec3 \<Rightarrow> bool) \<Rightarrow> block_op list \<Rightarrow> blockid list" where
  "answers f ins [] = []"
| "answers f ins (ReadBlock p # ops) = f p # answers f ins ops"
| "answers f ins (WriteBlock p b # ops) = answers (if ins p then f(p := b) else f) ins ops"

text \<open>
  What the simulation needs of the terrain: reading gives the cell and disturbs nothing, writing changes one
  cell inside the bounds and nothing else.
\<close>

locale block_grid =
  fixes ok :: "'s \<Rightarrow> bool"
    and cell :: "'s \<Rightarrow> vec3 \<Rightarrow> blockid"
    and inside :: "'s \<Rightarrow> vec3 \<Rightarrow> bool"
    and peek :: "vec3 \<Rightarrow> 's \<Rightarrow> blockid \<times> 's"
    and poke :: "vec3 \<Rightarrow> blockid \<Rightarrow> 's \<Rightarrow> 's"
  assumes read_cell: "ok s \<Longrightarrow> in_range p \<Longrightarrow> fst (peek p s) = cell s p"
    and read_keeps: "ok s \<Longrightarrow> in_range p \<Longrightarrow> ok (snd (peek p s)) \<and> inside (snd (peek p s)) = inside s \<and>
      (\<forall>q. in_range q \<longrightarrow> cell (snd (peek p s)) q = cell s q)"
    and write_cell: "ok s \<Longrightarrow> in_range p \<Longrightarrow> ok (poke p b s) \<and> inside (poke p b s) = inside s \<and>
      (\<forall>q. in_range q \<longrightarrow> cell (poke p b s) q = (if q = p \<and> inside s p then b else cell s q))"
begin

lemma run_answers:
  assumes "ok s" and "\<forall>x \<in> set ops. in_range (op_pos x)" and "\<And>q. in_range q \<Longrightarrow> f q = cell s q"
  shows "fst (run_ops peek poke ops s) = answers f (inside s) ops"
  using assms
proof (induction ops arbitrary: s f)
  case (Cons x ops)
  show ?case
  proof (cases x)
    case (ReadBlock p)
    then have p: "in_range p" using Cons.prems(2) by simp
    note k = read_keeps[OF Cons.prems(1) p]
    have "fst (run_ops peek poke ops (snd (peek p s))) = answers f (inside (snd (peek p s))) ops"
      by (rule Cons.IH) (use k Cons.prems in auto)
    then show ?thesis using ReadBlock k read_cell[OF Cons.prems(1) p] Cons.prems(3)[OF p] by (simp add: case_prod_beta)
  next
    case (WriteBlock p b)
    then have p: "in_range p" using Cons.prems(2) by simp
    note k = write_cell[OF Cons.prems(1) p, of b]
    have "fst (run_ops peek poke ops (poke p b s)) = answers (if inside s p then f(p := b) else f) (inside (poke p b s)) ops"
      by (rule Cons.IH) (use k Cons.prems in auto)
    then show ?thesis using WriteBlock k by simp
  qed
qed simp

end

text \<open>Two grids that start with the same cells answer the same.\<close>

locale two_grids = A: block_grid okA cellA insideA peekA pokeA + B: block_grid okB cellB insideB peekB pokeB
  for okA :: "'a \<Rightarrow> bool" and cellA and insideA and peekA and pokeA
    and okB :: "'b \<Rightarrow> bool" and cellB and insideB and peekB and pokeB
begin

lemma same_answers:
  assumes "okA s" and "okB t" and "insideA s = insideB t" and "\<And>q. in_range q \<Longrightarrow> cellA s q = cellB t q"
    and "\<forall>x \<in> set ops. in_range (op_pos x)"
  shows "fst (run_ops peekA pokeA ops s) = fst (run_ops peekB pokeB ops t)"
proof -
  have "fst (run_ops peekA pokeA ops s) = answers (cellA s) (insideA s) ops"
    by (rule A.run_answers[OF assms(1,5)]) simp
  moreover have "fst (run_ops peekB pokeB ops t) = answers (cellA s) (insideB t) ops"
    by (rule B.run_answers[OF assms(2,5)]) (rule assms(4))
  ultimately show ?thesis using assms(3) by simp
qed

end

section \<open>The chunk store is such a grid\<close>

text \<open>Every loaded chunk is filed under its key and full, and a cached hash is the hash of its blocks.\<close>

definition chunk_ok :: "(byte list \<Rightarrow> byte list) \<Rightarrow> int \<times> int \<Rightarrow> chunk \<Rightarrow> bool" where
  "chunk_ok sha256 k c \<longleftrightarrow> (CX c, CZ c) = k \<and> length (CBlocks c) = 256 \<and>
     (dirty c \<or> chash c = no_hash \<or> chash c = sha256 (block_bytes (CBlocks c)))"

definition chunks_ok :: "(byte list \<Rightarrow> byte list) \<Rightarrow> chunk_store \<Rightarrow> bool" where
  "chunks_ok sha256 s \<longleftrightarrow> wf_map (Chunks s) \<and> (\<forall>k c. map_of (Chunks s) k = Some c \<longrightarrow> chunk_ok sha256 k c)"

definition chunk_key :: "vec3 \<Rightarrow> int \<times> int" where
  "chunk_key p = (vx p div 16, vz p div 16)"

definition local_index :: "vec3 \<Rightarrow> nat" where
  "local_index p = cell_index (vx p mod 16) (vz p mod 16)"

definition store_inside :: "chunk_store \<Rightarrow> vec3 \<Rightarrow> bool" where
  "store_inside s p = store_InBounds s (vx p) (vy p) (vz p)"

text \<open>The block at a position: what the chunk holds, or what the generator would put there.\<close>

definition store_cell :: "chunk_store \<Rightarrow> vec3 \<Rightarrow> blockid" where
  "store_cell s p =
     (if \<not> store_inside s p then Air (Gen s)
      else case map_of (Chunks s) (chunk_key p) of
             Some c \<Rightarrow> CBlocks c ! local_index p
           | None \<Rightarrow> generated (Gen s) (vx p) (vz p))"

lemma local_index_lt: "local_index p < 256"
  by (simp add: local_index_def cell_index_def nat_less_iff)

lemma local_index_parts: "int (local_index p mod 16) = vx p mod 16" "int (local_index p div 16) = vz p mod 16"
  by (simp_all add: local_index_def cell_index_def zmod_int zdiv_int)

lemma in_i64_div16: "in_i64 x \<Longrightarrow> i64 (x div 16 * 16 + x mod 16) = x"
  by (simp add: i64_id)

lemma chunk_generated:
  assumes "in_range p" and "CX c = vx p div 16" and "CZ c = vz p div 16"
  shows "CBlocks (GenerateChunk g c) ! local_index p = generated g (vx p) (vz p)"
proof -
  have "CBlocks (GenerateChunk g c) ! local_index p =
      generated g (i64 (CX c * 16 + int (local_index p mod 16))) (i64 (CZ c * 16 + int (local_index p div 16)))"
    using local_index_lt[of p] by (simp add: GenerateChunk_def)
  then show ?thesis using assms by (simp add: local_index_parts in_i64_div16 in_range_def i64_id)
qed

lemma chunk_Digest_ok:
  assumes "(CX c, CZ c) = k" and "length (CBlocks c) = 256"
    and "dirty c \<or> chash c = no_hash \<or> chash c = sha256 (block_bytes (CBlocks c))"
  shows "fst (chunk_Digest sha256 c) = sha256 (block_bytes (CBlocks c))" "chunk_ok sha256 k (snd (chunk_Digest sha256 c))"
    "CBlocks (snd (chunk_Digest sha256 c)) = CBlocks c"
  using assms by (auto simp: chunk_Digest_def chunk_ok_def Let_def)

lemma position_eq:
  assumes "vy p = vy q" shows "p = q \<longleftrightarrow> chunk_key p = chunk_key q \<and> local_index p = local_index q"
proof -
  have "vx p = vx q" if "vx p div 16 = vx q div 16" "local_index p = local_index q"
    using that local_index_parts(1)[of p] local_index_parts(1)[of q] by (metis div_mult_mod_eq)
  moreover have "vz p = vz q" if "vz p div 16 = vz q div 16" "local_index p = local_index q"
    using that local_index_parts(2)[of p] local_index_parts(2)[of q] by (metis div_mult_mod_eq)
  ultimately show ?thesis using assms by (auto simp: chunk_key_def)
qed

lemma chunk_loaded:
  assumes ok: "chunks_ok sha256 s" and g: "GetOrGenChunk sha256 cx cz s = (ch, s')"
  shows "chunks_ok sha256 s'" "map_of (Chunks s') (cx, cz) = Some ch" "Gen s' = Gen s"
    and "in_range p \<Longrightarrow> store_cell s' p = store_cell s p"
proof -
  have "chunks_ok sha256 s' \<and> map_of (Chunks s') (cx, cz) = Some ch \<and> Gen s' = Gen s \<and>
    (in_range p \<longrightarrow> store_cell s' p = store_cell s p)"
  proof (cases "map_of (Chunks s) (cx, cz)")
    case (Some c)
    then show ?thesis using g ok by (simp add: GetOrGenChunk_def)
  next
    case None
    define c0 where "c0 = GenerateChunk (Gen s)
        \<lparr>CX = cx, CZ = cz, CBlocks = replicate 256 0, dirty = False, chash = no_hash\<rparr>"
    have c0: "CX c0 = cx" "CZ c0 = cz" "length (CBlocks c0) = 256" by (simp_all add: c0_def GenerateChunk_def)
    have ch: "ch = snd (chunk_Digest sha256 (c0\<lparr>dirty := True\<rparr>))" "s' = s\<lparr>Chunks := mput (cx, cz) ch (Chunks s)\<rparr>"
      using g None by (auto simp: GetOrGenChunk_def Let_def c0_def)
    have "chunk_ok sha256 (cx, cz) ch" unfolding ch(1) by (rule chunk_Digest_ok(2)) (use c0 in simp_all)
    then have "chunks_ok sha256 s'" using ok by (auto simp: chunks_ok_def ch(2) gomap split: if_splits)
    moreover have "CBlocks ch = CBlocks c0"
      unfolding ch(1) by (subst chunk_Digest_ok(3)[of _ "(cx, cz)"]) (use c0 in simp_all)
    then have "CBlocks ch ! local_index p = generated (Gen s) (vx p) (vz p)" if "in_range p" "chunk_key p = (cx, cz)"
      using that chunk_generated[of p _ "Gen s"] by (simp add: c0_def chunk_key_def)
    then have "in_range p \<longrightarrow> store_cell s' p = store_cell s p"
      using None by (auto simp: store_cell_def store_inside_def store_InBounds_def ch(2) gomap split: option.split)
    ultimately show ?thesis by (simp add: ch(2) gomap)
  qed
  then show "chunks_ok sha256 s'" "map_of (Chunks s') (cx, cz) = Some ch" "Gen s' = Gen s"
    "in_range p \<Longrightarrow> store_cell s' p = store_cell s p" by blast+
qed

lemma chunk_coords:
  "in_range p \<Longrightarrow> FloorDiv (vx p) 16 = vx p div 16 \<and> FloorDiv (vz p) 16 = vz p div 16 \<and>
    Mod (vx p) 16 = vx p mod 16 \<and> Mod (vz p) 16 = vz p mod 16"
  by (simp add: in_range_def FloorDiv_eq_div Mod_eq_mod)

lemma store_inside_y: "store_inside s p \<Longrightarrow> vy p = 0"
  by (simp add: store_inside_def store_InBounds_def split: if_splits)

lemma store_inside_gen: "Gen s' = Gen s \<Longrightarrow> store_inside s' = store_inside s"
  by (simp add: store_inside_def store_InBounds_def fun_eq_iff)

lemma store_read:
  assumes ok: "chunks_ok sha256 s" and p: "in_range p"
  defines "r \<equiv> store_GetBlock sha256 (vx p) (vy p) (vz p) s"
  shows "fst r = store_cell s p"
    and "chunks_ok sha256 (snd r) \<and> store_inside (snd r) = store_inside s \<and>
      (\<forall>q. in_range q \<longrightarrow> store_cell (snd r) q = store_cell s q)"
proof -
  obtain ch s' where g: "GetOrGenChunk sha256 (vx p div 16) (vz p div 16) s = (ch, s')" by fastforce
  note L = chunk_loaded[OF ok g]
  have r: "r = (if store_inside s p then (chunk_get (vx p mod 16) (vz p mod 16) ch, s') else (Air (Gen s), s))"
    using chunk_coords[OF p] store_inside_y[of s p] g by (auto simp: r_def store_GetBlock_def store_inside_def)
  have "store_inside s p \<Longrightarrow> store_cell s' p = chunk_get (vx p mod 16) (vz p mod 16) ch"
    using L(2) by (simp add: store_cell_def store_inside_gen[OF L(3)] chunk_key_def chunk_get_def local_index_def)
  then show "fst r = store_cell s p" using L(4)[OF p] by (simp add: r) (simp add: store_cell_def)
  show "chunks_ok sha256 (snd r) \<and> store_inside (snd r) = store_inside s \<and>
      (\<forall>q. in_range q \<longrightarrow> store_cell (snd r) q = store_cell s q)"
    using L ok store_inside_gen[OF L(3)] by (simp add: r)
qed

lemma chunk_set_ok:
  "chunk_ok sha256 k c \<Longrightarrow> chunk_ok sha256 k (chunk_set x z b c)"
  by (auto simp: chunk_ok_def chunk_set_def Let_def)

lemma CBlocks_set: "CBlocks (chunk_set x z b c) = (CBlocks c)[cell_index x z := b]"
  by (auto simp: chunk_set_def Let_def)

lemma store_write:
  assumes ok: "chunks_ok sha256 s" and p: "in_range p"
  fixes b
  defines "s2 \<equiv> store_SetBlock sha256 (vx p) (vy p) (vz p) b s"
  shows "chunks_ok sha256 s2 \<and> store_inside s2 = store_inside s \<and>
    (\<forall>q. in_range q \<longrightarrow> store_cell s2 q = (if q = p \<and> store_inside s p then b else store_cell s q))"
proof (cases "store_inside s p")
  case False
  then have "s2 = s" by (simp add: s2_def store_SetBlock_def store_inside_def)
  then show ?thesis using ok False by simp
next
  case True
  obtain ch s' where g: "GetOrGenChunk sha256 (vx p div 16) (vz p div 16) s = (ch, s')" by fastforce
  note L = chunk_loaded[OF ok g]
  have s2: "s2 = s'\<lparr>Chunks := mput (chunk_key p) (chunk_set (vx p mod 16) (vz p mod 16) b ch) (Chunks s')\<rparr>"
    using True chunk_coords[OF p] store_inside_y[OF True] g
    by (simp add: s2_def store_SetBlock_def store_inside_def chunk_key_def)
  have key: "map_of (Chunks s') (chunk_key p) = Some ch" using L(2) by (simp add: chunk_key_def)
  have ck: "chunk_ok sha256 (chunk_key p) ch" using L(1) key unfolding chunks_ok_def by blast
  have "chunks_ok sha256 s2"
    using L(1) chunk_set_ok[OF ck] by (auto simp: chunks_ok_def s2 gomap split: if_splits)
  moreover have gen: "Gen s2 = Gen s" using L(3) by (simp add: s2)
  from store_inside_gen[OF this] have ins: "store_inside s2 = store_inside s" .
  moreover have "store_cell s2 q = (if q = p \<and> store_inside s p then b else store_cell s q)" if q: "in_range q" for q
  proof (cases "store_inside s q \<and> chunk_key q = chunk_key p")
    case in_chunk: True
    then have "q = p \<longleftrightarrow> local_index q = local_index p"
      using position_eq[of q p] store_inside_y[of s q] store_inside_y[OF True] by simp
    moreover have "store_cell s q = CBlocks ch ! local_index q"
      using L(4)[OF q] in_chunk key by (simp add: store_cell_def store_inside_gen[OF L(3)])
    moreover have "length (CBlocks ch) = 256" using ck by (simp add: chunk_ok_def)
    ultimately show ?thesis
      using in_chunk True local_index_lt[of p]
      by (simp add: store_cell_def[of s2] ins) (simp add: s2 gomap CBlocks_set nth_list_update flip: local_index_def)
  next
    case False
    then have "store_cell s2 q = store_cell s' q"
      using store_inside_gen[OF L(3)] ins gen L(3) by (auto simp: store_cell_def s2 gomap split: option.split)
    then show ?thesis using False True L(4)[OF q] by auto
  qed
  ultimately show ?thesis using ins by blast
qed

interpretation chunks: block_grid "chunks_ok sha256" store_cell store_inside
    "\<lambda>p. store_GetBlock sha256 (vx p) (vy p) (vz p)" "\<lambda>p. store_SetBlock sha256 (vx p) (vy p) (vz p)" for sha256
  by unfold_locales (use store_read store_write in blast)+

text \<open>The world's total function of blocks is such a grid too.\<close>

interpretation world_blocks: block_grid "\<lambda>_. True" GetBlock InBounds "\<lambda>p w. (GetBlock w p, w)" SetBlock
  by unfold_locales (auto simp: GetBlock_def SetBlock_def InBounds_def fun_eq_iff Let_def)

interpretation terrain: two_grids "chunks_ok sha256" store_cell store_inside
    "\<lambda>p. store_GetBlock sha256 (vx p) (vy p) (vz p)" "\<lambda>p. store_SetBlock sha256 (vx p) (vy p) (vz p)"
    "\<lambda>_. True" GetBlock InBounds "\<lambda>p w. (GetBlock w p, w)" SetBlock for sha256
  by unfold_locales

lemma new_store_ok: "chunks_ok sha256 (NewChunkStore g)"
  by (simp add: chunks_ok_def NewChunkStore_def wf_map_def)

text \<open>
  C26. Generating chunks when they are first touched is invisible: every run of block reads and writes on a
  fresh chunk store reads the same blocks as on the total function of generated cells the rest of the
  development works on.
\<close>

theorem chunks_refine_blocks:
  assumes "BoundaryR (cfg w) = GBoundaryR g" and "airBlock w = Air g"
    and "\<And>p. vy p = 0 \<Longrightarrow> in_range p \<Longrightarrow> blocks w p = generated g (vx p) (vz p)"
    and "\<forall>x \<in> set ops. in_range (op_pos x)"
  shows "fst (run_ops (\<lambda>p. store_GetBlock sha256 (vx p) (vy p) (vz p))
           (\<lambda>p. store_SetBlock sha256 (vx p) (vy p) (vz p)) ops (NewChunkStore g)) =
         fst (run_ops (\<lambda>p w. (GetBlock w p, w)) SetBlock ops w)"
proof (rule terrain.same_answers[OF new_store_ok TrueI _ _ assms(4)])
  show ins: "store_inside (NewChunkStore g) = InBounds w"
    using assms(1) by (auto simp: store_inside_def store_InBounds_def InBounds_def NewChunkStore_def fun_eq_iff Let_def)
  show "store_cell (NewChunkStore g) q = GetBlock w q" if "in_range q" for q
  proof -
    have "vy q = 0" if "InBounds w q" using that by (simp add: InBounds_def split: if_splits)
    then show ?thesis using assms(2,3) that ins by (auto simp: store_cell_def GetBlock_def) (simp_all add: NewChunkStore_def)
  qed
qed

definition sample_gen :: world_gen where
  "sample_gen = \<lparr>GSeed = 7, GBoundaryR = 4000, GBiomeRegionSize = 64, GSpawnClearRadius = 6,
     OreClusterProbScalePermille = 1000, TerrainClusterProbScalePermille = 1000, GSprinkleStonePermille = 12,
     GSprinkleDirtPermille = 6, GSprinkleLogPermille = 2, Air = 0, Dirt = 1, Grass = 2, Sand = 3, Stone = 4,
     Gravel = 5, Log = 6, CoalOre = 7, IronOre = 8, CopperOre = 9, CrystalOre = 10\<rparr>"

theorem chunks_refine_blocks_witness:
  "fst (run_ops (\<lambda>p. store_GetBlock (\<lambda>_. []) (vx p) (vy p) (vz p)) (\<lambda>p. store_SetBlock (\<lambda>_. []) (vx p) (vy p) (vz p))
     [WriteBlock \<lparr>vx = -17, vy = 0, vz = 40\<rparr> 9, ReadBlock \<lparr>vx = -17, vy = 0, vz = 40\<rparr>,
      ReadBlock \<lparr>vx = 9000, vy = 0, vz = 0\<rparr>] (NewChunkStore sample_gen)) = [9, 0]"
proof -
  let ?w = "empty_world\<lparr>blocks := \<lambda>p. generated sample_gen (vx p) (vz p)\<rparr>"
  have "BoundaryR (cfg ?w) = GBoundaryR sample_gen" "airBlock ?w = Air sample_gen"
    by (simp_all add: sample_gen_def)
  note run = chunks_refine_blocks[OF this, of "[WriteBlock \<lparr>vx = -17, vy = 0, vz = 40\<rparr> 9,
      ReadBlock \<lparr>vx = -17, vy = 0, vz = 40\<rparr>, ReadBlock \<lparr>vx = 9000, vy = 0, vz = 0\<rparr>]" "\<lambda>_. []"]
  show ?thesis
    by (subst run) (simp_all add: in_range_def in_i64_def SetBlock_def GetBlock_def InBounds_def Let_def)
qed

section \<open>Snapshots keep the terrain\<close>

text \<open>A chunk as importing rebuilds it.\<close>

definition fresh_chunk :: "(byte list \<Rightarrow> byte list) \<Rightarrow> int \<times> int \<Rightarrow> blockid list \<Rightarrow> chunk" where
  "fresh_chunk sha256 k bs =
     snd (chunk_Digest sha256 \<lparr>CX = fst k, CZ = snd k, CBlocks = bs, dirty = False, chash = no_hash\<rparr>)"

lemma fresh_chunk_ok:
  assumes "length bs = 256"
  shows "chunk_ok sha256 k (fresh_chunk sha256 k bs)" "CBlocks (fresh_chunk sha256 k bs) = bs"
  unfolding fresh_chunk_def
  by (rule chunk_Digest_ok; simp add: assms) (simp add: chunk_Digest_def Let_def)

lemma import_exported:
  assumes "\<forall>k \<in> set ks. \<exists>c. map_of chunks k = Some c \<and> length (CBlocks c) = 256" and "wf_map (Chunks s0)"
  shows "\<exists>s1. import_chunks sha256 (ExportLoadedChunks chunks ks) s0 = Inr s1 \<and> Gen s1 = Gen s0 \<and> wf_map (Chunks s1) \<and>
    (\<forall>k. map_of (Chunks s1) k =
      (if k \<in> set ks then Some (fresh_chunk sha256 k (CBlocks (the (map_of chunks k)))) else map_of (Chunks s0) k))"
  using assms
proof (induction ks arbitrary: s0)
  case (Cons k ks)
  obtain c where c: "map_of chunks k = Some c" "length (CBlocks c) = 256" using Cons.prems(1) by auto
  let ?s = "s0\<lparr>Chunks := mput k (fresh_chunk sha256 k (CBlocks c)) (Chunks s0)\<rparr>"
  have "import_chunks sha256 (ExportLoadedChunks chunks (k # ks)) s0 = import_chunks sha256 (ExportLoadedChunks chunks ks) ?s"
    using c by (simp add: ExportLoadedChunks_def fresh_chunk_def Let_def)
  moreover obtain s1 where "import_chunks sha256 (ExportLoadedChunks chunks ks) ?s = Inr s1" "Gen s1 = Gen ?s" "wf_map (Chunks s1)"
      "\<forall>j. map_of (Chunks s1) j =
        (if j \<in> set ks then Some (fresh_chunk sha256 j (CBlocks (the (map_of chunks j)))) else map_of (Chunks ?s) j)"
    using Cons.IH[of ?s] Cons.prems by auto
  ultimately show ?case using c by (auto simp: gomap)
qed (simp add: ExportLoadedChunks_def)

text \<open>
  C27. Saving the loaded chunks and loading them again keeps the terrain: the import succeeds, every block reads
  the same, the same chunks are loaded, and each has the same hash.
\<close>

theorem ImportChunks_ExportLoadedChunks:
  assumes "chunks_ok sha256 s"
  shows "\<exists>s'. ImportChunks sha256 (Gen s) (ExportLoadedChunks (Chunks s) (LoadedChunkKeys s)) = Inr s' \<and>
    chunks_ok sha256 s' \<and> store_cell s' = store_cell s \<and>
    (\<forall>k. map_option (\<lambda>c. fst (chunk_Digest sha256 c)) (map_of (Chunks s') k) =
         map_option (\<lambda>c. fst (chunk_Digest sha256 c)) (map_of (Chunks s) k))"
proof -
  let ?ks = "LoadedChunkKeys s"
  have ks: "set ?ks = dom (map_of (Chunks s))" by (simp add: LoadedChunkKeys_def dom_map_of_conv_image_fst)
  have full: "length (CBlocks c) = 256" "chunk_ok sha256 k c" if "map_of (Chunks s) k = Some c" for k c
    using assms that unfolding chunks_ok_def chunk_ok_def by blast+
  obtain s' where s': "import_chunks sha256 (ExportLoadedChunks (Chunks s) ?ks) (NewChunkStore (Gen s)) = Inr s'"
      "Gen s' = Gen s" "wf_map (Chunks s')"
      "\<And>k. map_of (Chunks s') k =
        map_option (\<lambda>c. fresh_chunk sha256 k (CBlocks c)) (map_of (Chunks s) k)"
  proof -
    have "\<forall>k \<in> set ?ks. \<exists>c. map_of (Chunks s) k = Some c \<and> length (CBlocks c) = 256" using full ks by auto
    from import_exported[OF this, of "NewChunkStore (Gen s)" sha256] ks show thesis
      by (auto simp: NewChunkStore_def wf_map_def intro!: that split: option.split)
  qed
  have ok': "chunks_ok sha256 s'"
    using s'(3,4) fresh_chunk_ok(1) full by (auto simp: chunks_ok_def)
  moreover have "store_cell s' p = store_cell s p" for p
    using s'(4) store_inside_gen[OF s'(2)] s'(2) full fresh_chunk_ok(2)
    by (auto simp: store_cell_def split: option.split)
  moreover have "map_option (\<lambda>c. fst (chunk_Digest sha256 c)) (map_of (Chunks s') k) =
      map_option (\<lambda>c. fst (chunk_Digest sha256 c)) (map_of (Chunks s) k)" for k
  proof (cases "map_of (Chunks s) k")
    case (Some c)
    have d: "fst (chunk_Digest sha256 c) = sha256 (block_bytes (CBlocks c))" if "chunk_ok sha256 k c" for c
      by (rule chunk_Digest_ok(1)) (use that in \<open>auto simp: chunk_ok_def\<close>)
    note f = fresh_chunk_ok[OF full(1)[OF Some], of sha256 k]
    show ?thesis using Some s'(4) d[OF full(2)[OF Some]] d[OF f(1)] f(2) by simp
  qed (simp add: s'(4))
  ultimately show ?thesis using s'(1) by (auto simp: ImportChunks_def fun_eq_iff)
qed

theorem ImportChunks_ExportLoadedChunks_witness:
  "\<exists>s'. ImportChunks (\<lambda>_. [1]) sample_gen (ExportLoadedChunks
      (Chunks (store_SetBlock (\<lambda>_. [1]) 3 0 (-5) 9 (NewChunkStore sample_gen)))
      (LoadedChunkKeys (store_SetBlock (\<lambda>_. [1]) 3 0 (-5) 9 (NewChunkStore sample_gen)))) = Inr s' \<and>
    store_cell s' \<lparr>vx = 3, vy = 0, vz = -5\<rparr> = 9"
proof -
  let ?p = "\<lparr>vx = 3, vy = 0, vz = -5\<rparr>"
  let ?s = "store_SetBlock (\<lambda>_. [1]) 3 0 (-5) 9 (NewChunkStore sample_gen)"
  have p: "in_range ?p" by (simp add: in_range_def in_i64_def)
  note set1 = store_write[of "\<lambda>_. [1]" "NewChunkStore sample_gen" ?p 9, OF new_store_ok p, simplified]
  have "store_inside (NewChunkStore sample_gen) ?p"
    by (simp add: store_inside_def store_InBounds_def NewChunkStore_def sample_gen_def)
  then have "store_cell ?s ?p = 9" "chunks_ok (\<lambda>_. [1]) ?s" using set1 p by simp_all
  moreover have "Gen ?s = sample_gen"
    by (simp add: store_SetBlock_def GetOrGenChunk_def NewChunkStore_def Let_def split: prod.split option.split)
  ultimately show ?thesis using ImportChunks_ExportLoadedChunks[of "\<lambda>_. [1]" ?s] by auto
qed

end
