(* ===== verification/Item_Entities.thy ===== *)
theory Item_Entities
  imports Contract_Flows Grid_Search
begin

text \<open>
  Items lying in the world: the entities of \<open>feature/entities/items/{items,runtime}.go\<close> with their index
  by position (\<open>entities_items_runtime_facade.go\<close>), and the metadata of placed blocks
  (\<open>feature/entities/runtime/{meta,placement}.go\<close>, \<open>entities_runtime_facade.go\<close>).  The lemmas show that
  entities and index stay consistent and say how much of an item lies around after each operation.
\<close>

section \<open>Item entities\<close>

definition ids_at :: "world \<Rightarrow> vec3 \<Rightarrow> string list" where
  "ids_at w p = (case map_of (itemsAt w) p of None \<Rightarrow> [] | Some ids \<Rightarrow> ids)"

definition FindMergeTarget :: "string list \<Rightarrow> string \<Rightarrow> (string \<Rightarrow> item_entity option) \<Rightarrow> string option" where
  "FindMergeTarget ids item load =
     (if item = [] then None
      else case find (\<lambda>eid. case load eid of None \<Rightarrow> False | Some e \<Rightarrow> EItem e = item \<and> ECount e > 0) ids of
             None \<Rightarrow> None
           | Some eid \<Rightarrow> map_option EntityID (load eid))"

definition RemoveID :: "string list \<Rightarrow> string \<Rightarrow> string list" where
  "RemoveID ids eid = remove1 eid ids"

definition SortedExpired :: "string list \<Rightarrow> (string \<Rightarrow> item_entity option) \<Rightarrow> u64 \<Rightarrow> string list" where
  "SortedExpired ids load nowTick =
     sort (filter (\<lambda>eid. case load eid of None \<Rightarrow> False
                        | Some e \<Rightarrow> ExpiresTick e \<noteq> 0 \<and> nowTick \<ge> ExpiresTick e) ids)"

definition EntityTTLTicksDefault :: u64 where
  "EntityTTLTicksDefault = 6000"

definition item_id :: "u64 \<Rightarrow> string" where
  "item_id n = ''IT'' @ pad_dec 6 n"

definition newItemEntityID :: "world \<Rightarrow> string \<times> world" where
  "newItemEntityID w = (let n = nextItemNum w + 1 in (item_id n, w\<lparr>nextItemNum := n\<rparr>))"

definition spawn_audit :: "string \<Rightarrow> string \<Rightarrow> int \<Rightarrow> bool \<Rightarrow> event" where
  "spawn_audit eid item n merged =
     [(''entity_id'', JStr eid), (''item'', JStr item), (''count'', JInt n), (''merged'', JBool merged)]"

text \<open>
  \<open>spawnItemEntity\<close>: merge into an entity of the same item lying there, or file a new one.  The merge
  target is looked up again under the identifier it carries; an entity filed under another key would make
  the code panic, and nothing happens here.
\<close>

definition spawnItemEntity ::
  "u64 \<Rightarrow> string \<Rightarrow> vec3 \<Rightarrow> string \<Rightarrow> int \<Rightarrow> string \<Rightarrow> world \<Rightarrow> string \<times> world" where
  "spawnItemEntity nowTick actor pos item n reason w =
     (if item = [] \<or> n \<le> 0 then ([], w)
      else case FindMergeTarget (ids_at w pos) item (map_of (itemEnts w)) of
        Some mid \<Rightarrow>
          (case map_of (itemEnts w) mid of
             None \<Rightarrow> ([], w)
           | Some e \<Rightarrow>
               let ends = nowTick + EntityTTLTicksDefault;
                   e' = e\<lparr>ECount := i64 (ECount e + n),
                          ExpiresTick := (if ends > ExpiresTick e then ends else ExpiresTick e)\<rparr>
               in (EntityID e,
                   auditEvent nowTick actor ''ITEM_SPAWN'' pos reason (spawn_audit (EntityID e) item n True)
                     (w\<lparr>itemEnts := mput mid e' (itemEnts w)\<rparr>)))
      | None \<Rightarrow>
          (case newItemEntityID w of
             (eid, w) \<Rightarrow>
               let e = \<lparr>EntityID = eid, EPos = pos, EItem = item, ECount = n, ECreatedTick = nowTick,
                        ExpiresTick = nowTick + EntityTTLTicksDefault\<rparr>
               in (eid, auditEvent nowTick actor ''ITEM_SPAWN'' pos reason (spawn_audit eid item n False)
                    (w\<lparr>itemEnts := mput eid e (itemEnts w),
                       itemsAt := mput pos (ids_at w pos @ [eid]) (itemsAt w)\<rparr>))))"

text \<open>The index without an identifier at a position; an empty list is deleted.\<close>

definition unindex :: "vec3 \<Rightarrow> string \<Rightarrow> (vec3 \<times> string list) list \<Rightarrow> (vec3 \<times> string list) list" where
  "unindex p eid idx =
     (let ids = RemoveID (case map_of idx p of None \<Rightarrow> [] | Some ids \<Rightarrow> ids) eid
      in if ids = [] then mdel p idx else mput p ids idx)"

definition removeItemEntity :: "u64 \<Rightarrow> string \<Rightarrow> string \<Rightarrow> string \<Rightarrow> world \<Rightarrow> world" where
  "removeItemEntity nowTick actor eid reason w =
     (case map_of (itemEnts w) eid of
        None \<Rightarrow> w
      | Some e \<Rightarrow>
          auditEvent nowTick actor ''ITEM_DESPAWN'' (EPos e) reason
            [(''entity_id'', JStr eid), (''item'', JStr (EItem e)), (''count'', JInt (ECount e))]
            (w\<lparr>itemEnts := mdel eid (itemEnts w), itemsAt := unindex (EPos e) eid (itemsAt w)\<rparr>))"

definition moveItemEntity :: "u64 \<Rightarrow> string \<Rightarrow> string \<Rightarrow> vec3 \<Rightarrow> string \<Rightarrow> world \<Rightarrow> world" where
  "moveItemEntity nowTick actor eid target reason w =
     (case map_of (itemEnts w) eid of
        None \<Rightarrow> w
      | Some e \<Rightarrow>
          if EPos e = target then w
          else
            let idx = unindex (EPos e) eid (itemsAt w);
                here = (case map_of idx target of None \<Rightarrow> [] | Some ids \<Rightarrow> ids)
            in auditEvent nowTick actor ''ITEM_MOVE'' (EPos e) reason
                 [(''entity_id'', JStr eid), (''to'', JPos (vx target) (vy target) (vz target)),
                  (''item'', JStr (EItem e)), (''count'', JInt (ECount e))]
                 (w\<lparr>itemsAt := mput target (here @ [eid]) idx,
                    itemEnts := mput eid (e\<lparr>EPos := target\<rparr>) (itemEnts w)\<rparr>))"

definition cleanupExpiredItemEntities :: "u64 \<Rightarrow> world \<Rightarrow> world" where
  "cleanupExpiredItemEntities nowTick w =
     (if itemEnts w = [] then w
      else fold (\<lambda>eid w. removeItemEntity nowTick ''WORLD'' eid ''EXPIRE'' w)
             (SortedExpired (map fst (itemEnts w)) (map_of (itemEnts w)) nowTick) w)"

definition canPickupItemEntity :: "world \<Rightarrow> string \<Rightarrow> vec3 \<Rightarrow> bool" where
  "canPickupItemEntity w agentID pos =
     (case landAt w pos of
        None \<Rightarrow> True
      | Some land \<Rightarrow>
          if MaintenanceStage land \<ge> 2 \<and> \<not> isLandMember w agentID (Some land) then True
          else isLandMember w agentID (Some land))"

section \<open>Metadata of placed blocks\<close>

record placement_effects =
  ContainerType :: string
  EnsuresBoard :: bool
  EnsuresSign :: bool
  EnsuresConveyor :: bool
  ConveyorDX :: int
  ConveyorDZ :: int
  EnsuresSwitch :: bool
  SwitchOn0 :: bool

definition no_effects :: placement_effects where
  "no_effects = \<lparr>ContainerType = [], EnsuresBoard = False, EnsuresSign = False, EnsuresConveyor = False,
     ConveyorDX = 0, ConveyorDZ = 0, EnsuresSwitch = False, SwitchOn0 = False\<rparr>"

definition EffectsForPlacedBlock :: "string \<Rightarrow> placement_effects" where
  "EffectsForPlacedBlock blk =
     (if blk \<in> {''CHEST'', ''FURNACE'', ''CONTRACT_TERMINAL''} then no_effects\<lparr>ContainerType := blk\<rparr>
      else if blk = ''BULLETIN_BOARD'' then no_effects\<lparr>EnsuresBoard := True\<rparr>
      else if blk = ''SIGN'' then no_effects\<lparr>EnsuresSign := True\<rparr>
      else if blk = ''CONVEYOR'' then no_effects\<lparr>EnsuresConveyor := True, ConveyorDX := 1, ConveyorDZ := 0\<rparr>
      else if blk = ''SWITCH'' then no_effects\<lparr>EnsuresSwitch := True, SwitchOn0 := False\<rparr>
      else no_effects)"

definition ensureContainer :: "vec3 \<Rightarrow> string \<Rightarrow> world \<Rightarrow> world" where
  "ensureContainer pos typ w =
     (case map_of (containers w) pos of
        Some c \<Rightarrow> w\<lparr>containers := mput pos (c\<lparr>CType := typ\<rparr>) (containers w)\<rparr>
      | None \<Rightarrow> w\<lparr>containers := mput pos \<lparr>CType = typ, CPos = pos, Inventory = [], Reserved = [], Owed = []\<rparr>
                   (containers w)\<rparr>)"

definition removeContainer :: "vec3 \<Rightarrow> world \<Rightarrow> world" where
  "removeContainer pos w = w\<lparr>containers := mdel pos (containers w)\<rparr>"

text \<open>\<open>ids.SignIDAt\<close> and the like: the block's type name and its coordinates.\<close>

definition signIDAt :: "vec3 \<Rightarrow> string" where
  "signIDAt p = ContainerID ''SIGN'' (vx p) (vy p) (vz p)"

definition conveyorIDAt :: "vec3 \<Rightarrow> string" where
  "conveyorIDAt p = ContainerID ''CONVEYOR'' (vx p) (vy p) (vz p)"

definition switchIDAt :: "vec3 \<Rightarrow> string" where
  "switchIDAt p = ContainerID ''SWITCH'' (vx p) (vy p) (vz p)"

definition boardIDAt :: "vec3 \<Rightarrow> string" where
  "boardIDAt p = ContainerID ''BULLETIN_BOARD'' (vx p) (vy p) (vz p)"

definition ensureSign :: "vec3 \<Rightarrow> world \<Rightarrow> world" where
  "ensureSign pos w =
     (case map_of (signs w) pos of
        Some s \<Rightarrow> w\<lparr>signs := mput pos (s\<lparr>SignPos := pos\<rparr>) (signs w)\<rparr>
      | None \<Rightarrow> w\<lparr>signs := mput pos \<lparr>SignPos = pos, SignText = [], SignUpdatedTick = 0, SignUpdatedBy = []\<rparr> (signs w)\<rparr>)"

definition removeSign :: "u64 \<Rightarrow> string \<Rightarrow> vec3 \<Rightarrow> string \<Rightarrow> world \<Rightarrow> world" where
  "removeSign nowTick actor pos reason w =
     (case map_of (signs w) pos of
        None \<Rightarrow> w
      | Some _ \<Rightarrow> auditEvent nowTick actor ''SIGN_REMOVE'' pos reason [(''sign_id'', JStr (signIDAt pos))]
                    (w\<lparr>signs := mdel pos (signs w)\<rparr>))"

definition clamp_unit :: "int \<Rightarrow> int" where
  "clamp_unit d = (if d > 1 then 1 else if d < -1 then -1 else d)"

definition ensureConveyor :: "vec3 \<Rightarrow> int \<Rightarrow> int \<Rightarrow> world \<Rightarrow> world" where
  "ensureConveyor pos dx dz w =
     (let dx = clamp_unit dx; dz = clamp_unit dz; dz = (if dx \<noteq> 0 \<and> dz \<noteq> 0 then 0 else dz)
      in w\<lparr>conveyors := mput pos (dx, dz) (conveyors w)\<rparr>)"

definition removeConveyor :: "u64 \<Rightarrow> string \<Rightarrow> vec3 \<Rightarrow> string \<Rightarrow> world \<Rightarrow> world" where
  "removeConveyor nowTick actor pos reason w =
     (case map_of (conveyors w) pos of
        None \<Rightarrow> w
      | Some _ \<Rightarrow> auditEvent nowTick actor ''CONVEYOR_REMOVE'' pos reason [(''conveyor_id'', JStr (conveyorIDAt pos))]
                    (w\<lparr>conveyors := mdel pos (conveyors w)\<rparr>))"

definition ensureSwitch :: "vec3 \<Rightarrow> bool \<Rightarrow> world \<Rightarrow> world" where
  "ensureSwitch pos on w = w\<lparr>switches := mput pos on (switches w)\<rparr>"

definition removeSwitch :: "u64 \<Rightarrow> string \<Rightarrow> vec3 \<Rightarrow> string \<Rightarrow> world \<Rightarrow> world" where
  "removeSwitch nowTick actor pos reason w =
     (case map_of (switches w) pos of
        None \<Rightarrow> w
      | Some _ \<Rightarrow> auditEvent nowTick actor ''SWITCH_REMOVE'' pos reason [(''switch_id'', JStr (switchIDAt pos))]
                    (w\<lparr>switches := mdel pos (switches w)\<rparr>))"

definition NewPostID :: "u64 \<Rightarrow> string" where
  "NewPostID n = ''P'' @ pad_dec 6 n"

definition ensureBoard :: "vec3 \<Rightarrow> world \<Rightarrow> world" where
  "ensureBoard pos w =
     (case map_of (boards w) (boardIDAt pos) of
        Some _ \<Rightarrow> w
      | None \<Rightarrow> w\<lparr>boards := mput (boardIDAt pos) [] (boards w)\<rparr>)"

definition removeBoard :: "vec3 \<Rightarrow> world \<Rightarrow> world" where
  "removeBoard pos w = w\<lparr>boards := mdel (boardIDAt pos) (boards w)\<rparr>"

definition ensureContainerForPlacedBlock :: "vec3 \<Rightarrow> string \<Rightarrow> world \<Rightarrow> world" where
  "ensureContainerForPlacedBlock pos blk w =
     (let e = EffectsForPlacedBlock blk;
          w = (if ContainerType e \<noteq> [] then ensureContainer pos (ContainerType e) w else w);
          w = (if EnsuresBoard e then ensureBoard pos w else w);
          w = (if EnsuresSign e then ensureSign pos w else w);
          w = (if EnsuresConveyor e then ensureConveyor pos (ConveyorDX e) (ConveyorDZ e) w else w)
      in if EnsuresSwitch e then ensureSwitch pos (SwitchOn0 e) w else w)"

section \<open>The index\<close>

text \<open>
  Entities are filed under their own identifier, come from the counter and hold something; the index lists
  at every position exactly the entities lying there, each once.
\<close>

definition lying_at :: "world \<Rightarrow> vec3 \<Rightarrow> string set" where
  "lying_at w p = {eid. \<exists>e. map_of (itemEnts w) eid = Some e \<and> EPos e = p}"

definition entity_ok :: "u64 \<Rightarrow> string \<Rightarrow> item_entity \<Rightarrow> bool" where
  "entity_ok nxt eid e \<longleftrightarrow> EntityID e = eid \<and> EItem e \<noteq> [] \<and> 0 < ECount e \<and> (\<exists>n \<le> nxt. eid = item_id n)"

definition drops_ok :: "world \<Rightarrow> bool" where
  "drops_ok w \<longleftrightarrow> wf_map (itemEnts w) \<and> wf_map (itemsAt w) \<and>
     (\<forall>eid e. map_of (itemEnts w) eid = Some e \<longrightarrow> entity_ok (nextItemNum w) eid e) \<and>
     (\<forall>p. map_of (itemsAt w) p \<noteq> Some [] \<and> distinct (ids_at w p) \<and> set (ids_at w p) = lying_at w p)"

definition lying :: "world \<Rightarrow> string \<Rightarrow> int" where
  "lying w j = msum (\<lambda>e. if EItem e = j then ECount e else 0) (itemEnts w)"

lemma drops_okD:
  assumes "drops_ok w"
  shows "wf_map (itemEnts w)" "wf_map (itemsAt w)"
    "map_of (itemEnts w) eid = Some e \<Longrightarrow> entity_ok (nextItemNum w) eid e"
    "distinct (ids_at w p)" "set (ids_at w p) = lying_at w p" "map_of (itemsAt w) p \<noteq> Some []"
  using assms by (simp_all add: drops_ok_def)

lemma entity_okD:
  assumes "drops_ok w" and "map_of (itemEnts w) eid = Some e"
  shows "EntityID e = eid" "EItem e \<noteq> []" "0 < ECount e"
  using drops_okD(3)[OF assms] by (simp_all add: entity_ok_def)

lemma lying_nonneg: "drops_ok w \<Longrightarrow> 0 \<le> lying w j"
  unfolding lying_def
proof (rule msum_nonneg)
  fix eid e assume "drops_ok w" and "(eid, e) \<in> set (itemEnts w)"
  then have "map_of (itemEnts w) eid = Some e" by (simp add: drops_ok_def wf_map_def)
  with \<open>drops_ok w\<close> show "0 \<le> (if EItem e = j then ECount e else 0)" by (auto dest: entity_okD(3))
qed

lemma lying_ge:
  assumes "drops_ok w" and e: "map_of (itemEnts w) eid = Some e"
  shows "ECount e \<le> lying w (EItem e)"
proof -
  have "(if EItem e = EItem e then ECount e else 0) \<le> msum (\<lambda>d. if EItem d = EItem e then ECount d else 0) (itemEnts w)"
  proof (rule msum_ge_member[OF map_of_SomeD[OF e]])
    fix k d assume "(k, d) \<in> set (itemEnts w)"
    then have "map_of (itemEnts w) k = Some d" using assms(1) by (simp add: drops_ok_def wf_map_def)
    then show "0 \<le> (if EItem d = EItem e then ECount d else 0)" using assms(1) by (auto dest: entity_okD(3))
  qed
  then show ?thesis by (simp add: lying_def)
qed

lemma drops_same:
  assumes "itemEnts w' = itemEnts w" and "itemsAt w' = itemsAt w" and "nextItemNum w' = nextItemNum w"
  shows "drops_ok w' = drops_ok w" "lying w' = lying w" "ids_at w' = ids_at w" "lying_at w' = lying_at w"
proof -
  show i: "ids_at w' = ids_at w" and l: "lying_at w' = lying_at w"
    using assms by (simp_all add: ids_at_def lying_at_def fun_eq_iff)
  show "drops_ok w' = drops_ok w" by (simp only: drops_ok_def assms i l)
  show "lying w' = lying w" using assms by (simp add: lying_def fun_eq_iff)
qed

text \<open>What stays the same when items on the ground change.\<close>

definition same_rest :: "world \<Rightarrow> world \<Rightarrow> bool" where
  "same_rest w w' \<longleftrightarrow> agents w' = agents w \<and> containers w' = containers w \<and> contracts w' = contracts w \<and>
     orgs w' = orgs w \<and> blocks w' = blocks w \<and> cfg w' = cfg w \<and> cats w' = cats w \<and> conveyors w' = conveyors w \<and>
     switches w' = switches w \<and> airBlock w' = airBlock w \<and> nextContractNum w' = nextContractNum w \<and> claims w' = claims w"

lemma same_rest_refl [simp]: "same_rest w w"
  by (simp add: same_rest_def)

lemma same_rest_trans: "same_rest w w' \<Longrightarrow> same_rest w' w'' \<Longrightarrow> same_rest w w''"
  by (simp add: same_rest_def)

lemma same_rest_audit [simp]: "same_rest w (auditEvent t a ac p r d w') = same_rest w w'"
  by (simp add: same_rest_def auditEvent_def)

lemma audit_drops [simp]:
  "drops_ok (auditEvent t a ac p r d w) = drops_ok w" "lying (auditEvent t a ac p r d w) = lying w"
  "ids_at (auditEvent t a ac p r d w) = ids_at w"
  by (rule drops_same; simp)+

subsection \<open>Removing\<close>

lemma map_of_unindex [gomap]:
  assumes "wf_map idx"
  shows "map_of (unindex p eid idx) q =
    (if q = p then (let ids = remove1 eid (case map_of idx p of None \<Rightarrow> [] | Some ids \<Rightarrow> ids) in if ids = [] then None else Some ids)
     else map_of idx q)"
  using assms by (simp add: unindex_def RemoveID_def Let_def gomap)

lemma wf_unindex [simp]: "wf_map idx \<Longrightarrow> wf_map (unindex p eid idx)"
  by (simp add: unindex_def Let_def wf_map_mput wf_map_mdel)

lemma item_removed:
  assumes ok: "drops_ok w" and e: "map_of (itemEnts w) eid = Some e"
  shows "drops_ok (removeItemEntity now actor eid reason w)"
    and "lying (removeItemEntity now actor eid reason w) j = lying w j - unit_at (EItem e) (ECount e) j"
    and "same_rest w (removeItemEntity now actor eid reason w)"
    and "nextItemNum (removeItemEntity now actor eid reason w) = nextItemNum w"
    and "map_of (itemEnts (removeItemEntity now actor eid reason w)) = (map_of (itemEnts w))(eid := None)"
proof -
  let ?w = "w\<lparr>itemEnts := mdel eid (itemEnts w), itemsAt := unindex (EPos e) eid (itemsAt w)\<rparr>"
  note D = drops_okD[OF ok]
  have ids: "ids_at ?w q = (if q = EPos e then remove1 eid (ids_at w q) else ids_at w q)" for q
    by (auto simp: ids_at_def map_of_unindex[OF D(2)] Let_def split: option.split)
  have at: "lying_at ?w q = lying_at w q - {eid}" for q
    by (auto simp: lying_at_def gomap split: if_splits)
  have notin: "eid \<notin> lying_at w q" if "q \<noteq> EPos e" for q using that e by (simp add: lying_at_def)
  have "drops_ok ?w"
    unfolding drops_ok_def
  proof (intro conjI allI impI)
    fix q show "set (ids_at ?w q) = lying_at ?w q"
      using D(4,5)[of q] notin[of q] by (auto simp: ids at)
  qed (use D ids in \<open>auto simp: gomap map_of_unindex[OF D(2)] Let_def split: if_splits\<close>)
  then show "drops_ok (removeItemEntity now actor eid reason w)" by (simp add: removeItemEntity_def e)
  show "lying (removeItemEntity now actor eid reason w) j = lying w j - unit_at (EItem e) (ECount e) j"
    by (simp add: removeItemEntity_def e lying_def msum_mdel[OF D(1) e] unit_at_def)
  show "same_rest w (removeItemEntity now actor eid reason w)"
    by (simp add: removeItemEntity_def e) (simp add: same_rest_def)
  show "nextItemNum (removeItemEntity now actor eid reason w) = nextItemNum w"
    "map_of (itemEnts (removeItemEntity now actor eid reason w)) = (map_of (itemEnts w))(eid := None)"
    by (simp_all add: removeItemEntity_def e gomap)
qed

subsection \<open>Moving\<close>

lemma item_moved:
  assumes ok: "drops_ok w"
  shows "drops_ok (moveItemEntity now actor eid q reason w)"
    and "lying (moveItemEntity now actor eid q reason w) = lying w"
    and "same_rest w (moveItemEntity now actor eid q reason w)"
    and "nextItemNum (moveItemEntity now actor eid q reason w) = nextItemNum w"
proof -
  note D = drops_okD[OF ok]
  consider (no) "map_of (itemEnts w) eid = None \<or> (\<exists>e. map_of (itemEnts w) eid = Some e \<and> EPos e = q)"
    | (yes) e where "map_of (itemEnts w) eid = Some e" "EPos e \<noteq> q"
    by (cases "map_of (itemEnts w) eid") auto
  then have "drops_ok (moveItemEntity now actor eid q reason w) \<and> lying (moveItemEntity now actor eid q reason w) = lying w \<and>
    same_rest w (moveItemEntity now actor eid q reason w) \<and> nextItemNum (moveItemEntity now actor eid q reason w) = nextItemNum w"
  proof cases
    case no
    then have "moveItemEntity now actor eid q reason w = w" by (auto simp: moveItemEntity_def)
    with ok show ?thesis by simp
  next
    case yes
    let ?idx = "unindex (EPos e) eid (itemsAt w)"
    let ?w = "w\<lparr>itemsAt := mput q ((case map_of ?idx q of None \<Rightarrow> [] | Some ids \<Rightarrow> ids) @ [eid]) ?idx,
                itemEnts := mput eid (e\<lparr>EPos := q\<rparr>) (itemEnts w)\<rparr>"
    have mv: "moveItemEntity now actor eid q reason w = auditEvent now actor ''ITEM_MOVE'' (EPos e) reason
                 [(''entity_id'', JStr eid), (''to'', JPos (vx q) (vy q) (vz q)),
                  (''item'', JStr (EItem e)), (''count'', JInt (ECount e))] ?w"
      using yes by (simp add: moveItemEntity_def Let_def)
    have ids: "ids_at ?w p = (if p = q then ids_at w q @ [eid] else if p = EPos e then remove1 eid (ids_at w p) else ids_at w p)" for p
      using yes(2) by (auto simp: ids_at_def map_of_unindex[OF D(2)] gomap Let_def split: option.split)
    have at: "lying_at ?w p = (if p = q then insert eid (lying_at w q) else lying_at w p - {eid})" for p
      by (auto simp: lying_at_def gomap split: if_splits)
    have notin: "eid \<notin> lying_at w p" if "p \<noteq> EPos e" for p using that yes(1) by (simp add: lying_at_def)
    have "drops_ok ?w"
      unfolding drops_ok_def
    proof (intro conjI allI impI)
      fix p show "set (ids_at ?w p) = lying_at ?w p" using D(4,5)[of p] notin[of p] yes(2) by (auto simp: ids at)
      show "distinct (ids_at ?w p)" using D(4,5)[of p] notin[of p] yes(2) by (auto simp: ids)
    next
      fix k d assume "map_of (itemEnts ?w) k = Some d"
      then show "entity_ok (nextItemNum ?w) k d"
        using D(3)[OF yes(1)] D(3)[of k d] by (auto simp: gomap entity_ok_def split: if_splits)
    next
      fix p show "map_of (itemsAt ?w) p \<noteq> Some []"
        using D(6)[of p] by (auto simp: gomap map_of_unindex[OF D(2)] Let_def)
    qed (use D(1,2) in simp_all)
    moreover have "lying ?w = lying w"
      by (rule ext) (simp add: lying_def msum_mput_Some[OF yes(1)])
    moreover have "same_rest w ?w" by (simp add: same_rest_def)
    ultimately show ?thesis by (simp add: mv)
  qed
  then show "drops_ok (moveItemEntity now actor eid q reason w)" "lying (moveItemEntity now actor eid q reason w) = lying w"
    "same_rest w (moveItemEntity now actor eid q reason w)" "nextItemNum (moveItemEntity now actor eid q reason w) = nextItemNum w"
    by simp_all
qed

subsection \<open>Spawning\<close>

lemma merge_target:
  assumes ok: "drops_ok w" and item: "item \<noteq> []"
  shows "FindMergeTarget ids item (map_of (itemEnts w)) = Some mid \<Longrightarrow>
      mid \<in> set ids \<and> (\<exists>e. map_of (itemEnts w) mid = Some e \<and> EItem e = item)"
    and "FindMergeTarget ids item (map_of (itemEnts w)) = None \<Longrightarrow>
      eid \<in> set ids \<Longrightarrow> map_of (itemEnts w) eid = Some e \<Longrightarrow> EItem e \<noteq> item"
  using item entity_okD[OF ok]
  by (auto simp: FindMergeTarget_def find_Some_iff find_None_iff in_set_conv_nth split: option.splits)

definition item_room :: "world \<Rightarrow> nat \<Rightarrow> bool" where
  "item_room w k \<longleftrightarrow> unat (nextItemNum w) + k < 2 ^ 64"

lemma item_room_less: "item_room w k \<Longrightarrow> j \<le> k \<Longrightarrow> item_room w j"
  by (simp add: item_room_def)

lemma unat_Suc: "unat (n :: u64) + 1 < 2 ^ 64 \<Longrightarrow> unat (n + 1) = unat n + 1"
  by (simp add: unat_word_ariths)

lemma item_id_fresh:
  assumes "drops_ok w" and "item_room w 1"
  shows "map_of (itemEnts w) (item_id (nextItemNum w + 1)) = None"
proof (rule ccontr)
  assume "map_of (itemEnts w) (item_id (nextItemNum w + 1)) \<noteq> None"
  then obtain e where "map_of (itemEnts w) (item_id (nextItemNum w + 1)) = Some e" by auto
  from drops_okD(3)[OF assms(1) this] obtain n where "n \<le> nextItemNum w" "item_id (nextItemNum w + 1) = item_id n"
    by (auto simp: entity_ok_def)
  then have "nextItemNum w + 1 \<le> nextItemNum w" by (auto simp: item_id_def dest!: pad_dec_inj)
  moreover have "unat (nextItemNum w + 1) = unat (nextItemNum w) + 1"
    by (rule unat_Suc) (use assms(2) in \<open>simp add: item_room_def\<close>)
  ultimately show False by (simp add: word_le_nat_alt)
qed

lemma item_spawned:
  assumes ok: "drops_ok w" and room: "item_room w 1" and item: "item \<noteq> []" "0 < n"
    and fits: "lying w item + n < 2 ^ 63"
  shows "drops_ok (snd (spawnItemEntity now actor p item n reason w))" (is "drops_ok ?w'")
    and "lying (snd (spawnItemEntity now actor p item n reason w)) j = lying w j + unit_at item n j"
    and "same_rest w (snd (spawnItemEntity now actor p item n reason w))"
    and "unat (nextItemNum (snd (spawnItemEntity now actor p item n reason w))) \<le> unat (nextItemNum w) + 1"
proof -
  note D = drops_okD[OF ok]
  have "drops_ok ?w' \<and> (\<forall>j. lying ?w' j = lying w j + unit_at item n j) \<and> same_rest w ?w' \<and>
    unat (nextItemNum ?w') \<le> unat (nextItemNum w) + 1"
  proof (cases "FindMergeTarget (ids_at w p) item (map_of (itemEnts w))")
    case (Some mid)
    then obtain e where e: "map_of (itemEnts w) mid = Some e" "EItem e = item" using merge_target(1)[OF ok item(1)] by blast
    let ?e = "e\<lparr>ECount := i64 (ECount e + n), ExpiresTick := (if now + EntityTTLTicksDefault > ExpiresTick e
                  then now + EntityTTLTicksDefault else ExpiresTick e)\<rparr>"
    let ?w = "w\<lparr>itemEnts := mput mid ?e (itemEnts w)\<rparr>"
    have c: "0 < ECount e" by (rule entity_okD(3)[OF ok e(1)])
    have le: "ECount e \<le> lying w item" using lying_ge[OF ok e(1)] e(2) by simp
    have n: "i64 (ECount e + n) = ECount e + n" by (rule i64_nonneg) (use c le item fits in auto)
    have "lying_at ?w q = lying_at w q" for q using e(1) by (auto simp: lying_at_def gomap split: if_splits)
    moreover have "ids_at ?w = ids_at w" by (simp add: ids_at_def fun_eq_iff)
    moreover have "entity_ok (nextItemNum w) k d" if "map_of (itemEnts ?w) k = Some d" for k d
      using that D(3)[of k d] D(3)[OF e(1)] n c item(2) by (auto simp: gomap entity_ok_def split: if_splits)
    ultimately have "drops_ok ?w" using D(1,2,4,5,6) by (simp add: drops_ok_def)
    moreover have "lying ?w j = lying w j + unit_at item n j" for j
      by (simp add: lying_def msum_mput_Some[OF e(1)] n unit_at_def e(2))
    moreover have "same_rest w ?w" by (simp add: same_rest_def)
    ultimately show ?thesis using item Some by (simp add: spawnItemEntity_def e(1) Let_def)
  next
    case None
    let ?id = "item_id (nextItemNum w + 1)"
    let ?e = "\<lparr>EntityID = ?id, EPos = p, EItem = item, ECount = n, ECreatedTick = now,
                ExpiresTick = now + EntityTTLTicksDefault\<rparr>"
    let ?w = "w\<lparr>nextItemNum := nextItemNum w + 1, itemEnts := mput ?id ?e (itemEnts w),
               itemsAt := mput p (ids_at w p @ [?id]) (itemsAt w)\<rparr>"
    have fresh: "map_of (itemEnts w) ?id = None" by (rule item_id_fresh[OF ok room])
    have u: "unat (nextItemNum w + 1) = unat (nextItemNum w) + 1"
      by (rule unat_Suc) (use room in \<open>simp add: item_room_def\<close>)
    have at: "lying_at ?w q = (if q = p then insert ?id (lying_at w p) else lying_at w q)" for q
      using fresh by (auto simp: lying_at_def gomap split: if_splits)
    have new: "?id \<notin> lying_at w p" using fresh by (simp add: lying_at_def)
    have ids: "ids_at ?w q = (if q = p then ids_at w p @ [?id] else ids_at w q)" for q by (simp add: ids_at_def gomap)
    have old: "m \<le> nextItemNum w \<Longrightarrow> m \<le> nextItemNum w + 1" for m using u by (simp add: word_le_nat_alt)
    have "drops_ok ?w"
      unfolding drops_ok_def
    proof (intro conjI allI impI)
      fix k d assume "map_of (itemEnts ?w) k = Some d"
      then show "entity_ok (nextItemNum ?w) k d"
        using D(3)[of k d] item old by (auto simp: gomap entity_ok_def split: if_splits)
    next
      fix q show "map_of (itemsAt ?w) q \<noteq> Some []" "distinct (ids_at ?w q)" "set (ids_at ?w q) = lying_at ?w q"
        using D(4,5,6)[of q] new by (auto simp: gomap ids at)
    qed (use D(1,2) in simp_all)
    moreover have "lying ?w j = lying w j + unit_at item n j" for j
      by (simp add: lying_def msum_mput_None[OF fresh] unit_at_def)
    moreover have "same_rest w ?w" by (simp add: same_rest_def)
    moreover have "ids_at (w\<lparr>nextItemNum := nextItemNum w + 1\<rparr>) p = ids_at w p" by (simp add: ids_at_def)
    ultimately show ?thesis using item None u by (simp add: spawnItemEntity_def newItemEntityID_def Let_def)
  qed
  then show "drops_ok ?w'" "lying ?w' j = lying w j + unit_at item n j" "same_rest w ?w'"
    "unat (nextItemNum ?w') \<le> unat (nextItemNum w) + 1" by simp_all
qed

subsection \<open>Expiry\<close>

lemma cleanup_fold:
  assumes "drops_ok w"
  shows "drops_ok (fold (\<lambda>eid w. removeItemEntity now ''WORLD'' eid ''EXPIRE'' w) ids w) \<and>
    same_rest w (fold (\<lambda>eid w. removeItemEntity now ''WORLD'' eid ''EXPIRE'' w) ids w) \<and>
    map_of (itemEnts (fold (\<lambda>eid w. removeItemEntity now ''WORLD'' eid ''EXPIRE'' w) ids w)) = (map_of (itemEnts w)) |` (- set ids) \<and>
    nextItemNum (fold (\<lambda>eid w. removeItemEntity now ''WORLD'' eid ''EXPIRE'' w) ids w) = nextItemNum w"
  using assms
proof (induction ids arbitrary: w)
  case (Cons i ids)
  let ?w = "removeItemEntity now ''WORLD'' i ''EXPIRE'' w"
  have s: "drops_ok ?w \<and> same_rest w ?w \<and> nextItemNum ?w = nextItemNum w \<and> map_of (itemEnts ?w) = (map_of (itemEnts w))(i := None)"
  proof (cases "map_of (itemEnts w) i")
    case None
    then have "removeItemEntity now ''WORLD'' i ''EXPIRE'' w = w" by (simp add: removeItemEntity_def)
    with Cons.prems None show ?thesis by (simp add: fun_upd_idem)
  qed (use item_removed[OF Cons.prems] in auto)
  have "m(i := None) |` (- set ids) = m |` (- set (i # ids))" for m :: "string \<rightharpoonup> item_entity"
    by (auto simp: restrict_map_def fun_eq_iff)
  then have "(map_of (itemEnts ?w)) |` (- set ids) = (map_of (itemEnts w)) |` (- set (i # ids))"
    using s by (simp only:)
  moreover have "drops_ok ?w" and "same_rest w ?w" and "nextItemNum ?w = nextItemNum w" using s by simp_all
  ultimately show ?case using Cons.IH[of ?w] same_rest_trans[of w ?w] by simp
qed (simp add: restrict_map_def)

lemma cleanup_spec:
  assumes ok: "drops_ok w"
  shows "drops_ok (cleanupExpiredItemEntities now w)" "same_rest w (cleanupExpiredItemEntities now w)"
    "map_of (itemEnts (cleanupExpiredItemEntities now w)) eid =
      (case map_of (itemEnts w) eid of None \<Rightarrow> None
       | Some e \<Rightarrow> if ExpiresTick e \<noteq> 0 \<and> ExpiresTick e \<le> now then None else Some e)"
proof -
  let ?ids = "SortedExpired (map fst (itemEnts w)) (map_of (itemEnts w)) now"
  have mem: "i \<in> set ?ids \<longleftrightarrow> (\<exists>e. map_of (itemEnts w) i = Some e \<and> ExpiresTick e \<noteq> 0 \<and> ExpiresTick e \<le> now)" for i
    by (auto simp: SortedExpired_def split: option.splits dest: map_of_SomeD intro: rev_image_eqI)
  show "drops_ok (cleanupExpiredItemEntities now w)" "same_rest w (cleanupExpiredItemEntities now w)"
    using cleanup_fold[OF ok] ok by (simp_all add: cleanupExpiredItemEntities_def)
  show "map_of (itemEnts (cleanupExpiredItemEntities now w)) eid =
      (case map_of (itemEnts w) eid of None \<Rightarrow> None
       | Some e \<Rightarrow> if ExpiresTick e \<noteq> 0 \<and> ExpiresTick e \<le> now then None else Some e)"
  proof (cases "itemEnts w = []")
    case False
    then have "cleanupExpiredItemEntities now w = fold (\<lambda>eid w. removeItemEntity now ''WORLD'' eid ''EXPIRE'' w) ?ids w"
      by (simp add: cleanupExpiredItemEntities_def)
    moreover have "map_of (itemEnts (fold (\<lambda>eid w. removeItemEntity now ''WORLD'' eid ''EXPIRE'' w) ?ids w)) =
        (map_of (itemEnts w)) |` (- set ?ids)"
      using cleanup_fold[OF ok] by blast
    ultimately show ?thesis
      using mem[of eid] by (auto simp: restrict_map_def simp del: set_sort split: option.split)
  qed (simp add: cleanupExpiredItemEntities_def)
qed

end
