(* ===== verification/Conveyor_Model.thy ===== *)
theory Conveyor_Model
  imports Item_Entities
begin

text \<open>
  The conveyor tick (\<open>feature/conveyor/runtime/system.go\<close>, \<open>runtime.go\<close>, \<open>conveyor_facade.go\<close>): items on
  belts move one cell or into a container, then empty belts pull one item out of the container behind them.
  The lemmas introduce the accounts of the physical world, agents, containers and ground together, and show
  that a tick loses and creates nothing and leaves every reservation alone.
\<close>

section \<open>Blocks and power\<close>

definition blockSolid :: "world \<Rightarrow> blockid \<Rightarrow> bool" where
  "blockSolid w b =
     (let name = blockName w b
      in if name = [] then True
         else case map_of (BlockSolidDefs (cats w)) name of None \<Rightarrow> True | Some solid \<Rightarrow> solid)"

definition containerHasAvailable :: "world \<Rightarrow> vec3 \<Rightarrow> bool" where
  "containerHasAvailable w p =
     (case map_of (containers w) p of
        None \<Rightarrow> False
      | Some c \<Rightarrow> \<exists>item \<in> fst ` set (Inventory c). AvailableCount c item > 0)"

definition sensorOn :: "world \<Rightarrow> vec3 \<Rightarrow> bool" where
  "sensorOn w pos =
     SensorOn pos (\<lambda>p. blockName w (GetBlock w p)) (ids_at w)
       (\<lambda>eid. map_option (\<lambda>e. \<lparr>EntryItem = EItem e, EntryCount = ECount e\<rparr>) (map_of (itemEnts w) eid))
       (containerHasAvailable w)"

definition conveyorEnabled :: "world \<Rightarrow> vec3 \<Rightarrow> bool" where
  "conveyorEnabled w pos =
     Enabled \<lparr>PBlockName = (\<lambda>p. blockName w (GetBlock w p)),
              SwitchOn = (\<lambda>p. case map_of (switches w) p of None \<Rightarrow> False | Some on \<Rightarrow> on),
              PSensorOn = sensorOn w\<rparr> pos 1024"

section \<open>The conveyor tick\<close>

definition sortedLiveItemIDs :: "item_entity gomap \<Rightarrow> string list" where
  "sortedLiveItemIDs items =
     sort (map fst (filter (\<lambda>(eid, e). eid \<noteq> [] \<and> EItem e \<noteq> [] \<and> ECount e > 0) items))"

definition sortedConveyorPositions :: "world \<Rightarrow> blockid \<Rightarrow> vec3 list" where
  "sortedConveyorPositions w conveyorID =
     sort (filter (\<lambda>p. GetBlock w p = conveyorID) (map fst (conveyors w)))"

definition PickAvailableItem :: "items \<Rightarrow> (string \<Rightarrow> int) \<Rightarrow> string" where
  "PickAvailableItem inventory availableCount =
     (case sort (map fst (filter (\<lambda>(item, n). item \<noteq> [] \<and> n > 0 \<and> availableCount item > 0) inventory)) of
        [] \<Rightarrow> []
      | item # _ \<Rightarrow> item)"

definition ahead :: "vec3 \<Rightarrow> conveyor_meta \<Rightarrow> vec3" where
  "ahead p d = \<lparr>vx = i64 (vx p + fst d), vy = vy p, vz = i64 (vz p + snd d)\<rparr>"

definition behind :: "vec3 \<Rightarrow> conveyor_meta \<Rightarrow> vec3" where
  "behind p d = \<lparr>vx = i64 (vx p - fst d), vy = vy p, vz = i64 (vz p - snd d)\<rparr>"

definition belt_insert :: "u64 \<Rightarrow> string \<Rightarrow> item_entity \<Rightarrow> vec3 \<Rightarrow> container \<Rightarrow> world \<Rightarrow> world" where
  "belt_insert nowTick eid e target c w =
     (let w = upd_container target (\<lambda>c. c\<lparr>Inventory := madd (Inventory c) (EItem e) (ECount e)\<rparr>) w;
          w = auditEvent nowTick ''WORLD'' ''CONVEYOR_INSERT'' target ''CONVEYOR''
                [(''entity_id'', JStr (EntityID e)), (''from'', JPos (vx (EPos e)) (vy (EPos e)) (vz (EPos e))),
                 (''container_id'', JStr (container_id c)), (''item'', JStr (EItem e)), (''count'', JInt (ECount e))] w
      in removeItemEntity nowTick ''WORLD'' eid ''CONVEYOR_INSERT'' w)"

definition convey_item :: "u64 \<Rightarrow> blockid \<Rightarrow> string \<Rightarrow> world \<Rightarrow> world" where
  "convey_item nowTick conveyorID eid w =
     (case map_of (itemEnts w) eid of
        None \<Rightarrow> w
      | Some e \<Rightarrow>
          if EItem e = [] \<or> ECount e \<le> 0 then w
          else if GetBlock w (EPos e) \<noteq> conveyorID then w
          else case map_of (conveyors w) (EPos e) of
            None \<Rightarrow> w
          | Some d \<Rightarrow>
              if fst d = 0 \<and> snd d = 0 then w
              else if \<not> conveyorEnabled w (EPos e) then w
              else
                let target = ahead (EPos e) d
                in case map_of (containers w) target of
                     Some c \<Rightarrow> belt_insert nowTick eid e target c w
                   | None \<Rightarrow>
                       if blockSolid w (GetBlock w target) \<and> blockName w (GetBlock w target) \<noteq> ''CONVEYOR'' then w
                       else moveItemEntity nowTick ''WORLD'' eid target ''CONVEYOR_MOVE'' w)"

definition live_at :: "world \<Rightarrow> vec3 \<Rightarrow> bool" where
  "live_at w p \<longleftrightarrow>
     (\<exists>eid \<in> set (ids_at w p). case map_of (itemEnts w) eid of None \<Rightarrow> False
                              | Some e \<Rightarrow> EItem e \<noteq> [] \<and> ECount e > 0)"

definition belt_pull :: "u64 \<Rightarrow> vec3 \<Rightarrow> vec3 \<Rightarrow> string \<Rightarrow> world \<Rightarrow> world" where
  "belt_pull nowTick p src item w =
     (let w = upd_container src (\<lambda>c. c\<lparr>Inventory := mprune (msub (Inventory c) item 1) item\<rparr>) w;
          w = snd (spawnItemEntity nowTick ''WORLD'' p item 1 ''CONVEYOR_PULL'' w)
      in auditEvent nowTick ''WORLD'' ''CONVEYOR_PULL'' p ''CONVEYOR''
           [(''from'', JPos (vx src) (vy src) (vz src)), (''item'', JStr item), (''count'', JInt 1)] w)"

definition convey_pull :: "u64 \<Rightarrow> vec3 \<Rightarrow> world \<Rightarrow> world" where
  "convey_pull nowTick p w =
     (case map_of (conveyors w) p of
        None \<Rightarrow> w
      | Some d \<Rightarrow>
          if fst d = 0 \<and> snd d = 0 then w
          else if \<not> conveyorEnabled w p then w
          else if live_at w p then w
          else case map_of (containers w) (behind p d) of
            None \<Rightarrow> w
          | Some c \<Rightarrow>
              let item = PickAvailableItem (Inventory c) (AvailableCount c)
              in if item = [] then w else belt_pull nowTick p (behind p d) item w)"

definition RunConveyors :: "u64 \<Rightarrow> blockid \<Rightarrow> world \<Rightarrow> world" where
  "RunConveyors nowTick conveyorID w =
     (if conveyors w = [] then w
      else
        let w = (if itemEnts w \<noteq> [] then fold (convey_item nowTick conveyorID) (sortedLiveItemIDs (itemEnts w)) w else w)
        in fold (convey_pull nowTick) (sortedConveyorPositions w conveyorID) w)"

definition systemConveyors :: "u64 \<Rightarrow> world \<Rightarrow> world" where
  "systemConveyors nowTick w =
     (case map_of (BlockIndex (cats w)) ''CONVEYOR'' of
        None \<Rightarrow> w
      | Some conveyorID \<Rightarrow> RunConveyors nowTick conveyorID w)"

section \<open>The accounts of the physical world\<close>

definition all_items :: "world \<Rightarrow> string \<Rightarrow> int" where
  "all_items w j = held w j + lying w j"

definition goods_ok :: "world \<Rightarrow> bool" where
  "goods_ok w \<longleftrightarrow> store_ok w \<and> drops_ok w \<and> (\<forall>j. all_items w j < 2 ^ 63)"

text \<open>
  A change that moves items about: nothing is lost or created, contracts and reservations stay, no container
  appears, disappears or changes its type.
\<close>

definition same_box :: "container \<Rightarrow> container \<Rightarrow> bool" where
  "same_box t t' \<longleftrightarrow> CType t' = CType t \<and> CPos t' = CPos t \<and> Reserved t' = Reserved t"

definition moves_items :: "world \<Rightarrow> world \<Rightarrow> bool" where
  "moves_items w w' \<longleftrightarrow> goods_ok w' \<and> (\<forall>j. all_items w' j = all_items w j) \<and>
     contracts w' = contracts w \<and> nextContractNum w' = nextContractNum w \<and>
     (\<forall>p. rel_option same_box (map_of (containers w) p) (map_of (containers w') p))"

lemma same_box_refl [simp]: "same_box t t"
  by (simp add: same_box_def)

lemma moves_refl: "goods_ok w \<Longrightarrow> moves_items w w"
  by (simp add: moves_items_def option.rel_refl)

lemma moves_goods: "moves_items w w' \<Longrightarrow> goods_ok w'"
  by (simp add: moves_items_def)

lemma moves_trans:
  assumes "moves_items w w1" and "moves_items w1 w2"
  shows "moves_items w w2"
proof -
  have "rel_option same_box (map_of (containers w) p) (map_of (containers w2) p)" for p
    using assms by (auto simp: moves_items_def same_box_def elim!: allE[of _ p] option.rel_cases)
  with assms show ?thesis by (simp add: moves_items_def)
qed

lemma goods_room:
  assumes "goods_ok w"
  shows "map_of (inv_view w) x = Some m \<Longrightarrow> 0 \<le> cnt m j \<and> cnt m j + lying w j < 2 ^ 63"
    and "map_of (containers w) p = Some t \<Longrightarrow> box_ok t \<and> box_items t j + lying w j < 2 ^ 63"
    and "0 \<le> lying w j" "lying w j < 2 ^ 63"
proof -
  have S: "store_ok w" and L: "0 \<le> lying w j" and T: "all_items w j < 2 ^ 63"
    using assms by (simp_all add: goods_ok_def lying_nonneg)
  show "map_of (inv_view w) x = Some m \<Longrightarrow> 0 \<le> cnt m j \<and> cnt m j + lying w j < 2 ^ 63"
    using held_parts(1)[OF S, of x m j] T by (auto simp: all_items_def)
  show b: "map_of (containers w) p = Some t \<Longrightarrow> box_ok t \<and> box_items t j + lying w j < 2 ^ 63" for p t
    using held_parts(2)[OF S, of p t j] T by (auto simp: all_items_def)
  have s1: "0 \<le> msum (\<lambda>m. cnt m j) (inv_view w)"
    by (rule msum_nonneg) (use S in \<open>auto simp: store_ok_def\<close>)
  have s2: "0 \<le> msum (\<lambda>t. box_items t j) (containers w)"
  proof (rule msum_nonneg)
    fix p t assume "(p, t) \<in> set (containers w)"
    then have "map_of (containers w) p = Some t" using S by (simp add: store_ok_def wf_map_def)
    then show "0 \<le> box_items t j" using held_parts(2)[OF S, of p t j] by simp
  qed
  show "0 \<le> lying w j" by (rule L)
  show "lying w j < 2 ^ 63" using s1 s2 T by (simp add: all_items_def held_def)
qed

text \<open>The balance of a change: the parts of the new world in order and the sums equal.\<close>

lemma goods_balance:
  assumes "goods_ok w" and "drops_ok w'" and "\<And>j. held w' j + lying w' j = held w j + lying w j"
    and "wf_map (inv_view w')" and "map_of (inv_view w') [] = None" and "wf_map (containers w')"
    and "\<forall>(x, m) \<in> set (inv_view w'). \<forall>j. 0 \<le> cnt m j" and "\<forall>(p, t) \<in> set (containers w'). box_ok t"
  shows "goods_ok w' \<and> (\<forall>j. all_items w' j = all_items w j)"
proof -
  have eq: "all_items w' j = all_items w j" for j using assms(3)[of j] by (simp add: all_items_def)
  have "held w' j < 2 ^ 63" for j
    using assms(1) eq[of j] lying_nonneg[OF assms(2), of j] by (auto simp: goods_ok_def all_items_def dest: spec[of _ j])
  then show ?thesis using assms eq by (simp add: goods_ok_def store_ok_def)
qed

lemma goods_agent:
  assumes ok: "goods_ok w" and m: "map_of (inv_view w) x = Some m"
    and v: "inv_view w' = mput x m' (inv_view w)" and c: "containers w' = containers w"
    and d: "drops_ok w'" and m': "\<And>j. 0 \<le> cnt m' j"
    and bal: "\<And>j. cnt m' j + lying w' j = cnt m j + lying w j"
    and same: "contracts w' = contracts w" "nextContractNum w' = nextContractNum w"
  shows "moves_items w w'"
proof -
  have S: "store_ok w" using ok by (simp add: goods_ok_def)
  have "goods_ok w' \<and> (\<forall>j. all_items w' j = all_items w j)"
  proof (rule goods_balance[OF ok d])
    show "held w' j + lying w' j = held w j + lying w j" for j
      using bal[of j] by (simp add: held_def v c msum_mput_Some[OF m])
    show "map_of (inv_view w') [] = None" using S m by (auto simp: v gomap store_ok_def)
    show "\<forall>(x, m) \<in> set (inv_view w'). \<forall>j. 0 \<le> cnt m j"
      unfolding v by (rule ball_mput) (use S m' in \<open>simp_all add: store_ok_def\<close>)
  qed (use S in \<open>simp_all add: v c store_ok_def\<close>)
  then show ?thesis using same by (simp add: moves_items_def c option.rel_refl)
qed

lemma goods_box:
  assumes ok: "goods_ok w" and t: "map_of (containers w) p = Some t"
    and v: "inv_view w' = inv_view w" and c: "containers w' = mput p t' (containers w)"
    and d: "drops_ok w'" and t': "box_ok t'" "same_box t t'"
    and bal: "\<And>j. box_items t' j + lying w' j = box_items t j + lying w j"
    and same: "contracts w' = contracts w" "nextContractNum w' = nextContractNum w"
  shows "moves_items w w'"
proof -
  have S: "store_ok w" using ok by (simp add: goods_ok_def)
  have "goods_ok w' \<and> (\<forall>j. all_items w' j = all_items w j)"
  proof (rule goods_balance[OF ok d])
    show "held w' j + lying w' j = held w j + lying w j" for j
      using bal[of j] by (simp add: held_def v c msum_mput_Some[OF t])
    show "\<forall>(p, t) \<in> set (containers w'). box_ok t"
      unfolding c by (rule ball_mput) (use S t' in \<open>simp_all add: store_ok_def\<close>)
  qed (use S in \<open>simp_all add: v c store_ok_def\<close>)
  moreover have "rel_option same_box (map_of (containers w) q) (map_of (containers w') q)" for q
    using t t'(2) by (simp add: c gomap option.rel_refl)
  ultimately show ?thesis using same by (simp add: moves_items_def)
qed

lemma goods_ground:
  assumes ok: "goods_ok w" and d: "drops_ok w'" and l: "lying w' = lying w" and r: "same_rest w w'"
  shows "moves_items w w'"
proof -
  have v: "inv_view w' = inv_view w" and c: "containers w' = containers w"
    using r by (simp_all add: inv_view_def same_rest_def)
  have "goods_ok w' \<and> (\<forall>j. all_items w' j = all_items w j)"
    by (rule goods_balance[OF ok d]) (use ok in \<open>simp_all add: v c l held_def goods_ok_def store_ok_def\<close>)
  then show ?thesis using r by (simp add: moves_items_def c option.rel_refl same_rest_def)
qed

section \<open>A tick moves items\<close>

lemma belt_insert_moves:
  assumes ok: "goods_ok w" and e: "map_of (itemEnts w) eid = Some e" and c: "map_of (containers w) q = Some c"
  shows "moves_items w (belt_insert now eid e q c w)"
proof -
  let ?f = "\<lambda>c. c\<lparr>Inventory := madd (Inventory c) (EItem e) (ECount e)\<rparr>"
  define w1 where "w1 = auditEvent now ''WORLD'' ''CONVEYOR_INSERT'' q ''CONVEYOR''
                [(''entity_id'', JStr (EntityID e)), (''from'', JPos (vx (EPos e)) (vy (EPos e)) (vz (EPos e))),
                 (''container_id'', JStr (container_id c)), (''item'', JStr (EItem e)), (''count'', JInt (ECount e))]
                (upd_container q ?f w)"
  have D: "drops_ok w" using ok by (simp add: goods_ok_def)
  have same: "itemEnts w1 = itemEnts w" "itemsAt w1 = itemsAt w" "nextItemNum w1 = nextItemNum w"
    "agents w1 = agents w" "contracts w1 = contracts w" "nextContractNum w1 = nextContractNum w"
    by (simp_all add: w1_def upd_container_def auditEvent_def split: option.split)
  have cs: "containers w1 = mput q (?f c) (containers w)" by (simp add: w1_def box_op[OF c])
  have D1: "drops_ok w1" and l1: "lying w1 = lying w" using drops_same[OF same(1-3)] D by simp_all
  have e1: "map_of (itemEnts w1) eid = Some e" using e same by simp
  note rem = item_removed[OF D1 e1, of now "''WORLD''" "''CONVEYOR_INSERT''"]
  have b: "box_ok c" "box_items c (EItem e) + lying w (EItem e) < 2 ^ 63" using goods_room(2)[OF ok c] by blast+
  have pos: "0 < ECount e" "ECount e \<le> lying w (EItem e)" by (rule entity_okD(3)[OF D e], rule lying_ge[OF D e])
  have add: "cnt (madd (Inventory c) (EItem e) (ECount e)) j = cnt (Inventory c) j + unit_at (EItem e) (ECount e) j" for j
    by (rule add_count) (use box_okD[OF b(1), of "EItem e"] b(2) pos in linarith)+
  have "belt_insert now eid e q c w = removeItemEntity now ''WORLD'' eid ''CONVEYOR_INSERT'' w1"
    by (simp add: belt_insert_def Let_def w1_def)
  moreover have "moves_items w (removeItemEntity now ''WORLD'' eid ''CONVEYOR_INSERT'' w1)"
  proof (rule goods_box[OF ok c _ _ rem(1)])
    show "inv_view (removeItemEntity now ''WORLD'' eid ''CONVEYOR_INSERT'' w1) = inv_view w"
      "containers (removeItemEntity now ''WORLD'' eid ''CONVEYOR_INSERT'' w1) = mput q (?f c) (containers w)"
      "contracts (removeItemEntity now ''WORLD'' eid ''CONVEYOR_INSERT'' w1) = contracts w"
      "nextContractNum (removeItemEntity now ''WORLD'' eid ''CONVEYOR_INSERT'' w1) = nextContractNum w"
      using rem(3) same cs by (simp_all add: same_rest_def inv_view_def)
    show "box_ok (?f c)"
      using b(1) pos(1) by (auto simp: box_ok_def add intro: order_trans[of _ "cnt (Inventory c) _"])
    show "box_items (?f c) j + lying (removeItemEntity now ''WORLD'' eid ''CONVEYOR_INSERT'' w1) j =
        box_items c j + lying w j" for j
      by (simp add: box_items_def add rem(2) l1)
  qed (simp add: same_box_def)
  ultimately show ?thesis by simp
qed

lemma convey_item_moves: "goods_ok w \<Longrightarrow> moves_items w (convey_item now cid eid w)"
  unfolding convey_item_def Let_def
  by (auto intro: moves_refl belt_insert_moves goods_ground item_moved simp: goods_ok_def[of w] split: option.split)

lemma convey_item_rest:
  assumes "goods_ok w"
  shows "nextItemNum (convey_item now cid eid w) = nextItemNum w \<and> conveyors (convey_item now cid eid w) = conveyors w"
proof -
  have D: "drops_ok w" using assms by (simp add: goods_ok_def)
  have ins: "nextItemNum (belt_insert now eid e q c w) = nextItemNum w \<and> conveyors (belt_insert now eid e q c w) = conveyors w" for e q c
    by (simp add: belt_insert_def Let_def removeItemEntity_def upd_container_def auditEvent_def split: option.split)
  have "conveyors (moveItemEntity now a eid q r w) = conveyors w" for a q r
    using item_moved(3)[OF D] by (simp add: same_rest_def)
  with ins item_moved(4)[OF D] show ?thesis by (auto simp: convey_item_def Let_def split: option.split)
qed

lemma pick_available:
  assumes "PickAvailableItem m avail \<noteq> []"
  shows "0 < avail (PickAvailableItem m avail)"
proof -
  let ?ks = "map fst (filter (\<lambda>(item, n). item \<noteq> [] \<and> n > 0 \<and> avail item > 0) m)"
  have "PickAvailableItem m avail = (case sort ?ks of [] \<Rightarrow> [] | item # _ \<Rightarrow> item)" by (simp only: PickAvailableItem_def)
  then obtain ks where "sort ?ks = PickAvailableItem m avail # ks" using assms by (cases "sort ?ks") simp_all
  then have "PickAvailableItem m avail \<in> set (sort ?ks)" by simp
  then show ?thesis by auto
qed

lemma available_exact:
  assumes "goods_ok w" and "map_of (containers w) p = Some c"
  shows "AvailableCount c j = cnt (Inventory c) j - cnt (Reserved c) j"
proof -
  have "box_ok c" and "box_items c j + lying w j < 2 ^ 63" using goods_room(2)[OF assms] by blast+
  moreover have "0 \<le> lying w j" by (rule goods_room(3)[OF assms(1)])
  ultimately show ?thesis
    unfolding AvailableCount_def ReservedCount_def
    by (intro i64_nonneg) (use box_okD[of c j] in linarith)+
qed

text \<open>Taking items that are not reserved out of a container.\<close>

lemma box_take:
  assumes "goods_ok w" and "map_of (containers w) p = Some c" and "0 \<le> n" and "n \<le> AvailableCount c k"
  defines "c' \<equiv> c\<lparr>Inventory := mprune (msub (Inventory c) k n) k\<rparr>"
  shows "box_ok c'" "same_box c c'" "box_items c' j = box_items c j - unit_at k n j"
    "cnt (Inventory c') j = cnt (Inventory c) j - unit_at k n j"
proof -
  have b: "box_ok c" "box_items c k + lying w k < 2 ^ 63" using goods_room(2)[OF assms(1,2)] by blast+
  have l: "0 \<le> lying w k" by (rule goods_room(3)[OF assms(1)])
  note av = available_exact[OF assms(1,2), of k]
  have "cnt (mprune (msub (Inventory c) k n) k) j = cnt (Inventory c) j - unit_at k n j" for j
    by (rule take_count) (use box_okD[OF b(1), of k] b(2) l assms(3,4) av in linarith)+
  then have t: "cnt (Inventory c') j = cnt (Inventory c) j - unit_at k n j" for j by (simp add: c'_def)
  then show "cnt (Inventory c') j = cnt (Inventory c) j - unit_at k n j" .
  show "box_ok c'" using b(1) assms(4) av by (auto simp: box_ok_def t unit_at_def) (auto simp: c'_def)
  show "same_box c c'" by (simp add: same_box_def c'_def)
  show "box_items c' j = box_items c j - unit_at k n j"
    by (simp add: box_items_def t) (simp add: c'_def)
qed

lemma belt_pull_moves:
  assumes ok: "goods_ok w" and room: "item_room w 1" and c: "map_of (containers w) q = Some c"
    and item: "item \<noteq> []" "AvailableCount c item > 0"
  shows "moves_items w (belt_pull now p q item w)"
    and "unat (nextItemNum (belt_pull now p q item w)) \<le> unat (nextItemNum w) + 1"
    and "conveyors (belt_pull now p q item w) = conveyors w"
proof -
  let ?f = "\<lambda>c. c\<lparr>Inventory := mprune (msub (Inventory c) item 1) item\<rparr>"
  define w1 where "w1 = upd_container q ?f w"
  have D: "drops_ok w" using ok by (simp add: goods_ok_def)
  have same: "itemEnts w1 = itemEnts w" "itemsAt w1 = itemsAt w" "nextItemNum w1 = nextItemNum w"
    "agents w1 = agents w" "contracts w1 = contracts w" "nextContractNum w1 = nextContractNum w" "conveyors w1 = conveyors w"
    by (simp_all add: w1_def upd_container_def split: option.split)
  have cs: "containers w1 = mput q (?f c) (containers w)" by (simp add: w1_def box_op[OF c])
  have D1: "drops_ok w1" and l1: "lying w1 = lying w" using drops_same[OF same(1-3)] D by simp_all
  note take = box_take[OF ok c, of 1 item]
  have b: "box_ok c" "box_items c item + lying w item < 2 ^ 63" using goods_room(2)[OF ok c] by blast+
  have "1 \<le> cnt (Inventory c) item" using item(2) available_exact[OF ok c, of item] box_okD[OF b(1), of item] by linarith
  then have fits: "lying w1 item + 1 < 2 ^ 63" using b box_okD[OF b(1), of item] by (simp add: l1)
  have room1: "item_room w1 1" using room same by (simp add: item_room_def)
  note sp = item_spawned[OF D1 room1 item(1) _ fits, simplified, of now "''WORLD''" p "''CONVEYOR_PULL''"]
  let ?w2 = "snd (spawnItemEntity now ''WORLD'' p item 1 ''CONVEYOR_PULL'' w1)"
  have bp: "belt_pull now p q item w = auditEvent now ''WORLD'' ''CONVEYOR_PULL'' p ''CONVEYOR''
           [(''from'', JPos (vx q) (vy q) (vz q)), (''item'', JStr item), (''count'', JInt 1)] ?w2"
    by (simp add: belt_pull_def Let_def w1_def)
  have "moves_items w (belt_pull now p q item w)"
  proof (rule goods_box[OF ok c])
    show "inv_view (belt_pull now p q item w) = inv_view w"
      "containers (belt_pull now p q item w) = mput q (?f c) (containers w)"
      "contracts (belt_pull now p q item w) = contracts w"
      "nextContractNum (belt_pull now p q item w) = nextContractNum w"
      using sp(3) same cs by (simp_all add: bp same_rest_def inv_view_def auditEvent_def)
    show "drops_ok (belt_pull now p q item w)" using sp(1) by (simp add: bp)
    show "box_ok (?f c)" "same_box c (?f c)" using take item(2) by simp_all
    show "box_items (?f c) j + lying (belt_pull now p q item w) j = box_items c j + lying w j" for j
      using take(3) item(2) sp(2)[of j] by (simp add: bp l1)
  qed
  then show "moves_items w (belt_pull now p q item w)" .
  show "unat (nextItemNum (belt_pull now p q item w)) \<le> unat (nextItemNum w) + 1"
    using sp(4) same(3) by (simp add: bp auditEvent_def)
  show "conveyors (belt_pull now p q item w) = conveyors w"
    using sp(3) same(7) by (simp add: bp same_rest_def auditEvent_def)
qed

lemma convey_pull_moves:
  assumes "goods_ok w" and "item_room w 1"
  shows "moves_items w (convey_pull now p w) \<and> unat (nextItemNum (convey_pull now p w)) \<le> unat (nextItemNum w) + 1"
  using assms pick_available
  by (auto simp: convey_pull_def Let_def intro!: moves_refl belt_pull_moves(1) belt_pull_moves(2)[simplified] split: option.split)

lemma convey_items_move:
  assumes "goods_ok w"
  shows "moves_items w (fold (convey_item now cid) ids w) \<and> nextItemNum (fold (convey_item now cid) ids w) = nextItemNum w \<and>
    conveyors (fold (convey_item now cid) ids w) = conveyors w"
  using assms
proof (induction ids arbitrary: w)
  case (Cons i ids)
  have "moves_items w (convey_item now cid i w)" by (rule convey_item_moves[OF Cons.prems])
  moreover note Cons.IH[OF moves_goods[OF this]] convey_item_rest[OF Cons.prems, of now cid i]
  ultimately show ?case by (auto intro: moves_trans)
qed (simp add: moves_refl)

lemma convey_pulls_move:
  assumes "goods_ok w" and "item_room w (length ps)"
  shows "moves_items w (fold (convey_pull now) ps w)"
  using assms
proof (induction ps arbitrary: w)
  case (Cons p ps)
  have m: "moves_items w (convey_pull now p w)" and "unat (nextItemNum (convey_pull now p w)) \<le> unat (nextItemNum w) + 1"
    using convey_pull_moves[OF Cons.prems(1)] item_room_less[OF Cons.prems(2)] by auto
  with Cons.prems(2) have "item_room (convey_pull now p w) (length ps)" by (simp add: item_room_def)
  from Cons.IH[OF moves_goods[OF m] this] m show ?case by (auto intro: moves_trans)
qed (simp add: moves_refl)

lemma RunConveyors_moves:
  assumes ok: "goods_ok w" and room: "item_room w (length (conveyors w))"
  shows "moves_items w (RunConveyors now cid w)"
proof -
  define w1 where "w1 = (if itemEnts w \<noteq> [] then fold (convey_item now cid) (sortedLiveItemIDs (itemEnts w)) w else w)"
  have 1: "moves_items w w1" "nextItemNum w1 = nextItemNum w" "conveyors w1 = conveyors w"
    using convey_items_move[OF ok] moves_refl[OF ok] by (simp_all add: w1_def)
  have "length (sortedConveyorPositions w1 cid) \<le> length (conveyors w)"
      using length_filter_le[of "\<lambda>p. GetBlock w1 p = cid" "map fst (conveyors w)"] by (simp add: sortedConveyorPositions_def 1(3))
  then have "item_room w1 (length (sortedConveyorPositions w1 cid))" using room 1(2) by (simp add: item_room_def)
  with 1 have "moves_items w (fold (convey_pull now) (sortedConveyorPositions w1 cid) w1)"
    by (blast intro: moves_trans convey_pulls_move moves_goods)
  with moves_refl[OF ok] show ?thesis by (simp add: RunConveyors_def Let_def w1_def)
qed

lemma systemConveyors_moves:
  assumes "goods_ok w" and "item_room w (length (conveyors w))"
  shows "moves_items w (systemConveyors now w)"
  using RunConveyors_moves[OF assms] moves_refl[OF assms(1)] by (simp add: systemConveyors_def split: option.split)

end
