(* ===== verification/Work_Tasks.thy ===== *)
theory Work_Tasks
  imports Conveyor_Model Claim_Handlers
begin

text \<open>
  Work tasks: the requests that start them (\<open>feature/work/runtime/{requests,blueprint_request}.go\<close>) and what
  one tick of each task does (\<open>execution_*.go\<close>, \<open>pull.go\<close> with the hooks of \<open>tasks_adapter_factory.go\<close>,
  \<open>work_tasks_facade.go\<close>, \<open>director_events_facade.go\<close>).  A handler works on the agent under \<open>aid\<close>; its
  work task is the value the agent holds, so a tick that counts \<open>WorkTicks\<close> stores it back.
\<close>

section \<open>Requests\<close>

definition newTaskID :: "world \<Rightarrow> string \<times> world" where
  "newTaskID w = (let n = nextTaskNum w + 1 in (''T'' @ pad_dec 6 n, w\<lparr>nextTaskNum := n\<rparr>))"

definition new_work :: "string \<Rightarrow> task_kind \<Rightarrow> u64 \<Rightarrow> work_task" where
  "new_work tid kind nowTick = \<lparr>WTaskID = tid, WKind = kind, BlockPos = \<lparr>vx = 0, vy = 0, vz = 0\<rparr>, RecipeID = [],
     ItemID = [], Count = 0, WBlueprintID = [], WAnchor = \<lparr>vx = 0, vy = 0, vz = 0\<rparr>, WRotation = 0, BuildIndex = 0,
     WTargetID = [], SrcContainer = [], DstContainer = [], WStartedTick = nowTick, WorkTicks = 0\<rparr>"

text \<open>The end of every accepted request: a fresh identifier, the task in the slot, the answer.\<close>

definition start_work :: "string \<Rightarrow> task_req \<Rightarrow> u64 \<Rightarrow> task_kind \<Rightarrow> (work_task \<Rightarrow> work_task) \<Rightarrow> world \<Rightarrow> world" where
  "start_work aid tr nowTick kind fill w =
     (case newTaskID w of
        (tid, w) \<Rightarrow>
          emit aid [(''t'', JU64 nowTick), (''type'', JStr ''ACTION_RESULT''), (''ref'', JStr (TaskID tr)),
                    (''ok'', JBool True), (''task_id'', JStr tid)]
            (upd_agent aid (\<lambda>a. a\<lparr>WorkTask := Some (fill (new_work tid kind nowTick))\<rparr>) w))"

definition flat_pos :: "int \<times> int \<times> int \<Rightarrow> vec3" where
  "flat_pos t = (case t of (x, y, z) \<Rightarrow> \<lparr>vx = x, vy = 0, vz = z\<rparr>)"

definition refuse_task :: "string \<Rightarrow> task_req \<Rightarrow> u64 \<Rightarrow> string \<Rightarrow> string \<Rightarrow> world \<Rightarrow> world" where
  "refuse_task aid tr nowTick code msg w = reply aid nowTick (TaskID tr) False code msg w"

definition work_busy :: "string \<Rightarrow> world \<Rightarrow> bool" where
  "work_busy aid w \<longleftrightarrow> (case map_of (agents w) aid of None \<Rightarrow> False | Some a \<Rightarrow> WorkTask a \<noteq> None)"

definition HandleTaskMine :: "string \<Rightarrow> task_req \<Rightarrow> u64 \<Rightarrow> world \<Rightarrow> world" where
  "HandleTaskMine aid tr nowTick w =
     (if \<not> AllowMine (cfg w) then refuse_task aid tr nowTick ''E_NO_PERMISSION'' ''mining disabled in this world'' w
      else if work_busy aid w then refuse_task aid tr nowTick ''E_CONFLICT'' ''work task slot occupied'' w
      else if fst (snd (TaskBlockPos tr)) \<noteq> 0 then
        refuse_task aid tr nowTick ''E_INVALID_TARGET'' ''2D world requires y==0'' w
      else start_work aid tr nowTick KindMine (\<lambda>t. t\<lparr>BlockPos := flat_pos (TaskBlockPos tr)\<rparr>) w)"

definition HandleTaskGather :: "string \<Rightarrow> task_req \<Rightarrow> u64 \<Rightarrow> world \<Rightarrow> world" where
  "HandleTaskGather aid tr nowTick w =
     (if work_busy aid w then refuse_task aid tr nowTick ''E_CONFLICT'' ''work task slot occupied'' w
      else if TargetID tr = [] then refuse_task aid tr nowTick ''E_BAD_REQUEST'' ''missing target_id'' w
      else if map_of (itemEnts w) (TargetID tr) = None then
        refuse_task aid tr nowTick ''E_INVALID_TARGET'' ''item entity not found'' w
      else start_work aid tr nowTick KindGather (\<lambda>t. t\<lparr>WTargetID := TargetID tr\<rparr>) w)"

definition HandleTaskPlace :: "string \<Rightarrow> task_req \<Rightarrow> u64 \<Rightarrow> world \<Rightarrow> world" where
  "HandleTaskPlace aid tr nowTick w =
     (if \<not> AllowPlace (cfg w) then refuse_task aid tr nowTick ''E_NO_PERMISSION'' ''placing disabled in this world'' w
      else if work_busy aid w then refuse_task aid tr nowTick ''E_CONFLICT'' ''work task slot occupied'' w
      else if TaskItemID tr = [] then refuse_task aid tr nowTick ''E_BAD_REQUEST'' ''missing item_id'' w
      else if fst (snd (TaskBlockPos tr)) \<noteq> 0 then
        refuse_task aid tr nowTick ''E_INVALID_TARGET'' ''2D world requires y==0'' w
      else start_work aid tr nowTick KindPlace
             (\<lambda>t. t\<lparr>ItemID := TaskItemID tr, BlockPos := flat_pos (TaskBlockPos tr)\<rparr>) w)"

definition HandleTaskOpen :: "string \<Rightarrow> task_req \<Rightarrow> u64 \<Rightarrow> world \<Rightarrow> world" where
  "HandleTaskOpen aid tr nowTick w =
     (if work_busy aid w then refuse_task aid tr nowTick ''E_CONFLICT'' ''work task slot occupied'' w
      else if TargetID tr = [] then refuse_task aid tr nowTick ''E_BAD_REQUEST'' ''missing target_id'' w
      else start_work aid tr nowTick KindOpen (\<lambda>t. t\<lparr>WTargetID := TargetID tr\<rparr>) w)"

definition HandleTaskTransfer :: "string \<Rightarrow> task_req \<Rightarrow> u64 \<Rightarrow> world \<Rightarrow> world" where
  "HandleTaskTransfer aid tr nowTick w =
     (if work_busy aid w then refuse_task aid tr nowTick ''E_CONFLICT'' ''work task slot occupied'' w
      else if Src tr = [] \<or> Dst tr = [] \<or> TaskItemID tr = [] \<or> TaskCount tr \<le> 0 then
        refuse_task aid tr nowTick ''E_BAD_REQUEST'' ''missing src/dst/item_id/count'' w
      else start_work aid tr nowTick KindTransfer
             (\<lambda>t. t\<lparr>SrcContainer := Src tr, DstContainer := Dst tr, ItemID := TaskItemID tr, Count := TaskCount tr\<rparr>) w)"

definition HandleTaskCraft :: "string \<Rightarrow> task_req \<Rightarrow> u64 \<Rightarrow> world \<Rightarrow> world" where
  "HandleTaskCraft aid tr nowTick w =
     (if work_busy aid w then refuse_task aid tr nowTick ''E_CONFLICT'' ''work task slot occupied'' w
      else if TaskRecipeID tr = [] \<or> TaskCount tr \<le> 0 then
        refuse_task aid tr nowTick ''E_BAD_REQUEST'' ''missing recipe_id/count'' w
      else if map_of (Recipes (cats w)) (TaskRecipeID tr) = None then
        refuse_task aid tr nowTick ''E_INVALID_TARGET'' ''unknown recipe'' w
      else start_work aid tr nowTick KindCraft (\<lambda>t. t\<lparr>RecipeID := TaskRecipeID tr, Count := TaskCount tr\<rparr>) w)"

definition HandleTaskSmelt :: "string \<Rightarrow> task_req \<Rightarrow> u64 \<Rightarrow> world \<Rightarrow> world" where
  "HandleTaskSmelt aid tr nowTick w =
     (if work_busy aid w then refuse_task aid tr nowTick ''E_CONFLICT'' ''work task slot occupied'' w
      else if TaskItemID tr = [] \<or> TaskCount tr \<le> 0 then
        refuse_task aid tr nowTick ''E_BAD_REQUEST'' ''missing item_id/count'' w
      else if map_of (smeltByInput w) (TaskItemID tr) = None then
        refuse_task aid tr nowTick ''E_INVALID_TARGET'' ''unsupported smelt item'' w
      else start_work aid tr nowTick KindSmelt (\<lambda>t. t\<lparr>ItemID := TaskItemID tr, Count := TaskCount tr\<rparr>) w)"

definition HandleTaskBuildBlueprint :: "string \<Rightarrow> task_req \<Rightarrow> u64 \<Rightarrow> world \<Rightarrow> world" where
  "HandleTaskBuildBlueprint aid tr nowTick w =
     (if \<not> WAllowBuild (cfg w) then
        refuse_task aid tr nowTick ''E_NO_PERMISSION'' ''blueprint build disabled in this world'' w
      else if work_busy aid w then refuse_task aid tr nowTick ''E_CONFLICT'' ''work task slot occupied'' w
      else if TaskBlueprintID tr = [] then refuse_task aid tr nowTick ''E_BAD_REQUEST'' ''missing blueprint_id'' w
      else if fst (snd (TaskAnchor tr)) \<noteq> 0 then
        refuse_task aid tr nowTick ''E_INVALID_TARGET'' ''2D world requires y==0'' w
      else if map_of (Blueprints (cats w)) (TaskBlueprintID tr) = None then
        refuse_task aid tr nowTick ''E_INVALID_TARGET'' ''unknown blueprint'' w
      else start_work aid tr nowTick KindBuildBlueprint
             (\<lambda>t. t\<lparr>WBlueprintID := TaskBlueprintID tr, WAnchor := flat_pos (TaskAnchor tr),
                    WRotation := NormalizeRotation (TaskRotation tr), BuildIndex := 0\<rparr>) w)"

section \<open>The end of a task\<close>

definition clear_work :: "string \<Rightarrow> world \<Rightarrow> world" where
  "clear_work aid w = upd_agent aid (\<lambda>a. a\<lparr>WorkTask := None\<rparr>) w"

definition task_fail :: "string \<Rightarrow> u64 \<Rightarrow> work_task \<Rightarrow> string \<Rightarrow> string \<Rightarrow> world \<Rightarrow> world" where
  "task_fail aid nowTick wt code msg w =
     emit aid [(''t'', JU64 nowTick), (''type'', JStr ''TASK_FAIL''), (''task_id'', JStr (WTaskID wt)),
               (''code'', JStr code), (''message'', JStr msg)] (clear_work aid w)"

definition task_done :: "string \<Rightarrow> u64 \<Rightarrow> work_task \<Rightarrow> world \<Rightarrow> world" where
  "task_done aid nowTick wt w =
     emit aid [(''t'', JU64 nowTick), (''type'', JStr ''TASK_DONE''), (''task_id'', JStr (WTaskID wt)),
               (''kind'', JStr (task_kind_string (WKind wt)))] (clear_work aid w)"

text \<open>A denied action: the task ends, the law reputation drops by one, the denial is counted.\<close>

definition record_denied :: "u64 \<Rightarrow> world \<Rightarrow> world" where
  "record_denied nowTick w = w\<lparr>stats := RecordDenied nowTick (stats w)\<rparr>"

definition task_denied :: "string \<Rightarrow> u64 \<Rightarrow> work_task \<Rightarrow> string \<Rightarrow> world \<Rightarrow> world" where
  "task_denied aid nowTick wt msg w =
     task_fail aid nowTick wt ''E_NO_PERMISSION'' msg (record_denied nowTick (bumpRepLaw aid (- 1) w))"

definition store_work :: "string \<Rightarrow> work_task \<Rightarrow> world \<Rightarrow> world" where
  "store_work aid wt w = upd_agent aid (\<lambda>a. a\<lparr>WorkTask := Some wt\<rparr>) w"

end
