(* ===== verification/Work_Exec.thy ===== *)
theory Work_Exec
  imports Work_Tasks
begin

text \<open>
  One tick of a work task (\<open>feature/work/runtime/execution_{mine,gather_place,craft_smelt,interact}.go\<close>,
  \<open>feature/work/mining/mining.go\<close>, \<open>feature/work/interact/interact.go\<close>): mining, gathering, placing, crafting,
  smelting, opening and transferring, with the event rewards of \<open>director_events_facade.go\<close>.
\<close>

section \<open>Mining\<close>

datatype tool_family = PickaxeFamily | AxeFamily | ShovelFamily

definition MineToolFamilyForBlock :: "string \<Rightarrow> tool_family" where
  "MineToolFamilyForBlock blk =
     (if blk \<in> {''DIRT'', ''GRASS'', ''SAND'', ''GRAVEL''} then ShovelFamily
      else if blk \<in> {''LOG'', ''PLANK''} then AxeFamily
      else PickaxeFamily)"

fun family_suffix :: "tool_family \<Rightarrow> string" where
  "family_suffix PickaxeFamily = ''PICKAXE''"
| "family_suffix AxeFamily = ''AXE''"
| "family_suffix ShovelFamily = ''SHOVEL''"

definition BestToolTier :: "items \<Rightarrow> tool_family \<Rightarrow> int" where
  "BestToolTier m family =
     (if cnt m (''IRON_'' @ family_suffix family) > 0 then 3
      else if cnt m (''STONE_'' @ family_suffix family) > 0 then 2
      else if cnt m (''WOOD_'' @ family_suffix family) > 0 then 1
      else 0)"

definition MineParamsForTier :: "int \<Rightarrow> int \<times> int" where
  "MineParamsForTier tier =
     (if tier = 3 then (4, 9) else if tier = 2 then (6, 11) else if tier = 1 then (8, 13) else (10, 15))"

definition blockIDToItem :: "world \<Rightarrow> blockid \<Rightarrow> string" where
  "blockIDToItem w b =
     (let name = blockName w b
      in if unat b \<ge> length (Palette (cats w)) then []
         else if name \<in> set (ItemDefs (cats w)) then name
         else if name = ''COAL_ORE'' then ''COAL''
         else if name = ''IRON_ORE'' then ''IRON_ORE''
         else if name = ''COPPER_ORE'' then ''COPPER_ORE''
         else if name = ''CRYSTAL_ORE'' then ''CRYSTAL_SHARD''
         else [])"

text \<open>Fines and tickets go to the owning agent, else to the treasury of the owning organization, else nowhere.\<close>

definition TransferToLandOwner :: "string \<Rightarrow> string \<Rightarrow> int \<Rightarrow> world \<Rightarrow> world" where
  "TransferToLandOwner ownerID item n w =
     (if ownerID = [] \<or> item = [] \<or> n \<le> 0 then w
      else case map_of (agents w) ownerID of
             Some _ \<Rightarrow> give_agent ownerID item n w
           | None \<Rightarrow> (case orgByID w ownerID of
                        Some _ \<Rightarrow> ref_add get_inv put_inv (TreasuryInv ownerID) item n w
                      | None \<Rightarrow> w))"

record mine_outcome =
  MGrantItem :: string
  MGrantCount :: int
  MGoalKind :: string
  MNarrative :: int

definition MineOutcome :: "string \<Rightarrow> string \<Rightarrow> mine_outcome option" where
  "MineOutcome eventID blk =
     (if eventID = ''CRYSTAL_RIFT'' then
        (if blk \<noteq> ''CRYSTAL_ORE'' then None
         else Some \<lparr>MGrantItem = ''CRYSTAL_SHARD'', MGrantCount = 1, MGoalKind = ''MINE_CRYSTAL'', MNarrative = 5\<rparr>)
      else if eventID = ''DEEP_VEIN'' then
        (if blk \<in> {''IRON_ORE'', ''COPPER_ORE''}
         then Some \<lparr>MGrantItem = blk, MGrantCount = 1, MGoalKind = ''MINE_VEIN'', MNarrative = 5\<rparr>
         else None)
      else None)"

definition in_event_area :: "world \<Rightarrow> vec3 \<Rightarrow> bool" where
  "in_event_area w pos \<longleftrightarrow> activeEventID w \<noteq> [] \<and> \<not> activeEventRadius w \<le> 0 \<and>
     \<not> distXZ pos (activeEventCenter w) > activeEventRadius w"

definition event_goal :: "world \<Rightarrow> u64 \<Rightarrow> string \<Rightarrow> event" where
  "event_goal w nowTick kind =
     [(''t'', JU64 nowTick), (''type'', JStr ''EVENT_GOAL''), (''event_id'', JStr (activeEventID w)), (''kind'', JStr kind)]"

definition onMinedBlockDuringEvent :: "go_floats \<Rightarrow> string \<Rightarrow> vec3 \<Rightarrow> string \<Rightarrow> u64 \<Rightarrow> world \<Rightarrow> world" where
  "onMinedBlockDuringEvent fl aid pos blk nowTick w =
     (if blk = [] \<or> \<not> in_event_area w pos then w
      else case MineOutcome (activeEventID w) blk of
             None \<Rightarrow> w
           | Some out \<Rightarrow>
               upd_agent aid (\<lambda>a.
                 let a = (if MGrantItem out \<noteq> [] \<and> MGrantCount out > 0
                          then a\<lparr>AInventory := madd (AInventory a) (MGrantItem out) (MGrantCount out)\<rparr> else a);
                     a = funOnWorldEventParticipation (activeEventID w) nowTick a;
                     a = (if MNarrative out > 0
                          then award fl w nowTick ''NARRATIVE'' ''event_mine''
                                 (''narrative:event_mine:'' @ activeEventID w) (MNarrative out) a
                          else a)
                 in if MGoalKind out \<noteq> [] then AddEvent (event_goal w nowTick (MGoalKind out)) a else a) w)"

text \<open>The fine for breaking without permission: what the agent has of it, up to the fine.\<close>

definition break_fine :: "string \<Rightarrow> vec3 \<Rightarrow> u64 \<Rightarrow> world \<Rightarrow> world" where
  "break_fine aid pos nowTick w =
     (case (map_of (agents w) aid, permissionsFor w aid pos) of
        (Some a, Some land, perms) \<Rightarrow>
          let item = trim_space (FineBreakItem land)
          in if \<not> isLandMember w aid (Some land) \<and> \<not> CanBreak perms \<and> FineBreakEnabled land \<and>
                FineBreakPerBlock land > 0 \<and> item \<noteq> []
             then
               let fine = FineBreakPerBlock land;
                   has = cnt (AInventory a) item;
                   pay = (if has < fine then has else fine)
               in if pay > 0 then
                    emit aid [(''t'', JU64 nowTick), (''type'', JStr ''FINE''), (''land_id'', JStr (LandID land)),
                              (''item'', JStr item), (''count'', JInt pay), (''reason'', JStr ''BREAK_DENIED'')]
                      (TransferToLandOwner (Owner land) item pay (take_agent aid item pay w))
                  else w
             else w
      | _ \<Rightarrow> w)"

definition storage_blocks :: "string list" where
  "storage_blocks = [''CHEST'', ''FURNACE'', ''CONTRACT_TERMINAL'']"

text \<open>Emptying a container that is mined: its inventory and what it owes the miner; the rest is lost.\<close>

definition give_positive :: "string \<Rightarrow> items \<Rightarrow> world \<Rightarrow> world" where
  "give_positive aid its w = for_items (\<lambda>item n w. if n > 0 then give_agent aid item n w else w) its w"

definition empty_container :: "string \<Rightarrow> vec3 \<Rightarrow> container \<Rightarrow> world \<Rightarrow> world" where
  "empty_container aid pos c w =
     (let w = give_positive aid (Inventory c) w;
          w = (case map_of (Owed c) aid of None \<Rightarrow> w | Some owed \<Rightarrow> give_positive aid owed w)
      in removeContainer pos w)"

definition mine_metadata :: "string \<Rightarrow> vec3 \<Rightarrow> string \<Rightarrow> u64 \<Rightarrow> world \<Rightarrow> world" where
  "mine_metadata aid pos blk nowTick w =
     (if blk \<in> set storage_blocks then
        (case map_of (containers w) pos of None \<Rightarrow> w | Some c \<Rightarrow> empty_container aid pos c w)
      else if blk = ''BULLETIN_BOARD'' then removeBoard pos w
      else if blk = ''SIGN'' then removeSign nowTick aid pos ''MINE'' w
      else if blk = ''CONVEYOR'' then removeConveyor nowTick aid pos ''MINE'' w
      else if blk = ''SWITCH'' then removeSwitch nowTick aid pos ''MINE'' w
      else if blk = ''CLAIM_TOTEM'' then removeClaimByAnchor nowTick aid pos ''MINE'' w
      else w)"

definition box_reserved :: "world \<Rightarrow> vec3 \<Rightarrow> bool" where
  "box_reserved w pos \<longleftrightarrow> (case map_of (containers w) pos of None \<Rightarrow> False | Some c \<Rightarrow> Reserved c \<noteq> [])"

text \<open>The block breaks: metadata, the block itself, the drop, the event reward.\<close>

definition break_block :: "go_floats \<Rightarrow> string \<Rightarrow> work_task \<Rightarrow> vec3 \<Rightarrow> blockid \<Rightarrow> u64 \<Rightarrow> world \<Rightarrow> world" where
  "break_block fl aid wt pos b nowTick w =
     (let blk = blockName w b;
          w = mine_metadata aid pos blk nowTick w;
          air = airBlock w;
          w = auditSetBlock nowTick aid pos b air ''MINE'' (SetBlock pos air w);
          item = blockIDToItem w b;
          w = (if item \<noteq> [] then snd (spawnItemEntity nowTick aid pos item 1 ''MINE_DROP'' w) else w);
          w = onMinedBlockDuringEvent fl aid pos blk nowTick w
      in task_done aid nowTick wt w)"

definition TickMine :: "go_floats \<Rightarrow> string \<Rightarrow> work_task \<Rightarrow> u64 \<Rightarrow> world \<Rightarrow> world" where
  "TickMine fl aid wt nowTick w =
     (case map_of (agents w) aid of
        None \<Rightarrow> w
      | Some a \<Rightarrow>
          let pos = BlockPos wt
          in if Manhattan (APos a) pos > 2 then task_fail aid nowTick wt ''E_INVALID_TARGET'' ''too far'' w
             else if \<not> canBreakAt fl w aid pos nowTick then
               task_denied aid nowTick wt ''break denied'' (break_fine aid pos nowTick w)
             else
               let b = GetBlock w pos
               in if b = airBlock w then task_fail aid nowTick wt ''E_INVALID_TARGET'' ''no block'' w
                  else
                    let blk = blockName w b;
                        (work, stamina) = MineParamsForTier (BestToolTier (AInventory a) (MineToolFamilyForBlock blk))
                    in if StaminaMilli a < stamina then w
                       else
                         let w = upd_agent aid (\<lambda>a. a\<lparr>StaminaMilli := i64 (StaminaMilli a - stamina)\<rparr>) w;
                             wt = wt\<lparr>WorkTicks := i64 (WorkTicks wt + 1)\<rparr>;
                             w = store_work aid wt w
                         in if WorkTicks wt < work then w
                            else if blk \<in> set storage_blocks \<and> box_reserved w pos then
                              task_fail aid nowTick wt ''E_BLOCKED'' ''container has reserved items'' w
                            else break_block fl aid wt pos b nowTick w)"

section \<open>Gathering and placing\<close>

definition TickGather :: "string \<Rightarrow> work_task \<Rightarrow> u64 \<Rightarrow> world \<Rightarrow> world" where
  "TickGather aid wt nowTick w =
     (case map_of (agents w) aid of
        None \<Rightarrow> w
      | Some a \<Rightarrow>
          if WTargetID wt = [] then task_fail aid nowTick wt ''E_BAD_REQUEST'' ''missing target_id'' w
          else case map_of (itemEnts w) (WTargetID wt) of
            None \<Rightarrow> task_fail aid nowTick wt ''E_INVALID_TARGET'' ''item entity not found'' w
          | Some e \<Rightarrow>
              if EItem e = [] \<or> ECount e \<le> 0 then
                task_fail aid nowTick wt ''E_INVALID_TARGET'' ''item entity not found'' w
              else if Manhattan (APos a) (EPos e) > 2 then task_fail aid nowTick wt ''E_BLOCKED'' ''too far'' w
              else if \<not> canPickupItemEntity w aid (EPos e) then task_denied aid nowTick wt ''pickup denied'' w
              else
                task_done aid nowTick wt
                  (removeItemEntity nowTick aid (WTargetID wt) ''GATHER'' (give_agent aid (EItem e) (ECount e) w)))"

definition YawToDir :: "int \<Rightarrow> int \<times> int" where
  "YawToDir yaw =
     (let y = tmod yaw 360;
          y = (if y < 0 then y + 360 else y);
          dir = tmod (tdiv (y + 45) 90) 4
      in if dir = 0 then (0, 1) else if dir = 1 then (1, 0) else if dir = 2 then (0, -1) else (-1, 0))"

text \<open>The block an item places: its own name, or what its definition says.\<close>

definition placed_name :: "world \<Rightarrow> string \<Rightarrow> string" where
  "placed_name w item =
     (case map_of (PlaceAs (cats w)) item of None \<Rightarrow> item | Some p \<Rightarrow> if p \<noteq> [] then p else item)"

definition TickPlace :: "go_floats \<Rightarrow> string \<Rightarrow> work_task \<Rightarrow> u64 \<Rightarrow> world \<Rightarrow> world" where
  "TickPlace fl aid wt nowTick w =
     (case map_of (agents w) aid of
        None \<Rightarrow> w
      | Some a \<Rightarrow>
          let pos = BlockPos wt
          in if \<not> InBounds w pos then task_fail aid nowTick wt ''E_INVALID_TARGET'' ''out of bounds'' w
             else if \<not> canBuildAt fl w aid pos nowTick then task_denied aid nowTick wt ''build denied'' w
             else if GetBlock w pos \<noteq> airBlock w then task_fail aid nowTick wt ''E_BLOCKED'' ''space occupied'' w
             else if ItemID wt = [] \<or> cnt (AInventory a) (ItemID wt) < 1 then
               task_fail aid nowTick wt ''E_NO_RESOURCE'' ''missing item'' w
             else
               let blk = placed_name w (ItemID wt)
               in case map_of (BlockIndex (cats w)) blk of
                    None \<Rightarrow> task_fail aid nowTick wt ''E_INVALID_TARGET'' ''item not placeable'' w
                  | Some b \<Rightarrow>
                      let w = take_agent aid (ItemID wt) 1 w;
                          w = auditSetBlock nowTick aid pos (airBlock w) b ''PLACE'' (SetBlock pos b w);
                          w = ensureContainerForPlacedBlock pos blk w;
                          w = (if blk = ''CONVEYOR''
                               then ensureConveyor pos (fst (YawToDir (Yaw a))) (snd (YawToDir (Yaw a))) w else w)
                      in task_done aid nowTick wt w)"

section \<open>Crafting and smelting\<close>

definition nearBlock :: "world \<Rightarrow> vec3 \<Rightarrow> string \<Rightarrow> int \<Rightarrow> bool" where
  "nearBlock w pos blk r =
     (case map_of (BlockIndex (cats w)) blk of
        None \<Rightarrow> False
      | Some b \<Rightarrow>
          \<exists>dy \<in> set [- r .. r]. \<exists>dz \<in> set [- r .. r]. \<exists>dx \<in> set [- r .. r].
            GetBlock w \<lparr>vx = i64 (vx pos + dx), vy = i64 (vy pos + dy), vz = i64 (vz pos + dz)\<rparr> = b)"

definition swap_items :: "string \<Rightarrow> recipe \<Rightarrow> world \<Rightarrow> world" where
  "swap_items aid rec w =
     fold (\<lambda>(item, n). give_agent aid item n) (Outputs rec)
       (fold (\<lambda>(item, n). take_agent aid item n) (Inputs rec) w)"

text \<open>The common part of \<open>TickCraft\<close> and \<open>TickSmelt\<close>: count the tick and, when the time is up, make one unit.\<close>

definition work_recipe :: "string \<Rightarrow> work_task \<Rightarrow> recipe \<Rightarrow> string \<Rightarrow> u64 \<Rightarrow> world \<Rightarrow> world" where
  "work_recipe aid wt rec recipeID nowTick w =
     (let wt = wt\<lparr>WorkTicks := i64 (WorkTicks wt + 1)\<rparr>
      in if WorkTicks wt < TimeTicks rec then store_work aid wt w
         else
           let wt = wt\<lparr>WorkTicks := 0\<rparr>;
               w = store_work aid wt w
           in if \<exists>(item, n) \<in> set (Inputs rec). cnt (get_inv (AgentInv aid) w) item < n then
                task_fail aid nowTick wt ''E_NO_RESOURCE'' ''missing inputs'' w
              else
                let w = swap_items aid rec w;
                    w = upd_agent aid (funOnRecipe recipeID (Tier rec) nowTick) w;
                    wt = wt\<lparr>Count := i64 (Count wt - 1)\<rparr>
                in if Count wt \<le> 0 then task_done aid nowTick wt w else store_work aid wt w)"

definition TickCraft :: "string \<Rightarrow> work_task \<Rightarrow> u64 \<Rightarrow> world \<Rightarrow> world" where
  "TickCraft aid wt nowTick w =
     (case (map_of (agents w) aid, map_of (Recipes (cats w)) (RecipeID wt)) of
        (Some a, Some rec) \<Rightarrow>
          if Station rec = ''HAND'' then work_recipe aid wt rec (RecipeID wt) nowTick w
          else if Station rec = ''CRAFTING_BENCH'' then
            (if \<not> nearBlock w (APos a) ''CRAFTING_BENCH'' 2 then
               task_fail aid nowTick wt ''E_BLOCKED'' ''need crafting bench nearby'' w
             else work_recipe aid wt rec (RecipeID wt) nowTick w)
          else task_fail aid nowTick wt ''E_INVALID_TARGET'' ''unsupported station'' w
      | (Some a, None) \<Rightarrow> task_fail aid nowTick wt ''E_INVALID_TARGET'' ''unknown recipe'' w
      | _ \<Rightarrow> w)"

definition TickSmelt :: "string \<Rightarrow> work_task \<Rightarrow> u64 \<Rightarrow> world \<Rightarrow> world" where
  "TickSmelt aid wt nowTick w =
     (case map_of (agents w) aid of
        None \<Rightarrow> w
      | Some a \<Rightarrow>
          if \<not> nearBlock w (APos a) ''FURNACE'' 2 then
            task_fail aid nowTick wt ''E_BLOCKED'' ''need furnace nearby'' w
          else case map_of (smeltByInput w) (ItemID wt) of
            None \<Rightarrow> task_fail aid nowTick wt ''E_INVALID_TARGET'' ''unsupported smelt item'' w
          | Some rec \<Rightarrow> work_recipe aid wt rec (RRecipeID rec) nowTick w)"

text \<open>\<open>BuildSmeltByInput\<close>: the furnace recipes by their primary input, or the first recipe that is malformed.\<close>

definition smelt_entry :: "recipe \<Rightarrow> recipe gomap \<Rightarrow> string + recipe gomap" where
  "smelt_entry r out =
     (if Inputs r = [] then Inl ''missing inputs''
      else if Outputs r = [] then Inl ''missing outputs''
      else if TimeTicks r \<le> 0 then Inl ''invalid time_ticks''
      else
        let key = trim_space (fst (hd (Inputs r)))
        in if key = [] then Inl ''empty primary input item''
           else if map_of out key \<noteq> None then Inl ''duplicate furnace recipe primary input''
           else Inr (mput key r out))"

fun smelt_loop :: "recipe gomap \<Rightarrow> string list \<Rightarrow> recipe gomap \<Rightarrow> string + recipe gomap" where
  "smelt_loop recipes [] out = Inr out"
| "smelt_loop recipes (rid # rids) out =
     (case map_of recipes rid of
        None \<Rightarrow> smelt_loop recipes rids out
      | Some r \<Rightarrow>
          if trim_space (Station r) \<noteq> ''FURNACE'' then smelt_loop recipes rids out
          else case smelt_entry r out of Inl e \<Rightarrow> Inl e | Inr out' \<Rightarrow> smelt_loop recipes rids out')"

definition BuildSmeltByInput :: "recipe gomap \<Rightarrow> string + recipe gomap" where
  "BuildSmeltByInput recipes = smelt_loop recipes (sorted_keys recipes) []"

section \<open>Opening\<close>

definition ValidateBoardOpen :: "string \<Rightarrow> int \<Rightarrow> verdict" where
  "ValidateBoardOpen blk distance =
     (if blk \<noteq> ''BULLETIN_BOARD'' then refuse ''E_INVALID_TARGET'' ''board not found''
      else if distance > 3 then refuse ''E_BLOCKED'' ''too far''
      else accept)"

definition ValidateSignOpen :: "string \<Rightarrow> int \<Rightarrow> verdict" where
  "ValidateSignOpen blk distance =
     (if blk \<noteq> ''SIGN'' then refuse ''E_INVALID_TARGET'' ''sign not found''
      else if distance > 3 then refuse ''E_BLOCKED'' ''too far''
      else accept)"

definition BuildBoardPosts :: "board_post list \<Rightarrow> int \<Rightarrow> event list" where
  "BuildBoardPosts posts limit =
     (let limit = (if limit \<le> 0 then 20 else limit)
      in map (\<lambda>p. [(''post_id'', JStr (PostID p)), (''author'', JStr (PostAuthor p)), (''title'', JStr (PostTitle p)),
                   (''body'', JStr (PostBody p)), (''tick'', JU64 (PostTick p))])
           (drop (length posts - nat limit) posts))"

record open_outcome =
  OGoalKind :: string
  ONarrative :: int
  ORisk :: int

definition OpenContainerOutcome :: "string \<Rightarrow> string \<Rightarrow> open_outcome option" where
  "OpenContainerOutcome eventID ctype =
     (if ctype \<noteq> ''CHEST'' then None
      else if eventID = ''RUINS_GATE'' then Some \<lparr>OGoalKind = ''OPEN_RUINS'', ONarrative = 12, ORisk = 0\<rparr>
      else if eventID = ''BANDIT_CAMP'' then Some \<lparr>OGoalKind = ''LOOT_BANDITS'', ONarrative = 8, ORisk = 10\<rparr>
      else None)"

definition onContainerOpenedDuringEvent :: "go_floats \<Rightarrow> string \<Rightarrow> container \<Rightarrow> u64 \<Rightarrow> world \<Rightarrow> world" where
  "onContainerOpenedDuringEvent fl aid c nowTick w =
     (if \<not> in_event_area w (CPos c) then w
      else case OpenContainerOutcome (activeEventID w) (CType c) of
             None \<Rightarrow> w
           | Some out \<Rightarrow>
               upd_agent aid (\<lambda>a.
                 let a = funOnWorldEventParticipation (activeEventID w) nowTick a;
                     a = (if ORisk out > 0
                          then award fl w nowTick ''RISK_RESCUE'' ''bandit_loot'' ''risk:bandit_loot'' (ORisk out) a else a);
                     a = (if ONarrative out > 0
                          then award fl w nowTick ''NARRATIVE'' ''bandit_loot'' ''narrative:bandit_loot'' (ONarrative out) a
                          else a)
                 in if OGoalKind out \<noteq> [] then AddEvent (event_goal w nowTick (OGoalKind out)) a else a) w)"

definition jpos :: "vec3 \<Rightarrow> jval" where
  "jpos p = JPos (vx p) (vy p) (vz p)"

definition open_board :: "string \<Rightarrow> work_task \<Rightarrow> vec3 \<Rightarrow> vec3 \<Rightarrow> u64 \<Rightarrow> world \<Rightarrow> world" where
  "open_board aid wt apos pos nowTick w =
     (let v = ValidateBoardOpen (blockName w (GetBlock w pos)) (Manhattan apos pos)
      in if \<not> fst v then task_fail aid nowTick wt (fst (snd v)) (snd (snd v)) w
         else
           let w = ensureBoard pos w;
               posts = (case map_of (boards w) (boardIDAt pos) of None \<Rightarrow> [] | Some ps \<Rightarrow> ps)
           in task_done aid nowTick wt
                (emit aid [(''t'', JU64 nowTick), (''type'', JStr ''BOARD''), (''board_id'', JStr (boardIDAt pos)),
                           (''pos'', jpos pos), (''total_posts'', JInt (int (length posts))),
                           (''posts'', JObjs (BuildBoardPosts posts 20))] w))"

definition open_sign :: "string \<Rightarrow> work_task \<Rightarrow> vec3 \<Rightarrow> vec3 \<Rightarrow> u64 \<Rightarrow> world \<Rightarrow> world" where
  "open_sign aid wt apos pos nowTick w =
     (let v = ValidateSignOpen (blockName w (GetBlock w pos)) (Manhattan apos pos)
      in if \<not> fst v then task_fail aid nowTick wt (fst (snd v)) (snd (snd v)) w
         else
           let (txt0, tick, author) = (case map_of (signs w) pos of
                  None \<Rightarrow> ([], 0, []) | Some s \<Rightarrow> (SignText s, SignUpdatedTick s, SignUpdatedBy s))
           in task_done aid nowTick wt
                (emit aid [(''t'', JU64 nowTick), (''type'', JStr ''SIGN''), (''sign_id'', JStr (signIDAt pos)),
                           (''pos'', jpos pos), (''text'', JStr txt0), (''updated_tick'', JU64 tick),
                           (''updated_by'', JStr author)] w))"

definition container_event :: "string \<Rightarrow> container \<Rightarrow> u64 \<Rightarrow> world \<Rightarrow> event" where
  "container_event aid c nowTick w =
     [(''t'', JU64 nowTick), (''type'', JStr ''CONTAINER''), (''container'', JStr (container_id c)),
      (''container_type'', JStr (CType c)), (''pos'', jpos (CPos c)), (''inventory'', JPairs (InventoryList (Inventory c)))]
     @ (case map_of (Owed c) aid of None \<Rightarrow> [] | Some owed \<Rightarrow> [(''owed'', JPairs (EncodeItemPairs owed))])
     @ (if CType c = ''CONTRACT_TERMINAL''
        then [(''contracts'', JObjs (contractSummariesForTerminal w (CPos c)))] else [])"

definition TickOpen :: "go_floats \<Rightarrow> string \<Rightarrow> work_task \<Rightarrow> u64 \<Rightarrow> world \<Rightarrow> world" where
  "TickOpen fl aid wt nowTick w =
     (case map_of (agents w) aid of
        None \<Rightarrow> w
      | Some a \<Rightarrow>
          (case GetContainerByID (containers w) (WTargetID wt) of
             None \<Rightarrow>
               (case ParseContainerID (WTargetID wt) of
                  Some (typ, x, y, z) \<Rightarrow>
                    if typ = ''BULLETIN_BOARD'' then open_board aid wt (APos a) (to_vec (x, y, z)) nowTick w
                    else if typ = ''SIGN'' then open_sign aid wt (APos a) (to_vec (x, y, z)) nowTick w
                    else task_fail aid nowTick wt ''E_INVALID_TARGET'' ''container not found'' w
                | None \<Rightarrow> task_fail aid nowTick wt ''E_INVALID_TARGET'' ''container not found'' w)
           | Some (p, c) \<Rightarrow>
               if Manhattan (APos a) (CPos c) > 3 then task_fail aid nowTick wt ''E_BLOCKED'' ''too far'' w
               else
                 task_done aid nowTick wt
                   (onContainerOpenedDuringEvent fl aid c nowTick (emit aid (container_event aid c nowTick w) w))))"

section \<open>Transferring\<close>

definition ValidateTransferNoop :: "string \<Rightarrow> string \<Rightarrow> verdict" where
  "ValidateTransferNoop src dst =
     (if src = ''SELF'' \<and> dst = ''SELF'' then refuse ''E_BAD_REQUEST'' ''no-op transfer'' else accept)"

definition ValidateContainerDistance :: "bool \<Rightarrow> int \<Rightarrow> string \<Rightarrow> verdict" where
  "ValidateContainerDistance found distance which =
     (if \<not> found then refuse ''E_INVALID_TARGET'' (which @ '' container not found'')
      else if distance > 3 then refuse ''E_BLOCKED'' (''too far from '' @ which)
      else accept)"

text \<open>
  One end of a transfer: the agent itself, or a container by its identifier; a container must exist and be
  near.
\<close>

definition transfer_end :: "world \<Rightarrow> vec3 \<Rightarrow> string \<Rightarrow> string \<Rightarrow> verdict \<times> (vec3 \<times> container) option" where
  "transfer_end w apos cid which =
     (if cid = ''SELF'' then (accept, None)
      else
        let c = GetContainerByID (containers w) cid;
            distance = (case c of None \<Rightarrow> 0 | Some (p, c) \<Rightarrow> Manhattan apos (CPos c))
        in (ValidateContainerDistance (c \<noteq> None) distance which, c))"

definition move_stack ::
  "string \<Rightarrow> (vec3 \<times> container) option \<Rightarrow> (vec3 \<times> container) option \<Rightarrow> string \<Rightarrow> int \<Rightarrow> world \<Rightarrow> world" where
  "move_stack aid src dst item n w =
     (let w = (case src of Some (p, c) \<Rightarrow> take_box p item n w | None \<Rightarrow> take_agent aid item n w)
      in case dst of Some (p, c) \<Rightarrow> put_box p item n w | None \<Rightarrow> give_agent aid item n w)"

definition TickTransfer :: "string \<Rightarrow> work_task \<Rightarrow> u64 \<Rightarrow> world \<Rightarrow> world" where
  "TickTransfer aid wt nowTick w =
     (case map_of (agents w) aid of
        None \<Rightarrow> w
      | Some a \<Rightarrow>
          let srcID = SrcContainer wt; dstID = DstContainer wt; item = ItemID wt; n = Count wt;
              say = (\<lambda>v. task_fail aid nowTick wt (fst (snd v)) (snd (snd v)) w);
              v0 = ValidateTransferNoop srcID dstID;
              (v1, src) = transfer_end w (APos a) srcID ''src'';
              (v2, dst) = transfer_end w (APos a) dstID ''dst''
          in if \<not> fst v0 then say v0
             else if \<not> fst v1 then say v1
             else if \<not> fst v2 then say v2
             else if (case src of Some (p, c) \<Rightarrow> \<not> canWithdrawFromContainer w aid (CPos c) | None \<Rightarrow> False) then
               say (refuse ''E_NO_PERMISSION'' ''withdraw denied'')
             else if (case src of Some (p, c) \<Rightarrow> AvailableCount c item < n | None \<Rightarrow> False) then
               say (refuse ''E_NO_RESOURCE'' ''insufficient src items'')
             else if src = None \<and> cnt (AInventory a) item < n then
               say (refuse ''E_NO_RESOURCE'' ''insufficient self items'')
             else
               let w = move_stack aid src dst item n w;
                   spot = (case dst of Some (p, c) \<Rightarrow> CPos c
                           | None \<Rightarrow> (case src of Some (p, c) \<Rightarrow> CPos c | None \<Rightarrow> APos a));
                   w = auditEvent nowTick aid ''TRANSFER'' spot ''TRANSFER''
                         [(''src'', JStr srcID), (''dst'', JStr dstID), (''item'', JStr item), (''count'', JInt n)] w
               in task_done aid nowTick wt w)"

end
