(* ===== verification/Survival_Model.thy ===== *)
theory Survival_Model
  imports Work_Exec
begin

text \<open>
  Survival (\<open>feature/survival/runtime/{runtime,tick}.go\<close>, \<open>feature/survival/respawn/*.go\<close>,
  \<open>survival_facade.go\<close>): hunger, cold and bandits, stamina, going down and respawning with the loss of a
  part of the inventory.  After every tick of the environment the vitals of all agents are in range and
  nobody is down; a respawn moves items to the ground and loses none.
\<close>

section \<open>Going down\<close>

definition keep_or_delete :: "string \<Rightarrow> int \<Rightarrow> items \<Rightarrow> items" where
  "keep_or_delete k d inv0 = mprune (msub inv0 k d) k"

text \<open>The first loop: three tenths of every stack, rounded down.\<close>

fun lose_tenths :: "string list \<Rightarrow> items \<Rightarrow> items \<Rightarrow> items \<times> items" where
  "lose_tenths [] inv0 lost = (inv0, lost)"
| "lose_tenths (k # ks) inv0 lost =
     (let d = tdiv (i64 (cnt inv0 k * 3)) 10
      in if d \<le> 0 then lose_tenths ks inv0 lost
         else lose_tenths ks (keep_or_delete k d inv0) (mput k d lost))"

text \<open>The second loop: one item of the first stack that has any.\<close>

fun lose_one :: "string list \<Rightarrow> items \<Rightarrow> items \<Rightarrow> items \<times> items" where
  "lose_one [] inv0 lost = (inv0, lost)"
| "lose_one (k # ks) inv0 lost =
     (if cnt inv0 k > 0 then (keep_or_delete k 1 inv0, mput k 1 lost) else lose_one ks inv0 lost)"

definition losable :: "items \<Rightarrow> string list" where
  "losable inv0 = filter (\<lambda>k. k \<noteq> [] \<and> cnt inv0 k > 0) (sort (remdups (map fst inv0)))"

definition ComputeInventoryLoss :: "items \<Rightarrow> items \<times> items" where
  "ComputeInventoryLoss inv0 =
     (case lose_tenths (losable inv0) inv0 [] of
        (rest, lost) \<Rightarrow> if lost = [] then lose_one (losable inv0) rest lost else (rest, lost))"

fun agent_digits :: "string \<Rightarrow> int \<Rightarrow> int" where
  "agent_digits [] n = n"
| "agent_digits (c # cs) n =
     (if of_char c < (48 :: nat) \<or> of_char c > (57 :: nat) then 0
      else agent_digits cs (i64 (n * 10 + (of_char c - 48))))"

definition AgentNumber :: "string \<Rightarrow> int" where
  "AgentNumber aid = (case aid of [] \<Rightarrow> 0 | c # cs \<Rightarrow> if cs = [] \<or> c \<noteq> CHR ''A'' then 0 else agent_digits cs 0)"

text \<open>\<open>findSpawnAir\<close>: the perimeters of growing squares, in the order of the loops.\<close>

definition spawn_ring :: "int \<Rightarrow> (int \<times> int) list" where
  "spawn_ring r = concat (map (\<lambda>dz. concat (map (\<lambda>dx.
       if iabs dx \<noteq> r \<and> iabs dz \<noteq> r then [] else [(dx, dz)]) [- r .. r])) [- r .. r])"

definition findSpawnAir :: "world \<Rightarrow> int \<Rightarrow> int \<Rightarrow> int \<Rightarrow> int \<times> int" where
  "findSpawnAir w x z maxR0 =
     (let maxR = (if maxR0 < 0 then 0 else maxR0);
          tries = map (\<lambda>(dx, dz). (i64 (x + dx), i64 (z + dz))) (concat (map spawn_ring [0 .. maxR]))
      in case find (\<lambda>(px, pz). let p = \<lparr>vx = px, vy = 0, vz = pz\<rparr> in InBounds w p \<and> GetBlock w p = airBlock w) tries of
           Some p \<Rightarrow> p
         | None \<Rightarrow> (x, z))"

definition spawn_point :: "world \<Rightarrow> string \<Rightarrow> vec3" where
  "spawn_point w aid =
     (let n = i64 (AgentNumber aid * 2)
      in case findSpawnAir w n (i64 (- n)) 8 of (x, z) \<Rightarrow> \<lparr>vx = x, vy = 0, vz = z\<rparr>)"

text \<open>\<open>respawn.Apply\<close>: the tasks end, a part of every stack drops where the agent went down.\<close>

definition drop_stack :: "u64 \<Rightarrow> string \<Rightarrow> vec3 \<Rightarrow> items \<Rightarrow> string \<Rightarrow> world \<Rightarrow> world" where
  "drop_stack nowTick aid pos lost k w =
     (if cnt lost k \<le> 0 then w else snd (spawnItemEntity nowTick aid pos k (cnt lost k) ''RESPAWN_DROP'' w))"

definition drop_lost :: "u64 \<Rightarrow> string \<Rightarrow> vec3 \<Rightarrow> items \<Rightarrow> world \<Rightarrow> world" where
  "drop_lost nowTick aid pos lost w = fold (drop_stack nowTick aid pos lost) (sorted_keys lost) w"

definition respawned :: "u64 \<Rightarrow> string \<Rightarrow> vec3 \<Rightarrow> vec3 \<Rightarrow> items \<Rightarrow> agent \<Rightarrow> agent" where
  "respawned nowTick reason dropPos pos lost a =
     AddEvent
       ([(''t'', JU64 nowTick), (''type'', JStr ''RESPAWN''), (''reason'', JStr reason), (''pos'', jpos pos),
         (''drop_pos'', jpos dropPos)] @ (if lost \<noteq> [] then [(''lost'', JPairs (EncodeItemPairs lost))] else []))
       (a\<lparr>APos := pos, Yaw := 0, HP := 20, Hunger := 10, StaminaMilli := 1000\<rparr>)"

definition respawnAgent :: "u64 \<Rightarrow> string \<Rightarrow> string \<Rightarrow> world \<Rightarrow> world" where
  "respawnAgent nowTick aid reason w =
     (case map_of (agents w) aid of
        None \<Rightarrow> w
      | Some a \<Rightarrow>
          (case ComputeInventoryLoss (AInventory a) of
             (rest, lost) \<Rightarrow>
               let w = upd_agent aid (\<lambda>a. a\<lparr>MoveTask := None, WorkTask := None, AInventory := rest\<rparr>) w;
                   w = drop_lost nowTick aid (APos a) lost w
               in upd_agent aid (respawned nowTick reason (APos a) (spawn_point w aid) lost) w))"

section \<open>The environment tick\<close>

definition HungerAfterTick :: "int \<Rightarrow> bool \<Rightarrow> int" where
  "HungerAfterTick hunger inBlight =
     (if hunger \<le> 0 then 0
      else let next = i64 (hunger - 1); next = (if inBlight then i64 (next - 1) else next)
           in if next < 0 then 0 else next)"

definition IsNight :: "real \<Rightarrow> bool" where
  "IsNight tod \<longleftrightarrow> tod < 1 / 4 \<or> tod > 3 / 4"

definition StaminaRecovery :: "string \<Rightarrow> int \<Rightarrow> string \<Rightarrow> bool \<Rightarrow> int" where
  "StaminaRecovery wthr hunger eventID inEventRadius =
     (let rec = (if wthr = ''STORM'' \<or> wthr = ''COLD'' then 1 else 2);
          rec = (if hunger = 0 then 0 else if hunger < 5 \<and> rec > 1 then 1 else rec)
      in if inEventRadius then
           (if eventID = ''BLIGHT_ZONE'' then 0
            else if eventID = ''FLOOD_WARNING'' then (if rec > 1 then 1 else rec)
            else rec)
         else rec)"

definition inEventRange :: "world \<Rightarrow> u64 \<Rightarrow> vec3 \<Rightarrow> bool" where
  "inEventRange w nowTick pos \<longleftrightarrow>
     \<not> (activeEventID w = [] \<or> activeEventRadius w \<le> 0 \<or> nowTick \<ge> activeEventEnds w) \<and>
     distXZ pos (activeEventCenter w) \<le> activeEventRadius w"

definition damaged :: "u64 \<Rightarrow> string \<Rightarrow> agent \<Rightarrow> agent" where
  "damaged nowTick kind a =
     (let a = a\<lparr>HP := i64 (HP a - 1)\<rparr>
      in AddEvent [(''t'', JU64 nowTick), (''type'', JStr ''DAMAGE''), (''kind'', JStr kind), (''hp'', JInt (HP a))] a)"

text \<open>One pass over the agents in the order of their identifiers.\<close>

definition each_agent :: "(string \<Rightarrow> agent \<Rightarrow> world \<Rightarrow> world) \<Rightarrow> world \<Rightarrow> world" where
  "each_agent f w = fold (\<lambda>aid w. case map_of (agents w) aid of None \<Rightarrow> w | Some a \<Rightarrow> f aid a w) (sorted_keys (agents w)) w"

definition hunger_pass :: "u64 \<Rightarrow> world \<Rightarrow> world" where
  "hunger_pass nowTick =
     each_agent (\<lambda>aid a w.
       if Hunger a > 0 then
         upd_agent aid (\<lambda>a. a\<lparr>Hunger := HungerAfterTick (Hunger a)
           (activeEventID w = ''BLIGHT_ZONE'' \<and> inEventRange w nowTick (APos a))\<rparr>) w
       else if HP a > 0 then upd_agent aid (damaged nowTick ''STARVATION'') w
       else w)"

definition cold_pass :: "u64 \<Rightarrow> world \<Rightarrow> world" where
  "cold_pass nowTick =
     each_agent (\<lambda>aid a w.
       if HP a \<le> 0 \<or> nearBlock w (APos a) ''TORCH'' 3 then w else upd_agent aid (damaged nowTick ''COLD'') w)"

definition bandits_out :: "world \<Rightarrow> u64 \<Rightarrow> bool" where
  "bandits_out w nowTick \<longleftrightarrow> activeEventID w = ''BANDIT_CAMP'' \<and> activeEventRadius w > 0 \<and> nowTick < activeEventEnds w"

definition near_event :: "world \<Rightarrow> agent \<Rightarrow> bool" where
  "near_event w a \<longleftrightarrow> distXZ (APos a) (activeEventCenter w) \<le> activeEventRadius w"

definition bandit_zone_count :: "world \<Rightarrow> u64 \<Rightarrow> int" where
  "bandit_zone_count w nowTick =
     (if bandits_out w nowTick
      then int (length (filter (\<lambda>(aid, a). \<not> HP a \<le> 0 \<and> near_event w a) (agents w))) else 0)"

definition recover :: "int \<Rightarrow> agent \<Rightarrow> agent" where
  "recover rec a =
     (if StaminaMilli a < 1000 \<and> rec > 0
      then (let s = i64 (StaminaMilli a + rec) in a\<lparr>StaminaMilli := (if s > 1000 then 1000 else s)\<rparr>) else a)"

definition recover_pass :: "u64 \<Rightarrow> int \<Rightarrow> world \<Rightarrow> world" where
  "recover_pass nowTick banditZoneCount =
     each_agent (\<lambda>aid a w.
       let rec = StaminaRecovery (weather w) (Hunger a) (activeEventID w) (inEventRange w nowTick (APos a));
           hit = bandits_out w nowTick \<and> nowTick mod 50 = 0 \<and> banditZoneCount > 0 \<and> banditZoneCount < 2 \<and>
                 near_event w a \<and> HP a > 0;
           a' = recover rec (if hit then damaged nowTick ''BANDIT'' a else a);
           w = upd_agent aid (\<lambda>_. a') w
       in if HP a' \<le> 0 then respawnAgent nowTick aid ''DOWNED'' w else w)"

definition systemEnvironment :: "go_floats \<Rightarrow> u64 \<Rightarrow> world \<Rightarrow> world" where
  "systemEnvironment fl nowTick w =
     (let w = (if nowTick mod 200 = 0 then hunger_pass nowTick w else w);
          w = (if weather w = ''COLD'' \<and> nowTick mod 50 = 0 \<and> IsNight (timeOfDay fl w nowTick)
               then cold_pass nowTick w else w);
          w = recover_pass nowTick (bandit_zone_count w nowTick) w
      in if nowTick mod 50 = 0 then cleanupExpiredItemEntities nowTick w else w)"

section \<open>What is lost\<close>

lemma keep_or_delete_cnt:
  "0 \<le> d \<Longrightarrow> d \<le> cnt m k \<Longrightarrow> cnt m k < 2 ^ 63 \<Longrightarrow> cnt (keep_or_delete k d m) j = cnt m j - unit_at k d j"
  unfolding keep_or_delete_def by (rule take_count)

lemma tenths_range:
  assumes "0 \<le> n" and "n < 2 ^ 63"
  shows "tdiv (i64 (n * 3)) 10 \<le> n"
proof (cases "0 \<le> i64 (n * 3)")
  case True
  have "i64 (n * 3) \<le> n * 3"
  proof (rule ccontr)
    assume "\<not> ?thesis"
    then have "n * 3 < 2 ^ 63" using in_i64_i64[of "n * 3"] by (simp add: in_i64_def)
    then have "i64 (n * 3) = n * 3" using assms(1) by (intro i64_nonneg) simp_all
    with \<open>\<not> ?thesis\<close> show False by simp
  qed
  then have "i64 (n * 3) div 10 \<le> n" using assms(1) by linarith
  then show ?thesis using True assms(1) by (cases "i64 (n * 3) = 0") (simp_all add: tdiv_def)
next
  case False
  then have "tdiv (i64 (n * 3)) 10 \<le> 0" by (simp add: tdiv_def)
  then show ?thesis using assms(1) by simp
qed

text \<open>What is left and what is lost add up, and what is lost are stacks of named items.\<close>

definition splits :: "items \<Rightarrow> items \<Rightarrow> items \<Rightarrow> bool" where
  "splits m rest lost \<longleftrightarrow> wf_map lost \<and> map_of lost [] = None \<and>
     (\<forall>j. cnt rest j + cnt lost j = cnt m j \<and> 0 \<le> cnt rest j \<and> 0 \<le> cnt lost j)"

lemma splits_lose:
  assumes "splits m rest lost" and "cnt m k < 2 ^ 63" and "cnt lost k = 0" and "k \<noteq> []" and "0 < d" "d \<le> cnt rest k"
  shows "splits m (keep_or_delete k d rest) (mput k d lost)"
proof -
  have "cnt rest k + cnt lost k = cnt m k" using assms(1) by (simp add: splits_def)
  then have all: "cnt rest k = cnt m k" and "cnt rest k < 2 ^ 63" using assms(2,3) by simp_all
  from keep_or_delete_cnt[OF _ assms(6) this(2)] assms(5)
  have c: "cnt (keep_or_delete k d rest) j = cnt rest j - unit_at k d j" for j by simp
  show ?thesis using assms all by (auto simp: splits_def c unit_at_def gomap)
qed

lemma lose_tenths_splits:
  assumes "splits m inv0 lost" and "\<forall>j. cnt m j < 2 ^ 63" and "distinct ks" and "\<forall>k \<in> set ks. k \<noteq> [] \<and> cnt lost k = 0"
    and "lose_tenths ks inv0 lost = (rest, lost')"
  shows "splits m rest lost' \<and> length lost' \<le> length lost + length ks"
  using assms
proof (induction ks arbitrary: inv0 lost)
  case (Cons k ks)
  have r: "0 \<le> cnt inv0 k" "cnt inv0 k < 2 ^ 63"
    using Cons.prems(1,2,4) by (auto simp: splits_def dest: spec[of _ k])
  let ?d = "tdiv (i64 (cnt inv0 k * 3)) 10"
  show ?case
  proof (cases "?d \<le> 0")
    case True
    then show ?thesis using Cons.IH[of inv0 lost] Cons.prems by (auto simp: Let_def)
  next
    case False
    have "splits m (keep_or_delete k ?d inv0) (mput k ?d lost)"
      by (rule splits_lose) (use Cons.prems False tenths_range[OF r] in auto)
    moreover have "\<forall>j \<in> set ks. cnt (mput k ?d lost) j = 0"
      using Cons.prems(3,4) by (auto simp: gomap)
    ultimately have "splits m rest lost' \<and> length lost' \<le> length (mput k ?d lost) + length ks"
      using Cons.IH[of "keep_or_delete k ?d inv0" "mput k ?d lost"] Cons.prems False by (auto simp: Let_def)
    moreover have "length (mput k ?d lost) \<le> Suc (length lost)" by (induction lost) (auto simp: mput_def)
    ultimately show ?thesis by simp
  qed
qed simp

lemma lose_one_splits:
  assumes "splits m inv0 []" and "\<forall>j. cnt m j < 2 ^ 63" and "\<forall>k \<in> set ks. k \<noteq> []"
    and "lose_one ks inv0 [] = (rest, lost)"
  shows "splits m rest lost \<and> length lost \<le> length ks"
  using assms
proof (induction ks)
  case (Cons k ks)
  then show ?case
    using splits_lose[OF Cons.prems(1), of k 1] by (auto split: if_splits simp: mput_def cnt_def)
qed simp

lemma ComputeInventoryLoss_splits:
  assumes "ComputeInventoryLoss m = (rest, lost)" and "\<forall>j. 0 \<le> cnt m j \<and> cnt m j < 2 ^ 63"
  shows "splits m rest lost" "length lost \<le> length (losable m)"
proof -
  have 0: "splits m m []" using assms(2) by (simp add: splits_def wf_map_def cnt_def)
  obtain r1 l1 where 1: "lose_tenths (losable m) m [] = (r1, l1)" by fastforce
  have ks: "distinct (losable m)" "\<forall>k \<in> set (losable m). k \<noteq> []" by (auto simp: losable_def)
  have s1: "splits m r1 l1 \<and> length l1 \<le> length (losable m)"
    using lose_tenths_splits[OF 0 _ ks(1) _ 1] assms(2) ks by (simp add: cnt_def)
  have "splits m rest lost \<and> length lost \<le> length (losable m)"
  proof (cases "l1 = []")
    case True
    then have "lose_one (losable m) r1 [] = (rest, lost)" using assms(1) 1 by (simp add: ComputeInventoryLoss_def)
    with lose_one_splits[OF _ _ ks(2) this, of m] s1 True assms(2) show ?thesis by simp
  next
    case False
    then show ?thesis using assms(1) 1 s1 by (simp add: ComputeInventoryLoss_def)
  qed
  then show "splits m rest lost" "length lost \<le> length (losable m)" by blast+
qed

lemma drop_stacks:
  assumes "drops_ok w" and "item_room w (length ks)" and "distinct ks"
    and "\<forall>k \<in> set ks. k \<noteq> [] \<and> 0 \<le> cnt lost k \<and> lying w k + cnt lost k < 2 ^ 63"
  shows "drops_ok (fold (drop_stack now x p lost) ks w) \<and> same_rest w (fold (drop_stack now x p lost) ks w) \<and>
    (\<forall>j. lying (fold (drop_stack now x p lost) ks w) j = lying w j + (if j \<in> set ks then cnt lost j else 0))"
  using assms
proof (induction ks arbitrary: w)
  case (Cons k ks)
  let ?w = "drop_stack now x p lost k w"
  have s: "drops_ok ?w" "same_rest w ?w" "\<And>j. lying ?w j = lying w j + unit_at k (cnt lost k) j"
    "unat (nextItemNum ?w) \<le> unat (nextItemNum w) + 1"
    using item_spawned[OF Cons.prems(1) item_room_less[OF Cons.prems(2)], of k "cnt lost k" now x p "''RESPAWN_DROP''"]
      Cons.prems(1,4) by (auto simp: unit_at_def drop_stack_def)
  have "item_room ?w (length ks)" using Cons.prems(2) s(4) by (simp add: item_room_def)
  moreover have "\<forall>j \<in> set ks. j \<noteq> [] \<and> 0 \<le> cnt lost j \<and> lying ?w j + cnt lost j < 2 ^ 63"
    using Cons.prems(3,4) by (auto simp: s(3) unit_at_def)
  ultimately show ?case using Cons.IH[OF s(1)] s Cons.prems(3) by (auto intro: same_rest_trans simp: unit_at_def)
qed simp

lemma agents_spawn [simp]: "agents (snd (spawnItemEntity now x p k n why w)) = agents w"
  by (simp add: spawnItemEntity_def newItemEntityID_def Let_def split: option.split)

lemma agents_drop_lost [simp]: "agents (drop_lost now x p lost w) = agents w"
proof -
  have "agents (fold (drop_stack now x p lost) ks w) = agents w" for ks
    by (induction ks arbitrary: w) (simp_all add: drop_stack_def)
  then show ?thesis by (simp add: drop_lost_def)
qed

section \<open>A respawn moves items\<close>

lemma respawn_moves:
  assumes ok: "goods_ok w" and a: "map_of (agents w) x = Some a" and room: "item_room w (length (losable (AInventory a)))"
  shows "moves_items w (respawnAgent now x why w)"
proof -
  obtain rest lost where c: "ComputeInventoryLoss (AInventory a) = (rest, lost)" by fastforce
  have m: "map_of (inv_view w) x = Some (AInventory a)" using a by (simp add: map_of_inv_view)
  have r: "0 \<le> cnt (AInventory a) j \<and> cnt (AInventory a) j + lying w j < 2 ^ 63" "0 \<le> lying w j" for j
    using goods_room(1)[OF ok m] goods_room(3)[OF ok] by blast+
  have "\<forall>j. 0 \<le> cnt (AInventory a) j \<and> cnt (AInventory a) j < 2 ^ 63" using r by (smt (verit))
  note sp = ComputeInventoryLoss_splits[OF c this]
  then have sum: "cnt rest j + cnt lost j = cnt (AInventory a) j" "0 \<le> cnt rest j" "0 \<le> cnt lost j" for j
    by (simp_all add: splits_def)
  define w1 where "w1 = upd_agent x (\<lambda>a. a\<lparr>MoveTask := None, WorkTask := None, AInventory := rest\<rparr>) w"
  define w2 where "w2 = drop_lost now x (APos a) lost w1"
  define w3 where "w3 = upd_agent x (respawned now why (APos a) (spawn_point w2 x) lost) w2"
  have same: "itemEnts w1 = itemEnts w" "itemsAt w1 = itemsAt w" "nextItemNum w1 = nextItemNum w" by (simp_all add: w1_def)
  note D1 = drops_same[OF same]
  have "drops_ok w2 \<and> same_rest w1 w2 \<and> (\<forall>j. lying w2 j = lying w1 j + (if j \<in> set (sorted_keys lost) then cnt lost j else 0))"
    unfolding w2_def drop_lost_def
  proof (rule drop_stacks)
    show "drops_ok w1" using ok D1 by (simp add: goods_ok_def)
    show "distinct (sorted_keys lost)" using sp(1) by (simp add: splits_def)
    show "item_room w1 (length (sorted_keys lost))" using room same sp(2) by (simp add: item_room_def sorted_keys_def)
    show "\<forall>k \<in> set (sorted_keys lost). k \<noteq> [] \<and> 0 \<le> cnt lost k \<and> lying w1 k + cnt lost k < 2 ^ 63"
    proof
      fix k assume k: "k \<in> set (sorted_keys lost)"
      then have "k \<noteq> []" using sp(1) by (force simp: splits_def map_of_eq_None_iff)
      moreover have "lying w1 k + cnt lost k < 2 ^ 63" using sum[of k] r(1)[of k] D1(2) by simp
      ultimately show "k \<noteq> [] \<and> 0 \<le> cnt lost k \<and> lying w1 k + cnt lost k < 2 ^ 63" using sum by simp
    qed
  qed
  then have d2: "drops_ok w2" "same_rest w1 w2" "lying w2 j = lying w j + cnt lost j" for j
    using D1(2) cnt_absent[of j lost] by auto
  have v1: "inv_view w1 = mput x rest (inv_view w)" using a by (simp add: w1_def inv_view_upd)
  have v3: "inv_view w3 = inv_view w2" unfolding w3_def by (rule inv_view_upd_same) (simp add: respawned_def AddEvent_def Let_def)
  have g3: "itemEnts w3 = itemEnts w2" "itemsAt w3 = itemsAt w2" "nextItemNum w3 = nextItemNum w2" by (simp_all add: w3_def)
  note D3 = drops_same[OF g3]
  have "moves_items w w3"
  proof (rule goods_agent[OF ok m])
    show "inv_view w3 = mput x rest (inv_view w)" using v1 v3 d2(2) by (simp add: inv_view_def same_rest_def)
    show "containers w3 = containers w" "contracts w3 = contracts w" "nextContractNum w3 = nextContractNum w"
      using d2(2) by (simp_all add: w3_def same_rest_def w1_def)
    show "drops_ok w3" using d2(1) D3 by simp
    show "0 \<le> cnt rest j" "cnt rest j + lying w3 j = cnt (AInventory a) j + lying w j" for j
      using sum[of j] d2(3)[of j] D3 by simp_all
  qed
  then show ?thesis using a c by (simp add: respawnAgent_def w1_def w2_def w3_def Let_def)
qed

section \<open>Vitals\<close>

definition vitals_ok :: "agent \<Rightarrow> bool" where
  "vitals_ok a \<longleftrightarrow> 0 \<le> HP a \<and> HP a \<le> 20 \<and> 0 \<le> Hunger a \<and> Hunger a \<le> 20 \<and> 0 \<le> StaminaMilli a \<and> StaminaMilli a \<le> 1000"

definition all_agents :: "(agent \<Rightarrow> bool) \<Rightarrow> world \<Rightarrow> bool" where
  "all_agents P w \<longleftrightarrow> (\<forall>aid a. map_of (agents w) aid = Some a \<longrightarrow> P a)"

text \<open>A step of a pass works on one agent: it leaves the others alone and gives that one a good state.\<close>

definition improves :: "(agent \<Rightarrow> bool) \<Rightarrow> (agent \<Rightarrow> bool) \<Rightarrow> (string \<Rightarrow> agent \<Rightarrow> world \<Rightarrow> world) \<Rightarrow> bool" where
  "improves P Q f \<longleftrightarrow> (\<forall>aid a w. map_of (agents w) aid = Some a \<longrightarrow> P a \<longrightarrow>
     (\<exists>b. Q b \<and> map_of (agents (f aid a w)) = (map_of (agents w))(aid \<mapsto> b)))"

lemma each_agent_improves:
  assumes f: "improves P Q f" and P: "all_agents P w" and wf: "wf_map (agents w)"
  shows "all_agents Q (each_agent f w)"
proof -
  let ?g = "\<lambda>aid w. case map_of (agents w) aid of None \<Rightarrow> w | Some a \<Rightarrow> f aid a w"
  let ?good = "\<lambda>ks w w'. \<forall>aid. (aid \<notin> set ks \<longrightarrow> map_of (agents w') aid = map_of (agents w) aid) \<and>
      (aid \<in> set ks \<longrightarrow> (\<forall>a. map_of (agents w') aid = Some a \<longrightarrow> Q a))"
  have run: "?good ks w (fold ?g ks w)"
    if "distinct ks" "\<And>k a. k \<in> set ks \<Longrightarrow> map_of (agents w) k = Some a \<Longrightarrow> P a" for ks w
    using that
  proof (induction ks arbitrary: w)
    case (Cons k ks)
    show ?case
    proof (cases "map_of (agents w) k")
      case None
      have "?good ks w (fold ?g ks w)"
      proof (rule Cons.IH)
        show "distinct ks" using Cons.prems(1) by simp
        show "P c" if "j \<in> set ks" "map_of (agents w) j = Some c" for j c using Cons.prems(2)[of j c] that by simp
      qed
      then show ?thesis using None Cons.prems(1) by auto
    next
      case (Some a)
      then obtain b where b: "Q b" "map_of (agents (f k a w)) = (map_of (agents w))(k \<mapsto> b)"
        using f Cons.prems(2)[of k a] unfolding improves_def by fastforce
      have "?good ks (f k a w) (fold ?g ks (f k a w))"
      proof (rule Cons.IH)
        show "distinct ks" using Cons.prems(1) by simp
        show "P c" if "j \<in> set ks" "map_of (agents (f k a w)) j = Some c" for j c
          using that b(2) Cons.prems(1) Cons.prems(2)[of j c] by (auto split: if_splits)
      qed
      then show ?thesis using Some b Cons.prems(1) by auto
    qed
  qed simp
  have "?good (sorted_keys (agents w)) w (each_agent f w)"
    unfolding each_agent_def by (rule run) (use wf P in \<open>auto simp: all_agents_def\<close>)
  then have "Q a" if a: "map_of (agents (each_agent f w)) aid = Some a" for aid a
  proof (cases "aid \<in> set (sorted_keys (agents w))")
    case False
    then have "map_of (agents w) aid = None" by (simp add: map_of_eq_None_iff)
    with a \<open>?good _ _ _\<close> False show ?thesis by (metis option.distinct(1))
  qed (use a \<open>?good _ _ _\<close> in metis)
  then show ?thesis by (simp add: all_agents_def)
qed

lemma improves_upd:
  assumes "\<And>aid a w. P a \<Longrightarrow> Q (g aid w a)"
  shows "improves P Q (\<lambda>aid a w. upd_agent aid (g aid w) w)"
  using assms by (auto simp: improves_def gomap intro!: exI[of _ "g _ _ _"])

lemma damaged_simps [simp]:
  "HP (damaged now kind a) = i64 (HP a - 1)" "Hunger (damaged now kind a) = Hunger a"
  "StaminaMilli (damaged now kind a) = StaminaMilli a"
  by (simp_all add: damaged_def AddEvent_def Let_def)

lemma vitals_damaged: "vitals_ok a \<Longrightarrow> HP a > 0 \<Longrightarrow> vitals_ok (damaged now kind a)"
  by (simp add: vitals_ok_def)

lemma HungerAfterTick_range:
  "0 \<le> h \<Longrightarrow> h \<le> 20 \<Longrightarrow> 0 \<le> HungerAfterTick h b \<and> HungerAfterTick h b \<le> h"
  by (auto simp: HungerAfterTick_def Let_def)

lemma vitals_recover: "vitals_ok a \<Longrightarrow> rec \<le> 2 \<Longrightarrow> vitals_ok (recover rec a)"
  by (auto simp: vitals_ok_def recover_def Let_def)

lemma StaminaRecovery_range: "StaminaRecovery wthr h e b \<in> {0, 1, 2}"
  by (simp add: StaminaRecovery_def Let_def)

lemma hunger_pass_vitals:
  "all_agents vitals_ok w \<Longrightarrow> wf_map (agents w) \<Longrightarrow> all_agents vitals_ok (hunger_pass now w)"
  unfolding hunger_pass_def
proof (rule each_agent_improves)
  have e: "HungerAfterTick (Hunger a) b \<le> 20 \<and> 0 \<le> HungerAfterTick (Hunger a) b" if "vitals_ok a" for a b
    using HungerAfterTick_range[of "Hunger a" b] that by (simp add: vitals_ok_def)
  show "improves vitals_ok vitals_ok (\<lambda>aid a w.
       if Hunger a > 0 then
         upd_agent aid (\<lambda>a. a\<lparr>Hunger := HungerAfterTick (Hunger a)
           (activeEventID w = ''BLIGHT_ZONE'' \<and> inEventRange w now (APos a))\<rparr>) w
       else if HP a > 0 then upd_agent aid (damaged now ''STARVATION'') w
       else w)"
    using e vitals_damaged by (auto simp: improves_def gomap vitals_ok_def fun_eq_iff)
qed

lemma cold_pass_vitals:
  "all_agents vitals_ok w \<Longrightarrow> wf_map (agents w) \<Longrightarrow> all_agents vitals_ok (cold_pass now w)"
  unfolding cold_pass_def
proof (rule each_agent_improves)
  show "improves vitals_ok vitals_ok (\<lambda>aid a w.
       if HP a \<le> 0 \<or> nearBlock w (APos a) ''TORCH'' 3 then w else upd_agent aid (damaged now ''COLD'') w)"
    using vitals_damaged by (auto simp: improves_def gomap fun_eq_iff)
qed

lemma respawn_agents:
  assumes "map_of (agents w) x = Some a"
  shows "\<exists>b. HP b = 20 \<and> Hunger b = 10 \<and> StaminaMilli b = 1000 \<and>
    map_of (agents (respawnAgent now x why w)) = (map_of (agents w))(x \<mapsto> b)"
proof -
  obtain rest lost where c: "ComputeInventoryLoss (AInventory a) = (rest, lost)" by fastforce
  have "HP (respawned now why p q l c) = 20" "Hunger (respawned now why p q l c) = 10"
    "StaminaMilli (respawned now why p q l c) = 1000" for p q l c
    by (simp_all add: respawned_def AddEvent_def Let_def)
  with assms c show ?thesis
    by (auto simp: respawnAgent_def Let_def gomap fun_eq_iff intro!: exI[of _ "respawned _ _ _ _ _ _"])
qed

lemma recover_pass_vitals:
  assumes "all_agents vitals_ok w" and "wf_map (agents w)"
  shows "all_agents (\<lambda>a. vitals_ok a \<and> 0 < HP a) (recover_pass now n w)"
  unfolding recover_pass_def
proof (rule each_agent_improves[OF _ assms], unfold improves_def, intro allI impI)
  fix aid a and w :: world assume a: "map_of (agents w) aid = Some a" and v: "vitals_ok a"
  define rec where "rec = StaminaRecovery (weather w) (Hunger a) (activeEventID w) (inEventRange w now (APos a))"
  define hit where "hit \<longleftrightarrow> bandits_out w now \<and> now mod 50 = 0 \<and> n > 0 \<and> n < 2 \<and> near_event w a \<and> HP a > 0"
  define a' where "a' = recover rec (if hit then damaged now ''BANDIT'' a else a)"
  define w1 where "w1 = upd_agent aid (\<lambda>_. a') w"
  have "vitals_ok (if hit then damaged now ''BANDIT'' a else a)" using v vitals_damaged by (simp add: hit_def)
  then have v': "vitals_ok a'"
    using StaminaRecovery_range[of "weather w" "Hunger a" "activeEventID w" "inEventRange w now (APos a)"]
    by (auto simp: a'_def rec_def intro: vitals_recover)
  have w1: "map_of (agents w1) = (map_of (agents w))(aid \<mapsto> a')" using a by (simp add: w1_def gomap fun_eq_iff)
  have "\<exists>b. (vitals_ok b \<and> 0 < HP b) \<and>
      map_of (agents (if HP a' \<le> 0 then respawnAgent now aid ''DOWNED'' w1 else w1)) = (map_of (agents w))(aid \<mapsto> b)"
  proof (cases "HP a' \<le> 0")
    case True
    from respawn_agents[of w1 aid a' now "''DOWNED''"] w1 obtain b where
      "HP b = 20" "Hunger b = 10" "StaminaMilli b = 1000"
      "map_of (agents (respawnAgent now aid ''DOWNED'' w1)) = (map_of (agents w))(aid \<mapsto> b)" by auto
    then show ?thesis using True by (intro exI[of _ b]) (simp add: vitals_ok_def)
  qed (use v' w1 in auto)
  then show "\<exists>b. (vitals_ok b \<and> 0 < HP b) \<and>
      map_of (agents (let rec = StaminaRecovery (weather w) (Hunger a) (activeEventID w) (inEventRange w now (APos a));
           hit = bandits_out w now \<and> now mod 50 = 0 \<and> n > 0 \<and> n < 2 \<and> near_event w a \<and> HP a > 0;
           a' = recover rec (if hit then damaged now ''BANDIT'' a else a);
           w = upd_agent aid (\<lambda>_. a') w
       in if HP a' \<le> 0 then respawnAgent now aid ''DOWNED'' w else w)) = (map_of (agents w))(aid \<mapsto> b)"
    unfolding Let_def rec_def[symmetric] hit_def[symmetric] a'_def[symmetric] w1_def[symmetric] .
qed

lemma each_agent_wf:
  assumes "\<And>aid a w. wf_map (agents w) \<Longrightarrow> wf_map (agents (f aid a w))" and "wf_map (agents w)"
  shows "wf_map (agents (each_agent f w))"
proof -
  have "wf_map (agents (fold (\<lambda>aid w. case map_of (agents w) aid of None \<Rightarrow> w | Some a \<Rightarrow> f aid a w) ks w))" for ks
    using assms(2) by (induction ks arbitrary: w) (auto intro: assms(1) split: option.split)
  then show ?thesis by (simp add: each_agent_def)
qed

lemma wf_upd_agent: "wf_map (agents w) \<Longrightarrow> wf_map (agents (upd_agent x f w))"
  by (simp add: upd_agent_def split: option.split)

lemma passes_wf: "wf_map (agents w) \<Longrightarrow> wf_map (agents (hunger_pass now w)) \<and> wf_map (agents (cold_pass now w))"
  unfolding hunger_pass_def cold_pass_def by (intro conjI each_agent_wf) (auto intro: wf_upd_agent)

lemma agents_cleanup [simp]: "agents (cleanupExpiredItemEntities now w) = agents w"
proof -
  have r: "agents (removeItemEntity now x eid why w) = agents w" for x eid why w
    by (simp add: removeItemEntity_def split: option.split)
  have "agents (fold (\<lambda>eid w. removeItemEntity now ''WORLD'' eid ''EXPIRE'' w) ids w) = agents w" for ids
    by (induction ids arbitrary: w) (simp_all add: r)
  then show ?thesis by (simp add: cleanupExpiredItemEntities_def)
qed

lemma each_agent_dom:
  assumes "\<And>aid a w. map_of (agents w) aid = Some a \<Longrightarrow> dom (map_of (agents (f aid a w))) = dom (map_of (agents w))"
  shows "dom (map_of (agents (each_agent f w))) = dom (map_of (agents w))"
proof -
  have "dom (map_of (agents (fold (\<lambda>aid w. case map_of (agents w) aid of None \<Rightarrow> w | Some a \<Rightarrow> f aid a w) ks w))) =
      dom (map_of (agents w))" for ks
  proof (induction ks arbitrary: w)
    case (Cons k ks)
    then show ?case using assms[of w k] by (cases "map_of (agents w) k") simp_all
  qed simp
  then show ?thesis by (simp add: each_agent_def)
qed

lemma dom_upd_agent: "dom (map_of (agents (upd_agent x f w))) = dom (map_of (agents w))"
  by (auto simp: gomap dom_def)

lemma dom_respawn: "dom (map_of (agents (respawnAgent now x why w))) = dom (map_of (agents w))"
proof (cases "map_of (agents w) x")
  case (Some a)
  from respawn_agents[OF this, of now why] obtain b where
    "map_of (agents (respawnAgent now x why w)) = (map_of (agents w))(x \<mapsto> b)" by blast
  then show ?thesis using Some by auto
qed (simp add: respawnAgent_def)

lemma systemEnvironment_agents: "dom (map_of (agents (systemEnvironment fl now w))) = dom (map_of (agents w))"
proof -
  have "dom (map_of (agents (hunger_pass now w))) = dom (map_of (agents w))"
    "dom (map_of (agents (cold_pass now w))) = dom (map_of (agents w))"
    "dom (map_of (agents (recover_pass now n w))) = dom (map_of (agents w))" for n and w :: world
    unfolding hunger_pass_def cold_pass_def recover_pass_def
    by (rule each_agent_dom; simp add: dom_upd_agent dom_respawn Let_def)+
  then show ?thesis by (simp add: systemEnvironment_def Let_def)
qed

text \<open>
  C25. The environment keeps everyone going: whatever the weather, hunger and events, after a tick the same
  agents are there, each with between one and twenty hit points and with hunger and stamina in their
  ranges.  Who goes down is back in the same tick.
\<close>

theorem systemEnvironment_vitals:
  assumes "\<And>aid a. map_of (agents w) aid = Some a \<Longrightarrow> vitals_ok a" and "wf_map (agents w)"
  shows "case map_of (agents (systemEnvironment fl now w)) aid of
      None \<Rightarrow> map_of (agents w) aid = None
    | Some a \<Rightarrow> map_of (agents w) aid \<noteq> None \<and> 0 < HP a \<and> HP a \<le> 20 \<and> 0 \<le> Hunger a \<and> Hunger a \<le> 20 \<and>
        0 \<le> StaminaMilli a \<and> StaminaMilli a \<le> 1000"
proof -
  define w1 where "w1 = (if now mod 200 = 0 then hunger_pass now w else w)"
  define w2 where "w2 = (if weather w1 = ''COLD'' \<and> now mod 50 = 0 \<and> IsNight (timeOfDay fl w1 now) then cold_pass now w1 else w1)"
  define w3 where "w3 = recover_pass now (bandit_zone_count w2 now) w2"
  have 0: "all_agents vitals_ok w" using assms(1) by (simp add: all_agents_def)
  have 1: "all_agents vitals_ok w1" "wf_map (agents w1)"
    using hunger_pass_vitals[OF 0 assms(2)] 0 passes_wf[OF assms(2)] assms(2) by (simp_all add: w1_def)
  have 2: "all_agents vitals_ok w2" "wf_map (agents w2)"
    using cold_pass_vitals[OF 1] 1 passes_wf[OF 1(2)] by (simp_all add: w2_def)
  have "all_agents (\<lambda>a. vitals_ok a \<and> 0 < HP a) w3" unfolding w3_def by (rule recover_pass_vitals[OF 2])
  moreover have "agents (systemEnvironment fl now w) = agents w3"
    by (simp add: systemEnvironment_def Let_def w1_def w2_def w3_def)
  moreover have "map_of (agents (systemEnvironment fl now w)) aid = None \<longleftrightarrow> map_of (agents w) aid = None"
    using systemEnvironment_agents[of fl now w] by (metis domIff)
  ultimately show ?thesis by (auto simp: all_agents_def vitals_ok_def split: option.split)
qed

definition starving_world :: world where
  "starving_world = empty_world\<lparr>agents := [(''A1'', (agent_named ''A1'' [(''PLANK'', 10)])\<lparr>HP := 1, Hunger := 0, StaminaMilli := 0\<rparr>)]\<rparr>"

theorem systemEnvironment_vitals_witness:
  "\<exists>a. map_of (agents (systemEnvironment sample_floats 200 starving_world)) ''A1'' = Some a \<and> 0 < HP a \<and> HP a \<le> 20"
proof -
  have v: "vitals_ok a" if "map_of (agents starving_world) aid = Some a" for aid a
    using that by (auto simp: starving_world_def vitals_ok_def split: if_splits)
  have wf: "wf_map (agents starving_world)" by (simp add: starving_world_def wf_map_def)
  have "case map_of (agents (systemEnvironment sample_floats 200 starving_world)) ''A1'' of
      None \<Rightarrow> map_of (agents starving_world) ''A1'' = None
    | Some a \<Rightarrow> map_of (agents starving_world) ''A1'' \<noteq> None \<and> 0 < HP a \<and> HP a \<le> 20 \<and> 0 \<le> Hunger a \<and>
        Hunger a \<le> 20 \<and> 0 \<le> StaminaMilli a \<and> StaminaMilli a \<le> 1000"
    by (rule systemEnvironment_vitals[OF _ wf]) (rule v)
  moreover have "map_of (agents starving_world) ''A1'' \<noteq> None" by (simp add: starving_world_def)
  ultimately show ?thesis by (auto split: option.splits)
qed

end
