(* ===== verification/Movement_Model.thy ===== *)
theory Movement_Model
  imports Terrain Survival_Model
begin

text \<open>
  Movement (\<open>feature/movement/runtime/{requests,runtime,system}.go\<close>, \<open>feature/movement/params\<close>,
  \<open>movement_tasks_facade.go\<close>): the requests, and one step of every moving agent with its way around
  obstacles, the ban from cities and the access tickets; with the novelty of a biome and the use of
  structures that a step records (\<open>fun_facade.go\<close>).
\<close>

section \<open>Requests\<close>

definition NormalizeTarget :: "int \<Rightarrow> int \<Rightarrow> vec3" where
  "NormalizeTarget x z = \<lparr>vx = x, vy = 0, vz = z\<rparr>"

definition ClampFollowDistance :: "real \<Rightarrow> real" where
  "ClampFollowDistance d = (if d \<le> 0 then 2 else if d > 32 then 32 else d)"

definition followTargetPos :: "world \<Rightarrow> string \<Rightarrow> vec3 option" where
  "followTargetPos w tid =
     (if tid = [] then None
      else case map_of (agents w) tid of
             Some a \<Rightarrow> Some (APos a)
           | None \<Rightarrow> map_option (\<lambda>(p, c). CPos c) (GetContainerByID (containers w) tid))"

definition move_busy :: "string \<Rightarrow> world \<Rightarrow> bool" where
  "move_busy aid w \<longleftrightarrow> (case map_of (agents w) aid of None \<Rightarrow> False | Some a \<Rightarrow> MoveTask a \<noteq> None)"

text \<open>The end of an accepted request: a fresh identifier, the task in the movement slot, the answer.\<close>

definition start_move :: "string \<Rightarrow> task_req \<Rightarrow> u64 \<Rightarrow> (string \<Rightarrow> vec3 \<Rightarrow> movement_task) \<Rightarrow> world \<Rightarrow> world" where
  "start_move aid tr nowTick mk w =
     (case newTaskID w of
        (tid, w) \<Rightarrow>
          emit aid [(''t'', JU64 nowTick), (''type'', JStr ''ACTION_RESULT''), (''ref'', JStr (TaskID tr)),
                    (''ok'', JBool True), (''task_id'', JStr tid)]
            (upd_agent aid (\<lambda>a. a\<lparr>MoveTask := Some (mk tid (APos a))\<rparr>) w))"

definition HandleTaskMoveTo :: "string \<Rightarrow> task_req \<Rightarrow> u64 \<Rightarrow> world \<Rightarrow> world" where
  "HandleTaskMoveTo aid tr nowTick w =
     (if move_busy aid w then refuse_task aid tr nowTick ''E_CONFLICT'' ''movement task slot occupied'' w
      else
        let goal = NormalizeTarget (fst (Target tr)) (snd (snd (Target tr)))
        in if \<not> InBounds w goal then refuse_task aid tr nowTick ''E_INVALID_TARGET'' ''out of bounds'' w
           else start_move aid tr nowTick (\<lambda>tid pos.
                  \<lparr>MTaskID = tid, MKind = KindMoveTo, MTarget = goal, Tolerance = TaskTolerance tr, MTargetID = [],
                   Distance = 0, StartPos = pos, MStartedTick = nowTick\<rparr>) w)"

definition HandleTaskFollow :: "string \<Rightarrow> task_req \<Rightarrow> u64 \<Rightarrow> world \<Rightarrow> world" where
  "HandleTaskFollow aid tr nowTick w =
     (if move_busy aid w then refuse_task aid tr nowTick ''E_CONFLICT'' ''movement task slot occupied'' w
      else if TargetID tr = [] then refuse_task aid tr nowTick ''E_BAD_REQUEST'' ''missing target_id'' w
      else case followTargetPos w (TargetID tr) of
             None \<Rightarrow> refuse_task aid tr nowTick ''E_INVALID_TARGET'' ''target not found'' w
           | Some goal \<Rightarrow>
               start_move aid tr nowTick (\<lambda>tid pos.
                 \<lparr>MTaskID = tid, MKind = KindFollow, MTarget = goal, Tolerance = 0, MTargetID = TargetID tr,
                  Distance = ClampFollowDistance (TaskDistance tr), StartPos = pos, MStartedTick = nowTick\<rparr>) w)"

definition handleTaskStop :: "string \<Rightarrow> task_req \<Rightarrow> u64 \<Rightarrow> world \<Rightarrow> world" where
  "handleTaskStop aid tr nowTick w =
     reply aid nowTick (TaskID tr) True [] ''stopped'' (upd_agent aid (\<lambda>a. a\<lparr>MoveTask := None\<rparr>) w)"

section \<open>Steps\<close>

text \<open>\<open>int(tolerance)\<close> truncates; a tolerance beyond the integers is not considered.\<close>

definition MoveTolerance :: "real \<Rightarrow> int" where
  "MoveTolerance tolerance =
     (let want = (if tolerance \<ge> 0 then \<lfloor>tolerance\<rfloor> else \<lceil>tolerance\<rceil>);
          want = (if of_int want < tolerance then want + 1 else want)
      in if want < 1 then 1 else want)"

definition ShouldSkipStorm :: "string \<Rightarrow> u64 \<Rightarrow> bool" where
  "ShouldSkipStorm wthr nowTick \<longleftrightarrow> wthr = ''STORM'' \<and> nowTick mod 2 = 1"

definition ShouldSkipFlood :: "string \<Rightarrow> int \<Rightarrow> u64 \<Rightarrow> u64 \<Rightarrow> vec3 \<Rightarrow> vec3 \<Rightarrow> bool" where
  "ShouldSkipFlood eventID radius nowTick ends pos center \<longleftrightarrow>
     \<not> (eventID \<noteq> ''FLOOD_WARNING'' \<or> radius \<le> 0 \<or> nowTick \<ge> ends) \<and>
     distXZ pos center \<le> radius \<and> nowTick mod 3 = 1"

definition PrimaryAxis :: "int \<Rightarrow> int \<Rightarrow> bool" where
  "PrimaryAxis dx dz \<longleftrightarrow> iabs dx \<ge> iabs dz"

definition toward :: "int \<Rightarrow> int \<Rightarrow> int" where
  "toward x d = (if d > 0 then i64 (x + 1) else if d < 0 then i64 (x - 1) else x)"

definition PrimaryStep :: "vec3 \<Rightarrow> int \<Rightarrow> int \<Rightarrow> bool \<Rightarrow> vec3" where
  "PrimaryStep p dx dz primaryX =
     (if primaryX then p\<lparr>vx := toward (vx p) dx\<rparr> else p\<lparr>vz := toward (vz p) dz\<rparr>)"

definition SecondaryStep :: "vec3 \<Rightarrow> int \<Rightarrow> int \<Rightarrow> bool \<Rightarrow> vec3" where
  "SecondaryStep p dx dz primaryX =
     (if primaryX then p\<lparr>vz := toward (vz p) dz\<rparr> else p\<lparr>vx := toward (vx p) dx\<rparr>)"

definition surfaceY :: "int \<Rightarrow> int \<Rightarrow> int" where
  "surfaceY x z = 0"

definition on_surface :: "vec3 \<Rightarrow> vec3" where
  "on_surface p = p\<lparr>vy := surfaceY (vx p) (vz p)\<rparr>"

definition solid_at :: "world \<Rightarrow> vec3 \<Rightarrow> bool" where
  "solid_at w p = blockSolid w (GetBlock w p)"

text \<open>The cell to step to: along the longer axis, else along the other, else the first step of a detour.\<close>

definition choose_step :: "world \<Rightarrow> vec3 \<Rightarrow> vec3 \<Rightarrow> vec3" where
  "choose_step w pos target =
     (let dx = i64 (vx target - vx pos); dz = i64 (vz target - vz pos);
          primaryX = PrimaryAxis dx dz;
          next = on_surface (PrimaryStep pos dx dz primaryX);
          alt = SecondaryStep pos dx dz primaryX;
          next = (if solid_at w next \<and> alt \<noteq> pos \<and> \<not> solid_at w (on_surface alt) then on_surface alt else next)
      in if solid_at w next
         then (case DetourStep2D pos target 16 (InBounds w) (solid_at w) of Some p \<Rightarrow> p | None \<Rightarrow> next)
         else next)"

section \<open>Recording a step\<close>

definition funOnBiome :: "world \<Rightarrow> u64 \<Rightarrow> agent \<Rightarrow> agent" where
  "funOnBiome w nowTick a =
     (let b = BiomeAt (Seed (cfg w)) (vx (APos a)) (vz (APos a)) (BiomeRegionSize (cfg w))
      in if b = [] then a
         else case MarkBiomeSeen b a of
                (fresh, a') \<Rightarrow> if \<not> fresh then a' else addFun nowTick ''NOVELTY'' (''biome:'' @ b) 10 a')"

definition recordStructureUsage :: "string \<Rightarrow> vec3 \<Rightarrow> u64 \<Rightarrow> world \<Rightarrow> world" where
  "recordStructureUsage agentID pos nowTick w =
     (if agentID = [] then w
      else w\<lparr>structures := map (\<lambda>(sid, s).
        if vx pos < vx (SMin s) \<or> vx pos > vx (SMax s) \<or> vy pos < vy (SMin s) \<or> vy pos > vy (SMax s) \<or>
           vz pos < vz (SMin s) \<or> vz pos > vz (SMax s)
        then (sid, s) else (sid, s\<lparr>UsedBy := mput agentID nowTick (UsedBy s)\<rparr>)) (structures w)\<rparr>)"

definition record_step :: "string \<Rightarrow> u64 \<Rightarrow> world \<Rightarrow> world" where
  "record_step aid nowTick w =
     (case map_of (agents w) aid of
        None \<Rightarrow> w
      | Some a \<Rightarrow> upd_agent aid (funOnBiome w nowTick) (recordStructureUsage aid (APos a) nowTick w))"

section \<open>Borders\<close>

definition entering :: "world \<Rightarrow> vec3 \<Rightarrow> land_claim \<Rightarrow> bool" where
  "entering w pos toLand \<longleftrightarrow>
     (case landAt w pos of
        None \<Rightarrow> True
      | Some fromLand \<Rightarrow> LandID fromLand \<noteq> LandID toLand \<or> \<not> landCoreContains w toLand pos)"

definition guarded_core :: "world \<Rightarrow> string \<Rightarrow> vec3 \<Rightarrow> land_claim option" where
  "guarded_core w aid p =
     (case landAt w p of
        None \<Rightarrow> None
      | Some land \<Rightarrow> if landCoreContains w land p \<and> \<not> isLandMember w aid (Some land) then Some land else None)"

definition banned_from :: "world \<Rightarrow> string \<Rightarrow> agent \<Rightarrow> vec3 \<Rightarrow> bool" where
  "banned_from w aid a next \<longleftrightarrow>
     (case guarded_core w aid next of
        None \<Rightarrow> False
      | Some land \<Rightarrow>
          (case orgByID w (Owner land) of
             None \<Rightarrow> False
           | Some ob \<Rightarrow> OKind ob = OrgCity \<and> entering w (APos a) land \<and> RepLaw a > 0 \<and> RepLaw a < 200))"

datatype toll = NoToll | PassRequired | NoTicket | Pay land_claim string int

definition toll_at :: "world \<Rightarrow> string \<Rightarrow> agent \<Rightarrow> vec3 \<Rightarrow> toll" where
  "toll_at w aid a next =
     (case guarded_core w aid next of
        None \<Rightarrow> NoToll
      | Some land \<Rightarrow>
          if \<not> AccessPassEnabled land \<or> \<not> entering w (APos a) land then NoToll
          else
            let item = trim_space (AccessTicketItem land); cost = AccessTicketCost land
            in if item = [] \<or> cost \<le> 0 then PassRequired
               else if cnt (AInventory a) item < cost then NoTicket
               else Pay land item cost)"

section \<open>The movement system\<close>

definition stop_move :: "string \<Rightarrow> event \<Rightarrow> world \<Rightarrow> world" where
  "stop_move aid e w = emit aid e (upd_agent aid (\<lambda>a. a\<lparr>MoveTask := None\<rparr>) w)"

definition move_fails :: "string \<Rightarrow> u64 \<Rightarrow> movement_task \<Rightarrow> string \<Rightarrow> string \<Rightarrow> world \<Rightarrow> world" where
  "move_fails aid nowTick mt code msg w =
     stop_move aid [(''t'', JU64 nowTick), (''type'', JStr ''TASK_FAIL''), (''task_id'', JStr (MTaskID mt)),
                    (''code'', JStr code), (''message'', JStr msg)] w"

definition pay_toll :: "string \<Rightarrow> u64 \<Rightarrow> land_claim \<Rightarrow> string \<Rightarrow> int \<Rightarrow> world \<Rightarrow> world" where
  "pay_toll aid nowTick land item cost w =
     emit aid [(''t'', JU64 nowTick), (''type'', JStr ''ACCESS_PASS''), (''land_id'', JStr (LandID land)),
               (''item'', JStr item), (''count'', JInt cost)]
       (TransferToLandOwner (Owner land) item cost (take_agent aid item cost w))"

text \<open>The last part of a step: into the chosen cell unless it is solid.\<close>

definition enter_cell :: "string \<Rightarrow> u64 \<Rightarrow> movement_task \<Rightarrow> vec3 \<Rightarrow> world \<Rightarrow> world" where
  "enter_cell aid nowTick mt next w =
     (if solid_at w next then move_fails aid nowTick mt ''E_BLOCKED'' ''blocked'' w
      else record_step aid nowTick (upd_agent aid (\<lambda>a. a\<lparr>APos := next\<rparr>) w))"

definition walk_on :: "string \<Rightarrow> u64 \<Rightarrow> movement_task \<Rightarrow> vec3 \<Rightarrow> world \<Rightarrow> world" where
  "walk_on aid nowTick mt target w =
     (case map_of (agents w) aid of
        None \<Rightarrow> w
      | Some a \<Rightarrow>
          if ShouldSkipStorm (weather w) nowTick \<or>
             ShouldSkipFlood (activeEventID w) (activeEventRadius w) nowTick (activeEventEnds w) (APos a) (activeEventCenter w) \<or>
             StaminaMilli a < 8 then w
          else
            let w = upd_agent aid (\<lambda>a. a\<lparr>StaminaMilli := i64 (StaminaMilli a - 8)\<rparr>) w;
                next = choose_step w (APos a) target
            in if banned_from w aid a next
               then move_fails aid nowTick mt ''E_NO_PERMISSION'' ''wanted: law reputation too low'' (record_denied nowTick w)
               else case toll_at w aid a next of
                 PassRequired \<Rightarrow> move_fails aid nowTick mt ''E_NO_PERMISSION'' ''access pass required'' (record_denied nowTick w)
               | NoTicket \<Rightarrow> move_fails aid nowTick mt ''E_NO_RESOURCE'' ''need access ticket'' (record_denied nowTick w)
               | Pay land item cost \<Rightarrow> enter_cell aid nowTick mt next (pay_toll aid nowTick land item cost w)
               | NoToll \<Rightarrow> enter_cell aid nowTick mt next w)"

definition move_agent :: "u64 \<Rightarrow> string \<Rightarrow> world \<Rightarrow> world" where
  "move_agent nowTick aid w =
     (case map_of (agents w) aid of
        None \<Rightarrow> w
      | Some a \<Rightarrow>
          (case MoveTask a of
             None \<Rightarrow> w
           | Some mt \<Rightarrow>
               if MKind mt = KindMoveTo then
                 (if distXZ (APos a) (MTarget mt) \<le> MoveTolerance (Tolerance mt)
                  then stop_move aid [(''t'', JU64 nowTick), (''type'', JStr ''TASK_DONE''),
                                      (''task_id'', JStr (MTaskID mt)), (''kind'', JStr ''MOVE_TO'')]
                         (record_step aid nowTick w)
                  else walk_on aid nowTick mt (MTarget mt) w)
               else if MKind mt = KindFollow then
                 (case followTargetPos w (MTargetID mt) of
                    None \<Rightarrow> move_fails aid nowTick mt ''E_INVALID_TARGET'' ''follow target not found'' w
                  | Some t \<Rightarrow>
                      let mt = mt\<lparr>MTarget := t\<rparr>;
                          w = upd_agent aid (\<lambda>a. a\<lparr>MoveTask := Some mt\<rparr>) w
                      in if distXZ (APos a) t \<le> MoveTolerance (Distance mt) then w
                         else walk_on aid nowTick mt t w)
               else w))"

definition systemMovement :: "u64 \<Rightarrow> world \<Rightarrow> world" where
  "systemMovement nowTick w = fold (move_agent nowTick) (sorted_keys (agents w)) w"

section \<open>Steps are safe\<close>

subsection \<open>Choosing a step\<close>

definition adjacent :: "vec3 \<Rightarrow> vec3 \<Rightarrow> bool" where
  "adjacent p q \<longleftrightarrow> vy q = 0 \<and> \<bar>vx q - vx p\<bar> + \<bar>vz q - vz p\<bar> = 1"

definition bounded_world :: "world \<Rightarrow> bool" where
  "bounded_world w \<longleftrightarrow> 0 < BoundaryR (cfg w) \<and> BoundaryR (cfg w) \<le> 2 ^ 60"

lemma InBounds_box:
  "bounded_world w \<Longrightarrow> InBounds w p \<longleftrightarrow> vy p = 0 \<and> \<bar>vx p\<bar> \<le> BoundaryR (cfg w) \<and> \<bar>vz p\<bar> \<le> BoundaryR (cfg w)"
  by (auto simp: bounded_world_def InBounds_def Let_def abs_le_iff)

lemma iabs_small: "\<bar>x\<bar> \<le> 2 ^ 61 \<Longrightarrow> iabs x = \<bar>x\<bar>"
  by (auto simp: iabs_def abs_if split: if_splits)

lemma abs_diff_box: "\<bar>a\<bar> \<le> r \<Longrightarrow> \<bar>b\<bar> \<le> r \<Longrightarrow> r \<le> 2 ^ 60 \<Longrightarrow> \<bar>a - b\<bar> \<le> (2 ^ 61 :: int)"
  by (auto simp: abs_if split: if_splits)

lemma i64_diff: "\<bar>a - b\<bar> \<le> 2 ^ 61 \<Longrightarrow> i64 (a - b) = a - b"
  by (rule i64_small) (auto simp: abs_le_iff)

lemma distXZ_box:
  assumes "bounded_world w" and "InBounds w p" and "InBounds w q"
  shows "distXZ p q = \<bar>vx p - vx q\<bar> + \<bar>vz p - vz q\<bar>"
proof -
  have r: "BoundaryR (cfg w) \<le> 2 ^ 60" using assms(1) by (simp add: bounded_world_def)
  have x: "\<bar>vx p - vx q\<bar> \<le> 2 ^ 61" and z: "\<bar>vz p - vz q\<bar> \<le> 2 ^ 61"
    by (rule abs_diff_box[OF _ _ r]; use assms(2,3) in \<open>simp add: InBounds_box[OF assms(1)]\<close>)+
  then show ?thesis by (simp add: distXZ_def i64_diff iabs_small)
qed

lemma straight_step:
  assumes b: "bounded_world w" and p: "InBounds w p" and t: "InBounds w t"
  defines "dx \<equiv> i64 (vx t - vx p)" and "dz \<equiv> i64 (vz t - vz p)"
  shows "0 < distXZ p t \<Longrightarrow> adjacent p (on_surface (PrimaryStep p dx dz (PrimaryAxis dx dz))) \<and>
      InBounds w (on_surface (PrimaryStep p dx dz (PrimaryAxis dx dz)))"
    and "SecondaryStep p dx dz (PrimaryAxis dx dz) \<noteq> p \<Longrightarrow>
      adjacent p (on_surface (SecondaryStep p dx dz (PrimaryAxis dx dz))) \<and>
      InBounds w (on_surface (SecondaryStep p dx dz (PrimaryAxis dx dz)))"
proof -
  note box = InBounds_box[OF b]
  have r: "0 < BoundaryR (cfg w)" "BoundaryR (cfg w) \<le> 2 ^ 60" using b by (simp_all add: bounded_world_def)
  have c: "vy p = 0" "\<bar>vx p\<bar> \<le> BoundaryR (cfg w)" "\<bar>vz p\<bar> \<le> BoundaryR (cfg w)"
    "\<bar>vx t\<bar> \<le> BoundaryR (cfg w)" "\<bar>vz t\<bar> \<le> BoundaryR (cfg w)" using p t by (simp_all add: box)
  have small: "\<bar>vx t - vx p\<bar> \<le> 2 ^ 61" "\<bar>vz t - vz p\<bar> \<le> 2 ^ 61"
    by (rule abs_diff_box[OF _ _ r(2)]; use c in simp)+
  then have d: "dx = vx t - vx p" "dz = vz t - vz p" by (simp_all add: dx_def dz_def i64_diff)
  have "toward a d = a + sgn d" if "\<bar>a\<bar> \<le> BoundaryR (cfg w)" for a d
    using that r by (simp add: toward_def sgn_if abs_le_iff)
  then have tx: "toward (vx p) dx = vx p + sgn dx" "toward (vz p) dz = vz p + sgn dz" using c by simp_all
  have D: "distXZ p t = \<bar>dx\<bar> + \<bar>dz\<bar>" using distXZ_box[OF b p t] by (simp add: d abs_minus_commute)
  have "\<bar>a + sgn (b - a)\<bar> \<le> n" if "\<bar>a\<bar> \<le> n" "\<bar>b\<bar> \<le> n" for a b n :: int
    using that by (simp add: sgn_if abs_le_iff)
  then have in_x: "\<bar>vx p + sgn dx\<bar> \<le> BoundaryR (cfg w)" and in_z: "\<bar>vz p + sgn dz\<bar> \<le> BoundaryR (cfg w)"
    using c by (simp_all add: d)
  have ax: "PrimaryAxis dx dz \<longleftrightarrow> \<bar>dz\<bar> \<le> \<bar>dx\<bar>"
    using small by (simp add: PrimaryAxis_def d iabs_small)
  have unit: "\<bar>sgn d\<bar> = 1" if "d \<noteq> 0" for d :: int using that by (simp add: sgn_if)
  have X: "on_surface (p\<lparr>vx := toward (vx p) dx\<rparr>) = \<lparr>vx = vx p + sgn dx, vy = 0, vz = vz p\<rparr>"
    and Z: "on_surface (p\<lparr>vz := toward (vz p) dz\<rparr>) = \<lparr>vx = vx p, vy = 0, vz = vz p + sgn dz\<rparr>"
    by (simp_all add: on_surface_def surfaceY_def tx)
  have okX: "adjacent p \<lparr>vx = vx p + sgn dx, vy = 0, vz = vz p\<rparr> \<and> InBounds w \<lparr>vx = vx p + sgn dx, vy = 0, vz = vz p\<rparr>"
    if "dx \<noteq> 0" using that in_x c by (simp add: adjacent_def box unit)
  have okZ: "adjacent p \<lparr>vx = vx p, vy = 0, vz = vz p + sgn dz\<rparr> \<and> InBounds w \<lparr>vx = vx p, vy = 0, vz = vz p + sgn dz\<rparr>"
    if "dz \<noteq> 0" using that in_z c by (simp add: adjacent_def box unit)
  show "0 < distXZ p t \<Longrightarrow> adjacent p (on_surface (PrimaryStep p dx dz (PrimaryAxis dx dz))) \<and>
      InBounds w (on_surface (PrimaryStep p dx dz (PrimaryAxis dx dz)))"
    unfolding D ax PrimaryStep_def by (cases "\<bar>dz\<bar> \<le> \<bar>dx\<bar>") (use okX okZ in \<open>auto simp: X Z\<close>)
  show "SecondaryStep p dx dz (PrimaryAxis dx dz) \<noteq> p \<Longrightarrow>
      adjacent p (on_surface (SecondaryStep p dx dz (PrimaryAxis dx dz))) \<and>
      InBounds w (on_surface (SecondaryStep p dx dz (PrimaryAxis dx dz)))"
  proof -
    have "dx = 0 \<Longrightarrow> p\<lparr>vx := toward (vx p) dx\<rparr> = p" "dz = 0 \<Longrightarrow> p\<lparr>vz := toward (vz p) dz\<rparr> = p"
      by (simp_all add: toward_def)
    then show "SecondaryStep p dx dz (PrimaryAxis dx dz) \<noteq> p \<Longrightarrow> ?thesis"
      unfolding SecondaryStep_def by (cases "PrimaryAxis dx dz") (use okX okZ in \<open>auto simp: X Z\<close>)
  qed
qed

lemma choose_step_safe:
  assumes b: "bounded_world w" and p: "InBounds w p" and t: "InBounds w t" and far: "0 < distXZ p t"
  shows "adjacent p (choose_step w p t) \<and> InBounds w (choose_step w p t)"
proof -
  define dx dz where "dx = i64 (vx t - vx p)" and "dz = i64 (vz t - vz p)"
  define ok where "ok q \<longleftrightarrow> adjacent p q \<and> InBounds w q" for q
  have one: "ok (on_surface (PrimaryStep p dx dz (PrimaryAxis dx dz)))"
    and two: "SecondaryStep p dx dz (PrimaryAxis dx dz) \<noteq> p \<Longrightarrow> ok (on_surface (SecondaryStep p dx dz (PrimaryAxis dx dz)))"
    using straight_step[OF b p t] far by (simp_all add: dx_def dz_def ok_def)
  have detour: "ok f" if "DetourStep2D p t 16 (InBounds w) (solid_at w) = Some f" for f
  proof -
    have f: "InBounds w f" "\<exists>d \<in> set cardinalDirs. f = step2d (ground p) d"
      using DetourStep2D_spec[where start = p and target = t and maxDepth = 16 and inBounds = "InBounds w"
          and isSolid = "solid_at w", OF _ refl refl refl] that by (auto simp: passable_def)
    have "- (2 ^ 60) \<le> vx p" "vx p \<le> 2 ^ 60" "- (2 ^ 60) \<le> vz p" "vz p \<le> 2 ^ 60"
      using p b by (auto simp: InBounds_box[OF b] bounded_world_def abs_le_iff)
    then have "adjacent p f" using f(2) by (auto simp: cardinalDirs_def step2d_def ground_def cell_def adjacent_def)
    with f(1) show ?thesis by (simp add: ok_def)
  qed
  have "ok (choose_step w p t)"
    unfolding choose_step_def Let_def dx_def[symmetric] dz_def[symmetric]
    using one two by (auto intro: detour split: option.split)
  then show ?thesis by (simp add: ok_def)
qed

subsection \<open>What a step can touch\<close>

text \<open>Where an agent is, where it goes and what strength it has left.\<close>

definition placing :: "world \<Rightarrow> string \<Rightarrow> (vec3 \<times> movement_task option \<times> int) option" where
  "placing w aid = map_option (\<lambda>a. (APos a, MoveTask a, StaminaMilli a)) (map_of (agents w) aid)"

definition scene :: "world \<Rightarrow> world_config \<times> catalogs \<times> (vec3 \<Rightarrow> blockid) \<times> blockid \<times> (vec3 \<times> container) list" where
  "scene w = (cfg w, cats w, blocks w, airBlock w, containers w)"

abbreviation same_places :: "world \<Rightarrow> world \<Rightarrow> bool" where
  "same_places w w' \<equiv> scene w' = scene w \<and> placing w' = placing w"

named_theorems still "operations that leave every agent in its place"

lemma scene_upd [simp]: "scene (upd_agent x f w) = scene w" "scene (emit x e w) = scene w"
  by (simp_all add: scene_def)

lemma placing_upd:
  "placing (upd_agent x f w) = (placing w)(x := map_option (\<lambda>a. (APos (f a), MoveTask (f a), StaminaMilli (f a))) (map_of (agents w) x))"
  by (rule ext) (simp add: placing_def gomap option.map_comp comp_def)

lemma placing_same:
  "(\<And>a. APos (f a) = APos a \<and> MoveTask (f a) = MoveTask a \<and> StaminaMilli (f a) = StaminaMilli a) \<Longrightarrow> placing (upd_agent x f w) = placing w"
  by (rule ext) (simp add: placing_upd placing_def)

lemma still_emit [still]: "placing (emit x e w) = placing w"
  unfolding emit_def by (rule placing_same) (simp add: AddEvent_def Let_def)

lemma still_fields: "agents w' = agents w \<Longrightarrow> placing w' = placing w"
  by (rule ext) (simp add: placing_def)

lemma still_inv [still]: "placing (take_agent x item n w) = placing w" "placing (give_agent x item n w) = placing w"
  by (simp_all add: take_agent_def give_agent_def placing_same)

lemma agents_upd_org [simp]: "agents (upd_org x f w) = agents w" "scene (upd_org x f w) = scene w"
  by (simp_all add: upd_org_def scene_def split: option.split)

lemma still_owner [still]:
  "placing (TransferToLandOwner x item n w) = placing w" "scene (TransferToLandOwner x item n w) = scene w"
  by (auto simp: TransferToLandOwner_def ref_add_def give_agent_def intro!: still_fields placing_same split: option.split)

lemma funOnBiome_still: "APos (funOnBiome w now a) = APos a \<and> MoveTask (funOnBiome w now a) = MoveTask a \<and>
    StaminaMilli (funOnBiome w now a) = StaminaMilli a"
  by (simp add: funOnBiome_def MarkBiomeSeen_def addFun_def AddEvent_def Let_def case_prod_beta split: option.split)

lemma record_step_still [still]: "placing (record_step aid now w) = placing w" "scene (record_step aid now w) = scene w"
proof -
  have u: "placing (recordStructureUsage aid p now w) = placing w" "scene (recordStructureUsage aid p now w) = scene w" for p
    by (auto simp: recordStructureUsage_def scene_def intro: still_fields)
  show "placing (record_step aid now w) = placing w" "scene (record_step aid now w) = scene w"
    by (simp_all add: record_step_def u placing_same[OF funOnBiome_still] split: option.split)
qed

subsection \<open>One agent's turn\<close>

definition stepped :: "world \<Rightarrow> vec3 \<times> movement_task option \<times> int \<Rightarrow> vec3 \<times> movement_task option \<times> int \<Rightarrow> bool" where
  "stepped w = (\<lambda>(p, m, s) (p', m', s').
     (\<forall>mt. m' = Some mt \<longrightarrow> MKind mt = KindMoveTo \<longrightarrow> m = Some mt) \<and>
     (p' = p \<and> (s' = s \<or> 8 \<le> s \<and> s' = s - 8) \<or>
      m \<noteq> None \<and> adjacent p p' \<and> InBounds w p' \<and> \<not> solid_at w p' \<and> 8 \<le> s \<and> s' = s - 8))"

text \<open>Only the agent whose turn it is may have moved.\<close>

definition turn :: "string \<Rightarrow> world \<Rightarrow> world \<Rightarrow> bool" where
  "turn aid w w' \<longleftrightarrow> scene w' = scene w \<and> (\<forall>x. x \<noteq> aid \<longrightarrow> placing w' x = placing w x) \<and>
     (case placing w aid of None \<Rightarrow> placing w' aid = None
      | Some pl \<Rightarrow> (\<exists>pl'. placing w' aid = Some pl' \<and> stepped w pl pl'))"

lemma scene_solid: "scene w' = scene w \<Longrightarrow> solid_at w' = solid_at w \<and> InBounds w' = InBounds w"
  by (auto simp: scene_def fun_eq_iff solid_at_def blockSolid_def blockName_def GetBlock_def InBounds_def Let_def split: option.split)

lemma stop_move_still [still]:
  "scene (stop_move aid e w) = scene w"
  "placing (stop_move aid e w) = (placing w)(aid := map_option (\<lambda>(p, m, s). (p, None, s)) (placing w aid))"
  by (simp_all add: stop_move_def still placing_upd) (simp add: placing_def option.map_comp comp_def)

lemma move_fails_still [still]:
  "scene (move_fails aid now mt c m w) = scene w"
  "placing (move_fails aid now mt c m w) = (placing w)(aid := map_option (\<lambda>(p, m, s). (p, None, s)) (placing w aid))"
  by (simp_all add: move_fails_def still)

lemma record_denied_still [still]: "scene (record_denied now w) = scene w" "placing (record_denied now w) = placing w"
  by (auto simp: record_denied_def scene_def intro: still_fields)

lemma pay_toll_still [still]: "scene (pay_toll aid now land item n w) = scene w" "placing (pay_toll aid now land item n w) = placing w"
  by (simp_all add: pay_toll_def still take_agent_def placing_same)

lemma enter_cell_spec:
  "scene (enter_cell aid now mt next w) = scene w"
  "placing (enter_cell aid now mt next w) = (placing w)(aid :=
     map_option (\<lambda>(p, m, s). if solid_at w next then (p, None, s) else (next, m, s)) (placing w aid))"
  by (simp_all add: enter_cell_def still placing_upd) (simp_all add: placing_def option.map_comp comp_def)

lemma walk_on_turn:
  assumes b: "bounded_world w" and a: "map_of (agents w) aid = Some a" and p: "InBounds w (APos a)" and t: "InBounds w target"
    and far: "0 < distXZ (APos a) target" and m: "MoveTask a \<noteq> None" and s: "StaminaMilli a < 2 ^ 63"
  shows "turn aid w (walk_on aid now mt target w)"
proof -
  define u where "u = upd_agent aid (\<lambda>a. a\<lparr>StaminaMilli := i64 (StaminaMilli a - 8)\<rparr>) w"
  have u: "scene u = scene w" "placing u = (placing w)(aid := Some (APos a, MoveTask a, i64 (StaminaMilli a - 8)))"
    by (simp_all add: u_def placing_upd a)
  have now: "placing w aid = Some (APos a, MoveTask a, StaminaMilli a)" by (simp add: placing_def a)
  have dry: "i64 (StaminaMilli a - 8) = StaminaMilli a - 8" if "8 \<le> StaminaMilli a"
    by (rule i64_nonneg) (use that s in simp_all)
  have safe: "adjacent (APos a) (choose_step u (APos a) target)" "InBounds w (choose_step u (APos a) target)"
    using choose_step_safe[of u "APos a" target] b p t far scene_solid[OF u(1)] u(1)
    by (simp_all add: bounded_world_def scene_def)
  have fails: "turn aid w (move_fails aid now mt c msg (record_denied now u))" if "8 \<le> StaminaMilli a" for c msg
    using that by (simp add: turn_def still u now stepped_def dry)
  have enters: "turn aid w (enter_cell aid now mt (choose_step u (APos a) target) v)"
    if v: "scene v = scene u" "placing v = placing u" and e: "8 \<le> StaminaMilli a" for v
    using safe e m scene_solid[of v w] v(1) u(1)
    by (simp add: turn_def enter_cell_spec v(2) u now stepped_def dry)
  have idle: "turn aid w w" by (simp add: turn_def now stepped_def)
  show ?thesis
    unfolding walk_on_def a option.case Let_def u_def[symmetric]
    by (simp add: idle fails enters still split: toll.split)
qed

definition placed_ok :: "world \<Rightarrow> vec3 \<times> movement_task option \<times> int \<Rightarrow> bool" where
  "placed_ok w = (\<lambda>(p, m, s). InBounds w p \<and> s < 2 ^ 63 \<and>
     (\<forall>mt. m = Some mt \<longrightarrow> MKind mt = KindMoveTo \<longrightarrow> InBounds w (MTarget mt)))"

definition placed_well :: "world \<Rightarrow> bool" where
  "placed_well w \<longleftrightarrow> bounded_world w \<and> (\<forall>(p, c) \<in> set (containers w). InBounds w (CPos c)) \<and>
     (\<forall>aid pl. placing w aid = Some pl \<longrightarrow> placed_ok w pl)"

lemma stepped_ok: "stepped w pl pl' \<Longrightarrow> placed_ok w pl \<Longrightarrow> placed_ok w pl'"
  by (auto simp: stepped_def placed_ok_def)

lemma turn_placed_well:
  assumes "turn aid w w'" and "placed_well w" shows "placed_well w'"
proof -
  have sc: "scene w' = scene w" using assms(1) by (simp add: turn_def)
  note same = scene_solid[OF sc]
  have "placed_ok w' pl'" if "placing w' x = Some pl'" for x pl'
  proof (cases "x = aid")
    case True
    with that assms show ?thesis
      by (auto simp: turn_def placed_well_def placed_ok_def same dest: stepped_ok split: option.splits)
  next
    case False
    with that assms show ?thesis by (auto simp: turn_def placed_well_def placed_ok_def same)
  qed
  then show ?thesis using assms(2) sc same by (auto simp: placed_well_def bounded_world_def scene_def)
qed

lemma follow_in_bounds:
  assumes "placed_well w" and "followTargetPos w tid = Some t" shows "InBounds w t"
proof -
  have "InBounds w (APos a)" if "map_of (agents w) tid = Some a" for a
    using assms(1) that unfolding placed_well_def placing_def placed_ok_def by fastforce
  moreover have "InBounds w (CPos c)" if "GetContainerByID (containers w) tid = Some (p, c)" for p c
    using that assms(1) by (auto simp: GetContainerByID_def placed_well_def Let_def split: option.splits prod.splits if_splits dest!: map_of_SomeD)
  ultimately show ?thesis using assms(2) by (auto simp: followTargetPos_def split: if_splits option.splits)
qed

lemma turn_refl: "turn aid w w"
  by (auto simp: turn_def stepped_def split: option.split)

lemma turn_after:
  assumes "scene u = scene w" and "placing u = (placing w)(aid := Some (p, Some mt', s))"
    and "placing w aid = Some (p, Some mt, s)" and "MKind mt' \<noteq> KindMoveTo" and "turn aid u w'"
  shows "turn aid w w'"
proof -
  note same = scene_solid[OF assms(1)]
  from assms(2,5) obtain q m k where "placing w' aid = Some (q, m, k)" "stepped u (p, Some mt', s) (q, m, k)"
    by (auto simp: turn_def)
  with assms show ?thesis by (auto simp: turn_def stepped_def same)
qed

lemma move_agent_turn:
  assumes "placed_well w" shows "turn aid w (move_agent now aid w)"
proof (cases "map_of (agents w) aid")
  case None
  then show ?thesis by (simp add: move_agent_def turn_refl)
next
  case (Some a)
  have pl: "placing w aid = Some (APos a, MoveTask a, StaminaMilli a)" by (simp add: placing_def Some)
  have b: "bounded_world w" and ok: "placed_ok w (APos a, MoveTask a, StaminaMilli a)"
    using assms pl by (auto simp: placed_well_def)
  then have p: "InBounds w (APos a)" and s: "StaminaMilli a < 2 ^ 63" by (simp_all add: placed_ok_def)
  have tol: "0 < MoveTolerance r" for r by (simp add: MoveTolerance_def Let_def)
  show ?thesis
  proof (cases "MoveTask a")
    case None
    with Some show ?thesis by (simp add: move_agent_def turn_refl)
  next
    case m: (Some mt)
    have stops: "turn aid w (stop_move aid e (record_step aid now w))" for e
      by (simp add: turn_def still pl stepped_def)
    have fails: "turn aid w (move_fails aid now mt c msg w)" for c msg by (simp add: turn_def still pl stepped_def)
    consider "MKind mt = KindMoveTo" | "MKind mt = KindFollow" | "MKind mt \<noteq> KindMoveTo" "MKind mt \<noteq> KindFollow" by blast
    then show ?thesis
    proof cases
      case 1
      then have t: "InBounds w (MTarget mt)" using ok m by (simp add: placed_ok_def)
      have walk: "turn aid w (walk_on aid now mt (MTarget mt) w)" if "\<not> distXZ (APos a) (MTarget mt) \<le> MoveTolerance (Tolerance mt)"
        by (rule walk_on_turn[OF b Some p t]) (use that tol[of "Tolerance mt"] m s in auto)
      show ?thesis unfolding move_agent_def Some option.case m using 1 by (simp add: stops walk)
    next
      case 2
      show ?thesis
      proof (cases "followTargetPos w (MTargetID mt)")
        case None
        with 2 Some m show ?thesis by (simp add: move_agent_def fails)
      next
        case f: (Some t)
        define mt' where "mt' = mt\<lparr>MTarget := t\<rparr>"
        define u where "u = upd_agent aid (\<lambda>a. a\<lparr>MoveTask := Some mt'\<rparr>) w"
        have u: "scene u = scene w" "placing u = (placing w)(aid := Some (APos a, Some mt', StaminaMilli a))"
          by (simp_all add: u_def placing_upd Some)
        have ua: "map_of (agents u) aid = Some (a\<lparr>MoveTask := Some mt'\<rparr>)" by (simp add: u_def gomap Some)
        have "turn aid u (walk_on aid now mt' t u)" if "\<not> distXZ (APos a) t \<le> MoveTolerance (Distance mt)"
          by (rule walk_on_turn[OF _ ua])
            (use b p s that tol[of "Distance mt"] follow_in_bounds[OF assms f] u(1) scene_solid[OF u(1)]
              in \<open>auto simp: bounded_world_def scene_def\<close>)
        then have after: "turn aid u (if distXZ (APos a) t \<le> MoveTolerance (Distance mt') then u else walk_on aid now mt' t u)"
          by (simp add: turn_refl mt'_def)
        have "turn aid w (if distXZ (APos a) t \<le> MoveTolerance (Distance mt') then u else walk_on aid now mt' t u)"
          by (rule turn_after[OF u _ _ after]) (use 2 pl m in \<open>auto simp: mt'_def\<close>)
        then show ?thesis unfolding move_agent_def Some option.case m using 2
          by (cases "distXZ (APos a) t \<le> MoveTolerance (Distance mt)") (simp_all add: f Let_def u_def mt'_def)
      qed
    next
      case 3
      with Some m show ?thesis by (simp add: move_agent_def turn_refl)
    qed
  qed
qed

subsection \<open>The whole system\<close>

lemma turns_fold:
  "distinct ks \<Longrightarrow> placed_well w \<Longrightarrow>
   placed_well (fold (move_agent now) ks w) \<and> scene (fold (move_agent now) ks w) = scene w \<and>
   (\<forall>x. x \<notin> set ks \<longrightarrow> placing (fold (move_agent now) ks w) x = placing w x) \<and>
   (\<forall>x pl. placing w x = Some pl \<longrightarrow> (\<exists>pl'. placing (fold (move_agent now) ks w) x = Some pl' \<and> stepped w pl pl'))"
proof (induction ks arbitrary: w)
  case Nil
  then show ?case by (auto simp: stepped_def)
next
  case (Cons k ks)
  define u where "u = move_agent now k w"
  have t: "turn k w u" unfolding u_def by (rule move_agent_turn[OF Cons.prems(2)])
  have pu: "placed_well u" by (rule turn_placed_well[OF t Cons.prems(2)])
  have d: "k \<notin> set ks" "distinct ks" using Cons.prems(1) by auto
  have su: "scene u = scene w" using t by (simp add: turn_def)
  have same: "stepped u = stepped w" by (simp add: stepped_def fun_eq_iff scene_solid[OF su])
  note IH = Cons.IH[OF d(2) pu, unfolded same]
  have "\<exists>pl'. placing (fold (move_agent now) ks u) x = Some pl' \<and> stepped w pl pl'" if "placing w x = Some pl" for x pl
  proof (cases "x = k")
    case True
    with that t obtain q where "placing u x = Some q" "stepped w pl q" by (auto simp: turn_def)
    with IH d(1) True show ?thesis by simp
  next
    case False
    with that t have "placing u x = Some pl" by (simp add: turn_def)
    with IH show ?thesis by blast
  qed
  with IH t su show ?case by (auto simp: u_def[symmetric] turn_def)
qed

text \<open>C24. In a bounded world whose agents, move targets and containers lie inside the boundary, the movement
  system keeps all of them inside. Every agent either stays where it is or, if it had a movement task, steps
  to one of the four neighbouring cells, inside the boundary and not solid, for eight units of stamina it had;
  no blocks or containers change, and no agent gains a MOVE_TO task.\<close>

theorem movement_safe:
  assumes "wf_map (agents w)" and "placed_well w"
  shows "placed_well (systemMovement now w) \<and> scene (systemMovement now w) = scene w \<and>
    (\<forall>aid a. map_of (agents w) aid = Some a \<longrightarrow>
      (\<exists>a'. map_of (agents (systemMovement now w)) aid = Some a' \<and>
        (APos a' = APos a \<and> (StaminaMilli a' = StaminaMilli a \<or> 8 \<le> StaminaMilli a \<and> StaminaMilli a' = StaminaMilli a - 8) \<or>
         MoveTask a \<noteq> None \<and> adjacent (APos a) (APos a') \<and> InBounds w (APos a') \<and> \<not> solid_at w (APos a') \<and>
         8 \<le> StaminaMilli a \<and> StaminaMilli a' = StaminaMilli a - 8) \<and>
        (\<forall>mt. MoveTask a' = Some mt \<longrightarrow> MKind mt = KindMoveTo \<longrightarrow> MoveTask a = Some mt)))"
proof -
  have d: "distinct (sorted_keys (agents w))" using assms(1) by (simp add: sorted_keys_def wf_map_def)
  note F = turns_fold[OF d assms(2), of now, folded systemMovement_def]
  have "\<exists>a'. map_of (agents (systemMovement now w)) aid = Some a' \<and>
      stepped w (APos a, MoveTask a, StaminaMilli a) (APos a', MoveTask a', StaminaMilli a')"
    if "map_of (agents w) aid = Some a" for aid a
  proof -
    have "placing w aid = Some (APos a, MoveTask a, StaminaMilli a)" using that by (simp add: placing_def)
    with F obtain q where "placing (systemMovement now w) aid = Some q" "stepped w (APos a, MoveTask a, StaminaMilli a) q" by blast
    then show ?thesis by (auto simp: placing_def)
  qed
  then have "\<forall>aid a. map_of (agents w) aid = Some a \<longrightarrow> (\<exists>a'. map_of (agents (systemMovement now w)) aid = Some a' \<and>
      stepped w (APos a, MoveTask a, StaminaMilli a) (APos a', MoveTask a', StaminaMilli a'))" by blast
  then show ?thesis using conjunct1[OF F] conjunct1[OF conjunct2[OF F]] unfolding stepped_def prod.case by (simp only: simp_thms) meson
qed

text \<open>Two agents: one walks along a wall it has to avoid, the other has nothing to do.\<close>

definition walker_world :: world where
  "walker_world = empty_world\<lparr>
     cfg := (cfg empty_world)\<lparr>BoundaryR := 8\<rparr>,
     cats := (cats empty_world)\<lparr>Palette := [''AIR'', ''STONE''], BlockSolidDefs := [(''AIR'', False), (''STONE'', True)]\<rparr>,
     blocks := (\<lambda>p. if p = \<lparr>vx = 1, vy = 0, vz = 0\<rparr> then 1 else 0),
     agents := [(''A1'', (agent_named ''A1'' [])\<lparr>APos := \<lparr>vx = 0, vy = 0, vz = 0\<rparr>, StaminaMilli := 500,
       MoveTask := Some \<lparr>MTaskID = ''T1'', MKind = KindMoveTo, MTarget = \<lparr>vx = 3, vy = 0, vz = 1\<rparr>, Tolerance = 0,
         MTargetID = [], Distance = 0, StartPos = \<lparr>vx = 0, vy = 0, vz = 0\<rparr>, MStartedTick = 0\<rparr>\<rparr>),
       (''A2'', (agent_named ''A2'' [])\<lparr>APos := \<lparr>vx = 2, vy = 0, vz = 0\<rparr>, StaminaMilli := 500, MoveTask := None\<rparr>)]\<rparr>"

theorem movement_safe_witness:
  "placed_well (systemMovement 6 walker_world) \<and>
   (\<exists>a'. map_of (agents (systemMovement 6 walker_world)) ''A1'' = Some a' \<and>
     (APos a' = \<lparr>vx = 0, vy = 0, vz = 0\<rparr> \<or>
      adjacent \<lparr>vx = 0, vy = 0, vz = 0\<rparr> (APos a') \<and> APos a' \<noteq> \<lparr>vx = 1, vy = 0, vz = 0\<rparr> \<and> StaminaMilli a' = 492))"
proof -
  have wf: "wf_map (agents walker_world)" by (simp add: walker_world_def wf_map_def)
  have b: "bounded_world walker_world" by (simp add: bounded_world_def walker_world_def)
  have ok: "placed_well walker_world"
    by (auto simp: placed_well_def b placing_def placed_ok_def InBounds_box[OF b])
       (auto simp: walker_world_def split: if_splits)
  have solid: "solid_at walker_world \<lparr>vx = 1, vy = 0, vz = 0\<rparr>"
  proof -
    have "InBounds walker_world \<lparr>vx = 1, vy = 0, vz = 0\<rparr>"
      by (simp add: InBounds_box[OF b]) (simp add: walker_world_def)
    then have "GetBlock walker_world \<lparr>vx = 1, vy = 0, vz = 0\<rparr> = 1" by (simp add: GetBlock_def) (simp add: walker_world_def)
    then show ?thesis by (simp add: solid_at_def blockSolid_def blockName_def) (simp add: walker_world_def)
  qed
  have a: "\<exists>a. map_of (agents walker_world) ''A1'' = Some a \<and> APos a = \<lparr>vx = 0, vy = 0, vz = 0\<rparr> \<and> StaminaMilli a = 500"
    by (simp add: walker_world_def)
  show ?thesis using movement_safe[OF wf ok, of 6] a solid by fastforce
qed

end
