(* ===== verification/Director_Model.thy ===== *)
theory Director_Model
  imports Work_Exec
begin

text \<open>
  The director (\<open>director_runtime_facade.go\<close>, \<open>director_events_facade.go\<close>, \<open>feature/director/*\<close>,
  \<open>logic/directorcenter/{metrics,weights}.go\<close>): when a world event ends, which one comes next (the scripted first
  week, then a draw from weights corrected by what the agents do), where it takes place and what it
  builds there.

  Floating point: \<open>rnd\<close> is the rounding of a real number to a \<open>float64\<close>; every operation of the code is the
  rounding of the exact result.  Infinities and NaN are written out where they can occur.
\<close>

section \<open>The state of an event\<close>

record director_state =
  DActiveEventID :: string
  DActiveEventEnds :: u64
  DWeather :: string
  DWeatherUntil :: u64

definition Expire :: "director_state \<Rightarrow> u64 \<Rightarrow> director_state \<times> bool \<times> bool" where
  "Expire st nowTick =
     (let over = DActiveEventEnds st \<noteq> 0 \<and> nowTick \<ge> DActiveEventEnds st;
          calm = DWeatherUntil st \<noteq> 0 \<and> nowTick \<ge> DWeatherUntil st;
          st = (if over then st\<lparr>DActiveEventID := [], DActiveEventEnds := 0\<rparr> else st);
          st = (if calm then st\<lparr>DWeather := ''CLEAR'', DWeatherUntil := 0\<rparr> else st)
      in (st, over, calm))"

definition schedule :: "string list" where
  "schedule = [''MARKET_WEEK'', ''CRYSTAL_RIFT'', ''BUILDER_EXPO'', ''FLOOD_WARNING'', ''RUINS_GATE'',
     ''BANDIT_CAMP'', ''CIVIC_VOTE'']"

definition ScriptedEvent :: "int \<Rightarrow> string" where
  "ScriptedEvent dayInSeason =
     (if dayInSeason < 1 \<or> dayInSeason > int (length schedule) then [] else schedule ! nat (dayInSeason - 1))"

definition ShouldEvaluate :: "u64 \<Rightarrow> u64 \<Rightarrow> bool" where
  "ShouldEvaluate nowTick every0 \<longleftrightarrow>
     (let every = (if every0 = 0 then 3000 else every0) in nowTick \<noteq> 0 \<and> nowTick mod every = 0)"

definition SeasonLength :: "int \<Rightarrow> int \<Rightarrow> u64" where
  "SeasonLength resetEveryTicks seasonLengthTicks =
     (if word_of_int resetEveryTicks = (0 :: u64) then word_of_int seasonLengthTicks else word_of_int resetEveryTicks)"

definition SeasonIndex :: "u64 \<Rightarrow> int \<Rightarrow> int \<Rightarrow> int" where
  "SeasonIndex nowTick resetEveryTicks seasonLengthTicks =
     (let n = SeasonLength resetEveryTicks seasonLengthTicks
      in if n = 0 then 1 else i64 (sint (nowTick div n) + 1))"

definition SeasonDay :: "u64 \<Rightarrow> int \<Rightarrow> int \<Rightarrow> int \<Rightarrow> int" where
  "SeasonDay nowTick dayTicks resetEveryTicks seasonLengthTicks =
     (let dt = (word_of_int dayTicks :: u64)
      in if dt = 0 then 1
         else
           let seasonDays = SeasonLength resetEveryTicks seasonLengthTicks div dt;
               seasonDays = (if seasonDays = 0 then 1 else seasonDays)
           in i64 (sint ((nowTick div dt) mod seasonDays) + 1))"

definition seasonDay :: "world \<Rightarrow> u64 \<Rightarrow> int" where
  "seasonDay w nowTick =
     SeasonDay nowTick (DayTicks (cfg w)) (ResetEveryTicks (cfg w)) (SeasonLengthTicks (cfg w))"

section \<open>Measuring the world\<close>

record director_metrics =
  MTrade :: real
  MConflict :: real
  MExploration :: real
  MInequality :: real
  MPublicInfra :: real

definition Min01 :: "real \<Rightarrow> real" where
  "Min01 x = (if x < 0 then 0 else if x > 1 then 1 else x)"

definition ItemUnitValue :: "string \<Rightarrow> real" where
  "ItemUnitValue item =
     (if item = ''CRYSTAL_SHARD'' then 50 else if item = ''IRON_INGOT'' then 10
      else if item = ''COPPER_INGOT'' then 6 else if item = ''COAL'' then 1 else if item = ''PLANK'' then 1
      else 1 / 2)"

definition MapValue :: "(real \<Rightarrow> real) \<Rightarrow> items \<Rightarrow> (string \<Rightarrow> real) \<Rightarrow> real" where
  "MapValue rnd inventory valueOf =
     fold (\<lambda>(item, n) v. if n \<le> 0 then v else rnd (v + rnd (rnd (of_int n) * valueOf item))) inventory 0"

definition InventoryValue :: "(real \<Rightarrow> real) \<Rightarrow> items \<Rightarrow> real" where
  "InventoryValue rnd inventory = MapValue rnd inventory ItemUnitValue"

definition Gini :: "(real \<Rightarrow> real) \<Rightarrow> real list \<Rightarrow> real" where
  "Gini rnd xs =
     (if length xs \<le> 1 then 0
      else
        let valid = filter (\<lambda>x. x > 0) xs;
            sum = fold (\<lambda>x s. rnd (s + x)) valid 0
        in if length valid \<le> 1 \<or> sum \<le> 0 then 0
           else
             let n = rnd (real (length valid));
                 weighted = fold (\<lambda>(i, x) s. rnd (s + rnd (rnd (real (i + 1)) * x))) (enumerate 0 (sort valid)) 0;
                 g = rnd (rnd (rnd (2 * weighted) / rnd (n * sum)) - rnd (rnd (n + 1) / n))
             in Min01 g)"

text \<open>\<open>float64(denied) / float64(agents * window)\<close> times 100; the product may wrap to zero.\<close>

definition conflict_of :: "(real \<Rightarrow> real) \<Rightarrow> int \<Rightarrow> u64 \<Rightarrow> real" where
  "conflict_of rnd denied den =
     (if den = 0 then (if denied < 0 then 0 else 1)
      else Min01 (rnd (rnd (rnd (of_int denied) / rnd (real (unat den))) * 100)))"

definition ComputeMetrics :: "(real \<Rightarrow> real) \<Rightarrow> int \<Rightarrow> u64 \<Rightarrow> bucket \<Rightarrow> real list \<Rightarrow> director_metrics" where
  "ComputeMetrics rnd count windowTicks0 b wealth =
     (if count \<le> 0 then \<lparr>MTrade = 0, MConflict = 0, MExploration = 0, MInequality = 0, MPublicInfra = 0\<rparr>
      else
        let windowTicks = (if windowTicks0 = 0 then 72000 else windowTicks0);
            perAgent = (\<lambda>k. rnd (rnd (of_int k) / rnd (of_int count)))
        in \<lparr>MTrade = Min01 (rnd (perAgent (Trades b) / 5)),
            MConflict = conflict_of rnd (Denied b) (word_of_int count * windowTicks),
            MExploration = Min01 (rnd (perAgent (ChunksDiscovered b) / 20)),
            MInequality = Gini rnd wealth,
            MPublicInfra = Min01 (rnd (perAgent (BlueprintsComplete b) / 5))\<rparr>)"

text \<open>\<open>Summarize\<close> moves the buckets on to the present, so the statistics change with the look at them.\<close>

definition computeDirectorMetrics :: "(real \<Rightarrow> real) \<Rightarrow> u64 \<Rightarrow> world \<Rightarrow> director_metrics \<times> world" where
  "computeDirectorMetrics rnd nowTick w =
     (let count = int (length (agents w))
      in if count \<le> 0 then (ComputeMetrics rnd 0 0 empty_bucket [], w)
         else case Summarize nowTick (stats w) of
                (b, st) \<Rightarrow>
                  let window = (if WindowTicksV st = 0 then 72000 else WindowTicksV st);
                      wealth = map (\<lambda>aid. case map_of (agents w) aid of None \<Rightarrow> 0
                                           | Some a \<Rightarrow> InventoryValue rnd (AInventory a)) (sorted_keys (agents w))
                  in (ComputeMetrics rnd count window b wealth, w\<lparr>stats := st\<rparr>))"

section \<open>Drawing an event\<close>

type_synonym weights = "real gomap"

definition weight :: "weights \<Rightarrow> string \<Rightarrow> real" where
  "weight ws k = (case map_of ws k of None \<Rightarrow> 0 | Some x \<Rightarrow> x)"

definition add_weight :: "(real \<Rightarrow> real) \<Rightarrow> string \<Rightarrow> real \<Rightarrow> weights \<Rightarrow> weights" where
  "add_weight rnd k x ws = mput k (rnd (weight ws k + rnd x)) ws"

definition ApplyFeedback :: "(real \<Rightarrow> real) \<Rightarrow> director_metrics \<Rightarrow> weights \<Rightarrow> weights" where
  "ApplyFeedback rnd m ws =
     (let up = add_weight rnd;
          ws = (if MTrade m < rnd (4 / 10)
                then up ''BLUEPRINT_FAIR'' (15 / 100) (up ''MARKET_WEEK'' (25 / 100) ws) else ws);
          ws = (if MExploration m < rnd (3 / 10)
                then up ''RUINS_GATE'' (20 / 100) (up ''CRYSTAL_RIFT'' (20 / 100) ws) else ws);
          ws = (if MConflict m < rnd (10 / 100)
                then up ''BANDIT_CAMP'' (10 / 100) (up ''DEEP_VEIN'' (15 / 100) ws)
                else if MConflict m > rnd (25 / 100)
                then up ''BUILDER_EXPO'' (10 / 100) (up ''MARKET_WEEK'' (10 / 100) (up ''CIVIC_VOTE'' (25 / 100) ws))
                else ws)
      in if MInequality m > rnd (50 / 100)
         then up ''FLOOD_WARNING'' (10 / 100) (up ''CIVIC_VOTE'' (20 / 100) ws) else ws)"

fun pick_weighted :: "(real \<Rightarrow> real) \<Rightarrow> weights \<Rightarrow> real \<Rightarrow> real \<Rightarrow> string list \<Rightarrow> string" where
  "pick_weighted rnd ws target acc [] = []"
| "pick_weighted rnd ws target acc [k] = k"
| "pick_weighted rnd ws target acc (k # ks) =
     (let acc = rnd (acc + weight ws k) in if target \<le> acc then k else pick_weighted rnd ws target acc ks)"

text \<open>The total is summed up in the order of the map, the choice runs through the sorted identifiers.\<close>

definition SampleWeighted :: "(real \<Rightarrow> real) \<Rightarrow> weights \<Rightarrow> u64 \<Rightarrow> string" where
  "SampleWeighted rnd ws roll =
     (let ids = map fst (filter (\<lambda>(k, x). x > 0) ws);
          sum = fold (\<lambda>(k, x) s. if x > 0 then rnd (s + x) else s) ws 0
      in if sum \<le> 0 \<or> ids = [] then []
         else
           let r = rnd (rnd (real (unat (roll mod 1000000000))) / 1000000000)
           in pick_weighted rnd ws (rnd (r * sum)) 0 (sort ids))"

definition baseEventWeights :: "world \<Rightarrow> weights" where
  "baseEventWeights w =
     (let ws = fold (\<lambda>k ws. case map_of (EventDefs (cats w)) k of None \<Rightarrow> ws
                             | Some t \<Rightarrow> if EBaseWeight t \<le> 0 then ws else mput k (EBaseWeight t) ws)
                 (sorted_keys (EventDefs (cats w))) []
      in if activeEventID w \<noteq> [] then mput (activeEventID w) 0 ws else ws)"

section \<open>What an event builds\<close>

definition square_cells :: "int \<Rightarrow> (int \<times> int) list" where
  "square_cells r = concat (map (\<lambda>dz. map (\<lambda>dx. (dx, dz)) [- r .. r]) [- r .. r])"

definition offset :: "vec3 \<Rightarrow> int \<times> int \<Rightarrow> vec3" where
  "offset c d = \<lparr>vx = i64 (vx c + fst d), vy = vy c, vz = i64 (vz c + snd d)\<rparr>"

definition Square :: "vec3 \<Rightarrow> int \<Rightarrow> vec3 list" where
  "Square center radius0 =
     (let radius = (if radius0 < 0 then 0 else radius0) in sort (map (offset center) (square_cells radius)))"

definition Diamond :: "vec3 \<Rightarrow> int \<Rightarrow> vec3 list" where
  "Diamond center manhattan0 =
     (let m = (if manhattan0 < 0 then 0 else manhattan0)
      in sort (map (offset center) (filter (\<lambda>(dx, dz). \<bar>dx\<bar> + \<bar>dz\<bar> \<le> m) (square_cells m))))"

definition DeepVeinIsCopper :: "int \<Rightarrow> int \<Rightarrow> bool" where
  "DeepVeinIsCopper x z \<longleftrightarrow> even (i64 (x + z))"

record spawn_plan =
  Placements :: "(vec3 \<times> string) list"
  LootContainers :: "(vec3 \<times> string \<times> items) list"
  SignTexts :: "(vec3 \<times> string) list"
  BoardPosts :: "(vec3 \<times> string \<times> string \<times> string) list"
  PlanCenter :: "vec3 option"

definition plan_at :: "vec3 \<Rightarrow> (vec3 \<times> string) list \<Rightarrow> spawn_plan" where
  "plan_at c ps = \<lparr>Placements = ps, LootContainers = [], SignTexts = [], BoardPosts = [], PlanCenter = Some c\<rparr>"

definition CrystalRiftPlan :: "vec3 \<Rightarrow> spawn_plan" where
  "CrystalRiftPlan c = plan_at c (map (\<lambda>p. (p, ''CRYSTAL_ORE'')) (Square c 2))"

definition DeepVeinPlan :: "vec3 \<Rightarrow> spawn_plan" where
  "DeepVeinPlan c = plan_at c (map (\<lambda>p.
     (p, if DeepVeinIsCopper (i64 (vx p - vx c)) (i64 (vz p - vz c)) then ''COPPER_ORE'' else ''IRON_ORE'')) (Square c 3))"

definition RuinsGatePlan :: "vec3 \<Rightarrow> spawn_plan" where
  "RuinsGatePlan c =
     (plan_at c (map (\<lambda>p. (p, if vx p = vx c \<and> vz p = vz c then ''CHEST'' else ''BRICK'')) (Square c 1)))
       \<lparr>LootContainers := [(c, ''CHEST'', [(''CRYSTAL_SHARD'', 2), (''IRON_INGOT'', 4), (''COPPER_INGOT'', 4)])]\<rparr>"

definition EventNoticeBoardPlan :: "vec3 \<Rightarrow> string \<Rightarrow> string \<Rightarrow> spawn_plan" where
  "EventNoticeBoardPlan c headline body =
     (let signPos = offset c (1, 0)
      in (plan_at c [(c, ''BULLETIN_BOARD''), (signPos, ''SIGN'')])
           \<lparr>SignTexts := [(signPos, headline)], BoardPosts := [(c, ''WORLD'', headline, body)]\<rparr>)"

definition FloodWarningPlan :: "vec3 \<Rightarrow> spawn_plan" where
  "FloodWarningPlan c = plan_at c (map (\<lambda>p. (p, ''WATER'')) (Square c 2))"

definition BlightZonePlan :: "vec3 \<Rightarrow> spawn_plan" where
  "BlightZonePlan c = plan_at c (map (\<lambda>p. (p, ''GRAVEL''))
     (filter (\<lambda>p. \<not> (iabs (i64 (vx p - vx c)) > 3 \<or> iabs (i64 (vz p - vz c)) > 3)) (Diamond c 4)))"

definition camp_block :: "vec3 \<Rightarrow> vec3 \<Rightarrow> string" where
  "camp_block c p =
     (let dx = i64 (vx p - vx c); dz = i64 (vz p - vz c)
      in if dx = 0 \<and> dz = 0 then ''CHEST'' else if iabs dx = 2 \<or> iabs dz = 2 then ''BRICK'' else ''AIR'')"

definition BanditCampPlan :: "vec3 \<Rightarrow> spawn_plan" where
  "BanditCampPlan c =
     (let signPos = offset c (3, 0)
      in (plan_at c (map (\<lambda>p. (p, camp_block c p)) (Square c 2) @ [(signPos, ''SIGN'')]))
           \<lparr>LootContainers := [(c, ''CHEST'', [(''IRON_INGOT'', 6), (''COPPER_INGOT'', 4), (''CRYSTAL_SHARD'', 1),
                                             (''BREAD'', 2)])],
            SignTexts := [(signPos, ''BANDIT CAMP'')]\<rparr>)"

definition place_spawn :: "u64 \<Rightarrow> string \<Rightarrow> vec3 \<times> string \<Rightarrow> world \<Rightarrow> world" where
  "place_spawn nowTick reason pb w =
     (case map_of (BlockIndex (cats w)) (snd pb) of
        None \<Rightarrow> w
      | Some b \<Rightarrow> auditSetBlock nowTick ''WORLD'' (fst pb) (GetBlock w (fst pb)) b reason (SetBlock (fst pb) b w))"

definition stock_spawn :: "vec3 \<times> string \<times> items \<Rightarrow> world \<Rightarrow> world" where
  "stock_spawn c w =
     (case c of (pos, typ, its) \<Rightarrow>
        upd_container pos (\<lambda>b. b\<lparr>Inventory :=
          for_items (\<lambda>item n m. if n \<le> 0 then m else madd m item n) its (Inventory b)\<rparr>) (ensureContainer pos typ w))"

definition write_sign :: "u64 \<Rightarrow> vec3 \<times> string \<Rightarrow> world \<Rightarrow> world" where
  "write_sign nowTick s w =
     (let w = ensureSign (fst s) w
      in w\<lparr>signs := mput (fst s) \<lparr>SignPos = fst s, SignText = snd s, SignUpdatedTick = nowTick,
                                     SignUpdatedBy = ''WORLD''\<rparr> (signs w)\<rparr>)"

definition newPostID :: "world \<Rightarrow> string \<times> world" where
  "newPostID w = (let n = nextPostNum w + 1 in (NewPostID n, w\<lparr>nextPostNum := n\<rparr>))"

definition pin_post :: "u64 \<Rightarrow> vec3 \<times> string \<times> string \<times> string \<Rightarrow> world \<Rightarrow> world" where
  "pin_post nowTick post w =
     (case post of (pos, author, title, body) \<Rightarrow>
        (case newPostID (ensureBoard pos w) of
           (pid, w) \<Rightarrow> w\<lparr>boards := mput (boardIDAt pos)
              ((case map_of (boards w) (boardIDAt pos) of None \<Rightarrow> [] | Some ps \<Rightarrow> ps) @
               [\<lparr>PostID = pid, PostAuthor = author, PostTitle = title, PostBody = body, PostTick = nowTick\<rparr>])
              (boards w)\<rparr>))"

definition applySpawnPlan :: "u64 \<Rightarrow> string \<Rightarrow> spawn_plan \<Rightarrow> world \<Rightarrow> world" where
  "applySpawnPlan nowTick reason plan w =
     (let w = (case PlanCenter plan of None \<Rightarrow> w | Some c \<Rightarrow> w\<lparr>activeEventCenter := c\<rparr>);
          w = fold (place_spawn nowTick reason) (Placements plan) w;
          w = fold stock_spawn (LootContainers plan) w;
          w = fold (write_sign nowTick) (SignTexts plan) w
      in fold (pin_post nowTick) (BoardPosts plan) w)"

section \<open>Starting an event\<close>

text \<open>The texts of the notice boards are UTF-8.\<close>

definition utf8 :: "nat list \<Rightarrow> string" where
  "utf8 bs = map char_of bs"

datatype spawn_kind = SpawnNone | SpawnCrystalRift | SpawnDeepVein | SpawnRuinsGate | SpawnFloodWarning
  | SpawnBanditCamp | SpawnBlightZone | SpawnNoticeBoard

record instantiate_plan =
  NeedsCenter :: bool
  PlanRadius :: int
  Spawn :: spawn_kind
  Headline :: string
  PlanBody :: string

definition no_plan :: instantiate_plan where
  "no_plan = \<lparr>NeedsCenter = False, PlanRadius = 0, Spawn = SpawnNone, Headline = [], PlanBody = []\<rparr>"

definition plan_of :: "int \<Rightarrow> spawn_kind \<Rightarrow> string \<Rightarrow> string \<Rightarrow> instantiate_plan" where
  "plan_of r k h b = \<lparr>NeedsCenter = True, PlanRadius = r, Spawn = k, Headline = h, PlanBody = b\<rparr>"

definition expo_theme :: "param_val gomap \<Rightarrow> string" where
  "expo_theme ps =
     (case map_of ps ''theme'' of
        Some (PString s) \<Rightarrow> if s \<noteq> [] then s else ''MONUMENT''
      | _ \<Rightarrow> ''MONUMENT'')"

definition BuildInstantiatePlan :: "string \<Rightarrow> param_val gomap \<Rightarrow> instantiate_plan" where
  "BuildInstantiatePlan eventID ps =
     (if eventID = ''CRYSTAL_RIFT'' then plan_of 32 SpawnCrystalRift [] []
      else if eventID = ''DEEP_VEIN'' then plan_of 40 SpawnDeepVein [] []
      else if eventID = ''RUINS_GATE'' then plan_of 24 SpawnRuinsGate [] []
      else if eventID = ''MARKET_WEEK'' then plan_of 32 SpawnNoticeBoard
        (utf8 [229, 184, 130, 233, 155, 134, 229, 145, 168])
        (utf8 [229, 184, 130, 229, 156, 186, 231, 168, 142, 228, 184, 180, 230, 151, 182, 229, 135, 143, 229,
           133, 141, 239, 188, 140, 233, 188, 147, 229, 138, 177, 228, 186, 164, 230, 152, 147, 228, 184, 142,
           231, 173, 190, 231, 186, 166, 227, 128, 130])
      else if eventID = ''BLUEPRINT_FAIR'' then plan_of 32 SpawnNoticeBoard
        (utf8 [232, 147, 157, 229, 155, 190, 229, 188, 128, 230, 148, 190, 230, 151, 165])
        (utf8 [229, 136, 134, 228, 186, 171, 228, 184, 142, 229, 164, 141, 231, 148, 168, 232, 147, 157, 229,
           155, 190, 229, 176, 134, 232, 142, 183, 229, 190, 151, 233, 162, 157, 229, 164, 150, 229, 189, 177,
           229, 147, 141, 229, 138, 155, 227, 128, 130])
      else if eventID = ''BUILDER_EXPO'' then plan_of 40 SpawnNoticeBoard
        (utf8 [229, 187, 186, 231, 173, 145, 229, 164, 167, 232, 181, 155])
        (utf8 [228, 184, 187, 233, 162, 152, 58, 32] @ expo_theme ps @
         utf8 [227, 128, 130, 229, 174, 140, 230, 136, 144, 232, 147, 157, 229, 155, 190, 229, 187, 186, 233,
           128, 160, 229, 185, 182, 229, 177, 149, 231, 164, 186, 227, 128, 130])
      else if eventID = ''FLOOD_WARNING'' then plan_of 40 SpawnFloodWarning
        (utf8 [230, 180, 170, 230, 176, 180, 233, 163, 142, 233, 153, 169])
        (utf8 [228, 189, 142, 229, 156, 176, 229, 143, 175, 232, 131, 189, 232, 162, 171, 230, 183, 185, 239,
           188, 140, 229, 187, 186, 232, 174, 174, 228, 191, 174, 229, 160, 164, 229, 157, 157, 228, 184, 142,
           232, 191, 129, 231, 167, 187, 228, 187, 147, 229, 186, 147, 227, 128, 130])
      else if eventID = ''BANDIT_CAMP'' then plan_of 24 SpawnBanditCamp [] []
      else if eventID = ''BLIGHT_ZONE'' then plan_of 32 SpawnBlightZone
        (utf8 [230, 177, 161, 230, 159, 147, 230, 137, 169, 230, 149, 163])
        (utf8 [229, 156, 168, 230, 177, 161, 230, 159, 147, 229, 140, 186, 232, 161, 140, 229, 138, 168, 228,
           188, 154, 233, 153, 141, 228, 189, 142, 228, 189, 147, 229, 138, 155, 230, 129, 162, 229, 164, 141,
           229, 185, 182, 229, 138, 160, 233, 128, 159, 233, 165, 165, 233, 165, 191, 227, 128, 130])
      else if eventID = ''CIVIC_VOTE'' then plan_of 32 SpawnNoticeBoard
        (utf8 [229, 159, 142, 233, 130, 166, 233, 128, 137, 228, 184, 190, 47, 229, 133, 172, 230, 138, 149])
        (utf8 [230, 143, 144, 229, 135, 186, 230, 179, 149, 229, 190, 139, 229, 185, 182, 230, 138, 149, 231,
           165, 168, 229, 176, 134, 232, 142, 183, 229, 190, 151, 233, 162, 157, 229, 164, 150, 229, 143, 153,
           228, 186, 139, 229, 136, 134, 227, 128, 130])
      else no_plan)"

definition pickEventCenter :: "u64 \<Rightarrow> string \<Rightarrow> world \<Rightarrow> vec3" where
  "pickEventCenter nowTick eventID w =
     (case PickEventCenter (Seed (cfg w)) (BoundaryR (cfg w)) nowTick eventID
             (Some (\<lambda>(x, y, z). landAt w \<lparr>vx = x, vy = y, vz = z\<rparr> \<noteq> None)) of
        (x, y, z) \<Rightarrow> \<lparr>vx = x, vy = y, vz = z\<rparr>)"

definition spawn_notice :: "u64 \<Rightarrow> vec3 \<Rightarrow> string \<Rightarrow> instantiate_plan \<Rightarrow> world \<Rightarrow> world" where
  "spawn_notice nowTick c eventID plan w =
     applySpawnPlan nowTick (''EVENT:'' @ eventID) (EventNoticeBoardPlan (c\<lparr>vy := 0\<rparr>) (Headline plan) (PlanBody plan)) w"

fun spawn_event :: "u64 \<Rightarrow> vec3 \<Rightarrow> string \<Rightarrow> instantiate_plan \<Rightarrow> spawn_kind \<Rightarrow> world \<Rightarrow> world" where
  "spawn_event nowTick c eventID plan SpawnNone w = w"
| "spawn_event nowTick c eventID plan SpawnCrystalRift w =
     applySpawnPlan nowTick ''EVENT:CRYSTAL_RIFT'' (CrystalRiftPlan (c\<lparr>vy := 0\<rparr>)) w"
| "spawn_event nowTick c eventID plan SpawnDeepVein w =
     applySpawnPlan nowTick ''EVENT:DEEP_VEIN'' (DeepVeinPlan (c\<lparr>vy := 0\<rparr>)) w"
| "spawn_event nowTick c eventID plan SpawnRuinsGate w =
     applySpawnPlan nowTick ''EVENT:RUINS_GATE'' (RuinsGatePlan (c\<lparr>vy := 0\<rparr>)) w"
| "spawn_event nowTick c eventID plan SpawnFloodWarning w =
     applySpawnPlan nowTick ''EVENT:FLOOD_WARNING'' (FloodWarningPlan (c\<lparr>vy := 0\<rparr>)) w"
| "spawn_event nowTick c eventID plan SpawnBanditCamp w =
     applySpawnPlan nowTick ''EVENT:BANDIT_CAMP'' (BanditCampPlan (c\<lparr>vy := 0\<rparr>)) w"
| "spawn_event nowTick c eventID plan SpawnBlightZone w =
     applySpawnPlan nowTick ''EVENT:BLIGHT_ZONE'' (BlightZonePlan (c\<lparr>vy := 0\<rparr>)) w"
| "spawn_event nowTick c eventID plan SpawnNoticeBoard w = spawn_notice nowTick c eventID plan w"

definition event_params :: "world \<Rightarrow> string \<Rightarrow> param_val gomap" where
  "event_params w eventID = (case map_of (EventDefs (cats w)) eventID of None \<Rightarrow> [] | Some t \<Rightarrow> EParams t)"

definition instantiateEvent :: "u64 \<Rightarrow> string \<Rightarrow> world \<Rightarrow> world" where
  "instantiateEvent nowTick eventID w =
     (let w = w\<lparr>activeEventCenter := \<lparr>vx = 0, vy = 0, vz = 0\<rparr>, activeEventRadius := 0\<rparr>;
          plan = BuildInstantiatePlan eventID (event_params w eventID)
      in if \<not> NeedsCenter plan then w
         else
           let center = pickEventCenter nowTick eventID w;
               w = w\<lparr>activeEventCenter := center, activeEventRadius := PlanRadius plan\<rparr>;
               w = spawn_event nowTick center eventID plan (Spawn plan) w
           in if Spawn plan \<noteq> SpawnNoticeBoard \<and> Headline plan \<noteq> [] then spawn_notice nowTick center eventID plan w
              else w)"

definition event_message :: "u64 \<Rightarrow> event_template \<Rightarrow> world \<Rightarrow> event" where
  "event_message nowTick tpl w =
     [(''t'', JU64 nowTick), (''type'', JStr ''WORLD_EVENT''), (''event_id'', JStr (activeEventID w)),
      (''title'', JStr (ETitle tpl)), (''summary'', JStr (EDescription tpl)), (''ends_tick'', JU64 (activeEventEnds w))] @
     (if activeEventRadius w > 0
      then [(''center'', jpos (activeEventCenter w)), (''radius'', JInt (activeEventRadius w))] else [])"

text \<open>\<open>uint64(f)\<close> truncates; a duration beyond \<open>2 ^ 64\<close> is not considered.\<close>

definition event_duration :: "world \<Rightarrow> event_template \<Rightarrow> u64" where
  "event_duration w tpl =
     (let day = (word_of_int (DayTicks (cfg w)) :: u64);
          day = (if day = 0 then 6000 else day)
      in case map_of (EParams tpl) ''duration_ticks'' of
           Some (PFloat f) \<Rightarrow> if f > 0 then word_of_int \<lfloor>f\<rfloor> else day
         | _ \<Rightarrow> day)"

definition weather_override :: "string \<Rightarrow> world \<Rightarrow> world" where
  "weather_override eventID w =
     (if eventID = ''STORM_FRONT'' then w\<lparr>weather := ''STORM'', weatherUntilTick := activeEventEnds w\<rparr>
      else if eventID = ''COLD_SNAP'' then w\<lparr>weather := ''COLD'', weatherUntilTick := activeEventEnds w\<rparr>
      else w)"

definition startEvent :: "u64 \<Rightarrow> string \<Rightarrow> world \<Rightarrow> world" where
  "startEvent nowTick eventID w =
     (case map_of (EventDefs (cats w)) eventID of
        None \<Rightarrow> w
      | Some tpl \<Rightarrow>
          let w = w\<lparr>activeEventID := eventID, activeEventStart := nowTick,
                    activeEventEnds := nowTick + event_duration w tpl\<rparr>;
              w = weather_override eventID (instantiateEvent nowTick eventID w)
          in w\<lparr>agents := map (\<lambda>(aid, a). (aid, AddEvent (event_message nowTick tpl w) a)) (agents w)\<rparr>)"

definition enqueueActiveEventForAgent :: "u64 \<Rightarrow> world \<Rightarrow> agent \<Rightarrow> agent" where
  "enqueueActiveEventForAgent nowTick w a =
     (if activeEventID w = [] \<or> activeEventEnds w = 0 \<or> nowTick \<ge> activeEventEnds w then a
      else case map_of (EventDefs (cats w)) (activeEventID w) of
             None \<Rightarrow> a
           | Some tpl \<Rightarrow> AddEvent (event_message nowTick tpl w) a)"

section \<open>The director's tick\<close>

definition expire_event :: "u64 \<Rightarrow> world \<Rightarrow> world" where
  "expire_event nowTick w =
     (let st = fst (Expire \<lparr>DActiveEventID = activeEventID w, DActiveEventEnds = activeEventEnds w,
                          DWeather = weather w, DWeatherUntil = weatherUntilTick w\<rparr> nowTick);
          w = (if DActiveEventID st = [] \<and> activeEventID w \<noteq> []
               then w\<lparr>activeEventStart := 0, activeEventCenter := \<lparr>vx = 0, vy = 0, vz = 0\<rparr>, activeEventRadius := 0\<rparr>
               else w)
      in w\<lparr>activeEventID := DActiveEventID st, activeEventEnds := DActiveEventEnds st,
           weather := DWeather st, weatherUntilTick := DWeatherUntil st\<rparr>)"

definition draw_event :: "(real \<Rightarrow> real) \<Rightarrow> u64 \<Rightarrow> world \<Rightarrow> world" where
  "draw_event rnd nowTick w =
     (case computeDirectorMetrics rnd nowTick w of
        (m, w) \<Rightarrow>
          let ev = SampleWeighted rnd (ApplyFeedback rnd m (baseEventWeights w))
                     (Hash2 (Seed (cfg w)) (sint nowTick) 1337)
          in if ev = [] then w else startEvent nowTick ev w)"

definition systemDirector :: "(real \<Rightarrow> real) \<Rightarrow> u64 \<Rightarrow> world \<Rightarrow> world" where
  "systemDirector rnd nowTick w =
     (let w = expire_event nowTick w;
          scripted = (if DayTicks (cfg w) > 0 \<and> nowTick mod word_of_int (DayTicks (cfg w)) = 0
                      then ScriptedEvent (seasonDay w nowTick) else [])
      in if activeEventID w \<noteq> [] then w
         else if scripted \<noteq> [] then startEvent nowTick scripted w
         else if \<not> ShouldEvaluate nowTick (word_of_int (DirectorEveryTicks (cfg w))) then w
         else draw_event rnd nowTick w)"

section \<open>Frames\<close>

named_theorems director_frame \<open>what spawning leaves alone\<close>

text \<open>Everything but the terrain, the fixtures on it and the place of the event.\<close>

definition off_site :: "world \<Rightarrow> _" where
  "off_site w = ((cfg w, cats w, airBlock w, agents w), (claims w, trades w, contracts w, laws w, orgs w),
     (weather w, weatherUntilTick w, activeEventID w, activeEventEnds w, activeEventStart w, activeEventRadius w),
     (itemEnts w, conveyors w, switches w, structures w))"

lemma off_site_steps [director_frame]:
  "off_site (place_spawn now why pb w) = off_site w" "off_site (stock_spawn c w) = off_site w"
  "off_site (write_sign now s w) = off_site w" "off_site (pin_post now post w) = off_site w"
  by (simp_all add: off_site_def place_spawn_def stock_spawn_def write_sign_def pin_post_def auditSetBlock_def SetBlock_def
      upd_container_def ensureContainer_def ensureSign_def ensureBoard_def newPostID_def Let_def
      split: option.split prod.split)

lemma off_site_fold:
  "(\<And>x w. off_site (f x w) = off_site w) \<Longrightarrow> off_site (fold f xs w) = off_site w"
  by (induction xs arbitrary: w) simp_all

lemma center_steps [director_frame]:
  "activeEventCenter (place_spawn now why pb w) = activeEventCenter w" "activeEventCenter (stock_spawn c w) = activeEventCenter w"
  "activeEventCenter (write_sign now s w) = activeEventCenter w" "activeEventCenter (pin_post now post w) = activeEventCenter w"
  by (simp_all add: place_spawn_def stock_spawn_def write_sign_def pin_post_def auditSetBlock_def SetBlock_def
      upd_container_def ensureContainer_def ensureSign_def ensureBoard_def newPostID_def Let_def
      split: option.split prod.split)

lemma center_fold:
  "(\<And>x w. activeEventCenter (f x w) = activeEventCenter w) \<Longrightarrow> activeEventCenter (fold f xs w) = activeEventCenter w"
  by (induction xs arbitrary: w) simp_all

lemma applySpawnPlan_off_site [director_frame]: "off_site (applySpawnPlan now why plan w) = off_site w"
  by (simp add: applySpawnPlan_def Let_def off_site_fold director_frame) (simp add: off_site_def split: option.split)

lemma applySpawnPlan_center [director_frame]:
  "activeEventCenter (applySpawnPlan now why plan w) = (case PlanCenter plan of None \<Rightarrow> activeEventCenter w | Some c \<Rightarrow> c)"
  by (simp add: applySpawnPlan_def Let_def center_fold director_frame split: option.split)

lemma spawn_event_off_site [director_frame]: "off_site (spawn_event now c eid plan k w) = off_site w"
  by (cases k) (simp_all add: director_frame spawn_notice_def)

lemma plan_centers:
  "PlanCenter (CrystalRiftPlan c) = Some c" "PlanCenter (DeepVeinPlan c) = Some c" "PlanCenter (RuinsGatePlan c) = Some c"
  "PlanCenter (EventNoticeBoardPlan c h b) = Some c" "PlanCenter (FloodWarningPlan c) = Some c"
  "PlanCenter (BlightZonePlan c) = Some c" "PlanCenter (BanditCampPlan c) = Some c"
  by (simp_all add: CrystalRiftPlan_def DeepVeinPlan_def RuinsGatePlan_def EventNoticeBoardPlan_def FloodWarningPlan_def
      BlightZonePlan_def BanditCampPlan_def plan_at_def Let_def)

lemma spawn_event_center [director_frame]:
  "vy c = 0 \<Longrightarrow> activeEventCenter w = c \<Longrightarrow> activeEventCenter (spawn_event now c eid plan k w) = c"
  by (cases k) (simp_all add: director_frame plan_centers spawn_notice_def)

section \<open>Where an event builds\<close>

definition next_to :: "vec3 \<Rightarrow> vec3 \<Rightarrow> bool" where
  "next_to c p \<longleftrightarrow> vy p = vy c \<and> \<bar>vx p - vx c\<bar> \<le> 3 \<and> \<bar>vz p - vz c\<bar> \<le> 3"

definition plan_local :: "vec3 \<Rightarrow> spawn_plan \<Rightarrow> bool" where
  "plan_local c plan \<longleftrightarrow> (\<forall>(p, b) \<in> set (Placements plan). next_to c p) \<and> (\<forall>(p, r) \<in> set (LootContainers plan). next_to c p) \<and>
     (\<forall>(p, t) \<in> set (SignTexts plan). next_to c p) \<and> (\<forall>(p, r) \<in> set (BoardPosts plan). next_to c p)"

definition central :: "vec3 \<Rightarrow> bool" where
  "central c \<longleftrightarrow> \<bar>vx c\<bar> \<le> 2 ^ 60 \<and> \<bar>vz c\<bar> \<le> 2 ^ 60"

lemma offset_near:
  assumes "central c" and "\<bar>fst d\<bar> \<le> 4" and "\<bar>snd d\<bar> \<le> 4"
  shows "vx (offset c d) = vx c + fst d \<and> vz (offset c d) = vz c + snd d \<and> vy (offset c d) = vy c"
  using assms by (simp add: offset_def central_def abs_le_iff)

lemma square_cells_iff: "d \<in> set (square_cells r) \<longleftrightarrow> \<bar>fst d\<bar> \<le> r \<and> \<bar>snd d\<bar> \<le> r"
  by (cases d) (auto simp: square_cells_def abs_le_iff image_iff)

lemma Square_next_to: "central c \<Longrightarrow> r \<le> 3 \<Longrightarrow> p \<in> set (Square c r) \<Longrightarrow> next_to c p"
  by (auto simp: Square_def Let_def square_cells_iff next_to_def offset_near split: if_splits)

lemma self_next_to [simp]: "next_to c c" by (simp add: next_to_def)

lemma Diamond_near:
  assumes "central c" and "p \<in> set (Diamond c 4)"
  shows "vy p = vy c \<and> \<bar>vx p - vx c\<bar> \<le> 4 \<and> \<bar>vz p - vz c\<bar> \<le> 4"
proof -
  from assms(2) obtain d where d: "p = offset c d" "\<bar>fst d\<bar> \<le> 4" "\<bar>snd d\<bar> \<le> 4"
    by (auto simp: Diamond_def square_cells_iff)
  show ?thesis using offset_near[OF assms(1) d(2,3)] d by simp
qed

lemma plans_local:
  assumes "central c"
  shows "plan_local c (CrystalRiftPlan c)" "plan_local c (DeepVeinPlan c)" "plan_local c (RuinsGatePlan c)"
    "plan_local c (EventNoticeBoardPlan c h b)" "plan_local c (FloodWarningPlan c)" "plan_local c (BanditCampPlan c)"
    "plan_local c (BlightZonePlan c)"
proof -
  have sq: "p \<in> set (Square c 1) \<or> p \<in> set (Square c 2) \<or> p \<in> set (Square c 3) \<Longrightarrow> next_to c p" for p
    using Square_next_to[OF assms, of 1 p] Square_next_to[OF assms, of 2 p] Square_next_to[OF assms, of 3 p] by auto
  have o: "next_to c (offset c (k, 0))" if "\<bar>k\<bar> \<le> 3" for k using offset_near[OF assms, of "(k, 0)"] that by (simp add: next_to_def)
  note defs = plan_local_def plan_at_def Let_def
  show "plan_local c (CrystalRiftPlan c)" "plan_local c (DeepVeinPlan c)" "plan_local c (RuinsGatePlan c)"
    "plan_local c (EventNoticeBoardPlan c h b)" "plan_local c (FloodWarningPlan c)" "plan_local c (BanditCampPlan c)"
    using sq o by (auto simp: defs CrystalRiftPlan_def DeepVeinPlan_def RuinsGatePlan_def EventNoticeBoardPlan_def
        FloodWarningPlan_def BanditCampPlan_def)
  have "next_to c p" if "p \<in> set (Diamond c 4)" "\<not> iabs (i64 (vx p - vx c)) > 3" "\<not> iabs (i64 (vz p - vz c)) > 3" for p
  proof -
    note n = Diamond_near[OF assms that(1)]
    then have "i64 (vx p - vx c) = vx p - vx c" "i64 (vz p - vz c) = vz p - vz c" by (simp_all add: abs_le_iff)
    then show ?thesis using n that(2,3) by (auto simp: next_to_def iabs_def abs_if split: if_splits)
  qed
  then show "plan_local c (BlightZonePlan c)" by (auto simp: defs BlightZonePlan_def)
qed

text \<open>Away from the cells of the plan nothing on the ground changes.\<close>

definition ground_at :: "world \<Rightarrow> vec3 \<Rightarrow> blockid \<times> container option \<times> sign option" where
  "ground_at w p = (blocks w p, map_of (containers w) p, map_of (signs w) p)"

lemma ground_steps:
  "fst pb \<noteq> p \<Longrightarrow> ground_at (place_spawn now why pb w) p = ground_at w p"
  "fst c \<noteq> p \<Longrightarrow> ground_at (stock_spawn c w) p = ground_at w p"
  "fst s \<noteq> p \<Longrightarrow> ground_at (write_sign now s w) p = ground_at w p"
  "ground_at (pin_post now post w) p = ground_at w p"
  by (auto simp: ground_at_def place_spawn_def stock_spawn_def write_sign_def pin_post_def auditSetBlock_def SetBlock_def
      upd_container_def ensureContainer_def ensureSign_def ensureBoard_def newPostID_def Let_def gomap
      split: option.split prod.split)

lemma ground_fold:
  "(\<And>x w. x \<in> set xs \<Longrightarrow> ground_at (f x w) p = ground_at w p) \<Longrightarrow> ground_at (fold f xs w) p = ground_at w p"
proof (induction xs arbitrary: w)
  case (Cons x xs)
  then show ?case by (metis fold_simps(2) list.set_intros(1,2))
qed simp

lemma applySpawnPlan_ground:
  assumes "plan_local c plan" and "\<not> next_to c p"
  shows "ground_at (applySpawnPlan now why plan w) p = ground_at w p"
proof -
  have *: "fst x \<noteq> p" if "x \<in> set (Placements plan) \<or> y \<in> set (LootContainers plan) \<and> fst x = fst y \<or> x \<in> set (SignTexts plan)"
    for x :: "vec3 \<times> string" and y
    using that assms unfolding plan_local_def by (cases x; cases y) auto
  have l: "fst y \<noteq> p" if "y \<in> set (LootContainers plan)" for y
    using that assms unfolding plan_local_def by (cases y) auto
  have u: "ground_at (w\<lparr>activeEventCenter := c\<rparr>) p = ground_at w p" for c by (simp add: ground_at_def)
  show ?thesis
    unfolding applySpawnPlan_def Let_def
    by (simp add: ground_fold ground_steps * l) (simp add: u split: option.split)
qed

lemma spawn_event_ground:
  assumes "central c" and "vy c = 0" and "\<not> next_to c p"
  shows "ground_at (spawn_event now c eid plan k w) p = ground_at w p"
    and "ground_at (spawn_notice now c eid plan w) p = ground_at w p"
proof -
  have c: "c\<lparr>vy := 0\<rparr> = c" using assms(2) by simp
  note loc = applySpawnPlan_ground[OF _ assms(3)] plans_local[OF assms(1)]
  show n: "ground_at (spawn_notice now c eid plan w) p = ground_at w p" by (simp add: spawn_notice_def c loc)
  show "ground_at (spawn_event now c eid plan k w) p = ground_at w p" by (cases k) (simp_all add: c loc n)
qed

lemma pickEventCenter_ok:
  assumes "BoundaryR (cfg w) \<le> 2 ^ 60"
  shows "vy (pickEventCenter now eid w) = 0 \<and> central (pickEventCenter now eid w) \<and>
    (0 < BoundaryR (cfg w) \<longrightarrow> InBounds w (pickEventCenter now eid w)) \<and>
    (pickEventCenter now eid w = \<lparr>vx = 0, vy = 0, vz = 0\<rparr> \<or> landAt w (pickEventCenter now eid w) = None)"
proof -
  let ?occ = "Some (\<lambda>(x, y, z). landAt w \<lparr>vx = x, vy = y, vz = z\<rparr> \<noteq> None)"
  obtain x y z where p: "PickEventCenter (Seed (cfg w)) (BoundaryR (cfg w)) now eid ?occ = (x, y, z)"
    by (cases "PickEventCenter (Seed (cfg w)) (BoundaryR (cfg w)) now eid ?occ") auto
  note safe = PickEventCenter_safe[OF assms, where seed = "Seed (cfg w)" and now = now and eid = eid and occ = ?occ, unfolded p Let_def prod.case option.case]
  have "pickEventCenter now eid w = \<lparr>vx = x, vy = y, vz = z\<rparr>"
    unfolding pickEventCenter_def p by simp
  with safe assms show ?thesis
    by (auto simp: central_def InBounds_def Let_def abs_le_iff split: if_splits)
qed

lemma instantiateEvent_spec:
  assumes "BoundaryR (cfg w) \<le> 2 ^ 60"
  shows "activeEventID (instantiateEvent now eid w) = activeEventID w \<and>
    activeEventEnds (instantiateEvent now eid w) = activeEventEnds w \<and>
    activeEventStart (instantiateEvent now eid w) = activeEventStart w \<and>
    off_site (instantiateEvent now eid w) = off_site (w\<lparr>activeEventRadius := activeEventRadius (instantiateEvent now eid w)\<rparr>) \<and>
    (let c = activeEventCenter (instantiateEvent now eid w) in
      vy c = 0 \<and> (0 < BoundaryR (cfg w) \<longrightarrow> InBounds w c) \<and> (c = \<lparr>vx = 0, vy = 0, vz = 0\<rparr> \<or> landAt w c = None) \<and>
      (\<forall>p. \<not> next_to c p \<longrightarrow> ground_at (instantiateEvent now eid w) p = ground_at w p))"
proof -
  define plan where "plan = BuildInstantiatePlan eid (event_params w eid)"
  define w0 where "w0 = w\<lparr>activeEventCenter := \<lparr>vx = 0, vy = 0, vz = 0\<rparr>, activeEventRadius := 0\<rparr>"
  define c where "c = pickEventCenter now eid w0"
  define w1 where "w1 = w0\<lparr>activeEventCenter := c, activeEventRadius := PlanRadius plan\<rparr>"
  define w2 where "w2 = spawn_event now c eid plan (Spawn plan) w1"
  define w3 where "w3 = (if Spawn plan \<noteq> SpawnNoticeBoard \<and> Headline plan \<noteq> [] then spawn_notice now c eid plan w2 else w2)"
  have ep: "event_params w0 eid = event_params w eid" by (simp add: event_params_def w0_def)
  have I: "instantiateEvent now eid w = (if \<not> NeedsCenter plan then w0 else w3)"
    unfolding instantiateEvent_def Let_def w0_def[symmetric] ep plan_def[symmetric] c_def[symmetric] w1_def[symmetric]
      w2_def[symmetric] w3_def by (rule refl)
  have sw: "InBounds w0 = InBounds w" "landAt w0 = landAt w" "cfg w0 = cfg w"
    by (auto simp: w0_def InBounds_def landAt_def fun_eq_iff)
  have c: "vy c = 0" "central c" "0 < BoundaryR (cfg w) \<longrightarrow> InBounds w c" "c = \<lparr>vx = 0, vy = 0, vz = 0\<rparr> \<or> landAt w c = None"
    using pickEventCenter_ok[of w0 now eid] assms by (simp_all add: c_def sw)
  have off: "off_site w3 = off_site w1" by (simp add: w3_def w2_def director_frame spawn_notice_def)
  have ctr: "activeEventCenter w3 = c"
    using c(1) by (simp add: w3_def w2_def director_frame spawn_notice_def plan_centers w1_def)
  have grd: "\<not> next_to c p \<Longrightarrow> ground_at w3 p = ground_at w p" for p
    using spawn_event_ground[OF c(2,1)] by (simp add: w3_def w2_def) (simp add: w1_def w0_def ground_at_def)
  have f: "activeEventID w3 = activeEventID w" "activeEventEnds w3 = activeEventEnds w" "activeEventStart w3 = activeEventStart w"
    "off_site w3 = off_site (w\<lparr>activeEventRadius := activeEventRadius w3\<rparr>)"
    using off by (simp_all add: off_site_def w1_def w0_def)
  show ?thesis
  proof (cases "NeedsCenter plan")
    case True
    then show ?thesis using c f ctr grd by (simp add: I Let_def)
  next
    case False
    have "0 < BoundaryR (cfg w) \<Longrightarrow> i64 (- BoundaryR (cfg w)) = - BoundaryR (cfg w)" using assms by simp
    with False show ?thesis by (auto simp: I w0_def off_site_def ground_at_def InBounds_def Let_def)
  qed
qed

section \<open>The life of an event\<close>

definition site_ok :: "world \<Rightarrow> vec3 \<Rightarrow> bool" where
  "site_ok w c \<longleftrightarrow> vy c = 0 \<and> (0 < BoundaryR (cfg w) \<longrightarrow> InBounds w c) \<and>
     (c = \<lparr>vx = 0, vy = 0, vz = 0\<rparr> \<or> landAt w c = None)"

definition same_people :: "world \<Rightarrow> world \<Rightarrow> bool" where
  "same_people w w' \<longleftrightarrow> agent_core w' = agent_core w \<and> (claims w', trades w', contracts w', laws w', orgs w', itemEnts w') =
     (claims w, trades w, contracts w, laws w, orgs w, itemEnts w)"

definition event_state_ok :: "world \<Rightarrow> bool" where
  "event_state_ok w \<longleftrightarrow>
     (if activeEventID w = []
      then activeEventEnds w = 0 \<and> activeEventStart w = 0 \<and> activeEventCenter w = \<lparr>vx = 0, vy = 0, vz = 0\<rparr> \<and>
           activeEventRadius w = 0
      else activeEventStart w < activeEventEnds w)"

definition started :: "u64 \<Rightarrow> world \<Rightarrow> world \<Rightarrow> bool" where
  "started now w w' \<longleftrightarrow>
     (\<exists>tpl. map_of (EventDefs (cats w)) (activeEventID w') = Some tpl \<and> activeEventStart w' = now \<and>
        activeEventEnds w' = now + event_duration w tpl \<and> now < activeEventEnds w') \<and>
     site_ok w (activeEventCenter w') \<and> (\<forall>p. \<not> next_to (activeEventCenter w') p \<longrightarrow> ground_at w' p = ground_at w p)"

definition sane_events :: "u64 \<Rightarrow> world \<Rightarrow> bool" where
  "sane_events now w \<longleftrightarrow> BoundaryR (cfg w) \<le> 2 ^ 60 \<and>
     (\<forall>(eid, t) \<in> set (EventDefs (cats w)). eid \<noteq> [] \<and> 0 < event_duration w t \<and>
        unat now + unat (event_duration w t) < 2 ^ 64)"

lemma agent_core_notify:
  assumes "agents w' = map (\<lambda>(aid, a). (aid, AddEvent e a)) (agents w)"
  shows "agent_core w' = agent_core w"
proof (rule ext)
  fix aid :: string
  have "map_of (map (\<lambda>(aid, a). (aid, AddEvent e a)) xs) aid = map_option (AddEvent e) (map_of xs aid)" for xs
    by (induction xs) auto
  then show "agent_core w' aid = agent_core w aid" by (simp add: agent_core_def assms option.map_comp comp_def frame)
qed

lemma word_add_gt:
  fixes a b :: u64
  assumes "0 < b" and "unat a + unat b < 2 ^ 64" shows "a < a + b"
  using assms by (simp add: word_less_nat_alt unat_word_ariths)

lemma startEvent_spec:
  assumes "sane_events now w"
  shows "startEvent now eid w = w \<or> started now w (startEvent now eid w) \<and> same_people w (startEvent now eid w)"
proof (cases "map_of (EventDefs (cats w)) eid")
  case None
  then show ?thesis by (simp add: startEvent_def)
next
  case (Some tpl)
  define w1 where "w1 = w\<lparr>activeEventID := eid, activeEventStart := now, activeEventEnds := now + event_duration w tpl\<rparr>"
  define w2 where "w2 = instantiateEvent now eid w1"
  define w3 where "w3 = weather_override eid w2"
  have r: "startEvent now eid w = w3\<lparr>agents := map (\<lambda>(aid, a). (aid, AddEvent (event_message now tpl w3) a)) (agents w3)\<rparr>"
    unfolding startEvent_def Some option.case Let_def w1_def[symmetric] w2_def[symmetric] w3_def[symmetric] by (rule refl)
  have b: "BoundaryR (cfg w1) \<le> 2 ^ 60" using assms by (simp add: sane_events_def w1_def)
  have "(eid, tpl) \<in> set (EventDefs (cats w))" using Some by (rule map_of_SomeD)
  then have gt: "now < now + event_duration w tpl"
    using assms word_add_gt unfolding sane_events_def by blast
  have same: "cfg w1 = cfg w" "InBounds w1 = InBounds w" "landAt w1 = landAt w" "ground_at w1 = ground_at w"
    by (auto simp: w1_def InBounds_def landAt_def ground_at_def fun_eq_iff)
  note i = instantiateEvent_spec[OF b, of now eid, folded w2_def]
  have off: "cfg w3 = cfg w" "cats w3 = cats w" "agents w3 = agents w" "claims w3 = claims w" "trades w3 = trades w"
    "contracts w3 = contracts w" "laws w3 = laws w" "orgs w3 = orgs w" "itemEnts w3 = itemEnts w"
    using i by (simp_all add: off_site_def w3_def weather_override_def w1_def)
  have ev: "activeEventID w3 = eid" "activeEventStart w3 = now" "activeEventEnds w3 = now + event_duration w tpl"
    "activeEventCenter w3 = activeEventCenter w2" "ground_at w3 = ground_at w2"
    using i by (auto simp: w3_def weather_override_def w1_def ground_at_def fun_eq_iff)
  have ga: "ground_at (w3\<lparr>agents := m\<rparr>) = ground_at w2" for m
    by (auto simp: ground_at_def fun_eq_iff ev(5)[symmetric])
  have "started now w (startEvent now eid w)"
    using i gt Some ga by (simp add: r started_def ev off site_ok_def same Let_def)
  moreover have "same_people w (startEvent now eid w)"
    using agent_core_notify[of "startEvent now eid w" "event_message now tpl w3" w] by (simp add: same_people_def r off)
  ultimately show ?thesis by simp
qed

lemma sane_events_cong:
  assumes "cfg u = cfg w" and "cats u = cats w"
  shows "event_duration u = event_duration w" "sane_events now u = sane_events now w" "InBounds u = InBounds w"
  using assms by (simp_all add: sane_events_def event_duration_def InBounds_def fun_eq_iff)

lemma expire_event_spec:
  assumes "event_state_ok w" and "sane_events n w"
  shows "event_state_ok (expire_event now w)" "same_people w (expire_event now w)" "ground_at (expire_event now w) = ground_at w"
    "sane_events n (expire_event now w)" "cats (expire_event now w) = cats w" "cfg (expire_event now w) = cfg w"
    "InBounds (expire_event now w) = InBounds w" "landAt (expire_event now w) = landAt w"
    "event_duration (expire_event now w) = event_duration w"
proof -
  show c: "cats (expire_event now w) = cats w" "cfg (expire_event now w) = cfg w"
    by (simp_all add: expire_event_def Let_def)
  show "sane_events n (expire_event now w)" "InBounds (expire_event now w) = InBounds w"
    "event_duration (expire_event now w) = event_duration w"
    using sane_events_cong[OF c(2,1)] assms(2) by simp_all
  show "event_state_ok (expire_event now w)"
    using assms(1) by (auto simp: expire_event_def Expire_def event_state_ok_def Let_def)
  show "same_people w (expire_event now w)" "ground_at (expire_event now w) = ground_at w"
    "landAt (expire_event now w) = landAt w"
    by (auto simp: expire_event_def same_people_def agent_core_def ground_at_def landAt_def fun_eq_iff Let_def)
qed

text \<open>No container and no post is ever lost: a container may get another type and more goods, a board more posts.\<close>

definition nothing_lost :: "world \<Rightarrow> world \<Rightarrow> bool" where
  "nothing_lost w w' \<longleftrightarrow>
     (\<forall>p c. map_of (containers w) p = Some c \<longrightarrow>
        (\<exists>c'. map_of (containers w') p = Some c' \<and> Reserved c' = Reserved c \<and> Owed c' = Owed c)) \<and>
     (\<forall>b ps. map_of (boards w) b = Some ps \<longrightarrow> (\<exists>qs. map_of (boards w') b = Some (ps @ qs)))"

lemma nothing_lost_same: "containers w' = containers w \<Longrightarrow> boards w' = boards w \<Longrightarrow> nothing_lost w w'"
  by (simp add: nothing_lost_def)

lemma nothing_lost_trans [trans]:
  assumes "nothing_lost a b" and "nothing_lost b c"
  shows "nothing_lost a c"
  unfolding nothing_lost_def
proof (intro conjI allI impI)
  fix p x assume "map_of (containers a) p = Some x"
  with assms(1) obtain y where "map_of (containers b) p = Some y" "Reserved y = Reserved x" "Owed y = Owed x"
    unfolding nothing_lost_def by blast
  with assms(2) show "\<exists>c'. map_of (containers c) p = Some c' \<and> Reserved c' = Reserved x \<and> Owed c' = Owed x"
    unfolding nothing_lost_def by metis
next
  fix k ps assume "map_of (boards a) k = Some ps"
  with assms(1) obtain qs where "map_of (boards b) k = Some (ps @ qs)" unfolding nothing_lost_def by blast
  with assms(2) show "\<exists>qs. map_of (boards c) k = Some (ps @ qs)" unfolding nothing_lost_def by (metis append.assoc)
qed

lemma nothing_lost_fold: "(\<And>x w. nothing_lost w (f x w)) \<Longrightarrow> nothing_lost w (fold f xs w)"
  by (induction xs arbitrary: w) (auto intro: nothing_lost_same nothing_lost_trans)

lemma nothing_lost_steps:
  "nothing_lost w (place_spawn now why pb w)" "nothing_lost w (stock_spawn c w)" "nothing_lost w (write_sign now s w)"
  "nothing_lost w (pin_post now post w)"
  by (auto simp: nothing_lost_def place_spawn_def stock_spawn_def write_sign_def pin_post_def auditSetBlock_def SetBlock_def
      upd_container_def ensureContainer_def ensureSign_def ensureBoard_def newPostID_def Let_def gomap split: option.split prod.split)

lemma nothing_lost_plan: "nothing_lost w (applySpawnPlan now why plan w)"
proof -
  define u where "u = (case PlanCenter plan of None \<Rightarrow> w | Some c \<Rightarrow> w\<lparr>activeEventCenter := c\<rparr>)"
  have "nothing_lost w u" by (rule nothing_lost_same) (simp_all add: u_def split: option.split)
  also have "nothing_lost u (fold (place_spawn now why) (Placements plan) u)" (is "nothing_lost _ ?a")
    by (intro nothing_lost_fold nothing_lost_steps)
  also have "nothing_lost ?a (fold stock_spawn (LootContainers plan) ?a)" (is "nothing_lost _ ?b")
    by (intro nothing_lost_fold nothing_lost_steps)
  also have "nothing_lost ?b (fold (write_sign now) (SignTexts plan) ?b)" (is "nothing_lost _ ?c")
    by (intro nothing_lost_fold nothing_lost_steps)
  also have "nothing_lost ?c (fold (pin_post now) (BoardPosts plan) ?c)"
    by (intro nothing_lost_fold nothing_lost_steps)
  finally show ?thesis by (simp add: applySpawnPlan_def Let_def u_def)
qed

lemma nothing_lost_start: "nothing_lost w (startEvent now eid w)"
proof -
  have k: "nothing_lost x (spawn_event now c e plan k v)" "nothing_lost x (spawn_notice now c e plan v)"
    if "nothing_lost x v" for x v c e plan k
    using that by (cases k) (auto simp: spawn_notice_def intro: nothing_lost_trans[OF that nothing_lost_plan])
  have z: "nothing_lost v (v\<lparr>activeEventCenter := c, activeEventRadius := r\<rparr>)" for v c r
    by (rule nothing_lost_same) simp_all
  have i: "nothing_lost v (instantiateEvent now e v)" for v e
    unfolding instantiateEvent_def Let_def by (simp add: z k)
  have f: "nothing_lost v (v'\<lparr>agents := m\<rparr>)" if "nothing_lost v v'" for v v' m using that by (simp add: nothing_lost_def)
  have o: "nothing_lost v (weather_override e v')" if "nothing_lost v v'" for v v' e
    using that by (simp add: nothing_lost_def weather_override_def)
  have u: "nothing_lost w (w\<lparr>activeEventID := e, activeEventStart := x, activeEventEnds := y\<rparr>)" for e x y
    by (simp add: nothing_lost_same)
  show ?thesis
    unfolding startEvent_def Let_def by (auto intro!: f o nothing_lost_trans[OF u i] nothing_lost_same split: option.split)
qed

lemma nothing_lost_director: "nothing_lost w (systemDirector rnd now w)"
proof -
  have e: "nothing_lost w (expire_event now w)" by (rule nothing_lost_same) (simp_all add: expire_event_def Let_def)
  have m: "nothing_lost v (snd (computeDirectorMetrics rnd now v))" for v
    by (rule nothing_lost_same) (simp_all add: computeDirectorMetrics_def Let_def split: prod.split)
  have d: "nothing_lost v (draw_event rnd now v)" for v
    using m[of v] by (auto simp: draw_event_def Let_def intro: nothing_lost_trans[OF _ nothing_lost_start] split: prod.split)
  show ?thesis
    unfolding systemDirector_def Let_def
    using e nothing_lost_trans[OF e nothing_lost_start] nothing_lost_trans[OF e d] by simp
qed

text \<open>
  C33. World events live as announced.  A running event is left alone until it is over: its kind, time, place and the
  ground stay as they are.  Otherwise the tick ends with no event and the ground as it was, or with a new event
  from the catalog that starts now and runs for its duration, its centre on the ground plane, inside the boundary and
  claimed by nobody - or the origin, whoever claimed that.  Blocks, containers and signs change only within three cells
  of the centre; there the event builds over whatever stands, on a neighbouring claim too, but no container and no
  post on a board is removed.  The director changes no inventory of an agent, no task, reputation, claim, trade,
  contract, law, organization or item on the ground.
\<close>

theorem systemDirector_events:
  assumes "event_state_ok w" and "sane_events now w"
  shows "event_state_ok (systemDirector rnd now w) \<and> same_people w (systemDirector rnd now w) \<and>
    nothing_lost w (systemDirector rnd now w) \<and>
    (if activeEventID w \<noteq> [] \<and> now < activeEventEnds w
     then activeEventID (systemDirector rnd now w) = activeEventID w \<and>
          activeEventStart (systemDirector rnd now w) = activeEventStart w \<and>
          activeEventEnds (systemDirector rnd now w) = activeEventEnds w \<and>
          activeEventCenter (systemDirector rnd now w) = activeEventCenter w \<and>
          activeEventRadius (systemDirector rnd now w) = activeEventRadius w \<and>
          ground_at (systemDirector rnd now w) = ground_at w
     else activeEventID (systemDirector rnd now w) = [] \<and> ground_at (systemDirector rnd now w) = ground_at w \<or>
          started now w (systemDirector rnd now w))"
proof -
  define u where "u = expire_event now w"
  have u: "event_state_ok u" "same_people w u" "ground_at u = ground_at w" "sane_events now u" "cats u = cats w" "cfg u = cfg w"
    "InBounds u = InBounds w" "landAt u = landAt w" "event_duration u = event_duration w"
    using expire_event_spec[OF assms, of now] by (simp_all add: u_def)
  have run: "activeEventID w \<noteq> [] \<and> now < activeEventEnds w \<longleftrightarrow> activeEventID u \<noteq> []"
    using assms(1)
    by (cases "activeEventEnds w = 0") (auto simp: u_def expire_event_def Expire_def event_state_ok_def Let_def split: if_splits)
  have keep: "activeEventID u = activeEventID w" "activeEventStart u = activeEventStart w" "activeEventEnds u = activeEventEnds w"
    "activeEventCenter u = activeEventCenter w" "activeEventRadius u = activeEventRadius w" if "activeEventID u \<noteq> []"
    using that by (auto simp: u_def expire_event_def Expire_def Let_def split: if_splits)
  show ?thesis
  proof (cases "activeEventID u = []")
    case False
    then have "systemDirector rnd now w = u" by (simp add: systemDirector_def u_def[symmetric] Let_def)
    with False run keep u nothing_lost_director[of w rnd now] show ?thesis by simp
  next
    case True
    have new: "event_state_ok (startEvent now eid v) \<and> same_people w (startEvent now eid v) \<and>
        (activeEventID (startEvent now eid v) = [] \<and> ground_at (startEvent now eid v) = ground_at w \<or>
         started now w (startEvent now eid v))" if "v = u\<lparr>stats := st\<rparr>" for v st eid
    proof -
      have v: "event_state_ok v" "same_people w v" "ground_at v = ground_at w" "sane_events now v" "activeEventID v = []"
        "started now v = started now w"
        using u True that
          sane_events_cong[of v u]
        by (auto simp: event_state_ok_def same_people_def agent_core_def ground_at_def
          started_def site_ok_def landAt_def fun_eq_iff)
      have "event_state_ok x" if "started now w x" for x
      proof -
        have "activeEventID x \<noteq> []" using that assms(2) by (auto simp: started_def sane_events_def dest: map_of_SomeD)
        with that show ?thesis by (auto simp: started_def event_state_ok_def)
      qed
      moreover have "same_people w x" if "same_people v x" for x using v(2) that by (simp add: same_people_def)
      ultimately show ?thesis using startEvent_spec[OF v(4), of eid] v by auto
    qed
    have "\<exists>st. snd (computeDirectorMetrics rnd now u) = u\<lparr>stats := st\<rparr>"
      by (auto simp: computeDirectorMetrics_def Let_def split: prod.split intro: exI[of _ "stats u"])
    then obtain st where st: "snd (computeDirectorMetrics rnd now u) = u\<lparr>stats := st\<rparr>" by blast
    have idle: "event_state_ok (u\<lparr>stats := st\<rparr>) \<and> same_people w (u\<lparr>stats := st\<rparr>) \<and> activeEventID (u\<lparr>stats := st\<rparr>) = [] \<and>
        ground_at (u\<lparr>stats := st\<rparr>) = ground_at w" for st
      using u True by (simp add: event_state_ok_def same_people_def agent_core_def ground_at_def fun_eq_iff)
    have drawn: "draw_event rnd now u = u\<lparr>stats := st\<rparr> \<or> (\<exists>eid. draw_event rnd now u = startEvent now eid (u\<lparr>stats := st\<rparr>))"
      using st by (auto simp: draw_event_def Let_def split: prod.split)
    have uu: "u\<lparr>stats := stats u\<rparr> = u" by simp
    define sc where "sc = (if DayTicks (cfg u) > 0 \<and> now mod word_of_int (DayTicks (cfg u)) = 0 then ScriptedEvent (seasonDay u now) else [])"
    have "systemDirector rnd now w = (if sc \<noteq> [] then startEvent now sc u
        else if \<not> ShouldEvaluate now (word_of_int (DirectorEveryTicks (cfg u))) then u else draw_event rnd now u)"
      unfolding systemDirector_def Let_def u_def[symmetric] sc_def[symmetric] using True by simp
    then consider "systemDirector rnd now w = startEvent now sc (u\<lparr>stats := stats u\<rparr>)" | "systemDirector rnd now w = u\<lparr>stats := stats u\<rparr>"
      | "systemDirector rnd now w = u\<lparr>stats := st\<rparr>" | eid where "systemDirector rnd now w = startEvent now eid (u\<lparr>stats := st\<rparr>)"
      unfolding uu using drawn by (cases "sc \<noteq> []"; cases "ShouldEvaluate now (word_of_int (DirectorEveryTicks (cfg u)))") metis+
    then obtain x where "systemDirector rnd now w = u\<lparr>stats := x\<rparr> \<or> (\<exists>eid. systemDirector rnd now w = startEvent now eid (u\<lparr>stats := x\<rparr>))"
      by cases (rule that, blast)+
    then show ?thesis
    proof (elim disjE exE)
      assume "systemDirector rnd now w = u\<lparr>stats := x\<rparr>"
      then show ?thesis using idle[of x] run True nothing_lost_director[of w rnd now] by auto
    next
      fix eid assume e: "systemDirector rnd now w = startEvent now eid (u\<lparr>stats := x\<rparr>)"
      show ?thesis using nothing_lost_director[of w rnd now] unfolding e using new[OF refl, of eid x] run True by auto
    qed
  qed
qed

definition fair_template :: event_template where
  "fair_template = \<lparr>ETitle = ''Market week'', EDescription = ''Trade'', EBaseWeight = 1 / 4,
     EParams = [(''duration_ticks'', PFloat 3000)]\<rparr>"

definition fair_world :: world where
  "fair_world = empty_world\<lparr>cats := (cats empty_world)\<lparr>EventDefs := [(''MARKET_WEEK'', fair_template)]\<rparr>\<rparr>"

theorem systemDirector_events_witness:
  "\<forall>rnd. event_state_ok (systemDirector rnd 6000 fair_world) \<and>
   (activeEventID (systemDirector rnd 6000 fair_world) = [] \<or> activeEventStart (systemDirector rnd 6000 fair_world) = 6000)"
proof
  fix rnd :: "real \<Rightarrow> real"
  have "event_state_ok fair_world" by (simp add: fair_world_def event_state_ok_def empty_world_def)
  moreover have "sane_events 6000 fair_world"
    by (simp add: fair_world_def sane_events_def event_duration_def fair_template_def)
  ultimately show "event_state_ok (systemDirector rnd 6000 fair_world) \<and>
    (activeEventID (systemDirector rnd 6000 fair_world) = [] \<or> activeEventStart (systemDirector rnd 6000 fair_world) = 6000)"
    using systemDirector_events[of fair_world 6000 rnd]
    by (auto simp: started_def fair_world_def)
qed

section \<open>The draw depends on the order of a map\<close>

text \<open>A \<open>float64\<close> of normal size: 53 significant bits, ties to even.\<close>

definition round_even :: "real \<Rightarrow> int" where
  "round_even x =
     (let n = \<lfloor>x\<rfloor>; d = x - of_int n
      in if d < 1 / 2 then n else if d > 1 / 2 then n + 1 else if even n then n else n + 1)"

definition float64 :: "real \<Rightarrow> real" where
  "float64 x = (if x = 0 then 0 else
     let e = \<lfloor>log 2 \<bar>x\<bar>\<rfloor> in of_int (round_even (x * 2 powi (52 - e))) / 2 powi (52 - e))"

lemma float64_below_one:
  assumes "1 / 2 ^ m \<le> x" and "x < 2 / 2 ^ m"
  shows "float64 x = of_int (round_even (x * 2 ^ (52 + m))) / 2 ^ (52 + m)"
proof -
  have pos: "0 < x" using assms(1) by (meson divide_pos_pos less_le_trans zero_less_numeral zero_less_one zero_less_power)
  have p: "2 powr (- real m) = 1 / 2 ^ m" by (simp add: powr_minus_divide powr_realpow)
  moreover have "2 powr (1 - real m) = 2 / 2 ^ m" by (simp add: powr_diff powr_realpow)
  ultimately have "\<lfloor>log 2 x\<rfloor> = - int m"
    using assms pos floor_log_eq_powr_iff[of x 2 "- int m"] by (simp add: powr_add)
  then show ?thesis using pos by (simp add: float64_def Let_def power_int_def nat_add_distrib add.commute)
qed

lemma float64_whole:
  assumes "2 ^ m \<le> x" and "x < 2 ^ (m + 1)" and "m \<le> 52" and "x = of_int n"
  shows "float64 x = x"
proof -
  have pos: "0 < x" using assms(1) by (meson less_le_trans zero_less_numeral zero_less_power)
  have "\<lfloor>log 2 x\<rfloor> = int m"
    using assms pos floor_log_eq_powr_iff[of x 2 "int m"] by (simp add: powr_realpow powr_add)
  then show ?thesis using pos assms(3)
    by (simp add: float64_def Let_def power_int_def assms(4) round_even_def nat_diff_distrib)
qed

text \<open>
  The draw of the next event is not a function of the weights.  The total is summed up in the iteration
  order of a Go map, and with the rounding of \<open>float64\<close> one and the same map of weights, enumerated in two orders,
  leads to different events for the same roll.
\<close>

lemma SampleWeighted_order_matters:
  "\<exists>ws ws' roll. wf_map ws \<and> wf_map ws' \<and> map_of ws = map_of ws' \<and> list_all (\<lambda>(_, x). float64 x = x \<and> 0 < x) ws \<and>
     SampleWeighted float64 ws roll \<noteq> SampleWeighted float64 ws' roll"
proof -
  define a b c :: real where "a = 5404319552844595 / 2 ^ 54" and "b = 3602879701896397 / 2 ^ 55" and "c = 3602879701896397 / 2 ^ 54"
  note vals = a_def b_def c_def
  have one: "float64 x = of_int n / 2 ^ (52 + m)" if "1 / 2 ^ m \<le> x" "x < 2 / 2 ^ m" "round_even (x * 2 ^ (52 + m)) = n" for x m n
    using float64_below_one[OF that(1,2)] that(3) by simp
  have "float64 a = of_int 5404319552844595 / 2 ^ (52 + 2)" "float64 b = of_int 7205759403792794 / 2 ^ (52 + 4)"
    "float64 c = of_int 7205759403792794 / 2 ^ (52 + 3)" "float64 (b + c) = of_int 5404319552844596 / 2 ^ (52 + 2)"
    "float64 (c + a) = of_int 4503599627370496 / 2 ^ (52 + 1)" "float64 (1351079888211149 / 2 ^ 52 + a) = of_int 5404319552844596 / 2 ^ (52 + 1)"
    "float64 (1 / 2 + b) = of_int 5404319552844595 / 2 ^ (52 + 1)" "float64 (1351079888211149 / 2 ^ 52) = of_int 5404319552844596 / 2 ^ (52 + 2)"
    "float64 (1 / 2) = of_int 4503599627370496 / 2 ^ (52 + 1)"
    by (rule one; simp add: vals round_even_def Let_def)+
  then have f: "float64 a = a" "float64 b = b" "float64 c = c" "float64 (b + c) = 1351079888211149 / 2 ^ 52" "float64 (a + c) = 1 / 2"
    "float64 (1351079888211149 / 2 ^ 52 + a) = 1351079888211149 / 2 ^ 51" "float64 (1 / 2 + b) = 5404319552844595 / 2 ^ 53"
    "float64 (1351079888211149 / 2 ^ 52) = 1351079888211149 / 2 ^ 52" "float64 (1 / 2) = 1 / 2"
    by (simp_all add: vals add.commute)
  have r: "float64 500000000 = 500000000" by (rule float64_whole[of 28 _ 500000000]) simp_all
  let ?ws = "[(''B'', b), (''C'', c), (''A'', a)]" and ?ws' = "[(''A'', a), (''C'', c), (''B'', b)]"
  have r': "float64 (500000000 / 1000000000) = 1 / 2" "unat (500000000 mod 1000000000 :: u64) = 500000000" using f by simp_all
  have pos: "0 < a" "0 < b" "0 < c" "float64 (0 + b) = b" "float64 (0 + a) = a" by (simp_all add: f) (simp_all add: vals)
  have t: "1 / 2 * (1351079888211149 / 2 ^ 51) = (1351079888211149 / 2 ^ 52 :: real)" "1 / 2 * (5404319552844595 / 2 ^ 53) = a"
    "\<not> 1351079888211149 / 2 ^ 52 \<le> a" "(1351079888211149 / 2 ^ 52 :: real) \<le> 3602879701896397 / 2 ^ 53"
    "\<not> (1351079888211149 / 2 ^ 51 :: real) \<le> 0" "\<not> (5404319552844595 / 2 ^ 53 :: real) \<le> 0" by (simp_all add: vals)
  have s: "sort [''B'', ''C'', ''A''] = [''A'', ''B'', ''C'']" "sort [''A'', ''C'', ''B''] = [''A'', ''B'', ''C'']"
    by code_simp+
  have ab: "float64 (a + b) = 3602879701896397 / 2 ^ 53"
  proof -
    have "float64 (a + b) = of_int 7205759403792794 / 2 ^ (52 + 2)"
      by (rule one; simp add: vals round_even_def Let_def)
    then show ?thesis by (simp add: vals)
  qed
  have sum: "fold (\<lambda>(k, x) s. if x > 0 then float64 (s + x) else s) ?ws 0 = 1351079888211149 / 2 ^ 51"
    "fold (\<lambda>(k, x) s. if x > 0 then float64 (s + x) else s) ?ws' 0 = 5404319552844595 / 2 ^ 53"
    by (simp_all only: fold_simps prod.case pos f if_True)
  have w: "weight ?ws ''A'' = a" "weight ?ws ''B'' = b" "weight ?ws' ''A'' = a" by (simp_all add: weight_def)
  have ids: "map fst (filter (\<lambda>(k, x). x > 0) ?ws) = [''B'', ''C'', ''A'']" "map fst (filter (\<lambda>(k, x). x > 0) ?ws') = [''A'', ''C'', ''B'']"
    using pos by simp_all
  have T: "float64 (float64 (float64 (real 500000000) / 1000000000) * (1351079888211149 / 2 ^ 51)) = 1351079888211149 / 2 ^ 52"
    "float64 (float64 (float64 (real 500000000) / 1000000000) * (5404319552844595 / 2 ^ 53)) = a"
    by (simp_all only: of_nat_numeral r r'(1) t f)
  have "SampleWeighted float64 ?ws 500000000 = ''B''"
    unfolding SampleWeighted_def Let_def ids sum s r'(2)
    by (simp only: pick_weighted.simps w pos t T f ab if_True if_False HOL.simp_thms Let_def list.distinct(2))
  moreover have "SampleWeighted float64 ?ws' 500000000 = ''A''"
    unfolding SampleWeighted_def Let_def ids sum s r'(2)
    by (simp only: pick_weighted.simps w pos t T f if_True if_False HOL.simp_thms Let_def list.distinct(2) order_refl)
  moreover have "map_of ?ws = map_of ?ws'" by auto
  moreover have "wf_map ?ws'" by (simp add: wf_map_def)
  moreover have "wf_map ?ws" "\<forall>(k, x) \<in> set ?ws. float64 x = x \<and> 0 < x" using f by (simp_all add: wf_map_def) (simp_all add: vals)
  ultimately show ?thesis by (intro exI[of _ ?ws] exI[of _ ?ws'] exI[of _ 500000000]) simp
qed

end
