(* ===== verification/Session_Model.thy ===== *)
theory Session_Model
  imports Movement_Model Director_Model
begin

text \<open>
  Sessions (\<open>session_facade.go\<close>, \<open>feature/session/*\<close>, \<open>act_dedupe.go\<close>), chat
  (\<open>runtime_loop.go\<close>), eating and private memory.  The connections themselves are not part of the world: joining
  and attaching return the identifier and the token the client is told.
\<close>

section \<open>Joining\<close>

definition NormalizeAgentName :: "string \<Rightarrow> string" where
  "NormalizeAgentName name = (let v = trim_space name in if v = [] then ''agent'' else v)"

definition NewAgentID :: "u64 \<Rightarrow> string" where
  "NewAgentID idNum = ''A'' @ dec_nat (unat idNum)"

definition SpawnSeed :: "u64 \<Rightarrow> int \<times> int" where
  "SpawnSeed idNum = (let seed = i64 (sint idNum * 2) in (seed, i64 (- seed)))"

definition NewResumeToken :: "string \<Rightarrow> int \<Rightarrow> string" where
  "NewResumeToken worldID nowUnixNano = ''resume_'' @ worldID @ ''_'' @ dec_int nowUnixNano"

definition zero_agent :: agent where
  "zero_agent = \<lparr>AID = [], AName = [], AOrgID = [], CurrentWorldID = [], SwitchCooldownUntil = 0, ResumeToken = [],
     APos = \<lparr>vx = 0, vy = 0, vz = 0\<rparr>, Yaw = 0, HP = 0, Hunger = 0, StaminaMilli = 0, RepTrade = 0, RepBuild = 0,
     RepSocial = 0, RepLaw = 0,
     AFun = \<lparr>Novelty = 0, Creation = 0, Social = 0, Influence = 0, Narrative = 0, RiskRescue = 0\<rparr>,
     AInventory = [], MainHand = [], Armor = [[], [], [], []], MoveTask = None, WorkTask = None, Events = [],
     EventCursor = 0, EventLog = [], rl = [], funDecay = [], seenBiomes = [], seenRecipes = [], seenEvents = [],
     Memory = [], PendingMemory = []\<rparr>"

definition BuildJoinedAgent :: "string \<Rightarrow> string \<Rightarrow> string \<Rightarrow> vec3 \<Rightarrow> items option \<Rightarrow> agent" where
  "BuildJoinedAgent agentID name worldID spawn starter =
     (let a = InitDefaults (zero_agent\<lparr>AID := agentID, AName := trim_space name, APos := spawn\<lparr>vy := 0\<rparr>,
                                       CurrentWorldID := worldID\<rparr>)
      in case starter of
           None \<Rightarrow> a
         | Some its \<Rightarrow> a\<lparr>AInventory := fold (\<lambda>item m. if item = [] \<or> cnt its item \<le> 0 then m else madd m item (cnt its item))
                                           (sorted_keys its) (AInventory a)\<rparr>)"

definition joinAgent :: "string \<Rightarrow> int \<Rightarrow> world \<Rightarrow> (string \<times> string) \<times> world" where
  "joinAgent name nowUnixNano w =
     (let nowTick = worldTick w;
          idNum = nextAgentNum w + 1;
          w = w\<lparr>nextAgentNum := idNum\<rparr>;
          agentID = NewAgentID idNum;
          (x, z) = findSpawnAir w (fst (SpawnSeed idNum)) (snd (SpawnSeed idNum)) 8;
          a = BuildJoinedAgent agentID (NormalizeAgentName name) (WorldID (cfg w)) \<lparr>vx = x, vy = 0, vz = z\<rparr>
                (StarterItems (cfg w));
          a = enqueueActiveEventForAgent nowTick w (funOnBiome w nowTick a);
          token = NewResumeToken (WorldID (cfg w)) nowUnixNano
      in ((agentID, token), w\<lparr>agents := mput agentID (a\<lparr>ResumeToken := token\<rparr>) (agents w)\<rparr>))"

section \<open>Resuming\<close>

definition FindResumeAgentID :: "(string \<times> string) list \<Rightarrow> string \<Rightarrow> string" where
  "FindResumeAgentID candidates token =
     (if token = [] \<or> candidates = [] then []
      else case find (\<lambda>(_, t). t = token) (sort_key fst candidates) of None \<Rightarrow> [] | Some (aid, _) \<Rightarrow> aid)"

definition AttachByToken :: "string \<Rightarrow> agent gomap \<Rightarrow> string \<Rightarrow> int \<Rightarrow> (string \<times> string \<times> agent gomap) option" where
  "AttachByToken token m worldID nowUnixNano =
     (if trim_space token = [] \<or> m = [] then None
      else
        let aid = FindResumeAgentID (map (\<lambda>(k, a). (k, ResumeToken a)) m) (trim_space token);
            newToken = NewResumeToken worldID nowUnixNano
        in case map_of m aid of
             None \<Rightarrow> None
           | Some a \<Rightarrow> Some (aid, newToken, mput aid (a\<lparr>CurrentWorldID := worldID, ResumeToken := newToken\<rparr>) m))"

definition handleAttach :: "string \<Rightarrow> int \<Rightarrow> world \<Rightarrow> (string \<times> string) option \<times> world" where
  "handleAttach token0 nowUnixNano w =
     (let token = trim_space token0
      in if token = [] then (None, w)
         else case AttachByToken token (agents w) (WorldID (cfg w)) nowUnixNano of
                None \<Rightarrow> (None, w)
              | Some (aid, newToken, m) \<Rightarrow>
                  (Some (aid, newToken), upd_agent aid (enqueueActiveEventForAgent (worldTick w) w) (w\<lparr>agents := m\<rparr>)))"

section \<open>At most once\<close>

definition actDedupeTTLTicks :: u64 where
  "actDedupeTTLTicks = 3000"

record dedupe_req =
  QAgentID :: string
  QWorldID :: string
  QActID :: string
  Proposed :: event

text \<open>The answer is the acknowledgement and whether it is a duplicate.\<close>

definition handleActDedupeReq :: "dedupe_req \<Rightarrow> world \<Rightarrow> (event \<times> bool) \<times> world" where
  "handleActDedupeReq q w =
     (if QActID q = [] then ((Proposed q, False), w)
      else
        let now = worldTick w;
            worldID = (if QWorldID q = [] then WorldID (cfg w) else QWorldID q);
            key = (QAgentID q, worldID, QActID q);
            m = filter (\<lambda>(k, v). \<not> now \<ge> AckExpires v) (actDedupe w);
            w = w\<lparr>actDedupe := m\<rparr>;
            fresh = ((Proposed q, False),
                     w\<lparr>actDedupe := mput key \<lparr>Ack = Proposed q, AckExpires = now + actDedupeTTLTicks\<rparr> m\<rparr>)
        in case map_of m key of
             Some e \<Rightarrow> if now < AckExpires e then ((Ack e, True), w) else fresh
           | None \<Rightarrow> fresh)"

section \<open>Chat\<close>

definition ValidateSayInput :: "string \<Rightarrow> verdict" where
  "ValidateSayInput text0 = (if trim_space text0 = [] then refuse ''E_BAD_REQUEST'' ''missing text'' else accept)"

definition ValidateWhisperInput :: "string \<Rightarrow> string \<Rightarrow> verdict" where
  "ValidateWhisperInput to text0 =
     (if trim_space to = [] \<or> trim_space text0 = [] then refuse ''E_BAD_REQUEST'' ''missing to/text'' else accept)"

definition NormalizeChatChannel :: "string \<Rightarrow> string option" where
  "NormalizeChatChannel raw =
     (let ch = to_upper (trim_space raw); ch = (if ch = [] then ''LOCAL'' else ch)
      in if ch \<in> {''LOCAL'', ''CITY'', ''MARKET''} then Some ch else None)"

record limit_spec =
  LKind :: string
  LWindow :: u64
  LMax :: int
  RateErrMsg :: string

definition LimitSpec :: "string \<Rightarrow> rate_limit_config \<Rightarrow> limit_spec" where
  "LimitSpec ch limits =
     (if ch = ''MARKET''
      then \<lparr>LKind = ''SAY_MARKET'', LWindow = word_of_int (MarketSayWindowTicks limits), LMax = MarketSayMax limits,
            RateErrMsg = ''too many SAY (MARKET)''\<rparr>
      else \<lparr>LKind = ''SAY'', LWindow = word_of_int (SayWindowTicks limits), LMax = SayMax limits, RateErrMsg = ''too many SAY''\<rparr>)"

definition chat_event :: "u64 \<Rightarrow> string \<Rightarrow> string \<Rightarrow> string \<Rightarrow> event" where
  "chat_event nowTick from_id channel text0 =
     [(''t'', JU64 nowTick), (''type'', JStr ''CHAT''), (''from'', JStr from_id), (''channel'', JStr channel), (''text'', JStr text0)]"

definition hears :: "world \<Rightarrow> agent \<Rightarrow> string \<Rightarrow> string \<Rightarrow> agent \<Rightarrow> bool" where
  "hears w sender channel aid a \<longleftrightarrow>
     (if channel = ''LOCAL'' then \<not> Manhattan (APos a) (APos sender) > 32
      else if channel = ''CITY'' then \<not> (AOrgID sender = [] \<or> \<not> isOrgMember w aid (AOrgID sender))
      else True)"

definition broadcastChat :: "u64 \<Rightarrow> string \<Rightarrow> string \<Rightarrow> string \<Rightarrow> world \<Rightarrow> world" where
  "broadcastChat nowTick from_id channel text0 w =
     (case map_of (agents w) from_id of
        None \<Rightarrow> w
      | Some s \<Rightarrow> w\<lparr>agents := map (\<lambda>(aid, a).
            (aid, if hears w s channel aid a then AddEvent (chat_event nowTick from_id channel text0) a else a)) (agents w)\<rparr>)"

text \<open>A rate-limited handler: the limit is counted, and a refusal says how long to wait.\<close>

definition rate_limited ::
  "string \<Rightarrow> string \<Rightarrow> u64 \<Rightarrow> string \<Rightarrow> u64 \<Rightarrow> int \<Rightarrow> string \<Rightarrow> (world \<Rightarrow> world) \<Rightarrow> world \<Rightarrow> world" where
  "rate_limited aid ref nowTick kind window maxn msg k w =
     (case map_of (agents w) aid of
        None \<Rightarrow> w
      | Some a \<Rightarrow>
          (case RateLimitAllow kind nowTick window maxn a of
             (ok, cd, a') \<Rightarrow>
               let w = upd_agent aid (\<lambda>_. a') w
               in if ok then k w
                  else emit aid (actionResult nowTick ref False ''E_RATE_LIMIT'' msg @
                         [(''cooldown_ticks'', JU64 cd), (''cooldown_until_tick'', JU64 (nowTick + cd))]) w))"

definition say_refusal :: "world \<Rightarrow> string \<Rightarrow> agent \<Rightarrow> string \<Rightarrow> verdict" where
  "say_refusal w aid a ch =
     (if ch = ''CITY'' \<and> (AOrgID a = [] \<or> \<not> isOrgMember w aid (AOrgID a)) then refuse ''E_NO_PERMISSION'' ''not in org''
      else if ch = ''MARKET'' \<and> \<not> WAllowTrade (cfg w) then refuse ''E_NO_PERMISSION'' ''market disabled in this world''
      else if ch = ''MARKET'' \<and> \<not> CanTrade (snd (permissionsFor w aid (APos a))) then
        refuse ''E_NO_PERMISSION'' ''market chat not allowed here''
      else accept)"

definition HandleSay :: "string \<Rightarrow> instant \<Rightarrow> u64 \<Rightarrow> world \<Rightarrow> world" where
  "HandleSay aid inst nowTick w =
     (case map_of (agents w) aid of
        None \<Rightarrow> w
      | Some a \<Rightarrow>
          let v = ValidateSayInput (InstText inst)
          in if \<not> fst v then reply_verdict aid nowTick (InstID inst) v w
             else case NormalizeChatChannel (InstChannel inst) of
                    None \<Rightarrow> reply aid nowTick (InstID inst) False ''E_BAD_REQUEST'' ''invalid channel'' w
                  | Some ch \<Rightarrow>
                      if \<not> fst (say_refusal w aid a ch) then reply_verdict aid nowTick (InstID inst) (say_refusal w aid a ch) w
                      else
                        let rs = LimitSpec ch (RateLimits (cfg w))
                        in rate_limited aid (InstID inst) nowTick (LKind rs) (LWindow rs) (LMax rs) (RateErrMsg rs)
                             (\<lambda>w. reply aid nowTick (InstID inst) True [] ''ok'' (broadcastChat nowTick aid ch (InstText inst) w)) w)"

definition HandleWhisper :: "string \<Rightarrow> instant \<Rightarrow> u64 \<Rightarrow> world \<Rightarrow> world" where
  "HandleWhisper aid inst nowTick w =
     rate_limited aid (InstID inst) nowTick ''WHISPER'' (word_of_int (WhisperWindowTicks (RateLimits (cfg w))))
       (WhisperMax (RateLimits (cfg w))) ''too many WHISPER''
       (\<lambda>w. let v = ValidateWhisperInput (InstTo inst) (InstText inst)
            in if \<not> fst v then reply_verdict aid nowTick (InstID inst) v w
               else if map_of (agents w) (InstTo inst) = None then
                 reply aid nowTick (InstID inst) False ''E_INVALID_TARGET'' ''target not found'' w
               else reply aid nowTick (InstID inst) True [] ''ok''
                      (emit (InstTo inst) (chat_event nowTick aid ''WHISPER'' (InstText inst)) w)) w"

section \<open>Eating\<close>

definition NormalizeConsumeCount :: "int \<Rightarrow> int" where
  "NormalizeConsumeCount n = (if n \<le> 0 then 1 else n)"

definition IsFood :: "string \<Rightarrow> int \<Rightarrow> bool" where
  "IsFood kind edibleHP \<longleftrightarrow> kind = ''FOOD'' \<and> edibleHP > 0"

definition cap_at :: "int \<Rightarrow> int \<Rightarrow> int" where
  "cap_at m v = (if v > m then m else v)"

definition eat_one :: "int \<Rightarrow> int \<times> int \<times> int \<Rightarrow> int \<times> int \<times> int" where
  "eat_one edibleHP = (\<lambda>(hp, hunger, stamina).
     let gain = i64 (edibleHP * 2); gain = (if gain < 1 then 1 else gain)
     in (cap_at 20 (i64 (hp + edibleHP)), cap_at 20 (i64 (hunger + gain)), cap_at 1000 (i64 (stamina + i64 (edibleHP * 50)))))"

definition ApplyFood :: "int \<times> int \<times> int \<Rightarrow> int \<Rightarrow> int \<Rightarrow> int \<times> int \<times> int" where
  "ApplyFood st edibleHP n = (if edibleHP \<le> 0 \<or> n \<le> 0 then st else (eat_one edibleHP ^^ nat n) st)"

definition take_one :: "string \<Rightarrow> items \<Rightarrow> items" where
  "take_one item m = mprune (msub m item 1) item"

definition HandleEat :: "string \<Rightarrow> instant \<Rightarrow> u64 \<Rightarrow> world \<Rightarrow> world" where
  "HandleEat aid inst nowTick w =
     (case map_of (agents w) aid of
        None \<Rightarrow> w
      | Some a \<Rightarrow>
          let item = InstItemID inst; n = NormalizeConsumeCount (InstCount inst);
              kind = (case map_of (ItemKind (cats w)) item of None \<Rightarrow> [] | Some k \<Rightarrow> k);
              edible = cnt (EdibleHP (cats w)) item
          in if item = [] then reply aid nowTick (InstID inst) False ''E_BAD_REQUEST'' ''missing item_id'' w
             else if item \<notin> set (ItemDefs (cats w)) then
               reply aid nowTick (InstID inst) False ''E_INVALID_TARGET'' ''unknown item'' w
             else if \<not> IsFood kind edible then reply aid nowTick (InstID inst) False ''E_BAD_REQUEST'' ''item not edible'' w
             else if cnt (AInventory a) item < n then reply aid nowTick (InstID inst) False ''E_NO_RESOURCE'' ''missing food'' w
             else
               case ApplyFood (HP a, Hunger a, StaminaMilli a) edible n of
                 (hp, hunger, stamina) \<Rightarrow>
                   reply aid nowTick (InstID inst) True [] ''ok''
                     (upd_agent aid (\<lambda>a. a\<lparr>AInventory := (take_one item ^^ nat n) (AInventory a), HP := hp, Hunger := hunger,
                                            StaminaMilli := stamina\<rparr>) w))"

section \<open>Memory\<close>

definition OverMemoryBudget :: "memory_entry gomap \<Rightarrow> string \<Rightarrow> string \<Rightarrow> int \<Rightarrow> bool" where
  "OverMemoryBudget mem key val budget \<longleftrightarrow>
     fold (\<lambda>(k, e) sum. if k = key then sum else i64 (sum + int (length k + length (MValue e)))) mem 0
       + int (length key + length val) > budget"

definition HandleSaveMemory :: "string \<Rightarrow> instant \<Rightarrow> u64 \<Rightarrow> world \<Rightarrow> world" where
  "HandleSaveMemory aid inst nowTick w =
     (case map_of (agents w) aid of
        None \<Rightarrow> w
      | Some a \<Rightarrow>
          if trim_space (InstKey inst) = [] then reply aid nowTick (InstID inst) False ''E_BAD_REQUEST'' ''missing key'' w
          else if OverMemoryBudget (Memory a) (InstKey inst) (InstValue inst) (64 * 1024) then
            reply aid nowTick (InstID inst) False ''E_NO_RESOURCE'' ''memory budget exceeded'' w
          else reply aid nowTick (InstID inst) True [] ''ok''
                 (upd_agent aid (MemorySave (InstKey inst) (InstValue inst) (InstTTLTicks inst) nowTick) w))"

definition HandleLoadMemory :: "string \<Rightarrow> instant \<Rightarrow> u64 \<Rightarrow> world \<Rightarrow> world" where
  "HandleLoadMemory aid inst nowTick w =
     (case map_of (agents w) aid of
        None \<Rightarrow> w
      | Some a \<Rightarrow>
          (case MemoryLoad (InstPrefix inst) (InstLimit inst) nowTick a of
             (kvs, a') \<Rightarrow>
               reply aid nowTick (InstID inst) True [] (''loaded '' @ dec_int (int (length kvs)) @ '' keys'')
                 (upd_agent aid (\<lambda>_. a'\<lparr>PendingMemory := kvs\<rparr>) w)))"

section \<open>Requests are answered at most once\<close>

text \<open>One answered request at a given tick, and a run of them.\<close>

definition dedupe_step :: "u64 \<times> dedupe_req \<Rightarrow> world \<Rightarrow> world" where
  "dedupe_step = (\<lambda>(t, q) w. snd (handleActDedupeReq q (w\<lparr>worldTick := t\<rparr>)))"

definition dedupe_key :: "string \<Rightarrow> dedupe_req \<Rightarrow> string \<times> string \<times> string" where
  "dedupe_key wid q = (QAgentID q, if QWorldID q = [] then wid else QWorldID q, QActID q)"

lemma map_of_unexpired:
  "map_of m k = Some e \<Longrightarrow> P e \<Longrightarrow> map_of (filter (\<lambda>(k, v). P v) m) k = Some e"
  by (induction m) auto

lemma map_of_filter_value:
  "wf_map m \<Longrightarrow> map_of (filter (\<lambda>(k, v). P v) m) k = (case map_of m k of Some e \<Rightarrow> if P e then Some e else None | None \<Rightarrow> None)"
  by (induction m) (auto simp: wf_map_Cons split: option.split)

text \<open>The handler over the entries that have not expired.\<close>

lemma handleActDedupeReq_live:
  assumes "QActID q \<noteq> []" and "m = filter (\<lambda>(k, v). \<not> AckExpires v \<le> t) (actDedupe w)"
    and "k = dedupe_key (WorldID (cfg w)) q"
  shows "handleActDedupeReq q (w\<lparr>worldTick := t\<rparr>) =
    (case map_of m k of
       Some e \<Rightarrow> if t < AckExpires e then ((Ack e, True), w\<lparr>worldTick := t, actDedupe := m\<rparr>)
                 else ((Proposed q, False),
                       w\<lparr>worldTick := t, actDedupe := mput k \<lparr>Ack = Proposed q, AckExpires = t + actDedupeTTLTicks\<rparr> m\<rparr>)
     | None \<Rightarrow> ((Proposed q, False),
               w\<lparr>worldTick := t, actDedupe := mput k \<lparr>Ack = Proposed q, AckExpires = t + actDedupeTTLTicks\<rparr> m\<rparr>))"
  unfolding assms(2,3)
  using assms(1) by (auto simp: handleActDedupeReq_def Let_def dedupe_key_def split: option.split)

lemma dedupe_answer:
  assumes "map_of (actDedupe w) (dedupe_key (WorldID (cfg w)) q) = Some e" and "t < AckExpires e" and "QActID q \<noteq> []"
  shows "fst (handleActDedupeReq q (w\<lparr>worldTick := t\<rparr>)) = (Ack e, True)"
proof -
  have "map_of (filter (\<lambda>(k, v). \<not> AckExpires v \<le> t) (actDedupe w)) (dedupe_key (WorldID (cfg w)) q) = Some e"
    by (rule map_of_unexpired) (use assms(1,2) in auto)
  then show ?thesis by (simp add: handleActDedupeReq_live[OF assms(3) refl refl] assms(2))
qed

lemma dedupe_new:
  assumes "QActID q \<noteq> []" and "wf_map (actDedupe w)"
    and "map_of (actDedupe w) (dedupe_key (WorldID (cfg w)) q) = Some e" and "\<not> t < AckExpires e"
  shows "fst (handleActDedupeReq q (w\<lparr>worldTick := t\<rparr>)) = (Proposed q, False)"
proof -
  have "map_of (filter (\<lambda>(k, v). \<not> AckExpires v \<le> t) (actDedupe w)) (dedupe_key (WorldID (cfg w)) q) = None"
    by (subst map_of_filter_value) (use assms in auto)
  then show ?thesis by (simp add: handleActDedupeReq_live[OF assms(1) refl refl])
qed

text \<open>How one request changes the table: not at all, by dropping the expired entries, or by storing a new entry as well.\<close>

abbreviation live_acks :: "u64 \<Rightarrow> world \<Rightarrow> ((string \<times> string \<times> string) \<times> act_entry) list" where
  "live_acks t w \<equiv> filter (\<lambda>(k, v). \<not> AckExpires v \<le> t) (actDedupe w)"

lemma dedupe_step_cases:
  obtains (same) "actDedupe (dedupe_step (t, q) w) = actDedupe w"
  | (pruned) "actDedupe (dedupe_step (t, q) w) = live_acks t w"
  | (stored) k e where "actDedupe (dedupe_step (t, q) w) = mput k e (live_acks t w)"
      "\<And>e'. map_of (live_acks t w) k = Some e' \<Longrightarrow> AckExpires e' \<le> t"
proof (cases "QActID q = []")
  case True
  then have "actDedupe (dedupe_step (t, q) w) = actDedupe w" by (simp add: dedupe_step_def handleActDedupeReq_def)
  then show ?thesis by (rule same)
next
  case False
  note step = dedupe_step_def prod.case handleActDedupeReq_live[OF False refl refl]
  let ?k = "dedupe_key (WorldID (cfg w)) q"
  show ?thesis
  proof (cases "map_of (live_acks t w) ?k")
    case None
    then have "actDedupe (dedupe_step (t, q) w) = mput ?k \<lparr>Ack = Proposed q, AckExpires = t + actDedupeTTLTicks\<rparr> (live_acks t w)"
      unfolding step by simp
    then show ?thesis by (rule stored) (simp add: None)
  next
    case (Some e)
    show ?thesis
    proof (cases "t < AckExpires e")
      case True
      with Some have "actDedupe (dedupe_step (t, q) w) = live_acks t w" unfolding step by simp
      then show ?thesis by (rule pruned)
    next
      case False
      with Some have "actDedupe (dedupe_step (t, q) w) = mput ?k \<lparr>Ack = Proposed q, AckExpires = t + actDedupeTTLTicks\<rparr> (live_acks t w)"
        unfolding step by simp
      then show ?thesis by (rule stored) (use Some False in auto)
    qed
  qed
qed

lemma dedupe_config [simp]: "cfg (dedupe_step x w) = cfg w"
  by (cases x) (simp add: dedupe_step_def handleActDedupeReq_def Let_def split: option.split)

lemma dedupe_keeps:
  assumes "map_of (actDedupe w) k = Some e" and "t < AckExpires e"
  shows "map_of (actDedupe (dedupe_step (t, q) w)) k = Some e"
proof -
  have live: "map_of (live_acks t w) k = Some e"
    by (rule map_of_unexpired) (use assms in auto)
  show ?thesis
  proof (cases rule: dedupe_step_cases[of t q w])
    case (stored k' e')
    have "k' \<noteq> k" using stored(2) live assms(2) by (metis leD)
    with live stored(1) show ?thesis by (simp add: map_of_mput)
  qed (simp_all add: live assms(1))
qed

lemma wf_map_filter: "wf_map m \<Longrightarrow> wf_map (filter P m)"
  by (induction m) (auto simp: wf_map_def)

lemma dedupe_wf: "wf_map (actDedupe w) \<Longrightarrow> wf_map (actDedupe (dedupe_step (t, q) w))"
proof (cases rule: dedupe_step_cases[of t q w])
  case (stored k e)
  assume "wf_map (actDedupe w)"
  then show ?thesis unfolding stored(1) by (intro wf_map_mput wf_map_filter)
qed (simp_all only: wf_map_filter)

lemma dedupe_wf_run: "wf_map (actDedupe w) \<Longrightarrow> wf_map (actDedupe (fold dedupe_step later w))"
  by (induction later arbitrary: w) (auto simp: dedupe_wf)

lemma dedupe_keeps_run:
  assumes "map_of (actDedupe w) k = Some e" and "list_all (\<lambda>(t, q). t < AckExpires e) later"
  shows "map_of (actDedupe (fold dedupe_step later w)) k = Some e"
  using assms by (induction later arbitrary: w) (auto simp: dedupe_keeps)

lemma dedupe_config_run: "cfg (fold dedupe_step later w) = cfg w"
  by (induction later arbitrary: w) auto

lemma dedupe_records:
  assumes "QActID q \<noteq> []" and "snd (fst (handleActDedupeReq q (w\<lparr>worldTick := t\<rparr>))) = False"
  shows "map_of (actDedupe (dedupe_step (t, q) w)) (dedupe_key (WorldID (cfg w)) q)
    = Some \<lparr>Ack = Proposed q, AckExpires = t + actDedupeTTLTicks\<rparr>"
  using assms(2) unfolding dedupe_step_def prod.case handleActDedupeReq_live[OF assms(1) refl refl]
  by (auto simp: gomap split: option.splits if_splits)

text \<open>
  C36.  A request is accepted as new at most once: after it was accepted as new, and whatever other requests
  are answered in the meantime, a repetition with the same agent, world and act identifiers is reported as a
  duplicate and gets the first acknowledgement, until the entry expires 3000 ticks later; from then on (when
  nothing re-used the key) it counts as new again.
\<close>

theorem dedupe_at_most_once:
  assumes "wf_map (actDedupe w)" and "QActID q \<noteq> []" and "QActID q' = QActID q" and "QAgentID q' = QAgentID q" and "QWorldID q' = QWorldID q"
    and "snd (fst (handleActDedupeReq q (w\<lparr>worldTick := t\<rparr>))) = False"
    and "list_all (\<lambda>(s, _). s < t + actDedupeTTLTicks) later"
  shows "fst (handleActDedupeReq q' ((fold dedupe_step later (dedupe_step (t, q) w))\<lparr>worldTick := t'\<rparr>)) =
    (if t' < t + actDedupeTTLTicks then (Proposed q, True) else (Proposed q', False))"
proof -
  let ?e = "\<lparr>Ack = Proposed q, AckExpires = t + actDedupeTTLTicks\<rparr>"
  let ?w = "fold dedupe_step later (dedupe_step (t, q) w)"
  have key: "dedupe_key (WorldID (cfg ?w)) q' = dedupe_key (WorldID (cfg w)) q"
    using assms(3-5) by (simp add: dedupe_key_def dedupe_config_run)
  have e: "map_of (actDedupe ?w) (dedupe_key (WorldID (cfg ?w)) q') = Some ?e"
    unfolding key by (rule dedupe_keeps_run[OF dedupe_records[OF assms(2,6)]]) (use assms(7) in \<open>auto simp: list_all_iff\<close>)
  have wf: "wf_map (actDedupe ?w)" by (rule dedupe_wf_run) (simp add: dedupe_wf assms(1))
  show ?thesis
  proof (cases "t' < t + actDedupeTTLTicks")
    case True
    with dedupe_answer[OF e, of t'] assms(2,3) show ?thesis by simp
  next
    case False
    with dedupe_new[OF _ wf e, of t'] assms(2,3) show ?thesis by simp
  qed
qed

text \<open>The second request arrives within the time to live, the third after it.\<close>

theorem dedupe_at_most_once_witness:
  "fst (handleActDedupeReq \<lparr>QAgentID = ''A1'', QWorldID = [], QActID = ''x'', Proposed = [(''n'', JInt 3)]\<rparr>
     ((fold dedupe_step [(20, \<lparr>QAgentID = ''A2'', QWorldID = [], QActID = ''x'', Proposed = []\<rparr>)]
       (dedupe_step (10, \<lparr>QAgentID = ''A1'', QWorldID = [], QActID = ''x'', Proposed = [(''n'', JInt 1)]\<rparr>)
         (empty_world\<lparr>actDedupe := []\<rparr>)))\<lparr>worldTick := 3009\<rparr>)) = ([(''n'', JInt 1)], True)"
  by (subst dedupe_at_most_once)
     (simp_all add: actDedupeTTLTicks_def handleActDedupeReq_def Let_def)

section \<open>Memory stays within its budget\<close>

definition memory_bytes :: "memory_entry gomap \<Rightarrow> int" where
  "memory_bytes mem = sum_list (map (\<lambda>(k, e). int (length k + length (MValue e))) mem)"

lemma memory_bytes_nonneg [simp]: "0 \<le> memory_bytes mem"
  unfolding memory_bytes_def by (rule sum_list_nonneg) auto

lemma memory_fold_rest:
  assumes "0 \<le> s" and "s + memory_bytes mem < 2 ^ 62"
  shows "fold (\<lambda>(k, e) sum. if k = key then sum else i64 (sum + int (length k + length (MValue e)))) mem s
    = s + memory_bytes (filter (\<lambda>(k, e). k \<noteq> key) mem)"
  using assms
proof (induction mem arbitrary: s)
  case (Cons p mem)
  obtain k e where p: "p = (k, e)" by (cases p)
  have b: "memory_bytes (p # mem) = int (length k + length (MValue e)) + memory_bytes mem" by (simp add: memory_bytes_def p)
  show ?case
  proof (cases "k = key")
    case True
    with Cons.IH[of s] Cons.prems b p show ?thesis by simp
  next
    case False
    have r: "i64 (s + int (length k + length (MValue e))) = s + int (length k + length (MValue e))"
      using Cons.prems b memory_bytes_nonneg[of mem] by (intro i64_small) linarith+
    have "memory_bytes (filter (\<lambda>(k, e). k \<noteq> key) (p # mem)) =
        int (length k + length (MValue e)) + memory_bytes (filter (\<lambda>(k, e). k \<noteq> key) mem)"
      using False by (simp add: memory_bytes_def p)
    with Cons.IH[of "s + int (length k + length (MValue e))"] Cons.prems b p False r show ?thesis by simp
  qed
qed (simp add: memory_bytes_def)

lemma filter_absent: "map_of mem key = None \<Longrightarrow> filter (\<lambda>(k, e). k \<noteq> key) mem = mem"
  by (induction mem) (auto split: if_splits)

lemma memory_bytes_mput:
  "wf_map mem \<Longrightarrow> memory_bytes (mput key e mem) =
     memory_bytes (filter (\<lambda>(k, e). k \<noteq> key) mem) + int (length key + length (MValue e))"
proof (induction mem)
  case (Cons p mem)
  then show ?case
    by (cases p; cases "fst p = key") (auto simp: memory_bytes_def mput_def wf_map_Cons filter_absent)
qed (simp add: memory_bytes_def mput_def)

lemma memory_bytes_mdel: "memory_bytes (mdel k mem) \<le> memory_bytes mem"
  by (induction mem) (auto simp: memory_bytes_def mdel_def)

lemma memory_loop_bytes: "memory_bytes (snd (memory_loop now limit ks got m)) \<le> memory_bytes m"
proof (induction now limit ks got m rule: memory_loop.induct)
  case (2 now limit k ks got m)
  then show ?case
    using memory_bytes_mdel[of k m] by (auto simp: case_prod_beta Let_def split: option.split intro: order_trans)
qed simp

lemma wf_memory_loop: "wf_map m \<Longrightarrow> wf_map (snd (memory_loop now limit ks got m))"
proof (induction now limit ks got m rule: memory_loop.induct)
  case (2 now limit k ks got m)
  then show ?case by (auto simp: case_prod_beta Let_def split: option.split)
qed simp

definition memory_within :: "int \<Rightarrow> world \<Rightarrow> bool" where
  "memory_within n w \<longleftrightarrow> (\<forall>aid a. map_of (agents w) aid = Some a \<longrightarrow> wf_map (Memory a) \<and> memory_bytes (Memory a) \<le> n)"

lemma memory_within_iff:
  "memory_within n w \<longleftrightarrow> (\<forall>aid mem. map_option Memory (map_of (agents w) aid) = Some mem \<longrightarrow> wf_map mem \<and> memory_bytes mem \<le> n)"
  by (auto simp: memory_within_def)

lemma memory_event [simp]: "Memory (AddEvent e a) = Memory a"
  by (simp add: AddEvent_def Let_def)

lemma memory_reply [simp]: "memory_within n (reply aid t r ok c m w) = memory_within n w"
proof -
  have "map_option Memory (map_of (agents (reply aid t r ok c m w)) b) = map_option Memory (map_of (agents w) b)" for b
    by (simp add: reply_def emit_def map_of_upd_agent option.map_comp comp_def)
  then show ?thesis by (simp only: memory_within_iff)
qed

lemma memory_within_upd:
  assumes "memory_within n w"
    and "\<And>a. map_of (agents w) aid = Some a \<Longrightarrow> wf_map (Memory (f a)) \<and> memory_bytes (Memory (f a)) \<le> n"
  shows "memory_within n (upd_agent aid f w)"
  using assms by (auto simp: memory_within_def map_of_upd_agent split: if_splits)

lemma save_within:
  assumes "wf_map mem" and "memory_bytes mem \<le> 65536"
    and "\<not> OverMemoryBudget mem key (MValue e) (64 * 1024)"
  shows "memory_bytes (mput key e mem) \<le> 65536"
  using assms(3) memory_fold_rest[of 0 mem key] memory_bytes_mput[OF assms(1), of key e] assms(2)
  by (simp add: OverMemoryBudget_def)

lemma MemoryLoad_within:
  assumes "wf_map (Memory a)" and "memory_bytes (Memory a) \<le> n"
  shows "wf_map (Memory (snd (MemoryLoad pre limit now a))) \<and> memory_bytes (Memory (snd (MemoryLoad pre limit now a))) \<le> n"
  using order_trans[OF memory_loop_bytes assms(2)] wf_memory_loop[OF assms(1)]
  by (simp add: MemoryLoad_def Let_def split: prod.split) (metis snd_conv)

text \<open>
   No sequence of saves and loads lets the private memory of an agent grow past 64 KiB of keys and values,
  whatever is overwritten, expires or is refused.
\<close>

lemma memory_budget:
  assumes "memory_within 65536 w"
  shows "memory_within 65536 (HandleSaveMemory aid inst now w) \<and> memory_within 65536 (HandleLoadMemory aid inst now w)"
proof
  show "memory_within 65536 (HandleSaveMemory aid inst now w)"
  proof (cases "map_of (agents w) aid")
    case (Some a)
    with assms have a: "wf_map (Memory a)" "memory_bytes (Memory a) \<le> 65536" by (auto simp: memory_within_def)
    have "memory_within 65536 (upd_agent aid (MemorySave (InstKey inst) (InstValue inst) (InstTTLTicks inst) now) w)"
      if "\<not> OverMemoryBudget (Memory a) (InstKey inst) (InstValue inst) (64 * 1024)"
      by (rule memory_within_upd[OF assms])
         (use Some a that in \<open>auto simp: MemorySave_def Let_def intro!: save_within\<close>)
    then show ?thesis by (simp add: HandleSaveMemory_def Some assms)
  qed (simp add: HandleSaveMemory_def assms)
  show "memory_within 65536 (HandleLoadMemory aid inst now w)"
  proof (cases "map_of (agents w) aid")
    case (Some a)
    with assms have a: "wf_map (Memory a)" "memory_bytes (Memory a) \<le> 65536" by (auto simp: memory_within_def)
    obtain kvs a' where l: "MemoryLoad (InstPrefix inst) (InstLimit inst) now a = (kvs, a')" by fastforce
    then have "wf_map (Memory a') \<and> memory_bytes (Memory a') \<le> 65536"
      using a MemoryLoad_within[of a] by (metis snd_conv)
    then have "memory_within 65536 (upd_agent aid (\<lambda>_. a'\<lparr>PendingMemory := kvs\<rparr>) w)"
      by (intro memory_within_upd assms) simp
    then show ?thesis by (simp add: HandleLoadMemory_def Some l)
  qed (simp add: HandleLoadMemory_def assms)
qed

text \<open>An agent saves a note over an older one.\<close>

section \<open>A resume token works once\<close>

lemma find_resume_spec:
  assumes "map_of m [] = None" and "map_of m (FindResumeAgentID (map (\<lambda>(k, a). (k, ResumeToken a)) m) token) = Some a" and "wf_map m"
  shows "ResumeToken a = token"
proof -
  let ?c = "map (\<lambda>(k, a). (k, ResumeToken a)) m"
  from assms(1,2) have ne: "FindResumeAgentID ?c token \<noteq> []" by (metis option.distinct(1))
  show ?thesis
  proof (cases "find (\<lambda>(_, t). t = token) (sort_key fst ?c)")
    case None
    with ne show ?thesis by (simp add: FindResumeAgentID_def split: if_splits)
  next
    case (Some p)
    obtain aid t where p: "p = (aid, t)" by (cases p)
    from Some p ne have r: "FindResumeAgentID ?c token = aid" by (simp add: FindResumeAgentID_def split: if_splits)
    from Some obtain i where "i < length (sort_key fst ?c)" "sort_key fst ?c ! i = p" "(\<lambda>(_, t). t = token) p"
      unfolding find_Some_iff by auto
    then have "p \<in> set (sort_key fst ?c)" "t = token" unfolding p by (metis nth_mem, simp)
    then obtain b where "(aid, b) \<in> set m" "ResumeToken b = token" by (auto simp: p)
    with assms(2,3) r show ?thesis by (simp add: wf_map_def)
  qed
qed

lemma find_resume_none:
  assumes "\<And>k a. map_of m k = Some a \<Longrightarrow> ResumeToken a \<noteq> token" and "wf_map m"
  shows "FindResumeAgentID (map (\<lambda>(k, a). (k, ResumeToken a)) m) token = []"
proof -
  have "find (\<lambda>(_, t). t = token) (sort_key fst (map (\<lambda>(k, a). (k, ResumeToken a)) m)) = None"
    using assms by (auto simp: find_None_iff wf_map_def)
  then show ?thesis by (simp add: FindResumeAgentID_def)
qed

lemma token_event [simp]: "ResumeToken (AddEvent e a) = ResumeToken a"
  by (simp add: AddEvent_def Let_def)

lemma token_notify [simp]: "ResumeToken (enqueueActiveEventForAgent t w a) = ResumeToken a"
  by (simp add: enqueueActiveEventForAgent_def split: option.split)

text \<open>
  C37.  A resume token works once: attaching hands out a new token to exactly the agent that held the presented
  one, leaves every other agent as it was, and the presented token opens nothing afterwards - provided no two
  agents share a token and the new one is fresh.
\<close>

theorem attach_once:
  assumes "wf_map (agents w)" and "map_of (agents w) [] = None"
    and "\<forall>x y a b. map_of (agents w) x = Some a \<longrightarrow> map_of (agents w) y = Some b \<longrightarrow> ResumeToken a = ResumeToken b \<longrightarrow> x = y"
    and "handleAttach token now w = (Some (aid, new), w')"
    and "new \<noteq> trim_space (trim_space token)"
  shows "\<exists>a a'. map_of (agents w) aid = Some a \<and> ResumeToken a = trim_space (trim_space token) \<and>
      map_of (agents w') aid = Some a' \<and> ResumeToken a' = new \<and>
      (\<forall>b. b \<noteq> aid \<longrightarrow> map_of (agents w') b = map_of (agents w) b) \<and>
      (\<forall>now'. handleAttach token now' w' = (None, w'))"
proof -
  let ?t = "trim_space (trim_space token)"
  obtain a where a: "map_of (agents w) aid = Some a" and n: "new = NewResumeToken (WorldID (cfg w)) now"
    and f: "aid = FindResumeAgentID (map (\<lambda>(k, a). (k, ResumeToken a)) (agents w)) ?t"
    and w': "w' = upd_agent aid (enqueueActiveEventForAgent (worldTick w) w)
      (w\<lparr>agents := mput aid (a\<lparr>CurrentWorldID := WorldID (cfg w), ResumeToken := new\<rparr>) (agents w)\<rparr>)"
    using assms(4) by (auto simp: handleAttach_def AttachByToken_def Let_def split: if_splits option.splits)
  have t: "ResumeToken a = ?t" by (rule find_resume_spec) (use a f assms(1,2) in auto)
  have new: "map_of (agents w') b = (if b = aid
      then Some (enqueueActiveEventForAgent (worldTick w) w (a\<lparr>CurrentWorldID := WorldID (cfg w), ResumeToken := new\<rparr>))
      else map_of (agents w) b)" for b
    by (simp add: w' map_of_upd_agent map_of_mput)
  have wf: "wf_map (agents w')" unfolding w' by (rule wf_upd_agent) (simp add: assms(1))
  have "FindResumeAgentID (map (\<lambda>(k, a). (k, ResumeToken a)) (agents w')) ?t = []"
  proof (rule find_resume_none[OF _ wf])
    fix k b assume "map_of (agents w') k = Some b"
    then show "ResumeToken b \<noteq> ?t" using assms(3,5) a t by (auto simp: new split: if_splits)
  qed
  moreover have "map_of (agents w') [] = None" using assms(2) a by (auto simp: new)
  ultimately have "handleAttach token now' w' = (None, w')" for now'
    by (simp add: handleAttach_def AttachByToken_def Let_def)
  with a t show ?thesis by (auto simp: new)
qed

text \<open>Two agents; the second one comes back with its token.\<close>

definition resume_world :: world where
  "resume_world = empty_world\<lparr>agents := [(''A2'', sample_agent\<lparr>ResumeToken := ''two''\<rparr>), (''A1'', sample_agent\<lparr>ResumeToken := ''one''\<rparr>)],
     activeEventID := []\<rparr>"

theorem attach_once_witness:
  "handleAttach ''two'' 9 (snd (handleAttach ''two'' 5 resume_world)) = (None, snd (handleAttach ''two'' 5 resume_world))"
proof -
  have t: "trim_space ''two'' = ''two''" by (rule trim_space_plain) (auto simp: of_char_of take_bit_eq_mod)
  have f: "FindResumeAgentID [(''A2'', ''two''), (''A1'', ''one'')] ''two'' = ''A2''" by code_simp
  have c: "map (\<lambda>(k, a). (k, ResumeToken a)) (agents resume_world) = [(''A2'', ''two''), (''A1'', ''one'')]"
    and ne: "agents resume_world \<noteq> []" and a: "\<exists>a. map_of (agents resume_world) ''A2'' = Some a"
    by (simp_all add: resume_world_def)
  have "\<exists>w'. handleAttach ''two'' 5 resume_world = (Some (''A2'', NewResumeToken (WorldID (cfg resume_world)) 5), w')"
    using a by (elim exE) (simp add: handleAttach_def AttachByToken_def t Let_def ne c f del: upd_agent_fields)
  then obtain w' where h: "handleAttach ''two'' 5 resume_world = (Some (''A2'', NewResumeToken (WorldID (cfg resume_world)) 5), w')"
    by blast
  have m: "map_of (agents resume_world) x = (if x = ''A2'' then Some (sample_agent\<lparr>ResumeToken := ''two''\<rparr>)
      else if x = ''A1'' then Some (sample_agent\<lparr>ResumeToken := ''one''\<rparr>) else None)" for x
    by (simp add: resume_world_def)
  have wf: "wf_map (agents resume_world)" by (simp add: resume_world_def wf_map_def)
  have one: "\<forall>x y a b. map_of (agents resume_world) x = Some a \<longrightarrow> map_of (agents resume_world) y = Some b \<longrightarrow>
      ResumeToken a = ResumeToken b \<longrightarrow> x = y"
    by (simp add: m)
  have "NewResumeToken (WorldID (cfg resume_world)) 5 \<noteq> trim_space (trim_space ''two'')" by (simp add: t NewResumeToken_def)
  note r = attach_once[OF wf _ one h this]
  have "map_of (agents resume_world) [] = None" by (simp add: m)
  from r[OF this] have "\<forall>now'. handleAttach ''two'' now' w' = (None, w')" by (elim exE conjE)
  with h show ?thesis by simp
qed

end
