(* ===== verification/Transfer_Model.thy ===== *)
theory Transfer_Model
  imports Session_Model Org_Handlers
begin

text \<open>
  Moving agents and organization metadata between worlds (\<open>feature/transfer/*\<close>, \<open>runtime_api_transfer*.go\<close>).
  The Go structs \<open>Meta\<close>, \<open>Record\<close>, \<open>State\<close> and \<open>OrgTransfer\<close> have the same fields and are one record here.  Kinds and
  roles are the enumerations of the world model: the guards against an empty kind or role, which no world stores, have no
  counterpart.  The replies on channels are the results of the handlers.
\<close>

section \<open>Organization metadata\<close>

record org_meta =
  MetaOrgID :: string
  MetaKind :: org_kind
  MetaName :: string
  MetaCreatedTick :: u64
  MetaRev :: u64
  MetaMembers :: "org_role gomap"

definition NormalizeMembers :: "org_role gomap \<Rightarrow> org_role gomap" where
  "NormalizeMembers src = map (\<lambda>k. (k, the (map_of src k))) (filter (\<lambda>k. k \<noteq> []) (sorted_keys src))"

definition named_members :: "org_role gomap \<Rightarrow> org_role gomap" where
  "named_members src = filter (\<lambda>(k, _). k \<noteq> []) src"

definition SortedMeta :: "org_meta gomap \<Rightarrow> org_meta list" where
  "SortedMeta src =
     map (\<lambda>m. m\<lparr>MetaMembers := NormalizeMembers (MetaMembers m)\<rparr>)
       (filter (\<lambda>m. MetaOrgID m \<noteq> []) (map (\<lambda>k. the (map_of src k)) (sorted_keys src)))"

definition MergeMeta :: "org_meta \<Rightarrow> org_meta \<Rightarrow> org_meta \<times> bool" where
  "MergeMeta dst src =
     (if MetaRev src < MetaRev dst then (dst, False)
      else
        (let dst = dst\<lparr>MetaKind := MetaKind src\<rparr>;
             dst = (if MetaName src \<noteq> [] then dst\<lparr>MetaName := MetaName src\<rparr> else dst);
             dst = (if MetaCreatedTick dst = 0 \<or> (MetaCreatedTick src \<noteq> 0 \<and> MetaCreatedTick src < MetaCreatedTick dst)
                    then dst\<lparr>MetaCreatedTick := MetaCreatedTick src\<rparr> else dst);
             dst = (if MetaRev src > MetaRev dst then dst\<lparr>MetaRev := MetaRev src\<rparr> else dst)
         in (dst\<lparr>MetaMembers := NormalizeMembers (MetaMembers src)\<rparr>, True)))"

definition merge_into :: "org_meta \<Rightarrow> org_meta gomap \<Rightarrow> org_meta gomap" where
  "merge_into src out =
     (let dst = (case map_of out (MetaOrgID src) of Some d \<Rightarrow> d | None \<Rightarrow> src\<lparr>MetaMembers := []\<rparr>)
      in case MergeMeta dst src of (m, ok) \<Rightarrow> if ok then mput (MetaOrgID src) m out else out)"

definition MergeMetaMaps :: "org_meta gomap \<Rightarrow> org_meta gomap \<Rightarrow> org_meta gomap" where
  "MergeMetaMaps existing incoming =
     fold merge_into (SortedMeta incoming) (fold (\<lambda>m out. mput (MetaOrgID m) m out) (SortedMeta existing) [])"

definition own_member :: "string \<Rightarrow> string \<Rightarrow> string gomap \<Rightarrow> string gomap" where
  "own_member orgID aid owners =
     (if aid = [] then owners
      else case map_of owners aid of
             Some cur \<Rightarrow> if orgID < cur then mput aid orgID owners else owners
           | None \<Rightarrow> mput aid orgID owners)"

definition OwnerByAgent :: "org_meta gomap \<Rightarrow> string gomap" where
  "OwnerByAgent os =
     fold (\<lambda>orgID. fold (own_member orgID) (sorted_keys (MetaMembers (the (map_of os orgID))))) (sorted_keys os) []"

definition MetaMapFromRecords :: "org_meta list \<Rightarrow> org_meta gomap" where
  "MetaMapFromRecords recs =
     fold (\<lambda>r out. if MetaOrgID r = [] then out
                   else mput (MetaOrgID r) (r\<lparr>MetaMembers := NormalizeMembers (MetaMembers r)\<rparr>) out) recs []"

definition SortedRecordsFromMeta :: "org_meta gomap \<Rightarrow> org_meta list" where
  "SortedRecordsFromMeta src = map (\<lambda>m. m\<lparr>MetaMembers := NormalizeMembers (MetaMembers m)\<rparr>) (SortedMeta src)"

definition MergeRecords :: "org_meta list \<Rightarrow> org_meta list \<Rightarrow> org_meta list \<times> string gomap" where
  "MergeRecords existing incoming =
     (let merged = MergeMetaMaps (MetaMapFromRecords existing) (MetaMapFromRecords incoming)
      in (SortedRecordsFromMeta merged, OwnerByAgent merged))"

definition state_record :: "org_meta \<Rightarrow> org_meta" where
  "state_record s = s\<lparr>MetaMembers := named_members (MetaMembers s)\<rparr>"

definition NormalizeStates :: "org_meta list \<Rightarrow> org_meta list" where
  "NormalizeStates states =
     map state_record (SortedRecordsFromMeta (MetaMapFromRecords (map state_record states)))"

definition MergeStates :: "org_meta list \<Rightarrow> org_meta list \<Rightarrow> org_meta list \<times> string gomap" where
  "MergeStates existing incoming =
     (case MergeRecords (map state_record existing) (map state_record incoming) of
        (merged, owner) \<Rightarrow> (map state_record merged, owner))"

section \<open>Organization metadata of a world\<close>

definition meta_of :: "organization \<Rightarrow> org_meta" where
  "meta_of ob = \<lparr>MetaOrgID = OrgID ob, MetaKind = OKind ob, MetaName = OName ob, MetaCreatedTick = OCreatedTick ob,
     MetaRev = MetaVersion ob, MetaMembers = OMembers ob\<rparr>"

definition StatesFromOrganizations :: "organization gomap \<Rightarrow> org_meta list" where
  "StatesFromOrganizations os = map (\<lambda>(_, ob). meta_of ob) (filter (\<lambda>(k, _). k \<noteq> []) os)"

definition no_org :: "string \<Rightarrow> organization" where
  "no_org orgID = \<lparr>OrgID = orgID, OKind = OrgGuild, OName = orgID, OCreatedTick = 0, MetaVersion = 0, OMembers = [],
     Treasury = Legacy [], TreasuryByWorld = []\<rparr>"

definition apply_state :: "string \<Rightarrow> org_meta \<Rightarrow> organization gomap \<Rightarrow> organization gomap" where
  "apply_state worldID src os =
     (let dst = (case map_of os (MetaOrgID src) of Some d \<Rightarrow> d | None \<Rightarrow> no_org (MetaOrgID src))
      in mput (MetaOrgID src)
           (TreasuryFor worldID (dst\<lparr>OKind := MetaKind src, OName := MetaName src, OCreatedTick := MetaCreatedTick src,
              MetaVersion := MetaRev src, OMembers := MetaMembers src\<rparr>)) os)"

definition ApplyStates :: "string \<Rightarrow> org_meta list \<Rightarrow> organization gomap \<Rightarrow> organization gomap" where
  "ApplyStates worldID states os = fold (apply_state worldID) states os"

definition reconciled :: "organization gomap \<Rightarrow> string gomap \<Rightarrow> agent \<Rightarrow> agent" where
  "reconciled os owner a =
     (case map_of owner (AID a) of
        Some orgID \<Rightarrow> a\<lparr>AOrgID := orgID\<rparr>
      | None \<Rightarrow>
          if AOrgID a = [] then a
          else case map_of os (AOrgID a) of
                 None \<Rightarrow> a\<lparr>AOrgID := []\<rparr>
               | Some ob \<Rightarrow> if map_of (OMembers ob) (AID a) = None then a\<lparr>AOrgID := []\<rparr> else a)"

definition ReconcileAgentsOrg :: "agent gomap \<Rightarrow> organization gomap \<Rightarrow> string gomap \<Rightarrow> agent gomap" where
  "ReconcileAgentsOrg m os owner = map (\<lambda>(k, a). (k, reconciled os owner a)) m"

definition SnapshotOrgMeta :: "organization gomap \<Rightarrow> org_meta list" where
  "SnapshotOrgMeta os = NormalizeStates (StatesFromOrganizations os)"

definition ApplyOrgMetaUpsert :: "org_meta list \<Rightarrow> world \<Rightarrow> world" where
  "ApplyOrgMetaUpsert incoming w =
     (case MergeStates (StatesFromOrganizations (orgs w)) incoming of
        (merged, owner) \<Rightarrow>
          let os = ApplyStates (WorldID (cfg w)) merged (orgs w)
          in w\<lparr>orgs := os, agents := ReconcileAgentsOrg (agents w) os owner\<rparr>)"

text \<open>\<open>RequestOrgMetaSnapshot\<close> and \<open>RequestUpsertOrgMeta\<close> as the world answers them.\<close>

definition handleOrgMetaReq :: "world \<Rightarrow> org_meta list" where
  "handleOrgMetaReq w = SnapshotOrgMeta (orgs w)"

definition transfer_metas :: "org_meta list \<Rightarrow> org_meta list" where
  "transfer_metas states = map state_record (filter (\<lambda>s. MetaOrgID s \<noteq> []) states)"

definition handleOrgMetaUpsertReq :: "org_meta list \<Rightarrow> world \<Rightarrow> world" where
  "handleOrgMetaUpsertReq incoming w = (if incoming = [] then w else ApplyOrgMetaUpsert incoming w)"

section \<open>Moving an agent\<close>

record agent_transfer =
  XID :: string
  XName :: string
  XOrgID :: string
  XOrg :: "org_meta option"
  FromWorldID :: string
  XCurrentWorldID :: string
  FromEntryPointID :: string
  ToEntryPointID :: string
  XSwitchCooldownUntil :: u64
  XPos :: vec3
  XYaw :: int
  XHP :: int
  XHunger :: int
  XStaminaMilli :: int
  XRepTrade :: int
  XRepBuild :: int
  XRepSocial :: int
  XRepLaw :: int
  XFun :: fun_score
  XInventory :: items
  XMainHand :: string
  XArmor :: "string list"
  XMemory :: "memory_entry gomap"

definition CopyPositiveIntMap :: "items \<Rightarrow> items" where
  "CopyPositiveIntMap src = filter (\<lambda>(k, v). \<not> (k = [] \<or> v \<le> 0)) src"

definition CopyMap :: "('k \<Rightarrow> 'v \<Rightarrow> bool) \<Rightarrow> ('k \<times> 'v) list \<Rightarrow> ('k \<times> 'v) list" where
  "CopyMap keep src = filter (\<lambda>(k, v). keep k v) src"

definition arriving :: "agent_transfer \<Rightarrow> string \<Rightarrow> agent" where
  "arriving t worldID =
     zero_agent\<lparr>AID := XID t, AName := XName t, AOrgID := XOrgID t, CurrentWorldID := worldID,
                SwitchCooldownUntil := XSwitchCooldownUntil t, APos := XPos t, Yaw := XYaw t, HP := XHP t,
                Hunger := XHunger t, StaminaMilli := XStaminaMilli t, RepTrade := XRepTrade t, RepBuild := XRepBuild t,
                RepSocial := XRepSocial t, RepLaw := XRepLaw t, AFun := XFun t,
                AInventory := CopyPositiveIntMap (XInventory t), MainHand := XMainHand t, Armor := XArmor t,
                Memory := CopyMap (\<lambda>k _. k \<noteq> []) (XMemory t)\<rparr>"

definition BuildIncomingAgent :: "agent_transfer \<Rightarrow> string \<Rightarrow> agent" where
  "BuildIncomingAgent t worldID =
     (let a = arriving t worldID;
          a = (if vy (APos a) \<noteq> 0 then a\<lparr>APos := (APos a)\<lparr>vy := 0\<rparr>\<rparr> else a);
          a = (case XOrg t of
                 Some ob \<Rightarrow> if AOrgID a = [] \<and> MetaOrgID ob \<noteq> [] then a\<lparr>AOrgID := MetaOrgID ob\<rparr> else a
               | None \<Rightarrow> a)
      in InitDefaults (a\<lparr>MoveTask := None, WorkTask := None\<rparr>))"

definition BuildOutgoingAgent :: "agent \<Rightarrow> string \<Rightarrow> org_meta option \<Rightarrow> agent_transfer" where
  "BuildOutgoingAgent a worldID ob =
     \<lparr>XID = AID a, XName = AName a, XOrgID = AOrgID a, XOrg = ob, FromWorldID = worldID,
      XCurrentWorldID = CurrentWorldID a, FromEntryPointID = [], ToEntryPointID = [],
      XSwitchCooldownUntil = SwitchCooldownUntil a, XPos = APos a, XYaw = Yaw a, XHP = HP a, XHunger = Hunger a,
      XStaminaMilli = StaminaMilli a, XRepTrade = RepTrade a, XRepBuild = RepBuild a, XRepSocial = RepSocial a,
      XRepLaw = RepLaw a, XFun = AFun a, XInventory = CopyPositiveIntMap (AInventory a), XMainHand = MainHand a,
      XArmor = Armor a, XMemory = CopyMap (\<lambda>k _. k \<noteq> []) (Memory a)\<rparr>"

definition BuildOrgTransferFromOrganization :: "organization \<Rightarrow> org_meta" where
  "BuildOrgTransferFromOrganization ob = (meta_of ob)\<lparr>MetaMembers := NormalizeMembers (OMembers ob)\<rparr>"

definition absorb_meta :: "org_meta \<Rightarrow> organization \<Rightarrow> organization" where
  "absorb_meta m ob =
     (let ob = ob\<lparr>OKind := MetaKind m\<rparr>;
          ob = (if MetaName m \<noteq> [] then ob\<lparr>OName := MetaName m\<rparr> else ob);
          ob = (if OCreatedTick ob = 0 then ob\<lparr>OCreatedTick := MetaCreatedTick m\<rparr> else ob);
          ob = (if MetaRev m > MetaVersion ob then ob\<lparr>MetaVersion := MetaRev m\<rparr> else ob)
      in ob\<lparr>OMembers := fold (\<lambda>(k, r) ms. if k = [] then ms else mput k r ms) (MetaMembers m) (OMembers ob)\<rparr>)"

text \<open>The effective organization of an arriving agent, created when the world does not know it yet.\<close>

definition UpsertIncomingOrg :: "organization gomap \<Rightarrow> org_meta option \<Rightarrow> string \<Rightarrow> string \<Rightarrow> organization option" where
  "UpsertIncomingOrg os incoming fallbackOrgID agentID =
     (let orgID = (case incoming of Some m \<Rightarrow> if MetaOrgID m \<noteq> [] then MetaOrgID m else fallbackOrgID
                   | None \<Rightarrow> fallbackOrgID)
      in if orgID = [] then None
         else
           let ob = (case map_of os orgID of Some d \<Rightarrow> d | None \<Rightarrow> no_org orgID);
               ob = (case incoming of None \<Rightarrow> ob | Some m \<Rightarrow> absorb_meta m ob)
           in Some (if agentID \<noteq> [] \<and> map_of (OMembers ob) agentID = None
                    then ob\<lparr>OMembers := mput agentID OrgMember (OMembers ob)\<rparr> else ob))"

definition BuildWorldSwitchEvent :: "u64 \<Rightarrow> string \<Rightarrow> string \<Rightarrow> string \<Rightarrow> string \<Rightarrow> string \<Rightarrow> event option" where
  "BuildWorldSwitchEvent nowTick fromID toID agentID fromEntry toEntry =
     (if fromID = [] then None
      else Some ([(''t'', JU64 nowTick), (''type'', JStr ''WORLD_SWITCH''), (''from'', JStr fromID), (''to'', JStr toID),
                  (''agent_id'', JStr agentID), (''world_id'', JStr toID)] @
                 (if fromEntry \<noteq> [] then [(''from_entry_id'', JStr fromEntry)] else []) @
                 (if toEntry \<noteq> [] then [(''to_entry_id'', JStr toEntry)] else [])))"

text \<open>The organization part of an arrival: the organization is stored with a treasury for this world, and the counter of
  organization identifiers does not fall behind an identifier that came from elsewhere.\<close>

definition arrive_org :: "agent_transfer \<Rightarrow> agent \<Rightarrow> world \<Rightarrow> world" where
  "arrive_org t a w =
     (if AOrgID a = [] then w
      else case UpsertIncomingOrg (orgs w) (XOrg t) (AOrgID a) (AID a) of
             None \<Rightarrow> w
           | Some ob \<Rightarrow>
               let orgID = (case XOrg t of Some m \<Rightarrow> if MetaOrgID m \<noteq> [] then MetaOrgID m else AOrgID a | None \<Rightarrow> AOrgID a);
                   next = (if map_of (orgs w) orgID = None
                           then case ParseUintAfterPrefix ''ORG'' (OrgID ob) of
                                  Some n \<Rightarrow> if n > nextOrgNum w then n else nextOrgNum w
                                | None \<Rightarrow> nextOrgNum w
                           else nextOrgNum w)
               in w\<lparr>orgs := mput orgID (TreasuryFor (WorldID (cfg w)) ob) (orgs w), nextOrgNum := next\<rparr>)"

definition handleTransferIn :: "agent_transfer \<Rightarrow> world \<Rightarrow> string + world" where
  "handleTransferIn t w =
     (if XID t = [] then Inl ''missing agent id''
      else if map_of (agents w) (XID t) \<noteq> None then Inl ''agent already present''
      else
        let a = BuildIncomingAgent t (WorldID (cfg w));
            w = arrive_org t a w;
            a = (case BuildWorldSwitchEvent (worldTick w) (FromWorldID t) (WorldID (cfg w)) (AID a) (FromEntryPointID t) (ToEntryPointID t) of
                   Some e \<Rightarrow> AddEvent e a
                 | None \<Rightarrow> a)
        in Inr (w\<lparr>agents := mput (AID a) a (agents w)\<rparr>))"

definition handleTransferOut :: "string \<Rightarrow> world \<Rightarrow> string + agent_transfer \<times> world" where
  "handleTransferOut aid w =
     (case map_of (agents w) aid of
        None \<Rightarrow> Inl ''agent not found''
      | Some a \<Rightarrow>
          let orgTransfer = (if AOrgID a = [] then None
                             else map_option BuildOrgTransferFromOrganization (map_of (orgs w) (AOrgID a)));
              t = BuildOutgoingAgent a (WorldID (cfg w)) orgTransfer
          in Inr (t, w\<lparr>agents := mdel (AID a) (agents w),
                        trades := filter (\<lambda>(_, tr). \<not> (TFrom tr = AID a \<or> TTo tr = AID a)) (trades w)\<rparr>))"

definition HandleAgentPosReq :: "string \<Rightarrow> world \<Rightarrow> string + vec3" where
  "HandleAgentPosReq aid w =
     (case map_of (agents w) aid of None \<Rightarrow> Inl ''agent not found'' | Some a \<Rightarrow> Inr (APos a))"

text \<open>\<open>BuildResp\<close>: the next cursor never goes back.\<close>

definition BuildResp :: "bool \<Rightarrow> u64 \<Rightarrow> (u64 \<times> event) list \<Rightarrow> u64 \<Rightarrow> string + (u64 \<times> event) list \<times> u64" where
  "BuildResp agentFound sinceCursor its nextCursor =
     (if \<not> agentFound then Inl ''agent not found''
      else Inr (its, if nextCursor \<ge> sinceCursor then nextCursor else sinceCursor))"

definition handleEventsReq :: "string \<Rightarrow> u64 \<Rightarrow> int \<Rightarrow> world \<Rightarrow> string + (u64 \<times> event) list \<times> u64" where
  "handleEventsReq aid sinceCursor limit w =
     (case map_of (agents w) aid of
        None \<Rightarrow> BuildResp False sinceCursor [] sinceCursor
      | Some a \<Rightarrow> (case EventsAfter a sinceCursor limit of (its, next) \<Rightarrow> BuildResp True sinceCursor its next))"

section \<open>Merging, key by key\<close>

text \<open>A loop whose body touches one key only, over elements with distinct keys.\<close>

lemma fold_pointwise:
  assumes "distinct (map f xs)"
    and "\<And>x m k. x \<in> set xs \<Longrightarrow> k \<noteq> f x \<Longrightarrow> L (step x m) k = L m k"
    and "\<And>x m. x \<in> set xs \<Longrightarrow> L (step x m) (f x) = h x (L m (f x))"
  shows "L (fold step xs m) k = (case find (\<lambda>x. f x = k) xs of None \<Rightarrow> L m k | Some x \<Rightarrow> h x (L m k))"
  using assms
proof (induction xs arbitrary: m)
  case (Cons x xs)
  have IH: "L (fold step xs (step x m)) k =
      (case find (\<lambda>x. f x = k) xs of None \<Rightarrow> L (step x m) k | Some x' \<Rightarrow> h x' (L (step x m) k))"
    by (rule Cons.IH) (use Cons.prems in auto)
  show ?case
  proof (cases "f x = k")
    case True
    have "\<forall>y \<in> set xs. f y \<noteq> k" using True Cons.prems(1) by (auto simp: image_iff)
    then have "find (\<lambda>x. f x = k) xs = None" by (simp add: find_None_iff)
    then show ?thesis using IH True Cons.prems(3)[of x m] by simp
  next
    case False
    then show ?thesis using IH Cons.prems(2)[of x k m] by (simp split: option.split)
  qed
qed simp

lemma map_of_keyed: "map_of (map (\<lambda>k. (k, g k)) ks) k = (if k \<in> set ks then Some (g k) else None)"
  by (induction ks) auto

lemma map_of_NormalizeMembers: "map_of (NormalizeMembers m) k = (if k = [] then None else map_of m k)"
proof (cases "map_of m k")
  case None
  then have "k \<notin> set (sorted_keys m)" by (simp add: map_of_eq_None_iff)
  then show ?thesis using None by (simp add: NormalizeMembers_def map_of_keyed)
next
  case (Some r)
  then have "k \<in> set (sorted_keys m)" by (force dest: map_of_SomeD)
  then show ?thesis using Some by (simp add: NormalizeMembers_def map_of_keyed)
qed

text \<open>Normalized members are canonical: the order of the source map is gone.\<close>

lemma keys_NormalizeMembers: "fst ` set (NormalizeMembers m) = fst ` set m - {[]}"
proof -
  have "map fst (NormalizeMembers m) = filter (\<lambda>k. k \<noteq> []) (sorted_keys m)"
    by (simp add: NormalizeMembers_def comp_def)
  then have "set (map fst (NormalizeMembers m)) = set (filter (\<lambda>k. k \<noteq> []) (sorted_keys m))" by (rule arg_cong)
  then show ?thesis by auto
qed

lemma wf_NormalizeMembers: "wf_map m \<Longrightarrow> wf_map (NormalizeMembers m)"
  by (simp add: NormalizeMembers_def wf_map_def comp_def sorted_keys_def)

lemma NormalizeMembers_cong:
  assumes "wf_map m" and "wf_map m'" and "map_of m = map_of m'"
  shows "NormalizeMembers m = NormalizeMembers m'"
proof -
  have "fst ` set m = fst ` set m'" using assms(3) by (metis dom_map_of_conv_image_fst)
  then show ?thesis using sorted_keys_order_free[OF assms(1,2)] assms(3) by (simp add: NormalizeMembers_def)
qed

lemma sorted_keys_NormalizeMembers: "wf_map m \<Longrightarrow> sorted_keys (NormalizeMembers m) = filter (\<lambda>k. k \<noteq> []) (sorted_keys m)"
proof -
  have "map fst (NormalizeMembers m) = filter (\<lambda>k. k \<noteq> []) (sorted_keys m)"
    by (simp add: NormalizeMembers_def comp_def)
  then show ?thesis by (simp add: sorted_keys_def[of "NormalizeMembers m"] sorted_sort_id sorted_wrt_filter)
qed

lemma NormalizeMembers_idem:
  assumes "wf_map m"
  shows "NormalizeMembers (NormalizeMembers m) = NormalizeMembers m"
proof -
  have "NormalizeMembers (NormalizeMembers m) =
      map (\<lambda>k. (k, the (map_of (NormalizeMembers m) k))) (filter (\<lambda>k. k \<noteq> []) (filter (\<lambda>k. k \<noteq> []) (sorted_keys m)))"
    by (simp only: NormalizeMembers_def[of "NormalizeMembers m"] sorted_keys_NormalizeMembers[OF assms])
  also have "\<dots> = map (\<lambda>k. (k, the (map_of m k))) (filter (\<lambda>k. k \<noteq> []) (sorted_keys m))"
    by (simp add: map_of_NormalizeMembers)
  finally show ?thesis by (simp only: NormalizeMembers_def[of m])
qed

lemma named_members_normal: "named_members (NormalizeMembers m) = NormalizeMembers m"
  by (simp add: named_members_def NormalizeMembers_def filter_map comp_def)

definition normal_meta :: "org_meta \<Rightarrow> org_meta" where
  "normal_meta m = m\<lparr>MetaMembers := NormalizeMembers (MetaMembers m)\<rparr>"

lemma normal_meta_fields [simp]:
  "MetaOrgID (normal_meta m) = MetaOrgID m" "MetaKind (normal_meta m) = MetaKind m" "MetaName (normal_meta m) = MetaName m"
  "MetaCreatedTick (normal_meta m) = MetaCreatedTick m" "MetaRev (normal_meta m) = MetaRev m"
  "MetaMembers (normal_meta m) = NormalizeMembers (MetaMembers m)"
  by (simp_all add: normal_meta_def)

lemma normal_meta_idem: "wf_map (MetaMembers m) \<Longrightarrow> normal_meta (normal_meta m) = normal_meta m"
  by (simp add: normal_meta_def NormalizeMembers_idem)

lemma state_record_normal: "state_record (normal_meta m) = normal_meta m"
  by (simp add: state_record_def normal_meta_def named_members_normal)

text \<open>Maps of metadata keyed by their own identifiers.\<close>

definition keyed_metas :: "org_meta gomap \<Rightarrow> bool" where
  "keyed_metas ms \<longleftrightarrow> wf_map ms \<and> (\<forall>k m. map_of ms k = Some m \<longrightarrow> MetaOrgID m = k \<and> k \<noteq> [] \<and> wf_map (MetaMembers m))"

definition keyed_list :: "org_meta list \<Rightarrow> bool" where
  "keyed_list ms \<longleftrightarrow> distinct (map MetaOrgID ms) \<and> (\<forall>m \<in> set ms. wf_map (MetaMembers m))"

definition find_meta :: "org_meta list \<Rightarrow> string \<Rightarrow> org_meta option" where
  "find_meta ms k = find (\<lambda>m. MetaOrgID m = k) ms"

lemma key_iff: "k \<in> fst ` set m \<longleftrightarrow> map_of m k \<noteq> None"
  by (simp add: map_of_eq_None_iff)

lemma sorted_key_found: "k \<in> set (sorted_keys m) \<Longrightarrow> \<exists>v. map_of m k = Some v"
  using key_iff[of k m] by (simp del: map_of_eq_None_iff)

lemma find_keyed:
  assumes "\<And>j. j \<in> set ks \<Longrightarrow> f (g j) = j"
  shows "find (\<lambda>x. f x = k) (map g ks) = (if k \<in> set ks then Some (g k) else None)"
  using assms by (induction ks) auto

lemma find_meta_id: "find_meta ms k = Some m \<Longrightarrow> MetaOrgID m = k \<and> m \<in> set ms"
  by (auto simp: find_meta_def find_Some_iff)

lemma SortedMeta_keyed:
  assumes "keyed_metas ms"
  shows "SortedMeta ms = map (\<lambda>k. normal_meta (the (map_of ms k))) (sorted_keys ms)"
proof -
  have "MetaOrgID (the (map_of ms k)) \<noteq> []" if "k \<in> set (sorted_keys ms)" for k
  proof -
    from that obtain m where "map_of ms k = Some m" by (auto simp: key_iff simp del: map_of_eq_None_iff)
    with assms show ?thesis by (auto simp: keyed_metas_def)
  qed
  then have "filter (\<lambda>m. MetaOrgID m \<noteq> []) (map (\<lambda>k. the (map_of ms k)) (sorted_keys ms)) = map (\<lambda>k. the (map_of ms k)) (sorted_keys ms)"
    by (auto simp: filter_id_conv)
  then show ?thesis by (simp add: SortedMeta_def normal_meta_def)
qed

lemma id_of_keyed: "keyed_metas ms \<Longrightarrow> k \<in> set (sorted_keys ms) \<Longrightarrow> MetaOrgID (the (map_of ms k)) = k"
  by (auto simp: keyed_metas_def dest!: weak_map_of_SomeI)

lemma find_SortedMeta:
  assumes "keyed_metas ms"
  shows "find_meta (SortedMeta ms) k = map_option normal_meta (map_of ms k)"
proof -
  have "find_meta (SortedMeta ms) k = (if k \<in> set (sorted_keys ms) then Some (normal_meta (the (map_of ms k))) else None)"
    unfolding find_meta_def SortedMeta_keyed[OF assms] by (rule find_keyed) (simp add: id_of_keyed[OF assms])
  then show ?thesis by (cases "map_of ms k") (simp_all add: key_iff)
qed

lemma keyed_SortedMeta:
  assumes "keyed_metas ms"
  shows "keyed_list (SortedMeta ms)"
proof -
  have "map MetaOrgID (SortedMeta ms) = sorted_keys ms"
    unfolding SortedMeta_keyed[OF assms] using id_of_keyed[OF assms] by (auto simp: comp_def intro!: map_idI)
  moreover have "wf_map (MetaMembers m)" if "m \<in> set (SortedMeta ms)" for m
    using that assms unfolding SortedMeta_keyed[OF assms]
    by (auto simp: keyed_metas_def wf_NormalizeMembers dest!: weak_map_of_SomeI)
  ultimately show ?thesis using assms by (simp add: keyed_list_def keyed_metas_def)
qed

text \<open>Loading a list of records.\<close>

lemma MetaMapFromRecords_look:
  assumes "keyed_list recs"
  shows "map_of (MetaMapFromRecords recs) k = (if k = [] then None else map_option normal_meta (find_meta recs k))"
proof -
  have "map_of (MetaMapFromRecords recs) k =
    (case find (\<lambda>r. MetaOrgID r = k) recs of None \<Rightarrow> map_of [] k | Some r \<Rightarrow> if MetaOrgID r = [] then map_of [] k else Some (normal_meta r))"
    unfolding MetaMapFromRecords_def
    by (rule fold_pointwise[where L = map_of and h = "\<lambda>r v. if MetaOrgID r = [] then v else Some (normal_meta r)", THEN trans])
       (use assms in \<open>auto simp: keyed_list_def map_of_mput normal_meta_def split: option.split dest: find_meta_id\<close>)
  then show ?thesis by (auto simp: find_meta_def split: option.split dest!: find_meta_id[unfolded find_meta_def])
qed

lemma wf_fold: "(\<And>x m. wf_map m \<Longrightarrow> wf_map (step x m)) \<Longrightarrow> wf_map m \<Longrightarrow> wf_map (fold step xs m)"
  by (induction xs arbitrary: m) auto

lemma keyed_MetaMapFromRecords:
  assumes "keyed_list recs"
  shows "keyed_metas (MetaMapFromRecords recs)"
proof -
  have "wf_map (MetaMapFromRecords recs)" unfolding MetaMapFromRecords_def by (rule wf_fold) auto
  moreover have "MetaOrgID m = k \<and> k \<noteq> [] \<and> wf_map (MetaMembers m)" if "map_of (MetaMapFromRecords recs) k = Some m" for k m
    using that assms by (auto simp: MetaMapFromRecords_look[OF assms] keyed_list_def wf_NormalizeMembers split: if_splits dest!: find_meta_id)
  ultimately show ?thesis by (simp add: keyed_metas_def)
qed

text \<open>What merging makes of one organization: the newer revision wins, an equal one replaces the members.\<close>

definition merged_meta :: "org_meta option \<Rightarrow> org_meta option \<Rightarrow> org_meta option" where
  "merged_meta e i =
     (case i of
        None \<Rightarrow> e
      | Some src \<Rightarrow> (case e of None \<Rightarrow> Some src | Some dst \<Rightarrow> Some (fst (MergeMeta dst src))))"

lemma MergeMeta_fresh: "MergeMeta (src\<lparr>MetaMembers := []\<rparr>) src = (normal_meta src, True)"
  by (simp add: MergeMeta_def normal_meta_def Let_def)

lemma merge_into_look:
  assumes "NormalizeMembers (MetaMembers src) = MetaMembers src"
  shows "map_of (merge_into src out) k =
    (if k = MetaOrgID src then merged_meta (map_of out k) (Some src) else map_of out k)"
proof -
  have n: "normal_meta src = src" using assms by (simp add: normal_meta_def)
  show ?thesis
  proof (cases "map_of out (MetaOrgID src)")
    case None
    then show ?thesis by (simp add: merge_into_def merged_meta_def MergeMeta_fresh n map_of_mput)
  next
    case (Some d)
    then show ?thesis
      by (cases "MetaRev src < MetaRev d") (auto simp: merge_into_def merged_meta_def MergeMeta_def map_of_mput Let_def)
  qed
qed

lemma MergeMetaMaps_look:
  assumes "keyed_metas existing" and "keyed_metas incoming"
  shows "map_of (MergeMetaMaps existing incoming) k =
    merged_meta (map_option normal_meta (map_of existing k)) (map_option normal_meta (map_of incoming k))"
proof -
  let ?base = "fold (\<lambda>m out. mput (MetaOrgID m) m out) (SortedMeta existing) []"
  have d: "distinct (map MetaOrgID (SortedMeta existing))" "distinct (map MetaOrgID (SortedMeta incoming))"
    using keyed_SortedMeta[OF assms(1)] keyed_SortedMeta[OF assms(2)] by (simp_all add: keyed_list_def)
  have n: "NormalizeMembers (MetaMembers m) = MetaMembers m" if "m \<in> set (SortedMeta incoming)" for m
  proof -
    from that obtain k where k: "k \<in> set (sorted_keys incoming)" "m = normal_meta (the (map_of incoming k))"
      by (auto simp: SortedMeta_keyed[OF assms(2)])
    from k(1) obtain x where "map_of incoming k = Some x" using sorted_key_found by fast
    with k assms(2) show ?thesis by (simp add: keyed_metas_def NormalizeMembers_idem)
  qed
  have base: "map_of ?base k = map_option normal_meta (map_of existing k)"
    using fold_pointwise[OF d(1), where L = map_of and h = "\<lambda>m _. Some m" and m = "[]" and k = k]
    by (simp add: map_of_mput find_SortedMeta[OF assms(1), unfolded find_meta_def] split: option.split)
  have "map_of (MergeMetaMaps existing incoming) k =
    (case find_meta (SortedMeta incoming) k of None \<Rightarrow> map_of ?base k | Some src \<Rightarrow> merged_meta (map_of ?base k) (Some src))"
    unfolding MergeMetaMaps_def find_meta_def
    by (rule fold_pointwise[OF d(2)]) (simp_all add: merge_into_look[OF n])
  then show ?thesis unfolding base find_SortedMeta[OF assms(2)]
    by (auto simp: merged_meta_def split: option.split)
qed

lemma merged_meta_keyed:
  assumes "merged_meta e i = Some m" and "\<And>x. e = Some x \<Longrightarrow> MetaOrgID x = k \<and> k \<noteq> [] \<and> wf_map (MetaMembers x)"
    and "\<And>x. i = Some x \<Longrightarrow> MetaOrgID x = k \<and> k \<noteq> [] \<and> wf_map (MetaMembers x)"
  shows "MetaOrgID m = k \<and> k \<noteq> [] \<and> wf_map (MetaMembers m)"
  using assms by (auto simp: merged_meta_def MergeMeta_def Let_def wf_NormalizeMembers split: option.splits if_splits)

lemma keyed_MergeMetaMaps:
  assumes "keyed_metas existing" and "keyed_metas incoming"
  shows "keyed_metas (MergeMetaMaps existing incoming)"
proof -
  have "wf_map (MergeMetaMaps existing incoming)" unfolding MergeMetaMaps_def
    by (intro wf_fold) (auto simp: merge_into_def Let_def case_prod_beta split: option.split)
  moreover have "MetaOrgID m = k \<and> k \<noteq> [] \<and> wf_map (MetaMembers m)" if "map_of (MergeMetaMaps existing incoming) k = Some m" for k m
    using that unfolding MergeMetaMaps_look[OF assms]
    by (rule merged_meta_keyed) (use assms in \<open>auto simp: keyed_metas_def wf_NormalizeMembers\<close>)
  ultimately show ?thesis by (simp add: keyed_metas_def)
qed

text \<open>Storing merged metadata in the organizations of a world.\<close>

lemma apply_state_look:
  "map_of (apply_state wid src os) k =
    (if k = MetaOrgID src then Some (TreasuryFor wid ((case map_of os k of Some d \<Rightarrow> d | None \<Rightarrow> no_org k)
        \<lparr>OKind := MetaKind src, OName := MetaName src, OCreatedTick := MetaCreatedTick src, MetaVersion := MetaRev src,
         OMembers := MetaMembers src\<rparr>)) else map_of os k)"
  by (simp add: apply_state_def map_of_mput Let_def split: option.split)

lemma ApplyStates_look:
  assumes "keyed_list states"
  shows "map_of (ApplyStates wid states os) k =
    (case find_meta states k of None \<Rightarrow> map_of os k
     | Some src \<Rightarrow> Some (TreasuryFor wid ((case map_of os k of Some d \<Rightarrow> d | None \<Rightarrow> no_org k)
        \<lparr>OKind := MetaKind src, OName := MetaName src, OCreatedTick := MetaCreatedTick src, MetaVersion := MetaRev src,
         OMembers := MetaMembers src\<rparr>)))"
proof -
  have "map_of (ApplyStates wid states os) k =
    (case find (\<lambda>m. MetaOrgID m = k) states of None \<Rightarrow> map_of os k
     | Some src \<Rightarrow> Some (TreasuryFor wid ((case map_of os k of Some d \<Rightarrow> d | None \<Rightarrow> no_org (MetaOrgID src))
        \<lparr>OKind := MetaKind src, OName := MetaName src, OCreatedTick := MetaCreatedTick src, MetaVersion := MetaRev src,
         OMembers := MetaMembers src\<rparr>)))"
    unfolding ApplyStates_def
    by (rule fold_pointwise[where h = "\<lambda>src v. Some (TreasuryFor wid ((case v of Some d \<Rightarrow> d | None \<Rightarrow> no_org (MetaOrgID src))
        \<lparr>OKind := MetaKind src, OName := MetaName src, OCreatedTick := MetaCreatedTick src, MetaVersion := MetaRev src,
         OMembers := MetaMembers src\<rparr>))"]) (use assms in \<open>simp_all add: keyed_list_def apply_state_look\<close>)
  then show ?thesis unfolding find_meta_def[symmetric] by (cases "find_meta states k") (auto dest!: find_meta_id)
qed

text \<open>The owner of an agent is the least organization that lists it.\<close>

definition lists_agent :: "org_meta gomap \<Rightarrow> string \<Rightarrow> string \<Rightarrow> bool" where
  "lists_agent os aid orgID \<longleftrightarrow> (\<exists>m. map_of os orgID = Some m \<and> map_of (MetaMembers m) aid \<noteq> None)"

lemma own_member_look:
  "map_of (own_member orgID aid owners) b =
    (if b = aid \<and> aid \<noteq> [] then Some (case map_of owners aid of None \<Rightarrow> orgID | Some cur \<Rightarrow> min orgID cur) else map_of owners b)"
  by (auto simp: own_member_def map_of_mput min_def split: option.split)

lemma own_members_look:
  "map_of (fold (own_member orgID) aids owners) b =
    (if b \<in> set aids \<and> b \<noteq> [] then Some (case map_of owners b of None \<Rightarrow> orgID | Some cur \<Rightarrow> min orgID cur) else map_of owners b)"
proof (induction aids arbitrary: owners)
  case (Cons aid aids)
  show ?case unfolding fold_simps comp_def Cons.IH own_member_look by (auto split: option.split)
qed simp

lemma owners_look:
  assumes "sorted ids" and "\<And>x cur. x \<in> set ids \<Longrightarrow> map_of owners b = Some cur \<Longrightarrow> cur \<le> x" and "b \<noteq> []"
  shows "map_of (fold (\<lambda>orgID. fold (own_member orgID) (mem orgID)) ids owners) b =
    (case map_of owners b of Some cur \<Rightarrow> Some cur | None \<Rightarrow> find (\<lambda>orgID. b \<in> set (mem orgID)) ids)"
  using assms
proof (induction ids arbitrary: owners)
  case (Cons orgID ids)
  let ?o = "fold (own_member orgID) (mem orgID) owners"
  have o: "map_of ?o b = (if b \<in> set (mem orgID) then Some (case map_of owners b of None \<Rightarrow> orgID | Some cur \<Rightarrow> min orgID cur) else map_of owners b)"
    using Cons.prems(3) by (simp add: own_members_look)
  have le: "cur \<le> x" if "x \<in> set ids" "map_of ?o b = Some cur" for x cur
    using that Cons.prems(1) Cons.prems(2)[of x] unfolding o by (auto simp: min_def split: if_splits option.splits)
  have m: "min orgID cur = cur" if "map_of owners b = Some cur" for cur
    using Cons.prems(2)[of orgID cur] that by (simp add: min_def)
  have "map_of (fold (\<lambda>orgID. fold (own_member orgID) (mem orgID)) ids ?o) b =
      (case map_of ?o b of Some cur \<Rightarrow> Some cur | None \<Rightarrow> find (\<lambda>orgID. b \<in> set (mem orgID)) ids)"
    by (rule Cons.IH) (use Cons.prems le in auto)
  then show ?case unfolding fold_simps comp_def o using m by (auto split: option.split)
qed (simp split: option.split)

lemma find_sorted_least:
  "sorted ids \<Longrightarrow> find P ids = Some x \<longleftrightarrow> x \<in> set ids \<and> P x \<and> (\<forall>y \<in> set ids. P y \<longrightarrow> x \<le> y)"
proof (induction ids)
  case (Cons i ids)
  then show ?case by (cases "P i") force+
qed simp

theorem OwnerByAgent_least:
  assumes "keyed_metas os" and "aid \<noteq> []"
  shows "map_of (OwnerByAgent os) aid = Some orgID \<longleftrightarrow>
    lists_agent os aid orgID \<and> (\<forall>other. lists_agent os aid other \<longrightarrow> orgID \<le> other)"
proof -
  have l: "lists_agent os aid x \<longleftrightarrow> x \<in> set (sorted_keys os) \<and> aid \<in> set (sorted_keys (MetaMembers (the (map_of os x))))" for x
    by (cases "map_of os x") (auto simp: lists_agent_def key_iff simp del: map_of_eq_None_iff)
  have "map_of (OwnerByAgent os) aid = find (\<lambda>x. aid \<in> set (sorted_keys (MetaMembers (the (map_of os x))))) (sorted_keys os)"
    unfolding OwnerByAgent_def by (subst owners_look) (use assms in simp_all)
  then show ?thesis by (auto simp: find_sorted_least l)
qed

section \<open>Metadata arriving in a world\<close>

definition orgs_ok :: "world \<Rightarrow> bool" where
  "orgs_ok w \<longleftrightarrow> wf_map (orgs w) \<and> (\<forall>k ob. map_of (orgs w) k = Some ob \<longrightarrow> OrgID ob = k \<and> k \<noteq> [] \<and> wf_map (OMembers ob))"

definition org_view :: "world \<Rightarrow> string \<Rightarrow> org_meta option" where
  "org_view w k = map_option (\<lambda>ob. normal_meta (meta_of ob)) (map_of (orgs w) k)"

lemma meta_of_fields [simp]:
  "MetaOrgID (meta_of ob) = OrgID ob" "MetaMembers (meta_of ob) = OMembers ob" "MetaRev (meta_of ob) = MetaVersion ob"
  "MetaKind (meta_of ob) = OKind ob" "MetaName (meta_of ob) = OName ob" "MetaCreatedTick (meta_of ob) = OCreatedTick ob"
  by (simp_all add: meta_of_def)

lemma wf_named_members: "wf_map m \<Longrightarrow> wf_map (named_members m)"
  by (simp add: named_members_def wf_map_filter)

lemma NormalizeMembers_named: "wf_map m \<Longrightarrow> NormalizeMembers (named_members m) = NormalizeMembers m"
proof -
  assume wf: "wf_map m"
  have "sorted_keys (named_members m) = filter (\<lambda>k. k \<noteq> []) (sorted_keys m)"
  proof (rule sorted_distinct_set_unique)
    show "distinct (sorted_keys (named_members m))" using wf by (simp add: wf_named_members)
    show "set (sorted_keys (named_members m)) = set (filter (\<lambda>k. k \<noteq> []) (sorted_keys m))"
      by (force simp: named_members_def)
  qed (use wf in \<open>simp_all add: sorted_wrt_filter\<close>)
  moreover have "map_of (named_members m) k = map_of m k" if "k \<noteq> []" for k
    using that by (induction m) (auto simp: named_members_def)
  ultimately show ?thesis by (simp add: NormalizeMembers_def)
qed

lemma state_record_fields [simp]:
  "MetaOrgID (state_record m) = MetaOrgID m" "MetaMembers (state_record m) = named_members (MetaMembers m)"
  by (simp_all add: state_record_def)

lemma normal_state_record: "wf_map (MetaMembers m) \<Longrightarrow> normal_meta (state_record m) = normal_meta m"
  by (simp add: normal_meta_def state_record_def NormalizeMembers_named)

lemma keyed_state_records: "keyed_list ms \<Longrightarrow> keyed_list (map state_record ms)"
  by (auto simp: keyed_list_def comp_def wf_named_members)

lemma find_state_records: "find_meta (map state_record ms) k = map_option state_record (find_meta ms k)"
  unfolding find_meta_def by (induction ms) auto

lemma find_state_records_normal:
  "keyed_list ms \<Longrightarrow> map_option normal_meta (find_meta (map state_record ms) k) = map_option normal_meta (find_meta ms k)"
  by (cases "find_meta ms k") (auto simp: find_state_records keyed_list_def normal_state_record dest!: find_meta_id)

lemma StatesFromOrganizations_look:
  assumes "orgs_ok w"
  shows "keyed_list (StatesFromOrganizations (orgs w)) \<and>
    find_meta (StatesFromOrganizations (orgs w)) k = map_option meta_of (map_of (orgs w) k)"
proof -
  have ok: "wf_map os \<Longrightarrow> \<forall>k ob. map_of os k = Some ob \<longrightarrow> OrgID ob = k \<and> k \<noteq> [] \<and> wf_map (OMembers ob) \<Longrightarrow>
    keyed_list (StatesFromOrganizations os) \<and> find_meta (StatesFromOrganizations os) k = map_option meta_of (map_of os k) \<and>
    MetaOrgID ` set (StatesFromOrganizations os) = fst ` set os" for os
  proof (induction os)
    case (Cons p os)
    obtain j ob where p: "p = (j, ob)" by (cases p)
    have j: "OrgID ob = j" "j \<noteq> []" "wf_map (OMembers ob)" using Cons.prems(2)[rule_format, of j ob] by (simp_all add: p)
    from Cons.prems(1) p have wf: "map_of os j = None" "wf_map os" by (simp_all add: wf_map_Cons)
    have rest: "\<forall>k ob. map_of os k = Some ob \<longrightarrow> OrgID ob = k \<and> k \<noteq> [] \<and> wf_map (OMembers ob)"
      using Cons.prems(2) wf(1) p by (metis map_of_Cons_code(2) option.distinct(1))
    note IH = Cons.IH[OF wf(2) rest]
    have "OrgID ob \<notin> MetaOrgID ` set (StatesFromOrganizations os)" using IH wf(1) j(1) by (simp add: map_of_eq_None_iff)
    moreover have "StatesFromOrganizations (p # os) = meta_of ob # StatesFromOrganizations os"
      using j(2) by (simp add: StatesFromOrganizations_def p)
    moreover have "find_meta (meta_of ob # ms) k = (if OrgID ob = k then Some (meta_of ob) else find_meta ms k)" for ms
      by (simp add: find_meta_def)
    moreover have "keyed_list (meta_of ob # ms) \<longleftrightarrow> OrgID ob \<notin> MetaOrgID ` set ms \<and> wf_map (OMembers ob) \<and> keyed_list ms" for ms
      by (auto simp: keyed_list_def)
    ultimately show ?case using IH j by (simp add: p)
  qed (simp add: StatesFromOrganizations_def keyed_list_def find_meta_def)
  from assms show ?thesis using ok[of "orgs w"] by (simp add: orgs_ok_def)
qed

lemma find_SortedRecords:
  assumes "keyed_metas ms"
  shows "keyed_list (SortedRecordsFromMeta ms) \<and> find_meta (SortedRecordsFromMeta ms) k = map_option normal_meta (map_of ms k)"
proof -
  have n: "normal_meta (normal_meta (the (map_of ms j))) = normal_meta (the (map_of ms j))" if "j \<in> set (sorted_keys ms)" for j
    using assms sorted_key_found[OF that] by (auto simp: keyed_metas_def normal_meta_idem)
  have "SortedRecordsFromMeta ms = SortedMeta ms"
    unfolding SortedRecordsFromMeta_def normal_meta_def[symmetric] SortedMeta_keyed[OF assms] map_map comp_def
    using n by simp
  then show ?thesis using keyed_SortedMeta[OF assms] find_SortedMeta[OF assms] by simp
qed

definition merged_view :: "world \<Rightarrow> org_meta list \<Rightarrow> string \<Rightarrow> org_meta option" where
  "merged_view w incoming k = merged_meta (org_view w k) (if k = [] then None else map_option normal_meta (find_meta incoming k))"

lemma org_view_keyed: "orgs_ok w \<Longrightarrow> org_view w k = Some m \<Longrightarrow> MetaOrgID m = k \<and> k \<noteq> [] \<and> wf_map (MetaMembers m) \<and> normal_meta m = m"
  by (auto simp: org_view_def orgs_ok_def wf_NormalizeMembers normal_meta_idem)

lemma normal_iff: "normal_meta m = m \<longleftrightarrow> NormalizeMembers (MetaMembers m) = MetaMembers m"
proof
  assume "normal_meta m = m"
  from arg_cong[OF this, of MetaMembers] show "NormalizeMembers (MetaMembers m) = MetaMembers m" by simp
qed (simp add: normal_meta_def)

lemma MergeMeta_members:
  "MetaMembers (fst (MergeMeta d m)) = (if MetaRev m < MetaRev d then MetaMembers d else NormalizeMembers (MetaMembers m))"
  by (simp add: MergeMeta_def Let_def)

lemma merged_normal:
  assumes "merged_meta e i = Some m" and "\<And>x. e = Some x \<Longrightarrow> normal_meta x = x" and "\<And>x. i = Some x \<Longrightarrow> normal_meta x = x \<and> wf_map (MetaMembers x)"
  shows "normal_meta m = m"
proof (cases i)
  case None
  then show ?thesis using assms by (simp add: merged_meta_def)
next
  case (Some src)
  show ?thesis
  proof (cases e)
    case None
    then show ?thesis using assms Some by (simp add: merged_meta_def)
  next
    case (Some d)
    then have "m = fst (MergeMeta d src)" using assms(1) \<open>i = Some src\<close> by (simp add: merged_meta_def)
    moreover have "NormalizeMembers (MetaMembers d) = MetaMembers d" using assms(2)[OF Some] by (simp add: normal_iff)
    ultimately show ?thesis using assms(3)[OF \<open>i = Some src\<close>] by (simp add: normal_iff MergeMeta_members NormalizeMembers_idem)
  qed
qed

lemma incoming_keyed:
  assumes "keyed_list incoming" and "(if k = [] then None else map_option normal_meta (find_meta incoming k)) = Some x"
  shows "MetaOrgID x = k \<and> k \<noteq> [] \<and> wf_map (MetaMembers x) \<and> normal_meta x = x"
  using assms by (auto simp: keyed_list_def normal_meta_idem wf_NormalizeMembers split: if_splits dest!: find_meta_id)

lemma records_look:
  assumes "keyed_list ms"
  shows "map_option normal_meta (map_of (MetaMapFromRecords ms) j) = (if j = [] then None else map_option normal_meta (find_meta ms j))"
proof (cases "find_meta ms j")
  case None
  then show ?thesis by (simp add: MetaMapFromRecords_look[OF assms])
next
  case (Some x)
  then have "wf_map (MetaMembers x)" using assms by (auto simp: keyed_list_def dest: find_meta_id)
  then show ?thesis using Some by (simp add: MetaMapFromRecords_look[OF assms] normal_meta_idem)
qed

lemma MergeStates_look:
  assumes "orgs_ok w" and "keyed_list incoming" and "MergeStates (StatesFromOrganizations (orgs w)) incoming = (states, owner)"
  shows "keyed_list states" and "find_meta states k = merged_view w incoming k"
    and "aid \<noteq> [] \<Longrightarrow> map_of owner aid = Some orgID \<longleftrightarrow>
      (let lists = (\<lambda>k. \<exists>m. merged_view w incoming k = Some m \<and> map_of (MetaMembers m) aid \<noteq> None)
       in lists orgID \<and> (\<forall>other. lists other \<longrightarrow> orgID \<le> other))"
    and "merged_view w incoming k = Some m \<Longrightarrow> MetaOrgID m = k \<and> k \<noteq> [] \<and> wf_map (MetaMembers m) \<and> normal_meta m = m"
proof -
  let ?E = "map state_record (StatesFromOrganizations (orgs w))" and ?I = "map state_record incoming"
  define M where "M = MergeMetaMaps (MetaMapFromRecords ?E) (MetaMapFromRecords ?I)"
  note S = StatesFromOrganizations_look[OF assms(1)]
  have kE: "keyed_list ?E" and kI: "keyed_list ?I" using S assms(2) by (simp_all add: keyed_state_records)
  note keyed = keyed_MetaMapFromRecords[OF kE] keyed_MetaMapFromRecords[OF kI]
  have none: "org_view w [] = None" using org_view_keyed[OF assms(1), of "[]"] by (cases "org_view w []") auto
  have e: "map_option normal_meta (map_of (MetaMapFromRecords ?E) j) = org_view w j" for j
  proof -
    have "map_option normal_meta (find_meta ?E j) = org_view w j"
      using find_state_records_normal[OF conjunct1[OF S[of j]], of j] S[of j] by (simp add: org_view_def option.map_comp comp_def)
    then show ?thesis using none by (cases "j = []") (simp_all only: records_look[OF kE] if_True if_False simp_thms)
  qed
  have i: "map_option normal_meta (map_of (MetaMapFromRecords ?I) j) = (if j = [] then None else map_option normal_meta (find_meta incoming j))" for j
    by (simp only: records_look[OF kI] find_state_records_normal[OF assms(2)])
  have M: "map_of M j = merged_view w incoming j" for j
    unfolding M_def MergeMetaMaps_look[OF keyed] e i merged_view_def ..
  show n: "merged_view w incoming k = Some m \<Longrightarrow> MetaOrgID m = k \<and> k \<noteq> [] \<and> wf_map (MetaMembers m) \<and> normal_meta m = m" for k m
  proof -
    assume m: "merged_view w incoming k = Some m"
    have "MetaOrgID m = k \<and> k \<noteq> [] \<and> wf_map (MetaMembers m)"
      by (rule merged_meta_keyed[OF m[unfolded merged_view_def]])
         (use org_view_keyed[OF assms(1), of k] incoming_keyed[OF assms(2), of k] in blast)+
    moreover have "normal_meta m = m"
      by (rule merged_normal[OF m[unfolded merged_view_def]])
         (use org_view_keyed[OF assms(1), of k] incoming_keyed[OF assms(2), of k] in blast)+
    ultimately show ?thesis by blast
  qed
  have kM: "keyed_metas M" unfolding M_def by (rule keyed_MergeMetaMaps[OF keyed])
  have st: "states = map state_record (SortedRecordsFromMeta M)" and ow: "owner = OwnerByAgent M"
    using assms(3) by (simp_all add: MergeStates_def MergeRecords_def M_def Let_def)
  show "keyed_list states" using find_SortedRecords[OF kM] by (simp add: st keyed_state_records)
  show "find_meta states k = merged_view w incoming k"
    using find_SortedRecords[OF kM, of k] n[of k] unfolding st find_state_records M
    by (cases "merged_view w incoming k") (auto, metis state_record_normal)
  show "map_of owner aid = Some orgID \<longleftrightarrow>
      (let lists = (\<lambda>k. \<exists>m. merged_view w incoming k = Some m \<and> map_of (MetaMembers m) aid \<noteq> None)
       in lists orgID \<and> (\<forall>other. lists other \<longrightarrow> orgID \<le> other))" if "aid \<noteq> []"
    unfolding ow OwnerByAgent_least[OF kM that] lists_agent_def M Let_def ..
qed

text \<open>The agent after reconciliation, given the organizations that list it.\<close>

definition listed_in :: "world \<Rightarrow> string \<Rightarrow> string \<Rightarrow> bool" where
  "listed_in w aid orgID \<longleftrightarrow> (\<exists>ob. map_of (orgs w) orgID = Some ob \<and> map_of (OMembers ob) aid \<noteq> None)"

text \<open>The organizations of the world afterwards.\<close>

lemma upsert_orgs:
  assumes "orgs_ok w" and "keyed_list incoming" and "w' = ApplyOrgMetaUpsert incoming w"
  shows "map_of (orgs w') k = map_option (\<lambda>src. TreasuryFor (WorldID (cfg w)) ((case map_of (orgs w) k of Some d \<Rightarrow> d | None \<Rightarrow> no_org k)
      \<lparr>OKind := MetaKind src, OName := MetaName src, OCreatedTick := MetaCreatedTick src, MetaVersion := MetaRev src,
       OMembers := MetaMembers src\<rparr>)) (merged_view w incoming k)"
    and "orgs_ok w'" and "org_view w' k = merged_view w incoming k"
proof -
  obtain states owner where ms: "MergeStates (StatesFromOrganizations (orgs w)) incoming = (states, owner)" by fastforce
  note L = MergeStates_look[OF assms(1,2) ms]
  have w': "orgs w' = ApplyStates (WorldID (cfg w)) states (orgs w)"
    by (simp add: assms(3) ApplyOrgMetaUpsert_def ms Let_def)
  have none: "map_of (orgs w) k = None" if "merged_view w incoming k = None" for k
    using that by (auto simp: merged_view_def merged_meta_def org_view_def split: option.splits)
  show os: "map_of (orgs w') k = map_option (\<lambda>src. TreasuryFor (WorldID (cfg w)) ((case map_of (orgs w) k of Some d \<Rightarrow> d | None \<Rightarrow> no_org k)
      \<lparr>OKind := MetaKind src, OName := MetaName src, OCreatedTick := MetaCreatedTick src, MetaVersion := MetaRev src,
       OMembers := MetaMembers src\<rparr>)) (merged_view w incoming k)" for k
    unfolding w' ApplyStates_look[OF L(1)] L(2) using none[of k] by (auto split: option.split)
  have id: "OrgID (case map_of (orgs w) k of Some d \<Rightarrow> d | None \<Rightarrow> no_org k) = k" for k
    using assms(1) by (auto simp: orgs_ok_def no_org_def split: option.split)
  have wf: "wf_map (orgs w')" unfolding w' ApplyStates_def
    by (rule wf_fold) (use assms(1) in \<open>auto simp: apply_state_def orgs_ok_def\<close>)
  show "orgs_ok w'"
    unfolding orgs_ok_def using wf L(4) id by (auto simp: os)
  have meta: "meta_of (TreasuryFor wid (d\<lparr>OKind := MetaKind m, OName := MetaName m, OCreatedTick := MetaCreatedTick m,
      MetaVersion := MetaRev m, OMembers := MetaMembers m\<rparr>)) = m" if "OrgID d = MetaOrgID m" for wid d m
    using that by (simp add: meta_of_def TreasuryFor_def Let_def)
  show "org_view w' k = merged_view w incoming k"
  proof (cases "merged_view w incoming k")
    case (Some m)
    have "org_view w' k = Some (normal_meta m)"
      using meta[of "case map_of (orgs w) k of Some d \<Rightarrow> d | None \<Rightarrow> no_org k" m] id[of k] L(4)[OF Some]
      by (simp add: org_view_def os Some)
    then show ?thesis using L(4)[OF Some] Some by simp
  qed (simp add: org_view_def os)
qed

text \<open>
  C13.  Metadata of organizations that arrives in a world is merged organization by organization: a newer revision
  replaces what the world had, an older one changes nothing, an unknown organization is added.  Treasuries and
  inventories stay as they were, and afterwards every agent belongs to an organization that lists it as a
  member, and does belong to one when any does.
\<close>

theorem org_meta_upsert:
  assumes "orgs_ok w" and "keyed_list incoming" and "wf_map (agents w)"
  shows "orgs_ok (ApplyOrgMetaUpsert incoming w) \<and>
    (\<forall>k. org_view (ApplyOrgMetaUpsert incoming w) k = merged_view w incoming k) \<and>
    (\<forall>k. valid_inv k w \<longrightarrow> get_inv k (ApplyOrgMetaUpsert incoming w) = get_inv k w) \<and>
    (\<forall>aid a'. map_of (agents (ApplyOrgMetaUpsert incoming w)) aid = Some a' \<longrightarrow> AID a' \<noteq> [] \<longrightarrow>
      (\<exists>a. map_of (agents w) aid = Some a \<and> a' = a\<lparr>AOrgID := AOrgID a'\<rparr>) \<and>
      (AOrgID a' \<noteq> [] \<longrightarrow> listed_in (ApplyOrgMetaUpsert incoming w) (AID a') (AOrgID a')) \<and>
      (\<forall>orgID. listed_in (ApplyOrgMetaUpsert incoming w) (AID a') orgID \<longrightarrow> AOrgID a' \<noteq> [] \<and> AOrgID a' \<le> orgID))"
proof -
  obtain states owner where ms: "MergeStates (StatesFromOrganizations (orgs w)) incoming = (states, owner)" by fastforce
  note L = MergeStates_look[OF assms(1,2) ms]
  define w' where "w' = ApplyOrgMetaUpsert incoming w"
  note os = upsert_orgs(1)[OF assms(1,2) w'_def] and ok = upsert_orgs(2)[OF assms(1,2) w'_def]
    and view = upsert_orgs(3)[OF assms(1,2) w'_def]
  have w': "cfg w' = cfg w" "agents w' = map (\<lambda>(k, a). (k, reconciled (orgs w') owner a)) (agents w)"
    by (simp_all add: w'_def ApplyOrgMetaUpsert_def ms Let_def ReconcileAgentsOrg_def)
  have ag: "map_of (agents w') aid = map_option (reconciled (orgs w') owner) (map_of (agents w) aid)" for aid
    unfolding w'(2) by (induction "agents w") (auto simp: map_of_map)
  have same: "reconciled o' owner a = a\<lparr>AOrgID := AOrgID (reconciled o' owner a)\<rparr>" for o' a
    by (simp add: reconciled_def split: option.split)
  have inv: "get_inv r w' = get_inv r w" if v: "valid_inv r w" for r
  proof (cases r)
    case (AgentInv aid)
    have "AInventory (reconciled (orgs w') owner a) = AInventory a" for a by (subst same) simp
    then show ?thesis using AgentInv by (simp add: ag split: option.split)
  next
    case (TreasuryInv oid)
    then obtain d where d: "map_of (orgs w) oid = Some d" using v by auto
    then obtain m where m: "merged_view w incoming oid = Some m"
      unfolding merged_view_def merged_meta_def org_view_def
      by (cases "if oid = [] then None else map_option normal_meta (find_meta incoming oid)") simp_all
    show ?thesis unfolding TreasuryInv
      by (simp add: os d m w'(1) TreasuryFor_idem)
         (simp add: treasury_of_def TreasuryFor_def legacy_items_def Let_def split: option.split treasury.split)
  qed
  have lists: "listed_in w' aid k \<longleftrightarrow> (\<exists>m. merged_view w incoming k = Some m \<and> map_of (MetaMembers m) aid \<noteq> None)" for aid k
    by (auto simp: listed_in_def os)
  have own: "map_of owner aid = Some orgID \<longleftrightarrow> listed_in w' aid orgID \<and> (\<forall>other. listed_in w' aid other \<longrightarrow> orgID \<le> other)"
    if "aid \<noteq> []" for aid orgID
    using L(3)[OF that] unfolding lists Let_def .
  have some: "map_of owner aid \<noteq> None" if "aid \<noteq> []" "listed_in w' aid x" for aid x
  proof -
    have "finite {o'. listed_in w' aid o'}"
      by (rule finite_subset[of _ "fst ` set (orgs w')"]) (auto simp: listed_in_def key_iff simp del: map_of_eq_None_iff)
    then have "Min {o'. listed_in w' aid o'} \<in> {o'. listed_in w' aid o'}" "\<forall>y. listed_in w' aid y \<longrightarrow> Min {o'. listed_in w' aid o'} \<le> y"
      using that(2) Min_in[of "{o'. listed_in w' aid o'}"] Min_le[of "{o'. listed_in w' aid o'}"] by (blast, simp)
    then show ?thesis using own[OF that(1)] by (metis mem_Collect_eq option.distinct(1))
  qed
  have agents: "(\<exists>a. map_of (agents w) aid = Some a \<and> a' = a\<lparr>AOrgID := AOrgID a'\<rparr>) \<and>
      (AOrgID a' \<noteq> [] \<longrightarrow> listed_in w' (AID a') (AOrgID a')) \<and>
      (\<forall>orgID. listed_in w' (AID a') orgID \<longrightarrow> AOrgID a' \<noteq> [] \<and> AOrgID a' \<le> orgID)"
    if a': "map_of (agents w') aid = Some a'" "AID a' \<noteq> []" for aid a'
  proof -
    obtain a where a: "map_of (agents w) aid = Some a" "a' = reconciled (orgs w') owner a" using a'(1) ag by auto
    have i: "AID a' = AID a" unfolding a(2) by (subst same) simp
    show ?thesis
    proof (cases "map_of owner (AID a)")
      case None
      then have "\<not> listed_in w' (AID a) x" for x using some[of "AID a"] a'(2) i by auto
      moreover have "AOrgID a' \<noteq> [] \<longrightarrow> listed_in w' (AID a) (AOrgID a')"
        using None by (auto simp: a(2) reconciled_def listed_in_def split: option.splits)
      ultimately show ?thesis using a same i by metis
    next
      case (Some x)
      then have "AOrgID a' = x" by (simp add: a(2) reconciled_def)
      moreover have "x \<noteq> []" using own[of "AID a" x] Some a'(2) i ok by (auto simp: listed_in_def orgs_ok_def)
      ultimately show ?thesis using own[of "AID a" x] Some a same i a'(2) by metis
    qed
  qed
  show ?thesis using ok view inv agents unfolding w'_def by blast
qed

section \<open>An agent on the move\<close>

lemma stock_insert:
  assumes "world_refs w' = insert r (world_refs w)" and "\<And>s. valid_inv s w \<Longrightarrow> s \<noteq> r \<Longrightarrow> get_inv s w' = get_inv s w"
    and "valid_inv r w \<Longrightarrow> get_inv r w = []"
  shows "stock w' k = stock w k + cnt (get_inv r w') k"
proof -
  have "sum (holdings w' k) (world_refs w - {r}) = sum (holdings w k) (world_refs w - {r})"
    by (rule sum.cong) (auto simp: holdings_def world_refs_def assms(2))
  moreover have "stock w' k = holdings w' k r + sum (holdings w' k) (world_refs w - {r})"
    unfolding stock_def assms(1) by (rule sum.insert_remove) simp
  moreover have "stock w k = sum (holdings w k) (world_refs w - {r})"
  proof (cases "r \<in> world_refs w")
    case True
    then have "holdings w k r = 0" using assms(3) by (simp add: holdings_def world_refs_def)
    then show ?thesis unfolding stock_def using sum.remove[OF finite_world_refs True, of "holdings w k"] by simp
  qed (simp add: stock_def)
  ultimately show ?thesis by (simp add: holdings_def)
qed

lemma cnt_positive: "wf_map m \<Longrightarrow> cnt (CopyPositiveIntMap m) k = (if k = [] then 0 else max 0 (cnt m k))"
proof (induction m)
  case (Cons p m)
  obtain j n where p: "p = (j, n)" by (cases p)
  from Cons.prems p have "map_of m j = None" "wf_map m" by (simp_all add: wf_map_Cons)
  then have "cnt m j = 0" by (simp add: cnt_def)
  then show ?case using Cons.IH[OF \<open>wf_map m\<close>] p by (auto simp: CopyPositiveIntMap_def)
qed (simp add: CopyPositiveIntMap_def)

lemma CopyPositive_idem: "CopyPositiveIntMap (CopyPositiveIntMap m) = CopyPositiveIntMap m"
  by (simp add: CopyPositiveIntMap_def)

text \<open>What leaves a world with an agent.\<close>

lemma transfer_out_spec:
  assumes "handleTransferOut aid w = Inr (t, w')" and "map_of (agents w) aid = Some a" and "AID a = aid" and "wf_map (AInventory a)"
  shows "t = BuildOutgoingAgent a (WorldID (cfg w)) (XOrg t) \<and> agents w' = mdel aid (agents w) \<and> orgs w' = orgs w \<and> cfg w' = cfg w \<and>
    stock w k = stock w' k + cnt (AInventory a) k"
proof -
  have w': "w' = w\<lparr>agents := mdel aid (agents w), trades := filter (\<lambda>(_, tr). \<not> (TFrom tr = aid \<or> TTo tr = aid)) (trades w)\<rparr>"
    and t: "t = BuildOutgoingAgent a (WorldID (cfg w)) (XOrg t)"
    using assms by (auto simp: handleTransferOut_def BuildOutgoingAgent_def Let_def)
  have v: "valid_inv s w \<longleftrightarrow> s = AgentInv aid \<or> valid_inv s w'" for s
    by (cases s) (auto simp: w' assms(2) map_of_mdel)
  have "world_refs w = insert (AgentInv aid) (world_refs w')" by (auto simp: world_refs_def v)
  moreover have "get_inv s w = get_inv s w'" if "valid_inv s w'" "s \<noteq> AgentInv aid" for s
    using that by (cases s) (auto simp: w' map_of_mdel)
  moreover have "\<not> valid_inv (AgentInv aid) w'" by (simp add: w' map_of_mdel)
  ultimately have "stock w k = stock w' k + cnt (get_inv (AgentInv aid) w) k" by (intro stock_insert) auto
  then show ?thesis using t by (simp add: w' assms(2))
qed

text \<open>The organization of an arriving agent: its members change, what it owns does not.\<close>

lemma UpsertIncomingOrg_treasury:
  fixes m fallback
  defines "oid \<equiv> (case m of Some x \<Rightarrow> if MetaOrgID x \<noteq> [] then MetaOrgID x else fallback | None \<Rightarrow> fallback)"
  assumes "UpsertIncomingOrg os m fallback aid = Some ob"
  shows "Treasury ob = (case map_of os oid of Some d \<Rightarrow> Treasury d | None \<Rightarrow> Legacy [])"
    and "TreasuryByWorld ob = (case map_of os oid of Some d \<Rightarrow> TreasuryByWorld d | None \<Rightarrow> [])"
    and "aid \<noteq> [] \<Longrightarrow> map_of (OMembers ob) aid \<noteq> None"
proof -
  define d where "d = (case map_of os oid of Some d \<Rightarrow> d | None \<Rightarrow> no_org oid)"
  define e where "e = (case m of None \<Rightarrow> d | Some x \<Rightarrow> absorb_meta x d)"
  have e: "Treasury e = Treasury d" "TreasuryByWorld e = TreasuryByWorld d"
    by (simp_all add: e_def absorb_meta_def Let_def split: option.split)
  have ob: "ob = (if aid \<noteq> [] \<and> map_of (OMembers e) aid = None then e\<lparr>OMembers := mput aid OrgMember (OMembers e)\<rparr> else e)"
    using assms(2) by (simp add: UpsertIncomingOrg_def oid_def[symmetric] d_def[symmetric] e_def[symmetric] split: if_splits) auto
  have "Treasury ob = Treasury d" "TreasuryByWorld ob = TreasuryByWorld d" by (simp_all add: e ob)
  then show "Treasury ob = (case map_of os oid of Some d \<Rightarrow> Treasury d | None \<Rightarrow> Legacy [])"
    "TreasuryByWorld ob = (case map_of os oid of Some d \<Rightarrow> TreasuryByWorld d | None \<Rightarrow> [])"
    by (simp_all add: d_def no_org_def split: option.split)
  show "aid \<noteq> [] \<Longrightarrow> map_of (OMembers ob) aid \<noteq> None" by (simp add: ob map_of_mput)
qed

lemma treasury_items:
  assumes "Treasury ob = Treasury d" and "TreasuryByWorld ob = TreasuryByWorld d"
  shows "treasury_of wid (TreasuryFor wid (TreasuryFor wid ob)) = treasury_of wid (TreasuryFor wid d)"
  using assms by (simp add: TreasuryFor_idem)
    (simp add: treasury_of_def TreasuryFor_def legacy_items_def Let_def split: option.split treasury.split)

lemma empty_treasury:
  "Treasury ob = Legacy [] \<Longrightarrow> TreasuryByWorld ob = [] \<Longrightarrow> treasury_of wid (TreasuryFor wid (TreasuryFor wid ob)) = []"
  by (simp add: TreasuryFor_idem) (simp add: treasury_of_def TreasuryFor_def legacy_items_def seed_items_def map_of_mput Let_def)

lemma arrive_org_spec:
  "agents (arrive_org t a w) = agents w \<and> cfg (arrive_org t a w) = cfg w \<and>
   (\<forall>s. valid_inv s w \<longrightarrow> valid_inv s (arrive_org t a w) \<and> get_inv s (arrive_org t a w) = get_inv s w) \<and>
   (\<forall>s. valid_inv s (arrive_org t a w) \<longrightarrow> \<not> valid_inv s w \<longrightarrow> get_inv s (arrive_org t a w) = []) \<and>
   stock (arrive_org t a w) k = stock w k"
proof -
  let ?id = "case XOrg t of Some x \<Rightarrow> if MetaOrgID x \<noteq> [] then MetaOrgID x else AOrgID a | None \<Rightarrow> AOrgID a"
  let ?w = "arrive_org t a w"
  show ?thesis
  proof (cases "AOrgID a = [] \<or> UpsertIncomingOrg (orgs w) (XOrg t) (AOrgID a) (AID a) = None")
    case True
    then show ?thesis by (auto simp: arrive_org_def)
  next
    case False
    then obtain ob where ob: "AOrgID a \<noteq> []" "UpsertIncomingOrg (orgs w) (XOrg t) (AOrgID a) (AID a) = Some ob" by auto
    note T = UpsertIncomingOrg_treasury[OF ob(2)]
    have w': "agents ?w = agents w" "cfg ?w = cfg w" "orgs ?w = mput ?id (TreasuryFor (WorldID (cfg w)) ob) (orgs w)"
      using ob by (simp_all add: arrive_org_def Let_def)
    have v: "valid_inv s ?w \<longleftrightarrow> s = TreasuryInv ?id \<or> valid_inv s w" for s
      by (cases s) (auto simp: w' map_of_mput)
    have g: "get_inv s ?w = get_inv s w" if "s \<noteq> TreasuryInv ?id" for s
      using that by (cases s) (auto simp: w' map_of_mput split: option.split)
    have t: "get_inv (TreasuryInv ?id) ?w = get_inv (TreasuryInv ?id) w"
      using T(1,2) by (cases "map_of (orgs w) ?id") (simp_all add: w' map_of_mput treasury_items empty_treasury)
    have n: "\<not> valid_inv s w \<Longrightarrow> get_inv s w = []" for s by (cases s) auto
    have gi: "get_inv s ?w = get_inv s w" for s using g[of s] t by metis
    have "world_refs ?w = insert (TreasuryInv ?id) (world_refs w)" by (auto simp: world_refs_def v)
    then have "stock ?w k = stock w k"
      by (cases "valid_inv (TreasuryInv ?id) w")
         (auto simp: stock_def holdings_def gi n insert_absorb world_refs_def finite_world_refs[unfolded world_refs_def])
    then show ?thesis using w'(1,2) gi n v by auto
  qed
qed

text \<open>
  What an agent carries: the fields of a transfer, with the default in place of a zero and only positive stacks.  Whatever
  is not in the transfer - the resume token, rate windows, decay windows and the sets of seen things - starts empty.
\<close>

definition carried :: "agent_transfer \<Rightarrow> string \<Rightarrow> agent \<Rightarrow> bool" where
  "carried t wid a \<longleftrightarrow>
     AID a = XID t \<and> AName a = XName t \<and> CurrentWorldID a = wid \<and> SwitchCooldownUntil a = XSwitchCooldownUntil t \<and>
     APos a = (XPos t)\<lparr>vy := 0\<rparr> \<and> AFun a = XFun t \<and> AInventory a = CopyPositiveIntMap (XInventory t) \<and>
     Memory a = CopyMap (\<lambda>k _. k \<noteq> []) (XMemory t) \<and> MoveTask a = None \<and> WorkTask a = None \<and>
     HP a = default_int 20 (XHP t) \<and> Hunger a = default_int 20 (XHunger t) \<and>
     StaminaMilli a = default_int 1000 (XStaminaMilli t) \<and>
     RepTrade a = default_int 500 (XRepTrade t) \<and> RepLaw a = default_int 500 (XRepLaw t) \<and>
     RepBuild a = default_int 500 (XRepBuild t) \<and> RepSocial a = default_int 500 (XRepSocial t) \<and>
     (XOrgID t \<noteq> [] \<longrightarrow> AOrgID a = XOrgID t) \<and>
     ResumeToken a = [] \<and> rl a = [] \<and> funDecay a = [] \<and> seenBiomes a = [] \<and> seenRecipes a = [] \<and> seenEvents a = []"

lemma carried_event: "carried t wid (AddEvent e a) = carried t wid a"
  by (simp add: carried_def AddEvent_def Let_def)

lemma carried_incoming: "carried t wid (BuildIncomingAgent t wid)"
proof -
  define b where "b = (if vy (APos (arriving t wid)) \<noteq> 0 then (arriving t wid)\<lparr>APos := (APos (arriving t wid))\<lparr>vy := 0\<rparr>\<rparr> else arriving t wid)"
  have b: "b = (arriving t wid)\<lparr>APos := (XPos t)\<lparr>vy := 0\<rparr>\<rparr>"
    by (cases "XPos t") (simp add: b_def arriving_def)
  obtain oid where o: "BuildIncomingAgent t wid = InitDefaults (b\<lparr>AOrgID := oid, MoveTask := None, WorkTask := None\<rparr>)"
    "XOrgID t \<noteq> [] \<longrightarrow> oid = XOrgID t"
  proof (cases "\<exists>m. XOrg t = Some m \<and> AOrgID b = [] \<and> MetaOrgID m \<noteq> []")
    case True
    then obtain m where m: "XOrg t = Some m" "AOrgID b = []" "MetaOrgID m \<noteq> []" by auto
    then have "XOrgID t = []" by (simp add: b arriving_def)
    moreover have "BuildIncomingAgent t wid = InitDefaults (b\<lparr>AOrgID := MetaOrgID m, MoveTask := None, WorkTask := None\<rparr>)"
      unfolding BuildIncomingAgent_def Let_def b_def[symmetric] using m by simp
    ultimately show ?thesis using that by blast
  next
    case False
    then have "(case XOrg t of Some m \<Rightarrow> if AOrgID b = [] \<and> MetaOrgID m \<noteq> [] then b\<lparr>AOrgID := MetaOrgID m\<rparr> else b | None \<Rightarrow> b) = b"
      by (auto split: option.split)
    then have "BuildIncomingAgent t wid = InitDefaults (b\<lparr>MoveTask := None, WorkTask := None\<rparr>)"
      unfolding BuildIncomingAgent_def Let_def b_def[symmetric] by simp
    moreover have "b = b\<lparr>AOrgID := XOrgID t\<rparr>" by (simp add: b arriving_def)
    ultimately have "BuildIncomingAgent t wid = InitDefaults (b\<lparr>AOrgID := XOrgID t, MoveTask := None, WorkTask := None\<rparr>)" by metis
    then show ?thesis using that by blast
  qed
  show ?thesis unfolding o(1) b carried_def using o(2) by (simp add: InitDefaults_def arriving_def zero_agent_def)
qed

lemma transfer_in_spec:
  assumes "handleTransferIn t w = Inr w'"
  shows "map_of (agents w) (XID t) = None \<and> cfg w' = cfg w \<and>
    (\<exists>a. agents w' = mput (XID t) a (agents w) \<and> carried t (WorldID (cfg w)) a) \<and>
    stock w' k = stock w k + cnt (CopyPositiveIntMap (XInventory t)) k"
proof -
  let ?a = "BuildIncomingAgent t (WorldID (cfg w))"
  let ?v = "arrive_org t ?a w"
  note A = arrive_org_spec[of t ?a w]
  from assms have none: "map_of (agents w) (XID t) = None" by (auto simp: handleTransferIn_def split: if_splits)
  have c: "carried t (WorldID (cfg w)) ?a" by (rule carried_incoming)
  then have aid: "AID ?a = XID t" by (simp add: carried_def)
  obtain b where b: "w' = ?v\<lparr>agents := mput (XID t) b (agents ?v)\<rparr>" "carried t (WorldID (cfg w)) b"
  proof (cases "BuildWorldSwitchEvent (worldTick ?v) (FromWorldID t) (WorldID (cfg ?v)) (AID ?a) (FromEntryPointID t) (ToEntryPointID t)")
    case None
    show ?thesis by (rule that[of ?a]) (use assms None c aid in \<open>simp_all add: handleTransferIn_def Let_def split: if_splits\<close>)
  next
    case (Some e)
    have "AID (AddEvent e ?a) = XID t" using c carried_event by (simp add: carried_def)
    then show ?thesis
      by (intro that[of "AddEvent e ?a"]) (use assms Some c aid in \<open>simp_all add: handleTransferIn_def Let_def carried_event split: if_splits\<close>)
  qed
  have v: "valid_inv s w' \<longleftrightarrow> s = AgentInv (XID t) \<or> valid_inv s ?v" for s
    by (cases s) (auto simp: b(1) map_of_mput)
  have "stock w' k = stock ?v k + cnt (get_inv (AgentInv (XID t)) w') k"
  proof (rule stock_insert)
    show "world_refs w' = insert (AgentInv (XID t)) (world_refs ?v)" by (auto simp: world_refs_def v)
    show "get_inv s w' = get_inv s ?v" if "s \<noteq> AgentInv (XID t)" for s
      using that by (cases s) (simp_all add: b(1) map_of_mput split: option.split)
    show "get_inv (AgentInv (XID t)) ?v = []" using A none by simp
  qed
  moreover have "get_inv (AgentInv (XID t)) w' = CopyPositiveIntMap (XInventory t)"
    using b by (simp add: map_of_mput carried_def)
  moreover have "agents ?v = agents w" "cfg ?v = cfg w" "stock ?v k = stock w k" using A by simp_all
  ultimately show ?thesis using none b by auto
qed

text \<open>What a transfer does not touch on either side.\<close>

definition estate :: "world \<Rightarrow> _" where
  "estate w = (cfg w, blocks w, containers w, claims w, contracts w, laws w, itemEnts w, boards w, signs w)"

lemma estate_out: "handleTransferOut aid w = Inr (t, w') \<Longrightarrow> estate w' = estate w"
  by (auto simp: estate_def handleTransferOut_def Let_def split: option.splits)

lemma estate_in: "handleTransferIn t w = Inr w' \<Longrightarrow> estate w' = estate w"
  by (auto simp: estate_def handleTransferIn_def arrive_org_def Let_def split: option.splits if_splits)

lemma owned_out:
  assumes "handleTransferOut aid w = Inr (t, w')" and "map_of (agents w) aid = Some a" "AID a = aid"
  shows "\<forall>s. s \<noteq> AgentInv aid \<longrightarrow> get_inv s w' = get_inv s w"
proof -
  have "agents w' = mdel aid (agents w)" "orgs w' = orgs w" "cfg w' = cfg w"
    using assms by (auto simp: handleTransferOut_def Let_def)
  then have "get_inv s w' = get_inv s w" if "s \<noteq> AgentInv aid" for s using that by (cases s) (simp_all add: map_of_mdel split: option.split)
  then show ?thesis by blast
qed

lemma owned_in:
  assumes "handleTransferIn t w = Inr w'"
  shows "\<forall>s. s \<noteq> AgentInv (XID t) \<longrightarrow> get_inv s w' = get_inv s w"
proof (intro allI impI)
  fix s assume s: "s \<noteq> AgentInv (XID t)"
  let ?a = "BuildIncomingAgent t (WorldID (cfg w))"
  let ?v = "arrive_org t ?a w"
  note A = arrive_org_spec[of t ?a w]
  have none: "get_inv r u = []" if "\<not> valid_inv r u" for r u using that by (cases r) auto
  have "get_inv s ?v = get_inv s w"
  proof (cases "valid_inv s w")
    case False
    with A have "get_inv s ?v = []" using none[of s ?v] by blast
    with none[OF False] show ?thesis by simp
  qed (use A in blast)
  moreover have aid: "AID ?a = XID t" using carried_incoming[of t "WorldID (cfg w)"] by (simp add: carried_def)
  obtain b where "w' = ?v\<lparr>agents := mput (XID t) b (agents ?v)\<rparr>"
    using assms aid by (auto simp: handleTransferIn_def Let_def split: if_splits option.splits)
  then have "get_inv s w' = get_inv s ?v" using s by (cases s) (simp_all add: map_of_mput split: option.split)
  ultimately show "get_inv s w' = get_inv s w" by simp
qed

text \<open>
  C5.  An agent that moves is in the new world and no longer in the old one; it arrives with its goods, vitals,
  reputation, memory and organization.  Nobody else's inventory and no treasury changes on either side, nor do blocks,
  containers, claims, contracts or items on the ground; so both worlds together hold exactly the items they held before.  The one
  thing that is not carried is what ties a client to it: the resume token is gone, and a vital or reputation of
  zero arrives as its default.
\<close>

theorem transfer_exact:
  assumes "handleTransferOut aid src = Inr (t, src')" and "handleTransferIn t dst = Inr dst'"
    and "map_of (agents src) aid = Some a" and "AID a = aid" and "wf_map (AInventory a)"
    and "\<forall>k. 0 \<le> cnt (AInventory a) k" and "cnt (AInventory a) [] = 0"
  shows "map_of (agents src') aid = None \<and> (\<forall>b. b \<noteq> aid \<longrightarrow> map_of (agents src') b = map_of (agents src) b) \<and>
    (\<exists>a'. map_of (agents dst') aid = Some a' \<and> carried (BuildOutgoingAgent a (WorldID (cfg src)) (XOrg t)) (WorldID (cfg dst)) a') \<and>
    (\<forall>b. b \<noteq> aid \<longrightarrow> map_of (agents dst') b = map_of (agents dst) b) \<and>
    (\<forall>r. r \<noteq> AgentInv aid \<longrightarrow> get_inv r src' = get_inv r src \<and> get_inv r dst' = get_inv r dst) \<and>
    estate src' = estate src \<and> estate dst' = estate dst \<and>
    (\<forall>k. stock src' k + stock dst' k = stock src k + stock dst k)"
proof -
  note O = transfer_out_spec[OF assms(1,3-5)] and I = transfer_in_spec[OF assms(2)]
  have t: "t = BuildOutgoingAgent a (WorldID (cfg src)) (XOrg t)" using O by blast
  have x: "XID t = aid" "XInventory t = CopyPositiveIntMap (AInventory a)"
    by (subst t, simp add: BuildOutgoingAgent_def assms(4))+
  have "cnt (CopyPositiveIntMap (XInventory t)) k = cnt (AInventory a) k" for k
    using assms(6,7) by (simp add: x(2) CopyPositive_idem cnt_positive[OF assms(5)])
  then have "stock src' k + stock dst' k = stock src k + stock dst k" for k
    using O[of k] I[of k] by simp
  moreover from I obtain a' where "agents dst' = mput aid a' (agents dst)" "carried t (WorldID (cfg dst)) a'"
    unfolding x(1) by blast
  moreover have "\<forall>r. r \<noteq> AgentInv aid \<longrightarrow> get_inv r src' = get_inv r src \<and> get_inv r dst' = get_inv r dst"
    using owned_out[OF assms(1,3,4)] owned_in[OF assms(2)] x(1) by blast
  moreover note estate_out[OF assms(1)] estate_in[OF assms(2)]
  ultimately show ?thesis using O t by (auto simp: map_of_mput map_of_mdel simp del: get_inv.simps)
qed

text \<open>A traveller with an empty stomach and a stack of coal.\<close>

definition mine_world :: world where
  "mine_world = empty_world\<lparr>cfg := (cfg empty_world)\<lparr>WorldID := ''MINE_L1''\<rparr>\<rparr>"

definition hungry_world :: world where
  "hungry_world = empty_world\<lparr>agents := [(''A1'', (agent_named ''A1'' [(''COAL'', 5)])\<lparr>Hunger := 0, ResumeToken := ''tok''\<rparr>)]\<rparr>"

theorem transfer_exact_witness:
  "\<exists>t src' dst' a'. handleTransferOut ''A1'' hungry_world = Inr (t, src') \<and> handleTransferIn t mine_world = Inr dst' \<and>
     map_of (agents dst') ''A1'' = Some a' \<and> cnt (AInventory a') ''COAL'' = 5 \<and> Hunger a' = 20 \<and> ResumeToken a' = []"
proof -
  let ?a = "(agent_named ''A1'' [(''COAL'', 5)])\<lparr>Hunger := 0, ResumeToken := ''tok''\<rparr>"
  have a: "map_of (agents hungry_world) ''A1'' = Some ?a" by (simp add: hungry_world_def)
  obtain t src' where o: "handleTransferOut ''A1'' hungry_world = Inr (t, src')" "XID t = ''A1''"
    using a by (simp add: handleTransferOut_def BuildOutgoingAgent_def Let_def agent_named_def)
  have "map_of (agents mine_world) ''A1'' = None" by (simp add: mine_world_def)
  then obtain dst' where i: "handleTransferIn t mine_world = Inr dst'" using o(2) by (simp add: handleTransferIn_def Let_def)
  have "wf_map (AInventory ?a)" "\<forall>k. 0 \<le> cnt (AInventory ?a) k" "cnt (AInventory ?a) [] = 0" "AID ?a = ''A1''"
    by (simp_all add: agent_named_def wf_map_def)
  from transfer_exact[OF o(1) i a this(4,1-3)] obtain a' where
    "map_of (agents dst') ''A1'' = Some a'" "carried (BuildOutgoingAgent ?a (WorldID (cfg hungry_world)) (XOrg t)) (WorldID (cfg mine_world)) a'"
    by blast
  moreover from this(2) have "cnt (AInventory a') ''COAL'' = 5" "Hunger a' = 20" "ResumeToken a' = []"
    by (simp_all add: carried_def BuildOutgoingAgent_def CopyPositiveIntMap_def agent_named_def default_int_def)
  ultimately show ?thesis using o(1) i by blast
qed

section \<open>A namesake\<close>

text \<open>
  Every world numbers its agents from one, and metadata identifies members by agent identifier only.  Here an agent of the
  mine that never joined anything has the same identifier as the founder of a guild in another world.
\<close>

definition foreign_guild :: org_meta where
  "foreign_guild = \<lparr>MetaOrgID = ''ORG000001'', MetaKind = OrgGuild, MetaName = ''Miners'', MetaCreatedTick = 7, MetaRev = 1,
     MetaMembers = [(''A1'', OrgLeader)]\<rparr>"

definition namesake_world :: world where
  "namesake_world = mine_world\<lparr>agents := [(''A1'', agent_named ''A1'' [])]\<rparr>"

theorem org_meta_upsert_witness:
  "\<exists>a' ob. map_of (agents (ApplyOrgMetaUpsert [foreign_guild] namesake_world)) ''A1'' = Some a' \<and> AOrgID a' = ''ORG000001'' \<and>
     map_of (orgs (ApplyOrgMetaUpsert [foreign_guild] namesake_world)) ''ORG000001'' = Some ob \<and>
     map_of (OMembers ob) ''A1'' = Some OrgLeader"
proof -
  let ?w = "ApplyOrgMetaUpsert [foreign_guild] namesake_world"
  have ok: "orgs_ok namesake_world" "keyed_list [foreign_guild]" "wf_map (agents namesake_world)"
    by (simp_all add: orgs_ok_def namesake_world_def mine_world_def keyed_list_def foreign_guild_def wf_map_def)
  note U = org_meta_upsert[OF ok]
  have v: "merged_view namesake_world [foreign_guild] k = (if k = ''ORG000001'' then Some (normal_meta foreign_guild) else None)" for k
    by (simp add: merged_view_def org_view_def namesake_world_def mine_world_def find_meta_def foreign_guild_def merged_meta_def)
  have view: "org_view ?w k = (if k = ''ORG000001'' then Some (normal_meta foreign_guild) else None)" for k
    unfolding v[symmetric] using U by blast
  from view[of "''ORG000001''"] have "org_view ?w ''ORG000001'' = Some (normal_meta foreign_guild)" by simp
  then obtain ob where ob: "map_of (orgs ?w) ''ORG000001'' = Some ob" "normal_meta (meta_of ob) = normal_meta foreign_guild"
    unfolding org_view_def map_option_eq_Some by blast
  have "map_of (OMembers ob) ''A1'' = map_of (NormalizeMembers (MetaMembers (meta_of ob))) ''A1''"
    by (simp add: map_of_NormalizeMembers)
  also have "\<dots> = map_of (NormalizeMembers (MetaMembers foreign_guild)) ''A1''"
    using arg_cong[OF ob(2), of MetaMembers] by simp
  finally have m: "map_of (OMembers ob) ''A1'' = Some OrgLeader" by (simp add: map_of_NormalizeMembers foreign_guild_def)
  obtain a' where a': "map_of (agents ?w) ''A1'' = Some a'" "AID a' = ''A1''"
    using ok by (auto simp: ApplyOrgMetaUpsert_def Let_def case_prod_beta ReconcileAgentsOrg_def namesake_world_def
        reconciled_def agent_named_def sample_agent_def split: option.split)
  have l: "listed_in ?w ''A1'' ''ORG000001''" by (simp add: listed_in_def ob(1) m)
  have "AID a' \<noteq> []" by (simp add: a'(2))
  with U a'(1) have "(AOrgID a' \<noteq> [] \<longrightarrow> listed_in ?w (AID a') (AOrgID a')) \<and>
      (\<forall>orgID. listed_in ?w (AID a') orgID \<longrightarrow> AOrgID a' \<noteq> [] \<and> AOrgID a' \<le> orgID)" by blast
  then have r: "AOrgID a' \<noteq> []" "listed_in ?w ''A1'' (AOrgID a')" using l unfolding a'(2) by blast+
  then have "org_view ?w (AOrgID a') \<noteq> None" by (auto simp: listed_in_def org_view_def)
  then have "AOrgID a' = ''ORG000001''" unfolding view by (simp split: if_splits)
  with a' ob m show ?thesis by blast
qed

end
