(* ===== verification/Work_Blueprint.thy ===== *)
theory Work_Blueprint
  imports Work_Exec
begin

text \<open>
  Building a blueprint (\<open>feature/work/runtime/{execution_blueprint,pull}.go\<close>, \<open>work_tasks_facade.go\<close>): the
  survey of the site on the first tick, pulling missing materials out of nearby storage, charging them,
  placing a few blocks per tick and registering the finished structure (\<open>fun_facade.go\<close>); and the work
  system that runs one tick of every agent's task.
\<close>

section \<open>Pulling materials\<close>

text \<open>The candidates nearest first, as positions; the type only breaks ties the positions already break.\<close>

definition BuildStorageCandidates :: "world \<Rightarrow> string \<Rightarrow> vec3 \<Rightarrow> vec3 list" where
  "BuildStorageCandidates w aid anchor =
     (let anchorLand = (case landAt w anchor of None \<Rightarrow> [] | Some land \<Rightarrow> LandID land);
          range = BlueprintAutoPullRange (cfg w);
          fits = (\<lambda>(pos, c).
            CType c \<in> {''CHEST'', ''CONTRACT_TERMINAL''} \<and>
            \<not> (range > 0 \<and> Manhattan pos anchor > range) \<and>
            (case landAt w pos of
               None \<Rightarrow> anchorLand = []
             | Some land \<Rightarrow> anchorLand \<noteq> [] \<and> LandID land = anchorLand) \<and>
            canWithdrawFromContainer w aid pos)
      in sort_key (\<lambda>p. Manhattan p anchor) (sort (map fst (filter fits (containers w)))))"

definition box_available :: "world \<Rightarrow> vec3 \<Rightarrow> string \<Rightarrow> int" where
  "box_available w p item = (case map_of (containers w) p of None \<Rightarrow> 0 | Some c \<Rightarrow> AvailableCount c item)"

definition needed_items :: "(string \<times> int) list \<Rightarrow> items" where
  "needed_items cost = fold (\<lambda>(item, n) need. if item = [] \<or> n \<le> 0 then need else madd need item n) cost []"

text \<open>The first loop stops adding up as soon as the deficit is covered.\<close>

fun available_upto :: "world \<Rightarrow> string \<Rightarrow> int \<Rightarrow> vec3 list \<Rightarrow> int \<Rightarrow> int" where
  "available_upto w item deficit [] avail = avail"
| "available_upto w item deficit (p # ps) avail =
     (let avail = i64 (avail + box_available w p item)
      in if avail \<ge> deficit then avail else available_upto w item deficit ps avail)"

definition agent_has :: "world \<Rightarrow> string \<Rightarrow> string \<Rightarrow> int" where
  "agent_has w aid item = cnt (get_inv (AgentInv aid) w) item"

fun first_missing :: "world \<Rightarrow> string \<Rightarrow> vec3 list \<Rightarrow> items \<Rightarrow> string list \<Rightarrow> string option" where
  "first_missing w aid cands need [] = None"
| "first_missing w aid cands need (item # items) =
     (let required = cnt need item; has = agent_has w aid item
      in if has \<ge> required then first_missing w aid cands need items
         else
           let deficit = i64 (required - has);
               avail = available_upto w item deficit cands 0
           in if avail < deficit
              then Some (''missing '' @ item @ '' x'' @ dec_int (i64 (deficit - avail)))
              else first_missing w aid cands need items)"

fun pull_pass :: "string \<Rightarrow> string \<Rightarrow> vec3 list \<Rightarrow> int \<Rightarrow> bool \<Rightarrow> world \<Rightarrow> bool \<times> world" where
  "pull_pass aid item [] deficit took w = (took, w)"
| "pull_pass aid item (p # ps) deficit took w =
     (let avail = box_available w p item
      in if avail \<le> 0 then pull_pass aid item ps deficit took w
         else
           let n = (if avail > deficit then deficit else avail);
               w = give_agent aid item n (take_box p item n w);
               deficit = i64 (deficit - n)
           in if deficit \<le> 0 then (True, w) else pull_pass aid item ps deficit True w)"

text \<open>
  The outer loop of one item, for as long as it runs; a loop that never ends has no result.  The same of the loop
  over all items.
\<close>

partial_function (option) pull_item :: "string \<Rightarrow> string \<Rightarrow> vec3 list \<Rightarrow> int \<Rightarrow> world \<Rightarrow> (bool \<times> world) option" where
  "pull_item aid item cands required w =
     (if \<not> agent_has w aid item < required then Some (True, w)
      else case pull_pass aid item cands (i64 (required - agent_has w aid item)) False w of
             (took, w') \<Rightarrow> if took then pull_item aid item cands required w' else Some (False, w'))"

fun pull_items :: "string \<Rightarrow> vec3 list \<Rightarrow> items \<Rightarrow> string list \<Rightarrow> world \<Rightarrow> (bool \<times> world) option" where
  "pull_items aid cands need [] w = Some (True, w)"
| "pull_items aid cands need (item # items) w =
     (case pull_item aid item cands (cnt need item) w of
        None \<Rightarrow> None
      | Some (ok, w') \<Rightarrow> if ok then pull_items aid cands need items w' else Some (False, w'))"

text \<open>
  The handlers that pull materials go on with a result, so a loop without one - there is none on a world in order - is
  given a failure.
\<close>

definition EnsureBlueprintMaterials ::
  "string \<Rightarrow> vec3 list \<Rightarrow> (string \<times> int) list \<Rightarrow> world \<Rightarrow> (bool \<times> string) \<times> world" where
  "EnsureBlueprintMaterials aid cands cost w =
     (if cost = [] then ((True, []), w)
      else
        let need = needed_items cost; items = sorted_keys need
        in case first_missing w aid cands need items of
             Some msg \<Rightarrow> ((False, msg), w)
           | None \<Rightarrow> (case pull_items aid cands need items w of
                        None \<Rightarrow> ((False, ''missing materials''), w)
                      | Some (ok, w') \<Rightarrow> ((ok, if ok then [] else ''missing materials''), w')))"

section \<open>Building\<close>

definition site_pos :: "vec3 \<Rightarrow> int \<Rightarrow> placement \<Rightarrow> vec3" where
  "site_pos anchor rot b =
     (case RotateOffset (pb_pos b) rot of
        (ox, oy, oz) \<Rightarrow> \<lparr>vx = i64 (vx anchor + ox), vy = i64 (vy anchor + oy), vz = i64 (vz anchor + oz)\<rparr>)"

text \<open>A failure: code, message, and whether it counts as a denied action.\<close>

type_synonym build_fail = "string \<times> string \<times> bool"

text \<open>What both loops check of a block before it is placed: its block id, or the failure.\<close>

definition check_site :: "go_floats \<Rightarrow> string \<Rightarrow> u64 \<Rightarrow> world \<Rightarrow> vec3 \<Rightarrow> string \<Rightarrow> build_fail + blockid" where
  "check_site fl aid nowTick w pos blk =
     (if \<not> InBounds w pos then Inl (''E_INVALID_TARGET'', ''out of bounds'', False)
      else case map_of (BlockIndex (cats w)) blk of
             None \<Rightarrow> Inl (''E_INTERNAL'', ''unknown block in blueprint'', False)
           | Some b \<Rightarrow>
               if \<not> canBuildAt fl w aid pos nowTick then Inl (''E_NO_PERMISSION'', ''build denied'', True)
               else if GetBlock w pos \<noteq> airBlock w \<and> GetBlock w pos \<noteq> b
               then Inl (''E_BLOCKED'', ''space occupied'', False)
               else Inr b)"

fun survey_site ::
  "go_floats \<Rightarrow> string \<Rightarrow> u64 \<Rightarrow> world \<Rightarrow> vec3 \<Rightarrow> int \<Rightarrow> placement list \<Rightarrow> items \<Rightarrow> int \<Rightarrow> build_fail + (items \<times> int)" where
  "survey_site fl aid nowTick w anchor rot [] already correct = Inr (already, correct)"
| "survey_site fl aid nowTick w anchor rot (b # bs) already correct =
     (let pos = site_pos anchor rot b
      in case check_site fl aid nowTick w pos (pb_block b) of
           Inl e \<Rightarrow> Inl e
         | Inr bid \<Rightarrow>
             if GetBlock w pos \<noteq> airBlock w
             then survey_site fl aid nowTick w anchor rot bs (madd already (pb_block b) 1) (i64 (correct + 1))
             else survey_site fl aid nowTick w anchor rot bs already correct)"

definition ClampBlocksPerTick :: "int \<Rightarrow> int" where
  "ClampBlocksPerTick limit = (if limit \<le> 0 then 2 else limit)"

fun place_blocks ::
  "go_floats \<Rightarrow> string \<Rightarrow> u64 \<Rightarrow> vec3 \<Rightarrow> int \<Rightarrow> int \<Rightarrow> placement list \<Rightarrow> int \<Rightarrow> int \<Rightarrow> world \<Rightarrow>
     build_fail option \<times> int \<times> world" where
  "place_blocks fl aid nowTick anchor rot limit [] idx placed w = (None, idx, w)"
| "place_blocks fl aid nowTick anchor rot limit (b # bs) idx placed w =
     (if \<not> placed < limit then (None, idx, w)
      else
        let pos = site_pos anchor rot b
        in case check_site fl aid nowTick w pos (pb_block b) of
             Inl e \<Rightarrow> (Some e, idx, w)
           | Inr bid \<Rightarrow>
               if GetBlock w pos \<noteq> airBlock w
               then place_blocks fl aid nowTick anchor rot limit bs (i64 (idx + 1)) placed w
               else
                 let w = auditSetBlock nowTick aid pos (airBlock w) bid ''BUILD_BLUEPRINT'' (SetBlock pos bid w);
                     w = ensureContainerForPlacedBlock pos (pb_block b) w
                 in place_blocks fl aid nowTick anchor rot limit bs (i64 (idx + 1)) (i64 (placed + 1)) w)"

definition build_fails :: "string \<Rightarrow> u64 \<Rightarrow> work_task \<Rightarrow> build_fail \<Rightarrow> world \<Rightarrow> world" where
  "build_fails aid nowTick wt e w =
     (case e of
        (code, msg, denied) \<Rightarrow>
          if denied then task_denied aid nowTick wt msg w else task_fail aid nowTick wt code msg w)"

definition remaining_cost :: "world \<Rightarrow> string \<Rightarrow> items \<Rightarrow> (string \<times> int) list" where
  "remaining_cost w bid already =
     RemainingCost (filter (\<lambda>(item, n). trim_space item \<noteq> [] \<and> \<not> n \<le> 0)
       (case map_of (BlueprintCost (cats w)) bid of None \<Rightarrow> [] | Some cost \<Rightarrow> cost)) already"

text \<open>Charging the remaining cost: pull what is missing, then take everything from the agent.\<close>

definition charge_cost :: "string \<Rightarrow> vec3 \<Rightarrow> (string \<times> int) list \<Rightarrow> world \<Rightarrow> (string + unit) \<times> world" where
  "charge_cost aid anchor cost w =
     (let (r, w) = (if \<exists>(item, n) \<in> set cost. \<not> agent_has w aid item \<ge> n
                    then EnsureBlueprintMaterials aid (BuildStorageCandidates w aid anchor) cost w
                    else ((True, []), w))
      in if \<not> fst r then (Inl (if snd r = [] then ''missing materials'' else snd r), w)
         else (Inr (), fold (\<lambda>(item, n). take_agent aid item n) cost w))"

datatype build_result = BuildPending | BuildCompleted

definition place_step ::
  "go_floats \<Rightarrow> string \<Rightarrow> work_task \<Rightarrow> placement list \<Rightarrow> vec3 \<Rightarrow> int \<Rightarrow> u64 \<Rightarrow> int \<Rightarrow> world \<Rightarrow> build_result \<times> world" where
  "place_step fl aid wt bs anchor rot nowTick blocksPerTick w =
     (case place_blocks fl aid nowTick anchor rot (ClampBlocksPerTick blocksPerTick)
             (drop (nat (BuildIndex wt)) bs) (BuildIndex wt) 0 w of
        (Some e, idx, w) \<Rightarrow> (BuildPending, build_fails aid nowTick wt e w)
      | (None, idx, w) \<Rightarrow>
          (if idx \<ge> int (length bs) then BuildCompleted else BuildPending,
           store_work aid (wt\<lparr>BuildIndex := idx\<rparr>) w))"

definition TickBuildBlueprint ::
  "go_floats \<Rightarrow> string \<Rightarrow> work_task \<Rightarrow> u64 \<Rightarrow> int \<Rightarrow> world \<Rightarrow> build_result \<times> world" where
  "TickBuildBlueprint fl aid wt nowTick blocksPerTick w =
     (case map_of (Blueprints (cats w)) (WBlueprintID wt) of
        None \<Rightarrow> (BuildPending, task_fail aid nowTick wt ''E_INVALID_TARGET'' ''unknown blueprint'' w)
      | Some bs \<Rightarrow>
          let anchor = WAnchor wt; rot = NormalizeRotation (WRotation wt)
          in if BuildIndex wt = 0 \<and> WorkTicks wt = 0 then
               (case survey_site fl aid nowTick w anchor rot bs [] 0 of
                  Inl e \<Rightarrow> (BuildPending, build_fails aid nowTick wt e w)
                | Inr (already, correct) \<Rightarrow>
                    if FullySatisfied correct (int (length bs)) then (BuildPending, task_done aid nowTick wt w)
                    else case charge_cost aid anchor (remaining_cost w (WBlueprintID wt) already) w of
                      (Inl msg, w) \<Rightarrow> (BuildPending, task_fail aid nowTick wt ''E_NO_RESOURCE'' msg w)
                    | (Inr _, w) \<Rightarrow> place_step fl aid wt bs anchor rot nowTick blocksPerTick w)
             else place_step fl aid wt bs anchor rot nowTick blocksPerTick w)"

definition box_around :: "vec3 list \<Rightarrow> vec3 \<times> vec3" where
  "box_around ps =
     (\<lparr>vx = foldl min (vx (hd ps)) (map vx ps), vy = foldl min (vy (hd ps)) (map vy ps), vz = foldl min (vz (hd ps)) (map vz ps)\<rparr>,
      \<lparr>vx = foldl max (vx (hd ps)) (map vx ps), vy = foldl max (vy (hd ps)) (map vy ps), vz = foldl max (vz (hd ps)) (map vz ps)\<rparr>)"

definition registerStructure :: "u64 \<Rightarrow> string \<Rightarrow> string \<Rightarrow> vec3 \<Rightarrow> int \<Rightarrow> world \<Rightarrow> world" where
  "registerStructure nowTick builderID bid anchor rotation w =
     (case map_of (Blueprints (cats w)) bid of
        None \<Rightarrow> w
      | Some bs \<Rightarrow>
          let rot = NormalizeRotation rotation;
              sid = StructureID builderID nowTick bid (vx anchor) (vy anchor) (vz anchor);
              bounds = (if bs = [] then (anchor, anchor) else box_around (map (site_pos anchor rot) bs));
              s = \<lparr>SBlueprintID = bid, BuilderID = builderID, SAnchor = anchor, SRotation = rot,
                   SMin = fst bounds, SMax = snd bounds, CompletedTick = nowTick,
                   AwardDueTick = nowTick + word_of_int (StructureSurvivalTicks (cfg w)),
                   Awarded = False, UsedBy = [], LastInfluenceDay = 0\<rparr>
          in w\<lparr>structures := mput sid s (structures w)\<rparr>)"

definition build_event_bonus :: "go_floats \<Rightarrow> string \<Rightarrow> work_task \<Rightarrow> u64 \<Rightarrow> world \<Rightarrow> world" where
  "build_event_bonus fl aid wt nowTick w =
     (let goal = (\<lambda>kind. event_goal w nowTick kind @ [(''blueprint_id'', JStr (WBlueprintID wt))])
      in if activeEventID w \<noteq> [] \<and> event_running w nowTick then
           (if activeEventID w = ''BUILDER_EXPO'' then
              upd_agent aid (\<lambda>a. AddEvent (goal ''EXPO_BUILD'')
                (award fl w nowTick ''CREATION'' ''builder_expo'' ''creation:builder_expo'' 8 a)) w
            else if activeEventID w = ''BLUEPRINT_FAIR'' then
              upd_agent aid (\<lambda>a. AddEvent (goal ''FAIR_BUILD'')
                (award fl w nowTick ''INFLUENCE'' ''blueprint_fair'' ''influence:blueprint_fair'' 6 a)) w
            else w)
         else w)"

definition tickBuildBlueprint :: "go_floats \<Rightarrow> string \<Rightarrow> work_task \<Rightarrow> u64 \<Rightarrow> world \<Rightarrow> world" where
  "tickBuildBlueprint fl aid wt nowTick w =
     (case TickBuildBlueprint fl aid wt nowTick (BlueprintBlocksPerTick (cfg w)) w of
        (BuildPending, w) \<Rightarrow> w
      | (BuildCompleted, w) \<Rightarrow>
          let w = w\<lparr>stats := RecordBlueprintComplete nowTick (stats w)\<rparr>;
              w = registerStructure nowTick aid (WBlueprintID wt) (WAnchor wt) (NormalizeRotation (WRotation wt)) w;
              w = upd_agent aid (funOnBlueprintComplete fl w nowTick) w;
              w = build_event_bonus fl aid wt nowTick w
          in task_done aid nowTick wt w)"

section \<open>The work system\<close>

definition tick_work :: "go_floats \<Rightarrow> string \<Rightarrow> work_task \<Rightarrow> u64 \<Rightarrow> world \<Rightarrow> world" where
  "tick_work fl aid wt nowTick w =
     (case WKind wt of
        KindMine \<Rightarrow> TickMine fl aid wt nowTick w
      | KindGather \<Rightarrow> TickGather aid wt nowTick w
      | KindPlace \<Rightarrow> TickPlace fl aid wt nowTick w
      | KindOpen \<Rightarrow> TickOpen fl aid wt nowTick w
      | KindTransfer \<Rightarrow> TickTransfer aid wt nowTick w
      | KindCraft \<Rightarrow> TickCraft aid wt nowTick w
      | KindSmelt \<Rightarrow> TickSmelt aid wt nowTick w
      | KindBuildBlueprint \<Rightarrow> tickBuildBlueprint fl aid wt nowTick w
      | _ \<Rightarrow> w)"

definition systemWork :: "go_floats \<Rightarrow> u64 \<Rightarrow> world \<Rightarrow> world" where
  "systemWork fl nowTick w =
     fold (\<lambda>aid w. case map_of (agents w) aid of
                     None \<Rightarrow> w
                   | Some a \<Rightarrow> (case WorkTask a of None \<Rightarrow> w | Some wt \<Rightarrow> tick_work fl aid wt nowTick w))
       (sorted_keys (agents w)) w"

end
