(* ===== verification/Season_Model.thy ===== *)
theory Season_Model
  imports Movement_Model Director_Model Contract_Handlers
begin

text \<open>
  Seasons (\<open>season_facade.go\<close>, \<open>feature/survival/respawn/reset.go\<close>, \<open>feature/director/runtime/runtime.go\<close>) and the
  scores of built structures (\<open>fun_facade.go\<close>, \<open>feature/director/stats/blueprint_features.go\<close>): when a season
  ends and what survives it, the calendar clients see, and the awards of every tick for structures that stand
  and are used.
\<close>

section \<open>The reset of an agent\<close>

definition starter_kit :: items where
  "starter_kit = [(''PLANK'', 20), (''COAL'', 10), (''STONE'', 20), (''BERRIES'', 10)]"

definition ResetForSeason :: "world \<Rightarrow> agent \<Rightarrow> agent" where
  "ResetForSeason w a =
     (let a = a\<lparr>MoveTask := None, WorkTask := None, HP := 20, Hunger := 20, StaminaMilli := 1000, Yaw := 0,
                AInventory := starter_kit, MainHand := ''NONE'',
                Armor := [''NONE'', ''NONE'', ''NONE'', ''NONE''], Events := [], PendingMemory := []\<rparr>;
          a = ResetFunTracking (ResetRateLimits a)
      in a\<lparr>AFun := \<lparr>Novelty = 0, Creation = 0, Social = 0, Influence = 0, Narrative = 0, RiskRescue = 0\<rparr>,
           APos := spawn_point w (AID a)\<rparr>)"

definition resetAgentForNewSeason :: "world \<Rightarrow> u64 \<Rightarrow> agent \<Rightarrow> agent" where
  "resetAgentForNewSeason w nowTick a = funOnBiome w nowTick (ResetForSeason w a)"

section \<open>The reset of the world\<close>

definition block_id :: "world \<Rightarrow> string \<Rightarrow> blockid" where
  "block_id w name = (case map_of (BlockIndex (cats w)) name of None \<Rightarrow> 0 | Some b \<Rightarrow> b)"

definition worldGen :: "world \<Rightarrow> world_gen" where
  "worldGen w = \<lparr>GSeed = Seed (cfg w), GBoundaryR = BoundaryR (cfg w), GBiomeRegionSize = BiomeRegionSize (cfg w),
     GSpawnClearRadius = SpawnClearRadius (cfg w),
     OreClusterProbScalePermille = World_Config.OreClusterProbScalePermille (cfg w),
     TerrainClusterProbScalePermille = World_Config.TerrainClusterProbScalePermille (cfg w),
     GSprinkleStonePermille = SprinkleStonePermille (cfg w), GSprinkleDirtPermille = SprinkleDirtPermille (cfg w),
     GSprinkleLogPermille = SprinkleLogPermille (cfg w), Air = block_id w ''AIR'', Dirt = block_id w ''DIRT'',
     Grass = block_id w ''GRASS'', Sand = block_id w ''SAND'', Stone = block_id w ''STONE'', Gravel = block_id w ''GRAVEL'',
     Log = block_id w ''LOG'', CoalOre = block_id w ''COAL_ORE'', IronOre = block_id w ''IRON_ORE'',
     CopperOre = block_id w ''COPPER_ORE'', CrystalOre = block_id w ''CRYSTAL_ORE''\<rparr>"

definition reset_treasury :: "string \<Rightarrow> organization \<Rightarrow> organization" where
  "reset_treasury worldID ob = ob\<lparr>TreasuryByWorld := mput worldID [] (TreasuryByWorld ob), Treasury := ViewOf worldID\<rparr>"

definition season_events :: "world \<Rightarrow> u64 \<Rightarrow> int \<Rightarrow> u64 \<Rightarrow> agent \<Rightarrow> agent" where
  "season_events w nowTick newSeason archiveTick a =
     AddEvent [(''t'', JU64 nowTick), (''type'', JStr ''WORLD_RESET_DONE''), (''world_id'', JStr (WorldID (cfg w))),
               (''reset_tick'', JU64 nowTick)]
       (AddEvent [(''t'', JU64 nowTick), (''type'', JStr ''SEASON_ROLLOVER''), (''season'', JInt newSeason),
                  (''archive_tick'', JU64 archiveTick), (''seed'', JInt (Seed (cfg w)))] a)"

definition new_ground :: "world \<Rightarrow> world" where
  "new_ground w =
     (let w = w\<lparr>resetTotal := resetTotal w + 1, cfg := (cfg w)\<lparr>Seed := i64 (Seed (cfg w) + 1)\<rparr>\<rparr>;
          w = w\<lparr>blocks := (\<lambda>p. generated (worldGen w) (vx p) (vz p))\<rparr>
      in w\<lparr>weather := ''CLEAR'', weatherUntilTick := 0, activeEventID := [], activeEventStart := 0, activeEventEnds := 0,
           activeEventCenter := \<lparr>vx = 0, vy = 0, vz = 0\<rparr>, activeEventRadius := 0, claims := [], containers := [],
           itemEnts := [], itemsAt := [], trades := [], boards := [], signs := [], conveyors := [], switches := [],
           contracts := [], laws := [], structures := [], stats := NewWorldStats 300 72000\<rparr>)"

text \<open>Agents and organizations are reset one by one; no reset looks at another agent.\<close>

definition resetWorldForNewSeason :: "u64 \<Rightarrow> int \<Rightarrow> u64 \<Rightarrow> world \<Rightarrow> world" where
  "resetWorldForNewSeason nowTick newSeason archiveTick w =
     (let w = new_ground w;
          w = w\<lparr>orgs := map (\<lambda>(oid, ob). (oid, reset_treasury (WorldID (cfg w)) ob)) (orgs w)\<rparr>;
          w = w\<lparr>agents := map (\<lambda>(aid, a).
                 (aid, season_events w nowTick newSeason archiveTick (resetAgentForNewSeason w nowTick a))) (agents w)\<rparr>
      in auditEvent nowTick ''SYSTEM'' ''WORLD_RESET'' \<lparr>vx = 0, vy = 0, vz = 0\<rparr> ''SEASON_ROLLOVER''
           [(''world_id'', JStr (WorldID (cfg w))), (''archive_tick'', JU64 archiveTick), (''season'', JInt newSeason),
            (''new_seed'', JInt (Seed (cfg w)))] w)"

definition season_len :: "world \<Rightarrow> u64" where
  "season_len w = SeasonLength (ResetEveryTicks (cfg w)) (SeasonLengthTicks (cfg w))"

text \<open>The snapshot handed to the sink before the reset only reads the world.\<close>

definition maybeSeasonRollover :: "u64 \<Rightarrow> world \<Rightarrow> world" where
  "maybeSeasonRollover nowTick w =
     (let len = season_len w
      in if len = 0 \<or> nowTick = 0 \<or> nowTick mod len \<noteq> 0 then w
         else resetWorldForNewSeason nowTick (i64 (sint (nowTick div len) + 1)) (nowTick - 1) w)"

definition seasonIndex :: "world \<Rightarrow> u64 \<Rightarrow> int" where
  "seasonIndex w nowTick = SeasonIndex nowTick (ResetEveryTicks (cfg w)) (SeasonLengthTicks (cfg w))"

definition ShouldWorldResetNotice :: "u64 \<Rightarrow> int \<Rightarrow> int \<Rightarrow> bool \<times> u64" where
  "ShouldWorldResetNotice nowTick resetEveryTicks resetNoticeTicks =
     (let cycle = (word_of_int resetEveryTicks :: u64); notice = word_of_int resetNoticeTicks
      in if cycle = 0 \<or> notice = 0 \<or> notice \<ge> cycle \<or> nowTick = 0 then (False, 0)
         else if nowTick mod cycle \<noteq> cycle - notice then (False, 0)
         else (True, nowTick + notice))"

definition maybeWorldResetNotice :: "u64 \<Rightarrow> world \<Rightarrow> world" where
  "maybeWorldResetNotice nowTick w =
     (case ShouldWorldResetNotice nowTick (ResetEveryTicks (cfg w)) (ResetNoticeTicks (cfg w)) of
        (False, _) \<Rightarrow> w
      | (True, resetTick) \<Rightarrow>
          w\<lparr>agents := map (\<lambda>(aid, a). (aid, AddEvent
             [(''t'', JU64 nowTick), (''type'', JStr ''WORLD_RESET_NOTICE''), (''world_id'', JStr (WorldID (cfg w))),
              (''reset_tick'', JU64 resetTick), (''in_ticks'', JU64 (word_of_int (ResetNoticeTicks (cfg w))))] a))
             (agents w)\<rparr>)"

section \<open>Scores of structures\<close>

record blueprint_features =
  FUniqueBlockTypes :: int
  FHasStorage :: bool
  FHasLight :: bool
  FHasWorkshop :: bool
  FHasGovernance :: bool

definition ExtractBlueprintFeatures :: "placement list \<Rightarrow> blueprint_features" where
  "ExtractBlueprintFeatures bs =
     (let names = map pb_block bs
      in \<lparr>FUniqueBlockTypes = int (length (remdups names)),
          FHasStorage = list_ex (\<lambda>b. b = ''CHEST'') names,
          FHasLight = list_ex (\<lambda>b. b = ''TORCH'') names,
          FHasWorkshop = list_ex (\<lambda>b. b = ''CRAFTING_BENCH'' \<or> b = ''FURNACE'') names,
          FHasGovernance = list_ex (\<lambda>b. b = ''BULLETIN_BOARD'' \<or> b = ''CONTRACT_TERMINAL'' \<or> b = ''CLAIM_TOTEM'' \<or>
                                        b = ''SIGN'') names\<rparr>)"

definition structureUniqueUsers :: "built_structure \<Rightarrow> u64 \<Rightarrow> u64 \<Rightarrow> int" where
  "structureUniqueUsers s nowTick window = StructureUniqueUsers (UsedBy s) (BuilderID s) nowTick window"

definition structureCreationScore :: "go_floats \<Rightarrow> world \<Rightarrow> placement list \<Rightarrow> built_structure \<Rightarrow> u64 \<Rightarrow> int" where
  "structureCreationScore fl w bs s nowTick =
     (let f = ExtractBlueprintFeatures bs
      in CreationScore fl \<lparr>UniqueBlockTypes = FUniqueBlockTypes f, HasStorage = FHasStorage f, HasLight = FHasLight f,
           HasWorkshop = FHasWorkshop f, HasGovernance = FHasGovernance f,
           Stable = structureStable w bs (SAnchor s) (SRotation s),
           Users = structureUniqueUsers s nowTick (word_of_int (DayTicks (cfg w)))\<rparr>)"

definition drop_structure :: "string \<Rightarrow> world \<Rightarrow> world" where
  "drop_structure sid w = w\<lparr>structures := mdel sid (structures w)\<rparr>"

definition still_placed :: "world \<Rightarrow> built_structure \<Rightarrow> bool" where
  "still_placed w s = checkBlueprintPlaced w (SBlueprintID s) (SAnchor s) (SRotation s)"

definition award_creation :: "go_floats \<Rightarrow> u64 \<Rightarrow> string \<Rightarrow> world \<Rightarrow> world" where
  "award_creation fl nowTick sid w =
     (case map_of (structures w) sid of
        None \<Rightarrow> w
      | Some s \<Rightarrow>
          if Awarded s \<or> nowTick < AwardDueTick s then w
          else if \<not> still_placed w s then drop_structure sid w
          else case (map_of (agents w) (BuilderID s), map_of (Blueprints (cats w)) (SBlueprintID s)) of
                 (Some _, Some bs) \<Rightarrow>
                   let pts = structureCreationScore fl w bs s nowTick;
                       w = (if pts > 0
                            then upd_agent (BuilderID s) (award fl w nowTick ''CREATION'' ''structure'' ''creation:structure'' pts) w
                            else w)
                   in w\<lparr>structures := mput sid (s\<lparr>Awarded := True\<rparr>) (structures w)\<rparr>
               | _ \<Rightarrow> drop_structure sid w)"

definition award_influence :: "go_floats \<Rightarrow> u64 \<Rightarrow> int \<Rightarrow> string \<Rightarrow> world \<Rightarrow> world" where
  "award_influence fl nowTick day sid w =
     (case map_of (structures w) sid of
        None \<Rightarrow> w
      | Some s \<Rightarrow>
          if \<not> still_placed w s then drop_structure sid w
          else if LastInfluenceDay s = day then w
          else
            let w = w\<lparr>structures := mput sid (s\<lparr>LastInfluenceDay := day\<rparr>) (structures w)\<rparr>;
                users = structureUniqueUsers s nowTick (word_of_int (DayTicks (cfg w)));
                pts = InfluenceUsagePoints fl users
            in if map_of (agents w) (BuilderID s) = None \<or> users \<le> 0 \<or> pts \<le> 0 then w
               else upd_agent (BuilderID s)
                      (award fl w nowTick ''INFLUENCE'' ''infra_usage_day'' ''influence:infra_usage_day'' pts) w)"

definition systemFun :: "go_floats \<Rightarrow> u64 \<Rightarrow> world \<Rightarrow> world" where
  "systemFun fl nowTick w =
     (let w = fold (award_creation fl nowTick) (sorted_keys (structures w)) w;
          day = (word_of_int (DayTicks (cfg w)) :: u64)
      in if DayTicks (cfg w) > 0 \<and> nowTick \<noteq> 0 \<and> nowTick mod day = 0
         then fold (award_influence fl nowTick (sint (nowTick div day))) (sorted_keys (structures w)) w
         else w)"

section \<open>The calendar\<close>

lemma nat_div_pred:
  fixes n l :: nat
  assumes "0 < n" and "0 < l"
  shows "n div l = (n - 1) div l \<longleftrightarrow> n mod l \<noteq> 0"
proof -
  obtain m where m: "n = Suc m" using assms(1) by (cases n) auto
  show ?thesis using assms(2) by (simp add: m div_Suc)
qed

lemma unat_pred: "0 < (n :: u64) \<Longrightarrow> unat (n - 1) = unat n - 1"
  by (simp add: unat_minus_one word_neq_0_conv)

lemma sint_div_small:
  fixes n l :: u64
  assumes "unat n < 2 ^ 62" shows "sint (n div l) = int (unat n div unat l)"
proof -
  have "unat n div unat l < 2 ^ 62" using div_le_dividend[of "unat n" "unat l"] assms by linarith
  then have "uint (n div l) < 2 ^ 62" by (simp add: uint_nat unat_div zdiv_int[symmetric])
  then have "signed_take_bit 63 (uint (n div l)) = uint (n div l)"
    by (intro signed_take_bit_int_eq_self) (rule order_trans[of _ 0], simp_all)
  then have "sint (n div l) = uint (n div l)" by (simp add: sint_uint)
  then show ?thesis by (simp add: uint_nat unat_div)
qed

text \<open>
  The calendar agrees with the resets.  The season that clients are told changes in exactly those ticks that
  reset the world, and the reset announces its number; when a season has a whole number of days, the day
  of the season starts at one with every season and counts its days up to the last.
\<close>

lemma season_calendar:
  assumes "season_len w \<noteq> 0" and "0 < now" and "unat now < 2 ^ 62"
  shows "maybeSeasonRollover now w =
      (if seasonIndex w now = seasonIndex w (now - 1) then w
       else resetWorldForNewSeason now (seasonIndex w now) (now - 1) w) \<and>
    (let day = unat (word_of_int (DayTicks (cfg w)) :: u64); len = unat (season_len w)
     in 0 < day \<and> day dvd len \<longrightarrow> seasonDay w now = int (unat now mod len div day) + 1)"
proof (unfold Let_def, intro conjI impI)
  let ?l = "unat (season_len w)"
  have l: "0 < ?l" using assms(1) by (simp add: unat_gt_0)
  have idx: "seasonIndex w n = int (unat n div ?l) + 1" if "unat n < 2 ^ 62" for n
  proof -
    have "unat n div ?l < 2 ^ 62" using div_le_dividend[of "unat n" ?l] that by linarith
    then have "int (unat n div ?l) < 2 ^ 62" by simp
    then show ?thesis
      using that assms(1) by (simp add: seasonIndex_def SeasonIndex_def season_len_def[symmetric] sint_div_small i64_nonneg)
  qed
  have p: "unat (now - 1) = unat now - 1" "0 < unat now" using assms(2) by (simp_all add: unat_pred unat_gt_0 word_neq_0_conv)
  have "seasonIndex w now = seasonIndex w (now - 1) \<longleftrightarrow> unat now div ?l = (unat now - 1) div ?l"
    using assms(3) p by (simp add: idx)
  also have "\<dots> \<longleftrightarrow> now mod season_len w \<noteq> 0"
    using nat_div_pred[OF p(2) l] by (metis unat_0 unat_mod word_unat_eq_iff)
  finally show "maybeSeasonRollover now w = (if seasonIndex w now = seasonIndex w (now - 1) then w
      else resetWorldForNewSeason now (seasonIndex w now) (now - 1) w)"
    using assms idx[OF assms(3)] by (auto simp: maybeSeasonRollover_def Let_def seasonIndex_def SeasonIndex_def season_len_def[symmetric])
next
  let ?l = "unat (season_len w)" and ?d = "unat (word_of_int (DayTicks (cfg w)) :: u64)"
  let ?day = "word_of_int (DayTicks (cfg w)) :: u64"
  assume d: "0 < ?d \<and> ?d dvd ?l"
  have l: "0 < ?l" using assms(1) by (simp add: unat_gt_0)
  obtain q where q: "?l = ?d * q" "0 < q" using d l by (metis dvdE gr0I mult_0_right less_irrefl)
  have qd: "unat (season_len w div ?day) = q" using q d by (simp add: unat_div)
  then have nz: "season_len w div ?day \<noteq> 0" using q(2) by (metis less_irrefl unat_0)
  have "unat ((now div ?day) mod (season_len w div ?day)) = unat now div ?d mod q" by (simp add: unat_mod qd) (simp add: unat_div)
  also have "\<dots> = unat now mod ?l div ?d" using d by (simp add: q(1) mod_mult2_eq)
  finally have u: "unat ((now div ?day) mod (season_len w div ?day)) = unat now mod ?l div ?d" .
  then have "unat ((now div ?day) mod (season_len w div ?day)) < 2 ^ 62"
    using div_le_dividend[of "unat now mod ?l" ?d] mod_less_eq_dividend[of "unat now" ?l] assms(3) by linarith
  then have "sint ((now div ?day) mod (season_len w div ?day)) = int (unat now mod ?l div ?d)"
    "int (unat now mod ?l div ?d) < 2 ^ 62"
    using sint_div_small[of "(now div ?day) mod (season_len w div ?day)" 1] u by simp_all
  then show "seasonDay w now = int (unat now mod ?l div ?d) + 1"
    using d nz by (simp add: seasonDay_def SeasonDay_def Let_def season_len_def[symmetric] unat_gt_0 i64_nonneg)
qed

section \<open>Structures are awarded once\<close>

definition settled :: "u64 \<Rightarrow> string \<Rightarrow> world \<Rightarrow> bool" where
  "settled now sid w \<longleftrightarrow> (\<forall>s. map_of (structures w) sid = Some s \<longrightarrow> Awarded s \<or> now < AwardDueTick s)"

definition counted :: "int \<Rightarrow> string \<Rightarrow> world \<Rightarrow> bool" where
  "counted day sid w \<longleftrightarrow> (\<forall>s. map_of (structures w) sid = Some s \<longrightarrow> still_placed w s \<and> LastInfluenceDay s = day)"

definition terrain_of :: "world \<Rightarrow> _" where
  "terrain_of w = (cfg w, cats w, blocks w, airBlock w)"

lemma still_placed_terrain: "terrain_of w' = terrain_of w \<Longrightarrow> still_placed w' = still_placed w"
proof -
  assume "terrain_of w' = terrain_of w"
  then have t: "cfg w' = cfg w" "cats w' = cats w" "blocks w' = blocks w" "airBlock w' = airBlock w" by (simp_all add: terrain_of_def)
  then have "GetBlock w' = GetBlock w" by (intro ext) (simp add: GetBlock_def InBounds_def)
  with t show ?thesis by (intro ext) (simp add: still_placed_def checkBlueprintPlaced_def split: option.split)
qed

lemma still_placed_update [simp]:
  "still_placed w (s\<lparr>LastInfluenceDay := d\<rparr>) = still_placed w s" "still_placed w (s\<lparr>Awarded := b\<rparr>) = still_placed w s"
  by (simp_all add: still_placed_def)

text \<open>One award: it looks at one structure, and only that one can change.\<close>

lemma award_creation_step:
  "settled now sid (award_creation fl now sid w)"
  "terrain_of (award_creation fl now sid w) = terrain_of w"
  "k \<noteq> sid \<Longrightarrow> map_of (structures (award_creation fl now sid w)) k = map_of (structures w) k"
  "settled now sid w \<Longrightarrow> award_creation fl now sid w = w"
  "map_of (structures w) k = None \<Longrightarrow> map_of (structures (award_creation fl now sid w)) k = None"
  by (auto simp: award_creation_def settled_def terrain_of_def drop_structure_def gomap Let_def split: option.split)

lemma award_influence_step:
  "counted day sid (award_influence fl now day sid w)"
  "terrain_of (award_influence fl now day sid w) = terrain_of w"
  "k \<noteq> sid \<Longrightarrow> map_of (structures (award_influence fl now day sid w)) k = map_of (structures w) k"
  "counted day sid w \<Longrightarrow> award_influence fl now day sid w = w"
  "map_of (structures w) k = None \<Longrightarrow> map_of (structures (award_influence fl now day sid w)) k = None"
  "settled now k w \<Longrightarrow> settled now k (award_influence fl now day sid w)"
proof -
  show t: "terrain_of (award_influence fl now day sid w) = terrain_of w"
    by (simp add: award_influence_def terrain_of_def drop_structure_def Let_def split: option.split)
  show "counted day sid (award_influence fl now day sid w)"
    unfolding counted_def still_placed_terrain[OF t]
    by (auto simp: award_influence_def drop_structure_def gomap Let_def split: option.splits if_splits)
  show "k \<noteq> sid \<Longrightarrow> map_of (structures (award_influence fl now day sid w)) k = map_of (structures w) k"
    "counted day sid w \<Longrightarrow> award_influence fl now day sid w = w"
    "map_of (structures w) k = None \<Longrightarrow> map_of (structures (award_influence fl now day sid w)) k = None"
    "settled now k w \<Longrightarrow> settled now k (award_influence fl now day sid w)"
    by (auto simp: award_influence_def counted_def settled_def drop_structure_def gomap Let_def split: option.splits if_splits)
qed

text \<open>A pass over keys with a step that settles its own key and leaves the others alone.\<close>

lemma pass_settles:
  fixes f :: "string \<Rightarrow> world \<Rightarrow> world"
  assumes own: "\<And>k w. P k (f k w)" and other: "\<And>k j w. P k w \<Longrightarrow> P k (f j w)"
  shows "(\<forall>k \<in> set ks. P k (fold f ks w)) \<and> (\<forall>k. P k w \<longrightarrow> P k (fold f ks w))"
  using own other by (induction ks arbitrary: w) auto

lemma pass_idle:
  fixes f :: "string \<Rightarrow> world \<Rightarrow> world"
  assumes "\<And>k w. P k w \<Longrightarrow> f k w = w" and "\<forall>k \<in> set ks. P k w"
  shows "fold f ks w = w"
  using assms(2) by (induction ks) (simp_all add: assms(1))

lemma no_new_structures:
  assumes "\<And>k j w. map_of (structures w) k = None \<Longrightarrow> map_of (structures (f j w)) k = None"
  shows "map_of (structures w) k = None \<Longrightarrow> map_of (structures (fold f ks w)) k = None"
  using assms by (induction ks arbitrary: w) auto

lemma settled_other: "settled now k w \<Longrightarrow> settled now k (award_creation fl now j w)"
  by (cases "k = j") (simp_all add: award_creation_step(1), simp add: settled_def award_creation_step(3))

lemma counted_other: "counted day k w \<Longrightarrow> counted day k (award_influence fl now day j w)"
  by (cases "k = j") (simp_all add: award_influence_step(1),
      simp add: counted_def award_influence_step(3) still_placed_terrain[OF award_influence_step(2)])

lemma pass_terrain:
  "(\<And>k w. terrain_of (f k w) = terrain_of w) \<Longrightarrow> terrain_of (fold f ks w) = terrain_of w"
  by (induction ks arbitrary: w) simp_all

lemma mem_sorted_keys: "k \<in> set (sorted_keys m) \<longleftrightarrow> map_of m k \<noteq> None"
  by (simp add: map_of_eq_None_iff)

text \<open>
  C35. The awards for structures are given once: running the fun system again in the same tick changes nothing, for
  every state of the world, on ordinary ticks and at the end of a day.  Every structure left after a tick is
  awarded or not yet due, and at the end of a day it still stands and has been counted for that day.
\<close>

theorem systemFun_once:
  "systemFun fl now (systemFun fl now w) = systemFun fl now w \<and>
   (\<forall>sid s. map_of (structures (systemFun fl now w)) sid = Some s \<longrightarrow>
      map_of (structures w) sid \<noteq> None \<and> (Awarded s \<or> now < AwardDueTick s) \<and>
      (0 < DayTicks (cfg w) \<and> now \<noteq> 0 \<and> now mod word_of_int (DayTicks (cfg w)) = 0 \<longrightarrow> still_placed w s))"
proof -
  define day where "day = sint (now div word_of_int (DayTicks (cfg w)))"
  define eod where "eod \<longleftrightarrow> DayTicks (cfg w) > 0 \<and> now \<noteq> 0 \<and> now mod word_of_int (DayTicks (cfg w)) = 0"
  define C where "C = fold (award_creation fl now)"
  define I where "I = fold (award_influence fl now day)"
  define w1 where "w1 = C (sorted_keys (structures w)) w"
  define w2 where "w2 = (if eod then I (sorted_keys (structures w1)) w1 else w1)"
  have t1: "terrain_of w1 = terrain_of w" unfolding w1_def C_def by (rule pass_terrain) (rule award_creation_step(2))
  have t2: "terrain_of w2 = terrain_of w"
    using t1 pass_terrain[of "award_influence fl now day", OF award_influence_step(2)] by (simp add: w2_def I_def)
  have run: "systemFun fl now v = (let v1 = C (sorted_keys (structures v)) v in if eod then I (sorted_keys (structures v1)) v1 else v1)"
    if "terrain_of v = terrain_of w" for v
  proof -
    have "terrain_of (C ks v) = terrain_of w" for ks
      using that pass_terrain[of "award_creation fl now", OF award_creation_step(2)] by (simp add: C_def)
    then have "cfg (C ks v) = cfg w" for ks by (simp add: terrain_of_def)
    then show ?thesis by (simp add: systemFun_def Let_def C_def I_def eod_def day_def)
  qed
  have w2: "systemFun fl now w = w2" by (simp add: run Let_def w1_def[symmetric] w2_def)
  have old1: "map_of (structures w) k = None \<Longrightarrow> map_of (structures w1) k = None" for k
    unfolding w1_def C_def by (rule no_new_structures) (rule award_creation_step(5))
  have old2: "map_of (structures w1) k = None \<Longrightarrow> map_of (structures w2) k = None" for k
    using no_new_structures[of "award_influence fl now day", OF award_influence_step(5)] by (simp add: w2_def I_def)
  have old: "map_of (structures w2) k = Some s \<Longrightarrow> \<exists>s. map_of (structures w) k = Some s" for k s
    using old1 old2 by (metis option.distinct(1) option.exhaust)
  have "settled now k w1" for k
  proof (cases "map_of (structures w) k")
    case None
    then show ?thesis using old1 by (simp add: settled_def)
  next
    case (Some s)
    then have "k \<in> set (sorted_keys (structures w))" unfolding mem_sorted_keys by simp
    then show ?thesis unfolding w1_def C_def
      using pass_settles[of "settled now" "award_creation fl now", OF award_creation_step(1) settled_other] by blast
  qed
  then have s2: "settled now k w2" for k
    using pass_settles[of "settled now" "\<lambda>k w. w"] award_influence_step(6)
    by (simp add: w2_def I_def) (metis (no_types, lifting) fold_invariant[where Q = "\<lambda>_. True" and P = "settled now k"])
  have c2: "counted day k w2" if eod for k
  proof (cases "map_of (structures w1) k")
    case None
    then show ?thesis using old2 by (simp add: counted_def)
  next
    case (Some s)
    then have "k \<in> set (sorted_keys (structures w1))" unfolding mem_sorted_keys by simp
    then show ?thesis using that unfolding w2_def I_def
      using pass_settles[of "counted day" "award_influence fl now day", OF award_influence_step(1) counted_other] by auto
  qed
  have "C ks w2 = w2" for ks unfolding C_def by (rule pass_idle[of "settled now"]) (auto simp: award_creation_step(4) s2)
  moreover have "eod \<Longrightarrow> I ks w2 = w2" for ks
    unfolding I_def by (rule pass_idle[of "counted day"]) (auto simp: award_influence_step(4) c2)
  ultimately have "systemFun fl now w2 = w2" by (simp add: run[OF t2] Let_def)
  then show ?thesis
    using w2 s2 c2 old still_placed_terrain[OF t2] by (simp add: settled_def counted_def eod_def)
qed

definition ruin_world :: world where
  "ruin_world = empty_world\<lparr>structures := [(''S1'',
     \<lparr>SBlueprintID = ''WELL'', BuilderID = ''A1'', SAnchor = \<lparr>vx = 0, vy = 0, vz = 0\<rparr>, SRotation = 0,
      SMin = \<lparr>vx = 0, vy = 0, vz = 0\<rparr>, SMax = \<lparr>vx = 0, vy = 0, vz = 0\<rparr>, CompletedTick = 1, AwardDueTick = 9000,
      Awarded = False, UsedBy = [], LastInfluenceDay = 0\<rparr>)]\<rparr>"

theorem systemFun_once_witness:
  "\<forall>fl. systemFun fl 6000 (systemFun fl 6000 ruin_world) = systemFun fl 6000 ruin_world \<and>
   map_of (structures (systemFun fl 6000 ruin_world)) ''S1'' = None"
proof
  fix fl
  have "\<not> still_placed ruin_world s" for s
    by (simp add: still_placed_def checkBlueprintPlaced_def ruin_world_def empty_world_def)
  moreover have "DayTicks (cfg ruin_world) = 6000" by (simp add: ruin_world_def)
  ultimately show "systemFun fl 6000 (systemFun fl 6000 ruin_world) = systemFun fl 6000 ruin_world \<and>
      map_of (structures (systemFun fl 6000 ruin_world)) ''S1'' = None"
    using systemFun_once[of fl 6000 ruin_world] by (cases "map_of (structures (systemFun fl 6000 ruin_world)) ''S1''") auto
qed

section \<open>A season starts fresh\<close>

lemma map_of_updates: "map_of (map (\<lambda>(k, v). (k, f v)) m) k = map_option f (map_of m k)"
  by (induction m) auto

definition identity_of :: "agent \<Rightarrow> _" where
  "identity_of a = (AID a, AName a, AOrgID a, ResumeToken a, (RepTrade a, RepBuild a, RepSocial a, RepLaw a), Memory a)"

lemma funOnBiome_identity:
  "identity_of (funOnBiome w now a) = identity_of a" "AInventory (funOnBiome w now a) = AInventory a"
  "HP (funOnBiome w now a) = HP a" "Hunger (funOnBiome w now a) = Hunger a" "WorkTask (funOnBiome w now a) = WorkTask a"
  by (simp_all add: funOnBiome_def MarkBiomeSeen_def addFun_def fun_field_def AddEvent_def identity_of_def Let_def case_prod_beta
      split: option.split)

lemma AddEvent_keeps [simp]:
  "identity_of (AddEvent e a) = identity_of a" "AInventory (AddEvent e a) = AInventory a" "HP (AddEvent e a) = HP a"
  "Hunger (AddEvent e a) = Hunger a" "StaminaMilli (AddEvent e a) = StaminaMilli a" "MoveTask (AddEvent e a) = MoveTask a"
  "WorkTask (AddEvent e a) = WorkTask a" "APos (AddEvent e a) = APos a"
  by (simp_all add: AddEvent_def identity_of_def Let_def)

definition fresh :: "world \<Rightarrow> agent \<Rightarrow> agent \<Rightarrow> bool" where
  "fresh w a a' \<longleftrightarrow> identity_of a' = identity_of a \<and> AInventory a' = starter_kit \<and> HP a' = 20 \<and> Hunger a' = 20 \<and>
     StaminaMilli a' = 1000 \<and> MoveTask a' = None \<and> WorkTask a' = None \<and> APos a' = spawn_point w (AID a)"

lemma season_agent_fresh: "fresh w a (season_events w now n t (resetAgentForNewSeason w now a))"
  by (simp add: fresh_def season_events_def resetAgentForNewSeason_def funOnBiome_identity funOnBiome_still)
     (simp add: ResetForSeason_def ResetFunTracking_def ResetRateLimits_def identity_of_def Let_def)

text \<open>What a reset leaves alone: the numbers identifiers are made of, and the clock.\<close>

definition counters_of :: "world \<Rightarrow> u64 list" where
  "counters_of w = [nextLandNum w, nextTradeNum w, nextContractNum w, nextLawNum w, nextOrgNum w, nextItemNum w, nextTaskNum w,
     nextPostNum w, nextAgentNum w, worldTick w]"

definition empty_ground :: "world \<Rightarrow> bool" where
  "empty_ground w \<longleftrightarrow> containers w = [] \<and> itemEnts w = [] \<and> itemsAt w = [] \<and> claims w = [] \<and> contracts w = [] \<and> laws w = [] \<and>
     trades w = [] \<and> structures w = [] \<and> boards w = [] \<and> signs w = [] \<and> conveyors w = [] \<and> switches w = []"

definition quiet_sky :: "world \<Rightarrow> bool" where
  "quiet_sky w \<longleftrightarrow> weather w = ''CLEAR'' \<and> weatherUntilTick w = 0 \<and> activeEventID w = [] \<and> activeEventStart w = 0 \<and>
     activeEventEnds w = 0 \<and> activeEventCenter w = \<lparr>vx = 0, vy = 0, vz = 0\<rparr> \<and> activeEventRadius w = 0"

lemma reset_fields:
  fixes w :: world and now :: u64 and n :: int and t :: u64
  defines "w' \<equiv> resetWorldForNewSeason now n t w"
  shows "containers w' = []" "itemEnts w' = []" "claims w' = []" "trades w' = []" "contracts w' = []" "laws w' = []"
    "structures w' = []" "itemsAt w' = []" "boards w' = []" "signs w' = []" "conveyors w' = []" "switches w' = []"
    "weather w' = ''CLEAR''" "weatherUntilTick w' = 0" "activeEventID w' = []" "activeEventStart w' = 0" "activeEventEnds w' = 0"
    "activeEventCenter w' = \<lparr>vx = 0, vy = 0, vz = 0\<rparr>" "activeEventRadius w' = 0" "stats w' = NewWorldStats 300 72000"
    "resetTotal w' = resetTotal w + 1" "counters_of w' = counters_of w" "cfg w' = (cfg w)\<lparr>Seed := i64 (Seed (cfg w) + 1)\<rparr>"
    "WorldID (cfg w') = WorldID (cfg w)" "Seed (cfg w') = i64 (Seed (cfg w) + 1)"
    "map_of (orgs w') oid = map_option (reset_treasury (WorldID (cfg w))) (map_of (orgs w) oid)"
    "blocks w' = (\<lambda>p. generated (worldGen w') (vx p) (vz p))"
  by (simp_all add: w'_def resetWorldForNewSeason_def new_ground_def Let_def auditEvent_def map_of_updates
      worldGen_def block_id_def counters_of_def)

lemma reset_agents:
  "\<exists>f. (\<forall>a. fresh (resetWorldForNewSeason now n t w) a (f a)) \<and>
     map_of (agents (resetWorldForNewSeason now n t w)) = map_option f \<circ> map_of (agents w)"
proof -
  define u where "u = (let w = new_ground w in w\<lparr>orgs := map (\<lambda>(oid, ob). (oid, reset_treasury (WorldID (cfg w)) ob)) (orgs w)\<rparr>)"
  define w' where "w' = resetWorldForNewSeason now n t w"
  have sp: "spawn_point w' = spawn_point u"
    by (simp add: w'_def u_def resetWorldForNewSeason_def Let_def spawn_point_def findSpawnAir_def GetBlock_def InBounds_def
        auditEvent_def fun_eq_iff)
  have ag: "agents w' = map (\<lambda>(aid, a). (aid, season_events u now n t (resetAgentForNewSeason u now a))) (agents u)"
    "agents u = agents w" by (simp_all add: w'_def u_def resetWorldForNewSeason_def new_ground_def Let_def auditEvent_def)
  let ?f = "\<lambda>a. season_events u now n t (resetAgentForNewSeason u now a)"
  have "fresh w' a (?f a)" for a using season_agent_fresh[of u a now n t] by (simp add: fresh_def sp)
  moreover have "map_of (agents w') = map_option ?f \<circ> map_of (agents w)" by (rule ext) (simp add: ag map_of_updates)
  ultimately show ?thesis unfolding w'_def by (intro exI[of _ ?f]) blast
qed

lemma stock_fresh:
  assumes "\<And>aid a. map_of (agents w) aid = Some a \<Longrightarrow> AInventory a = kit"
    and "\<And>oid. map_of (orgs w) oid \<noteq> None \<Longrightarrow> get_inv (TreasuryInv oid) w = []"
  shows "stock w k = int (card (dom (map_of (agents w)))) * cnt kit k"
proof -
  let ?A = "AgentInv ` dom (map_of (agents w))" and ?T = "TreasuryInv ` dom (map_of (orgs w))"
  have refs: "world_refs w = ?A \<union> ?T"
  proof (rule set_eqI)
    show "r \<in> world_refs w \<longleftrightarrow> r \<in> ?A \<union> ?T" for r by (cases r) (auto simp: world_refs_def)
  qed
  have "stock w k = sum (holdings w k) ?A + sum (holdings w k) ?T"
    unfolding stock_def refs by (rule sum.union_disjoint) (auto simp: finite_dom_map_of)
  moreover have "sum (holdings w k) ?T = 0"
    by (rule sum.neutral) (auto simp: holdings_def assms(2) simp del: get_inv.simps)
  moreover have "sum (holdings w k) ?A = (\<Sum>r\<in>?A. cnt kit k)"
    by (rule sum.cong) (auto simp: holdings_def dest: assms(1))
  moreover have "card ?A = card (dom (map_of (agents w)))" by (rule card_image) (simp add: inj_on_def)
  ultimately show ?thesis by simp
qed

text \<open>
  C34. A new season starts fresh.  At the end of a season every agent keeps its name, organization, reputation and
  memory, and starts with full vitals, no tasks and exactly the starter kit; organizations keep their members and
  what they own in other worlds.  Claims, contracts, laws, trades, containers, structures, boards, signs, belts,
  switches and items on the ground are gone, so the items of the world are the starter kits and nothing else; weather,
  running event and statistics start over, the terrain is the one generated from the next seed, and no identifier
  is used again.
\<close>

theorem season_fresh_start:
  assumes "season_len w \<noteq> 0" and "0 < now" and "now mod season_len w = 0" and "WorldID (cfg w) \<noteq> []"
  shows "(\<forall>k. stock (maybeSeasonRollover now w) k = int (card (dom (map_of (agents w)))) * cnt starter_kit k) \<and>
    empty_ground (maybeSeasonRollover now w) \<and> quiet_sky (maybeSeasonRollover now w) \<and>
    stats (maybeSeasonRollover now w) = NewWorldStats 300 72000 \<and> resetTotal (maybeSeasonRollover now w) = resetTotal w + 1 \<and>
    counters_of (maybeSeasonRollover now w) = counters_of w \<and>
    cfg (maybeSeasonRollover now w) = (cfg w)\<lparr>Seed := i64 (Seed (cfg w) + 1)\<rparr> \<and>
    (\<forall>aid. rel_option (fresh (maybeSeasonRollover now w)) (map_of (agents w) aid) (map_of (agents (maybeSeasonRollover now w)) aid)) \<and>
    (\<forall>oid. rel_option (\<lambda>ob ob'. OMembers ob' = OMembers ob \<and> OName ob' = OName ob \<and> OKind ob' = OKind ob \<and>
        (\<forall>wid. wid \<noteq> WorldID (cfg w) \<longrightarrow> map_of (TreasuryByWorld ob') wid = map_of (TreasuryByWorld ob) wid))
      (map_of (orgs w) oid) (map_of (orgs (maybeSeasonRollover now w)) oid)) \<and>
    blocks (maybeSeasonRollover now w) = (\<lambda>p. generated (worldGen (maybeSeasonRollover now w)) (vx p) (vz p)) \<and>
    GSeed (worldGen (maybeSeasonRollover now w)) = i64 (Seed (cfg w) + 1)"
proof -
  define n t where "n = i64 (sint (now div season_len w) + 1)" and "t = now - 1"
  define w' where "w' = resetWorldForNewSeason now n t w"
  have r: "maybeSeasonRollover now w = w'"
    using assms(1-3) by (simp add: maybeSeasonRollover_def Let_def w'_def n_def t_def)
  note F = reset_fields[of now n t w, folded w'_def]
  obtain f where f: "\<And>a. fresh w' a (f a)" "map_of (agents w') = map_option f \<circ> map_of (agents w)"
    using reset_agents[of now n t w] unfolding w'_def[symmetric] by blast
  have inv: "AInventory a = starter_kit" if "map_of (agents w') aid = Some a" for aid a
    using that f by (auto simp: fresh_def)
  have tre: "get_inv (TreasuryInv oid) w' = []" for oid
    using assms(4) by (auto simp: F reset_treasury_def TreasuryFor_def treasury_of_def treasury_key_def Let_def gomap split: option.split)
  have "dom (map_of (agents w')) = dom (map_of (agents w))" by (auto simp: f(2))
  then have s: "stock w' k = int (card (dom (map_of (agents w)))) * cnt starter_kit k" for k
    using stock_fresh[of w' starter_kit k, OF inv tre] by simp
  have o: "rel_option (\<lambda>ob ob'. OMembers ob' = OMembers ob \<and> OName ob' = OName ob \<and> OKind ob' = OKind ob \<and>
      (\<forall>wid. wid \<noteq> WorldID (cfg w) \<longrightarrow> map_of (TreasuryByWorld ob') wid = map_of (TreasuryByWorld ob) wid))
      (map_of (orgs w) oid) (map_of (orgs w') oid)" for oid
    by (cases "map_of (orgs w) oid") (auto simp: F reset_treasury_def gomap)
  have g: "rel_option (fresh w') (map_of (agents w) aid) (map_of (agents w') aid)" for aid
    by (cases "map_of (agents w) aid") (auto simp: f)
  have "GSeed (worldGen w') = i64 (Seed (cfg w) + 1)" using F by (simp add: worldGen_def)
  moreover have "empty_ground w'" "quiet_sky w'" using F by (simp_all add: empty_ground_def quiet_sky_def)
  ultimately show ?thesis unfolding r using s o g F by blast
qed

theorem season_fresh_start_witness:
  "stock (maybeSeasonRollover 42000 (empty_world\<lparr>agents := [(''A1'', agent_named ''A1'' [(''CRYSTAL_SHARD'', 900)])]\<rparr>)) ''CRYSTAL_SHARD'' = 0"
proof -
  let ?w = "empty_world\<lparr>agents := [(''A1'', agent_named ''A1'' [(''CRYSTAL_SHARD'', 900)])]\<rparr>"
  have "season_len ?w = 42000"
    by (simp add: season_len_def SeasonLength_def applyDefaults_def blank_config_def Let_def positive_or_def no_capability_def)
  then show ?thesis using season_fresh_start[of ?w 42000] by (simp add: starter_kit_def cnt_def)
qed

end
