(* ===== verification/Board_Handlers.thy ===== *)
theory Board_Handlers
  imports Session_Model
begin

text \<open>
  The fixtures agents write to: bulletin boards, signs and switches (\<open>feature/observer/posting\<close>,
  \<open>feature/observer/search\<close>, \<open>feature/observer/targets\<close>, \<open>feature/conveyor/runtime/instants.go\<close>).
  \<open>lower\<close> is \<open>strings.ToLower\<close>, whose tables for letters outside ASCII are not modelled.
\<close>

section \<open>Targets\<close>

definition ValidatePhysicalBoardTarget :: "string \<Rightarrow> string \<Rightarrow> int \<Rightarrow> bool \<Rightarrow> verdict" where
  "ValidatePhysicalBoardTarget targetType blk distance postingAllowed =
     (if targetType \<noteq> ''BULLETIN_BOARD'' then refuse ''E_BAD_REQUEST'' ''invalid board target''
      else if blk \<noteq> ''BULLETIN_BOARD'' then refuse ''E_INVALID_TARGET'' ''bulletin board not found''
      else if distance > 3 then refuse ''E_BLOCKED'' ''too far''
      else if \<not> postingAllowed then refuse ''E_NO_PERMISSION'' ''posting not allowed here''
      else accept)"

definition ValidateSetSignTarget :: "string \<Rightarrow> string \<Rightarrow> int \<Rightarrow> int \<Rightarrow> verdict" where
  "ValidateSetSignTarget targetType blk distance textLen =
     (if targetType \<noteq> ''SIGN'' then refuse ''E_BAD_REQUEST'' ''invalid sign target''
      else if blk \<noteq> ''SIGN'' then refuse ''E_INVALID_TARGET'' ''sign not found''
      else if distance > 3 then refuse ''E_BLOCKED'' ''too far''
      else if textLen > 200 then refuse ''E_BAD_REQUEST'' ''text too large''
      else accept)"

definition ResolveBoardID :: "string \<Rightarrow> string \<Rightarrow> string" where
  "ResolveBoardID boardID targetID =
     (let b = trim_space boardID; t = trim_space targetID in if t \<noteq> [] then t else b)"

definition ValidatePostInput_board :: "string \<Rightarrow> string \<Rightarrow> string \<Rightarrow> verdict" where
  "ValidatePostInput_board boardID title body =
     (if boardID = [] \<or> title = [] \<or> body = [] then refuse ''E_BAD_REQUEST'' ''missing board_id/target_id/title/body''
      else if length title > 80 \<or> length body > 2000 then refuse ''E_BAD_REQUEST'' ''post too large''
      else accept)"

definition ValidateSearchInput :: "string \<Rightarrow> string \<Rightarrow> verdict" where
  "ValidateSearchInput boardID query =
     (if boardID = [] \<or> query = [] then refuse ''E_BAD_REQUEST'' ''missing board_id/target_id/text''
      else if length query > 120 then refuse ''E_BAD_REQUEST'' ''query too large''
      else accept)"

definition parse_target :: "string \<Rightarrow> (string \<times> vec3) option" where
  "parse_target s = map_option (\<lambda>(typ, x, y, z). (typ, \<lparr>vx = x, vy = y, vz = z\<rparr>)) (ParseContainerID s)"

definition block_at :: "world \<Rightarrow> vec3 \<Rightarrow> string" where
  "block_at w p = blockName w (GetBlock w p)"

definition postingAllowed :: "world \<Rightarrow> string \<Rightarrow> vec3 \<Rightarrow> bool" where
  "postingAllowed w aid pos =
     (case landAt w pos of None \<Rightarrow> True | Some land \<Rightarrow> isLandMember w aid (Some land) \<or> AllowTrade (Flags land))"

section \<open>Posting\<close>

definition posts_of :: "string \<Rightarrow> world \<Rightarrow> board_post list" where
  "posts_of boardID w = (case map_of (boards w) boardID of None \<Rightarrow> [] | Some ps \<Rightarrow> ps)"

text \<open>The end of an accepted post: the board exists from now on, the post goes to its end.\<close>

definition add_post :: "string \<Rightarrow> instant \<Rightarrow> u64 \<Rightarrow> string \<Rightarrow> vec3 \<Rightarrow> world \<Rightarrow> world" where
  "add_post aid inst nowTick boardID pos w =
     (case newPostID w of
        (postID, w) \<Rightarrow>
          let post = \<lparr>PostID = postID, PostAuthor = aid, PostTitle = InstTitle inst, PostBody = InstBody inst, PostTick = nowTick\<rparr>;
              w = w\<lparr>boards := mput boardID (posts_of boardID w @ [post]) (boards w)\<rparr>;
              w = auditEvent nowTick aid ''BOARD_POST'' pos ''POST_BOARD''
                    [(''board_id'', JStr boardID), (''post_id'', JStr postID), (''title'', JStr (InstTitle inst))] w
          in emit aid [(''t'', JU64 nowTick), (''type'', JStr ''ACTION_RESULT''), (''ref'', JStr (InstID inst)),
                       (''ok'', JBool True), (''post_id'', JStr postID)] w)"

definition post_board :: "string \<Rightarrow> instant \<Rightarrow> u64 \<Rightarrow> world \<Rightarrow> world" where
  "post_board aid inst nowTick w =
     (case map_of (agents w) aid of
        None \<Rightarrow> w
      | Some a \<Rightarrow>
          let boardID = ResolveBoardID (InstBoardID inst) (InstTargetID inst);
              v = ValidatePostInput_board boardID (InstTitle inst) (InstBody inst)
          in if \<not> fst v then reply_verdict aid nowTick (InstID inst) v w
             else case parse_target boardID of
                    None \<Rightarrow> add_post aid inst nowTick boardID \<lparr>vx = 0, vy = 0, vz = 0\<rparr> w
                  | Some (typ, pos) \<Rightarrow>
                      let v = ValidatePhysicalBoardTarget typ (block_at w pos) (Manhattan (APos a) pos) (postingAllowed w aid pos)
                      in if \<not> fst v then reply_verdict aid nowTick (InstID inst) v w
                         else add_post aid inst nowTick (boardIDAt pos) pos w)"

definition HandlePostBoard :: "string \<Rightarrow> instant \<Rightarrow> u64 \<Rightarrow> world \<Rightarrow> world" where
  "HandlePostBoard aid inst nowTick w =
     rate_limited aid (InstID inst) nowTick ''POST_BOARD'' (word_of_int (PostBoardWindowTicks (RateLimits (cfg w))))
       (PostBoardMax (RateLimits (cfg w))) ''too many POST_BOARD'' (post_board aid inst nowTick) w"

section \<open>Searching\<close>

definition NormalizeBoardSearchLimit :: "int \<Rightarrow> int" where
  "NormalizeBoardSearchLimit limit = (if limit \<le> 0 then 20 else if limit > 50 then 50 else limit)"

fun contains_text :: "string \<Rightarrow> string \<Rightarrow> bool" where
  "contains_text [] q = (q = [])"
| "contains_text (c # s) q = (starts_with q (c # s) \<or> contains_text s q)"

definition post_json :: "board_post \<Rightarrow> (string \<times> jval) list" where
  "post_json p = [(''post_id'', JStr (PostID p)), (''author'', JStr (PostAuthor p)), (''title'', JStr (PostTitle p)),
     (''body'', JStr (if length (PostBody p) > 400 then take 400 (PostBody p) else PostBody p)), (''tick'', JU64 (PostTick p))]"

text \<open>The loop goes from the newest post to the oldest; \<open>n\<close> is the number of results still wanted.\<close>

fun match_posts :: "(string \<Rightarrow> string) \<Rightarrow> string \<Rightarrow> nat \<Rightarrow> board_post list \<Rightarrow> (string \<times> jval) list list" where
  "match_posts lower q n [] = []"
| "match_posts lower q 0 (p # ps) = []"
| "match_posts lower q (Suc n) (p # ps) =
     (if contains_text (lower (PostTitle p)) q \<or> contains_text (lower (PostBody p)) q
      then post_json p # match_posts lower q n ps else match_posts lower q (Suc n) ps)"

definition MatchBoardPosts :: "(string \<Rightarrow> string) \<Rightarrow> board_post list \<Rightarrow> string \<Rightarrow> int \<Rightarrow> (string \<times> jval) list list" where
  "MatchBoardPosts lower posts query limit =
     (let q = lower (trim_space query)
      in if q = [] \<or> posts = [] \<or> limit \<le> 0 then [] else match_posts lower q (nat limit) (rev posts))"

definition answer_search :: "(string \<Rightarrow> string) \<Rightarrow> string \<Rightarrow> instant \<Rightarrow> u64 \<Rightarrow> string \<Rightarrow> string \<Rightarrow> world \<Rightarrow> world" where
  "answer_search lower aid inst nowTick boardID query w =
     (case map_of (boards w) boardID of
        None \<Rightarrow> reply aid nowTick (InstID inst) False ''E_INVALID_TARGET'' ''board not found'' w
      | Some ps \<Rightarrow>
          reply aid nowTick (InstID inst) True [] ''ok''
            (emit aid [(''t'', JU64 nowTick), (''type'', JStr ''BOARD_SEARCH''), (''board_id'', JStr boardID),
                       (''query'', JStr query), (''total_posts'', JInt (int (length ps))),
                       (''results'', JObjs (MatchBoardPosts lower ps query (NormalizeBoardSearchLimit (InstLimit inst))))] w))"

definition HandleSearchBoard :: "(string \<Rightarrow> string) \<Rightarrow> string \<Rightarrow> instant \<Rightarrow> u64 \<Rightarrow> world \<Rightarrow> world" where
  "HandleSearchBoard lower aid inst nowTick w =
     (case map_of (agents w) aid of
        None \<Rightarrow> w
      | Some a \<Rightarrow>
          let boardID = ResolveBoardID (InstBoardID inst) (InstTargetID inst);
              query = trim_space (InstText inst);
              v = ValidateSearchInput boardID query
          in if \<not> fst v then reply_verdict aid nowTick (InstID inst) v w
             else case parse_target boardID of
                    Some (typ, pos) \<Rightarrow>
                      if typ \<noteq> ''BULLETIN_BOARD'' then answer_search lower aid inst nowTick boardID query w
                      else
                        let v = ValidatePhysicalBoardTarget typ (block_at w pos) (Manhattan (APos a) pos) True
                        in if \<not> fst v then reply_verdict aid nowTick (InstID inst) v w
                           else answer_search lower aid inst nowTick (boardIDAt pos) query (ensureBoard pos w)
                  | None \<Rightarrow> answer_search lower aid inst nowTick boardID query w)"

section \<open>Signs and switches\<close>

definition edit_denied :: "string \<Rightarrow> instant \<Rightarrow> u64 \<Rightarrow> string \<Rightarrow> world \<Rightarrow> world" where
  "edit_denied aid inst nowTick msg w =
     reply aid nowTick (InstID inst) False ''E_NO_PERMISSION'' msg (record_denied nowTick (bumpRepLaw aid (- 1) w))"

definition put_sign :: "string \<Rightarrow> instant \<Rightarrow> u64 \<Rightarrow> vec3 \<Rightarrow> world \<Rightarrow> world" where
  "put_sign aid inst nowTick pos w =
     (let w = w\<lparr>signs := mput pos \<lparr>SignPos = pos, SignText = InstText inst, SignUpdatedTick = nowTick, SignUpdatedBy = aid\<rparr>
                  (signs w)\<rparr>;
          w = auditEvent nowTick aid ''SIGN_SET'' pos ''SET_SIGN''
                [(''sign_id'', JStr (signIDAt pos)), (''text'', JStr (InstText inst)),
                 (''text_length'', JInt (int (length (InstText inst))))] w
      in reply aid nowTick (InstID inst) True [] ''ok'' w)"

definition HandleSetSign :: "go_floats \<Rightarrow> string \<Rightarrow> instant \<Rightarrow> u64 \<Rightarrow> world \<Rightarrow> world" where
  "HandleSetSign fl aid inst nowTick w =
     (case map_of (agents w) aid of
        None \<Rightarrow> w
      | Some a \<Rightarrow>
          let target = trim_space (InstTargetID inst)
          in if target = [] then reply aid nowTick (InstID inst) False ''E_BAD_REQUEST'' ''missing target_id'' w
             else case parse_target target of
                    None \<Rightarrow> reply aid nowTick (InstID inst) False ''E_BAD_REQUEST'' ''invalid sign target'' w
                  | Some (typ, pos) \<Rightarrow>
                      let v = ValidateSetSignTarget typ (block_at w pos) (Manhattan (APos a) pos) (int (length (InstText inst)))
                      in if \<not> fst v then reply_verdict aid nowTick (InstID inst) v w
                         else if \<not> canBuildAt fl w aid pos nowTick then edit_denied aid inst nowTick ''sign edit denied'' w
                         else put_sign aid inst nowTick pos w)"

definition switch_at :: "world \<Rightarrow> vec3 \<Rightarrow> bool" where
  "switch_at w pos \<longleftrightarrow> map_of (switches w) pos = Some True"

definition flip_switch :: "string \<Rightarrow> instant \<Rightarrow> u64 \<Rightarrow> vec3 \<Rightarrow> world \<Rightarrow> world" where
  "flip_switch aid inst nowTick pos w =
     (let on = (\<not> switch_at w pos);
          w = w\<lparr>switches := mput pos on (switches w)\<rparr>;
          w = auditEvent nowTick aid ''SWITCH_TOGGLE'' pos ''TOGGLE_SWITCH''
                [(''switch_id'', JStr (switchIDAt pos)), (''on'', JBool on)] w;
          w = emit aid [(''t'', JU64 nowTick), (''type'', JStr ''SWITCH''), (''switch_id'', JStr (switchIDAt pos)),
                        (''pos'', jpos pos), (''on'', JBool on)] w
      in reply aid nowTick (InstID inst) True [] ''ok'' w)"

definition HandleToggleSwitch :: "go_floats \<Rightarrow> string \<Rightarrow> instant \<Rightarrow> u64 \<Rightarrow> world \<Rightarrow> world" where
  "HandleToggleSwitch fl aid inst nowTick w =
     (case map_of (agents w) aid of
        None \<Rightarrow> w
      | Some a \<Rightarrow>
          let target = trim_space (InstTargetID inst)
          in if target = [] then reply aid nowTick (InstID inst) False ''E_BAD_REQUEST'' ''missing target_id'' w
             else case parse_target target of
                    None \<Rightarrow> reply aid nowTick (InstID inst) False ''E_BAD_REQUEST'' ''invalid switch target'' w
                  | Some (typ, pos) \<Rightarrow>
                      if typ \<noteq> ''SWITCH'' then reply aid nowTick (InstID inst) False ''E_BAD_REQUEST'' ''invalid switch target'' w
                      else if block_at w pos \<noteq> ''SWITCH'' then
                        reply aid nowTick (InstID inst) False ''E_INVALID_TARGET'' ''switch not found'' w
                      else if Manhattan (APos a) pos > 3 then reply aid nowTick (InstID inst) False ''E_BLOCKED'' ''too far'' w
                      else if \<not> canBuildAt fl w aid pos nowTick then edit_denied aid inst nowTick ''switch toggle denied'' w
                      else flip_switch aid inst nowTick pos w)"

end
