(* ===== verification/Agent_Frame.thy ===== *)
theory Agent_Frame
  imports Transfer_Model Law_Handlers Work_Blueprint Season_Model Board_Handlers
begin

text \<open>
  Who is in the world.  The roll of a world says under which identifiers which agents are registered, with their
  names, resume tokens and switch cooldowns, the tick, the counter of agent identifiers and the name of the world.  No
  handler and no system of a tick changes it; a handler is followed along its branches by the rules \<open>roll_intros\<close>.
\<close>

definition who :: "agent \<Rightarrow> string \<times> string \<times> string \<times> u64 \<times> string" where
  "who a = (AID a, AName a, CurrentWorldID a, SwitchCooldownUntil a, ResumeToken a)"

lemma who_updates [simp]:
  "who (a\<lparr>AOrgID := y0\<rparr>) = who a"
  "who (a\<lparr>APos := y1\<rparr>) = who a"
  "who (a\<lparr>Yaw := y2\<rparr>) = who a"
  "who (a\<lparr>HP := y3\<rparr>) = who a"
  "who (a\<lparr>Hunger := y4\<rparr>) = who a"
  "who (a\<lparr>StaminaMilli := y5\<rparr>) = who a"
  "who (a\<lparr>RepTrade := y6\<rparr>) = who a"
  "who (a\<lparr>RepBuild := y7\<rparr>) = who a"
  "who (a\<lparr>RepSocial := y8\<rparr>) = who a"
  "who (a\<lparr>RepLaw := y9\<rparr>) = who a"
  "who (a\<lparr>AFun := y10\<rparr>) = who a"
  "who (a\<lparr>AInventory := y11\<rparr>) = who a"
  "who (a\<lparr>MainHand := y12\<rparr>) = who a"
  "who (a\<lparr>Armor := y13\<rparr>) = who a"
  "who (a\<lparr>MoveTask := y14\<rparr>) = who a"
  "who (a\<lparr>WorkTask := y15\<rparr>) = who a"
  "who (a\<lparr>Events := y16\<rparr>) = who a"
  "who (a\<lparr>EventCursor := y17\<rparr>) = who a"
  "who (a\<lparr>EventLog := y18\<rparr>) = who a"
  "who (a\<lparr>rl := y19\<rparr>) = who a"
  "who (a\<lparr>funDecay := y20\<rparr>) = who a"
  "who (a\<lparr>seenBiomes := y21\<rparr>) = who a"
  "who (a\<lparr>seenRecipes := y22\<rparr>) = who a"
  "who (a\<lparr>seenEvents := y23\<rparr>) = who a"
  "who (a\<lparr>Memory := y24\<rparr>) = who a"
  "who (a\<lparr>PendingMemory := y25\<rparr>) = who a"
  by (simp_all add: who_def)

lemma who_events [simp]: "who (AddEvent e a) = who a" "who (snd (TakeEvents a)) = who a"
  by (simp_all add: AddEvent_def TakeEvents_def Let_def)

lemma who_windows [simp]:
  "who (snd (snd (RateLimitAllow k t v m a))) = who a" "who (snd (FunDecayDelta f k b t v q a)) = who a"
  "who (ResetRateLimits a) = who a" "who (ResetFunTracking a) = who a"
  by (simp_all add: RateLimitAllow_def FunDecayDelta_def ResetRateLimits_def ResetFunTracking_def Let_def split_beta split: option.split)

lemma who_seen [simp]:
  "who (snd (MarkBiomeSeen b a)) = who a" "who (snd (MarkRecipeSeen b a)) = who a" "who (snd (MarkEventSeen b a)) = who a"
  by (simp_all add: MarkBiomeSeen_def MarkRecipeSeen_def MarkEventSeen_def split_beta)

lemma who_memory [simp]: "who (MemorySave k v l t a) = who a" "who (snd (MemoryLoad k m t a)) = who a"
  by (simp_all add: MemorySave_def MemoryLoad_def Let_def split_beta)

lemma who_addFun [simp]: "who (addFun t d m n a) = who a"
  by (simp add: addFun_def Let_def split_beta split: option.split)

lemma who_award [simp]: "who (award fl w t d m k b a) = who a"
  by (simp add: award_def split_beta)

lemma who_fun [simp]:
  "who (funOnRecipe r n t a) = who a" "who (funOnWorldEventParticipation e t a) = who a" "who (funOnTrade fl w t a) = who a"
  "who (funOnContractComplete fl w t k a) = who a" "who (funOnBlueprintComplete fl w t a) = who a"
  "who (funOnLawActive fl w t a) = who a" "who (funOnVote fl w t a) = who a" "who (funOnBiome w t a) = who a"
  by (simp_all add: funOnRecipe_def funOnWorldEventParticipation_def funOnTrade_def funOnContractComplete_def
      funOnBlueprintComplete_def funOnLawActive_def funOnVote_def funOnBiome_def Let_def split_beta)

lemma who_vitals [simp]: "who (respawned t m p q l a) = who a" "who (damaged t k a) = who a" "who (recover n a) = who a"
  by (simp_all add: respawned_def damaged_def recover_def Let_def)

lemma who_season [simp]:
  "who (enqueueActiveEventForAgent t w a) = who a" "who (resetAgentForNewSeason w t a) = who a" "who (season_events w t n u a) = who a"
  by (simp_all add: enqueueActiveEventForAgent_def resetAgentForNewSeason_def ResetForSeason_def season_events_def Let_def split: option.split)

definition roll :: "world \<Rightarrow> (string \<Rightarrow> (string \<times> string \<times> string \<times> u64 \<times> string) option) \<times> u64 \<times> u64 \<times> string" where
  "roll w = ((\<lambda>k. map_option who (map_of (agents w) k)), worldTick w, nextAgentNum w, WorldID (cfg w))"

lemma roll_updates [simp]:
  "roll (w\<lparr>cats := x0\<rparr>) = roll w"
  "roll (w\<lparr>airBlock := x1\<rparr>) = roll w"
  "roll (w\<lparr>blocks := x2\<rparr>) = roll w"
  "roll (w\<lparr>claims := x3\<rparr>) = roll w"
  "roll (w\<lparr>containers := x4\<rparr>) = roll w"
  "roll (w\<lparr>trades := x5\<rparr>) = roll w"
  "roll (w\<lparr>contracts := x6\<rparr>) = roll w"
  "roll (w\<lparr>laws := x7\<rparr>) = roll w"
  "roll (w\<lparr>orgs := x8\<rparr>) = roll w"
  "roll (w\<lparr>nextLandNum := x9\<rparr>) = roll w"
  "roll (w\<lparr>nextTradeNum := x10\<rparr>) = roll w"
  "roll (w\<lparr>nextContractNum := x11\<rparr>) = roll w"
  "roll (w\<lparr>nextLawNum := x12\<rparr>) = roll w"
  "roll (w\<lparr>nextOrgNum := x13\<rparr>) = roll w"
  "roll (w\<lparr>weather := x14\<rparr>) = roll w"
  "roll (w\<lparr>activeEventID := x15\<rparr>) = roll w"
  "roll (w\<lparr>activeEventEnds := x16\<rparr>) = roll w"
  "roll (w\<lparr>stats := x17\<rparr>) = roll w"
  "roll (w\<lparr>audits := x18\<rparr>) = roll w"
  "roll (w\<lparr>itemEnts := x19\<rparr>) = roll w"
  "roll (w\<lparr>itemsAt := x20\<rparr>) = roll w"
  "roll (w\<lparr>conveyors := x21\<rparr>) = roll w"
  "roll (w\<lparr>switches := x22\<rparr>) = roll w"
  "roll (w\<lparr>signs := x23\<rparr>) = roll w"
  "roll (w\<lparr>boards := x24\<rparr>) = roll w"
  "roll (w\<lparr>structures := x25\<rparr>) = roll w"
  "roll (w\<lparr>smeltByInput := x26\<rparr>) = roll w"
  "roll (w\<lparr>nextItemNum := x27\<rparr>) = roll w"
  "roll (w\<lparr>nextTaskNum := x28\<rparr>) = roll w"
  "roll (w\<lparr>nextPostNum := x29\<rparr>) = roll w"
  "roll (w\<lparr>activeEventCenter := x30\<rparr>) = roll w"
  "roll (w\<lparr>activeEventRadius := x31\<rparr>) = roll w"
  "roll (w\<lparr>weatherUntilTick := x32\<rparr>) = roll w"
  "roll (w\<lparr>activeEventStart := x33\<rparr>) = roll w"
  "roll (w\<lparr>resetTotal := x34\<rparr>) = roll w"
  "roll (w\<lparr>actDedupe := x35\<rparr>) = roll w"
  by (simp_all add: roll_def)

lemma roll_agents: "(\<And>k. map_option who (map_of m k) = map_option who (map_of (agents w) k)) \<Longrightarrow> roll (w\<lparr>agents := m\<rparr>) = roll w"
  by (simp add: roll_def)

lemma roll_upd_agent [simp]:
  "(\<And>a. who (f a) = who a) \<Longrightarrow> roll (upd_agent aid f w) = roll w"
  "who b = who (the (map_of (agents w) aid)) \<Longrightarrow> roll (upd_agent aid (\<lambda>_. b) w) = roll w"
  by (auto simp: upd_agent_def roll_def map_of_mput split: option.split)

lemma map_of_pairwise: "map_of (map (\<lambda>(k, a). (k, f k a)) m) k = map_option (f k) (map_of m k)"
  by (induction m) auto

lemma roll_map [simp]:
  "(\<And>k a. who (f k a) = who a) \<Longrightarrow> roll (w\<lparr>agents := map (\<lambda>(k, a). (k, f k a)) (agents w)\<rparr>) = roll w"
  by (rule roll_agents) (simp add: map_of_pairwise option.map_comp comp_def)

lemma roll_fold_simp [simp]: "(\<And>x w. roll (f x w) = roll w) \<Longrightarrow> roll (fold f xs w) = roll w"
  by (induction xs arbitrary: w) simp_all

text \<open>The shapes a handler is made of.\<close>

lemma roll_if: "roll x = r \<Longrightarrow> roll y = r \<Longrightarrow> roll (if b then x else y) = r"
  and roll_let: "(\<And>y. y = e \<Longrightarrow> roll (g y) = r) \<Longrightarrow> roll (Let e g) = r"
  and roll_prod: "(\<And>a c. c = snd p \<Longrightarrow> roll (h a c) = r) \<Longrightarrow> roll (case p of (a, c) \<Rightarrow> h a c) = r"
  and roll_prod2: "(\<And>a c. c = snd p \<Longrightarrow> roll (h2 a c w) = r) \<Longrightarrow> roll ((case p of (a, c) \<Rightarrow> h2 a c) w) = r"
  and roll_option: "roll x = r \<Longrightarrow> (\<And>a. q = Some a \<Longrightarrow> roll (k a) = r) \<Longrightarrow> roll (case q of None \<Rightarrow> x | Some a \<Rightarrow> k a) = r"
  and roll_sum: "(\<And>a. roll (l a) = r) \<Longrightarrow> (\<And>a. roll (m a) = r) \<Longrightarrow> roll (case s of Inl a \<Rightarrow> l a | Inr a \<Rightarrow> m a) = r"
  and roll_list: "roll x = r \<Longrightarrow> (\<And>a as. roll (n a as) = r) \<Longrightarrow> roll (case ys of [] \<Rightarrow> x | a # as \<Rightarrow> n a as) = r"
  and roll_fold: "roll w = r \<Longrightarrow> (\<And>x w. roll (f x w) = roll w) \<Longrightarrow> roll (fold f zs w) = r"
  by (auto simp: Let_def split: option.split sum.split list.split prod.split)

lemma roll_snd_if: "roll (snd x) = r \<Longrightarrow> roll (snd y) = r \<Longrightarrow> roll (snd (if b then x else y)) = r"
  and roll_snd_let: "(\<And>y. y = e \<Longrightarrow> roll (snd (g y)) = r) \<Longrightarrow> roll (snd (Let e g)) = r"
  and roll_snd_prod: "(\<And>a c. c = snd p \<Longrightarrow> roll (snd (h a c)) = r) \<Longrightarrow> roll (snd (case p of (a, c) \<Rightarrow> h a c)) = r"
  and roll_snd_option: "roll (snd x) = r \<Longrightarrow> (\<And>a. roll (snd (k a)) = r) \<Longrightarrow> roll (snd (case q of None \<Rightarrow> x | Some a \<Rightarrow> k a)) = r"
  and roll_snd_sum: "(\<And>a. roll (snd (l a)) = r) \<Longrightarrow> (\<And>a. roll (snd (m a)) = r) \<Longrightarrow> roll (snd (case s of Inl a \<Rightarrow> l a | Inr a \<Rightarrow> m a)) = r"
  by (auto simp: Let_def split: option.split sum.split prod.split)

lemmas roll_intros = roll_if roll_let roll_prod roll_prod2 roll_option roll_sum roll_list roll_fold
  roll_snd_if roll_snd_let roll_snd_prod roll_snd_option roll_snd_sum

lemma roll_for_items: "(\<And>i n w. roll (f i n w) = roll w) \<Longrightarrow> roll w = r \<Longrightarrow> roll (for_items f its w) = r"
  by (simp add: for_items_def split_beta)

lemma roll_payout:
  assumes "\<And>i n w. roll (f i n w) = roll w" "\<And>i n w. roll (g i n w) = roll w" "\<And>i n w. roll (h i n w) = roll w"
  shows "roll (PayoutItems f its g h w) = roll w"
  unfolding PayoutItems_def by (intro roll_for_items; simp add: assms)

lemma roll_consume:
  assumes "\<And>i n w. roll (f i n w) = roll w" "\<And>i n w. roll (g i n w) = roll w"
  shows "roll (ConsumeRequirementsToPoster f its g w) = roll w"
  unfolding ConsumeRequirementsToPoster_def by (intro roll_for_items; simp add: assms)

lemma roll_terminal:
  assumes "\<And>i n w. roll (f i n w) = roll w" "\<And>i n w. roll (g i n w) = roll w"
    and "\<And>a i n w. roll (snd (h a i n w)) = roll w" "\<And>a i n w. roll (k a i n w) = roll w"
  shows "roll (ApplyTerminalTransfer f its aid u g h k w) = roll w"
  unfolding ApplyTerminalTransfer_def by (intro roll_if roll_for_items; simp add: assms Let_def split_beta)

lemma roll_transfer_tax [simp]:
  assumes "\<And>r m w. roll (put r m w) = roll w"
  shows "roll (ApplyTransferWithTax ft get put src dst its snk rate w) = roll w"
proof -
  have "roll (ApplyTransfer get put src dst its w) = roll w"
    unfolding ApplyTransfer_def by (intro roll_for_items; simp add: assms ref_add_def ref_sub_def)
  moreover have "roll (for_items (\<lambda>item c s.
      let s = ref_sub get put src item c s; tax = clamp_tax ft c q; s = ref_add get put dst item (i64 (c - tax)) s
      in case snk of None \<Rightarrow> s | Some k \<Rightarrow> if tax > 0 then ref_add get put k item tax s else s) its w) = roll w" for q
    by (intro roll_for_items) (simp_all add: Let_def assms ref_add_def ref_sub_def split: option.split)
  ultimately show ?thesis by (simp add: ApplyTransferWithTax_def Let_def)
qed

lemma roll_emit [simp]: "roll (emit x0 x1 w) = roll w"
  unfolding emit_def by ((intro roll_intros)?; simp split: option.split)

lemma roll_auditEvent [simp]: "roll (auditEvent x0 x1 x2 x3 x4 x5 w) = roll w"
  unfolding auditEvent_def by ((intro roll_intros)?; simp split: option.split)

lemma roll_auditSetBlock [simp]: "roll (auditSetBlock x0 x1 x2 x3 x4 x5 w) = roll w"
  unfolding auditSetBlock_def by ((intro roll_intros)?; simp split: option.split)

lemma roll_reply [simp]: "roll (reply x0 x1 x2 x3 x4 x5 w) = roll w"
  unfolding reply_def by ((intro roll_intros)?; simp split: option.split)

lemma roll_reply_verdict [simp]: "roll (reply_verdict x0 x1 x2 x3 w) = roll w"
  unfolding reply_verdict_def by ((intro roll_intros)?; simp split: option.split)

lemma roll_SetBlock [simp]: "roll (SetBlock x0 x1 w) = roll w"
  unfolding SetBlock_def by ((intro roll_intros)?; simp split: option.split)

lemma roll_newLandID [simp]: "roll (snd (newLandID x0 w)) = roll w"
  unfolding newLandID_def by ((intro roll_intros)?; simp split: option.split)

lemma roll_newOrgID [simp]: "roll (snd (newOrgID w)) = roll w"
  unfolding newOrgID_def by ((intro roll_intros)?; simp split: option.split)

lemma roll_newLawID [simp]: "roll (snd (newLawID w)) = roll w"
  unfolding newLawID_def by ((intro roll_intros)?; simp split: option.split)

lemma roll_newContractID [simp]: "roll (snd (newContractID w)) = roll w"
  unfolding newContractID_def by ((intro roll_intros)?; simp split: option.split)

lemma roll_newTradeID [simp]: "roll (snd (newTradeID w)) = roll w"
  unfolding newTradeID_def by ((intro roll_intros)?; simp split: option.split)

lemma roll_upd_container [simp]: "roll (upd_container x0 x1 w) = roll w"
  unfolding upd_container_def by ((intro roll_intros)?; simp split: option.split)

lemma roll_bumpRepTrade [simp]: "roll (bumpRepTrade x0 x1 w) = roll w"
  unfolding bumpRepTrade_def by ((intro roll_intros)?; simp split: option.split)

lemma roll_bumpRepBuild [simp]: "roll (bumpRepBuild x0 x1 w) = roll w"
  unfolding bumpRepBuild_def by ((intro roll_intros)?; simp split: option.split)

lemma roll_bumpRepSocial [simp]: "roll (bumpRepSocial x0 x1 w) = roll w"
  unfolding bumpRepSocial_def by ((intro roll_intros)?; simp split: option.split)

lemma roll_bumpRepLaw [simp]: "roll (bumpRepLaw x0 x1 w) = roll w"
  unfolding bumpRepLaw_def by ((intro roll_intros)?; simp split: option.split)

lemma roll_upd_org [simp]: "roll (upd_org x0 x1 w) = roll w"
  unfolding upd_org_def by ((intro roll_intros)?; simp split: option.split)

lemma roll_orgTreasury [simp]: "roll (orgTreasury x0 w) = roll w"
  unfolding orgTreasury_def by ((intro roll_intros)?; simp split: option.split)

lemma roll_put_inv [simp]: "roll (put_inv i m w) = roll w"
  by (cases i) simp_all

lemma roll_ResolveTradeTax [simp]: "roll (snd (ResolveTradeTax x0 x1 x2 w)) = roll w"
  by (simp add: ResolveTradeTax_def Let_def split: option.split)

lemma roll_HandleOfferTrade [simp]: "roll (HandleOfferTrade x0 x1 x2 w) = roll w"
  unfolding HandleOfferTrade_def by ((intro roll_intros)?; simp split: option.split)

lemma roll_HandleDeclineTrade [simp]: "roll (HandleDeclineTrade x0 x1 x2 w) = roll w"
  unfolding HandleDeclineTrade_def by ((intro roll_intros)?; simp split: option.split)

lemma roll_market_week_goal [simp]: "roll (market_week_goal x0 x1 x2 x3 w) = roll w"
  unfolding market_week_goal_def by ((intro roll_intros)?; simp split: option.split)

lemma roll_trade_completed [simp]: "roll (trade_completed x0 x1 x2 x3 x4 w) = roll w"
  unfolding trade_completed_def by ((intro roll_intros)?; simp split: option.split)

lemma roll_HandleAcceptTrade [simp]: "roll (HandleAcceptTrade x0 x1 x2 x3 w) = roll w"
  unfolding HandleAcceptTrade_def by (intro roll_intros; simp split: option.split)

lemma roll_HandleTaskClaimLand [simp]: "roll (HandleTaskClaimLand x0 x1 x2 x3 w) = roll w"
  unfolding HandleTaskClaimLand_def by ((intro roll_intros)?; simp split: option.split)

lemma roll_upd_claim [simp]: "roll (upd_claim x0 x1 w) = roll w"
  unfolding upd_claim_def by ((intro roll_intros)?; simp split: option.split)

lemma roll_HandleSetPermissions [simp]: "roll (HandleSetPermissions x0 x1 x2 w) = roll w"
  unfolding HandleSetPermissions_def by ((intro roll_intros)?; simp split: option.split)

lemma roll_HandleUpgradeClaim [simp]: "roll (HandleUpgradeClaim x0 x1 x2 w) = roll w"
  unfolding HandleUpgradeClaim_def by ((intro roll_intros)?; simp split: option.split)

lemma roll_HandleAddMember [simp]: "roll (HandleAddMember x0 x1 x2 w) = roll w"
  unfolding HandleAddMember_def by ((intro roll_intros)?; simp split: option.split)

lemma roll_HandleRemoveMember [simp]: "roll (HandleRemoveMember x0 x1 x2 w) = roll w"
  unfolding HandleRemoveMember_def by ((intro roll_intros)?; simp split: option.split)

lemma roll_HandleDeedLand [simp]: "roll (HandleDeedLand x0 x1 x2 w) = roll w"
  unfolding HandleDeedLand_def by ((intro roll_intros)?; simp split: option.split)

lemma roll_removeClaimByAnchor [simp]: "roll (removeClaimByAnchor x0 x1 x2 x3 w) = roll w"
  unfolding removeClaimByAnchor_def by ((intro roll_intros)?; simp split: option.split)

lemma roll_PayMaintenance [simp]: "roll (snd (PayMaintenance x0 w)) = roll w"
  unfolding PayMaintenance_def by ((intro roll_intros)?; simp split: option.split)

lemma roll_maintain_claim [simp]: "roll (maintain_claim x0 x1 w) = roll w"
  unfolding maintain_claim_def by ((intro roll_intros)?; simp split: option.split)

lemma roll_TickClaimsMaintenance [simp]: "roll (TickClaimsMaintenance x0 w) = roll w"
  unfolding TickClaimsMaintenance_def by ((intro roll_intros)?; simp split: option.split)

lemma roll_broadcastLawEvent [simp]: "roll (broadcastLawEvent x0 x1 x2 x3 w) = roll w"
  unfolding broadcastLawEvent_def by ((intro roll_intros)?; simp split: option.split)

lemma roll_upd_law [simp]: "roll (upd_law x0 x1 w) = roll w"
  unfolding upd_law_def by ((intro roll_intros)?; simp split: option.split)

lemma roll_on_proposed [simp]: "roll (on_proposed x0 x1 x2 x3 w) = roll w"
  unfolding on_proposed_def by ((intro roll_intros)?; simp split: option.split)

lemma roll_HandleProposeLaw [simp]: "roll (HandleProposeLaw x0 x1 x2 x3 w) = roll w"
  unfolding HandleProposeLaw_def by (intro roll_intros; simp split: option.split law_error.split; intro roll_intros; simp)

lemma roll_on_voted [simp]: "roll (on_voted x0 x1 x2 x3 w) = roll w"
  unfolding on_voted_def by ((intro roll_intros)?; simp split: option.split)

lemma roll_HandleVoteLaw [simp]: "roll (HandleVoteLaw x0 x1 x2 x3 w) = roll w"
  unfolding HandleVoteLaw_def by ((intro roll_intros)?; simp split: option.split)

lemma roll_on_activated [simp]: "roll (on_activated x0 x1 x2 x3 x4 w) = roll w"
  unfolding on_activated_def by ((intro roll_intros)?; simp split: option.split)

lemma roll_on_rejected [simp]: "roll (on_rejected x0 x1 x2 x3 x4 x5 w) = roll w"
  unfolding on_rejected_def by ((intro roll_intros)?; simp split: option.split)

lemma roll_tick_law [simp]: "roll (tick_law x0 x1 x2 w) = roll w"
  unfolding tick_law_def by ((intro roll_intros)?; simp split: option.split)

lemma roll_tickLaws [simp]: "roll (tickLaws x0 x1 w) = roll w"
  unfolding tickLaws_def by ((intro roll_intros)?; simp split: option.split)

lemma roll_give_agent [simp]: "roll (give_agent x0 x1 x2 w) = roll w"
  unfolding give_agent_def by ((intro roll_intros)?; simp split: option.split)

lemma roll_take_agent [simp]: "roll (take_agent x0 x1 x2 w) = roll w"
  unfolding take_agent_def by ((intro roll_intros)?; simp split: option.split)

lemma roll_put_box [simp]: "roll (put_box x0 x1 x2 w) = roll w"
  unfolding put_box_def by ((intro roll_intros)?; simp split: option.split)

lemma roll_take_box [simp]: "roll (take_box x0 x1 x2 w) = roll w"
  unfolding take_box_def by ((intro roll_intros)?; simp split: option.split)

lemma roll_escrow_items [simp]: "roll (escrow_items x0 x1 x2 w) = roll w"
  unfolding escrow_items_def by (intro roll_intros roll_for_items; simp split: option.split)

lemma roll_addTradeCredit [simp]: "roll (addTradeCredit x0 x1 x2 x3 w) = roll w"
  unfolding addTradeCredit_def by ((intro roll_intros)?; simp split: option.split)

lemma roll_addBuildCredit [simp]: "roll (addBuildCredit x0 x1 x2 x3 w) = roll w"
  unfolding addBuildCredit_def by ((intro roll_intros)?; simp split: option.split)

lemma roll_addLawPenalty [simp]: "roll (addLawPenalty x0 x1 w) = roll w"
  unfolding addLawPenalty_def by ((intro roll_intros)?; simp split: option.split)

lemma roll_upd_contract [simp]: "roll (upd_contract x0 x1 w) = roll w"
  unfolding upd_contract_def by ((intro roll_intros)?; simp split: option.split)

lemma roll_on_posted [simp]: "roll (on_posted x0 x1 x2 x3 w) = roll w"
  unfolding on_posted_def by ((intro roll_intros)?; simp split: option.split)

lemma roll_on_accepted [simp]: "roll (on_accepted x0 x1 x2 x3 w) = roll w"
  unfolding on_accepted_def by ((intro roll_intros)?; simp split: option.split)

lemma roll_on_submitted [simp]: "roll (on_submitted x0 x1 x2 x3 x4 w) = roll w"
  unfolding on_submitted_def by ((intro roll_intros)?; simp split: option.split)

lemma roll_HandlePostContract [simp]: "roll (HandlePostContract x0 x1 x2 w) = roll w"
  unfolding HandlePostContract_def by ((intro roll_intros)?; simp split: option.split)

lemma roll_HandleAcceptContract [simp]: "roll (HandleAcceptContract x0 x1 x2 w) = roll w"
  unfolding HandleAcceptContract_def by ((intro roll_intros)?; simp split: option.split)

lemma roll_submit_items [simp]: "roll (submit_items x0 x1 x2 w) = roll w"
  unfolding submit_items_def by (intro roll_intros; simp add: roll_payout roll_consume)

lemma roll_HandleSubmitContract [simp]: "roll (HandleSubmitContract x0 x1 x2 x3 w) = roll w"
  unfolding HandleSubmitContract_def by ((intro roll_intros)?; simp split: option.split)

lemma roll_HandleClaimOwed [simp]: "roll (HandleClaimOwed x0 x1 x2 w) = roll w"
  unfolding HandleClaimOwed_def by (intro roll_intros; simp add: roll_for_items)

lemma roll_contractTerminalTransfer [simp]: "roll (contractTerminalTransfer x0 x1 x2 x3 w) = roll w"
  by (simp add: contractTerminalTransfer_def roll_terminal)

lemma roll_settle_items [simp]: "roll (settle_items x0 x1 w) = roll w"
  unfolding settle_items_def by ((intro roll_intros)?; simp split: option.split)

lemma roll_settle_contract [simp]: "roll (settle_contract x0 x1 x2 x3 x4 w) = roll w"
  unfolding settle_contract_def by ((intro roll_intros)?; simp split: option.split)

lemma roll_tick_contract [simp]: "roll (tick_contract x0 x1 x2 w) = roll w"
  unfolding tick_contract_def by ((intro roll_intros)?; simp split: option.split)

lemma roll_tickContracts [simp]: "roll (tickContracts x0 x1 w) = roll w"
  unfolding tickContracts_def by ((intro roll_intros)?; simp split: option.split)

lemma roll_newItemEntityID [simp]: "roll (snd (newItemEntityID w)) = roll w"
  unfolding newItemEntityID_def by ((intro roll_intros)?; simp split: option.split)

lemma roll_spawnItemEntity [simp]: "roll (snd (spawnItemEntity x0 x1 x2 x3 x4 x5 w)) = roll w"
  unfolding spawnItemEntity_def by ((intro roll_intros)?; simp split: option.split)

lemma roll_removeItemEntity [simp]: "roll (removeItemEntity x0 x1 x2 x3 w) = roll w"
  unfolding removeItemEntity_def by ((intro roll_intros)?; simp split: option.split)

lemma roll_moveItemEntity [simp]: "roll (moveItemEntity x0 x1 x2 x3 x4 w) = roll w"
  unfolding moveItemEntity_def by ((intro roll_intros)?; simp split: option.split)

lemma roll_cleanupExpiredItemEntities [simp]: "roll (cleanupExpiredItemEntities x0 w) = roll w"
  unfolding cleanupExpiredItemEntities_def by ((intro roll_intros)?; simp split: option.split)

lemma roll_ensureContainer [simp]: "roll (ensureContainer x0 x1 w) = roll w"
  unfolding ensureContainer_def by ((intro roll_intros)?; simp split: option.split)

lemma roll_removeContainer [simp]: "roll (removeContainer x0 w) = roll w"
  unfolding removeContainer_def by ((intro roll_intros)?; simp split: option.split)

lemma roll_ensureSign [simp]: "roll (ensureSign x0 w) = roll w"
  unfolding ensureSign_def by ((intro roll_intros)?; simp split: option.split)

lemma roll_removeSign [simp]: "roll (removeSign x0 x1 x2 x3 w) = roll w"
  unfolding removeSign_def by ((intro roll_intros)?; simp split: option.split)

lemma roll_ensureConveyor [simp]: "roll (ensureConveyor x0 x1 x2 w) = roll w"
  unfolding ensureConveyor_def by ((intro roll_intros)?; simp split: option.split)

lemma roll_removeConveyor [simp]: "roll (removeConveyor x0 x1 x2 x3 w) = roll w"
  unfolding removeConveyor_def by ((intro roll_intros)?; simp split: option.split)

lemma roll_ensureSwitch [simp]: "roll (ensureSwitch x0 x1 w) = roll w"
  unfolding ensureSwitch_def by ((intro roll_intros)?; simp split: option.split)

lemma roll_removeSwitch [simp]: "roll (removeSwitch x0 x1 x2 x3 w) = roll w"
  unfolding removeSwitch_def by ((intro roll_intros)?; simp split: option.split)

lemma roll_ensureBoard [simp]: "roll (ensureBoard x0 w) = roll w"
  unfolding ensureBoard_def by ((intro roll_intros)?; simp split: option.split)

lemma roll_removeBoard [simp]: "roll (removeBoard x0 w) = roll w"
  unfolding removeBoard_def by ((intro roll_intros)?; simp split: option.split)

lemma roll_ensureContainerForPlacedBlock [simp]: "roll (ensureContainerForPlacedBlock x0 x1 w) = roll w"
  unfolding ensureContainerForPlacedBlock_def by ((intro roll_intros)?; simp split: option.split)

lemma roll_belt_insert [simp]: "roll (belt_insert x0 x1 x2 x3 x4 w) = roll w"
  unfolding belt_insert_def by ((intro roll_intros)?; simp split: option.split)

lemma roll_convey_item [simp]: "roll (convey_item x0 x1 x2 w) = roll w"
  unfolding convey_item_def by ((intro roll_intros)?; simp split: option.split)

lemma roll_belt_pull [simp]: "roll (belt_pull x0 x1 x2 x3 w) = roll w"
  unfolding belt_pull_def by ((intro roll_intros)?; simp split: option.split)

lemma roll_convey_pull [simp]: "roll (convey_pull x0 x1 w) = roll w"
  unfolding convey_pull_def by ((intro roll_intros)?; simp split: option.split)

lemma roll_RunConveyors [simp]: "roll (RunConveyors x0 x1 w) = roll w"
  unfolding RunConveyors_def by ((intro roll_intros)?; simp split: option.split)

lemma roll_systemConveyors [simp]: "roll (systemConveyors x0 w) = roll w"
  unfolding systemConveyors_def by ((intro roll_intros)?; simp split: option.split)

lemma roll_newTaskID [simp]: "roll (snd (newTaskID w)) = roll w"
  unfolding newTaskID_def by ((intro roll_intros)?; simp split: option.split)

lemma roll_start_work [simp]: "roll (start_work x0 x1 x2 x3 x4 w) = roll w"
  unfolding start_work_def by ((intro roll_intros)?; simp split: option.split)

lemma roll_refuse_task [simp]: "roll (refuse_task x0 x1 x2 x3 x4 w) = roll w"
  unfolding refuse_task_def by ((intro roll_intros)?; simp split: option.split)

lemma roll_HandleTaskMine [simp]: "roll (HandleTaskMine x0 x1 x2 w) = roll w"
  unfolding HandleTaskMine_def by ((intro roll_intros)?; simp split: option.split)

lemma roll_HandleTaskGather [simp]: "roll (HandleTaskGather x0 x1 x2 w) = roll w"
  unfolding HandleTaskGather_def by ((intro roll_intros)?; simp split: option.split)

lemma roll_HandleTaskPlace [simp]: "roll (HandleTaskPlace x0 x1 x2 w) = roll w"
  unfolding HandleTaskPlace_def by ((intro roll_intros)?; simp split: option.split)

lemma roll_HandleTaskOpen [simp]: "roll (HandleTaskOpen x0 x1 x2 w) = roll w"
  unfolding HandleTaskOpen_def by ((intro roll_intros)?; simp split: option.split)

lemma roll_HandleTaskTransfer [simp]: "roll (HandleTaskTransfer x0 x1 x2 w) = roll w"
  unfolding HandleTaskTransfer_def by ((intro roll_intros)?; simp split: option.split)

lemma roll_HandleTaskCraft [simp]: "roll (HandleTaskCraft x0 x1 x2 w) = roll w"
  unfolding HandleTaskCraft_def by ((intro roll_intros)?; simp split: option.split)

lemma roll_HandleTaskSmelt [simp]: "roll (HandleTaskSmelt x0 x1 x2 w) = roll w"
  unfolding HandleTaskSmelt_def by ((intro roll_intros)?; simp split: option.split)

lemma roll_HandleTaskBuildBlueprint [simp]: "roll (HandleTaskBuildBlueprint x0 x1 x2 w) = roll w"
  unfolding HandleTaskBuildBlueprint_def by ((intro roll_intros)?; simp split: option.split)

lemma roll_clear_work [simp]: "roll (clear_work x0 w) = roll w"
  unfolding clear_work_def by ((intro roll_intros)?; simp split: option.split)

lemma roll_task_fail [simp]: "roll (task_fail x0 x1 x2 x3 x4 w) = roll w"
  unfolding task_fail_def by ((intro roll_intros)?; simp split: option.split)

lemma roll_task_done [simp]: "roll (task_done x0 x1 x2 w) = roll w"
  unfolding task_done_def by ((intro roll_intros)?; simp split: option.split)

lemma roll_record_denied [simp]: "roll (record_denied x0 w) = roll w"
  unfolding record_denied_def by ((intro roll_intros)?; simp split: option.split)

lemma roll_task_denied [simp]: "roll (task_denied x0 x1 x2 x3 w) = roll w"
  unfolding task_denied_def by ((intro roll_intros)?; simp split: option.split)

lemma roll_store_work [simp]: "roll (store_work x0 x1 w) = roll w"
  unfolding store_work_def by ((intro roll_intros)?; simp split: option.split)

lemma roll_TransferToLandOwner [simp]: "roll (TransferToLandOwner x0 x1 x2 w) = roll w"
  by (simp add: TransferToLandOwner_def ref_add_def split: option.split)

lemma roll_onMinedBlockDuringEvent [simp]: "roll (onMinedBlockDuringEvent x0 x1 x2 x3 x4 w) = roll w"
  unfolding onMinedBlockDuringEvent_def by (intro roll_intros; simp add: Let_def)

lemma roll_break_fine [simp]: "roll (break_fine x0 x1 x2 w) = roll w"
  unfolding break_fine_def by ((intro roll_intros)?; simp split: option.split)

lemma roll_give_positive [simp]: "roll (give_positive x0 x1 w) = roll w"
  unfolding give_positive_def by (intro roll_intros roll_for_items; simp split: option.split)

lemma roll_empty_container [simp]: "roll (empty_container x0 x1 x2 w) = roll w"
  unfolding empty_container_def by ((intro roll_intros)?; simp split: option.split)

lemma roll_mine_metadata [simp]: "roll (mine_metadata x0 x1 x2 x3 w) = roll w"
  unfolding mine_metadata_def by ((intro roll_intros)?; simp split: option.split)

lemma roll_break_block [simp]: "roll (break_block x0 x1 x2 x3 x4 x5 w) = roll w"
  unfolding break_block_def by ((intro roll_intros)?; simp split: option.split)

lemma roll_TickMine [simp]: "roll (TickMine x0 x1 x2 x3 w) = roll w"
  unfolding TickMine_def by ((intro roll_intros)?; simp split: option.split)

lemma roll_TickGather [simp]: "roll (TickGather x0 x1 x2 w) = roll w"
  unfolding TickGather_def by ((intro roll_intros)?; simp split: option.split)

lemma roll_TickPlace [simp]: "roll (TickPlace x0 x1 x2 x3 w) = roll w"
  unfolding TickPlace_def by ((intro roll_intros)?; simp split: option.split)

lemma roll_swap_items [simp]: "roll (swap_items x0 x1 w) = roll w"
  unfolding swap_items_def by ((intro roll_intros)?; simp split: option.split)

lemma roll_work_recipe [simp]: "roll (work_recipe x0 x1 x2 x3 x4 w) = roll w"
  unfolding work_recipe_def by ((intro roll_intros)?; simp split: option.split)

lemma roll_TickCraft [simp]: "roll (TickCraft x0 x1 x2 w) = roll w"
  unfolding TickCraft_def by ((intro roll_intros)?; simp split: option.split)

lemma roll_TickSmelt [simp]: "roll (TickSmelt x0 x1 x2 w) = roll w"
  unfolding TickSmelt_def by ((intro roll_intros)?; simp split: option.split)

lemma roll_onContainerOpenedDuringEvent [simp]: "roll (onContainerOpenedDuringEvent x0 x1 x2 x3 w) = roll w"
  unfolding onContainerOpenedDuringEvent_def by (intro roll_intros; simp add: Let_def)

lemma roll_open_board [simp]: "roll (open_board x0 x1 x2 x3 x4 w) = roll w"
  unfolding open_board_def by ((intro roll_intros)?; simp split: option.split)

lemma roll_open_sign [simp]: "roll (open_sign x0 x1 x2 x3 x4 w) = roll w"
  unfolding open_sign_def by ((intro roll_intros)?; simp split: option.split)

lemma roll_TickOpen [simp]: "roll (TickOpen x0 x1 x2 x3 w) = roll w"
  unfolding TickOpen_def by ((intro roll_intros)?; simp split: option.split)

lemma roll_move_stack [simp]: "roll (move_stack x0 x1 x2 x3 x4 w) = roll w"
  unfolding move_stack_def by ((intro roll_intros)?; simp split: option.split)

lemma roll_TickTransfer [simp]: "roll (TickTransfer x0 x1 x2 w) = roll w"
  unfolding TickTransfer_def by ((intro roll_intros)?; simp split: option.split)

lemma roll_pull_pass [simp]: "roll (snd (pull_pass aid item ps deficit took w)) = roll w"
  by (induction aid item ps deficit took w rule: pull_pass.induct) (simp_all add: Let_def)

lemma roll_pull_item: assumes "pull_item aid item ps required w = Some r" shows "roll (snd r) = roll w"
proof (rule pull_item.raw_induct[where P = "\<lambda>aid item ps required w r. roll (snd r) = roll w", OF _ assms])
  fix pull aid item ps required w r
  assume IH: "\<And>aid item ps required w r. pull aid item ps required w = Some r \<Longrightarrow> roll (snd r) = roll w"
    and eq: "(if \<not> agent_has w aid item < required then Some (True, w)
      else case pull_pass aid item ps (i64 (required - agent_has w aid item)) False w of
             (took, w') \<Rightarrow> if took then pull aid item ps required w' else Some (False, w')) = Some r"
  obtain took w' where p: "pull_pass aid item ps (i64 (required - agent_has w aid item)) False w = (took, w')" by fastforce
  from roll_pull_pass[of aid item ps "i64 (required - agent_has w aid item)" False w] have "roll w' = roll w" by (simp add: p)
  with eq IH[of aid item ps required w' r] show "roll (snd r) = roll w" by (auto simp: p split: if_splits)
qed

lemma roll_pull_items: "pull_items aid ps need its w = Some r \<Longrightarrow> roll (snd r) = roll w"
  by (induction its arbitrary: w) (force dest: roll_pull_item split: option.splits prod.splits if_splits)+

lemma roll_EnsureBlueprintMaterials [simp]: "roll (snd (EnsureBlueprintMaterials x0 x1 x2 w)) = roll w"
  unfolding EnsureBlueprintMaterials_def
  by (auto simp: Let_def dest: roll_pull_items split: option.split)

lemma roll_place_blocks [simp]: "roll (snd (snd (place_blocks fl aid nowTick anchor rot limit bs idx placed w))) = roll w"
  by (induction bs arbitrary: idx placed w) (simp_all add: Let_def split: sum.split)

lemma roll_build_fails [simp]: "roll (build_fails x0 x1 x2 x3 w) = roll w"
  unfolding build_fails_def by ((intro roll_intros)?; simp split: option.split)

lemma roll_charge_cost [simp]: "roll (snd (charge_cost x0 x1 x2 w)) = roll w"
  unfolding charge_cost_def by (simp add: Let_def split_beta)

lemma roll_place_step [simp]: "roll (snd (place_step x0 x1 x2 x3 x4 x5 x6 x7 w)) = roll w"
  unfolding place_step_def by ((intro roll_intros)?; simp split: option.split)

lemma roll_TickBuildBlueprint [simp]: "roll (snd (TickBuildBlueprint x0 x1 x2 x3 x4 w)) = roll w"
  unfolding TickBuildBlueprint_def by ((intro roll_intros)?; simp split: option.split)

lemma roll_registerStructure [simp]: "roll (registerStructure x0 x1 x2 x3 x4 w) = roll w"
  unfolding registerStructure_def by ((intro roll_intros)?; simp split: option.split)

lemma roll_build_event_bonus [simp]: "roll (build_event_bonus x0 x1 x2 x3 w) = roll w"
  unfolding build_event_bonus_def by ((intro roll_intros)?; simp split: option.split)

lemma roll_tickBuildBlueprint [simp]: "roll (tickBuildBlueprint fl aid wt nowTick w) = roll w"
proof -
  have "roll (snd (TickBuildBlueprint fl aid wt nowTick (BlueprintBlocksPerTick (cfg w)) w)) = roll w" by simp
  then show ?thesis
    by (cases "TickBuildBlueprint fl aid wt nowTick (BlueprintBlocksPerTick (cfg w)) w")
       (auto simp: tickBuildBlueprint_def Let_def simp del: roll_TickBuildBlueprint split: build_result.split)
qed

lemma roll_tick_work [simp]: "roll (tick_work fl aid wt nowTick w) = roll w"
  by (simp add: tick_work_def split: task_kind.split)

lemma roll_systemWork [simp]: "roll (systemWork x0 x1 w) = roll w"
  unfolding systemWork_def by ((intro roll_intros)?; simp split: option.split)

lemma roll_drop_stack [simp]: "roll (drop_stack x0 x1 x2 x3 x4 w) = roll w"
  by (simp add: drop_stack_def)

lemma roll_drop_lost [simp]: "roll (drop_lost x0 x1 x2 x3 w) = roll w"
  by (simp add: drop_lost_def)

lemma roll_respawnAgent [simp]: "roll (respawnAgent x0 x1 x2 w) = roll w"
  unfolding respawnAgent_def by (intro roll_intros; simp)

lemma roll_each_agent:
  "(\<And>aid a w. map_of (agents w) aid = Some a \<Longrightarrow> roll (f aid a w) = roll w) \<Longrightarrow> roll w = r \<Longrightarrow> roll (each_agent f w) = r"
  unfolding each_agent_def by (intro roll_intros; simp)

lemma roll_hunger_pass [simp]: "roll (hunger_pass x0 w) = roll w"
  unfolding hunger_pass_def by ((intro roll_intros roll_each_agent)?; simp split: option.split)

lemma roll_cold_pass [simp]: "roll (cold_pass x0 w) = roll w"
  unfolding cold_pass_def by ((intro roll_intros roll_each_agent)?; simp split: option.split)

lemma roll_recover_pass [simp]: "roll (recover_pass x0 x1 w) = roll w"
  unfolding recover_pass_def by ((intro roll_intros roll_each_agent)?; simp split: option.split)

lemma roll_systemEnvironment [simp]: "roll (systemEnvironment x0 x1 w) = roll w"
  unfolding systemEnvironment_def by ((intro roll_intros roll_each_agent)?; simp split: option.split)

lemma roll_start_move [simp]: "roll (start_move x0 x1 x2 x3 w) = roll w"
  unfolding start_move_def by ((intro roll_intros roll_each_agent)?; simp split: option.split)

lemma roll_HandleTaskMoveTo [simp]: "roll (HandleTaskMoveTo x0 x1 x2 w) = roll w"
  unfolding HandleTaskMoveTo_def by ((intro roll_intros roll_each_agent)?; simp split: option.split)

lemma roll_HandleTaskFollow [simp]: "roll (HandleTaskFollow x0 x1 x2 w) = roll w"
  unfolding HandleTaskFollow_def by ((intro roll_intros roll_each_agent)?; simp split: option.split)

lemma roll_handleTaskStop [simp]: "roll (handleTaskStop x0 x1 x2 w) = roll w"
  unfolding handleTaskStop_def by ((intro roll_intros roll_each_agent)?; simp split: option.split)

lemma roll_recordStructureUsage [simp]: "roll (recordStructureUsage x0 x1 x2 w) = roll w"
  unfolding recordStructureUsage_def by ((intro roll_intros roll_each_agent)?; simp split: option.split)

lemma roll_record_step [simp]: "roll (record_step x0 x1 w) = roll w"
  unfolding record_step_def by ((intro roll_intros roll_each_agent)?; simp split: option.split)

lemma roll_stop_move [simp]: "roll (stop_move x0 x1 w) = roll w"
  unfolding stop_move_def by ((intro roll_intros roll_each_agent)?; simp split: option.split)

lemma roll_move_fails [simp]: "roll (move_fails x0 x1 x2 x3 x4 w) = roll w"
  unfolding move_fails_def by ((intro roll_intros roll_each_agent)?; simp split: option.split)

lemma roll_pay_toll [simp]: "roll (pay_toll x0 x1 x2 x3 x4 w) = roll w"
  unfolding pay_toll_def by ((intro roll_intros roll_each_agent)?; simp split: option.split)

lemma roll_enter_cell [simp]: "roll (enter_cell x0 x1 x2 x3 w) = roll w"
  unfolding enter_cell_def by ((intro roll_intros roll_each_agent)?; simp split: option.split)

lemma roll_walk_on [simp]: "roll (walk_on x0 x1 x2 x3 w) = roll w"
  unfolding walk_on_def by (intro roll_intros; simp split: toll.split)

lemma roll_move_agent [simp]: "roll (move_agent x0 x1 w) = roll w"
  unfolding move_agent_def by ((intro roll_intros roll_each_agent)?; simp split: option.split)

lemma roll_systemMovement [simp]: "roll (systemMovement x0 w) = roll w"
  unfolding systemMovement_def by ((intro roll_intros roll_each_agent)?; simp split: option.split)

lemma roll_computeDirectorMetrics [simp]: "roll (snd (computeDirectorMetrics x0 x1 w)) = roll w"
  unfolding computeDirectorMetrics_def by ((intro roll_intros roll_each_agent)?; simp split: option.split)

lemma roll_place_spawn [simp]: "roll (place_spawn x0 x1 x2 w) = roll w"
  unfolding place_spawn_def by ((intro roll_intros roll_each_agent)?; simp split: option.split)

lemma roll_stock_spawn [simp]: "roll (stock_spawn x0 w) = roll w"
  unfolding stock_spawn_def by ((intro roll_intros roll_each_agent)?; simp split: option.split)

lemma roll_write_sign [simp]: "roll (write_sign x0 x1 w) = roll w"
  unfolding write_sign_def by ((intro roll_intros roll_each_agent)?; simp split: option.split)

lemma roll_newPostID [simp]: "roll (snd (newPostID w)) = roll w"
  unfolding newPostID_def by ((intro roll_intros roll_each_agent)?; simp split: option.split)

lemma roll_pin_post [simp]: "roll (pin_post x0 x1 w) = roll w"
  unfolding pin_post_def by ((intro roll_intros roll_each_agent)?; simp split: option.split)

lemma roll_applySpawnPlan [simp]: "roll (applySpawnPlan x0 x1 x2 w) = roll w"
  unfolding applySpawnPlan_def by ((intro roll_intros roll_each_agent)?; simp split: option.split)

lemma roll_spawn_notice [simp]: "roll (spawn_notice x0 x1 x2 x3 w) = roll w"
  unfolding spawn_notice_def by ((intro roll_intros roll_each_agent)?; simp split: option.split)

lemma roll_spawn_event [simp]: "roll (spawn_event nowTick c eventID plan k w) = roll w"
  by (cases k) simp_all

lemma roll_instantiateEvent [simp]: "roll (instantiateEvent x0 x1 w) = roll w"
  unfolding instantiateEvent_def by ((intro roll_intros roll_each_agent)?; simp split: option.split)

lemma roll_weather_override [simp]: "roll (weather_override x0 w) = roll w"
  unfolding weather_override_def by ((intro roll_intros roll_each_agent)?; simp split: option.split)

lemma roll_startEvent [simp]: "roll (startEvent x0 x1 w) = roll w"
  unfolding startEvent_def by ((intro roll_intros roll_each_agent)?; simp split: option.split)

lemma roll_expire_event [simp]: "roll (expire_event x0 w) = roll w"
  unfolding expire_event_def by ((intro roll_intros roll_each_agent)?; simp split: option.split)

lemma roll_draw_event [simp]: "roll (draw_event x0 x1 w) = roll w"
  unfolding draw_event_def by ((intro roll_intros roll_each_agent)?; simp split: option.split)

lemma roll_systemDirector [simp]: "roll (systemDirector x0 x1 w) = roll w"
  unfolding systemDirector_def by ((intro roll_intros roll_each_agent)?; simp split: option.split)

lemma roll_auditOrgEvent [simp]: "roll (auditOrgEvent x0 x1 x2 x3 x4 w) = roll w"
  unfolding auditOrgEvent_def by ((intro roll_intros)?; simp split: option.split)

lemma roll_HandleCreateOrg [simp]: "roll (HandleCreateOrg x0 x1 x2 w) = roll w"
  unfolding HandleCreateOrg_def by ((intro roll_intros)?; simp split: option.split)

lemma roll_HandleJoinOrg [simp]: "roll (HandleJoinOrg x0 x1 x2 w) = roll w"
  unfolding HandleJoinOrg_def by ((intro roll_intros)?; simp split: option.split)

lemma roll_HandleOrgDeposit [simp]: "roll (HandleOrgDeposit x0 x1 x2 w) = roll w"
  unfolding HandleOrgDeposit_def by (intro roll_intros; simp add: ref_add_def ref_sub_def)

lemma roll_HandleOrgWithdraw [simp]: "roll (HandleOrgWithdraw x0 x1 x2 w) = roll w"
  unfolding HandleOrgWithdraw_def by (intro roll_intros; simp add: ref_add_def ref_sub_def)

lemma roll_HandleLeaveOrg [simp]: "roll (HandleLeaveOrg x0 x1 x2 w) = roll w"
  unfolding HandleLeaveOrg_def by ((intro roll_intros)?; simp split: option.split)

lemma roll_handleActDedupeReq [simp]: "roll (snd (handleActDedupeReq x0 w)) = roll w"
  by (simp add: handleActDedupeReq_def Let_def split: option.split)

lemma roll_broadcastChat [simp]: "roll (broadcastChat x0 x1 x2 x3 w) = roll w"
  unfolding broadcastChat_def by ((intro roll_intros)?; simp split: option.split)

lemma roll_rate_limited: "(\<And>w. roll (k w) = roll w) \<Longrightarrow> roll w = r \<Longrightarrow> roll (rate_limited a b c d e g h k w) = r"
  unfolding rate_limited_def by (intro roll_intros; simp)

lemma roll_HandleSay [simp]: "roll (HandleSay x0 x1 x2 w) = roll w"
  unfolding HandleSay_def by ((intro roll_intros roll_rate_limited)?; simp split: option.split)

lemma roll_HandleWhisper [simp]: "roll (HandleWhisper x0 x1 x2 w) = roll w"
  unfolding HandleWhisper_def by ((intro roll_intros roll_rate_limited)?; simp split: option.split)

lemma roll_HandleEat [simp]: "roll (HandleEat x0 x1 x2 w) = roll w"
  unfolding HandleEat_def by ((intro roll_intros roll_rate_limited)?; simp split: option.split)

lemma roll_HandleSaveMemory [simp]: "roll (HandleSaveMemory x0 x1 x2 w) = roll w"
  unfolding HandleSaveMemory_def by ((intro roll_intros roll_rate_limited)?; simp split: option.split)

lemma roll_HandleLoadMemory [simp]: "roll (HandleLoadMemory x0 x1 x2 w) = roll w"
  unfolding HandleLoadMemory_def by ((intro roll_intros roll_rate_limited)?; simp split: option.split)

lemma roll_new_ground [simp]: "roll (new_ground w) = roll w"
  by (simp add: new_ground_def Let_def roll_def)

lemma roll_resetWorldForNewSeason [simp]: "roll (resetWorldForNewSeason x0 x1 x2 w) = roll w"
  unfolding resetWorldForNewSeason_def Let_def roll_auditEvent
  by (rule trans[OF roll_agents]) (simp_all add: map_of_pairwise option.map_comp comp_def)

lemma roll_maybeSeasonRollover [simp]: "roll (maybeSeasonRollover x0 w) = roll w"
  unfolding maybeSeasonRollover_def by ((intro roll_intros)?; simp split: option.split)

lemma roll_maybeWorldResetNotice [simp]: "roll (maybeWorldResetNotice x0 w) = roll w"
  using roll_map[of "\<lambda>_. AddEvent e" w for e] by (simp add: maybeWorldResetNotice_def split: prod.split bool.split)

lemma roll_drop_structure [simp]: "roll (drop_structure x0 w) = roll w"
  unfolding drop_structure_def by ((intro roll_intros)?; simp split: option.split)

lemma roll_award_creation [simp]: "roll (award_creation x0 x1 x2 w) = roll w"
  unfolding award_creation_def by ((intro roll_intros)?; simp split: option.split)

lemma roll_award_influence [simp]: "roll (award_influence x0 x1 x2 x3 w) = roll w"
  unfolding award_influence_def by ((intro roll_intros)?; simp split: option.split)

lemma roll_systemFun [simp]: "roll (systemFun x0 x1 w) = roll w"
  unfolding systemFun_def by ((intro roll_intros)?; simp split: option.split)

lemma roll_add_post [simp]: "roll (add_post x0 x1 x2 x3 x4 w) = roll w"
  unfolding add_post_def by ((intro roll_intros)?; simp split: option.split)

lemma roll_post_board [simp]: "roll (post_board x0 x1 x2 w) = roll w"
  unfolding post_board_def by ((intro roll_intros)?; simp split: option.split)

lemma roll_HandlePostBoard [simp]: "roll (HandlePostBoard x0 x1 x2 w) = roll w"
  unfolding HandlePostBoard_def by (intro roll_rate_limited; simp)

lemma roll_answer_search [simp]: "roll (answer_search x0 x1 x2 x3 x4 x5 w) = roll w"
  unfolding answer_search_def by ((intro roll_intros)?; simp split: option.split)

lemma roll_HandleSearchBoard [simp]: "roll (HandleSearchBoard x0 x1 x2 x3 w) = roll w"
  unfolding HandleSearchBoard_def by ((intro roll_intros)?; simp split: option.split)

lemma roll_edit_denied [simp]: "roll (edit_denied x0 x1 x2 x3 w) = roll w"
  unfolding edit_denied_def by ((intro roll_intros)?; simp split: option.split)

lemma roll_put_sign [simp]: "roll (put_sign x0 x1 x2 x3 w) = roll w"
  unfolding put_sign_def by ((intro roll_intros)?; simp split: option.split)

lemma roll_HandleSetSign [simp]: "roll (HandleSetSign x0 x1 x2 x3 w) = roll w"
  unfolding HandleSetSign_def by ((intro roll_intros)?; simp split: option.split)

lemma roll_flip_switch [simp]: "roll (flip_switch x0 x1 x2 x3 w) = roll w"
  unfolding flip_switch_def by ((intro roll_intros)?; simp split: option.split)

lemma roll_HandleToggleSwitch [simp]: "roll (HandleToggleSwitch x0 x1 x2 x3 w) = roll w"
  unfolding HandleToggleSwitch_def by ((intro roll_intros)?; simp split: option.split)

end
