(* ===== verification/World_Step.thy ===== *)
theory World_Step
  imports Agent_Frame
begin

text \<open>
  The composition of the world: which handler an action reaches (\<open>action_apply.go\<close>, \<open>action_types.go\<close>,
  \<open>instants_dispatch.go\<close>, \<open>tasks_dispatch.go\<close>), one tick in its order (\<open>runtime_step.go\<close>), what an observation
  takes from an agent (\<open>feature/observer/meta\<close>), the requests of the administrator
  (\<open>runtime_api_admin.go\<close>, \<open>feature/admin\<close>) and the server loop that collects the input of a tick
  (\<open>runtime_loop.go\<close>).  The systems run in the order of the code; each is the definition of its own theory.
  Replies on channels are output; of the metrics at the end of a tick
  only the statistics they move on are kept; timings, queue lengths and the sampled resource density are output.
\<close>

section \<open>Actions\<close>

record act_msg =
  ActID :: string
  ActTick :: u64
  ExpectedWorldID :: string
  ActInstants :: "instant list"
  ActTasks :: "task_req list"
  ActCancel :: "string list"

text \<open>The parts of the standard library that the handlers need: float arithmetic and Unicode lower-casing.\<close>

record go_env =
  EnvFloats :: go_floats
  EnvRound :: "real \<Rightarrow> real"
  EnvLower :: "string \<Rightarrow> string"

definition supportedInstantTypes :: "string list" where
  "supportedInstantTypes = [''SAY'', ''WHISPER'', ''EAT'', ''SAVE_MEMORY'', ''LOAD_MEMORY'', ''OFFER_TRADE'', ''ACCEPT_TRADE'',
     ''DECLINE_TRADE'', ''POST_BOARD'', ''SEARCH_BOARD'', ''SET_SIGN'', ''TOGGLE_SWITCH'', ''CLAIM_OWED'', ''POST_CONTRACT'',
     ''ACCEPT_CONTRACT'', ''SUBMIT_CONTRACT'', ''SET_PERMISSIONS'', ''UPGRADE_CLAIM'', ''ADD_MEMBER'', ''REMOVE_MEMBER'',
     ''CREATE_ORG'', ''JOIN_ORG'', ''ORG_DEPOSIT'', ''ORG_WITHDRAW'', ''LEAVE_ORG'', ''DEED_LAND'', ''PROPOSE_LAW'', ''VOTE'']"

definition supportedTaskReqTypes :: "string list" where
  "supportedTaskReqTypes = [''STOP'', ''MOVE_TO'', ''FOLLOW'', ''MINE'', ''GATHER'', ''PLACE'', ''OPEN'', ''TRANSFER'',
     ''CRAFT'', ''SMELT'', ''CLAIM_LAND'', ''BUILD_BLUEPRINT'']"

type_synonym 'r handler = "go_env \<Rightarrow> string \<Rightarrow> 'r \<Rightarrow> u64 \<Rightarrow> world \<Rightarrow> world"

definition instantDispatch :: "instant handler gomap" where
  "instantDispatch =
     [(''SAY'', \<lambda>_. HandleSay), (''WHISPER'', \<lambda>_. HandleWhisper), (''EAT'', \<lambda>_. HandleEat),
      (''SAVE_MEMORY'', \<lambda>_. HandleSaveMemory), (''LOAD_MEMORY'', \<lambda>_. HandleLoadMemory),
      (''OFFER_TRADE'', \<lambda>_. HandleOfferTrade), (''ACCEPT_TRADE'', \<lambda>e. HandleAcceptTrade (EnvFloats e)),
      (''DECLINE_TRADE'', \<lambda>_. HandleDeclineTrade), (''POST_BOARD'', \<lambda>_. HandlePostBoard),
      (''SEARCH_BOARD'', \<lambda>e. HandleSearchBoard (EnvLower e)), (''SET_SIGN'', \<lambda>e. HandleSetSign (EnvFloats e)),
      (''TOGGLE_SWITCH'', \<lambda>e. HandleToggleSwitch (EnvFloats e)), (''CLAIM_OWED'', \<lambda>_. HandleClaimOwed),
      (''POST_CONTRACT'', \<lambda>_. HandlePostContract), (''ACCEPT_CONTRACT'', \<lambda>_. HandleAcceptContract),
      (''SUBMIT_CONTRACT'', \<lambda>e. HandleSubmitContract (EnvFloats e)), (''SET_PERMISSIONS'', \<lambda>_. HandleSetPermissions),
      (''UPGRADE_CLAIM'', \<lambda>_. HandleUpgradeClaim), (''ADD_MEMBER'', \<lambda>_. HandleAddMember),
      (''REMOVE_MEMBER'', \<lambda>_. HandleRemoveMember), (''CREATE_ORG'', \<lambda>_. HandleCreateOrg),
      (''JOIN_ORG'', \<lambda>_. HandleJoinOrg), (''ORG_DEPOSIT'', \<lambda>_. HandleOrgDeposit),
      (''ORG_WITHDRAW'', \<lambda>_. HandleOrgWithdraw), (''LEAVE_ORG'', \<lambda>_. HandleLeaveOrg), (''DEED_LAND'', \<lambda>_. HandleDeedLand),
      (''PROPOSE_LAW'', \<lambda>e. HandleProposeLaw (EnvFloats e)), (''VOTE'', \<lambda>e. HandleVoteLaw (EnvFloats e))]"

definition taskReqDispatch :: "task_req handler gomap" where
  "taskReqDispatch =
     [(''STOP'', \<lambda>_. handleTaskStop), (''MOVE_TO'', \<lambda>_. HandleTaskMoveTo), (''FOLLOW'', \<lambda>_. HandleTaskFollow),
      (''MINE'', \<lambda>_. HandleTaskMine), (''GATHER'', \<lambda>_. HandleTaskGather), (''PLACE'', \<lambda>_. HandleTaskPlace),
      (''OPEN'', \<lambda>_. HandleTaskOpen), (''TRANSFER'', \<lambda>_. HandleTaskTransfer), (''CRAFT'', \<lambda>_. HandleTaskCraft),
      (''SMELT'', \<lambda>_. HandleTaskSmelt), (''CLAIM_LAND'', \<lambda>e. HandleTaskClaimLand (EnvFloats e)),
      (''BUILD_BLUEPRINT'', \<lambda>_. HandleTaskBuildBlueprint)]"

text \<open>The check of the tables when a world is created; the message of a failure names the first offending key.\<close>

datatype dispatch_error = EmptyKey | DuplicateKey string | SizeMismatch nat nat | UnsupportedKey string | MissingKey string

fun allowed_keys :: "string list \<Rightarrow> string list \<Rightarrow> dispatch_error + string list" where
  "allowed_keys allowed [] = Inr allowed"
| "allowed_keys allowed (k # ks) =
     (if k = [] then Inl EmptyKey
      else if k \<in> set allowed then Inl (DuplicateKey k)
      else allowed_keys (k # allowed) ks)"

definition validateDispatchMap :: "'h gomap \<Rightarrow> string list \<Rightarrow> dispatch_error option" where
  "validateDispatchMap handlers keys =
     (case allowed_keys [] keys of
        Inl e \<Rightarrow> Some e
      | Inr allowed \<Rightarrow>
          if length handlers \<noteq> length allowed then Some (SizeMismatch (length handlers) (length allowed))
          else case find (\<lambda>(k, _). k \<notin> set allowed) handlers of
                 Some (k, _) \<Rightarrow> Some (UnsupportedKey k)
               | None \<Rightarrow> map_option MissingKey (find (\<lambda>k. map_of handlers k = None) allowed))"

definition validateActionDispatchMaps :: "dispatch_error option" where
  "validateActionDispatchMaps =
     (case validateDispatchMap instantDispatch supportedInstantTypes of
        Some e \<Rightarrow> Some e
      | None \<Rightarrow> validateDispatchMap taskReqDispatch supportedTaskReqTypes)"

definition applyInstant :: "go_env \<Rightarrow> string \<Rightarrow> instant \<Rightarrow> u64 \<Rightarrow> world \<Rightarrow> world" where
  "applyInstant e aid inst nowTick w =
     (case map_of instantDispatch (InstType inst) of
        Some h \<Rightarrow> h e aid inst nowTick w
      | None \<Rightarrow> reply aid nowTick (InstID inst) False ''E_BAD_REQUEST'' ''unknown instant type'' w)"

definition applyTaskReq :: "go_env \<Rightarrow> string \<Rightarrow> task_req \<Rightarrow> u64 \<Rightarrow> world \<Rightarrow> world" where
  "applyTaskReq e aid tr nowTick w =
     (case map_of taskReqDispatch (TaskType tr) of
        Some h \<Rightarrow> h e aid tr nowTick w
      | None \<Rightarrow> reply aid nowTick (TaskID tr) False ''E_BAD_REQUEST'' ''unknown task type'' w)"

definition cancel_task :: "u64 \<Rightarrow> string \<Rightarrow> agent \<Rightarrow> agent" where
  "cancel_task nowTick cid a =
     (if map_option MTaskID (MoveTask a) = Some cid
      then AddEvent (actionResult nowTick cid True [] ''canceled'') (a\<lparr>MoveTask := None\<rparr>)
      else if map_option WTaskID (WorkTask a) = Some cid
      then AddEvent (actionResult nowTick cid True [] ''canceled'') (a\<lparr>WorkTask := None\<rparr>)
      else AddEvent (actionResult nowTick cid False ''E_INVALID_TARGET'' ''task not found'') a)"

definition stale :: "u64 \<Rightarrow> u64 \<Rightarrow> bool" where
  "stale actTick nowTick \<longleftrightarrow> actTick + 2 < nowTick \<or> actTick > nowTick"

definition applyAct :: "go_env \<Rightarrow> string \<Rightarrow> act_msg \<Rightarrow> u64 \<Rightarrow> world \<Rightarrow> world" where
  "applyAct e aid act nowTick w =
     (if stale (ActTick act) nowTick then reply aid nowTick ''ACT'' False ''E_STALE'' ''act tick out of range'' w
      else
        let w = fold (\<lambda>cid. upd_agent aid (cancel_task nowTick cid)) (ActCancel act) w;
            w = fold (\<lambda>inst. applyInstant e aid inst nowTick) (ActInstants act) w
        in fold (\<lambda>tr. applyTaskReq e aid tr nowTick) (ActTasks act) w)"

section \<open>Observations\<close>

record obs_meta =
  ObsEvents :: "event list"
  ObsCursor :: u64
  ObsIdent :: string
  ObsFun :: "fun_score option"
  ObsMemory :: "(string \<times> string) list"

definition ObsID :: "string \<Rightarrow> u64 \<Rightarrow> u64 \<Rightarrow> string" where
  "ObsID agentID tick cursor = agentID @ '':'' @ dec_nat (unat tick) @ '':'' @ dec_nat (unat cursor)"

definition FunScorePtr :: "fun_score \<Rightarrow> fun_score option" where
  "FunScorePtr f =
     (if Novelty f = 0 \<and> Creation f = 0 \<and> Social f = 0 \<and> Influence f = 0 \<and> Narrative f = 0 \<and> RiskRescue f = 0
      then None else Some f)"

definition AttachObsEventsAndMeta :: "u64 \<Rightarrow> agent \<Rightarrow> obs_meta \<times> agent" where
  "AttachObsEventsAndMeta nowTick a =
     (case TakeEvents a of
        (evs, a) \<Rightarrow>
          (\<lparr>ObsEvents = evs, ObsCursor = EventCursor a, ObsIdent = ObsID (AID a) nowTick (EventCursor a),
            ObsFun = FunScorePtr (AFun a), ObsMemory = PendingMemory a\<rparr>,
           if PendingMemory a \<noteq> [] then a\<lparr>PendingMemory := []\<rparr> else a))"

text \<open>Every connected agent is sent what happened to it; the others keep it.\<close>

definition send_obs :: "u64 \<Rightarrow> bool gomap \<Rightarrow> world \<Rightarrow> (string \<times> obs_meta) list \<times> world" where
  "send_obs nowTick cs w =
     (map (\<lambda>(aid, a). (aid, fst (AttachObsEventsAndMeta nowTick a))) (filter (\<lambda>(aid, _). map_of cs aid \<noteq> None) (agents w)),
      w\<lparr>agents := map (\<lambda>(aid, a). (aid, if map_of cs aid \<noteq> None then snd (AttachObsEventsAndMeta nowTick a) else a))
          (agents w)\<rparr>)"

section \<open>One tick\<close>

record join_request =
  JoinName :: string
  JoinNano :: int              \<comment> \<open>the clock when the join is answered\<close>
  JoinDelta :: bool
  JoinOut :: bool              \<comment> \<open>the request carries a client channel\<close>

record tick_batch =
  TJoins :: "join_request list"
  TLeaves :: "string list"
  TActions :: "(string \<times> act_msg) list"
  TOuts :: "string list"
  TIns :: "(agent_transfer \<times> bool option) list"     \<comment> \<open>with the delta flag of the client channel, if there is one\<close>
  TEvents :: "(string \<times> event option) list"

definition no_input :: tick_batch where
  "no_input = \<lparr>TJoins = [], TLeaves = [], TActions = [], TOuts = [], TIns = [], TEvents = []\<rparr>"

type_synonym sim = "world \<times> bool gomap"

definition take_leave :: "string \<Rightarrow> sim \<Rightarrow> sim" where
  "take_leave aid = (\<lambda>(w, cs). if map_of (agents w) aid = None then (w, cs) else (w, mdel aid cs))"

definition take_join :: "join_request \<Rightarrow> sim \<Rightarrow> sim" where
  "take_join r = (\<lambda>(w, cs).
     case joinAgent (JoinName r) (JoinNano r) w of
       ((aid, _), w) \<Rightarrow> (w, if JoinOut r then mput aid (JoinDelta r) cs else cs))"

definition take_transfer_out :: "string \<Rightarrow> sim \<Rightarrow> sim" where
  "take_transfer_out aid = (\<lambda>(w, cs).
     case handleTransferOut aid w of Inl _ \<Rightarrow> (w, cs) | Inr (t, w) \<Rightarrow> (w, mdel (XID t) cs))"

definition take_transfer_in :: "agent_transfer \<times> bool option \<Rightarrow> sim \<Rightarrow> sim" where
  "take_transfer_in = (\<lambda>(t, ch) (w, cs).
     case handleTransferIn t w of
       Inl _ \<Rightarrow> (w, cs)
     | Inr w \<Rightarrow> (w, case ch of None \<Rightarrow> cs | Some delta \<Rightarrow> mput (XID t) delta cs))"

definition inject_event :: "string \<times> event option \<Rightarrow> world \<Rightarrow> string option \<times> world" where
  "inject_event = (\<lambda>(aid, ev) w.
     if aid = [] then (Some ''missing agent id'', w)
     else case ev of None \<Rightarrow> (Some ''missing event payload'', w) | Some e \<Rightarrow> (None, emit aid e w))"

definition take_action :: "go_env \<Rightarrow> u64 \<Rightarrow> string \<times> act_msg \<Rightarrow> world \<Rightarrow> world" where
  "take_action e nowTick = (\<lambda>(aid, act) w.
     if map_of (agents w) aid = None then w else applyAct e aid act nowTick w)"

definition run_systems :: "go_env \<Rightarrow> u64 \<Rightarrow> world \<Rightarrow> world" where
  "run_systems e nowTick w =
     (let w = systemMovement nowTick w;
          w = systemWork (EnvFloats e) nowTick w;
          w = systemConveyors nowTick w;
          w = systemEnvironment (EnvFloats e) nowTick w;
          w = tickLaws (EnvFloats e) nowTick w;
          w = systemDirector (EnvRound e) nowTick w;
          w = tickContracts (EnvFloats e) nowTick w;
          w = systemFun (EnvFloats e) nowTick w
      in w\<lparr>stats := fold (\<lambda>(_, a). ObservePos nowTick (vx (APos a)) (vz (APos a))) (agents w) (stats w)\<rparr>)"

text \<open>Everything before the actions of a tick.\<close>

definition open_tick :: "tick_batch \<Rightarrow> u64 \<Rightarrow> sim \<Rightarrow> sim" where
  "open_tick i nowTick = (\<lambda>(w, cs).
     let w = maybeSeasonRollover nowTick (maybeWorldResetNotice nowTick w);
         s = fold take_leave (TLeaves i) (w, cs);
         s = fold take_join (TJoins i) s;
         s = fold take_transfer_out (TOuts i) s;
         (w, cs) = fold take_transfer_in (TIns i) s;
         w = fold (\<lambda>r w. snd (inject_event r w)) (TEvents i) w
     in (TickClaimsMaintenance nowTick w, cs))"

text \<open>The metrics of the tick: looking at the statistics moves their buckets on to the present.\<close>

definition store_metrics :: "(real \<Rightarrow> real) \<Rightarrow> u64 \<Rightarrow> world \<Rightarrow> (bucket \<times> director_metrics) \<times> world" where
  "store_metrics rnd nowTick w =
     (case Summarize nowTick (stats w) of
        (b, st) \<Rightarrow> (case computeDirectorMetrics rnd nowTick (w\<lparr>stats := st\<rparr>) of (dm, w) \<Rightarrow> ((b, dm), w)))"

definition stepInternal :: "go_env \<Rightarrow> tick_batch \<Rightarrow> sim \<Rightarrow> (string \<times> obs_meta) list \<times> sim" where
  "stepInternal e i = (\<lambda>(w, cs).
     let nowTick = worldTick w;
         (w, cs) = open_tick i nowTick (w, cs);
         w = fold (take_action e nowTick) (TActions i) w;
         w = run_systems e nowTick w;
         (out, w) = send_obs nowTick cs w;
         w = w\<lparr>worldTick := worldTick w + 1\<rparr>
     in (out, (snd (store_metrics (EnvRound e) nowTick w), cs)))"

section \<open>The server loop\<close>

definition ArchiveTick :: "u64 \<Rightarrow> u64" where
  "ArchiveTick cur = (if cur = 0 then 0 else cur - 1)"

text \<open>The sink takes the archive, is full, or is not configured.\<close>

datatype sink = NoSink | SinkReady | SinkFull

definition HandleReset :: "sink \<Rightarrow> world \<Rightarrow> string option \<times> world" where
  "HandleReset snk w =
     (if snk = SinkFull then (Some ''snapshot sink backpressure'', w)
      else
        let curTick = worldTick w;
            w = resetWorldForNewSeason curTick (i64 (seasonIndex w curTick + 1)) (ArchiveTick curTick) w
        in (None, auditEvent curTick ''SYSTEM'' ''WORLD_RESET'' \<lparr>vx = 0, vy = 0, vz = 0\<rparr> ''ADMIN_RESET''
              [(''world_id'', JStr (WorldID (cfg w))), (''archive_tick'', JU64 (ArchiveTick curTick)),
               (''new_seed'', JInt (Seed (cfg w)))] w))"

record server =
  Sim :: sim
  Pending :: tick_batch
  PendingReset :: nat
  Sent :: "(string \<times> obs_meta) list"

text \<open>What the loop can receive.  Attaching, queries and metadata are answered at once; the rest waits for the tick.\<close>

datatype loop_input =
    InJoin join_request
  | InAttach string int bool
  | InLeave string
  | InAct string act_msg
  | InDedupe dedupe_req
  | InTransferOut string
  | InTransferIn agent_transfer "bool option"
  | InInject string "event option"
  | InOrgUpsert "org_meta list"
  | InReset
  | InTick

definition attach_now :: "string \<Rightarrow> int \<Rightarrow> bool \<Rightarrow> sim \<Rightarrow> sim" where
  "attach_now token nowNano delta = (\<lambda>(w, cs).
     case handleAttach token nowNano w of
       (None, w) \<Rightarrow> (w, cs)
     | (Some (aid, _), w) \<Rightarrow> (w, mput aid delta cs))"

definition run_tick :: "go_env \<Rightarrow> sink \<Rightarrow> server \<Rightarrow> server" where
  "run_tick e snk s =
     (case stepInternal e (Pending s) (Sim s) of
        (out, (w, cs)) \<Rightarrow>
          \<lparr>Sim = (if PendingReset s = 0 then w else snd (HandleReset snk w), cs), Pending = no_input, PendingReset = 0,
            Sent = out\<rparr>)"

primrec loop_step :: "go_env \<Rightarrow> sink \<Rightarrow> loop_input \<Rightarrow> server \<Rightarrow> server" where
  "loop_step e snk (InJoin r) s = s\<lparr>Pending := (Pending s)\<lparr>TJoins := TJoins (Pending s) @ [r]\<rparr>\<rparr>"
| "loop_step e snk (InAttach token nowNano delta) s = s\<lparr>Sim := attach_now token nowNano delta (Sim s)\<rparr>"
| "loop_step e snk (InLeave aid) s = s\<lparr>Pending := (Pending s)\<lparr>TLeaves := TLeaves (Pending s) @ [aid]\<rparr>\<rparr>"
| "loop_step e snk (InAct aid act) s = s\<lparr>Pending := (Pending s)\<lparr>TActions := TActions (Pending s) @ [(aid, act)]\<rparr>\<rparr>"
| "loop_step e snk (InDedupe q) s = s\<lparr>Sim := (snd (handleActDedupeReq q (fst (Sim s))), snd (Sim s))\<rparr>"
| "loop_step e snk (InTransferOut aid) s = s\<lparr>Pending := (Pending s)\<lparr>TOuts := TOuts (Pending s) @ [aid]\<rparr>\<rparr>"
| "loop_step e snk (InTransferIn t ch) s = s\<lparr>Pending := (Pending s)\<lparr>TIns := TIns (Pending s) @ [(t, ch)]\<rparr>\<rparr>"
| "loop_step e snk (InInject aid ev) s = s\<lparr>Pending := (Pending s)\<lparr>TEvents := TEvents (Pending s) @ [(aid, ev)]\<rparr>\<rparr>"
| "loop_step e snk (InOrgUpsert ms) s = s\<lparr>Sim := (handleOrgMetaUpsertReq ms (fst (Sim s)), snd (Sim s))\<rparr>"
| "loop_step e snk InReset s = s\<lparr>PendingReset := PendingReset s + 1\<rparr>"
| "loop_step e snk InTick s = run_tick e snk s"

section \<open>Nobody is lost in a tick\<close>

lemma roll_instants: "list_all (\<lambda>(_, h). \<forall>e aid inst nowTick w. roll (h e aid inst nowTick w) = roll w) instantDispatch"
  by (simp add: instantDispatch_def)

lemma roll_tasks: "list_all (\<lambda>(_, h). \<forall>e aid tr nowTick w. roll (h e aid tr nowTick w) = roll w) taskReqDispatch"
  by (simp add: taskReqDispatch_def)

lemma roll_instant: "(k, h) \<in> set instantDispatch \<Longrightarrow> roll (h e aid inst nowTick w) = roll w"
  using roll_instants by (auto simp: list_all_iff)

lemma roll_task: "(k, h) \<in> set taskReqDispatch \<Longrightarrow> roll (h e aid tr nowTick w) = roll w"
  using roll_tasks by (auto simp: list_all_iff)

lemma roll_applyInstant [simp]: "roll (applyInstant e aid inst nowTick w) = roll w"
  by (auto simp: applyInstant_def roll_instant dest: map_of_SomeD split: option.split)

lemma roll_applyTaskReq [simp]: "roll (applyTaskReq e aid tr nowTick w) = roll w"
  by (auto simp: applyTaskReq_def roll_task dest: map_of_SomeD split: option.split)

lemma who_cancel [simp]: "who (cancel_task nowTick cid a) = who a"
  by (simp add: cancel_task_def)

lemma roll_applyAct [simp]: "roll (applyAct e aid act nowTick w) = roll w"
  by (simp add: applyAct_def Let_def)

lemma roll_take_action [simp]: "roll (take_action e nowTick x w) = roll w"
  by (simp add: take_action_def split_beta)

lemma roll_run_systems [simp]: "roll (run_systems e nowTick w) = roll w"
  by (simp add: run_systems_def Let_def)

lemma who_obs [simp]: "who (snd (AttachObsEventsAndMeta nowTick a)) = who a"
proof -
  have "who (if PendingMemory b \<noteq> [] then b\<lparr>PendingMemory := []\<rparr> else b) = who b" for b :: agent by simp
  moreover have "who (snd (TakeEvents a)) = who a" by simp
  ultimately show ?thesis by (simp add: AttachObsEventsAndMeta_def split_beta)
qed

lemma roll_send_obs [simp]: "roll (snd (send_obs nowTick cs w)) = roll w"
  unfolding send_obs_def snd_conv by (rule roll_map) simp

lemma roll_inject [simp]: "roll (snd (inject_event x w)) = roll w"
  by (simp add: inject_event_def split_beta split: option.split)

lemma roll_HandleReset [simp]: "roll (snd (HandleReset snk w)) = roll w"
  by (simp add: HandleReset_def Let_def)

text \<open>Every agent is registered under its own identifier, and clients are attached to agents that exist.\<close>

definition registered :: "world \<Rightarrow> bool" where
  "registered w \<longleftrightarrow> (\<forall>k a. map_of (agents w) k = Some a \<longrightarrow> AID a = k)"

definition attached :: "sim \<Rightarrow> bool" where
  "attached = (\<lambda>(w, cs). registered w \<and> (\<forall>k. map_of cs k \<noteq> None \<longrightarrow> map_of (agents w) k \<noteq> None))"

lemma roll_agents_iff: "roll w' = roll w \<Longrightarrow> map_option who (map_of (agents w') k) = map_option who (map_of (agents w) k)"
  by (simp add: roll_def fun_eq_iff)

lemma roll_present: "roll w' = roll w \<Longrightarrow> map_of (agents w') k = None \<longleftrightarrow> map_of (agents w) k = None"
  using roll_agents_iff[of w' w k] by (metis option.map_disc_iff)

lemma roll_AID: 
  assumes "roll w' = roll w" "map_of (agents w') k = Some a"
  shows "\<exists>b. map_of (agents w) k = Some b \<and> who b = who a"
  using roll_agents_iff[OF assms(1), of k] assms(2) by (cases "map_of (agents w) k") auto

lemma roll_registered:
  assumes "roll w' = roll w" "registered w" shows "registered w'"
  unfolding registered_def
proof (intro allI impI)
  fix k a assume "map_of (agents w') k = Some a"
  then obtain b where "map_of (agents w) k = Some b" "who b = who a" using roll_AID[OF assms(1)] by blast
  then show "AID a = k" using assms(2) by (simp add: registered_def who_def)
qed

lemma roll_attached:
  assumes "roll w' = roll w" "attached (w, cs)" shows "attached (w', cs)"
  using roll_registered[OF assms(1)] roll_present[OF assms(1)] assms(2) by (simp add: attached_def del: not_None_eq)

lemma registered_mput: "registered w \<Longrightarrow> AID a = k \<Longrightarrow> registered (w\<lparr>agents := mput k a (agents w)\<rparr>)"
  by (simp add: registered_def map_of_mput)

lemma who_AID: "who a = who b \<Longrightarrow> AID a = AID b"
  by (simp add: who_def)

lemma BuildJoinedAgent_AID: "AID (BuildJoinedAgent agentID name wid spawn starter) = agentID"
  by (simp add: BuildJoinedAgent_def InitDefaults_def Let_def split: option.split)

lemma joinAgent_spec:
  assumes "joinAgent name nano w = ((aid, token), w')"
  shows "aid = NewAgentID (nextAgentNum w + 1) \<and> nextAgentNum w' = nextAgentNum w + 1 \<and>
    (\<exists>a. agents w' = mput aid a (agents w) \<and> AID a = aid)"
proof -
  have [simp]: "AID (enqueueActiveEventForAgent t v (funOnBiome v' t' (BuildJoinedAgent g n i p q))) = g" for t v v' t' g n i p q
    using who_AID[OF who_season(1)] who_AID[OF who_fun(8)] by (simp add: BuildJoinedAgent_AID)
  show ?thesis using assms by (auto simp: joinAgent_def Let_def split: prod.splits)
qed

lemma attached_leave: "attached s \<Longrightarrow> attached (take_leave aid s)"
  by (cases s) (auto simp: take_leave_def attached_def map_of_mdel)

lemma attached_join:
  assumes "attached s" shows "attached (take_join r s)"
proof -
  obtain w cs aid token w' where s: "s = (w, cs)" and j: "joinAgent (JoinName r) (JoinNano r) w = ((aid, token), w')"
    by (metis surj_pair)
  with joinAgent_spec[OF j] assms show ?thesis
    by (auto simp: take_join_def attached_def registered_def map_of_mput split: if_splits)
qed

lemma handleTransferOut_AID:
  assumes "handleTransferOut aid w = Inr (t, w')" "registered w"
  shows "XID t = aid \<and> agents w' = mdel aid (agents w)"
  using assms by (auto simp: handleTransferOut_def Let_def registered_def BuildOutgoingAgent_def split: option.splits)

lemma attached_out:
  assumes "attached s" shows "attached (take_transfer_out aid s)"
proof -
  obtain w cs where s: "s = (w, cs)" by fastforce
  show ?thesis
  proof (cases "handleTransferOut aid w")
    case (Inr r)
    obtain t w' where r: "r = (t, w')" by fastforce
    have "XID t = aid \<and> agents w' = mdel aid (agents w)"
      using handleTransferOut_AID[of aid w t w'] Inr r s assms by (simp add: attached_def)
    with assms s Inr r show ?thesis
      by (auto simp: take_transfer_out_def attached_def registered_def map_of_mdel)
  qed (use s assms in \<open>simp add: take_transfer_out_def\<close>)
qed

lemma handleTransferIn_AID:
  assumes "handleTransferIn t w = Inr w'"
  shows "map_of (agents w) (XID t) = None \<and> (\<exists>a. agents w' = mput (XID t) a (agents w) \<and> AID a = XID t)"
proof -
  from transfer_in_spec[OF assms] obtain a where a: "agents w' = mput (XID t) a (agents w)" "carried t (WorldID (cfg w)) a" by blast
  moreover have "map_of (agents w) (XID t) = None" using assms by (auto simp: handleTransferIn_def split: if_splits)
  ultimately show ?thesis by (auto simp: carried_def)
qed

lemma attached_in:
  assumes "attached s" shows "attached (take_transfer_in x s)"
proof -
  obtain w cs t ch where s: "s = (w, cs)" and x: "x = (t, ch)" by (metis surj_pair)
  show ?thesis
  proof (cases "handleTransferIn t w")
    case (Inr w')
    with handleTransferIn_AID[OF Inr] assms s x show ?thesis
      by (auto simp: take_transfer_in_def attached_def registered_def map_of_mput split: option.split if_splits)
  qed (use s x assms in \<open>simp add: take_transfer_in_def\<close>)
qed

lemma attached_fold: "(\<And>x s. attached s \<Longrightarrow> attached (f x s)) \<Longrightarrow> attached s \<Longrightarrow> attached (fold f xs s)"
  by (induction xs arbitrary: s) simp_all

lemma attached_open:
  assumes "attached s" shows "attached (open_tick i nowTick s)"
proof -
  obtain w cs where s: "s = (w, cs)" by fastforce
  define v where "v = maybeSeasonRollover nowTick (maybeWorldResetNotice nowTick w)"
  have "attached (v, cs)" using roll_attached[of v w cs] assms s by (simp add: v_def)
  then have "attached (fold take_transfer_in (TIns i) (fold take_transfer_out (TOuts i) (fold take_join (TJoins i)
      (fold take_leave (TLeaves i) (v, cs)))))"
    by (intro attached_fold attached_leave attached_join attached_out attached_in)
  moreover obtain w1 cs1 where "fold take_transfer_in (TIns i) (fold take_transfer_out (TOuts i) (fold take_join (TJoins i)
      (fold take_leave (TLeaves i) (v, cs)))) = (w1, cs1)" by fastforce
  ultimately have a: "attached (w1, cs1)" and o: "open_tick i nowTick s =
      (TickClaimsMaintenance nowTick (fold (\<lambda>r w. snd (inject_event r w)) (TEvents i) w1), cs1)"
    by (simp_all add: open_tick_def s v_def)
  have "roll (TickClaimsMaintenance nowTick (fold (\<lambda>r w. snd (inject_event r w)) (TEvents i) w1)) = roll w1" by simp
  from roll_attached[OF this a] show ?thesis unfolding o .
qed

lemma roll_store_metrics [simp]: "roll (snd (store_metrics rnd nowTick w)) = roll w"
proof -
  obtain b st where s: "Summarize nowTick (stats w) = (b, st)" by fastforce
  have "roll (w\<lparr>stats := st\<rparr>) = roll w" by (simp add: roll_def)
  then show ?thesis
    using roll_computeDirectorMetrics[of rnd nowTick "w\<lparr>stats := st\<rparr>"] by (simp add: store_metrics_def s split_beta)
qed

lemma stepInternal_roll:
  assumes "stepInternal e i (w, cs) = (out, (w', cs'))"
  shows "\<exists>v. open_tick i (worldTick w) (w, cs) = (v, cs') \<and> roll w' = roll (v\<lparr>worldTick := worldTick v + 1\<rparr>)"
proof -
  obtain v cs1 where o: "open_tick i (worldTick w) (w, cs) = (v, cs1)" by fastforce
  define u where "u = snd (send_obs (worldTick w) cs1 (run_systems e (worldTick w) (fold (take_action e (worldTick w)) (TActions i) v)))"
  have u: "roll u = roll v" by (simp add: u_def)
  have w': "w' = snd (store_metrics (EnvRound e) (worldTick w) (u\<lparr>worldTick := worldTick u + 1\<rparr>))" "cs' = cs1"
    using assms by (auto simp: stepInternal_def o Let_def split_beta u_def)
  have "roll w' = roll (u\<lparr>worldTick := worldTick u + 1\<rparr>)" unfolding w'(1) by (rule roll_store_metrics)
  then show ?thesis using o u w'(2) by (simp add: roll_def)
qed

lemma attached_tick: "attached s \<Longrightarrow> attached (snd (stepInternal e i s))"
proof -
  assume a: "attached s"
  obtain w cs out w' cs' where s: "s = (w, cs)" and st: "stepInternal e i (w, cs) = (out, (w', cs'))"
    by (metis surj_pair)
  from stepInternal_roll[OF st] obtain v where v: "open_tick i (worldTick w) (w, cs) = (v, cs')"
    "roll w' = roll (v\<lparr>worldTick := worldTick v + 1\<rparr>)" by blast
  have "attached (v, cs')" using attached_open[OF a, of i "worldTick w"] v(1) s by simp
  then have "attached (v\<lparr>worldTick := worldTick v + 1\<rparr>, cs')" by (simp add: attached_def registered_def)
  from roll_attached[OF v(2) this] show ?thesis by (simp add: s st)
qed

lemma handleAttach_spec:
  assumes "handleAttach token nano w = (r, w')" "registered w"
  shows "registered w' \<and> (\<forall>k. map_of (agents w) k \<noteq> None \<longrightarrow> map_of (agents w') k \<noteq> None) \<and>
    (\<forall>aid tok. r = Some (aid, tok) \<longrightarrow> map_of (agents w) aid \<noteq> None)"
proof (cases "trim_space token = [] \<or> AttachByToken (trim_space token) (agents w) (WorldID (cfg w)) nano = None")
  case True
  then have "r = None" "w' = w" using assms(1) by (auto simp: handleAttach_def Let_def split: if_splits)
  with assms(2) show ?thesis by simp
next
  case False
  then obtain aid tok m where m: "AttachByToken (trim_space token) (agents w) (WorldID (cfg w)) nano = Some (aid, tok, m)" by auto
  then obtain a where a: "map_of (agents w) aid = Some a" "m = mput aid (a\<lparr>CurrentWorldID := WorldID (cfg w), ResumeToken := tok\<rparr>) (agents w)"
    by (auto simp: AttachByToken_def Let_def split: if_splits option.splits)
  define v where "v = w\<lparr>agents := m\<rparr>"
  have w': "r = Some (aid, tok)" "w' = upd_agent aid (enqueueActiveEventForAgent (worldTick w) w) v"
    using assms(1) False m by (auto simp: handleAttach_def Let_def v_def)
  have "AID a = aid" using assms(2) a(1) by (simp add: registered_def)
  then have v: "registered v" "map_of (agents v) k = None \<longleftrightarrow> map_of (agents w) k = None" for k
    using assms(2) a by (auto simp: v_def registered_def map_of_mput)
  have "roll w' = roll v" by (simp add: w'(2))
  from roll_registered[OF this v(1)] roll_present[OF this] v(2) a(1) w'(1) show ?thesis by simp
qed

lemma upsert_registered:
  assumes "registered w"
  shows "registered (handleOrgMetaUpsertReq ms w) \<and> (\<forall>k. map_of (agents w) k \<noteq> None \<longrightarrow> map_of (agents (handleOrgMetaUpsertReq ms w)) k \<noteq> None)"
proof -
  have [simp]: "AID (reconciled os owner a) = AID a" for os owner a
    by (simp add: reconciled_def split: option.split)
  have "map_of (ReconcileAgentsOrg m os owner) k = map_option (reconciled os owner) (map_of m k)" for m os owner k
    unfolding ReconcileAgentsOrg_def by (rule map_of_pairwise)
  then show ?thesis using assms
    by (auto simp: handleOrgMetaUpsertReq_def ApplyOrgMetaUpsert_def Let_def registered_def split: prod.split)
qed

text \<open>
  C3.  Whatever clients, administrators and other worlds send, in any order and over any number of ticks: every
  agent is registered under its own identifier, and every attached client belongs to an agent that exists.
\<close>

theorem server_consistent:
  assumes "attached (Sim s)"
  shows "attached (Sim (fold (loop_step e snk) inputs s))"
  using assms
proof (induction inputs arbitrary: s)
  case (Cons x xs)
  obtain w cs where s: "Sim s = (w, cs)" by fastforce
  have "attached (Sim (loop_step e snk x s))"
  proof (cases x)
    case (InAttach token nano delta)
    obtain r w' where h: "handleAttach token nano w = (r, w')" by fastforce
    have "registered w" using Cons.prems s by (simp add: attached_def)
    from handleAttach_spec[OF h this] Cons.prems s h InAttach show ?thesis
      by (auto simp: attach_now_def attached_def map_of_mput split: option.split)
  next
    case (InDedupe q)
    with Cons.prems s show ?thesis using roll_attached[of "snd (handleActDedupeReq q w)" w cs] by simp
  next
    case (InOrgUpsert ms)
    with Cons.prems s upsert_registered[of w ms] show ?thesis by (auto simp: attached_def)
  next
    case InTick
    obtain out w' cs' where st: "stepInternal e (Pending s) (Sim s) = (out, (w', cs'))" by (metis surj_pair)
    then have "attached (w', cs')" using attached_tick[OF Cons.prems, of e "Pending s"] by simp
    with roll_attached[of "snd (HandleReset snk w')" w' cs'] show ?thesis by (simp add: InTick run_tick_def st)
  qed (use Cons.prems in simp_all)
  with Cons.IH show ?case by simp
qed simp

theorem server_consistent_witness:
  "\<forall>e. attached (Sim (fold (loop_step e NoSink)
     [InJoin \<lparr>JoinName = ''Ada'', JoinNano = 1, JoinDelta = True, JoinOut = True\<rparr>, InTick, InLeave ''A1'', InReset, InTick]
     \<lparr>Sim = (mine_world, []), Pending = no_input, PendingReset = 0, Sent = []\<rparr>))"
proof
  fix e
  have "attached (mine_world, [])" by (simp add: attached_def registered_def mine_world_def)
  then show "attached (Sim (fold (loop_step e NoSink)
     [InJoin \<lparr>JoinName = ''Ada'', JoinNano = 1, JoinDelta = True, JoinOut = True\<rparr>, InTick, InLeave ''A1'', InReset, InTick]
     \<lparr>Sim = (mine_world, []), Pending = no_input, PendingReset = 0, Sent = []\<rparr>))"
    by (intro server_consistent) simp
qed

lemma tick_roll:
  assumes "TJoins i = []" "TOuts i = []" "TIns i = []" "stepInternal e i (w, cs) = (out, (w', cs'))"
  shows "roll w' = roll (w\<lparr>worldTick := worldTick w + 1\<rparr>) \<and>
    (\<forall>k. map_of cs' k = (if k \<in> set (TLeaves i) \<and> map_of (agents w) k \<noteq> None then None else map_of cs k))"
proof -
  let ?u = "maybeSeasonRollover (worldTick w) (maybeWorldResetNotice (worldTick w) w)"
  have u: "roll ?u = roll w" by simp
  have leaves: "fst (fold take_leave ls (v, c)) = v \<and>
      map_of (snd (fold take_leave ls (v, c))) k = (if k \<in> set ls \<and> map_of (agents v) k \<noteq> None then None else map_of c k)"
    for ls v c k
    by (induction ls arbitrary: c) (auto simp: take_leave_def map_of_mdel)
  obtain cs1 where l: "fold take_leave (TLeaves i) (?u, cs) = (?u, cs1)"
    using leaves[of "TLeaves i" ?u cs] by (metis prod.collapse)
  from stepInternal_roll[OF assms(4)] obtain v where v: "open_tick i (worldTick w) (w, cs) = (v, cs')"
    "roll w' = roll (v\<lparr>worldTick := worldTick v + 1\<rparr>)" by blast
  have "v = TickClaimsMaintenance (worldTick w) (fold (\<lambda>r w. snd (inject_event r w)) (TEvents i) ?u)" "cs' = cs1"
    using v(1) l assms(1-3) by (simp_all add: open_tick_def Let_def)
  then have "roll v = roll w" by simp
  with v(2) have r: "roll w' = roll (w\<lparr>worldTick := worldTick w + 1\<rparr>)" by (simp add: roll_def)
  have c: "map_of cs' k = (if k \<in> set (TLeaves i) \<and> map_of (agents w) k \<noteq> None then None else map_of cs k)" for k
    using leaves[of "TLeaves i" ?u cs k] l \<open>cs' = cs1\<close> roll_present[OF u, of k] by simp
  show ?thesis using r c by blast
qed

lemma tick_clients:
  assumes "TJoins i = []" "TOuts i = []" "TIns i = []" "stepInternal e i (w, cs) = (out, (w', cs'))"
  shows "map_of cs' k = (if k \<in> set (TLeaves i) \<and> map_of (agents w) k \<noteq> None then None else map_of cs k)"
  using tick_roll[OF assms] by blast

text \<open>
  C4.  A tick without arrivals and departures keeps every agent with its name, resume token and cooldown, and adds
  none, whatever the agents do and whichever systems run; only the tick moves on, by one.
\<close>

theorem tick_keeps_everyone:
  assumes "TJoins i = []" "TOuts i = []" "TIns i = []" "stepInternal e i (w, cs) = (out, (w', cs'))"
  shows "(\<forall>k. map_option who (map_of (agents w') k) = map_option who (map_of (agents w) k)) \<and>
    worldTick w' = worldTick w + 1 \<and> nextAgentNum w' = nextAgentNum w \<and>
    (\<forall>k. map_of cs' k = (if k \<in> set (TLeaves i) \<and> map_of (agents w) k \<noteq> None then None else map_of cs k))"
  using tick_roll[OF assms] roll_agents_iff[of w' "w\<lparr>worldTick := worldTick w + 1\<rparr>"] by (simp add: roll_def)

theorem tick_keeps_everyone_witness:
  "\<forall>e. worldTick (fst (snd (stepInternal e (no_input\<lparr>TActions := [(''A1'', \<lparr>ActID = ''X'', ActTick = 0, ExpectedWorldID = [],
     ActInstants = [blank_inst\<lparr>InstType := ''SAY''\<rparr>], ActTasks = [], ActCancel = []\<rparr>)]\<rparr>) (mine_world, [])))) = worldTick mine_world + 1"
proof
  fix e :: go_env
  let ?i = "no_input\<lparr>TActions := [(''A1'', \<lparr>ActID = ''X'', ActTick = 0, ExpectedWorldID = [],
     ActInstants = [blank_inst\<lparr>InstType := ''SAY''\<rparr>], ActTasks = [], ActCancel = []\<rparr>)]\<rparr>"
  obtain out w' cs' where st: "stepInternal e ?i (mine_world, []) = (out, (w', cs'))" by (metis surj_pair)
  have "TJoins ?i = []" "TOuts ?i = []" "TIns ?i = []" by (simp_all add: no_input_def)
  from tick_keeps_everyone[OF this st] show "worldTick (fst (snd (stepInternal e ?i (mine_world, [])))) = worldTick mine_world + 1"
    by (simp only: st fst_conv snd_conv)
qed

text \<open>
  C38.  Leaving is queued for the next tick but attaching happens at once: a client that reconnects before the tick in
  which its old connection's leave is applied is attached, and that tick detaches it again.
\<close>

theorem reconnect_detached:
  assumes "Pending s = no_input" "PendingReset s = 0" "handleAttach token nano (fst (Sim s)) = (Some (aid, token'), w')"
  shows "map_of (snd (Sim (fold (loop_step e snk) [InLeave aid, InAttach token nano delta] s))) aid = Some delta \<and>
    map_of (snd (Sim (fold (loop_step e snk) [InLeave aid, InAttach token nano delta, InTick] s))) aid = None \<and>
    map_of (snd (Sim (fold (loop_step e snk) [InAttach token nano delta, InTick] s))) aid = Some delta"
proof -
  obtain w cs where s: "Sim s = (w, cs)" by fastforce
  have a: "attach_now token nano delta (w, cs) = (w', mput aid delta cs)" using assms(3) s by (simp add: attach_now_def)
  have here: "map_of (agents w') aid \<noteq> None"
    using assms(3) s by (auto simp: handleAttach_def Let_def AttachByToken_def upd_agent_def map_of_mput split: if_splits option.splits)
  have tick: "map_of (snd (snd (stepInternal e i (w', c)))) aid =
      (if aid \<in> set (TLeaves i) \<and> map_of (agents w') aid \<noteq> None then None else map_of c aid)"
    if "TJoins i = []" "TOuts i = []" "TIns i = []" for i c
  proof -
    obtain out v c' where st: "stepInternal e i (w', c) = (out, (v, c'))" by (metis surj_pair)
    show ?thesis using tick_clients[OF that st] by (simp add: st)
  qed
  have "snd (Sim (run_tick e snk t)) = snd (snd (stepInternal e (Pending t) (Sim t)))" for t
    by (simp add: run_tick_def split: prod.split)
  then show ?thesis using here tick[of "no_input\<lparr>TLeaves := [aid]\<rparr>"] tick[of no_input] 
    by (simp add: s a assms(1) no_input_def map_of_mput)
qed

lemma resume_world_attach:
  "\<exists>w'. handleAttach ''two'' 5 resume_world = (Some (''A2'', NewResumeToken (WorldID (cfg resume_world)) 5), w')"
proof -
  have t: "trim_space ''two'' = ''two''" by (rule trim_space_plain) (auto simp: of_char_of take_bit_eq_mod)
  have f: "FindResumeAgentID [(''A2'', ''two''), (''A1'', ''one'')] ''two'' = ''A2''" by code_simp
  have c: "map (\<lambda>(k, a). (k, ResumeToken a)) (agents resume_world) = [(''A2'', ''two''), (''A1'', ''one'')]"
    and "agents resume_world \<noteq> []" "\<exists>a. map_of (agents resume_world) ''A2'' = Some a"
    by (simp_all add: resume_world_def)
  then show ?thesis by (elim exE) (simp add: handleAttach_def AttachByToken_def t Let_def c f del: upd_agent_fields)
qed

theorem reconnect_detached_witness:
  "\<forall>e. map_of (snd (Sim (fold (loop_step e NoSink) [InLeave ''A2'', InAttach ''two'' 5 True, InTick]
     \<lparr>Sim = (resume_world, [(''A2'', True)]), Pending = no_input, PendingReset = 0, Sent = []\<rparr>))) ''A2'' = None"
proof
  fix e
  let ?s = "\<lparr>Sim = (resume_world, [(''A2'', True)]), Pending = no_input, PendingReset = 0, Sent = []\<rparr>"
  obtain w' where "handleAttach ''two'' 5 (fst (Sim ?s)) = (Some (''A2'', NewResumeToken (WorldID (cfg resume_world)) 5), w')"
    using resume_world_attach by auto
  from reconnect_detached[OF _ _ this, of e NoSink True]
  show "map_of (snd (Sim (fold (loop_step e NoSink) [InLeave ''A2'', InAttach ''two'' 5 True, InTick] ?s))) ''A2'' = None"
    by (simp del: fold_simps)
qed

text \<open>
  C39.  Agent identifiers are numbered in every world by itself, and an arrival does not move the counter: when a
  traveller carries the next number, the next join is given the same identifier, and the traveller with all it
  carries is replaced by the newcomer.
\<close>

theorem join_replaces_traveller:
  assumes "handleTransferIn t w = Inr w1" "XID t = NewAgentID (nextAgentNum w + 1)"
    and "joinAgent name nano w1 = ((aid, token), w2)"
  shows "aid = XID t \<and> (\<forall>k. map_of (agents w2) k = None \<longleftrightarrow> map_of (agents w1) k = None) \<and>
    (\<exists>a b p. map_of (agents w1) aid = Some a \<and> carried t (WorldID (cfg w)) a \<and> map_of (agents w2) aid = Some b \<and>
      ResumeToken b = token \<and>
      AInventory b = AInventory (BuildJoinedAgent aid (NormalizeAgentName name) (WorldID (cfg w)) p (StarterItems (cfg w))))"
proof -
  from transfer_in_spec[OF assms(1)] obtain a where a: "agents w1 = mput (XID t) a (agents w)" "carried t (WorldID (cfg w)) a"
    and c: "cfg w1 = cfg w" by blast
  have n: "nextAgentNum w1 = nextAgentNum w"
    using assms(1) by (auto simp: handleTransferIn_def arrive_org_def Let_def split: if_splits option.splits)
  with joinAgent_spec[OF assms(3)] assms(2) have aid: "aid = XID t" by simp
  have [simp]: "AInventory (enqueueActiveEventForAgent r v b) = AInventory b" "AInventory (funOnBiome v r b) = AInventory b" for r v b
    by (auto simp: enqueueActiveEventForAgent_def funOnBiome_def MarkBiomeSeen_def addFun_def Let_def split: option.split prod.split)
  from assms(3) obtain b p where b: "agents w2 = mput aid b (agents w1)" "ResumeToken b = token"
    "AInventory b = AInventory (BuildJoinedAgent aid (NormalizeAgentName name) (WorldID (cfg w)) p (StarterItems (cfg w)))"
    by (auto simp: joinAgent_def Let_def c split: prod.splits)
  show ?thesis using a b by (auto simp: aid map_of_mput)
qed

text \<open>A world without starter items.\<close>

definition bare_world :: world where
  "bare_world = mine_world\<lparr>cfg := (cfg mine_world)\<lparr>StarterItems := None\<rparr>\<rparr>"

theorem join_replaces_traveller_witness:
  "\<exists>t w1 token w2 b. handleTransferIn t bare_world = Inr w1 \<and> cnt (XInventory t) ''COAL'' = 5 \<and>
     joinAgent ''Bob'' 7 w1 = ((''A1'', token), w2) \<and> map_of (agents w2) ''A1'' = Some b \<and> cnt (AInventory b) ''COAL'' = 0"
proof -
  let ?a = "(agent_named ''A1'' [(''COAL'', 5)])\<lparr>Hunger := 0, ResumeToken := ''tok''\<rparr>"
  let ?t = "BuildOutgoingAgent ?a ''OVERWORLD'' None"
  have t: "XID ?t = ''A1''" "cnt (XInventory ?t) ''COAL'' = 5"
    by (simp_all add: BuildOutgoingAgent_def agent_named_def CopyPositiveIntMap_def)
  have one: "dec_nat 1 = ''1''" by code_simp
  have n: "NewAgentID (nextAgentNum bare_world + 1) = ''A1''"
    using one by (simp add: bare_world_def mine_world_def empty_world_def NewAgentID_def)
  have "map_of (agents bare_world) ''A1'' = None" by (simp add: bare_world_def mine_world_def)
  then obtain w1 where w1: "handleTransferIn ?t bare_world = Inr w1" using t(1) by (simp add: handleTransferIn_def Let_def)
  obtain aid token w2 where j: "joinAgent ''Bob'' 7 w1 = ((aid, token), w2)" by (metis surj_pair)
  have "XID ?t = NewAgentID (nextAgentNum bare_world + 1)" by (simp only: t n)
  from join_replaces_traveller[OF w1 this j] obtain b p where "aid = ''A1''" "map_of (agents w2) aid = Some b"
    "AInventory b = AInventory (BuildJoinedAgent aid (NormalizeAgentName ''Bob'') (WorldID (cfg bare_world)) p (StarterItems (cfg bare_world)))"
    using t(1) by blast
  moreover from this(3) have "cnt (AInventory b) ''COAL'' = 0"
    by (simp add: BuildJoinedAgent_def InitDefaults_def Let_def bare_world_def zero_agent_def)
  ultimately show ?thesis using w1 j t(2) by blast
qed

section \<open>Admission of actions\<close>

lemma dispatch_tables_valid: "validateActionDispatchMaps = None"
  by code_simp

lemma stale_exact:
  assumes "unat nowTick + 2 < 2 ^ 64"
  shows "stale t nowTick \<longleftrightarrow> \<not> (unat t \<le> unat nowTick \<and> unat nowTick \<le> unat t + 2)"
proof (cases "t \<le> nowTick")
  case True
  then have "unat t \<le> unat nowTick" by (simp add: word_le_nat_alt)
  then have "unat (t + 2) = unat t + 2" using assms by (simp add: unat_word_ariths)
  then show ?thesis using True by (auto simp: stale_def word_less_nat_alt word_le_nat_alt)
qed (auto simp: stale_def word_le_nat_alt word_less_nat_alt)

end
