(* ===== verification/Logistics.thy ===== *)
theory Logistics
  imports Work_Blueprint Survival_Model Contract_Market
begin

text \<open>
  Moving items between agents, containers and the ground: one lemma for each elementary booking, and what
  gathering, transferring and pulling materials amount to.
\<close>

section \<open>Bookings\<close>

lemma take_agent_store:
  assumes ok: "store_ok w" and m: "map_of (inv_view w) x = Some m" and n: "0 \<le> n" "n \<le> cnt m k"
  shows "store_ok (take_agent x k n w) \<and> held (take_agent x k n w) j = held w j - unit_at k n j"
proof -
  have c: "cnt (msub m k n) j = cnt m j - unit_at k n j" for j
    by (rule sub_count[OF n]) (use held_exact(1)[OF ok m] in blast)
  have h: "held (take_agent x k n w) j = held w j - unit_at k n j" for j
    by (simp add: held_def agent_ops(2)[OF m] msum_mput_Some[OF m] c)
  have nn: "0 \<le> cnt (msub m k n) j" for j using c[of j] held_exact(1)[OF ok m, of j] n by (simp add: unit_at_def)
  have "held w j - unit_at k n j < 2 ^ 63" for j
    using ok n(1) unit_at_nonneg[OF n(1), of k j] by (auto simp: store_ok_def intro: le_less_trans[of _ "held w j"])
  moreover have "\<forall>(x, m) \<in> set (mput x (msub m k n) (inv_view w)). \<forall>j. 0 \<le> cnt m j"
    by (rule ball_mput) (use ok nn in \<open>simp_all add: store_ok_def\<close>)
  ultimately show ?thesis using ok m h by (auto simp: store_ok_def agent_ops(2)[OF m] gomap)
qed

lemma give_agent_store:
  assumes ok: "store_ok w" and m: "map_of (inv_view w) x = Some m" and n: "0 \<le> n" "held w k + n < 2 ^ 63"
  shows "store_ok (give_agent x k n w) \<and> held (give_agent x k n w) j = held w j + unit_at k n j"
proof -
  have c: "cnt (madd m k n) j = cnt m j + unit_at k n j" for j
    by (rule add_count) (use held_parts(1)[OF ok m, of k] n in linarith)+
  have h: "held (give_agent x k n w) j = held w j + unit_at k n j" for j
    by (simp add: held_def agent_ops(1)[OF m] msum_mput_Some[OF m] c)
  have nn: "0 \<le> cnt (madd m k n) j" for j using c[of j] held_exact(1)[OF ok m, of j] n by simp
  have "held w j + unit_at k n j < 2 ^ 63" for j
    using ok n(2) by (simp add: unit_at_def store_ok_def)
  moreover have "\<forall>(x, m) \<in> set (mput x (madd m k n) (inv_view w)). \<forall>j. 0 \<le> cnt m j"
    by (rule ball_mput) (use ok nn in \<open>simp_all add: store_ok_def\<close>)
  ultimately show ?thesis using ok m h by (auto simp: store_ok_def agent_ops(1)[OF m] gomap)
qed

lemma box_store:
  assumes ok: "store_ok w" and t: "map_of (containers w) p = Some t"
    and t': "box_ok (f t)" and bal: "\<And>j. box_items (f t) j = box_items t j + d j"
    and fits: "\<And>j. held w j + d j < 2 ^ 63"
  shows "store_ok (upd_container p f w) \<and> held (upd_container p f w) j = held w j + d j"
proof -
  have h: "held (upd_container p f w) j = held w j + d j" for j
    by (simp add: held_def box_op[OF t] msum_mput_Some[OF t] bal)
  have "\<forall>(p, t) \<in> set (mput p (f t) (containers w)). box_ok t"
    by (rule ball_mput) (use ok t' in \<open>simp_all add: store_ok_def\<close>)
  then show ?thesis using ok h fits by (auto simp: store_ok_def box_op[OF t])
qed

lemma put_box_store:
  assumes ok: "store_ok w" and t: "map_of (containers w) p = Some t" and n: "0 \<le> n" "held w k + n < 2 ^ 63"
  shows "store_ok (put_box p k n w) \<and> held (put_box p k n w) j = held w j + unit_at k n j"
proof -
  let ?f = "\<lambda>c. c\<lparr>Inventory := madd (Inventory c) k n\<rparr>"
  have b: "box_ok t" "box_items t k \<le> held w k" using held_parts(2)[OF ok t] by blast+
  have c: "cnt (madd (Inventory t) k n) j = cnt (Inventory t) j + unit_at k n j" for j
    by (rule add_count) (use box_okD[OF b(1), of k] b(2) n in linarith)+
  have "store_ok (upd_container p ?f w) \<and> held (upd_container p ?f w) j = held w j + unit_at k n j"
  proof (rule box_store[OF ok t])
    show "box_ok (?f t)" using b(1) n(1) by (auto simp: box_ok_def c intro: order_trans[of _ "cnt (Inventory t) _"])
    show "box_items (?f t) j = box_items t j + unit_at k n j" for j by (simp add: box_items_def c)
    show "held w j + unit_at k n j < 2 ^ 63" for j using ok n(2) by (simp add: unit_at_def store_ok_def)
  qed
  then show ?thesis by (simp add: put_box_def)
qed

lemma take_box_store:
  assumes ok: "store_ok w" and t: "map_of (containers w) p = Some t" and n: "0 \<le> n" "n \<le> AvailableCount t k"
  shows "store_ok (take_box p k n w) \<and> held (take_box p k n w) j = held w j - unit_at k n j"
proof -
  let ?f = "\<lambda>c. c\<lparr>Inventory := mprune (msub (Inventory c) k n) k\<rparr>"
  have b: "box_ok t" "box_items t k < 2 ^ 63" using held_exact(2)[OF ok t] by blast+
  have av: "AvailableCount t k = cnt (Inventory t) k - cnt (Reserved t) k"
    unfolding AvailableCount_def ReservedCount_def by (intro i64_nonneg) (use b box_okD[OF b(1), of k] in linarith)+
  have c: "cnt (mprune (msub (Inventory t) k n) k) j = cnt (Inventory t) j - unit_at k n j" for j
    by (rule take_count) (use box_okD[OF b(1), of k] b(2) n av in linarith)+
  have "store_ok (upd_container p ?f w) \<and> held (upd_container p ?f w) j = held w j + - unit_at k n j"
  proof (rule box_store[OF ok t])
    show "box_ok (?f t)" using b(1) n(2) av by (auto simp: box_ok_def c unit_at_def)
    show "box_items (?f t) j = box_items t j + - unit_at k n j" for j by (simp add: box_items_def c)
    show "held w j + - unit_at k n j < 2 ^ 63" for j
      using ok unit_at_nonneg[OF n(1), of k j] by (auto simp: store_ok_def intro: le_less_trans[of _ "held w j"])
  qed
  then show ?thesis by (simp add: take_box_def)
qed

text \<open>What bookings leave alone.\<close>

definition same_ground_items :: "world \<Rightarrow> world \<Rightarrow> bool" where
  "same_ground_items w w' \<longleftrightarrow> itemEnts w' = itemEnts w \<and> itemsAt w' = itemsAt w \<and> nextItemNum w' = nextItemNum w \<and>
     contracts w' = contracts w \<and> nextContractNum w' = nextContractNum w \<and>
     (\<forall>p. rel_option same_box (map_of (containers w) p) (map_of (containers w') p)) \<and>
     (\<forall>x. map_of (inv_view w') x = None \<longleftrightarrow> map_of (inv_view w) x = None)"

lemma same_ground_refl [simp]: "same_ground_items w w"
  by (simp add: same_ground_items_def option.rel_refl)

lemma same_ground_trans:
  assumes "same_ground_items w w1" and "same_ground_items w1 w2"
  shows "same_ground_items w w2"
proof -
  have "rel_option same_box (map_of (containers w) p) (map_of (containers w2) p)" for p
    using assms by (auto simp: same_ground_items_def same_box_def elim!: allE[of _ p] option.rel_cases)
  with assms show ?thesis by (simp add: same_ground_items_def)
qed

lemma booking_ground [simp]:
  "same_ground_items w (give_agent x k n w)" "same_ground_items w (take_agent x k n w)"
  "same_ground_items w (put_box p k n w)" "same_ground_items w (take_box p k n w)"
  by (auto simp: same_ground_items_def give_agent_def take_agent_def put_box_def take_box_def map_of_inv_view gomap
      same_box_def option.rel_refl upd_container_def split: option.split)

lemma goods_booking:
  assumes ok: "goods_ok w" and g: "same_ground_items w w'" and s: "store_ok w'" "\<And>j. held w' j = held w j"
  shows "moves_items w w'"
proof -
  have same: "itemEnts w' = itemEnts w" "itemsAt w' = itemsAt w" "nextItemNum w' = nextItemNum w"
    using g by (simp_all add: same_ground_items_def)
  have d: "drops_ok w' = drops_ok w" "lying w' = lying w" by (rule drops_same[OF same])+
  then show ?thesis using ok g s by (simp add: moves_items_def goods_ok_def all_items_def same_ground_items_def)
qed

text \<open>A quiet change touches no item, no container and no contract.\<close>

definition quiet :: "world \<Rightarrow> world \<Rightarrow> bool" where
  "quiet w w' \<longleftrightarrow> inv_view w' = inv_view w \<and> containers w' = containers w \<and> contracts w' = contracts w \<and>
     nextContractNum w' = nextContractNum w \<and> itemEnts w' = itemEnts w \<and> itemsAt w' = itemsAt w \<and>
     nextItemNum w' = nextItemNum w"

lemma quiet_refl [simp]: "quiet w w"
  by (simp add: quiet_def)

lemma quiet_trans: "quiet w w1 \<Longrightarrow> quiet w1 w2 \<Longrightarrow> quiet w w2"
  by (simp add: quiet_def)

lemma quiet_moves:
  assumes "goods_ok w" and "quiet w w'"
  shows "moves_items w w'"
proof (rule goods_booking[OF assms(1)])
  have h: "held w' = held w" using assms(2) by (simp add: held_def quiet_def fun_eq_iff)
  then show "held w' j = held w j" for j by simp
  show "store_ok w'" using assms h by (simp add: goods_ok_def store_ok_def quiet_def)
  show "same_ground_items w w'" using assms(2) by (simp add: same_ground_items_def quiet_def option.rel_refl)
qed

lemma quiet_upd_agent:
  assumes "\<And>a. AInventory (f a) = AInventory a"
  shows "quiet w (upd_agent x f w)"
  using inv_view_upd_same[of f x w] assms by (simp add: quiet_def)

lemma quiet_ops [simp]:
  "quiet w (emit x e w)" "quiet w (clear_work x w)" "quiet w (store_work x wt w)" "quiet w (bumpRepLaw x dl w)"
  "quiet w (record_denied now w)" "quiet w (auditEvent t a ac p r d w)"
  by (simp_all add: emit_def clear_work_def store_work_def bumpRepLaw_def quiet_upd_agent AddEvent_def Let_def)
     (simp_all add: quiet_def record_denied_def auditEvent_def inv_view_def)

lemma quiet_ends [simp]:
  "quiet w (task_fail x now wt c m w)" "quiet w (task_done x now wt w)" "quiet w (task_denied x now wt m w)"
proof -
  show f: "quiet w (task_fail x now wt c m w)" for c m w
    unfolding task_fail_def by (rule quiet_trans[of _ "clear_work x w"]) simp_all
  show "quiet w (task_done x now wt w)"
    unfolding task_done_def by (rule quiet_trans[of _ "clear_work x w"]) simp_all
  show "quiet w (task_denied x now wt m w)"
    unfolding task_denied_def
    by (rule quiet_trans[OF _ f], rule quiet_trans[of _ "bumpRepLaw x (- 1) w"]) simp_all
qed

lemma moves_then_quiet: "moves_items w w1 \<Longrightarrow> quiet w1 w2 \<Longrightarrow> moves_items w w2"
  by (blast intro: moves_trans quiet_moves moves_goods)

lemma moves_ends:
  assumes "moves_items w w1"
  shows "moves_items w (task_done x now wt w1)" "moves_items w (task_fail x now wt c m w1)"
    "moves_items w (task_denied x now wt m w1)" "moves_items w (auditEvent t a ac p r d w1)"
  by (rule moves_then_quiet[OF assms]; simp)+

section \<open>Gathering, transferring, pulling\<close>

lemma inv_view_Some: "map_of (agents w) x = Some a \<Longrightarrow> map_of (inv_view w) x = Some (AInventory a)"
  by (simp add: map_of_inv_view)

lemma agent_ground [simp]:
  "itemEnts (give_agent x k n w) = itemEnts w" "itemsAt (give_agent x k n w) = itemsAt w"
  "nextItemNum (give_agent x k n w) = nextItemNum w"
  by (simp_all add: give_agent_def)

lemma gather_moves:
  assumes ok: "goods_ok w" and a: "map_of (agents w) x = Some a" and e: "map_of (itemEnts w) eid = Some e"
  shows "moves_items w (removeItemEntity now x eid why (give_agent x (EItem e) (ECount e) w))"
proof -
  define w1 where "w1 = give_agent x (EItem e) (ECount e) w"
  note m = inv_view_Some[OF a]
  have D: "drops_ok w" using ok by (simp add: goods_ok_def)
  have D1: "drops_ok w1" and l1: "lying w1 = lying w" using drops_same[of w1 w] D by (simp_all add: w1_def)
  have e1: "map_of (itemEnts w1) eid = Some e" using e by (simp add: w1_def)
  note rem = item_removed[OF D1 e1, of now x why]
  have pos: "0 < ECount e" "ECount e \<le> lying w (EItem e)" by (rule entity_okD(3)[OF D e], rule lying_ge[OF D e])
  have b: "0 \<le> cnt (AInventory a) j \<and> cnt (AInventory a) j + lying w j < 2 ^ 63" for j by (rule goods_room(1)[OF ok m])
  have c: "cnt (madd (AInventory a) (EItem e) (ECount e)) j = cnt (AInventory a) j + unit_at (EItem e) (ECount e) j" for j
    by (rule add_count) (use b[of "EItem e"] pos in linarith)+
  have "moves_items w (removeItemEntity now x eid why w1)"
  proof (rule goods_agent[OF ok m _ _ rem(1)])
    show "inv_view (removeItemEntity now x eid why w1) = mput x (madd (AInventory a) (EItem e) (ECount e)) (inv_view w)"
      using rem(3) agent_ops(1)[OF m] by (simp add: same_rest_def inv_view_def w1_def)
    show "0 \<le> cnt (madd (AInventory a) (EItem e) (ECount e)) j" for j using b[of j] pos c[of j] by (simp add: unit_at_def)
    show "cnt (madd (AInventory a) (EItem e) (ECount e)) j + lying (removeItemEntity now x eid why w1) j =
        cnt (AInventory a) j + lying w j" for j by (simp add: c rem(2) l1)
  qed (use rem(3) in \<open>simp_all add: same_rest_def w1_def\<close>)
  then show ?thesis by (simp add: w1_def)
qed

text \<open>Taking from one end and putting into the other moves items, also when both ends are the same container.\<close>

definition can_give :: "string \<Rightarrow> (vec3 \<times> container) option \<Rightarrow> string \<Rightarrow> int \<Rightarrow> world \<Rightarrow> bool" where
  "can_give x src k n w \<longleftrightarrow>
     (case src of Some (p, c) \<Rightarrow> map_of (containers w) p = Some c \<and> n \<le> AvailableCount c k
      | None \<Rightarrow> \<exists>m. map_of (inv_view w) x = Some m \<and> n \<le> cnt m k)"

definition can_take :: "string \<Rightarrow> (vec3 \<times> container) option \<Rightarrow> world \<Rightarrow> bool" where
  "can_take x dst w \<longleftrightarrow>
     (case dst of Some (p, c) \<Rightarrow> map_of (containers w) p \<noteq> None | None \<Rightarrow> map_of (inv_view w) x \<noteq> None)"

lemma rel_same_Some: "rel_option R x y \<Longrightarrow> x \<noteq> None \<longleftrightarrow> y \<noteq> None"
  by (cases x; cases y) simp_all

lemma move_stack_moves:
  assumes ok: "goods_ok w" and n: "0 \<le> n" and src: "can_give x src k n w" and dst: "can_take x dst w"
  shows "moves_items w (move_stack x src dst k n w)"
proof -
  have S: "store_ok w" using ok by (simp add: goods_ok_def)
  define w1 where "w1 = (case src of Some (p, c) \<Rightarrow> take_box p k n w | None \<Rightarrow> take_agent x k n w)"
  define w2 where "w2 = (case dst of Some (p, c) \<Rightarrow> put_box p k n w1 | None \<Rightarrow> give_agent x k n w1)"
  have g1: "same_ground_items w w1" and g2: "same_ground_items w1 w2"
    by (simp_all add: w1_def w2_def split: option.split prod.split)
  have 1: "store_ok w1 \<and> held w1 j = held w j - unit_at k n j" for j
    using src take_agent_store[OF S _ n] take_box_store[OF S _ n]
    by (auto simp: w1_def can_give_def split: option.splits)
  have room: "held w1 k + n < 2 ^ 63" using 1[of k] S by (simp add: unit_at_def store_ok_def)
  have d1: "can_take x dst w1"
    using dst g1 by (auto simp: can_take_def same_ground_items_def split: option.splits dest!: spec rel_same_Some)
  have 2: "store_ok w2 \<and> held w2 j = held w1 j + unit_at k n j" for j
    using d1 1 give_agent_store[OF _ _ n room] put_box_store[OF _ _ n room]
    by (auto simp: w2_def can_take_def split: option.splits)
  have "moves_items w w2"
    by (rule goods_booking[OF ok same_ground_trans[OF g1 g2]]) (use 1 2 in auto)
  then show ?thesis unfolding move_stack_def Let_def w2_def w1_def .
qed

lemma TickGather_moves: "goods_ok w \<Longrightarrow> moves_items w (TickGather x wt now w)"
  unfolding TickGather_def
  by (auto intro!: moves_ends gather_moves intro: moves_refl split: option.split)

lemma transfer_end_box:
  "transfer_end w apos cid side = (v, Some (p, c)) \<Longrightarrow> map_of (containers w) p = Some c"
  "transfer_end w apos cid side = (v, None) \<Longrightarrow> fst v \<Longrightarrow> cid = ''SELF''"
  by (auto simp: transfer_end_def ValidateContainerDistance_def refuse_def Let_def
      split: if_splits option.splits dest!: GetContainerByID_at)

lemma TickTransfer_moves:
  assumes ok: "goods_ok w" and n: "0 < Count wt"
  shows "moves_items w (TickTransfer x wt now w)"
proof (cases "map_of (agents w) x")
  case None then show ?thesis by (simp add: TickTransfer_def moves_refl[OF ok])
next
  case (Some a)
  obtain v1 src where 1: "transfer_end w (APos a) (SrcContainer wt) ''src'' = (v1, src)" by fastforce
  obtain v2 dst where 2: "transfer_end w (APos a) (DstContainer wt) ''dst'' = (v2, dst)" by fastforce
  have "moves_items w (move_stack x src dst (ItemID wt) (Count wt) w)"
    if "\<not> (case src of Some (p, c) \<Rightarrow> AvailableCount c (ItemID wt) < Count wt | None \<Rightarrow> False)"
      and "\<not> (src = None \<and> cnt (AInventory a) (ItemID wt) < Count wt)"
  proof (rule move_stack_moves[OF ok])
    show "can_give x src (ItemID wt) (Count wt) w"
      using that transfer_end_box(1)[of w "APos a" "SrcContainer wt" "''src''"] 1 inv_view_Some[OF Some]
      by (auto simp: can_give_def split: option.splits)
    show "can_take x dst w"
      using transfer_end_box(1)[of w "APos a" "DstContainer wt" "''dst''"] 2 inv_view_Some[OF Some]
      by (auto simp: can_take_def split: option.splits)
  qed (use n in simp)
  then show ?thesis
    using Some 1 2 ok
    by (auto simp: TickTransfer_def Let_def intro!: moves_ends intro: moves_refl)
qed

subsection \<open>Pulling materials\<close>

definition storage :: "world \<Rightarrow> vec3 list \<Rightarrow> string \<Rightarrow> int" where
  "storage w ps j = sum_list (map (\<lambda>p. box_available w p j) ps)"

lemma storage_simps [simp]:
  "storage w [] j = 0" "storage w (p # ps) j = box_available w p j + storage w ps j"
  by (simp_all add: storage_def)

lemma sum_list_le_msum:
  assumes "wf_map m" and "distinct ps" and "\<And>p t. map_of m p = Some t \<Longrightarrow> g p \<le> f t \<and> 0 \<le> f t"
    and "\<And>p. map_of m p = None \<Longrightarrow> g p \<le> 0"
  shows "sum_list (map g ps) \<le> msum f m"
  using assms
proof (induction m arbitrary: g)
  case Nil
  have "sum_list (map g qs) \<le> 0" for qs using Nil(4) by (induction qs) (auto intro: add_nonpos_nonpos)
  then show ?case by simp
next
  case (Cons pt m)
  obtain p t where pt: "pt = (p, t)" by fastforce
  define g' where "g' q = (if q = p then 0 else g q)" for q
  have np: "map_of m p = None" and wf: "wf_map m"
    using Cons.prems(1) by (auto simp: pt wf_map_def map_of_eq_None_iff)
  have "sum_list (map g' ps) \<le> msum f m"
  proof (rule Cons.IH[OF wf Cons.prems(2)])
    show "g' q \<le> f u \<and> 0 \<le> f u" if "map_of m q = Some u" for q u
      using Cons.prems(3)[of q u] that np by (auto simp: g'_def pt)
    show "g' q \<le> 0" if "map_of m q = None" for q
      using Cons.prems(4)[of q] that by (simp add: g'_def pt)
  qed
  moreover have "sum_list (map g ps) \<le> sum_list (map g' ps) + f t"
  proof (cases "p \<in> set ps")
    case True
    then have "sum_list (map g ps) = g p + sum_list (map g (remove1 p ps))" by (rule sum_list_map_remove1)
    moreover have "sum_list (map g' ps) = g' p + sum_list (map g' (remove1 p ps))"
      using True by (rule sum_list_map_remove1)
    moreover have "map g (remove1 p ps) = map g' (remove1 p ps)"
      using Cons.prems(2) by (auto simp: g'_def)
    ultimately show ?thesis using Cons.prems(3)[of p t] by (simp add: g'_def pt)
  next
    case False
    then have same: "map g ps = map g' ps" by (auto simp: g'_def)
    show ?thesis unfolding same using Cons.prems(3)[of p t] by (simp add: pt)
  qed
  ultimately show ?case by (simp add: pt)
qed

lemma agent_has_inv: "map_of (inv_view w) x = Some m \<Longrightarrow> agent_has w x j = cnt m j"
  by (auto simp: agent_has_def map_of_inv_view)

lemma available_bounds:
  assumes "goods_ok w"
  shows "0 \<le> box_available w p j"
    and "map_of (containers w) p = Some c \<Longrightarrow> box_available w p j \<le> box_items c j \<and> 0 \<le> box_items c j"
proof -
  have *: "0 \<le> box_available w p j \<and> box_available w p j \<le> box_items c j \<and> 0 \<le> box_items c j"
    if "map_of (containers w) p = Some c" for c
    using available_exact[OF assms that, of j] held_parts(2)[of w p c j] that assms box_okD[of c j]
    by (auto simp: box_available_def goods_ok_def box_items_def)
  then show "0 \<le> box_available w p j" by (cases "map_of (containers w) p") (auto simp: box_available_def)
  show "map_of (containers w) p = Some c \<Longrightarrow> box_available w p j \<le> box_items c j \<and> 0 \<le> box_items c j"
    using * by blast
qed

lemma storage_nonneg: "goods_ok w \<Longrightarrow> 0 \<le> storage w ps j"
  by (auto simp: storage_def intro!: sum_list_nonneg available_bounds)

lemma supply_bound:
  assumes ok: "goods_ok w" and m: "map_of (agents w) x \<noteq> None" and d: "distinct ps"
  shows "agent_has w x j + storage w ps j < 2 ^ 63" "0 \<le> agent_has w x j"
proof -
  have S: "store_ok w" using ok by (simp add: goods_ok_def)
  from m obtain a where a: "map_of (agents w) x = Some a" by blast
  note i = inv_view_Some[OF a]
  have "storage w ps j \<le> msum (\<lambda>t. box_items t j) (containers w)"
    unfolding storage_def using S available_bounds(2)[OF ok]
    by (intro sum_list_le_msum[OF _ d]) (auto simp: store_ok_def box_available_def)
  moreover have "cnt (AInventory a) j \<le> msum (\<lambda>m. cnt m j) (inv_view w)"
    using S i by (intro msum_ge_member[of x]) (auto simp: store_ok_def dest: map_of_SomeD)
  moreover have "held w j < 2 ^ 63" using S by (simp add: store_ok_def)
  ultimately show "agent_has w x j + storage w ps j < 2 ^ 63" by (simp add: agent_has_inv[OF i] held_def)
  show "0 \<le> agent_has w x j" using goods_room(1)[OF ok i] by (simp add: agent_has_inv[OF i])
qed

lemma pull_step:
  assumes ok: "goods_ok w" and a: "map_of (agents w) x \<noteq> None" and n: "0 < n" "n \<le> box_available w p k"
  defines "w' \<equiv> give_agent x k n (take_box p k n w)"
  shows "moves_items w w'" and "map_of (agents w') x \<noteq> None"
    and "agent_has w' x j = agent_has w x j + unit_at k n j"
    and "box_available w' q j = box_available w q j - (if q = p then unit_at k n j else 0)"
proof -
  obtain c where c: "map_of (containers w) p = Some c"
    using n by (cases "map_of (containers w) p") (simp_all add: box_available_def)
  obtain b where b: "map_of (agents w) x = Some b" using a by blast
  have av: "n \<le> AvailableCount c k" using n c by (simp add: box_available_def)
  have "moves_items w (move_stack x (Some (p, c)) None k n w)"
    by (rule move_stack_moves[OF ok]) (use n av c inv_view_Some[OF b] in \<open>simp_all add: can_give_def can_take_def\<close>)
  then show mv: "moves_items w w'" by (simp add: move_stack_def w'_def)
  have i: "map_of (inv_view (take_box p k n w)) x = Some (AInventory b)" using inv_view_Some[OF b] by simp
  have i': "map_of (inv_view w') x = Some (madd (AInventory b) k n)"
    by (simp add: w'_def agent_ops(1)[OF i] gomap)
  then show "map_of (agents w') x \<noteq> None" by (auto simp: map_of_inv_view)
  have "cnt (madd (AInventory b) k n) j = cnt (AInventory b) j + unit_at k n j" for j
  proof (rule add_count)
    show "0 \<le> cnt (AInventory b) k" using goods_room(1)[OF ok inv_view_Some[OF b]] by blast
    show "0 \<le> n" using n by simp
    have "distinct [p]" by simp
    from supply_bound(1)[OF ok a this, of k] show "cnt (AInventory b) k + n < 2 ^ 63"
      using n by (simp add: agent_has_inv[OF inv_view_Some[OF b]])
  qed
  then show "agent_has w' x j = agent_has w x j + unit_at k n j"
    by (simp add: agent_has_inv[OF i'] agent_has_inv[OF inv_view_Some[OF b]])
  let ?c' = "c\<lparr>Inventory := mprune (msub (Inventory c) k n) k\<rparr>"
  have c': "containers w' = mput p ?c' (containers w)" using c by (simp add: w'_def take_box_def box_op)
  have "map_of (containers w') p = Some ?c'" by (simp add: c' gomap)
  from available_exact[OF moves_goods[OF mv] this, of j]
  have "AvailableCount ?c' j = AvailableCount c j - unit_at k n j"
    using available_exact[OF ok c, of j] box_take(4)[OF ok c _ av, of j] n by simp
  then show "box_available w' q j = box_available w q j - (if q = p then unit_at k n j else 0)"
    by (simp add: box_available_def c' c gomap)
qed

text \<open>One pass over the candidates: everything they have, up to the deficit.\<close>

definition pulled :: "string \<Rightarrow> string \<Rightarrow> int \<Rightarrow> world \<Rightarrow> world \<Rightarrow> bool" where
  "pulled x k n w w' \<longleftrightarrow> moves_items w w' \<and> map_of (agents w') x \<noteq> None \<and>
     (\<forall>j. agent_has w' x j = agent_has w x j + unit_at k n j) \<and>
     (\<forall>p j. j \<noteq> k \<longrightarrow> box_available w' p j = box_available w p j)"

lemma pulled_trans: "pulled x k n w w1 \<Longrightarrow> pulled x k n1 w1 w2 \<Longrightarrow> pulled x k (n + n1) w w2"
  by (auto simp: pulled_def unit_at_def intro: moves_trans)

lemma storage_cong: "(\<And>p. p \<in> set ps \<Longrightarrow> box_available w' p j = box_available w p j) \<Longrightarrow> storage w' ps j = storage w ps j"
  by (simp add: storage_def cong: map_cong)

lemma pull_pass_exact:
  assumes "goods_ok w" and "map_of (agents w) x \<noteq> None" and "distinct ps" and "0 < d" "d < 2 ^ 63"
  shows "\<exists>w'. pull_pass x k ps d took w = (took \<or> 0 < storage w ps k, w') \<and> pulled x k (min d (storage w ps k)) w w' \<and>
    storage w' ps k = storage w ps k - min d (storage w ps k) \<and>
    (\<forall>q. q \<notin> set ps \<longrightarrow> box_available w' q k = box_available w q k)"
  using assms
proof (induction ps arbitrary: d took w)
  case Nil
  then show ?case by (simp add: pulled_def moves_refl unit_at_def)
next
  case (Cons p ps)
  have nn: "0 \<le> storage w ps k" "0 \<le> box_available w p k"
    by (rule storage_nonneg[OF Cons.prems(1)], rule available_bounds(1)[OF Cons.prems(1)])
  show ?case
  proof (cases "box_available w p k \<le> 0")
    case True
    with nn have z: "box_available w p k = 0" by simp
    from Cons.IH[of w d took] Cons.prems obtain w' where
      w': "pull_pass x k ps d took w = (took \<or> 0 < storage w ps k, w')" "pulled x k (min d (storage w ps k)) w w'"
        "storage w' ps k = storage w ps k - min d (storage w ps k)"
        "\<forall>q. q \<notin> set ps \<longrightarrow> box_available w' q k = box_available w q k" by auto
    then show ?thesis using z Cons.prems(3) by simp
  next
    case False
    define n where "n = min d (box_available w p k)"
    define w1 where "w1 = give_agent x k n (take_box p k n w)"
    have n: "0 < n" "n \<le> box_available w p k" "n \<le> d" using False Cons.prems(4) by (simp_all add: n_def)
    note st = pull_step[OF Cons.prems(1,2) n(1,2), folded w1_def]
    have pl: "pulled x k n w w1" using st by (simp add: pulled_def unit_at_def)
    have s1: "storage w1 ps k = storage w ps k"
      by (rule storage_cong) (use st(4) Cons.prems(3) in auto)
    have d: "i64 (d - n) = d - n" by (rule i64_nonneg) (use n Cons.prems(5) in simp_all)
    have run: "pull_pass x k (p # ps) d took w = (if d - n \<le> 0 then (True, w1) else pull_pass x k ps (d - n) True w1)"
    proof -
      have m: "(if box_available w p k > d then d else box_available w p k) = n" by (simp add: n_def min_def)
      show ?thesis using False by (simp only: pull_pass.simps Let_def m d if_False flip: w1_def)
    qed
    have b1: "box_available w1 p k = box_available w p k - n" using st(4)[of p k] by (simp add: unit_at_def)
    have o1: "box_available w1 q k = box_available w q k" if "q \<noteq> p" for q using st(4)[of q k] that by simp
    show ?thesis
    proof (cases "d - n \<le> 0")
      case True
      then have "min d (storage w (p # ps) k) = n" using n nn by simp
      then show ?thesis using True run pl s1 b1 o1 False nn by simp
    next
      case more: False
      then have all: "n = box_available w p k" by (simp add: n_def)
      have "goods_ok w1" by (rule moves_goods[OF st(1)])
      from Cons.IH[OF this st(2), of "d - n" True] Cons.prems more n obtain w' where
        w': "pull_pass x k ps (d - n) True w1 = (True, w')" "pulled x k (min (d - n) (storage w1 ps k)) w1 w'"
          "storage w' ps k = storage w1 ps k - min (d - n) (storage w1 ps k)"
          "\<forall>q. q \<notin> set ps \<longrightarrow> box_available w' q k = box_available w1 q k" by auto
      have m: "n + min (d - n) (storage w ps k) = min d (storage w (p # ps) k)" using all by simp
      have "pulled x k (min d (storage w (p # ps) k)) w w'"
        using pulled_trans[OF pl w'(2)] by (simp only: s1 m)
      moreover have "pull_pass x k (p # ps) d took w = (True, w')" using run more w'(1) by simp
      moreover have "0 < storage w (p # ps) k" using False nn by simp
      moreover have "storage w' (p # ps) k = storage w (p # ps) k - min d (storage w (p # ps) k)"
        using w'(3,4) s1 m b1 all Cons.prems(3) by simp
      moreover have "\<forall>q. q \<notin> set (p # ps) \<longrightarrow> box_available w' q k = box_available w q k"
        using w'(4) o1 by simp
      ultimately show ?thesis by simp
    qed
  qed
qed

text \<open>
  The loop of one item ends: after one pass the agent has what is required, or after a second one nothing is
  left to take.
\<close>

lemma deficit_exact: "0 \<le> h \<Longrightarrow> h < r \<Longrightarrow> r < 2 ^ 63 \<Longrightarrow> i64 (r - h) = r - h"
  by (rule i64_nonneg) simp_all

lemma pull_item_run:
  assumes ok: "goods_ok w" and a: "map_of (agents w) x \<noteq> None" and d: "distinct ps" and r: "r < 2 ^ 63"
  shows "\<exists>w'. pull_item x k ps r w = Some (r \<le> agent_has w x k + storage w ps k, w') \<and>
    pulled x k (min (max 0 (r - agent_has w x k)) (storage w ps k)) w w'"
proof -
  let ?h = "agent_has w x k" and ?s = "storage w ps k"
  have nn: "0 \<le> ?s" "0 \<le> ?h" by (rule storage_nonneg[OF ok], rule supply_bound(2)[OF ok a d])
  show ?thesis
  proof (cases "?h < r")
    case False
    then have "pull_item x k ps r w = Some (True, w)" by (subst pull_item.simps) simp
    then show ?thesis using False nn a by (simp add: pulled_def moves_refl[OF ok] unit_at_def)
  next
    case True
    note de = deficit_exact[OF nn(2) True r]
    obtain w1 where w1: "pull_pass x k ps (r - ?h) False w = (0 < ?s, w1)" "pulled x k (min (r - ?h) ?s) w w1"
        "storage w1 ps k = ?s - min (r - ?h) ?s"
      using pull_pass_exact[OF ok a d, of "r - ?h" k False] True r nn by auto
    have h1: "agent_has w1 x k = ?h + min (r - ?h) ?s" using w1(2) by (simp add: pulled_def unit_at_def)
    have ok1: "goods_ok w1" "map_of (agents w1) x \<noteq> None" using w1(2) by (auto simp: pulled_def moves_goods)
    have first: "pull_item x k ps r w = (if 0 < ?s then pull_item x k ps r w1 else Some (False, w1))"
      using True by (subst pull_item.simps) (simp add: de w1(1))
    consider "?s = 0" | "0 < ?s" "r \<le> ?h + ?s" | "0 < ?s" "?h + ?s < r" using nn by linarith
    then show ?thesis
    proof cases
      case 1 then show ?thesis using w1(2) True by (simp add: first pulled_def)
    next
      case 2
      then have "pull_item x k ps r w1 = Some (True, w1)" by (subst pull_item.simps) (simp add: h1)
      then show ?thesis using w1(2) 2 True first by (simp add: min_def)
    next
      case 3
      then have h1': "agent_has w1 x k = ?h + ?s" "storage w1 ps k = 0" using h1 w1(3) by simp_all
      have lt: "agent_has w1 x k < r" "0 \<le> agent_has w1 x k" using 3 h1' nn by simp_all
      obtain w2 where w2: "pull_pass x k ps (r - agent_has w1 x k) False w1 = (False, w2)" "pulled x k 0 w1 w2"
        using pull_pass_exact[OF ok1 d, of "r - agent_has w1 x k" k False] lt r h1' by auto
      have "pull_item x k ps r w1 = Some (False, w2)"
        using lt by (subst pull_item.simps) (simp add: deficit_exact[OF lt(2,1) r] w2(1))
      moreover have "pulled x k (?s + 0) w w2" using pulled_trans[OF w1(2) w2(2)] 3 by (simp add: min_def)
      ultimately show ?thesis using 3 first True by (simp add: min_def)
    qed
  qed
qed

text \<open>All items of the cost, one after the other.\<close>

definition enough :: "world \<Rightarrow> string \<Rightarrow> vec3 list \<Rightarrow> items \<Rightarrow> string \<Rightarrow> bool" where
  "enough w x ps need j \<longleftrightarrow> cnt need j \<le> agent_has w x j + storage w ps j"

lemma pull_items_run:
  assumes "goods_ok w" and "map_of (agents w) x \<noteq> None" and "distinct ps" and "distinct ks"
    and "\<And>j. cnt need j < 2 ^ 63" and "\<forall>j \<in> set ks. enough w x ps need j"
  shows "\<exists>w'. pull_items x ps need ks w = Some (True, w') \<and> moves_items w w' \<and>
    (\<forall>j. agent_has w' x j = (if j \<in> set ks then max (agent_has w x j) (cnt need j) else agent_has w x j))"
  using assms
proof (induction ks arbitrary: w)
  case (Cons k ks)
  have en: "cnt need k \<le> agent_has w x k + storage w ps k" using Cons.prems(6) by (simp add: enough_def)
  obtain w1 where w1: "pull_item x k ps (cnt need k) w = Some (True, w1)"
      "pulled x k (min (max 0 (cnt need k - agent_has w x k)) (storage w ps k)) w w1"
    using pull_item_run[OF Cons.prems(1-3,5), of k k] en by auto
  have min: "min (max 0 (cnt need k - agent_has w x k)) (storage w ps k) = max 0 (cnt need k - agent_has w x k)"
    using en storage_nonneg[OF Cons.prems(1), of ps k] by auto
  note pl = w1(2)[unfolded min pulled_def]
  have rest: "\<forall>j \<in> set ks. enough w1 x ps need j"
  proof
    fix j assume j: "j \<in> set ks"
    then have "j \<noteq> k" using Cons.prems(4) by auto
    then have "agent_has w1 x j = agent_has w x j" "storage w1 ps j = storage w ps j"
      using pl by (auto simp: unit_at_def intro: storage_cong)
    then show "enough w1 x ps need j" using Cons.prems(6) j by (simp add: enough_def)
  qed
  obtain w2 where w2: "pull_items x ps need ks w1 = Some (True, w2)" "moves_items w1 w2"
      "\<forall>j. agent_has w2 x j = (if j \<in> set ks then max (agent_has w1 x j) (cnt need j) else agent_has w1 x j)"
    using Cons.IH[of w1] pl Cons.prems rest moves_goods by fastforce
  have "agent_has w2 x j = (if j \<in> set (k # ks) then max (agent_has w x j) (cnt need j) else agent_has w x j)" for j
    using w2(3) pl Cons.prems(4) by (auto simp: unit_at_def)
  moreover have "moves_items w w2" using pl w2(2) by (blast intro: moves_trans)
  ultimately show ?case using w1(1) w2(1) by simp
qed (simp add: moves_refl)

lemma available_upto_exact:
  assumes "\<And>p. 0 \<le> box_available w p k" and "0 \<le> v" and "v + storage w ps k < 2 ^ 63" and "0 < d"
  shows "d \<le> available_upto w k d ps v \<longleftrightarrow> d \<le> v + storage w ps k \<or> d \<le> v"
  using assms(2,3)
proof (induction ps arbitrary: v)
  case (Cons p ps)
  have s: "0 \<le> storage w ps k" unfolding storage_def by (rule sum_list_nonneg) (use assms(1) in auto)
  have i: "i64 (v + box_available w p k) = v + box_available w p k"
    by (rule i64_nonneg) (use Cons.prems assms(1)[of p] s in simp_all)
  show ?case using Cons.IH[of "v + box_available w p k"] Cons.prems assms(1)[of p] s by (auto simp: Let_def i)
qed simp

lemma first_missing_None:
  assumes ok: "goods_ok w" and a: "map_of (agents w) x \<noteq> None" and d: "distinct ps" and need: "\<And>j. cnt need j < 2 ^ 63"
  shows "first_missing w x ps need ks = None \<longleftrightarrow> (\<forall>j \<in> set ks. enough w x ps need j)"
proof (induction ks)
  case (Cons k ks)
  have nn: "0 \<le> storage w ps k" "0 \<le> agent_has w x k" "agent_has w x k + storage w ps k < 2 ^ 63"
    by (rule storage_nonneg[OF ok], rule supply_bound(2)[OF ok a d], rule supply_bound(1)[OF ok a d])
  show ?case
  proof (cases "agent_has w x k < cnt need k")
    case False then show ?thesis using Cons nn by (auto simp: enough_def Let_def)
  next
    case True
    note de = deficit_exact[OF nn(2) True need]
    have "cnt need k - agent_has w x k \<le> available_upto w k (cnt need k - agent_has w x k) ps 0 \<longleftrightarrow> enough w x ps need k"
      using available_upto_exact[OF available_bounds(1)[OF ok], of 0 ps k "cnt need k - agent_has w x k"] nn True
      by (auto simp: enough_def)
    then show ?thesis using Cons True by (auto simp: Let_def de)
  qed
qed simp

lemma needed_items_range:
  "wf_map need \<Longrightarrow> (\<And>j. cnt need j < 2 ^ 63) \<Longrightarrow>
    wf_map (fold (\<lambda>(item, n) need. if item = [] \<or> n \<le> 0 then need else madd need item n) cost need) \<and>
    (\<forall>j. cnt (fold (\<lambda>(item, n) need. if item = [] \<or> n \<le> 0 then need else madd need item n) cost need) j < 2 ^ 63)"
proof (induction cost arbitrary: need)
  case (Cons c cost)
  obtain item n where c: "c = (item, n)" by fastforce
  have "i64 y < 2 ^ 63" for y using in_i64_i64[of y] by (simp only: in_i64_def)
  then have "cnt (madd need item n) j < 2 ^ 63" for j using Cons.prems(2)[of j] by (simp add: gomap)
  moreover have "wf_map (madd need item n)" using Cons.prems(1) by (simp add: madd_def)
  ultimately show ?case using Cons by (simp add: c)
qed simp

lemma needed_items_ok: "wf_map (needed_items cost)" "cnt (needed_items cost) j < 2 ^ 63"
  using needed_items_range[of "[]" cost] by (simp_all add: needed_items_def)

lemma candidates_distinct: "wf_map (containers w) \<Longrightarrow> distinct (BuildStorageCandidates w x anchor)"
  by (simp add: BuildStorageCandidates_def Let_def wf_map_def distinct_map_filter)

lemma enough_absent:
  assumes ok: "goods_ok w" and a: "map_of (agents w) x \<noteq> None" and j: "j \<notin> fst ` set need"
  shows "enough w x ps need j"
proof -
  have "0 \<le> storage w ps j" "0 \<le> agent_has w x j"
    by (rule storage_nonneg[OF ok], rule supply_bound(2)[OF ok a, of "[]"]) simp
  then show ?thesis by (simp add: enough_def cnt_absent[OF j])
qed

text \<open>
  Pulling is all or nothing: it succeeds exactly when the agent and the candidates together have what the
  cost asks for, then the agent has it all, and otherwise the world is as it was.
\<close>

lemma EnsureBlueprintMaterials_all_or_nothing:
  assumes ok: "goods_ok w" and a: "map_of (agents w) x \<noteq> None" and ps: "ps = BuildStorageCandidates w x anchor"
    and r: "EnsureBlueprintMaterials x ps cost w = (r, w')"
  shows "(fst r \<longleftrightarrow> (\<forall>j. enough w x ps (needed_items cost) j)) \<and> moves_items w w' \<and>
    (if fst r then \<forall>j. agent_has w' x j = max (agent_has w x j) (cnt (needed_items cost) j) else w' = w)"
proof -
  have d: "distinct ps" unfolding ps by (rule candidates_distinct) (use ok in \<open>simp add: goods_ok_def store_ok_def\<close>)
  let ?need = "needed_items cost"
  note need = needed_items_ok[of cost]
  have nn: "0 \<le> agent_has w x j" for j by (rule supply_bound(2)[OF ok a d])
  have all: "(\<forall>j. enough w x ps ?need j) \<longleftrightarrow> (\<forall>j \<in> set (sorted_keys ?need). enough w x ps ?need j)"
    by (metis enough_absent[OF ok a] set_sorted_keys)
  note fm = first_missing_None[OF ok a d need(2), of "sorted_keys ?need", folded all]
  have absent: "max (agent_has w x j) (cnt ?need j) = agent_has w x j" if "j \<notin> fst ` set ?need" for j
    using cnt_absent[OF that] nn[of j] by simp
  show ?thesis
  proof (cases "cost = []")
    case True
    then have "needed_items cost = []" by (simp add: needed_items_def)
    then show ?thesis using r True nn enough_absent[OF ok a, of _ "[]"] ok
      by (auto simp: EnsureBlueprintMaterials_def cnt_def intro: moves_refl)
  next
    case ne: False
    show ?thesis
    proof (cases "\<forall>j. enough w x ps ?need j")
      case False
      then show ?thesis using r ne fm ok by (auto simp: EnsureBlueprintMaterials_def intro: moves_refl)
    next
      case True
      then have "\<forall>j \<in> set (sorted_keys ?need). enough w x ps ?need j" by blast
      from pull_items_run[OF ok a d _ need(2) this] need(1) obtain v where
        v: "pull_items x ps ?need (sorted_keys ?need) w = Some (True, v)" "moves_items w v"
          "\<forall>j. agent_has v x j = (if j \<in> fst ` set ?need then max (agent_has w x j) (cnt ?need j) else agent_has w x j)"
        by auto
      have "first_missing w x ps ?need (sorted_keys ?need) = None" using fm True by blast
      then have "EnsureBlueprintMaterials x ps cost w = ((True, []), v)"
        using ne v(1) by (simp add: EnsureBlueprintMaterials_def Let_def)
      then show ?thesis using r True v absent by auto
    qed
  qed
qed

section \<open>Goods in motion\<close>

text \<open>
  One step of logistics: a tick of the belts (with item identifiers left for what they may spawn), of a gather
  or transfer task, pulling materials for a blueprint, or an agent going down and dropping a part of its items.
\<close>

inductive haul :: "world \<Rightarrow> world \<Rightarrow> bool" where
  belts: "item_room w (length (conveyors w)) \<Longrightarrow> haul w (systemConveyors now w)"
| gather: "haul w (TickGather x wt now w)"
| transfer: "0 < Count wt \<Longrightarrow> haul w (TickTransfer x wt now w)"
| pull: "map_of (agents w) x \<noteq> None \<Longrightarrow>
    haul w (snd (EnsureBlueprintMaterials x (BuildStorageCandidates w x anchor) cost w))"
| down: "map_of (agents w) x = Some a \<Longrightarrow> item_room w (length (losable (AInventory a))) \<Longrightarrow>
    haul w (respawnAgent now x why w)"

inductive_simps haul_iff: "haul w w'"

lemma haul_moves: "haul w w' \<Longrightarrow> goods_ok w \<Longrightarrow> moves_items w w'"
proof (induction rule: haul.induct)
  case (pull w x anchor cost)
  obtain r w' where "EnsureBlueprintMaterials x (BuildStorageCandidates w x anchor) cost w = (r, w')" by fastforce
  with EnsureBlueprintMaterials_all_or_nothing[OF pull(2,1) refl this] show ?case by simp
qed (simp_all add: systemConveyors_moves TickGather_moves TickTransfer_moves respawn_moves)

lemma hauls_move: "haul\<^sup>*\<^sup>* w w' \<Longrightarrow> goods_ok w \<Longrightarrow> moves_items w w'"
  by (induction rule: rtranclp_induct) (auto intro: moves_refl moves_trans haul_moves moves_goods)

lemma moves_escrow:
  assumes "escrow_inv w" and m: "moves_items w w'"
  shows "escrow_inv w'"
proof -
  have "cnt (Reserved t') j = demand p j (contracts w)" if t': "map_of (containers w') p = Some t'" for p t' j
  proof -
    have "rel_option same_box (map_of (containers w) p) (Some t')" using m t' by (simp add: moves_items_def flip: t')
    then obtain t where "map_of (containers w) p = Some t" "Reserved t' = Reserved t"
      by (auto simp: same_box_def elim: option.rel_cases)
    then show ?thesis using assms(1) by (simp add: escrow_inv_def)
  qed
  then show ?thesis using assms by (simp add: escrow_inv_def moves_items_def goods_ok_def)
qed

text \<open>
  C2. However belts, gathering, transfers, pulling and respawns interleave, the items of the world, in inventories,
  containers, debts and on the ground, are conserved kind by kind, and the escrow of the contracts stays
  exactly reserved.
\<close>

theorem logistics_conserve:
  assumes "haul\<^sup>*\<^sup>* w w'" and "goods_ok w" and "escrow_inv w"
  shows "goods_ok w' \<and> escrow_inv w' \<and> all_items w' j = all_items w j"
  using hauls_move[OF assms(1,2)] moves_escrow[OF assms(3)] by (simp add: moves_items_def)

lemma keeps_conveyors [simp]:
  "conveyors (emit x e w) = conveyors w" "conveyors (clear_work x w) = conveyors w"
  "conveyors (auditEvent t a ac p r d w) = conveyors w" "conveyors (move_stack x src dst k n w) = conveyors w"
  by (simp_all add: emit_def clear_work_def auditEvent_def move_stack_def take_box_def take_agent_def give_agent_def
      put_box_def upd_container_def Let_def split: option.split prod.split)

lemma TickTransfer_conveyors: "conveyors (TickTransfer x wt now w) = conveyors w"
  by (simp add: TickTransfer_def Let_def task_fail_def task_done_def split: option.split prod.split)

definition haul_task :: work_task where
  "haul_task = (new_work ''T000001'' KindTransfer 5)\<lparr>SrcContainer := ''SELF'',
     DstContainer := ''CONTRACT_TERMINAL@1,0,1'', ItemID := ''LOG'', Count := 3\<rparr>"

lemma market_goods: "goods_ok market_world"
proof -
  have "store_ok market_world" using market_inv by (simp add: escrow_inv_def)
  moreover have "drops_ok market_world" "lying market_world j = 0" for j
    by (simp_all add: drops_ok_def lying_def market_world_def empty_world_def ids_at_def lying_at_def wf_map_def)
  ultimately show ?thesis by (simp add: goods_ok_def all_items_def store_ok_def)
qed

theorem logistics_conserve_witness:
  "all_items (systemConveyors 6 (TickTransfer ''A2'' haul_task 5 market_world)) ''LOG'' = 13"
proof -
  let ?w = "TickTransfer ''A2'' haul_task 5 market_world"
  have 1: "haul market_world ?w" by (rule haul.transfer) (simp add: haul_task_def)
  then have "moves_items market_world ?w" by (rule haul_moves[OF _ market_goods])
  have "conveyors ?w = []" by (simp add: TickTransfer_conveyors) (simp add: market_world_def empty_world_def)
  then have "item_room ?w (length (conveyors ?w))"
    using unsigned_less[of "nextItemNum ?w"] \<open>conveyors ?w = []\<close> by (simp add: item_room_def)
  then have 2: "haul ?w (systemConveyors 6 ?w)" by (rule haul.belts)
  have "haul\<^sup>*\<^sup>* market_world (systemConveyors 6 ?w)" using 1 2 by (rule rtranclp.rtrancl_into_rtrancl[OF r_into_rtranclp])
  from logistics_conserve[OF this market_goods market_inv, of "''LOG''"]
  have "all_items (systemConveyors 6 ?w) ''LOG'' = all_items market_world ''LOG''" by blast
  also have "\<dots> = 13" by (simp add: all_items_def held_def lying_def inv_view_def market_world_def box_items_def empty_world_def)
  finally show ?thesis .
qed

text \<open>
  C29. Pulling the materials of a blueprint is all or nothing.  It succeeds exactly when, for every item of the
  cost, the agent and the storage candidates together have enough; then the agent has it all, and otherwise
  the world is as it was.  Either way nothing is lost.
\<close>

theorem EnsureBlueprintMaterials_exact:
  assumes "goods_ok w" and "map_of (agents w) x \<noteq> None" and "ps = BuildStorageCandidates w x anchor"
    and "EnsureBlueprintMaterials x ps cost w = (r, w')"
  shows "(fst r \<longleftrightarrow> (\<forall>j. enough w x ps (needed_items cost) j)) \<and> moves_items w w' \<and>
    (if fst r then \<forall>j. agent_has w' x j = max (agent_has w x j) (cnt (needed_items cost) j) else w' = w)"
  by (rule EnsureBlueprintMaterials_all_or_nothing[OF assms])

theorem EnsureBlueprintMaterials_exact_witness:
  "moves_items market_world (snd (EnsureBlueprintMaterials ''A1'' (BuildStorageCandidates market_world ''A1'' market_pos)
     [(''LOG'', 2)] market_world))"
proof -
  have "map_of (agents market_world) ''A1'' \<noteq> None" by (simp add: market_world_def)
  from EnsureBlueprintMaterials_exact[OF market_goods this refl, of market_pos "[(''LOG'', 2)]"]
  show ?thesis by (metis prod.collapse)
qed

text \<open>
  C30. The loop that pulls one item returns, although the code only says to go on while something was taken: it answers
  whether agent and storage together have what is required, and has moved exactly as much as there is and is needed.
\<close>

theorem pull_item_terminates:
  assumes "goods_ok w" and "map_of (agents w) x \<noteq> None" and "distinct ps" and "required < 2 ^ 63"
  shows "\<exists>w'. pull_item x k ps required w = Some (required \<le> agent_has w x k + storage w ps k, w') \<and>
    pulled x k (min (max 0 (required - agent_has w x k)) (storage w ps k)) w w'"
  by (rule pull_item_run[OF assms])

theorem pull_item_terminates_witness:
  "\<exists>w'. pull_item ''A1'' ''LOG'' [market_pos] 2 market_world = Some (True, w') \<and> agent_has w' ''A1'' ''LOG'' = 2"
proof -
  have h: "agent_has market_world ''A1'' ''LOG'' = 0" "storage market_world [market_pos] ''LOG'' = 4"
    by (simp_all add: agent_has_def market_world_def cnt_def box_available_def AvailableCount_def ReservedCount_def)
  have a: "map_of (agents market_world) ''A1'' \<noteq> None" by (simp add: market_world_def)
  show ?thesis
    using pull_item_terminates[OF market_goods a, of "[market_pos]" 2 "''LOG''"]
    by (auto simp: h pulled_def unit_at_def simp del: storage_simps)
qed

end
