(* ===== verification/Multiworld_Config.thy ===== *)
theory Multiworld_Config
  imports Land_Rules
begin

text \<open>
  The configuration of several worlds (\<open>internal/sim/multiworld/config.go\<close>): worlds with their entry points, the routes
  between them, what is filled in when it is missing, and the validation.  Reading and parsing the YAML file is not
  modelled; Unicode lower-casing, used for a missing entry point name, is the parameter \<open>lower\<close>.
\<close>

record entry_point =
  EpID :: string
  EpX :: int
  EpZ :: int
  EpRadius :: int
  EpEnabled :: bool

record switch_route =
  FromWorld :: string
  ToWorld :: string
  FromEntryID :: string
  ToEntryID :: string
  RouteRequiresPermit :: bool

record world_spec =
  SpecID :: string
  SpecType :: string
  SeedOffset :: int
  SpecBoundaryR :: int
  SpecResetEvery :: int
  SpecResetNotice :: int
  SpecCooldown :: int
  SpecEntryPointID :: string
  SpecRequiresPermit :: bool
  SpecAllowAdminReset :: bool
  SpecEntryPoints :: "entry_point list"
  SpecAllowClaims :: bool
  SpecAllowMine :: bool
  SpecAllowPlace :: bool
  SpecAllowLaws :: bool
  SpecAllowTrade :: bool
  SpecAllowBuild :: bool

record mw_config =
  DefaultWorldID :: string
  Worlds :: "world_spec list"
  SwitchRoutes :: "switch_route list"

section \<open>Defaults\<close>

definition spawn_entry :: "string \<Rightarrow> entry_point" where
  "spawn_entry epID = \<lparr>EpID = epID, EpX = 0, EpZ = 0, EpRadius = 8, EpEnabled = True\<rparr>"

definition open_world :: "string \<Rightarrow> int \<Rightarrow> string \<Rightarrow> bool \<Rightarrow> world_spec" where
  "open_world wid boundary epID mine =
     \<lparr>SpecID = wid, SpecType = wid, SeedOffset = 0, SpecBoundaryR = boundary, SpecResetEvery = 42000, SpecResetNotice = 0,
      SpecCooldown = 150, SpecEntryPointID = epID, SpecRequiresPermit = False, SpecAllowAdminReset = False,
      SpecEntryPoints = [spawn_entry epID], SpecAllowClaims = True, SpecAllowMine = mine, SpecAllowPlace = True,
      SpecAllowLaws = True, SpecAllowTrade = True, SpecAllowBuild = True\<rparr>"

definition mine_spec :: "string \<Rightarrow> int \<Rightarrow> int \<Rightarrow> string \<Rightarrow> world_spec" where
  "mine_spec wid boundary every epID =
     \<lparr>SpecID = wid, SpecType = wid, SeedOffset = 0, SpecBoundaryR = boundary, SpecResetEvery = every, SpecResetNotice = 300,
      SpecCooldown = 150, SpecEntryPointID = epID, SpecRequiresPermit = False, SpecAllowAdminReset = True,
      SpecEntryPoints = [spawn_entry epID], SpecAllowClaims = False, SpecAllowMine = True, SpecAllowPlace = True,
      SpecAllowLaws = False, SpecAllowTrade = False, SpecAllowBuild = False\<rparr>"

definition plain_route :: "string \<Rightarrow> string \<Rightarrow> string \<Rightarrow> string \<Rightarrow> switch_route" where
  "plain_route a b ea eb = \<lparr>FromWorld = a, ToWorld = b, FromEntryID = ea, ToEntryID = eb, RouteRequiresPermit = False\<rparr>"

definition defaults :: mw_config where
  "defaults =
     \<lparr>DefaultWorldID = ''OVERWORLD'',
      Worlds = [open_world ''OVERWORLD'' 4000 ''overworld_spawn'' True, mine_spec ''MINE_L1'' 1200 3000 ''mine_l1_gate'',
                mine_spec ''MINE_L2'' 1000 6000 ''mine_l2_gate'', mine_spec ''MINE_L3'' 800 12000 ''mine_l3_gate'',
                open_world ''CITY_HUB'' 600 ''city_gate'' False],
      SwitchRoutes = [plain_route ''OVERWORLD'' ''MINE_L1'' ''overworld_spawn'' ''mine_l1_gate'',
                      plain_route ''MINE_L1'' ''OVERWORLD'' ''mine_l1_gate'' ''overworld_spawn'',
                      plain_route ''MINE_L1'' ''MINE_L2'' ''mine_l1_gate'' ''mine_l2_gate'',
                      plain_route ''MINE_L2'' ''MINE_L1'' ''mine_l2_gate'' ''mine_l1_gate'',
                      plain_route ''MINE_L2'' ''MINE_L3'' ''mine_l2_gate'' ''mine_l3_gate'',
                      plain_route ''MINE_L3'' ''MINE_L2'' ''mine_l3_gate'' ''mine_l2_gate'',
                      plain_route ''OVERWORLD'' ''CITY_HUB'' ''overworld_spawn'' ''city_gate'',
                      plain_route ''CITY_HUB'' ''OVERWORLD'' ''city_gate'' ''overworld_spawn'']\<rparr>"

section \<open>Normalization\<close>

definition normal_entry :: "bool \<Rightarrow> entry_point \<Rightarrow> entry_point" where
  "normal_entry alone ep =
     (let ep = (if EpRadius ep \<le> 0 then ep\<lparr>EpRadius := 1\<rparr> else ep)
      in if \<not> EpEnabled ep \<and> alone then ep\<lparr>EpEnabled := True\<rparr> else ep)"

definition normal_spec :: "(string \<Rightarrow> string) \<Rightarrow> world_spec \<Rightarrow> world_spec" where
  "normal_spec lower w =
     (let w = (if SpecEntryPoints w = [] then
                 let epID = trim_space (SpecEntryPointID w);
                     epID = (if epID = [] then lower (SpecID w) @ ''_entry'' else epID)
                 in w\<lparr>SpecEntryPoints := [spawn_entry epID]\<rparr>
               else w);
          w = w\<lparr>SpecEntryPoints := map (normal_entry (length (SpecEntryPoints w) = 1)) (SpecEntryPoints w)\<rparr>
      in if trim_space (SpecEntryPointID w) = [] then w\<lparr>SpecEntryPointID := EpID (hd (SpecEntryPoints w))\<rparr> else w)"

text \<open>Without routes, every world leads to every other one; worlds are compared by their place in the list.\<close>

definition all_routes :: "world_spec list \<Rightarrow> switch_route list" where
  "all_routes ws =
     concat (map (\<lambda>i. map (\<lambda>j. plain_route (SpecID (ws ! i)) (SpecID (ws ! j)) (SpecEntryPointID (ws ! i)) (SpecEntryPointID (ws ! j)))
       (filter (\<lambda>j. i \<noteq> j) [0..<length ws])) [0..<length ws])"

definition Normalize :: "(string \<Rightarrow> string) \<Rightarrow> mw_config \<Rightarrow> mw_config" where
  "Normalize lower c =
     (let c = c\<lparr>Worlds := map (normal_spec lower) (Worlds c)\<rparr>
      in if SwitchRoutes c = [] then c\<lparr>SwitchRoutes := all_routes (Worlds c)\<rparr> else c)"

section \<open>Validation\<close>

datatype config_error =
    NoWorlds | EmptyWorldID | DuplicateWorld string | BadBoundary string | BadReset string | BadCooldown string
  | BadNotice string | NoEntryPoints string | EmptyEntryID string | DuplicateEntry string string
  | BadRadius string string | NoPrimaryEntry string | UnknownPrimaryEntry string string
  | NoDefaultWorld | UnknownDefaultWorld string
  | RouteWithoutWorlds nat | UnknownFromWorld nat string | UnknownToWorld nat string
  | RouteWithoutEntries nat | UnknownFromEntry nat string string | UnknownToEntry nat string string

fun check_entries :: "string \<Rightarrow> string list \<Rightarrow> entry_point list \<Rightarrow> config_error + string list" where
  "check_entries wid ids [] = Inr ids"
| "check_entries wid ids (ep # eps) =
     (let epID = trim_space (EpID ep)
      in if epID = [] then Inl (EmptyEntryID wid)
         else if epID \<in> set ids then Inl (DuplicateEntry wid epID)
         else if EpRadius ep \<le> 0 then Inl (BadRadius wid epID)
         else check_entries wid (epID # ids) eps)"

definition check_spec :: "string list gomap \<Rightarrow> world_spec \<Rightarrow> config_error + string list gomap" where
  "check_spec seen w =
     (if trim_space (SpecID w) = [] then Inl EmptyWorldID
      else if map_of seen (SpecID w) \<noteq> None then Inl (DuplicateWorld (SpecID w))
      else if SpecBoundaryR w \<le> 0 then Inl (BadBoundary (SpecID w))
      else if SpecResetEvery w \<le> 0 then Inl (BadReset (SpecID w))
      else if SpecCooldown w < 0 then Inl (BadCooldown (SpecID w))
      else if SpecResetNotice w < 0 \<or> SpecResetNotice w \<ge> SpecResetEvery w then Inl (BadNotice (SpecID w))
      else if SpecEntryPoints w = [] then Inl (NoEntryPoints (SpecID w))
      else case check_entries (SpecID w) [] (SpecEntryPoints w) of
             Inl e \<Rightarrow> Inl e
           | Inr ids \<Rightarrow>
               if trim_space (SpecEntryPointID w) = [] then Inl (NoPrimaryEntry (SpecID w))
               else if SpecEntryPointID w \<notin> set ids then Inl (UnknownPrimaryEntry (SpecID w) (SpecEntryPointID w))
               else Inr (mput (SpecID w) ids seen))"

fun check_specs :: "string list gomap \<Rightarrow> world_spec list \<Rightarrow> config_error + string list gomap" where
  "check_specs seen [] = Inr seen"
| "check_specs seen (w # ws) = (case check_spec seen w of Inl e \<Rightarrow> Inl e | Inr seen' \<Rightarrow> check_specs seen' ws)"

text \<open>\<open>entryByWorld[w][e]\<close>\<close>

definition has_entry :: "string list gomap \<Rightarrow> string \<Rightarrow> string \<Rightarrow> bool" where
  "has_entry seen wid epID \<longleftrightarrow> (case map_of seen wid of None \<Rightarrow> False | Some ids \<Rightarrow> epID \<in> set ids)"

fun check_routes :: "string list gomap \<Rightarrow> nat \<Rightarrow> switch_route list \<Rightarrow> config_error option" where
  "check_routes seen i [] = None"
| "check_routes seen i (r # rs) =
     (if trim_space (FromWorld r) = [] \<or> trim_space (ToWorld r) = [] then Some (RouteWithoutWorlds i)
      else if map_of seen (FromWorld r) = None then Some (UnknownFromWorld i (FromWorld r))
      else if map_of seen (ToWorld r) = None then Some (UnknownToWorld i (ToWorld r))
      else if trim_space (FromEntryID r) = [] \<or> trim_space (ToEntryID r) = [] then Some (RouteWithoutEntries i)
      else if \<not> has_entry seen (FromWorld r) (FromEntryID r) then Some (UnknownFromEntry i (FromEntryID r) (FromWorld r))
      else if \<not> has_entry seen (ToWorld r) (ToEntryID r) then Some (UnknownToEntry i (ToEntryID r) (ToWorld r))
      else check_routes seen (i + 1) rs)"

definition Validate :: "(string \<Rightarrow> string) \<Rightarrow> mw_config \<Rightarrow> config_error option" where
  "Validate lower c0 =
     (let c = Normalize lower c0
      in if Worlds c = [] then Some NoWorlds
         else case check_specs [] (Worlds c) of
                Inl e \<Rightarrow> Some e
              | Inr seen \<Rightarrow>
                  if DefaultWorldID c = [] then Some NoDefaultWorld
                  else if map_of seen (DefaultWorldID c) = None then Some (UnknownDefaultWorld (DefaultWorldID c))
                  else check_routes seen 0 (SwitchRoutes c))"

section \<open>Lookups\<close>

record world_ref =
  RefWorldID :: string
  RefWorldType :: string
  RefEntryPointID :: string
  RefRequiresPermit :: bool
  RefSwitchCooldown :: int
  RefResetEvery :: int
  RefResetNotice :: int

definition manifest_of :: "mw_config \<Rightarrow> world_ref list" where
  "manifest_of c =
     sort_key RefWorldID (map (\<lambda>w. \<lparr>RefWorldID = SpecID w, RefWorldType = SpecType w, RefEntryPointID = SpecEntryPointID w,
        RefRequiresPermit = SpecRequiresPermit w, RefSwitchCooldown = SpecCooldown w, RefResetEvery = SpecResetEvery w,
        RefResetNotice = SpecResetNotice w\<rparr>) (Worlds c))"

definition WorldSpecByID :: "mw_config \<Rightarrow> string \<Rightarrow> world_spec option" where
  "WorldSpecByID c wid = find (\<lambda>w. SpecID w = wid) (Worlds c)"

definition EntryPoint :: "mw_config \<Rightarrow> string \<Rightarrow> string \<Rightarrow> entry_point option" where
  "EntryPoint c worldID entryID =
     (case find (\<lambda>w. SpecID w = worldID) (Worlds c) of
        None \<Rightarrow> None
      | Some w \<Rightarrow> find (\<lambda>ep. EpID ep = entryID) (SpecEntryPoints w))"

section \<open>What a validated configuration promises\<close>

lemma check_entries_ids:
  "check_entries wid ids eps = Inr ids' \<Longrightarrow> set ids' = set ids \<union> (\<lambda>ep. trim_space (EpID ep)) ` set eps"
  by (induction wid ids eps rule: check_entries.induct) (auto simp: Let_def split: if_splits)

lemma check_spec_seen:
  assumes "check_spec seen w = Inr seen'"
  shows "map_of seen (SpecID w) = None \<and> SpecEntryPoints w \<noteq> [] \<and>
    (\<exists>ids. seen' = mput (SpecID w) ids seen \<and> set ids = (\<lambda>ep. trim_space (EpID ep)) ` set (SpecEntryPoints w) \<and>
      SpecEntryPointID w \<in> set ids)"
proof -
  from assms obtain ids where "check_entries (SpecID w) [] (SpecEntryPoints w) = Inr ids"
    "seen' = mput (SpecID w) ids seen" "SpecEntryPointID w \<in> set ids" "map_of seen (SpecID w) = None" "SpecEntryPoints w \<noteq> []"
    by (auto simp: check_spec_def split: if_splits sum.splits)
  with check_entries_ids[of "SpecID w" "[]" "SpecEntryPoints w" ids] show ?thesis by auto
qed

lemma check_specs_seen:
  assumes "check_specs seen ws = Inr seen'"
  shows "(\<forall>k. map_of seen k \<noteq> None \<longrightarrow> map_of seen' k = map_of seen k) \<and>
    (\<forall>k. map_of seen' k \<noteq> None \<longrightarrow> map_of seen k \<noteq> None \<or> k \<in> SpecID ` set ws) \<and> distinct (map SpecID ws) \<and>
    (\<forall>w \<in> set ws. map_of seen (SpecID w) = None \<and> (\<exists>ids. map_of seen' (SpecID w) = Some ids \<and>
       set ids = (\<lambda>ep. trim_space (EpID ep)) ` set (SpecEntryPoints w) \<and> SpecEntryPointID w \<in> set ids))"
  using assms
proof (induction ws arbitrary: seen)
  case (Cons w ws)
  from Cons.prems obtain mid where m: "check_spec seen w = Inr mid" "check_specs mid ws = Inr seen'"
    by (auto split: sum.splits)
  from check_spec_seen[OF m(1)] obtain ids where ids: "map_of seen (SpecID w) = None" "mid = mput (SpecID w) ids seen"
    "set ids = (\<lambda>ep. trim_space (EpID ep)) ` set (SpecEntryPoints w)" "SpecEntryPointID w \<in> set ids" by blast
  note IH = Cons.IH[OF m(2)]
  have mid: "map_of mid k = (if k = SpecID w then Some ids else map_of seen k)" for k by (simp add: ids(2) map_of_mput)
  have new: "map_of mid (SpecID v) = None" if "v \<in> set ws" for v using IH that by blast
  have "SpecID w \<noteq> SpecID v" if "v \<in> set ws" for v using new[OF that] mid[of "SpecID v"] by (auto split: if_splits)
  then have d: "SpecID w \<notin> SpecID ` set ws" by auto
  have w: "map_of seen' (SpecID w) = Some ids" using IH mid[of "SpecID w"] by simp
  show ?case
  proof (intro conjI allI impI ballI)
    fix k assume "map_of seen k \<noteq> None"
    with IH mid[of k] ids(1) show "map_of seen' k = map_of seen k" by (cases "k = SpecID w") auto
  next
    fix k assume "map_of seen' k \<noteq> None"
    with IH have "map_of mid k \<noteq> None \<or> k \<in> SpecID ` set ws" by blast
    with mid[of k] show "map_of seen k \<noteq> None \<or> k \<in> SpecID ` set (w # ws)" by (cases "k = SpecID w") auto
  next
    show "distinct (map SpecID (w # ws))" using d IH by simp
  next
    fix v assume v: "v \<in> set (w # ws)"
    show "map_of seen (SpecID v) = None"
      using v ids(1) new[of v] mid[of "SpecID v"] by (cases "v = w") (auto split: if_splits)
    show "\<exists>ids. map_of seen' (SpecID v) = Some ids \<and> set ids = (\<lambda>ep. trim_space (EpID ep)) ` set (SpecEntryPoints v) \<and>
        SpecEntryPointID v \<in> set ids"
      using v w ids(3,4) IH by (cases "v = w") auto
  qed
qed simp

lemma check_routes_all:
  "check_routes seen i rs = None \<Longrightarrow> r \<in> set rs \<Longrightarrow>
     has_entry seen (FromWorld r) (FromEntryID r) \<and> has_entry seen (ToWorld r) (ToEntryID r)"
  by (induction seen i rs rule: check_routes.induct) (auto split: if_splits)

lemma find_by_id: "distinct (map f xs) \<Longrightarrow> x \<in> set xs \<Longrightarrow> find (\<lambda>y. f y = f x) xs = Some x"
  by (induction xs) auto

text \<open>
   In a configuration that passes validation the default world exists, every world has its primary entry point,
  and every route leads from an existing entry point to an existing one - provided the identifiers of the entry points
  have no blanks around them.
\<close>

lemma validated_routes_lead:
  assumes "Validate lower c0 = None" and "c = Normalize lower c0"
    and "\<forall>w \<in> set (Worlds c). \<forall>ep \<in> set (SpecEntryPoints w). trim_space (EpID ep) = EpID ep"
  shows "WorldSpecByID c (DefaultWorldID c) \<noteq> None \<and>
    (\<forall>w \<in> set (Worlds c). EntryPoint c (SpecID w) (SpecEntryPointID w) \<noteq> None) \<and>
    (\<forall>r \<in> set (SwitchRoutes c). EntryPoint c (FromWorld r) (FromEntryID r) \<noteq> None \<and>
       EntryPoint c (ToWorld r) (ToEntryID r) \<noteq> None)"
proof -
  from assms(1,2) obtain seen where seen: "check_specs [] (Worlds c) = Inr seen" "map_of seen (DefaultWorldID c) \<noteq> None"
    "check_routes seen 0 (SwitchRoutes c) = None"
    by (auto simp: Validate_def Let_def split: if_splits sum.splits)
  note S = check_specs_seen[OF seen(1)]
  have spec: "find (\<lambda>v. SpecID v = SpecID w) (Worlds c) = Some w" if "w \<in> set (Worlds c)" for w
    using S that by (intro find_by_id) auto
  have ep: "EntryPoint c wid e \<noteq> None" if "has_entry seen wid e" for wid e
  proof -
    from that obtain ids where ids: "map_of seen wid = Some ids" "e \<in> set ids" by (auto simp: has_entry_def split: option.splits)
    with S have "wid \<in> SpecID ` set (Worlds c)" by fastforce
    then obtain w where w: "w \<in> set (Worlds c)" "wid = SpecID w" by blast
    with S ids obtain ep where "ep \<in> set (SpecEntryPoints w)" "e = trim_space (EpID ep)" by fastforce
    with assms(3) w have "\<exists>p \<in> set (SpecEntryPoints w). EpID p = e" by auto
    then have "find (\<lambda>p. EpID p = e) (SpecEntryPoints w) \<noteq> None" by (auto simp: find_None_iff)
    then show ?thesis using spec[OF w(1)] by (simp add: EntryPoint_def w(2))
  qed
  have "WorldSpecByID c (DefaultWorldID c) \<noteq> None"
    using S seen(2) spec by (force simp: WorldSpecByID_def find_None_iff)
  moreover have "has_entry seen (SpecID w) (SpecEntryPointID w)" if "w \<in> set (Worlds c)" for w
    using S that by (auto simp: has_entry_def)
  ultimately show ?thesis using ep check_routes_all[OF seen(3)] by blast
qed

text \<open>The configuration used without a file is valid.\<close>

lemma plain_ids:
  "trim_space ''OVERWORLD'' = ''OVERWORLD''" "trim_space ''MINE_L1'' = ''MINE_L1''" "trim_space ''MINE_L2'' = ''MINE_L2''"
  "trim_space ''MINE_L3'' = ''MINE_L3''" "trim_space ''CITY_HUB'' = ''CITY_HUB''"
  "trim_space ''overworld_spawn'' = ''overworld_spawn''" "trim_space ''mine_l1_gate'' = ''mine_l1_gate''"
  "trim_space ''mine_l2_gate'' = ''mine_l2_gate''" "trim_space ''mine_l3_gate'' = ''mine_l3_gate''" "trim_space ''city_gate'' = ''city_gate''"
  by (rule trim_space_plain, auto simp: of_char_of take_bit_eq_mod)+

lemma defaults_normal: "Normalize lower defaults = defaults"
  by (simp add: Normalize_def defaults_def normal_spec_def open_world_def mine_spec_def spawn_entry_def normal_entry_def plain_ids)

lemma defaults_valid: "Validate lower defaults = None"
  unfolding Validate_def defaults_normal
  by (simp add: defaults_def open_world_def mine_spec_def spawn_entry_def plain_route_def check_spec_def has_entry_def plain_ids map_of_mput)

text \<open>Validation looks at identifiers without surrounding blanks, every lookup at the identifier as it is written.\<close>

definition spaced_config :: mw_config where
  "spaced_config = \<lparr>DefaultWorldID = ''CITY_HUB'',
     Worlds = [(open_world ''CITY_HUB'' 600 ''g'' False)\<lparr>SpecEntryPoints := [spawn_entry ''g '']\<rparr>],
     SwitchRoutes = [plain_route ''CITY_HUB'' ''CITY_HUB'' ''g'' ''g'']\<rparr>"

lemma spaced_ids: "trim_space ''g'' = ''g''" "trim_space ''g '' = ''g''"
proof -
  have n: "find (\<lambda>p. starts_with p (CHR ''g'' # t)) space_seqs = None"
    "find (\<lambda>p. starts_with p (CHR ''g'' # t)) (map rev space_seqs) = None" for t
    by (simp_all add: space_seqs_def char_of_def upt_rec)
  have b: "find (\<lambda>p. starts_with p '' g'') (map rev space_seqs) = Some '' ''"
    by (simp add: space_seqs_def char_of_def bit_0)
  show "trim_space ''g'' = ''g''" "trim_space ''g '' = ''g''"
    by (simp_all add: trim_space_def n b)
qed

text \<open>
   A configuration whose entry point carries a blank passes validation, although its primary entry point and its
  route lead to an entry point that no lookup finds.
\<close>

lemma blank_entry_accepted:
  "Validate lower spaced_config = None \<and> EntryPoint (Normalize lower spaced_config) ''CITY_HUB'' ''g'' = None"
proof -
  have "Normalize lower spaced_config = spaced_config"
    by (simp add: Normalize_def spaced_config_def normal_spec_def open_world_def spawn_entry_def normal_entry_def spaced_ids)
  then show ?thesis
    by (simp add: Validate_def spaced_config_def open_world_def spawn_entry_def plain_route_def check_spec_def has_entry_def
        plain_ids spaced_ids map_of_mput EntryPoint_def)
qed

end
