(* ===== verification/Multiworld_Manager.thy ===== *)
theory Multiworld_Manager
  imports World_Step Multiworld_Config
begin

text \<open>
  The manager of several worlds (\<open>internal/sim/multiworld/manager.go\<close>): who lives where, joining and resuming, routing
  actions, switching between worlds, the view of all organizations and its distribution, and the persisted state.

  Every world runs by itself; the manager sends it a request and waits with a timeout.  An exchange says what became of
  one request: answered in time, never taken by the world, or handled by the world after the manager gave up.  It also
  says what the worlds did by themselves before they took the request.  Files, JSON, goroutines and the debounce timers
  are not modelled.
\<close>

section \<open>State\<close>

record mw_runtime =
  RtSpec :: world_spec
  RtWorld :: world

record manager =
  Runtimes :: "mw_runtime gomap"
  Entries :: "entry_point gomap gomap"
  Routes :: "switch_route list gomap"
  Manifest :: "world_ref list"
  DefaultID :: string
  AgentToWorld :: "string gomap"
  ResumeToWorld :: "string gomap"
  SwitchTotals :: "((string \<times> string \<times> string) \<times> u64) list"
  GlobalOrgMeta :: "org_meta gomap"
  RefreshDue :: bool

record mw_session =
  SAgentID :: string
  SCurrentWorld :: string

definition is_blank :: "char \<Rightarrow> bool" where
  "is_blank c \<longleftrightarrow> c = CHR '' '' \<or> c = CHR 0x09 \<or> c = CHR 0x0A \<or> c = CHR 0x0D"

definition stringsTrim :: "string \<Rightarrow> string" where
  "stringsTrim s = rev (dropWhile is_blank (rev (dropWhile is_blank s)))"

definition routeKey :: "string \<Rightarrow> string \<Rightarrow> string" where
  "routeKey a b = a @ ''->'' @ b"

datatype manager_error = EmptyRuntimes | BadConfig config_error | MissingRuntime string

definition entries_of :: "world_spec list \<Rightarrow> entry_point gomap gomap" where
  "entries_of ws = fold (\<lambda>w m. mput (SpecID w) (fold (\<lambda>ep es. mput (EpID ep) ep es) (SpecEntryPoints w) []) m) ws []"

text \<open>Routes by their pair of worlds, sorted by source entry, then by destination entry.\<close>

definition sort_routes :: "switch_route list \<Rightarrow> switch_route list" where
  "sort_routes rs = sort_key FromEntryID (sort_key ToEntryID rs)"

definition routes_of :: "switch_route list \<Rightarrow> switch_route list gomap" where
  "routes_of rs =
     map (\<lambda>(k, v). (k, sort_routes v))
       (fold (\<lambda>r m. let k = routeKey (FromWorld r) (ToWorld r)
                    in mput k ((case map_of m k of None \<Rightarrow> [] | Some old \<Rightarrow> old) @ [r]) m) rs [])"

definition NewManager :: "(string \<Rightarrow> string) \<Rightarrow> mw_config \<Rightarrow> mw_runtime gomap \<Rightarrow> manager_error + manager" where
  "NewManager lower c0 rts =
     (if rts = [] then Inl EmptyRuntimes
      else
        let c = Normalize lower c0
        in case Validate lower c of
             Some e \<Rightarrow> Inl (BadConfig e)
           | None \<Rightarrow>
               (case find (\<lambda>w. map_of rts (SpecID w) = None) (Worlds c) of
                  Some w \<Rightarrow> Inl (MissingRuntime (SpecID w))
                | None \<Rightarrow> Inr \<lparr>Runtimes = rts, Entries = entries_of (Worlds c), Routes = routes_of (SwitchRoutes c),
                     Manifest = manifest_of c, DefaultID = DefaultWorldID c, AgentToWorld = [], ResumeToWorld = [],
                     SwitchTotals = [], GlobalOrgMeta = [], RefreshDue = False\<rparr>))"

definition WorldIDs :: "manager \<Rightarrow> string list" where
  "WorldIDs m = sort (map fst (Runtimes m))"

section \<open>Requests to a world\<close>

datatype fate = Answered | Unsent | Unanswered

record exchange =
  Fate :: fate
  Meanwhile :: "string \<Rightarrow> world \<Rightarrow> world"

definition pass_time :: "(string \<Rightarrow> world \<Rightarrow> world) \<Rightarrow> manager \<Rightarrow> manager" where
  "pass_time f m = m\<lparr>Runtimes := map (\<lambda>(k, rt). (k, rt\<lparr>RtWorld := f k (RtWorld rt)\<rparr>)) (Runtimes m)\<rparr>"

definition set_world :: "string \<Rightarrow> world \<Rightarrow> manager \<Rightarrow> manager" where
  "set_world wid w m =
     (case map_of (Runtimes m) wid of
        None \<Rightarrow> m
      | Some rt \<Rightarrow> m\<lparr>Runtimes := mput wid (rt\<lparr>RtWorld := w\<rparr>) (Runtimes m)\<rparr>)"

definition request :: "exchange \<Rightarrow> string \<Rightarrow> (world \<Rightarrow> string + 'r \<times> world) \<Rightarrow> manager \<Rightarrow> (string + 'r) \<times> manager" where
  "request x wid h m0 =
     (let m = pass_time (Meanwhile x) m0
      in case map_of (Runtimes m) wid of
           None \<Rightarrow> (Inl ''world not found'', m)
         | Some rt \<Rightarrow>
             (case (Fate x, h (RtWorld rt)) of
                (Unsent, _) \<Rightarrow> (Inl ''context deadline exceeded'', m)
              | (Answered, Inl e) \<Rightarrow> (Inl e, m)
              | (Answered, Inr (r, w)) \<Rightarrow> (Inr r, set_world wid w m)
              | (Unanswered, Inl e) \<Rightarrow> (Inl ''context deadline exceeded'', m)
              | (Unanswered, Inr (r, w)) \<Rightarrow> (Inl ''context deadline exceeded'', set_world wid w m)))"

definition ask_pos :: "string \<Rightarrow> world \<Rightarrow> string + vec3 \<times> world" where
  "ask_pos aid w = (case HandleAgentPosReq aid w of Inl e \<Rightarrow> Inl e | Inr p \<Rightarrow> Inr (p, w))"

definition ask_in :: "agent_transfer \<Rightarrow> world \<Rightarrow> string + unit \<times> world" where
  "ask_in t w = (case handleTransferIn t w of Inl e \<Rightarrow> Inl e | Inr w' \<Rightarrow> Inr ((), w'))"

definition ask_inject :: "string \<Rightarrow> event \<Rightarrow> world \<Rightarrow> string + unit \<times> world" where
  "ask_inject aid ev w = (case inject_event (aid, Some ev) w of (Some e, _) \<Rightarrow> Inl e | (None, w') \<Rightarrow> Inr ((), w'))"

definition world_tick :: "string \<Rightarrow> manager \<Rightarrow> u64" where
  "world_tick wid m = (case map_of (Runtimes m) wid of None \<Rightarrow> 0 | Some rt \<Rightarrow> worldTick (RtWorld rt))"

definition injectActionResult :: "exchange \<Rightarrow> string \<Rightarrow> string \<Rightarrow> event \<Rightarrow> manager \<Rightarrow> string option \<times> manager" where
  "injectActionResult x worldID aid ev m =
     (if map_of (Runtimes m) worldID = None then (Some ''world not found'', m)
      else
        let ev = (if map_of ev ''t'' = None then ev @ [(''t'', JU64 (world_tick worldID m))] else ev)
        in case request x worldID (ask_inject aid ev) m of
             (Inl e, m) \<Rightarrow> (Some e, m)
           | (Inr _, m) \<Rightarrow> (None, m))"

section \<open>Residency\<close>

definition recordSwitch :: "string \<Rightarrow> string \<Rightarrow> string \<Rightarrow> manager \<Rightarrow> manager" where
  "recordSwitch a b result m =
     (let a = (if a = [] then ''UNKNOWN'' else a);
          b = (if b = [] then ''UNKNOWN'' else b);
          result = (if result = [] then ''unknown'' else result);
          n = (case map_of (SwitchTotals m) (a, b, result) of None \<Rightarrow> 0 | Some n \<Rightarrow> n)
      in m\<lparr>SwitchTotals := mput (a, b, result) (n + 1) (SwitchTotals m)\<rparr>)"

definition updateResidency :: "string \<Rightarrow> string \<Rightarrow> string \<Rightarrow> manager \<Rightarrow> manager" where
  "updateResidency aid worldID resumeToken m =
     (if aid = [] \<or> worldID = [] then m
      else
        let m = m\<lparr>AgentToWorld := mput aid worldID (AgentToWorld m)\<rparr>
        in if stringsTrim resumeToken \<noteq> [] then m\<lparr>ResumeToWorld := mput resumeToken worldID (ResumeToWorld m)\<rparr> else m)"

definition pickWorld :: "string \<Rightarrow> manager \<Rightarrow> string" where
  "pickWorld pref m =
     (let p = stringsTrim pref
      in if p = [] then DefaultID m else if map_of (Runtimes m) p \<noteq> None then p else DefaultID m)"

definition worldByResumeToken :: "string \<Rightarrow> manager \<Rightarrow> string" where
  "worldByResumeToken token0 m =
     (let token = stringsTrim token0
      in if token = [] then [] else case map_of (ResumeToWorld m) token of None \<Rightarrow> [] | Some wid \<Rightarrow> wid)"

definition Join :: "exchange \<Rightarrow> string \<Rightarrow> int \<Rightarrow> string \<Rightarrow> manager \<Rightarrow> (string + mw_session \<times> string) \<times> manager" where
  "Join x name nano worldPreference m =
     (let target = pickWorld worldPreference m
      in if map_of (Runtimes m) target = None then (Inl ''default world not found'', m)
         else case request x target (\<lambda>w. Inr (joinAgent name nano w)) m of
                (Inl e, m) \<Rightarrow> (Inl ''join request failed'', m)
              | (Inr (aid, token), m) \<Rightarrow>
                  if aid = [] then (Inl ''join failed'', m)
                  else (Inr (\<lparr>SAgentID = aid, SCurrentWorld = target\<rparr>, token), updateResidency aid target token m))"

text \<open>The worlds are tried one by one, the one that is remembered for the token first.\<close>

fun attach_loop :: "(string \<Rightarrow> exchange) \<Rightarrow> string \<Rightarrow> int \<Rightarrow> string list \<Rightarrow> manager \<Rightarrow> (string + mw_session \<times> string) \<times> manager" where
  "attach_loop xs token nano [] m = (Inl ''resume token not found'', m)"
| "attach_loop xs token nano (wid # wids) m =
     (if map_of (Runtimes m) wid = None then attach_loop xs token nano wids m
      else case request (xs wid) wid (\<lambda>w. Inr (handleAttach token nano w)) m of
             (Inl _, m) \<Rightarrow> attach_loop xs token nano wids m
           | (Inr None, m) \<Rightarrow> attach_loop xs token nano wids m
           | (Inr (Some (aid, new)), m) \<Rightarrow>
               if aid = [] then attach_loop xs token nano wids m
               else (Inr (\<lparr>SAgentID = aid, SCurrentWorld = wid\<rparr>, new), updateResidency aid wid new m))"

definition Attach :: "(string \<Rightarrow> exchange) \<Rightarrow> string \<Rightarrow> int \<Rightarrow> manager \<Rightarrow> (string + mw_session \<times> string) \<times> manager" where
  "Attach xs token nano m =
     (let worldID = worldByResumeToken token m
      in attach_loop xs token nano
           ((if worldID \<noteq> [] then [worldID] else []) @ filter (\<lambda>wid. wid \<noteq> worldID) (WorldIDs m)) m)"

section \<open>Organizations across worlds\<close>

definition trim_members :: "org_role gomap \<Rightarrow> org_role gomap" where
  "trim_members ms = filter (\<lambda>(aid, _). stringsTrim aid \<noteq> []) ms"

definition candidate :: "org_meta \<Rightarrow> org_meta" where
  "candidate ob = ob\<lparr>MetaMembers := trim_members (MetaMembers ob)\<rparr>"

definition add_members :: "org_role gomap \<Rightarrow> org_role gomap \<Rightarrow> org_role gomap" where
  "add_members new old = fold (\<lambda>(aid, role). mput aid role) new old"

definition mergeOrgMetaFromTransfer :: "org_meta option \<Rightarrow> manager \<Rightarrow> manager" where
  "mergeOrgMetaFromTransfer ob m =
     (case ob of
        None \<Rightarrow> m
      | Some src \<Rightarrow>
          if stringsTrim (MetaOrgID src) = [] then m
          else
            let c = candidate src;
                put = (\<lambda>v. m\<lparr>GlobalOrgMeta := mput (MetaOrgID src) v (GlobalOrgMeta m)\<rparr>)
            in case map_of (GlobalOrgMeta m) (MetaOrgID src) of
                 None \<Rightarrow> put c
               | Some meta \<Rightarrow>
                   if stringsTrim (MetaOrgID meta) = [] \<or> MetaRev c > MetaRev meta then put c
                   else if MetaRev c = MetaRev meta then
                     let meta = meta\<lparr>MetaKind := MetaKind c\<rparr>;
                         meta = (if MetaName c \<noteq> [] then meta\<lparr>MetaName := MetaName c\<rparr> else meta);
                         meta = (if MetaCreatedTick meta = 0 \<or> (MetaCreatedTick c \<noteq> 0 \<and> MetaCreatedTick c < MetaCreatedTick meta)
                                 then meta\<lparr>MetaCreatedTick := MetaCreatedTick c\<rparr> else meta)
                     in put (meta\<lparr>MetaMembers := add_members (MetaMembers c) (MetaMembers meta)\<rparr>)
                   else m)"

definition attachOrgMetaToTransfer :: "manager \<Rightarrow> agent_transfer \<Rightarrow> agent_transfer" where
  "attachOrgMetaToTransfer m t =
     (if stringsTrim (XOrgID t) = [] then t
      else case map_of (GlobalOrgMeta m) (XOrgID t) of
             None \<Rightarrow> t
           | Some meta \<Rightarrow> t\<lparr>XOrg := Some (candidate meta)\<rparr>)"

section \<open>Switching worlds\<close>

definition withinEntry :: "vec3 \<Rightarrow> entry_point \<Rightarrow> bool" where
  "withinEntry pos ep \<longleftrightarrow>
     (let dx = i64 (vx pos - EpX ep); dx = (if dx < 0 then i64 (- dx) else dx);
          dz = i64 (vz pos - EpZ ep); dz = (if dz < 0 then i64 (- dz) else dz)
      in dx \<le> EpRadius ep \<and> dz \<le> EpRadius ep)"

definition find_entry :: "manager \<Rightarrow> string \<Rightarrow> string \<Rightarrow> entry_point option" where
  "find_entry m wid epID = (case map_of (Entries m) wid of None \<Rightarrow> None | Some es \<Rightarrow> map_of es epID)"

text \<open>The entry points of a route when both exist and are enabled.\<close>

definition route_ends :: "manager \<Rightarrow> string \<Rightarrow> string \<Rightarrow> switch_route \<Rightarrow> (entry_point \<times> entry_point) option" where
  "route_ends m fromWorld toWorld r =
     (case (find_entry m fromWorld (FromEntryID r), find_entry m toWorld (ToEntryID r)) of
        (Some a, Some b) \<Rightarrow> if EpEnabled a \<and> EpEnabled b then Some (a, b) else None
      | _ \<Rightarrow> None)"

fun first_route :: "manager \<Rightarrow> string \<Rightarrow> string \<Rightarrow> (switch_route \<Rightarrow> entry_point \<Rightarrow> bool) \<Rightarrow> switch_route list \<Rightarrow>
    (switch_route \<times> entry_point \<times> entry_point) option" where
  "first_route m a b ok [] = None"
| "first_route m a b ok (r # rs) =
     (case route_ends m a b r of
        Some (src, dst) \<Rightarrow> if ok r src then Some (r, src, dst) else first_route m a b ok rs
      | None \<Rightarrow> first_route m a b ok rs)"

definition selectRoute :: "manager \<Rightarrow> string \<Rightarrow> string \<Rightarrow> string \<Rightarrow> vec3 \<Rightarrow> (switch_route \<times> entry_point \<times> entry_point) option" where
  "selectRoute m fromWorld toWorld requestedFromEntry pos =
     (let rs = (case map_of (Routes m) (routeKey fromWorld toWorld) of None \<Rightarrow> [] | Some rs \<Rightarrow> rs);
          pick = first_route m fromWorld toWorld
      in if requestedFromEntry \<noteq> [] then pick (\<lambda>r _. FromEntryID r = requestedFromEntry) rs
         else case pick (\<lambda>_ src. withinEntry pos src) rs of
                Some x \<Rightarrow> Some x
              | None \<Rightarrow> pick (\<lambda>_ _. True) rs)"

record switch_net =
  AskPos :: exchange
  AskOut :: exchange
  AskIn :: exchange
  AskBack :: exchange
  Tell :: exchange

text \<open>A refusal is counted and reported to the agent in its own world; the error is that of the report.\<close>

definition refuse_switch ::
  "exchange \<Rightarrow> string \<Rightarrow> mw_session \<Rightarrow> string \<Rightarrow> string \<Rightarrow> bool \<Rightarrow> string \<Rightarrow> string \<Rightarrow> manager \<Rightarrow> string option \<times> mw_session \<times> manager" where
  "refuse_switch x ref s target result ok code msg m =
     (case injectActionResult x (SCurrentWorld s) (SAgentID s) (actionResult 0 ref ok code msg)
             (recordSwitch (SCurrentWorld s) target result m) of
        (err, m) \<Rightarrow> (err, s, m))"

definition switch_cooldown :: "world_spec \<Rightarrow> u64" where
  "switch_cooldown spec = word_of_int (max 0 (SpecCooldown spec))"

definition redirected :: "string \<Rightarrow> string \<Rightarrow> entry_point \<Rightarrow> entry_point \<Rightarrow> u64 \<Rightarrow> agent_transfer \<Rightarrow> agent_transfer" where
  "redirected srcID target srcEntry dstEntry cooldown t =
     t\<lparr>XPos := \<lparr>vx = EpX dstEntry, vy = 0, vz = EpZ dstEntry\<rparr>, FromWorldID := srcID, XCurrentWorldID := target,
       FromEntryPointID := EpID srcEntry, ToEntryPointID := EpID dstEntry, XSwitchCooldownUntil := cooldown\<rparr>"

text \<open>The agent has left its world: it is sent to the other one, or back when that fails.\<close>

definition send_over ::
  "switch_net \<Rightarrow> string \<Rightarrow> mw_session \<Rightarrow> string \<Rightarrow> entry_point \<Rightarrow> entry_point \<Rightarrow> world_spec \<Rightarrow> agent_transfer \<Rightarrow> manager \<Rightarrow>
     string option \<times> mw_session \<times> manager" where
  "send_over net ref s target srcEntry dstEntry spec transfer m =
     (let srcID = SCurrentWorld s;
          nowDst = world_tick target m
      in if XSwitchCooldownUntil transfer \<noteq> 0 \<and> nowDst < XSwitchCooldownUntil transfer then
           refuse_switch (Tell net) ref s target ''cooldown'' False ''E_WORLD_COOLDOWN'' ''switch cooldown active''
             (snd (request (AskBack net) srcID (ask_in transfer) m))
         else
           let m = mergeOrgMetaFromTransfer (XOrg transfer) m;
               transfer = attachOrgMetaToTransfer m transfer;
               transfer = redirected srcID target srcEntry dstEntry (nowDst + switch_cooldown spec) transfer
           in case request (AskIn net) target (ask_in transfer) m of
                (Inl e, m) \<Rightarrow>
                  refuse_switch (Tell net) ref s target ''target_busy'' False ''E_WORLD_BUSY'' (''switch failed: '' @ e)
                    (snd (request (AskBack net) srcID (ask_in transfer) m))
              | (Inr _, m) \<Rightarrow>
                  let m = recordSwitch srcID target ''ok'' (updateResidency (SAgentID s) target [] m)
                  in (None, s\<lparr>SCurrentWorld := target\<rparr>,
                      snd (injectActionResult (Tell net) target (SAgentID s)
                        [(''type'', JStr ''ACTION_RESULT''), (''ref'', JStr ref), (''ok'', JBool True), (''world_id'', JStr target),
                         (''from'', JStr srcID), (''from_entry_id'', JStr (EpID srcEntry)), (''to_entry_id'', JStr (EpID dstEntry))] m)))"

definition switchWorld :: "switch_net \<Rightarrow> mw_session \<Rightarrow> string \<Rightarrow> string \<Rightarrow> string \<Rightarrow> manager \<Rightarrow> string option \<times> mw_session \<times> manager" where
  "switchWorld net s target entryPointID ref m =
     (let srcID = SCurrentWorld s;
          refuse = refuse_switch (Tell net) ref s target
      in if stringsTrim target = [] then refuse ''invalid_target'' False ''E_WORLD_NOT_FOUND'' ''missing target world'' m
         else if srcID = target then refuse ''noop'' True [] ''already in target world'' m
         else case (map_of (Runtimes m) srcID, map_of (Runtimes m) target) of
                (Some src, Some dst) \<Rightarrow>
                  (case request (AskPos net) srcID (ask_pos (SAgentID s)) m of
                     (Inl e, m) \<Rightarrow> refuse ''source_busy'' False ''E_WORLD_BUSY'' e m
                   | (Inr pos, m) \<Rightarrow>
                       (case selectRoute m srcID target entryPointID pos of
                          None \<Rightarrow> refuse ''denied'' False ''E_WORLD_DENIED'' ''entry point required'' m
                        | Some (route, srcEntry, dstEntry) \<Rightarrow>
                            if RouteRequiresPermit route \<or> SpecRequiresPermit (RtSpec dst) then
                              refuse ''denied'' False ''E_WORLD_DENIED'' ''permit required'' m
                            else if \<not> withinEntry pos srcEntry then
                              refuse ''denied'' False ''E_WORLD_DENIED'' ''entry point required'' m
                            else case request (AskOut net) srcID (handleTransferOut (SAgentID s)) m of
                                   (Inl e, m) \<Rightarrow> refuse ''source_busy'' False ''E_WORLD_BUSY'' e m
                                 | (Inr transfer, m) \<Rightarrow> send_over net ref s target srcEntry dstEntry (RtSpec dst) transfer m))
              | _ \<Rightarrow> refuse ''world_not_found'' False ''E_WORLD_NOT_FOUND'' ''target world not found'' m)"

text \<open>The same by an administrator, from wherever the agent is known to be and without entry points.\<close>

definition MoveAgentWorld :: "switch_net \<Rightarrow> string \<Rightarrow> string \<Rightarrow> manager \<Rightarrow> string option \<times> manager" where
  "MoveAgentWorld net aid target m =
     (if stringsTrim aid = [] \<or> stringsTrim target = [] then (Some ''missing agent_id/target_world_id'', m)
      else
        let srcID = (case map_of (AgentToWorld m) aid of None \<Rightarrow> [] | Some wid \<Rightarrow> wid)
        in if srcID = [] then (Some ''agent not found in residency map'', m)
           else if srcID = target then (None, recordSwitch srcID target ''admin_noop'' m)
           else case (map_of (Runtimes m) srcID, map_of (Runtimes m) target) of
                  (Some src, Some dst) \<Rightarrow>
                    (case request (AskOut net) srcID (handleTransferOut aid) m of
                       (Inl e, m) \<Rightarrow> (Some e, recordSwitch srcID target ''admin_source_busy'' m)
                     | (Inr transfer, m) \<Rightarrow>
                         let m = mergeOrgMetaFromTransfer (XOrg transfer) m;
                             transfer = attachOrgMetaToTransfer m transfer;
                             transfer = transfer\<lparr>FromWorldID := srcID, XCurrentWorldID := target,
                               XSwitchCooldownUntil := world_tick target m + switch_cooldown (RtSpec dst)\<rparr>
                         in case request (AskIn net) target (ask_in transfer) m of
                              (Inl e, m) \<Rightarrow>
                                (Some e, recordSwitch srcID target ''admin_target_busy''
                                   (snd (request (AskBack net) srcID (ask_in transfer) m)))
                            | (Inr _, m) \<Rightarrow> (None, recordSwitch srcID target ''admin_ok'' (updateResidency aid target [] m)))
                | _ \<Rightarrow> (Some ''source or target world not found'', recordSwitch srcID target ''admin_world_not_found'' m))"

section \<open>Routing actions\<close>

definition hasOrgMutation :: "instant list \<Rightarrow> bool" where
  "hasOrgMutation insts \<longleftrightarrow>
     list_ex (\<lambda>inst. InstType inst = ''CREATE_ORG'' \<or> InstType inst = ''JOIN_ORG'' \<or> InstType inst = ''LEAVE_ORG'') insts"

text \<open>The last of several world switches in one message decides; its identifier, target and entry point.\<close>

definition switch_request :: "instant list \<Rightarrow> string \<times> string \<times> string" where
  "switch_request insts =
     fold (\<lambda>inst acc. if InstType inst = ''SWITCH_WORLD'' then (InstID inst, InstTargetWorldID inst, InstEntryPointID inst) else acc)
       insts ([], [], [])"

record act_net =
  SwitchNet :: switch_net
  Deliver :: exchange
  ActEnv :: go_env

definition RouteAct :: "act_net \<Rightarrow> mw_session \<Rightarrow> act_msg \<Rightarrow> manager \<Rightarrow> string option \<times> mw_session \<times> manager" where
  "RouteAct net s act m =
     (let tell = (\<lambda>code msg m. case injectActionResult (Tell (SwitchNet net)) (SCurrentWorld s) (SAgentID s)
                    (actionResult 0 ''ACT'' False code msg) m of (err, m) \<Rightarrow> (err, s, m))
      in if ExpectedWorldID act \<noteq> [] \<and> ExpectedWorldID act \<noteq> SCurrentWorld s then
           tell ''E_WORLD_BUSY'' ''expected_world_id mismatch'' m
         else
           (case switch_request (ActInstants act) of
              (ref, target, entry) \<Rightarrow>
                if target \<noteq> [] then switchWorld (SwitchNet net) s target entry ref m
                else
                  let rest = filter (\<lambda>inst. InstType inst \<noteq> ''SWITCH_WORLD'') (ActInstants act);
                      act = act\<lparr>ActInstants := rest\<rparr>
                  in if map_of (Runtimes m) (SCurrentWorld s) = None then (Some ''world not found'', s, m)
                     else case request (Deliver net) (SCurrentWorld s)
                                 (\<lambda>w. Inr ((), take_action (ActEnv net) (worldTick w) (SAgentID s, act) w)) m of
                            (Inl _, m) \<Rightarrow> tell ''E_WORLD_BUSY'' ''world inbox busy'' m
                          | (Inr _, m) \<Rightarrow> (None, s, if hasOrgMutation rest then m\<lparr>RefreshDue := True\<rparr> else m)))"

section \<open>Refreshing the organizations of all worlds\<close>

definition mergeOrgMetaSameVersion :: "org_meta \<Rightarrow> org_meta \<Rightarrow> org_meta" where
  "mergeOrgMetaSameVersion a b =
     (if stringsTrim (MetaOrgID a) = [] then b
      else if stringsTrim (MetaOrgID b) = [] then a
      else
        let out = (if stringsTrim (MetaName a) = [] \<and> stringsTrim (MetaName b) \<noteq> [] then a\<lparr>MetaName := MetaName b\<rparr> else a);
            out = (if MetaCreatedTick out = 0 \<or> (MetaCreatedTick b \<noteq> 0 \<and> MetaCreatedTick b < MetaCreatedTick out)
                   then out\<lparr>MetaCreatedTick := MetaCreatedTick b\<rparr> else out)
        in out\<lparr>MetaMembers := add_members (trim_members (MetaMembers b)) (MetaMembers out)\<rparr>)"

definition orgMetaEqual :: "org_meta \<Rightarrow> org_meta \<Rightarrow> bool" where
  "orgMetaEqual a b \<longleftrightarrow>
     \<not> (MetaOrgID a \<noteq> MetaOrgID b \<or> MetaKind a \<noteq> MetaKind b \<or> MetaName a \<noteq> MetaName b \<or> MetaCreatedTick a \<noteq> MetaCreatedTick b) \<and>
     length (MetaMembers a) = length (MetaMembers b) \<and>
     list_all (\<lambda>(aid, role). map_of (MetaMembers b) aid = Some role) (MetaMembers a)"

definition collect_org :: "org_meta \<Rightarrow> org_meta gomap \<Rightarrow> org_meta gomap" where
  "collect_org ob merged =
     (if stringsTrim (MetaOrgID ob) = [] then merged
      else
        let c = candidate ob
        in case map_of merged (MetaOrgID ob) of
             None \<Rightarrow> mput (MetaOrgID ob) c merged
           | Some meta \<Rightarrow>
               if stringsTrim (MetaOrgID meta) = [] \<or> MetaRev c > MetaRev meta then mput (MetaOrgID ob) c merged
               else if MetaRev c = MetaRev meta then mput (MetaOrgID ob) (mergeOrgMetaSameVersion meta c) merged
               else merged)"

definition snapshotOrgTransfers :: "manager \<Rightarrow> org_meta list" where
  "snapshotOrgTransfers m = map (\<lambda>k. candidate (the (map_of (GlobalOrgMeta m) k))) (sorted_keys (GlobalOrgMeta m))"

definition ask_metas :: "world \<Rightarrow> string + org_meta list \<times> world" where
  "ask_metas w = Inr (transfer_metas (handleOrgMetaReq w), w)"

definition ask_upsert :: "org_meta list \<Rightarrow> world \<Rightarrow> string + unit \<times> world" where
  "ask_upsert ms w = Inr ((), handleOrgMetaUpsertReq (transfer_metas ms) w)"

fun collect_worlds :: "(string \<Rightarrow> exchange) \<Rightarrow> string list \<Rightarrow> org_meta gomap \<Rightarrow> string option \<Rightarrow> manager \<Rightarrow>
    org_meta gomap \<times> string option \<times> manager" where
  "collect_worlds xs [] merged err m = (merged, err, m)"
| "collect_worlds xs (wid # wids) merged err m =
     (if map_of (Runtimes m) wid = None then collect_worlds xs wids merged err m
      else case request (xs wid) wid ask_metas m of
             (Inl e, m) \<Rightarrow> collect_worlds xs wids merged (if err = None then Some e else err) m
           | (Inr ms, m) \<Rightarrow> collect_worlds xs wids (fold collect_org ms merged) err m)"

fun push_worlds :: "(string \<Rightarrow> exchange) \<Rightarrow> org_meta list \<Rightarrow> string list \<Rightarrow> string option \<Rightarrow> manager \<Rightarrow> string option \<times> manager" where
  "push_worlds xs ms [] err m = (err, m)"
| "push_worlds xs ms (wid # wids) err m =
     (if map_of (Runtimes m) wid = None then push_worlds xs ms wids err m
      else case request (xs wid) wid (ask_upsert ms) m of
             (Inl e, m) \<Rightarrow> push_worlds xs ms wids (if err = None then Some e else err) m
           | (Inr _, m) \<Rightarrow> push_worlds xs ms wids err m)"

text \<open>Only organizations that look different replace what the manager knows; those no world reported are dropped.\<close>

definition store_merged :: "org_meta gomap \<Rightarrow> org_meta gomap \<Rightarrow> org_meta gomap" where
  "store_merged merged global =
     filter (\<lambda>(k, _). map_of merged k \<noteq> None)
       (fold (\<lambda>(k, meta) g. if (case map_of g k of None \<Rightarrow> False | Some old \<Rightarrow> orgMetaEqual old meta) then g
                            else mput k meta g) merged global)"

definition RefreshOrgMeta :: "(string \<Rightarrow> exchange) \<Rightarrow> (string \<Rightarrow> exchange) \<Rightarrow> manager \<Rightarrow> string option \<times> manager" where
  "RefreshOrgMeta xs ys m =
     (let wids = WorldIDs m
      in case collect_worlds xs wids [] None m of
           (merged, err, m) \<Rightarrow>
             let m = m\<lparr>GlobalOrgMeta := store_merged merged (GlobalOrgMeta m)\<rparr>
             in push_worlds ys (snapshotOrgTransfers m) wids err m)"

section \<open>The persisted state\<close>

record switch_metric =
  MFrom :: string
  MTo :: string
  MResult :: string
  MCount :: u64

record persisted_state =
  PAgentToWorld :: "string gomap"
  PResumeToWorld :: "string gomap"
  POrgMeta :: "org_meta gomap"
  PSwitchMetrics :: "switch_metric list"
  PSwitchTotals :: "switch_metric list"

definition sort_metrics :: "switch_metric list \<Rightarrow> switch_metric list" where
  "sort_metrics ms = sort_key MFrom (sort_key MTo (sort_key MResult ms))"

definition SwitchMetrics :: "manager \<Rightarrow> switch_metric list" where
  "SwitchMetrics m =
     sort_metrics (map (\<lambda>((a, b, r), n). \<lparr>MFrom = a, MTo = b, MResult = r, MCount = n\<rparr>) (SwitchTotals m))"

definition snapshotState :: "manager \<Rightarrow> persisted_state" where
  "snapshotState m =
     \<lparr>PAgentToWorld = filter (\<lambda>(k, v). k \<noteq> [] \<and> v \<noteq> []) (AgentToWorld m),
      PResumeToWorld = filter (\<lambda>(k, v). k \<noteq> [] \<and> v \<noteq> []) (ResumeToWorld m),
      POrgMeta = map (\<lambda>k. (k, candidate (the (map_of (GlobalOrgMeta m) k)))) (sorted_keys (GlobalOrgMeta m)),
      PSwitchMetrics = sort_metrics (map (\<lambda>((a, b, r), n). \<lparr>MFrom = a, MTo = b, MResult = r, MCount = n\<rparr>)
        (filter (\<lambda>(_, n). n \<noteq> 0) (SwitchTotals m))),
      PSwitchTotals = []\<rparr>"

definition load_pairs :: "string gomap \<Rightarrow> string gomap \<Rightarrow> string gomap" where
  "load_pairs ps m = fold (\<lambda>(k, v) m. if stringsTrim k = [] \<or> stringsTrim v = [] then m else mput k v m) ps m"

definition load_orgs :: "org_meta gomap \<Rightarrow> org_meta gomap \<Rightarrow> org_meta gomap" where
  "load_orgs ps m =
     fold (\<lambda>(k, ob) m. if stringsTrim k = [] then m else mput k ((candidate ob)\<lparr>MetaOrgID := k\<rparr>) m) ps m"

definition load_metrics :: "switch_metric list \<Rightarrow> ((string \<times> string \<times> string) \<times> u64) list \<Rightarrow> ((string \<times> string \<times> string) \<times> u64) list" where
  "load_metrics ps m =
     fold (\<lambda>s m. if stringsTrim (MFrom s) = [] \<or> stringsTrim (MTo s) = [] \<or> stringsTrim (MResult s) = [] \<or> MCount s = 0 then m
                 else mput (MFrom s, MTo s, MResult s) (MCount s) m) ps m"

text \<open>Reading a state file of the current format into a manager.\<close>

definition load_state :: "persisted_state \<Rightarrow> manager \<Rightarrow> manager" where
  "load_state st m =
     m\<lparr>AgentToWorld := load_pairs (PAgentToWorld st) (AgentToWorld m),
       ResumeToWorld := load_pairs (PResumeToWorld st) (ResumeToWorld m),
       GlobalOrgMeta := load_orgs (POrgMeta st) (GlobalOrgMeta m),
       SwitchTotals := load_metrics (PSwitchMetrics st @ PSwitchTotals st) (SwitchTotals m)\<rparr>"

end
