(* ===== verification/Multiworld_Switch.thy ===== *)
theory Multiworld_Switch
  imports Multiworld_Manager
begin

text \<open>
  What switching promises: an agent is in one world at a time as long as every request is answered in time, whatever
  the worlds do in between that neither moves nor removes agents; and what happens when one is not answered.
\<close>

section \<open>Who is where\<close>

definition lives :: "world \<Rightarrow> string \<Rightarrow> bool" where
  "lives w aid \<longleftrightarrow> map_of (agents w) aid \<noteq> None"

definition present :: "manager \<Rightarrow> string \<Rightarrow> string \<Rightarrow> bool" where
  "present m wid aid \<longleftrightarrow> (\<exists>rt. map_of (Runtimes m) wid = Some rt \<and> lives (RtWorld rt) aid)"

definition worlds_ok :: "manager \<Rightarrow> bool" where
  "worlds_ok m \<longleftrightarrow> (\<forall>wid rt. map_of (Runtimes m) wid = Some rt \<longrightarrow> registered (RtWorld rt))"

text \<open>Between two requests the worlds tick, but nobody is moved, added or removed.\<close>

definition undisturbed :: "exchange \<Rightarrow> bool" where
  "undisturbed x \<longleftrightarrow> (\<forall>wid w. registered w \<longrightarrow> registered (Meanwhile x wid w) \<and>
     (\<forall>aid. lives (Meanwhile x wid w) aid = lives w aid))"

definition same_crowd :: "manager \<Rightarrow> manager \<Rightarrow> bool" where
  "same_crowd m m' \<longleftrightarrow> worlds_ok m' \<and> (\<forall>wid aid. present m' wid aid = present m wid aid) \<and>
     (\<forall>wid. map_option RtSpec (map_of (Runtimes m') wid) = map_option RtSpec (map_of (Runtimes m) wid))"

lemma same_crowd_trans: "same_crowd a b \<Longrightarrow> same_crowd b c \<Longrightarrow> same_crowd a c"
  by (simp add: same_crowd_def)

lemma same_crowd_runtimes: "worlds_ok m \<Longrightarrow> Runtimes m' = Runtimes m \<Longrightarrow> same_crowd m m'"
  by (simp add: same_crowd_def worlds_ok_def present_def)

lemma map_of_pass_time:
  "map_of (Runtimes (pass_time f m)) wid = map_option (\<lambda>rt. rt\<lparr>RtWorld := f wid (RtWorld rt)\<rparr>) (map_of (Runtimes m) wid)"
  unfolding pass_time_def by (simp add: map_of_pairwise)

lemma pass_time_fields [simp]:
  "AgentToWorld (pass_time f m) = AgentToWorld m" "GlobalOrgMeta (pass_time f m) = GlobalOrgMeta m"
  "Entries (pass_time f m) = Entries m" "Routes (pass_time f m) = Routes m" "fst ` set (Runtimes (pass_time f m)) = fst ` set (Runtimes m)"
  by (auto simp: pass_time_def image_image split_beta)

lemma same_crowd_pass: 
  assumes "undisturbed x" "worlds_ok m" shows "same_crowd m (pass_time (Meanwhile x) m)"
proof -
  have r: "registered (RtWorld rt)" if "map_of (Runtimes m) wid = Some rt" for wid rt
    using assms(2) that by (simp add: worlds_ok_def)
  have c: "registered (Meanwhile x wid (RtWorld rt))"
    "lives (Meanwhile x wid (RtWorld rt)) aid = lives (RtWorld rt) aid"
    if "map_of (Runtimes m) wid = Some rt" for wid rt aid
    using assms(1) r[OF that] by (auto simp: undisturbed_def)
  show ?thesis
    unfolding same_crowd_def worlds_ok_def present_def map_of_pass_time
    using c by (auto simp: option.map_comp comp_def)
qed

lemma map_of_set_world:
  "map_of (Runtimes m) wid = Some rt \<Longrightarrow>
     map_of (Runtimes (set_world wid w m)) k = (if k = wid then Some (rt\<lparr>RtWorld := w\<rparr>) else map_of (Runtimes m) k)"
  by (simp add: set_world_def map_of_mput)

lemma set_world_people:
  assumes "map_of (Runtimes m) wid = Some rt" "worlds_ok m" "registered w"
  shows "worlds_ok (set_world wid w m) \<and>
    (\<forall>k aid. present (set_world wid w m) k aid = (if k = wid then lives w aid else present m k aid)) \<and>
    (\<forall>k. map_option RtSpec (map_of (Runtimes (set_world wid w m)) k) = map_option RtSpec (map_of (Runtimes m) k))"
  using assms(2,3) assms(1) unfolding worlds_ok_def present_def map_of_set_world[OF assms(1)] by auto

text \<open>The result of a request: what the world made of it, if it was handled at all.\<close>

lemma request_cases:
  assumes "undisturbed x" "worlds_ok m" "map_of (Runtimes m) wid \<noteq> None" "request x wid h m = (r, m')"
  obtains rt m1 where "same_crowd m m1" "map_of (Runtimes m1) wid = Some rt" "registered (RtWorld rt)"
    "m1 = pass_time (Meanwhile x) m"
    "(\<exists>e. Fate x = Unsent \<and> r = Inl e \<and> m' = m1) \<or>
     (\<exists>e e'. Fate x \<noteq> Unsent \<and> h (RtWorld rt) = Inl e \<and> r = Inl e' \<and> m' = m1) \<or>
     (\<exists>v w. Fate x \<noteq> Unsent \<and> h (RtWorld rt) = Inr (v, w) \<and> m' = set_world wid w m1 \<and> (Fate x = Answered \<longrightarrow> r = Inr v) \<and>
        (Fate x = Unanswered \<longrightarrow> (\<exists>e. r = Inl e)))"
proof -
  let ?m1 = "pass_time (Meanwhile x) m"
  have s: "same_crowd m ?m1" by (rule same_crowd_pass[OF assms(1,2)])
  obtain rt where rt: "map_of (Runtimes ?m1) wid = Some rt" using assms(3) by (auto simp: map_of_pass_time)
  have reg: "registered (RtWorld rt)" using s rt by (auto simp: same_crowd_def worlds_ok_def)
  show thesis
  proof (rule that[OF s rt reg refl])
    show "(\<exists>e. Fate x = Unsent \<and> r = Inl e \<and> m' = ?m1) \<or>
     (\<exists>e e'. Fate x \<noteq> Unsent \<and> h (RtWorld rt) = Inl e \<and> r = Inl e' \<and> m' = ?m1) \<or>
     (\<exists>v w. Fate x \<noteq> Unsent \<and> h (RtWorld rt) = Inr (v, w) \<and> m' = set_world wid w ?m1 \<and> (Fate x = Answered \<longrightarrow> r = Inr v) \<and>
        (Fate x = Unanswered \<longrightarrow> (\<exists>e. r = Inl e)))"
      using assms(4) rt by (cases "Fate x"; cases "h (RtWorld rt)") (auto simp: request_def)
  qed
qed

text \<open>A question, or an event for somebody, moves nobody.\<close>

definition harmless :: "(world \<Rightarrow> string + 'r \<times> world) \<Rightarrow> bool" where
  "harmless h \<longleftrightarrow> (\<forall>w r w'. registered w \<longrightarrow> h w = Inr (r, w') \<longrightarrow> registered w' \<and>
     (\<forall>aid. lives w' aid = lives w aid))"

lemma request_harmless:
  assumes "undisturbed x" "worlds_ok m" "map_of (Runtimes m) wid \<noteq> None" "harmless h" "request x wid h m = (r, m')"
  shows "same_crowd m m'"
proof (rule request_cases[OF assms(1-3,5)])
  fix rt m1
  assume s: "same_crowd m m1" and rt: "map_of (Runtimes m1) wid = Some rt" "registered (RtWorld rt)"
    and c: "(\<exists>e. Fate x = Unsent \<and> r = Inl e \<and> m' = m1) \<or>
     (\<exists>e e'. Fate x \<noteq> Unsent \<and> h (RtWorld rt) = Inl e \<and> r = Inl e' \<and> m' = m1) \<or>
     (\<exists>v w. Fate x \<noteq> Unsent \<and> h (RtWorld rt) = Inr (v, w) \<and> m' = set_world wid w m1 \<and> (Fate x = Answered \<longrightarrow> r = Inr v) \<and>
        (Fate x = Unanswered \<longrightarrow> (\<exists>e. r = Inl e)))"
  have "same_crowd m1 (set_world wid w m1)" if "h (RtWorld rt) = Inr (v, w)" for v w
  proof -
    have w: "registered w" "\<And>aid. lives w aid = lives (RtWorld rt) aid"
      using assms(4) rt(2) that by (auto simp: harmless_def)
    have "worlds_ok m1" using s by (simp add: same_crowd_def)
    from set_world_people[OF rt(1) this w(1)] show ?thesis
      using rt(1) w(2) by (auto simp: same_crowd_def present_def)
  qed
  with c s show ?thesis using same_crowd_trans by blast
qed

lemma harmless_pos: "harmless (ask_pos aid)"
  by (auto simp: harmless_def ask_pos_def split: sum.splits)

lemma harmless_inject: "harmless (ask_inject aid ev)"
  unfolding harmless_def
proof (intro allI impI)
  fix w r w' assume "registered w" "ask_inject aid ev w = Inr (r, w')"
  then have "w' = snd (inject_event (aid, Some ev) w)" by (auto simp: ask_inject_def split: prod.splits option.splits)
  then have "roll w' = roll w" by simp
  from roll_registered[OF this \<open>registered w\<close>] roll_present[OF this]
  show "registered w' \<and> (\<forall>aid. lives w' aid = lives w aid)" by (simp add: lives_def)
qed

section \<open>Leaving and arriving\<close>

text \<open>The manager \<open>m'\<close> has the worlds of \<open>m\<close>, and \<open>P\<close> says who is where.\<close>

definition crowd :: "manager \<Rightarrow> (string \<Rightarrow> string \<Rightarrow> bool) \<Rightarrow> manager \<Rightarrow> bool" where
  "crowd m P m' \<longleftrightarrow> worlds_ok m' \<and> (\<forall>wid aid. present m' wid aid = P wid aid) \<and>
     (\<forall>wid. map_option RtSpec (map_of (Runtimes m') wid) = map_option RtSpec (map_of (Runtimes m) wid))"

lemma crowd_same: "same_crowd m m' \<longleftrightarrow> crowd m (present m) m'"
  by (simp add: same_crowd_def crowd_def)

lemma crowd_then: "crowd a P b \<Longrightarrow> same_crowd b c \<Longrightarrow> crowd a P c"
  by (simp add: same_crowd_def crowd_def)

lemma crowd_runtime: "crowd m P m' \<Longrightarrow> map_of (Runtimes m) wid \<noteq> None \<Longrightarrow> map_of (Runtimes m') wid \<noteq> None"
  unfolding crowd_def by (metis option.map_disc_iff)

lemma request_out:
  assumes "undisturbed x" "worlds_ok m" "map_of (Runtimes m) wid \<noteq> None" "Fate x = Answered"
    and "request x wid (handleTransferOut aid) m = (r, m')"
  shows "case r of Inl _ \<Rightarrow> same_crowd m m'
    | Inr t \<Rightarrow> XID t = aid \<and> present m wid aid \<and> crowd m (\<lambda>k b. present m k b \<and> \<not> (k = wid \<and> b = aid)) m'"
proof (rule request_cases[OF assms(1-3,5)])
  fix rt m1
  assume s: "same_crowd m m1" and rt: "map_of (Runtimes m1) wid = Some rt" "registered (RtWorld rt)"
    and c: "(\<exists>e. Fate x = Unsent \<and> r = Inl e \<and> m' = m1) \<or>
     (\<exists>e e'. Fate x \<noteq> Unsent \<and> handleTransferOut aid (RtWorld rt) = Inl e \<and> r = Inl e' \<and> m' = m1) \<or>
     (\<exists>v w. Fate x \<noteq> Unsent \<and> handleTransferOut aid (RtWorld rt) = Inr (v, w) \<and> m' = set_world wid w m1 \<and>
        (Fate x = Answered \<longrightarrow> r = Inr v) \<and> (Fate x = Unanswered \<longrightarrow> (\<exists>e. r = Inl e)))"
  have "case r of Inl _ \<Rightarrow> same_crowd m m'
    | Inr t \<Rightarrow> XID t = aid \<and> present m wid aid \<and> crowd m (\<lambda>k b. present m k b \<and> \<not> (k = wid \<and> b = aid)) m'"
    if h: "handleTransferOut aid (RtWorld rt) = Inr (t, w)" "m' = set_world wid w m1" "r = Inr t" for t w
  proof -
    from handleTransferOut_AID[OF h(1) rt(2)] have t: "XID t = aid" "agents w = mdel aid (agents (RtWorld rt))" by simp_all
    have l: "lives w b \<longleftrightarrow> lives (RtWorld rt) b \<and> b \<noteq> aid" for b by (simp add: lives_def t(2) map_of_mdel)
    have w: "registered w" using rt(2) by (simp add: registered_def t(2) map_of_mdel)
    have "lives (RtWorld rt) aid" using h(1) by (auto simp: lives_def handleTransferOut_def split: option.splits)
    moreover have ok: "worlds_ok m1" using s by (simp add: same_crowd_def)
    moreover have "present m1 wid b = lives (RtWorld rt) b" for b using rt(1) by (simp add: present_def)
    ultimately show ?thesis
      using set_world_people[OF rt(1) ok w] s h(2,3) t(1) l by (auto simp: crowd_def same_crowd_def)
  qed
  with c s assms(4) show ?thesis by auto
qed

lemma ask_in_spec:
  assumes "ask_in t w = Inr (u, w')" "registered w"
  shows "registered w' \<and> \<not> lives w (XID t) \<and> (\<forall>b. lives w' b \<longleftrightarrow> lives w b \<or> b = XID t)"
proof -
  have "handleTransferIn t w = Inr w'" using assms(1) by (auto simp: ask_in_def split: sum.splits)
  from handleTransferIn_AID[OF this] assms(2) show ?thesis by (auto simp: lives_def registered_def map_of_mput split: if_splits)
qed

lemma ask_in_fails: "ask_in t w = Inl e \<Longrightarrow> XID t = [] \<or> lives w (XID t)"
  by (auto simp: ask_in_def handleTransferIn_def lives_def Let_def split: sum.splits if_splits)

text \<open>Handled in time, or too late: the agent is there, unless the world already has one of that name.\<close>

lemma request_in:
  assumes "undisturbed x" "worlds_ok m" "map_of (Runtimes m) wid \<noteq> None" "XID t \<noteq> []"
    and "request x wid (ask_in t) m = (r, m')"
  shows "(if Fate x = Unsent \<or> present m wid (XID t) then same_crowd m m'
          else crowd m (\<lambda>k b. present m k b \<or> k = wid \<and> b = XID t) m') \<and>
    ((\<exists>u. r = Inr u) \<longleftrightarrow> Fate x = Answered \<and> \<not> present m wid (XID t))"
proof (rule request_cases[OF assms(1-3,5)])
  fix rt m1
  assume s: "same_crowd m m1" and rt: "map_of (Runtimes m1) wid = Some rt" "registered (RtWorld rt)"
    and c: "(\<exists>e. Fate x = Unsent \<and> r = Inl e \<and> m' = m1) \<or>
     (\<exists>e e'. Fate x \<noteq> Unsent \<and> ask_in t (RtWorld rt) = Inl e \<and> r = Inl e' \<and> m' = m1) \<or>
     (\<exists>v w. Fate x \<noteq> Unsent \<and> ask_in t (RtWorld rt) = Inr (v, w) \<and> m' = set_world wid w m1 \<and>
        (Fate x = Answered \<longrightarrow> r = Inr v) \<and> (Fate x = Unanswered \<longrightarrow> (\<exists>e. r = Inl e)))"
  have here: "present m wid b = lives (RtWorld rt) b" for b
    using s rt(1) by (metis same_crowd_def present_def option.inject)
  have in_: "crowd m (\<lambda>k b. present m k b \<or> k = wid \<and> b = XID t) m' \<and> \<not> present m wid (XID t)"
    if h: "ask_in t (RtWorld rt) = Inr (u, w)" "m' = set_world wid w m1" for u w
  proof -
    note a = ask_in_spec[OF h(1) rt(2)]
    have ok: "worlds_ok m1" using s by (simp add: same_crowd_def)
    from a set_world_people[OF rt(1) ok] have "worlds_ok m' \<and>
      (\<forall>k b. present m' k b = (if k = wid then lives w b else present m1 k b)) \<and>
      (\<forall>k. map_option RtSpec (map_of (Runtimes m') k) = map_option RtSpec (map_of (Runtimes m1) k))" by (simp add: h(2))
    then show ?thesis using s a here by (auto simp: crowd_def same_crowd_def)
  qed
  from c show ?thesis
  proof (elim disjE exE conjE)
    fix e assume "Fate x = Unsent" "r = Inl e" "m' = m1"
    with s show ?thesis by simp
  next
    fix e e' assume f: "Fate x \<noteq> Unsent" "ask_in t (RtWorld rt) = Inl e" "r = Inl e'" "m' = m1"
    from ask_in_fails[OF f(2)] assms(4) have "present m wid (XID t)" by (simp add: here)
    with f s show ?thesis by simp
  next
    fix u w assume f: "Fate x \<noteq> Unsent" "ask_in t (RtWorld rt) = Inr (u, w)" "m' = set_world wid w m1"
      "Fate x = Answered \<longrightarrow> r = Inr u" "Fate x = Unanswered \<longrightarrow> (\<exists>e. r = Inl e)"
    from in_[OF f(2,3)] f(1,4,5) show ?thesis by (cases "Fate x") auto
  qed
qed

section \<open>One agent, one world\<close>

lemma inject_same:
  assumes "undisturbed x" "worlds_ok m" "injectActionResult x wid aid ev m = (err, m')"
  shows "same_crowd m m'"
proof (cases "map_of (Runtimes m) wid = None")
  case True
  with assms show ?thesis by (auto simp: injectActionResult_def intro: same_crowd_runtimes)
next
  case False
  let ?ev = "if map_of ev ''t'' = None then ev @ [(''t'', JU64 (world_tick wid m))] else ev"
  obtain r m1 where q: "request x wid (ask_inject aid ?ev) m = (r, m1)" by fastforce
  then have "m' = m1" using assms(3) False by (auto simp: injectActionResult_def Let_def split: sum.splits)
  with request_harmless[OF assms(1,2) False harmless_inject q] show ?thesis by simp
qed

lemma count_runtimes [simp]:
  "Runtimes (recordSwitch a b r m) = Runtimes m" "Runtimes (updateResidency aid wid tok m) = Runtimes m"
  "Runtimes (mergeOrgMetaFromTransfer ob m) = Runtimes m"
  "AgentToWorld (recordSwitch a b r m) = AgentToWorld m" "AgentToWorld (mergeOrgMetaFromTransfer ob m) = AgentToWorld m"
  by (auto simp: recordSwitch_def updateResidency_def mergeOrgMetaFromTransfer_def Let_def split: option.split)

lemma refuse_same:
  assumes "undisturbed x" "worlds_ok m" "refuse_switch x ref s target result ok code msg m = (err, s', m')"
  shows "s' = s \<and> same_crowd m m'"
proof -
  let ?m = "recordSwitch (SCurrentWorld s) target result m"
  obtain e m1 where i: "injectActionResult x (SCurrentWorld s) (SAgentID s) (actionResult 0 ref ok code msg) ?m = (e, m1)"
    by fastforce
  have "same_crowd m ?m" using assms(2) by (intro same_crowd_runtimes) simp_all
  moreover from this have "worlds_ok ?m" by (simp add: same_crowd_def)
  from inject_same[OF assms(1) this i] have "same_crowd ?m m1" .
  ultimately show ?thesis using assms(3) i same_crowd_trans by (auto simp: refuse_switch_def)
qed

lemma transfer_kept [simp]:
  "XID (attachOrgMetaToTransfer m t) = XID t" "XID (redirected a b c d e t) = XID t"
  by (simp_all add: attachOrgMetaToTransfer_def redirected_def split: option.split)

lemma crowd_present: "crowd a P b \<Longrightarrow> present b = P"
  by (auto simp: crowd_def fun_eq_iff)

lemma crowd_trans: "crowd a P b \<Longrightarrow> crowd b Q c \<Longrightarrow> crowd a Q c"
  by (simp add: crowd_def)

lemma crowd_ok: "crowd a P b \<Longrightarrow> worlds_ok b"
  by (simp add: crowd_def)

lemma request_back:
  assumes "undisturbed x" "worlds_ok m" "map_of (Runtimes m) wid \<noteq> None" "XID t \<noteq> []" "Fate x = Answered"
    and "\<not> present m wid (XID t)"
  shows "crowd m (\<lambda>k b. present m k b \<or> k = wid \<and> b = XID t) (snd (request x wid (ask_in t) m))"
  using request_in[OF assms(1-4), of "fst (request x wid (ask_in t) m)" "snd (request x wid (ask_in t) m)"] assms(5,6) by simp

lemma refuse_crowd:
  assumes "undisturbed x" "crowd m P m1" "refuse_switch x ref s target result ok code msg m1 = (err, s', m')"
  shows "s' = s \<and> crowd m P m'"
  using refuse_same[OF assms(1) crowd_ok[OF assms(2)] assms(3)] crowd_then[OF assms(2)] by blast

lemma request_fields:
  "AgentToWorld (snd (request x wid h m)) = AgentToWorld m"
  by (auto simp: request_def set_world_def Let_def split: option.split prod.split fate.split sum.split)

lemma inject_fields: "injectActionResult x wid aid ev m = (err, m') \<Longrightarrow> AgentToWorld m' = AgentToWorld m"
  using request_fields[of x wid "ask_inject aid (if map_of ev ''t'' = None then ev @ [(''t'', JU64 (world_tick wid m))] else ev)" m]
  by (auto simp: injectActionResult_def Let_def split: if_splits prod.splits sum.splits)

lemma send_over_moves:
  assumes "undisturbed (AskIn net)" "undisturbed (AskBack net)" "undisturbed (Tell net)"
    and "Fate (AskIn net) = Answered" "Fate (AskBack net) = Answered"
    and "worlds_ok m" "map_of (Runtimes m) (SCurrentWorld s) \<noteq> None" "map_of (Runtimes m) target \<noteq> None"
    and "XID t = SAgentID s" "SAgentID s \<noteq> []" "\<not> present m (SCurrentWorld s) (SAgentID s)" "target \<noteq> []"
    and "send_over net ref s target srcEntry dstEntry spec t m = (err, s', m')"
  shows "crowd m (\<lambda>k b. present m k b \<or> k = SCurrentWorld s' \<and> b = SAgentID s) m' \<and> SAgentID s' = SAgentID s \<and>
    (SCurrentWorld s' = SCurrentWorld s \<or>
     SCurrentWorld s' = target \<and> map_of (AgentToWorld m') (SAgentID s) = Some target)"
proof (cases "XSwitchCooldownUntil t \<noteq> 0 \<and> world_tick target m < XSwitchCooldownUntil t")
  case True
  from request_back[OF assms(2,6,7) _ assms(5), of t] assms(9-11)
  have "crowd m (\<lambda>k b. present m k b \<or> k = SCurrentWorld s \<and> b = SAgentID s) (snd (request (AskBack net) (SCurrentWorld s) (ask_in t) m))"
    by simp
  moreover have "refuse_switch (Tell net) ref s target ''cooldown'' False ''E_WORLD_COOLDOWN'' ''switch cooldown active''
      (snd (request (AskBack net) (SCurrentWorld s) (ask_in t) m)) = (err, s', m')"
    using assms(13) True by (simp add: send_over_def)
  ultimately have "s' = s \<and> crowd m (\<lambda>k b. present m k b \<or> k = SCurrentWorld s \<and> b = SAgentID s) m'"
    by (rule refuse_crowd[OF assms(3)])
  then show ?thesis by simp
next
  case False
  let ?m = "mergeOrgMetaFromTransfer (XOrg t) m"
  define t' where "t' = redirected (SCurrentWorld s) target srcEntry dstEntry (world_tick target m + switch_cooldown spec)
    (attachOrgMetaToTransfer ?m t)"
  have t': "XID t' = SAgentID s" by (simp add: t'_def assms(9))
  have m: "crowd m (present m) ?m" using same_crowd_runtimes[OF assms(6), of ?m] by (simp add: crowd_same)
  obtain r m1 where q: "request (AskIn net) target (ask_in t') ?m = (r, m1)" by fastforce
  note in_ = request_in[OF assms(1) crowd_ok[OF m] crowd_runtime[OF m assms(8)] _ q, unfolded t' crowd_present[OF m], OF assms(10)]
  show ?thesis
  proof (cases r)
    case (Inl e)
    with in_ assms(4) have "crowd m (present m) m1"
      using crowd_then[OF m] by (auto split: if_splits)
    note m1 = this crowd_present[OF this]
    from request_back[OF assms(2) crowd_ok[OF m1(1)] crowd_runtime[OF m1(1) assms(7)] _ assms(5), of t', unfolded t' m1(2), OF assms(10,11)]
    have "crowd m (\<lambda>k b. present m k b \<or> k = SCurrentWorld s \<and> b = SAgentID s)
        (snd (request (AskBack net) (SCurrentWorld s) (ask_in t') m1))" by (rule crowd_trans[OF m1(1)])
    moreover have "refuse_switch (Tell net) ref s target ''target_busy'' False ''E_WORLD_BUSY'' (''switch failed: '' @ e)
        (snd (request (AskBack net) (SCurrentWorld s) (ask_in t') m1)) = (err, s', m')"
      using assms(13) False q Inl by (simp add: send_over_def t'_def Let_def)
    ultimately have "s' = s \<and> crowd m (\<lambda>k b. present m k b \<or> k = SCurrentWorld s \<and> b = SAgentID s) m'"
      by (rule refuse_crowd[OF assms(3)])
    then show ?thesis by simp
  next
    case (Inr u)
    with in_ assms(4) have "crowd ?m (\<lambda>k b. present m k b \<or> k = target \<and> b = SAgentID s) m1" by simp
    note m1 = crowd_trans[OF m this]
    let ?m2 = "recordSwitch (SCurrentWorld s) target ''ok'' (updateResidency (SAgentID s) target [] m1)"
    define ev where "ev = [(''type'', JStr ''ACTION_RESULT''), (''ref'', JStr ref), (''ok'', JBool True), (''world_id'', JStr target),
      (''from'', JStr (SCurrentWorld s)), (''from_entry_id'', JStr (EpID srcEntry)), (''to_entry_id'', JStr (EpID dstEntry))]"
    have "same_crowd m1 ?m2" by (rule same_crowd_runtimes[OF crowd_ok[OF m1]]) simp
    with m1 have m2: "crowd m (\<lambda>k b. present m k b \<or> k = target \<and> b = SAgentID s) ?m2" by (rule crowd_then)
    obtain e m3 where i: "injectActionResult (Tell net) target (SAgentID s) ev ?m2 = (e, m3)" by fastforce
    from inject_same[OF assms(3) crowd_ok[OF m2] i] m2
    have "crowd m (\<lambda>k b. present m k b \<or> k = target \<and> b = SAgentID s) m3" by (rule crowd_then[rotated])
    moreover have "s' = s\<lparr>SCurrentWorld := target\<rparr>" "m' = m3"
      using assms(13) False q Inr i by (simp_all add: send_over_def t'_def Let_def ev_def)
    moreover have "AgentToWorld m3 = AgentToWorld ?m2" using i by (rule inject_fields)
    ultimately show ?thesis using assms(10,12) by (simp add: recordSwitch_def updateResidency_def stringsTrim_def map_of_mput Let_def)
  qed
qed

text \<open>The ways a switch can go: refused before, after the position, after the departure, or sent over.\<close>

lemma switch_cases:
  assumes "switchWorld net s target entry ref m = (err, s', m')"
  obtains (early) result ok code msg where "refuse_switch (Tell net) ref s target result ok code msg m = (err, s', m')"
  | (asked) r m1 result ok code msg where "map_of (Runtimes m) (SCurrentWorld s) \<noteq> None"
      "request (AskPos net) (SCurrentWorld s) (ask_pos (SAgentID s)) m = (r, m1)"
      "refuse_switch (Tell net) ref s target result ok code msg m1 = (err, s', m')"
  | (left) r m1 e m2 result ok code msg where "map_of (Runtimes m) (SCurrentWorld s) \<noteq> None"
      "request (AskPos net) (SCurrentWorld s) (ask_pos (SAgentID s)) m = (r, m1)"
      "request (AskOut net) (SCurrentWorld s) (handleTransferOut (SAgentID s)) m1 = (Inl e, m2)"
      "refuse_switch (Tell net) ref s target result ok code msg m2 = (err, s', m')"
  | (sent) r m1 t m2 a b dst where "map_of (Runtimes m) (SCurrentWorld s) \<noteq> None" "map_of (Runtimes m) target = Some dst"
      "target \<noteq> []" "SCurrentWorld s \<noteq> target"
      "request (AskPos net) (SCurrentWorld s) (ask_pos (SAgentID s)) m = (r, m1)"
      "request (AskOut net) (SCurrentWorld s) (handleTransferOut (SAgentID s)) m1 = (Inr t, m2)"
      "send_over net ref s target a b (RtSpec dst) t m2 = (err, s', m')"
proof (cases "stringsTrim target = [] \<or> SCurrentWorld s = target \<or> map_of (Runtimes m) (SCurrentWorld s) = None \<or>
    map_of (Runtimes m) target = None")
  case True
  then consider "stringsTrim target = []" | "stringsTrim target \<noteq> []" "SCurrentWorld s = target"
    | "stringsTrim target \<noteq> []" "SCurrentWorld s \<noteq> target" "map_of (Runtimes m) (SCurrentWorld s) = None"
    | src where "stringsTrim target \<noteq> []" "SCurrentWorld s \<noteq> target" "map_of (Runtimes m) (SCurrentWorld s) = Some src"
        "map_of (Runtimes m) target = None" by fastforce
  then show ?thesis using assms by cases (rule early, simp add: switchWorld_def)+
next
  case False
  then obtain src dst where w: "map_of (Runtimes m) (SCurrentWorld s) = Some src" "map_of (Runtimes m) target = Some dst"
    "stringsTrim target \<noteq> []" "SCurrentWorld s \<noteq> target" by auto
  have here: "map_of (Runtimes m) (SCurrentWorld s) \<noteq> None" by (simp add: w(1))
  have t0: "target \<noteq> []" using w(3) by (cases "target = []") (simp_all add: stringsTrim_def)
  obtain r m1 where p: "request (AskPos net) (SCurrentWorld s) (ask_pos (SAgentID s)) m = (r, m1)" by fastforce
  show ?thesis
  proof (cases r)
    case (Inl e)
    with assms w p show ?thesis by (intro asked[OF here p]) (simp add: switchWorld_def)
  next
    case (Inr pos)
    show ?thesis
    proof (cases "selectRoute m1 (SCurrentWorld s) target entry pos")
      case None
      with assms w p Inr show ?thesis by (intro asked[OF here p]) (simp add: switchWorld_def)
    next
      case (Some x)
      obtain route a b where x: "x = (route, a, b)" by (cases x)
      show ?thesis
      proof (cases "RouteRequiresPermit route \<or> SpecRequiresPermit (RtSpec dst) \<or> \<not> withinEntry pos a")
        case True
        then consider "RouteRequiresPermit route \<or> SpecRequiresPermit (RtSpec dst)"
          | "\<not> (RouteRequiresPermit route \<or> SpecRequiresPermit (RtSpec dst))" "\<not> withinEntry pos a" by blast
        then show ?thesis
          using assms w p Inr Some x by cases (rule asked[OF here p], simp add: switchWorld_def)+
      next
        case False
        obtain q m2 where o: "request (AskOut net) (SCurrentWorld s) (handleTransferOut (SAgentID s)) m1 = (q, m2)" by fastforce
        show ?thesis
        proof (cases q)
          case (Inl e)
          with assms w p \<open>r = Inr pos\<close> Some x False o show ?thesis
            by (intro left[OF here p, of e m2]) (simp_all add: switchWorld_def)
        next
          case (Inr t)
          with assms w p \<open>r = Inr pos\<close> Some x False o show ?thesis
            by (intro sent[OF here w(2) t0 w(4) p, of t m2 a b]) (simp_all add: switchWorld_def)
        qed
      qed
    qed
  qed
qed

text \<open>
  C6.  As long as the worlds answer in time, a switch - granted, refused, or rolled back because the cooldown is still
  running - of an agent that lives in exactly the world its session names leaves it in exactly one world, the one its
  session names, and nobody else moves; whatever else happens inside the worlds between the requests, as long as that
  moves nobody.
\<close>

theorem switch_one_world:
  assumes "undisturbed (AskPos net)" "undisturbed (AskOut net)" "undisturbed (AskIn net)" "undisturbed (AskBack net)"
      "undisturbed (Tell net)"
    and "Fate (AskOut net) = Answered" "Fate (AskIn net) = Answered" "Fate (AskBack net) = Answered"
    and "worlds_ok m" "SAgentID s \<noteq> []" "switchWorld net s target entry ref m = (err, s', m')"
    and "\<forall>wid. present m wid (SAgentID s) \<longleftrightarrow> wid = SCurrentWorld s"
  shows "worlds_ok m' \<and> SAgentID s' = SAgentID s \<and> SCurrentWorld s' \<in> {SCurrentWorld s, target} \<and>
    (\<forall>wid. present m' wid (SAgentID s) \<longleftrightarrow> wid = SCurrentWorld s') \<and>
    (\<forall>wid b. b \<noteq> SAgentID s \<longrightarrow> present m' wid b = present m wid b) \<and>
    (SCurrentWorld s' \<noteq> SCurrentWorld s \<longrightarrow> map_of (AgentToWorld m') (SAgentID s) = Some target)"
proof -
  let ?aid = "SAgentID s" and ?src = "SCurrentWorld s"
  let ?goal = "worlds_ok m' \<and> SAgentID s' = ?aid \<and> SCurrentWorld s' \<in> {?src, target} \<and>
    (\<forall>wid. present m' wid ?aid \<longleftrightarrow> wid = SCurrentWorld s') \<and> (\<forall>wid b. b \<noteq> ?aid \<longrightarrow> present m' wid b = present m wid b) \<and>
    (SCurrentWorld s' \<noteq> ?src \<longrightarrow> map_of (AgentToWorld m') ?aid = Some target)"
  have stay: ?goal if "s' = s" "same_crowd m m'"
    using that assms(12) by (auto simp: same_crowd_def)
  have refused: ?goal if "refuse_switch (Tell net) ref s target result ok code msg m1 = (err, s', m')" "same_crowd m m1"
    for result ok code msg m1
    using refuse_crowd[OF assms(5) that(2)[unfolded crowd_same] that(1)] stay by (simp add: crowd_same)
  show ?goal
  proof (rule switch_cases[OF assms(11)])
    fix result ok code msg assume "refuse_switch (Tell net) ref s target result ok code msg m = (err, s', m')"
    then show ?goal by (rule refused) (rule same_crowd_runtimes[OF assms(9) refl])
  next
    fix r m1 result ok code msg
    assume a: "map_of (Runtimes m) ?src \<noteq> None" "request (AskPos net) ?src (ask_pos ?aid) m = (r, m1)"
      "refuse_switch (Tell net) ref s target result ok code msg m1 = (err, s', m')"
    from a(3) request_harmless[OF assms(1,9) a(1) harmless_pos a(2)] show ?goal by (rule refused)
  next
    fix r m1 e m2 result ok code msg
    assume a: "map_of (Runtimes m) ?src \<noteq> None" "request (AskPos net) ?src (ask_pos ?aid) m = (r, m1)"
      "request (AskOut net) ?src (handleTransferOut ?aid) m1 = (Inl e, m2)"
      "refuse_switch (Tell net) ref s target result ok code msg m2 = (err, s', m')"
    have m1: "same_crowd m m1" by (rule request_harmless[OF assms(1,9) a(1) harmless_pos a(2)])
    note c = m1[unfolded crowd_same]
    from request_out[OF assms(2) crowd_ok[OF c] crowd_runtime[OF c a(1)] assms(6) a(3)] have "same_crowd m1 m2" by simp
    with a(4) same_crowd_trans[OF m1] show ?goal by (intro refused)
  next
    fix r m1 t m2 a b dst
    assume a: "map_of (Runtimes m) ?src \<noteq> None" "map_of (Runtimes m) target = Some dst" "target \<noteq> []" "?src \<noteq> target"
      "request (AskPos net) ?src (ask_pos ?aid) m = (r, m1)" "request (AskOut net) ?src (handleTransferOut ?aid) m1 = (Inr t, m2)"
      "send_over net ref s target a b (RtSpec dst) t m2 = (err, s', m')"
    have m1: "same_crowd m m1" by (rule request_harmless[OF assms(1,9) a(1) harmless_pos a(5)])
    note c1 = m1[unfolded crowd_same]
    from request_out[OF assms(2) crowd_ok[OF c1] crowd_runtime[OF c1 a(1)] assms(6) a(6)]
    have t: "XID t = ?aid" and "crowd m1 (\<lambda>k b. present m1 k b \<and> \<not> (k = ?src \<and> b = ?aid)) m2" by simp_all
    from crowd_trans[OF c1 this(2)] have c: "crowd m (\<lambda>k b. present m k b \<and> \<not> (k = ?src \<and> b = ?aid)) m2"
      by (simp add: crowd_present[OF c1])
    note P = crowd_present[OF c]
    have "\<not> present m2 ?src ?aid" and "map_of (Runtimes m) target \<noteq> None" by (simp_all add: P a(2))
    from send_over_moves[OF assms(3-5,7,8) crowd_ok[OF c] crowd_runtime[OF c a(1)] crowd_runtime[OF c this(2)] t assms(10) this(1) a(3,7)]
    have z: "crowd m2 (\<lambda>k b. present m2 k b \<or> k = SCurrentWorld s' \<and> b = ?aid) m'" "SAgentID s' = ?aid"
      "SCurrentWorld s' = ?src \<or> SCurrentWorld s' = target \<and> map_of (AgentToWorld m') ?aid = Some target" by simp_all
    have "present m' wid b \<longleftrightarrow> (present m wid b \<and> \<not> (wid = ?src \<and> b = ?aid)) \<or> wid = SCurrentWorld s' \<and> b = ?aid" for wid b
      by (simp add: crowd_present[OF z(1)] P)
    with crowd_ok[OF z(1)] z(2,3) show ?goal by (auto simp: assms(12))
  qed
qed


text \<open>Two worlds joined by one route, and an agent standing at its entry point.\<close>

definition gate :: "string \<Rightarrow> int \<Rightarrow> entry_point" where
  "gate name x = \<lparr>EpID = name, EpX = x, EpZ = 0, EpRadius = 4, EpEnabled = True\<rparr>"

definition hub_world :: world where
  "hub_world = empty_world\<lparr>agents := [(''A1'', agent_named ''A1'' [(''COAL'', 5)])]\<rparr>"

definition spec_named :: "string \<Rightarrow> world_spec" where
  "spec_named wid = open_world wid 600 ''gate'' False"

definition two_worlds :: manager where
  "two_worlds = \<lparr>Runtimes = [(''OVERWORLD'', \<lparr>RtSpec = spec_named ''OVERWORLD'', RtWorld = hub_world\<rparr>),
       (''MINE_L1'', \<lparr>RtSpec = spec_named ''MINE_L1'', RtWorld = mine_world\<rparr>)],
     Entries = [(''OVERWORLD'', [(''gate'', gate ''gate'' 0)]), (''MINE_L1'', [(''shaft'', gate ''shaft'' 40)])],
     Routes = [(''OVERWORLD->MINE_L1'', [plain_route ''OVERWORLD'' ''MINE_L1'' ''gate'' ''shaft''])],
     Manifest = [], DefaultID = ''OVERWORLD'', AgentToWorld = [(''A1'', ''OVERWORLD'')], ResumeToWorld = [],
     SwitchTotals = [], GlobalOrgMeta = [], RefreshDue = False\<rparr>"

definition prompt :: exchange where
  "prompt = \<lparr>Fate = Answered, Meanwhile = (\<lambda>_ w. w)\<rparr>"

definition calm_net :: switch_net where
  "calm_net = \<lparr>AskPos = prompt, AskOut = prompt, AskIn = prompt, AskBack = prompt, Tell = prompt\<rparr>"

definition miner :: mw_session where
  "miner = \<lparr>SAgentID = ''A1'', SCurrentWorld = ''OVERWORLD''\<rparr>"

lemma prompt_undisturbed: "undisturbed prompt"
  by (simp add: undisturbed_def prompt_def)

lemma two_worlds_ok: "worlds_ok two_worlds"
  by (simp add: worlds_ok_def two_worlds_def registered_def hub_world_def mine_world_def agent_named_def split: if_splits)

lemma two_worlds_present: "present two_worlds wid aid \<longleftrightarrow> wid = ''OVERWORLD'' \<and> aid = ''A1''"
  by (auto simp: present_def two_worlds_def lives_def hub_world_def mine_world_def split: if_splits)

lemma pass_prompt [simp]: "pass_time (Meanwhile prompt) m = m"
  by (simp add: pass_time_def prompt_def)

lemma request_prompt:
  "request prompt wid h m = (case map_of (Runtimes m) wid of
      None \<Rightarrow> (Inl ''world not found'', m)
    | Some rt \<Rightarrow> (case h (RtWorld rt) of Inl e \<Rightarrow> (Inl e, m) | Inr (r, w) \<Rightarrow> (Inr r, set_world wid w m)))"
  unfolding request_def pass_prompt Let_def by (simp add: prompt_def split: option.split sum.split)

lemma two_worlds_route: "selectRoute two_worlds ''OVERWORLD'' ''MINE_L1'' [] p =
    Some (plain_route ''OVERWORLD'' ''MINE_L1'' ''gate'' ''shaft'', gate ''gate'' 0, gate ''shaft'' 40)"
  by (simp add: selectRoute_def Let_def two_worlds_def routeKey_def route_ends_def find_entry_def plain_route_def gate_def)

text \<open>The switch goes through.\<close>

lemma miner_switches:
  "\<exists>m. switchWorld calm_net miner ''MINE_L1'' [] ''r1'' two_worlds = (None, miner\<lparr>SCurrentWorld := ''MINE_L1''\<rparr>, m)"
proof -
  let ?a = "agent_named ''A1'' [(''COAL'', 5)]"
  have hub: "map_of (Runtimes two_worlds) ''OVERWORLD'' = Some \<lparr>RtSpec = spec_named ''OVERWORLD'', RtWorld = hub_world\<rparr>"
    and mine: "map_of (Runtimes two_worlds) ''MINE_L1'' = Some \<lparr>RtSpec = spec_named ''MINE_L1'', RtWorld = mine_world\<rparr>"
    by (simp_all add: two_worlds_def)
  have a: "map_of (agents hub_world) ''A1'' = Some ?a" by (simp add: hub_world_def)
  have pos: "request prompt ''OVERWORLD'' (ask_pos ''A1'') two_worlds = (Inr (APos ?a), set_world ''OVERWORLD'' hub_world two_worlds)"
    by (simp add: request_prompt hub ask_pos_def HandleAgentPosReq_def a)
  have same: "set_world ''OVERWORLD'' hub_world two_worlds = two_worlds"
    by (simp add: set_world_def two_worlds_def mput_def)
  let ?t = "BuildOutgoingAgent ?a (WorldID (cfg hub_world)) None"
  obtain w where out: "handleTransferOut ''A1'' hub_world = Inr (?t, w)"
    by (simp add: handleTransferOut_def a Let_def agent_named_def sample_agent_def)
  let ?m = "set_world ''OVERWORLD'' w two_worlds"
  have o: "request prompt ''OVERWORLD'' (handleTransferOut ''A1'') two_worlds = (Inr ?t, ?m)"
    by (simp add: request_prompt hub out)
  have t: "XID ?t = ''A1''" "XSwitchCooldownUntil ?t = 0"
    by (simp_all add: BuildOutgoingAgent_def agent_named_def sample_agent_def)
  have m: "map_of (Runtimes ?m) ''MINE_L1'' = Some \<lparr>RtSpec = spec_named ''MINE_L1'', RtWorld = mine_world\<rparr>"
    by (simp add: map_of_set_world[OF hub] mine)
  have free: "\<exists>w'. ask_in t' mine_world = Inr ((), w')" if "XID t' = ''A1''" for t'
    using that by (simp add: ask_in_def handleTransferIn_def Let_def mine_world_def)
  have near: "withinEntry (APos sample_agent) (gate ''gate'' 0)"
    by (simp add: withinEntry_def gate_def sample_agent_def i64_def)
  have np: "\<not> RouteRequiresPermit (plain_route ''OVERWORLD'' ''MINE_L1'' ''gate'' ''shaft'')" "\<not> SpecRequiresPermit (spec_named ''MINE_L1'')"
    by (simp_all add: plain_route_def spec_named_def open_world_def)
  have "\<exists>m'. send_over calm_net ''r1'' miner ''MINE_L1'' (gate ''gate'' 0) (gate ''shaft'' 40) (spec_named ''MINE_L1'') ?t ?m =
      (None, miner\<lparr>SCurrentWorld := ''MINE_L1''\<rparr>, m')"
  proof -
    let ?m1 = "mergeOrgMetaFromTransfer (XOrg ?t) ?m"
    define t' where "t' = redirected ''OVERWORLD'' ''MINE_L1'' (gate ''gate'' 0) (gate ''shaft'' 40)
      (world_tick ''MINE_L1'' ?m + switch_cooldown (spec_named ''MINE_L1'')) (attachOrgMetaToTransfer ?m1 ?t)"
    have "XID t' = ''A1''" by (simp only: t'_def transfer_kept t)
    from free[OF this] obtain w' where "ask_in t' mine_world = Inr ((), w')" ..
    then have "request prompt ''MINE_L1'' (ask_in t') ?m1 = (Inr (), set_world ''MINE_L1'' w' ?m1)"
      by (simp add: request_prompt m)
    then show ?thesis
      unfolding send_over_def Let_def t(2) by (simp add: calm_net_def miner_def t'_def)
  qed
  then show ?thesis
    by (simp add: switchWorld_def miner_def stringsTrim_def is_blank_def hub mine calm_net_def pos same two_worlds_route np near o Let_def)
qed

theorem switch_one_world_witness:
  "\<exists>m. switchWorld calm_net miner ''MINE_L1'' [] ''r1'' two_worlds = (None, miner\<lparr>SCurrentWorld := ''MINE_L1''\<rparr>, m) \<and>
     (\<forall>wid. present m wid ''A1'' \<longleftrightarrow> wid = ''MINE_L1'') \<and> map_of (AgentToWorld m) ''A1'' = Some ''MINE_L1''"
proof -
  obtain m where m: "switchWorld calm_net miner ''MINE_L1'' [] ''r1'' two_worlds = (None, miner\<lparr>SCurrentWorld := ''MINE_L1''\<rparr>, m)"
    using miner_switches by blast
  have n: "AskPos calm_net = prompt" "AskOut calm_net = prompt" "AskIn calm_net = prompt" "AskBack calm_net = prompt"
    "Tell calm_net = prompt" "Fate prompt = Answered" "SAgentID miner = ''A1''" "SCurrentWorld miner = ''OVERWORLD''"
    by (simp_all add: calm_net_def prompt_def miner_def)
  have "\<forall>wid. present two_worlds wid (SAgentID miner) \<longleftrightarrow> wid = SCurrentWorld miner" by (simp add: two_worlds_present n)
  from switch_one_world[of calm_net, unfolded n, OF prompt_undisturbed prompt_undisturbed prompt_undisturbed prompt_undisturbed
      prompt_undisturbed refl refl refl two_worlds_ok _ m, unfolded n] this
  show ?thesis using m by (simp add: n)
qed


section \<open>When a world does not answer\<close>

text \<open>
  C14.  The agent has left its world, its switch cooldown is over, and no world has an agent of that name; between the
  requests the worlds move nobody.  The agent gets there unless the request was never
  taken, and comes back unless the manager saw the arrival or the request to take it back was never taken: so an
  arrival that is reported too late leaves it in both worlds, and two requests that are not taken leave it in none.
  The session believes what the manager saw.
\<close>

theorem switch_timeouts:
  assumes "undisturbed (AskIn net)" "undisturbed (AskBack net)" "undisturbed (Tell net)"
    and "worlds_ok m" "map_of (Runtimes m) (SCurrentWorld s) \<noteq> None" "map_of (Runtimes m) target \<noteq> None"
    and "XID t = SAgentID s" "SAgentID s \<noteq> []" "target \<noteq> SCurrentWorld s" "XSwitchCooldownUntil t \<le> world_tick target m"
    and "\<forall>wid. \<not> present m wid (SAgentID s)" "send_over net ref s target srcEntry dstEntry spec t m = (err, s', m')"
  shows "(present m' target (SAgentID s) \<longleftrightarrow> Fate (AskIn net) \<noteq> Unsent) \<and>
    (present m' (SCurrentWorld s) (SAgentID s) \<longleftrightarrow> Fate (AskIn net) \<noteq> Answered \<and> Fate (AskBack net) \<noteq> Unsent) \<and>
    SCurrentWorld s' = (if Fate (AskIn net) = Answered then target else SCurrentWorld s)"
proof -
  let ?aid = "SAgentID s" and ?src = "SCurrentWorld s"
  let ?m = "mergeOrgMetaFromTransfer (XOrg t) m"
  define t' where "t' = redirected ?src target srcEntry dstEntry (world_tick target m + switch_cooldown spec)
    (attachOrgMetaToTransfer ?m t)"
  have t': "XID t' = ?aid" by (simp add: t'_def assms(7))
  have rested: "(world_tick target m < XSwitchCooldownUntil t) = False" using assms(10) by (auto dest: leD)
  have m: "crowd m (present m) ?m" using same_crowd_runtimes[OF assms(4), of ?m] by (simp add: crowd_same)
  obtain r m1 where q: "request (AskIn net) target (ask_in t') ?m = (r, m1)" by fastforce
  have "XID t' \<noteq> []" by (simp add: t' assms(8))
  from request_in[OF assms(1) crowd_ok[OF m] crowd_runtime[OF m assms(6)] this q, unfolded t' crowd_present[OF m]]
  have in_: "if Fate (AskIn net) = Unsent then same_crowd ?m m1
      else crowd ?m (\<lambda>k b. present ?m k b \<or> k = target \<and> b = ?aid) m1"
    "(\<exists>u. r = Inr u) \<longleftrightarrow> Fate (AskIn net) = Answered"
    using assms(11) by (simp_all add: crowd_present[OF m])
  define P where "P = (\<lambda>k b. present m k b \<or> Fate (AskIn net) \<noteq> Unsent \<and> k = target \<and> b = ?aid)"
  have m1: "crowd m P m1"
  proof (cases "Fate (AskIn net) = Unsent")
    case True
    with in_(1) crowd_then[OF m] show ?thesis by (simp add: P_def)
  next
    case False
    with in_(1) crowd_trans[OF m] show ?thesis by (simp add: P_def crowd_present[OF m])
  qed
  show ?thesis
  proof (cases r)
    case (Inl e)
    obtain r2 m2 where q2: "request (AskBack net) ?src (ask_in t') m1 = (r2, m2)" by fastforce
    have "\<not> present m1 ?src ?aid" using assms(9,11) by (simp add: crowd_present[OF m1] P_def)
    with request_in[OF assms(2) crowd_ok[OF m1] crowd_runtime[OF m1 assms(5)] \<open>XID t' \<noteq> []\<close> q2, unfolded t']
    have "if Fate (AskBack net) = Unsent then same_crowd m1 m2
      else crowd m1 (\<lambda>k b. present m1 k b \<or> k = ?src \<and> b = ?aid) m2" by (simp add: t')
    then have m2: "crowd m (\<lambda>k b. P k b \<or> Fate (AskBack net) \<noteq> Unsent \<and> k = ?src \<and> b = ?aid) m2"
      using crowd_then[OF m1] crowd_trans[OF m1] by (simp add: crowd_present[OF m1] split: if_splits)
    have "refuse_switch (Tell net) ref s target ''target_busy'' False ''E_WORLD_BUSY'' (''switch failed: '' @ e) m2 = (err, s', m')"
      using assms(12) q q2 Inl by (simp add: rested send_over_def t'_def Let_def)
    from refuse_crowd[OF assms(3) m2 this] have "s' = s"
      "crowd m (\<lambda>k b. P k b \<or> Fate (AskBack net) \<noteq> Unsent \<and> k = ?src \<and> b = ?aid) m'" by simp_all
    with crowd_present[OF this(2)] in_(2) Inl assms(9,11) show ?thesis by (auto simp: P_def)
  next
    case (Inr u)
    let ?m2 = "recordSwitch ?src target ''ok'' (updateResidency ?aid target [] m1)"
    have "same_crowd m1 ?m2" by (rule same_crowd_runtimes[OF crowd_ok[OF m1]]) simp
    with m1 have m2: "crowd m P ?m2" by (rule crowd_then)
    define ev where "ev = [(''type'', JStr ''ACTION_RESULT''), (''ref'', JStr ref), (''ok'', JBool True), (''world_id'', JStr target),
      (''from'', JStr ?src), (''from_entry_id'', JStr (EpID srcEntry)), (''to_entry_id'', JStr (EpID dstEntry))]"
    obtain e m3 where i: "injectActionResult (Tell net) target ?aid ev ?m2 = (e, m3)" by fastforce
    from crowd_then[OF m2 inject_same[OF assms(3) crowd_ok[OF m2] i]] have "crowd m P m3" .
    moreover have "s' = s\<lparr>SCurrentWorld := target\<rparr>" "m' = m3"
      using assms(12) q Inr i by (simp_all add: rested send_over_def t'_def Let_def ev_def)
    ultimately show ?thesis using crowd_present[of m P m3] in_(2) Inr assms(9,11) by (auto simp: P_def)
  qed
qed

text \<open>The traveller of the example, and a network that answers the request to take the agent too late.\<close>

definition late_net :: switch_net where
  "late_net = calm_net\<lparr>AskIn := prompt\<lparr>Fate := Unanswered\<rparr>, AskBack := prompt\<lparr>Fate := Unanswered\<rparr>\<rparr>"

definition dead_net :: switch_net where
  "dead_net = calm_net\<lparr>AskIn := prompt\<lparr>Fate := Unsent\<rparr>, AskBack := prompt\<lparr>Fate := Unsent\<rparr>\<rparr>"

definition left_behind :: manager where
  "left_behind = set_world ''OVERWORLD'' empty_world two_worlds"

definition traveller :: agent_transfer where
  "traveller = BuildOutgoingAgent (agent_named ''A1'' [(''COAL'', 5)]) ''OVERWORLD'' None"

theorem switch_timeouts_witness:
  "\<exists>e1 s1 m1 e2 s2 m2.
     send_over late_net ''r1'' miner ''MINE_L1'' (gate ''gate'' 0) (gate ''shaft'' 40) (spec_named ''MINE_L1'') traveller left_behind
       = (e1, s1, m1) \<and> present m1 ''OVERWORLD'' ''A1'' \<and> present m1 ''MINE_L1'' ''A1'' \<and>
     send_over dead_net ''r1'' miner ''MINE_L1'' (gate ''gate'' 0) (gate ''shaft'' 40) (spec_named ''MINE_L1'') traveller left_behind
       = (e2, s2, m2) \<and> \<not> present m2 ''OVERWORLD'' ''A1'' \<and> \<not> present m2 ''MINE_L1'' ''A1'' \<and> SCurrentWorld s2 = ''OVERWORLD''"
proof -
  have w: "map_of (Runtimes left_behind) ''OVERWORLD'' \<noteq> None" "map_of (Runtimes left_behind) ''MINE_L1'' \<noteq> None"
    by (simp_all add: left_behind_def two_worlds_def set_world_def mput_def)
  have ok: "worlds_ok left_behind" "\<forall>wid. \<not> present left_behind wid ''A1''"
    by (auto simp: left_behind_def worlds_ok_def present_def two_worlds_def set_world_def mput_def lives_def registered_def mine_world_def
        split: if_splits)
  have t: "XID traveller = ''A1''" "XSwitchCooldownUntil traveller = 0"
    by (simp_all add: traveller_def BuildOutgoingAgent_def agent_named_def sample_agent_def)
  have s: "SAgentID miner = ''A1''" "SCurrentWorld miner = ''OVERWORLD''" by (simp_all add: miner_def)
  have u: "undisturbed (prompt\<lparr>Fate := f\<rparr>)" for f by (simp add: undisturbed_def prompt_def)
  have n: "AskIn late_net = prompt\<lparr>Fate := Unanswered\<rparr>" "AskBack late_net = prompt\<lparr>Fate := Unanswered\<rparr>" "Tell late_net = prompt"
    "AskIn dead_net = prompt\<lparr>Fate := Unsent\<rparr>" "AskBack dead_net = prompt\<lparr>Fate := Unsent\<rparr>" "Tell dead_net = prompt"
    by (simp_all add: late_net_def dead_net_def calm_net_def)
  let ?go = "\<lambda>net. send_over net ''r1'' miner ''MINE_L1'' (gate ''gate'' 0) (gate ''shaft'' 40) (spec_named ''MINE_L1'') traveller left_behind"
  obtain e1 s1 m1 where 1: "?go late_net = (e1, s1, m1)" by (metis surj_pair)
  obtain e2 s2 m2 where 2: "?go dead_net = (e2, s2, m2)" by (metis surj_pair)
  note T = switch_timeouts[where target = "''MINE_L1''" and s = miner and m = left_behind and t = traveller, unfolded s t]
  from T[of late_net, unfolded n, OF u u prompt_undisturbed ok(1) w refl _ _ _ ok(2) 1]
    T[of dead_net, unfolded n, OF u u prompt_undisturbed ok(1) w refl _ _ _ ok(2) 2] 1 2
  show ?thesis by simp
qed


section \<open>Sent back\<close>

lemma tell_prompt:
  assumes "map_of (Runtimes m) wid = Some rt" "map_of (agents (RtWorld rt)) aid = Some x" "carried t k x"
    and "injectActionResult prompt wid aid ev m = (err, m')"
  shows "\<exists>rt' x'. map_of (Runtimes m') wid = Some rt' \<and> map_of (agents (RtWorld rt')) aid = Some x' \<and> carried t k x'"
proof -
  let ?ev = "if map_of ev ''t'' = None then ev @ [(''t'', JU64 (world_tick wid m))] else ev"
  show ?thesis
  proof (cases "aid = []")
    case True
    with assms show ?thesis
      by (auto simp: injectActionResult_def request_prompt ask_inject_def inject_event_def Let_def)
  next
    case False
    with assms(1,4) have "m' = set_world wid (emit aid ?ev (RtWorld rt)) m"
      by (simp add: injectActionResult_def request_prompt ask_inject_def inject_event_def Let_def)
    with assms(1-3) show ?thesis by (simp add: map_of_set_world emit_def upd_agent_def map_of_mput carried_event)
  qed
qed

text \<open>
   When the other world turns the agent away - it has an agent of that name already - the agent is put back into its own
  world, but as the traveller it had been turned into: at the coordinates of the other world's entry point, and with
  the other world's cooldown.
\<close>

lemma rollback_misplaces:
  assumes "AskIn net = prompt" "AskBack net = prompt" "Tell net = prompt"
    and "map_of (Runtimes m) (SCurrentWorld s) = Some src" "map_of (Runtimes m) target = Some dst" "target \<noteq> SCurrentWorld s"
    and "XID t = SAgentID s" "SAgentID s \<noteq> []" "XSwitchCooldownUntil t = 0"
    and "lives (RtWorld dst) (SAgentID s)" "\<not> lives (RtWorld src) (SAgentID s)"
    and "send_over net ref s target srcEntry dstEntry spec t m = (err, s', m')"
  shows "s' = s \<and> (\<exists>rt a. map_of (Runtimes m') (SCurrentWorld s) = Some rt \<and> map_of (agents (RtWorld rt)) (SAgentID s) = Some a \<and>
    APos a = \<lparr>vx = EpX dstEntry, vy = 0, vz = EpZ dstEntry\<rparr> \<and>
    SwitchCooldownUntil a = world_tick target m + switch_cooldown spec)"
proof -
  let ?aid = "SAgentID s" and ?src = "SCurrentWorld s"
  let ?m = "mergeOrgMetaFromTransfer (XOrg t) m"
  define t' where "t' = redirected ?src target srcEntry dstEntry (world_tick target m + switch_cooldown spec)
    (attachOrgMetaToTransfer ?m t)"
  have t': "XID t' = ?aid" by (simp add: t'_def assms(7))
  obtain e where "ask_in t' (RtWorld dst) = Inl e"
    using assms(8,10) by (simp add: ask_in_def handleTransferIn_def t' lives_def)
  with assms(5) have q: "request prompt target (ask_in t') ?m = (Inl e, ?m)" by (simp add: request_prompt)
  obtain w where w: "handleTransferIn t' (RtWorld src) = Inr w"
    using assms(8,11) by (simp add: handleTransferIn_def t' lives_def Let_def)
  with assms(4) have b: "request prompt ?src (ask_in t') ?m = (Inr (), set_world ?src w ?m)"
    by (simp add: request_prompt ask_in_def)
  obtain a where a: "agents w = mput ?aid a (agents (RtWorld src))" "carried t' (WorldID (cfg (RtWorld src))) a"
    using transfer_in_spec[OF w] t' by auto
  let ?m2 = "recordSwitch ?src target ''target_busy'' (set_world ?src w ?m)"
  have m2: "map_of (Runtimes ?m2) ?src = Some (src\<lparr>RtWorld := w\<rparr>)"
    using map_of_set_world[of ?m ?src src w] assms(4) by simp
  obtain e2 m3 where i: "injectActionResult prompt ?src ?aid (actionResult 0 ref False ''E_WORLD_BUSY'' (''switch failed: '' @ e)) ?m2 = (e2, m3)"
    by fastforce
  have "s' = s \<and> m' = m3"
    using assms(1-3,9,12) q b i by (simp add: send_over_def t'_def Let_def refuse_switch_def)
  moreover have "\<exists>rt x. map_of (Runtimes m3) ?src = Some rt \<and> map_of (agents (RtWorld rt)) ?aid = Some x \<and>
      carried t' (WorldID (cfg (RtWorld src))) x"
    by (rule tell_prompt[OF m2 _ a(2) i]) (simp add: a(1) map_of_mput)
  ultimately show ?thesis by (auto simp: carried_def t'_def redirected_def)
qed

end
