(* ===== verification/Multiworld_State.thy ===== *)
theory Multiworld_State
  imports Multiworld_Switch
begin

text \<open>
  What the manager keeps: the state it writes to its file is the state it reads back, and what refreshing the
  organizations of all worlds does to the manager's own view of them.
\<close>

section \<open>The persisted state\<close>

text \<open>No entry that reading would skip: names that are not blank, every organization under its own name, counts above zero.\<close>

definition nonblank :: "string \<Rightarrow> bool" where
  "nonblank s \<longleftrightarrow> stringsTrim s \<noteq> []"

definition tidy_pairs :: "string gomap \<Rightarrow> bool" where
  "tidy_pairs m \<longleftrightarrow> wf_map m \<and> (\<forall>(k, v) \<in> set m. nonblank k \<and> nonblank v)"

definition tidy_orgs :: "org_meta gomap \<Rightarrow> bool" where
  "tidy_orgs m \<longleftrightarrow> wf_map m \<and> (\<forall>(k, ob) \<in> set m. nonblank k \<and> MetaOrgID ob = k \<and> (\<forall>(aid, _) \<in> set (MetaMembers ob). nonblank aid))"

definition tidy_totals :: "((string \<times> string \<times> string) \<times> u64) list \<Rightarrow> bool" where
  "tidy_totals m \<longleftrightarrow> wf_map m \<and> (\<forall>((a, b, r), n) \<in> set m. nonblank a \<and> nonblank b \<and> nonblank r \<and> n \<noteq> 0)"

definition tidy :: "manager \<Rightarrow> bool" where
  "tidy m \<longleftrightarrow> tidy_pairs (AgentToWorld m) \<and> tidy_pairs (ResumeToWorld m) \<and> tidy_orgs (GlobalOrgMeta m) \<and> tidy_totals (SwitchTotals m)"

lemma nonblank_Nil [simp]: "\<not> nonblank []"
  by (simp add: nonblank_def stringsTrim_def)

lemma fold_mput_other:
  "k \<notin> f ` set xs \<Longrightarrow> map_of (fold (\<lambda>x m. if P x then m else mput (f x) (g x) m) xs m) k = map_of m k"
  by (induction xs arbitrary: m) (simp_all add: map_of_mput)

lemma fold_mput_hit:
  "distinct (map f xs) \<Longrightarrow> x \<in> set xs \<Longrightarrow> \<not> P x \<Longrightarrow>
     map_of (fold (\<lambda>x m. if P x then m else mput (f x) (g x) m) xs m) (f x) = Some (g x)"
  by (induction xs arbitrary: m) (auto simp: map_of_mput fold_mput_other)

text \<open>Putting the entries of a map, in whatever order and form, gives the map.\<close>

lemma fold_mput_same:
  assumes "distinct (map f xs)" "\<forall>x \<in> set xs. \<not> P x" "wf_map m" "\<And>k v. (k, v) \<in> set m \<longleftrightarrow> (\<exists>x \<in> set xs. f x = k \<and> g x = v)"
  shows "map_of (fold (\<lambda>x m. if P x then m else mput (f x) (g x) m) xs []) k = map_of m k"
proof (cases "k \<in> f ` set xs")
  case True
  then obtain x where x: "x \<in> set xs" "k = f x" by blast
  then have "(k, g x) \<in> set m" using assms(4) by blast
  then have "map_of m k = Some (g x)" using assms(3) by (simp add: wf_map_def map_of_eq_Some_iff)
  then show ?thesis using fold_mput_hit[OF assms(1) x(1), of P g "[]"] assms(2) x by simp
next
  case False
  then have "map_of m k = None" using assms(4) by (force simp: map_of_eq_None_iff)
  then show ?thesis using fold_mput_other[OF False, of P g "[]"] by simp
qed

lemma load_pairs_same:
  assumes "tidy_pairs m"
  shows "map_of (load_pairs (filter (\<lambda>(k, v). k \<noteq> [] \<and> v \<noteq> []) m) []) k = map_of m k"
proof -
  have all: "filter (\<lambda>(k, v). k \<noteq> [] \<and> v \<noteq> []) m = m"
    using assms by (intro filter_True) (auto simp: tidy_pairs_def)
  have "load_pairs m [] = fold (\<lambda>x m. if stringsTrim (fst x) = [] \<or> stringsTrim (snd x) = [] then m else mput (fst x) (snd x) m) m []"
    by (simp add: load_pairs_def case_prod_unfold)
  also have "map_of \<dots> k = map_of m k"
    using assms by (intro fold_mput_same) (force simp: tidy_pairs_def wf_map_def nonblank_def)+
  finally show ?thesis by (simp only: all)
qed

lemma candidate_same: "tidy_orgs m \<Longrightarrow> (k, ob) \<in> set m \<Longrightarrow> (candidate ob)\<lparr>MetaOrgID := k\<rparr> = ob"
  unfolding candidate_def trim_members_def tidy_orgs_def nonblank_def
  by (subst filter_True) auto

lemma load_orgs_same:
  assumes "tidy_orgs m"
  shows "map_of (load_orgs (map (\<lambda>k. (k, candidate (the (map_of m k)))) (sorted_keys m)) []) k = map_of m k"
proof -
  let ?ps = "map (\<lambda>k. (k, candidate (the (map_of m k)))) (sorted_keys m)"
  have wf: "wf_map m" using assms by (simp add: tidy_orgs_def)
  have val: "(k, v) \<in> set m \<longleftrightarrow> k \<in> fst ` set m \<and> (candidate (the (map_of m k)))\<lparr>MetaOrgID := k\<rparr> = v" for k v
  proof -
    have "map_of m k = Some v" if "(k, v) \<in> set m" for v using wf that by (simp add: wf_map_def map_of_eq_Some_iff)
    then show ?thesis using candidate_same[OF assms] by force
  qed
  have load: "load_orgs ?ps [] = fold (\<lambda>x m. if stringsTrim (fst x) = [] then m else mput (fst x) ((candidate (candidate (snd x)))\<lparr>MetaOrgID := fst x\<rparr>) m)
    (map (\<lambda>k. (k, the (map_of m k))) (sorted_keys m)) []"
    by (simp add: load_orgs_def case_prod_unfold fold_map comp_def cong: if_cong)
  have cc: "candidate (candidate ob) = candidate ob" for ob
    by (simp add: candidate_def trim_members_def)
  have "map_of (fold (\<lambda>x m. if stringsTrim (fst x) = [] then m else mput (fst x) ((candidate (snd x))\<lparr>MetaOrgID := fst x\<rparr>) m)
    (map (\<lambda>k. (k, the (map_of m k))) (sorted_keys m)) []) k = map_of m k"
  proof (rule fold_mput_same[OF _ _ wf])
    show "distinct (map fst (map (\<lambda>k. (k, the (map_of m k))) (sorted_keys m)))" using wf by (simp add: comp_def)
    show "\<forall>x \<in> set (map (\<lambda>k. (k, the (map_of m k))) (sorted_keys m)). stringsTrim (fst x) \<noteq> []"
      using assms by (fastforce simp: tidy_orgs_def nonblank_def)
    show "(k, v) \<in> set m \<longleftrightarrow> (\<exists>x \<in> set (map (\<lambda>k. (k, the (map_of m k))) (sorted_keys m)).
        fst x = k \<and> (candidate (snd x))\<lparr>MetaOrgID := fst x\<rparr> = v)" for k v
      unfolding val by auto
  qed
  then show ?thesis by (simp only: load cc)
qed

lemma set_sort_metrics [simp]: "set (sort_metrics ms) = set ms"
  and distinct_sort_metrics [simp]: "distinct (map f (sort_metrics ms)) = distinct (map f ms)"
  by (simp_all add: sort_metrics_def distinct_map)

lemma load_metrics_same:
  assumes "tidy_totals m"
  shows "map_of (load_metrics (sort_metrics (map (\<lambda>((a, b, r), n). \<lparr>MFrom = a, MTo = b, MResult = r, MCount = n\<rparr>)
    (filter (\<lambda>(_, n). n \<noteq> 0) m)) @ []) []) k = map_of m k"
proof -
  have all: "filter (\<lambda>(_, n). n \<noteq> 0) m = m" using assms by (intro filter_True) (auto simp: tidy_totals_def)
  have wf: "wf_map m" using assms by (simp add: tidy_totals_def)
  let ?ms = "map (\<lambda>((a, b, r), n). \<lparr>MFrom = a, MTo = b, MResult = r, MCount = n\<rparr>) m"
  have key: "map (\<lambda>s. (MFrom s, MTo s, MResult s)) ?ms = map fst m" by (auto simp: comp_def split_beta)
  have "map_of (load_metrics (sort_metrics ?ms) []) k = map_of m k"
    unfolding load_metrics_def
  proof (rule fold_mput_same[OF _ _ wf])
    show "distinct (map (\<lambda>s. (MFrom s, MTo s, MResult s)) (sort_metrics ?ms))"
      using wf by (simp only: distinct_sort_metrics key wf_map_def)
    show "\<forall>s \<in> set (sort_metrics ?ms). \<not> (stringsTrim (MFrom s) = [] \<or> stringsTrim (MTo s) = [] \<or> stringsTrim (MResult s) = [] \<or> MCount s = 0)"
      using assms by (auto simp: tidy_totals_def nonblank_def)
    show "(k, v) \<in> set m \<longleftrightarrow> (\<exists>s \<in> set (sort_metrics ?ms). (MFrom s, MTo s, MResult s) = k \<and> MCount s = v)" for k v
      by (cases k) force
  qed
  then show ?thesis by (simp only: all append_Nil2)
qed

text \<open>
  C28.  A manager that is started from the state another one wrote knows what that one knew: where every agent and every
  resume token belongs, every organization with its members and revision, and every switch counter - as long as no
  name is blank, organizations are filed under their own name and counters are above zero (\<open>tidy\<close>).
\<close>

theorem state_survives:
  assumes "tidy m" and "AgentToWorld m0 = []" "ResumeToWorld m0 = []" "GlobalOrgMeta m0 = []" "SwitchTotals m0 = []"
    and "m' = load_state (snapshotState m) m0"
  shows "map_of (AgentToWorld m') = map_of (AgentToWorld m) \<and> map_of (ResumeToWorld m') = map_of (ResumeToWorld m) \<and>
    map_of (GlobalOrgMeta m') = map_of (GlobalOrgMeta m) \<and> map_of (SwitchTotals m') = map_of (SwitchTotals m)"
  using assms load_pairs_same load_orgs_same load_metrics_same
  by (simp add: tidy_def load_state_def snapshotState_def fun_eq_iff)

definition busy_manager :: manager where
  "busy_manager = two_worlds\<lparr>ResumeToWorld := [(''tok'', ''MINE_L1'')], GlobalOrgMeta := [(''ORG000001'', foreign_guild)],
     SwitchTotals := [((''OVERWORLD'', ''MINE_L1'', ''ok''), 3), ((''MINE_L1'', ''OVERWORLD'', ''denied''), 1)]\<rparr>"

definition fresh_manager :: manager where
  "fresh_manager = two_worlds\<lparr>AgentToWorld := []\<rparr>"

lemma nonblank_ends: "s \<noteq> [] \<Longrightarrow> \<not> is_blank (hd s) \<Longrightarrow> \<not> is_blank (last s) \<Longrightarrow> nonblank s"
proof -
  assume a: "s \<noteq> []" "\<not> is_blank (hd s)" "\<not> is_blank (last s)"
  then have "dropWhile is_blank s = s" by (cases s) simp_all
  moreover from a have "dropWhile is_blank (rev s) = rev s" by (cases s rule: rev_cases) simp_all
  ultimately show "nonblank s" using a(1) by (simp add: nonblank_def stringsTrim_def)
qed

theorem state_survives_witness:
  "map_of (SwitchTotals (load_state (snapshotState busy_manager) fresh_manager)) (''OVERWORLD'', ''MINE_L1'', ''ok'') = Some 3 \<and>
   map_of (ResumeToWorld (load_state (snapshotState busy_manager) fresh_manager)) ''tok'' = Some ''MINE_L1''"
proof -
  have t: "tidy busy_manager"
    by (simp add: tidy_def busy_manager_def two_worlds_def tidy_pairs_def tidy_orgs_def tidy_totals_def wf_map_def foreign_guild_def
        nonblank_ends is_blank_def)
  have f: "AgentToWorld fresh_manager = []" "ResumeToWorld fresh_manager = []" "GlobalOrgMeta fresh_manager = []"
    "SwitchTotals fresh_manager = []" by (simp_all add: fresh_manager_def two_worlds_def)
  from state_survives[OF t f refl]
  have "map_of (SwitchTotals (load_state (snapshotState busy_manager) fresh_manager)) = map_of (SwitchTotals busy_manager)"
    "map_of (ResumeToWorld (load_state (snapshotState busy_manager) fresh_manager)) = map_of (ResumeToWorld busy_manager)" by blast+
  then show ?thesis by (simp only:) (simp add: busy_manager_def)
qed


section \<open>Refreshing\<close>

text \<open>A guild in two worlds, as the metadata of one revision.\<close>

definition guild_meta :: "u64 \<Rightarrow> string list \<Rightarrow> org_meta" where
  "guild_meta n others = \<lparr>MetaOrgID = ''ORG000001'', MetaKind = OrgGuild, MetaName = ''Miners'', MetaCreatedTick = 7, MetaRev = n,
     MetaMembers = (''A1'', OrgLeader) # map (\<lambda>aid. (aid, OrgMember)) others\<rparr>"

definition guild_at :: "u64 \<Rightarrow> string list \<Rightarrow> world" where
  "guild_at n others = empty_world\<lparr>orgs := [(''ORG000001'', \<lparr>OrgID = ''ORG000001'', OKind = OrgGuild, OName = ''Miners'',
     OCreatedTick = 7, MetaVersion = n, OMembers = MetaMembers (guild_meta n others), Treasury = ViewOf (treasury_key (WorldID (cfg empty_world))),
     TreasuryByWorld = [(treasury_key (WorldID (cfg empty_world)), [])]\<rparr>)]\<rparr>"

lemma snapshot_one: "handleOrgMetaReq (guild_at n []) = [guild_meta n []]"
  by (simp add: handleOrgMetaReq_def guild_at_def SnapshotOrgMeta_def NormalizeStates_def StatesFromOrganizations_def meta_of_def
      state_record_def named_members_def MetaMapFromRecords_def SortedRecordsFromMeta_def SortedMeta_def NormalizeMembers_def sorted_keys_def guild_meta_def mput_def)

lemma snapshot_two: "handleOrgMetaReq (guild_at n [''A2'']) = [guild_meta n [''A2'']]"
  by (simp add: handleOrgMetaReq_def guild_at_def SnapshotOrgMeta_def NormalizeStates_def StatesFromOrganizations_def meta_of_def
      state_record_def named_members_def MetaMapFromRecords_def SortedRecordsFromMeta_def SortedMeta_def NormalizeMembers_def sorted_keys_def guild_meta_def mput_def)


lemma guild_at_ok: "orgs_ok (guild_at n [])" "orgs_ok (guild_at n [''A2''])"
  by (auto simp: orgs_ok_def guild_at_def guild_meta_def wf_map_def split: if_splits)

lemma guild_normal: "normal_meta (guild_meta n []) = guild_meta n []" "normal_meta (guild_meta n [''A2'']) = guild_meta n [''A2'']"
  by (simp_all add: normal_meta_def guild_meta_def NormalizeMembers_def sorted_keys_def)

lemma guild_view: "org_view (guild_at n others) k = (if k = ''ORG000001'' then Some (normal_meta (guild_meta n others)) else None)"
  by (simp add: org_view_def guild_at_def guild_meta_def meta_of_def)

text \<open>A world takes over a newer revision and keeps its own against an older one.\<close>

lemma upsert_guild:
  assumes "others \<in> {[], [''A2'']}" "w' = ApplyOrgMetaUpsert [guild_meta k []] (guild_at n others)"
  shows "org_view w' ''ORG000001'' = Some (if k < n then guild_meta n others else guild_meta k [])"
proof -
  have ok: "orgs_ok (guild_at n others)" "normal_meta (guild_meta n others) = guild_meta n others"
    using assms(1) guild_at_ok guild_normal by auto
  have "keyed_list [guild_meta k []]" by (simp add: keyed_list_def guild_meta_def wf_map_def)
  from upsert_orgs(3)[OF ok(1) this assms(2), of "''ORG000001''"]
  have "org_view w' ''ORG000001'' = Some (fst (MergeMeta (guild_meta n others) (guild_meta k [])))"
    by (simp add: merged_view_def guild_view find_meta_def guild_normal ok(2) merged_meta_def) (simp add: guild_meta_def)
  also have "fst (MergeMeta (guild_meta n others) (guild_meta k [])) = (if k < n then guild_meta n others else guild_meta k [])"
    by (auto simp: MergeMeta_def Let_def guild_meta_def NormalizeMembers_def sorted_keys_def)
  finally show ?thesis .
qed

text \<open>
  Everybody agreed on revision 3.  In one world somebody joined and left again, in the other one somebody joined.
\<close>

definition split_guild :: "org_meta gomap \<Rightarrow> manager" where
  "split_guild known = two_worlds\<lparr>Runtimes := [(''A'', \<lparr>RtSpec = spec_named ''A'', RtWorld = guild_at 5 []\<rparr>),
     (''B'', \<lparr>RtSpec = spec_named ''B'', RtWorld = guild_at 4 [''A2'']\<rparr>)], GlobalOrgMeta := known\<rparr>"

lemma stringsTrim_org: "stringsTrim ''ORG000001'' = ''ORG000001''" "stringsTrim ''A1'' = ''A1''" "stringsTrim ''A2'' = ''A2''"
  by (simp_all add: stringsTrim_def is_blank_def)

lemma candidate_guild: "candidate (guild_meta n []) = guild_meta n []" "candidate (guild_meta n [''A2'']) = guild_meta n [''A2'']"
  by (simp_all add: candidate_def trim_members_def guild_meta_def stringsTrim_org)

lemma collect_split:
  "collect_worlds (\<lambda>_. prompt) [''A'', ''B''] [] None (split_guild known) = ([(''ORG000001'', guild_meta 5 [])], None, split_guild known)"
proof -
  have k: "MetaOrgID (guild_meta n os) = ''ORG000001''" "MetaRev (guild_meta n os) = n" for n os by (simp_all add: guild_meta_def)
  have t: "transfer_metas [guild_meta 5 []] = [guild_meta 5 []]" "transfer_metas [guild_meta 4 [''A2'']] = [guild_meta 4 [''A2'']]"
    by (simp_all add: transfer_metas_def state_record_def named_members_def guild_meta_def)
  have s: "set_world ''A'' (guild_at 5 []) (split_guild known) = split_guild known"
    "set_world ''B'' (guild_at 4 [''A2'']) (split_guild known) = split_guild known"
    by (simp_all add: set_world_def split_guild_def mput_def)
  have r: "map_of (Runtimes (split_guild known)) ''A'' = Some \<lparr>RtSpec = spec_named ''A'', RtWorld = guild_at 5 []\<rparr>"
    "map_of (Runtimes (split_guild known)) ''B'' = Some \<lparr>RtSpec = spec_named ''B'', RtWorld = guild_at 4 [''A2'']\<rparr>"
    by (simp_all add: split_guild_def)
  show ?thesis
    by (simp add: r request_prompt ask_metas_def snapshot_one snapshot_two t s collect_org_def k stringsTrim_org candidate_guild mput_def Let_def)
qed

lemma refresh_split:
  assumes "store_merged [(''ORG000001'', guild_meta 5 [])] known = [(''ORG000001'', guild_meta k [])]"
  shows "\<exists>m a b. RefreshOrgMeta (\<lambda>_. prompt) (\<lambda>_. prompt) (split_guild known) = (None, m) \<and>
    map_of (Runtimes m) ''A'' = Some a \<and> map_of (Runtimes m) ''B'' = Some b \<and>
    org_view (RtWorld a) ''ORG000001'' = Some (if k < 5 then guild_meta 5 [] else guild_meta k []) \<and>
    org_view (RtWorld b) ''ORG000001'' = Some (if k < 4 then guild_meta 4 [''A2''] else guild_meta k [])"
proof -
  let ?m = "split_guild known\<lparr>GlobalOrgMeta := [(''ORG000001'', guild_meta k [])]\<rparr>"
  have ids: "WorldIDs (split_guild known) = [''A'', ''B'']" by (simp add: WorldIDs_def split_guild_def)
  have snap: "snapshotOrgTransfers ?m = [guild_meta k []]"
    by (simp add: snapshotOrgTransfers_def sorted_keys_def candidate_guild)
  have t: "transfer_metas [guild_meta k []] = [guild_meta k []]"
    by (simp add: transfer_metas_def state_record_def named_members_def guild_meta_def)
  define wa where "wa = ApplyOrgMetaUpsert [guild_meta k []] (guild_at 5 [])"
  define wb where "wb = ApplyOrgMetaUpsert [guild_meta k []] (guild_at 4 [''A2''])"
  have g: "GlobalOrgMeta (split_guild known) = known" by (simp add: split_guild_def)
  have "RefreshOrgMeta (\<lambda>_. prompt) (\<lambda>_. prompt) (split_guild known) = push_worlds (\<lambda>_. prompt) [guild_meta k []] [''A'', ''B''] None ?m"
    by (simp only: RefreshOrgMeta_def Let_def ids collect_split prod.case g assms snap)
  also have "\<dots> = (None, set_world ''B'' wb (set_world ''A'' wa ?m))"
    by (simp add: request_prompt ask_upsert_def t handleOrgMetaUpsertReq_def split_guild_def set_world_def mput_def wa_def wb_def)
  finally have "RefreshOrgMeta (\<lambda>_. prompt) (\<lambda>_. prompt) (split_guild known) = (None, set_world ''B'' wb (set_world ''A'' wa ?m))" .
  moreover have "map_of (Runtimes (set_world ''B'' wb (set_world ''A'' wa ?m))) ''A'' = Some \<lparr>RtSpec = spec_named ''A'', RtWorld = wa\<rparr>"
    "map_of (Runtimes (set_world ''B'' wb (set_world ''A'' wa ?m))) ''B'' = Some \<lparr>RtSpec = spec_named ''B'', RtWorld = wb\<rparr>"
    by (simp_all add: split_guild_def set_world_def mput_def)
  moreover have "org_view wa ''ORG000001'' = Some (if k < 5 then guild_meta 5 [] else guild_meta k [])"
    by (rule upsert_guild[OF _ wa_def]) simp
  moreover have "org_view wb ''ORG000001'' = Some (if k < 4 then guild_meta 4 [''A2''] else guild_meta k [])"
    by (rule upsert_guild[OF _ wb_def]) simp
  ultimately show ?thesis by (metis mw_runtime.select_convs(2))
qed

text \<open>A world that is sent a lower revision stays exactly as it is.\<close>

lemma upsert_stale:
  assumes "others \<in> {[], [''A2'']}" "k < n"
  shows "ApplyOrgMetaUpsert [guild_meta k []] (guild_at n others) = guild_at n others"
proof -
  have s: "StatesFromOrganizations (orgs (guild_at n others)) = [guild_meta n others]"
    by (simp add: StatesFromOrganizations_def guild_at_def meta_of_def guild_meta_def)
  have r: "state_record (guild_meta m os) = guild_meta m os" if "os \<in> {[], [''A2'']}" for m os
    using that by (auto simp: state_record_def named_members_def guild_meta_def)
  have n: "NormalizeMembers (MetaMembers (guild_meta m os)) = MetaMembers (guild_meta m os)" if "os \<in> {[], [''A2'']}" for m os
    using that by (auto simp: NormalizeMembers_def sorted_keys_def guild_meta_def)
  have u: "guild_meta m os\<lparr>MetaMembers := MetaMembers (guild_meta m os)\<rparr> = guild_meta m os" for m os by simp
  have k: "MetaOrgID (guild_meta m os) = ''ORG000001''" "MetaRev (guild_meta m os) = m" for m os by (simp_all add: guild_meta_def)
  have rec: "MetaMapFromRecords [guild_meta m os] = [(''ORG000001'', guild_meta m os)]" if "os \<in> {[], [''A2'']}" for m os
    using n[OF that] by (simp add: MetaMapFromRecords_def k mput_def)
  have sorted: "SortedMeta [(''ORG000001'', guild_meta m os)] = [guild_meta m os]" if "os \<in> {[], [''A2'']}" for m os
    using n[OF that] by (simp add: SortedMeta_def sorted_keys_def k)
  have "MergeStates [guild_meta n others] [guild_meta k []] =
      ([guild_meta n others], OwnerByAgent [(''ORG000001'', guild_meta n others)])"
    using assms by (simp add: MergeStates_def MergeRecords_def Let_def r rec MergeMetaMaps_def sorted merge_into_def MergeMeta_def k
        mput_def SortedRecordsFromMeta_def n)
  moreover have "ApplyStates (WorldID (cfg (guild_at n others))) [guild_meta n others] (orgs (guild_at n others)) = orgs (guild_at n others)"
    by (simp add: ApplyStates_def apply_state_def guild_at_def guild_meta_def TreasuryFor_def Let_def mput_def)
  moreover have "agents (guild_at n others) = []" by (simp add: guild_at_def empty_world_def)
  ultimately show ?thesis by (simp add: ApplyOrgMetaUpsert_def s Let_def ReconcileAgentsOrg_def)
qed

lemma refresh_fixed:
  "RefreshOrgMeta (\<lambda>_. prompt) (\<lambda>_. prompt) (split_guild [(''ORG000001'', guild_meta 3 [])]) =
     (None, split_guild [(''ORG000001'', guild_meta 3 [])])"
proof -
  let ?m = "split_guild [(''ORG000001'', guild_meta 3 [])]"
  have "orgMetaEqual (guild_meta 3 []) (guild_meta 5 [])" by (simp add: orgMetaEqual_def guild_meta_def)
  then have st: "store_merged [(''ORG000001'', guild_meta 5 [])] [(''ORG000001'', guild_meta 3 [])] = [(''ORG000001'', guild_meta 3 [])]"
    by (simp add: store_merged_def)
  have ids: "WorldIDs ?m = [''A'', ''B'']" by (simp add: WorldIDs_def split_guild_def)
  have g: "GlobalOrgMeta ?m = [(''ORG000001'', guild_meta 3 [])]" "?m\<lparr>GlobalOrgMeta := [(''ORG000001'', guild_meta 3 [])]\<rparr> = ?m"
    by (simp_all add: split_guild_def)
  have snap: "snapshotOrgTransfers ?m = [guild_meta 3 []]" by (simp add: snapshotOrgTransfers_def g sorted_keys_def candidate_guild)
  have t: "transfer_metas [guild_meta 3 []] = [guild_meta 3 []]"
    by (simp add: transfer_metas_def state_record_def named_members_def guild_meta_def)
  have "RefreshOrgMeta (\<lambda>_. prompt) (\<lambda>_. prompt) ?m = push_worlds (\<lambda>_. prompt) [guild_meta 3 []] [''A'', ''B''] None ?m"
    by (simp only: RefreshOrgMeta_def Let_def ids collect_split prod.case g st snap)
  also have "\<dots> = (None, ?m)"
    by (simp add: request_prompt ask_upsert_def t handleOrgMetaUpsertReq_def upsert_stale split_guild_def set_world_def mput_def)
  finally show ?thesis .
qed

text \<open>
  C40. Two worlds hold a guild in revisions 5 and 4.  When the manager remembers nothing, refreshing makes both hold
  revision 5.  When it remembers the members of revision 5 under the number 3, it does not notice the newer number and
  sends out its own, which no world takes: refreshing changes nothing, however often, and the worlds stay different.
\<close>

theorem refresh_stuck:
  "(\<exists>m a b. RefreshOrgMeta (\<lambda>_. prompt) (\<lambda>_. prompt) (split_guild []) = (None, m) \<and>
      map_of (Runtimes m) ''A'' = Some a \<and> map_of (Runtimes m) ''B'' = Some b \<and>
      org_view (RtWorld a) ''ORG000001'' = Some (guild_meta 5 []) \<and> org_view (RtWorld b) ''ORG000001'' = Some (guild_meta 5 [])) \<and>
   (\<forall>n. ((\<lambda>m. snd (RefreshOrgMeta (\<lambda>_. prompt) (\<lambda>_. prompt) m)) ^^ n) (split_guild [(''ORG000001'', guild_meta 3 [])]) =
      split_guild [(''ORG000001'', guild_meta 3 [])]) \<and>
   (\<exists>a b. map_of (Runtimes (split_guild [(''ORG000001'', guild_meta 3 [])])) ''A'' = Some a \<and>
      map_of (Runtimes (split_guild [(''ORG000001'', guild_meta 3 [])])) ''B'' = Some b \<and>
      org_view (RtWorld a) ''ORG000001'' = Some (guild_meta 5 []) \<and> org_view (RtWorld b) ''ORG000001'' = Some (guild_meta 4 [''A2'']))"
proof -
  have "store_merged [(''ORG000001'', guild_meta 5 [])] [] = [(''ORG000001'', guild_meta 5 [])]"
    by (simp add: store_merged_def mput_def)
  note new = refresh_split[OF this]
  have "((\<lambda>m. snd (RefreshOrgMeta (\<lambda>_. prompt) (\<lambda>_. prompt) m)) ^^ n) (split_guild [(''ORG000001'', guild_meta 3 [])]) =
      split_guild [(''ORG000001'', guild_meta 3 [])]" for n
    by (induction n) (simp_all add: refresh_fixed)
  moreover have "org_view (guild_at 5 []) ''ORG000001'' = Some (guild_meta 5 [])"
    "org_view (guild_at 4 [''A2'']) ''ORG000001'' = Some (guild_meta 4 [''A2''])" by (simp_all add: guild_view guild_normal)
  ultimately show ?thesis using new by (simp add: split_guild_def)
qed

end
