(* ===== verification/Spec2Isabelle.thy ===== *)
theory Spec2Isabelle
  imports Contract_Market Org_Handlers Land_Governance Codec World_Step Logistics Multiworld_State
begin

text \<open>
  Verification of the VoxelCraft world simulation (Go, \<open>src/internal/sim\<close>).

  The program.  A world is a server loop (\<open>world/runtime_loop.go\<close>) that owns all state.  Clients join or resume, send
  actions and leave; the loop queues them and once per tick runs \<open>stepInternal\<close> (\<open>world/runtime_step.go\<close>): season
  rollover, leaves, joins and transfers, the maintenance of claims, the actions in their order, then the systems one
  after the other - movement, work, conveyors, environment, laws, director, contracts, fun.  Actions reach a handler through the tables
  of \<open>instants_dispatch.go\<close> and \<open>tasks_dispatch.go\<close>.  Above the worlds a manager (\<open>multiworld/manager.go\<close>) keeps who lives
  where, moves agents between worlds and merges the metadata of organizations.

  How Go is modelled.  \<open>int\<close> is an integer that every arithmetic operation of the code wraps with \<open>i64\<close>; \<open>uint64\<close> is a
  64-bit word.  A Go map is an association list (\<open>mput\<close>, \<open>mdel\<close>, \<open>map_of\<close>) whose order is its enumeration order, so that
  a theorem about every such list is about every order; a nil map is the empty list.  A pointer is the key of the object
  in its map, so that an alias is the same key.  A handler is a function from a world to a world that follows the branches
  of the code and adds the events and audits the code emits.  Strings are lists of bytes.  Errors are values
  of a sum type, or the events the code answers with.  Loops are structural recursions or folds over what the code
  ranges over; the one loop whose end is not obvious (\<open>pull_item\<close>) is a \<open>partial_function\<close> in the option monad, where
  \<open>None\<close> stands for not returning.  Three loops count their turns down from a number the code does not have: trimming
  a string (its length; every turn drops a byte), rotating the buckets of the statistics (\<open>rotations\<close>, exact by
  \<open>rotate_done\<close>) and the queue of the flood fill (the number of blocks; \<open>flood_closed\<close> shows that the queue is empty then).

  Parameters.  What the code calls but does not define is an argument: the conversion of decimal strings to floats and
  the rounding of products (\<open>go_floats\<close>), rounding to float64 in the director (\<open>rnd\<close>, floats are reals elsewhere), lower-casing
  of Unicode (\<open>lower\<close>), SHA-256 of a chunk, and what happens to a request between the manager and a world (\<open>exchange\<close>:
  it is answered, never taken, or taken but answered too late).

  The theories, from the bottom to the top.
  \<^item> \<open>Prelude\<close>, \<open>Logic_Helpers\<close>: wrapped arithmetic, maps, strings; the pure helpers of \<open>world/logic\<close>.
  \<^item> \<open>Kernel_Model\<close>, \<open>Agent_Model\<close>, \<open>Inventory_Model\<close>, \<open>Stats_Model\<close>: the records of \<open>kernel/model\<close>, the agent with its event
    log, rate limits and seen sets, item maps with taxed transfers, statistics and the support of structures.
  \<^item> \<open>Land_Rules\<close>, \<open>World_Config\<close>, \<open>World_Model\<close>: the pure rules of claims, permissions, laws and organizations; all
    settings; the world record with blocks, items by reference, events and permissions.
  \<^item> \<open>Trade_Model\<close>, \<open>Claim_Handlers\<close>, \<open>Law_Handlers\<close>, \<open>Land_Governance\<close>, \<open>Org_Handlers\<close>: the instants of
    \<open>feature/economy\<close> and \<open>feature/governance\<close> and their ticks.
  \<^item> \<open>Contract_Rules\<close>, \<open>Contract_Handlers\<close>, \<open>Contract_Flows\<close>, \<open>Contract_Escrow\<close>, \<open>Contract_Market\<close>: \<open>feature/contracts\<close>,
    its booking of items, the escrow invariant and contracts as a transition system.
  \<^item> \<open>Grid_Search\<close>, \<open>Item_Entities\<close>, \<open>Conveyor_Model\<close>, \<open>Work_Tasks\<close>, \<open>Work_Exec\<close>, \<open>Work_Blueprint\<close>, \<open>Logistics\<close>: power
    and detour searches, items on the ground, belts, the work tasks of \<open>feature/work\<close>, and all of these as one
    transition system that moves items.
  \<^item> \<open>Terrain\<close>, \<open>Survival_Model\<close>, \<open>Movement_Model\<close>: chunks on demand refine one total block function; hunger, cold and
    respawn; the movement system.
  \<^item> \<open>Director_Model\<close>, \<open>Season_Model\<close>, \<open>Session_Model\<close>, \<open>Board_Handlers\<close>, \<open>Transfer_Model\<close>, \<open>Codec\<close>: events and their spawn
    plans; the season reset and fun awards; sessions, chat, memory; boards, signs, switches; agents and organization
    metadata between worlds; what is sent of the blocks.
  \<^item> \<open>Agent_Frame\<close>, \<open>World_Step\<close>: the dispatch, the whole tick and the server loop.
  \<^item> \<open>Multiworld_Config\<close>, \<open>Multiworld_Manager\<close>, \<open>Multiworld_Switch\<close>, \<open>Multiworld_State\<close>: the configuration of several
    worlds, the manager, world switches with lost and late answers, the persisted state and the refresh of organizations.

  Interfaces.  \<open>inventory_store\<close> says what reading an inventory by its reference returns after a write, and moves items
  along it; the world provides it (\<open>inv\<close>).  \<open>block_grid\<close> is what callers rely on when reading and writing blocks; the chunk store
  and the total block function both provide it, and \<open>two_grids\<close> shows that no run of reads and writes tells them apart.
  \<open>seen_set\<close> is the contract of the three sets an agent remembers.

  What the groups of lemmas show.
  \<^item> Items: trades, contracts, belts, work and transfers neither create nor destroy items, escrow covers what contracts
    promise, and materials are pulled all or nothing - with the exact conditions under which 64-bit counts
    wrap and this fails.
  \<^item> Life cycles: contracts and laws keep their terms and move only along their state machines; votes enact exactly
    what the template orders; claims never overlap; an organization has one leader; the organization handlers refine
    a specification of membership.
  \<^item> Places: searches find exactly what is connected within their budget; movement stays in bounds and out of
    solid blocks; vitals stay in range; events and seasons change what they announce.
  \<^item> Identity: tokens rotate, repeated requests are answered as the first, nobody is lost in a tick, and all
    clients of the loop belong to an agent; an agent switching worlds is in one world while answers come in time.
  \<^item> Encodings: voxels, chunks and the state of the manager survive writing and reading.
  \<^item> Divergences: what happens when a map is enumerated in another order, a deposit overflows, a client reconnects within
    a tick, a join meets a traveller's identifier, a world answers the manager too late.

  Bounds.  A theorem names the ranges it needs: counts that do not wrap (items are bounded by the 64-bit range),
  coordinates within \<open>2 ^ 60\<close> so that squares of distances are compared as written, and maps without duplicate keys
  (\<open>wf_map\<close>), which is what makes a list a Go map.  The invariants show that the operations keep them.

  Not modelled: building and streaming observations (read-only views), export and import of whole snapshots and the state
  digest (field-by-field copies and hashing), the tick log, timers and resource-density metrics (output), reading JSON,
  YAML and files, channels, goroutines and debounce timers of the manager, and the processes around the simulation
  (transport, servers, the bridge for tool calls, the index database).
\<close>

end
